(* ===== verification/Prelude.thy ===== *)
theory Prelude
  imports Main "HOL-Library.Word" "HOL-Library.AList" "HOL-Library.Char_ord"
    "HOL-Library.List_Lexorder" "HOL-Library.Product_Lexorder"
begin

text \<open>
  Prelude of the qURL Connector development: the types that name the model's values, the
  collections of facts the component theories share, Go's string and base64 helpers as far as
  the sources use them, and generic lemmas on lists and association lists.

  Go strings are byte strings: a \<open>string\<close> here is the list of its bytes. Times and durations are
  integers (nanoseconds, or milliseconds where the code converts), counters with a width in the
  code are words of that width.
\<close>

section \<open>Names of the model's types, collections of facts\<close>

type_synonym time = int
type_synonym duration = int
type_synonym millis = int
type_synonym uint32 = "32 word"
type_synonym uint64 = "64 word"

named_theorems status_simps \<open>equations of the status predicates\<close>
named_theorems inv_intros \<open>introduction rules of the components' invariants\<close>
named_theorems inv_dests \<open>destruction rules of the components' invariants\<close>

definition millisecond :: duration where "millisecond = 1000000"
definition second :: duration where "second = 1000000000"
definition minute :: duration where "minute = 60000000000"

lemmas duration_defs = second_def millisecond_def minute_def

definition maxInt64 :: int where "maxInt64 = 9223372036854775807"
definition maxUint32 :: uint32 where "maxUint32 = 4294967295"

lemma unat_maxUint32: "unat maxUint32 = 4294967295"
  by (simp add: maxUint32_def)

section \<open>Checked increments of 32-bit counters\<close>

text \<open>Where the counter is not exhausted, adding one does not wrap around.\<close>

lemma unat_inc_uint32:
  fixes w :: uint32
  assumes "w \<noteq> maxUint32"
  shows "unat (w + 1) = unat w + 1"
proof -
  have "unat w \<noteq> 4294967295"
    using assms unat_maxUint32 by (metis unsigned_word_eqI)
  moreover have "unat w < 4294967296"
    using unsigned_less [of w] by simp
  ultimately have "unat w + 1 < 4294967296" by simp
  then show ?thesis by (simp add: unat_word_ariths)
qed

lemma inc_uint32_gt: "w \<noteq> maxUint32 \<Longrightarrow> w < w + 1" for w :: uint32
  by (simp add: word_less_nat_alt unat_inc_uint32)

lemma inc_uint32_diff [simp]: "(w + 1) - w = 1" for w :: uint32
  by simp

section \<open>Lists\<close>

text \<open>Go's slice deletion \<open>append(xs[:i], xs[i+1:]...)\<close>.\<close>

definition remove_nth :: "nat \<Rightarrow> 'a list \<Rightarrow> 'a list" where
  "remove_nth i xs = take i xs @ drop (Suc i) xs"

lemma mset_subset_remove_nth: "set (remove_nth i xs) \<subseteq> set xs"
  by (auto simp: remove_nth_def dest: in_set_takeD in_set_dropD)

lemma set_remove_nth_distinct:
  assumes "distinct (map f xs)" and "i < length xs"
  shows "set (remove_nth i xs) = {x \<in> set xs. f x \<noteq> f (xs ! i)}"
proof -
  have xs: "xs = take i xs @ xs ! i # drop (Suc i) xs"
    using assms(2) by (rule id_take_nth_drop)
  then have "map f xs = map f (take i xs) @ f (xs ! i) # map f (drop (Suc i) xs)"
    by (metis list.simps(9) map_append)
  with assms(1) have "f (xs ! i) \<notin> f ` set (take i xs) \<union> f ` set (drop (Suc i) xs)"
    by simp
  moreover have "set xs = insert (xs ! i) (set (take i xs) \<union> set (drop (Suc i) xs))"
    by (subst xs) auto
  ultimately show ?thesis unfolding remove_nth_def set_append by (auto simp: image_iff)
qed

lemma distinct_map_remove_nth:
  assumes "distinct (map f xs)"
  shows "distinct (map f (remove_nth i xs))"
proof (cases "i < length xs")
  case True
  then have "map f xs = map f (take i xs) @ f (xs ! i) # map f (drop (Suc i) xs)"
    by (metis id_take_nth_drop list.simps(9) map_append)
  with assms show ?thesis by (auto simp: remove_nth_def)
next
  case False
  with assms show ?thesis by (simp add: remove_nth_def)
qed

text \<open>\<open>slices.IndexFunc\<close>-style search: the least index whose element satisfies the test.\<close>

fun find_index :: "('a \<Rightarrow> bool) \<Rightarrow> 'a list \<Rightarrow> nat option" where
  "find_index P [] = None"
| "find_index P (x # xs) = (if P x then Some 0 else map_option Suc (find_index P xs))"

lemma find_index_Some:
  "find_index P xs = Some i \<Longrightarrow> i < length xs \<and> P (xs ! i)"
  by (induction xs arbitrary: i) (auto split: if_splits)

lemma find_index_None: "find_index P xs = None \<longleftrightarrow> (\<forall>x \<in> set xs. \<not> P x)"
  by (induction xs) auto

lemma find_index_ex: "x \<in> set xs \<Longrightarrow> P x \<Longrightarrow> \<exists>i. find_index P xs = Some i"
  using find_index_None by (metis option.exhaust)

lemma distinct_map_update:
  assumes "distinct (map f xs)" and "i < length xs" and "f y = f (xs ! i)"
  shows "distinct (map f (xs[i := y]))"
proof -
  have "map f (xs[i := y]) = (map f xs)[i := f (xs ! i)]"
    by (simp add: map_update assms(3))
  also have "\<dots> = map f xs" using assms(2) by (simp add: list_update_same_conv)
  finally show ?thesis using assms(1) by simp
qed

lemma set_update_distinct:
  assumes "distinct (map f xs)" and "i < length xs"
  shows "set (xs[i := y]) = insert y {x \<in> set xs. f x \<noteq> f (xs ! i)}"
proof -
  have "set (xs[i := y]) = insert y (set (remove_nth i xs))"
    using assms(2) by (simp add: upd_conv_take_nth_drop remove_nth_def)
  then show ?thesis using set_remove_nth_distinct [OF assms] by simp
qed

section \<open>Go strings\<close>

text \<open>
  \<open>strings.HasPrefix\<close>, \<open>strings.HasSuffix\<close>, \<open>strings.TrimPrefix\<close>, \<open>strings.TrimSuffix\<close> and
  \<open>strings.ContainsAny\<close> on byte strings.
\<close>

fun hasPrefix :: "string \<Rightarrow> string \<Rightarrow> bool" where
  "hasPrefix [] s = True"
| "hasPrefix (c # cs) [] = False"
| "hasPrefix (c # cs) (d # ds) = (c = d \<and> hasPrefix cs ds)"

definition hasSuffix :: "string \<Rightarrow> string \<Rightarrow> bool" where
  "hasSuffix p s = hasPrefix (rev p) (rev s)"

definition trimPrefix :: "string \<Rightarrow> string \<Rightarrow> string" where
  "trimPrefix p s = (if hasPrefix p s then drop (length p) s else s)"

definition trimSuffix :: "string \<Rightarrow> string \<Rightarrow> string" where
  "trimSuffix p s = (if hasSuffix p s then take (length s - length p) s else s)"

definition containsAny :: "string \<Rightarrow> char list \<Rightarrow> bool" where
  "containsAny s cs = list_ex (\<lambda>c. c \<in> set cs) s"

lemma hasPrefix_iff: "hasPrefix p s \<longleftrightarrow> (\<exists>t. s = p @ t)"
  by (induction p s rule: hasPrefix.induct) auto

lemma hasPrefix_append [simp]: "hasPrefix p (p @ t)"
  by (simp add: hasPrefix_iff)

lemma hasPrefix_length: "hasPrefix p s \<Longrightarrow> length p \<le> length s"
  by (auto simp: hasPrefix_iff)

lemma hasSuffix_iff: "hasSuffix p s \<longleftrightarrow> (\<exists>t. s = t @ p)"
proof -
  have "hasPrefix (rev p) (rev s) \<longleftrightarrow> (\<exists>t. rev s = rev p @ t)" by (rule hasPrefix_iff)
  also have "\<dots> \<longleftrightarrow> (\<exists>t. s = t @ p)"
    by (metis rev_append rev_rev_ident)
  finally show ?thesis by (simp add: hasSuffix_def)
qed

text \<open>\<open>strings.Split\<close> on one separator byte: always at least one part.\<close>

fun splitOn :: "char \<Rightarrow> string \<Rightarrow> string list" where
  "splitOn sep [] = [[]]"
| "splitOn sep (c # cs) =
     (if c = sep then [] # splitOn sep cs
      else (case splitOn sep cs of [] \<Rightarrow> [[c]] | p # ps \<Rightarrow> (c # p) # ps))"

lemma splitOn_nonempty [simp]: "splitOn sep s \<noteq> []"
  by (induction s) (auto split: list.splits)

lemma splitOn_set: "p \<in> set (splitOn sep s) \<Longrightarrow> c \<in> set p \<Longrightarrow> c \<in> set s"
  by (induction s arbitrary: p) (force split: if_splits list.splits)+

lemma splitOn_covers: "c \<in> set s \<Longrightarrow> c \<noteq> sep \<Longrightarrow> \<exists>p \<in> set (splitOn sep s). c \<in> set p"
proof (induction s)
  case Nil
  then show ?case by simp
next
  case (Cons d s)
  obtain p ps where ps: "splitOn sep s = p # ps" by (cases "splitOn sep s") auto
  from Cons show ?case by (auto simp: ps)
qed

text \<open>
  \<open>strings.TrimSpace\<close> removes every leading and trailing Unicode space: the ASCII ones and the
  UTF-8 encodings of U+0085, U+00A0, U+1680, U+2000 to U+200A, U+2028, U+2029, U+202F, U+205F
  and U+3000.
\<close>

definition goSpaces :: "string list" where
  "goSpaces = [[CHR 0x09], [CHR 0x0A], [CHR 0x0B], [CHR 0x0C], [CHR 0x0D], [CHR 0x20],
     [CHR 0xC2, CHR 0x85], [CHR 0xC2, CHR 0xA0], [CHR 0xE1, CHR 0x9A, CHR 0x80],
     [CHR 0xE2, CHR 0x80, CHR 0x80], [CHR 0xE2, CHR 0x80, CHR 0x81], [CHR 0xE2, CHR 0x80, CHR 0x82],
     [CHR 0xE2, CHR 0x80, CHR 0x83], [CHR 0xE2, CHR 0x80, CHR 0x84], [CHR 0xE2, CHR 0x80, CHR 0x85],
     [CHR 0xE2, CHR 0x80, CHR 0x86], [CHR 0xE2, CHR 0x80, CHR 0x87], [CHR 0xE2, CHR 0x80, CHR 0x88],
     [CHR 0xE2, CHR 0x80, CHR 0x89], [CHR 0xE2, CHR 0x80, CHR 0x8A], [CHR 0xE2, CHR 0x80, CHR 0xA8],
     [CHR 0xE2, CHR 0x80, CHR 0xA9], [CHR 0xE2, CHR 0x80, CHR 0xAF], [CHR 0xE2, CHR 0x81, CHR 0x9F],
     [CHR 0xE3, CHR 0x80, CHR 0x80]]"

lemma goSpaces_nonempty: "sp \<in> set goSpaces \<Longrightarrow> 0 < length sp"
  by (auto simp: goSpaces_def)

function trimLeftOf :: "string list \<Rightarrow> string \<Rightarrow> string" where
  "trimLeftOf sps s =
     (case List.find (\<lambda>sp. sp \<noteq> [] \<and> hasPrefix sp s) sps of
        None \<Rightarrow> s
      | Some sp \<Rightarrow> trimLeftOf sps (drop (length sp) s))"
  by pat_completeness auto
termination
proof (relation "measure (\<lambda>(sps, s). length s)")
  fix sps :: "string list" and s sp :: string
  assume "List.find (\<lambda>sp. sp \<noteq> [] \<and> hasPrefix sp s) sps = Some sp"
  then have "sp \<noteq> []" and "hasPrefix sp s" by (auto simp: find_Some_iff)
  then show "((sps, drop (length sp) s), sps, s) \<in> measure (\<lambda>(sps, s). length s)"
    using hasPrefix_length [of sp s] by (cases s; cases sp) auto
qed simp

declare trimLeftOf.simps [simp del]

definition trimSpace :: "string \<Rightarrow> string" where
  "trimSpace s = rev (trimLeftOf (map rev goSpaces) (rev (trimLeftOf goSpaces s)))"

lemma trimLeftOf_suffix: "\<exists>p. s = p @ trimLeftOf sps s"
proof (induction sps s rule: trimLeftOf.induct)
  case (1 sps s)
  show ?case
  proof (cases "List.find (\<lambda>sp. sp \<noteq> [] \<and> hasPrefix sp s) sps")
    case None
    then show ?thesis by (simp add: trimLeftOf.simps)
  next
    case (Some sp)
    with 1 obtain p where "drop (length sp) s = p @ trimLeftOf sps (drop (length sp) s)" by blast
    then have "s = (take (length sp) s @ p) @ trimLeftOf sps (drop (length sp) s)"
      by (metis append.assoc append_take_drop_id)
    with Some have "s = (take (length sp) s @ p) @ trimLeftOf sps s"
      by (simp add: trimLeftOf.simps [of sps s])
    then show ?thesis by blast
  qed
qed

lemma trimLeftOf_stable: "\<forall>sp \<in> set sps. sp \<noteq> [] \<longrightarrow> \<not> hasPrefix sp (trimLeftOf sps s)"
proof (induction sps s rule: trimLeftOf.induct)
  case (1 sps s)
  show ?case
  proof (cases "List.find (\<lambda>sp. sp \<noteq> [] \<and> hasPrefix sp s) sps")
    case None
    then have "trimLeftOf sps s = s" by (simp add: trimLeftOf.simps [of sps s])
    with None show ?thesis by (auto simp: find_None_iff)
  next
    case (Some sp)
    with 1 show ?thesis by (simp add: trimLeftOf.simps [of sps s])
  qed
qed

end
