(* ===== verification/Go_Errors.thy ===== *)
theory Go_Errors
  imports Prelude
begin

text \<open>
  Go error values as trees, and the error classifiers of \<open>pkg/share/native.go\<close> and
  \<open>pkg/share/session_operation.go\<close>.

  A Go error is a layer with an identity and zero or more wrapped errors. \<open>Leaf\<close> is an error whose
  \<open>Unwrap\<close> is missing or returns nil, \<open>Wrap\<close> one with \<open>Unwrap() error\<close> (\<open>fmt.Errorf\<close> with one
  \<open>%w\<close>), \<open>Multi\<close> one with \<open>Unwrap() []error\<close> (\<open>errors.Join\<close>, \<open>fmt.Errorf\<close> with several \<open>%w\<close>). The
  tag of a layer says what the code can observe of it: a package-level sentinel, the typed errors
  of qurl-go the classifiers look for, an \<open>os.PathError\<close>, or only a message.
\<close>

section \<open>The error tree\<close>

text \<open>Sentinels of this repository, of the Go library, of qurl-go and of its UDP transport.\<close>

datatype sentinel =
    SConflict | SCASLost | SJournalCorrupt | SInvalidRefreshMarker
  | SResourceGone | SGroupEmpty | SRouteNotServing | SSessionGroupEnded
  | SAdmissionStale | SRefreshBackoffPending | SDeviceRecoveryNotAllowed | SRecoveryDeferred
  | SCanceled | SDeadlineExceeded | SNetClosed | SOsPermission
  | SOsNotExist | SIdentityCacheNotFound | SConfigLockMissing
  | Qurl string  \<comment> \<open>a sentinel \<open>qurl.Err<name>\<close>\<close>
  | Udp string   \<comment> \<open>a sentinel \<open>nativeudp.Err<name>\<close>\<close>

abbreviation UdpResolve :: sentinel where "UdpResolve \<equiv> Udp ''Resolve''"
abbreviation UdpTransport :: sentinel where "UdpTransport \<equiv> Udp ''Transport''"
abbreviation UdpNoReply :: sentinel where "UdpNoReply \<equiv> Udp ''NoReply''"
abbreviation UdpServerUnauthenticated :: sentinel where "UdpServerUnauthenticated \<equiv> Udp ''ServerUnauthenticated''"
abbreviation QEndpointNoReply :: sentinel where "QEndpointNoReply \<equiv> Qurl ''EndpointNoReply''"
abbreviation QInvalidNativeSessionOperation :: sentinel where "QInvalidNativeSessionOperation \<equiv> Qurl ''InvalidNativeSessionOperation''"
abbreviation QInvalidAgentState :: sentinel where "QInvalidAgentState \<equiv> Qurl ''InvalidAgentState''"
abbreviation QAgentStateContinuity :: sentinel where "QAgentStateContinuity \<equiv> Qurl ''AgentStateContinuity''"
abbreviation QAgentSetupLock :: sentinel where "QAgentSetupLock \<equiv> Qurl ''AgentSetupLock''"
abbreviation QDeviceCredentialMissing :: sentinel where "QDeviceCredentialMissing \<equiv> Qurl ''DeviceCredentialMissing''"
abbreviation QRecoveryCredentialRejected :: sentinel where "QRecoveryCredentialRejected \<equiv> Qurl ''RecoveryCredentialRejected''"
abbreviation QCredentialRecoveryIdentityRejected :: sentinel where "QCredentialRecoveryIdentityRejected \<equiv> Qurl ''CredentialRecoveryIdentityRejected''"
abbreviation QCredentialRecoveryRevokeRequired :: sentinel where "QCredentialRecoveryRevokeRequired \<equiv> Qurl ''CredentialRecoveryRevokeRequired''"
abbreviation QCredentialRecoveryRequestRejected :: sentinel where "QCredentialRecoveryRequestRejected \<equiv> Qurl ''CredentialRecoveryRequestRejected''"
abbreviation QCredentialRecoveryAssignmentRequired :: sentinel where "QCredentialRecoveryAssignmentRequired \<equiv> Qurl ''CredentialRecoveryAssignmentRequired''"
abbreviation QCredentialRecoveryCandidateConflict :: sentinel where "QCredentialRecoveryCandidateConflict \<equiv> Qurl ''CredentialRecoveryCandidateConflict''"
abbreviation QCredentialRecoveryInvalidResponse :: sentinel where "QCredentialRecoveryInvalidResponse \<equiv> Qurl ''CredentialRecoveryInvalidResponse''"
abbreviation QCredentialRecoveryExpired :: sentinel where "QCredentialRecoveryExpired \<equiv> Qurl ''CredentialRecoveryExpired''"
abbreviation QCredentialRecoveredAssignmentRefreshRequired :: sentinel where "QCredentialRecoveredAssignmentRefreshRequired \<equiv> Qurl ''CredentialRecoveredAssignmentRefreshRequired''"
abbreviation QCredentialRecoveryRequired :: sentinel where "QCredentialRecoveryRequired \<equiv> Qurl ''CredentialRecoveryRequired''"
abbreviation QAssignmentIdentityRejected :: sentinel where "QAssignmentIdentityRejected \<equiv> Qurl ''AssignmentIdentityRejected''"
abbreviation QAssignmentUnavailable :: sentinel where "QAssignmentUnavailable \<equiv> Qurl ''AssignmentUnavailable''"
abbreviation QAssignmentRecoveryRequired :: sentinel where "QAssignmentRecoveryRequired \<equiv> Qurl ''AssignmentRecoveryRequired''"
abbreviation QAssignmentReassignmentRequired :: sentinel where "QAssignmentReassignmentRequired \<equiv> Qurl ''AssignmentReassignmentRequired''"
abbreviation QAssignmentRateLimited :: sentinel where "QAssignmentRateLimited \<equiv> Qurl ''AssignmentRateLimited''"
abbreviation QAgentBindingPersistence :: sentinel where "QAgentBindingPersistence \<equiv> Qurl ''AgentBindingPersistence''"
abbreviation QAgentStateKeyWrapper :: sentinel where "QAgentStateKeyWrapper \<equiv> Qurl ''AgentStateKeyWrapper''"
abbreviation QAssignmentLeaseExpired :: sentinel where "QAssignmentLeaseExpired \<equiv> Qurl ''AssignmentLeaseExpired''"
abbreviation QNativeSessionOperationLeaseMargin :: sentinel where "QNativeSessionOperationLeaseMargin \<equiv> Qurl ''NativeSessionOperationLeaseMargin''"
abbreviation QInvalidNativeKnockInput :: sentinel where "QInvalidNativeKnockInput \<equiv> Qurl ''InvalidNativeKnockInput''"
abbreviation QMalformedReply :: sentinel where "QMalformedReply \<equiv> Qurl ''MalformedReply''"
abbreviation QServerOverloaded :: sentinel where "QServerOverloaded \<equiv> Qurl ''ServerOverloaded''"
abbreviation QInvalidClientConfig :: sentinel where "QInvalidClientConfig \<equiv> Qurl ''InvalidClientConfig''"
abbreviation QInvalidBootstrapConfig :: sentinel where "QInvalidBootstrapConfig \<equiv> Qurl ''InvalidBootstrapConfig''"
abbreviation QInsecureAgentStatePermissions :: sentinel where "QInsecureAgentStatePermissions \<equiv> Qurl ''InsecureAgentStatePermissions''"
abbreviation QInvalidRegisterConfig :: sentinel where "QInvalidRegisterConfig \<equiv> Qurl ''InvalidRegisterConfig''"
abbreviation QRegistrationInvalidInput :: sentinel where "QRegistrationInvalidInput \<equiv> Qurl ''RegistrationInvalidInput''"
abbreviation QRegistrationDisabled :: sentinel where "QRegistrationDisabled \<equiv> Qurl ''RegistrationDisabled''"
abbreviation QKeyRejected :: sentinel where "QKeyRejected \<equiv> Qurl ''KeyRejected''"
abbreviation QRegistrationKeyKindDisallowed :: sentinel where "QRegistrationKeyKindDisallowed \<equiv> Qurl ''RegistrationKeyKindDisallowed''"
abbreviation QDeviceKeyQuotaExceeded :: sentinel where "QDeviceKeyQuotaExceeded \<equiv> Qurl ''DeviceKeyQuotaExceeded''"
abbreviation QAgentIdentityConflict :: sentinel where "QAgentIdentityConflict \<equiv> Qurl ''AgentIdentityConflict''"
abbreviation QRegisterReplyMalformed :: sentinel where "QRegisterReplyMalformed \<equiv> Qurl ''RegisterReplyMalformed''"
abbreviation QInvalidAssignmentConfig :: sentinel where "QInvalidAssignmentConfig \<equiv> Qurl ''InvalidAssignmentConfig''"
abbreviation QAssignmentInvalidResponse :: sentinel where "QAssignmentInvalidResponse \<equiv> Qurl ''AssignmentInvalidResponse''"
abbreviation QAssignmentQuotaExceeded :: sentinel where "QAssignmentQuotaExceeded \<equiv> Qurl ''AssignmentQuotaExceeded''"
abbreviation QAssignmentRequestRejected :: sentinel where "QAssignmentRequestRejected \<equiv> Qurl ''AssignmentRequestRejected''"
abbreviation QAssignmentKeyRejected :: sentinel where "QAssignmentKeyRejected \<equiv> Qurl ''AssignmentKeyRejected''"
abbreviation QAssignmentRegistrationDisabled :: sentinel where "QAssignmentRegistrationDisabled \<equiv> Qurl ''AssignmentRegistrationDisabled''"
abbreviation QAssignmentBootstrapConsumed :: sentinel where "QAssignmentBootstrapConsumed \<equiv> Qurl ''AssignmentBootstrapConsumed''"
abbreviation QAssignmentTicketInvalid :: sentinel where "QAssignmentTicketInvalid \<equiv> Qurl ''AssignmentTicketInvalid''"
abbreviation QAssignmentTicketExpired :: sentinel where "QAssignmentTicketExpired \<equiv> Qurl ''AssignmentTicketExpired''"
abbreviation QCompletionIdentityRejected :: sentinel where "QCompletionIdentityRejected \<equiv> Qurl ''CompletionIdentityRejected''"
abbreviation QCompletionCredentialConflict :: sentinel where "QCompletionCredentialConflict \<equiv> Qurl ''CompletionCredentialConflict''"
abbreviation QCompletionRequestRejected :: sentinel where "QCompletionRequestRejected \<equiv> Qurl ''CompletionRequestRejected''"
abbreviation QAgentStateNotFound :: sentinel where "QAgentStateNotFound \<equiv> Qurl ''AgentStateNotFound''"

text \<open>\<open>qurl.NativeSessionReceipt\<close>: the fields the sources read.\<close>

record NativeSessionReceipt =
  rcCellID :: string
  rcSessionID :: uint64
  rcSessionIssuedAtMillis :: millis
  rcRunID :: string
  rcRunAttempt :: uint64

datatype etag =
    TSentinel sentinel
  | TDeny string                           \<comment> \<open>\<open>*qurl.ServerDenyError\<close> and its \<open>ErrCode\<close>\<close>
  | TUnexpected NativeSessionReceipt       \<comment> \<open>\<open>*qurl.NativeSessionOperationUnexpectedAdmissionError\<close>\<close>
  | TPending "sentinel option"             \<comment> \<open>\<open>*qurl.NativeCredentialRecoveryRequiredError\<close>: its \<open>Cause\<close>, when that is exactly a sentinel\<close>
  | TPath                                  \<comment> \<open>\<open>*os.PathError\<close>\<close>
  | TMsg string

datatype err = Leaf etag | Wrap etag err | Multi etag "err list"

type_synonym 'a res = "err + 'a"

abbreviation Sentinel :: "sentinel \<Rightarrow> err" where "Sentinel s \<equiv> Leaf (TSentinel s)"
abbreviation NewErr :: "string \<Rightarrow> err" where "NewErr m \<equiv> Leaf (TMsg m)"
abbreviation Errorf :: "string \<Rightarrow> err \<Rightarrow> err" where "Errorf m e \<equiv> Wrap (TMsg m) e"

text \<open>\<open>ErrSessionOperationCASLost\<close> is itself built with \<open>fmt.Errorf("%w: ...", ErrSessionOperationConflict)\<close>.\<close>

definition errCASLost :: err where
  "errCASLost = Wrap (TSentinel SCASLost) (Sentinel SConflict)"

fun etagOf :: "err \<Rightarrow> etag" where
  "etagOf (Leaf t) = t"
| "etagOf (Wrap t _) = t"
| "etagOf (Multi t _) = t"

section \<open>\<open>errors.Is\<close>, \<open>errors.As\<close>, \<open>errors.Join\<close>\<close>

text \<open>\<open>errors.Is\<close> and \<open>errors.As\<close> walk the tree in preorder.\<close>

fun layers :: "err \<Rightarrow> etag list" where
  "layers (Leaf t) = [t]"
| "layers (Wrap t e) = t # layers e"
| "layers (Multi t es) = t # concat (map layers es)"

definition errorsIs :: "err \<Rightarrow> sentinel \<Rightarrow> bool" where
  "errorsIs e s = (TSentinel s \<in> set (layers e))"

definition errorsIsAny :: "err \<Rightarrow> sentinel list \<Rightarrow> bool" where
  "errorsIsAny e ss = list_ex (errorsIs e) ss"

fun denyCode :: "etag \<Rightarrow> string option" where
  "denyCode (TDeny c) = Some c"
| "denyCode _ = None"

fun unexpectedReceipt :: "etag \<Rightarrow> NativeSessionReceipt option" where
  "unexpectedReceipt (TUnexpected r) = Some r"
| "unexpectedReceipt _ = None"

fun pendingCause :: "etag \<Rightarrow> sentinel option option" where
  "pendingCause (TPending c) = Some c"
| "pendingCause _ = None"

fun firstSome :: "('a \<Rightarrow> 'b option) \<Rightarrow> 'a list \<Rightarrow> 'b option" where
  "firstSome f [] = None"
| "firstSome f (x # xs) = (case f x of Some y \<Rightarrow> Some y | None \<Rightarrow> firstSome f xs)"

definition asDeny :: "err \<Rightarrow> string option" where
  "asDeny e = firstSome denyCode (layers e)"

definition asUnexpected :: "err \<Rightarrow> NativeSessionReceipt option" where
  "asUnexpected e = firstSome unexpectedReceipt (layers e)"

definition asPending :: "err \<Rightarrow> sentinel option option" where
  "asPending e = firstSome pendingCause (layers e)"

definition asPath :: "err \<Rightarrow> bool" where
  "asPath e = (TPath \<in> set (layers e))"

text \<open>\<open>errors.Join\<close> drops nil arguments and is nil when all are.\<close>

definition errorsJoin :: "err option list \<Rightarrow> err option" where
  "errorsJoin es = (let ks = List.map_filter id es in
     if ks = [] then None else Some (Multi (TMsg ''join'') ks))"

lemma errorsJoin_None [simp]: "errorsJoin es = None \<longleftrightarrow> (\<forall>e \<in> set es. e = None)"
  by (auto simp: errorsJoin_def Let_def map_filter_def filter_empty_conv)

lemma errorsJoin_Nones [simp]: "errorsJoin [None, None] = None" "errorsJoin [None, None, None, None] = None"
  by simp_all

lemma firstSome_None: "firstSome f xs = None \<longleftrightarrow> (\<forall>x \<in> set xs. f x = None)"
  by (induction xs) (auto split: option.splits)

lemma firstSome_append:
  "firstSome f (xs @ ys) = (case firstSome f xs of Some y \<Rightarrow> Some y | None \<Rightarrow> firstSome f ys)"
  by (induction xs) (auto split: option.splits)

lemma errorsIs_simps [simp]:
  "errorsIs (Leaf t) s \<longleftrightarrow> t = TSentinel s"
  "errorsIs (Wrap t e) s \<longleftrightarrow> t = TSentinel s \<or> errorsIs e s"
  "errorsIs (Multi t es) s \<longleftrightarrow> t = TSentinel s \<or> (\<exists>e \<in> set es. errorsIs e s)"
  by (auto simp: errorsIs_def)

lemma asDeny_Wrap_msg [simp]: "asDeny (Wrap (TMsg m) e) = asDeny e"
  by (simp add: asDeny_def)

lemma asUnexpected_Wrap_msg [simp]: "asUnexpected (Wrap (TMsg m) e) = asUnexpected e"
  by (simp add: asUnexpected_def)

lemma asDeny_Multi: "asDeny (Multi (TMsg m) es) = firstSome asDeny es"
proof -
  have "firstSome denyCode (concat (map layers es)) = firstSome asDeny es"
    by (induction es) (auto simp: firstSome_append asDeny_def split: option.splits)
  then show ?thesis by (simp add: asDeny_def)
qed

text \<open>
  The reference reading of an all-causes classifier: every chain of layers from the root to a
  leaf. An error that wraps an empty list has one chain that ends without a verdict.
\<close>

fun chains :: "err \<Rightarrow> etag list list" where
  "chains (Leaf t) = [[t]]"
| "chains (Wrap t e) = map ((#) t) (chains e)"
| "chains (Multi t es) = (if es = [] then [[]] else concat (map chains es))"

lemma chains_nonempty: "chains e \<noteq> []"
  by (induction e) (auto simp: concat_eq_Nil_conv)

section \<open>Classifiers of the durable journal\<close>

text \<open>\<open>onlySessionOperationCASLoss\<close>: every cause of a joined error must be the exact sentinel.\<close>

fun onlySessionOperationCASLoss :: "err \<Rightarrow> bool" where
  "onlySessionOperationCASLoss (Multi t es) =
     (es \<noteq> [] \<and> list_all onlySessionOperationCASLoss es)"
| "onlySessionOperationCASLoss (Leaf t) = (t = TSentinel SCASLost)"
| "onlySessionOperationCASLoss (Wrap t e) =
     (t = TSentinel SCASLost \<or> onlySessionOperationCASLoss e)"

text \<open>\<open>isPermanentNativeRetirementError\<close>: the same, with a typed deny deciding by its code.\<close>

definition permanentRetirementSentinels :: "sentinel list" where
  "permanentRetirementSentinels = [QInvalidNativeSessionOperation, SConflict, SJournalCorrupt]"

definition permanentLayer :: "etag \<Rightarrow> bool option" where
  "permanentLayer t = (case t of
       TDeny c \<Rightarrow> Some (c = ''52004'')
     | TSentinel s \<Rightarrow> if s \<in> set permanentRetirementSentinels then Some True else None
     | _ \<Rightarrow> None)"

fun isPermanentNativeRetirementError :: "err \<Rightarrow> bool" where
  "isPermanentNativeRetirementError (Multi t es) =
     (es \<noteq> [] \<and> list_all isPermanentNativeRetirementError es)"
| "isPermanentNativeRetirementError (Leaf t) = (permanentLayer t = Some True)"
| "isPermanentNativeRetirementError (Wrap t e) =
     (case permanentLayer t of Some b \<Rightarrow> b | None \<Rightarrow> isPermanentNativeRetirementError e)"

text \<open>What the classifiers say of one chain: the first layer with a verdict decides.\<close>

definition chainVerdict :: "(etag \<Rightarrow> bool option) \<Rightarrow> etag list \<Rightarrow> bool" where
  "chainVerdict f ts = (firstSome f ts = Some True)"

definition casLayer :: "etag \<Rightarrow> bool option" where
  "casLayer t = (if t = TSentinel SCASLost then Some True else None)"

text \<open>
  A layer that wraps several errors (a join, or \<open>fmt.Errorf\<close> with several \<open>%w\<close>) carries no verdict
  of its own; the classifiers never look at its tag.
\<close>

lemma onlySessionOperationCASLoss_chains:
  "onlySessionOperationCASLoss e \<longleftrightarrow> (\<forall>ts \<in> set (chains e). chainVerdict casLayer ts)"
  by (induction e) (auto simp: chainVerdict_def casLayer_def list_all_iff)

lemma isPermanentNativeRetirementError_chains:
  "isPermanentNativeRetirementError e \<longleftrightarrow>
     (\<forall>ts \<in> set (chains e). chainVerdict permanentLayer ts)"
proof (induction e)
  case (Wrap t e)
  show ?case
  proof (cases "permanentLayer t")
    case None
    with Wrap show ?thesis by (simp add: chainVerdict_def)
  next
    case (Some b)
    moreover obtain ts where "ts \<in> set (chains e)"
      using chains_nonempty [of e] by (meson last_in_set)
    ultimately show ?thesis by (auto simp: chainVerdict_def)
  qed
qed (auto simp: chainVerdict_def list_all_iff split: option.splits)

lemma permanent_join:
  "errorsJoin [Some a, Some b] = Some j \<Longrightarrow>
   isPermanentNativeRetirementError j =
     (isPermanentNativeRetirementError a \<and> isPermanentNativeRetirementError b)"
  by (auto simp: errorsJoin_def map_filter_def Let_def)

text \<open>A lost compare-and-swap is a state conflict, hence permanent for the retirement worker.\<close>

lemma errCASLost_classes [simp]:
  "errorsIs errCASLost SCASLost" "errorsIs errCASLost SConflict"
  "onlySessionOperationCASLoss errCASLost" "isPermanentNativeRetirementError errCASLost"
  by (auto simp: errCASLost_def permanentLayer_def permanentRetirementSentinels_def)

section \<open>Classifiers of recovery exchanges\<close>

definition isNativeSessionNoReplyError :: "err option \<Rightarrow> bool" where
  "isNativeSessionNoReplyError eo = (case eo of
      None \<Rightarrow> False
    | Some e \<Rightarrow>
        if errorsIs e SCanceled then False
        else if asDeny e \<noteq> None \<or> asUnexpected e \<noteq> None then False
        else errorsIs e QEndpointNoReply \<or> errorsIs e UdpNoReply \<or> errorsIs e UdpTransport \<or>
             errorsIs e UdpResolve \<or> errorsIs e UdpServerUnauthenticated \<or>
             errorsIs e SDeadlineExceeded)"

definition isNativeSessionCountableSilence :: "err option \<Rightarrow> bool" where
  "isNativeSessionCountableSilence eo =
     (if \<not> isNativeSessionNoReplyError eo then False
      else case eo of None \<Rightarrow> False
        | Some e \<Rightarrow> errorsIs e QEndpointNoReply \<or> errorsIs e UdpNoReply \<or>
                     errorsIs e UdpServerUnauthenticated \<or> errorsIs e SDeadlineExceeded)"

definition nativeSessionEndpointAnswered :: "'r option \<Rightarrow> err option \<Rightarrow> bool" where
  "nativeSessionEndpointAnswered result eo = (case eo of
      None \<Rightarrow> result \<noteq> None
    | Some e \<Rightarrow> asDeny e \<noteq> None \<or> asUnexpected e \<noteq> None)"

lemma countable_imp_noreply:
  "isNativeSessionCountableSilence eo \<Longrightarrow> isNativeSessionNoReplyError eo"
  by (auto simp: isNativeSessionCountableSilence_def split: if_splits)

lemma noreply_not_answered:
  "isNativeSessionNoReplyError eo \<Longrightarrow> \<not> nativeSessionEndpointAnswered result eo"
  by (auto simp: isNativeSessionNoReplyError_def nativeSessionEndpointAnswered_def
      split: option.splits if_splits)

lemma noreply_Some: "isNativeSessionNoReplyError eo \<Longrightarrow> \<exists>e. eo = Some e"
  by (auto simp: isNativeSessionNoReplyError_def split: option.splits)

section \<open>Classifiers of the native runtime\<close>

definition immediatePlacementRefresh :: "err \<Rightarrow> bool" where
  "immediatePlacementRefresh e =
     (errorsIs e QAssignmentLeaseExpired \<or> errorsIs e QNativeSessionOperationLeaseMargin \<or>
      errorsIs e QAssignmentRecoveryRequired \<or> errorsIs e QAssignmentReassignmentRequired)"

definition refreshableKnockError :: "err option \<Rightarrow> bool" where
  "refreshableKnockError eo = (case eo of
      None \<Rightarrow> False
    | Some e \<Rightarrow>
        if asDeny e \<noteq> None then False
        else if immediatePlacementRefresh e then True
        else if errorsIs e QInvalidNativeKnockInput \<or> errorsIs e QMalformedReply \<or>
                errorsIs e QServerOverloaded \<or> errorsIs e SCanceled \<or> errorsIs e SDeadlineExceeded
             then False
        else errorsIs e UdpResolve \<or> errorsIs e UdpTransport \<or> errorsIs e UdpNoReply \<or>
             errorsIs e UdpServerUnauthenticated)"

definition retryableRefreshSentinels :: "sentinel list" where
  "retryableRefreshSentinels =
     [QAssignmentUnavailable, QAssignmentRecoveryRequired, QAssignmentReassignmentRequired,
      QAssignmentRateLimited, UdpResolve, UdpTransport, UdpNoReply, UdpServerUnauthenticated,
      QAgentBindingPersistence, QAgentStateKeyWrapper]"

definition permanentRefreshError :: "err option \<Rightarrow> bool" where
  "permanentRefreshError eo = (case eo of
      None \<Rightarrow> False
    | Some e \<Rightarrow>
        if errorsIsAny e retryableRefreshSentinels then False
        else if asPath e \<and> \<not> errorsIs e SOsPermission then False
        else True)"

definition unsafeRecoverySentinels :: "sentinel list" where
  "unsafeRecoverySentinels =
     [QInvalidAgentState, QAgentStateContinuity, QAgentSetupLock, QDeviceCredentialMissing,
      QRecoveryCredentialRejected, QCredentialRecoveryIdentityRejected,
      QCredentialRecoveryRevokeRequired, QCredentialRecoveryRequestRejected,
      QCredentialRecoveryAssignmentRequired, QCredentialRecoveryCandidateConflict,
      QCredentialRecoveryInvalidResponse, QCredentialRecoveryExpired,
      QCredentialRecoveredAssignmentRefreshRequired]"

definition mayConsumeNativeRecoveryAuthority :: "err \<Rightarrow> bool" where
  "mayConsumeNativeRecoveryAuthority e =
     (if errorsIsAny e unsafeRecoverySentinels then False
      else if errorsIs e QAssignmentIdentityRejected then True
      else asPending e = Some (Some QCredentialRecoveryRequired))"

definition permanentOpenSentinels :: "sentinel list" where
  "permanentOpenSentinels =
     [QInvalidClientConfig, QInvalidBootstrapConfig, QInvalidAgentState,
      QInsecureAgentStatePermissions, QAgentStateContinuity, QAgentSetupLock,
      QInvalidRegisterConfig, QRegistrationInvalidInput, QRegistrationDisabled, QKeyRejected,
      QRegistrationKeyKindDisallowed, QDeviceKeyQuotaExceeded, QAgentIdentityConflict,
      QRegisterReplyMalformed, QInvalidAssignmentConfig, QAssignmentInvalidResponse,
      QAssignmentIdentityRejected, QAssignmentQuotaExceeded, QAssignmentRequestRejected,
      QAssignmentKeyRejected, QAssignmentRegistrationDisabled, QAssignmentBootstrapConsumed,
      QAssignmentTicketInvalid, QAssignmentTicketExpired, QCompletionIdentityRejected,
      QCompletionCredentialConflict, QCompletionRequestRejected, QCredentialRecoveryRequired,
      QDeviceCredentialMissing, QRecoveryCredentialRejected, QCredentialRecoveryIdentityRejected,
      QCredentialRecoveryRevokeRequired, QCredentialRecoveryRequestRejected,
      QCredentialRecoveryAssignmentRequired, QCredentialRecoveryCandidateConflict,
      QCredentialRecoveryInvalidResponse, QCredentialRecoveryExpired]"

definition IsPermanentNativeOpenError :: "err option \<Rightarrow> bool" where
  "IsPermanentNativeOpenError eo = (case eo of
      None \<Rightarrow> False
    | Some e \<Rightarrow> asDeny e \<noteq> None \<or> errorsIsAny e permanentOpenSentinels)"

text \<open>
  \<open>withNativeSessionCleanupError\<close>: cleanup diagnostics stay visible in the text only;
  \<open>nativeSessionCleanupDiagnostic\<close> unwraps to the primary error alone.
\<close>

definition withNativeSessionCleanupError :: "err option \<Rightarrow> err option \<Rightarrow> err option" where
  "withNativeSessionCleanupError primary cleanup = (case cleanup of
      None \<Rightarrow> primary
    | Some c \<Rightarrow> (case primary of
          None \<Rightarrow> Some (NewErr ''durable native session cleanup failed'')
        | Some p \<Rightarrow> Some (Wrap (TMsg ''durable native session cleanup also failed'') p)))"

lemma cleanup_shape:
  "withNativeSessionCleanupError (Some p) c = Some e \<Longrightarrow> e = p \<or> (\<exists>m. e = Wrap (TMsg m) p)"
  by (auto simp: withNativeSessionCleanupError_def split: option.splits)

lemma refreshable_Wrap_msg [simp]:
  "refreshableKnockError (Some (Wrap (TMsg m) e)) = refreshableKnockError (Some e)"
  by (simp add: refreshableKnockError_def immediatePlacementRefresh_def)

lemma cleanup_keeps_classification:
  assumes "withNativeSessionCleanupError (Some p) c = Some e"
  shows "errorsIs e s = errorsIs p s" and "asDeny e = asDeny p"
    and "refreshableKnockError (Some e) = refreshableKnockError (Some p)"
  using cleanup_shape [OF assms] by auto


end
