(* ===== verification/Go_Text.thy ===== *)
theory Go_Text
  imports Prelude
begin

text \<open>
  The parts of Go's text libraries the sources rely on: \<open>encoding/base64\<close> (strict, padded),
  \<open>strconv.FormatUint\<close> in base 36, \<open>strconv.Atoi\<close>, \<open>unicode/utf8.ValidString\<close>,
  \<open>unicode.IsControl\<close>, dotted IPv4 literals of \<open>net.ParseIP\<close> and \<open>net.SplitHostPort\<close>.
  Bytes are characters, their values natural numbers below 256.
\<close>

section \<open>Character classes\<close>

definition byteOf :: "char \<Rightarrow> nat" where "byteOf c = of_char c"

lemma byteOf_lt [simp]: "byteOf c < 256"
  by (simp add: byteOf_def)

definition isDigit :: "char \<Rightarrow> bool" where
  "isDigit c = (48 \<le> byteOf c \<and> byteOf c \<le> 57)"

definition isLower :: "char \<Rightarrow> bool" where
  "isLower c = (97 \<le> byteOf c \<and> byteOf c \<le> 122)"

definition isUpper :: "char \<Rightarrow> bool" where
  "isUpper c = (65 \<le> byteOf c \<and> byteOf c \<le> 90)"

definition isLowerAlnum :: "char \<Rightarrow> bool" where
  "isLowerAlnum c = (isDigit c \<or> isLower c)"

definition isLowerHex :: "char \<Rightarrow> bool" where
  "isLowerHex c = (isDigit c \<or> (97 \<le> byteOf c \<and> byteOf c \<le> 102))"

lemmas char_classes = isDigit_def isLower_def isUpper_def isLowerAlnum_def isLowerHex_def byteOf_def

text \<open>Text of lower-case letters and digits is not trimmed.\<close>

lemma trimLeftOf_none:
  assumes "\<forall>sp \<in> set sps. \<forall>c \<in> set sp. c \<notin> set s"
  shows "trimLeftOf sps s = s"
proof -
  have "\<not> (sp \<noteq> [] \<and> hasPrefix sp s)" if "sp \<in> set sps" for sp
    using that assms by (cases sp) (auto simp: hasPrefix_iff)
  then have "List.find (\<lambda>sp. sp \<noteq> [] \<and> hasPrefix sp s) sps = None" by (auto simp: find_None_iff)
  then show ?thesis by (simp add: trimLeftOf.simps)
qed

lemma goSpaces_not_alnum: "sp \<in> set goSpaces \<Longrightarrow> c \<in> set sp \<Longrightarrow> \<not> isLowerAlnum c"
proof -
  have "list_all (list_all (\<lambda>c. \<not> isLowerAlnum c)) goSpaces" by code_simp
  then show "sp \<in> set goSpaces \<Longrightarrow> c \<in> set sp \<Longrightarrow> \<not> isLowerAlnum c" by (auto simp: list_all_iff)
qed

lemma trimSpace_plain:
  assumes "\<forall>c \<in> set s. isLowerAlnum c"
  shows "trimSpace s = s"
proof -
  have "\<forall>sp \<in> set goSpaces. \<forall>c \<in> set sp. c \<notin> set s" using assms goSpaces_not_alnum by blast
  then have "trimLeftOf goSpaces s = s" "trimLeftOf (map rev goSpaces) (rev s) = rev s"
    by (auto intro!: trimLeftOf_none)
  then show ?thesis by (simp add: trimSpace_def)
qed

section \<open>Standard base64\<close>

definition b64Alphabet :: string where
  "b64Alphabet = ''ABCDEFGHIJKLMNOPQRSTUVWXYZabcdefghijklmnopqrstuvwxyz0123456789+/''"

definition b64Char :: "nat \<Rightarrow> char" where "b64Char n = b64Alphabet ! n"

definition b64Val :: "char \<Rightarrow> nat option" where
  "b64Val c = find_index (\<lambda>d. d = c) b64Alphabet"

lemma b64_length: "length b64Alphabet = 64"
  by (simp add: b64Alphabet_def)

lemma b64Val_Char: "n < 64 \<Longrightarrow> b64Val (b64Char n) = Some n"
proof -
  have "list_all (\<lambda>n. b64Val (b64Char n) = Some n) [0..<64]"
    by code_simp
  then show "n < 64 \<Longrightarrow> b64Val (b64Char n) = Some n" by (simp add: list_all_iff)
qed

lemma b64Val_pad [simp]: "b64Val (CHR ''='') = None"
  by code_simp

lemma b64Val_lt: "b64Val c = Some n \<Longrightarrow> n < 64"
  using find_index_Some b64_length unfolding b64Val_def by fastforce

lemma b64Char_not_pad: "n < 64 \<Longrightarrow> b64Char n \<noteq> CHR ''=''"
  using b64Val_Char [of n] by auto

fun b64Encode :: "nat list \<Rightarrow> string" where
  "b64Encode [] = []"
| "b64Encode [x] = [b64Char (x div 4), b64Char (x mod 4 * 16), CHR ''='', CHR ''='']"
| "b64Encode [x, y] =
     [b64Char (x div 4), b64Char (x mod 4 * 16 + y div 16), b64Char (y mod 16 * 4), CHR ''='']"
| "b64Encode (x # y # z # r) =
     b64Char (x div 4) # b64Char (x mod 4 * 16 + y div 16) # b64Char (y mod 16 * 4 + z div 64) #
     b64Char (z mod 64) # b64Encode r"

text \<open>One quantum, with the strict rule that the unused low bits of the last digit are zero.\<close>

fun b64Decode :: "string \<Rightarrow> nat list option" where
  "b64Decode [] = Some []"
| "b64Decode (a # b # c # d # r) =
     (if r = [] \<and> c = CHR ''='' \<and> d = CHR ''='' then
        (case (b64Val a, b64Val b) of
           (Some u, Some v) \<Rightarrow> if v mod 16 = 0 then Some [u * 4 + v div 16] else None
         | _ \<Rightarrow> None)
      else if r = [] \<and> d = CHR ''='' then
        (case (b64Val a, b64Val b, b64Val c) of
           (Some u, Some v, Some w) \<Rightarrow>
             if w mod 4 = 0 then Some [u * 4 + v div 16, v mod 16 * 16 + w div 4] else None
         | _ \<Rightarrow> None)
      else (case (b64Val a, b64Val b, b64Val c, b64Val d, b64Decode r) of
           (Some u, Some v, Some w, Some t, Some bs) \<Rightarrow>
             Some ((u * 4 + v div 16) # (v mod 16 * 16 + w div 4) # (w mod 4 * 64 + t) # bs)
         | _ \<Rightarrow> None))"
| "b64Decode _ = None"

text \<open>\<open>StdEncoding.Strict().DecodeString\<close> skips carriage returns and line feeds.\<close>

definition b64DecodeStrict :: "string \<Rightarrow> nat list option" where
  "b64DecodeStrict s = b64Decode (filter (\<lambda>c. c \<noteq> CHR 0x0A \<and> c \<noteq> CHR 0x0D) s)"

lemma b64_roundtrip: "\<forall>b \<in> set bs. b < 256 \<Longrightarrow> b64Decode (b64Encode bs) = Some bs"
proof (induction bs rule: b64Encode.induct)
  case (2 x)
  then have "x div 4 < 64" and "x mod 4 * 16 < 64" by auto
  then show ?case by (simp add: b64Val_Char)
next
  case (3 x y)
  then have "x div 4 < 64" and "x mod 4 * 16 + y div 16 < 64" and "y mod 16 * 4 < 64" by auto
  moreover have "(x mod 4 * 16 + y div 16) div 16 = x mod 4"
    and "(x mod 4 * 16 + y div 16) mod 16 = y div 16" using 3 by auto
  ultimately show ?case by (simp add: b64Val_Char b64Char_not_pad)
next
  case (4 x y z r)
  then have "x div 4 < 64" and "x mod 4 * 16 + y div 16 < 64" and "y mod 16 * 4 + z div 64 < 64"
    and "z mod 64 < 64" by auto
  moreover have "(x mod 4 * 16 + y div 16) div 16 = x mod 4"
    and "(x mod 4 * 16 + y div 16) mod 16 = y div 16"
    and "(y mod 16 * 4 + z div 64) div 4 = y mod 16"
    and "(y mod 16 * 4 + z div 64) mod 4 = z div 64" using 4 by auto
  ultimately show ?case using 4 by (simp add: b64Val_Char b64Char_not_pad)
qed simp

lemma b64Encode_length: "length (b64Encode bs) = 4 * ((length bs + 2) div 3)"
proof (induction bs rule: b64Encode.induct)
  case (4 x y z r)
  have "(length (x # y # z # r) + 2) div 3 = Suc ((length r + 2) div 3)" by simp
  with 4 show ?case by simp
qed simp_all

lemma b64Decode_lt: "b64Decode s = Some bs \<Longrightarrow> b \<in> set bs \<Longrightarrow> b < 256"
proof (induction s arbitrary: bs rule: b64Decode.induct)
  case (2 a b' c d r)
  then show ?case
    by (auto split: if_splits option.splits dest!: b64Val_lt)
qed auto

section \<open>Base 36\<close>

definition digit36 :: "nat \<Rightarrow> char" where
  "digit36 n = (''0123456789abcdefghijklmnopqrstuvwxyz'' ! n)"

fun fmtUint36 :: "nat \<Rightarrow> string" where
  "fmtUint36 n = (if n < 36 then [digit36 n] else fmtUint36 (n div 36) @ [digit36 (n mod 36)])"

declare fmtUint36.simps [simp del]

definition val36 :: "char \<Rightarrow> nat" where
  "val36 c = (if isDigit c then byteOf c - 48 else byteOf c - 87)"

definition parse36 :: "string \<Rightarrow> nat" where
  "parse36 s = foldl (\<lambda>a c. 36 * a + val36 c) 0 s"

lemma digit36_props:
  assumes "n < 36"
  shows "val36 (digit36 n) = n" and "isLowerAlnum (digit36 n)"
proof -
  have "list_all (\<lambda>n. val36 (digit36 n) = n \<and> isLowerAlnum (digit36 n)) [0..<36]"
    by code_simp
  then show "val36 (digit36 n) = n" and "isLowerAlnum (digit36 n)"
    using assms by (simp_all add: list_all_iff)
qed

lemma parse36_fmtUint36 [simp]: "parse36 (fmtUint36 n) = n"
proof (induction n rule: fmtUint36.induct)
  case (1 n)
  then show ?case
    by (subst fmtUint36.simps) (auto simp: parse36_def digit36_props)
qed

lemma fmtUint36_inj: "fmtUint36 m = fmtUint36 n \<Longrightarrow> m = n"
  by (metis parse36_fmtUint36)

lemma fmtUint36_nonempty [simp]: "fmtUint36 n \<noteq> []"
  by (subst fmtUint36.simps) simp

lemma fmtUint36_alnum: "c \<in> set (fmtUint36 n) \<Longrightarrow> isLowerAlnum c"
proof (induction n rule: fmtUint36.induct)
  case (1 n)
  then show ?case
    by (auto simp: fmtUint36.simps [of n] digit36_props split: if_splits)
qed

lemma fmtUint36_length: "n < 36 ^ k \<Longrightarrow> 0 < k \<Longrightarrow> length (fmtUint36 n) \<le> k"
proof (induction k arbitrary: n)
  case 0
  then show ?case by simp
next
  case (Suc k)
  show ?case
  proof (cases "n < 36")
    case True
    then show ?thesis by (simp add: fmtUint36.simps [of n])
  next
    case False
    with Suc.prems have "0 < k" by (cases k) auto
    moreover from Suc.prems have "n div 36 < 36 ^ k"
      by (simp add: less_mult_imp_div_less mult.commute)
    ultimately have "length (fmtUint36 (n div 36)) \<le> k" by (intro Suc.IH)
    with False show ?thesis by (simp add: fmtUint36.simps [of n])
  qed
qed

section \<open>Decimal numbers\<close>

definition decVal :: "string \<Rightarrow> nat" where
  "decVal s = foldl (\<lambda>a c. 10 * a + (byteOf c - 48)) 0 s"

text \<open>
  \<open>strconv.Atoi\<close>: an optional sign and one or more decimal digits; out of range is an error.
\<close>

definition atoi :: "string \<Rightarrow> int option" where
  "atoi s =
     (let (neg, ds) = (case s of c # cs \<Rightarrow>
             if c = CHR ''-'' then (True, cs) else if c = CHR ''+'' then (False, cs) else (False, s)
           | [] \<Rightarrow> (False, []));
          v = (if neg then - int (decVal ds) else int (decVal ds))
      in if ds = [] \<or> \<not> list_all isDigit ds then None
         else if v < - maxInt64 - 1 \<or> maxInt64 < v then None else Some v)"

section \<open>UTF-8\<close>

definition isCont :: "char \<Rightarrow> bool" where
  "isCont c = (0x80 \<le> byteOf c \<and> byteOf c \<le> 0xBF)"

definition inRange :: "nat \<Rightarrow> nat \<Rightarrow> char \<Rightarrow> bool" where
  "inRange a b c = (a \<le> byteOf c \<and> byteOf c \<le> b)"

text \<open>\<open>utf8.ValidString\<close>: no overlong forms, no surrogates, nothing above U+10FFFF.\<close>

fun utf8Valid :: "string \<Rightarrow> bool" where
  "utf8Valid [] = True"
| "utf8Valid (c # cs) =
     (if byteOf c < 0x80 then utf8Valid cs
      else if inRange 0xC2 0xDF c then
        (case cs of d # ds \<Rightarrow> isCont d \<and> utf8Valid ds | _ \<Rightarrow> False)
      else if inRange 0xE0 0xEF c then
        (case cs of d # e # ds \<Rightarrow>
           (if byteOf c = 0xE0 then inRange 0xA0 0xBF d
            else if byteOf c = 0xED then inRange 0x80 0x9F d else isCont d) \<and>
           isCont e \<and> utf8Valid ds
         | _ \<Rightarrow> False)
      else if inRange 0xF0 0xF4 c then
        (case cs of d # e # f # ds \<Rightarrow>
           (if byteOf c = 0xF0 then inRange 0x90 0xBF d
            else if byteOf c = 0xF4 then inRange 0x80 0x8F d else isCont d) \<and>
           isCont e \<and> isCont f \<and> utf8Valid ds
         | _ \<Rightarrow> False)
      else False)"

text \<open>
  \<open>strings.IndexFunc(s, unicode.IsControl) >= 0\<close> on valid UTF-8: the control characters are
  U+0000 to U+001F and U+007F to U+009F, the last ones encoded as C2 80 to C2 9F.
\<close>

fun hasControl :: "string \<Rightarrow> bool" where
  "hasControl [] = False"
| "hasControl (c # cs) =
     (byteOf c < 0x20 \<or> byteOf c = 0x7F \<or>
      (byteOf c = 0xC2 \<and> (case cs of d # _ \<Rightarrow> inRange 0x80 0x9F d | [] \<Rightarrow> False)) \<or>
      hasControl cs)"

section \<open>Network text\<close>

text \<open>
  The dotted IPv4 literals \<open>net.ParseIP\<close> accepts. Every other literal it accepts holds a colon.
\<close>

definition ipv4Field :: "string \<Rightarrow> bool" where
  "ipv4Field f = (f \<noteq> [] \<and> list_all isDigit f \<and> (length f = 1 \<or> f ! 0 \<noteq> CHR ''0'') \<and> decVal f \<le> 255)"

definition isIPv4Literal :: "string \<Rightarrow> bool" where
  "isIPv4Literal s = (let fs = splitOn (CHR ''.'') s in length fs = 4 \<and> list_all ipv4Field fs)"

definition lastIndexOf :: "char \<Rightarrow> string \<Rightarrow> nat option" where
  "lastIndexOf c s = map_option (\<lambda>i. length s - Suc i) (find_index (\<lambda>d. d = c) (rev s))"

text \<open>\<open>net.SplitHostPort\<close>, with None for each of its errors.\<close>

definition splitHostPort :: "string \<Rightarrow> (string \<times> string) option" where
  "splitHostPort s = (case lastIndexOf (CHR '':'') s of
      None \<Rightarrow> None
    | Some i \<Rightarrow>
        if s ! 0 = CHR ''['' then
          (case find_index (\<lambda>d. d = CHR '']'') s of
             None \<Rightarrow> None
           | Some e \<Rightarrow>
               if e + 1 \<noteq> i then None
               else if CHR ''['' \<in> set (drop 1 s) \<or> CHR '']'' \<in> set (drop (e + 1) s) then None
               else Some (take (e - 1) (drop 1 s), drop (i + 1) s))
        else if CHR '':'' \<in> set (take i s) then None
        else if CHR ''['' \<in> set s \<or> CHR '']'' \<in> set s then None
        else Some (take i s, drop (i + 1) s))"

end
