(* ===== verification/Go_JSON.thy ===== *)
theory Go_JSON
  imports Go_Text "HOL-Library.Monad_Syntax"
begin

text \<open>
  The parts of Go's \<open>encoding/json\<close> the durable journal relies on: string and integer literals as
  \<open>json.Marshal\<close> writes them (HTML escaping on, compact), and readers for exactly those literals.
  The journal decoder re-marshals what it read and rejects every input that is not byte for byte
  the canonical text, so a reader that accepts the canonical literals and refuses the others gives
  the same verdict as the library's liberal reader followed by that check.
\<close>

section \<open>Runes\<close>

text \<open>Width of the leading UTF-8 sequence, 0 when it is not a valid one (\<open>utf8.RuneError\<close>, size 1).\<close>

definition runeWidth :: "string \<Rightarrow> nat" where
  "runeWidth s = (case s of
      [] \<Rightarrow> 0
    | c # cs \<Rightarrow>
        if byteOf c < 0x80 then 1
        else if inRange 0xC2 0xDF c then
          (case cs of d # ds \<Rightarrow> if isCont d then 2 else 0 | _ \<Rightarrow> 0)
        else if inRange 0xE0 0xEF c then
          (case cs of d # e # ds \<Rightarrow>
             if (if byteOf c = 0xE0 then inRange 0xA0 0xBF d
                 else if byteOf c = 0xED then inRange 0x80 0x9F d else isCont d) \<and> isCont e
             then 3 else 0
           | _ \<Rightarrow> 0)
        else if inRange 0xF0 0xF4 c then
          (case cs of d # e # f # ds \<Rightarrow>
             if (if byteOf c = 0xF0 then inRange 0x90 0xBF d
                 else if byteOf c = 0xF4 then inRange 0x80 0x8F d else isCont d) \<and> isCont e \<and> isCont f
             then 4 else 0
           | _ \<Rightarrow> 0)
        else 0)"

lemma utf8Valid_width:
  "utf8Valid (c # cs) \<Longrightarrow>
     0 < runeWidth (c # cs) \<and> runeWidth (c # cs) \<le> length (c # cs) \<and>
     utf8Valid (drop (runeWidth (c # cs)) (c # cs))"
  by (auto simp: runeWidth_def split: if_splits list.splits)

lemma runeWidth_high:
  assumes "0 < runeWidth (c # cs)" and "128 \<le> byteOf c"
    and "d \<in> set (take (runeWidth (c # cs)) (c # cs))"
  shows "128 \<le> byteOf d"
  using assms by (auto simp: runeWidth_def inRange_def isCont_def split: if_splits list.splits)

section \<open>String literals\<close>

definition hexDigit :: "nat \<Rightarrow> char" where
  "hexDigit n = (''0123456789abcdef'' ! n)"

definition hexEncode :: "nat list \<Rightarrow> string" where
  "hexEncode bs = concat (map (\<lambda>b. [hexDigit (b div 16), hexDigit (b mod 16)]) bs)"

lemma hexEncode_length: "length (hexEncode bs) = 2 * length bs"
  by (induction bs) (auto simp: hexEncode_def)

definition escAscii :: "char \<Rightarrow> string" where
  "escAscii c =
     (if c = CHR 0x22 \<or> c = CHR 0x5C then [CHR 0x5C, c]
      else if c = CHR 0x08 then [CHR 0x5C, CHR ''b'']
      else if c = CHR 0x0C then [CHR 0x5C, CHR ''f'']
      else if c = CHR 0x0A then [CHR 0x5C, CHR ''n'']
      else if c = CHR 0x0D then [CHR 0x5C, CHR ''r'']
      else if c = CHR 0x09 then [CHR 0x5C, CHR ''t'']
      else if byteOf c < 0x20 \<or> c = CHR ''<'' \<or> c = CHR ''>'' \<or> c = CHR ''&'' then
        [CHR 0x5C, CHR ''u'', CHR ''0'', CHR ''0'', hexDigit (byteOf c div 16), hexDigit (byteOf c mod 16)]
      else [c])"

definition lineSep :: string where "lineSep = [CHR 0xE2, CHR 0x80, CHR 0xA8]"
definition paraSep :: string where "paraSep = [CHR 0xE2, CHR 0x80, CHR 0xA9]"

definition escRune :: "string \<Rightarrow> string" where
  "escRune r = (if r = lineSep then CHR 0x5C # ''u2028''
                else if r = paraSep then CHR 0x5C # ''u2029'' else r)"

function jsonEscape :: "string \<Rightarrow> string" where
  "jsonEscape [] = []"
| "jsonEscape (c # cs) =
     (if byteOf c < 0x80 then escAscii c @ jsonEscape cs
      else if runeWidth (c # cs) = 0 then CHR 0x5C # ''ufffd'' @ jsonEscape cs
      else escRune (take (runeWidth (c # cs)) (c # cs)) @
           jsonEscape (drop (runeWidth (c # cs) - 1) cs))"
  by pat_completeness auto
termination
  by (relation "measure length") auto

definition quote :: char where "quote = CHR 0x22"

definition jsonString :: "string \<Rightarrow> string" where
  "jsonString s = quote # jsonEscape s @ [quote]"

definition hexVal :: "char \<Rightarrow> nat option" where
  "hexVal c = (if isDigit c then Some (byteOf c - 48)
     else if 97 \<le> byteOf c \<and> byteOf c \<le> 102 then Some (byteOf c - 87)
     else if 65 \<le> byteOf c \<and> byteOf c \<le> 70 then Some (byteOf c - 55) else None)"

definition chrOf :: "nat \<Rightarrow> char" where "chrOf n = char_of n"

text \<open>One basic-plane code point; surrogate escapes are never canonical and are refused.\<close>

definition utf8Rune :: "nat \<Rightarrow> string option" where
  "utf8Rune u =
     (if u < 0x80 then Some [chrOf u]
      else if u < 0x800 then Some [chrOf (0xC0 + u div 64), chrOf (0x80 + u mod 64)]
      else if 0xD800 \<le> u \<and> u \<le> 0xDFFF then None
      else Some [chrOf (0xE0 + u div 4096), chrOf (0x80 + u div 64 mod 64), chrOf (0x80 + u mod 64)])"

definition hexRune :: "char \<Rightarrow> char \<Rightarrow> char \<Rightarrow> char \<Rightarrow> string option" where
  "hexRune a b c d = do {
     w \<leftarrow> hexVal a; x \<leftarrow> hexVal b; y \<leftarrow> hexVal c; z \<leftarrow> hexVal d;
     utf8Rune (4096 * w + 256 * x + 16 * y + z) }"

definition escLetter :: "char \<Rightarrow> char option" where
  "escLetter d =
     (if d = CHR 0x22 \<or> d = CHR 0x5C \<or> d = CHR ''/'' then Some d
      else if d = CHR ''b'' then Some (CHR 0x08) else if d = CHR ''f'' then Some (CHR 0x0C)
      else if d = CHR ''n'' then Some (CHR 0x0A) else if d = CHR ''r'' then Some (CHR 0x0D)
      else if d = CHR ''t'' then Some (CHR 0x09) else None)"

definition emit :: "string \<Rightarrow> (string \<times> 'r) option \<Rightarrow> (string \<times> 'r) option" where
  "emit p r = map_option (\<lambda>(s, t). (p @ s, t)) r"

lemma emit_Some [simp]: "emit p (Some (s, t)) = Some (p @ s, t)"
  by (simp add: emit_def)

text \<open>The body of a string literal up to its closing quote, and the text behind it.\<close>

function readBody :: "string \<Rightarrow> (string \<times> string) option" where
  "readBody [] = None"
| "readBody (c # cs) =
     (if c = quote then Some ([], cs)
      else if c = CHR 0x5C then
        (case cs of
           [] \<Rightarrow> None
         | d # ds \<Rightarrow>
             if d = CHR ''u'' then
               (case ds of w # x # y # z # r \<Rightarrow>
                  (case hexRune w x y z of None \<Rightarrow> None | Some u \<Rightarrow> emit u (readBody r))
                | _ \<Rightarrow> None)
             else (case escLetter d of None \<Rightarrow> None | Some e \<Rightarrow> emit [e] (readBody ds)))
      else if byteOf c < 0x20 then None
      else emit [c] (readBody cs))"
  by pat_completeness auto
termination
  by (relation "measure length") auto

definition readString :: "string \<Rightarrow> (string \<times> string) option" where
  "readString s = (case s of c # cs \<Rightarrow> if c = quote then readBody cs else None | [] \<Rightarrow> None)"

text \<open>Reading one escaped ASCII character back.\<close>

lemma readBody_plain:
  "c \<noteq> quote \<Longrightarrow> c \<noteq> CHR 0x5C \<Longrightarrow> \<not> byteOf c < 0x20 \<Longrightarrow> readBody (c # t) = emit [c] (readBody t)"
  by simp

lemma hexVal_hexDigit: "k < 16 \<Longrightarrow> hexVal (hexDigit k) = Some k"
proof -
  have "list_all (\<lambda>k. hexVal (hexDigit k) = Some k) [0..<16]" by code_simp
  then show "k < 16 \<Longrightarrow> hexVal (hexDigit k) = Some k" by (simp add: list_all_iff)
qed

lemma hexVal_0: "hexVal (CHR ''0'') = Some 0"
  by code_simp

lemma hexRune_byte:
  "n < 128 \<Longrightarrow> hexRune (CHR ''0'') (CHR ''0'') (hexDigit (n div 16)) (hexDigit (n mod 16)) = Some [chrOf n]"
  by (simp add: hexRune_def hexVal_hexDigit hexVal_0 utf8Rune_def)

lemma chrOf_byteOf [simp]: "chrOf (byteOf c) = c"
  by (simp add: chrOf_def byteOf_def)

lemma readBody_escAscii:
  assumes "byteOf c < 128"
  shows "readBody (escAscii c @ t) = emit [c] (readBody t)"
  using hexRune_byte [OF assms] by (simp add: escAscii_def escLetter_def quote_def)

lemma readBody_high:
  "\<forall>d \<in> set r. 128 \<le> byteOf d \<Longrightarrow> readBody (r @ t) = emit r (readBody t)"
proof (induction r)
  case Nil
  then show ?case by (cases "readBody t") (auto simp: emit_def)
next
  case (Cons d r)
  have "d \<noteq> quote" "d \<noteq> CHR 0x5C" "\<not> byteOf d < 0x20"
    using Cons.prems by (auto simp: quote_def byteOf_def)
  with Cons show ?case by (cases "readBody t") (auto simp: emit_def)
qed

lemma readBody_escRune:
  assumes "\<forall>d \<in> set r. 128 \<le> byteOf d"
  shows "readBody (escRune r @ t) = emit r (readBody t)"
proof -
  have "hexRune (CHR ''2'') (CHR ''0'') (CHR ''2'') (CHR ''8'') = Some lineSep"
    and "hexRune (CHR ''2'') (CHR ''0'') (CHR ''2'') (CHR ''9'') = Some paraSep"
    by (simp_all add: hexRune_def hexVal_def isDigit_def byteOf_def utf8Rune_def chrOf_def
        char_of_def bit_Suc_0_iff lineSep_def paraSep_def)
  then show ?thesis using readBody_high [OF assms] by (auto simp: escRune_def quote_def)
qed

lemma readBody_jsonEscape:
  "utf8Valid s \<Longrightarrow> readBody (jsonEscape s @ quote # t) = Some (s, t)"
proof (induction s rule: jsonEscape.induct)
  case 1
  then show ?case by simp
next
  case (2 c cs)
  let ?w = "runeWidth (c # cs)"
  show ?case
  proof (cases "byteOf c < 0x80")
    case True
    with 2 show ?thesis by (simp add: readBody_escAscii)
  next
    case False
    have w: "0 < ?w" "?w \<le> length (c # cs)" "utf8Valid (drop ?w (c # cs))"
      using utf8Valid_width [OF 2(4)] by auto
    then have d: "drop ?w (c # cs) = drop (?w - 1) cs" by (cases ?w) auto
    have "\<forall>d \<in> set (take ?w (c # cs)). 128 \<le> byteOf d"
      using runeWidth_high [OF w(1)] False by auto
    moreover have "readBody (jsonEscape (drop (?w - 1) cs) @ quote # t) = Some (drop (?w - 1) cs, t)"
      using 2(3) [OF False] w d by simp
    moreover have "jsonEscape (c # cs) = escRune (take ?w (c # cs)) @ jsonEscape (drop (?w - 1) cs)"
      using False w(1) by simp
    moreover have "take ?w (c # cs) @ drop (?w - 1) cs = c # cs"
      by (metis append_take_drop_id d)
    ultimately show ?thesis by (simp add: readBody_escRune)
  qed
qed

text \<open>Round trip of string literals.\<close>

lemma readString_jsonString:
  "utf8Valid s \<Longrightarrow> readString (jsonString s @ t) = Some (s, t)"
  by (simp add: readString_def jsonString_def readBody_jsonEscape)

section \<open>Integer literals\<close>

definition digit10 :: "nat \<Rightarrow> char" where
  "digit10 n = (''0123456789'' ! n)"

fun fmtNat :: "nat \<Rightarrow> string" where
  "fmtNat n = (if n < 10 then [digit10 n] else fmtNat (n div 10) @ [digit10 (n mod 10)])"

declare fmtNat.simps [simp del]

definition fmtInt :: "int \<Rightarrow> string" where
  "fmtInt i = (if i < 0 then CHR ''-'' # fmtNat (nat (- i)) else fmtNat (nat i))"

definition readNat :: "string \<Rightarrow> (nat \<times> string) option" where
  "readNat s = (let ds = takeWhile isDigit s in
     if ds = [] then None else Some (decVal ds, dropWhile isDigit s))"

definition readInt :: "string \<Rightarrow> (int \<times> string) option" where
  "readInt s = (case s of
      c # cs \<Rightarrow> if c = CHR ''-'' then map_option (\<lambda>(n, t). (- int n, t)) (readNat cs)
                 else map_option (\<lambda>(n, t). (int n, t)) (readNat s)
    | [] \<Rightarrow> None)"

text \<open>\<open>int64\<close> fields refuse literals out of range; \<open>uint32\<close> and \<open>uint64\<close> fields too.\<close>

definition readInt64 :: "string \<Rightarrow> (int \<times> string) option" where
  "readInt64 s = do {
     (i, t) \<leftarrow> readInt s;
     (if - maxInt64 - 1 \<le> i \<and> i \<le> maxInt64 then Some (i, t) else None) }"

definition readWord :: "string \<Rightarrow> ('w::len word \<times> string) option" where
  "readWord s = do {
     (n, t) \<leftarrow> readNat s;
     (if n < 2 ^ LENGTH('w) then Some (of_nat n, t) else None) }"

lemma digit10_props:
  assumes "n < 10"
  shows "isDigit (digit10 n)" and "byteOf (digit10 n) - 48 = n"
proof -
  have "list_all (\<lambda>n. isDigit (digit10 n) \<and> byteOf (digit10 n) - 48 = n) [0..<10]" by code_simp
  then show "isDigit (digit10 n)" and "byteOf (digit10 n) - 48 = n"
    using assms by (simp_all add: list_all_iff)
qed

lemma fmtNat_props: "fmtNat n \<noteq> [] \<and> list_all isDigit (fmtNat n) \<and> decVal (fmtNat n) = n"
proof (induction n rule: fmtNat.induct)
  case (1 n)
  then show ?case
    by (subst (1 2 3) fmtNat.simps) (auto simp: decVal_def digit10_props)
qed

lemma readNat_fmtNat:
  assumes "t = [] \<or> \<not> isDigit (hd t)"
  shows "readNat (fmtNat n @ t) = Some (n, t)"
proof -
  have d: "\<forall>c \<in> set (fmtNat n). isDigit c" using fmtNat_props [of n] by (simp add: list_all_iff)
  have "takeWhile isDigit t = []" and "dropWhile isDigit t = t"
    using assms by (cases t; auto)+
  then have "takeWhile isDigit (fmtNat n @ t) = fmtNat n" and "dropWhile isDigit (fmtNat n @ t) = t"
    using d by (simp_all add: takeWhile_append2 dropWhile_append2)
  then show ?thesis using fmtNat_props [of n] by (simp add: readNat_def Let_def)
qed

lemma fmtNat_hd: "\<exists>c cs. fmtNat n = c # cs \<and> isDigit c"
  using fmtNat_props [of n] by (cases "fmtNat n") auto

lemma not_digit_minus: "\<not> isDigit (CHR ''-'')"
  by code_simp

lemma readInt_fmtInt:
  assumes "t = [] \<or> \<not> isDigit (hd t)"
  shows "readInt (fmtInt i @ t) = Some (i, t)"
proof (cases "i < 0")
  case True
  then show ?thesis using readNat_fmtNat [OF assms] by (simp add: readInt_def fmtInt_def)
next
  case False
  moreover obtain c cs where "fmtNat (nat i) = c # cs" "c \<noteq> CHR ''-''"
    using fmtNat_hd not_digit_minus by metis
  ultimately show ?thesis
    using readNat_fmtNat [OF assms, of "nat i"] by (simp add: readInt_def fmtInt_def)
qed

lemma readInt64_fmtInt:
  "t = [] \<or> \<not> isDigit (hd t) \<Longrightarrow> - maxInt64 - 1 \<le> i \<Longrightarrow> i \<le> maxInt64 \<Longrightarrow>
   readInt64 (fmtInt i @ t) = Some (i, t)"
  by (simp add: readInt64_def readInt_fmtInt)

lemma readWord_fmtNat:
  "t = [] \<or> \<not> isDigit (hd t) \<Longrightarrow> readWord (fmtNat (unat w) @ t) = Some (w, t)"
  for w :: "'w::len word"
  using unsigned_less [of w] by (simp add: readWord_def readNat_fmtNat)

section \<open>Object extents\<close>

text \<open>
  The length of the object literal at the head of the text: braces are counted outside string
  literals, as the library does when it hands the bytes of one member to its type's decoder.
\<close>

fun scanObject :: "nat \<Rightarrow> bool \<Rightarrow> bool \<Rightarrow> string \<Rightarrow> nat option" where
  "scanObject d ins esc [] = None"
| "scanObject d ins esc (c # cs) =
     (if ins then
        map_option Suc (scanObject d (esc \<or> c \<noteq> quote) (\<not> esc \<and> c = CHR 0x5C) cs)
      else if c = quote then map_option Suc (scanObject d True False cs)
      else if c = CHR 0x7B then map_option Suc (scanObject (Suc d) False False cs)
      else if c = CHR 0x7D then
        (if d \<le> 1 then Some 1 else map_option Suc (scanObject (d - 1) False False cs))
      else map_option Suc (scanObject d False False cs))"

definition jsonObject :: "string \<Rightarrow> bool" where
  "jsonObject m = (hasPrefix [CHR 0x7B] m \<and> scanObject 0 False False m = Some (length m))"

definition readObject :: "string \<Rightarrow> (string \<times> string) option" where
  "readObject s =
     (if hasPrefix [CHR 0x7B] s then
        map_option (\<lambda>n. (take n s, drop n s)) (scanObject 0 False False s)
      else None)"

lemma scanObject_append: "scanObject d i e m = Some n \<Longrightarrow> scanObject d i e (m @ t) = Some n"
  by (induction d i e m arbitrary: n rule: scanObject.induct) (auto split: if_splits)

lemma readObject_append:
  assumes "jsonObject m"
  shows "readObject (m @ t) = Some (m, t)"
proof -
  have "hasPrefix [CHR 0x7B] (m @ t)" using assms by (auto simp: jsonObject_def hasPrefix_iff)
  moreover have "scanObject 0 False False (m @ t) = Some (length m)"
    using assms scanObject_append unfolding jsonObject_def by blast
  ultimately show ?thesis by (simp add: readObject_def)
qed

section \<open>Literal text\<close>

definition readLit :: "string \<Rightarrow> string \<Rightarrow> string option" where
  "readLit p s = (if hasPrefix p s then Some (drop (length p) s) else None)"

lemma readLit_append [simp]: "readLit p (p @ t) = Some t"
  by (simp add: readLit_def)

end
