(* ===== verification/Journal_Records.thy ===== *)
theory Journal_Records
  imports Go_Errors Go_JSON
begin

text \<open>
  The records of the durable session-operation journal (\<open>pkg/agentstate/session_operation.go\<close>),
  their validity, the transition rules between two versions of one record, and the canonical JSON
  text of a journal.

  \<open>qurl.NativeSessionOperation\<close> and \<open>qurl.NHPUDPEndpoint\<close> are types of another module: the model has
  the fields the sources read (the rest of an operation is the opaque \<open>opRest\<close>), and their JSON
  codecs are the record \<open>codec\<close>, a parameter of every definition that marshals. \<open>codec_ok\<close> states
  what is documented of them: an encoder that succeeds writes one JSON object, decoded strings are
  valid UTF-8, and an endpoint of plain ASCII fields survives the round trip.
\<close>

section \<open>Records\<close>

record NativeSessionOperation =
  opOperationID :: string
  opProtectedResourceID :: string
  opResourceID :: string
  opCellID :: string
  opOwnerID :: string
  opAgentID :: string
  opRunID :: string
  opRunAttempt :: uint64
  opPreparedAtMillis :: millis
  opExpiresAtMillis :: millis
  opRest :: string

record NHPUDPEndpoint =
  epHost :: string
  epPort :: int
  epServerPublicKeyB64 :: string

record SessionOperationAdmission =
  adCellID :: string
  adSessionID :: uint64
  adSessionIssuedAtMillis :: millis
  adRunID :: string
  adRunAttempt :: uint64

text \<open>A status is a Go string; the six constants are abbreviations.\<close>

abbreviation SessionOperationPrepared :: string where "SessionOperationPrepared \<equiv> ''PREPARED''"
abbreviation SessionOperationDispatching :: string where "SessionOperationDispatching \<equiv> ''DISPATCHING''"
abbreviation SessionOperationMapped :: string where "SessionOperationMapped \<equiv> ''MAPPED''"
abbreviation SessionOperationClosing :: string where "SessionOperationClosing \<equiv> ''CLOSING''"
abbreviation SessionOperationCanceled :: string where "SessionOperationCanceled \<equiv> ''CANCELED''"
abbreviation SessionOperationClosed :: string where "SessionOperationClosed \<equiv> ''CLOSED''"

record SessionOperationRecord =
  soSchema :: int
  soOperation :: NativeSessionOperation
  soRecoveryEndpoint :: NHPUDPEndpoint
  soStatus :: string
  soAdmission :: "SessionOperationAdmission option"
  soRecoveryAttempt :: uint32
  soRecoveryNotBeforeMilli :: millis
  soPostExpiryNoReplyAttempts :: uint32

record sessionOperationJournal =
  jSchema :: int
  jProtectedResourceID :: string
  jRecords :: "SessionOperationRecord list"

definition sessionOperationRecordSchema :: int where "sessionOperationRecordSchema = 2"
definition sessionOperationJournalSchema :: int where "sessionOperationJournalSchema = 2"
definition sessionOperationFileMaxBytes :: nat where "sessionOperationFileMaxBytes = 65536"
definition sessionOperationMaxRecords :: nat where "sessionOperationMaxRecords = 8"

abbreviation soID :: "SessionOperationRecord \<Rightarrow> string" where
  "soID r \<equiv> opOperationID (soOperation r)"

section \<open>Codecs of the external types\<close>

record codec =
  cMarshalOp :: "NativeSessionOperation \<Rightarrow> string option"
  cUnmarshalOp :: "string \<Rightarrow> NativeSessionOperation option"
  cMarshalEp :: "NHPUDPEndpoint \<Rightarrow> string option"
  cUnmarshalEp :: "string \<Rightarrow> NHPUDPEndpoint option"

section \<open>Validity of records\<close>

text \<open>\<open>validOperation\<close>: a non-empty identifier and an exact JSON round trip.\<close>

definition validOperation :: "codec \<Rightarrow> NativeSessionOperation \<Rightarrow> bool" where
  "validOperation c op =
     (if opOperationID op = '''' then False
      else case cMarshalOp c op of
          None \<Rightarrow> False
        | Some raw \<Rightarrow> cUnmarshalOp c raw = Some op)"

definition validHostChar :: "char \<Rightarrow> bool" where
  "validHostChar c = (isLower c \<or> isDigit c \<or> c = CHR ''-'')"

definition validHostLabel :: "string \<Rightarrow> bool" where
  "validHostLabel l =
     (l \<noteq> [] \<and> length l \<le> 63 \<and> hd l \<noteq> CHR ''-'' \<and> last l \<noteq> CHR ''-'' \<and> list_all validHostChar l)"

text \<open>
  \<open>validRecoveryEndpointHost\<close>. Of the literals \<open>net.ParseIP\<close> accepts only dotted IPv4 ones matter:
  every other one holds a colon, which no label may hold.
\<close>

definition validRecoveryEndpointHost :: "string \<Rightarrow> bool" where
  "validRecoveryEndpointHost host =
     (if host = '''' \<or> 253 < length host \<or> hasSuffix ''.'' host \<or> isIPv4Literal host \<or>
         CHR '':'' \<in> set host then False
      else list_all validHostLabel (splitOn (CHR ''.'') host))"

definition validRecoveryEndpoint :: "NHPUDPEndpoint \<Rightarrow> bool" where
  "validRecoveryEndpoint ep =
     (if \<not> validRecoveryEndpointHost (epHost ep) \<or> epPort ep \<noteq> 443 then False
      else case b64DecodeStrict (epServerPublicKeyB64 ep) of
          None \<Rightarrow> False
        | Some key \<Rightarrow> length key = 32 \<and> b64Encode key = epServerPublicKeyB64 ep)"

definition validSessionOperationAdmission ::
  "SessionOperationAdmission option \<Rightarrow> NativeSessionOperation \<Rightarrow> bool" where
  "validSessionOperationAdmission ao op = (case ao of
      None \<Rightarrow> False
    | Some a \<Rightarrow> adCellID a = opCellID op \<and> adSessionID a \<noteq> 0 \<and> 0 < adSessionIssuedAtMillis a \<and>
        adRunID a = opRunID op \<and> adRunAttempt a = opRunAttempt op)"

definition validSessionOperationRecord :: "codec \<Rightarrow> SessionOperationRecord \<Rightarrow> bool" where
  "validSessionOperationRecord c r =
     (if soSchema r \<noteq> sessionOperationRecordSchema \<or> \<not> validOperation c (soOperation r) \<or>
         \<not> validRecoveryEndpoint (soRecoveryEndpoint r) \<or>
         (soRecoveryAttempt r = 0) \<noteq> (soRecoveryNotBeforeMilli r = 0) \<or>
         soRecoveryNotBeforeMilli r < 0 \<or>
         soRecoveryAttempt r < soPostExpiryNoReplyAttempts r then False
      else if soStatus r = SessionOperationPrepared \<or> soStatus r = SessionOperationDispatching then
        soAdmission r = None
      else if soStatus r = SessionOperationMapped \<or> soStatus r = SessionOperationClosing \<or>
              soStatus r = SessionOperationClosed then
        validSessionOperationAdmission (soAdmission r) (soOperation r)
      else if soStatus r = SessionOperationCanceled then soAdmission r = None
      else False)"

fun duplicateID :: "string list \<Rightarrow> SessionOperationRecord list \<Rightarrow> bool" where
  "duplicateID seen [] = False"
| "duplicateID seen (r # rs) = (soID r \<in> set seen \<or> duplicateID (soID r # seen) rs)"

definition validSessionOperationJournal :: "codec \<Rightarrow> sessionOperationJournal \<Rightarrow> bool" where
  "validSessionOperationJournal c j =
     (if jSchema j \<noteq> sessionOperationJournalSchema \<or> jProtectedResourceID j = '''' \<or>
         length (jRecords j) = 0 \<or> sessionOperationMaxRecords < length (jRecords j) then False
      else list_all (\<lambda>r. validSessionOperationRecord c r \<and>
               opProtectedResourceID (soOperation r) = jProtectedResourceID j) (jRecords j) \<and>
           \<not> duplicateID [] (jRecords j))"

lemma duplicateID_iff:
  "duplicateID seen rs \<longleftrightarrow> \<not> (distinct (map soID rs) \<and> set (map soID rs) \<inter> set seen = {})"
  by (induction rs arbitrary: seen) auto

text \<open>\<open>NewSessionOperationRecord\<close> builds the only initial record.\<close>

definition initialRecord :: "NativeSessionOperation \<Rightarrow> NHPUDPEndpoint \<Rightarrow> SessionOperationRecord" where
  "initialRecord op ep =
     \<lparr>soSchema = sessionOperationRecordSchema, soOperation = op, soRecoveryEndpoint = ep,
      soStatus = SessionOperationPrepared, soAdmission = None, soRecoveryAttempt = 0,
      soRecoveryNotBeforeMilli = 0, soPostExpiryNoReplyAttempts = 0\<rparr>"

definition NewSessionOperationRecord ::
  "codec \<Rightarrow> NativeSessionOperation \<Rightarrow> NHPUDPEndpoint \<Rightarrow> SessionOperationRecord res" where
  "NewSessionOperationRecord c op ep =
     (if \<not> validOperation c op then Inl (Errorf ''invalid initial operation'' (Sentinel SConflict))
      else if \<not> validRecoveryEndpoint ep then
        Inl (Errorf ''invalid initial recovery endpoint'' (Sentinel SConflict))
      else Inr (initialRecord op ep))"

section \<open>Transitions\<close>

text \<open>
  \<open>validSessionOperationRecoveryProgress\<close>: both differences are taken in 32-bit arithmetic, after
  the guards that no counter regresses.
\<close>

definition validSessionOperationRecoveryProgress ::
  "SessionOperationRecord \<Rightarrow> SessionOperationRecord \<Rightarrow> bool" where
  "validSessionOperationRecoveryProgress previous next =
     (if soRecoveryAttempt next < soRecoveryAttempt previous \<or>
         soRecoveryNotBeforeMilli next < soRecoveryNotBeforeMilli previous \<or>
         soPostExpiryNoReplyAttempts next < soPostExpiryNoReplyAttempts previous then False
      else let attempts = soRecoveryAttempt next - soRecoveryAttempt previous;
               failures = soPostExpiryNoReplyAttempts next - soPostExpiryNoReplyAttempts previous
      in if attempts = 0 \<and> failures = 0 then
           soRecoveryNotBeforeMilli next = soRecoveryNotBeforeMilli previous
         else if attempts = 1 \<and> failures = 0 \<or> attempts = 0 \<and> failures = 1 then
           soRecoveryNotBeforeMilli previous < soRecoveryNotBeforeMilli next
         else False)"

definition validStatusStep :: "string \<Rightarrow> string \<Rightarrow> bool" where
  "validStatusStep p n =
     (if p = SessionOperationPrepared then
        n = SessionOperationDispatching \<or> n = SessionOperationCanceled
      else if p = SessionOperationDispatching then
        n = SessionOperationDispatching \<or> n = SessionOperationMapped \<or> n = SessionOperationCanceled \<or>
        n = SessionOperationClosing \<or> n = SessionOperationClosed
      else if p = SessionOperationMapped then n = SessionOperationClosing \<or> n = SessionOperationClosed
      else if p = SessionOperationClosing then n = SessionOperationClosing \<or> n = SessionOperationClosed
      else False)"

definition validSessionOperationTransition ::
  "codec \<Rightarrow> SessionOperationRecord \<Rightarrow> SessionOperationRecord \<Rightarrow> bool" where
  "validSessionOperationTransition c previous next =
     (if \<not> validSessionOperationRecord c previous \<or> \<not> validSessionOperationRecord c next \<or>
         soSchema previous \<noteq> soSchema next \<or> soOperation previous \<noteq> soOperation next then False
      else if soAdmission previous \<noteq> None \<and>
              (soAdmission next = None \<or> soAdmission previous \<noteq> soAdmission next) then False
      else if \<not> validSessionOperationRecoveryProgress previous next then False
      else validStatusStep (soStatus previous) (soStatus next))"

section \<open>Consequences of validity\<close>

definition terminal :: "SessionOperationRecord \<Rightarrow> bool" where
  "terminal r = (soStatus r = SessionOperationCanceled \<or> soStatus r = SessionOperationClosed)"

lemma validJournal_iff:
  "validSessionOperationJournal c j \<longleftrightarrow>
     jSchema j = sessionOperationJournalSchema \<and> jProtectedResourceID j \<noteq> '''' \<and>
     jRecords j \<noteq> [] \<and> length (jRecords j) \<le> sessionOperationMaxRecords \<and>
     (\<forall>r \<in> set (jRecords j). validSessionOperationRecord c r \<and>
        opProtectedResourceID (soOperation r) = jProtectedResourceID j) \<and>
     distinct (map soID (jRecords j))"
  by (auto simp: validSessionOperationJournal_def duplicateID_iff list_all_iff)

lemma validRecordD [inv_dests]:
  assumes "validSessionOperationRecord c r"
  shows "soSchema r = sessionOperationRecordSchema" "validOperation c (soOperation r)"
    "validRecoveryEndpoint (soRecoveryEndpoint r)" "0 \<le> soRecoveryNotBeforeMilli r"
    "soRecoveryAttempt r = 0 \<longleftrightarrow> soRecoveryNotBeforeMilli r = 0"
    "soPostExpiryNoReplyAttempts r \<le> soRecoveryAttempt r"
  using assms by (auto simp: validSessionOperationRecord_def linorder_not_less split: if_splits)

lemma validRecord_status:
  "validSessionOperationRecord c r \<Longrightarrow>
     soStatus r \<in> {SessionOperationPrepared, SessionOperationDispatching, SessionOperationMapped,
       SessionOperationClosing, SessionOperationCanceled, SessionOperationClosed}"
  by (auto simp: validSessionOperationRecord_def split: if_splits)

lemma validRecord_admission:
  "validSessionOperationRecord c r \<Longrightarrow>
     (if soStatus r \<in> {SessionOperationMapped, SessionOperationClosing, SessionOperationClosed}
      then validSessionOperationAdmission (soAdmission r) (soOperation r)
      else soAdmission r = None)"
  by (auto simp: validSessionOperationRecord_def split: if_splits)

lemma validTransitionD:
  assumes "validSessionOperationTransition c p n"
  shows "validSessionOperationRecord c p" "validSessionOperationRecord c n"
    "soSchema n = soSchema p" "soOperation n = soOperation p"
    "soAdmission p \<noteq> None \<Longrightarrow> soAdmission n = soAdmission p"
    "validSessionOperationRecoveryProgress p n" "validStatusStep (soStatus p) (soStatus n)"
  using assms by (auto simp: validSessionOperationTransition_def split: if_splits)

text \<open>In terms of numbers, one step raises the two counters together by at most one.\<close>

lemma word_diff_one:
  fixes a b :: uint32
  assumes "a \<le> b" and "b - a = 1"
  shows "unat b = unat a + 1"
proof -
  have "unat (b - a) = unat b - unat a" using assms(1) by (rule unat_sub)
  moreover have "unat a \<le> unat b" using assms(1) by (simp add: word_le_nat_alt)
  ultimately show ?thesis using assms(2) by simp
qed

lemma progressD:
  assumes "validSessionOperationRecoveryProgress p n"
  shows "soRecoveryAttempt p \<le> soRecoveryAttempt n"
    "soPostExpiryNoReplyAttempts p \<le> soPostExpiryNoReplyAttempts n"
    "soRecoveryNotBeforeMilli p \<le> soRecoveryNotBeforeMilli n"
  using assms by (auto simp: validSessionOperationRecoveryProgress_def split: if_splits)

lemma progress_cases:
  assumes "validSessionOperationRecoveryProgress p n"
  obtains (none) "soRecoveryAttempt n = soRecoveryAttempt p"
      "soPostExpiryNoReplyAttempts n = soPostExpiryNoReplyAttempts p"
      "soRecoveryNotBeforeMilli n = soRecoveryNotBeforeMilli p"
  | (attempt) "unat (soRecoveryAttempt n) = unat (soRecoveryAttempt p) + 1"
      "soPostExpiryNoReplyAttempts n = soPostExpiryNoReplyAttempts p"
      "soRecoveryNotBeforeMilli p < soRecoveryNotBeforeMilli n"
  | (failure) "soRecoveryAttempt n = soRecoveryAttempt p"
      "unat (soPostExpiryNoReplyAttempts n) = unat (soPostExpiryNoReplyAttempts p) + 1"
      "soRecoveryNotBeforeMilli p < soRecoveryNotBeforeMilli n"
proof -
  let ?a = "soRecoveryAttempt n - soRecoveryAttempt p"
  let ?f = "soPostExpiryNoReplyAttempts n - soPostExpiryNoReplyAttempts p"
  have zero: "?a = 0 \<longleftrightarrow> soRecoveryAttempt n = soRecoveryAttempt p"
    "?f = 0 \<longleftrightarrow> soPostExpiryNoReplyAttempts n = soPostExpiryNoReplyAttempts p"
    by simp_all
  consider "?a = 0" "?f = 0" "soRecoveryNotBeforeMilli n = soRecoveryNotBeforeMilli p"
    | "?a = 1" "?f = 0" "soRecoveryNotBeforeMilli p < soRecoveryNotBeforeMilli n"
    | "?a = 0" "?f = 1" "soRecoveryNotBeforeMilli p < soRecoveryNotBeforeMilli n"
    using assms unfolding validSessionOperationRecoveryProgress_def Let_def by (metis (full_types))
  then show thesis
  proof cases
    case 1
    then show thesis using none zero by blast
  next
    case 2
    then show thesis using attempt zero word_diff_one progressD(1) [OF assms] by blast
  next
    case 3
    then show thesis using failure zero word_diff_one progressD(2) [OF assms] by blast
  qed
qed

lemma validStatusStep_cases:
  "validStatusStep p n \<Longrightarrow>
     p \<in> {SessionOperationPrepared, SessionOperationDispatching, SessionOperationMapped, SessionOperationClosing}
     \<and> n \<noteq> SessionOperationPrepared"
  by (auto simp: validStatusStep_def split: if_splits)

end
