(* ===== verification/Journal_Codec.thy ===== *)
theory Journal_Codec
  imports Journal_Records
begin

text \<open>
  The canonical JSON text of a journal: \<open>json.Marshal\<close> of \<open>sessionOperationJournal\<close> in the order and
  with the \<open>omitempty\<close> rules of the struct tags, a reader for that text, and
  \<open>decodeSessionOperationJournal\<close>, which accepts exactly the canonical texts of valid journals. The
  main facts are the round trip of valid journals and that two valid records have the same text only
  when they are equal, which makes the byte comparison of \<open>sameSessionOperationRecord\<close> an exact
  compare-and-swap guard.
\<close>

section \<open>Writing\<close>

definition key :: "string \<Rightarrow> string" where
  "key k = quote # k @ [quote, CHR '':'']"

definition marshalAdmission :: "SessionOperationAdmission \<Rightarrow> string" where
  "marshalAdmission a =
     CHR 0x7B # key ''cell_id'' @ jsonString (adCellID a) @
     CHR '','' # key ''session_id'' @ fmtNat (unat (adSessionID a)) @
     CHR '','' # key ''session_issued_at_ms'' @ fmtInt (adSessionIssuedAtMillis a) @
     CHR '','' # key ''run_id'' @ jsonString (adRunID a) @
     CHR '','' # key ''run_attempt'' @ fmtNat (unat (adRunAttempt a)) @ [CHR 0x7D]"

text \<open>The members tagged \<open>omitempty\<close> are left out when they are nil or zero.\<close>

definition marshalTail :: "SessionOperationRecord \<Rightarrow> string" where
  "marshalTail r =
     (case soAdmission r of None \<Rightarrow> [] | Some a \<Rightarrow> CHR '','' # key ''admission'' @ marshalAdmission a) @
     (if soRecoveryAttempt r = 0 then []
      else CHR '','' # key ''recovery_attempt'' @ fmtNat (unat (soRecoveryAttempt r))) @
     (if soRecoveryNotBeforeMilli r = 0 then []
      else CHR '','' # key ''recovery_not_before_ms'' @ fmtInt (soRecoveryNotBeforeMilli r)) @
     (if soPostExpiryNoReplyAttempts r = 0 then []
      else CHR '','' # key ''post_expiry_no_reply_attempts'' @ fmtNat (unat (soPostExpiryNoReplyAttempts r))) @
     [CHR 0x7D]"

definition marshalRecord :: "codec \<Rightarrow> SessionOperationRecord \<Rightarrow> string option" where
  "marshalRecord c r = do {
     op \<leftarrow> cMarshalOp c (soOperation r);
     ep \<leftarrow> cMarshalEp c (soRecoveryEndpoint r);
     Some (CHR 0x7B # key ''schema'' @ fmtInt (soSchema r) @
           CHR '','' # key ''operation'' @ op @
           CHR '','' # key ''recovery_endpoint'' @ ep @
           CHR '','' # key ''status'' @ jsonString (soStatus r) @ marshalTail r) }"

fun marshalRecords :: "codec \<Rightarrow> SessionOperationRecord list \<Rightarrow> string option" where
  "marshalRecords c [] = Some [CHR '']'']"
| "marshalRecords c (r # rs) = do {
     t \<leftarrow> marshalRecord c r;
     ts \<leftarrow> marshalRecords c rs;
     Some (CHR '','' # t @ ts) }"

text \<open>A nil slice is \<open>null\<close>; a list of records opens with a bracket in place of the first comma.\<close>

definition marshalJournal :: "codec \<Rightarrow> sessionOperationJournal \<Rightarrow> string option" where
  "marshalJournal c j = do {
     rs \<leftarrow> (if jRecords j = [] then Some ''null''
            else map_option (\<lambda>t. CHR ''['' # tl t) (marshalRecords c (jRecords j)));
     Some (CHR 0x7B # key ''schema'' @ fmtInt (jSchema j) @
           CHR '','' # key ''protected_resource_id'' @ jsonString (jProtectedResourceID j) @
           CHR '','' # key ''records'' @ rs @ [CHR 0x7D]) }"

section \<open>Reading\<close>

definition readAdmission :: "string \<Rightarrow> (SessionOperationAdmission \<times> string) option" where
  "readAdmission s = do {
     s \<leftarrow> readLit (CHR 0x7B # key ''cell_id'') s; (cell, s) \<leftarrow> readString s;
     s \<leftarrow> readLit (CHR '','' # key ''session_id'') s; (sid, s) \<leftarrow> readWord s;
     s \<leftarrow> readLit (CHR '','' # key ''session_issued_at_ms'') s; (iat, s) \<leftarrow> readInt64 s;
     s \<leftarrow> readLit (CHR '','' # key ''run_id'') s; (run, s) \<leftarrow> readString s;
     s \<leftarrow> readLit (CHR '','' # key ''run_attempt'') s; (att, s) \<leftarrow> readWord s;
     s \<leftarrow> readLit [CHR 0x7D] s;
     Some (\<lparr>adCellID = cell, adSessionID = sid, adSessionIssuedAtMillis = iat,
            adRunID = run, adRunAttempt = att\<rparr>, s) }"

definition readOptional ::
  "string \<Rightarrow> (string \<Rightarrow> ('a \<times> string) option) \<Rightarrow> 'a \<Rightarrow> string \<Rightarrow> ('a \<times> string) option" where
  "readOptional k rd absent s = (case readLit (CHR '','' # key k) s of
      None \<Rightarrow> Some (absent, s)
    | Some t \<Rightarrow> rd t)"

definition readTail ::
  "string \<Rightarrow> ((SessionOperationAdmission option \<times> uint32 \<times> millis \<times> uint32) \<times> string) option" where
  "readTail s = do {
     (ad, s) \<leftarrow> readOptional ''admission'' (\<lambda>s. map_option (map_prod Some id) (readAdmission s)) None s;
     (ra, s) \<leftarrow> readOptional ''recovery_attempt'' readWord 0 s;
     (nb, s) \<leftarrow> readOptional ''recovery_not_before_ms'' readInt64 0 s;
     (pe, s) \<leftarrow> readOptional ''post_expiry_no_reply_attempts'' readWord 0 s;
     s \<leftarrow> readLit [CHR 0x7D] s;
     Some ((ad, ra, nb, pe), s) }"

definition readRecord :: "codec \<Rightarrow> string \<Rightarrow> (SessionOperationRecord \<times> string) option" where
  "readRecord c s = do {
     s \<leftarrow> readLit (CHR 0x7B # key ''schema'') s; (sch, s) \<leftarrow> readInt64 s;
     s \<leftarrow> readLit (CHR '','' # key ''operation'') s; (m, s) \<leftarrow> readObject s;
     op \<leftarrow> cUnmarshalOp c m;
     s \<leftarrow> readLit (CHR '','' # key ''recovery_endpoint'') s; (n, s) \<leftarrow> readObject s;
     ep \<leftarrow> cUnmarshalEp c n;
     s \<leftarrow> readLit (CHR '','' # key ''status'') s; (st, s) \<leftarrow> readString s;
     ((ad, ra, nb, pe), s) \<leftarrow> readTail s;
     Some (\<lparr>soSchema = sch, soOperation = op, soRecoveryEndpoint = ep, soStatus = st,
            soAdmission = ad, soRecoveryAttempt = ra, soRecoveryNotBeforeMilli = nb,
            soPostExpiryNoReplyAttempts = pe\<rparr>, s) }"

text \<open>The number of records is bounded by the length of the text, which is the fuel.\<close>

fun readRecords :: "codec \<Rightarrow> nat \<Rightarrow> string \<Rightarrow> (SessionOperationRecord list \<times> string) option" where
  "readRecords c 0 s = map_option (Pair []) (readLit [CHR '']''] s)"
| "readRecords c (Suc n) s = (case readLit [CHR '']''] s of
      Some t \<Rightarrow> Some ([], t)
    | None \<Rightarrow> do {
        s \<leftarrow> readLit [CHR '',''] s;
        (r, s) \<leftarrow> readRecord c s;
        (rs, s) \<leftarrow> readRecords c n s;
        Some (r # rs, s) })"

definition readJournal :: "codec \<Rightarrow> string \<Rightarrow> sessionOperationJournal option" where
  "readJournal c raw = do {
     s \<leftarrow> readLit (CHR 0x7B # key ''schema'') raw; (sch, s) \<leftarrow> readInt64 s;
     s \<leftarrow> readLit (CHR '','' # key ''protected_resource_id'') s; (rid, s) \<leftarrow> readString s;
     s \<leftarrow> readLit (CHR '','' # key ''records'') s; s \<leftarrow> readLit [CHR ''[''] s;
     (r, s) \<leftarrow> readRecord c s;
     (rs, s) \<leftarrow> readRecords c (length s) s;
     s \<leftarrow> readLit [CHR 0x7D] s;
     (if s = [] then Some \<lparr>jSchema = sch, jProtectedResourceID = rid, jRecords = r # rs\<rparr> else None) }"

definition decodeSessionOperationJournal :: "codec \<Rightarrow> string \<Rightarrow> sessionOperationJournal res" where
  "decodeSessionOperationJournal c raw = (case readJournal c raw of
      None \<Rightarrow> Inl (NewErr ''invalid native session operation journal JSON'')
    | Some journal \<Rightarrow>
        if marshalJournal c journal \<noteq> Some raw \<or> \<not> validSessionOperationJournal c journal then
          Inl (NewErr ''native session operation journal is not canonical'')
        else Inr journal)"

definition sameSessionOperationRecord ::
  "codec \<Rightarrow> SessionOperationRecord \<Rightarrow> SessionOperationRecord \<Rightarrow> bool" where
  "sameSessionOperationRecord c left right = (case (marshalRecord c left, marshalRecord c right) of
      (Some lraw, Some rraw) \<Rightarrow> lraw = rraw
    | _ \<Rightarrow> False)"

definition findSessionOperationRecord ::
  "codec \<Rightarrow> SessionOperationRecord list \<Rightarrow> SessionOperationRecord \<Rightarrow> nat option" where
  "findSessionOperationRecord c records target =
     find_index (\<lambda>record. sameSessionOperationRecord c record target) records"

section \<open>What is documented of the external codecs\<close>

definition opText :: "NativeSessionOperation \<Rightarrow> bool" where
  "opText op = (utf8Valid (opOperationID op) \<and> utf8Valid (opProtectedResourceID op) \<and>
     utf8Valid (opCellID op) \<and> utf8Valid (opRunID op))"

definition codec_ok :: "codec \<Rightarrow> bool" where
  "codec_ok c \<longleftrightarrow>
     (\<forall>op m. cMarshalOp c op = Some m \<longrightarrow> jsonObject m) \<and>
     (\<forall>m op. cUnmarshalOp c m = Some op \<longrightarrow> opText op) \<and>
     (\<forall>ep. validRecoveryEndpoint ep \<longrightarrow>
        (\<exists>m. cMarshalEp c ep = Some m \<and> jsonObject m \<and> cUnmarshalEp c m = Some ep))"

text \<open>Go's \<open>int64\<close>: every deadline and timestamp of a journal fits.\<close>

definition int64Record :: "SessionOperationRecord \<Rightarrow> bool" where
  "int64Record r = (soRecoveryNotBeforeMilli r \<le> maxInt64 \<and>
     (case soAdmission r of None \<Rightarrow> True | Some a \<Rightarrow> adSessionIssuedAtMillis a \<le> maxInt64))"

section \<open>Round trips\<close>

text \<open>A literal is read back whatever follows; a following number literal ends at its comma or brace.\<close>

lemma readLit_Cons [simp]: "readLit (x # p) (x # p @ t) = Some t" "readLit [x] (x # t) = Some t"
  by (simp_all add: readLit_def)

lemma readLit_differs [simp]: "x \<noteq> y \<Longrightarrow> readLit (x # p) (y # t) = None"
  by (simp add: readLit_def)

lemma quote_prefix_unique:
  "a @ q # x = b @ q # y \<Longrightarrow> q \<notin> set a \<Longrightarrow> q \<notin> set b \<Longrightarrow> a = b"
  by (induction a arbitrary: b) (auto simp: Cons_eq_append_conv split: list.splits)

lemma readLit_key_differs:
  assumes "k \<noteq> l" "quote \<notin> set k" "quote \<notin> set l"
  shows "readLit (CHR '','' # key k) (CHR '','' # key l @ t) = None"
proof -
  have "\<not> hasPrefix (key k) (key l @ t)"
    using assms by (auto simp: hasPrefix_iff key_def dest: quote_prefix_unique)
  then show ?thesis by (simp add: readLit_def)
qed

lemma readOptional_simps:
  "readOptional k rd d (CHR '','' # key k @ t) = rd t"
  "readOptional k rd d (CHR 0x7D # t) = Some (d, CHR 0x7D # t)"
  "k \<noteq> l \<Longrightarrow> quote \<notin> set k \<Longrightarrow> quote \<notin> set l \<Longrightarrow>
     readOptional k rd d (CHR '','' # key l @ t) = Some (d, CHR '','' # key l @ t)"
  by (simp_all add: readOptional_def readLit_key_differs)

lemma number_ends [simp]: "\<not> isDigit (CHR '','')" "\<not> isDigit (CHR 0x7D)"
  by code_simp+

lemma readAdmission_marshal:
  assumes "utf8Valid (adCellID a)" "utf8Valid (adRunID a)"
    and "0 < adSessionIssuedAtMillis a" "adSessionIssuedAtMillis a \<le> maxInt64"
  shows "readAdmission (marshalAdmission a @ t) = Some (a, t)"
  using assms
  by (simp add: readAdmission_def marshalAdmission_def readString_jsonString readWord_fmtNat
      readInt64_fmtInt maxInt64_def)

lemma validAdmission_text:
  "validSessionOperationAdmission (Some a) op \<Longrightarrow> opText op \<Longrightarrow>
   utf8Valid (adCellID a) \<and> utf8Valid (adRunID a) \<and> 0 < adSessionIssuedAtMillis a"
  by (auto simp: validSessionOperationAdmission_def opText_def)

lemma readTail_marshalTail:
  assumes "\<forall>a. soAdmission r = Some a \<longrightarrow> utf8Valid (adCellID a) \<and> utf8Valid (adRunID a) \<and>
      0 < adSessionIssuedAtMillis a \<and> adSessionIssuedAtMillis a \<le> maxInt64"
    and "0 \<le> soRecoveryNotBeforeMilli r" "soRecoveryNotBeforeMilli r \<le> maxInt64"
  shows "readTail (marshalTail r @ t) =
    Some ((soAdmission r, soRecoveryAttempt r, soRecoveryNotBeforeMilli r,
           soPostExpiryNoReplyAttempts r), t)"
proof -
  have low: "- maxInt64 - 1 \<le> soRecoveryNotBeforeMilli r"
    using assms(2) by (simp add: maxInt64_def)
  show ?thesis
    unfolding readTail_def marshalTail_def
    using assms low
    by (cases "soAdmission r"; cases "soRecoveryAttempt r = 0";
        cases "soRecoveryNotBeforeMilli r = 0"; cases "soPostExpiryNoReplyAttempts r = 0")
      (simp_all add: readOptional_simps quote_def readAdmission_marshal readWord_fmtNat readInt64_fmtInt)
qed

lemma ascii_utf8: "\<forall>c \<in> set s. byteOf c < 128 \<Longrightarrow> utf8Valid s"
  by (induction s) auto

lemma validStatus_utf8:
  "validSessionOperationRecord c r \<Longrightarrow> utf8Valid (soStatus r)"
  by (drule validRecord_status) (auto intro!: ascii_utf8 simp: byteOf_def)

lemma validOperation_marshal:
  assumes "codec_ok c" "validOperation c op"
  obtains m where "cMarshalOp c op = Some m" "jsonObject m" "cUnmarshalOp c m = Some op" "opText op"
  using assms unfolding codec_ok_def validOperation_def by (auto split: if_splits option.splits)

text \<open>A valid record is marshalled, and its text read back gives the record.\<close>

lemma readRecord_marshalRecord:
  assumes "codec_ok c" "validSessionOperationRecord c r" "int64Record r"
  shows "\<exists>m. marshalRecord c r = Some m \<and> (\<forall>t. readRecord c (m @ t) = Some (r, t))"
proof -
  obtain m where m: "cMarshalOp c (soOperation r) = Some m" "jsonObject m"
      "cUnmarshalOp c m = Some (soOperation r)" "opText (soOperation r)"
    using validOperation_marshal [OF assms(1) validRecordD(2) [OF assms(2)]] .
  obtain n where n: "cMarshalEp c (soRecoveryEndpoint r) = Some n" "jsonObject n"
      "cUnmarshalEp c n = Some (soRecoveryEndpoint r)"
    using assms(1) validRecordD(3) [OF assms(2)] unfolding codec_ok_def by blast
  have ad: "\<forall>a. soAdmission r = Some a \<longrightarrow> utf8Valid (adCellID a) \<and> utf8Valid (adRunID a) \<and>
      0 < adSessionIssuedAtMillis a \<and> adSessionIssuedAtMillis a \<le> maxInt64"
    using validRecord_admission [OF assms(2)] validAdmission_text m(4) assms(3)
    by (auto simp: int64Record_def split: if_splits)
  have nb: "soRecoveryNotBeforeMilli r \<le> maxInt64" using assms(3) by (simp add: int64Record_def)
  have sch: "- maxInt64 - 1 \<le> soSchema r" "soSchema r \<le> maxInt64"
    using validRecordD(1) [OF assms(2)] by (simp_all add: maxInt64_def sessionOperationRecordSchema_def)
  show ?thesis
    using m n sch readTail_marshalTail [OF ad validRecordD(4) [OF assms(2)] nb]
      validStatus_utf8 [OF assms(2)]
    by (simp add: marshalRecord_def readRecord_def readObject_append readInt64_fmtInt readString_jsonString)
qed

lemma marshalRecords_read:
  assumes "codec_ok c" "\<forall>r \<in> set rs. validSessionOperationRecord c r \<and> int64Record r" "length rs \<le> n"
  shows "\<exists>m. marshalRecords c rs = Some m \<and> length rs < length m \<and>
             (\<forall>t. readRecords c n (m @ t) = Some (rs, t))"
  using assms(2,3)
proof (induction rs arbitrary: n)
  case Nil
  then show ?case by (cases n) simp_all
next
  case (Cons r rs)
  then obtain n' where n: "n = Suc n'" "length rs \<le> n'" by (cases n) auto
  obtain ms where ms: "marshalRecords c rs = Some ms" "length rs < length ms"
      "\<forall>t. readRecords c n' (ms @ t) = Some (rs, t)"
    using Cons.IH [OF _ n(2)] Cons.prems by auto
  obtain m where m: "marshalRecord c r = Some m" "\<forall>t. readRecord c (m @ t) = Some (r, t)"
    using readRecord_marshalRecord [OF assms(1), of r] Cons.prems by auto
  show ?case using ms m n by simp
qed

text \<open>The round trip of a valid journal through its canonical text.\<close>

lemma decode_marshalJournal:
  assumes "codec_ok c" "validSessionOperationJournal c j" "\<forall>r \<in> set (jRecords j). int64Record r"
  shows "\<exists>m. marshalJournal c j = Some m \<and> decodeSessionOperationJournal c m = Inr j"
proof -
  note v = assms(2) [unfolded validJournal_iff]
  obtain r rs where rs: "jRecords j = r # rs" using v by (cases "jRecords j") auto
  obtain m where m: "marshalRecord c r = Some m" "\<forall>t. readRecord c (m @ t) = Some (r, t)"
    using readRecord_marshalRecord [OF assms(1), of r] v assms(3) rs by auto
  obtain ms where ms: "marshalRecords c rs = Some ms" "length rs < length ms"
    using marshalRecords_read [OF assms(1), of rs "length rs"] v assms(3) rs by auto
  have read: "readRecords c (Suc (length ms)) (ms @ [CHR 0x7D]) = Some (rs, [CHR 0x7D])"
    using marshalRecords_read [OF assms(1), of rs "Suc (length ms)"] v assms(3) rs ms by auto
  have utf: "utf8Valid (jProtectedResourceID j)"
  proof -
    have "validOperation c (soOperation r)" "opProtectedResourceID (soOperation r) = jProtectedResourceID j"
      using v rs validRecordD(2) by auto
    then show ?thesis using validOperation_marshal [OF assms(1)] unfolding opText_def by metis
  qed
  let ?raw = "the (marshalJournal c j)"
  have raw: "marshalJournal c j = Some ?raw" using rs m ms by (simp add: marshalJournal_def)
  have "readJournal c ?raw = Some j"
    using rs m ms(1) read utf v
    by (simp add: marshalJournal_def readJournal_def readString_jsonString readInt64_fmtInt
        sessionOperationJournalSchema_def maxInt64_def del: readRecords.simps)
  then have "decodeSessionOperationJournal c ?raw = Inr j"
    using raw assms(2) by (simp add: decodeSessionOperationJournal_def)
  with raw show ?thesis by blast
qed

text \<open>The decoder returns valid journals only, and only from their own canonical text.\<close>

lemma decode_sound:
  "decodeSessionOperationJournal c raw = Inr j \<Longrightarrow>
     validSessionOperationJournal c j \<and> marshalJournal c j = Some raw"
  by (auto simp: decodeSessionOperationJournal_def split: option.splits if_splits)

text \<open>Decoded integers fit their Go types.\<close>

lemma bind_SomeE: "(x \<bind> f) = Some y \<longleftrightarrow> (\<exists>a. x = Some a \<and> f a = Some y)"
  by (cases x) auto

lemma readInt64_range: "readInt64 s = Some (i, t) \<Longrightarrow> i \<le> maxInt64"
  by (auto simp: readInt64_def bind_SomeE split: if_splits)

lemma readAdmission_range: "readAdmission s = Some (a, t) \<Longrightarrow> adSessionIssuedAtMillis a \<le> maxInt64"
  by (auto simp: readAdmission_def bind_SomeE dest!: readInt64_range)

lemma readOptional_cases:
  "readOptional k rd d s = Some (v, t) \<Longrightarrow> v = d \<or> (\<exists>u. rd u = Some (v, t))"
  by (auto simp: readOptional_def split: option.splits)

lemma readTail_range:
  assumes "readTail s = Some ((ad, ra, nb, pe), t)"
  shows "nb \<le> maxInt64 \<and> (\<forall>a. ad = Some a \<longrightarrow> adSessionIssuedAtMillis a \<le> maxInt64)"
proof -
  obtain u v u' v' where
    "readOptional ''admission'' (\<lambda>s. map_option (map_prod Some id) (readAdmission s)) None u = Some (ad, v)"
    "readOptional ''recovery_not_before_ms'' readInt64 0 u' = Some (nb, v')"
    using assms unfolding readTail_def by (auto simp: bind_SomeE)
  then show ?thesis
    by (auto simp: maxInt64_def dest!: readOptional_cases readAdmission_range readInt64_range)
qed

lemma readRecord_range: "readRecord c s = Some (r, t) \<Longrightarrow> int64Record r"
  by (auto simp: readRecord_def bind_SomeE int64Record_def dest!: readTail_range split: option.splits)

lemma readRecords_range: "readRecords c n s = Some (rs, t) \<Longrightarrow> \<forall>r \<in> set rs. int64Record r"
  by (induction c n s arbitrary: rs t rule: readRecords.induct)
    (fastforce simp: bind_SomeE split: option.splits dest: readRecord_range)+

lemma decode_range:
  "decodeSessionOperationJournal c raw = Inr j \<Longrightarrow> \<forall>r \<in> set (jRecords j). int64Record r"
  by (auto simp: decodeSessionOperationJournal_def readJournal_def bind_SomeE
      dest!: readRecord_range readRecords_range split: option.splits if_splits)

text \<open>On valid records the byte comparison is equality.\<close>

lemma sameRecord_iff:
  assumes "codec_ok c" "validSessionOperationRecord c l" "validSessionOperationRecord c r"
    and "int64Record l" "int64Record r"
  shows "sameSessionOperationRecord c l r \<longleftrightarrow> l = r"
proof -
  obtain m n where m: "marshalRecord c l = Some m" "\<forall>t. readRecord c (m @ t) = Some (l, t)"
    and n: "marshalRecord c r = Some n" "\<forall>t. readRecord c (n @ t) = Some (r, t)"
    using readRecord_marshalRecord assms by metis
  then have "m = n \<longleftrightarrow> l = r" by (metis option.inject prod.inject)
  then show ?thesis by (simp add: sameSessionOperationRecord_def m n)
qed

lemma findRecord_Some:
  assumes "codec_ok c" "\<forall>x \<in> set rs. validSessionOperationRecord c x \<and> int64Record x"
    and "validSessionOperationRecord c r" "int64Record r"
    and "findSessionOperationRecord c rs r = Some i"
  shows "i < length rs \<and> rs ! i = r"
  using find_index_Some [OF assms(5) [unfolded findSessionOperationRecord_def]] assms(1-4)
  by (meson nth_mem sameRecord_iff)

lemma findRecord_None:
  assumes "codec_ok c" "\<forall>x \<in> set rs. validSessionOperationRecord c x \<and> int64Record x"
    and "validSessionOperationRecord c r" "int64Record r"
  shows "findSessionOperationRecord c rs r = None \<longleftrightarrow> r \<notin> set rs"
  unfolding findSessionOperationRecord_def find_index_None
  using assms by (metis sameRecord_iff)

end
