(* ===== verification/Journal.thy ===== *)
theory Journal
  imports Journal_Codec
begin

text \<open>
  The durable journal of native session operations: \<open>LoadSessionOperations\<close>,
  \<open>ScanSessionOperationResources\<close>, \<open>CreateSessionOperation\<close>, \<open>TransitionSessionOperation\<close> and
  \<open>DeleteSessionOperation\<close> of \<open>pkg/agentstate/session_operation.go\<close> over an explicit directory.

  The directory is an association list from names to files. Every system call may fail: \<open>envFault\<close>
  gives, per call site and name, the error that call returns, so a theorem for every environment is a
  theorem for every failure. A failed write leaves a prefix of the data. \<open>nsTrace\<close> is a ghost: it
  lists the directory after each mutation, which is what a crash between two calls leaves behind.
  While the lock is held no other process changes the directory (the code's cross-process lock).
\<close>

section \<open>The directory\<close>

datatype fkind = RegularFile | SymlinkFile | OtherFile

record jfile =
  fKind :: fkind
  fMode :: nat
  fOwned :: bool      \<comment> \<open>owned by the process user, a single link\<close>
  fData :: string

type_synonym dir = "(string \<times> jfile) list"

record namespace =
  nsFiles :: dir
  nsTrace :: "dir list"

record env =
  envCodec :: codec
  envSha256 :: "string \<Rightarrow> nat list"
  envOpen :: bool                                \<comment> \<open>store and context are not nil, the store is open\<close>
  envFault :: "string \<Rightarrow> string \<Rightarrow> err option"   \<comment> \<open>call site, entry name\<close>
  envRandom :: "nat list"                        \<comment> \<open>the 8 bytes of \<open>rand.Read\<close>\<close>
  envCreateMode :: nat                           \<comment> \<open>mode of a new file before its chmod\<close>
  envShort :: nat                                \<comment> \<open>bytes a failing write leaves behind\<close>

definition sessionOperationFileMode :: nat where "sessionOperationFileMode = 384"
definition sessionOperationMaxStateFiles :: nat where "sessionOperationMaxStateFiles = 4096"
definition sessionOperationLockFile :: string where
  "sessionOperationLockFile = ''.native_session_operations.lock''"
definition sessionOperationFilePrefix :: string where
  "sessionOperationFilePrefix = ''native_session_operation-''"
definition sessionOperationFileSuffix :: string where "sessionOperationFileSuffix = ''.json''"

definition commitFiles :: "dir \<Rightarrow> namespace \<Rightarrow> namespace" where
  "commitFiles fs ns = ns\<lparr>nsFiles := fs, nsTrace := nsTrace ns @ [fs]\<rparr>"

definition lookupFile :: "namespace \<Rightarrow> string \<Rightarrow> jfile option" where
  "lookupFile ns name = map_of (nsFiles ns) name"

definition errNotExist :: err where "errNotExist = Wrap TPath (Sentinel SOsNotExist)"

text \<open>\<open>pinnedfs.ValidateRegularFile\<close> with an exact mode.\<close>

definition privateFile :: "jfile \<Rightarrow> bool" where
  "privateFile f = (fKind f = RegularFile \<and> fMode f = sessionOperationFileMode \<and> fOwned f)"

definition validateRegularFile :: "env \<Rightarrow> string \<Rightarrow> namespace \<Rightarrow> string \<Rightarrow> err option" where
  "validateRegularFile e site ns name = (case envFault e site name of
      Some x \<Rightarrow> Some x
    | None \<Rightarrow> (case lookupFile ns name of
        None \<Rightarrow> Some (Errorf ''inspect entry'' errNotExist)
      | Some f \<Rightarrow> if privateFile f then None else Some (NewErr ''unsafe file'')))"

definition removeFile :: "env \<Rightarrow> string \<Rightarrow> string \<Rightarrow> namespace \<Rightarrow> err option \<times> namespace" where
  "removeFile e site name ns = (case envFault e site name of
      Some x \<Rightarrow> (Some x, ns)
    | None \<Rightarrow> (case lookupFile ns name of
        None \<Rightarrow> (Some errNotExist, ns)
      | Some f \<Rightarrow> (None, commitFiles (AList.delete name (nsFiles ns)) ns)))"

section \<open>File names\<close>

fun hexDecode :: "string \<Rightarrow> nat list option" where
  "hexDecode [] = Some []"
| "hexDecode (a # b # r) = do {
     x \<leftarrow> hexVal a; y \<leftarrow> hexVal b; bs \<leftarrow> hexDecode r; Some ((16 * x + y) # bs) }"
| "hexDecode _ = None"

definition sessionOperationFileName :: "env \<Rightarrow> string \<Rightarrow> string res" where
  "sessionOperationFileName e rid =
     (if rid = '''' \<or> trimSpace rid \<noteq> rid \<or> 4096 < length rid then
        Inl (Errorf ''invalid protected resource'' (Sentinel SConflict))
      else Inr (sessionOperationFilePrefix @
        hexEncode (envSha256 e (''layerv/qurl-connector/native-session-operation/v1'' @ [CHR 0x00] @ rid)) @
        sessionOperationFileSuffix))"

definition canonicalHex :: "string \<Rightarrow> bool" where
  "canonicalHex s = (case hexDecode s of None \<Rightarrow> False | Some bs \<Rightarrow> hexEncode bs = s)"

definition validSessionOperationFileName :: "string \<Rightarrow> bool" where
  "validSessionOperationFileName name =
     (if \<not> hasPrefix sessionOperationFilePrefix name \<or> \<not> hasSuffix sessionOperationFileSuffix name then False
      else let digest = trimSuffix sessionOperationFileSuffix (trimPrefix sessionOperationFilePrefix name)
        in if length digest \<noteq> 64 then False else canonicalHex digest)"

text \<open>\<open>strings.LastIndex\<close>.\<close>

definition lastIndexSub :: "string \<Rightarrow> string \<Rightarrow> nat option" where
  "lastIndexSub p s = List.find (\<lambda>i. hasPrefix p (drop i s)) (rev [0..<Suc (length s)])"

definition temporaryMarker :: string where "temporaryMarker = ''.tmp-''"

definition validSessionOperationTemporaryFileName :: "string \<Rightarrow> bool" where
  "validSessionOperationTemporaryFileName name =
     (if \<not> hasPrefix (CHR ''.'' # sessionOperationFilePrefix) name then False
      else case lastIndexSub temporaryMarker name of
          None \<Rightarrow> False
        | Some marker \<Rightarrow>
            if \<not> validSessionOperationFileName (trimPrefix ''.'' (take marker name)) then False
            else let suffix = drop (marker + length temporaryMarker) name
              in (case hexDecode suffix of
                    None \<Rightarrow> False
                  | Some decoded \<Rightarrow> length decoded = 8 \<and> hexEncode decoded = suffix))"

section \<open>Reading one journal file\<close>

definition corrupt :: "string \<Rightarrow> err" where
  "corrupt m = Errorf m (Sentinel SJournalCorrupt)"

definition conflict :: "string \<Rightarrow> err" where
  "conflict m = Errorf m (Sentinel SConflict)"

definition readJournalFile :: "env \<Rightarrow> namespace \<Rightarrow> string \<Rightarrow> jfile \<Rightarrow> sessionOperationJournal res" where
  "readJournalFile e ns name f = (case validateRegularFile e ''load-validate'' ns name of
      Some x \<Rightarrow> Inl (Multi (TMsg '''') [Sentinel SJournalCorrupt, x])
    | None \<Rightarrow>
        if length (fData f) = 0 \<or> sessionOperationFileMaxBytes < length (fData f) then
          Inl (corrupt ''invalid size'')
        else (case envFault e ''load-read'' name of
            Some x \<Rightarrow> Inl (Errorf ''read native session operation'' x)
          | None \<Rightarrow> (case validateRegularFile e ''load-revalidate'' ns name of
              Some x \<Rightarrow> Inl (Multi (TMsg '''') [Sentinel SJournalCorrupt, x])
            | None \<Rightarrow> (case decodeSessionOperationJournal (envCodec e) (fData f) of
                Inl x \<Rightarrow> Inl (Multi (TMsg ''decode'') [Sentinel SJournalCorrupt, x])
              | Inr j \<Rightarrow> Inr j))))"

text \<open>\<open>loadSessionOperationJournal\<close>: \<open>Inr None\<close> is an absent file; a failing close discards the result.\<close>

definition loadSessionOperationJournal ::
  "env \<Rightarrow> namespace \<Rightarrow> string \<Rightarrow> sessionOperationJournal option res" where
  "loadSessionOperationJournal e ns name = (case envFault e ''load-lstat'' name of
      Some x \<Rightarrow> if errorsIs x SOsNotExist then Inr None
                else Inl (Errorf ''stat native session operation'' x)
    | None \<Rightarrow> (case lookupFile ns name of
        None \<Rightarrow> Inr None
      | Some f \<Rightarrow>
          if fKind f \<noteq> RegularFile then Inl (corrupt ''must be a non-symlink regular file'')
          else (case envFault e ''load-open'' name of
              Some x \<Rightarrow> Inl (Errorf ''open native session operation'' x)
            | None \<Rightarrow> (case readJournalFile e ns name f of
                Inl x \<Rightarrow> Inl (the (errorsJoin [Some x, envFault e ''load-close'' name]))
              | Inr j \<Rightarrow> (case errorsJoin [None, envFault e ''load-close'' name] of
                  None \<Rightarrow> Inr (Some j)
                | Some x \<Rightarrow> Inl x)))))"

section \<open>Writing one journal file\<close>

definition temporaryName :: "env \<Rightarrow> string \<Rightarrow> string" where
  "temporaryName e name = CHR ''.'' # name @ temporaryMarker @ hexEncode (envRandom e)"

definition newFile :: "env \<Rightarrow> string \<Rightarrow> jfile" where
  "newFile e d = \<lparr>fKind = RegularFile, fMode = envCreateMode e, fOwned = True, fData = d\<rparr>"

definition updateFile :: "string \<Rightarrow> (jfile \<Rightarrow> jfile) \<Rightarrow> namespace \<Rightarrow> namespace" where
  "updateFile name g ns = (case lookupFile ns name of
      None \<Rightarrow> ns
    | Some f \<Rightarrow> commitFiles (AList.update name (g f) (nsFiles ns)) ns)"

definition renameFile :: "string \<Rightarrow> string \<Rightarrow> namespace \<Rightarrow> namespace" where
  "renameFile tmp name ns = (case lookupFile ns tmp of
      None \<Rightarrow> ns
    | Some f \<Rightarrow> commitFiles (AList.update name f (AList.delete tmp (nsFiles ns))) ns)"

text \<open>
  The calls between the creation of the temporary file and the rename; \<open>None\<close> says that all
  succeeded and the file is committed.
\<close>

definition stageTemporary :: "env \<Rightarrow> string \<Rightarrow> string \<Rightarrow> string \<Rightarrow> namespace \<Rightarrow> err option \<times> namespace" where
  "stageTemporary e name tmp data ns = (case envFault e ''chmod'' tmp of
      Some x \<Rightarrow> (Some x, ns)
    | None \<Rightarrow>
      (let ns = updateFile tmp (\<lambda>f. f\<lparr>fMode := sessionOperationFileMode\<rparr>) ns in
       case envFault e ''write'' tmp of
         Some x \<Rightarrow> (Some x, updateFile tmp (\<lambda>f. f\<lparr>fData := take (envShort e) data\<rparr>) ns)
       | None \<Rightarrow>
         (let ns = updateFile tmp (\<lambda>f. f\<lparr>fData := data\<rparr>) ns in
          case envFault e ''sync'' tmp of
            Some x \<Rightarrow> (Some x, ns)
          | None \<Rightarrow>
            (case validateRegularFile e ''temporary-validate'' ns tmp of
               Some x \<Rightarrow> (Some x, ns)
             | None \<Rightarrow>
               (case envFault e ''rename'' tmp of
                  Some x \<Rightarrow> (Some (Errorf ''commit native session operation'' x), ns)
                | None \<Rightarrow> (None, renameFile tmp name ns))))))"

definition cleanupTemporary :: "env \<Rightarrow> string \<Rightarrow> err \<Rightarrow> namespace \<Rightarrow> err option \<times> namespace" where
  "cleanupTemporary e tmp retErr ns =
     (let (removeErr, ns') = removeFile e ''cleanup-remove'' tmp ns;
          removeErr = (case removeErr of
             Some x \<Rightarrow> if errorsIs x SOsNotExist then None else Some x | None \<Rightarrow> None)
      in (errorsJoin [Some retErr, envFault e ''cleanup-close'' tmp, removeErr,
                      envFault e ''cleanup-dirsync'' tmp], ns'))"

definition existingShapeError :: "env \<Rightarrow> namespace \<Rightarrow> string \<Rightarrow> err option" where
  "existingShapeError e ns name = (case envFault e ''write-lstat'' name of
      Some x \<Rightarrow> if errorsIs x SOsNotExist then None else Some x
    | None \<Rightarrow> (case lookupFile ns name of
        None \<Rightarrow> None
      | Some f \<Rightarrow> if fKind f \<noteq> RegularFile \<or> fMode f \<noteq> sessionOperationFileMode
                  then Some (NewErr ''unsafe file shape'') else None))"

definition writeSessionOperationJournal ::
  "env \<Rightarrow> string \<Rightarrow> sessionOperationJournal \<Rightarrow> namespace \<Rightarrow> err option \<times> namespace" where
  "writeSessionOperationJournal e name journal ns =
     (if \<not> validSessionOperationJournal (envCodec e) journal then (Some (conflict ''invalid journal''), ns)
      else case marshalJournal (envCodec e) journal of
        None \<Rightarrow> (Some (NewErr ''encode native session operation''), ns)
      | Some data \<Rightarrow>
        if sessionOperationFileMaxBytes < length data then
          (Some (NewErr ''native session operation exceeds the limit''), ns)
        else (case existingShapeError e ns name of
          Some x \<Rightarrow> (Some x, ns)
        | None \<Rightarrow>
          (case envFault e ''random'' name of
            Some x \<Rightarrow> (Some (Errorf ''generate temporary name'' x), ns)
          | None \<Rightarrow>
            (let tmp = temporaryName e name in
             case (envFault e ''create'' tmp, lookupFile ns tmp) of
               (Some x, _) \<Rightarrow> (Some (Errorf ''create temporary file'' x), ns)
             | (None, Some _) \<Rightarrow> (Some (Errorf ''create temporary file'' (NewErr ''file exists'')), ns)
             | (None, None) \<Rightarrow>
               (case stageTemporary e name tmp data
                       (commitFiles (AList.update tmp (newFile e []) (nsFiles ns)) ns) of
                  (Some x, ns') \<Rightarrow> cleanupTemporary e tmp x ns'
                | (None, ns') \<Rightarrow>
                    (errorsJoin [validateRegularFile e ''committed-validate'' ns' name,
                       envFault e ''committed-close'' name, envFault e ''committed-dirsync'' name,
                       envFault e ''committed-continuity'' name], ns'))))))"

section \<open>The cross-process lock\<close>

text \<open>
  \<open>pinnedfs.AcquireExclusiveFileLock\<close> as one step: it opens the lock file, creating it when it is
  absent, and waits for the lock.
\<close>

definition acquireLock :: "env \<Rightarrow> namespace \<Rightarrow> err option \<times> namespace" where
  "acquireLock e ns = (case envFault e ''lock'' sessionOperationLockFile of
      Some x \<Rightarrow> (Some x, ns)
    | None \<Rightarrow> (case lookupFile ns sessionOperationLockFile of
        Some f \<Rightarrow> (None, ns)
      | None \<Rightarrow> (None, commitFiles (AList.update sessionOperationLockFile
            ((newFile e [])\<lparr>fMode := sessionOperationFileMode\<rparr>) (nsFiles ns)) ns)))"

text \<open>
  \<open>withSessionOperationNamespaceLock\<close>. The callback returns a value next to its error, which is what
  the Go callback stores in a captured variable; the value \<open>d\<close> stands for the variable before the
  callback ran.
\<close>

definition withSessionOperationNamespaceLock ::
  "env \<Rightarrow> 'a \<Rightarrow> (namespace \<Rightarrow> ('a \<times> err option) \<times> namespace) \<Rightarrow> namespace \<Rightarrow>
   ('a \<times> err option) \<times> namespace" where
  "withSessionOperationNamespaceLock e d fn ns =
     (if \<not> envOpen e then ((d, Some (Errorf ''not open'' (Sentinel QAgentStateContinuity))), ns)
      else case envFault e ''continuity-before'' '''' of
        Some x \<Rightarrow> ((d, Some x), ns)
      | None \<Rightarrow> (case acquireLock e ns of
          (Some x, ns1) \<Rightarrow> ((d, Some (Errorf ''lock native session operation'' x)), ns1)
        | (None, ns1) \<Rightarrow>
            (case fn ns1 of ((v, r), ns2) \<Rightarrow>
               let r' = (case r of Some x \<Rightarrow> Some x
                   | None \<Rightarrow> (case envFault e ''lock-validate'' '''' of
                       Some x \<Rightarrow> Some (Errorf ''validate native session operation lock'' x)
                     | None \<Rightarrow> envFault e ''continuity-after'' ''''))
               in ((v, errorsJoin [r', envFault e ''lock-close'' '''']), ns2))))"

definition withSessionOperationLock ::
  "env \<Rightarrow> string \<Rightarrow> 'a \<Rightarrow> (string \<Rightarrow> namespace \<Rightarrow> ('a \<times> err option) \<times> namespace) \<Rightarrow> namespace \<Rightarrow>
   ('a \<times> err option) \<times> namespace" where
  "withSessionOperationLock e rid d fn ns = (case sessionOperationFileName e rid of
      Inl x \<Rightarrow> ((d, Some x), ns)
    | Inr name \<Rightarrow> withSessionOperationNamespaceLock e d (fn name) ns)"

section \<open>The operations\<close>

definition loadLocked ::
  "env \<Rightarrow> string \<Rightarrow> string \<Rightarrow> namespace \<Rightarrow> (SessionOperationRecord list \<times> err option) \<times> namespace" where
  "loadLocked e rid name ns = (case loadSessionOperationJournal e ns name of
      Inl x \<Rightarrow> (([], Some x), ns)
    | Inr None \<Rightarrow> (([], None), ns)
    | Inr (Some journal) \<Rightarrow>
        if jProtectedResourceID journal \<noteq> rid then
          (([], Some (conflict ''resource journal mismatch'')), ns)
        else ((jRecords journal, None), ns))"

definition LoadSessionOperations ::
  "env \<Rightarrow> string \<Rightarrow> namespace \<Rightarrow> (SessionOperationRecord list \<times> err option) \<times> namespace" where
  "LoadSessionOperations e rid ns = withSessionOperationLock e rid [] (loadLocked e rid) ns"

definition createLocked ::
  "env \<Rightarrow> SessionOperationRecord \<Rightarrow> string \<Rightarrow> namespace \<Rightarrow> (unit \<times> err option) \<times> namespace" where
  "createLocked e r name ns = (case loadSessionOperationJournal e ns name of
      Inl x \<Rightarrow> (((), Some x), ns)
    | Inr present \<Rightarrow>
        (let rid = opProtectedResourceID (soOperation r);
             journal = (case present of Some j \<Rightarrow> j
               | None \<Rightarrow> \<lparr>jSchema = sessionOperationJournalSchema, jProtectedResourceID = rid, jRecords = []\<rparr>)
         in if jProtectedResourceID journal \<noteq> rid \<or> sessionOperationMaxRecords \<le> length (jRecords journal) then
              (((), Some (conflict ''operation journal is full or mismatched'')), ns)
            else if list_ex (\<lambda>current. soID current = soID r) (jRecords journal) then
              (((), Some (conflict ''operation already exists'')), ns)
            else (case writeSessionOperationJournal e name
                     (journal\<lparr>jRecords := jRecords journal @ [r]\<rparr>) ns of
                (x, ns') \<Rightarrow> (((), x), ns'))))"

definition CreateSessionOperation ::
  "env \<Rightarrow> SessionOperationRecord \<Rightarrow> namespace \<Rightarrow> (unit \<times> err option) \<times> namespace" where
  "CreateSessionOperation e r ns =
     (if soStatus r \<noteq> SessionOperationPrepared \<or> \<not> validSessionOperationRecord (envCodec e) r then
        (((), Some (conflict ''invalid initial record'')), ns)
      else withSessionOperationLock e (opProtectedResourceID (soOperation r)) () (createLocked e r) ns)"

definition transitionLocked ::
  "env \<Rightarrow> SessionOperationRecord \<Rightarrow> SessionOperationRecord \<Rightarrow> string \<Rightarrow> namespace \<Rightarrow>
   (unit \<times> err option) \<times> namespace" where
  "transitionLocked e previous next name ns = (case loadSessionOperationJournal e ns name of
      Inl x \<Rightarrow> (((), Some x), ns)
    | Inr None \<Rightarrow> (((), Some (Errorf ''prior record changed'' errCASLost)), ns)
    | Inr (Some journal) \<Rightarrow>
        (case findSessionOperationRecord (envCodec e) (jRecords journal) previous of
           None \<Rightarrow> (((), Some (Errorf ''prior record changed'' errCASLost)), ns)
         | Some index \<Rightarrow>
             if jProtectedResourceID journal \<noteq> opProtectedResourceID (soOperation previous) then
               (((), Some (Errorf ''prior record changed'' errCASLost)), ns)
             else (case writeSessionOperationJournal e name
                      (journal\<lparr>jRecords := (jRecords journal)[index := next]\<rparr>) ns of
                 (x, ns') \<Rightarrow> (((), x), ns'))))"

definition TransitionSessionOperation ::
  "env \<Rightarrow> SessionOperationRecord \<Rightarrow> SessionOperationRecord \<Rightarrow> namespace \<Rightarrow>
   (unit \<times> err option) \<times> namespace" where
  "TransitionSessionOperation e previous next ns =
     (if opProtectedResourceID (soOperation previous) = '''' \<or>
         opProtectedResourceID (soOperation previous) \<noteq> opProtectedResourceID (soOperation next) \<or>
         \<not> validSessionOperationTransition (envCodec e) previous next then
        (((), Some (conflict ''invalid transition'')), ns)
      else withSessionOperationLock e (opProtectedResourceID (soOperation previous)) ()
             (transitionLocked e previous next) ns)"

definition removeJournal :: "env \<Rightarrow> string \<Rightarrow> namespace \<Rightarrow> err option \<times> namespace" where
  "removeJournal e name ns = (case removeFile e ''remove'' name ns of
      (Some x, ns') \<Rightarrow> (Some (Errorf ''remove native session operation'' x), ns')
    | (None, ns') \<Rightarrow> (case envFault e ''remove-dirsync'' name of
        Some x \<Rightarrow> (Some (Errorf ''sync native session operation removal'' x), ns')
      | None \<Rightarrow> (envFault e ''remove-continuity'' name, ns')))"

definition deleteLocked ::
  "env \<Rightarrow> SessionOperationRecord \<Rightarrow> string \<Rightarrow> namespace \<Rightarrow> (unit \<times> err option) \<times> namespace" where
  "deleteLocked e t name ns = (case loadSessionOperationJournal e ns name of
      Inl x \<Rightarrow> (((), Some x), ns)
    | Inr None \<Rightarrow> (((), Some (Errorf ''terminal record changed'' errCASLost)), ns)
    | Inr (Some journal) \<Rightarrow>
        (case findSessionOperationRecord (envCodec e) (jRecords journal) t of
           None \<Rightarrow> (((), Some (Errorf ''terminal record changed'' errCASLost)), ns)
         | Some index \<Rightarrow>
             if jProtectedResourceID journal \<noteq> opProtectedResourceID (soOperation t) then
               (((), Some (Errorf ''terminal record changed'' errCASLost)), ns)
             else let rs = remove_nth index (jRecords journal) in
               (case (if rs \<noteq> [] then writeSessionOperationJournal e name (journal\<lparr>jRecords := rs\<rparr>) ns
                      else removeJournal e name ns) of
                 (x, ns') \<Rightarrow> (((), x), ns'))))"

definition DeleteSessionOperation ::
  "env \<Rightarrow> SessionOperationRecord \<Rightarrow> namespace \<Rightarrow> (unit \<times> err option) \<times> namespace" where
  "DeleteSessionOperation e t ns =
     (if soStatus t \<noteq> SessionOperationCanceled \<and> soStatus t \<noteq> SessionOperationClosed \<or>
         \<not> validSessionOperationRecord (envCodec e) t then
        (((), Some (conflict ''record is not a valid terminal'')), ns)
      else withSessionOperationLock e (opProtectedResourceID (soOperation t)) () (deleteLocked e t) ns)"

section \<open>The scan\<close>

record scan =
  scResourceIDs :: "string list"
  scPermanentError :: "err option"
  scRetryableError :: "err option"
  scRemovedTemporary :: bool   \<comment> \<open>the local variable of the scan\<close>

definition scan0 :: scan where
  "scan0 = \<lparr>scResourceIDs = [], scPermanentError = None, scRetryableError = None, scRemovedTemporary = False\<rparr>"

definition permanentErr :: "err option list \<Rightarrow> scan \<Rightarrow> scan" where
  "permanentErr xs sc = sc\<lparr>scPermanentError := errorsJoin (scPermanentError sc # xs)\<rparr>"

definition retryableErr :: "err option \<Rightarrow> scan \<Rightarrow> scan" where
  "retryableErr x sc = sc\<lparr>scRetryableError := errorsJoin [scRetryableError sc, x]\<rparr>"

definition scanJournal :: "env \<Rightarrow> string \<Rightarrow> scan \<times> namespace \<Rightarrow> scan \<times> namespace" where
  "scanJournal e name st = (case st of (sc, ns) \<Rightarrow>
     (case loadSessionOperationJournal e ns name of
        Inl x \<Rightarrow> (if errorsIs x SJournalCorrupt then permanentErr [Some x] sc
                  else retryableErr (Some x) sc, ns)
      | Inr None \<Rightarrow> (retryableErr (Some (conflict ''enumerated journal disappeared'')) sc, ns)
      | Inr (Some journal) \<Rightarrow>
          (case sessionOperationFileName e (jProtectedResourceID journal) of
             Inl x \<Rightarrow> (permanentErr [Some (corrupt ''resource journal filename mismatch''), Some x] sc, ns)
           | Inr expected \<Rightarrow>
               if expected \<noteq> name then
                 (permanentErr [Some (corrupt ''resource journal filename mismatch''), None] sc, ns)
               else (sc\<lparr>scResourceIDs := scResourceIDs sc @ [jProtectedResourceID journal]\<rparr>, ns))))"

definition scanTemporary :: "env \<Rightarrow> string \<Rightarrow> scan \<times> namespace \<Rightarrow> scan \<times> namespace" where
  "scanTemporary e name st = (case st of (sc, ns) \<Rightarrow>
     (case (case envFault e ''scan-lstat'' name of
              Some x \<Rightarrow> Inl x
            | None \<Rightarrow> (case lookupFile ns name of None \<Rightarrow> Inl errNotExist | Some f \<Rightarrow> Inr f)) of
        Inl x \<Rightarrow> (retryableErr (Some (Errorf ''stat orphaned temporary file'' x)) sc, ns)
      | Inr f \<Rightarrow>
          if fKind f \<noteq> RegularFile then
            (permanentErr [Some (corrupt ''orphaned temporary file has an unsafe shape'')] sc, ns)
          else (case removeFile e ''scan-remove'' name ns of
              (Some x, ns') \<Rightarrow> (retryableErr (Some (Errorf ''remove orphaned temporary file'' x)) sc, ns')
            | (None, ns') \<Rightarrow> (sc\<lparr>scRemovedTemporary := True\<rparr>, ns'))))"

definition scanName :: "env \<Rightarrow> string \<Rightarrow> scan \<times> namespace \<Rightarrow> scan \<times> namespace" where
  "scanName e name st =
     (if validSessionOperationFileName name then scanJournal e name st
      else if validSessionOperationTemporaryFileName name then scanTemporary e name st
      else st)"

definition scanSync :: "env \<Rightarrow> scan \<Rightarrow> scan" where
  "scanSync e sc =
     (if scRemovedTemporary sc then
        (case envFault e ''scan-dirsync'' '''' of
           Some x \<Rightarrow> retryableErr (Some (Errorf ''sync orphaned cleanup'' x)) sc | None \<Rightarrow> sc)
      else sc)"

text \<open>The callback of the scan; its names are sorted, and bounded by \<open>sessionOperationMaxStateFiles\<close>.\<close>

definition scanLocked :: "env \<Rightarrow> namespace \<Rightarrow> (scan \<times> err option) \<times> namespace" where
  "scanLocked e ns =
     (let names = sort (map fst (nsFiles ns)) in
      case envFault e ''readdir'' '''' of
        Some x \<Rightarrow> ((scan0, Some x), ns)
      | None \<Rightarrow>
        if sessionOperationMaxStateFiles < length names then
          ((scan0, Some (NewErr ''too many entries'')), ns)
        else (case fold (scanName e) names (scan0, ns) of (sc, ns') \<Rightarrow>
          let sc = scanSync e sc;
              sc = (case envFault e ''scan-continuity'' '''' of
                      Some x \<Rightarrow> retryableErr (Some x) sc | None \<Rightarrow> sc)
          in ((sc, None), ns')))"

definition ScanSessionOperationResources :: "env \<Rightarrow> namespace \<Rightarrow> scan \<times> namespace" where
  "ScanSessionOperationResources e ns =
     (case withSessionOperationNamespaceLock e scan0 (scanLocked e) ns of
        ((sc, lockErr), ns') \<Rightarrow>
          (case lockErr of None \<Rightarrow> sc | Some x \<Rightarrow> retryableErr (Some x) sc, ns'))"

end
