(* ===== verification/Journal_Safety.thy ===== *)
theory Journal_Safety
  imports Journal
begin

text \<open>
  What the journal promises: an abstract journal (per protected resource, the list of its records)
  with four kinds of steps, and the proof that every operation, under every failure of every system
  call, leaves at each moment a directory whose abstract journal is the old one or one step ahead.
\<close>

section \<open>The abstract journal\<close>

type_synonym journals = "string \<Rightarrow> SessionOperationRecord list"

inductive journalStep :: "codec \<Rightarrow> journals \<Rightarrow> journals \<Rightarrow> bool" for c where
  stutter: "journalStep c S S"
| create: "\<lbrakk>soStatus r = SessionOperationPrepared; validSessionOperationRecord c r;
     soID r \<notin> soID ` set (S (opProtectedResourceID (soOperation r)));
     length (S (opProtectedResourceID (soOperation r))) < sessionOperationMaxRecords\<rbrakk> \<Longrightarrow>
   journalStep c S (S(opProtectedResourceID (soOperation r) :=
     S (opProtectedResourceID (soOperation r)) @ [r]))"
| transition: "\<lbrakk>validSessionOperationTransition c p n; rid = opProtectedResourceID (soOperation p);
     i < length (S rid); S rid ! i = p\<rbrakk> \<Longrightarrow>
   journalStep c S (S(rid := (S rid)[i := n]))"
| delete: "\<lbrakk>terminal t; rid = opProtectedResourceID (soOperation t);
     i < length (S rid); S rid ! i = t\<rbrakk> \<Longrightarrow>
   journalStep c S (S(rid := remove_nth i (S rid)))"

inductive_cases journalStepE: "journalStep c S S'"

section \<open>Good directories\<close>

definition fileJournal :: "env \<Rightarrow> jfile \<Rightarrow> sessionOperationJournal option" where
  "fileJournal e f = (case decodeSessionOperationJournal (envCodec e) (fData f) of
      Inl _ \<Rightarrow> None | Inr j \<Rightarrow> Some j)"

definition goodJournalFile :: "env \<Rightarrow> string \<Rightarrow> jfile \<Rightarrow> bool" where
  "goodJournalFile e name f =
     (privateFile f \<and> 0 < length (fData f) \<and> length (fData f) \<le> sessionOperationFileMaxBytes \<and>
      (case fileJournal e f of None \<Rightarrow> False
       | Some j \<Rightarrow> sessionOperationFileName e (jProtectedResourceID j) = Inr name))"

definition dir_ok :: "env \<Rightarrow> dir \<Rightarrow> bool" where
  "dir_ok e fs \<longleftrightarrow> (\<forall>name f. validSessionOperationFileName name \<longrightarrow> map_of fs name = Some f \<longrightarrow>
      goodJournalFile e name f)"

definition dirRecords :: "env \<Rightarrow> dir \<Rightarrow> journals" where
  "dirRecords e fs rid = (case sessionOperationFileName e rid of
      Inl _ \<Rightarrow> []
    | Inr name \<Rightarrow> (case map_of fs name of
        None \<Rightarrow> []
      | Some f \<Rightarrow> (case fileJournal e f of
          None \<Rightarrow> []
        | Some j \<Rightarrow> if jProtectedResourceID j = rid then jRecords j else [])))"

text \<open>What is assumed of the environment of one call.\<close>

definition bytes :: "nat list \<Rightarrow> bool" where "bytes bs \<longleftrightarrow> (\<forall>b \<in> set bs. b < 256)"

definition env_ok :: "env \<Rightarrow> bool" where
  "env_ok e \<longleftrightarrow> codec_ok (envCodec e) \<and>
     (\<forall>s. length (envSha256 e s) = 32 \<and> bytes (envSha256 e s)) \<and>
     length (envRandom e) = 8 \<and> bytes (envRandom e) \<and>
     (\<forall>site name x. envFault e site name = Some x \<longrightarrow> \<not> errorsIs x SOsNotExist)"

text \<open>Two calls of processes on the same host share the codec and the hash.\<close>

definition same_host :: "env \<Rightarrow> env \<Rightarrow> bool" where
  "same_host e d \<longleftrightarrow> envCodec e = envCodec d \<and> envSha256 e = envSha256 d"

lemma same_host_simps:
  assumes "same_host e d"
  shows "sessionOperationFileName e = sessionOperationFileName d" "fileJournal e = fileJournal d"
    "goodJournalFile e = goodJournalFile d" "dir_ok e = dir_ok d" "dirRecords e = dirRecords d"
proof -
  show n: "sessionOperationFileName e = sessionOperationFileName d"
    using assms by (intro ext) (simp add: sessionOperationFileName_def same_host_def)
  show f: "fileJournal e = fileJournal d"
    using assms by (intro ext) (simp add: fileJournal_def same_host_def)
  show g: "goodJournalFile e = goodJournalFile d"
    by (intro ext) (simp add: goodJournalFile_def n f split: option.split)
  show "dir_ok e = dir_ok d" by (intro ext) (simp add: dir_ok_def g)
  show "dirRecords e = dirRecords d" by (intro ext) (simp add: dirRecords_def n f split: option.split sum.split)
qed

section \<open>Names\<close>

lemma hexVal_lt: "hexVal c = Some n \<Longrightarrow> n < 16"
  by (auto simp: hexVal_def isDigit_def split: if_splits)

lemma hexDecode_hexEncode: "bytes bs \<Longrightarrow> hexDecode (hexEncode bs) = Some bs"
  by (induction bs) (auto simp: hexEncode_def bytes_def hexVal_hexDigit)

lemma fileName_valid:
  assumes "env_ok e" "sessionOperationFileName e rid = Inr name"
  shows "validSessionOperationFileName name"
proof -
  obtain bs where bs: "name = sessionOperationFilePrefix @ hexEncode bs @ sessionOperationFileSuffix"
      "length bs = 32" "bytes bs"
    using assms unfolding sessionOperationFileName_def env_ok_def by (auto split: if_splits)
  have "hasSuffix sessionOperationFileSuffix name" using bs(1) by (auto simp: hasSuffix_iff)
  moreover have "trimSuffix sessionOperationFileSuffix (trimPrefix sessionOperationFilePrefix name) = hexEncode bs"
    using bs(1) by (auto simp: trimSuffix_def trimPrefix_def hasSuffix_iff)
  ultimately show ?thesis
    using bs by (simp add: validSessionOperationFileName_def canonicalHex_def hexDecode_hexEncode hexEncode_length)
qed

lemma valid_name_head: "validSessionOperationFileName name \<Longrightarrow> hasPrefix ''native'' name"
  by (auto simp: validSessionOperationFileName_def sessionOperationFilePrefix_def hasPrefix_iff
      split: if_splits)

lemma temporaryName_not_valid: "\<not> validSessionOperationFileName (temporaryName e name)"
  by (auto dest!: valid_name_head simp: temporaryName_def)

lemma lock_not_valid: "\<not> validSessionOperationFileName sessionOperationLockFile"
  by (auto dest!: valid_name_head simp: sessionOperationLockFile_def)

lemma temporary_scan_not_valid:
  "validSessionOperationTemporaryFileName name \<Longrightarrow> \<not> validSessionOperationFileName name"
  by (auto dest!: valid_name_head
      simp: validSessionOperationTemporaryFileName_def hasPrefix_iff split: if_splits)

section \<open>Traces of directories\<close>

text \<open>\<open>through P ns ns'\<close>: every directory between \<open>ns\<close> and \<open>ns'\<close>, the last one included, satisfies \<open>P\<close>.\<close>

definition through :: "(dir \<Rightarrow> bool) \<Rightarrow> namespace \<Rightarrow> namespace \<Rightarrow> bool" where
  "through P ns ns' \<longleftrightarrow> (\<exists>ts. nsTrace ns' = nsTrace ns @ ts \<and> (\<forall>fs \<in> set ts. P fs) \<and>
      nsFiles ns' = last (nsFiles ns # ts))"

lemma through_refl [simp, intro]: "through P ns ns"
  by (simp add: through_def)

lemma through_commit [intro]: "P fs \<Longrightarrow> through P ns (commitFiles fs ns)"
  by (auto simp: through_def commitFiles_def)

lemma through_trans [trans]: "through P a b \<Longrightarrow> through P b d \<Longrightarrow> through P a d"
  unfolding through_def by (fastforce simp: last_append split: if_splits)

lemma through_mono: "through P a b \<Longrightarrow> (\<And>fs. P fs \<Longrightarrow> Q fs) \<Longrightarrow> through Q a b"
  unfolding through_def by blast

lemma through_end: "through P ns ns' \<Longrightarrow> P (nsFiles ns) \<Longrightarrow> P (nsFiles ns')"
  unfolding through_def by (metis last_ConsL last_ConsR last_in_set)

lemma commitFiles_files [simp]: "nsFiles (commitFiles fs ns) = fs"
  by (simp add: commitFiles_def)

text \<open>Names other than the temporary keep their file, or the target gets the committed one.\<close>

definition evolves :: "string \<Rightarrow> string \<Rightarrow> jfile \<Rightarrow> dir \<Rightarrow> dir \<Rightarrow> bool" where
  "evolves tmp name f fs fs' \<longleftrightarrow> (\<forall>n. n \<noteq> tmp \<longrightarrow>
     map_of fs' n = map_of fs n \<or> (n = name \<and> map_of fs' n = Some f))"

lemma evolvesI:
  assumes "\<And>n. n \<noteq> tmp \<Longrightarrow> n \<noteq> name \<Longrightarrow> map_of fs' n = map_of fs n"
    and "map_of fs' name = map_of fs name \<or> map_of fs' name = Some f"
  shows "evolves tmp name f fs fs'"
  using assms unfolding evolves_def by blast

lemma map_of_update [simp]: "map_of (AList.update k v xs) = (map_of xs)(k \<mapsto> v)"
  by (rule update_conv')

lemma map_of_delete [simp]: "map_of (AList.delete k xs) = (map_of xs)(k := None)"
  by (rule delete_conv')

lemma evolves_tmp:
  assumes "evolves tmp name f fs fs'"
  shows "evolves tmp name f fs (AList.update tmp g fs')" "evolves tmp name f fs (AList.delete tmp fs')"
  using assms by (auto simp: evolves_def)

lemma removeFile_through:
  assumes "removeFile e site tmp ns = (x, ns')" "evolves tmp name f fs (nsFiles ns)"
  shows "through (evolves tmp name f fs) ns ns'" "x = None \<Longrightarrow> map_of (nsFiles ns') tmp = None"
  using assms by (auto simp: removeFile_def evolves_tmp split: option.splits)

lemma updateFile_through:
  "evolves tmp name f fs (nsFiles ns) \<Longrightarrow> through (evolves tmp name f fs) ns (updateFile tmp g ns)"
  by (auto simp: updateFile_def evolves_tmp split: option.splits)

lemma updateFile_lookup:
  "lookupFile ns tmp = Some g \<Longrightarrow> lookupFile (updateFile tmp h ns) tmp = Some (h g)"
  by (simp add: updateFile_def lookupFile_def)

text \<open>The staged file: created, made private, filled, renamed over the journal.\<close>

definition committedFile :: "string \<Rightarrow> jfile" where
  "committedFile data =
     \<lparr>fKind = RegularFile, fMode = sessionOperationFileMode, fOwned = True, fData = data\<rparr>"

lemma stage_through:
  assumes run: "stageTemporary e name tmp data ns = (x, ns')"
    and ev: "evolves tmp name (committedFile data) fs (nsFiles ns)"
    and new: "lookupFile ns tmp = Some (newFile e [])" and ne: "tmp \<noteq> name"
  shows "through (evolves tmp name (committedFile data) fs) ns ns'"
    and "x = None \<Longrightarrow> map_of (nsFiles ns') name = Some (committedFile data)"
proof -
  let ?P = "evolves tmp name (committedFile data) fs"
  define ns1 where "ns1 = updateFile tmp (\<lambda>f. f\<lparr>fMode := sessionOperationFileMode\<rparr>) ns"
  define ns2 where "ns2 = updateFile tmp (\<lambda>f. f\<lparr>fData := data\<rparr>) ns1"
  define ns3 where "ns3 = updateFile tmp (\<lambda>f. f\<lparr>fData := take (envShort e) data\<rparr>) ns1"
  have l: "lookupFile ns2 tmp = Some (committedFile data)"
    using new by (simp add: ns1_def ns2_def updateFile_lookup newFile_def committedFile_def)
  have t1: "through ?P ns ns1" unfolding ns1_def by (rule updateFile_through [OF ev])
  have e1: "?P (nsFiles ns1)" using through_end [OF t1 ev] .
  have t2: "through ?P ns ns2" and t3: "through ?P ns ns3"
    unfolding ns2_def ns3_def by (rule through_trans [OF t1 updateFile_through [OF e1]])+
  have r: "renameFile tmp name ns2 =
      commitFiles (AList.update name (committedFile data) (AList.delete tmp (nsFiles ns2))) ns2"
    using l by (simp add: renameFile_def)
  have "?P (AList.update name (committedFile data) (AList.delete tmp (nsFiles ns2)))"
    using through_end [OF t2 ev] ne by (auto simp: evolves_def)
  then have t4: "through ?P ns (renameFile tmp name ns2)"
    unfolding r by (rule through_trans [OF t2 through_commit])
  show "through ?P ns ns'"
    using run t1 t2 t3 t4 unfolding stageTemporary_def Let_def ns1_def [symmetric] ns2_def [symmetric]
      ns3_def [symmetric] by (auto split: option.splits)
  show "map_of (nsFiles ns') name = Some (committedFile data)" if "x = None"
    using run that unfolding stageTemporary_def Let_def ns1_def [symmetric] ns2_def [symmetric]
      ns3_def [symmetric] by (auto split: option.splits simp: r)
qed

text \<open>
  A write is atomic for every failure and every crash point: names other than the temporary keep
  their file, and the journal's name holds the old file or the complete new one.
\<close>

lemma write_through:
  assumes run: "writeSessionOperationJournal e name j ns = (x, ns')"
    and ne: "temporaryName e name \<noteq> name"
  obtains (refused) "ns' = ns" "x \<noteq> None"
  | (written) data where "validSessionOperationJournal (envCodec e) j"
      "marshalJournal (envCodec e) j = Some data" "length data \<le> sessionOperationFileMaxBytes"
      "through (evolves (temporaryName e name) name (committedFile data) (nsFiles ns)) ns ns'"
      "x = None \<Longrightarrow> map_of (nsFiles ns') name = Some (committedFile data)"
proof (cases "ns' = ns \<and> x \<noteq> None")
  case True
  then show thesis using refused by blast
next
  case False
  let ?tmp = "temporaryName e name"
  obtain data where v: "validSessionOperationJournal (envCodec e) j"
      and d: "marshalJournal (envCodec e) j = Some data" "length data \<le> sessionOperationFileMaxBytes"
      and free: "lookupFile ns ?tmp = None"
    using run False by (auto simp: writeSessionOperationJournal_def Let_def split: if_splits option.splits)
  let ?ns0 = "commitFiles (AList.update ?tmp (newFile e []) (nsFiles ns)) ns"
  let ?P = "evolves ?tmp name (committedFile data) (nsFiles ns)"
  have P0: "?P (nsFiles ?ns0)" by (auto simp: evolves_def)
  have l0: "lookupFile ?ns0 ?tmp = Some (newFile e [])" by (simp add: lookupFile_def)
  obtain y ns1 where stage: "stageTemporary e name ?tmp data ?ns0 = (y, ns1)" by fastforce
  have t1: "through ?P ns ns1"
    by (rule through_trans [OF through_commit [of ?P, OF P0 [simplified]] stage_through(1) [OF stage P0 l0 ne]])
  have P1: "?P (nsFiles ns1)" using through_end [OF t1] by (auto simp: evolves_def)
  have step: "(x, ns') = (case y of Some z \<Rightarrow> cleanupTemporary e ?tmp z ns1
     | None \<Rightarrow> (errorsJoin [validateRegularFile e ''committed-validate'' ns1 name,
                       envFault e ''committed-close'' name, envFault e ''committed-dirsync'' name,
                       envFault e ''committed-continuity'' name], ns1))"
    using run False v d free stage
    by (auto simp: writeSessionOperationJournal_def Let_def split: if_splits option.splits)
  show thesis
  proof (cases y)
    case None
    with step have "ns' = ns1" by simp
    then show thesis
      using written [OF v d] t1 stage_through(2) [OF stage P0 l0 ne None] by simp
  next
    case (Some z)
    obtain w where w: "removeFile e ''cleanup-remove'' ?tmp ns1 = (w, ns')" and "x \<noteq> None"
      using step Some by (cases "removeFile e ''cleanup-remove'' ?tmp ns1")
        (auto simp: cleanupTemporary_def Let_def errorsJoin_def map_filter_def split: if_splits)
    then show thesis
      using written [OF v d] through_trans [OF t1 removeFile_through(1) [OF w P1]] by blast
  qed
qed

section \<open>Reading\<close>

lemma readJournalFile_Inr:
  "readJournalFile e ns name f = Inr j \<Longrightarrow> fileJournal e f = Some j"
  by (auto simp: readJournalFile_def fileJournal_def split: option.splits if_splits sum.splits)

lemma load_Some:
  "loadSessionOperationJournal e ns name = Inr (Some j) \<Longrightarrow>
     \<exists>f. map_of (nsFiles ns) name = Some f \<and> fileJournal e f = Some j"
  by (auto simp: loadSessionOperationJournal_def lookupFile_def
      split: option.splits if_splits sum.splits dest!: readJournalFile_Inr)

lemma load_None:
  "env_ok e \<Longrightarrow> loadSessionOperationJournal e ns name = Inr None \<Longrightarrow> map_of (nsFiles ns) name = None"
  by (auto simp: loadSessionOperationJournal_def lookupFile_def env_ok_def
      split: option.splits if_splits sum.splits)

lemma fileJournal_valid:
  "fileJournal e f = Some j \<Longrightarrow>
     validSessionOperationJournal (envCodec e) j \<and> (\<forall>r \<in> set (jRecords j). int64Record r)"
  by (auto simp: fileJournal_def split: sum.splits dest: decode_sound decode_range)

lemma fileJournal_committed:
  assumes "env_ok e" "validSessionOperationJournal (envCodec e) j" "\<forall>r \<in> set (jRecords j). int64Record r"
    and "marshalJournal (envCodec e) j = Some data"
  shows "fileJournal e (committedFile data) = Some j"
  using decode_marshalJournal [OF _ assms(2,3)] assms(1,4)
  by (auto simp: fileJournal_def committedFile_def env_ok_def)

lemma marshalJournal_nonempty: "marshalJournal c j = Some m \<Longrightarrow> m \<noteq> []"
  by (auto simp: marshalJournal_def bind_SomeE)

section \<open>The effect of a committed file on the abstract journal\<close>

text \<open>
  The file at \<open>name\<close> becomes the journal \<open>j\<close> of the resource of that name, where the directory held
  no file of another resource: the abstract journal changes at that resource only.
\<close>

lemma dirRecords_absent_or_own:
  assumes "map_of fs name = None \<or> (\<exists>f j. map_of fs name = Some f \<and> fileJournal e f = Some j \<and>
      jProtectedResourceID j = rid)"
    and "sessionOperationFileName e rid' = Inr name" and "rid' \<noteq> rid"
  shows "dirRecords e fs rid' = []"
  using assms by (auto simp: dirRecords_def)

lemma dirRecords_cong:
  "\<forall>n. validSessionOperationFileName n \<longrightarrow> map_of fs' n = map_of fs n \<Longrightarrow> env_ok e \<Longrightarrow>
   dirRecords e fs' = dirRecords e fs"
  by (rule ext) (auto simp: dirRecords_def split: sum.splits dest!: fileName_valid)

lemma dir_ok_cong:
  "\<forall>n. validSessionOperationFileName n \<longrightarrow> map_of fs' n = map_of fs n \<Longrightarrow> dir_ok e fs' = dir_ok e fs"
  by (auto simp: dir_ok_def)

lemma committed_effect:
  assumes env: "env_ok e" and ok: "dir_ok e fs"
    and name: "sessionOperationFileName e rid = Inr name"
    and j: "validSessionOperationJournal (envCodec e) j" "\<forall>r \<in> set (jRecords j). int64Record r"
      "jProtectedResourceID j = rid"
    and data: "marshalJournal (envCodec e) j = Some data" "length data \<le> sessionOperationFileMaxBytes"
    and old: "map_of fs name = None \<or> (\<exists>f j. map_of fs name = Some f \<and> fileJournal e f = Some j \<and>
      jProtectedResourceID j = rid)"
    and ev: "evolves (temporaryName e name) name (committedFile data) fs fs'"
  shows "dir_ok e fs'"
    and "dirRecords e fs' = (if map_of fs' name = Some (committedFile data)
           then (dirRecords e fs)(rid := jRecords j) else dirRecords e fs)"
proof -
  let ?new = "committedFile data"
  have fj: "fileJournal e ?new = Some j" using fileJournal_committed [OF env j(1,2) data(1)] .
  have good: "goodJournalFile e name ?new"
    using fj data marshalJournal_nonempty [OF data(1)] name j(3)
    by (simp add: goodJournalFile_def privateFile_def committedFile_def)
  have keep: "map_of fs' n = map_of fs n" if "validSessionOperationFileName n" "n \<noteq> name" for n
    using ev that temporaryName_not_valid unfolding evolves_def by metis
  have at: "map_of fs' name = map_of fs name \<or> map_of fs' name = Some ?new"
    using ev fileName_valid [OF env name] temporaryName_not_valid unfolding evolves_def by metis
  show "dir_ok e fs'"
    unfolding dir_ok_def
  proof (intro allI impI)
    fix n f
    assume n: "validSessionOperationFileName n" "map_of fs' n = Some f"
    show "goodJournalFile e n f"
    proof (cases "n = name \<and> f = ?new")
      case True
      then show ?thesis using good by simp
    next
      case False
      then have "map_of fs n = Some f" using n keep at by (cases "n = name") auto
      then show ?thesis using ok n(1) unfolding dir_ok_def by blast
    qed
  qed
  show "dirRecords e fs' = (if map_of fs' name = Some ?new
           then (dirRecords e fs)(rid := jRecords j) else dirRecords e fs)"
  proof (cases "map_of fs' name = Some ?new")
    case True
    have "dirRecords e fs' r = ((dirRecords e fs)(rid := jRecords j)) r" for r
    proof (cases "sessionOperationFileName e r")
      case (Inl x)
      then show ?thesis using name by (auto simp: dirRecords_def)
    next
      case (Inr n)
      show ?thesis
      proof (cases "n = name")
        case n: True
        show ?thesis
        proof (cases "r = rid")
          case True
          then show ?thesis using name \<open>map_of fs' name = Some ?new\<close> fj j(3) by (simp add: dirRecords_def)
        next
          case False
          then have "dirRecords e fs r = []" using dirRecords_absent_or_own [OF old] Inr n by simp
          moreover have "dirRecords e fs' r = []"
            using Inr n True fj j(3) False by (simp add: dirRecords_def)
          ultimately show ?thesis using False by simp
        qed
      next
        case False
        then have "r \<noteq> rid" "map_of fs' n = map_of fs n"
          using Inr name keep [OF fileName_valid [OF env Inr]] by auto
        then show ?thesis using Inr by (simp add: dirRecords_def)
      qed
    qed
    then show ?thesis using True by auto
  next
    case False
    then have "\<forall>n. validSessionOperationFileName n \<longrightarrow> map_of fs' n = map_of fs n" using at keep by metis
    then show ?thesis using dirRecords_cong [OF _ env] False by simp
  qed
qed

lemma dirRecords_loaded:
  assumes "loadSessionOperationJournal e ns name = Inr (Some j)"
    and "sessionOperationFileName e rid = Inr name"
  shows "dirRecords e (nsFiles ns) rid = (if jProtectedResourceID j = rid then jRecords j else [])"
  using load_Some [OF assms(1)] assms(2) by (auto simp: dirRecords_def)

lemma dirRecords_missing:
  assumes "env_ok e" "loadSessionOperationJournal e ns name = Inr None"
    and "sessionOperationFileName e rid = Inr name"
  shows "dirRecords e (nsFiles ns) rid = []"
  using load_None [OF assms(1,2)] assms(3) by (auto simp: dirRecords_def)

section \<open>The effect of one call\<close>

text \<open>
  \<open>moves e S T\<close>: the directory is good and its abstract journal is \<open>S\<close> or \<open>T\<close>. Every operation
  moves from its \<open>S\<close> to a \<open>T\<close> through such directories, and reports success only at \<open>T\<close>.
\<close>

definition moves :: "env \<Rightarrow> journals \<Rightarrow> journals \<Rightarrow> dir \<Rightarrow> bool" where
  "moves e S T fs \<longleftrightarrow> dir_ok e fs \<and> (dirRecords e fs = S \<or> dirRecords e fs = T)"

definition outcome :: "env \<Rightarrow> journals \<Rightarrow> err option \<Rightarrow> namespace \<Rightarrow> namespace \<Rightarrow> bool" where
  "outcome e T x ns ns' \<longleftrightarrow>
     through (moves e (dirRecords e (nsFiles ns)) T) ns ns' \<and>
     (x = None \<longrightarrow> dirRecords e (nsFiles ns') = T)"

lemma outcome_refl: "x \<noteq> None \<or> T = dirRecords e (nsFiles ns) \<Longrightarrow> outcome e T x ns ns"
  by (auto simp: outcome_def)

lemma outcome_weaken: "outcome e T x ns ns' \<Longrightarrow> (y = None \<Longrightarrow> x = None) \<Longrightarrow> outcome e T y ns ns'"
  by (auto simp: outcome_def)

lemma write_outcome:
  assumes env: "env_ok e" and ok: "dir_ok e (nsFiles ns)"
    and name: "sessionOperationFileName e rid = Inr name"
    and j: "\<forall>r \<in> set (jRecords j). int64Record r" "jProtectedResourceID j = rid"
    and old: "map_of (nsFiles ns) name = None \<or> (\<exists>f j. map_of (nsFiles ns) name = Some f \<and>
       fileJournal e f = Some j \<and> jProtectedResourceID j = rid)"
    and run: "writeSessionOperationJournal e name j ns = (x, ns')"
  shows "outcome e ((dirRecords e (nsFiles ns))(rid := jRecords j)) x ns ns'"
proof -
  have ne: "temporaryName e name \<noteq> name"
    using fileName_valid [OF env name] temporaryName_not_valid by metis
  from run ne show ?thesis
  proof (cases rule: write_through)
    case refused
    then show ?thesis by (simp add: outcome_refl)
  next
    case (written data)
    note eff = committed_effect [OF env ok name written(1) j written(2,3) old]
    have "through (moves e (dirRecords e (nsFiles ns)) ((dirRecords e (nsFiles ns))(rid := jRecords j))) ns ns'"
    proof (rule through_mono [OF written(4)])
      fix fs
      assume ev: "evolves (temporaryName e name) name (committedFile data) (nsFiles ns) fs"
      show "moves e (dirRecords e (nsFiles ns)) ((dirRecords e (nsFiles ns))(rid := jRecords j)) fs"
        using eff(1) [OF ev] eff(2) [OF ev] by (simp add: moves_def)
    qed
    moreover have "dirRecords e (nsFiles ns') = (dirRecords e (nsFiles ns))(rid := jRecords j)" if "x = None"
    proof -
      have "evolves (temporaryName e name) name (committedFile data) (nsFiles ns) (nsFiles ns')"
        by (rule through_end [OF written(4)]) (simp add: evolves_def)
      then show ?thesis using eff(2) written(5) [OF that] by simp
    qed
    ultimately show ?thesis by (simp add: outcome_def)
  qed
qed

lemma remove_outcome:
  assumes env: "env_ok e" and ok: "dir_ok e (nsFiles ns)"
    and name: "sessionOperationFileName e rid = Inr name"
    and old: "map_of (nsFiles ns) name = Some f" "fileJournal e f = Some j" "jProtectedResourceID j = rid"
    and run: "removeJournal e name ns = (x, ns')"
  shows "outcome e ((dirRecords e (nsFiles ns))(rid := [])) x ns ns'"
proof -
  let ?fs = "nsFiles ns" and ?gone = "AList.delete name (nsFiles ns)"
  have "dirRecords e ?gone r = ((dirRecords e ?fs)(rid := [])) r" for r
  proof (cases "sessionOperationFileName e r")
    case (Inl z)
    then show ?thesis using name by (cases "r = rid") (simp_all add: dirRecords_def)
  next
    case (Inr n)
    show ?thesis
    proof (cases "n = name \<and> r \<noteq> rid")
      case True
      then have "dirRecords e ?fs r = []" using dirRecords_absent_or_own [of ?fs name e rid r] old Inr by blast
      then show ?thesis using True Inr by (simp add: dirRecords_def)
    next
      case False
      then show ?thesis using Inr name by (cases "r = rid") (simp_all add: dirRecords_def)
    qed
  qed
  then have rec: "dirRecords e ?gone = (dirRecords e ?fs)(rid := [])" by blast
  have "dir_ok e ?gone" using ok by (auto simp: dir_ok_def)
  then have m: "moves e (dirRecords e ?fs) ((dirRecords e ?fs)(rid := [])) ?gone"
    using rec by (simp add: moves_def)
  have "(ns' = ns \<and> x \<noteq> None) \<or> ns' = commitFiles ?gone ns"
    using run old(1) by (auto simp: removeJournal_def removeFile_def lookupFile_def split: option.splits)
  then show ?thesis
    using m rec by (auto simp: outcome_def)
qed

text \<open>The lock changes no journal; the joined error of the wrapper is nil only when all parts are.\<close>

lemma lock_through:
  assumes "env_ok e" "dir_ok e (nsFiles ns)" "acquireLock e ns = (x, ns1)"
  shows "through (moves e (dirRecords e (nsFiles ns)) T) ns ns1"
    and "dirRecords e (nsFiles ns1) = dirRecords e (nsFiles ns)" "dir_ok e (nsFiles ns1)"
proof -
  let ?fs = "AList.update sessionOperationLockFile
      ((newFile e [])\<lparr>fMode := sessionOperationFileMode\<rparr>) (nsFiles ns)"
  have same: "\<forall>n. validSessionOperationFileName n \<longrightarrow> map_of ?fs n = map_of (nsFiles ns) n"
    using lock_not_valid by auto
  have fs: "dirRecords e ?fs = dirRecords e (nsFiles ns)" "dir_ok e ?fs"
    using dirRecords_cong [OF same assms(1)] dir_ok_cong [OF same] assms(2) by auto
  have "ns1 = ns \<or> ns1 = commitFiles ?fs ns"
    using assms(3) by (auto simp: acquireLock_def split: option.splits)
  then show "through (moves e (dirRecords e (nsFiles ns)) T) ns ns1"
    and "dirRecords e (nsFiles ns1) = dirRecords e (nsFiles ns)" "dir_ok e (nsFiles ns1)"
    using fs assms(2) by (auto simp: moves_def)
qed

lemma withLock_outcome:
  assumes env: "env_ok e" and ok: "dir_ok e (nsFiles ns)"
    and run: "withSessionOperationNamespaceLock e d fn ns = ((v, x), ns')"
    and fn: "\<And>ns1 w y ns2. \<lbrakk>dir_ok e (nsFiles ns1); dirRecords e (nsFiles ns1) = dirRecords e (nsFiles ns);
        fn ns1 = ((w, y), ns2)\<rbrakk> \<Longrightarrow> outcome e T y ns1 ns2"
  shows "outcome e T x ns ns'"
proof -
  have start: "through (moves e (dirRecords e (nsFiles ns)) T) ns ns'" if "ns' = ns" using that by simp
  show ?thesis
  proof (cases "\<not> envOpen e \<or> envFault e ''continuity-before'' [] \<noteq> None")
    case True
    then consider "\<not> envOpen e" | z where "envOpen e" "envFault e ''continuity-before'' [] = Some z" by auto
    then have "ns' = ns \<and> x \<noteq> None"
    proof cases
      case 1
      then show ?thesis using run by (auto simp: withSessionOperationNamespaceLock_def)
    next
      case (2 z)
      then have "((d, Some z), ns) = ((v, x), ns')"
        using run by (simp add: withSessionOperationNamespaceLock_def)
      then show ?thesis by blast
    qed
    then show ?thesis by (simp add: outcome_refl)
  next
    case False
    obtain y ns1 where lk: "acquireLock e ns = (y, ns1)" by fastforce
    note l = lock_through [OF env ok lk]
    show ?thesis
    proof (cases y)
      case (Some z)
      then show ?thesis using run False lk l(1)
        by (auto simp: withSessionOperationNamespaceLock_def outcome_def)
    next
      case None
      obtain w u ns2 where f: "fn ns1 = ((w, u), ns2)" by (metis prod.exhaust)
      have o: "outcome e T u ns1 ns2" using fn [OF l(3,2) f] .
      have "ns' = ns2" "x = None \<Longrightarrow> u = None"
        using run False lk None f
        by (auto simp: withSessionOperationNamespaceLock_def Let_def split: option.splits)
      then show ?thesis using o through_trans [OF l(1)] l(2) by (auto simp: outcome_def)
    qed
  qed
qed

lemma withResourceLock_outcome:
  assumes env: "env_ok e" and ok: "dir_ok e (nsFiles ns)"
    and run: "withSessionOperationLock e rid d fn ns = ((v, x), ns')"
    and fn: "\<And>name ns1 w y ns2. \<lbrakk>sessionOperationFileName e rid = Inr name; dir_ok e (nsFiles ns1);
        dirRecords e (nsFiles ns1) = dirRecords e (nsFiles ns); fn name ns1 = ((w, y), ns2)\<rbrakk> \<Longrightarrow>
        outcome e T y ns1 ns2"
  shows "outcome e T x ns ns'"
proof (cases "sessionOperationFileName e rid")
  case (Inl z)
  then show ?thesis using run by (auto simp: withSessionOperationLock_def outcome_refl)
next
  case (Inr name)
  then show ?thesis
    using run withLock_outcome [OF env ok, of d "fn name" v x ns' T] fn
    by (simp add: withSessionOperationLock_def)
qed

section \<open>The operations refine the abstract journal\<close>

text \<open>What each operation, if it takes effect, makes of the abstract journal.\<close>

definition afterCreate :: "journals \<Rightarrow> SessionOperationRecord \<Rightarrow> journals" where
  "afterCreate S r = (let rid = opProtectedResourceID (soOperation r) in S(rid := S rid @ [r]))"

definition afterTransition ::
  "journals \<Rightarrow> SessionOperationRecord \<Rightarrow> SessionOperationRecord \<Rightarrow> journals" where
  "afterTransition S p n = (let rid = opProtectedResourceID (soOperation p) in
     case find_index (\<lambda>r. r = p) (S rid) of None \<Rightarrow> S | Some i \<Rightarrow> S(rid := (S rid)[i := n]))"

definition afterDelete :: "journals \<Rightarrow> SessionOperationRecord \<Rightarrow> journals" where
  "afterDelete S t = (let rid = opProtectedResourceID (soOperation t) in
     case find_index (\<lambda>r. r = t) (S rid) of None \<Rightarrow> S | Some i \<Rightarrow> S(rid := remove_nth i (S rid)))"

lemma fileJournal_same:
  assumes "env_ok e" "fileJournal e f = Some j" "validSessionOperationRecord (envCodec e) p" "int64Record p"
  shows "findSessionOperationRecord (envCodec e) (jRecords j) p = find_index (\<lambda>r. r = p) (jRecords j)"
proof -
  have c: "codec_ok (envCodec e)" using assms(1) by (simp add: env_ok_def)
  have v: "\<forall>r \<in> set (jRecords j). validSessionOperationRecord (envCodec e) r \<and> int64Record r"
    using fileJournal_valid [OF assms(2)] validJournal_iff by blast
  have "find_index (\<lambda>r. sameSessionOperationRecord (envCodec e) r p) rs = find_index (\<lambda>r. r = p) rs"
    if "set rs \<subseteq> set (jRecords j)" for rs
    using that by (induction rs) (use v sameRecord_iff [OF c] assms(3,4) in auto)
  then show ?thesis by (simp add: findSessionOperationRecord_def)
qed

lemma createLocked_outcome:
  assumes env: "env_ok e" and ok: "dir_ok e (nsFiles ns)" and r: "int64Record r"
    and name: "sessionOperationFileName e (opProtectedResourceID (soOperation r)) = Inr name"
    and run: "createLocked e r name ns = ((v, x), ns')"
  shows "ns' = ns \<and> x \<noteq> None \<or>
     (outcome e (afterCreate (dirRecords e (nsFiles ns)) r) x ns ns' \<and>
      soID r \<notin> soID ` set (dirRecords e (nsFiles ns) (opProtectedResourceID (soOperation r))) \<and>
      length (dirRecords e (nsFiles ns) (opProtectedResourceID (soOperation r))) < sessionOperationMaxRecords)"
proof (cases "ns' = ns \<and> x \<noteq> None")
  case True
  then show ?thesis by blast
next
  case False
  let ?rid = "opProtectedResourceID (soOperation r)"
  let ?j0 = "\<lparr>jSchema = sessionOperationJournalSchema, jProtectedResourceID = ?rid, jRecords = []\<rparr>"
  obtain present where p: "loadSessionOperationJournal e ns name = Inr present"
    using run False by (auto simp: createLocked_def split: sum.splits)
  define j where "j = (case present of Some j \<Rightarrow> j | None \<Rightarrow> ?j0)"
  have w: "jProtectedResourceID j = ?rid" "length (jRecords j) < sessionOperationMaxRecords"
      "soID r \<notin> soID ` set (jRecords j)"
    and wr: "writeSessionOperationJournal e name (j\<lparr>jRecords := jRecords j @ [r]\<rparr>) ns = (x, ns')"
    using run False p unfolding createLocked_def j_def [symmetric]
    by (auto simp: Let_def j_def [symmetric] list_ex_iff split: if_splits prod.splits)
  have rec: "dirRecords e (nsFiles ns) ?rid = jRecords j"
    using dirRecords_loaded [OF _ name] dirRecords_missing [OF env _ name] p w(1)
    by (cases present) (auto simp: j_def)
  have old: "map_of (nsFiles ns) name = None \<or> (\<exists>f j. map_of (nsFiles ns) name = Some f \<and>
       fileJournal e f = Some j \<and> jProtectedResourceID j = ?rid)"
    using load_Some [of e ns name] load_None [OF env, of ns name] p w(1)
    by (cases present) (auto simp: j_def)
  have int: "\<forall>q \<in> set (jRecords (j\<lparr>jRecords := jRecords j @ [r]\<rparr>)). int64Record q"
    using load_Some [of e ns name] fileJournal_valid p r by (cases present) (fastforce simp: j_def)+
  have "outcome e ((dirRecords e (nsFiles ns))(?rid := jRecords j @ [r])) x ns ns'"
    using write_outcome [OF env ok name int _ old wr] w(1) by simp
  then show ?thesis using rec w by (simp add: afterCreate_def Let_def)
qed

lemma transitionLocked_outcome:
  assumes env: "env_ok e" and ok: "dir_ok e (nsFiles ns)" and r: "int64Record p" "int64Record n"
    and v: "validSessionOperationRecord (envCodec e) p"
    and name: "sessionOperationFileName e (opProtectedResourceID (soOperation p)) = Inr name"
    and run: "transitionLocked e p n name ns = ((u, x), ns')"
  shows "ns' = ns \<and> x \<noteq> None \<or>
     (outcome e (afterTransition (dirRecords e (nsFiles ns)) p n) x ns ns' \<and>
      p \<in> set (dirRecords e (nsFiles ns) (opProtectedResourceID (soOperation p))))"
proof (cases "ns' = ns \<and> x \<noteq> None")
  case True
  then show ?thesis by blast
next
  case False
  let ?rid = "opProtectedResourceID (soOperation p)"
  obtain j i where p: "loadSessionOperationJournal e ns name = Inr (Some j)"
    and i: "findSessionOperationRecord (envCodec e) (jRecords j) p = Some i"
    and w: "jProtectedResourceID j = ?rid"
    and wr: "writeSessionOperationJournal e name (j\<lparr>jRecords := (jRecords j)[i := n]\<rparr>) ns = (x, ns')"
    using run False by (auto simp: transitionLocked_def split: sum.splits option.splits if_splits prod.splits)
  obtain f where f: "map_of (nsFiles ns) name = Some f" "fileJournal e f = Some j"
    using load_Some [OF p] by blast
  have rec: "dirRecords e (nsFiles ns) ?rid = jRecords j"
    using dirRecords_loaded [OF p name] w by simp
  have i': "find_index (\<lambda>r. r = p) (jRecords j) = Some i"
    using fileJournal_same [OF env f(2) v r(1)] i by simp
  have int: "\<forall>q \<in> set (jRecords (j\<lparr>jRecords := (jRecords j)[i := n]\<rparr>)). int64Record q"
    using fileJournal_valid [OF f(2)] r(2) set_update_subset_insert [of "jRecords j" i n] by auto
  have "outcome e ((dirRecords e (nsFiles ns))(?rid := (jRecords j)[i := n])) x ns ns'"
    using write_outcome [OF env ok name int _ _ wr] w f by simp
  moreover have "p \<in> set (jRecords j)" using find_index_Some [OF i'] nth_mem by force
  ultimately show ?thesis using rec i' by (simp add: afterTransition_def Let_def)
qed

lemma deleteLocked_outcome:
  assumes env: "env_ok e" and ok: "dir_ok e (nsFiles ns)" and r: "int64Record t"
    and v: "validSessionOperationRecord (envCodec e) t"
    and name: "sessionOperationFileName e (opProtectedResourceID (soOperation t)) = Inr name"
    and run: "deleteLocked e t name ns = ((u, x), ns')"
  shows "ns' = ns \<and> x \<noteq> None \<or>
     (outcome e (afterDelete (dirRecords e (nsFiles ns)) t) x ns ns' \<and>
      t \<in> set (dirRecords e (nsFiles ns) (opProtectedResourceID (soOperation t))))"
proof (cases "ns' = ns \<and> x \<noteq> None")
  case True
  then show ?thesis by blast
next
  case False
  let ?rid = "opProtectedResourceID (soOperation t)"
  obtain j i where p: "loadSessionOperationJournal e ns name = Inr (Some j)"
    and i: "findSessionOperationRecord (envCodec e) (jRecords j) t = Some i"
    and w: "jProtectedResourceID j = ?rid"
    and wr: "(if remove_nth i (jRecords j) \<noteq> []
        then writeSessionOperationJournal e name (j\<lparr>jRecords := remove_nth i (jRecords j)\<rparr>) ns
        else removeJournal e name ns) = (x, ns')"
    using run False
    by (auto simp: deleteLocked_def Let_def split: sum.splits option.splits if_splits prod.splits)
  obtain f where f: "map_of (nsFiles ns) name = Some f" "fileJournal e f = Some j"
    using load_Some [OF p] by blast
  have rec: "dirRecords e (nsFiles ns) ?rid = jRecords j"
    using dirRecords_loaded [OF p name] w by simp
  have i': "find_index (\<lambda>r. r = t) (jRecords j) = Some i"
    using fileJournal_same [OF env f(2) v r] i by simp
  have int: "\<forall>q \<in> set (jRecords (j\<lparr>jRecords := remove_nth i (jRecords j)\<rparr>)). int64Record q"
    using fileJournal_valid [OF f(2)] mset_subset_remove_nth [of i "jRecords j"] by auto
  have "outcome e ((dirRecords e (nsFiles ns))(?rid := remove_nth i (jRecords j))) x ns ns'"
  proof (cases "remove_nth i (jRecords j) = []")
    case True
    then show ?thesis using remove_outcome [OF env ok name f w] wr by simp
  next
    case False
    then show ?thesis using write_outcome [OF env ok name int, of x ns'] w f wr by simp
  qed
  moreover have "t \<in> set (jRecords j)" using find_index_Some [OF i'] nth_mem by force
  ultimately show ?thesis using rec i' by (simp add: afterDelete_def Let_def)
qed

lemma find_index_eq:
  assumes "p \<in> set xs"
  obtains i where "find_index (\<lambda>r. r = p) xs = Some i" "i < length xs" "xs ! i = p"
  using assms find_index_ex [of p xs "\<lambda>r. r = p"] find_index_Some [of "\<lambda>r. r = p" xs] by auto

lemma step_create:
  "soStatus r = SessionOperationPrepared \<Longrightarrow> validSessionOperationRecord c r \<Longrightarrow>
   soID r \<notin> soID ` set (S (opProtectedResourceID (soOperation r))) \<Longrightarrow>
   length (S (opProtectedResourceID (soOperation r))) < sessionOperationMaxRecords \<Longrightarrow>
   journalStep c S (afterCreate S r)"
  using journalStep.create [of r c S] by (simp add: afterCreate_def Let_def)

lemma step_transition:
  "validSessionOperationTransition c p n \<Longrightarrow> p \<in> set (S (opProtectedResourceID (soOperation p))) \<Longrightarrow>
   journalStep c S (afterTransition S p n)"
  by (erule find_index_eq) (simp add: afterTransition_def Let_def journalStep.transition)

lemma step_delete:
  "terminal t \<Longrightarrow> t \<in> set (S (opProtectedResourceID (soOperation t))) \<Longrightarrow>
   journalStep c S (afterDelete S t)"
  by (erule find_index_eq) (simp add: afterDelete_def Let_def journalStep.delete)

text \<open>Where the callback always refuses, so does the locked operation.\<close>

lemma withResourceLock_refused:
  assumes env: "env_ok e" and ok: "dir_ok e (nsFiles ns)"
    and run: "withSessionOperationLock e rid d fn ns = ((v, x), ns')"
    and fn: "\<And>name ns1 w y ns2. \<lbrakk>sessionOperationFileName e rid = Inr name; dir_ok e (nsFiles ns1);
        dirRecords e (nsFiles ns1) = dirRecords e (nsFiles ns); fn name ns1 = ((w, y), ns2)\<rbrakk> \<Longrightarrow>
        ns2 = ns1 \<and> y \<noteq> None"
  shows "x \<noteq> None \<and> outcome e T x ns ns'"
proof -
  have o: "outcome e T x ns ns'" for T
    using withResourceLock_outcome [OF env ok run] fn outcome_refl by metis
  have "x \<noteq> None"
  proof
    assume "x = None"
    then have "T = T'" for T T' :: journals using o [of T] o [of T'] by (simp add: outcome_def)
    from this [of "\<lambda>_. []" "\<lambda>_. [undefined]"] show False by (simp add: fun_eq_iff)
  qed
  then show ?thesis using o by blast
qed

lemma CreateSessionOperation_outcome:
  assumes env: "env_ok e" and ok: "dir_ok e (nsFiles ns)" and r: "int64Record r"
    and run: "CreateSessionOperation e r ns = ((u, x), ns')"
    and S: "S = dirRecords e (nsFiles ns)"
  obtains (refused) "x \<noteq> None" "outcome e S x ns ns'"
  | (effective) "outcome e (afterCreate S r) x ns ns'" "journalStep (envCodec e) S (afterCreate S r)"
proof (cases "soStatus r \<noteq> SessionOperationPrepared \<or> \<not> validSessionOperationRecord (envCodec e) r")
  case True
  then show thesis using run refused by (auto simp: CreateSessionOperation_def outcome_refl)
next
  case False
  let ?rid = "opProtectedResourceID (soOperation r)"
  have lk: "withSessionOperationLock e ?rid () (createLocked e r) ns = ((u, x), ns')"
    using run False by (simp add: CreateSessionOperation_def)
  note locked = createLocked_outcome [OF env _ r]
  show thesis
  proof (cases "soID r \<notin> soID ` set (S ?rid) \<and> length (S ?rid) < sessionOperationMaxRecords")
    case True
    have "outcome e (afterCreate S r) x ns ns'"
      using locked outcome_refl S by (intro withResourceLock_outcome [OF env ok lk]) metis
    then show thesis using effective step_create True False by blast
  next
    case no: False
    have "x \<noteq> None \<and> outcome e S x ns ns'"
      using locked no S by (intro withResourceLock_refused [OF env ok lk]) metis
    then show thesis using refused by blast
  qed
qed

lemma TransitionSessionOperation_outcome:
  assumes env: "env_ok e" and ok: "dir_ok e (nsFiles ns)" and r: "int64Record p" "int64Record n"
    and run: "TransitionSessionOperation e p n ns = ((u, x), ns')"
    and S: "S = dirRecords e (nsFiles ns)"
  obtains (refused) "x \<noteq> None" "outcome e S x ns ns'"
  | (effective) "outcome e (afterTransition S p n) x ns ns'"
      "journalStep (envCodec e) S (afterTransition S p n)" "validSessionOperationTransition (envCodec e) p n"
      "p \<in> set (S (opProtectedResourceID (soOperation p)))"
proof (cases "opProtectedResourceID (soOperation p) \<noteq> opProtectedResourceID (soOperation n) \<or>
    opProtectedResourceID (soOperation p) = [] \<or> \<not> validSessionOperationTransition (envCodec e) p n")
  case True
  then show thesis using run refused by (auto simp: TransitionSessionOperation_def outcome_refl)
next
  case False
  let ?rid = "opProtectedResourceID (soOperation p)"
  have lk: "withSessionOperationLock e ?rid () (transitionLocked e p n) ns = ((u, x), ns')"
    using run False by (simp add: TransitionSessionOperation_def)
  note locked = transitionLocked_outcome [OF env _ r]
  have v: "validSessionOperationRecord (envCodec e) p" using False validTransitionD(1) by blast
  show thesis
  proof (cases "p \<in> set (S ?rid)")
    case True
    have "outcome e (afterTransition S p n) x ns ns'"
      using locked outcome_refl S v by (intro withResourceLock_outcome [OF env ok lk]) metis
    then show thesis using effective step_transition True False by blast
  next
    case no: False
    have "x \<noteq> None \<and> outcome e S x ns ns'"
      using locked no S v by (intro withResourceLock_refused [OF env ok lk]) metis
    then show thesis using refused by blast
  qed
qed

lemma DeleteSessionOperation_outcome:
  assumes env: "env_ok e" and ok: "dir_ok e (nsFiles ns)" and r: "int64Record t"
    and run: "DeleteSessionOperation e t ns = ((u, x), ns')"
    and S: "S = dirRecords e (nsFiles ns)"
  obtains (refused) "x \<noteq> None" "outcome e S x ns ns'"
  | (effective) "outcome e (afterDelete S t) x ns ns'"
      "journalStep (envCodec e) S (afterDelete S t)" "terminal t"
      "t \<in> set (S (opProtectedResourceID (soOperation t)))"
proof (cases "\<not> terminal t \<or> \<not> validSessionOperationRecord (envCodec e) t")
  case True
  then have "x \<noteq> None \<and> ns' = ns"
    using run by (auto simp: DeleteSessionOperation_def terminal_def split: if_splits)
  then show thesis using refused by (simp add: outcome_refl)
next
  case False
  let ?rid = "opProtectedResourceID (soOperation t)"
  have lk: "withSessionOperationLock e ?rid () (deleteLocked e t) ns = ((u, x), ns')"
    using run False by (auto simp: DeleteSessionOperation_def terminal_def split: if_splits)
  note locked = deleteLocked_outcome [OF env _ r]
  show thesis
  proof (cases "t \<in> set (S ?rid)")
    case True
    have "outcome e (afterDelete S t) x ns ns'"
      using locked outcome_refl S False by (intro withResourceLock_outcome [OF env ok lk]) metis
    then show thesis using effective step_delete True False by blast
  next
    case no: False
    have "x \<noteq> None \<and> outcome e S x ns ns'"
      using locked no S False by (intro withResourceLock_refused [OF env ok lk]) metis
    then show thesis using refused by blast
  qed
qed

lemma loadLocked_outcome:
  assumes "env_ok e" "sessionOperationFileName e rid = Inr name" "loadLocked e rid name ns = ((rs, x), ns')"
  shows "ns' = ns \<and> (x = None \<longrightarrow> rs = dirRecords e (nsFiles ns) rid)"
  using assms(3) dirRecords_loaded [OF _ assms(2)] dirRecords_missing [OF assms(1) _ assms(2)]
  by (auto simp: loadLocked_def split: sum.splits option.splits if_splits)

lemma withResourceLock_value:
  assumes env: "env_ok e" and ok: "dir_ok e (nsFiles ns)"
    and run: "withSessionOperationLock e rid d fn ns = ((v, None), ns')"
  obtains name ns1 where "sessionOperationFileName e rid = Inr name"
    "dirRecords e (nsFiles ns1) = dirRecords e (nsFiles ns)" "fn name ns1 = ((v, None), ns')"
proof -
  obtain name where n: "sessionOperationFileName e rid = Inr name"
    using run by (auto simp: withSessionOperationLock_def split: sum.splits)
  obtain ns1 where a: "acquireLock e ns = (None, ns1)" "fn name ns1 = ((v, None), ns')"
    using run n by (auto simp: withSessionOperationLock_def withSessionOperationNamespaceLock_def Let_def
      split: if_splits option.splits prod.splits)
  then show thesis using that [OF n] lock_through(2) [OF env ok a(1)] by blast
qed

lemma LoadSessionOperations_outcome:
  assumes env: "env_ok e" and ok: "dir_ok e (nsFiles ns)"
    and run: "LoadSessionOperations e rid ns = ((rs, x), ns')"
  shows "outcome e (dirRecords e (nsFiles ns)) x ns ns'"
    and "x = None \<Longrightarrow> rs = dirRecords e (nsFiles ns) rid"
proof -
  have lk: "withSessionOperationLock e rid [] (loadLocked e rid) ns = ((rs, x), ns')"
    using run by (simp add: LoadSessionOperations_def)
  show "outcome e (dirRecords e (nsFiles ns)) x ns ns'"
  proof (rule withResourceLock_outcome [OF env ok lk])
    fix name ns1 w y ns2
    assume a: "sessionOperationFileName e rid = Inr name"
      "dirRecords e (nsFiles ns1) = dirRecords e (nsFiles ns)" "loadLocked e rid name ns1 = ((w, y), ns2)"
    then have "ns2 = ns1" using loadLocked_outcome [OF env a(1,3)] by blast
    then show "outcome e (dirRecords e (nsFiles ns)) y ns1 ns2" using a(2) by (simp add: outcome_refl)
  qed
  show "rs = dirRecords e (nsFiles ns) rid" if none: "x = None"
  proof -
    obtain name ns1 where a: "sessionOperationFileName e rid = Inr name"
      "dirRecords e (nsFiles ns1) = dirRecords e (nsFiles ns)" "loadLocked e rid name ns1 = ((rs, None), ns')"
      by (rule withResourceLock_value [OF env ok lk [unfolded none]])
    then show ?thesis using loadLocked_outcome [OF env a(1,3)] by simp
  qed
qed

lemma scanName_through:
  assumes "env_ok e" "dir_ok e (nsFiles ns)" "scanName e name (sc, ns) = (sc', ns')"
  shows "through (moves e (dirRecords e (nsFiles ns)) T) ns ns'"
    and "dir_ok e (nsFiles ns')" "dirRecords e (nsFiles ns') = dirRecords e (nsFiles ns)"
proof -
  let ?fs = "AList.delete name (nsFiles ns)"
  have "ns' = ns \<or> (\<not> validSessionOperationFileName name \<and> ns' = commitFiles ?fs ns)"
    using assms(3)
    by (auto simp: scanName_def scanJournal_def scanTemporary_def removeFile_def
        split: if_splits option.splits sum.splits prod.splits)
  moreover have "dir_ok e ?fs" "dirRecords e ?fs = dirRecords e (nsFiles ns)"
    if "\<not> validSessionOperationFileName name"
  proof -
    have "\<forall>n. validSessionOperationFileName n \<longrightarrow> map_of ?fs n = map_of (nsFiles ns) n" using that by auto
    then show "dir_ok e ?fs" "dirRecords e ?fs = dirRecords e (nsFiles ns)"
      using dir_ok_cong dirRecords_cong assms(1,2) by blast+
  qed
  ultimately show "through (moves e (dirRecords e (nsFiles ns)) T) ns ns'"
    and "dir_ok e (nsFiles ns')" "dirRecords e (nsFiles ns') = dirRecords e (nsFiles ns)"
    using assms(2) by (auto simp: moves_def)
qed

lemma scanFold_through:
  assumes "env_ok e" "dir_ok e (nsFiles ns)" "fold (scanName e) names (sc, ns) = (sc', ns')"
  shows "through (moves e (dirRecords e (nsFiles ns)) T) ns ns' \<and>
     dirRecords e (nsFiles ns') = dirRecords e (nsFiles ns)"
  using assms(2,3)
proof (induction names arbitrary: sc ns)
  case Nil
  then show ?case by simp
next
  case (Cons n names)
  obtain sc1 ns1 where s: "scanName e n (sc, ns) = (sc1, ns1)" by fastforce
  note t = scanName_through [OF assms(1) Cons.prems(1) s]
  show ?case
    using Cons.IH [OF t(2), of sc1] Cons.prems(2) s t(3) through_trans [OF t(1) [of T]] by simp
qed

lemma Scan_outcome:
  assumes env: "env_ok e" and ok: "dir_ok e (nsFiles ns)"
    and run: "ScanSessionOperationResources e ns = (sc, ns')"
  shows "through (moves e (dirRecords e (nsFiles ns)) (dirRecords e (nsFiles ns))) ns ns'"
    and "dirRecords e (nsFiles ns') = dirRecords e (nsFiles ns)"
proof -
  obtain v x where w: "withSessionOperationNamespaceLock e scan0 (scanLocked e) ns = ((v, x), ns')"
    using run by (auto simp: ScanSessionOperationResources_def split: prod.splits)
  have "outcome e (dirRecords e (nsFiles ns)) x ns ns'"
  proof (rule withLock_outcome [OF env ok w])
    fix ns1 w' y ns2
    assume a: "dir_ok e (nsFiles ns1)" "dirRecords e (nsFiles ns1) = dirRecords e (nsFiles ns)"
      "scanLocked e ns1 = ((w', y), ns2)"
    show "outcome e (dirRecords e (nsFiles ns)) y ns1 ns2"
    proof (cases "ns2 = ns1")
      case True
      then show ?thesis using outcome_refl a(2) by metis
    next
      case False
      then obtain sc1 where "fold (scanName e) (sort (map fst (nsFiles ns1))) (scan0, ns1) = (sc1, ns2)"
        using a(3) by (auto simp: scanLocked_def Let_def split: option.splits if_splits prod.splits)
      then show ?thesis using scanFold_through [OF env a(1)] a(2) by (simp add: outcome_def)
    qed
  qed
  then show "through (moves e (dirRecords e (nsFiles ns)) (dirRecords e (nsFiles ns))) ns ns'"
    and "dirRecords e (nsFiles ns') = dirRecords e (nsFiles ns)"
    using through_end [of "moves e (dirRecords e (nsFiles ns)) (dirRecords e (nsFiles ns))" ns ns'] ok
    by (auto simp: outcome_def moves_def)
qed

section \<open>Runs\<close>

text \<open>One call of any process of the host, with its own environment.\<close>

datatype journalCall =
    CallLoad string
  | CallScan
  | CallCreate SessionOperationRecord
  | CallTransition SessionOperationRecord SessionOperationRecord
  | CallDelete SessionOperationRecord

fun runCall :: "env \<Rightarrow> journalCall \<Rightarrow> namespace \<Rightarrow> namespace" where
  "runCall e (CallLoad rid) ns = snd (LoadSessionOperations e rid ns)"
| "runCall e CallScan ns = snd (ScanSessionOperationResources e ns)"
| "runCall e (CallCreate r) ns = snd (CreateSessionOperation e r ns)"
| "runCall e (CallTransition p n) ns = snd (TransitionSessionOperation e p n ns)"
| "runCall e (CallDelete t) ns = snd (DeleteSessionOperation e t ns)"

fun goCall :: "journalCall \<Rightarrow> bool" where
  "goCall (CallCreate r) = int64Record r"
| "goCall (CallTransition p n) = (int64Record p \<and> int64Record n)"
| "goCall (CallDelete t) = int64Record t"
| "goCall _ = True"

fun runCalls :: "(env \<times> journalCall) list \<Rightarrow> namespace \<Rightarrow> namespace" where
  "runCalls [] ns = ns"
| "runCalls ((e, call) # cs) ns = runCalls cs (runCall e call ns)"

definition stepFrom :: "env \<Rightarrow> journals \<Rightarrow> dir \<Rightarrow> bool" where
  "stepFrom e S fs \<longleftrightarrow> dir_ok e fs \<and> journalStep (envCodec e) S (dirRecords e fs)"

lemma outcome_stepFrom:
  "outcome e T x ns ns' \<Longrightarrow> S = dirRecords e (nsFiles ns) \<Longrightarrow>
   journalStep (envCodec e) S T \<Longrightarrow> through (stepFrom e S) ns ns'"
  unfolding outcome_def by (erule conjE, erule through_mono) (auto simp: stepFrom_def moves_def intro: journalStep.stutter)

lemma runCall_step:
  assumes env: "env_ok e" and ok: "dir_ok e (nsFiles ns)" and call: "goCall call"
  shows "through (stepFrom e (dirRecords e (nsFiles ns))) ns (runCall e call ns)"
proof (cases call)
  case (CallLoad rid)
  obtain rs x ns' where "LoadSessionOperations e rid ns = ((rs, x), ns')" by (metis prod.exhaust)
  then show ?thesis
    using LoadSessionOperations_outcome(1) [OF env ok] outcome_stepFrom journalStep.stutter CallLoad
    by fastforce
next
  case CallScan
  obtain sc ns' where s: "ScanSessionOperationResources e ns = (sc, ns')" by fastforce
  have "through (stepFrom e (dirRecords e (nsFiles ns))) ns ns'"
    by (rule through_mono [OF Scan_outcome(1) [OF env ok s]])
      (auto simp: stepFrom_def moves_def intro: journalStep.stutter)
  then show ?thesis using s CallScan by simp
next
  case (CallCreate r)
  obtain u x ns' where c: "CreateSessionOperation e r ns = ((u, x), ns')" by (metis prod.exhaust)
  then show ?thesis
    using CallCreate call outcome_stepFrom journalStep.stutter
    by (cases rule: CreateSessionOperation_outcome [OF env ok _ c refl]) auto
next
  case (CallTransition p n)
  obtain u x ns' where c: "TransitionSessionOperation e p n ns = ((u, x), ns')" by (metis prod.exhaust)
  then show ?thesis
    using CallTransition call outcome_stepFrom journalStep.stutter
    by (cases rule: TransitionSessionOperation_outcome [OF env ok _ _ c refl]) auto
next
  case (CallDelete t)
  obtain u x ns' where c: "DeleteSessionOperation e t ns = ((u, x), ns')" by (metis prod.exhaust)
  then show ?thesis
    using CallDelete call outcome_stepFrom journalStep.stutter
    by (cases rule: DeleteSessionOperation_outcome [OF env ok _ c refl]) auto
qed

end
