(* ===== verification/Recovery.thy ===== *)
theory Recovery
  imports Journal_Safety
begin

text \<open>
  Durable session operations over the journal: \<open>durableNativeSessionOperations\<close> of
  \<open>pkg/share/session_operation.go\<close> (\<open>PrepareDispatch\<close>, \<open>RecordMapped\<close>, \<open>RecoverPending\<close>,
  \<open>RecoverOperation\<close>, \<open>Retire\<close> and their helpers).

  What the Go value reaches through its fields and package variables is the record \<open>ops\<close> over an
  abstract world: the journal's four calls (\<open>nativeStateStore\<close>), the clock, the recovery exchange of
  qurl-go, the wait, the context and the runtime's current assignment. Every call may change the
  world, so other processes, time and the network may act between any two of them. Instants are
  nanoseconds since the epoch.
\<close>

section \<open>Constants and the world\<close>

definition nativeSessionOperationLifetime :: duration where
  "nativeSessionOperationLifetime = 20 * minute"
definition nativeSessionRecoveryInitialDelay :: duration where
  "nativeSessionRecoveryInitialDelay = 100 * millisecond"
definition nativeSessionRecoveryMaxDelay :: duration where
  "nativeSessionRecoveryMaxDelay = 2 * second"
definition nativeSessionRecoveryAbandonMargin :: duration where
  "nativeSessionRecoveryAbandonMargin = 5 * minute"
definition nativeSessionRecoveryAbandonAttempts :: uint32 where
  "nativeSessionRecoveryAbandonAttempts = 5"
definition nativeSessionRecoveryNoReplyMaxDelay :: duration where
  "nativeSessionRecoveryNoReplyMaxDelay = 30 * second"

definition unixMilli :: "time \<Rightarrow> millis" where "unixMilli t = t div 1000000"
definition milliseconds :: "duration \<Rightarrow> millis" where "milliseconds d = d div 1000000"

text \<open>\<open>qurl.NativeSessionOperationRecovery\<close> and the fields the sources read.\<close>

record NativeSessionOperationRecovery =
  rvComplete :: bool
  rvUnexpectedAdmission :: "NativeSessionReceipt option"

type_synonym exchange = "NativeSessionOperationRecovery option \<times> err option"

record 'w ops =
  opsLoad :: "string \<Rightarrow> 'w \<Rightarrow> (SessionOperationRecord list \<times> err option) \<times> 'w"
  opsCreate :: "SessionOperationRecord \<Rightarrow> 'w \<Rightarrow> err option \<times> 'w"
  opsTransition :: "SessionOperationRecord \<Rightarrow> SessionOperationRecord \<Rightarrow> 'w \<Rightarrow> err option \<times> 'w"
  opsDelete :: "SessionOperationRecord \<Rightarrow> 'w \<Rightarrow> err option \<times> 'w"
  opsNow :: "'w \<Rightarrow> time \<times> 'w"
  opsWait :: "duration \<Rightarrow> 'w \<Rightarrow> err option \<times> 'w"
  opsExchange :: "NativeSessionOperation \<Rightarrow> NHPUDPEndpoint \<Rightarrow> 'w \<Rightarrow> exchange \<times> 'w"
  opsCtxErr :: "'w \<Rightarrow> err option \<times> 'w"
  opsAssignment :: "'w \<Rightarrow> (string \<times> NHPUDPEndpoint) \<times> 'w"

text \<open>What one pass of a loop does: return from the function, or go round again.\<close>

datatype loopstep = Return "err option" | Continue

section \<open>Backoffs\<close>

text \<open>The two delay loops; a delay that has reached its ceiling stops the loop.\<close>

function recoveryBackoffLoop :: "nat \<Rightarrow> nat \<Rightarrow> duration \<Rightarrow> duration" where
  "recoveryBackoffLoop attempt step delay =
     (if step < attempt \<and> delay < nativeSessionRecoveryMaxDelay then
        if nativeSessionRecoveryMaxDelay < delay * 2 then nativeSessionRecoveryMaxDelay
        else recoveryBackoffLoop attempt (Suc step) (delay * 2)
      else delay)"
  by pat_completeness auto
termination
  by (relation "measure (\<lambda>(attempt, step, delay). attempt - step)") auto

definition nativeSessionRecoveryBackoff :: "uint32 \<Rightarrow> duration" where
  "nativeSessionRecoveryBackoff attempt =
     recoveryBackoffLoop (unat attempt) 1 nativeSessionRecoveryInitialDelay"

function noReplyBackoffLoop :: "nat \<Rightarrow> nat \<Rightarrow> duration \<Rightarrow> duration" where
  "noReplyBackoffLoop failures step delay =
     (if step < failures \<and> delay < nativeSessionRecoveryNoReplyMaxDelay then
        noReplyBackoffLoop failures (Suc step) (min (delay * 2) nativeSessionRecoveryNoReplyMaxDelay)
      else delay)"
  by pat_completeness auto
termination
  by (relation "measure (\<lambda>(failures, step, delay). failures - step)") auto

definition nativeSessionRecoveryNoReplyBackoff :: "uint32 \<Rightarrow> duration" where
  "nativeSessionRecoveryNoReplyBackoff failures =
     noReplyBackoffLoop (unat failures) 0 nativeSessionRecoveryMaxDelay"

declare recoveryBackoffLoop.simps [simp del] noReplyBackoffLoop.simps [simp del]

section \<open>Pure helpers\<close>

definition nativeSessionOperationPastAbandonMargin :: "NativeSessionOperation \<Rightarrow> time \<Rightarrow> bool" where
  "nativeSessionOperationPastAbandonMargin op now =
     (let expiry = opExpiresAtMillis op; margin = milliseconds nativeSessionRecoveryAbandonMargin
      in 0 < expiry \<and> expiry \<le> maxInt64 - margin \<and> expiry + margin < unixMilli now)"

definition nativeSessionRefenceEndpoint ::
  "string \<times> NHPUDPEndpoint \<Rightarrow> SessionOperationRecord \<Rightarrow> NHPUDPEndpoint option" where
  "nativeSessionRefenceEndpoint current r = (case current of (cell, endpoint) \<Rightarrow>
     if cell = '''' \<or> cell \<noteq> opCellID (soOperation r) \<or> endpoint = soRecoveryEndpoint r \<or>
        \<not> validRecoveryEndpoint endpoint then None
     else Some endpoint)"

definition admissionFromReceipt :: "NativeSessionReceipt \<Rightarrow> SessionOperationAdmission" where
  "admissionFromReceipt rc =
     \<lparr>adCellID = rcCellID rc, adSessionID = rcSessionID rc,
      adSessionIssuedAtMillis = rcSessionIssuedAtMillis rc, adRunID = rcRunID rc,
      adRunAttempt = rcRunAttempt rc\<rparr>"

definition sameNativeSessionReceipt :: "NativeSessionReceipt option \<Rightarrow> NativeSessionReceipt \<Rightarrow> bool" where
  "sameNativeSessionReceipt left right = (case left of
      None \<Rightarrow> False
    | Some l \<Rightarrow> rcCellID l = rcCellID right \<and> rcSessionID l = rcSessionID right \<and>
        rcSessionIssuedAtMillis l = rcSessionIssuedAtMillis right \<and> rcRunID l = rcRunID right \<and>
        rcRunAttempt l = rcRunAttempt right)"

definition reachableSessionOperationStatus :: "string \<Rightarrow> string \<Rightarrow> bool" where
  "reachableSessionOperationStatus previous current =
     (if previous = SessionOperationPrepared then current = SessionOperationCanceled
      else if previous = SessionOperationDispatching then
        current = SessionOperationDispatching \<or> current = SessionOperationMapped \<or>
        current = SessionOperationClosing \<or> current = SessionOperationCanceled \<or>
        current = SessionOperationClosed
      else if previous = SessionOperationMapped then
        current = SessionOperationClosing \<or> current = SessionOperationClosed
      else if previous = SessionOperationClosing then
        current = SessionOperationClosing \<or> current = SessionOperationClosed
      else False)"

text \<open>\<open>sameSessionOperationIdentity\<close>: what is left after the mutable fields are blanked.\<close>

definition blankMutable :: "SessionOperationRecord \<Rightarrow> SessionOperationRecord" where
  "blankMutable r = r\<lparr>soStatus := '''', soAdmission := None, soRecoveryAttempt := 0,
     soRecoveryNotBeforeMilli := 0, soPostExpiryNoReplyAttempts := 0,
     soRecoveryEndpoint := \<lparr>epHost = '''', epPort = 0, epServerPublicKeyB64 = ''''\<rparr>\<rparr>"

definition sameSessionOperationIdentity :: "SessionOperationRecord \<Rightarrow> SessionOperationRecord \<Rightarrow> bool" where
  "sameSessionOperationIdentity previous current = (blankMutable previous = blankMutable current)"

definition monotonicSessionOperationAdvance :: "SessionOperationRecord \<Rightarrow> SessionOperationRecord \<Rightarrow> bool" where
  "monotonicSessionOperationAdvance previous current =
     (if \<not> sameSessionOperationIdentity previous current \<or>
         soRecoveryAttempt current < soRecoveryAttempt previous \<or>
         soRecoveryNotBeforeMilli current < soRecoveryNotBeforeMilli previous \<or>
         soPostExpiryNoReplyAttempts current < soPostExpiryNoReplyAttempts previous \<or>
         \<not> validRecoveryEndpoint (soRecoveryEndpoint current) then False
      else let counted = soRecoveryAttempt previous < soRecoveryAttempt current \<or>
             soPostExpiryNoReplyAttempts previous < soPostExpiryNoReplyAttempts current
      in if \<not> counted \<and> soRecoveryNotBeforeMilli previous \<noteq> soRecoveryNotBeforeMilli current then False
         else if counted \<and> soRecoveryNotBeforeMilli current \<le> soRecoveryNotBeforeMilli previous then False
         else if soAdmission previous \<noteq> None \<and>
                 (soAdmission current = None \<or> soAdmission previous \<noteq> soAdmission current) then False
         else if soAdmission current \<noteq> None \<and>
                 \<not> validSessionOperationAdmission (soAdmission current) (soOperation current) then False
         else if (soStatus current = SessionOperationPrepared \<or> soStatus current = SessionOperationDispatching \<or>
                  soStatus current = SessionOperationCanceled) \<and> soAdmission current \<noteq> None then False
         else if (soStatus current = SessionOperationMapped \<or> soStatus current = SessionOperationClosing \<or>
                  soStatus current = SessionOperationClosed) \<and> soAdmission current = None then False
         else if soStatus current \<notin> {SessionOperationPrepared, SessionOperationDispatching,
                  SessionOperationCanceled, SessionOperationMapped, SessionOperationClosing,
                  SessionOperationClosed} then False
         else if \<not> reachableSessionOperationStatus (soStatus previous) (soStatus current) then False
         else soStatus previous \<noteq> soStatus current \<or> counted \<or>
              soRecoveryNotBeforeMilli previous \<noteq> soRecoveryNotBeforeMilli current \<or>
              soRecoveryEndpoint previous \<noteq> soRecoveryEndpoint current \<or>
              (soAdmission previous = None \<and> soAdmission current \<noteq> None))"

section \<open>Loading and reconciling\<close>

definition loadOperation ::
  "'w ops \<Rightarrow> string \<Rightarrow> string \<Rightarrow> 'w \<Rightarrow> (SessionOperationRecord option \<times> err option) \<times> 'w" where
  "loadOperation d rid opid w = (case opsLoad d rid w of
      ((records, Some x), w) \<Rightarrow> ((None, Some x), w)
    | ((records, None), w) \<Rightarrow> ((List.find (\<lambda>r. soID r = opid) records, None), w))"

definition reconcileRecoveryConflict ::
  "'w ops \<Rightarrow> string \<Rightarrow> SessionOperationRecord \<Rightarrow> err \<Rightarrow> 'w \<Rightarrow> (bool \<times> err option) \<times> 'w" where
  "reconcileRecoveryConflict d rid previous writeErr w =
     (if \<not> onlySessionOperationCASLoss writeErr then ((False, Some writeErr), w)
      else case loadOperation d rid (soID previous) w of
          ((_, Some x), w) \<Rightarrow> ((False, errorsJoin [Some writeErr, Some x]), w)
        | ((None, None), w) \<Rightarrow> ((True, None), w)
        | ((Some current, None), w) \<Rightarrow>
            if \<not> monotonicSessionOperationAdvance previous current then
              ((False, Some (conflict ''recovery journal did not advance monotonically'')), w)
            else ((False, None), w))"

text \<open>What the recovery loop does with the answer of a reconciliation; \<open>wrap\<close> decorates its error.\<close>

definition afterLoss :: "(err \<Rightarrow> err) \<Rightarrow> (bool \<times> err option) \<times> 'w \<Rightarrow> loopstep \<times> 'w" where
  "afterLoss wrap a = (case a of
      ((_, Some x), w) \<Rightarrow> (Return (Some (wrap x)), w)
    | ((complete, None), w) \<Rightarrow> (if complete then Return None else Continue, w))"

definition finishOperation ::
  "'w ops \<Rightarrow> string \<Rightarrow> SessionOperationRecord \<Rightarrow> string \<Rightarrow> 'w \<Rightarrow> (bool \<times> err option) \<times> 'w" where
  "finishOperation d rid record transitionFailure w =
     (let next = record\<lparr>soStatus := if soAdmission record = None then SessionOperationCanceled
                                     else SessionOperationClosed\<rparr>
      in case opsTransition d record next w of
          (Some x, w) \<Rightarrow> (case reconcileRecoveryConflict d rid record x w of
              ((_, Some y), w) \<Rightarrow> ((False, Some (Errorf transitionFailure y)), w)
            | ((complete, None), w) \<Rightarrow> ((complete, None), w))
        | (None, w) \<Rightarrow> (case opsDelete d next w of
              (Some x, w) \<Rightarrow> (case reconcileRecoveryConflict d rid next x w of
                  ((_, Some y), w) \<Rightarrow> ((False, Some y), w)
                | ((complete, None), w) \<Rightarrow> ((complete, None), w))
            | (None, w) \<Rightarrow> ((True, None), w)))"

definition afterFinish :: "(bool \<times> err option) \<times> 'w \<Rightarrow> loopstep \<times> 'w" where
  "afterFinish a = (case a of
      ((_, Some x), w) \<Rightarrow> (Return (Some x), w)
    | ((done, None), w) \<Rightarrow> (if done then Return None else Continue, w))"

section \<open>Counting silence past the expiry\<close>

datatype noReplyDisposition = NoReplyRetry | NoReplyReload | NoReplyComplete | NoReplyAbandon

definition countPostExpiryNoReply ::
  "'w ops \<Rightarrow> string \<Rightarrow> SessionOperationRecord \<Rightarrow> 'w \<Rightarrow>
   (SessionOperationRecord \<times> noReplyDisposition \<times> err option) \<times> 'w" where
  "countPostExpiryNoReply d rid record w = (case opsNow d w of (now, w) \<Rightarrow>
     if \<not> nativeSessionOperationPastAbandonMargin (soOperation record) now then
       ((record, NoReplyRetry, None), w)
     else if soPostExpiryNoReplyAttempts record = maxUint32 then
       ((record, NoReplyRetry, Some (NewErr ''post-expiry failure counter is exhausted'')), w)
     else
       let attempts = soPostExpiryNoReplyAttempts record + 1;
           candidate = unixMilli (now + nativeSessionRecoveryNoReplyBackoff attempts)
       in if candidate \<le> soRecoveryNotBeforeMilli record \<and> soRecoveryNotBeforeMilli record = maxInt64 then
            ((record, NoReplyRetry, Some (NewErr ''recovery deadline is exhausted'')), w)
          else
            let notBefore = (if candidate \<le> soRecoveryNotBeforeMilli record
                             then soRecoveryNotBeforeMilli record + 1 else candidate);
                failed = record\<lparr>soPostExpiryNoReplyAttempts := attempts, soRecoveryNotBeforeMilli := notBefore\<rparr>
            in (case opsTransition d record failed w of
                  (Some x, w) \<Rightarrow> (case reconcileRecoveryConflict d rid record x w of
                      ((_, Some y), w) \<Rightarrow> ((record, NoReplyRetry, Some y), w)
                    | ((True, None), w) \<Rightarrow> ((record, NoReplyComplete, None), w)
                    | ((False, None), w) \<Rightarrow> ((record, NoReplyReload, None), w))
                | (None, w) \<Rightarrow>
                    if attempts < nativeSessionRecoveryAbandonAttempts then ((failed, NoReplyRetry, None), w)
                    else ((failed, NoReplyAbandon, None), w)))"

section \<open>One pass of the recovery loop\<close>

text \<open>The status switch: a terminal or prepared record is settled here, a mapped one starts closing.\<close>

definition settleStatus ::
  "'w ops \<Rightarrow> string \<Rightarrow> SessionOperationRecord \<Rightarrow> 'w \<Rightarrow> (loopstep + SessionOperationRecord) \<times> 'w" where
  "settleStatus d rid record w =
     (if soStatus record = SessionOperationCanceled \<or> soStatus record = SessionOperationClosed then
        (case opsDelete d record w of
           (Some x, w) \<Rightarrow> (case afterLoss id (reconcileRecoveryConflict d rid record x w) of (l, w) \<Rightarrow> (Inl l, w))
         | (None, w) \<Rightarrow> (Inl (Return None), w))
      else if soStatus record = SessionOperationPrepared then
        (let next = record\<lparr>soStatus := SessionOperationCanceled\<rparr> in
         case opsTransition d record next w of
           (Some x, w) \<Rightarrow> (case afterLoss id (reconcileRecoveryConflict d rid record x w) of (l, w) \<Rightarrow> (Inl l, w))
         | (None, w) \<Rightarrow> (case opsDelete d next w of
               (Some x, w) \<Rightarrow> (case afterLoss id (reconcileRecoveryConflict d rid next x w) of (l, w) \<Rightarrow> (Inl l, w))
             | (None, w) \<Rightarrow> (Inl (Return None), w)))
      else if soStatus record = SessionOperationMapped then
        (let next = record\<lparr>soStatus := SessionOperationClosing\<rparr> in
         case opsTransition d record next w of
           (Some x, w) \<Rightarrow> (case afterLoss id (reconcileRecoveryConflict d rid record x w) of (l, w) \<Rightarrow> (Inl l, w))
         | (None, w) \<Rightarrow> (Inr next, w))
      else if soStatus record = SessionOperationDispatching \<or> soStatus record = SessionOperationClosing then
        (Inr record, w)
      else (Inl (Return (Some (conflict ''unsupported recovery state''))), w))"

text \<open>The persisted deadline: an escalated one is honored by returning, any other by a bounded wait.\<close>

definition waitDeadline ::
  "'w ops \<Rightarrow> SessionOperationRecord \<Rightarrow> 'w \<Rightarrow> (loopstep + time) \<times> 'w" where
  "waitDeadline d record w = (case opsNow d w of (now, w) \<Rightarrow>
     if unixMilli now < soRecoveryNotBeforeMilli record then
       (let waitMillis = soRecoveryNotBeforeMilli record - unixMilli now in
        if 0 < soPostExpiryNoReplyAttempts record \<and>
           milliseconds nativeSessionRecoveryMaxDelay < waitMillis \<and>
           waitMillis \<le> milliseconds nativeSessionRecoveryNoReplyMaxDelay then
          (Inl (Return (Some (Errorf ''next attempt'' (Sentinel SRecoveryDeferred)))), w)
        else
          let waitMillis = (if milliseconds nativeSessionRecoveryMaxDelay < waitMillis
                            then milliseconds nativeSessionRecoveryMaxDelay else waitMillis)
          in (case opsWait d (waitMillis * millisecond) w of
                (Some x, w) \<Rightarrow> (Inl (Return (Some x)), w)
              | (None, w) \<Rightarrow> (case opsNow d w of (now, w) \<Rightarrow> (Inr now, w))))
     else (Inr now, w))"

text \<open>The attempt is counted durably before its packet leaves.\<close>

definition countAttempt ::
  "'w ops \<Rightarrow> string \<Rightarrow> SessionOperationRecord \<Rightarrow> time \<Rightarrow> 'w \<Rightarrow>
   (loopstep + SessionOperationRecord) \<times> 'w" where
  "countAttempt d rid record now w =
     (if soRecoveryAttempt record = maxUint32 then
        (Inl (Return (Some (NewErr ''recovery attempt counter is exhausted''))), w)
      else
        let n = soRecoveryAttempt record + 1;
            candidate = unixMilli (now + nativeSessionRecoveryBackoff n)
        in if candidate \<le> soRecoveryNotBeforeMilli record \<and> soRecoveryNotBeforeMilli record = maxInt64 then
             (Inl (Return (Some (NewErr ''recovery deadline is exhausted''))), w)
           else
             let notBefore = (if candidate \<le> soRecoveryNotBeforeMilli record
                              then soRecoveryNotBeforeMilli record + 1 else candidate);
                 attempt = record\<lparr>soRecoveryAttempt := n, soRecoveryNotBeforeMilli := notBefore\<rparr>
             in (case opsTransition d record attempt w of
                   (Some x, w) \<Rightarrow>
                     (case afterLoss (Errorf ''persist native session recovery backoff'')
                             (reconcileRecoveryConflict d rid record x w) of (l, w) \<Rightarrow> (Inl l, w))
                 | (None, w) \<Rightarrow> (Inr attempt, w)))"

text \<open>
  The exchange with the pinned endpoint and, when that stayed silent, one more with the current
  endpoint of the same cell. The result carries the record (moved when the current endpoint
  answered), the outcome that counts, and whether its silence may count toward abandonment.
\<close>

definition exchangeWithRefence ::
  "'w ops \<Rightarrow> string \<Rightarrow> SessionOperationRecord \<Rightarrow> 'w \<Rightarrow>
   (loopstep + SessionOperationRecord \<times> exchange \<times> bool) \<times> 'w" where
  "exchangeWithRefence d rid record w =
     (case opsExchange d (soOperation record) (soRecoveryEndpoint record) w of ((result, e), w) \<Rightarrow>
      let countable = isNativeSessionCountableSilence e in
      if e = None \<or> \<not> isNativeSessionNoReplyError e then (Inr (record, (result, e), countable), w)
      else (case opsCtxErr d w of
          (Some c, w) \<Rightarrow> (Inr (record, (result, e), countable), w)
        | (None, w) \<Rightarrow> (case opsAssignment d w of (assignment, w) \<Rightarrow>
            (case nativeSessionRefenceEndpoint assignment record of
               None \<Rightarrow> (Inr (record, (result, e), countable), w)
             | Some current \<Rightarrow>
               (case opsExchange d (soOperation record) current w of ((refenced, re), w) \<Rightarrow>
                (case opsCtxErr d w of (ctxErr, w) \<Rightarrow>
                 if nativeSessionEndpointAnswered refenced re \<and> ctxErr = None then
                   (let moved = record\<lparr>soRecoveryEndpoint := current\<rparr> in
                    case opsTransition d record moved w of
                      (Some x, w) \<Rightarrow>
                        (if re \<noteq> None \<and> asUnexpected (the re) \<noteq> None then
                           (Inl (Return (Some (Errorf ''persist re-fenced recovery endpoint'' x))), w)
                         else (case afterLoss (Errorf ''persist re-fenced recovery endpoint'')
                                 (reconcileRecoveryConflict d rid record x w) of (l, w) \<Rightarrow> (Inl l, w)))
                    | (None, w) \<Rightarrow>
                        (Inr (moved, (refenced, re), isNativeSessionCountableSilence re), w))
                 else if isNativeSessionNoReplyError re \<and> ctxErr = None then
                   (Inr (record, (result, e), countable \<and> isNativeSessionCountableSilence re), w)
                 else (case opsCtxErr d w of (late, w) \<Rightarrow>
                   (Inl (Return (Some (Errorf ''recover native session operation''
                         (the (errorsJoin [e, re, late]))))), w))))))))"

text \<open>A failed exchange that carried no unexpected admission.\<close>

definition silentOutcome ::
  "'w ops \<Rightarrow> string \<Rightarrow> SessionOperationRecord \<Rightarrow> err \<Rightarrow> bool \<Rightarrow> 'w \<Rightarrow> loopstep \<times> 'w" where
  "silentOutcome d rid record e countable w =
     (case opsCtxErr d w of (ctxErr, w) \<Rightarrow>
      if \<not> countable \<or> ctxErr \<noteq> None then
        (Return (Some (Errorf ''recover native session operation'' e)), w)
      else (case countPostExpiryNoReply d rid record w of ((counted, disposition, countErr), w) \<Rightarrow>
        (case countErr of
           Some x \<Rightarrow> (Return (Some (Errorf ''persist native session recovery no-reply failure'' x)), w)
         | None \<Rightarrow> (case disposition of
             NoReplyComplete \<Rightarrow> (Return None, w)
           | NoReplyReload \<Rightarrow> (Continue, w)
           | NoReplyAbandon \<Rightarrow>
               afterFinish (finishOperation d rid counted ''persist abandoned native session operation'' w)
           | NoReplyRetry \<Rightarrow> (Return (Some (Errorf ''recover native session operation'' e)), w)))))"

text \<open>A recovery exchange that admitted: the receipt is preserved as MAPPED before any retry.\<close>

definition unexpectedOutcome ::
  "'w ops \<Rightarrow> SessionOperationRecord \<Rightarrow> NativeSessionOperationRecovery option \<Rightarrow> NativeSessionReceipt \<Rightarrow>
   'w \<Rightarrow> loopstep \<times> 'w" where
  "unexpectedOutcome d record result receipt w =
     (if result = None \<or> \<not> sameNativeSessionReceipt (rvUnexpectedAdmission (the result)) receipt then
        (Return (Some (conflict ''unexpected recovery admission receipt is incomplete'')), w)
      else if soStatus record \<noteq> SessionOperationDispatching \<or> soAdmission record \<noteq> None then
        (Return (Some (conflict ''recovery admitted over a non-dispatching operation'')), w)
      else let mapped = record\<lparr>soStatus := SessionOperationMapped,
             soAdmission := Some (admissionFromReceipt (the (rvUnexpectedAdmission (the result))))\<rparr>
        in (case opsTransition d record mapped w of
              (Some x, w) \<Rightarrow> (Return (Some (Errorf ''persist unexpected recovery admission'' x)), w)
            | (None, w) \<Rightarrow> (Continue, w)))"

definition concludeAttempt ::
  "'w ops \<Rightarrow> string \<Rightarrow> SessionOperationRecord \<Rightarrow> exchange \<Rightarrow> bool \<Rightarrow> 'w \<Rightarrow> loopstep \<times> 'w" where
  "concludeAttempt d rid record answer countable w = (case answer of
      (result, Some e) \<Rightarrow> (case asUnexpected e of
          None \<Rightarrow> silentOutcome d rid record e countable w
        | Some receipt \<Rightarrow> unexpectedOutcome d record result receipt w)
    | (None, None) \<Rightarrow> (Return (Some (NewErr ''server returned no result'')), w)
    | (Some result, None) \<Rightarrow>
        if \<not> rvComplete result then (Continue, w)
        else afterFinish (finishOperation d rid record ''persist recovered native session operation'' w))"

definition recoverAttempt ::
  "'w ops \<Rightarrow> string \<Rightarrow> SessionOperationRecord \<Rightarrow> 'w \<Rightarrow> loopstep \<times> 'w" where
  "recoverAttempt d rid record w = (case waitDeadline d record w of
      (Inl l, w) \<Rightarrow> (l, w)
    | (Inr now, w) \<Rightarrow> (case countAttempt d rid record now w of
        (Inl l, w) \<Rightarrow> (l, w)
      | (Inr attempt, w) \<Rightarrow> (case exchangeWithRefence d rid attempt w of
          (Inl l, w) \<Rightarrow> (l, w)
        | (Inr (record, answer, countable), w) \<Rightarrow> concludeAttempt d rid record answer countable w)))"

definition recoverPass :: "'w ops \<Rightarrow> string \<Rightarrow> string \<Rightarrow> 'w \<Rightarrow> loopstep \<times> 'w" where
  "recoverPass d rid opid w = (case loadOperation d rid opid w of
      ((_, Some x), w) \<Rightarrow> (Return (Some x), w)
    | ((None, None), w) \<Rightarrow> (Return None, w)
    | ((Some record, None), w) \<Rightarrow> (case settleStatus d rid record w of
        (Inl l, w) \<Rightarrow> (l, w)
      | (Inr record, w) \<Rightarrow> recoverAttempt d rid record w))"

text \<open>The loop itself; None where it never returns.\<close>

partial_function (option) recoverLoop :: "'w ops \<Rightarrow> string \<Rightarrow> string \<Rightarrow> 'w \<Rightarrow> (err option \<times> 'w) option" where
  "recoverLoop d rid opid w = (case recoverPass d rid opid w of
      (Return r, w) \<Rightarrow> Some (r, w)
    | (Continue, w) \<Rightarrow> recoverLoop d rid opid w)"

text \<open>\<open>runtimeOk\<close> is the argument check: context and binding present, a 32-byte key.\<close>

definition RecoverOperation ::
  "'w ops \<Rightarrow> bool \<Rightarrow> string \<Rightarrow> string \<Rightarrow> 'w \<Rightarrow> (err option \<times> 'w) option" where
  "RecoverOperation d runtimeOk rid opid w =
     (if \<not> runtimeOk \<or> opid = '''' then Some (Some (NewErr ''runtime is incomplete''), w)
      else recoverLoop d rid opid w)"

fun recoverRecords ::
  "'w ops \<Rightarrow> bool \<Rightarrow> string \<Rightarrow> string set \<Rightarrow> SessionOperationRecord list \<Rightarrow> err option \<Rightarrow> 'w \<Rightarrow>
   (err option \<times> 'w) option" where
  "recoverRecords d ok rid preserve [] recoveryErr w = Some (recoveryErr, w)"
| "recoverRecords d ok rid preserve (r # rs) recoveryErr w =
     (if soID r \<in> preserve then recoverRecords d ok rid preserve rs recoveryErr w
      else case RecoverOperation d ok rid (soID r) w of
          None \<Rightarrow> None
        | Some (x, w) \<Rightarrow> recoverRecords d ok rid preserve rs
            (case x of None \<Rightarrow> recoveryErr | Some _ \<Rightarrow> errorsJoin [recoveryErr, x]) w)"

definition RecoverPending ::
  "'w ops \<Rightarrow> bool \<Rightarrow> string \<Rightarrow> string set \<Rightarrow> 'w \<Rightarrow> (err option \<times> 'w) option" where
  "RecoverPending d runtimeOk rid preserve w =
     (if \<not> runtimeOk then Some (Some (NewErr ''runtime is incomplete''), w)
      else case opsLoad d rid w of
          ((_, Some x), w) \<Rightarrow> Some (Some x, w)
        | ((records, None), w) \<Rightarrow> recoverRecords d runtimeOk rid preserve records None w)"

definition Retire ::
  "'w ops \<Rightarrow> bool \<Rightarrow> string \<Rightarrow> string \<Rightarrow> NativeSessionReceipt \<Rightarrow> 'w \<Rightarrow> (err option \<times> 'w) option" where
  "Retire d runtimeOk rid opid receipt w = (case loadOperation d rid opid w of
      ((_, Some x), w) \<Rightarrow> Some (Some x, w)
    | ((None, None), w) \<Rightarrow> Some (None, w)
    | ((Some record, None), w) \<Rightarrow>
        if (soStatus record \<noteq> SessionOperationMapped \<and> soStatus record \<noteq> SessionOperationClosing \<and>
            soStatus record \<noteq> SessionOperationClosed) \<or>
           soAdmission record \<noteq> Some (admissionFromReceipt receipt) then
          Some (Some (conflict ''live receipt does not match durable operation''), w)
        else RecoverOperation d runtimeOk rid opid w)"

section \<open>Dispatch and admission\<close>

text \<open>
  \<open>prepareLiveNativeSessionOperation\<close> of qurl-go is the parameter \<open>prepare\<close>: from the inputs of the
  call it answers an operation and its recovery endpoint, or an error.
\<close>

record operationInput =
  inExpiresAtMillis :: millis
  inOwnerID :: string
  inPreparedAtMillis :: millis
  inProtectedResourceID :: string
  inResourceID :: string
  inRunAttempt :: uint64
  inRunID :: string

definition PrepareDispatch ::
  "codec \<Rightarrow> 'w ops \<Rightarrow> (operationInput \<Rightarrow> 'w \<Rightarrow> (NativeSessionOperation \<times> NHPUDPEndpoint) res \<times> 'w) \<Rightarrow> string \<Rightarrow>
   bool \<Rightarrow> string \<Rightarrow> string \<Rightarrow> string \<Rightarrow> uint64 \<Rightarrow> 'w \<Rightarrow> NativeSessionOperation res \<times> 'w" where
  "PrepareDispatch c d prepare owner runtimeOk knockRID rid runID runAttempt w =
     (if \<not> runtimeOk then (Inl (NewErr ''runtime is incomplete''), w)
      else case opsNow d w of (now, w) \<Rightarrow>
       (case prepare \<lparr>inExpiresAtMillis = unixMilli (now + nativeSessionOperationLifetime), inOwnerID = owner,
               inPreparedAtMillis = unixMilli now, inProtectedResourceID = rid, inResourceID = knockRID,
               inRunAttempt = runAttempt, inRunID = runID\<rparr> w of
          (Inl x, w) \<Rightarrow> (Inl (Errorf ''prepare native session operation'' x), w)
        | (Inr (operation, endpoint), w) \<Rightarrow>
            (case NewSessionOperationRecord c operation endpoint of
               Inl x \<Rightarrow> (Inl (Errorf ''build prepared native session operation'' x), w)
             | Inr record \<Rightarrow>
                 (case opsCreate d record w of
                    (Some x, w) \<Rightarrow> (Inl (Errorf ''persist prepared native session operation'' x), w)
                  | (None, w) \<Rightarrow>
                      (case opsTransition d record (record\<lparr>soStatus := SessionOperationDispatching\<rparr>) w of
                         (Some x, w) \<Rightarrow> (Inl (Errorf ''persist native session dispatch boundary'' x), w)
                       | (None, w) \<Rightarrow> (Inr operation, w))))))"

definition RecordMapped ::
  "'w ops \<Rightarrow> string \<Rightarrow> NativeSessionOperation \<Rightarrow> NativeSessionReceipt \<Rightarrow> 'w \<Rightarrow> err option \<times> 'w" where
  "RecordMapped d rid operation receipt w = (case loadOperation d rid (opOperationID operation) w of
      ((_, Some x), w) \<Rightarrow> (Some x, w)
    | ((None, None), w) \<Rightarrow> (Some (conflict ''dispatched operation changed before admission''), w)
    | ((Some record, None), w) \<Rightarrow>
        if soStatus record \<noteq> SessionOperationDispatching \<or> soOperation record \<noteq> operation then
          (Some (conflict ''dispatched operation changed before admission''), w)
        else (case opsTransition d record (record\<lparr>soStatus := SessionOperationMapped,
                     soAdmission := Some (admissionFromReceipt receipt)\<rparr>) w of
            (Some x, w) \<Rightarrow> (Some (Errorf ''persist mapped native session operation'' x), w)
          | (None, w) \<Rightarrow> (None, w)))"

definition ValidateNativeSessionOperationAuthority :: "string \<Rightarrow> err option" where
  "ValidateNativeSessionOperationAuthority owner =
     (if owner = '''' \<or> 256 < length owner \<or> trimSpace owner \<noteq> owner \<or>
         containsAny owner [CHR 0x0D, CHR 0x0A, CHR 0x00] then
        Some (NewErr ''build native session operations: owner ID is invalid'')
      else None)"

end
