(* ===== verification/Recovery_Contract.thy ===== *)
theory Recovery_Contract
  imports Recovery
begin

text \<open>
  The interface between recovery and its world, as a locale: what the journal, the clock and the
  exchange promise, and what recovery must respect at each call. Inside the locale the recovery loop
  is verified once; \<open>Recovery_Host\<close> interprets it on the journal of \<open>Journal\<close> with arbitrary other
  processes, clock and network.
\<close>

section \<open>Backoffs\<close>

lemmas recovery_delays = nativeSessionRecoveryInitialDelay_def nativeSessionRecoveryMaxDelay_def
  nativeSessionRecoveryNoReplyMaxDelay_def duration_defs

text \<open>The first loop in closed form: 100 ms doubled per further attempt, capped at 2 s.\<close>

lemma recoveryBackoffLoop_closed:
  "0 < delay \<Longrightarrow> delay \<le> nativeSessionRecoveryMaxDelay \<Longrightarrow>
   recoveryBackoffLoop n s delay = min (delay * 2 ^ (n - s)) nativeSessionRecoveryMaxDelay"
proof (induction n s delay rule: recoveryBackoffLoop.induct)
  case (1 n s delay)
  show ?case
  proof (cases "s < n \<and> delay < nativeSessionRecoveryMaxDelay")
    case False
    then have "recoveryBackoffLoop n s delay = delay" by (auto simp: recoveryBackoffLoop.simps [of n s delay])
    moreover have "min (delay * 2 ^ (n - s)) nativeSessionRecoveryMaxDelay = delay"
    proof (cases "s < n")
      case True
      with False 1 have "delay = nativeSessionRecoveryMaxDelay" by simp
      then show ?thesis using 1 by (simp add: min_absorb2 mult_le_cancel_left1)
    qed (use 1 in simp)
    ultimately show ?thesis by simp
  next
    case True
    then obtain k where k: "n - s = Suc k" "n - Suc s = k" by (metis Suc_diff_Suc)
    show ?thesis
    proof (cases "nativeSessionRecoveryMaxDelay < delay * 2")
      case over: True
      have "delay * 2 \<le> delay * 2 ^ (n - s)" using 1 k by (simp add: mult_le_cancel_left)
      then have "nativeSessionRecoveryMaxDelay \<le> delay * 2 ^ (n - s)" using over by linarith
      then show ?thesis using True over by (simp add: recoveryBackoffLoop.simps [of n s delay] min_absorb2)
    next
      case False
      then have "recoveryBackoffLoop n s delay = min (delay * 2 * 2 ^ (n - Suc s)) nativeSessionRecoveryMaxDelay"
        using True 1 by (simp add: recoveryBackoffLoop.simps [of n s delay])
      then show ?thesis using k by (simp add: mult.assoc)
    qed
  qed
qed

lemma recoveryBackoff_closed:
  "nativeSessionRecoveryBackoff a =
     min (nativeSessionRecoveryInitialDelay * 2 ^ (unat a - 1)) nativeSessionRecoveryMaxDelay"
  unfolding nativeSessionRecoveryBackoff_def
  by (rule recoveryBackoffLoop_closed) (simp_all add: recovery_delays)

lemma noReplyBackoffLoop_closed:
  "0 < delay \<Longrightarrow> delay \<le> nativeSessionRecoveryNoReplyMaxDelay \<Longrightarrow>
   noReplyBackoffLoop n s delay = min (delay * 2 ^ (n - s)) nativeSessionRecoveryNoReplyMaxDelay"
proof (induction n s delay rule: noReplyBackoffLoop.induct)
  case (1 n s delay)
  show ?case
  proof (cases "s < n \<and> delay < nativeSessionRecoveryNoReplyMaxDelay")
    case False
    then have "noReplyBackoffLoop n s delay = delay" by (auto simp: noReplyBackoffLoop.simps [of n s delay])
    moreover have "min (delay * 2 ^ (n - s)) nativeSessionRecoveryNoReplyMaxDelay = delay"
    proof (cases "s < n")
      case True
      with False 1 have "delay = nativeSessionRecoveryNoReplyMaxDelay" by simp
      then show ?thesis using 1 by (simp add: min_absorb2 mult_le_cancel_left1)
    qed (use 1 in simp)
    ultimately show ?thesis by simp
  next
    case True
    then obtain k where k: "n - s = Suc k" "n - Suc s = k" by (metis Suc_diff_Suc)
    let ?M = nativeSessionRecoveryNoReplyMaxDelay
    have M: "0 < ?M" by (simp add: recovery_delays)
    have "noReplyBackoffLoop n s delay = min (min (delay * 2) ?M * 2 ^ k) ?M"
      using True 1 k M by (simp add: noReplyBackoffLoop.simps [of n s delay])
    also have "\<dots> = min (delay * 2 ^ Suc k) ?M"
    proof (cases "delay * 2 \<le> ?M")
      case False
      have "?M \<le> ?M * 2 ^ k" "delay * 2 \<le> delay * 2 ^ Suc k"
        using M 1 by (simp_all add: mult_le_cancel_left1)
      then show ?thesis using False by simp
    qed (simp add: mult.assoc)
    finally show ?thesis using k by simp
  qed
qed

lemma noReplyBackoff_closed:
  "nativeSessionRecoveryNoReplyBackoff f =
     min (nativeSessionRecoveryMaxDelay * 2 ^ unat f) nativeSessionRecoveryNoReplyMaxDelay"
proof -
  have "nativeSessionRecoveryNoReplyBackoff f =
      min (nativeSessionRecoveryMaxDelay * 2 ^ (unat f - 0)) nativeSessionRecoveryNoReplyMaxDelay"
    unfolding nativeSessionRecoveryNoReplyBackoff_def
    by (rule noReplyBackoffLoop_closed) (simp_all add: recovery_delays)
  then show ?thesis by simp
qed

lemma backoff_bounds:
  "0 \<le> nativeSessionRecoveryBackoff a" "nativeSessionRecoveryBackoff a \<le> 30 * second"
  "0 \<le> nativeSessionRecoveryNoReplyBackoff f" "nativeSessionRecoveryNoReplyBackoff f \<le> 30 * second"
  unfolding recoveryBackoff_closed noReplyBackoff_closed
  by (simp_all add: recovery_delays)

section \<open>Clock values and deadlines\<close>

definition clockRange :: "time \<Rightarrow> bool" where
  "clockRange t \<longleftrightarrow> 0 \<le> t \<and> unixMilli t \<le> maxInt64 - 60000"

lemma deadline_range:
  assumes "clockRange t" "0 \<le> b" "b \<le> 30 * second"
  shows "0 \<le> unixMilli (t + b)" "unixMilli (t + b) < maxInt64"
proof -
  have "(t + b) div 1000000 \<le> (t + 30 * second) div 1000000" using assms by (intro zdiv_mono1) auto
  also have "\<dots> = t div 1000000 + 30000" by (simp add: second_def)
  finally show "unixMilli (t + b) < maxInt64" using assms(1) by (simp add: unixMilli_def clockRange_def)
  show "0 \<le> unixMilli (t + b)" using assms by (simp add: unixMilli_def clockRange_def pos_imp_zdiv_nonneg_iff)
qed

section \<open>Transitions recovery makes of a valid record\<close>

lemma cancel_valid:
  "validSessionOperationRecord c r \<Longrightarrow> soAdmission r = None \<Longrightarrow>
   validSessionOperationRecord c (r\<lparr>soStatus := SessionOperationCanceled\<rparr>)"
  by (simp add: validSessionOperationRecord_def split: if_splits)

lemma status_admission:
  assumes "validSessionOperationRecord c r"
  shows "soStatus r = SessionOperationPrepared \<Longrightarrow> soAdmission r = None"
    "soStatus r = SessionOperationDispatching \<Longrightarrow> soAdmission r = None"
    "soStatus r = SessionOperationMapped \<Longrightarrow> soAdmission r \<noteq> None"
    "soStatus r = SessionOperationClosing \<Longrightarrow> soAdmission r \<noteq> None"
  using validRecord_admission [OF assms] by (auto simp: validSessionOperationAdmission_def split: option.splits)

section \<open>The contract\<close>

text \<open>
  \<open>recs w\<close> is the journal, \<open>clk w\<close> the last clock value read, \<open>paid w\<close> the number of exchanges the
  last durably counted attempt still allows, \<open>fin w\<close> that the server completed the operation. A call
  must respect its guard; the world keeps its invariant \<open>ok\<close> and answers as stated.
\<close>

definition wf_journals :: "codec \<Rightarrow> journals \<Rightarrow> bool" where
  "wf_journals c S \<longleftrightarrow> (\<forall>rid. distinct (map soID (S rid)) \<and>
     (\<forall>r \<in> set (S rid). validSessionOperationRecord c r \<and> int64Record r \<and>
        opProtectedResourceID (soOperation r) = rid))"

definition receipts_range :: "exchange \<Rightarrow> bool" where
  "receipts_range x \<longleftrightarrow> (case fst x of None \<Rightarrow> True
     | Some r \<Rightarrow> (case rvUnexpectedAdmission r of None \<Rightarrow> True
         | Some rc \<Rightarrow> rcSessionIssuedAtMillis rc \<le> maxInt64))"

text \<open>A step to a terminal status needs the server's completion or a durable count of five silences.\<close>

definition terminalGuard :: "bool \<Rightarrow> SessionOperationRecord \<Rightarrow> SessionOperationRecord \<Rightarrow> bool" where
  "terminalGuard finished p n \<longleftrightarrow>
     (terminal n \<longrightarrow> soStatus p = SessionOperationPrepared \<or> finished \<or>
        nativeSessionRecoveryAbandonAttempts \<le> soPostExpiryNoReplyAttempts p)"

text \<open>Silence is counted only when the last clock reading is past the operation's margin.\<close>

definition countGuard :: "time \<Rightarrow> SessionOperationRecord \<Rightarrow> SessionOperationRecord \<Rightarrow> bool" where
  "countGuard now p n \<longleftrightarrow>
     (soPostExpiryNoReplyAttempts n \<noteq> soPostExpiryNoReplyAttempts p \<longrightarrow>
        nativeSessionOperationPastAbandonMargin (soOperation p) now)"

locale recovery_world =
  fixes c :: codec and d :: "'w ops" and recs :: "'w \<Rightarrow> journals" and ok :: "'w \<Rightarrow> bool"
    and clk :: "'w \<Rightarrow> time" and paid :: "'w \<Rightarrow> nat" and fin :: "'w \<Rightarrow> bool"
    and rid :: string and opid :: string
  assumes recs_wf: "ok w \<Longrightarrow> wf_journals c (recs w)"
    and load_law: "ok w \<Longrightarrow> opsLoad d rid w = ((rs, x), w') \<Longrightarrow> ok w' \<and> (x = None \<longrightarrow> rs = recs w' rid)"
    and transition_law: "\<lbrakk>ok w; soID p = opid; opProtectedResourceID (soOperation p) = rid;
        soOperation n = soOperation p; int64Record p; int64Record n; terminalGuard (fin w) p n;
        countGuard (clk w) p n; opsTransition d p n w = (x, w')\<rbrakk> \<Longrightarrow>
        ok w' \<and> (fin w \<longrightarrow> fin w') \<and> (x = None \<longrightarrow> n \<in> set (recs w' rid) \<and>
          validSessionOperationTransition c p n \<and>
          (soRecoveryAttempt n = soRecoveryAttempt p + 1 \<longrightarrow> 2 \<le> paid w'))"
    and delete_law: "\<lbrakk>ok w; soID p = opid; opProtectedResourceID (soOperation p) = rid;
        validSessionOperationRecord c p; int64Record p; terminal p; opsDelete d p w = (x, w')\<rbrakk> \<Longrightarrow>
        ok w' \<and> (x = None \<longrightarrow> opid \<notin> soID ` set (recs w' rid))"
    and now_law: "ok w \<Longrightarrow> opsNow d w = (t, w') \<Longrightarrow> ok w' \<and> clockRange t \<and> clk w' = t"
    and wait_law: "ok w \<Longrightarrow> opsWait d dur w = (x, w') \<Longrightarrow> ok w'"
    and ctx_law: "ok w \<Longrightarrow> opsCtxErr d w = (x, w') \<Longrightarrow>
        ok w' \<and> paid w' = paid w \<and> (fin w \<longrightarrow> fin w')"
    and assignment_law: "ok w \<Longrightarrow> opsAssignment d w = (asg, w') \<Longrightarrow>
        ok w' \<and> paid w' = paid w \<and> (fin w \<longrightarrow> fin w')"
    and exchange_law: "\<lbrakk>ok w; opOperationID op = opid; validRecoveryEndpoint ep; 0 < paid w;
        opsExchange d op ep w = (a, w')\<rbrakk> \<Longrightarrow>
        ok w' \<and> paid w \<le> Suc (paid w') \<and> receipts_range a \<and>
        (snd a = None \<longrightarrow> (\<exists>r. fst a = Some r \<and> rvComplete r) \<longrightarrow> fin w')"
begin

definition mine :: "SessionOperationRecord \<Rightarrow> bool" where
  "mine r \<longleftrightarrow> validSessionOperationRecord c r \<and> int64Record r \<and> soID r = opid \<and>
     opProtectedResourceID (soOperation r) = rid"

definition absent :: "'w \<Rightarrow> bool" where
  "absent w \<longleftrightarrow> opid \<notin> soID ` set (recs w rid)"

definition good_step :: "loopstep \<times> 'w \<Rightarrow> bool" where
  "good_step s \<longleftrightarrow> ok (snd s) \<and> (fst s = Return None \<longrightarrow> absent (snd s))"

lemma mineD:
  "mine r \<Longrightarrow> validSessionOperationRecord c r" "mine r \<Longrightarrow> int64Record r" "mine r \<Longrightarrow> soID r = opid"
  "mine r \<Longrightarrow> opProtectedResourceID (soOperation r) = rid"
  by (simp_all add: mine_def)

lemma transition_mine:
  assumes "ok w" "mine p" "soOperation n = soOperation p" "int64Record n" "terminalGuard (fin w) p n"
    "countGuard (clk w) p n" "opsTransition d p n w = (x, w')"
  shows "ok w'" "fin w \<Longrightarrow> fin w'" "x = None \<Longrightarrow> mine n"
    "x = None \<Longrightarrow> soRecoveryAttempt n = soRecoveryAttempt p + 1 \<Longrightarrow> 2 \<le> paid w'"
  using transition_law [OF assms(1) mineD(3) [OF assms(2)] mineD(4) [OF assms(2)] assms(3) mineD(2) [OF assms(2)]
      assms(4-7)] assms(2-4)
  by (auto simp: mine_def dest: validTransitionD(2))

lemma delete_mine:
  assumes "ok w" "mine t" "terminal t" "opsDelete d t w = (x, w')"
  shows "ok w'" "x = None \<Longrightarrow> absent w'"
  using delete_law [OF assms(1) mineD(3,4,1,2) [OF assms(2)] assms(3,4)] by (auto simp: absent_def)

lemma loadOperation_spec:
  assumes "ok w" "loadOperation d rid opid w = ((ro, x), w')"
  shows "ok w'" "x = None \<Longrightarrow> ro = None \<Longrightarrow> absent w'" "ro = Some r \<Longrightarrow> mine r" "x \<noteq> None \<Longrightarrow> ro = None"
proof -
  obtain rs y w1 where l: "opsLoad d rid w = ((rs, y), w1)" by (metis prod.exhaust)
  note ll = load_law [OF assms(1) l]
  have w: "w' = w1" "x = y" "ro = (if y = None then List.find (\<lambda>r. soID r = opid) rs else None)"
    using assms(2) l by (auto simp: loadOperation_def split: option.splits)
  show "ok w'" using ll w by simp
  show "absent w'" if "x = None" "ro = None"
    using that ll w by (auto simp: absent_def find_None_iff)
  show "mine r" if "ro = Some r"
  proof -
    have "r \<in> set (recs w' rid)" "soID r = opid"
      using that ll w by (auto simp: find_Some_iff split: if_splits)
    then show ?thesis using recs_wf [of w'] ll w by (auto simp: wf_journals_def mine_def)
  qed
  show "x \<noteq> None \<Longrightarrow> ro = None" using w by auto
qed

lemma reconcile_spec:
  assumes "ok w" "soID previous = opid" "reconcileRecoveryConflict d rid previous e w = ((complete, x), w')"
  shows "ok w'" "x = None \<Longrightarrow> complete \<Longrightarrow> absent w'"
proof -
  obtain ro y w1 where l: "loadOperation d rid opid w = ((ro, y), w1)" by (metis prod.exhaust)
  note s = loadOperation_spec [OF assms(1) l]
  have "ok w' \<and> (x = None \<longrightarrow> complete \<longrightarrow> absent w')"
    using assms(1,2,3) l s
    by (auto simp: reconcileRecoveryConflict_def split: if_splits option.splits)
  then show "ok w'" "x = None \<Longrightarrow> complete \<Longrightarrow> absent w'" by auto
qed

lemma afterLoss_good:
  assumes "ok w" "soID p = opid"
  shows "good_step (afterLoss wrap (reconcileRecoveryConflict d rid p e w))"
proof -
  obtain complete x w' where r: "reconcileRecoveryConflict d rid p e w = ((complete, x), w')" by (metis prod.exhaust)
  show ?thesis using reconcile_spec [OF assms r] r
    by (auto simp: good_step_def afterLoss_def split: option.splits)
qed

text \<open>The guards of the transitions recovery makes.\<close>

lemma status_guards [simp]:
  "terminalGuard f p (p\<lparr>soStatus := SessionOperationClosing\<rparr>)"
  "terminalGuard f p (p\<lparr>soStatus := SessionOperationMapped, soAdmission := a\<rparr>)"
  "soStatus p = SessionOperationPrepared \<Longrightarrow> terminalGuard f p n"
  "countGuard t p (p\<lparr>soStatus := s\<rparr>)"
  "countGuard t p (p\<lparr>soStatus := s, soAdmission := a\<rparr>)"
  "countGuard t p (p\<lparr>soRecoveryEndpoint := ep\<rparr>)"
  "countGuard t p (p\<lparr>soRecoveryAttempt := b, soRecoveryNotBeforeMilli := m\<rparr>)"
  by (simp_all add: terminalGuard_def countGuard_def terminal_def)

lemma active_guard:
  "\<not> terminal p \<Longrightarrow> soStatus n = soStatus p \<Longrightarrow> terminalGuard f p n"
  by (simp add: terminalGuard_def terminal_def)

lemma settleStatus_spec:
  assumes "ok w" "mine r" "settleStatus d rid r w = (a, w')"
  shows "case a of Inl l \<Rightarrow> good_step (l, w')
     | Inr r' \<Rightarrow> ok w' \<and> mine r' \<and> soStatus r' \<in> {SessionOperationDispatching, SessionOperationClosing}"
proof -
  let ?c = "r\<lparr>soStatus := SessionOperationCanceled\<rparr>" and ?l = "r\<lparr>soStatus := SessionOperationClosing\<rparr>"
  have int: "int64Record ?c" "int64Record ?l" using mineD(2) [OF assms(2)] by (simp_all add: int64Record_def)
  consider (over) "terminal r" | (prep) "soStatus r = SessionOperationPrepared"
    | (map) "soStatus r = SessionOperationMapped"
    | (rest) "\<not> terminal r" "soStatus r \<noteq> SessionOperationPrepared" "soStatus r \<noteq> SessionOperationMapped"
    by blast
  then show ?thesis
  proof cases
    case over
    obtain x w1 where x: "opsDelete d r w = (x, w1)" by fastforce
    note dl = delete_mine [OF assms(1,2) over x]
    show ?thesis
    proof (cases x)
      case None
      then show ?thesis using assms(3) x dl over by (auto simp: settleStatus_def terminal_def good_step_def)
    next
      case (Some e)
      then show ?thesis
        using assms(3) x over afterLoss_good [OF dl(1) mineD(3) [OF assms(2)], of id e]
        by (auto simp: settleStatus_def terminal_def split: prod.splits)
    qed
  next
    case prep
    obtain x w1 where x: "opsTransition d r ?c w = (x, w1)" by fastforce
    note tr = transition_mine [OF assms(1,2) _ int(1) _ _ x]
    have ok1: "ok w1" using tr(1) prep by simp
    show ?thesis
    proof (cases x)
      case (Some e)
      then show ?thesis
        using assms(3) x prep afterLoss_good [OF ok1 mineD(3) [OF assms(2)], of id e]
        by (auto simp: settleStatus_def split: prod.splits)
    next
      case None
      have m: "mine ?c" using tr(3) None prep by simp
      obtain y w2 where y: "opsDelete d ?c w1 = (y, w2)" by fastforce
      note dl = delete_mine [OF ok1 m _ y]
      show ?thesis
      proof (cases y)
        case None
        then show ?thesis using assms(3) x y \<open>x = None\<close> prep dl
          by (auto simp: settleStatus_def terminal_def good_step_def)
      next
        case (Some e)
        then show ?thesis
          using assms(3) x y \<open>x = None\<close> prep afterLoss_good [OF dl(1) mineD(3) [OF m], of id e]
          by (auto simp: settleStatus_def terminal_def split: prod.splits)
      qed
    qed
  next
    case map
    obtain x w1 where x: "opsTransition d r ?l w = (x, w1)" by fastforce
    note tr = transition_mine [OF assms(1,2) _ int(2) _ _ x]
    have ok1: "ok w1" using tr(1) by simp
    show ?thesis
    proof (cases x)
      case (Some e)
      then show ?thesis
        using assms(3) x map afterLoss_good [OF ok1 mineD(3) [OF assms(2)], of id e]
        by (auto simp: settleStatus_def split: prod.splits)
    next
      case None
      then show ?thesis using assms(3) x map tr(3) ok1 by (auto simp: settleStatus_def)
    qed
  next
    case rest
    then show ?thesis using assms by (auto simp: settleStatus_def good_step_def terminal_def split: if_splits)
  qed
qed

lemma waitDeadline_spec:
  assumes "ok w" "waitDeadline d r w = (a, w')"
  shows "case a of Inl l \<Rightarrow> good_step (l, w') \<and> l \<noteq> Continue | Inr now \<Rightarrow> ok w' \<and> clockRange now"
proof -
  obtain t w1 where n: "opsNow d w = (t, w1)" by fastforce
  note nl = now_law [OF assms(1) n]
  define ms where "ms = (if milliseconds nativeSessionRecoveryMaxDelay < soRecoveryNotBeforeMilli r - unixMilli t
       then milliseconds nativeSessionRecoveryMaxDelay else soRecoveryNotBeforeMilli r - unixMilli t)"
  obtain x w2 where x: "opsWait d (ms * millisecond) w1 = (x, w2)" by fastforce
  obtain u w3 where u: "opsNow d w2 = (u, w3)" by fastforce
  have ok2: "ok w2" using wait_law [OF _ x] nl by blast
  have "(a, w') \<in> {(Inl (Return (Some (Errorf ''next attempt'' (Sentinel SRecoveryDeferred)))), w1), (Inr t, w1),
      (case x of Some e \<Rightarrow> (Inl (Return (Some e)), w2) | None \<Rightarrow> (Inr u, w3))}"
    using assms(2) n x u unfolding waitDeadline_def Let_def ms_def
    by (cases x) (simp_all split: if_splits)
  then show ?thesis using nl ok2 now_law [OF ok2 u] by (auto simp: good_step_def split: option.splits)
qed

lemma countAttempt_spec:
  assumes "ok w" "mine r" "\<not> terminal r" "clockRange now" "countAttempt d rid r now w = (a, w')"
  shows "case a of Inl l \<Rightarrow> good_step (l, w')
     | Inr r' \<Rightarrow> ok w' \<and> mine r' \<and> soStatus r' = soStatus r \<and> soAdmission r' = soAdmission r \<and> 2 \<le> paid w'"
proof -
  let ?n = "soRecoveryAttempt r + 1"
  define cand where "cand = unixMilli (now + nativeSessionRecoveryBackoff ?n)"
  define nb where "nb = (if cand \<le> soRecoveryNotBeforeMilli r then soRecoveryNotBeforeMilli r + 1 else cand)"
  define r' where "r' = r\<lparr>soRecoveryAttempt := ?n, soRecoveryNotBeforeMilli := nb\<rparr>"
  show ?thesis
  proof (cases "soRecoveryAttempt r = maxUint32 \<or> (cand \<le> soRecoveryNotBeforeMilli r \<and> soRecoveryNotBeforeMilli r = maxInt64)")
    case True
    then show ?thesis using assms(1,5) unfolding countAttempt_def cand_def Let_def
      by (auto simp: good_step_def split: if_splits)
  next
    case False
    obtain x w1 where x: "opsTransition d r r' w = (x, w1)" by fastforce
    have step: "(a, w') = (case x of Some e \<Rightarrow>
          (case afterLoss (Errorf ''persist native session recovery backoff'') (reconcileRecoveryConflict d rid r e w1) of
             (l, w) \<Rightarrow> (Inl l, w)) | None \<Rightarrow> (Inr r', w1))"
      using assms(5) False x unfolding countAttempt_def Let_def cand_def [symmetric] nb_def [symmetric] r'_def [symmetric]
      by (auto split: option.splits)
    have "cand < maxInt64" unfolding cand_def using assms(4) backoff_bounds by (intro deadline_range) auto
    moreover have "soRecoveryNotBeforeMilli r \<le> maxInt64"
      using mineD(2) [OF assms(2)] by (simp add: int64Record_def)
    ultimately have "nb \<le> maxInt64" using False by (auto simp: nb_def)
    then have "int64Record r'" using mineD(2) [OF assms(2)] by (simp add: int64Record_def r'_def)
    note tr = transition_mine [OF assms(1,2) _ this active_guard [OF assms(3)] _ x]
    have same: "soOperation r' = soOperation r" "soStatus r' = soStatus r" "countGuard (clk w) r r'"
      "soAdmission r' = soAdmission r" "soRecoveryAttempt r' = soRecoveryAttempt r + 1" by (simp_all add: r'_def)
    show ?thesis
    proof (cases x)
      case (Some e)
      then show ?thesis
        using step same tr(1) afterLoss_good [OF _ mineD(3) [OF assms(2)], of w1 "Errorf ''persist native session recovery backoff''" e]
        by (auto split: prod.splits)
    next
      case None
      then show ?thesis using step same tr by simp
    qed
  qed
qed

text \<open>After the exchange phase: the record is still ours, and a completion is on record.\<close>

definition answered_ok :: "'w \<Rightarrow> SessionOperationRecord \<times> exchange \<times> bool \<Rightarrow> string \<Rightarrow> bool" where
  "answered_ok w v status \<longleftrightarrow> (case v of (r, a, countable) \<Rightarrow> ok w \<and> mine r \<and> soStatus r = status \<and>
     receipts_range a \<and> (snd a = None \<longrightarrow> (\<exists>x. fst a = Some x \<and> rvComplete x) \<longrightarrow> fin w))"

lemma mine_exchange:
  assumes "mine r" "ok w" "0 < paid w" "validRecoveryEndpoint ep" "opsExchange d (soOperation r) ep w = (a, w')"
  shows "ok w'" "paid w \<le> Suc (paid w')" "receipts_range a"
    "snd a = None \<Longrightarrow> \<exists>r. fst a = Some r \<and> rvComplete r \<Longrightarrow> fin w'"
  using exchange_law [OF assms(2) mineD(3) [OF assms(1)] assms(4,3,5)] by auto

lemma refence_moves:
  assumes "mine r" "ok w" "\<not> terminal r" "receipts_range a"
    "snd a = None \<Longrightarrow> \<exists>r. fst a = Some r \<and> rvComplete r \<Longrightarrow> fin w"
    and "opsTransition d r (r\<lparr>soRecoveryEndpoint := ep\<rparr>) w = (x, w')"
  shows "case x of Some e \<Rightarrow> good_step (afterLoss wrap (reconcileRecoveryConflict d rid r e w')) \<and> ok w'
     | None \<Rightarrow> answered_ok w' (r\<lparr>soRecoveryEndpoint := ep\<rparr>, a, b) (soStatus r)"
proof -
  let ?m = "r\<lparr>soRecoveryEndpoint := ep\<rparr>"
  have int: "int64Record ?m" using mineD(2) [OF assms(1)] by (simp add: int64Record_def)
  note tr = transition_mine [OF assms(2,1) _ int active_guard [OF assms(3)] _ assms(6)]
  show ?thesis
  proof (cases x)
    case (Some e)
    then show ?thesis using tr(1) afterLoss_good [OF _ mineD(3) [OF assms(1)], of w' wrap e] by simp
  next
    case None
    then show ?thesis using tr assms(4,5) by (simp add: answered_ok_def)
  qed
qed

lemma refenceEndpoint_valid:
  "nativeSessionRefenceEndpoint asg r = Some ep \<Longrightarrow>
     validRecoveryEndpoint ep \<and> fst asg = opCellID (soOperation r) \<and> ep = snd asg \<and> ep \<noteq> soRecoveryEndpoint r"
  by (auto simp: nativeSessionRefenceEndpoint_def split: prod.splits if_splits)

lemma exchange_spec:
  assumes "ok w" "mine r" "\<not> terminal r" "2 \<le> paid w" "exchangeWithRefence d rid r w = (v, w')"
  shows "case v of Inl l \<Rightarrow> good_step (l, w') | Inr u \<Rightarrow> answered_ok w' u (soStatus r)"
proof -
  have ep: "validRecoveryEndpoint (soRecoveryEndpoint r)" using validRecordD(3) mineD(1) [OF assms(2)] by blast
  obtain a w1 where x1: "opsExchange d (soOperation r) (soRecoveryEndpoint r) w = (a, w1)" by fastforce
  obtain result e where a: "a = (result, e)" by fastforce
  note e1 = mine_exchange [OF assms(2,1) _ ep x1]
  have pinned: "answered_ok w2 (r, a, b) (soStatus r)" if "ok w2" "fin w1 \<longrightarrow> fin w2" for w2 b
    using that e1 assms(2,4) by (simp add: answered_ok_def)
  have silent: "answered_ok w2 (r, a, b) (soStatus r)" if "ok w2" "e \<noteq> None" for w2 b
    using that e1 assms(2,4) a by (auto simp: answered_ok_def)
  show ?thesis
  proof (cases "e = None \<or> \<not> isNativeSessionNoReplyError e")
    case True
    then have "v = Inr (r, a, isNativeSessionCountableSilence e)" "w' = w1"
      using assms(5) x1 a by (auto simp: exchangeWithRefence_def Let_def)
    then show ?thesis using pinned e1(1) assms(4) by simp
  next
    case no: False
    obtain cx w2 where c: "opsCtxErr d w1 = (cx, w2)" by fastforce
    have c2: "ok w2" "paid w2 = paid w1" using ctx_law [OF _ c] e1(1) assms(4) by auto
    obtain asg w3 where s: "opsAssignment d w2 = (asg, w3)" by fastforce
    have s3: "ok w3" "paid w3 = paid w1" using assignment_law [OF c2(1) s] c2(2) by auto
    show ?thesis
    proof (cases "cx \<noteq> None \<or> nativeSessionRefenceEndpoint asg r = None")
      case True
      then have "(v, w') \<in> {(Inr (r, a, isNativeSessionCountableSilence e), w2),
          (Inr (r, a, isNativeSessionCountableSilence e), w3)}"
        using assms(5) x1 a no c s by (auto simp: exchangeWithRefence_def Let_def split: option.splits)
      then show ?thesis using silent c2(1) s3(1) no by auto
    next
      case False
      then obtain cur where cur: "nativeSessionRefenceEndpoint asg r = Some cur" "cx = None" by auto
      obtain b w4 where x4: "opsExchange d (soOperation r) cur w3 = (b, w4)" by fastforce
      obtain refenced re where b: "b = (refenced, re)" by fastforce
      have "0 < paid w3" using s3(2) e1(2) assms(4) by simp
      note e4 = mine_exchange [OF assms(2) s3(1) this conjunct1 [OF refenceEndpoint_valid [OF cur(1)]] x4]
      obtain cy w5 where c5: "opsCtxErr d w4 = (cy, w5)" by fastforce
      have k5: "ok w5" "fin w4 \<longrightarrow> fin w5" using ctx_law [OF e4(1) c5] by auto
      obtain cz w6 where c6: "opsCtxErr d w5 = (cz, w6)" by fastforce
      have k6: "ok w6" using ctx_law [OF k5(1) c6] by auto
      let ?m = "r\<lparr>soRecoveryEndpoint := cur\<rparr>"
      obtain x w7 where x7: "opsTransition d r ?m w5 = (x, w7)" by fastforce
      have fin5: "fin w5" if "snd b = None" "\<exists>r. fst b = Some r \<and> rvComplete r" using e4(4) that k5(2) by blast
      note mv = refence_moves [OF assms(2) k5(1) assms(3) e4(3) fin5 x7]
      have step: "(v, w') =
         (if nativeSessionEndpointAnswered refenced re \<and> cy = None then
            (case x of Some e' \<Rightarrow>
               (if re \<noteq> None \<and> asUnexpected (the re) \<noteq> None then
                  (Inl (Return (Some (Errorf ''persist re-fenced recovery endpoint'' e'))), w7)
                else (case afterLoss (Errorf ''persist re-fenced recovery endpoint'')
                        (reconcileRecoveryConflict d rid r e' w7) of (l, w) \<Rightarrow> (Inl l, w)))
             | None \<Rightarrow> (Inr (?m, b, isNativeSessionCountableSilence re), w7))
          else if isNativeSessionNoReplyError re \<and> cy = None then
            (Inr (r, a, isNativeSessionCountableSilence e \<and> isNativeSessionCountableSilence re), w5)
          else (Inl (Return (Some (Errorf ''recover native session operation'' (the (errorsJoin [e, re, cz]))))), w6))"
        using assms(5) x1 a no c s cur x4 b c5 c6 x7
        by (cases "nativeSessionEndpointAnswered refenced re"; cases "isNativeSessionNoReplyError re"; cases cy; cases x)
          (auto simp: exchangeWithRefence_def Let_def)
      show ?thesis
      proof (cases "nativeSessionEndpointAnswered refenced re \<and> cy = None")
        case True
        show ?thesis
        proof (cases x)
          case None
          then show ?thesis using step True mv by simp
        next
          case (Some e')
          then show ?thesis
            using step True mv [where wrap = "Errorf ''persist re-fenced recovery endpoint''"]
            by (auto simp: good_step_def split: if_splits prod.splits)
        qed
      next
        case False
        then show ?thesis using step silent k5(1) k6 no by (auto simp: good_step_def split: if_splits)
      qed
    qed
  qed
qed

lemma finish_spec:
  assumes "ok w" "mine r" "fin w \<or> nativeSessionRecoveryAbandonAttempts \<le> soPostExpiryNoReplyAttempts r"
    and "\<not> terminal r"
  shows "good_step (afterFinish (finishOperation d rid r m w))"
proof -
  define n where "n = r\<lparr>soStatus := if soAdmission r = None then SessionOperationCanceled else SessionOperationClosed\<rparr>"
  obtain x w1 where x: "opsTransition d r n w = (x, w1)" by fastforce
  have int: "int64Record n" using mineD(2) [OF assms(2)] by (simp add: n_def int64Record_def)
  have g: "terminalGuard (fin w) r n" "countGuard (clk w) r n" "soOperation n = soOperation r" "terminal n"
    using assms(3) by (auto simp: n_def terminalGuard_def countGuard_def terminal_def)
  note tr = transition_mine [OF assms(1,2) g(3) int g(1,2) x]
  show ?thesis
  proof (cases x)
    case (Some e)
    obtain b y w2 where rc: "reconcileRecoveryConflict d rid r e w1 = ((b, y), w2)" by (metis prod.exhaust)
    show ?thesis
      using reconcile_spec [OF tr(1) mineD(3) [OF assms(2)] rc] Some x rc unfolding n_def
      by (auto simp: afterFinish_def finishOperation_def Let_def good_step_def split: option.splits)
  next
    case None
    obtain y w2 where y: "opsDelete d n w1 = (y, w2)" by fastforce
    note dl = delete_mine [OF tr(1) tr(3) [OF None] g(4) y]
    show ?thesis
    proof (cases y)
      case None
      then show ?thesis using dl x y \<open>x = None\<close> unfolding n_def
        by (auto simp: afterFinish_def finishOperation_def Let_def good_step_def split: option.splits)
    next
      case (Some e)
      obtain b z w3 where rc: "reconcileRecoveryConflict d rid n e w2 = ((b, z), w3)" by (metis prod.exhaust)
      show ?thesis
        using reconcile_spec [OF dl(1) mineD(3) [OF tr(3) [OF None]] rc] x y Some \<open>x = None\<close> rc unfolding n_def
        by (auto simp: afterFinish_def finishOperation_def Let_def good_step_def split: option.splits)
    qed
  qed
qed

text \<open>Counting a silence: abandonment only at five counted silences past the margin.\<close>

lemma count_spec:
  assumes "ok w" "mine r" "\<not> terminal r" "countPostExpiryNoReply d rid r w = ((r', disp, x), w')"
  shows "ok w' \<and> mine r' \<and> \<not> terminal r' \<and> (x = None \<longrightarrow> disp = NoReplyComplete \<longrightarrow> absent w') \<and>
    (x = None \<longrightarrow> disp = NoReplyAbandon \<longrightarrow> nativeSessionRecoveryAbandonAttempts \<le> soPostExpiryNoReplyAttempts r')"
proof -
  obtain now w1 where n: "opsNow d w = (now, w1)" by fastforce
  note nl = now_law [OF assms(1) n]
  define k where "k = soPostExpiryNoReplyAttempts r + 1"
  define cand where "cand = unixMilli (now + nativeSessionRecoveryNoReplyBackoff k)"
  define nb where "nb = (if cand \<le> soRecoveryNotBeforeMilli r then soRecoveryNotBeforeMilli r + 1 else cand)"
  define f where "f = r\<lparr>soPostExpiryNoReplyAttempts := k, soRecoveryNotBeforeMilli := nb\<rparr>"
  let ?past = "nativeSessionOperationPastAbandonMargin (soOperation r) now"
  show ?thesis
  proof (cases "\<not> ?past \<or> soPostExpiryNoReplyAttempts r = maxUint32 \<or>
      (cand \<le> soRecoveryNotBeforeMilli r \<and> soRecoveryNotBeforeMilli r = maxInt64)")
    case True
    then show ?thesis using assms n nl unfolding countPostExpiryNoReply_def Let_def k_def cand_def
      by (auto split: if_splits)
  next
    case False
    obtain y w2 where y: "opsTransition d r f w1 = (y, w2)" by fastforce
    have "cand < maxInt64" unfolding cand_def using nl backoff_bounds by (intro deadline_range) auto
    moreover have "soRecoveryNotBeforeMilli r \<le> maxInt64"
      using mineD(2) [OF assms(2)] by (simp add: int64Record_def)
    ultimately have "nb \<le> maxInt64" using False by (auto simp: nb_def)
    then have int: "int64Record f" using mineD(2) [OF assms(2)] by (simp add: int64Record_def f_def)
    have g: "soOperation f = soOperation r" "soStatus f = soStatus r" "countGuard (clk w1) r f"
      "soPostExpiryNoReplyAttempts f = k" using False nl by (auto simp: f_def countGuard_def)
    note tr = transition_mine [OF conjunct1 [OF nl] assms(2) g(1) int active_guard [OF assms(3) g(2)] g(3) y]
    have step: "((r', disp, x), w') = (case y of
        Some e \<Rightarrow> (case reconcileRecoveryConflict d rid r e w2 of
             ((_, Some z), w) \<Rightarrow> ((r, NoReplyRetry, Some z), w)
           | ((True, None), w) \<Rightarrow> ((r, NoReplyComplete, None), w)
           | ((False, None), w) \<Rightarrow> ((r, NoReplyReload, None), w))
      | None \<Rightarrow> if k < nativeSessionRecoveryAbandonAttempts then ((f, NoReplyRetry, None), w2)
                else ((f, NoReplyAbandon, None), w2))"
      using assms(4) n False y unfolding countPostExpiryNoReply_def Let_def f_def nb_def cand_def k_def
      by (cases y) (auto split: if_splits)
    show ?thesis
    proof (cases y)
      case None
      then show ?thesis using step tr g assms(3) by (auto simp: terminal_def split: if_splits)
    next
      case (Some e)
      obtain b z w3 where rc: "reconcileRecoveryConflict d rid r e w2 = ((b, z), w3)" by (metis prod.exhaust)
      show ?thesis
        using reconcile_spec [OF tr(1) mineD(3) [OF assms(2)] rc] step Some rc assms(2,3)
        by (auto split: option.splits bool.splits)
    qed
  qed
qed

lemma silent_spec:
  assumes "ok w" "mine r" "\<not> terminal r"
  shows "good_step (silentOutcome d rid r e b w)"
proof -
  obtain cx w1 where c: "opsCtxErr d w = (cx, w1)" by fastforce
  have ok1: "ok w1" using ctx_law [OF assms(1) c] by blast
  obtain r' disp x w2 where n: "countPostExpiryNoReply d rid r w1 = ((r', disp, x), w2)" by (metis prod.exhaust)
  note cs = count_spec [OF ok1 assms(2,3) n]
  show ?thesis
    using c ok1 n cs finish_spec [of w2 r' "''persist abandoned native session operation''"]
    by (auto simp: silentOutcome_def good_step_def split: option.splits noReplyDisposition.splits)
qed

lemma unexpected_spec:
  assumes "ok w" "mine r" "receipts_range (result, e)"
  shows "good_step (unexpectedOutcome d r result rc w)"
proof (cases "result = None \<or> \<not> sameNativeSessionReceipt (rvUnexpectedAdmission (the result)) rc \<or>
    soStatus r \<noteq> SessionOperationDispatching \<or> soAdmission r \<noteq> None")
  case True
  then show ?thesis using assms(1) by (auto simp: unexpectedOutcome_def good_step_def)
next
  case False
  define m where "m = r\<lparr>soStatus := SessionOperationMapped,
      soAdmission := Some (admissionFromReceipt (the (rvUnexpectedAdmission (the result))))\<rparr>"
  obtain x w1 where x: "opsTransition d r m w = (x, w1)" by fastforce
  have "int64Record m"
    using mineD(2) [OF assms(2)] assms(3) False
    by (auto simp: int64Record_def m_def receipts_range_def admissionFromReceipt_def sameNativeSessionReceipt_def
        split: option.splits)
  note tr = transition_mine [OF assms(1,2) _ this _ _ x]
  have "ok w1" using tr(1) by (simp add: m_def)
  moreover have "unexpectedOutcome d r result rc w =
      (case x of Some e \<Rightarrow> (Return (Some (Errorf ''persist unexpected recovery admission'' e)), w1) | None \<Rightarrow> (Continue, w1))"
    using False x unfolding unexpectedOutcome_def Let_def m_def [symmetric] by (auto split: option.splits)
  ultimately show ?thesis by (simp add: good_step_def split: option.splits)
qed

lemma conclude_spec:
  assumes "answered_ok w (r, a, b) status" "status \<in> {SessionOperationDispatching, SessionOperationClosing}"
  shows "good_step (concludeAttempt d rid r a b w)"
proof -
  obtain result e where a: "a = (result, e)" by fastforce
  have h: "ok w" "mine r" "\<not> terminal r" "receipts_range a"
    "e = None \<Longrightarrow> \<exists>x. result = Some x \<and> rvComplete x \<Longrightarrow> fin w"
    using assms a by (auto simp: answered_ok_def terminal_def)
  show ?thesis
  proof (cases e)
    case (Some x)
    then show ?thesis using a h silent_spec [OF h(1-3), of x b] unexpected_spec [OF h(1,2), of result e]
      by (cases result) (simp_all add: concludeAttempt_def split: option.split)
  next
    case None
    show ?thesis
    proof (cases result)
      case None
      then show ?thesis using a \<open>e = None\<close> h(1) by (simp add: concludeAttempt_def good_step_def)
    next
      case (Some res)
      then show ?thesis using a None h finish_spec [OF h(1,2) _ h(3)]
        by (auto simp: concludeAttempt_def good_step_def)
    qed
  qed
qed

lemma attempt_spec:
  assumes "ok w" "mine r" "soStatus r \<in> {SessionOperationDispatching, SessionOperationClosing}"
  shows "good_step (recoverAttempt d rid r w)"
proof -
  have nt: "\<not> terminal r" using assms(3) by (auto simp: terminal_def)
  obtain a w1 where a: "waitDeadline d r w = (a, w1)" by fastforce
  note s1 = waitDeadline_spec [OF assms(1) a]
  show ?thesis
  proof (cases a)
    case (Inl l)
    then show ?thesis using a s1 by (simp add: recoverAttempt_def)
  next
    case (Inr now)
    obtain v w2 where v: "countAttempt d rid r now w1 = (v, w2)" by fastforce
    have s2: "case v of Inl l \<Rightarrow> good_step (l, w2)
     | Inr r' \<Rightarrow> ok w2 \<and> mine r' \<and> soStatus r' = soStatus r \<and> soAdmission r' = soAdmission r \<and> 2 \<le> paid w2"
      using s1 Inr countAttempt_spec [OF _ assms(2) nt _ v] by simp
    show ?thesis
    proof (cases v)
      case (Inl l)
      then show ?thesis using a v s2 \<open>a = Inr now\<close> by (simp add: recoverAttempt_def)
    next
      case r': (Inr r')
      obtain u w3 where u: "exchangeWithRefence d rid r' w2 = (u, w3)" by fastforce
      have s3: "case u of Inl l \<Rightarrow> good_step (l, w3) | Inr u \<Rightarrow> answered_ok w3 u (soStatus r')"
        using s2 r' nt by (intro exchange_spec [OF _ _ _ _ u]) (auto simp: terminal_def)
      show ?thesis
      proof (cases u)
        case (Inl l)
        then show ?thesis using a v u s3 \<open>a = Inr now\<close> r' by (simp add: recoverAttempt_def)
      next
        case (Inr t)
        obtain q x b where t: "t = (q, x, b)" by (metis prod.exhaust)
        have "good_step (concludeAttempt d rid q x b w3)"
          using s3 s2 Inr r' t assms(3) by (intro conclude_spec) auto
        then show ?thesis using a v u Inr \<open>a = Inr now\<close> r' t by (simp add: recoverAttempt_def)
      qed
    qed
  qed
qed

lemma pass_spec:
  assumes "ok w"
  shows "good_step (recoverPass d rid opid w)"
proof -
  obtain ro x w1 where l: "loadOperation d rid opid w = ((ro, x), w1)" by (metis prod.exhaust)
  note s = loadOperation_spec [OF assms l]
  show ?thesis
  proof (cases "x \<noteq> None \<or> ro = None")
    case True
    then show ?thesis using l s by (auto simp: recoverPass_def good_step_def split: option.splits)
  next
    case False
    then obtain r where r: "ro = Some r" "x = None" by auto
    obtain a w2 where a: "settleStatus d rid r w1 = (a, w2)" by fastforce
    show ?thesis
      using settleStatus_spec [OF s(1) s(3) [OF r(1)] a] attempt_spec l r a
      by (auto simp: recoverPass_def split: sum.splits)
  qed
qed

lemma loop_spec:
  assumes "ok w" "recoverLoop d rid opid w = Some (x, w')"
  shows "ok w' \<and> (x = None \<longrightarrow> absent w')"
proof -
  let ?P = "\<lambda>d' rid' opid' v p. d' = d \<longrightarrow> rid' = rid \<longrightarrow> opid' = opid \<longrightarrow> ok v \<longrightarrow>
      ok (snd p) \<and> (fst p = None \<longrightarrow> absent (snd p))"
  have "?P d rid opid w (x, w')"
  proof (rule recoverLoop.raw_induct [of ?P, OF _ assms(2)])
    fix loop and d' :: "'w ops" and rid' opid' and v :: 'w and p
    assume IH: "\<And>d' rid' opid' v p. loop d' rid' opid' v = Some p \<Longrightarrow> ?P d' rid' opid' v p"
      and body: "(case recoverPass d' rid' opid' v of (Return r, w) \<Rightarrow> Some (r, w)
        | (Continue, w) \<Rightarrow> loop d' rid' opid' w) = Some p"
    show "?P d' rid' opid' v p"
    proof (intro impI)
      assume eq: "d' = d" "rid' = rid" "opid' = opid" and v: "ok v"
      obtain s v' where s: "recoverPass d rid opid v = (s, v')" by fastforce
      have g: "good_step (s, v')" using pass_spec [OF v] s by simp
      show "ok (snd p) \<and> (fst p = None \<longrightarrow> absent (snd p))"
      proof (cases s)
        case (Return r)
        then show ?thesis using body s g eq by (auto simp: good_step_def)
      next
        case Continue
        then have "loop d rid opid v' = Some p" using body s eq by simp
        then show ?thesis using IH g by (auto simp: good_step_def)
      qed
    qed
  qed
  then show ?thesis using assms(1) by simp
qed

end

end
