(* ===== verification/Journal_Props.thy ===== *)
theory Journal_Props
  imports Journal_Safety
begin

text \<open>
  The properties of the durable journal: crash safety of whole runs, the life of one record from its
  creation to its removal, exactness of load and compare-and-swap, and the round trip of the
  canonical text; with the concrete codec, environment and records their witnesses use.
\<close>

section \<open>Lineages\<close>

abbreviation lineage :: "codec \<Rightarrow> SessionOperationRecord \<Rightarrow> SessionOperationRecord \<Rightarrow> bool" where
  "lineage c \<equiv> (validSessionOperationTransition c)\<^sup>*\<^sup>*"

lemma lineage_identity:
  "lineage c r r' \<Longrightarrow> soOperation r' = soOperation r \<and> (soAdmission r \<noteq> None \<longrightarrow> soAdmission r' = soAdmission r)"
proof (induction rule: rtranclp_induct)
  case (step y z)
  then show ?case using validTransitionD(4,5) [OF step.hyps(2)] by auto
qed simp

definition slack :: "SessionOperationRecord \<Rightarrow> int" where
  "slack r = soRecoveryNotBeforeMilli r - int (unat (soRecoveryAttempt r)) -
     int (unat (soPostExpiryNoReplyAttempts r))"

lemma transition_slack:
  assumes "validSessionOperationTransition c p n"
  shows "slack p \<le> slack n \<and> soRecoveryAttempt p \<le> soRecoveryAttempt n \<and>
     soPostExpiryNoReplyAttempts p \<le> soPostExpiryNoReplyAttempts n"
  using validTransitionD(6) [OF assms] progressD(1,2) [OF validTransitionD(6) [OF assms]]
  by (cases rule: progress_cases) (auto simp: slack_def)

lemma lineage_slack:
  "lineage c r r' \<Longrightarrow> slack r \<le> slack r' \<and> soRecoveryAttempt r \<le> soRecoveryAttempt r' \<and>
     soPostExpiryNoReplyAttempts r \<le> soPostExpiryNoReplyAttempts r'"
  by (induction rule: rtranclp_induct) (auto dest: transition_slack)

lemma nth_survives_update:
  "k < length xs \<Longrightarrow> xs ! k \<in> set (xs[i := n]) \<or> k = i"
  by (metis length_list_update nth_list_update_neq nth_mem)

lemma nth_survives_remove:
  assumes "k < length xs" "k \<noteq> i"
  shows "xs ! k \<in> set (remove_nth i xs)"
proof (cases "k < i")
  case True
  then have "xs ! k = take i xs ! k" "k < length (take i xs)" using assms(1) by simp_all
  then show ?thesis unfolding remove_nth_def by (metis UnI1 nth_mem set_append)
next
  case False
  then have "xs ! k = drop (Suc i) xs ! (k - Suc i)" "k - Suc i < length (drop (Suc i) xs)"
    using assms by simp_all
  then show ?thesis unfolding remove_nth_def by (metis UnI2 nth_mem set_append)
qed

lemma step_lineage:
  assumes "journalStep c S S'" "r \<in> set (S rid)"
  shows "(\<exists>r' \<in> set (S' rid). r' = r \<or> validSessionOperationTransition c r r') \<or> terminal r"
  using assms(1)
proof (cases rule: journalStep.cases)
  case (transition p n rid' i)
  obtain k where k: "k < length (S rid)" "S rid ! k = r" using assms(2) by (auto simp: in_set_conv_nth)
  show ?thesis
  proof (cases "rid = rid' \<and> k = i")
    case True
    then have "n \<in> set (S' rid)" using transition k by (auto intro: set_update_memI)
    then show ?thesis using True transition k by auto
  next
    case False
    then have "r \<in> set (S' rid)" using transition k assms(2) nth_survives_update [OF k(1), of i n] by auto
    then show ?thesis by blast
  qed
next
  case (delete t rid' i)
  obtain k where k: "k < length (S rid)" "S rid ! k = r" using assms(2) by (auto simp: in_set_conv_nth)
  show ?thesis
  proof (cases "rid = rid' \<and> k = i")
    case True
    then show ?thesis using delete k by auto
  next
    case False
    then have "r \<in> set (S' rid)" using delete k assms(2) nth_survives_remove [OF k(1), of i] by auto
    then show ?thesis by blast
  qed
qed (use assms(2) in auto)

lemma steps_lineage:
  assumes "(journalStep c)\<^sup>*\<^sup>* S S'" "r \<in> set (S rid)"
  shows "(\<exists>r' \<in> set (S' rid). lineage c r r') \<or> (\<exists>t. lineage c r t \<and> terminal t)"
  using assms(1)
proof (induction rule: rtranclp_induct)
  case base
  then show ?case using assms(2) by blast
next
  case (step T T')
  show ?case
  proof (cases "\<exists>t. lineage c r t \<and> terminal t")
    case False
    then obtain q where q: "q \<in> set (T rid)" "lineage c r q" using step.IH by blast
    have "\<not> terminal q" using False q(2) by blast
    then obtain q' where q': "q' \<in> set (T' rid)" "q' = q \<or> validSessionOperationTransition c q q'"
      using step_lineage [OF step.hyps(2) q(1)] by blast
    then have "lineage c r q'" using q(2) by (auto intro: rtranclp.rtrancl_into_rtrancl)
    then show ?thesis using q'(1) by blast
  qed blast
qed

section \<open>Runs of calls\<close>

lemma runCalls_steps:
  assumes "\<forall>(e, call) \<in> set cs. env_ok e \<and> same_host e e0 \<and> goCall call"
    and "dir_ok e0 (nsFiles ns)"
  shows "through (\<lambda>fs. dir_ok e0 fs \<and> (journalStep (envCodec e0))\<^sup>*\<^sup>* (dirRecords e0 (nsFiles ns)) (dirRecords e0 fs))
           ns (runCalls cs ns)"
  using assms
proof (induction cs arbitrary: ns)
  case Nil
  then show ?case by simp
next
  case (Cons ec cs)
  obtain e call where ec: "ec = (e, call)" by fastforce
  let ?P = "\<lambda>ns fs. dir_ok e0 fs \<and> (journalStep (envCodec e0))\<^sup>*\<^sup>* (dirRecords e0 (nsFiles ns)) (dirRecords e0 fs)"
  have e: "env_ok e" "same_host e e0" "goCall call" using Cons.prems(1) ec by auto
  note h = same_host_simps [OF e(2)]
  have "through (stepFrom e (dirRecords e (nsFiles ns))) ns (runCall e call ns)"
    using runCall_step [OF e(1) _ e(3)] Cons.prems(2) h by simp
  then have one: "through (?P ns) ns (runCall e call ns)"
    by (rule through_mono) (use e(2) in \<open>auto simp: stepFrom_def h same_host_def\<close>)
  then have "?P ns (nsFiles (runCall e call ns))" using through_end Cons.prems(2) by fastforce
  note mid = this
  have "through (?P (runCall e call ns)) (runCall e call ns) (runCalls cs (runCall e call ns))"
    using Cons.IH [of "runCall e call ns"] Cons.prems(1) mid by auto
  then have "through (?P ns) (runCall e call ns) (runCalls cs (runCall e call ns))"
    by (rule through_mono) (use mid in auto)
  then show ?case using ec through_trans [OF one] by simp
qed

section \<open>Witness data\<close>

definition wOp :: NativeSessionOperation where
  "wOp = \<lparr>opOperationID = ''op1'', opProtectedResourceID = ''res1'', opResourceID = ''r'', opCellID = ''c1'',
     opOwnerID = ''o'', opAgentID = ''a'', opRunID = ''run1'', opRunAttempt = 1, opPreparedAtMillis = 5,
     opExpiresAtMillis = 1000, opRest = []\<rparr>"

definition wEp :: NHPUDPEndpoint where
  "wEp = \<lparr>epHost = ''a.b'', epPort = 443, epServerPublicKeyB64 = b64Encode (replicate 32 0)\<rparr>"

text \<open>A codec in which the one operation \<open>wOp\<close> survives; endpoints are written without quoting.\<close>

definition wCodec :: codec where
  "wCodec = \<lparr>cMarshalOp = (\<lambda>op. Some ''{}''), cUnmarshalOp = (\<lambda>m. if m = ''{}'' then Some wOp else None),
     cMarshalEp = (\<lambda>ep. Some (CHR 0x7B # epHost ep @ ''|'' @ epServerPublicKeyB64 ep @ [CHR 0x7D])),
     cUnmarshalEp = (\<lambda>m. let b = butlast (tl m) in
        Some \<lparr>epHost = takeWhile (\<lambda>c. c \<noteq> CHR ''|'') b, epPort = 443,
              epServerPublicKeyB64 = tl (dropWhile (\<lambda>c. c \<noteq> CHR ''|'') b)\<rparr>)\<rparr>"

definition wEnv :: env where
  "wEnv = \<lparr>envCodec = wCodec, envSha256 = (\<lambda>s. replicate 32 (length s mod 256)), envOpen = True,
     envFault = (\<lambda>_ _. None), envRandom = replicate 8 0, envCreateMode = 384, envShort = 0\<rparr>"

definition wRec :: SessionOperationRecord where "wRec = initialRecord wOp wEp"

definition wNs :: namespace where "wNs = \<lparr>nsFiles = [], nsTrace = []\<rparr>"

lemma b64_chars:
  assumes "list_all (\<lambda>b. b < 256) bs" "c \<in> set (b64Encode bs)"
  shows "c \<in> set b64Alphabet \<or> c = CHR ''=''"
  using assms
proof (induction bs rule: b64Encode.induct)
  case (4 x y z r)
  then show ?case by (auto simp: b64Char_def b64_length intro!: nth_mem)
qed (auto simp: b64Char_def b64_length intro!: nth_mem)

lemma scanObject_plain:
  "\<forall>c \<in> set b. c \<noteq> quote \<and> c \<noteq> CHR 0x7B \<and> c \<noteq> CHR 0x7D \<Longrightarrow>
   scanObject 1 False False (b @ [CHR 0x7D]) = Some (Suc (length b))"
  by (induction b) (auto simp: quote_def)

lemma plain_object:
  "\<forall>c \<in> set b. c \<noteq> quote \<and> c \<noteq> CHR 0x7B \<and> c \<noteq> CHR 0x7D \<Longrightarrow> jsonObject (CHR 0x7B # b @ [CHR 0x7D])"
  using scanObject_plain [of b] by (simp add: jsonObject_def quote_def)

lemma host_chars:
  assumes "validRecoveryEndpointHost h" "c \<in> set h"
  shows "validHostChar c \<or> c = CHR ''.''"
proof (cases "c = CHR ''.''")
  case False
  then obtain p where "p \<in> set (splitOn (CHR ''.'') h)" "c \<in> set p"
    using splitOn_covers assms(2) by blast
  then show ?thesis
    using assms(1) by (auto simp: validRecoveryEndpointHost_def validHostLabel_def list_all_iff split: if_splits)
qed simp

definition plainChar :: "char \<Rightarrow> bool" where
  "plainChar c = (c \<noteq> quote \<and> c \<noteq> CHR 0x7B \<and> c \<noteq> CHR 0x7D \<and> c \<noteq> CHR ''|'')"

lemma alphabet_plain: "list_all plainChar (CHR ''='' # b64Alphabet)"
  by (simp add: b64Alphabet_def plainChar_def quote_def)

lemma hostChar_plain: "validHostChar c \<or> c = CHR ''.'' \<Longrightarrow> plainChar c"
  by (auto simp: validHostChar_def plainChar_def quote_def char_classes)

lemma endpoint_plain:
  assumes "validRecoveryEndpoint ep"
  shows "\<forall>c \<in> set (epHost ep). plainChar c" "\<forall>c \<in> set (epServerPublicKeyB64 ep). plainChar c"
    "epPort ep = 443"
proof -
  obtain k where k: "b64DecodeStrict (epServerPublicKeyB64 ep) = Some k" "b64Encode k = epServerPublicKeyB64 ep"
      "validRecoveryEndpointHost (epHost ep)" "epPort ep = 443"
    using assms by (auto simp: validRecoveryEndpoint_def split: if_splits option.splits)
  have "list_all (\<lambda>b. b < 256) k"
    using b64Decode_lt k(1) unfolding b64DecodeStrict_def list_all_iff by blast
  then show "\<forall>c \<in> set (epServerPublicKeyB64 ep). plainChar c"
    using b64_chars [of k] k(2) alphabet_plain by (auto simp: list_all_iff)
  show "\<forall>c \<in> set (epHost ep). plainChar c" using host_chars [OF k(3)] hostChar_plain by blast
  show "epPort ep = 443" by (rule k(4))
qed

lemma wCodec_ok: "codec_ok wCodec"
  unfolding codec_ok_def
proof (intro conjI allI impI)
  fix op m
  assume "cMarshalOp wCodec op = Some m"
  then show "jsonObject m" by (auto simp: wCodec_def jsonObject_def quote_def)
next
  fix m op
  assume "cUnmarshalOp wCodec m = Some op"
  then have "op = wOp" by (auto simp: wCodec_def split: if_splits)
  then show "opText op" by (simp add: opText_def wOp_def byteOf_def)
next
  fix ep
  assume "validRecoveryEndpoint ep"
  note p = endpoint_plain [OF this]
  have "\<forall>c \<in> set (epHost ep @ ''|'' @ epServerPublicKeyB64 ep). c \<noteq> quote \<and> c \<noteq> CHR 0x7B \<and> c \<noteq> CHR 0x7D"
    using p by (auto simp: plainChar_def quote_def)
  then have "jsonObject (CHR 0x7B # (epHost ep @ ''|'' @ epServerPublicKeyB64 ep) @ [CHR 0x7D])"
    by (rule plain_object)
  moreover have "takeWhile (\<lambda>c. c \<noteq> CHR ''|'') (epHost ep @ CHR ''|'' # k) = epHost ep"
    "dropWhile (\<lambda>c. c \<noteq> CHR ''|'') (epHost ep @ CHR ''|'' # k) = CHR ''|'' # k" for k
    using p(1) by (auto simp: plainChar_def takeWhile_append2 dropWhile_append2)
  ultimately show "\<exists>m. cMarshalEp wCodec ep = Some m \<and> jsonObject m \<and> cUnmarshalEp wCodec m = Some ep"
    using p(3) by (simp add: wCodec_def Let_def butlast_append)
qed

lemma wEnv_ok: "env_ok wEnv"
  by (simp add: env_ok_def wEnv_def wCodec_ok bytes_def)

lemma wOp_valid: "validOperation wCodec wOp"
  by (simp add: validOperation_def wCodec_def wOp_def)

lemma wEp_valid: "validRecoveryEndpoint wEp"
  by code_simp

lemma wRec_valid: "validSessionOperationRecord wCodec wRec" "int64Record wRec"
  using wOp_valid wEp_valid
  by (simp_all add: validSessionOperationRecord_def wRec_def initialRecord_def int64Record_def maxInt64_def)

section \<open>Good directories hold valid journals\<close>

lemma outcome_end:
  assumes "outcome e T x ns ns'" "dir_ok e (nsFiles ns)"
  shows "dir_ok e (nsFiles ns') \<and> dirRecords e (nsFiles ns') \<in> {dirRecords e (nsFiles ns), T}"
proof -
  have "moves e (dirRecords e (nsFiles ns)) T (nsFiles ns')"
    using assms through_end [of "moves e (dirRecords e (nsFiles ns)) T" ns ns']
    by (simp add: outcome_def moves_def)
  then show ?thesis by (auto simp: moves_def)
qed

lemma dirRecords_cases:
  "dirRecords e fs rid = [] \<or> (\<exists>f j. fileJournal e f = Some j \<and> dirRecords e fs rid = jRecords j \<and>
     jProtectedResourceID j = rid)"
  by (auto simp: dirRecords_def split: sum.splits option.splits)

lemma dirRecords_at:
  "sessionOperationFileName e rid = Inr name \<Longrightarrow> dirRecords e fs rid = [] \<or>
     (\<exists>f j. map_of fs name = Some f \<and> fileJournal e f = Some j \<and> dirRecords e fs rid = jRecords j \<and>
        jProtectedResourceID j = rid)"
  by (auto simp: dirRecords_def split: option.splits)

lemma dirRecords_valid:
  assumes "r \<in> set (dirRecords e fs rid)"
  shows "validSessionOperationRecord (envCodec e) r \<and> opProtectedResourceID (soOperation r) = rid \<and> int64Record r"
proof -
  obtain f j where "fileJournal e f = Some j" "dirRecords e fs rid = jRecords j" "jProtectedResourceID j = rid"
    using dirRecords_cases [of e fs rid] assms by auto
  then show ?thesis using fileJournal_valid [of e f j] assms by (auto simp: validJournal_iff)
qed

lemma dirRecords_shape:
  "length (dirRecords e fs rid) \<le> sessionOperationMaxRecords \<and> distinct (map soID (dirRecords e fs rid))"
  using dirRecords_cases [of e fs rid] fileJournal_valid [of e] by (auto simp: validJournal_iff)

section \<open>Properties\<close>




definition wJournal :: sessionOperationJournal where
  "wJournal = \<lparr>jSchema = 2, jProtectedResourceID = ''res1'', jRecords = [wRec]\<rparr>"

definition wName :: string where "wName = projr (sessionOperationFileName wEnv ''res1'')"

definition wNs1 :: namespace where
  "wNs1 = \<lparr>nsFiles = [(wName, committedFile (the (marshalJournal wCodec wJournal)))], nsTrace = []\<rparr>"

lemma wJournal_valid: "validSessionOperationJournal wCodec wJournal"
  using wRec_valid by (simp add: validJournal_iff wJournal_def sessionOperationJournalSchema_def
      sessionOperationMaxRecords_def wRec_def initialRecord_def wOp_def)

lemma wEnv_codec [simp]: "envCodec wEnv = wCodec"
  by (simp add: wEnv_def)

lemma wName_eq: "sessionOperationFileName wEnv ''res1'' = Inr wName"
  by (simp add: wName_def sessionOperationFileName_def trimSpace_plain char_classes)

lemma wMarshal: "\<exists>m. marshalJournal wCodec wJournal = Some m \<and> 0 < length m \<and> length m \<le> 65536"
  by (simp add: marshalJournal_def wJournal_def wRec_def initialRecord_def marshalRecord_def marshalTail_def
      wCodec_def wOp_def wEp_def key_def jsonString_def escAscii_def fmtInt_def fmtNat.simps digit10_def
      sessionOperationRecordSchema_def b64Encode_length byteOf_def)

lemma wNs1_file: "fileJournal wEnv (committedFile (the (marshalJournal wCodec wJournal))) = Some wJournal"
proof -
  obtain m where m: "marshalJournal wCodec wJournal = Some m" using wMarshal by blast
  have "\<forall>r \<in> set (jRecords wJournal). int64Record r" using wRec_valid(2) by (simp add: wJournal_def)
  then show ?thesis using fileJournal_committed [OF wEnv_ok, of wJournal m] wJournal_valid m by simp
qed

lemma wNs1_ok: "dir_ok wEnv (nsFiles wNs1)"
proof -
  obtain m where m: "marshalJournal wCodec wJournal = Some m" "0 < length m" "length m \<le> 65536"
    using wMarshal by blast
  have "goodJournalFile wEnv wName (committedFile m)"
    using wNs1_file m wName_eq by (simp add: goodJournalFile_def privateFile_def committedFile_def
        sessionOperationFileMaxBytes_def wJournal_def)
  then show ?thesis using m(1) by (simp add: dir_ok_def wNs1_def)
qed

lemma wNs1_records: "dirRecords wEnv (nsFiles wNs1) ''res1'' = [wRec]"
  using wNs1_file wName_eq by (simp add: dirRecords_def wNs1_def) (simp add: wJournal_def)


text \<open>
  C23. \<open>LoadSessionOperations\<close> is exact: when it reports no error it returns precisely the records of
  the requested resource, each valid and distinct, at most eight, even if another resource's journal
  occupies the same file name; and it changes no journal, whether it fails or not.
\<close>

theorem load_exact:
  assumes "env_ok e" and "dir_ok e (nsFiles ns)"
    and "LoadSessionOperations e rid ns = ((rs, None), ns')"
  shows "rs = dirRecords e (nsFiles ns) rid \<and> dirRecords e (nsFiles ns') = dirRecords e (nsFiles ns) \<and>
     (\<forall>r \<in> set rs. validSessionOperationRecord (envCodec e) r \<and> opProtectedResourceID (soOperation r) = rid) \<and>
     distinct (map soID rs) \<and> length rs \<le> 8"
  using LoadSessionOperations_outcome [OF assms] dirRecords_valid [of _ e "nsFiles ns" rid]
    dirRecords_shape [of e "nsFiles ns" rid]
  by (auto simp: outcome_def sessionOperationMaxRecords_def)

lemma afterTransition_gone:
  assumes "p \<in> set (S (opProtectedResourceID (soOperation p)))" "n \<noteq> p"
    and "distinct (map soID (S (opProtectedResourceID (soOperation p))))"
  shows "p \<notin> set (afterTransition S p n (opProtectedResourceID (soOperation p)))"
  using assms(1)
proof (rule find_index_eq)
  fix i
  assume i: "find_index (\<lambda>r. r = p) (S (opProtectedResourceID (soOperation p))) = Some i"
    "i < length (S (opProtectedResourceID (soOperation p)))" "S (opProtectedResourceID (soOperation p)) ! i = p"
  then show ?thesis
    using assms(2) set_update_distinct [OF assms(3) i(2), of n] by (auto simp: afterTransition_def Let_def)
qed

text \<open>
  C10. Compare-and-swap has one winner: a successful transition found its exact prior record in the
  journal and was valid; afterwards any other transition or deletion from the same prior record is
  refused and changes nothing.
\<close>

theorem cas_single_winner:
  assumes "env_ok e" and "same_host d e" and "env_ok d" and "dir_ok e (nsFiles ns)"
    and "int64Record p" and "int64Record n" and "n \<noteq> p"
    and "TransitionSessionOperation e p n ns = ((u, None), ns')"
    and "int64Record m" and "TransitionSessionOperation d p m ns' = ((v, x), ns'')"
  shows "validSessionOperationTransition (envCodec e) p n \<and>
    p \<in> set (dirRecords e (nsFiles ns) (opProtectedResourceID (soOperation p))) \<and>
    x \<noteq> None \<and> dirRecords e (nsFiles ns'') = dirRecords e (nsFiles ns')"
proof -
  let ?rid = "opProtectedResourceID (soOperation p)"
  note h = same_host_simps [OF assms(2)]
  obtain T where o: "outcome e T None ns ns'" and T: "T = afterTransition (dirRecords e (nsFiles ns)) p n"
    and v: "validSessionOperationTransition (envCodec e) p n" and p: "p \<in> set (dirRecords e (nsFiles ns) ?rid)"
    using assms(8) by (rule TransitionSessionOperation_outcome [OF assms(1,4,5,6) _ refl]) auto
  have end': "dir_ok e (nsFiles ns')" "dirRecords e (nsFiles ns') = T"
    using o outcome_end [OF o assms(4)] by (auto simp: outcome_def)
  have gone: "p \<notin> set (dirRecords d (nsFiles ns') ?rid)"
    using afterTransition_gone [of p "dirRecords e (nsFiles ns)" n] p assms(7) dirRecords_shape end'(2) T h by metis
  have ok: "dir_ok d (nsFiles ns')" using end'(1) h by simp
  show ?thesis
  proof (rule TransitionSessionOperation_outcome [OF assms(3) ok assms(5,9,10) refl])
    assume r: "x \<noteq> None" "outcome d (dirRecords d (nsFiles ns')) x ns' ns''"
    then show ?thesis using outcome_end [OF r(2) ok] r(1) v p h by simp
  qed (use gone in simp)
qed

text \<open>
  C17. The canonical text is exact: a text decodes to a journal if and only if it is that journal's own
  canonical text and the journal is valid (with timestamps in the range of \<open>int64\<close>). So a written
  journal reads back as itself, and no second text of it is accepted.
\<close>

theorem decode_exact:
  assumes "codec_ok c"
  shows "decodeSessionOperationJournal c raw = Inr j \<longleftrightarrow>
     marshalJournal c j = Some raw \<and> validSessionOperationJournal c j \<and> (\<forall>r \<in> set (jRecords j). int64Record r)"
  using decode_marshalJournal [OF assms, of j] decode_sound decode_range by (metis option.inject)

text \<open>
  The byte comparison that guards every compare-and-swap is exact: two valid records compare equal
  if and only if they are the same record.
\<close>

lemma same_record_exact:
  assumes "codec_ok c" and "validSessionOperationRecord c l" and "validSessionOperationRecord c r"
    and "int64Record l" and "int64Record r"
  shows "sameSessionOperationRecord c l r \<longleftrightarrow> l = r"
  using assms by (rule sameRecord_iff)

text \<open>
  Recovery progress is monotone and paced: along any sequence of valid transitions neither counter
  regresses or wraps around, and each counted step moves the durable deadline by at least one
  millisecond, so the counters can never outrun the deadline.
\<close>

lemma recovery_progress_paced:
  assumes "(validSessionOperationTransition c)\<^sup>*\<^sup>* r r'"
  shows "unat (soRecoveryAttempt r) \<le> unat (soRecoveryAttempt r') \<and>
    unat (soPostExpiryNoReplyAttempts r) \<le> unat (soPostExpiryNoReplyAttempts r') \<and>
    int (unat (soRecoveryAttempt r') - unat (soRecoveryAttempt r)) +
         int (unat (soPostExpiryNoReplyAttempts r') - unat (soPostExpiryNoReplyAttempts r))
         \<le> soRecoveryNotBeforeMilli r' - soRecoveryNotBeforeMilli r"
proof -
  have l: "slack r \<le> slack r'" "soRecoveryAttempt r \<le> soRecoveryAttempt r'"
    "soPostExpiryNoReplyAttempts r \<le> soPostExpiryNoReplyAttempts r'"
    using lineage_slack [OF assms] by auto
  then have "unat (soRecoveryAttempt r) \<le> unat (soRecoveryAttempt r')"
    "unat (soPostExpiryNoReplyAttempts r) \<le> unat (soPostExpiryNoReplyAttempts r')"
    by (simp_all add: word_le_nat_alt)
  then show ?thesis using l(1) by (simp add: slack_def of_nat_diff)
qed

section \<open>Calls without failures\<close>

lemma valid_update:
  assumes "validSessionOperationJournal c j" "i < length (jRecords j)" "validSessionOperationRecord c n"
    and "soOperation n = soOperation (jRecords j ! i)"
  shows "validSessionOperationJournal c (j\<lparr>jRecords := (jRecords j)[i := n]\<rparr>)"
proof -
  have "opProtectedResourceID (soOperation n) = jProtectedResourceID j"
    using assms nth_mem [OF assms(2)] by (simp add: validJournal_iff)
  moreover have "set ((jRecords j)[i := n]) \<subseteq> insert n (set (jRecords j))"
    by (rule set_update_subset_insert)
  moreover have "distinct (map soID ((jRecords j)[i := n]))"
    using assms by (intro distinct_map_update) (simp_all add: validJournal_iff)
  ultimately show ?thesis using assms(1,3) by (auto simp: validJournal_iff)
qed

definition quiet :: "env \<Rightarrow> bool" where
  "quiet e \<longleftrightarrow> envOpen e \<and> (\<forall>site name. envFault e site name = None)"

lemma quietD [simp]: "quiet e \<Longrightarrow> envFault e site name = None" "quiet e \<Longrightarrow> envOpen e"
  by (simp_all add: quiet_def)

lemma goodFile_journal:
  "goodJournalFile e name f \<Longrightarrow> \<exists>j. decodeSessionOperationJournal (envCodec e) (fData f) = Inr j \<and> fileJournal e f = Some j"
  by (auto simp: goodJournalFile_def fileJournal_def split: option.splits sum.splits)

lemma load_quiet:
  assumes "quiet e" "map_of (nsFiles ns) name = Some f" "goodJournalFile e name f"
  shows "loadSessionOperationJournal e ns name = Inr (fileJournal e f)"
  using assms goodFile_journal [OF assms(3)]
  by (auto simp: loadSessionOperationJournal_def readJournalFile_def validateRegularFile_def lookupFile_def
      goodJournalFile_def privateFile_def)

lemma load_quiet_absent:
  "quiet e \<Longrightarrow> map_of (nsFiles ns) name = None \<Longrightarrow> loadSessionOperationJournal e ns name = Inr None"
  by (simp add: loadSessionOperationJournal_def lookupFile_def)

text \<open>Taking the lock of a quiet environment only adds the lock file.\<close>

lemma lock_quiet:
  assumes "quiet e"
  obtains ns1 where "acquireLock e ns = (None, ns1)"
    "\<And>n. n \<noteq> sessionOperationLockFile \<Longrightarrow> map_of (nsFiles ns1) n = map_of (nsFiles ns) n"
proof (cases "lookupFile ns sessionOperationLockFile")
  case None
  then show thesis using that assms by (simp add: acquireLock_def)
next
  case (Some f)
  then show thesis using that [of ns] assms by (simp add: acquireLock_def)
qed

lemma withLock_quiet:
  assumes "quiet e" "sessionOperationFileName e rid = Inr name"
  obtains ns1 where "\<And>n. n \<noteq> sessionOperationLockFile \<Longrightarrow> map_of (nsFiles ns1) n = map_of (nsFiles ns) n"
    "\<And>v ns2. fn name ns1 = ((v, None), ns2) \<Longrightarrow> withSessionOperationLock e rid d fn ns = ((v, None), ns2)"
proof (rule lock_quiet [OF assms(1), of ns])
  fix ns1
  assume ns1: "acquireLock e ns = (None, ns1)"
    "\<And>n. n \<noteq> sessionOperationLockFile \<Longrightarrow> map_of (nsFiles ns1) n = map_of (nsFiles ns) n"
  show thesis
  proof (rule that)
    fix v ns2
    assume "fn name ns1 = ((v, None), ns2)"
    then show "withSessionOperationLock e rid d fn ns = ((v, None), ns2)"
      using assms ns1(1) by (simp add: withSessionOperationLock_def withSessionOperationNamespaceLock_def)
  qed (use ns1(2) in blast)
qed

lemma temporary_names:
  assumes "validSessionOperationFileName name"
  shows "name \<noteq> sessionOperationLockFile" "temporaryName e name \<noteq> sessionOperationLockFile"
    "temporaryName e name \<noteq> name"
proof -
  obtain t where t: "name = sessionOperationFilePrefix @ t"
    using assms by (auto simp: validSessionOperationFileName_def hasPrefix_iff split: if_splits)
  show "name \<noteq> sessionOperationLockFile" "temporaryName e name \<noteq> sessionOperationLockFile"
    by (simp_all add: t temporaryName_def sessionOperationLockFile_def sessionOperationFilePrefix_def)
  show "temporaryName e name \<noteq> name" using assms temporaryName_not_valid by metis
qed

lemma write_quiet:
  assumes q: "quiet e" and env: "env_ok e"
    and v: "validSessionOperationJournal (envCodec e) j" "marshalJournal (envCodec e) j = Some data"
      "length data \<le> sessionOperationFileMaxBytes"
    and ex: "\<And>f. map_of (nsFiles ns) name = Some f \<Longrightarrow> privateFile f"
    and tmp: "map_of (nsFiles ns) (temporaryName e name) = None" "temporaryName e name \<noteq> name"
  shows "\<exists>ns'. writeSessionOperationJournal e name j ns = (None, ns') \<and> map_of (nsFiles ns') (temporaryName e name) = None"
proof -
  let ?tmp = "temporaryName e name"
  let ?ns0 = "commitFiles (AList.update ?tmp (newFile e []) (nsFiles ns)) ns"
  have shape: "existingShapeError e ns name = None"
    using q ex by (auto simp: existingShapeError_def lookupFile_def privateFile_def split: option.splits)
  have free: "lookupFile ns ?tmp = None" using tmp(1) by (simp add: lookupFile_def)
  have l0: "lookupFile ?ns0 ?tmp = Some (newFile e [])" by (simp add: lookupFile_def)
  define ns1 where "ns1 = updateFile ?tmp (\<lambda>f. f\<lparr>fMode := sessionOperationFileMode\<rparr>) ?ns0"
  define ns2 where "ns2 = updateFile ?tmp (\<lambda>f. f\<lparr>fData := data\<rparr>) ns1"
  have l2: "lookupFile ns2 ?tmp = Some (committedFile data)"
    using l0 by (simp add: ns1_def ns2_def updateFile_lookup newFile_def committedFile_def)
  have priv: "privateFile (committedFile data)" by (simp add: privateFile_def committedFile_def)
  have stage: "stageTemporary e name ?tmp data ?ns0 = (None, renameFile ?tmp name ns2)"
    using q l2 priv by (simp add: stageTemporary_def ns1_def ns2_def validateRegularFile_def)
  have "lookupFile (renameFile ?tmp name ns2) name = Some (committedFile data)"
    using l2 by (simp add: renameFile_def) (simp add: lookupFile_def)
  moreover have "map_of (nsFiles (renameFile ?tmp name ns2)) ?tmp = None"
    using l2 tmp(2) by (simp add: renameFile_def)
  ultimately show ?thesis
    using q v shape free stage priv
    by (simp add: writeSessionOperationJournal_def validateRegularFile_def)
qed

lemma quiet_transition:
  assumes "env_ok e" and "quiet e" and "dir_ok e (nsFiles ns)"
    and "validSessionOperationTransition (envCodec e) p n" and "int64Record n"
    and "sessionOperationFileName e rid = Inr name" and "rid = opProtectedResourceID (soOperation p)"
    and "p \<in> set (dirRecords e (nsFiles ns) rid)"
    and "map_of (nsFiles ns) (temporaryName e name) = None"
    and "\<And>i data. marshalJournal (envCodec e) \<lparr>jSchema = sessionOperationJournalSchema,
           jProtectedResourceID = rid, jRecords = (dirRecords e (nsFiles ns) rid)[i := n]\<rparr> = Some data \<Longrightarrow>
           length data \<le> sessionOperationFileMaxBytes"
  shows "\<exists>ns'. TransitionSessionOperation e p n ns = (((), None), ns') \<and>
     dirRecords e (nsFiles ns') = afterTransition (dirRecords e (nsFiles ns)) p n \<and>
     map_of (nsFiles ns') (temporaryName e name) = None"
proof -
  obtain f j where f: "map_of (nsFiles ns) name = Some f" "fileJournal e f = Some j"
      "jProtectedResourceID j = rid" "dirRecords e (nsFiles ns) rid = jRecords j"
    using dirRecords_at [OF assms(6), of "nsFiles ns"] assms(8) by auto
  have vn: "validSessionOperationRecord (envCodec e) n" "soOperation n = soOperation p"
    and vp: "validSessionOperationRecord (envCodec e) p" and ip: "int64Record p"
    using validTransitionD [OF assms(4)] dirRecords_valid [OF assms(8)] by auto
  obtain i where i: "find_index (\<lambda>r. r = p) (jRecords j) = Some i" "i < length (jRecords j)" "jRecords j ! i = p"
    using find_index_eq assms(8) f(4) by metis
  have idx: "findSessionOperationRecord (envCodec e) (jRecords j) p = Some i"
    using fileJournal_same [OF assms(1) f(2) vp ip] i(1) by simp
  have jv: "validSessionOperationJournal (envCodec e) j" using fileJournal_valid [OF f(2)] by blast
  define j' where "j' = j\<lparr>jRecords := (jRecords j)[i := n]\<rparr>"
  have j'v: "validSessionOperationJournal (envCodec e) j'"
    unfolding j'_def
    by (rule valid_update [OF jv i(2) vn(1)]) (use vn(2) i(3) in simp_all)
  have int: "\<forall>r \<in> set (jRecords j'). int64Record r"
    using fileJournal_valid [OF f(2)] assms(5) set_update_subset_insert [of "jRecords j" i n] by (auto simp: j'_def)
  obtain data where data: "marshalJournal (envCodec e) j' = Some data"
    using decode_marshalJournal [OF _ j'v int] assms(1) by (auto simp: env_ok_def)
  have "j' = \<lparr>jSchema = sessionOperationJournalSchema, jProtectedResourceID = rid,
      jRecords = (dirRecords e (nsFiles ns) rid)[i := n]\<rparr>"
    using jv f(3,4) by (simp add: j'_def validJournal_iff)
  then have size: "length data \<le> sessionOperationFileMaxBytes" using assms(10) data by metis
  have good: "goodJournalFile e name f"
    using assms(1,3,6) f(1) fileName_valid unfolding dir_ok_def by blast
  have names: "name \<noteq> sessionOperationLockFile" "temporaryName e name \<noteq> sessionOperationLockFile"
      "temporaryName e name \<noteq> name"
    using temporary_names [OF fileName_valid [OF assms(1,6)]] by auto
  show ?thesis
  proof (rule withLock_quiet [OF assms(2,6), of ns "transitionLocked e p n" "()"])
    fix ns1
    assume ns1: "\<And>n. n \<noteq> sessionOperationLockFile \<Longrightarrow> map_of (nsFiles ns1) n = map_of (nsFiles ns) n"
      "\<And>v ns2. transitionLocked e p n name ns1 = ((v, None), ns2) \<Longrightarrow>
         withSessionOperationLock e rid () (transitionLocked e p n) ns = ((v, None), ns2)"
    have ld: "loadSessionOperationJournal e ns1 name = Inr (Some j)"
      using load_quiet [OF assms(2) _ good] ns1(1) names f by simp
    obtain ns2 where "writeSessionOperationJournal e name j' ns1 = (None, ns2)"
        and free: "map_of (nsFiles ns2) (temporaryName e name) = None"
      using write_quiet [OF assms(2,1) j'v data size, of ns1 name] ns1(1) names f good assms(9)
      by (auto simp: goodJournalFile_def)
    then have "transitionLocked e p n name ns1 = (((), None), ns2)"
      using ld idx f(3) assms(7) by (simp add: transitionLocked_def j'_def)
    from ns1(2) [OF this] have run: "TransitionSessionOperation e p n ns = (((), None), ns2)"
      using assms(4,7) vn jv f(3) by (simp add: TransitionSessionOperation_def validJournal_iff)
    moreover have "dirRecords e (nsFiles ns2) = afterTransition (dirRecords e (nsFiles ns)) p n"
      by (rule TransitionSessionOperation_outcome [OF assms(1,3) ip assms(5) run refl]) (auto simp: outcome_def)
    ultimately show ?thesis using free by blast
  qed
qed

lemma quiet_create:
  assumes env: "env_ok e" and q: "quiet e" and ok: "dir_ok e (nsFiles ns)"
    and r: "validSessionOperationRecord (envCodec e) r" "soStatus r = SessionOperationPrepared" "int64Record r"
    and name: "sessionOperationFileName e rid = Inr name" "rid = opProtectedResourceID (soOperation r)"
    and new: "map_of (nsFiles ns) name = None" and tmp: "map_of (nsFiles ns) (temporaryName e name) = None"
    and size: "\<And>data. marshalJournal (envCodec e) \<lparr>jSchema = sessionOperationJournalSchema,
           jProtectedResourceID = rid, jRecords = [r]\<rparr> = Some data \<Longrightarrow> length data \<le> sessionOperationFileMaxBytes"
  shows "\<exists>ns'. CreateSessionOperation e r ns = (((), None), ns') \<and> dir_ok e (nsFiles ns') \<and>
     dirRecords e (nsFiles ns') = (dirRecords e (nsFiles ns))(rid := [r]) \<and>
     map_of (nsFiles ns') (temporaryName e name) = None"
proof -
  let ?j = "\<lparr>jSchema = sessionOperationJournalSchema, jProtectedResourceID = rid, jRecords = [r]\<rparr>"
  have rid: "rid \<noteq> []" using name(1) by (auto simp: sessionOperationFileName_def split: if_splits)
  have v: "validSessionOperationJournal (envCodec e) ?j"
    using r(1) name(2) rid by (simp add: validJournal_iff sessionOperationMaxRecords_def)
  obtain data where d: "marshalJournal (envCodec e) ?j = Some data"
    using decode_marshalJournal [OF _ v] env r(3) by (auto simp: env_ok_def)
  have recs: "dirRecords e (nsFiles ns) rid = []" using name(1) new by (simp add: dirRecords_def)
  note names = temporary_names [OF fileName_valid [OF env name(1)]]
  show ?thesis
  proof (rule withLock_quiet [OF q name(1), of ns "createLocked e r" "()"])
    fix ns1
    assume ns1: "\<And>n. n \<noteq> sessionOperationLockFile \<Longrightarrow> map_of (nsFiles ns1) n = map_of (nsFiles ns) n"
      "\<And>v ns2. createLocked e r name ns1 = ((v, None), ns2) \<Longrightarrow>
         withSessionOperationLock e rid () (createLocked e r) ns = ((v, None), ns2)"
    have ld: "loadSessionOperationJournal e ns1 name = Inr None"
      using load_quiet_absent [OF q] ns1(1) names(1) new by simp
    obtain ns2 where w: "writeSessionOperationJournal e name ?j ns1 = (None, ns2)"
      "map_of (nsFiles ns2) (temporaryName e name) = None"
      using write_quiet [OF q env v d size [OF d], of ns1 name] ns1(1) names new tmp by auto
    then have "createLocked e r name ns1 = (((), None), ns2)"
      using ld name(2) by (simp add: createLocked_def Let_def sessionOperationMaxRecords_def)
    from ns1(2) [OF this] have run: "CreateSessionOperation e r ns = (((), None), ns2)"
      using r name(2) by (simp add: CreateSessionOperation_def)
    have "outcome e (afterCreate (dirRecords e (nsFiles ns)) r) None ns ns2"
      by (rule CreateSessionOperation_outcome [OF env ok r(3) run refl]) auto
    then have "dir_ok e (nsFiles ns2)" "dirRecords e (nsFiles ns2) = (dirRecords e (nsFiles ns))(rid := [r])"
      using outcome_end [OF _ ok] recs name(2) by (auto simp: outcome_def afterCreate_def Let_def)
    then show ?thesis using run w(2) by blast
  qed
qed

text \<open>
  C28. Without system-call failures a transition goes through: if the prior record is in the journal,
  the transition is valid, the new text fits the size limit and the temporary name is free, then
  \<open>TransitionSessionOperation\<close> reports success and the journal holds the new record.
\<close>

theorem fault_free_transition_succeeds:
  assumes "env_ok e" and "quiet e" and "dir_ok e (nsFiles ns)"
    and "validSessionOperationTransition (envCodec e) p n" and "int64Record n"
    and "sessionOperationFileName e rid = Inr name" and "rid = opProtectedResourceID (soOperation p)"
    and "p \<in> set (dirRecords e (nsFiles ns) rid)"
    and "map_of (nsFiles ns) (temporaryName e name) = None"
    and "\<And>i data. marshalJournal (envCodec e) \<lparr>jSchema = sessionOperationJournalSchema,
           jProtectedResourceID = rid, jRecords = (dirRecords e (nsFiles ns) rid)[i := n]\<rparr> = Some data \<Longrightarrow>
           length data \<le> sessionOperationFileMaxBytes"
  shows "\<exists>ns'. TransitionSessionOperation e p n ns = (((), None), ns') \<and>
     dirRecords e (nsFiles ns') = afterTransition (dirRecords e (nsFiles ns)) p n"
  using quiet_transition [OF assms(1-9)] assms(10) by blast

lemma quiet_load:
  assumes "env_ok e" "quiet e" "dir_ok e (nsFiles ns)" "sessionOperationFileName e rid = Inr name"
    and "map_of (nsFiles ns) name = Some f" "fileJournal e f = Some j" "jProtectedResourceID j = rid"
  shows "\<exists>ns'. LoadSessionOperations e rid ns = ((jRecords j, None), ns') \<and>
     map_of (nsFiles ns') (temporaryName e name) = map_of (nsFiles ns) (temporaryName e name)"
proof (rule withLock_quiet [OF assms(2,4), of ns "loadLocked e rid" "[]"])
  fix ns1
  assume ns1: "\<And>n. n \<noteq> sessionOperationLockFile \<Longrightarrow> map_of (nsFiles ns1) n = map_of (nsFiles ns) n"
    "\<And>v ns2. loadLocked e rid name ns1 = ((v, None), ns2) \<Longrightarrow>
       withSessionOperationLock e rid [] (loadLocked e rid) ns = ((v, None), ns2)"
  have "goodJournalFile e name f"
    using assms(3,5) fileName_valid [OF assms(1,4)] unfolding dir_ok_def by blast
  then have "loadSessionOperationJournal e ns1 name = Inr (Some j)"
    using load_quiet [OF assms(2)] ns1(1) temporary_names(1) [OF fileName_valid [OF assms(1,4)]] assms(5,6) by simp
  then have "loadLocked e rid name ns1 = ((jRecords j, None), ns1)" using assms(7) by (simp add: loadLocked_def)
  from ns1(2) [OF this] ns1(1) [OF temporary_names(2) [OF fileName_valid [OF assms(1,4)]]] show ?thesis
    by (simp add: LoadSessionOperations_def)
qed

section \<open>Witnesses\<close>

lemma wEnv_quiet: "quiet wEnv"
  by (simp add: quiet_def wEnv_def)

lemma wLoad: "\<exists>ns'. LoadSessionOperations wEnv ''res1'' wNs1 = (([wRec], None), ns')"
proof -
  have "map_of (nsFiles wNs1) wName = Some (committedFile (the (marshalJournal wCodec wJournal)))"
    by (simp add: wNs1_def)
  from quiet_load [OF wEnv_ok wEnv_quiet wNs1_ok wName_eq this wNs1_file] show ?thesis
    by (auto simp: wJournal_def)
qed

theorem load_exact_witness:
  "\<exists>rs ns'. LoadSessionOperations wEnv ''res1'' wNs1 = ((rs, None), ns') \<and> rs = [wRec] \<and>
     distinct (map soID rs) \<and> length rs \<le> 8"
  using wLoad load_exact [OF wEnv_ok wNs1_ok] wNs1_records by metis

definition wDisp :: SessionOperationRecord where
  "wDisp = wRec\<lparr>soStatus := SessionOperationDispatching\<rparr>"

lemma wDisp_transition: "validSessionOperationTransition wCodec wRec wDisp" "int64Record wDisp" "wDisp \<noteq> wRec"
proof -
  have "validSessionOperationRecord wCodec wDisp"
    using wOp_valid wEp_valid by (simp add: validSessionOperationRecord_def wDisp_def wRec_def initialRecord_def)
  then show "validSessionOperationTransition wCodec wRec wDisp"
    using wRec_valid(1) by (simp add: validSessionOperationTransition_def validSessionOperationRecoveryProgress_def
        validStatusStep_def wDisp_def wRec_def initialRecord_def)
  show "int64Record wDisp" "wDisp \<noteq> wRec"
    using wRec_valid(2) by (simp_all add: int64Record_def wDisp_def wRec_def initialRecord_def)
qed

lemma wDisp_marshal:
  "marshalJournal wCodec \<lparr>jSchema = 2, jProtectedResourceID = ''res1'', jRecords = [wDisp]\<rparr> = Some m \<Longrightarrow>
     length m \<le> 65536"
  by (auto simp: marshalJournal_def wDisp_def wRec_def initialRecord_def marshalRecord_def marshalTail_def
      wCodec_def wOp_def wEp_def key_def jsonString_def escAscii_def fmtInt_def fmtNat.simps digit10_def
      sessionOperationRecordSchema_def b64Encode_length byteOf_def)

lemma wResource: "opProtectedResourceID (soOperation wRec) = ''res1''"
  by (simp add: wRec_def initialRecord_def wOp_def)

lemma wTransition_args:
  "p \<in> set (dirRecords wEnv (nsFiles wNs1) ''res1'') \<Longrightarrow> p = wRec"
  "map_of (nsFiles wNs1) (temporaryName wEnv wName) = None"
  "marshalJournal wCodec \<lparr>jSchema = sessionOperationJournalSchema, jProtectedResourceID = ''res1'',
     jRecords = (dirRecords wEnv (nsFiles wNs1) ''res1'')[i := wDisp]\<rparr> = Some data \<Longrightarrow>
   length data \<le> sessionOperationFileMaxBytes"
proof -
  show "p \<in> set (dirRecords wEnv (nsFiles wNs1) ''res1'') \<Longrightarrow> p = wRec" by (simp add: wNs1_records)
  show "map_of (nsFiles wNs1) (temporaryName wEnv wName) = None"
    using temporary_names(3) [OF fileName_valid [OF wEnv_ok wName_eq]] by (simp add: wNs1_def)
  show "length data \<le> sessionOperationFileMaxBytes"
    if "marshalJournal wCodec \<lparr>jSchema = sessionOperationJournalSchema, jProtectedResourceID = ''res1'',
     jRecords = (dirRecords wEnv (nsFiles wNs1) ''res1'')[i := wDisp]\<rparr> = Some data"
    using that wDisp_marshal wMarshal
    by (cases i) (auto simp: wNs1_records sessionOperationJournalSchema_def sessionOperationFileMaxBytes_def wJournal_def)
qed

theorem fault_free_transition_succeeds_witness:
  "\<exists>ns'. TransitionSessionOperation wEnv wRec wDisp wNs1 = (((), None), ns') \<and>
     dirRecords wEnv (nsFiles ns') = afterTransition (dirRecords wEnv (nsFiles wNs1)) wRec wDisp"
  by (rule fault_free_transition_succeeds [OF wEnv_ok wEnv_quiet wNs1_ok _ wDisp_transition(2) wName_eq _ _
        wTransition_args(2)])
    (use wDisp_transition(1) wTransition_args(3) in \<open>auto simp: wResource wNs1_records\<close>)

lemma wTransition:
  "\<exists>ns'. TransitionSessionOperation wEnv wRec wDisp wNs1 = (((), None), ns') \<and>
     dirRecords wEnv (nsFiles ns') = afterTransition (dirRecords wEnv (nsFiles wNs1)) wRec wDisp \<and>
     map_of (nsFiles ns') (temporaryName wEnv wName) = None"
  by (rule quiet_transition [OF wEnv_ok wEnv_quiet wNs1_ok _ wDisp_transition(2) wName_eq _ _ wTransition_args(2)])
    (use wDisp_transition(1) wTransition_args(3) in \<open>auto simp: wResource wNs1_records\<close>)

theorem cas_single_winner_witness:
  "\<exists>ns' ns'' x. TransitionSessionOperation wEnv wRec wDisp wNs1 = (((), None), ns') \<and>
     TransitionSessionOperation wEnv wRec wDisp ns' = (((), x), ns'') \<and> x \<noteq> None \<and>
     dirRecords wEnv (nsFiles ns'') = dirRecords wEnv (nsFiles ns')"
proof -
  obtain ns' where a: "TransitionSessionOperation wEnv wRec wDisp wNs1 = (((), None), ns')"
    using wTransition by blast
  obtain x ns'' where b: "TransitionSessionOperation wEnv wRec wDisp ns' = (((), x), ns'')"
    by (metis old.unit.exhaust prod.collapse)
  have "same_host wEnv wEnv" by (simp add: same_host_def)
  from cas_single_winner [OF wEnv_ok this wEnv_ok wNs1_ok wRec_valid(2) wDisp_transition(2,3) a wDisp_transition(2) b]
  show ?thesis using a b by blast
qed

theorem decode_exact_witness:
  "decodeSessionOperationJournal wCodec (the (marshalJournal wCodec wJournal)) = Inr wJournal"
  using decode_exact [OF wCodec_ok, of "the (marshalJournal wCodec wJournal)" wJournal] wMarshal wJournal_valid wRec_valid(2)
  by (auto simp: wJournal_def)

lemma same_record_exact_witness: "\<not> sameSessionOperationRecord wCodec wRec wDisp"
  using same_record_exact [OF wCodec_ok wRec_valid(1) validTransitionD(2) [OF wDisp_transition(1)]
      wRec_valid(2) wDisp_transition(2)] wDisp_transition(3) by simp

lemma recovery_progress_paced_witness:
  "unat (soRecoveryAttempt wRec) \<le> unat (soRecoveryAttempt wDisp)"
  using recovery_progress_paced [OF r_into_rtranclp, of wCodec wRec wDisp] wDisp_transition(1) by blast

end
