(* ===== verification/Recovery_Host.thy ===== *)
theory Recovery_Host
  imports Recovery_Contract Journal_Props
begin

text \<open>
  Recovery on the durable journal: the world of \<open>Recovery\<close> made of the directory of \<open>Journal\<close>, other
  processes of the host that call the journal between any two of its calls, an arbitrary clock,
  network, context and assignment. The contract of \<open>Recovery_Contract\<close> is interpreted here, and the
  properties of recovery are stated over this world.
\<close>

section \<open>The host\<close>

text \<open>What call number \<open>n\<close> meets: its environment, the calls of others before it, and the answers.\<close>

record host =
  hEnv :: "nat \<Rightarrow> env"
  hOthers :: "nat \<Rightarrow> (env \<times> journalCall) list"
  hClock :: "nat \<Rightarrow> time"
  hNet :: "nat \<Rightarrow> NativeSessionOperation \<Rightarrow> NHPUDPEndpoint \<Rightarrow> exchange"
  hWait :: "nat \<Rightarrow> duration \<Rightarrow> err option"
  hCtx :: "nat \<Rightarrow> err option"
  hAssign :: "nat \<Rightarrow> string \<times> NHPUDPEndpoint"

text \<open>The ghost log of what recovery did, newest first.\<close>

datatype event =
    EvCreate SessionOperationRecord
  | EvTransition SessionOperationRecord SessionOperationRecord bool  \<comment> \<open>whether it succeeded\<close>
  | EvDelete SessionOperationRecord
  | EvNow time
  | EvExchange NativeSessionOperation NHPUDPEndpoint exchange

record jworld =
  jwNs :: namespace
  jwStep :: nat
  jwLog :: "event list"

definition tick :: "host \<Rightarrow> jworld \<Rightarrow> jworld" where
  "tick h w = w\<lparr>jwStep := Suc (jwStep w), jwNs := runCalls (hOthers h (jwStep w)) (jwNs w)\<rparr>"

definition jLoad ::
  "host \<Rightarrow> string \<Rightarrow> jworld \<Rightarrow> (SessionOperationRecord list \<times> err option) \<times> jworld" where
  "jLoad h rid w = (case LoadSessionOperations (hEnv h (jwStep w)) rid (jwNs (tick h w)) of
      (a, ns) \<Rightarrow> (a, (tick h w)\<lparr>jwNs := ns\<rparr>))"

definition jCreate :: "host \<Rightarrow> SessionOperationRecord \<Rightarrow> jworld \<Rightarrow> err option \<times> jworld" where
  "jCreate h r w = (case CreateSessionOperation (hEnv h (jwStep w)) r (jwNs (tick h w)) of
      ((_, x), ns) \<Rightarrow> (x, (tick h w)\<lparr>jwNs := ns, jwLog := EvCreate r # jwLog w\<rparr>))"

definition jTransition ::
  "host \<Rightarrow> SessionOperationRecord \<Rightarrow> SessionOperationRecord \<Rightarrow> jworld \<Rightarrow> err option \<times> jworld" where
  "jTransition h p n w = (case TransitionSessionOperation (hEnv h (jwStep w)) p n (jwNs (tick h w)) of
      ((_, x), ns) \<Rightarrow> (x, (tick h w)\<lparr>jwNs := ns, jwLog := EvTransition p n (x = None) # jwLog w\<rparr>))"

definition jDelete :: "host \<Rightarrow> SessionOperationRecord \<Rightarrow> jworld \<Rightarrow> err option \<times> jworld" where
  "jDelete h t w = (case DeleteSessionOperation (hEnv h (jwStep w)) t (jwNs (tick h w)) of
      ((_, x), ns) \<Rightarrow> (x, (tick h w)\<lparr>jwNs := ns, jwLog := EvDelete t # jwLog w\<rparr>))"

definition jops :: "host \<Rightarrow> jworld ops" where
  "jops h = \<lparr>opsLoad = jLoad h, opsCreate = jCreate h, opsTransition = jTransition h, opsDelete = jDelete h,
     opsNow = (\<lambda>w. (hClock h (jwStep w), (tick h w)\<lparr>jwLog := EvNow (hClock h (jwStep w)) # jwLog w\<rparr>)),
     opsWait = (\<lambda>dur w. (hWait h (jwStep w) dur, tick h w)),
     opsExchange = (\<lambda>op ep w. (hNet h (jwStep w) op ep,
        (tick h w)\<lparr>jwLog := EvExchange op ep (hNet h (jwStep w) op ep) # jwLog w\<rparr>)),
     opsCtxErr = (\<lambda>w. (hCtx h (jwStep w), tick h w)),
     opsAssignment = (\<lambda>w. (hAssign h (jwStep w), tick h w))\<rparr>"

section \<open>What the log allows\<close>

fun clockOf :: "event list \<Rightarrow> time" where
  "clockOf [] = 0"
| "clockOf (EvNow t # l) = t"
| "clockOf (_ # l) = clockOf l"

text \<open>Exchanges left: a durably counted attempt pays for two, each exchange uses one.\<close>

fun paidOf :: "event list \<Rightarrow> nat" where
  "paidOf [] = 0"
| "paidOf (EvTransition p n success # l) =
     (if success \<and> soRecoveryAttempt n = soRecoveryAttempt p + 1 then 2 else paidOf l)"
| "paidOf (EvExchange op ep a # l) = paidOf l - 1"
| "paidOf (_ # l) = paidOf l"

definition completes :: "exchange \<Rightarrow> bool" where
  "completes a = (snd a = None \<and> (case fst a of None \<Rightarrow> False | Some r \<Rightarrow> rvComplete r))"

fun finishedOf :: "event list \<Rightarrow> bool" where
  "finishedOf [] = False"
| "finishedOf (EvExchange op ep a # l) = (completes a \<or> finishedOf l)"
| "finishedOf (_ # l) = finishedOf l"

fun eventGuard :: "string \<Rightarrow> string \<Rightarrow> event list \<Rightarrow> event \<Rightarrow> bool" where
  "eventGuard rid opid l (EvCreate r) = False"
| "eventGuard rid opid l (EvTransition p n success) =
     (soID p = opid \<and> opProtectedResourceID (soOperation p) = rid \<and> soOperation n = soOperation p \<and>
      terminalGuard (finishedOf l) p n \<and> countGuard (clockOf l) p n)"
| "eventGuard rid opid l (EvDelete t) =
     (soID t = opid \<and> opProtectedResourceID (soOperation t) = rid \<and> terminal t)"
| "eventGuard rid opid l (EvNow t) = True"
| "eventGuard rid opid l (EvExchange op ep a) =
     (opOperationID op = opid \<and> validRecoveryEndpoint ep \<and> 0 < paidOf l)"

fun legal :: "string \<Rightarrow> string \<Rightarrow> event list \<Rightarrow> bool" where
  "legal rid opid [] = True"
| "legal rid opid (ev # l) = (legal rid opid l \<and> eventGuard rid opid l ev)"

section \<open>Good hosts\<close>

abbreviation hBase :: "host \<Rightarrow> env" where "hBase h \<equiv> hEnv h 0"

definition host_ok :: "host \<Rightarrow> bool" where
  "host_ok h \<longleftrightarrow> (\<forall>n. env_ok (hEnv h n) \<and> same_host (hEnv h n) (hBase h) \<and> clockRange (hClock h n) \<and>
     (\<forall>op ep. receipts_range (hNet h n op ep)) \<and>
     (\<forall>(e, call) \<in> set (hOthers h n). env_ok e \<and> same_host e (hBase h) \<and> goCall call))"

definition jrecs :: "host \<Rightarrow> jworld \<Rightarrow> journals" where
  "jrecs h w = dirRecords (hBase h) (nsFiles (jwNs w))"

definition jok :: "host \<Rightarrow> string \<Rightarrow> string \<Rightarrow> jworld \<Rightarrow> bool" where
  "jok h rid opid w \<longleftrightarrow> dir_ok (hBase h) (nsFiles (jwNs w)) \<and> legal rid opid (jwLog w)"

definition wHost :: host where
  "wHost = \<lparr>hEnv = (\<lambda>_. wEnv), hOthers = (\<lambda>_. []), hClock = (\<lambda>_. 0), hNet = (\<lambda>_ _ _. (None, None)),
     hWait = (\<lambda>_ _. None), hCtx = (\<lambda>_. None), hAssign = (\<lambda>_. ([], wEp))\<rparr>"

lemma wHost_ok: "host_ok wHost"
  by (simp add: host_ok_def wHost_def wEnv_ok same_host_def clockRange_def unixMilli_def maxInt64_def
      receipts_range_def)

text \<open>Every host, and a fixed good one in place of a host that is not.\<close>

definition safeHost :: "host \<Rightarrow> host" where
  "safeHost h = (if host_ok h then h else wHost)"

lemma safeHost_ok [simp]: "host_ok (safeHost h)" "host_ok h \<Longrightarrow> safeHost h = h"
  by (simp_all add: safeHost_def wHost_ok)

section \<open>The contract holds\<close>

lemma tick_dir:
  assumes "host_ok h" "dir_ok (hBase h) (nsFiles (jwNs w))"
  shows "dir_ok (hBase h) (nsFiles (jwNs (tick h w)))" "jwLog (tick h w) = jwLog w"
proof -
  have "\<forall>(e, call) \<in> set (hOthers h (jwStep w)). env_ok e \<and> same_host e (hBase h) \<and> goCall call"
    using assms(1) by (auto simp: host_ok_def)
  from through_end [OF runCalls_steps [OF this assms(2)]] assms(2)
  show "dir_ok (hBase h) (nsFiles (jwNs (tick h w)))" "jwLog (tick h w) = jwLog w"
    by (simp_all add: tick_def)
qed

lemma host_env:
  assumes "host_ok h"
  shows "env_ok (hEnv h n)" "dir_ok (hEnv h n) = dir_ok (hBase h)"
    "dirRecords (hEnv h n) = dirRecords (hBase h)" "envCodec (hEnv h n) = envCodec (hBase h)"
proof -
  have s: "same_host (hEnv h n) (hBase h)" and "env_ok (hEnv h n)" using assms by (auto simp: host_ok_def)
  then show "env_ok (hEnv h n)" "envCodec (hEnv h n) = envCodec (hBase h)" by (auto simp: same_host_def)
  show "dir_ok (hEnv h n) = dir_ok (hBase h)" "dirRecords (hEnv h n) = dirRecords (hBase h)"
    using same_host_simps [OF s] by simp_all
qed

lemma jLoad_law:
  assumes h: "host_ok h" and ok: "jok h rid opid w" and run: "jLoad h rid' w = ((rs, x), w')"
  shows "jok h rid opid w'" "x = None \<Longrightarrow> rs = jrecs h w' rid'"
proof -
  note t = tick_dir [OF h, of w]
  obtain ns where ns: "LoadSessionOperations (hEnv h (jwStep w)) rid' (jwNs (tick h w)) = ((rs, x), ns)"
    and w': "w' = (tick h w)\<lparr>jwNs := ns\<rparr>" using run by (auto simp: jLoad_def split: prod.splits)
  have d: "dir_ok (hEnv h (jwStep w)) (nsFiles (jwNs (tick h w)))"
    using ok t host_env(2) [OF h, of "jwStep w"] by (simp add: jok_def)
  note l = LoadSessionOperations_outcome [OF host_env(1) [OF h] d ns]
  note e = outcome_end [OF l(1) d]
  show "jok h rid opid w'" using e ok t(2) w' host_env [OF h, of "jwStep w"] by (simp add: jok_def)
  show "x = None \<Longrightarrow> rs = jrecs h w' rid'" using e l(2) w' host_env [OF h, of "jwStep w"] by (simp add: jrecs_def)
qed

lemma jTransition_law:
  assumes h: "host_ok h" and ok: "jok h rid opid w" and int: "int64Record p" "int64Record n"
    and g: "eventGuard rid opid (jwLog w) (EvTransition p n b)" and run: "jTransition h p n w = (x, w')"
  shows "jok h rid opid w'" "jwLog w' = EvTransition p n (x = None) # jwLog w"
    "x = None \<Longrightarrow> n \<in> set (jrecs h w' (opProtectedResourceID (soOperation p))) \<and>
       validSessionOperationTransition (envCodec (hBase h)) p n"
proof -
  note t = tick_dir [OF h, of w]
  obtain u ns where ns: "TransitionSessionOperation (hEnv h (jwStep w)) p n (jwNs (tick h w)) = ((u, x), ns)"
    and w': "w' = (tick h w)\<lparr>jwNs := ns, jwLog := EvTransition p n (x = None) # jwLog w\<rparr>"
    using run by (auto simp: jTransition_def split: prod.splits)
  have d: "dir_ok (hEnv h (jwStep w)) (nsFiles (jwNs (tick h w)))"
    using ok t host_env(2) [OF h, of "jwStep w"] by (simp add: jok_def)
  show log: "jwLog w' = EvTransition p n (x = None) # jwLog w" by (simp add: w')
  note T = TransitionSessionOperation_outcome [OF host_env(1) [OF h] d int ns refl]
  have "\<exists>T. outcome (hEnv h (jwStep w)) T x (jwNs (tick h w)) ns" by (rule T) blast+
  then have "dir_ok (hBase h) (nsFiles ns)" using outcome_end [OF _ d] host_env(2) [OF h] by metis
  then show "jok h rid opid w'" using g ok by (simp add: jok_def w')
  show "n \<in> set (jrecs h w' (opProtectedResourceID (soOperation p))) \<and>
       validSessionOperationTransition (envCodec (hBase h)) p n" if none: "x = None"
  proof (rule T)
    let ?S = "dirRecords (hEnv h (jwStep w)) (nsFiles (jwNs (tick h w)))"
    assume o: "outcome (hEnv h (jwStep w)) (afterTransition ?S p n) x (jwNs (tick h w)) ns"
      and v: "validSessionOperationTransition (envCodec (hEnv h (jwStep w))) p n"
      and p: "p \<in> set (?S (opProtectedResourceID (soOperation p)))"
    have "n \<in> set (afterTransition ?S p n (opProtectedResourceID (soOperation p)))"
      using p by (rule find_index_eq) (auto simp: afterTransition_def Let_def intro: set_update_memI)
    then show ?thesis using o none v host_env [OF h, of "jwStep w"] by (simp add: outcome_def jrecs_def w')
  qed (use none in simp)
qed

lemma jDelete_law:
  assumes h: "host_ok h" and ok: "jok h rid opid w" and int: "int64Record t"
    and g: "eventGuard rid opid (jwLog w) (EvDelete t)" and run: "jDelete h t w = (x, w')"
  shows "jok h rid opid w'" "jwLog w' = EvDelete t # jwLog w"
    "x = None \<Longrightarrow> soID t \<notin> soID ` set (jrecs h w' (opProtectedResourceID (soOperation t)))"
proof -
  note tk = tick_dir [OF h, of w]
  let ?rid = "opProtectedResourceID (soOperation t)" and ?e = "hEnv h (jwStep w)"
  obtain u ns where ns: "DeleteSessionOperation ?e t (jwNs (tick h w)) = ((u, x), ns)"
    and w': "w' = (tick h w)\<lparr>jwNs := ns, jwLog := EvDelete t # jwLog w\<rparr>"
    using run by (auto simp: jDelete_def split: prod.splits)
  have d: "dir_ok ?e (nsFiles (jwNs (tick h w)))" using ok tk host_env(2) [OF h, of "jwStep w"] by (simp add: jok_def)
  show "jwLog w' = EvDelete t # jwLog w" by (simp add: w')
  note T = DeleteSessionOperation_outcome [OF host_env(1) [OF h] d int ns refl]
  have "\<exists>T. outcome ?e T x (jwNs (tick h w)) ns" by (rule T) blast+
  then have "dir_ok (hBase h) (nsFiles ns)" using outcome_end [OF _ d] host_env(2) [OF h] by metis
  then show "jok h rid opid w'" using g ok by (simp add: jok_def w')
  show "soID t \<notin> soID ` set (jrecs h w' ?rid)" if none: "x = None"
  proof (rule T)
    let ?S = "dirRecords ?e (nsFiles (jwNs (tick h w)))"
    assume o: "outcome ?e (afterDelete ?S t) x (jwNs (tick h w)) ns" and m: "t \<in> set (?S ?rid)"
    have "soID t \<notin> soID ` set (afterDelete ?S t ?rid)"
    proof (rule find_index_eq [OF m])
      fix i
      assume i: "find_index (\<lambda>r. r = t) (?S ?rid) = Some i" "i < length (?S ?rid)" "?S ?rid ! i = t"
      then show ?thesis
        using set_remove_nth_distinct [of soID "?S ?rid" i] dirRecords_shape [of ?e _ ?rid]
        by (auto simp: afterDelete_def Let_def)
    qed
    then show ?thesis using o none host_env [OF h, of "jwStep w"] by (simp add: outcome_def jrecs_def w')
  qed (use none in simp)
qed

interpretation journal_world: recovery_world "envCodec (hBase (safeHost h))" "jops (safeHost h)" "jrecs (safeHost h)"
    "jok (safeHost h) rid opid" "\<lambda>w. clockOf (jwLog w)" "\<lambda>w. paidOf (jwLog w)" "\<lambda>w. finishedOf (jwLog w)" rid opid
  for h rid opid
proof (unfold_locales, goal_cases)
  case (1 w)
  then show ?case using dirRecords_valid [of _ "hBase (safeHost h)"] dirRecords_shape by (auto simp: wf_journals_def jrecs_def)
next
  case (2 w rs x w')
  then show ?case using jLoad_law [of "safeHost h" rid opid w rid rs x w'] by (simp add: jops_def)
next
  case (3 w p n x w')
  then show ?case using jTransition_law [of "safeHost h" rid opid w p n True x w'] by (simp add: jops_def)
next
  case (4 w p x w')
  then show ?case using jDelete_law [of "safeHost h" rid opid w p x w'] by (simp add: jops_def)
next
  case (5 w t w')
  then show ?case using tick_dir [of "safeHost h" w] safeHost_ok(1) [of h] by (auto simp: jops_def jok_def host_ok_def)
next
  case (6 w dur x w')
  then show ?case using tick_dir [of "safeHost h" w] by (auto simp: jops_def jok_def)
next
  case (7 w x w')
  then show ?case using tick_dir [of "safeHost h" w] by (auto simp: jops_def jok_def)
next
  case (8 w asg w')
  then show ?case using tick_dir [of "safeHost h" w] by (auto simp: jops_def jok_def)
next
  case (9 w op ep a w')
  then show ?case using tick_dir [of "safeHost h" w] safeHost_ok(1) [of h]
    by (auto simp: jops_def jok_def host_ok_def completes_def)
qed

end
