(* ===== verification/Recovery_Props.thy ===== *)
theory Recovery_Props
  imports Recovery_Host
begin

text \<open>
  The properties of durable session recovery, stated over the journal of a host with arbitrary other
  processes, clock and network, and their witnesses.
\<close>

section \<open>Reconciliation\<close>

lemma lineage_status:
  "lineage c p q \<Longrightarrow> p = q \<or> (soStatus p \<noteq> SessionOperationPrepared \<longrightarrow>
     reachableSessionOperationStatus (soStatus p) (soStatus q))"
proof (induction rule: rtranclp_induct)
  case (step y z)
  then show ?case using validTransitionD(7) [OF step.hyps(2)]
    by (auto simp: validStatusStep_def reachableSessionOperationStatus_def split: if_splits)
qed simp

lemma lineage_deadline:
  "lineage c p q \<Longrightarrow> soRecoveryNotBeforeMilli p \<le> soRecoveryNotBeforeMilli q \<and>
     soRecoveryAttempt p \<le> soRecoveryAttempt q \<and> soPostExpiryNoReplyAttempts p \<le> soPostExpiryNoReplyAttempts q \<and>
     (soRecoveryNotBeforeMilli p < soRecoveryNotBeforeMilli q \<longleftrightarrow>
        soRecoveryAttempt p < soRecoveryAttempt q \<or> soPostExpiryNoReplyAttempts p < soPostExpiryNoReplyAttempts q)"
proof (induction rule: rtranclp_induct)
  case (step y z)
  from validTransitionD(6) [OF step.hyps(2)] show ?case
  proof (cases rule: progress_cases)
    case none
    then show ?thesis using step.IH by simp
  next
    case attempt
    then have "soRecoveryAttempt y < soRecoveryAttempt z" by (simp add: word_less_nat_alt)
    then show ?thesis using step.IH attempt by auto
  next
    case failure
    then have "soPostExpiryNoReplyAttempts y < soPostExpiryNoReplyAttempts z" by (simp add: word_less_nat_alt)
    then show ?thesis using step.IH failure by auto
  qed
qed simp

lemma lineage_valid: "lineage c p q \<Longrightarrow> p = q \<or> (validSessionOperationRecord c p \<and> validSessionOperationRecord c q)"
proof (induction rule: rtranclp_induct)
  case (step y z)
  then show ?case using validTransitionD(1,2) [OF step.hyps(2)] by auto
qed simp

lemma blankMutable_same:
  "soSchema p = soSchema q \<Longrightarrow> soOperation p = soOperation q \<Longrightarrow> sameSessionOperationIdentity p q"
  by (simp add: sameSessionOperationIdentity_def blankMutable_def)

lemma guard_False: "(if A then False else B) = (\<not> A \<and> B)"
  by simp

lemma record_differs:
  assumes "(p :: SessionOperationRecord) \<noteq> q" "soSchema p = soSchema q" "soOperation p = soOperation q"
  shows "soStatus p \<noteq> soStatus q \<or> soRecoveryAttempt p \<noteq> soRecoveryAttempt q \<or>
    soPostExpiryNoReplyAttempts p \<noteq> soPostExpiryNoReplyAttempts q \<or>
    soRecoveryNotBeforeMilli p \<noteq> soRecoveryNotBeforeMilli q \<or> soRecoveryEndpoint p \<noteq> soRecoveryEndpoint q \<or>
    soAdmission p \<noteq> soAdmission q"
  using assms by (cases p; cases q) auto



section \<open>Recovery\<close>

lemma start_ok:
  "host_ok h \<Longrightarrow> dir_ok (hBase h) (nsFiles (jwNs w)) \<Longrightarrow> jwLog w = [] \<Longrightarrow> jok (safeHost h) rid opid w"
  by (simp add: jok_def)

lemma recover_spec:
  assumes "host_ok h" "dir_ok (hBase h) (nsFiles (jwNs w))" "jwLog w = []"
    and "RecoverOperation (jops h) runtimeOk rid opid w = Some (x, w')"
  shows "jok h rid opid w' \<and> (x = None \<longrightarrow> opid \<notin> soID ` set (jrecs h w' rid))"
proof (cases "runtimeOk \<and> opid \<noteq> []")
  case True
  then have "recoverLoop (jops (safeHost h)) rid opid w = Some (x, w')"
    using assms(1,4) by (simp add: RecoverOperation_def)
  from journal_world.loop_spec [OF start_ok [OF assms(1-3)] this, unfolded journal_world.absent_def]
  show ?thesis using assms(1) by simp
next
  case False
  then show ?thesis using assms start_ok [OF assms(1-3)] by (auto simp: RecoverOperation_def)
qed

text \<open>
  C2. A recovery that reports success is finished: whatever other processes, the clock, the network and
  failing system calls did in between, when \<open>RecoverOperation\<close> returns nil the journal of the resource
  holds no record of the operation at that moment.
\<close>

theorem recovered_operation_is_absent:
  assumes "host_ok h" and "dir_ok (hBase h) (nsFiles (jwNs w))" and "jwLog w = []"
    and "RecoverOperation (jops h) runtimeOk rid opid w = Some (None, w')"
  shows "\<forall>r \<in> set (jrecs h w' rid). soID r \<noteq> opid"
  using recover_spec [OF assms] by auto


text \<open>
  Retirement is exact: \<open>Retire\<close> reports success only when the operation is gone, and where the
  durable record does not carry exactly the live receipt it reports a conflict without any write,
  deletion or packet.
\<close>

lemma retire_exact:
  assumes "host_ok h" and "dir_ok (hBase h) (nsFiles (jwNs w))" and "jwLog w = []"
    and "Retire (jops h) runtimeOk rid opid receipt w = Some (x, w')"
  shows "(x = None \<longrightarrow> (\<forall>r \<in> set (jrecs h w' rid). soID r \<noteq> opid)) \<and>
     (\<forall>r w1. loadOperation (jops h) rid opid w = ((Some r, None), w1) \<longrightarrow>
        soAdmission r \<noteq> Some (admissionFromReceipt receipt) \<longrightarrow>
        (\<exists>e. x = Some e \<and> errorsIs e SConflict) \<and> jwLog w' = [])"
proof -
  obtain ro y w1 where l: "loadOperation (jops h) rid opid w = ((ro, y), w1)" by (metis prod.exhaust)
  have l': "loadOperation (jops (safeHost h)) rid opid w = ((ro, y), w1)" using l assms(1) by simp
  note s = journal_world.loadOperation_spec [OF start_ok [OF assms(1-3)] l', unfolded journal_world.absent_def]
  have log: "jwLog w1 = []"
    using l assms(3) by (auto simp: loadOperation_def jops_def jLoad_def tick_def split: prod.splits option.splits)
  have dir: "dir_ok (hBase h) (nsFiles (jwNs w1))" using s(1) assms(1) by (simp add: jok_def)
  show ?thesis
  proof (cases "ro = None \<or> y \<noteq> None")
    case True
    then show ?thesis using assms(1,4) l s
      by (auto simp: Retire_def split: option.splits)
  next
    case False
    then obtain r where r: "ro = Some r" "y = None" by auto
    show ?thesis
    proof (cases "Retire (jops h) runtimeOk rid opid receipt w = RecoverOperation (jops h) runtimeOk rid opid w1 \<and>
        soAdmission r = Some (admissionFromReceipt receipt)")
      case True
      then show ?thesis using recover_spec [OF assms(1) dir log, of runtimeOk rid opid x w'] assms(4) l r by auto
    next
      case False
      then have "x = Some (conflict ''live receipt does not match durable operation'')" "w' = w1"
        using assms(4) l r by (auto simp: Retire_def split: if_splits)
      then show ?thesis using l r log by (auto simp: conflict_def)
    qed
  qed
qed

text \<open>
  An admission is durable when it is reported: if \<open>RecordMapped\<close> succeeds, the journal of the
  resource holds the MAPPED record of exactly this operation with exactly this receipt.
\<close>

lemma mapped_is_durable:
  assumes "host_ok h" and "dir_ok (hBase h) (nsFiles (jwNs w))" and "jwLog w = []"
    and "rcSessionIssuedAtMillis receipt \<le> maxInt64"
    and "RecordMapped (jops h) rid operation receipt w = (None, w')"
  shows "\<exists>r \<in> set (jrecs h w' rid). soOperation r = operation \<and> soStatus r = SessionOperationMapped \<and>
     soAdmission r = Some (admissionFromReceipt receipt)"
proof -
  let ?opid = "opOperationID operation"
  obtain r w1 where l: "loadOperation (jops h) rid ?opid w = ((Some r, None), w1)"
    and r: "soStatus r = SessionOperationDispatching" "soOperation r = operation"
    and t: "opsTransition (jops h) r (r\<lparr>soStatus := SessionOperationMapped,
        soAdmission := Some (admissionFromReceipt receipt)\<rparr>) w1 = (None, w')"
    using assms(5) by (auto simp: RecordMapped_def split: prod.splits option.splits if_splits)
  let ?n = "r\<lparr>soStatus := SessionOperationMapped, soAdmission := Some (admissionFromReceipt receipt)\<rparr>"
  have l': "loadOperation (jops (safeHost h)) rid ?opid w = ((Some r, None), w1)" using l assms(1) by simp
  note s = journal_world.loadOperation_spec [OF start_ok [OF assms(1-3)] l']
  note m = s(3) [OF refl, unfolded journal_world.mine_def]
  have int: "int64Record r" "int64Record ?n"
    using m assms(4) by (auto simp: int64Record_def admissionFromReceipt_def)
  have t': "opsTransition (jops (safeHost h)) r ?n w1 = (None, w')" using t assms(1) by simp
  have g: "terminalGuard (finishedOf (jwLog w1)) r ?n" "countGuard (clockOf (jwLog w1)) r ?n"
    by (simp_all add: terminalGuard_def countGuard_def terminal_def)
  have "?n \<in> set (jrecs (safeHost h) w' rid)"
    using journal_world.transition_law [OF s(1) _ _ _ int g t'] m by simp
  then show ?thesis using assms(1) r by (intro bexI [of _ ?n]) simp_all
qed

text \<open>
  The ambiguity boundary is durable before dispatch: if \<open>PrepareDispatch\<close> returns an operation, the
  journal of its resource already holds it as DISPATCHING with no counted attempt, so a crash at any
  later moment finds it.
\<close>

lemma dispatch_is_durable:
  assumes "host_ok h" and "dir_ok (hBase h) (nsFiles (jwNs w))"
    and "\<forall>i v. jwNs (snd (prepare i v)) = jwNs v"
    and "PrepareDispatch (envCodec (hBase h)) (jops h) prepare owner runtimeOk knockRID rid runID runAttempt w
           = (Inr operation, w')"
  shows "\<exists>r \<in> set (jrecs h w' (opProtectedResourceID operation)). soOperation r = operation \<and>
     soStatus r = SessionOperationDispatching \<and> soRecoveryAttempt r = 0 \<and> soAdmission r = None"
proof -
  let ?c = "envCodec (hBase h)"
  let ?rid = "opProtectedResourceID operation" and ?opid = "opOperationID operation"
  obtain now w1 i ep w2 rcd w3 where n: "opsNow (jops h) w = (now, w1)"
    and p: "prepare i w1 = (Inr (operation, ep), w2)"
    and r: "NewSessionOperationRecord ?c operation ep = Inr rcd"
    and cr: "opsCreate (jops h) rcd w2 = (None, w3)"
    and t: "opsTransition (jops h) rcd (rcd\<lparr>soStatus := SessionOperationDispatching\<rparr>) w3 = (None, w')"
    using assms(4)
    by (auto simp: PrepareDispatch_def split: prod.splits sum.splits option.splits if_splits)
  have rec: "rcd = initialRecord operation ep" using r by (auto simp: NewSessionOperationRecord_def split: if_splits)
  have int: "int64Record rcd" "int64Record (rcd\<lparr>soStatus := SessionOperationDispatching\<rparr>)"
    by (simp_all add: rec initialRecord_def int64Record_def maxInt64_def)
  have d1: "dir_ok (hBase h) (nsFiles (jwNs w2))"
    using tick_dir(1) [OF assms(1,2)] n p spec [OF spec [OF assms(3)], of i w1] by (auto simp: jops_def)
  obtain u ns where c: "CreateSessionOperation (hEnv h (jwStep w2)) rcd (jwNs (tick h w2)) = ((u, None), ns)"
    and w3: "jwNs w3 = ns"
    using cr by (auto simp: jops_def jCreate_def split: prod.splits)
  have d2: "dir_ok (hEnv h (jwStep w2)) (nsFiles (jwNs (tick h w2)))"
    using tick_dir(1) [OF assms(1) d1] host_env(2) [OF assms(1), of "jwStep w2"] by simp
  have "\<exists>T. outcome (hEnv h (jwStep w2)) T None (jwNs (tick h w2)) ns"
    by (rule CreateSessionOperation_outcome [OF host_env(1) [OF assms(1)] d2 int(1) c refl]) blast+
  then have d3: "dir_ok (hBase h) (nsFiles (jwNs w3))"
    using outcome_end [OF _ d2] host_env(2) [OF assms(1), of "jwStep w2"] w3 by metis
  have j: "jTransition h rcd (rcd\<lparr>soStatus := SessionOperationDispatching\<rparr>) (w3\<lparr>jwLog := []\<rparr>) =
      (None, w'\<lparr>jwLog := [EvTransition rcd (rcd\<lparr>soStatus := SessionOperationDispatching\<rparr>) True]\<rparr>)"
    using t by (auto simp: jops_def jTransition_def tick_def split: prod.splits)
  have "eventGuard ?rid ?opid (jwLog (w3\<lparr>jwLog := []\<rparr>))
      (EvTransition rcd (rcd\<lparr>soStatus := SessionOperationDispatching\<rparr>) True)"
    by (simp add: rec initialRecord_def terminalGuard_def terminal_def countGuard_def)
  from jTransition_law(3) [OF assms(1) _ int this j] d3
  have "rcd\<lparr>soStatus := SessionOperationDispatching\<rparr> \<in> set (jrecs h w' ?rid)"
    by (simp add: jok_def jrecs_def rec initialRecord_def)
  then show ?thesis
    by (intro bexI [of _ "rcd\<lparr>soStatus := SessionOperationDispatching\<rparr>"]) (simp_all add: rec initialRecord_def)
qed

text \<open>
  The two retry delays in closed form: the ordinary one doubles from 100 ms per attempt up to 2 s, the
  one for counted silences doubles from 2 s per silence (4 s, 8 s, 16 s) up to 30 s; both stay in these
  bounds for every 32-bit counter.
\<close>

lemma recovery_backoffs_closed:
  "nativeSessionRecoveryBackoff a = min (100 * millisecond * 2 ^ (unat a - 1)) (2 * second) \<and>
   nativeSessionRecoveryNoReplyBackoff f = min (2 * second * 2 ^ unat f) (30 * second) \<and>
   0 \<le> nativeSessionRecoveryBackoff a \<and> nativeSessionRecoveryBackoff a \<le> 2 * second \<and>
   0 \<le> nativeSessionRecoveryNoReplyBackoff f \<and> nativeSessionRecoveryNoReplyBackoff f \<le> 30 * second"
  using recoveryBackoff_closed [of a] noReplyBackoff_closed [of f] backoff_bounds(1) [of a] backoff_bounds(3,4) [of f]
  by (simp add: recovery_delays)

section \<open>Witnesses\<close>

definition wWorld :: "namespace \<Rightarrow> jworld" where
  "wWorld ns = \<lparr>jwNs = ns, jwStep = 0, jwLog = []\<rparr>"

lemma wHost_base [simp]: "hEnv wHost n = wEnv" "hOthers wHost n = []"
  by (simp_all add: wHost_def)

lemma wTick [simp]: "jwNs (tick wHost w) = jwNs w"
  by (simp add: tick_def)

lemma wNs_ok: "dir_ok wEnv (nsFiles wNs)"
  by (simp add: dir_ok_def wNs_def)

lemma wLoad_empty: "\<exists>ns'. LoadSessionOperations wEnv ''res1'' wNs = (([], None), ns')"
proof (rule withLock_quiet [OF wEnv_quiet wName_eq, of wNs "loadLocked wEnv ''res1''" "[]"])
  fix ns1
  assume a: "\<And>n. n \<noteq> sessionOperationLockFile \<Longrightarrow> map_of (nsFiles ns1) n = map_of (nsFiles wNs) n"
    "\<And>v ns2. loadLocked wEnv ''res1'' wName ns1 = ((v, None), ns2) \<Longrightarrow>
       withSessionOperationLock wEnv ''res1'' [] (loadLocked wEnv ''res1'') wNs = ((v, None), ns2)"
  have "loadSessionOperationJournal wEnv ns1 wName = Inr None"
    using load_quiet_absent [OF wEnv_quiet] a(1) temporary_names(1) [OF fileName_valid [OF wEnv_ok wName_eq]]
    by (simp add: wNs_def)
  then have "loadLocked wEnv ''res1'' wName ns1 = (([], None), ns1)" by (simp add: loadLocked_def)
  from a(2) [OF this] show ?thesis by (simp add: LoadSessionOperations_def)
qed

lemma wLoadOperation_empty:
  "\<exists>w1. loadOperation (jops wHost) ''res1'' ''op1'' (wWorld wNs) = ((None, None), w1)"
  using wLoad_empty by (auto simp: loadOperation_def jops_def jLoad_def wWorld_def)

lemma wRecover: "\<exists>w'. RecoverOperation (jops wHost) True ''res1'' ''op1'' (wWorld wNs) = Some (None, w')"
  using wLoadOperation_empty by (auto simp: RecoverOperation_def recoverLoop.simps recoverPass_def)

lemma wStart: "host_ok wHost" "dir_ok (hBase wHost) (nsFiles (jwNs (wWorld wNs)))" "jwLog (wWorld wNs) = []"
  by (simp_all add: wHost_ok wNs_ok wWorld_def)

theorem recovered_operation_is_absent_witness:
  "\<exists>w'. RecoverOperation (jops wHost) True ''res1'' ''op1'' (wWorld wNs) = Some (None, w') \<and>
     ''op1'' \<notin> soID ` set (jrecs wHost w' ''res1'')"
  using wRecover recovered_operation_is_absent [OF wStart] by fastforce


definition wReceipt :: NativeSessionReceipt where
  "wReceipt = \<lparr>rcCellID = ''c1'', rcSessionID = 7, rcSessionIssuedAtMillis = 100, rcRunID = ''run1'', rcRunAttempt = 1\<rparr>"

lemma retire_exact_witness:
  "\<exists>w'. Retire (jops wHost) True ''res1'' ''op1'' wReceipt (wWorld wNs) = Some (None, w') \<and>
     ''op1'' \<notin> soID ` set (jrecs wHost w' ''res1'')"
proof -
  obtain w1 where r: "Retire (jops wHost) True ''res1'' ''op1'' wReceipt (wWorld wNs) = Some (None, w1)"
    using wLoadOperation_empty by (auto simp: Retire_def)
  then show ?thesis using retire_exact [OF wStart r] by auto
qed

definition wPrepare :: "operationInput \<Rightarrow> jworld \<Rightarrow> (NativeSessionOperation \<times> NHPUDPEndpoint) res \<times> jworld" where
  "wPrepare i w = (Inr (wOp, wEp), w)"

lemma wName_new: "map_of (nsFiles wNs) wName = None" "map_of (nsFiles wNs) (temporaryName wEnv wName) = None"
  by (simp_all add: wNs_def)

lemma wCreated: "\<exists>ns'. CreateSessionOperation wEnv wRec wNs = (((), None), ns') \<and> dir_ok wEnv (nsFiles ns') \<and>
     dirRecords wEnv (nsFiles ns') ''res1'' = [wRec] \<and> map_of (nsFiles ns') (temporaryName wEnv wName) = None"
proof -
  have "\<exists>ns'. CreateSessionOperation wEnv wRec wNs = (((), None), ns') \<and> dir_ok wEnv (nsFiles ns') \<and>
     dirRecords wEnv (nsFiles ns') = (dirRecords wEnv (nsFiles wNs))(''res1'' := [wRec]) \<and>
     map_of (nsFiles ns') (temporaryName wEnv wName) = None"
    by (rule quiet_create [OF wEnv_ok wEnv_quiet wNs_ok _ _ wRec_valid(2) wName_eq _ wName_new])
      (use wRec_valid(1) wMarshal in \<open>auto simp: wResource wRec_def initialRecord_def wJournal_def
          sessionOperationJournalSchema_def sessionOperationFileMaxBytes_def wOp_def\<close>)
  then show ?thesis by auto
qed

lemma wDispatched:
  assumes "dir_ok wEnv (nsFiles ns)" "dirRecords wEnv (nsFiles ns) ''res1'' = [wRec]"
    "map_of (nsFiles ns) (temporaryName wEnv wName) = None"
  shows "\<exists>ns'. TransitionSessionOperation wEnv wRec wDisp ns = (((), None), ns') \<and>
     dirRecords wEnv (nsFiles ns') ''res1'' = [wDisp] \<and> dir_ok wEnv (nsFiles ns') \<and>
     map_of (nsFiles ns') (temporaryName wEnv wName) = None"
proof -
  have size: "length data \<le> sessionOperationFileMaxBytes"
    if "marshalJournal (envCodec wEnv) \<lparr>jSchema = sessionOperationJournalSchema, jProtectedResourceID = ''res1'',
          jRecords = (dirRecords wEnv (nsFiles ns) ''res1'')[i := wDisp]\<rparr> = Some data" for i data
    using wTransition_args(3) [of i data] that assms(2) by (simp add: wNs1_records)
  have "\<exists>ns'. TransitionSessionOperation wEnv wRec wDisp ns = (((), None), ns') \<and>
    dirRecords wEnv (nsFiles ns') = afterTransition (dirRecords wEnv (nsFiles ns)) wRec wDisp \<and>
    map_of (nsFiles ns') (temporaryName wEnv wName) = None"
    by (rule quiet_transition [OF wEnv_ok wEnv_quiet assms(1) _ wDisp_transition(2) wName_eq _ _ assms(3)])
      (use wDisp_transition(1) size assms(2) in \<open>auto simp: wResource\<close>)
  then obtain ns' where t: "TransitionSessionOperation wEnv wRec wDisp ns = (((), None), ns')"
    "dirRecords wEnv (nsFiles ns') = afterTransition (dirRecords wEnv (nsFiles ns)) wRec wDisp"
    "map_of (nsFiles ns') (temporaryName wEnv wName) = None" by blast
  have "\<exists>T. outcome wEnv T None ns ns'"
    by (rule TransitionSessionOperation_outcome [OF wEnv_ok assms(1) wRec_valid(2) wDisp_transition(2) t(1) refl]) blast+
  then show ?thesis using t assms(2) outcome_end [OF _ assms(1)]
    by (auto simp: afterTransition_def Let_def wResource)
qed

lemma wPrepareDispatch:
  "\<exists>w'. PrepareDispatch (envCodec (hBase wHost)) (jops wHost) wPrepare ''o'' True ''k'' ''res1'' ''run1'' 1 (wWorld wNs)
       = (Inr wOp, w') \<and> dir_ok wEnv (nsFiles (jwNs w')) \<and> dirRecords wEnv (nsFiles (jwNs w')) ''res1'' = [wDisp]"
proof -
  obtain ns1 where c: "CreateSessionOperation wEnv wRec wNs = (((), None), ns1)" "dir_ok wEnv (nsFiles ns1)"
     "dirRecords wEnv (nsFiles ns1) ''res1'' = [wRec]" "map_of (nsFiles ns1) (temporaryName wEnv wName) = None"
    using wCreated by blast
  obtain ns2 where t: "TransitionSessionOperation wEnv wRec wDisp ns1 = (((), None), ns2)"
     "dirRecords wEnv (nsFiles ns2) ''res1'' = [wDisp]" "dir_ok wEnv (nsFiles ns2)"
    using wDispatched [OF c(2-4)] by blast
  have n: "NewSessionOperationRecord wCodec wOp wEp = Inr wRec"
    using wOp_valid wEp_valid by (simp add: NewSessionOperationRecord_def wRec_def)
  show ?thesis using c t n
    by (auto simp: PrepareDispatch_def jops_def jCreate_def jTransition_def wPrepare_def wWorld_def wDisp_def
        split: prod.splits)
qed

lemma dispatch_is_durable_witness:
  "\<exists>w' r. PrepareDispatch (envCodec (hBase wHost)) (jops wHost) wPrepare ''o'' True ''k'' ''res1'' ''run1'' 1 (wWorld wNs)
       = (Inr wOp, w') \<and> r \<in> set (jrecs wHost w' (opProtectedResourceID wOp)) \<and> soOperation r = wOp \<and>
       soStatus r = SessionOperationDispatching"
proof -
  have p: "\<forall>i v. jwNs (snd (wPrepare i v)) = jwNs v" by (simp add: wPrepare_def)
  obtain w' where w': "PrepareDispatch (envCodec (hBase wHost)) (jops wHost) wPrepare ''o'' True ''k'' ''res1'' ''run1'' 1 (wWorld wNs)
       = (Inr wOp, w')" using wPrepareDispatch by blast
  from dispatch_is_durable [OF wStart(1,2) p this] w' show ?thesis by blast
qed

definition wMapped :: SessionOperationRecord where
  "wMapped = wDisp\<lparr>soStatus := SessionOperationMapped, soAdmission := Some (admissionFromReceipt wReceipt)\<rparr>"

lemma wMapped_transition: "validSessionOperationTransition wCodec wDisp wMapped" "int64Record wMapped"
proof -
  have d: "validSessionOperationRecord wCodec wDisp"
    using validTransitionD(2) [OF wDisp_transition(1)] .
  have "validSessionOperationRecord wCodec wMapped"
    using wOp_valid wEp_valid
    by (simp add: validSessionOperationRecord_def wMapped_def wDisp_def wRec_def initialRecord_def
        validSessionOperationAdmission_def admissionFromReceipt_def wReceipt_def wOp_def)
  then show "validSessionOperationTransition wCodec wDisp wMapped"
    using d by (simp add: validSessionOperationTransition_def validSessionOperationRecoveryProgress_def
        validStatusStep_def wMapped_def wDisp_def wRec_def initialRecord_def)
  show "int64Record wMapped"
    by (simp add: int64Record_def wMapped_def wDisp_def wRec_def initialRecord_def admissionFromReceipt_def
        wReceipt_def maxInt64_def)
qed

lemma wMapped_marshal:
  "marshalJournal wCodec \<lparr>jSchema = 2, jProtectedResourceID = ''res1'', jRecords = [wMapped]\<rparr> = Some m \<Longrightarrow>
     length m \<le> 65536"
  by (auto simp: marshalJournal_def wMapped_def wDisp_def wRec_def initialRecord_def marshalRecord_def marshalTail_def
      marshalAdmission_def admissionFromReceipt_def wReceipt_def
      wCodec_def wOp_def wEp_def key_def jsonString_def escAscii_def fmtInt_def fmtNat.simps digit10_def
      sessionOperationRecordSchema_def b64Encode_length byteOf_def)

lemma wDisp_resource: "opProtectedResourceID (soOperation wDisp) = ''res1''" "soOperation wDisp = wOp" "soID wDisp = ''op1''"
  by (simp_all add: wDisp_def wRec_def initialRecord_def wOp_def)

lemma wRecordMapped:
  assumes "dir_ok wEnv (nsFiles ns)" "dirRecords wEnv (nsFiles ns) ''res1'' = [wDisp]"
    "map_of (nsFiles ns) (temporaryName wEnv wName) = None"
  shows "\<exists>w'. RecordMapped (jops wHost) ''res1'' wOp wReceipt (wWorld ns) = (None, w')"
proof -
  obtain f j where f: "map_of (nsFiles ns) wName = Some f" "fileJournal wEnv f = Some j"
      "jRecords j = [wDisp]" "jProtectedResourceID j = ''res1''"
    using dirRecords_at [OF wName_eq, of "nsFiles ns"] assms(2) by auto
  obtain ns1 where l: "LoadSessionOperations wEnv ''res1'' ns = (([wDisp], None), ns1)"
      "map_of (nsFiles ns1) (temporaryName wEnv wName) = None"
    using assms(3) quiet_load [OF wEnv_ok wEnv_quiet assms(1) wName_eq f(1,2,4)] f(3) by auto
  note lo = LoadSessionOperations_outcome(1) [OF wEnv_ok assms(1) l(1)]
  have d1: "dir_ok wEnv (nsFiles ns1)" "dirRecords wEnv (nsFiles ns1) ''res1'' = [wDisp]"
    using outcome_end [OF lo assms(1)] assms(2) by auto
  have size: "length data \<le> sessionOperationFileMaxBytes"
    if "marshalJournal wCodec \<lparr>jSchema = sessionOperationJournalSchema, jProtectedResourceID = ''res1'',
          jRecords = (dirRecords wEnv (nsFiles ns1) ''res1'')[i := wMapped]\<rparr> = Some data" for i data
    using that d1(2) wMapped_marshal [of data] wDisp_marshal [of data]
    by (cases i) (simp_all add: sessionOperationJournalSchema_def sessionOperationFileMaxBytes_def)
  have "\<exists>ns2. TransitionSessionOperation wEnv wDisp wMapped ns1 = (((), None), ns2) \<and>
    dirRecords wEnv (nsFiles ns2) = afterTransition (dirRecords wEnv (nsFiles ns1)) wDisp wMapped \<and>
    map_of (nsFiles ns2) (temporaryName wEnv wName) = None"
    by (rule quiet_transition [OF wEnv_ok wEnv_quiet d1(1) _ wMapped_transition(2) wName_eq _ _ l(2)])
      (use wMapped_transition(1) size d1(2) in \<open>auto simp: wDisp_resource wOp_def\<close>)
  then obtain ns2 where t: "TransitionSessionOperation wEnv wDisp wMapped ns1 = (((), None), ns2)" by blast
  show ?thesis using l(1) t
    by (auto simp: RecordMapped_def loadOperation_def jops_def jLoad_def jTransition_def wWorld_def wMapped_def
        wDisp_resource wDisp_def wRec_def initialRecord_def wOp_def split: prod.splits)
qed

definition wNs2 :: namespace where
  "wNs2 = \<lparr>nsFiles = [(wName, committedFile (the (marshalJournal wCodec (wJournal\<lparr>jRecords := [wDisp]\<rparr>))))], nsTrace = []\<rparr>"

lemma wNs2_facts:
  shows "dir_ok wEnv (nsFiles wNs2)" "dirRecords wEnv (nsFiles wNs2) ''res1'' = [wDisp]"
    "map_of (nsFiles wNs2) (temporaryName wEnv wName) = None"
proof -
  let ?j = "wJournal\<lparr>jRecords := [wDisp]\<rparr>"
  have v: "validSessionOperationJournal wCodec ?j"
    using validTransitionD(2) [OF wDisp_transition(1)]
    by (simp add: validJournal_iff wJournal_def sessionOperationJournalSchema_def
      sessionOperationMaxRecords_def wDisp_resource wOp_def)
  have "\<exists>m. marshalJournal wCodec ?j = Some m \<and> 0 < length m \<and> length m \<le> 65536"
    by (simp add: marshalJournal_def wJournal_def wDisp_def wRec_def initialRecord_def marshalRecord_def marshalTail_def
      wCodec_def wOp_def wEp_def key_def jsonString_def escAscii_def fmtInt_def fmtNat.simps digit10_def
      sessionOperationRecordSchema_def b64Encode_length byteOf_def)
  then obtain m where m: "marshalJournal wCodec ?j = Some m" "0 < length m" "length m \<le> 65536" by blast
  have f: "fileJournal wEnv (committedFile m) = Some ?j"
    using fileJournal_committed [OF wEnv_ok, of ?j m] v m wDisp_transition(2) by simp
  show "dir_ok wEnv (nsFiles wNs2)"
    using f m wName_eq by (simp add: dir_ok_def wNs2_def goodJournalFile_def privateFile_def committedFile_def
        sessionOperationFileMaxBytes_def wJournal_def)
  show "dirRecords wEnv (nsFiles wNs2) ''res1'' = [wDisp]"
    using f m wName_eq by (simp add: dirRecords_def wNs2_def wJournal_def)
  show "map_of (nsFiles wNs2) (temporaryName wEnv wName) = None"
    using temporary_names(3) [OF fileName_valid [OF wEnv_ok wName_eq]] by (simp add: wNs2_def)
qed

lemma mapped_is_durable_witness:
  "\<exists>w' r. RecordMapped (jops wHost) ''res1'' wOp wReceipt (wWorld wNs2) = (None, w') \<and>
     r \<in> set (jrecs wHost w' ''res1'') \<and> soOperation r = wOp \<and> soStatus r = SessionOperationMapped"
proof -
  have s: "dir_ok (hBase wHost) (nsFiles (jwNs (wWorld wNs2)))" "jwLog (wWorld wNs2) = []"
    using wNs2_facts by (simp_all add: wHost_def wWorld_def)
  obtain w' where w': "RecordMapped (jops wHost) ''res1'' wOp wReceipt (wWorld wNs2) = (None, w')"
    using wRecordMapped [OF wNs2_facts] by blast
  have "rcSessionIssuedAtMillis wReceipt \<le> maxInt64" by (simp add: wReceipt_def maxInt64_def)
  from mapped_is_durable [OF wStart(1) s this w'] w' show ?thesis by blast
qed

end
