(* ===== verification/Proxy_Names.thy ===== *)
theory Proxy_Names
  imports Go_JSON
begin

text \<open>
  Names of FRP proxies: \<open>pkg/config/frpgen.go\<close> (\<open>FRPProxyName\<close>, \<open>normalizeProxyDiscriminator\<close>),
  \<open>sessionProxyDiscriminator\<close> of \<open>pkg/share/frp.go\<close> and the name half of \<open>groupProxyName\<close> of
  \<open>pkg/share/group_frp.go\<close>. SHA-256 is the parameter \<open>sha\<close>, a function from byte strings to bytes.
\<close>

section \<open>The sources\<close>

definition maxProxyDiscriminatorLen :: nat where "maxProxyDiscriminatorLen = 16"
definition proxyHashSuffixLen :: nat where "proxyHashSuffixLen = 8"

text \<open>
  \<open>strings.ToLower\<close> on UTF-8 bytes, as far as ASCII letters come out of it: the upper case ASCII
  letters, U+0130 (C4 B0) and the Kelvin sign U+212A (E2 84 AA). The other code points lower to
  code points outside ASCII, which the callers drop or never pass.
\<close>

fun toLower :: "string \<Rightarrow> string" where
  "toLower [] = []"
| "toLower (c # cs) =
     (if isUpper c then char_of (byteOf c + 32) # toLower cs
      else if hasPrefix [CHR 0xC4, CHR 0xB0] (c # cs) then CHR ''i'' # toLower (drop 1 cs)
      else if hasPrefix [CHR 0xE2, CHR 0x84, CHR 0xAA] (c # cs) then CHR ''k'' # toLower (drop 2 cs)
      else c # toLower cs)"

text \<open>The loop of \<open>normalizeProxyDiscriminator\<close>; \<open>b\<close> is the builder, \<open>lastHyphen\<close> the flag.\<close>

fun keepAlnum :: "string \<Rightarrow> bool \<Rightarrow> string \<Rightarrow> string" where
  "keepAlnum b lastHyphen [] = b"
| "keepAlnum b lastHyphen (r # rs) =
     (if isLowerAlnum r then keepAlnum (b @ [r]) False rs
      else if r = CHR ''-'' \<and> b \<noteq> [] \<and> \<not> lastHyphen then keepAlnum (b @ [CHR ''-'']) True rs
      else keepAlnum b lastHyphen rs)"

definition trimRightHyphens :: "string \<Rightarrow> string" where
  "trimRightHyphens s = rev (dropWhile (\<lambda>c. c = CHR ''-'') (rev s))"

definition digestSuffix :: "(string \<Rightarrow> nat list) \<Rightarrow> string \<Rightarrow> string" where
  "digestSuffix sha raw = take proxyHashSuffixLen (hexEncode (sha raw))"

definition normalizeProxyDiscriminator :: "(string \<Rightarrow> nat list) \<Rightarrow> string \<Rightarrow> string" where
  "normalizeProxyDiscriminator sha raw =
     (let out = trimRightHyphens (keepAlnum [] False (toLower (trimSpace raw)))
      in if length out \<le> maxProxyDiscriminatorLen then out
         else trimRightHyphens (take (maxProxyDiscriminatorLen - proxyHashSuffixLen - 1) out) @
              ''-'' @ digestSuffix sha raw)"

definition FRPProxyName :: "(string \<Rightarrow> nat list) \<Rightarrow> string \<Rightarrow> string \<Rightarrow> string" where
  "FRPProxyName sha routeID discriminator =
     (let d = normalizeProxyDiscriminator sha discriminator
      in if d = '''' then routeID else routeID @ ''-'' @ d)"

definition sessionProxyDiscriminator :: "uint64 \<Rightarrow> string" where
  "sessionProxyDiscriminator sessionID = ''nhp'' @ fmtUint36 (unat sessionID)"

definition generationDiscriminator :: "uint64 \<Rightarrow> uint64 \<Rightarrow> string" where
  "generationDiscriminator generation sessionID =
     sessionProxyDiscriminator sessionID @
     (if 0 < generation then ''-r'' @ fmtUint36 (unat generation) else '''')"

definition routeProxyName :: "(string \<Rightarrow> nat list) \<Rightarrow> string \<Rightarrow> uint64 \<Rightarrow> uint64 \<Rightarrow> string" where
  "routeProxyName sha routeID generation sessionID =
     FRPProxyName sha routeID (generationDiscriminator generation sessionID)"

section \<open>The shape of a discriminator\<close>

text \<open>
  The automaton of a normal discriminator: non-empty runs of lower case letters and digits separated
  by single hyphens. The state says whether a hyphen (or the start) came last; None is a refusal.
\<close>

fun hyphenState :: "bool \<Rightarrow> string \<Rightarrow> bool option" where
  "hyphenState h [] = Some h"
| "hyphenState h (c # cs) =
     (if c = CHR ''-'' then (if h then None else hyphenState True cs)
      else if isLowerAlnum c then hyphenState False cs else None)"

definition discriminatorShape :: "string \<Rightarrow> bool" where
  "discriminatorShape s = (s = [] \<or> hyphenState True s = Some False)"

lemma hyphenState_append [simp]:
  "hyphenState h (s @ t) = (case hyphenState h s of None \<Rightarrow> None | Some h' \<Rightarrow> hyphenState h' t)"
  by (induction h s rule: hyphenState.induct) auto

lemma hyphen_not_alnum [simp]: "\<not> isLowerAlnum (CHR ''-'')"
  by code_simp

lemma not_hyphen_alnum: "isLowerAlnum c \<Longrightarrow> c \<noteq> CHR ''-''"
  by auto

lemma keepAlnum_state:
  "(if b = [] then \<not> lastHyphen else hyphenState True b = Some lastHyphen) \<Longrightarrow>
     keepAlnum b lastHyphen s = [] \<or> (\<exists>h. hyphenState True (keepAlnum b lastHyphen s) = Some h)"
proof (induction b lastHyphen s rule: keepAlnum.induct)
  case (2 b lastHyphen r rs)
  show ?case
  proof (cases "isLowerAlnum r")
    case True
    have "hyphenState True (b @ [r]) = Some False"
      using 2(4) True not_hyphen_alnum [OF True] by (cases "b = []") auto
    then show ?thesis using 2(1) [OF True] True by simp
  next
    case False
    then show ?thesis using 2(2,3) [OF False] 2(4) by (cases "r = CHR ''-'' \<and> b \<noteq> [] \<and> \<not> lastHyphen") auto
  qed
qed auto

lemma trimRightHyphens_snoc [simp]:
  "trimRightHyphens (s @ [c]) = (if c = CHR ''-'' then trimRightHyphens s else s @ [c])"
  by (simp add: trimRightHyphens_def)

lemma trimRightHyphens_nil [simp]: "trimRightHyphens [] = []"
  by (simp add: trimRightHyphens_def)

lemma trimRightHyphens_ok: "hyphenState True s = Some False \<Longrightarrow> trimRightHyphens s = s"
  by (cases s rule: rev_cases) (auto split: option.splits if_splits)

lemma trimRightHyphens_state:
  "hyphenState True s = Some h \<Longrightarrow> s \<noteq> [] \<Longrightarrow> hyphenState True (trimRightHyphens s) = Some False"
proof (cases s rule: rev_cases)
  case (snoc t c)
  assume a: "hyphenState True s = Some h"
  show ?thesis
  proof (cases "c = CHR ''-''")
    case True
    then have "hyphenState True t = Some False" using a snoc by (auto split: option.splits if_splits)
    then show ?thesis using snoc True trimRightHyphens_ok by simp
  qed (use a snoc in \<open>auto split: option.splits if_splits\<close>)
qed simp

lemma state_nonempty: "hyphenState True s = Some False \<Longrightarrow> s \<noteq> []"
  by auto

lemma kept_shape: "discriminatorShape (trimRightHyphens (keepAlnum [] False s))"
proof (cases "keepAlnum [] False s = []")
  case False
  then show ?thesis
    using keepAlnum_state [of "[]" False s] trimRightHyphens_state by (auto simp: discriminatorShape_def)
qed (simp add: discriminatorShape_def)

lemma hexDigit_alnum: "n < 16 \<Longrightarrow> isLowerHex (hexDigit n)"
proof -
  assume "n < 16"
  moreover have "list_all (\<lambda>n. isLowerHex (hexDigit n)) [0..<16]" by code_simp
  ultimately show ?thesis by (simp add: list_all_iff)
qed

lemma lowerHex_alnum: "isLowerHex c \<Longrightarrow> isLowerAlnum c \<and> c \<noteq> CHR ''-'' \<and> c \<noteq> CHR ''n'' \<and> c \<noteq> CHR ''r''"
  by (auto simp: isLowerHex_def isLowerAlnum_def isDigit_def isLower_def byteOf_def)

lemma hexEncode_hex: "\<forall>b \<in> set bs. b < 256 \<Longrightarrow> c \<in> set (hexEncode bs) \<Longrightarrow> isLowerHex c"
  by (auto simp: hexEncode_def hexDigit_alnum)

definition sha256_ok :: "(string \<Rightarrow> nat list) \<Rightarrow> bool" where
  "sha256_ok sha = (\<forall>s. length (sha s) = 32 \<and> (\<forall>b \<in> set (sha s). b < 256))"

lemma digestSuffix_facts:
  assumes "sha256_ok sha"
  shows "length (digestSuffix sha raw) = 8" "\<forall>c \<in> set (digestSuffix sha raw). isLowerHex c"
  using assms hexEncode_hex [of "sha raw"]
  by (auto simp: digestSuffix_def proxyHashSuffixLen_def hexEncode_length sha256_ok_def dest: in_set_takeD)

lemma alnum_state: "\<forall>c \<in> set s. isLowerAlnum c \<Longrightarrow> hyphenState h s = Some (h \<and> s = [])"
  by (induction s arbitrary: h) auto

lemma state_take: "hyphenState True s = Some h \<Longrightarrow> \<exists>h'. hyphenState True (take n s) = Some h'"
  by (metis append_take_drop_id hyphenState_append not_None_eq option.case_eq_if)

section \<open>Normalization\<close>

lemma digest_shape:
  assumes "sha256_ok sha" "hyphenState True p = Some False"
  shows "hyphenState True (p @ ''-'' @ digestSuffix sha raw) = Some False"
proof -
  have "\<forall>c \<in> set (digestSuffix sha raw). isLowerAlnum c"
    using digestSuffix_facts(2) [OF assms(1)] lowerHex_alnum by blast
  moreover have "digestSuffix sha raw \<noteq> []" using digestSuffix_facts(1) [OF assms(1), of raw] by auto
  ultimately show ?thesis using assms(2) alnum_state [of "digestSuffix sha raw" True] by simp
qed

lemma trimRightHyphens_length: "length (trimRightHyphens s) \<le> length s"
  by (simp add: trimRightHyphens_def) (metis length_dropWhile_le length_rev)

lemma normalize_shape:
  assumes "sha256_ok sha"
  shows "discriminatorShape (normalizeProxyDiscriminator sha raw)"
    "length (normalizeProxyDiscriminator sha raw) \<le> 16"
proof -
  let ?out = "trimRightHyphens (keepAlnum [] False (toLower (trimSpace raw)))"
  have k: "discriminatorShape ?out" by (rule kept_shape)
  show "discriminatorShape (normalizeProxyDiscriminator sha raw)"
  proof (cases "length ?out \<le> 16")
    case False
    then have "hyphenState True ?out = Some False" using k by (auto simp: discriminatorShape_def)
    then obtain h where "hyphenState True (take 7 ?out) = Some h" using state_take by blast
    moreover have "take 7 ?out \<noteq> []" using False by auto
    ultimately have "hyphenState True (trimRightHyphens (take 7 ?out)) = Some False"
      by (rule trimRightHyphens_state)
    from digest_shape [OF assms this] show ?thesis
      using False by (simp add: normalizeProxyDiscriminator_def discriminatorShape_def Let_def
          maxProxyDiscriminatorLen_def proxyHashSuffixLen_def)
  qed (use k in \<open>simp add: normalizeProxyDiscriminator_def maxProxyDiscriminatorLen_def\<close>)
  show "length (normalizeProxyDiscriminator sha raw) \<le> 16"
    using trimRightHyphens_length [of "take 7 ?out"] digestSuffix_facts(1) [OF assms, of raw]
    by (simp add: normalizeProxyDiscriminator_def Let_def maxProxyDiscriminatorLen_def proxyHashSuffixLen_def)
qed

lemma toLower_plain: "\<forall>c \<in> set s. byteOf c < 128 \<and> \<not> isUpper c \<Longrightarrow> toLower s = s"
  by (induction s rule: toLower.induct) (auto simp: byteOf_def)

lemma keepAlnum_plain: "hyphenState lastHyphen s = Some h \<Longrightarrow> lastHyphen = (b = []) \<or> (b \<noteq> []) \<Longrightarrow>
    keepAlnum b (lastHyphen \<and> b \<noteq> []) s = b @ s"
proof (induction b lastHyphen s arbitrary: h rule: keepAlnum.induct)
  case (2 b lastHyphen r rs)
  show ?case
  proof (cases "isLowerAlnum r")
    case True
    then show ?thesis using 2(1) [OF True, of h] 2(4,5) not_hyphen_alnum [OF True] by simp
  next
    case False
    then have r: "r = CHR ''-''" "\<not> lastHyphen" "hyphenState True rs = Some h"
      using 2(4) by (auto split: if_splits)
    then have "b \<noteq> []" using 2(5) by auto
    then show ?thesis using 2(2) [OF False, of h] r by simp
  qed
qed simp

lemma shape_chars: "hyphenState h s = Some h' \<Longrightarrow> c \<in> set s \<Longrightarrow> isLowerAlnum c \<or> c = CHR ''-''"
  by (induction h s arbitrary: h' rule: hyphenState.induct) (auto split: if_splits)

lemma alnum_ascii: "isLowerAlnum c \<Longrightarrow> byteOf c < 128 \<and> \<not> isUpper c"
  by (auto simp: isLowerAlnum_def isDigit_def isLower_def isUpper_def)

lemma goSpaces_plain: "sp \<in> set goSpaces \<Longrightarrow> c \<in> set sp \<Longrightarrow> \<not> isLowerAlnum c \<and> c \<noteq> CHR ''-''"
proof -
  have "list_all (\<lambda>sp. list_all (\<lambda>c. \<not> isLowerAlnum c \<and> c \<noteq> CHR ''-'') sp) goSpaces" by code_simp
  then show "sp \<in> set goSpaces \<Longrightarrow> c \<in> set sp \<Longrightarrow> \<not> isLowerAlnum c \<and> c \<noteq> CHR ''-''"
    by (auto simp: list_all_iff)
qed

lemma trimSpace_words:
  assumes "\<forall>c \<in> set s. isLowerAlnum c \<or> c = CHR ''-''"
  shows "trimSpace s = s"
proof -
  have "trimLeftOf goSpaces s = s" using assms goSpaces_plain by (intro trimLeftOf_none) blast
  moreover have "trimLeftOf (map rev goSpaces) (rev s) = rev s"
    using assms goSpaces_plain by (intro trimLeftOf_none) fastforce
  ultimately show ?thesis by (simp add: trimSpace_def)
qed

lemma normalize_words:
  assumes "hyphenState True s = Some False"
  shows "normalizeProxyDiscriminator sha s =
    (if length s \<le> 16 then s else trimRightHyphens (take 7 s) @ ''-'' @ digestSuffix sha s)"
proof -
  have c: "\<forall>c \<in> set s. isLowerAlnum c \<or> c = CHR ''-''" using shape_chars [OF assms] by blast
  have "toLower s = s"
    using c alnum_ascii by (intro toLower_plain) (auto simp: byteOf_def isUpper_def)
  moreover have "keepAlnum [] False s = s" using keepAlnum_plain [OF assms, of "[]"] by simp
  ultimately show ?thesis using c trimSpace_words trimRightHyphens_ok [OF assms]
    by (simp add: normalizeProxyDiscriminator_def Let_def maxProxyDiscriminatorLen_def proxyHashSuffixLen_def)
qed

section \<open>Names identify their route, generation and session\<close>

lemma last_segment:
  assumes "CHR ''-'' \<notin> set y" "CHR ''-'' \<notin> set y'" "x @ CHR ''-'' # y = x' @ CHR ''-'' # y'"
  shows "x = x' \<and> y = y'"
proof -
  have "takeWhile (\<lambda>c. c \<noteq> CHR ''-'') (rev (x @ CHR ''-'' # y)) = rev y"
    "takeWhile (\<lambda>c. c \<noteq> CHR ''-'') (rev (x' @ CHR ''-'' # y')) = rev y'"
    using assms(1,2) by (simp_all add: takeWhile_append takeWhile_eq_all_conv)
  then have "rev y = rev y'" using assms(3) by metis
  then show ?thesis using assms(3) by simp
qed

lemma fmtUint36_words: "CHR ''-'' \<notin> set (fmtUint36 n)" "\<forall>c \<in> set (fmtUint36 n). isLowerAlnum c"
  using fmtUint36_alnum not_hyphen_alnum by blast+

lemma fmtUint36_word: "fmtUint36 (unat v) = fmtUint36 (unat w) \<Longrightarrow> v = w" for v w :: uint64
  using fmtUint36_inj by (metis word_unat_eq_iff)

lemma prefix_letters: "isLowerAlnum (CHR ''n'')" "isLowerAlnum (CHR ''h'')" "isLowerAlnum (CHR ''p'')"
  "isLowerAlnum (CHR ''r'')"
  by code_simp+

lemma discriminator_state: "hyphenState True (generationDiscriminator g s) = Some False"
  using alnum_state [OF fmtUint36_words(2), of False "unat s"] alnum_state [OF fmtUint36_words(2), of False "unat g"]
  by (simp add: generationDiscriminator_def sessionProxyDiscriminator_def prefix_letters)

lemma discriminator_inj:
  assumes "generationDiscriminator g s = generationDiscriminator g' s'"
  shows "g = g' \<and> s = s'"
proof -
  have r: "0 < g \<longleftrightarrow> 0 < g'"
    using arg_cong [OF assms, of "\<lambda>d. CHR ''-'' \<in> set d"] fmtUint36_words(1)
    by (auto simp: generationDiscriminator_def sessionProxyDiscriminator_def split: if_splits)
  show ?thesis
  proof (cases "0 < g")
    case True
    have n: "CHR ''-'' \<notin> set (CHR ''r'' # fmtUint36 (unat g))" "CHR ''-'' \<notin> set (CHR ''r'' # fmtUint36 (unat g'))"
      using fmtUint36_words(1) by auto
    have "''nhp'' @ fmtUint36 (unat s) = ''nhp'' @ fmtUint36 (unat s') \<and>
        CHR ''r'' # fmtUint36 (unat g) = CHR ''r'' # fmtUint36 (unat g')"
      by (rule last_segment [OF n])
        (use assms True r in \<open>simp add: generationDiscriminator_def sessionProxyDiscriminator_def\<close>)
    then show ?thesis by (auto dest!: fmtUint36_word)
  next
    case False
    then show ?thesis using assms r fmtUint36_word
      by (auto simp: generationDiscriminator_def sessionProxyDiscriminator_def word_less_nat_alt)
  qed
qed

text \<open>
  The last hyphen-separated part of a name tells the three forms apart: \<open>nhp<session>\<close>,
  \<open>r<generation>\<close>, or eight digits of a digest.
\<close>

datatype proxyNameForm = Plain | Restarted | Hashed

definition nameForm :: "uint64 \<Rightarrow> uint64 \<Rightarrow> proxyNameForm" where
  "nameForm g s = (if 16 < length (generationDiscriminator g s) then Hashed else if 0 < g then Restarted else Plain)"

definition nameTail :: "(string \<Rightarrow> nat list) \<Rightarrow> uint64 \<Rightarrow> uint64 \<Rightarrow> string" where
  "nameTail sha g s = (case nameForm g s of
     Plain \<Rightarrow> ''nhp'' @ fmtUint36 (unat s)
   | Restarted \<Rightarrow> CHR ''r'' # fmtUint36 (unat g)
   | Hashed \<Rightarrow> digestSuffix sha (generationDiscriminator g s))"

definition nameHead :: "string \<Rightarrow> uint64 \<Rightarrow> uint64 \<Rightarrow> string" where
  "nameHead route g s = (case nameForm g s of
     Plain \<Rightarrow> route
   | Restarted \<Rightarrow> route @ ''-nhp'' @ fmtUint36 (unat s)
   | Hashed \<Rightarrow> route @ ''-'' @ trimRightHyphens (take 7 (generationDiscriminator g s)))"

lemma name_parts: "routeProxyName sha route g s = nameHead route g s @ CHR ''-'' # nameTail sha g s"
  using normalize_words [OF discriminator_state, of sha g s] state_nonempty [OF discriminator_state]
  by (auto simp: routeProxyName_def FRPProxyName_def nameHead_def nameTail_def nameForm_def Let_def
      generationDiscriminator_def sessionProxyDiscriminator_def)

lemma tail_hyphen:
  assumes "sha256_ok sha"
  shows "CHR ''-'' \<notin> set (nameTail sha g s)"
  using fmtUint36_words(1) digestSuffix_facts(2) [OF assms, of "generationDiscriminator g s"] lowerHex_alnum
  by (auto simp: nameTail_def split: proxyNameForm.splits)

lemma tail_head:
  assumes "sha256_ok sha"
  shows "case nameForm g s of Plain \<Rightarrow> hd (nameTail sha g s) = CHR ''n''
     | Restarted \<Rightarrow> hd (nameTail sha g s) = CHR ''r'' | Hashed \<Rightarrow> isLowerHex (hd (nameTail sha g s))"
  using digestSuffix_facts [OF assms, of "generationDiscriminator g s"]
  by (cases "digestSuffix sha (generationDiscriminator g s)") (auto simp: nameTail_def split: proxyNameForm.splits)

lemma form_of_tail:
  assumes "sha256_ok sha" "nameTail sha g s = nameTail sha g' s'"
  shows "nameForm g s = nameForm g' s'"
  using tail_head [OF assms(1), of g s] tail_head [OF assms(1), of g' s'] assms(2) lowerHex_alnum
  by (cases "nameForm g s"; cases "nameForm g' s'") fastforce+

lemma routeProxyName_inj:
  assumes "sha256_ok sha"
    and "digestSuffix sha (generationDiscriminator g s) = digestSuffix sha (generationDiscriminator g' s') \<Longrightarrow>
           generationDiscriminator g s = generationDiscriminator g' s'"
    and "routeProxyName sha route g s = routeProxyName sha route' g' s'"
  shows "route = route' \<and> g = g' \<and> s = s'"
proof -
  have "nameHead route g s = nameHead route' g' s' \<and> nameTail sha g s = nameTail sha g' s'"
    by (rule last_segment [OF tail_hyphen [OF assms(1)] tail_hyphen [OF assms(1)]])
      (use assms(3) in \<open>simp add: name_parts\<close>)
  then have e: "nameHead route g s = nameHead route' g' s'" "nameTail sha g s = nameTail sha g' s'" by auto
  have f: "nameForm g' s' = nameForm g s" using form_of_tail [OF assms(1) e(2)] by simp
  show ?thesis
  proof (cases "nameForm g s")
    case Plain
    then have "g = 0" "g' = 0" using f by (auto simp: nameForm_def word_less_nat_alt unat_gt_0 split: if_splits)
    then show ?thesis using Plain f e by (auto simp: nameHead_def nameTail_def dest!: fmtUint36_word)
  next
    case Restarted
    have h: "CHR ''-'' \<notin> set (''nhp'' @ fmtUint36 (unat s))" "CHR ''-'' \<notin> set (''nhp'' @ fmtUint36 (unat s'))"
      using fmtUint36_words(1) by auto
    have "route = route' \<and> ''nhp'' @ fmtUint36 (unat s) = ''nhp'' @ fmtUint36 (unat s')"
      by (rule last_segment [OF h]) (use e(1) Restarted f in \<open>simp add: nameHead_def\<close>)
    then show ?thesis using e(2) Restarted f by (auto simp: nameTail_def dest!: fmtUint36_word)
  next
    case Hashed
    then have "generationDiscriminator g s = generationDiscriminator g' s'"
      using e(2) f assms(2) by (simp add: nameTail_def)
    then show ?thesis using discriminator_inj e(1) Hashed f by (force simp: nameHead_def)
  qed
qed

end
