(* ===== verification/Net_Text.thy ===== *)
theory Net_Text
  imports Go_Text
begin

text \<open>
  The parts of Go's \<open>net\<close> package the connector reads addresses with: \<open>net.ParseIP\<close> (through
  \<open>netip.ParseAddr\<close>, zones refused) and the test \<open>To4() == nil\<close>. An address is its list of 4 or
  16 bytes.
\<close>

definition hexAny :: "char \<Rightarrow> nat option" where
  "hexAny c = (if isDigit c then Some (byteOf c - 48)
     else if 97 \<le> byteOf c \<and> byteOf c \<le> 102 then Some (byteOf c - 87)
     else if 65 \<le> byteOf c \<and> byteOf c \<le> 70 then Some (byteOf c - 55) else None)"

text \<open>One group of at most four hexadecimal digits: digits read, value, rest.\<close>

fun hexGroup :: "nat \<Rightarrow> nat \<Rightarrow> string \<Rightarrow> (nat \<times> nat \<times> string) option" where
  "hexGroup off acc [] = Some (off, acc, [])"
| "hexGroup off acc (c # cs) = (case hexAny c of
      None \<Rightarrow> Some (off, acc, c # cs)
    | Some d \<Rightarrow> if 3 < off then None else hexGroup (Suc off) (acc * 16 + d) cs)"

definition ipv4Bytes :: "string \<Rightarrow> nat list option" where
  "ipv4Bytes s = (if isIPv4Literal s then Some (map decVal (splitOn (CHR ''.'') s)) else None)"

lemma hexGroup_length: "hexGroup off acc s = Some (n, v, r) \<Longrightarrow> length r + n = length s + off"
  by (induction off acc s rule: hexGroup.induct) (auto split: option.splits if_splits)

text \<open>The group loop of \<open>parseIPv6\<close>: bytes so far, position of the ellipsis, text left.\<close>

function ipv6Loop :: "nat list \<Rightarrow> nat option \<Rightarrow> string \<Rightarrow> (nat list \<times> nat option \<times> string) option" where
  "ipv6Loop ip ell [] = (if 16 \<le> length ip then Some (ip, ell, []) else None)"
| "ipv6Loop ip ell (x # xs) =
     (if 16 \<le> length ip then Some (ip, ell, x # xs)
      else case hexGroup 0 0 (x # xs) of
        None \<Rightarrow> None
      | Some (off, v, t) \<Rightarrow>
          if off = 0 then None
          else let ip' = ip @ [v div 256, v mod 256] in
          (case t of
             [] \<Rightarrow> Some (ip', ell, [])
           | c # r \<Rightarrow>
               if c = CHR ''.'' then
                 (if (ell = None \<and> length ip \<noteq> 12) \<or> 12 < length ip then None
                  else map_option (\<lambda>bs. (ip @ bs, ell, [])) (ipv4Bytes (x # xs)))
               else if c \<noteq> CHR '':'' then None
               else (case r of
                  [] \<Rightarrow> None
                | d # r' \<Rightarrow>
                    if d \<noteq> CHR '':'' then ipv6Loop ip' ell r
                    else if ell \<noteq> None then None
                    else if r' = [] then Some (ip', Some (length ip'), [])
                    else ipv6Loop ip' (Some (length ip')) r')))"
  by pat_completeness auto
termination
  by (relation "measure (\<lambda>(ip, ell, s). length s)") (auto simp del: hexGroup.simps dest!: hexGroup_length)

definition parseIPv6 :: "string \<Rightarrow> nat list option" where
  "parseIPv6 s =
     (let (ell, t) = (if hasPrefix ''::'' s then (Some 0, drop 2 s) else (None, s)) in
      if ell \<noteq> None \<and> t = [] then Some (replicate 16 0)
      else case ipv6Loop [] ell t of
        None \<Rightarrow> None
      | Some (ip, ell, rest) \<Rightarrow>
          if rest \<noteq> [] then None
          else if length ip < 16 then
            (case ell of None \<Rightarrow> None
             | Some e \<Rightarrow> Some (take e ip @ replicate (16 - length ip) 0 @ drop e ip))
          else if ell \<noteq> None then None else Some ip)"

definition ParseIP :: "string \<Rightarrow> nat list option" where
  "ParseIP s = (case find (\<lambda>c. c = CHR ''.'' \<or> c = CHR '':'' \<or> c = CHR ''%'') s of
      None \<Rightarrow> None
    | Some c \<Rightarrow> if c = CHR ''.'' then ipv4Bytes s
                 else if c = CHR ''%'' \<or> CHR ''%'' \<in> set s then None else parseIPv6 s)"

definition isTo4 :: "nat list \<Rightarrow> bool" where
  "isTo4 ip = (length ip = 4 \<or> take 12 ip = replicate 10 0 @ [255, 255])"

end
