(* ===== verification/Routes.thy ===== *)
theory Routes
  imports Proxy_Names Net_Text Go_Errors "HOL-Library.Finite_Map" "HOL-Library.List_Lexorder" "HOL-Library.Char_ord"
begin

text \<open>
  Routes and the FRP configuration rendered for them: \<open>pkg/share/frp.go\<close>, the validation half of
  \<open>pkg/share/local_pipe.go\<close>, the admission checks of \<open>pkg/share/session.go\<close> and the rendering half of
  \<open>pkg/share/group_frp.go\<close>.

  A Go map of headers or metadata is a finite map, nil and empty being the same map as they are for
  every operation the sources apply. \<open>runtime.GOOS == "windows"\<close> is the parameter \<open>windows\<close>; the two
  predicates of \<open>golang.org/x/net/http/httpguts\<close> are the fields of \<open>httpRules\<close>. FRP's client
  configuration holds the fields the sources read or write, and the rest in \<open>ccRest\<close>. Copies made
  to keep callers from sharing maps or pointers are the identity on these values.
\<close>

section \<open>Data\<close>

record httpRules =
  okFieldName :: "string \<Rightarrow> bool"
  okFieldValue :: "string \<Rightarrow> bool"

type_synonym strings = "(string, string) fmap"

record LocalHTTPRoute =
  RouteID :: string
  LocalIP :: string
  LocalPort :: int
  LocalSocketPath :: string
  LocalPipeName :: string
  ResourcePublicKey :: string
  ConnectorRoutingID :: string
  RequestHeaders :: strings

record GroupRoute =
  grRoute :: LocalHTTPRoute
  grGeneration :: uint64

record Admission =
  amKnockResourceID :: string
  amResourcePublicKey :: string
  amRunID :: string
  amRunAttempt :: uint64
  amToken :: string
  amResourceHost :: string
  amSessionID :: uint64
  amSessionReceipt :: NativeSessionReceipt
  amOpenTime :: duration

record ClientCommonConfig =
  ccServerAddr :: string
  ccServerPort :: int
  ccMetadatas :: strings
  ccLoginFailExit :: "bool option"
  ccStart :: "string list"
  ccTLSEnable :: "bool option"
  ccTLSVerifyServerCertificate :: bool
  ccTLSServerName :: string
  ccTLSTrustedCaFile :: string
  ccProtocol :: string
  ccWebServerPort :: int
  ccRest :: "string list"

datatype pluginOptions = UnixDomainSocket string | LocalPipe string

record HTTPProxyConfig =
  pxName :: string
  pxType :: string
  pxLocalIP :: string
  pxLocalPort :: int
  pxPlugin :: "pluginOptions option"
  pxSubDomain :: string
  pxGroup :: string
  pxGroupKey :: string
  pxMetadatas :: strings
  pxRequestHeaders :: strings

text \<open>\<open>slices.Sorted(maps.Keys(m))\<close> and \<open>m[name]\<close>.\<close>

definition sortedNames :: "strings \<Rightarrow> string list" where
  "sortedNames m = sorted_list_of_fset (fmdom m)"

definition at :: "strings \<Rightarrow> string \<Rightarrow> string" where
  "at m name = (case fmlookup m name of None \<Rightarrow> '''' | Some v \<Rightarrow> v)"

section \<open>Route targets\<close>

definition hasRequestHeaders :: "LocalHTTPRoute \<Rightarrow> bool" where
  "hasRequestHeaders r = (RequestHeaders r \<noteq> fmempty)"

definition hasPrivateOrigin :: "LocalHTTPRoute \<Rightarrow> bool" where
  "hasPrivateOrigin r = (LocalSocketPath r \<noteq> '''' \<or> LocalPipeName r \<noteq> '''')"

definition routeEqual :: "LocalHTTPRoute \<Rightarrow> LocalHTTPRoute \<Rightarrow> bool" where
  "routeEqual r other =
     (RouteID r = RouteID other \<and> LocalIP r = LocalIP other \<and> LocalPort r = LocalPort other \<and>
      LocalSocketPath r = LocalSocketPath other \<and> LocalPipeName r = LocalPipeName other \<and>
      ResourcePublicKey r = ResourcePublicKey other \<and> ConnectorRoutingID r = ConnectorRoutingID other \<and>
      RequestHeaders r = RequestHeaders other)"

definition groupRouteEqual :: "GroupRoute \<Rightarrow> GroupRoute \<Rightarrow> bool" where
  "groupRouteEqual g other = (grGeneration g = grGeneration other \<and> routeEqual (grRoute g) (grRoute other))"

definition localPipePrefix :: string where
  "localPipePrefix = [CHR 0x5C, CHR 0x5C, CHR ''.'', CHR 0x5C] @ ''pipe'' @ [CHR 0x5C] @ ''layerv-qurl-file-''"
definition localPipeHeadLen :: nat where "localPipeHeadLen = 64"
definition localPipeNonceLen :: nat where "localPipeNonceLen = 32"
definition localPipeSuffixLen :: nat where "localPipeSuffixLen = localPipeHeadLen + 1 + localPipeNonceLen"

definition ValidateLocalPipeName :: "bool \<Rightarrow> string \<Rightarrow> err option" where
  "ValidateLocalPipeName windows name =
     (if \<not> windows then Some (NewErr ''local named-pipe origins require Windows'')
      else let suffix = trimPrefix localPipePrefix name in
        if \<not> hasPrefix localPipePrefix name \<or> length suffix \<noteq> localPipeSuffixLen \<or>
           suffix ! localPipeHeadLen \<noteq> CHR ''-'' then Some (NewErr ''local named-pipe target is invalid'')
        else if \<not> list_all (\<lambda>(i, ch). i = localPipeHeadLen \<or> isLowerHex ch) (zip [0..<length suffix] suffix)
          then Some (NewErr ''local named-pipe target is invalid'')
        else None)"

definition maxLocalSocketPathBytes :: nat where "maxLocalSocketPathBytes = 100"

text \<open>
  \<open>filepath.Clean\<close> of a rooted path on Unix: empty and \<open>.\<close> elements go, \<open>..\<close> removes the element
  before it. The source calls it on rooted paths only.
\<close>

fun cleanElements :: "string list \<Rightarrow> string list \<Rightarrow> string list" where
  "cleanElements acc [] = rev acc"
| "cleanElements acc (e # es) =
     (if e = '''' \<or> e = ''.'' then cleanElements acc es
      else if e = ''..'' then cleanElements (tl acc) es
      else cleanElements (e # acc) es)"

definition cleanRooted :: "string \<Rightarrow> string" where
  "cleanRooted p = (case cleanElements [] (splitOn (CHR ''/'') p) of
      [] \<Rightarrow> ''/'' | es \<Rightarrow> concat (map (\<lambda>e. CHR ''/'' # e) es))"

definition maxRuntimeRequestHeaderCount :: nat where "maxRuntimeRequestHeaderCount = 16"
definition maxRuntimeRequestHeaderBytes :: nat where "maxRuntimeRequestHeaderBytes = 1024"

definition reservedRequestHeaderName :: "string \<Rightarrow> bool" where
  "reservedRequestHeaderName n = (n \<in> {''host'', ''content-length'', ''connection'', ''proxy-connection'',
     ''keep-alive'', ''proxy-authenticate'', ''proxy-authorization'', ''te'', ''trailer'',
     ''transfer-encoding'', ''upgrade'', ''forwarded'', ''x-forwarded-for'', ''x-forwarded-host'',
     ''x-forwarded-proto'', ''x-real-ip'', ''x-forwarded-port''})"

definition validHTTPHeaderValue :: "httpRules \<Rightarrow> string \<Rightarrow> bool" where
  "validHTTPHeaderValue h value = (utf8Valid value \<and> okFieldValue h value)"

fun checkHeaders :: "httpRules \<Rightarrow> strings \<Rightarrow> string list \<Rightarrow> string set \<Rightarrow> err option" where
  "checkHeaders h m [] seen = None"
| "checkHeaders h m (name # names) seen =
     (if \<not> okFieldName h name then Some (NewErr ''request header name is invalid'')
      else if reservedRequestHeaderName (toLower name) then Some (NewErr ''request header name is reserved'')
      else if toLower name \<in> seen then Some (NewErr ''request header names are duplicated'')
      else if \<not> validHTTPHeaderValue h (at m name) then Some (NewErr ''request header value is invalid'')
      else checkHeaders h m names (insert (toLower name) seen))"

definition ValidateRequestHeaders :: "httpRules \<Rightarrow> strings \<Rightarrow> err option" where
  "ValidateRequestHeaders h headers =
     (if maxRuntimeRequestHeaderCount < length (sortedNames headers) then
        Some (NewErr ''request headers exceed runtime limits'')
      else if maxRuntimeRequestHeaderBytes <
           sum_list (map (\<lambda>name. length name + length (at headers name)) (sortedNames headers)) then
        Some (NewErr ''request headers exceed runtime limits'')
      else checkHeaders h headers (sortedNames headers) {})"

definition validateLocalHTTPRoute :: "bool \<Rightarrow> httpRules \<Rightarrow> LocalHTTPRoute \<Rightarrow> err option" where
  "validateLocalHTTPRoute windows h route =
     (if RouteID route = '''' \<or> ResourcePublicKey route = '''' \<or> ConnectorRoutingID route = '''' then
        Some (NewErr ''route identities are incomplete'')
      else if LocalPipeName route \<noteq> '''' then
        (if LocalIP route \<noteq> '''' \<or> LocalPort route \<noteq> 0 \<or> LocalSocketPath route \<noteq> '''' then
           Some (NewErr ''local named-pipe target is invalid'')
         else case ValidateLocalPipeName windows (LocalPipeName route) of
             Some x \<Rightarrow> Some x
           | None \<Rightarrow> ValidateRequestHeaders h (RequestHeaders route))
      else if LocalSocketPath route \<noteq> '''' then
        (if windows \<or> LocalIP route \<noteq> '''' \<or> LocalPort route \<noteq> 0 \<or>
            \<not> hasPrefix ''/'' (LocalSocketPath route) \<or>
            cleanRooted (LocalSocketPath route) \<noteq> LocalSocketPath route \<or>
            maxLocalSocketPathBytes < length (LocalSocketPath route) \<or>
            containsAny (LocalSocketPath route) [CHR 0x00, CHR 0x0D, CHR 0x0A] then
           Some (NewErr ''local Unix socket target is invalid'')
         else ValidateRequestHeaders h (RequestHeaders route))
      else if LocalIP route = '''' \<or> LocalPort route < 1 \<or> 65535 < LocalPort route then
        Some (NewErr ''local target is invalid'')
      else ValidateRequestHeaders h (RequestHeaders route))"

definition RequestHeadersCanonical :: "strings \<Rightarrow> string" where
  "RequestHeadersCanonical headers = concat (map (\<lambda>name.
     fmtNat (length name) @ '':'' @ fmtNat (length (at headers name)) @ '':'' @
     name @ ''='' @ at headers name @ [CHR 0x0A]) (sortedNames headers))"

definition RequestHeadersDigest :: "(string \<Rightarrow> nat list) \<Rightarrow> strings \<Rightarrow> string" where
  "RequestHeadersDigest sha headers =
     (if headers = fmempty then '''' else hexEncode (sha (RequestHeadersCanonical headers)))"

section \<open>Transport rules\<close>

definition tlsEnabled :: "ClientCommonConfig \<Rightarrow> bool" where
  "tlsEnabled common = (if ccTLSEnable common = Some True then True
     else ccProtocol common = ''wss'' \<or> ccProtocol common = ''quic'')"

definition routeTransportError :: "ClientCommonConfig \<Rightarrow> bool \<Rightarrow> bool \<Rightarrow> err option" where
  "routeTransportError common headered privateOrigin =
     (if privateOrigin \<and> 0 < ccWebServerPort common then
        Some (NewErr ''private origins require FRP web server to be disabled'')
      else if \<not> headered then None
      else if \<not> tlsEnabled common then
        Some (NewErr ''runtime request headers require encrypted FRP transport'')
      else if \<not> ccTLSVerifyServerCertificate common \<and>
          (ccTLSTrustedCaFile common = '''' \<or>
           (ccProtocol common = ''quic'' \<and> (ccTLSEnable common = None \<or> ccTLSEnable common = Some False))) then
        Some (NewErr ''runtime request headers require a verified FRP server certificate'')
      else if 0 < ccWebServerPort common then
        Some (NewErr ''runtime request headers require FRP web server to be disabled'')
      else None)"

section \<open>The admitted server\<close>

definition parseAdmittedResourceHost :: "string \<Rightarrow> (string \<times> int) res" where
  "parseAdmittedResourceHost value = (case splitHostPort value of
      None \<Rightarrow> Inl (NewErr ''split host and port'')
    | Some (host, portText) \<Rightarrow>
        if trimSpace host = '''' then Inl (NewErr ''host is empty'')
        else (case atoi portText of
            None \<Rightarrow> Inl (NewErr ''port is outside 1..65535'')
          | Some port \<Rightarrow>
              if port < 1 \<or> 65535 < port then Inl (NewErr ''port is outside 1..65535'')
              else (case ParseIP host of
                  Some ip \<Rightarrow> Inr (if isTo4 ip then host else ''['' @ host @ '']'', port)
                | None \<Rightarrow> Inr (host, port))))"

definition ipLiteralHost :: "string \<Rightarrow> bool" where
  "ipLiteralHost host = (ParseIP (trimPrefix ''['' (trimSuffix '']'' host)) \<noteq> None)"

definition MetaQURLKnockToken :: string where "MetaQURLKnockToken = ''qurl_knock_token''"
definition MetaClientVersion :: string where "MetaClientVersion = ''client_version''"
definition MetaResourceID :: string where "MetaResourceID = ''resource_id''"

definition buildAdmittedCommon :: "ClientCommonConfig \<Rightarrow> Admission \<Rightarrow> string \<Rightarrow> ClientCommonConfig res" where
  "buildAdmittedCommon base admission clientVersion =
     (case parseAdmittedResourceHost (amResourceHost admission) of
        Inl x \<Rightarrow> Inl (Errorf ''parse admitted FRP host'' x)
      | Inr (host, port) \<Rightarrow>
          if tlsEnabled base \<and> ccTLSServerName base = '''' \<and> ipLiteralHost host then
            Inl (NewErr ''IP-literal target requires an explicit TLS server name'')
          else
            let metadatas = fmupd MetaQURLKnockToken (amToken admission) (ccMetadatas base);
                metadatas = (if clientVersion = '''' then metadatas
                             else fmupd MetaClientVersion clientVersion metadatas)
            in Inr (base\<lparr>ccServerAddr := host, ccServerPort := port, ccMetadatas := metadatas,
                 ccLoginFailExit := Some True\<rparr>))"

definition validateAdmissionReceipt :: "Admission \<Rightarrow> err option" where
  "validateAdmissionReceipt a = (let receipt = amSessionReceipt a in
     if amRunAttempt a = 0 \<or> rcCellID receipt = '''' \<or> rcSessionID receipt = 0 \<or>
        rcSessionIssuedAtMillis receipt \<le> 0 \<or> rcRunID receipt = '''' \<or> rcRunAttempt receipt = 0 \<or>
        rcSessionID receipt \<noteq> amSessionID a \<or> rcRunID receipt \<noteq> amRunID a \<or>
        rcRunAttempt receipt \<noteq> amRunAttempt a
     then Some (NewErr ''NHP admission has an invalid exact-session receipt'') else None)"

definition validateAdmission :: "Admission \<Rightarrow> string \<Rightarrow> string \<Rightarrow> err option" where
  "validateAdmission a knockResourceID resourceID =
     (if amKnockResourceID a \<noteq> knockResourceID then Some (NewErr ''NHP admission knock resource does not match'')
      else if amResourcePublicKey a \<noteq> resourceID then Some (NewErr ''NHP admission public resource does not match'')
      else if amRunID a = '''' \<or> amToken a = '''' then Some (NewErr ''NHP admission is missing run ID or token'')
      else case validateAdmissionReceipt a of
        Some x \<Rightarrow> Some x
      | None \<Rightarrow>
          if amSessionID a = 0 then Some (NewErr ''NHP admission session ID is zero'')
          else if amOpenTime a \<le> 0 then Some (NewErr ''NHP admission open time is not positive'')
          else if splitHostPort (amResourceHost a) = None then
            Some (NewErr ''NHP admission resource host is not canonical host:port'')
          else None)"

section \<open>Rendering proxies\<close>

definition buildRouteProxy :: "LocalHTTPRoute \<Rightarrow> string \<Rightarrow> HTTPProxyConfig" where
  "buildRouteProxy route proxyName =
     (let both = (LocalSocketPath route \<noteq> '''' \<and> LocalPipeName route \<noteq> '''')
      in \<lparr>pxName = proxyName, pxType = ''http'',
          pxLocalIP = (if both then '''' else LocalIP route),
          pxLocalPort = (if both then 0 else LocalPort route),
          pxPlugin = (if both then None
             else if LocalSocketPath route \<noteq> '''' then Some (UnixDomainSocket (LocalSocketPath route))
             else if LocalPipeName route \<noteq> '''' then Some (LocalPipe (LocalPipeName route))
             else None),
          pxSubDomain = ConnectorRoutingID route, pxGroup = ConnectorRoutingID route,
          pxGroupKey = ConnectorRoutingID route,
          pxMetadatas = fmupd MetaResourceID (ResourcePublicKey route) fmempty,
          pxRequestHeaders = RequestHeaders route\<rparr>)"

definition groupProxyName :: "(string \<Rightarrow> nat list) \<Rightarrow> GroupRoute \<Rightarrow> uint64 \<Rightarrow> string" where
  "groupProxyName sha route sessionID = routeProxyName sha (RouteID (grRoute route)) (grGeneration route) sessionID"

definition MaxGroupRoutes :: nat where "MaxGroupRoutes = 2000"

fun routeIdentities ::
  "bool \<Rightarrow> httpRules \<Rightarrow> LocalHTTPRoute list \<Rightarrow> string set \<Rightarrow> string set \<Rightarrow> string set \<Rightarrow> err option" where
  "routeIdentities windows h [] routeIDs resourceIDs routingIDs = None"
| "routeIdentities windows h (route # routes) routeIDs resourceIDs routingIDs =
     (case validateLocalHTTPRoute windows h route of
        Some x \<Rightarrow> Some (Errorf ''routes'' x)
      | None \<Rightarrow>
          if RouteID route \<in> routeIDs then Some (NewErr ''route ID is already used'')
          else if ResourcePublicKey route \<in> resourceIDs then Some (NewErr ''resource ID is already used'')
          else if ConnectorRoutingID route \<in> routingIDs then Some (NewErr ''connector routing ID is already used'')
          else routeIdentities windows h routes (insert (RouteID route) routeIDs)
            (insert (ResourcePublicKey route) resourceIDs) (insert (ConnectorRoutingID route) routingIDs))"

definition validateGroupRouteIdentities :: "bool \<Rightarrow> httpRules \<Rightarrow> LocalHTTPRoute list \<Rightarrow> err option" where
  "validateGroupRouteIdentities windows h routes =
     (if routes = [] then Some (NewErr ''session group has no routes'')
      else if MaxGroupRoutes < length routes then Some (NewErr ''session group has too many routes'')
      else routeIdentities windows h routes {} {} {})"

definition ValidateGroupRoutes :: "bool \<Rightarrow> httpRules \<Rightarrow> LocalHTTPRoute list \<Rightarrow> err option" where
  "ValidateGroupRoutes windows h routes = validateGroupRouteIdentities windows h routes"

definition validateGroupRouteSet :: "bool \<Rightarrow> httpRules \<Rightarrow> GroupRoute list \<Rightarrow> err option" where
  "validateGroupRouteSet windows h routes = validateGroupRouteIdentities windows h (map grRoute routes)"

fun renderFrom ::
  "(string \<Rightarrow> nat list) \<Rightarrow> uint64 \<Rightarrow> GroupRoute list \<Rightarrow> string set \<Rightarrow> (HTTPProxyConfig list \<times> string list) res" where
  "renderFrom sha sessionID [] seen = Inr ([], [])"
| "renderFrom sha sessionID (route # routes) seen =
     (let name = groupProxyName sha route sessionID in
      if name \<in> seen then Inl (NewErr ''routes render the same proxy name'')
      else case renderFrom sha sessionID routes (insert name seen) of
          Inl x \<Rightarrow> Inl x
        | Inr (proxies, names) \<Rightarrow> Inr (buildRouteProxy (grRoute route) name # proxies, name # names))"

definition renderGroupProxies ::
  "(string \<Rightarrow> nat list) \<Rightarrow> GroupRoute list \<Rightarrow> uint64 \<Rightarrow> (HTTPProxyConfig list \<times> string list) res" where
  "renderGroupProxies sha routes sessionID = renderFrom sha sessionID routes {}"

section \<open>The session group factory\<close>

record FRPGroupFactoryConfig =
  fcCommon :: "ClientCommonConfig option"
  fcClientVersion :: string
  fcConfigPath :: string
  fcReadyPoll :: duration

definition NewFRPSessionGroupFactory :: "FRPGroupFactoryConfig \<Rightarrow> FRPGroupFactoryConfig res" where
  "NewFRPSessionGroupFactory cfg = (case fcCommon cfg of
      None \<Rightarrow> Inl (NewErr ''common config is nil'')
    | Some common \<Rightarrow>
        if ccStart common \<noteq> [] then Inl (NewErr ''common config must not set a proxy start filter'')
        else let common = (if ccTLSEnable common = None then common\<lparr>ccTLSEnable := Some True\<rparr> else common) in
          if ccTLSVerifyServerCertificate common \<and> \<not> tlsEnabled common then
            Inl (NewErr ''certificate verification requires encrypted FRP transport'')
          else let common = (if tlsEnabled common then common\<lparr>ccTLSVerifyServerCertificate := True\<rparr> else common)
            in Inr (cfg\<lparr>fcCommon := Some common,
                 fcReadyPoll := (if fcReadyPoll cfg \<le> 0 then 100 * millisecond else fcReadyPoll cfg)\<rparr>))"

definition ValidateRoutes :: "FRPGroupFactoryConfig \<Rightarrow> LocalHTTPRoute list \<Rightarrow> err option" where
  "ValidateRoutes f routes =
     routeTransportError (the (fcCommon f)) (list_ex hasRequestHeaders routes) (list_ex hasPrivateOrigin routes)"

definition BuildConfig ::
  "bool \<Rightarrow> httpRules \<Rightarrow> (string \<Rightarrow> nat list) \<Rightarrow> FRPGroupFactoryConfig \<Rightarrow> Admission \<Rightarrow> GroupRoute list \<Rightarrow>
   (ClientCommonConfig \<times> HTTPProxyConfig list \<times> string list) res" where
  "BuildConfig windows h sha f admission routes =
     (case validateAdmission admission (amKnockResourceID admission) (amResourcePublicKey admission) of
        Some x \<Rightarrow> Inl x
      | None \<Rightarrow> (case validateGroupRouteSet windows h routes of
          Some x \<Rightarrow> Inl x
        | None \<Rightarrow> (case buildAdmittedCommon (the (fcCommon f)) admission (fcClientVersion f) of
            Inl x \<Rightarrow> Inl x
          | Inr common \<Rightarrow>
              (case routeTransportError common (list_ex (\<lambda>g. hasRequestHeaders (grRoute g)) routes)
                  (list_ex (\<lambda>g. hasPrivateOrigin (grRoute g)) routes) of
                Some x \<Rightarrow> Inl x
              | None \<Rightarrow> (case renderGroupProxies sha routes (amSessionID admission) of
                  Inl x \<Rightarrow> Inl x
                | Inr (proxies, names) \<Rightarrow> Inr (common, proxies, names))))))"

section \<open>Rejections of one proxy\<close>

text \<open>\<open>strings.Cut(s, sep)\<close>.\<close>

fun cutText :: "string \<Rightarrow> string \<Rightarrow> (string \<times> string) option" where
  "cutText sep [] = (if sep = [] then Some ([], []) else None)"
| "cutText sep (c # cs) =
     (if hasPrefix sep (c # cs) then Some ([], drop (length sep) (c # cs))
      else map_option (\<lambda>(a, b). (c # a, b)) (cutText sep cs))"

definition proxyStartErrorTag :: "string \<Rightarrow> string" where
  "proxyStartErrorTag value =
     (if trimSpace value \<noteq> value then ''''
      else case cutText '': '' value of
          None \<Rightarrow> ''''
        | Some (tag, detail) \<Rightarrow>
            if tag = '''' \<or> detail = '''' then ''''
            else if list_all (\<lambda>ch. isLower ch \<or> ch = CHR ''_'') tag then tag else '''')"

end
