(* ===== verification/Routes_Props.thy ===== *)
theory Routes_Props
  imports Routes
begin

text \<open>
  Correctness of the route and rendering code of \<open>Routes\<close> and \<open>Proxy_Names\<close>: what the validators accept,
  what a rendered configuration carries, and which values are told apart by their names and digests.
\<close>

section \<open>Header sets\<close>

lemma sortedNames_set [simp]: "set (sortedNames m) = fset (fmdom m)"
  by (simp add: sortedNames_def)

lemma sortedNames_distinct [simp]: "distinct (sortedNames m)"
  by (simp add: sortedNames_def sorted_list_of_fset.rep_eq)

lemma sortedNames_length: "length (sortedNames m) = fcard (fmdom m)"
  by (metis distinct_card fcard.rep_eq sortedNames_distinct sortedNames_set)

lemma checkHeaders_None:
  "checkHeaders h m names seen = None \<longleftrightarrow>
     (\<forall>n \<in> set names. okFieldName h n \<and> \<not> reservedRequestHeaderName (toLower n) \<and> toLower n \<notin> seen \<and>
        validHTTPHeaderValue h (at m n)) \<and> distinct (map toLower names)"
proof (induction names arbitrary: seen)
  case (Cons a names)
  have "toLower a \<notin> toLower ` set names \<longleftrightarrow> (\<forall>n \<in> set names. toLower n \<noteq> toLower a)" by (metis imageE image_eqI)
  then show ?case using Cons by auto
qed simp

lemma header_rules_spec:
  "ValidateRequestHeaders h m = None \<longleftrightarrow>
     fcard (fmdom m) \<le> 16 \<and> (\<Sum>n \<in> fset (fmdom m). length n + length (at m n)) \<le> 1024 \<and>
     (\<forall>n \<in> fset (fmdom m). okFieldName h n \<and> \<not> reservedRequestHeaderName (toLower n) \<and>
        utf8Valid (at m n) \<and> okFieldValue h (at m n)) \<and> inj_on toLower (fset (fmdom m))"
proof -
  have s: "(\<Sum>n \<leftarrow> sortedNames m. length n + length (at m n)) = (\<Sum>n \<in> fset (fmdom m). length n + length (at m n))"
    by (subst sum_list_distinct_conv_sum_set) simp_all
  show ?thesis
    by (auto simp: ValidateRequestHeaders_def checkHeaders_None s sortedNames_length maxRuntimeRequestHeaderCount_def maxRuntimeRequestHeaderBytes_def
        validHTTPHeaderValue_def distinct_map)
qed

text \<open>
  \<open>ValidateRequestHeaders\<close> accepts exactly the sets of the documented rules, whatever the order of
  the map: at most 16 entries and 1,024 bytes of names and values, every name a valid and unreserved
  field name, no two names equal up to case, every value valid UTF-8 and a valid field value.
\<close>

lemma header_rules_exact:
  "ValidateRequestHeaders h m = None \<longleftrightarrow>
     fcard (fmdom m) \<le> 16 \<and> (\<Sum>n \<in> fset (fmdom m). length n + length (at m n)) \<le> 1024 \<and>
     (\<forall>n \<in> fset (fmdom m). okFieldName h n \<and> \<not> reservedRequestHeaderName (toLower n) \<and>
        utf8Valid (at m n) \<and> okFieldValue h (at m n)) \<and> inj_on toLower (fset (fmdom m))"
  by (rule header_rules_spec)

section \<open>The digest of a header set\<close>

lemma hexEncode_inj:
  "hexEncode a = hexEncode b \<Longrightarrow> \<forall>x \<in> set a. x < 256 \<Longrightarrow> \<forall>x \<in> set b. x < 256 \<Longrightarrow> a = b"
proof (induction a arbitrary: b)
  case Nil
  then show ?case by (cases b) (auto simp: hexEncode_def)
next
  case (Cons x a)
  then obtain y b' where b: "b = y # b'" by (cases b) (auto simp: hexEncode_def)
  have h: "hexDigit (x div 16) = hexDigit (y div 16)" "hexDigit (x mod 16) = hexDigit (y mod 16)"
    "hexEncode a = hexEncode b'" using Cons.prems(1) by (simp_all add: b hexEncode_def)
  have "x div 16 < 16" "y div 16 < 16" using Cons.prems by (auto simp: b)
  then have "x div 16 = y div 16" "x mod 16 = y mod 16"
    using h hexVal_hexDigit by (metis option.inject mod_less_divisor zero_less_numeral)+
  then have "x = y" by (metis div_mult_mod_eq)
  then show ?case using Cons b h(3) by simp
qed

definition headerEntry :: "string \<times> string \<Rightarrow> string" where
  "headerEntry e = (case e of (name, value) \<Rightarrow>
     fmtNat (length name) @ '':'' @ fmtNat (length value) @ '':'' @ name @ ''='' @ value @ [CHR 0x0A])"

definition entries :: "strings \<Rightarrow> (string \<times> string) list" where
  "entries m = map (\<lambda>n. (n, at m n)) (sortedNames m)"

lemma canonical_entries: "RequestHeadersCanonical m = concat (map headerEntry (entries m))"
  by (simp add: RequestHeadersCanonical_def entries_def headerEntry_def comp_def)

lemma entries_inj: "entries m = entries m' \<Longrightarrow> m = m'"
proof -
  assume e: "entries m = entries m'"
  have n: "sortedNames m = sortedNames m'" using arg_cong [OF e, of "map fst"] by (simp add: entries_def comp_def)
  then have d: "fmdom m = fmdom m'" by (metis fset_inject sortedNames_set)
  show ?thesis
  proof (rule fmap_ext)
    fix x
    show "fmlookup m x = fmlookup m' x"
    proof (cases "x |\<in>| fmdom m")
      case True
      then have "x \<in> set (sortedNames m)" by simp
      then have "at m x = at m' x" using e n by (auto simp: entries_def)
      moreover obtain v v' where "fmlookup m x = Some v" "fmlookup m' x = Some v'"
        using True d by (metis fmlookup_dom_iff)
      ultimately show ?thesis by (simp add: at_def)
    next
      case False
      then show ?thesis using d by (metis fmdom_notD)
    qed
  qed
qed

lemma not_digit_colon: "\<not> isDigit (CHR '':'')"
  by code_simp

lemma fmtNat_colon:
  assumes "fmtNat a @ CHR '':'' # s = fmtNat b @ CHR '':'' # t"
  shows "a = b \<and> s = t"
proof -
  have "readNat (fmtNat a @ CHR '':'' # s) = Some (a, CHR '':'' # s)"
    "readNat (fmtNat b @ CHR '':'' # t) = Some (b, CHR '':'' # t)"
    by (rule readNat_fmtNat; simp add: not_digit_colon)+
  then show ?thesis using assms by (metis list.inject option.inject prod.inject)
qed

lemma headerEntry_append: "headerEntry e @ s = headerEntry e' @ t \<Longrightarrow> e = e' \<and> s = t"
proof -
  assume eq: "headerEntry e @ s = headerEntry e' @ t"
  obtain n v n' v' where e: "e = (n, v)" "e' = (n', v')" by (cases e; cases e')
  have a: "length n = length n' \<and> fmtNat (length v) @ CHR '':'' # (n @ ''='' @ v @ [CHR 0x0A] @ s) =
      fmtNat (length v') @ CHR '':'' # (n' @ ''='' @ v' @ [CHR 0x0A] @ t)"
    by (rule fmtNat_colon) (use eq in \<open>simp add: e headerEntry_def\<close>)
  have b: "length v = length v' \<and> n @ ''='' @ v @ [CHR 0x0A] @ s = n' @ ''='' @ v' @ [CHR 0x0A] @ t"
    by (rule fmtNat_colon) (use a in blast)
  then show ?thesis using a e by auto
qed

lemma headerEntry_nonempty: "headerEntry e \<noteq> []"
  by (cases e) (simp add: headerEntry_def)

lemma canonical_list_inj:
  "concat (map headerEntry xs) = concat (map headerEntry ys) \<Longrightarrow> xs = ys"
proof (induction xs arbitrary: ys)
  case Nil
  then show ?case using headerEntry_nonempty by (cases ys) auto
next
  case (Cons x xs)
  then obtain y ys' where y: "ys = y # ys'" using headerEntry_nonempty by (cases ys) auto
  have "x = y \<and> concat (map headerEntry xs) = concat (map headerEntry ys')"
    by (rule headerEntry_append) (use Cons.prems y in simp)
  then show ?case using Cons.IH y by simp
qed

text \<open>
  \<open>RequestHeadersDigest\<close> identifies a header set: unless SHA-256 collides on the two canonical
  texts, two sets have the same digest exactly when they are the same map, so no choice of names and
  values, separators included, can pass for another set; and only the empty set has the empty digest.
\<close>

lemma headers_digest_identifies:
  assumes "sha256_ok sha"
    and "sha (RequestHeadersCanonical a) = sha (RequestHeadersCanonical b) \<Longrightarrow>
           RequestHeadersCanonical a = RequestHeadersCanonical b"
  shows "(RequestHeadersDigest sha a = RequestHeadersDigest sha b) = (a = b) \<and>
     (RequestHeadersDigest sha a = '''' \<longleftrightarrow> a = fmempty)"
proof -
  have bytes: "\<forall>x \<in> set (sha s). x < 256" and len: "length (sha s) = 32" for s
    using assms(1) by (auto simp: sha256_ok_def)
  have "hexEncode (sha s) \<noteq> [] \<and> [] \<noteq> hexEncode (sha s)" for s using hexEncode_length [of "sha s"] len [of s] by auto
  moreover have "a = b" if "hexEncode (sha (RequestHeadersCanonical a)) = hexEncode (sha (RequestHeadersCanonical b))"
    using hexEncode_inj [OF that bytes bytes] assms(2) canonical_list_inj entries_inj
    by (metis canonical_entries)
  ultimately show ?thesis by (auto simp: RequestHeadersDigest_def)
qed

section \<open>Route sets\<close>

lemma routeIdentities_None:
  "routeIdentities windows h routes A B C = None \<longleftrightarrow>
     (\<forall>r \<in> set routes. validateLocalHTTPRoute windows h r = None \<and> RouteID r \<notin> A \<and> ResourcePublicKey r \<notin> B \<and>
        ConnectorRoutingID r \<notin> C) \<and>
     distinct (map RouteID routes) \<and> distinct (map ResourcePublicKey routes) \<and> distinct (map ConnectorRoutingID routes)"
proof (induction routes arbitrary: A B C)
  case (Cons r routes)
  have "f r \<notin> f ` set routes \<longleftrightarrow> (\<forall>n \<in> set routes. f n \<noteq> f r)" for f :: "LocalHTTPRoute \<Rightarrow> string"
    by (metis imageE image_eqI)
  then show ?case using Cons by (auto split: option.splits)
qed simp

lemma groupRoutes_None:
  "validateGroupRouteIdentities windows h routes = None \<longleftrightarrow>
     routes \<noteq> [] \<and> length routes \<le> 2000 \<and> (\<forall>r \<in> set routes. validateLocalHTTPRoute windows h r = None) \<and>
     distinct (map RouteID routes) \<and> distinct (map ResourcePublicKey routes) \<and> distinct (map ConnectorRoutingID routes)"
  by (auto simp: validateGroupRouteIdentities_def routeIdentities_None MaxGroupRoutes_def)

text \<open>
  A proxy name identifies its route, its restart generation and its admission: two registrations
  render the same name only if all three agree, unless the 32-bit digest suffixes of two different
  discriminators collide. No choice of route IDs (hyphens, \<open>-nhp5-r2\<close> and the like included) makes one
  route's name pass for another's.
\<close>

lemma proxy_name_identifies:
  assumes "sha256_ok sha"
    and "digestSuffix sha (generationDiscriminator (grGeneration a) s) =
           digestSuffix sha (generationDiscriminator (grGeneration b) t) \<Longrightarrow>
         generationDiscriminator (grGeneration a) s = generationDiscriminator (grGeneration b) t"
  shows "groupProxyName sha a s = groupProxyName sha b t \<longleftrightarrow>
     RouteID (grRoute a) = RouteID (grRoute b) \<and> grGeneration a = grGeneration b \<and> s = t"
  using routeProxyName_inj [OF assms(1,2)] by (auto simp: groupProxyName_def)

section \<open>Rendered configurations\<close>

lemma renderFrom_Inr:
  "renderFrom sha s routes seen = Inr (proxies, names) \<Longrightarrow>
     names = map (\<lambda>g. groupProxyName sha g s) routes \<and> distinct names \<and> set names \<inter> seen = {} \<and>
     proxies = map (\<lambda>g. buildRouteProxy (grRoute g) (groupProxyName sha g s)) routes"
  by (induction routes arbitrary: seen proxies names)
    (auto simp: Let_def split: if_splits sum.splits prod.splits)

lemma renderFrom_distinct:
  "distinct (map (\<lambda>g. groupProxyName sha g s) routes) \<Longrightarrow>
     set (map (\<lambda>g. groupProxyName sha g s) routes) \<inter> seen = {} \<Longrightarrow>
     renderFrom sha s routes seen =
       Inr (map (\<lambda>g. buildRouteProxy (grRoute g) (groupProxyName sha g s)) routes,
            map (\<lambda>g. groupProxyName sha g s) routes)"
  by (induction routes arbitrary: seen) (auto simp: Let_def)

lemma transport_rules:
  "routeTransportError common headered private = None \<longleftrightarrow>
     (private \<longrightarrow> ccWebServerPort common \<le> 0) \<and>
     (headered \<longrightarrow> tlsEnabled common \<and> ccWebServerPort common \<le> 0 \<and>
        (ccTLSVerifyServerCertificate common \<or> (ccTLSTrustedCaFile common \<noteq> '''' \<and>
          (ccProtocol common = ''quic'' \<longrightarrow> ccTLSEnable common = Some True))))"
  by (auto simp: routeTransportError_def not_less split: if_splits)

lemma parse_host_ok:
  assumes "parseAdmittedResourceHost value = Inr (host, port)"
  shows "1 \<le> port \<and> port \<le> 65535 \<and> (\<exists>h p. splitHostPort value = Some (h, p) \<and> trimSpace h \<noteq> '''' \<and>
     atoi p = Some port \<and> (host = h \<or> host = ''['' @ h @ '']''))"
  using assms by (auto simp: parseAdmittedResourceHost_def split: option.splits prod.splits if_splits)

lemma admitted_common:
  assumes "buildAdmittedCommon base a version = Inr common"
  shows "1 \<le> ccServerPort common \<and> ccServerPort common \<le> 65535"
    "fmlookup (ccMetadatas common) MetaQURLKnockToken = Some (amToken a)"
    "tlsEnabled common = tlsEnabled base"
    "ccTLSVerifyServerCertificate common = ccTLSVerifyServerCertificate base"
proof -
  obtain host port where p: "parseAdmittedResourceHost (amResourceHost a) = Inr (host, port)"
    using assms by (auto simp: buildAdmittedCommon_def split: sum.splits prod.splits)
  let ?m = "fmupd MetaQURLKnockToken (amToken a) (ccMetadatas base)"
  have c: "common = base\<lparr>ccServerAddr := host, ccServerPort := port,
      ccMetadatas := (if version = '''' then ?m else fmupd MetaClientVersion version ?m), ccLoginFailExit := Some True\<rparr>"
    using assms p by (simp add: buildAdmittedCommon_def Let_def split: if_splits)
  show "1 \<le> ccServerPort common \<and> ccServerPort common \<le> 65535" using parse_host_ok [OF p] c by simp
  show "fmlookup (ccMetadatas common) MetaQURLKnockToken = Some (amToken a)"
    using c by (simp add: MetaQURLKnockToken_def MetaClientVersion_def)
  show "tlsEnabled common = tlsEnabled base"
    "ccTLSVerifyServerCertificate common = ccTLSVerifyServerCertificate base" using c by (simp_all add: tlsEnabled_def)
qed

lemma factory_verifies:
  assumes "NewFRPSessionGroupFactory cfg = Inr f"
  shows "tlsEnabled (the (fcCommon f)) \<Longrightarrow> ccTLSVerifyServerCertificate (the (fcCommon f))"
    and "0 < fcReadyPoll f"
  using assms
  by (auto simp: NewFRPSessionGroupFactory_def Let_def tlsEnabled_def millisecond_def split: option.splits if_splits)


text \<open>
  Every accepted route set renders: when \<open>validateGroupRouteSet\<close> accepts the routes, their proxy
  names are pairwise distinct and \<open>renderGroupProxies\<close> succeeds with one proxy per route, unless the
  digest suffixes of two of their discriminators collide.
\<close>

lemma accepted_routes_render:
  assumes "sha256_ok sha" and "validateGroupRouteSet windows h routes = None"
    and "\<forall>a \<in> set routes. \<forall>b \<in> set routes.
       digestSuffix sha (generationDiscriminator (grGeneration a) s) =
         digestSuffix sha (generationDiscriminator (grGeneration b) s) \<longrightarrow>
       generationDiscriminator (grGeneration a) s = generationDiscriminator (grGeneration b) s"
  shows "renderGroupProxies sha routes s =
     Inr (map (\<lambda>g. buildRouteProxy (grRoute g) (groupProxyName sha g s)) routes,
          map (\<lambda>g. groupProxyName sha g s) routes) \<and>
     distinct (map (\<lambda>g. groupProxyName sha g s) routes)"
proof -
  have d: "distinct (map RouteID (map grRoute routes))"
    using assms(2) by (simp add: validateGroupRouteSet_def groupRoutes_None)
  have inj: "RouteID (grRoute a) = RouteID (grRoute b)"
    if ab: "a \<in> set routes" "b \<in> set routes" and eq: "groupProxyName sha a s = groupProxyName sha b s" for a b
  proof -
    have "RouteID (grRoute a) = RouteID (grRoute b) \<and> grGeneration a = grGeneration b \<and> s = s"
      by (rule routeProxyName_inj [OF assms(1)])
        (use assms(3) ab eq in \<open>simp_all add: groupProxyName_def\<close>)
    then show ?thesis by simp
  qed
  have "inj_on (\<lambda>g. RouteID (grRoute g)) (set routes)" "distinct routes"
    using d by (simp_all add: distinct_map comp_def)
  then have "distinct (map (\<lambda>g. groupProxyName sha g s) routes)"
    using inj unfolding distinct_map inj_on_def by blast
  then show ?thesis by (simp add: renderGroupProxies_def renderFrom_distinct)
qed

text \<open>
  The admitted host is not required to be canonical, as the comment of \<open>parseAdmittedResourceHost\<close>
  says: signs and leading zeros of the port are accepted and dropped.
\<close>

lemma admitted_host_not_canonical:
  "parseAdmittedResourceHost ''h:+0443'' = parseAdmittedResourceHost ''h:443''"
  "parseAdmittedResourceHost ''h:443'' = Inr (''h'', 443)"
  by code_simp+

section \<open>Witnesses\<close>

definition wSha :: "string \<Rightarrow> nat list" where
  "wSha s = take 32 (map byteOf (rev s) @ replicate 32 0)"

definition wRules :: httpRules where
  "wRules = \<lparr>okFieldName = (\<lambda>_. True), okFieldValue = (\<lambda>_. True)\<rparr>"

definition wHeaders :: strings where
  "wHeaders = fmupd ''X-A'' ''1'' fmempty"

lemma wSha_ok: "sha256_ok wSha"
  by (auto simp: sha256_ok_def wSha_def dest!: in_set_takeD)

lemma wHeaders_names: "fmdom wHeaders = {|''X-A''|}" "at wHeaders ''X-A'' = ''1''" "sortedNames wHeaders = [''X-A'']"
  by (simp_all add: wHeaders_def at_def sortedNames_def sorted_list_of_fset.rep_eq)

lemma wHeaders_valid: "ValidateRequestHeaders wRules wHeaders = None"
proof -
  have "\<not> reservedRequestHeaderName (toLower ''X-A'')" by code_simp
  moreover have "utf8Valid ''1''" by code_simp
  ultimately show ?thesis
    unfolding header_rules_spec
    by (simp add: wHeaders_names wRules_def fcard_finsert_disjoint fcard_fempty del: toLower.simps utf8Valid.simps)
qed

lemma header_rules_exact_witness: "okFieldName wRules ''X-A'' \<and> utf8Valid (at wHeaders ''X-A'')"
  using header_rules_exact [of wRules wHeaders] wHeaders_valid wHeaders_names(1) by auto

lemma headers_digest_identifies_witness:
  "RequestHeadersDigest wSha wHeaders \<noteq> RequestHeadersDigest wSha (fmupd ''X-A'' ''2'' fmempty)"
proof -
  have n: "sortedNames (fmupd ''X-A'' ''2'' fmempty) = [''X-A'']"
    by (simp add: sortedNames_def sorted_list_of_fset.rep_eq)
  have c: "RequestHeadersCanonical wHeaders = ''3:1:X-A=1'' @ [CHR 0x0A]"
    "RequestHeadersCanonical (fmupd ''X-A'' ''2'' fmempty) = ''3:1:X-A=2'' @ [CHR 0x0A]"
    by (simp_all add: RequestHeadersCanonical_def n wHeaders_names fmtNat.simps digit10_def) (simp add: at_def)
  have "wSha (RequestHeadersCanonical wHeaders) \<noteq> wSha (RequestHeadersCanonical (fmupd ''X-A'' ''2'' fmempty))"
    by (simp add: c wSha_def byteOf_def)
  moreover have "wHeaders \<noteq> fmupd ''X-A'' ''2'' fmempty"
  proof
    assume "wHeaders = fmupd ''X-A'' ''2'' fmempty"
    then have "fmlookup wHeaders ''X-A'' = fmlookup (fmupd ''X-A'' ''2'' fmempty) ''X-A''" by (rule arg_cong)
    then show False by (simp add: wHeaders_def)
  qed
  ultimately show ?thesis
    using headers_digest_identifies [OF wSha_ok, of wHeaders "fmupd ''X-A'' ''2'' fmempty"] by blast
qed

definition wRoute :: "string \<Rightarrow> LocalHTTPRoute" where
  "wRoute i = \<lparr>RouteID = i, LocalIP = ''127.0.0.1'', LocalPort = 8080, LocalSocketPath = '''', LocalPipeName = '''',
     ResourcePublicKey = i @ ''-r'', ConnectorRoutingID = i @ ''-c'', RequestHeaders = wHeaders\<rparr>"

definition wGroupRoute :: "string \<Rightarrow> uint64 \<Rightarrow> GroupRoute" where
  "wGroupRoute i g = \<lparr>grRoute = wRoute i, grGeneration = g\<rparr>"

lemma proxy_name_identifies_witness:
  "groupProxyName wSha (wGroupRoute ''web'' 2) 5 \<noteq> groupProxyName wSha (wGroupRoute ''web-nhp5'' 2) 5"
  using proxy_name_identifies [OF wSha_ok, of "wGroupRoute ''web'' 2" 5 "wGroupRoute ''web-nhp5'' 2" 5]
  by (simp add: wGroupRoute_def wRoute_def)

lemma wRoute_valid: "validateLocalHTTPRoute False wRules (wRoute ''web'') = None"
  using wHeaders_valid by (simp add: validateLocalHTTPRoute_def wRoute_def)

lemma wSet_valid: "validateGroupRouteSet False wRules [wGroupRoute ''web'' 0] = None"
  using wRoute_valid by (simp add: validateGroupRouteSet_def groupRoutes_None wGroupRoute_def)

lemma accepted_routes_render_witness:
  "renderGroupProxies wSha [wGroupRoute ''web'' 0] 5 =
     Inr ([buildRouteProxy (wRoute ''web'') ''web-nhp5''], [''web-nhp5''])"
proof -
  have n: "groupProxyName wSha (wGroupRoute ''web'' 0) 5 = ''web-nhp5''"
    by (simp add: groupProxyName_def wGroupRoute_def wRoute_def name_parts nameHead_def nameTail_def nameForm_def
        generationDiscriminator_def sessionProxyDiscriminator_def fmtUint36.simps digit36_def)
  show ?thesis
    using accepted_routes_render [OF wSha_ok wSet_valid, of 5] n by (simp add: wGroupRoute_def)
qed

definition wCommon :: ClientCommonConfig where
  "wCommon = \<lparr>ccServerAddr = '''', ccServerPort = 0, ccMetadatas = fmempty, ccLoginFailExit = None, ccStart = [],
     ccTLSEnable = None, ccTLSVerifyServerCertificate = False, ccTLSServerName = '''', ccTLSTrustedCaFile = '''',
     ccProtocol = ''tcp'', ccWebServerPort = 0, ccRest = []\<rparr>"

definition wFactoryConfig :: FRPGroupFactoryConfig where
  "wFactoryConfig = \<lparr>fcCommon = Some wCommon, fcClientVersion = ''1'', fcConfigPath = '''', fcReadyPoll = 0\<rparr>"

definition wFactory :: FRPGroupFactoryConfig where
  "wFactory = \<lparr>fcCommon = Some (wCommon\<lparr>ccTLSEnable := Some True, ccTLSVerifyServerCertificate := True\<rparr>),
     fcClientVersion = ''1'', fcConfigPath = '''', fcReadyPoll = 100 * millisecond\<rparr>"

definition wAdmission :: Admission where
  "wAdmission = \<lparr>amKnockResourceID = ''q'', amResourcePublicKey = ''r'', amRunID = ''run'', amRunAttempt = 1,
     amToken = ''token'', amResourceHost = ''h:443'', amSessionID = 5,
     amSessionReceipt = \<lparr>rcCellID = ''c'', rcSessionID = 5, rcSessionIssuedAtMillis = 1, rcRunID = ''run'', rcRunAttempt = 1\<rparr>,
     amOpenTime = second\<rparr>"

lemma wFactory_built: "NewFRPSessionGroupFactory wFactoryConfig = Inr wFactory"
  by (simp add: NewFRPSessionGroupFactory_def wFactoryConfig_def wFactory_def wCommon_def tlsEnabled_def)

lemma wBuild: "\<exists>common proxies names.
    BuildConfig False wRules wSha wFactory wAdmission [wGroupRoute ''web'' 0] = Inr (common, proxies, names)"
proof -
  have h: "parseAdmittedResourceHost ''h:443'' = Inr (''h'', 443)" by (rule admitted_host_not_canonical(2))
  have s: "splitHostPort ''h:443'' \<noteq> None" "\<not> ipLiteralHost ''h''" by code_simp+
  have a: "validateAdmission wAdmission ''q'' ''r'' = None"
    using s(1) by (simp add: validateAdmission_def validateAdmissionReceipt_def wAdmission_def second_def)
  have v: "validateGroupRouteSet False wRules [wGroupRoute ''web'' 0] = None" by (rule wSet_valid)
  have t: "routeTransportError common x y = None" if "ccTLSEnable common = Some True"
    "ccTLSVerifyServerCertificate common" "ccWebServerPort common = 0" for common x y
    using that by (simp add: routeTransportError_def tlsEnabled_def)
  show ?thesis using h s a v
    by (simp add: BuildConfig_def wAdmission_def buildAdmittedCommon_def wFactory_def wCommon_def t Let_def
        renderGroupProxies_def)
qed


end
