(* ===== verification/Group_Session.thy ===== *)
theory Group_Session
  imports Routes
begin

text \<open>
  The route table of one FRP control session: \<open>frpGroupSession\<close> of \<open>pkg/share/group_frp.go\<close>, with its
  registration window, its push protocol and its folding of FRP's proxy statuses.

  What the session holds in fields is the record \<open>groupSession\<close>; what its goroutines hold in local
  variables between two critical sections is there too: the names the watcher read before it queries
  FRP (\<open>gsScan\<close>) and the owner of \<open>updateMu\<close> with its snapshot (\<open>gsHolder\<close>). \<open>gsHeld\<close> is the proxy set FRP
  last accepted. Each definition of an operation is one critical section or the code between two; a
  whole \<open>Update\<close> and a whole push are composed from them as the code composes them.

  The pinned FRP fork is outside this repository: its filter, defaulting and validation of proxies are
  the record \<open>frpLib\<close>, its status exporter is a function from names to statuses, and the answer of
  \<open>UpdateAllConfigurer\<close> is an input; an error leaves the set FRP holds as it was. Clock readings are
  inputs. The table counter has 64 bits and is a natural number here: it grows by at most one per route
  and table change.
\<close>

section \<open>State\<close>

datatype RoutePhase = RoutePending | RouteServing | RouteFailed

record groupRouteEntry =
  geRoute :: GroupRoute
  geName :: string
  gePhase :: RoutePhase
  geErr :: "err option"
  geReleased :: bool
  geErroredAt :: "time option"
  geLastObserved :: "time option"
  geReplaces :: bool

type_synonym routeTable = "(string, groupRouteEntry) fmap"

datatype holder = Unlocked | TableUpdated | Pushing nat "GroupRoute list"

record groupSession =
  gsCommon :: ClientCommonConfig
  gsSessionID :: uint64
  gsPoll :: duration
  gsRoutes :: routeTable
  gsVersion :: nat
  gsPushed :: nat
  gsPushErr :: "err option"
  gsPushFailures :: nat
  gsNextPushAt :: "time option"
  gsErr :: "err option"
  gsStopped :: bool
  gsReady :: bool
  gsDone :: bool
  gsSignal :: bool
  gsScan :: "(string \<times> string) list"
  gsHolder :: holder
  gsHeld :: "HTTPProxyConfig list"

record frpLib =
  frpFilter :: "ClientCommonConfig \<Rightarrow> HTTPProxyConfig list \<Rightarrow> HTTPProxyConfig list"
  frpComplete :: "HTTPProxyConfig list \<Rightarrow> HTTPProxyConfig list"
  frpValidate :: "HTTPProxyConfig \<Rightarrow> err option"

record groupEnv =
  gvWindows :: bool
  gvRules :: httpRules
  gvSha :: "string \<Rightarrow> nat list"
  gvLib :: frpLib

definition groupRegistrationWindow :: nat where "groupRegistrationWindow = 16"
definition groupReleasedPendingFactor :: nat where "groupReleasedPendingFactor = 2"
definition groupErroredHold :: duration where "groupErroredHold = 60 * second"
definition groupControlRecoveryGrace :: duration where "groupControlRecoveryGrace = 25 * second"
definition maxPushRetryDelay :: duration where "maxPushRetryDelay = 5 * second"

definition notify :: "groupSession \<Rightarrow> groupSession" where
  "notify s = s\<lparr>gsSignal := True\<rparr>"

text \<open>Route IDs of a table; the order in which Go ranges over a map never matters below.\<close>

definition routeKeys :: "routeTable \<Rightarrow> string list" where
  "routeKeys t = sorted_list_of_fset (fmdom t)"

definition entryOf :: "routeTable \<Rightarrow> string \<Rightarrow> groupRouteEntry" where
  "entryOf t k = the (fmlookup t k)"

section \<open>The registration window\<close>

text \<open>The zero \<open>erroredAt\<close> is None: it lies more than any hold in the past.\<close>

definition recentlyErrored :: "time \<Rightarrow> groupRouteEntry \<Rightarrow> bool" where
  "recentlyErrored now entry = (case geErroredAt entry of None \<Rightarrow> False | Some t \<Rightarrow> now - t < groupErroredHold)"

definition awaiting :: "groupRouteEntry \<Rightarrow> bool" where
  "awaiting entry = (geReleased entry \<and> gePhase entry = RoutePending)"

definition windowLoadLocked :: "routeTable \<Rightarrow> time \<Rightarrow> nat \<times> nat" where
  "windowLoadLocked t now =
     (let es = filter awaiting (map (entryOf t) (routeKeys t))
      in (length (filter (\<lambda>e. geErr e = None) es),
          length (filter (\<lambda>e. geErr e = None \<or> recentlyErrored now e) es)))"

definition waitingRoutes :: "routeTable \<Rightarrow> string list" where
  "waitingRoutes t =
     (let ks = filter (\<lambda>k. \<not> geReleased (entryOf t k) \<and> gePhase (entryOf t k) = RoutePending) (routeKeys t)
      in filter (\<lambda>k. geReplaces (entryOf t k)) ks @ filter (\<lambda>k. \<not> geReplaces (entryOf t k)) ks)"

fun releaseLoop :: "nat \<Rightarrow> nat \<Rightarrow> nat \<Rightarrow> nat \<Rightarrow> string list \<Rightarrow> routeTable \<Rightarrow> routeTable" where
  "releaseLoop window cap inflight pending [] t = t"
| "releaseLoop window cap inflight pending (k # ks) t =
     (if window \<le> inflight \<or> cap \<le> pending then t
      else releaseLoop window cap (inflight + 1) (pending + 1) ks
             (fmupd k ((entryOf t k)\<lparr>geReleased := True\<rparr>) t))"

definition releaseWindowLocked :: "time \<Rightarrow> routeTable \<Rightarrow> bool \<times> routeTable" where
  "releaseWindowLocked now t =
     (let window = max 1 groupRegistrationWindow;
          cap = groupReleasedPendingFactor * window;
          (inflight, pending) = windowLoadLocked t now;
          waiting = waitingRoutes t
      in if window \<le> inflight \<or> cap \<le> pending then (False, t)
         else if waiting = [] then (False, t)
         else (True, releaseLoop window cap inflight pending waiting t))"

section \<open>A new session\<close>

definition freshEntry :: "(string \<Rightarrow> nat list) \<Rightarrow> uint64 \<Rightarrow> GroupRoute \<Rightarrow> groupRouteEntry" where
  "freshEntry sha sessionID route =
     \<lparr>geRoute = route, geName = groupProxyName sha route sessionID, gePhase = RoutePending, geErr = None,
      geReleased = False, geErroredAt = None, geLastObserved = None, geReplaces = False\<rparr>"

definition newFRPGroupSession ::
  "groupEnv \<Rightarrow> ClientCommonConfig \<Rightarrow> uint64 \<Rightarrow> duration \<Rightarrow> GroupRoute list \<Rightarrow> time \<Rightarrow> groupSession" where
  "newFRPGroupSession v common sessionID poll routes now =
     (let table = foldl (\<lambda>t r. fmupd (RouteID (grRoute r)) (freshEntry (gvSha v) sessionID r) t) fmempty routes
      in \<lparr>gsCommon = common, gsSessionID = sessionID, gsPoll = poll,
          gsRoutes = snd (releaseWindowLocked now table), gsVersion = 0, gsPushed = 0, gsPushErr = None,
          gsPushFailures = 0, gsNextPushAt = None, gsErr = None, gsStopped = False, gsReady = False,
          gsDone = False, gsSignal = False, gsScan = [], gsHolder = Unlocked, gsHeld = []\<rparr>)"

section \<open>Pushing the proxy set to FRP\<close>

definition liveRoutesLocked :: "routeTable \<Rightarrow> GroupRoute list" where
  "liveRoutesLocked t = map (\<lambda>k. geRoute (entryOf t k))
     (filter (\<lambda>k. geReleased (entryOf t k) \<and> gePhase (entryOf t k) \<noteq> RouteFailed) (routeKeys t))"

definition completeGroupProxies ::
  "frpLib \<Rightarrow> ClientCommonConfig \<Rightarrow> HTTPProxyConfig list \<Rightarrow> HTTPProxyConfig list res" where
  "completeGroupProxies L common proxies =
     (let filtered = frpFilter L common proxies in
      if length filtered \<noteq> length proxies then Inl (NewErr ''FRP client config filters out proxies'')
      else let completed = frpComplete L filtered in
        case firstSome (frpValidate L) completed of
          Some x \<Rightarrow> Inl (Errorf ''validate FRP proxy'' x)
        | None \<Rightarrow> Inr completed)"

definition renderLiveProxies :: "groupEnv \<Rightarrow> groupSession \<Rightarrow> GroupRoute list \<Rightarrow> HTTPProxyConfig list res" where
  "renderLiveProxies v s live = (case renderGroupProxies (gvSha v) live (gsSessionID s) of
      Inl x \<Rightarrow> Inl x
    | Inr (proxies, _) \<Rightarrow> completeGroupProxies (gvLib v) (gsCommon s) proxies)"

function pushDelayLoop :: "nat \<Rightarrow> nat \<Rightarrow> duration \<Rightarrow> duration" where
  "pushDelayLoop failures i delay =
     (if i < failures \<and> delay < maxPushRetryDelay then pushDelayLoop failures (Suc i) (delay * 2) else delay)"
  by pat_completeness auto
termination
  by (relation "measure (\<lambda>(failures, i, delay). failures - i)") auto

declare pushDelayLoop.simps [simp del]

definition pushRetryDelay :: "duration \<Rightarrow> nat \<Rightarrow> duration" where
  "pushRetryDelay poll failures =
     (let delay = pushDelayLoop failures 1 poll in if maxPushRetryDelay < delay then maxPushRetryDelay else delay)"

definition recordPushFailure :: "time \<Rightarrow> err \<Rightarrow> groupSession \<Rightarrow> err option \<times> groupSession" where
  "recordPushFailure now x s =
     (let failures = gsPushFailures s + 1
      in (Some x, notify (s\<lparr>gsPushErr := Some x, gsPushFailures := failures,
            gsNextPushAt := Some (now + pushRetryDelay (gsPoll s) failures), gsHolder := Unlocked\<rparr>)))"

text \<open>\<open>pushUnderUpdateMu\<close>: the snapshot under \<open>mu\<close>, then the render, the call of FRP and the record.\<close>

definition pushSnapshot :: "groupSession \<Rightarrow> err option \<times> groupSession" where
  "pushSnapshot s =
     (if gsStopped s then (Some (Sentinel SSessionGroupEnded), s\<lparr>gsHolder := Unlocked\<rparr>)
      else (None, s\<lparr>gsHolder := Pushing (gsVersion s) (liveRoutesLocked (gsRoutes s))\<rparr>))"

definition pushRecord :: "groupEnv \<Rightarrow> err option \<Rightarrow> time \<Rightarrow> nat \<Rightarrow> GroupRoute list \<Rightarrow> groupSession \<Rightarrow>
    err option \<times> groupSession" where
  "pushRecord v answer now version live s = (case renderLiveProxies v s live of
      Inl x \<Rightarrow> recordPushFailure now (Errorf ''render FRP proxy set'' x) s
    | Inr proxies \<Rightarrow> (case answer of
        Some x \<Rightarrow> recordPushFailure now (Errorf ''update FRP proxy set'' x) s
      | None \<Rightarrow>
          let s = s\<lparr>gsHeld := proxies, gsPushed := (if gsPushed s < version then version else gsPushed s),
                gsPushFailures := 0, gsNextPushAt := None, gsHolder := Unlocked\<rparr>
          in (None, if gsPushErr s \<noteq> None then notify (s\<lparr>gsPushErr := None\<rparr>) else s)))"

definition pushUnderUpdateMu :: "groupEnv \<Rightarrow> err option \<Rightarrow> time \<Rightarrow> groupSession \<Rightarrow> err option \<times> groupSession" where
  "pushUnderUpdateMu v answer now s = (case pushSnapshot s of
      (Some x, s) \<Rightarrow> (Some x, s)
    | (None, s) \<Rightarrow> (case gsHolder s of
        Pushing version live \<Rightarrow> pushRecord v answer now version live s
      | _ \<Rightarrow> (None, s)))"

definition push :: "groupEnv \<Rightarrow> err option \<Rightarrow> time \<Rightarrow> groupSession \<Rightarrow> err option \<times> groupSession" where
  "push v answer now s = pushUnderUpdateMu v answer now s"

definition pushOwed :: "groupSession \<Rightarrow> bool" where
  "pushOwed s = (\<not> gsStopped s \<and> gsPushed s \<noteq> gsVersion s)"

definition pushDue :: "time \<Rightarrow> groupSession \<Rightarrow> bool" where
  "pushDue now s = (\<not> gsStopped s \<and> gsPushed s \<noteq> gsVersion s \<and>
     (case gsNextPushAt s of None \<Rightarrow> True | Some t \<Rightarrow> t \<le> now))"

section \<open>Folding FRP's statuses\<close>

datatype proxyPhase = ProxyPhaseRunning | ProxyPhaseStartErr | ProxyPhaseOther

type_synonym statusExporter = "string \<Rightarrow> (proxyPhase \<times> string) option"

record routeObservation =
  roRouteID :: string
  roName :: string
  roMissing :: bool
  roPhase :: RoutePhase
  roErr :: "err option"

record routeVerdict =
  rvPhase :: RoutePhase
  rvErr :: "err option"
  rvTerminal :: "err option"
  rvMissing :: bool

definition inspectRouteStatus :: "statusExporter \<Rightarrow> string \<Rightarrow> routeVerdict" where
  "inspectRouteStatus status name = (case status name of
      None \<Rightarrow> \<lparr>rvPhase = RoutePending, rvErr = None, rvTerminal = None, rvMissing = True\<rparr>
    | Some (ProxyPhaseRunning, _) \<Rightarrow> \<lparr>rvPhase = RouteServing, rvErr = None, rvTerminal = None, rvMissing = False\<rparr>
    | Some (ProxyPhaseStartErr, text) \<Rightarrow>
        (let tag = proxyStartErrorTag text in
         if tag = ''knock_invalid'' \<or> tag = ''owner_missing'' \<or> tag = ''session_stale'' then
           \<lparr>rvPhase = RoutePending, rvErr = None, rvTerminal = Some (Errorf text (Sentinel SAdmissionStale)),
            rvMissing = False\<rparr>
         else if tag = ''resource_not_found'' then
           \<lparr>rvPhase = RouteFailed, rvErr = Some (Errorf text (Sentinel SResourceGone)), rvTerminal = None,
            rvMissing = False\<rparr>
         else \<lparr>rvPhase = RoutePending, rvErr = Some (NewErr text), rvTerminal = None, rvMissing = False\<rparr>)
    | Some (ProxyPhaseOther, _) \<Rightarrow> \<lparr>rvPhase = RoutePending, rvErr = None, rvTerminal = None, rvMissing = False\<rparr>)"

text \<open>\<open>errText\<close> of the errors an entry can hold while the session runs.\<close>

definition errText :: "err option \<Rightarrow> string" where
  "errText x = (case x of
      None \<Rightarrow> ''''
    | Some (Leaf (TMsg m)) \<Rightarrow> m
    | Some (Wrap (TMsg m) _) \<Rightarrow> ''qURL share resource is permanently unavailable: '' @ m
    | Some _ \<Rightarrow> ''FRP session group has ended'')"

text \<open>The snapshot of names, and the queries of FRP made without the lock; the first terminal answer wins.\<close>

definition observeScan :: "groupSession \<Rightarrow> groupSession" where
  "observeScan s = s\<lparr>gsScan := map (\<lambda>k. (k, geName (entryOf (gsRoutes s) k)))
     (filter (\<lambda>k. gePhase (entryOf (gsRoutes s) k) \<noteq> RouteFailed) (routeKeys (gsRoutes s)))\<rparr>"

fun inspectAll :: "statusExporter \<Rightarrow> (string \<times> string) list \<Rightarrow> routeObservation list res" where
  "inspectAll status [] = Inr []"
| "inspectAll status ((k, name) # scan) =
     (let q = inspectRouteStatus status name in
      case rvTerminal q of
        Some x \<Rightarrow> Inl (Errorf ''route'' x)
      | None \<Rightarrow> (case inspectAll status scan of
          Inl x \<Rightarrow> Inl x
        | Inr os \<Rightarrow> Inr (\<lparr>roRouteID = k, roName = name, roMissing = rvMissing q, roPhase = rvPhase q,
              roErr = rvErr q\<rparr> # os)))"

record foldState =
  fsRoutes :: routeTable
  fsVersion :: nat
  fsChanged :: bool
  fsLost :: bool
  fsAny :: bool

definition observedEntry :: "time \<Rightarrow> time \<Rightarrow> routeObservation \<Rightarrow> groupRouteEntry \<Rightarrow> groupRouteEntry" where
  "observedEntry now stamp ob entry =
     (let entry = (if roMissing ob then entry else entry\<lparr>geLastObserved := Some now\<rparr>);
          entry = (if gePhase entry \<noteq> roPhase ob \<or> errText (geErr entry) \<noteq> errText (roErr ob)
                   then entry\<lparr>gePhase := roPhase ob, geErr := roErr ob\<rparr> else entry)
      in if roPhase ob = RouteServing then entry\<lparr>geErroredAt := None\<rparr>
         else if roErr ob \<noteq> None \<and> geErroredAt entry = None then entry\<lparr>geErroredAt := Some stamp\<rparr>
         else entry)"

definition foldObservation :: "time \<Rightarrow> (string \<Rightarrow> time) \<Rightarrow> foldState \<Rightarrow> routeObservation \<Rightarrow> foldState" where
  "foldObservation now stamps f ob = (case fmlookup (fsRoutes f) (roRouteID ob) of
      None \<Rightarrow> f
    | Some entry \<Rightarrow>
        if geName entry \<noteq> roName ob \<or> gePhase entry = RouteFailed then f
        else f\<lparr>fsRoutes := fmupd (roRouteID ob) (observedEntry now (stamps (roRouteID ob)) ob entry) (fsRoutes f),
          fsVersion := (if roPhase ob = RouteFailed then fsVersion f + 1 else fsVersion f),
          fsChanged := (fsChanged f \<or> gePhase entry \<noteq> roPhase ob \<or> errText (geErr entry) \<noteq> errText (roErr ob)),
          fsLost := (fsLost f \<or> (roMissing ob \<and>
             (case geLastObserved entry of None \<Rightarrow> False | Some t \<Rightarrow> groupControlRecoveryGrace \<le> now - t))),
          fsAny := (fsAny f \<or> \<not> roMissing ob)\<rparr>)"

definition liveCount :: "routeTable \<Rightarrow> nat \<times> nat" where
  "liveCount t =
     (let es = filter (\<lambda>e. gePhase e \<noteq> RouteFailed) (map (entryOf t) (routeKeys t))
      in (length es, length (filter (\<lambda>e. gePhase e = RouteServing) es)))"

text \<open>
  The second critical section of \<open>observe\<close>. \<open>now\<close> is the reading at its start, \<open>stamps\<close> the readings made
  for single routes, \<open>relNow\<close> the one the release makes.
\<close>

definition observeFold ::
  "time \<Rightarrow> (string \<Rightarrow> time) \<Rightarrow> time \<Rightarrow> routeObservation list \<Rightarrow> groupSession \<Rightarrow> err option \<times> groupSession" where
  "observeFold now stamps relNow observations s =
     (if gsStopped s then (None, s)
      else let f = foldl (foldObservation now stamps)
             \<lparr>fsRoutes = gsRoutes s, fsVersion = gsVersion s, fsChanged = False, fsLost = False, fsAny = False\<rparr>
             observations;
           s = s\<lparr>gsRoutes := fsRoutes f, gsVersion := fsVersion f\<rparr>
      in if fsLost f \<and> \<not> fsAny f then (Some (Sentinel SSessionGroupEnded), notify s)
         else let (released, t) = releaseWindowLocked relNow (gsRoutes s);
             s = s\<lparr>gsRoutes := t, gsVersion := (if released then gsVersion s + 1 else gsVersion s)\<rparr>;
             (live, serving) = liveCount t;
             s = (if 0 < live \<and> serving = live then s\<lparr>gsReady := True\<rparr> else s)
           in (None, if fsChanged f then notify s else s))"

definition observe ::
  "statusExporter \<Rightarrow> time \<Rightarrow> (string \<Rightarrow> time) \<Rightarrow> time \<Rightarrow> groupSession \<Rightarrow> err option \<times> groupSession" where
  "observe status now stamps relNow s =
     (let s = observeScan s in
      case inspectAll status (gsScan s) of
        Inl x \<Rightarrow> (Some x, s)
      | Inr observations \<Rightarrow> observeFold now stamps relNow observations s)"

section \<open>Updating the route set\<close>

fun nextTable ::
  "(string \<Rightarrow> nat list) \<Rightarrow> uint64 \<Rightarrow> routeTable \<Rightarrow> GroupRoute list \<Rightarrow> routeTable \<Rightarrow> routeTable res" where
  "nextTable sha sessionID current [] nxt = Inr nxt"
| "nextTable sha sessionID current (route # routes) nxt =
     (let k = RouteID (grRoute route); fresh = freshEntry sha sessionID route in
      case fmlookup current k of
        Some c \<Rightarrow>
          if geName c = groupProxyName sha route sessionID then
            (if \<not> groupRouteEqual (geRoute c) route then
               Inl (NewErr ''a changed route needs a new generation'')
             else nextTable sha sessionID current routes (fmupd k c nxt))
          else nextTable sha sessionID current routes
            (fmupd k (if geReleased c then fresh\<lparr>geReplaces := True\<rparr> else fresh) nxt)
      | None \<Rightarrow> nextTable sha sessionID current routes (fmupd k fresh nxt))"

definition updateChecks :: "groupEnv \<Rightarrow> err option \<Rightarrow> GroupRoute list \<Rightarrow> groupSession \<Rightarrow> err option" where
  "updateChecks v ctxErr routes s =
     (case ctxErr of
        Some x \<Rightarrow> Some x
      | None \<Rightarrow>
         (case (if routes = [] then None else validateGroupRouteSet (gvWindows v) (gvRules v) routes) of
            Some x \<Rightarrow> Some x
          | None \<Rightarrow>
             (case routeTransportError (gsCommon s) (list_ex (\<lambda>g. hasRequestHeaders (grRoute g)) routes)
                     (list_ex (\<lambda>g. hasPrivateOrigin (grRoute g)) routes) of
                Some x \<Rightarrow> Some (Errorf ''update FRP session group'' x)
              | None \<Rightarrow> None)))"

text \<open>From taking \<open>updateMu\<close> to the notification; an error has released it again.\<close>

definition updateTable :: "groupEnv \<Rightarrow> GroupRoute list \<Rightarrow> time \<Rightarrow> groupSession \<Rightarrow> err option \<times> groupSession" where
  "updateTable v routes now s =
     (if gsStopped s then (Some (Sentinel SSessionGroupEnded), s)
      else case nextTable (gvSha v) (gsSessionID s) (gsRoutes s) routes fmempty of
        Inl x \<Rightarrow> (Some x, s)
      | Inr nxt \<Rightarrow> (None, notify (s\<lparr>gsRoutes := snd (releaseWindowLocked now nxt), gsVersion := gsVersion s + 1,
            gsHolder := TableUpdated\<rparr>)))"

definition Update ::
  "groupEnv \<Rightarrow> err option \<Rightarrow> GroupRoute list \<Rightarrow> time \<Rightarrow> err option \<Rightarrow> time \<Rightarrow> groupSession \<Rightarrow> err option \<times> groupSession" where
  "Update v ctxErr routes now answer pushNow s = (case updateChecks v ctxErr routes s of
      Some x \<Rightarrow> (Some x, s)
    | None \<Rightarrow> (case updateTable v routes now s of
        (Some x, s) \<Rightarrow> (Some x, s)
      | (None, s) \<Rightarrow> pushUnderUpdateMu v answer pushNow s))"

section \<open>The end of a session\<close>

definition demote :: "groupRouteEntry \<Rightarrow> groupRouteEntry" where
  "demote e = (if gePhase e = RouteServing then e\<lparr>gePhase := RoutePending, geErr := Some (Sentinel SSessionGroupEnded)\<rparr> else e)"

text \<open>What \<open>run\<close> does once \<open>svc.Run\<close> has returned \<open>x\<close>.\<close>

definition runEnded :: "err option \<Rightarrow> groupSession \<Rightarrow> groupSession" where
  "runEnded x s = notify (s\<lparr>gsErr := (if gsErr s = None then x else gsErr s), gsStopped := True,
     gsRoutes := fmmap demote (gsRoutes s), gsDone := True\<rparr>)"

definition failSession :: "err \<Rightarrow> groupSession \<Rightarrow> groupSession" where
  "failSession x s = s\<lparr>gsErr := (if gsErr s = None then Some x else gsErr s)\<rparr>"

text \<open>One round of \<open>watch\<close> without interleaving; the flag says whether it goes on.\<close>

definition watchTick ::
  "groupEnv \<Rightarrow> statusExporter \<Rightarrow> time \<Rightarrow> (string \<Rightarrow> time) \<Rightarrow> time \<Rightarrow> time \<Rightarrow> err option \<Rightarrow> time \<Rightarrow> groupSession \<Rightarrow>
   bool \<times> groupSession" where
  "watchTick v status now stamps relNow dueNow answer pushNow s =
     (case observe status now stamps relNow s of
        (Some x, s) \<Rightarrow> (False, failSession x s)
      | (None, s) \<Rightarrow> (True, if pushDue dueNow s then snd (push v answer pushNow s) else s))"

definition prepareDrain :: "groupSession \<Rightarrow> groupSession" where
  "prepareDrain s = s\<lparr>gsStopped := True\<rparr>"

definition shutdown :: "groupSession \<Rightarrow> groupSession" where
  "shutdown s = s\<lparr>gsStopped := True\<rparr>"

text \<open>The names whose connections \<open>retainDrainedRoutes\<close> closes.\<close>

definition retainDrainedRoutes :: "LocalHTTPRoute list \<Rightarrow> groupSession \<Rightarrow> string list" where
  "retainDrainedRoutes routes s =
     (let keep = foldl (\<lambda>m r. fmupd (RouteID r) r m) fmempty routes
      in map (\<lambda>k. geName (entryOf (gsRoutes s) k))
        (filter (\<lambda>k. case fmlookup keep k of
            None \<Rightarrow> True
          | Some route \<Rightarrow>
              ResourcePublicKey route \<noteq> ResourcePublicKey (grRoute (geRoute (entryOf (gsRoutes s) k))) \<or>
              ConnectorRoutingID route \<noteq> ConnectorRoutingID (grRoute (geRoute (entryOf (gsRoutes s) k))))
          (routeKeys (gsRoutes s))))"

section \<open>Reporting\<close>

record RouteState =
  rsRoute :: GroupRoute
  rsProxyName :: string
  rsPhase :: RoutePhase
  rsErr :: "err option"

definition RouteStates :: "groupSession \<Rightarrow> (string, RouteState) fmap" where
  "RouteStates s =
     (let pushErr = (if gsPushed s \<noteq> gsVersion s then gsPushErr s else None)
      in fmmap (\<lambda>e. \<lparr>rsRoute = geRoute e, rsProxyName = geName e, rsPhase = gePhase e,
            rsErr = (if gePhase e = RoutePending \<and> geErr e = None then pushErr else geErr e)\<rparr>) (gsRoutes s))"

definition ServingRouteIDs :: "groupSession \<Rightarrow> string list" where
  "ServingRouteIDs s = filter (\<lambda>k. gePhase (entryOf (gsRoutes s) k) = RouteServing) (routeKeys (gsRoutes s))"

section \<open>Starting\<close>

text \<open>\<open>FRPSessionGroupFactory.Start\<close> up to the construction of FRP's service, whose answer is an input.\<close>

definition Start ::
  "groupEnv \<Rightarrow> FRPGroupFactoryConfig \<Rightarrow> err option \<Rightarrow> Admission \<Rightarrow> GroupRoute list \<Rightarrow> time \<Rightarrow> err option \<Rightarrow>
   groupSession res" where
  "Start v f ctxErr admission routes now service = (case ctxErr of
      Some x \<Rightarrow> Inl x
    | None \<Rightarrow> (case BuildConfig (gvWindows v) (gvRules v) (gvSha v) f admission routes of
        Inl x \<Rightarrow> Inl x
      | Inr (common, proxies, _) \<Rightarrow> (case completeGroupProxies (gvLib v) common proxies of
          Inl x \<Rightarrow> Inl x
        | Inr _ \<Rightarrow>
            let s = newFRPGroupSession v common (amSessionID admission) (fcReadyPoll f) routes now in
            (case renderLiveProxies v s (liveRoutesLocked (gsRoutes s)) of
               Inl x \<Rightarrow> Inl x
             | Inr completed \<Rightarrow> (case service of
                 Some x \<Rightarrow> Inl x
               | None \<Rightarrow> Inr (s\<lparr>gsHeld := completed\<rparr>))))))"

end
