(* ===== verification/Group_Session_Props.thy ===== *)
theory Group_Session_Props
  imports Group_Session Routes_Props
begin

text \<open>
  Correctness of one session's route table: what the registration window releases, that the proxy set
  FRP holds follows the table, what a status does to a route and what ends the session. The step
  relation \<open>groupStep\<close> interleaves the critical sections of the watcher, of callers and of the
  session's end in any order.
\<close>

section \<open>Tables\<close>

lemma routeKeys_set [simp]: "set (routeKeys t) = fset (fmdom t)"
  by (simp add: routeKeys_def)

lemma routeKeys_distinct [simp]: "distinct (routeKeys t)"
  by (simp add: routeKeys_def sorted_list_of_fset.rep_eq)

lemma entryOf_upd: "entryOf (fmupd k e t) k' = (if k' = k then e else entryOf t k')"
  by (simp add: entryOf_def)

lemma routeKeys_upd: "k |\<in>| fmdom t \<Longrightarrow> routeKeys (fmupd k e t) = routeKeys t"
  by (simp add: routeKeys_def finsert_absorb)

lemma routeKeys_eq: "fmdom t = fmdom t' \<Longrightarrow> routeKeys t = routeKeys t'"
  by (simp add: routeKeys_def)

lemma dom_entry: "k |\<in>| fmdom t \<Longrightarrow> fmlookup t k = Some (entryOf t k)"
  by (metis entryOf_def fmlookup_dom_iff option.sel)

section \<open>The registration window\<close>

text \<open>Releasing a set of routes, all at once.\<close>

definition releasedTable :: "string set \<Rightarrow> routeTable \<Rightarrow> routeTable" where
  "releasedTable K t = fmmap_keys (\<lambda>k e. if k \<in> K then e\<lparr>geReleased := True\<rparr> else e) t"

lemma releasedTable_dom [simp]: "fmdom (releasedTable K t) = fmdom t"
  by (simp add: releasedTable_def)

lemma releasedTable_entry:
  "k |\<in>| fmdom t \<Longrightarrow> entryOf (releasedTable K t) k = (if k \<in> K then (entryOf t k)\<lparr>geReleased := True\<rparr> else entryOf t k)"
proof -
  assume "k |\<in>| fmdom t"
  then obtain e where "fmlookup t k = Some e" by (metis fmlookup_dom_iff)
  then show ?thesis by (simp add: entryOf_def releasedTable_def)
qed

lemma releasedTable_empty [simp]: "releasedTable {} t = t"
  by (rule fmap_ext) (simp add: releasedTable_def option.map_ident)

lemma releasedTable_insert:
  assumes "k |\<in>| fmdom t" "k \<notin> K"
  shows "releasedTable K (fmupd k ((entryOf t k)\<lparr>geReleased := True\<rparr>) t) = releasedTable (insert k K) t"
  using assms dom_entry [OF assms(1)] by (intro fmap_ext) (auto simp: releasedTable_def)

lemma releaseLoop_take:
  assumes "distinct ks" "set ks \<subseteq> fset (fmdom t)"
  shows "releaseLoop window cap i p ks t =
    releasedTable (set (take (min (window - i) (cap - p)) ks)) t"
  using assms
proof (induction ks arbitrary: i p t)
  case (Cons k ks)
  show ?case
  proof (cases "window \<le> i \<or> cap \<le> p")
    case False
    let ?t = "fmupd k ((entryOf t k)\<lparr>geReleased := True\<rparr>) t"
    have k: "k |\<in>| fmdom t" "k \<notin> set (take n ks)" for n
      using Cons.prems by (auto dest: in_set_takeD)
    have "releaseLoop window cap i p (k # ks) t = releasedTable (set (take (min (window - (i + 1)) (cap - (p + 1))) ks)) ?t"
      using Cons.IH [of ?t] Cons.prems False by auto
    also have "\<dots> = releasedTable (insert k (set (take (min (window - (i + 1)) (cap - (p + 1))) ks))) t"
      by (rule releasedTable_insert [OF k])
    also have "min (window - i) (cap - p) = Suc (min (window - (i + 1)) (cap - (p + 1)))" using False by arith
    ultimately show ?thesis by simp
  qed auto
qed simp

lemma waitingRoutes_facts:
  "distinct (waitingRoutes t)"
  "set (waitingRoutes t) = {k \<in> fset (fmdom t). \<not> geReleased (entryOf t k) \<and> gePhase (entryOf t k) = RoutePending}"
  by (auto simp: waitingRoutes_def Let_def)

text \<open>How many routes one call hands to FRP.\<close>

definition releaseQuota :: "routeTable \<Rightarrow> time \<Rightarrow> nat" where
  "releaseQuota t now = (case windowLoadLocked t now of (inflight, pending) \<Rightarrow> min (16 - inflight) (32 - pending))"

lemma releaseWindow_eq:
  "releaseWindowLocked now t =
     (0 < releaseQuota t now \<and> waitingRoutes t \<noteq> [],
      releasedTable (set (take (releaseQuota t now) (waitingRoutes t))) t)"
proof -
  obtain i p where l: "windowLoadLocked t now = (i, p)" by (metis surj_pair)
  have s: "set (waitingRoutes t) \<subseteq> fset (fmdom t)" by (auto simp: waitingRoutes_facts)
  show ?thesis
    by (auto simp: releaseWindowLocked_def Let_def l releaseQuota_def groupRegistrationWindow_def
        groupReleasedPendingFactor_def releaseLoop_take [OF waitingRoutes_facts(1) s])
qed

lemma count_filter:
  "length (filter P (map (entryOf t) (routeKeys t))) = card {k \<in> fset (fmdom t). P (entryOf t k)}"
proof -
  have "length (filter P (map (entryOf t) (routeKeys t))) = length (filter (\<lambda>k. P (entryOf t k)) (routeKeys t))"
    by (simp add: filter_map comp_def)
  also have "\<dots> = card (set (filter (\<lambda>k. P (entryOf t k)) (routeKeys t)))"
    by (rule distinct_card [symmetric]) simp
  finally show ?thesis by (simp add: Collect_conj_eq)
qed

definition awaitCount :: "(groupRouteEntry \<Rightarrow> bool) \<Rightarrow> routeTable \<Rightarrow> nat" where
  "awaitCount Q t = card {k \<in> fset (fmdom t). awaiting (entryOf t k) \<and> Q (entryOf t k)}"

lemma load_count:
  "windowLoadLocked t now =
    (awaitCount (\<lambda>e. geErr e = None) t, awaitCount (\<lambda>e. geErr e = None \<or> recentlyErrored now e) t)"
  unfolding windowLoadLocked_def Let_def filter_filter count_filter awaitCount_def by (rule refl)

lemma awaitCount_release:
  assumes q: "\<And>e. Q (e\<lparr>geReleased := True\<rparr>) = Q e" and "distinct ks"
  shows "awaitCount Q t \<le> awaitCount Q (releasedTable (set ks) t) \<and>
    awaitCount Q (releasedTable (set ks) t) \<le> awaitCount Q t + length ks"
proof -
  let ?A = "{k \<in> fset (fmdom t). awaiting (entryOf t k) \<and> Q (entryOf t k)}"
  let ?B = "{k \<in> fset (fmdom t). awaiting (entryOf (releasedTable (set ks) t) k) \<and>
      Q (entryOf (releasedTable (set ks) t) k)}"
  have "?A \<subseteq> ?B"
  proof
    fix k
    assume k: "k \<in> ?A"
    then have d: "k |\<in>| fmdom t" by simp
    show "k \<in> ?B"
    proof (cases "k \<in> set ks")
      case True
      then have "entryOf (releasedTable (set ks) t) k = (entryOf t k)\<lparr>geReleased := True\<rparr>"
        using releasedTable_entry [OF d] by simp
      then show ?thesis using k q [of "entryOf t k"] by (simp add: awaiting_def)
    qed (use k releasedTable_entry [OF d] in simp)
  qed
  then have "card ?A \<le> card ?B" by (rule card_mono [rotated]) simp
  moreover have "?B \<subseteq> ?A \<union> set ks"
  proof
    fix k
    assume k: "k \<in> ?B"
    then show "k \<in> ?A \<union> set ks" using releasedTable_entry [of k t "set ks"] by (cases "k \<in> set ks") simp_all
  qed
  then have "card ?B \<le> card (?A \<union> set ks)" by (rule card_mono [rotated]) simp
  then have "card ?B \<le> card ?A + length ks"
    using card_Un_le [of ?A "set ks"] distinct_card [OF assms(2)] by linarith
  ultimately show ?thesis by (simp add: awaitCount_def)
qed

lemma released_load:
  assumes "distinct ks" "windowLoadLocked t now = (i, p)" "windowLoadLocked (releasedTable (set ks) t) now = (i', p')"
  shows "i \<le> i' \<and> i' \<le> i + length ks \<and> p \<le> p' \<and> p' \<le> p + length ks"
  using awaitCount_release [of "\<lambda>e. geErr e = None", OF _ assms(1), of t]
    awaitCount_release [of "\<lambda>e. geErr e = None \<or> recentlyErrored now e", OF _ assms(1), of t] assms(2,3)
  by (simp add: load_count recentlyErrored_def)

text \<open>
  What one call of \<open>releaseWindowLocked\<close> hands to FRP: exactly the first routes in line (regenerated
  ones first, then by route ID) up to the free window slots and the free room under the pending
  ceiling, changing nothing else. It never takes the proxies FRP is waiting on past 16, nor the released
  pending ones past 32, where they were not past it; and it is work-conserving: a route stays in line
  only when a bound is exhausted.
\<close>

lemma window_release_exact:
  assumes "windowLoadLocked t now = (i, p)" and "releaseWindowLocked now t = (released, t')"
    and "windowLoadLocked t' now = (i', p')"
  shows "(let n = min (length (waitingRoutes t)) (min (16 - i) (32 - p)) in
     t' = releasedTable (set (take n (waitingRoutes t))) t \<and> released = (0 < n) \<and>
     i \<le> i' \<and> i' \<le> max 16 i \<and> p \<le> p' \<and> p' \<le> max 32 p \<and>
     (n < length (waitingRoutes t) \<longrightarrow> 16 \<le> i + n \<or> 32 \<le> p + n))"
proof -
  let ?q = "min (16 - i) (32 - p)"
  have q: "releaseQuota t now = ?q" using assms(1) by (simp add: releaseQuota_def)
  have r: "released = (0 < ?q \<and> waitingRoutes t \<noteq> [])" "t' = releasedTable (set (take ?q (waitingRoutes t))) t"
    using assms(2) q by (simp_all add: releaseWindow_eq)
  have d: "distinct (take ?q (waitingRoutes t))" using waitingRoutes_facts(1) by simp
  have "windowLoadLocked (releasedTable (set (take ?q (waitingRoutes t))) t) now = (i', p')"
    using assms(3) r(2) by simp
  note l = released_load [OF d assms(1) this]
  have "length (take ?q (waitingRoutes t)) \<le> ?q" by (auto simp: min_le_iff_disj)
  with l have "i \<le> i' \<and> i' \<le> i + ?q \<and> p \<le> p' \<and> p' \<le> p + ?q" by linarith
  moreover have "take (min (length ws) q) ws = take q ws" for ws :: "string list" and q
    by (cases "q \<le> length ws") (simp_all add: min_absorb2 min_absorb1)
  then have "t' = releasedTable (set (take (min (length (waitingRoutes t)) ?q) (waitingRoutes t))) t"
    using r(2) by simp
  moreover have "released = (0 < min (length (waitingRoutes t)) ?q)" using r(1) by auto
  moreover have "i + ?q \<le> max 16 i" "p + ?q \<le> max 32 p" by arith+
  moreover have "min l ?q < l \<Longrightarrow> 16 \<le> i + min l ?q \<or> 32 \<le> p + min l ?q" for l by arith
  ultimately show ?thesis unfolding Let_def by (intro conjI impI) (blast intro: order_trans)+
qed

section \<open>What FRP is told\<close>

lemma live_cong:
  assumes "fmdom t' = fmdom t"
    and "\<And>k. k |\<in>| fmdom t \<Longrightarrow> geRoute (entryOf t' k) = geRoute (entryOf t k) \<and>
      (geReleased (entryOf t' k) \<and> gePhase (entryOf t' k) \<noteq> RouteFailed \<longleftrightarrow>
       geReleased (entryOf t k) \<and> gePhase (entryOf t k) \<noteq> RouteFailed)"
  shows "liveRoutesLocked t' = liveRoutesLocked t"
proof -
  have "filter (\<lambda>k. geReleased (entryOf t' k) \<and> gePhase (entryOf t' k) \<noteq> RouteFailed) (routeKeys t) =
    filter (\<lambda>k. geReleased (entryOf t k) \<and> gePhase (entryOf t k) \<noteq> RouteFailed) (routeKeys t)"
    using assms(2) by (intro filter_cong) auto
  then show ?thesis using assms(2) routeKeys_eq [OF assms(1)] by (auto simp: liveRoutesLocked_def)
qed

lemma demote_live: "liveRoutesLocked (fmmap demote t) = liveRoutesLocked t"
proof (rule live_cong)
  fix k
  assume "k |\<in>| fmdom t"
  then obtain e where "fmlookup t k = Some e" by (metis fmlookup_dom_iff)
  then show "geRoute (entryOf (fmmap demote t) k) = geRoute (entryOf t k) \<and>
      (geReleased (entryOf (fmmap demote t) k) \<and> gePhase (entryOf (fmmap demote t) k) \<noteq> RouteFailed \<longleftrightarrow>
       geReleased (entryOf t k) \<and> gePhase (entryOf t k) \<noteq> RouteFailed)"
    by (simp add: entryOf_def demote_def)
qed simp

text \<open>Folding observations: the domain, routes and names stay, and the live set only with the version.\<close>

definition sameEntries :: "routeTable \<Rightarrow> routeTable \<Rightarrow> bool" where
  "sameEntries t t' = (fmdom t' = fmdom t \<and> (\<forall>k. k |\<in>| fmdom t \<longrightarrow>
     geRoute (entryOf t' k) = geRoute (entryOf t k) \<and> geName (entryOf t' k) = geName (entryOf t k)))"

lemma sameEntries_refl [simp]: "sameEntries t t"
  by (simp add: sameEntries_def)

lemma sameEntries_trans: "sameEntries a b \<Longrightarrow> sameEntries b c \<Longrightarrow> sameEntries a c"
  by (auto simp: sameEntries_def)

lemma observedEntry_facts [simp]:
  "geRoute (observedEntry now stamp ob e) = geRoute e" "geName (observedEntry now stamp ob e) = geName e"
  "geReleased (observedEntry now stamp ob e) = geReleased e" "gePhase (observedEntry now stamp ob e) = roPhase ob"
  "geReplaces (observedEntry now stamp ob e) = geReplaces e"
  by (simp_all add: observedEntry_def Let_def)

lemma foldObservation_step:
  "sameEntries (fsRoutes f) (fsRoutes (foldObservation now stamps f ob)) \<and>
   fsVersion f \<le> fsVersion (foldObservation now stamps f ob) \<and>
   (fsVersion (foldObservation now stamps f ob) = fsVersion f \<longrightarrow>
      liveRoutesLocked (fsRoutes (foldObservation now stamps f ob)) = liveRoutesLocked (fsRoutes f))"
proof (cases "foldObservation now stamps f ob = f")
  case False
  let ?k = "roRouteID ob"
  obtain e where e: "fmlookup (fsRoutes f) ?k = Some e" "geName e = roName ob" "gePhase e \<noteq> RouteFailed"
    using False by (auto simp: foldObservation_def split: option.splits if_splits)
  let ?t = "fmupd ?k (observedEntry now (stamps ?k) ob e) (fsRoutes f)"
  have k: "?k |\<in>| fmdom (fsRoutes f)" "entryOf (fsRoutes f) ?k = e"
    using e(1) by (auto simp: entryOf_def intro: fmdomI)
  have r: "fsRoutes (foldObservation now stamps f ob) = ?t"
    "fsVersion (foldObservation now stamps f ob) = (if roPhase ob = RouteFailed then fsVersion f + 1 else fsVersion f)"
    using e by (simp_all add: foldObservation_def)
  have d: "fmdom ?t = fmdom (fsRoutes f)" using k(1) by (auto simp: finsert_absorb)
  have "sameEntries (fsRoutes f) ?t" unfolding sameEntries_def using d k(2) by (auto simp: entryOf_upd)
  moreover have "liveRoutesLocked ?t = liveRoutesLocked (fsRoutes f)" if "roPhase ob \<noteq> RouteFailed"
    by (rule live_cong [OF d]) (use that e k(2) in \<open>auto simp: entryOf_upd\<close>)
  ultimately show ?thesis by (simp add: r)
qed simp

lemma foldObservations_steps:
  "sameEntries (fsRoutes f) (fsRoutes (foldl (foldObservation now stamps) f obs)) \<and>
   fsVersion f \<le> fsVersion (foldl (foldObservation now stamps) f obs) \<and>
   (fsVersion (foldl (foldObservation now stamps) f obs) = fsVersion f \<longrightarrow>
      liveRoutesLocked (fsRoutes (foldl (foldObservation now stamps) f obs)) = liveRoutesLocked (fsRoutes f))"
proof (induction obs arbitrary: f)
  case (Cons ob obs)
  show ?case
    using Cons.IH [of "foldObservation now stamps f ob"] foldObservation_step [of f now stamps ob]
    by (auto intro: sameEntries_trans)
qed simp

lemma release_same: "sameEntries t (snd (releaseWindowLocked now t))"
  by (simp add: releaseWindow_eq sameEntries_def releasedTable_entry)

lemma release_false: "releaseWindowLocked now t = (False, t') \<Longrightarrow> t' = t"
  by (auto simp: releaseWindow_eq split: if_splits)

text \<open>A table whose keys and names are those of its routes.\<close>

definition table_ok :: "(string \<Rightarrow> nat list) \<Rightarrow> uint64 \<Rightarrow> routeTable \<Rightarrow> bool" where
  "table_ok sha sid t = (\<forall>k. k |\<in>| fmdom t \<longrightarrow> RouteID (grRoute (geRoute (entryOf t k))) = k \<and>
     geName (entryOf t k) = groupProxyName sha (geRoute (entryOf t k)) sid)"

lemma table_ok_same: "table_ok sha sid t \<Longrightarrow> sameEntries t t' \<Longrightarrow> table_ok sha sid t'"
  by (auto simp: table_ok_def sameEntries_def)

lemma table_ok_upd:
  "table_ok sha sid t \<Longrightarrow> geName e = groupProxyName sha (geRoute e) sid \<Longrightarrow>
     RouteID (grRoute (geRoute e)) = k \<Longrightarrow> table_ok sha sid (fmupd k e t)"
  by (auto simp: table_ok_def entryOf_upd)

lemma fresh_facts [simp]:
  "geName (freshEntry sha sid r) = groupProxyName sha r sid" "geRoute (freshEntry sha sid r) = r"
  by (simp_all add: freshEntry_def)

lemma table_ok_lookup: "table_ok sha sid t \<Longrightarrow> fmlookup t k = Some e \<Longrightarrow>
    geName e = groupProxyName sha (geRoute e) sid \<and> RouteID (grRoute (geRoute e)) = k"
  using fmdomI [of t k e] by (auto simp: table_ok_def entryOf_def)

lemma nextTable_ok:
  "nextTable sha sid t routes nxt = Inr t' \<Longrightarrow> table_ok sha sid t \<Longrightarrow> table_ok sha sid nxt \<Longrightarrow> table_ok sha sid t'"
proof (induction routes arbitrary: nxt)
  case (Cons r routes)
  show ?case
    using Cons.prems
    by (auto simp: Let_def split: option.splits if_splits
        intro!: Cons.IH table_ok_upd dest: table_ok_lookup [OF Cons.prems(2)])
qed simp

lemma new_table_ok: "table_ok sha sid t \<Longrightarrow>
    table_ok sha sid (foldl (\<lambda>t r. fmupd (RouteID (grRoute r)) (freshEntry sha sid r) t) t routes)"
proof (induction routes arbitrary: t)
  case (Cons r routes)
  have "table_ok sha sid (fmupd (RouteID (grRoute r)) (freshEntry sha sid r) t)"
    by (rule table_ok_upd [OF Cons.prems]) simp_all
  from Cons.IH [OF this] show ?case by simp
qed simp

lemma demote_same: "sameEntries t (fmmap demote t)"
proof -
  have "geRoute (entryOf (fmmap demote t) k) = geRoute (entryOf t k) \<and>
      geName (entryOf (fmmap demote t) k) = geName (entryOf t k)" if "k |\<in>| fmdom t" for k
  proof -
    obtain e where "fmlookup t k = Some e" using \<open>k |\<in>| fmdom t\<close> by (metis fmlookup_dom_iff)
    then show ?thesis by (simp add: entryOf_def demote_def)
  qed
  then show ?thesis by (simp add: sameEntries_def)
qed

section \<open>Steps\<close>

text \<open>
  One critical section of any goroutine. The watcher scans and folds; a caller's \<open>Update\<close> changes the
  table and keeps \<open>updateMu\<close> until its push is recorded, during which the watcher may go on; the session
  may be drained, stopped or ended at any point, and the change signal may be consumed.
\<close>

inductive groupStep :: "groupEnv \<Rightarrow> groupSession \<Rightarrow> groupSession \<Rightarrow> bool" for v where
  scan: "groupStep v s (observeScan s)"
| fold: "inspectAll status (gsScan s) = Inr os \<Longrightarrow> observeFold now stamps relNow os s = (x, s') \<Longrightarrow> groupStep v s s'"
| fails: "groupStep v s (failSession x s)"
| table: "gsHolder s = Unlocked \<Longrightarrow> updateChecks v None routes s = None \<Longrightarrow>
    updateTable v routes now s = (x, s') \<Longrightarrow> groupStep v s s'"
| snapshot: "gsHolder s = Unlocked \<or> gsHolder s = TableUpdated \<Longrightarrow> pushSnapshot s = (x, s') \<Longrightarrow> groupStep v s s'"
| recorded: "gsHolder s = Pushing n live \<Longrightarrow> pushRecord v answer now n live s = (x, s') \<Longrightarrow> groupStep v s s'"
| drain: "gsHolder s = Unlocked \<Longrightarrow> groupStep v s (prepareDrain s)"
| stop: "groupStep v s (shutdown s)"
| ended: "groupStep v s (runEnded x s)"
| taken: "groupStep v s (s\<lparr>gsSignal := False\<rparr>)"

inductive groupReach :: "groupEnv \<Rightarrow> groupSession \<Rightarrow> groupSession \<Rightarrow> bool" for v s0 where
  start: "groupReach v s0 s0"
| move: "groupReach v s0 s \<Longrightarrow> groupStep v s s' \<Longrightarrow> groupReach v s0 s'"

text \<open>
  FRP holds exactly the live routes of the table, rendered and completed.
\<close>

definition holdsTable :: "groupEnv \<Rightarrow> groupSession \<Rightarrow> bool" where
  "holdsTable v s = (renderLiveProxies v s (liveRoutesLocked (gsRoutes s)) = Inr (gsHeld s))"

definition noServing :: "routeTable \<Rightarrow> bool" where
  "noServing t = (\<forall>k. k |\<in>| fmdom t \<longrightarrow> gePhase (entryOf t k) \<noteq> RouteServing)"

definition group_inv :: "groupEnv \<Rightarrow> groupSession \<Rightarrow> bool" where
  "group_inv v s =
     (table_ok (gvSha v) (gsSessionID s) (gsRoutes s) \<and> gsPushed s \<le> gsVersion s \<and>
      (case gsHolder s of
         Unlocked \<Rightarrow> True
       | TableUpdated \<Rightarrow> gsPushed s < gsVersion s
       | Pushing n live \<Rightarrow> gsPushed s \<le> n \<and> n \<le> gsVersion s \<and>
           (n = gsVersion s \<longrightarrow> live = liveRoutesLocked (gsRoutes s))) \<and>
      (gsPushed s = gsVersion s \<longrightarrow> holdsTable v s) \<and>
      (gsDone s \<longrightarrow> gsStopped s \<and> noServing (gsRoutes s)))"

lemmas group_records = observeScan_def failSession_def prepareDrain_def shutdown_def notify_def

lemma render_fields: "gsSessionID s = gsSessionID s' \<Longrightarrow> gsCommon s = gsCommon s' \<Longrightarrow>
    renderLiveProxies v s live = renderLiveProxies v s' live"
  by (simp add: renderLiveProxies_def cong: sum.case_cong)

lemma holdsTable_cong:
  "gsSessionID s' = gsSessionID s \<Longrightarrow> gsCommon s' = gsCommon s \<Longrightarrow> gsHeld s' = gsHeld s \<Longrightarrow>
     liveRoutesLocked (gsRoutes s') = liveRoutesLocked (gsRoutes s) \<Longrightarrow> holdsTable v s' = holdsTable v s"
  using render_fields [of s' s v] by (simp add: holdsTable_def)

lemma holdsTable_upd [simp]:
  "holdsTable v (s\<lparr>gsHolder := h\<rparr>) = holdsTable v s" "holdsTable v (s\<lparr>gsErr := x\<rparr>) = holdsTable v s"
  "holdsTable v (s\<lparr>gsStopped := b\<rparr>) = holdsTable v s" "holdsTable v (s\<lparr>gsSignal := b\<rparr>) = holdsTable v s"
  "holdsTable v (s\<lparr>gsScan := c\<rparr>) = holdsTable v s" "holdsTable v (s\<lparr>gsPushErr := x\<rparr>) = holdsTable v s"
  "holdsTable v (s\<lparr>gsPushFailures := n\<rparr>) = holdsTable v s" "holdsTable v (s\<lparr>gsNextPushAt := t\<rparr>) = holdsTable v s"
  by (rule holdsTable_cong; simp)+

text \<open>A change of the table that keeps the version keeps the live set; any other raises the version.\<close>

lemma group_inv_table:
  assumes "group_inv v s" "\<not> gsStopped s"
    and "table_ok (gvSha v) (gsSessionID s) (gsRoutes s')" "gsVersion s \<le> gsVersion s'"
    and "gsVersion s' = gsVersion s \<Longrightarrow> liveRoutesLocked (gsRoutes s') = liveRoutesLocked (gsRoutes s)"
    and "gsSessionID s' = gsSessionID s" "gsCommon s' = gsCommon s" "gsHeld s' = gsHeld s"
      "gsPushed s' = gsPushed s" "gsHolder s' = gsHolder s" "gsDone s' = gsDone s"
  shows "group_inv v s'"
proof -
  have "gsPushed s' = gsVersion s' \<Longrightarrow> holdsTable v s'"
    using assms holdsTable_cong [of s' s v] by (auto simp: group_inv_def)
  then show ?thesis using assms by (auto simp: group_inv_def split: holder.splits)
qed

lemma observeFold_inv:
  assumes "group_inv v s" "observeFold now stamps relNow os s = (x, s')"
  shows "group_inv v s'"
proof (cases "gsStopped s")
  case False
  let ?init = "\<lparr>fsRoutes = gsRoutes s, fsVersion = gsVersion s, fsChanged = False, fsLost = False, fsAny = False\<rparr>"
  let ?f = "foldl (foldObservation now stamps) ?init os"
  have f: "sameEntries (gsRoutes s) (fsRoutes ?f)" "gsVersion s \<le> fsVersion ?f"
    "fsVersion ?f = gsVersion s \<Longrightarrow> liveRoutesLocked (fsRoutes ?f) = liveRoutesLocked (gsRoutes s)"
    using foldObservations_steps [of ?init now stamps os] by simp_all
  obtain b t where r: "releaseWindowLocked relNow (fsRoutes ?f) = (b, t)" by (metis surj_pair)
  have tf: "table_ok (gvSha v) (gsSessionID s) (fsRoutes ?f)"
    by (rule table_ok_same [OF _ f(1)]) (use assms(1) in \<open>simp add: group_inv_def\<close>)
  have tt: "table_ok (gvSha v) (gsSessionID s) t"
    using table_ok_same [OF tf release_same [of "fsRoutes ?f" relNow]] r by simp
  have lt: "\<not> b \<Longrightarrow> t = fsRoutes ?f" using release_false r by auto
  show ?thesis
    by (rule group_inv_table [OF assms(1) False])
      (use assms(2) False f(2,3) r tf tt lt in \<open>auto simp: observeFold_def Let_def notify_def split: if_splits prod.splits\<close>)
qed (use assms in \<open>simp add: observeFold_def\<close>)

lemma updateTable_inv:
  assumes "group_inv v s" "updateTable v routes now s = (x, s')"
  shows "group_inv v s'"
proof (cases x)
  case None
  then obtain nxt where n: "nextTable (gvSha v) (gsSessionID s) (gsRoutes s) routes fmempty = Inr nxt"
    and s': "s' = notify (s\<lparr>gsRoutes := snd (releaseWindowLocked now nxt), gsVersion := gsVersion s + 1,
        gsHolder := TableUpdated\<rparr>)" and stop: "\<not> gsStopped s"
    using assms(2) by (auto simp: updateTable_def split: if_splits sum.splits)
  have "table_ok (gvSha v) (gsSessionID s) nxt"
    using nextTable_ok [OF n] assms(1) by (simp add: group_inv_def table_ok_def)
  then have "table_ok (gvSha v) (gsSessionID s) (snd (releaseWindowLocked now nxt))"
    using table_ok_same release_same by blast
  then show ?thesis using assms(1) stop by (auto simp: group_inv_def s' notify_def)
qed (use assms in \<open>auto simp: updateTable_def split: if_splits sum.splits\<close>)

lemma pushSnapshot_inv:
  assumes "group_inv v s" "pushSnapshot s = (x, s')"
  shows "group_inv v s'"
proof -
  have "s' = s\<lparr>gsHolder := Unlocked\<rparr> \<or> s' = s\<lparr>gsHolder := Pushing (gsVersion s) (liveRoutesLocked (gsRoutes s))\<rparr>"
    using assms(2) by (auto simp: pushSnapshot_def split: if_splits)
  then show ?thesis using assms(1) by (elim disjE) (simp_all add: group_inv_def)
qed

lemma pushRecord_inv:
  assumes "group_inv v s" "gsHolder s = Pushing n live" "pushRecord v answer now n live s = (x, s')"
  shows "group_inv v s'"
proof (cases "\<exists>proxies. renderLiveProxies v s live = Inr proxies \<and> answer = None")
  case True
  then obtain proxies where p: "renderLiveProxies v s live = Inr proxies" "answer = None" by blast
  then have s': "gsRoutes s' = gsRoutes s" "gsVersion s' = gsVersion s" "gsSessionID s' = gsSessionID s"
      "gsCommon s' = gsCommon s" "gsHeld s' = proxies" "gsHolder s' = Unlocked" "gsDone s' = gsDone s"
      "gsStopped s' = gsStopped s" "gsPushed s' = n"
    using assms by (auto simp: pushRecord_def Let_def notify_def group_inv_def split: if_splits)
  have "n = gsVersion s \<Longrightarrow> holdsTable v s'"
    using assms(1,2) p s' render_fields [of s' s v] by (simp add: holdsTable_def group_inv_def)
  then show ?thesis using assms(1,2) s' by (simp add: group_inv_def)
next
  case False
  then have "\<exists>e. s' = snd (recordPushFailure now e s)"
    using assms(3) by (auto simp: pushRecord_def split: sum.splits option.splits) (metis snd_conv)+
  then show ?thesis using assms(1)
    by (auto simp: group_inv_def recordPushFailure_def Let_def notify_def split: holder.splits)
qed

lemma runEnded_inv:
  assumes "group_inv v s"
  shows "group_inv v (runEnded x s)"
proof -
  have n: "noServing (fmmap demote (gsRoutes s))"
    unfolding noServing_def
  proof (intro allI impI)
    fix k
    assume "k |\<in>| fmdom (fmmap demote (gsRoutes s))"
    then obtain e where "fmlookup (gsRoutes s) k = Some e" by (metis fmdom_map fmlookup_dom_iff)
    then show "gePhase (entryOf (fmmap demote (gsRoutes s)) k) \<noteq> RouteServing" by (simp add: entryOf_def demote_def)
  qed
  have h: "holdsTable v (runEnded x s) = holdsTable v s"
    by (rule holdsTable_cong) (simp_all add: runEnded_def notify_def demote_live)
  show ?thesis
    using assms h n table_ok_same [OF _ demote_same]
    by (auto simp: group_inv_def runEnded_def notify_def demote_live split: holder.splits)
qed

lemma groupStep_inv: "groupStep v s s' \<Longrightarrow> group_inv v s \<Longrightarrow> group_inv v s'"
proof (induction rule: groupStep.induct)
  case (fold status s os now stamps relNow x s')
  then show ?case using observeFold_inv by blast
next
  case (table s routes now x s')
  then show ?case using updateTable_inv by blast
next
  case (snapshot s x s')
  then show ?case using pushSnapshot_inv by blast
next
  case (recorded s n live answer now x s')
  then show ?case using pushRecord_inv by blast
next
  case (ended s x)
  then show ?case by (rule runEnded_inv)
qed (auto simp: group_inv_def group_records split: holder.splits)

lemma groupReach_inv: "groupReach v s0 s \<Longrightarrow> group_inv v s0 \<Longrightarrow> group_inv v s"
  by (induction rule: groupReach.induct) (auto intro: groupStep_inv)

end
