(* ===== verification/Group_Session_Claims.thy ===== *)
theory Group_Session_Claims
  imports Group_Session_Props
begin

text \<open>
  The properties of one FRP session: FRP holds the route table it acknowledged, one observation moves
  every route as its status says, an update keeps what did not change, and failed pushes are retried
  with a bounded delay and reported.
\<close>

section \<open>FRP and the table\<close>

lemma new_session_inv:
  assumes "renderLiveProxies v (newFRPGroupSession v c sid poll routes now)
      (liveRoutesLocked (gsRoutes (newFRPGroupSession v c sid poll routes now))) = Inr held"
  shows "group_inv v ((newFRPGroupSession v c sid poll routes now)\<lparr>gsHeld := held\<rparr>)"
proof -
  let ?t = "foldl (\<lambda>t r. fmupd (RouteID (grRoute r)) (freshEntry (gvSha v) sid r) t) fmempty routes"
  let ?s = "newFRPGroupSession v c sid poll routes now"
  have "table_ok (gvSha v) sid ?t" by (rule new_table_ok) (simp add: table_ok_def)
  then have t: "table_ok (gvSha v) sid (snd (releaseWindowLocked now ?t))" using table_ok_same release_same by blast
  have h: "holdsTable v (?s\<lparr>gsHeld := held\<rparr>)"
    using assms render_fields [of "?s\<lparr>gsHeld := held\<rparr>" ?s v] by (simp add: holdsTable_def)
  have "gsRoutes ?s = snd (releaseWindowLocked now ?t)" "gsSessionID ?s = sid" "gsHolder ?s = Unlocked"
    "\<not> gsDone ?s" "gsPushed ?s = gsVersion ?s"
    by (simp_all add: newFRPGroupSession_def Let_def)
  then show ?thesis using t h by (simp add: group_inv_def)
qed

lemma start_inv: "Start v f ctx a routes now service = Inr s \<Longrightarrow> group_inv v s"
  using new_session_inv by (auto simp: Start_def Let_def split: option.splits sum.splits)

text \<open>
  C8. The proxy set FRP holds is the table it acknowledged: on a session made by \<open>Start\<close>, after any
  interleaving of observations, updates, failed and successful pushes, drains and the session's end,
  whenever no push is owed FRP holds exactly the rendered proxies of the released routes that have not
  failed; and once the session is done no route is reported as serving.
\<close>

theorem acknowledged_table_is_held:
  assumes "Start v f ctx a routes now service = Inr s0" and "groupReach v s0 s"
  shows "(gsPushed s = gsVersion s \<longrightarrow>
       renderLiveProxies v s (liveRoutesLocked (gsRoutes s)) = Inr (gsHeld s)) \<and>
     (gsDone s \<longrightarrow> ServingRouteIDs s = [])"
proof -
  have "group_inv v s" using groupReach_inv [OF assms(2) start_inv [OF assms(1)]] .
  then show ?thesis
    by (auto simp: group_inv_def holdsTable_def ServingRouteIDs_def noServing_def filter_empty_conv)
qed

section \<open>One observation\<close>

definition observationOf :: "statusExporter \<Rightarrow> string \<times> string \<Rightarrow> routeObservation" where
  "observationOf status kn = (let q = inspectRouteStatus status (snd kn)
     in \<lparr>roRouteID = fst kn, roName = snd kn, roMissing = rvMissing q, roPhase = rvPhase q, roErr = rvErr q\<rparr>)"

lemma inspectAll_Inr:
  "inspectAll status scan = Inr os \<Longrightarrow> os = map (observationOf status) scan \<and>
     (\<forall>kn \<in> set scan. rvTerminal (inspectRouteStatus status (snd kn)) = None)"
  by (induction status scan arbitrary: os rule: inspectAll.induct)
    (auto simp: Let_def observationOf_def split: option.splits sum.splits)

lemma inspectAll_Inl:
  "inspectAll status scan = Inl x \<Longrightarrow>
     \<exists>kn \<in> set scan. \<exists>e. rvTerminal (inspectRouteStatus status (snd kn)) = Some e \<and> x = Errorf ''route'' e"
  by (induction status scan rule: inspectAll.induct) (auto simp: Let_def split: option.splits sum.splits)

lemma terminal_stale: "rvTerminal (inspectRouteStatus status n) = Some e \<Longrightarrow> errorsIs e SAdmissionStale"
  by (auto simp: inspectRouteStatus_def Let_def split: option.splits proxyPhase.splits if_splits prod.splits)

lemma fold_entry:
  assumes "distinct (map roRouteID os)"
  shows "fmlookup (fsRoutes (foldl (foldObservation now stamps) f os)) k =
    (case fmlookup (fsRoutes f) k of
       None \<Rightarrow> None
     | Some e \<Rightarrow> (case List.find (\<lambda>ob. roRouteID ob = k) os of
           None \<Rightarrow> Some e
         | Some ob \<Rightarrow> if geName e \<noteq> roName ob \<or> gePhase e = RouteFailed then Some e
                      else Some (observedEntry now (stamps k) ob e)))"
  using assms
proof (induction os arbitrary: f)
  case (Cons ob os)
  have n: "List.find (\<lambda>ob'. roRouteID ob' = roRouteID ob) os = None"
  proof -
    have "roRouteID ob \<notin> roRouteID ` set os" using Cons.prems by simp
    then show ?thesis by (metis (mono_tags, lifting) find_None_iff image_eqI)
  qed
  show ?case
  proof (cases "roRouteID ob = k")
    case True
    then show ?thesis using Cons.IH [of "foldObservation now stamps f ob"] Cons.prems n
      by (auto simp: foldObservation_def split: option.splits)
  next
    case False
    then show ?thesis using Cons.IH [of "foldObservation now stamps f ob"] Cons.prems
      by (auto simp: foldObservation_def split: option.splits)
  qed
qed (simp split: option.splits)

text \<open>Observations taken from the table they are folded into.\<close>

definition fresh_obs :: "routeTable \<Rightarrow> routeObservation list \<Rightarrow> bool" where
  "fresh_obs t os = (distinct (map roRouteID os) \<and> (\<forall>ob \<in> set os. \<exists>e. fmlookup t (roRouteID ob) = Some e \<and>
     geName e = roName ob \<and> gePhase e \<noteq> RouteFailed))"

definition staleEntry :: "time \<Rightarrow> groupRouteEntry \<Rightarrow> bool" where
  "staleEntry now e = (case geLastObserved e of None \<Rightarrow> False | Some t \<Rightarrow> groupControlRecoveryGrace \<le> now - t)"

lemma fold_flags:
  "fresh_obs (fsRoutes f) os \<Longrightarrow>
   fsAny (foldl (foldObservation now stamps) f os) = (fsAny f \<or> (\<exists>ob \<in> set os. \<not> roMissing ob)) \<and>
   fsLost (foldl (foldObservation now stamps) f os) =
     (fsLost f \<or> (\<exists>ob \<in> set os. roMissing ob \<and> staleEntry now (entryOf (fsRoutes f) (roRouteID ob))))"
proof (induction os arbitrary: f)
  case (Cons ob os)
  let ?f = "foldObservation now stamps f ob"
  obtain e where e: "fmlookup (fsRoutes f) (roRouteID ob) = Some e" "geName e = roName ob" "gePhase e \<noteq> RouteFailed"
    using Cons.prems by (auto simp: fresh_obs_def)
  have other: "fmlookup (fsRoutes ?f) (roRouteID ob') = fmlookup (fsRoutes f) (roRouteID ob')" if "ob' \<in> set os" for ob'
  proof -
    have "roRouteID ob \<notin> roRouteID ` set os" using Cons.prems by (simp add: fresh_obs_def)
    then have "roRouteID ob' \<noteq> roRouteID ob" using that by (metis image_eqI)
    then show ?thesis using e by (simp add: foldObservation_def)
  qed
  have fr: "fresh_obs (fsRoutes ?f) os" using Cons.prems other by (simp add: fresh_obs_def)
  have st: "entryOf (fsRoutes ?f) (roRouteID ob') = entryOf (fsRoutes f) (roRouteID ob')" if "ob' \<in> set os" for ob'
    using other [OF that] by (simp add: entryOf_def)
  have here: "fsAny ?f = (fsAny f \<or> \<not> roMissing ob)"
    "fsLost ?f = (fsLost f \<or> (roMissing ob \<and> staleEntry now (entryOf (fsRoutes f) (roRouteID ob))))"
    using e by (simp_all add: foldObservation_def staleEntry_def entryOf_def split: option.splits)
  show ?case using Cons.IH [OF fr] here st by auto
qed simp

definition watched :: "groupSession \<Rightarrow> string \<Rightarrow> bool" where
  "watched s k = (k |\<in>| fmdom (gsRoutes s) \<and> gePhase (entryOf (gsRoutes s) k) \<noteq> RouteFailed)"

definition verdict :: "statusExporter \<Rightarrow> groupSession \<Rightarrow> string \<Rightarrow> routeVerdict" where
  "verdict status s k = inspectRouteStatus status (geName (entryOf (gsRoutes s) k))"

lemma scan_set: "kn \<in> set (gsScan (observeScan s)) \<longleftrightarrow> (\<exists>k. kn = (k, geName (entryOf (gsRoutes s) k)) \<and> watched s k)"
  by (auto simp: observeScan_def watched_def)

lemma scan_fresh: "fresh_obs (gsRoutes s) (map (observationOf status) (gsScan (observeScan s)))"
proof -
  have "map roRouteID (map (observationOf status) (gsScan (observeScan s))) =
      filter (\<lambda>k. gePhase (entryOf (gsRoutes s) k) \<noteq> RouteFailed) (routeKeys (gsRoutes s))"
    by (simp add: observeScan_def observationOf_def Let_def comp_def)
  then have "distinct (map roRouteID (map (observationOf status) (gsScan (observeScan s))))"
    by simp
  moreover have "\<exists>e. fmlookup (gsRoutes s) (roRouteID ob) = Some e \<and> geName e = roName ob \<and> gePhase e \<noteq> RouteFailed"
    if ob: "ob \<in> set (map (observationOf status) (gsScan (observeScan s)))" for ob
  proof -
    obtain k where k: "ob = observationOf status (k, geName (entryOf (gsRoutes s) k))" "watched s k"
      using ob scan_set by (metis (no_types, lifting) imageE list.set_map)
    obtain e where e: "fmlookup (gsRoutes s) k = Some e" using k(2) by (auto simp: watched_def fmlookup_dom_iff)
    then show ?thesis using k by (auto simp: observationOf_def Let_def entryOf_def watched_def)
  qed
  ultimately show ?thesis unfolding fresh_obs_def by blast
qed

lemma scan_find:
  assumes "watched s k"
  shows "List.find (\<lambda>ob. roRouteID ob = k) (map (observationOf status) (gsScan (observeScan s))) =
    Some (observationOf status (k, geName (entryOf (gsRoutes s) k)))"
proof (cases "List.find (\<lambda>ob. roRouteID ob = k) (map (observationOf status) (gsScan (observeScan s)))")
  case None
  moreover have "observationOf status (k, geName (entryOf (gsRoutes s) k)) \<in>
      set (map (observationOf status) (gsScan (observeScan s)))"
    using assms scan_set by (metis (no_types, lifting) image_eqI list.set_map)
  moreover have "roRouteID (observationOf status (k, n)) = k" for n by (simp add: observationOf_def Let_def)
  ultimately show ?thesis by (metis (mono_tags, lifting) find_None_iff)
next
  case (Some ob)
  then have "ob \<in> set (map (observationOf status) (gsScan (observeScan s)))" "roRouteID ob = k"
    by (auto simp: find_Some_iff)
  then obtain k' where "ob = observationOf status (k', geName (entryOf (gsRoutes s) k'))" "roRouteID ob = k"
    using scan_set by (metis (no_types, lifting) imageE list.set_map)
  then show ?thesis using Some by (auto simp: observationOf_def Let_def)
qed

lemma release_phase: "k |\<in>| fmdom t \<Longrightarrow>
    gePhase (entryOf (snd (releaseWindowLocked now t)) k) = gePhase (entryOf t k)"
  by (simp add: releaseWindow_eq releasedTable_entry)

text \<open>The table after folding the observations of one scan.\<close>

definition foldedTable :: "statusExporter \<Rightarrow> time \<Rightarrow> (string \<Rightarrow> time) \<Rightarrow> groupSession \<Rightarrow> foldState" where
  "foldedTable status now stamps s = foldl (foldObservation now stamps)
     \<lparr>fsRoutes = gsRoutes s, fsVersion = gsVersion s, fsChanged = False, fsLost = False, fsAny = False\<rparr>
     (map (observationOf status) (gsScan (observeScan s)))"

lemma folded_entry:
  assumes "k |\<in>| fmdom (gsRoutes s)"
  shows "gePhase (entryOf (fsRoutes (foldedTable status now stamps s)) k) =
      (if watched s k then rvPhase (verdict status s k) else RouteFailed)"
    and "fmdom (fsRoutes (foldedTable status now stamps s)) = fmdom (gsRoutes s)"
proof -
  let ?os = "map (observationOf status) (gsScan (observeScan s))"
  obtain e where e: "fmlookup (gsRoutes s) k = Some e" using assms by (auto simp: fmlookup_dom_iff)
  have d: "distinct (map roRouteID ?os)" using scan_fresh by (simp add: fresh_obs_def)
  show "gePhase (entryOf (fsRoutes (foldedTable status now stamps s)) k) =
      (if watched s k then rvPhase (verdict status s k) else RouteFailed)"
  proof (cases "watched s k")
    case True
    then show ?thesis using fold_entry [OF d, of now stamps _ k] scan_find [OF True, of status] e
      by (simp add: foldedTable_def entryOf_def verdict_def observationOf_def Let_def watched_def)
  next
    case False
    have "List.find (\<lambda>ob. roRouteID ob = k) ?os = None"
      using False scan_set [of _ s] by (fastforce simp: find_None_iff observationOf_def Let_def)
    then show ?thesis using fold_entry [OF d, of now stamps _ k] e False assms
      by (simp add: foldedTable_def entryOf_def watched_def)
  qed
  show "fmdom (fsRoutes (foldedTable status now stamps s)) = fmdom (gsRoutes s)"
    using foldObservations_steps [of "\<lparr>fsRoutes = gsRoutes s, fsVersion = gsVersion s, fsChanged = False,
        fsLost = False, fsAny = False\<rparr>" now stamps ?os]
    by (simp add: foldedTable_def sameEntries_def)
qed

lemma folded_flags:
  "fsLost (foldedTable status now stamps s) \<and> \<not> fsAny (foldedTable status now stamps s) \<longleftrightarrow>
     (\<forall>k. watched s k \<longrightarrow> rvMissing (verdict status s k)) \<and> (\<exists>k. watched s k \<and> staleEntry now (entryOf (gsRoutes s) k))"
proof -
  let ?os = "map (observationOf status) (gsScan (observeScan s))"
  let ?init = "\<lparr>fsRoutes = gsRoutes s, fsVersion = gsVersion s, fsChanged = False, fsLost = False, fsAny = False\<rparr>"
  have fr: "fresh_obs (fsRoutes ?init) ?os" using scan_fresh by simp
  have os: "(\<exists>ob \<in> set ?os. P ob) \<longleftrightarrow> (\<exists>k. watched s k \<and> P (observationOf status (k, geName (entryOf (gsRoutes s) k))))" for P
    using scan_set [of _ s] by auto
  have a: "fsAny (foldedTable status now stamps s) = (\<exists>k. watched s k \<and> \<not> rvMissing (verdict status s k))"
    using fold_flags [OF fr, of now stamps] unfolding os by (simp add: foldedTable_def observationOf_def Let_def verdict_def)
  have l: "fsLost (foldedTable status now stamps s) =
      (\<exists>k. watched s k \<and> rvMissing (verdict status s k) \<and> staleEntry now (entryOf (gsRoutes s) k))"
    using fold_flags [OF fr, of now stamps] unfolding os by (simp add: foldedTable_def observationOf_def Let_def verdict_def)
  show ?thesis unfolding a l by blast
qed

lemma observe_cases:
  assumes "\<not> gsStopped s" "observe status now stamps relNow s = (x, s')"
  shows "(\<exists>k e. watched s k \<and> rvTerminal (verdict status s k) = Some e \<and> x = Some (Errorf ''route'' e) \<and>
        gsRoutes s' = gsRoutes s) \<or>
     ((\<forall>k. watched s k \<longrightarrow> rvTerminal (verdict status s k) = None) \<and>
      (let f = foldedTable status now stamps s in
       if fsLost f \<and> \<not> fsAny f then x = Some (Sentinel SSessionGroupEnded) \<and> gsRoutes s' = fsRoutes f
       else x = None \<and> gsRoutes s' = snd (releaseWindowLocked relNow (fsRoutes f))))"
proof (cases "inspectAll status (gsScan (observeScan s))")
  case (Inl e)
  obtain kn y where "kn \<in> set (gsScan (observeScan s))" "rvTerminal (inspectRouteStatus status (snd kn)) = Some y"
    "e = Errorf ''route'' y" using inspectAll_Inl [OF Inl] by blast
  then show ?thesis using Inl assms(2) scan_set [of kn s]
    by (auto simp: observe_def Let_def verdict_def observeScan_def)
next
  case (Inr os)
  note os = inspectAll_Inr [OF Inr]
  have "\<forall>k. watched s k \<longrightarrow> rvTerminal (verdict status s k) = None"
  proof (intro allI impI)
    fix k
    assume "watched s k"
    then have "(k, geName (entryOf (gsRoutes s) k)) \<in> set (gsScan (observeScan s))" by (simp add: scan_set)
    then show "rvTerminal (verdict status s k) = None" using os by (fastforce simp: verdict_def)
  qed
  moreover have "(x, s') = observeFold now stamps relNow os (observeScan s)" using assms(2) Inr by (simp add: observe_def Let_def)
  moreover have "\<not> gsStopped (observeScan s)" "gsRoutes (observeScan s) = gsRoutes s"
    "gsVersion (observeScan s) = gsVersion s" using assms(1) by (simp_all add: observeScan_def)
  ultimately show ?thesis using os
    by (auto simp: observeFold_def Let_def foldedTable_def notify_def split: prod.splits if_splits)
qed

text \<open>
  What one observation does: an admission-level rejection of any watched proxy ends the session with
  \<open>ErrAdmissionStale\<close> and moves no route; otherwise every watched route takes exactly the phase its
  proxy's status has (running is serving, \<open>resource_not_found\<close> is that route's own failure, everything
  else stays pending), failed routes stay failed, and the session is given up only when no watched
  proxy is known to FRP any more and one of them has been gone for the 25 s of grace.
\<close>

lemma observe_exact:
  assumes "\<not> gsStopped s" and "observe status now stamps relNow s = (x, s')"
  shows "((\<exists>e. x = Some e \<and> errorsIs e SAdmissionStale) =
       (\<exists>k. watched s k \<and> rvTerminal (verdict status s k) \<noteq> None)) \<and>
     ((\<exists>k. watched s k \<and> rvTerminal (verdict status s k) \<noteq> None) \<longrightarrow> gsRoutes s' = gsRoutes s) \<and>
     ((\<forall>k. watched s k \<longrightarrow> rvTerminal (verdict status s k) = None) \<longrightarrow>
        (\<forall>k. k |\<in>| fmdom (gsRoutes s) \<longrightarrow> gePhase (entryOf (gsRoutes s') k) =
           (if watched s k then rvPhase (verdict status s k) else RouteFailed)) \<and>
        (x = Some (Sentinel SSessionGroupEnded) \<longleftrightarrow>
           (\<forall>k. watched s k \<longrightarrow> rvMissing (verdict status s k)) \<and>
           (\<exists>k. watched s k \<and> staleEntry now (entryOf (gsRoutes s) k))))"
proof -
  have p: "gePhase (entryOf (snd (releaseWindowLocked relNow (fsRoutes (foldedTable status now stamps s)))) k) =
      (if watched s k then rvPhase (verdict status s k) else RouteFailed)" if "k |\<in>| fmdom (gsRoutes s)" for k
    using that release_phase folded_entry [OF that] by simp
  from observe_cases [OF assms] show ?thesis
  proof (elim disjE exE conjE)
    fix k e
    assume a: "watched s k" "rvTerminal (verdict status s k) = Some e" "x = Some (Errorf ''route'' e)"
      "gsRoutes s' = gsRoutes s"
    then have "errorsIs (Errorf ''route'' e) SAdmissionStale" using terminal_stale by (simp add: verdict_def)
    then show ?thesis using a by auto
  next
    assume "\<forall>k. watched s k \<longrightarrow> rvTerminal (verdict status s k) = None"
      "let f = foldedTable status now stamps s in
       if fsLost f \<and> \<not> fsAny f then x = Some (Sentinel SSessionGroupEnded) \<and> gsRoutes s' = fsRoutes f
       else x = None \<and> gsRoutes s' = snd (releaseWindowLocked relNow (fsRoutes f))"
    then show ?thesis using p folded_entry(1) folded_flags [of status now stamps s]
      by (auto simp: Let_def split: if_splits)
  qed
qed

section \<open>Updates\<close>

lemma nextTable_keeps:
  assumes "nextTable sha sid t routes nxt = Inr t'" "distinct (map (\<lambda>r. RouteID (grRoute r)) routes)"
    and "fmdom nxt |\<inter>| fset_of_list (map (\<lambda>r. RouteID (grRoute r)) routes) = {||}"
  shows "fmdom t' = fmdom nxt |\<union>| fset_of_list (map (\<lambda>r. RouteID (grRoute r)) routes) \<and>
    (\<forall>k. k |\<in>| fmdom nxt \<longrightarrow> fmlookup t' k = fmlookup nxt k) \<and>
    (\<forall>r \<in> set routes. fmlookup t' (RouteID (grRoute r)) = Some (case fmlookup t (RouteID (grRoute r)) of
        None \<Rightarrow> freshEntry sha sid r
      | Some c \<Rightarrow> if geName c = groupProxyName sha r sid then c
          else if geReleased c then (freshEntry sha sid r)\<lparr>geReplaces := True\<rparr> else freshEntry sha sid r))"
  using assms
proof (induction routes arbitrary: nxt)
  case (Cons r routes)
  let ?k = "RouteID (grRoute r)"
  let ?e = "case fmlookup t ?k of None \<Rightarrow> freshEntry sha sid r
      | Some c \<Rightarrow> if geName c = groupProxyName sha r sid then c
          else if geReleased c then (freshEntry sha sid r)\<lparr>geReplaces := True\<rparr> else freshEntry sha sid r"
  have n: "nextTable sha sid t routes (fmupd ?k ?e nxt) = Inr t'"
    using Cons.prems(1) by (auto simp: Let_def split: option.splits if_splits)
  have d: "distinct (map (\<lambda>r. RouteID (grRoute r)) routes)" "?k \<notin> (\<lambda>r. RouteID (grRoute r)) ` set routes"
    using Cons.prems(2) by auto
  have dj: "fmdom (fmupd ?k ?e nxt) |\<inter>| fset_of_list (map (\<lambda>r. RouteID (grRoute r)) routes) = {||}"
    using Cons.prems(3) d(2) by (auto simp: fset_of_list_elem)
  note ih = Cons.IH [OF n d(1) dj]
  have k: "?k |\<notin>| fmdom nxt" using Cons.prems(3) by (auto simp: fset_of_list_elem)
  have l: "fmlookup t' ?k = Some ?e" using ih by simp
  have o: "fmlookup t' k = fmlookup nxt k" if "k |\<in>| fmdom nxt" for k
  proof -
    have "k \<noteq> ?k" using that k by auto
    then show ?thesis using ih that by simp
  qed
  show ?case using ih l o by simp
qed simp

text \<open>
  What \<open>Update\<close> does to the table: if it is not refused, the table holds exactly the given routes; a
  route whose proxy name is unchanged keeps its observed phase, error, refusal and observation times, a
  new or regenerated one starts pending under its new name, ahead in line where it replaces a released
  one, and nothing that was released is taken back. A route changed in place under its name refuses the
  whole update, and so does a stopped session, with the table as it was.
\<close>

lemma update_exact:
  assumes "updateTable v routes now s = (x, s')" and "distinct (map (\<lambda>r. RouteID (grRoute r)) routes)"
  shows "(x \<noteq> None \<longrightarrow> s' = s) \<and> (gsStopped s \<longrightarrow> x = Some (Sentinel SSessionGroupEnded)) \<and>
     (x = None \<longrightarrow> gsVersion s' = gsVersion s + 1 \<and> gsSignal s' \<and>
        fmdom (gsRoutes s') = fset_of_list (map (\<lambda>r. RouteID (grRoute r)) routes) \<and>
        list_all (\<lambda>r. let k = RouteID (grRoute r); new = entryOf (gsRoutes s') k;
              fresh = freshEntry (gvSha v) (gsSessionID s) r in
            case fmlookup (gsRoutes s) k of
              Some c \<Rightarrow>
                if geName c = geName fresh
                then groupRouteEqual (geRoute c) r \<and> (new = c \<or> new = c\<lparr>geReleased := True\<rparr>)
                else (\<exists>b. new = fresh\<lparr>geReplaces := geReleased c, geReleased := b\<rparr>)
            | None \<Rightarrow> (\<exists>b. new = fresh\<lparr>geReleased := b\<rparr>)) routes)"
proof (cases x)
  case (Some e)
  then show ?thesis using assms(1) by (auto simp: updateTable_def split: if_splits sum.splits)
next
  case None
  then obtain nxt where n: "nextTable (gvSha v) (gsSessionID s) (gsRoutes s) routes fmempty = Inr nxt"
    and s': "s' = notify (s\<lparr>gsRoutes := snd (releaseWindowLocked now nxt), gsVersion := gsVersion s + 1,
        gsHolder := TableUpdated\<rparr>)" and stop: "\<not> gsStopped s"
    using assms(1) by (auto simp: updateTable_def split: if_splits sum.splits)
  note keep = nextTable_keeps [OF n assms(2)]
  have dom: "fmdom nxt = fset_of_list (map (\<lambda>r. RouteID (grRoute r)) routes)" using keep by simp
  have entry: "entryOf (gsRoutes s') k = entryOf nxt k \<or> entryOf (gsRoutes s') k = (entryOf nxt k)\<lparr>geReleased := True\<rparr>"
    if "k |\<in>| fmdom nxt" for k
    using that by (simp add: s' notify_def releaseWindow_eq releasedTable_entry)
  have eq: "groupRouteEqual (geRoute c) r"
    if "r \<in> set routes" "fmlookup (gsRoutes s) (RouteID (grRoute r)) = Some c"
      "geName c = groupProxyName (gvSha v) r (gsSessionID s)" for r c
  proof -
    have "nextTable sha sid t rs nx = Inr t' \<Longrightarrow> r \<in> set rs \<Longrightarrow> fmlookup t (RouteID (grRoute r)) = Some c \<Longrightarrow>
        geName c = groupProxyName sha r sid \<Longrightarrow> groupRouteEqual (geRoute c) r" for sha sid t rs nx t'
      by (induction rs arbitrary: nx) (auto simp: Let_def split: option.splits if_splits)
    then show ?thesis using n that by blast
  qed
  have item: "let k = RouteID (grRoute r); new = entryOf (gsRoutes s') k;
        fresh = freshEntry (gvSha v) (gsSessionID s) r in
      case fmlookup (gsRoutes s) k of
        Some c \<Rightarrow> if geName c = geName fresh then groupRouteEqual (geRoute c) r \<and> (new = c \<or> new = c\<lparr>geReleased := True\<rparr>)
          else (\<exists>b. new = fresh\<lparr>geReplaces := geReleased c, geReleased := b\<rparr>)
      | None \<Rightarrow> (\<exists>b. new = fresh\<lparr>geReleased := b\<rparr>)" if r: "r \<in> set routes" for r
  proof -
    let ?k = "RouteID (grRoute r)"
    have "?k |\<in>| fmdom nxt" using r dom by (auto simp: fset_of_list_elem)
    from entry [OF this] have e: "entryOf (gsRoutes s') ?k = entryOf nxt ?k \<or>
        entryOf (gsRoutes s') ?k = (entryOf nxt ?k)\<lparr>geReleased := True\<rparr>" .
    have l: "entryOf nxt ?k = (case fmlookup (gsRoutes s) ?k of
        None \<Rightarrow> freshEntry (gvSha v) (gsSessionID s) r
      | Some c \<Rightarrow> if geName c = groupProxyName (gvSha v) r (gsSessionID s) then c
          else if geReleased c then (freshEntry (gvSha v) (gsSessionID s) r)\<lparr>geReplaces := True\<rparr>
          else freshEntry (gvSha v) (gsSessionID s) r)"
      using keep r by (simp add: entryOf_def)
    show ?thesis using e l eq [OF r]
      by (auto simp: Let_def freshEntry_def split: option.splits if_splits)
  qed
  have "fmdom (gsRoutes s') = fmdom nxt" by (simp add: s' notify_def releaseWindow_eq)
  then show ?thesis using None stop dom item by (auto simp: s' notify_def list_all_iff)
qed

section \<open>Retrying a push\<close>

lemma pushDelayLoop_closed:
  assumes "0 < d" "i \<le> n"
  shows "pushDelayLoop n i d \<le> d * 2 ^ (n - i) \<and> min (d * 2 ^ (n - i)) maxPushRetryDelay \<le> pushDelayLoop n i d"
  using assms
proof (induction n i d rule: pushDelayLoop.induct)
  case (1 n i d)
  show ?case
  proof (cases "i < n \<and> d < maxPushRetryDelay")
    case True
    then have "n - i = Suc (n - Suc i)" by arith
    then show ?thesis using 1 True by (subst (1 2) pushDelayLoop.simps) (simp add: mult.assoc)
  next
    case False
    have "d * 1 \<le> d * 2 ^ (n - i)" using 1(2) by (intro mult_left_mono) simp_all
    then show ?thesis using False 1(2,3) by (subst (1 2) pushDelayLoop.simps) (cases "i < n"; simp)
  qed
qed

text \<open>
  C30. Pushes converge: a push that FRP accepts settles the table it carried and clears the failure; one
  that fails leaves the set FRP holds, stays owed if it was, is reported on every pending route without
  a start error of its own, and is due again after the poll interval doubled per failure, at most 5 s.
\<close>

theorem push_outcome:
  assumes "push v answer now s = (x, s')" and "\<not> gsStopped s" and "gsPushed s \<le> gsVersion s" and "0 < gsPoll s"
  shows "(x = None \<longrightarrow> gsPushed s' = gsVersion s' \<and> gsPushErr s' = None \<and> \<not> pushOwed s' \<and>
        renderLiveProxies v s (liveRoutesLocked (gsRoutes s)) = Inr (gsHeld s')) \<and>
     (x \<noteq> None \<longrightarrow> gsHeld s' = gsHeld s \<and> gsPushed s' = gsPushed s \<and> gsPushErr s' = x \<and>
        gsNextPushAt s' = Some (now + min (gsPoll s * 2 ^ gsPushFailures s) (5 * second)) \<and>
        (pushOwed s \<longrightarrow> pushOwed s' \<and> (\<forall>k e. fmlookup (gsRoutes s') k = Some e \<longrightarrow>
           gePhase e = RoutePending \<longrightarrow> geErr e = None \<longrightarrow>
           map_option rsErr (fmlookup (RouteStates s') k) = Some x))) \<and>
     gsRoutes s' = gsRoutes s \<and> gsVersion s' = gsVersion s"
proof -
  let ?live = "liveRoutesLocked (gsRoutes s)"
  let ?s = "s\<lparr>gsHolder := Pushing (gsVersion s) ?live\<rparr>"
  have r: "renderLiveProxies v ?s ?live = renderLiveProxies v s ?live" by (rule render_fields) simp_all
  have p: "(x, s') = pushRecord v answer now (gsVersion s) ?live ?s"
    using assms(1,2) by (simp add: push_def pushUnderUpdateMu_def pushSnapshot_def)
  have delay: "pushRetryDelay (gsPoll s) (Suc n) = min (gsPoll s * 2 ^ n) (5 * second)" for n
    using pushDelayLoop_closed [OF assms(4), of 1 "Suc n"]
    by (auto simp: pushRetryDelay_def Let_def maxPushRetryDelay_def min_def split: if_splits)
  show ?thesis
  proof (cases "renderLiveProxies v s ?live")
    case (Inl e)
    then show ?thesis using p r delay assms(2)
      by (auto simp: pushRecord_def recordPushFailure_def Let_def notify_def pushOwed_def RouteStates_def)
  next
    case (Inr proxies)
    then show ?thesis using p r delay assms(2,3)
      by (cases answer) (auto simp: pushRecord_def recordPushFailure_def Let_def notify_def pushOwed_def RouteStates_def
          split: if_splits)
  qed
qed

section \<open>Witnesses\<close>

definition wLib :: frpLib where
  "wLib = \<lparr>frpFilter = (\<lambda>_ ps. ps), frpComplete = (\<lambda>ps. ps), frpValidate = (\<lambda>_. None)\<rparr>"

definition wGroupEnv :: groupEnv where
  "wGroupEnv = \<lparr>gvWindows = False, gvRules = wRules, gvSha = wSha, gvLib = wLib\<rparr>"

lemma wComplete [simp]: "completeGroupProxies wLib c ps = Inr ps"
proof -
  have "firstSome (\<lambda>_. None) ps = (None :: err option)" by (induction ps) simp_all
  then show ?thesis by (simp add: completeGroupProxies_def wLib_def Let_def)
qed

lemma wRenders:
  assumes "liveRoutesLocked t = [] \<or> liveRoutesLocked t = [r]"
  shows "\<exists>ps. renderGroupProxies sha (liveRoutesLocked t) sid = Inr ps"
  using assms by (auto simp: renderGroupProxies_def Let_def)

definition wTable :: routeTable where
  "wTable = fmupd ''web'' (freshEntry wSha 5 (wGroupRoute ''web'' 0)) fmempty"

lemma wTable_keys: "routeKeys wTable = [''web'']" "entryOf wTable ''web'' = freshEntry wSha 5 (wGroupRoute ''web'' 0)"
  "fmdom wTable = {|''web''|}"
  by (simp_all add: routeKeys_def wTable_def entryOf_def sorted_list_of_fset.rep_eq)

lemma wTable_waiting: "waitingRoutes wTable = [''web'']" "windowLoadLocked wTable now = (0, 0)"
  by (simp_all add: waitingRoutes_def windowLoadLocked_def wTable_keys freshEntry_def awaiting_def Let_def)

theorem window_release_exact_witness:
  "\<exists>t'. releaseWindowLocked 0 wTable = (True, t') \<and> t' = releasedTable {''web''} wTable"
proof -
  obtain b t' i p where r: "releaseWindowLocked 0 wTable = (b, t')" "windowLoadLocked t' 0 = (i, p)"
    by (metis surj_pair)
  from window_release_exact [OF wTable_waiting(2) r] r show ?thesis by (simp add: wTable_waiting Let_def)
qed

lemma wStarted: "\<exists>s. Start wGroupEnv wFactory None wAdmission [wGroupRoute ''web'' 0] 0 None = Inr s"
proof -
  obtain common proxies names where b: "BuildConfig False wRules wSha wFactory wAdmission [wGroupRoute ''web'' 0] =
      Inr (common, proxies, names)" using wBuild by blast
  let ?s = "newFRPGroupSession wGroupEnv common 5 (100 * millisecond) [wGroupRoute ''web'' 0] 0"
  have t: "gsRoutes ?s = snd (releaseWindowLocked 0 wTable)"
    by (simp add: newFRPGroupSession_def wTable_def wGroupEnv_def Let_def) (simp add: wGroupRoute_def wRoute_def)
  have k: "routeKeys (gsRoutes ?s) = [''web'']"
    unfolding t by (subst routeKeys_eq [of _ wTable]) (simp_all add: releaseWindow_eq wTable_keys)
  have "liveRoutesLocked (gsRoutes ?s) = [] \<or> liveRoutesLocked (gsRoutes ?s) = [geRoute (entryOf (gsRoutes ?s) ''web'')]"
    by (simp add: liveRoutesLocked_def k)
  then obtain ps where "renderGroupProxies wSha (liveRoutesLocked (gsRoutes ?s)) 5 = Inr ps" using wRenders by blast
  then have "\<exists>c. renderLiveProxies wGroupEnv ?s (liveRoutesLocked (gsRoutes ?s)) = Inr c"
    by (cases ps) (simp add: renderLiveProxies_def wGroupEnv_def newFRPGroupSession_def Let_def)
  then show ?thesis using b
    by (auto simp: Start_def wGroupEnv_def wAdmission_def wFactory_def Let_def)
qed

theorem acknowledged_table_is_held_witness:
  "\<exists>s. Start wGroupEnv wFactory None wAdmission [wGroupRoute ''web'' 0] 0 None = Inr s \<and>
     ServingRouteIDs (runEnded None s) = []"
proof -
  obtain s where s: "Start wGroupEnv wFactory None wAdmission [wGroupRoute ''web'' 0] 0 None = Inr s"
    using wStarted by blast
  have "groupReach wGroupEnv s (runEnded None s)" by (rule groupReach.move [OF groupReach.start groupStep.ended])
  from acknowledged_table_is_held [OF s this] s show ?thesis by (auto simp: runEnded_def notify_def)
qed

definition wSession :: groupSession where
  "wSession = \<lparr>gsCommon = wCommon, gsSessionID = 5, gsPoll = 100 * millisecond, gsRoutes = wTable, gsVersion = 1,
     gsPushed = 0, gsPushErr = None, gsPushFailures = 0, gsNextPushAt = None, gsErr = None, gsStopped = False,
     gsReady = False, gsDone = False, gsSignal = False, gsScan = [], gsHolder = Unlocked, gsHeld = []\<rparr>"

lemma observe_exact_witness:
  "\<exists>x s'. observe (\<lambda>_. Some (ProxyPhaseRunning, '''')) 0 (\<lambda>_. 0) 0 wSession = (x, s') \<and>
     gePhase (entryOf (gsRoutes s') ''web'') = RouteServing"
proof -
  let ?st = "\<lambda>_. Some (ProxyPhaseRunning, '''')"
  obtain x s' where o: "observe ?st 0 (\<lambda>_. 0) 0 wSession = (x, s')" by (metis surj_pair)
  have "\<not> gsStopped wSession" by (simp add: wSession_def)
  note e = observe_exact [OF this o]
  have "watched wSession ''web''" "''web'' |\<in>| fmdom (gsRoutes wSession)"
    by (simp_all add: watched_def wSession_def wTable_keys freshEntry_def)
  moreover have "verdict ?st wSession k = \<lparr>rvPhase = RouteServing, rvErr = None, rvTerminal = None, rvMissing = False\<rparr>" for k
    by (simp add: verdict_def inspectRouteStatus_def)
  ultimately show ?thesis using e o by fastforce
qed

lemma update_exact_witness:
  "\<exists>s'. updateTable wGroupEnv [wGroupRoute ''api'' 0] 0 wSession = (None, s') \<and>
     fmdom (gsRoutes s') = {|''api''|} \<and> gsVersion s' = 2"
proof -
  have l: "fmlookup wTable ''api'' = None" by (simp add: wTable_def)
  obtain s' where u: "updateTable wGroupEnv [wGroupRoute ''api'' 0] 0 wSession = (None, s')"
    using l by (simp add: updateTable_def wSession_def Let_def wGroupRoute_def wRoute_def)
  have "distinct (map (\<lambda>r. RouteID (grRoute r)) [wGroupRoute ''api'' 0])" by simp
  from update_exact [OF u this] u show ?thesis by (simp add: wSession_def wGroupRoute_def wRoute_def)
qed

theorem push_outcome_witness:
  "\<exists>x s'. push wGroupEnv (Some (NewErr ''busy'')) 7 wSession = (x, s') \<and> pushOwed s' \<and>
     gsNextPushAt s' = Some (7 + 100 * millisecond)"
proof -
  obtain x s' where p: "push wGroupEnv (Some (NewErr ''busy'')) 7 wSession = (x, s')" by (metis surj_pair)
  have s: "\<not> gsStopped wSession" "gsPushed wSession \<le> gsVersion wSession" "0 < gsPoll wSession" "pushOwed wSession"
    "gsPushFailures wSession = 0" "gsPoll wSession = 100 * millisecond"
    by (simp_all add: wSession_def pushOwed_def millisecond_def)
  have "x \<noteq> None"
    using p s(1) by (auto simp: push_def pushUnderUpdateMu_def pushSnapshot_def pushRecord_def recordPushFailure_def
        Let_def split: sum.splits)
  then show ?thesis using push_outcome [OF p s(1-3)] p s(4-6) by (simp add: duration_defs)
qed

end
