(* ===== verification/Group_Runner.thy ===== *)
theory Group_Runner
  imports Group_Session "HOL-Library.Signed_Division"
begin

text \<open>
  The decisions of \<open>SessionGroupRunner\<close> (\<open>pkg/share/group.go\<close>) and of the helpers it uses from
  \<open>pkg/share/session.go\<close>: the rotation lead and its measurement, the backoff, the desired route set with
  its restart generations, what is pushed to which session, and when a replacement may be promoted.

  Durations are integers of nanoseconds (64-bit in Go, far from their limits here) divided towards
  zero; a zero \<open>time.Time\<close> is None. Maps used as sets are finite sets.
\<close>

section \<open>Delays\<close>

definition nextBackoff :: "duration \<Rightarrow> duration \<Rightarrow> duration" where
  "nextBackoff current maximum = (if maximum sdiv 2 \<le> current then maximum else current * 2)"

text \<open>\<open>rand.Int64N(n)\<close> is the parameter \<open>rnd\<close>, which answers a number below its positive argument.\<close>

definition jitter :: "(int \<Rightarrow> int) \<Rightarrow> duration \<Rightarrow> duration" where
  "jitter rnd d = (if d \<le> 1 then d else let half = d sdiv 2 in half + rnd (d - half))"

definition rotationLead :: "duration \<Rightarrow> duration \<Rightarrow> duration" where
  "rotationLead openTime configured =
     (if 0 < configured then (if openTime \<le> configured then openTime sdiv 2 else configured)
      else let lead = openTime sdiv 4;
               lead = (if lead < second then second else lead);
               lead = (if 30 * second < lead then 30 * second else lead)
           in if openTime \<le> lead then openTime sdiv 2 else lead)"

definition groupLeadFloor :: duration where "groupLeadFloor = 30 * second"
definition groupLeadPerRoute :: duration where "groupLeadPerRoute = 50 * millisecond"
definition groupLeadMarginNum :: int where "groupLeadMarginNum = 3"
definition groupLeadMarginDen :: int where "groupLeadMarginDen = 2"

definition groupRotationLead :: "duration \<Rightarrow> duration \<Rightarrow> nat \<Rightarrow> duration \<Rightarrow> duration \<times> duration" where
  "groupRotationLead openTime configured routes measuredPerRoute =
     (let perRoute = max groupLeadPerRoute measuredPerRoute;
          need = max configured (max groupLeadFloor (int routes * perRoute));
          upper = openTime sdiv 2;
          lower = min second upper
      in (min (max need lower) upper, need))"

section \<open>Cycles and the runner's state\<close>

record 's groupCycle =
  cyAdmission :: Admission
  cySession :: 's
  cyExpiresAt :: time
  cyCapReported :: int
  cyCapReportedNeed :: duration
  cyInitial :: "string fset"
  cyFirstServingAt :: "time option"
  cyHighWater :: nat
  cyMeasured :: bool
  cyAdded :: "string fset"
  cyAddedStarted :: "time option"
  cyAddedSingleton :: "time option"
  cyAddedHighWater :: nat
  cyAddedFirst :: nat
  cyAddedPerRoute :: duration

definition newCycle :: "Admission \<Rightarrow> 's \<Rightarrow> time \<Rightarrow> GroupRoute list \<Rightarrow> 's groupCycle" where
  "newCycle admission session expiresAt routes =
     \<lparr>cyAdmission = admission, cySession = session, cyExpiresAt = expiresAt, cyCapReported = - 1,
      cyCapReportedNeed = 0, cyInitial = fset_of_list (map (\<lambda>g. RouteID (grRoute g)) routes),
      cyFirstServingAt = None, cyHighWater = 0, cyMeasured = False, cyAdded = {||}, cyAddedStarted = None,
      cyAddedSingleton = None, cyAddedHighWater = 0, cyAddedFirst = 0, cyAddedPerRoute = 0\<rparr>"

record runner =
  rnDesired :: "(string, LocalHTTPRoute) fmap"
  rnDivergent :: bool
  rnRestarts :: "(string, uint64) fmap"
  rnRotating :: bool
  rnReported :: "(string, string) fmap"
  rnMeasured :: duration

type_synonym routeStates = "(string, RouteState) fmap"

definition phaseIs :: "RoutePhase \<Rightarrow> routeStates \<Rightarrow> string \<Rightarrow> bool" where
  "phaseIs p states k = (case fmlookup states k of None \<Rightarrow> False | Some st \<Rightarrow> rsPhase st = p)"

definition countServing :: "routeStates \<Rightarrow> nat" where
  "countServing states = fcard (ffilter (phaseIs RouteServing states) (fmdom states))"

definition anyRouteServing :: "routeStates \<Rightarrow> bool" where
  "anyRouteServing states = (0 < countServing states)"

section \<open>Arming the rotation\<close>

text \<open>
  The instant, the cycle with its report marks, and whether \<open>OnRotationLeadCapped\<close> is called; \<open>hook\<close> says
  that it is set.
\<close>

definition rotateAt :: "bool \<Rightarrow> duration \<Rightarrow> runner \<Rightarrow> 's groupCycle \<Rightarrow> time \<times> 's groupCycle \<times> bool" where
  "rotateAt hook configured r cycle =
     (let routes = fcard (fmdom (rnDesired r));
          (lead, need) = groupRotationLead (amOpenTime (cyAdmission cycle)) configured routes (rnMeasured r)
      in if lead < need \<and> (cyCapReported cycle \<noteq> int routes \<or> cyCapReportedNeed cycle \<noteq> need) \<and> hook
         then (cyExpiresAt cycle - lead,
               cycle\<lparr>cyCapReported := int routes, cyCapReportedNeed := need\<rparr>, True)
         else (cyExpiresAt cycle - lead, cycle, False))"

section \<open>Measuring registration\<close>

definition capturePending :: "'s groupCycle \<Rightarrow> routeStates \<Rightarrow> time \<Rightarrow> 's groupCycle" where
  "capturePending cycle states now =
     (let added = ffilter (\<lambda>k. k |\<notin>| cyInitial cycle \<and> phaseIs RoutePending states k) (fmdom states);
          alone = (fcard added = 1 \<and> fcard (ffilter (phaseIs RoutePending states) (fmdom states)) = 1)
      in cycle\<lparr>cyAdded := added, cyAddedStarted := None, cyAddedHighWater := 0, cyAddedFirst := 0,
           cyAddedSingleton := (if alone then Some now else None)\<rparr>)"

text \<open>The cycle and the runner's per-route estimate when the number of added routes that serve has grown.\<close>

definition addedGrowth :: "nat \<Rightarrow> time \<Rightarrow> 's groupCycle \<Rightarrow> duration \<Rightarrow> 's groupCycle \<times> duration" where
  "addedGrowth serving now cycle measured =
     (let cycle = cycle\<lparr>cyAddedHighWater := serving\<rparr>;
          cycle = (if cyAddedStarted cycle = None
                   then cycle\<lparr>cyAddedStarted := Some now, cyAddedFirst := serving\<rparr> else cycle);
          perRoute = (if cyAddedFirst cycle < serving then
              (now - the (cyAddedStarted cycle)) * groupLeadMarginNum sdiv groupLeadMarginDen
                sdiv int (serving - cyAddedFirst cycle)
            else case cyAddedSingleton cycle of
              Some t \<Rightarrow> (now - t) * groupLeadMarginNum sdiv groupLeadMarginDen
            | None \<Rightarrow> 0);
          added = max (cyAddedPerRoute cycle) perRoute
      in (cycle\<lparr>cyAddedPerRoute := added\<rparr>, max measured added))"

definition observeAddedRegistration ::
  "'s groupCycle \<Rightarrow> routeStates \<Rightarrow> time \<Rightarrow> duration \<Rightarrow> 's groupCycle \<times> duration" where
  "observeAddedRegistration cycle states now measured =
     (let newPending = fBex (fmdom states) (\<lambda>k. k |\<notin>| cyInitial cycle \<and> k |\<notin>| cyAdded cycle \<and>
            phaseIs RoutePending states k);
          cycle = (if newPending then capturePending cycle states now else cycle);
          serving = fcard (ffilter (phaseIs RouteServing states) (cyAdded cycle));
          pending = fcard (ffilter (phaseIs RoutePending states) (cyAdded cycle));
          (cycle, measured) = (if cyAddedHighWater cycle < serving then addedGrowth serving now cycle measured
            else (cycle, measured))
      in (if pending = 0 then cycle\<lparr>cyAdded := {||}\<rparr> else cycle, measured))"

definition observeRegistration ::
  "'s groupCycle \<Rightarrow> routeStates \<Rightarrow> time \<Rightarrow> duration \<Rightarrow> 's groupCycle \<times> duration" where
  "observeRegistration cycle states now measured =
     (case observeAddedRegistration cycle states now measured of (cycle, measured) \<Rightarrow>
      if cyMeasured cycle then (cycle, measured)
      else let serving = fcard (ffilter (phaseIs RouteServing states) (cyInitial cycle)) in
        if serving = 0 then (cycle, measured)
        else let cycle = (if cyFirstServingAt cycle = None then cycle\<lparr>cyFirstServingAt := Some now\<rparr> else cycle) in
          if serving \<le> cyHighWater cycle then (cycle, measured)
          else let cycle = cycle\<lparr>cyHighWater := serving,
                     cyMeasured := (cyMeasured cycle \<or> fcard (cyInitial cycle) \<le> serving)\<rparr> in
            if serving < 2 then (cycle, measured)
            else let spacing = now - the (cyFirstServingAt cycle);
                     perRoute = (if 0 < spacing then
                         spacing * groupLeadMarginNum sdiv groupLeadMarginDen sdiv int (serving - 1) else 0)
                 in (cycle, max perRoute (cyAddedPerRoute cycle)))"

section \<open>The desired route set\<close>

definition restartOf :: "runner \<Rightarrow> string \<Rightarrow> uint64" where
  "restartOf r k = (case fmlookup (rnRestarts r) k of None \<Rightarrow> 0 | Some n \<Rightarrow> n)"

definition bump :: "string \<Rightarrow> runner \<Rightarrow> runner" where
  "bump k r = r\<lparr>rnRestarts := fmupd k (restartOf r k + 1) (rnRestarts r)\<rparr>"

definition desiredRoutesLocked :: "runner \<Rightarrow> GroupRoute list" where
  "desiredRoutesLocked r = map (\<lambda>k. \<lparr>grRoute = the (fmlookup (rnDesired r) k), grGeneration = restartOf r k\<rparr>)
     (sorted_list_of_fset (fmdom (rnDesired r)))"

definition desiredLocalRoutes :: "runner \<Rightarrow> LocalHTTPRoute list" where
  "desiredLocalRoutes r = map (\<lambda>k. the (fmlookup (rnDesired r) k)) (sorted_list_of_fset (fmdom (rnDesired r)))"

definition validateDesiredRoutes ::
  "bool \<Rightarrow> httpRules \<Rightarrow> (LocalHTTPRoute list \<Rightarrow> err option) option \<Rightarrow> LocalHTTPRoute list \<Rightarrow> err option" where
  "validateDesiredRoutes windows h validator routes = (case ValidateGroupRoutes windows h routes of
      Some x \<Rightarrow> Some x
    | None \<Rightarrow> (case validator of Some f \<Rightarrow> f routes | None \<Rightarrow> None))"

definition newRunner :: "LocalHTTPRoute list \<Rightarrow> runner" where
  "newRunner routes =
     \<lparr>rnDesired = foldl (\<lambda>m r. fmupd (RouteID r) r m) fmempty routes, rnDivergent = False,
      rnRestarts = fmempty, rnRotating = False, rnReported = fmempty, rnMeasured = 0\<rparr>"

fun setNext :: "(string, LocalHTTPRoute) fmap \<Rightarrow> LocalHTTPRoute list \<Rightarrow> (string, LocalHTTPRoute) fmap \<Rightarrow>
    (string, LocalHTTPRoute) fmap res" where
  "setNext desired [] nxt = Inr nxt"
| "setNext desired (route # routes) nxt =
     (case fmlookup desired (RouteID route) of
        None \<Rightarrow> setNext desired routes (fmupd (RouteID route) route nxt)
      | Some current \<Rightarrow>
          if routeEqual current route then setNext desired routes (fmupd (RouteID route) route nxt)
          else if ResourcePublicKey current \<noteq> ResourcePublicKey route \<or>
                  ConnectorRoutingID current \<noteq> ConnectorRoutingID route then
            Inl (NewErr ''route changes its resource identity in place'')
          else setNext desired routes (fmupd (RouteID route) route nxt))"

text \<open>The table half of \<open>SetRoutes\<close>, under the runner's lock, after the validation.\<close>

definition setDesired :: "LocalHTTPRoute list \<Rightarrow> runner \<Rightarrow> err option \<times> runner" where
  "setDesired routes r = (case setNext (rnDesired r) routes fmempty of
      Inl x \<Rightarrow> (Some x, r)
    | Inr nxt \<Rightarrow>
        let changed = filter (\<lambda>k. case fmlookup nxt k of
              None \<Rightarrow> True | Some route \<Rightarrow> \<not> routeEqual (the (fmlookup (rnDesired r) k)) route)
            (sorted_list_of_fset (fmdom (rnDesired r)))
        in (None, (foldl (\<lambda>r k. bump k r) r changed)\<lparr>rnDesired := nxt\<rparr>))"

definition restartDesired :: "string \<Rightarrow> runner \<Rightarrow> err option \<times> runner" where
  "restartDesired k r = (if k |\<notin>| fmdom (rnDesired r)
     then (Some (NewErr ''route is not in the group''), r) else (None, bump k r))"

text \<open>The routes \<open>withdrawGone\<close> takes out, in order, and the runner without them.\<close>

definition goneRoutes :: "routeStates \<Rightarrow> runner \<Rightarrow> (string \<times> err) list" where
  "goneRoutes states r = List.map_filter (\<lambda>k. case fmlookup states k of
      None \<Rightarrow> None
    | Some st \<Rightarrow> (case rsErr st of
          Some e \<Rightarrow> if rsPhase st = RouteFailed \<and> errorsIs e SResourceGone \<and> k |\<in>| fmdom (rnDesired r)
                    then Some (k, e) else None
        | None \<Rightarrow> None)) (sorted_list_of_fset (fmdom states))"

definition dropGone :: "routeStates \<Rightarrow> runner \<Rightarrow> runner" where
  "dropGone states r = foldl (\<lambda>r (k, _). (bump k r)\<lparr>rnDesired := fmdrop k (rnDesired r)\<rparr>) r (goneRoutes states r)"

section \<open>What the sessions are given\<close>

definition retainRoutes :: "routeStates \<Rightarrow> GroupRoute list \<Rightarrow> GroupRoute list" where
  "retainRoutes states desired = List.map_filter (\<lambda>g. case fmlookup states (RouteID (grRoute g)) of
      None \<Rightarrow> None
    | Some st \<Rightarrow> if rsPhase st \<noteq> RouteFailed then Some (rsRoute st) else None) desired"

section \<open>Promotion\<close>

definition routesServedBy :: "runner \<Rightarrow> routeStates option \<Rightarrow> string fset" where
  "routesServedBy r old = (case old of
      None \<Rightarrow> {||}
    | Some states \<Rightarrow> ffilter (\<lambda>k. phaseIs RouteServing states k \<and> k |\<in>| fmdom (rnDesired r)) (fmdom states))"

definition cycleServing :: "runner \<Rightarrow> routeStates \<Rightarrow> routeStates option \<Rightarrow> bool" where
  "cycleServing r states old =
     (let needed = routesServedBy r old
      in if needed = {||} then anyRouteServing states else fBall needed (phaseIs RouteServing states))"

definition notServing :: "runner \<Rightarrow> routeStates option \<Rightarrow> routeStates \<Rightarrow> string list" where
  "notServing r old states =
     filter (\<lambda>k. \<not> phaseIs RouteServing states k) (sorted_list_of_fset (routesServedBy r old))"

definition notServingError :: "routeStates \<Rightarrow> string \<Rightarrow> err" where
  "notServingError states k =
     (let e = Errorf ''on the replacement session before the prior admission expired'' (Sentinel SRouteNotServing)
      in case Option.bind (fmlookup states k) rsErr of
        Some cause \<Rightarrow> Multi (TMsg ''route is not serving'') [e, cause]
      | None \<Rightarrow> e)"

text \<open>The routes \<open>reportActive\<close> reports serving: once per proxy name.\<close>

definition newlyServing :: "routeStates \<Rightarrow> runner \<Rightarrow> string list" where
  "newlyServing states r = filter (\<lambda>k. phaseIs RouteServing states k \<and>
     (case fmlookup (rnReported r) k of None \<Rightarrow> '''' | Some n \<Rightarrow> n) \<noteq> rsProxyName (the (fmlookup states k)))
     (sorted_list_of_fset (fmdom states))"

definition markReported :: "routeStates \<Rightarrow> runner \<Rightarrow> runner" where
  "markReported states r = r\<lparr>rnReported := foldl (\<lambda>m k. fmupd k (rsProxyName (the (fmlookup states k))) m)
     (rnReported r) (newlyServing states r)\<rparr>"

end
