(* ===== verification/Group_Run.thy ===== *)
theory Group_Run
  imports Group_Runner
begin

text \<open>
  \<open>SessionGroupRunner.Run\<close> (\<open>pkg/share/group.go\<close>) with the cycles it starts, promotes, drains and stops.

  The admitter, the session factory, the sessions and the drain set are interfaces to this code, and the
  other goroutines, the clock and the channels are its surroundings: they are the operations of the record
  \<open>groupOps\<close> on a world \<open>'w\<close>. Every call the runner makes into them that a property speaks of is also
  written to the trace \<open>ruTrace\<close>, in order. Sessions are handles. \<open>goCallers\<close> is what callers of
  \<open>SetRoutes\<close> and \<open>RestartRoute\<close> did to the runner while \<open>Run\<close> was blocked.

  A cycle is a pointer in Go: the runner's \<open>active\<close> and \<open>pending\<close> are compared by their sessions here,
  which the factory makes anew for every cycle.
\<close>

section \<open>Interfaces\<close>

datatype readyEnd = ReadyEnded | ReadyExpired err

datatype runWake = WakeCtx err | WakeDrains | WakeRoutes | WakeEnded | WakeChanged | WakeRotate

record 'w groupOps =
  goNow :: "'w \<Rightarrow> time \<times> 'w"
  goCtxErr :: "'w \<Rightarrow> err option"
  goAdmit :: "time option \<Rightarrow> string \<Rightarrow> string \<Rightarrow> 'w \<Rightarrow> Admission res \<times> 'w"
  goRetire :: "duration \<Rightarrow> Admission \<Rightarrow> 'w \<Rightarrow> err option \<times> 'w"
  goStart :: "time option \<Rightarrow> Admission \<Rightarrow> GroupRoute list \<Rightarrow> 'w \<Rightarrow> nat res \<times> 'w"
  goUpdate :: "nat \<Rightarrow> GroupRoute list \<Rightarrow> 'w \<Rightarrow> err option \<times> 'w"
  goStates :: "nat \<Rightarrow> 'w \<Rightarrow> routeStates"
  goEnded :: "nat \<Rightarrow> 'w \<Rightarrow> bool"
  goErr :: "nat \<Rightarrow> 'w \<Rightarrow> err option"
  goStop :: "duration \<Rightarrow> nat \<Rightarrow> 'w \<Rightarrow> err option \<times> 'w"
  goSignals :: "nat \<Rightarrow> time \<Rightarrow> 'w \<Rightarrow> nat"
  goChange :: "nat \<Rightarrow> 'w \<Rightarrow> 'w"
  goReady :: "nat \<Rightarrow> time \<Rightarrow> 'w \<Rightarrow> readyEnd \<times> 'w"
  goRetryAfter :: "err \<Rightarrow> duration \<Rightarrow> 'w \<Rightarrow> err option \<times> 'w"
  goRnd :: "'w \<Rightarrow> int \<Rightarrow> int"
  goCallers :: "runner \<Rightarrow> 'w \<Rightarrow> runner \<times> 'w"
  goDrain :: "nat \<Rightarrow> time \<Rightarrow> duration \<Rightarrow> Admission \<Rightarrow> 'w \<Rightarrow> err option \<times> 'w"
  goRetain :: "LocalHTTPRoute list \<Rightarrow> 'w \<Rightarrow> 'w"
  goDrainErr :: "'w \<Rightarrow> err option \<times> 'w"
  goDrainCancel :: "'w \<Rightarrow> 'w"
  goDrainWait :: "duration \<Rightarrow> 'w \<Rightarrow> err option \<times> 'w"
  goSelect :: "nat \<Rightarrow> time \<Rightarrow> 'w \<Rightarrow> runWake \<times> 'w"

text \<open>\<open>SessionGroupConfig\<close>: the flags say which callbacks are set.\<close>

record groupConfig =
  gcKnockResourceID :: string
  gcResourcePublicKey :: string
  gcHasAdmitter :: bool
  gcHasSessions :: bool
  gcMinBackoff :: duration
  gcMaxBackoff :: duration
  gcRotationLead :: duration
  gcStopTimeout :: duration
  gcOnServing :: bool
  gcOnRouteServing :: bool
  gcOnRouteFailed :: bool
  gcOnLeadCapped :: bool

datatype call =
    CAdmitted Admission
  | CRetire Admission
  | CStop nat
  | CDrain Admission
  | CServing Admission
  | CRouteServing string Admission
  | CRouteFailed string err
  | CLeadCapped

type_synonym cycle = "nat groupCycle"

record 'w runState =
  ruRunner :: runner
  ruActive :: "cycle option"
  ruPending :: "cycle option"
  ruWorld :: 'w
  ruTrace :: "call list"

definition logCalls :: "call list \<Rightarrow> 'w runState \<Rightarrow> 'w runState" where
  "logCalls cs s = s\<lparr>ruTrace := ruTrace s @ cs\<rparr>"

definition callers :: "'w groupOps \<Rightarrow> 'w runState \<Rightarrow> 'w runState" where
  "callers oo s = (let (r, w) = goCallers oo (ruRunner s) (ruWorld s) in s\<lparr>ruRunner := r, ruWorld := w\<rparr>)"

section \<open>Construction\<close>

definition NewSessionGroupRunner ::
  "bool \<Rightarrow> httpRules \<Rightarrow> (LocalHTTPRoute list \<Rightarrow> err option) option \<Rightarrow> groupConfig \<Rightarrow> LocalHTTPRoute list \<Rightarrow>
   (groupConfig \<times> runner) res" where
  "NewSessionGroupRunner windows h validator cfg routes =
     (if gcKnockResourceID cfg = '''' then Inl (NewErr ''knock resource ID is empty'')
      else if gcResourcePublicKey cfg = '''' then Inl (NewErr ''protected resource ID is empty'')
      else if \<not> gcHasAdmitter cfg then Inl (NewErr ''admitter is nil'')
      else if \<not> gcHasSessions cfg then Inl (NewErr ''session factory is nil'')
      else case validateDesiredRoutes windows h validator routes of
          Some x \<Rightarrow> Inl (Errorf ''build session group'' x)
        | None \<Rightarrow>
            if gcMinBackoff cfg < 0 \<or> gcMaxBackoff cfg < 0 \<or> gcRotationLead cfg < 0 \<or> gcStopTimeout cfg < 0 then
              Inl (NewErr ''durations cannot be negative'')
            else
              let cfg = (if gcMinBackoff cfg = 0 then cfg\<lparr>gcMinBackoff := second\<rparr> else cfg);
                  cfg = (if gcMaxBackoff cfg = 0 then cfg\<lparr>gcMaxBackoff := 30 * second\<rparr> else cfg)
              in if gcMaxBackoff cfg < gcMinBackoff cfg then Inl (NewErr ''max backoff is below min backoff'')
                 else Inr (if gcStopTimeout cfg = 0 then cfg\<lparr>gcStopTimeout := 5 * second\<rparr> else cfg, newRunner routes))"

section \<open>Applying the desired set\<close>

definition updateLive :: "'w groupOps \<Rightarrow> string \<Rightarrow> nat \<Rightarrow> GroupRoute list \<Rightarrow> 'w runState \<Rightarrow> err option \<times> 'w runState" where
  "updateLive oo label sid routes s = (case goUpdate oo sid routes (ruWorld s) of (e, w) \<Rightarrow>
     (case e of
        Some x \<Rightarrow> if errorsIs x SSessionGroupEnded then None else Some (Errorf label x)
      | None \<Rightarrow> None, s\<lparr>ruWorld := w\<rparr>))"

text \<open>\<open>apply\<close>.\<close>

definition applyDesired :: "'w groupOps \<Rightarrow> 'w runState \<Rightarrow> err option \<times> 'w runState" where
  "applyDesired oo s0 =
     (let desired = desiredRoutesLocked (ruRunner s0); active = ruActive s0; rotating = rnRotating (ruRunner s0);
          (e1, s) = (case ruPending s0 of
              Some c \<Rightarrow>
                if map_option cySession active = Some (cySession c) \<or> goEnded oo (cySession c) (ruWorld s0) then (None, s0)
                else updateLive oo ''replacement session'' (cySession c) desired s0
            | None \<Rightarrow> (None, s0));
          (e2, s) = (case active of
              Some c \<Rightarrow>
                if goEnded oo (cySession c) (ruWorld s) then (None, s)
                else updateLive oo ''active session'' (cySession c)
                  (if rotating then retainRoutes (goStates oo (cySession c) (ruWorld s)) desired else desired) s
            | None \<Rightarrow> (None, s))
      in (errorsJoin [e1, e2], s))"

definition applyAndWake :: "'w groupOps \<Rightarrow> 'w runState \<Rightarrow> err option \<times> 'w runState" where
  "applyAndWake oo s = (case applyDesired oo s of
      (Some x, s) \<Rightarrow> (Some x, s\<lparr>ruRunner := (ruRunner s)\<lparr>rnDivergent := True\<rparr>\<rparr>)
    | (None, s) \<Rightarrow> (None, s))"

definition healDivergence :: "'w groupOps \<Rightarrow> 'w runState \<Rightarrow> 'w runState" where
  "healDivergence oo s =
     (if \<not> rnDivergent (ruRunner s) then s
      else snd (applyAndWake oo (s\<lparr>ruRunner := (ruRunner s)\<lparr>rnDivergent := False\<rparr>\<rparr>)))"

text \<open>The public operations of the group, as a caller runs them.\<close>

definition SetRoutes ::
  "'w groupOps \<Rightarrow> bool \<Rightarrow> httpRules \<Rightarrow> (LocalHTTPRoute list \<Rightarrow> err option) option \<Rightarrow> LocalHTTPRoute list \<Rightarrow>
   'w runState \<Rightarrow> err option \<times> 'w runState" where
  "SetRoutes oo windows h validator routes s = (case validateDesiredRoutes windows h validator routes of
      Some x \<Rightarrow> (Some (Errorf ''set session group routes'' x), s)
    | None \<Rightarrow> (case setDesired routes (ruRunner s) of
        (Some x, r) \<Rightarrow> (Some x, s)
      | (None, r) \<Rightarrow> applyAndWake oo (s\<lparr>ruRunner := r, ruWorld := goRetain oo routes (ruWorld s)\<rparr>)))"

definition RestartRoute :: "'w groupOps \<Rightarrow> string \<Rightarrow> 'w runState \<Rightarrow> err option \<times> 'w runState" where
  "RestartRoute oo k s = (case restartDesired k (ruRunner s) of
      (Some x, r) \<Rightarrow> (Some x, s)
    | (None, r) \<Rightarrow> applyAndWake oo (s\<lparr>ruRunner := r\<rparr>))"

definition withdrawGone :: "'w groupOps \<Rightarrow> groupConfig \<Rightarrow> routeStates \<Rightarrow> 'w runState \<Rightarrow> 'w runState" where
  "withdrawGone oo cfg states s =
     (let gone = goneRoutes states (ruRunner s); r = dropGone states (ruRunner s) in
      if gone = [] then s
      else let s = s\<lparr>ruRunner := r, ruWorld := goRetain oo (desiredLocalRoutes r) (ruWorld s)\<rparr>;
               s = snd (applyDesired oo s)
           in if gcOnRouteFailed cfg then logCalls (map (\<lambda>(k, e). CRouteFailed k e) gone) s else s)"

definition desiredCount :: "'w runState \<Rightarrow> nat" where
  "desiredCount s = fcard (fmdom (rnDesired (ruRunner s)))"

section \<open>Ending a cycle\<close>

definition retireCall :: "'w groupOps \<Rightarrow> groupConfig \<Rightarrow> Admission \<Rightarrow> 'w runState \<Rightarrow> err option \<times> 'w runState" where
  "retireCall oo cfg a s = (case goRetire oo (gcStopTimeout cfg) a (ruWorld s) of
      (e, w) \<Rightarrow> (e, logCalls [CRetire a] (s\<lparr>ruWorld := w\<rparr>)))"

definition stopCall :: "'w groupOps \<Rightarrow> groupConfig \<Rightarrow> nat \<Rightarrow> 'w runState \<Rightarrow> err option \<times> 'w runState" where
  "stopCall oo cfg sid s = (case goStop oo (gcStopTimeout cfg) sid (ruWorld s) of
      (e, w) \<Rightarrow> (e, logCalls [CStop sid] (s\<lparr>ruWorld := w\<rparr>)))"

definition clearPending :: "cycle \<Rightarrow> 'w runState \<Rightarrow> 'w runState" where
  "clearPending c s = (if map_option cySession (ruPending s) = Some (cySession c) then s\<lparr>ruPending := None\<rparr> else s)"

definition failCycle :: "'w groupOps \<Rightarrow> groupConfig \<Rightarrow> cycle \<Rightarrow> err option \<Rightarrow> 'w runState \<Rightarrow> err \<times> 'w runState" where
  "failCycle oo cfg c cause s =
     (let s = clearPending c s;
          e = (case cause of Some x \<Rightarrow> Some x | None \<Rightarrow> goErr oo (cySession c) (ruWorld s));
          (e1, s) = stopCall oo cfg (cySession c) s;
          (e2, s) = retireCall oo cfg (cyAdmission c) s
      in (case errorsJoin [e, e1, e2] of Some x \<Rightarrow> x | None \<Rightarrow> NewErr ''FRP session ended before serving'', s))"

definition stopCycle :: "'w groupOps \<Rightarrow> groupConfig \<Rightarrow> cycle option \<Rightarrow> 'w runState \<Rightarrow> err option \<times> 'w runState" where
  "stopCycle oo cfg c s = (case c of
      None \<Rightarrow> (None, s)
    | Some c \<Rightarrow>
        let (e1, s) = stopCall oo cfg (cySession c) s; (e2, s) = retireCall oo cfg (cyAdmission c) s
        in (errorsJoin [e1, e2], s))"

definition takeActive :: "'w runState \<Rightarrow> cycle option \<times> 'w runState" where
  "takeActive s = (ruActive s, s\<lparr>ruActive := None\<rparr>)"

section \<open>Starting a cycle\<close>

definition oldStates :: "'w groupOps \<Rightarrow> cycle option \<Rightarrow> 'w runState \<Rightarrow> routeStates option" where
  "oldStates oo old s = map_option (\<lambda>c. goStates oo (cySession c) (ruWorld s)) old"

definition observeNow :: "'w groupOps \<Rightarrow> routeStates \<Rightarrow> cycle \<Rightarrow> 'w runState \<Rightarrow> cycle \<times> 'w runState" where
  "observeNow oo states c s =
     (let (now, w) = goNow oo (ruWorld s);
          (c, m) = observeRegistration c states now (rnMeasured (ruRunner s))
      in (c, s\<lparr>ruWorld := w, ruRunner := (ruRunner s)\<lparr>rnMeasured := m\<rparr>\<rparr>))"

definition reportNotServing :: "'w groupOps \<Rightarrow> groupConfig \<Rightarrow> cycle option \<Rightarrow> routeStates \<Rightarrow> 'w runState \<Rightarrow> 'w runState" where
  "reportNotServing oo cfg old states s =
     (if gcOnRouteFailed cfg
      then logCalls (map (\<lambda>k. CRouteFailed k (notServingError states k)) (notServing (ruRunner s) (oldStates oo old s) states)) s
      else s)"

text \<open>
  The readiness loop. Its context has a deadline, so it receives finitely many change signals before the
  deadline or the end of the session; \<open>n\<close> counts them, and what the select receives after them is one of
  the two.
\<close>

definition readyDecision ::
  "'w groupOps \<Rightarrow> groupConfig \<Rightarrow> cycle option \<Rightarrow> cycle \<Rightarrow> err \<Rightarrow> 'w runState \<Rightarrow> cycle res \<times> 'w runState" where
  "readyDecision oo cfg old c x s =
     (let states = goStates oo (cySession c) (ruWorld s); s = withdrawGone oo cfg states s in
      if desiredCount s = 0 then map_prod Inl id (failCycle oo cfg c (Some (Sentinel SGroupEmpty)) s)
      else let (c, s) = observeNow oo states c s in
        if old \<noteq> None \<and> anyRouteServing states then (Inr c, reportNotServing oo cfg old states s)
        else map_prod Inl id (failCycle oo cfg c (Some x) s))"

fun readyLoop ::
  "nat \<Rightarrow> 'w groupOps \<Rightarrow> groupConfig \<Rightarrow> cycle option \<Rightarrow> time \<Rightarrow> cycle \<Rightarrow> 'w runState \<Rightarrow> cycle res \<times> 'w runState" where
  "readyLoop n oo cfg old deadline c s =
     (if goEnded oo (cySession c) (ruWorld s) then map_prod Inl id (failCycle oo cfg c None s)
      else let states = goStates oo (cySession c) (ruWorld s); s = withdrawGone oo cfg states s in
        if desiredCount s = 0 then map_prod Inl id (failCycle oo cfg c (Some (Sentinel SGroupEmpty)) s)
        else let (c, s) = observeNow oo states c s in
          if cycleServing (ruRunner s) states (oldStates oo old s) then (Inr c, s)
          else (case n of
              Suc m \<Rightarrow> readyLoop m oo cfg old deadline c (callers oo (s\<lparr>ruWorld := goChange oo (cySession c) (ruWorld s)\<rparr>))
            | 0 \<Rightarrow>
                let (signal, w) = goReady oo (cySession c) deadline (ruWorld s); s = callers oo (s\<lparr>ruWorld := w\<rparr>) in
                (case signal of
                   ReadyExpired x \<Rightarrow> readyDecision oo cfg old c x s
                 | ReadyEnded \<Rightarrow> map_prod Inl id (failCycle oo cfg c None s))))"

declare readyLoop.simps [simp del]

text \<open>\<open>startCycleAttempt\<close> from the admission on, and the whole of it.\<close>

definition startAdmitted ::
  "'w groupOps \<Rightarrow> groupConfig \<Rightarrow> cycle option \<Rightarrow> time \<Rightarrow> Admission \<Rightarrow> 'w runState \<Rightarrow> cycle res \<times> 'w runState" where
  "startAdmitted oo cfg old started admission s =
     (case validateAdmission admission (gcKnockResourceID cfg) (gcResourcePublicKey cfg) of
        Some x \<Rightarrow> (let (e, s) = retireCall oo cfg admission s in (Inl (the (errorsJoin [Some x, e])), s))
      | None \<Rightarrow>
         let routes = desiredRoutesLocked (ruRunner s); expiresAt = started + amOpenTime admission;
             (session, w) = goStart oo (map_option cyExpiresAt old) admission routes (ruWorld s);
             s = callers oo (s\<lparr>ruWorld := w\<rparr>) in
         (case session of
            Inl x \<Rightarrow> (let (e, s) = retireCall oo cfg admission s in (Inl (the (errorsJoin [Some x, e])), s))
          | Inr sid \<Rightarrow>
             let c = newCycle admission sid expiresAt routes;
                 s = snd (applyDesired oo (s\<lparr>ruPending := Some c\<rparr>));
                 deadline = (case old of Some d \<Rightarrow> min (cyExpiresAt d) expiresAt | None \<Rightarrow> expiresAt)
             in readyLoop (goSignals oo sid deadline (ruWorld s)) oo cfg old deadline c s))"

definition startCycleAttempt ::
  "'w groupOps \<Rightarrow> groupConfig \<Rightarrow> cycle option \<Rightarrow> 'w runState \<Rightarrow> cycle res \<times> 'w runState" where
  "startCycleAttempt oo cfg old s =
     (if desiredCount s = 0 then (Inl (Sentinel SGroupEmpty), s)
      else let (started, w) = goNow oo (ruWorld s);
               (a, w) = goAdmit oo (map_option cyExpiresAt old) (gcKnockResourceID cfg) (gcResourcePublicKey cfg) w;
               s = callers oo (s\<lparr>ruWorld := w\<rparr>) in
        (case a of
           Inl x \<Rightarrow> (Inl x, s)
         | Inr admission \<Rightarrow> startAdmitted oo cfg old started admission (logCalls [CAdmitted admission] s)))"

text \<open>The attempts at a replacement: as many as the fuel, None when they are used up.\<close>

fun startReadyCycle ::
  "nat \<Rightarrow> 'w groupOps \<Rightarrow> groupConfig \<Rightarrow> cycle option \<Rightarrow> duration \<Rightarrow> 'w runState \<Rightarrow> (cycle res \<times> 'w runState) option" where
  "startReadyCycle 0 oo cfg old backoff s = None"
| "startReadyCycle (Suc n) oo cfg old backoff s = (case startCycleAttempt oo cfg old s of
      (Inr c, s) \<Rightarrow> Some (Inr c, s)
    | (Inl x, s) \<Rightarrow> (case old of
          None \<Rightarrow> Some (Inl x, s)
        | Some d \<Rightarrow>
            if errorsIs x SResourceGone \<or> errorsIs x SGroupEmpty then Some (Inl x, s)
            else let (now, w) = goNow oo (ruWorld s); s = s\<lparr>ruWorld := w\<rparr>; remaining = cyExpiresAt d - now in
              if remaining \<le> 0 then Some (Inl x, s)
              else let wait = min (jitter (goRnd oo (ruWorld s)) backoff) remaining;
                       (e, w) = goRetryAfter oo x wait (ruWorld s); s = callers oo (s\<lparr>ruWorld := w\<rparr>) in
                (case e of
                   Some y \<Rightarrow> Some (Inl y, s)
                 | None \<Rightarrow> startReadyCycle n oo cfg old (nextBackoff backoff (gcMaxBackoff cfg)) s)))"

section \<open>Promotion\<close>

definition reportActive :: "'w groupOps \<Rightarrow> groupConfig \<Rightarrow> 'w runState \<Rightarrow> 'w runState" where
  "reportActive oo cfg s = (case ruActive s of
      None \<Rightarrow> s
    | Some c \<Rightarrow>
        let states = goStates oo (cySession c) (ruWorld s);
            s = withdrawGone oo cfg states s;
            serving = newlyServing states (ruRunner s);
            s = s\<lparr>ruRunner := markReported states (ruRunner s)\<rparr>;
            (c, s) = observeNow oo states c s;
            s = s\<lparr>ruActive := Some c\<rparr>
        in if gcOnRouteServing cfg then logCalls (map (\<lambda>k. CRouteServing k (cyAdmission c)) serving) s else s)"

definition promote :: "'w groupOps \<Rightarrow> groupConfig \<Rightarrow> cycle \<Rightarrow> 'w runState \<Rightarrow> 'w runState" where
  "promote oo cfg c s =
     (let s = clearPending c (s\<lparr>ruActive := Some c,
            ruRunner := (ruRunner s)\<lparr>rnRotating := False, rnReported := fmempty\<rparr>\<rparr>);
          s = (if gcOnServing cfg then logCalls [CServing (cyAdmission c)] s else s)
      in reportActive oo cfg s)"

definition setRotating :: "bool \<Rightarrow> 'w runState \<Rightarrow> 'w runState" where
  "setRotating b s = s\<lparr>ruRunner := (ruRunner s)\<lparr>rnRotating := b\<rparr>\<rparr>"

definition armRotation :: "groupConfig \<Rightarrow> cycle \<Rightarrow> 'w runState \<Rightarrow> time \<times> 'w runState" where
  "armRotation cfg c s = (case rotateAt (gcOnLeadCapped cfg) (gcRotationLead cfg) (ruRunner s) c of
      (t, c, capped) \<Rightarrow> (t, let s = s\<lparr>ruActive := Some c\<rparr> in if capped then logCalls [CLeadCapped] s else s))"

definition drainCall :: "'w groupOps \<Rightarrow> groupConfig \<Rightarrow> cycle \<Rightarrow> 'w runState \<Rightarrow> err option \<times> 'w runState" where
  "drainCall oo cfg c s = (case goDrain oo (cySession c) (cyExpiresAt c) (gcStopTimeout cfg) (cyAdmission c) (ruWorld s) of
      (None, w) \<Rightarrow> (None, logCalls [CDrain (cyAdmission c)] (s\<lparr>ruWorld := w\<rparr>))
    | (Some x, w) \<Rightarrow> (Some x, s\<lparr>ruWorld := w\<rparr>))"

section \<open>The loop of \<open>Run\<close>\<close>

datatype pass = Again duration | Returns "err option"

text \<open>The rotation branch.\<close>

definition rotatePass :: "nat \<Rightarrow> 'w groupOps \<Rightarrow> groupConfig \<Rightarrow> duration \<Rightarrow> cycle \<Rightarrow> 'w runState \<Rightarrow> (pass \<times> 'w runState) option" where
  "rotatePass n oo cfg backoff active s = (case startReadyCycle n oo cfg (Some active) (gcMinBackoff cfg) (setRotating True s) of
      None \<Rightarrow> None
    | Some (Inl x, s) \<Rightarrow> Some (
        if errorsIs x SResourceGone \<or> errorsIs x SGroupEmpty then (Returns (Some x), s)
        else let (now, w) = goNow oo (ruWorld s); s = s\<lparr>ruWorld := w\<rparr> in
          if now < cyExpiresAt active then (Again backoff, s)
          else let s = setRotating False (snd (takeActive s)); (e, s) = stopCycle oo cfg (Some active) s in
            (case e of Some y \<Rightarrow> (Returns (errorsJoin [Some x, Some y]), s) | None \<Rightarrow> (Again backoff, s)))
    | Some (Inr replacement, s) \<Rightarrow> Some (case drainCall oo cfg active s of
          (Some x, s) \<Rightarrow> map_prod (\<lambda>e. Returns (Some e)) id (failCycle oo cfg replacement (Some x) s)
        | (None, s) \<Rightarrow>
            let s = promote oo cfg replacement s;
                s = s\<lparr>ruWorld := goRetain oo (desiredLocalRoutes (ruRunner s)) (ruWorld s)\<rparr>
            in (if desiredCount s = 0 then Returns (Some (Sentinel SGroupEmpty)) else Again backoff, s)))"

text \<open>The branch of the wake-up that ends the wait for the rotation timer.\<close>

definition wakePass :: "nat \<Rightarrow> 'w groupOps \<Rightarrow> groupConfig \<Rightarrow> duration \<Rightarrow> cycle \<Rightarrow> 'w runState \<Rightarrow> (pass \<times> 'w runState) option" where
  "wakePass n oo cfg backoff active s =
     (let (rotate, s) = armRotation cfg active s;
          (wake, w) = goSelect oo (cySession active) rotate (ruWorld s); s = callers oo (s\<lparr>ruWorld := w\<rparr>) in
      case wake of
        WakeCtx x \<Rightarrow> Some (Returns (Some x), s)
      | WakeDrains \<Rightarrow> Some (case goDrainErr oo (ruWorld s) of
            (Some x, w) \<Rightarrow> (Returns (Some x), s\<lparr>ruWorld := w\<rparr>)
          | (None, w) \<Rightarrow> (Again backoff, s\<lparr>ruWorld := w\<rparr>))
      | WakeRoutes \<Rightarrow> Some (Again backoff, healDivergence oo s)
      | WakeEnded \<Rightarrow>
          let sessionErr = goErr oo (cySession active) (ruWorld s);
              (c, s) = takeActive s; (e, s) = stopCycle oo cfg (Some active) s in
          Some (if (\<exists>x. sessionErr = Some x \<and> errorsIs x SResourceGone) \<or> e \<noteq> None
            then (Returns (errorsJoin [sessionErr, e]), s) else (Again backoff, s))
      | WakeChanged \<Rightarrow>
          let s = reportActive oo cfg (healDivergence oo s) in
          Some (if desiredCount s = 0 then Returns (Some (Sentinel SGroupEmpty)) else Again backoff, s)
      | WakeRotate \<Rightarrow> rotatePass n oo cfg backoff (the (ruActive s)) s)"

definition runPass :: "nat \<Rightarrow> 'w groupOps \<Rightarrow> groupConfig \<Rightarrow> duration \<Rightarrow> 'w runState \<Rightarrow> (pass \<times> 'w runState) option" where
  "runPass n oo cfg backoff s =
     (case goCtxErr oo (ruWorld s) of
        Some x \<Rightarrow> Some (Returns (Some x), s)
      | None \<Rightarrow> (case ruActive s of
          Some active \<Rightarrow> wakePass n oo cfg backoff active s
        | None \<Rightarrow> (case startReadyCycle 1 oo cfg None (gcMinBackoff cfg) s of
            None \<Rightarrow> None
          | Some (Inl x, s) \<Rightarrow>
              if errorsIs x SResourceGone \<or> errorsIs x SGroupEmpty then Some (Returns (Some x), s)
              else (case goRetryAfter oo x (jitter (goRnd oo (ruWorld s)) backoff) (ruWorld s) of
                  (Some y, w) \<Rightarrow> Some (Returns (Some y), callers oo (s\<lparr>ruWorld := w\<rparr>))
                | (None, w) \<Rightarrow> Some (Again (nextBackoff backoff (gcMaxBackoff cfg)), callers oo (s\<lparr>ruWorld := w\<rparr>)))
          | Some (Inr c, s) \<Rightarrow>
              let s = promote oo cfg c s in
              if desiredCount s = 0 then Some (Returns (Some (Sentinel SGroupEmpty)), s)
              else wakePass n oo cfg (gcMinBackoff cfg) (the (ruActive s)) s)))"

text \<open>\<open>m\<close> rounds of the loop, and the deferred cleanup once it returns.\<close>

definition runCleanup :: "'w groupOps \<Rightarrow> groupConfig \<Rightarrow> err option \<Rightarrow> 'w runState \<Rightarrow> err option \<times> 'w runState" where
  "runCleanup oo cfg x s =
     (let s = s\<lparr>ruWorld := goDrainCancel oo (ruWorld s)\<rparr>; (c, s) = takeActive s; (e1, s) = stopCycle oo cfg c s;
          (e2, w) = goDrainWait oo (gcStopTimeout cfg) (ruWorld s)
      in (errorsJoin [x, e1, e2], s\<lparr>ruWorld := w\<rparr>))"

fun runLoop :: "nat \<Rightarrow> nat \<Rightarrow> 'w groupOps \<Rightarrow> groupConfig \<Rightarrow> duration \<Rightarrow> 'w runState \<Rightarrow> (err option \<times> 'w runState) option" where
  "runLoop 0 n oo cfg backoff s = None"
| "runLoop (Suc m) n oo cfg backoff s = (case runPass n oo cfg backoff s of
      None \<Rightarrow> None
    | Some (Returns x, s) \<Rightarrow> Some (runCleanup oo cfg x s)
    | Some (Again backoff, s) \<Rightarrow> runLoop m n oo cfg backoff s)"

definition Run :: "nat \<Rightarrow> nat \<Rightarrow> 'w groupOps \<Rightarrow> groupConfig \<Rightarrow> bool \<Rightarrow> 'w runState \<Rightarrow> (err option \<times> 'w runState) option" where
  "Run m n oo cfg running s =
     (if running then Some (Some (NewErr ''run session group: already running''), s)
      else case goDrainWait oo (gcStopTimeout cfg) (ruWorld s) of
          (Some x, w) \<Rightarrow> Some (Some x, s\<lparr>ruWorld := w\<rparr>)
        | (None, w) \<Rightarrow> runLoop m n oo cfg (gcMinBackoff cfg) (s\<lparr>ruWorld := w\<rparr>))"

end
