(* ===== verification/Group_Runner_Props.thy ===== *)
theory Group_Runner_Props
  imports Group_Runner Group_Session_Claims
begin

text \<open>
  What the runner's decisions guarantee: the rotation lead and the delays are bounded; a restart
  generation names one configuration of a route for the life of the runner, so that a session never
  refuses the desired set as a route changed in place; a rotating session is only ever given routes it
  carries; a replacement that may be promoted serves all the old session serves.
\<close>

section \<open>Delays\<close>

lemma sdiv_half: "0 \<le> d \<Longrightarrow> d sdiv 2 = d div 2" for d :: int
  by (simp add: signed_divide_int_def sgn_if)

lemma sdiv_nonneg: "0 \<le> d \<Longrightarrow> 0 < n \<Longrightarrow> d sdiv n = d div n" for d n :: int
  by (simp add: signed_divide_int_def sgn_if)

lemma lead_need: "30 * second \<le> snd (groupRotationLead openTime configured routes m)"
  by (simp add: groupRotationLead_def groupLeadFloor_def Let_def)

text \<open>
  The replacement lead is exactly the need, cut at half of the admission's open time, and the need is
  the largest of the configured lead, 30 seconds and the route count times the per-route cost: the lower
  clamp of one second never binds. The replacement so starts no earlier than halfway through the
  admission, and with its whole need whenever that fits.
\<close>

lemma rotation_lead_exact:
  "groupRotationLead openTime configured routes m =
     (min (max (max configured (30 * second)) (int routes * max (50 * millisecond) m)) (openTime sdiv 2),
      max (max configured (30 * second)) (int routes * max (50 * millisecond) m))"
  by (auto simp: groupRotationLead_def groupLeadFloor_def groupLeadPerRoute_def Let_def duration_defs max_def min_def)

lemma backoff_grows:
  assumes "0 \<le> c" "c \<le> m"
  shows "min m (2 * c) \<le> nextBackoff c m" "nextBackoff c m \<le> m" "c \<le> nextBackoff c m"
  using assms by (auto simp: nextBackoff_def sdiv_nonneg)

lemma backoff_power:
  assumes "0 \<le> c" "c \<le> m"
  shows "min m (c * 2 ^ n) \<le> ((\<lambda>d. nextBackoff d m) ^^ n) c \<and> ((\<lambda>d. nextBackoff d m) ^^ n) c \<le> m"
proof (induction n)
  case (Suc n)
  let ?d = "((\<lambda>d. nextBackoff d m) ^^ n) c"
  have pos: "0 \<le> ?d" using Suc assms by (smt (verit) zero_le_mult_iff zero_le_power)
  then have "min m (2 * ?d) \<le> nextBackoff ?d m \<and> nextBackoff ?d m \<le> m"
    using backoff_grows [of ?d m] Suc by simp
  moreover have "min m (2 * p) \<le> min m (2 * ?d)" if "p = c * 2 ^ n" for p using Suc that pos by linarith
  moreover have "c * 2 ^ Suc n = 2 * (c * 2 ^ n)" by simp
  ultimately show ?case by (smt (verit) funpow.simps(2) comp_apply)
qed (use assms in simp)

lemma jitter_bounds:
  assumes "0 < d" and rnd: "\<And>k. 0 < k \<Longrightarrow> 0 \<le> rnd k \<and> rnd k < k"
  shows "d sdiv 2 \<le> jitter rnd d \<and> jitter rnd d \<le> d"
proof -
  have "d sdiv 2 = d div 2" "d div 2 < d" "0 \<le> d div 2" using assms by (simp_all add: sdiv_half)
  moreover from this have "0 \<le> rnd (d - d div 2) \<and> rnd (d - d div 2) < d - d div 2" using rnd by simp
  ultimately show ?thesis by (auto simp: jitter_def Let_def)
qed

text \<open>
  The retry delay doubles up to the maximum: after \<open>n\<close> failures it lies between the smaller of the
  maximum and \<open>2^n\<close> times the first delay, and the maximum; so it reaches the maximum after logarithmically
  many failures and stays there. The jittered delay of any backoff lies between half of it and below it.
\<close>

lemma retry_delay_bounds:
  assumes "0 < c" "c \<le> m" and rnd: "\<And>k. 0 < k \<Longrightarrow> 0 \<le> rnd k \<and> rnd k < k"
  shows "min m (c * 2 ^ n) \<le> ((\<lambda>d. nextBackoff d m) ^^ n) c \<and> ((\<lambda>d. nextBackoff d m) ^^ n) c \<le> m \<and>
    ((\<lambda>d. nextBackoff d m) ^^ n) c sdiv 2 \<le> jitter rnd (((\<lambda>d. nextBackoff d m) ^^ n) c) \<and>
    jitter rnd (((\<lambda>d. nextBackoff d m) ^^ n) c) \<le> ((\<lambda>d. nextBackoff d m) ^^ n) c"
proof -
  let ?d = "((\<lambda>d. nextBackoff d m) ^^ n) c"
  have b: "min m (c * 2 ^ n) \<le> ?d" "?d \<le> m" using backoff_power [of c m n] assms by simp_all
  have "0 < min m (c * 2 ^ n)" using assms by simp
  then have "0 < ?d" using b by linarith
  then show ?thesis using b jitter_bounds [of ?d rnd] rnd by blast
qed

lemma retry_delay_bounds_witness:
  "((\<lambda>d. nextBackoff d (30 * second)) ^^ 5) second = 30 * second \<and>
   jitter (\<lambda>k. k - 1) (30 * second) < 30 * second"
proof -
  have "((\<lambda>d. nextBackoff d (30 * second)) ^^ 5) second = 30 * second"
    using retry_delay_bounds [of second "30 * second" "\<lambda>k. k - 1" 5] by (simp add: duration_defs)
  then show ?thesis by (simp add: jitter_def Let_def duration_defs sdiv_half)
qed

section \<open>Generations\<close>

lemma routeEqual_eq: "routeEqual a b \<longleftrightarrow> a = b" for a b :: LocalHTTPRoute
  by (auto simp: routeEqual_def intro: LocalHTTPRoute.equality)

lemma bump_simps [simp]: "rnDesired (bump k r) = rnDesired r" "restartOf (bump k r) j = (if j = k then restartOf r k + 1 else restartOf r j)"
  by (simp_all add: bump_def restartOf_def)

lemma restartOf_desired [simp]: "restartOf (r\<lparr>rnDesired := d\<rparr>) k = restartOf r k"
  by (simp add: restartOf_def)

lemma bump_all:
  "distinct ks \<Longrightarrow> rnDesired (foldl (\<lambda>r k. bump k r) r ks) = rnDesired r \<and>
     restartOf (foldl (\<lambda>r k. bump k r) r ks) j = (if j \<in> set ks then restartOf r j + 1 else restartOf r j)"
  by (induction ks arbitrary: r) auto

lemma drop_all:
  "distinct (map fst gs) \<Longrightarrow>
     fmlookup (rnDesired (foldl (\<lambda>r (k, _). (bump k r)\<lparr>rnDesired := fmdrop k (rnDesired r)\<rparr>) r gs)) j =
       (if j \<in> fst ` set gs then None else fmlookup (rnDesired r) j) \<and>
     restartOf (foldl (\<lambda>r (k, _). (bump k r)\<lparr>rnDesired := fmdrop k (rnDesired r)\<rparr>) r gs) j =
       (if j \<in> fst ` set gs then restartOf r j + 1 else restartOf r j)"
proof (induction gs arbitrary: r)
  case (Cons g gs)
  obtain k x where g: "g = (k, x)" by (cases g)
  have "distinct (map fst gs)" "k \<notin> fst ` set gs" using Cons.prems g by (auto simp: image_iff)
  then show ?case using Cons.IH [of "(bump k r)\<lparr>rnDesired := fmdrop k (rnDesired r)\<rparr>"] g by auto
qed simp

lemma sorted_fset [simp]: "distinct (sorted_list_of_fset A)" "set (sorted_list_of_fset A) = fset A"
  using routeKeys_distinct by (simp_all add: sorted_list_of_fset.rep_eq)

text \<open>Tables of routes by their IDs.\<close>

definition keyedTable :: "(string, LocalHTTPRoute) fmap \<Rightarrow> bool" where
  "keyedTable m = (\<forall>k x. fmlookup m k = Some x \<longrightarrow> RouteID x = k)"

lemma keyedTable_intros [intro]:
  "keyedTable fmempty" "keyedTable m \<Longrightarrow> keyedTable (fmupd (RouteID x) x m)" "keyedTable m \<Longrightarrow> keyedTable (fmdrop k m)"
  by (simp_all add: keyedTable_def)

lemma keyedTable_foldl: "keyedTable m \<Longrightarrow> keyedTable (foldl (\<lambda>m r. fmupd (RouteID r) r m) m routes)"
  by (induction routes arbitrary: m) auto

lemma gone_distinct: "distinct (map fst (goneRoutes states r))"
proof -
  have sub: "distinct ks \<Longrightarrow> (\<And>k y. f k = Some y \<Longrightarrow> fst y = k) \<Longrightarrow>
      distinct (map fst (List.map_filter f ks)) \<and> fst ` set (List.map_filter f ks) \<subseteq> set ks"
    for f :: "string \<Rightarrow> (string \<times> err) option" and ks
    by (induction ks) (auto simp: map_filter_simps split: option.splits)
  show ?thesis unfolding goneRoutes_def
    by (rule conjunct1 [OF sub]) (auto split: option.splits if_splits)
qed

lemma setNext_keys: "setNext desired routes nxt = Inr m \<Longrightarrow> keyedTable nxt \<Longrightarrow> keyedTable m"
  by (induction desired routes nxt rule: setNext.induct) (auto split: option.splits if_splits)

text \<open>What every event does to a route's generation: nothing, and then the route stays as it was, or one step.\<close>

definition keepsOrBumps :: "runner \<Rightarrow> runner \<Rightarrow> bool" where
  "keepsOrBumps r r' = (\<forall>k. restartOf r' k = restartOf r k + 1 \<or>
     (restartOf r' k = restartOf r k \<and> (k |\<in>| fmdom (rnDesired r) \<longrightarrow> fmlookup (rnDesired r') k = fmlookup (rnDesired r) k)))"

abbreviation keyed :: "runner \<Rightarrow> bool" where
  "keyed r \<equiv> keyedTable (rnDesired r)"

lemma setDesired_step:
  assumes "setDesired routes r = (None, r')"
  shows "keepsOrBumps r r'" "keyed r'"
proof -
  obtain nxt where n: "setNext (rnDesired r) routes fmempty = Inr nxt"
    using assms by (auto simp: setDesired_def split: sum.splits)
  define ks where "ks = filter (\<lambda>k. case fmlookup nxt k of
      None \<Rightarrow> True | Some route \<Rightarrow> \<not> routeEqual (the (fmlookup (rnDesired r) k)) route)
    (sorted_list_of_fset (fmdom (rnDesired r)))"
  have d: "distinct ks" by (simp add: ks_def)
  have r': "r' = (foldl (\<lambda>r k. bump k r) r ks)\<lparr>rnDesired := nxt\<rparr>"
    using assms n by (simp add: setDesired_def ks_def Let_def)
  have "fmlookup nxt k = fmlookup (rnDesired r) k" if "k |\<in>| fmdom (rnDesired r)" "k \<notin> set ks" for k
    using that by (auto simp: ks_def routeEqual_eq fmlookup_dom_iff split: option.splits)
  then show "keepsOrBumps r r'" using bump_all [OF d, of r] unfolding keepsOrBumps_def r' by auto
  show "keyed r'" using setNext_keys [OF n] by (auto simp: r')
qed

lemma restart_step:
  assumes "restartDesired k r = (None, r')" "keyed r"
  shows "keepsOrBumps r r'" "keyed r'"
  using assms by (auto simp: restartDesired_def keepsOrBumps_def split: if_splits)

lemma dropGone_step:
  assumes "keyed r"
  shows "keepsOrBumps r (dropGone states r)" "keyed (dropGone states r)"
  using drop_all [OF gone_distinct, where r = r] assms
  unfolding keepsOrBumps_def keyedTable_def dropGone_def by (auto split: if_splits)

lemma newRunner_keyed: "keyed (newRunner routes)"
  by (auto simp: newRunner_def intro: keyedTable_foldl)

text \<open>
  A run of the runner: how many route changes it has made, every registration that was ever desired, and its
  state. The other events leave routes and generations alone.
\<close>

inductive runnerRun :: "nat \<Rightarrow> GroupRoute set \<Rightarrow> runner \<Rightarrow> bool" where
  created: "runnerRun 0 (set (desiredRoutesLocked (newRunner routes))) (newRunner routes)"
| sets: "runnerRun n H r \<Longrightarrow> setDesired routes r = (None, r') \<Longrightarrow> runnerRun (Suc n) (H \<union> set (desiredRoutesLocked r')) r'"
| restarts: "runnerRun n H r \<Longrightarrow> restartDesired k r = (None, r') \<Longrightarrow> runnerRun (Suc n) (H \<union> set (desiredRoutesLocked r')) r'"
| withdraws: "runnerRun n H r \<Longrightarrow> runnerRun (Suc n) (H \<union> set (desiredRoutesLocked (dropGone states r))) (dropGone states r)"
| other: "runnerRun n H r \<Longrightarrow> rnDesired r' = rnDesired r \<Longrightarrow> rnRestarts r' = rnRestarts r \<Longrightarrow> runnerRun n H r'"

definition gen_inv :: "nat \<Rightarrow> GroupRoute set \<Rightarrow> runner \<Rightarrow> bool" where
  "gen_inv n H r = (keyed r \<and> (\<forall>k. unat (restartOf r k) \<le> n) \<and>
     (\<forall>g \<in> H. unat (grGeneration g) \<le> unat (restartOf r (RouteID (grRoute g))) \<and>
        (grGeneration g = restartOf r (RouteID (grRoute g)) \<longrightarrow>
           fmlookup (rnDesired r) (RouteID (grRoute g)) = Some (grRoute g))) \<and>
     (\<forall>g \<in> H. \<forall>g' \<in> H. RouteID (grRoute g) = RouteID (grRoute g') \<longrightarrow> grGeneration g = grGeneration g' \<longrightarrow> g = g'))"

lemma desired_mem: "keyed r \<Longrightarrow> g \<in> set (desiredRoutesLocked r) \<longleftrightarrow>
    fmlookup (rnDesired r) (RouteID (grRoute g)) = Some (grRoute g) \<and>
    grGeneration g = restartOf r (RouteID (grRoute g))"
proof -
  assume keyed: "keyed r"
  obtain route n where g: "g = \<lparr>grRoute = route, grGeneration = n\<rparr>" by (cases g)
  have "g \<in> set (desiredRoutesLocked r) \<longleftrightarrow>
      (\<exists>k. k |\<in>| fmdom (rnDesired r) \<and> route = the (fmlookup (rnDesired r) k) \<and> n = restartOf r k)"
    by (auto simp: desiredRoutesLocked_def g)
  also have "\<dots> \<longleftrightarrow> (\<exists>k. fmlookup (rnDesired r) k = Some route \<and> n = restartOf r k)"
    by (metis fmdomI fmlookup_dom_iff option.sel)
  also have "\<dots> \<longleftrightarrow> fmlookup (rnDesired r) (RouteID route) = Some route \<and> n = restartOf r (RouteID route)"
    using keyed unfolding keyedTable_def by metis
  finally show ?thesis by (simp add: g)
qed

lemma gen_inv_step:
  assumes inv: "gen_inv n H r" and step: "keepsOrBumps r r'" "keyed r'" and n: "Suc n < 2 ^ 64"
  shows "gen_inv (Suc n) (H \<union> set (desiredRoutesLocked r')) r'"
proof -
  have cases: "restartOf r' k = restartOf r k + 1 \<and> unat (restartOf r' k) = unat (restartOf r k) + 1 \<or>
      (restartOf r' k = restartOf r k \<and> (k |\<in>| fmdom (rnDesired r) \<longrightarrow> fmlookup (rnDesired r') k = fmlookup (rnDesired r) k))"
    for k
  proof -
    have "unat (restartOf r k) + 1 < 2 ^ 64" using inv n by (auto simp: gen_inv_def intro: le_less_trans)
    then have "unat (restartOf r k + 1) = unat (restartOf r k) + 1" by (simp add: unat_word_ariths)
    then show ?thesis using step(1) by (metis keepsOrBumps_def)
  qed
  have bound: "unat (restartOf r' k) \<le> Suc n" for k
    using cases [of k] inv by (auto simp: gen_inv_def le_SucI)
  have old: "unat (grGeneration g) \<le> unat (restartOf r' (RouteID (grRoute g))) \<and>
      (grGeneration g = restartOf r' (RouteID (grRoute g)) \<longrightarrow>
         fmlookup (rnDesired r') (RouteID (grRoute g)) = Some (grRoute g))" if "g \<in> H" for g
  proof -
    let ?k = "RouteID (grRoute g)"
    have le: "unat (grGeneration g) \<le> unat (restartOf r ?k)"
      and eq: "grGeneration g = restartOf r ?k \<Longrightarrow> fmlookup (rnDesired r) ?k = Some (grRoute g)"
      using inv that by (auto simp: gen_inv_def)
    from cases [of ?k] show ?thesis
    proof (elim disjE conjE)
      assume "unat (restartOf r' ?k) = unat (restartOf r ?k) + 1"
      then show ?thesis using le by auto
    next
      assume "restartOf r' ?k = restartOf r ?k"
        "?k |\<in>| fmdom (rnDesired r) \<longrightarrow> fmlookup (rnDesired r') ?k = fmlookup (rnDesired r) ?k"
      then show ?thesis using le eq by (metis fmdomI)
    qed
  qed
  have new: "g \<in> set (desiredRoutesLocked r') \<longleftrightarrow> fmlookup (rnDesired r') (RouteID (grRoute g)) = Some (grRoute g) \<and>
      grGeneration g = restartOf r' (RouteID (grRoute g))" for g
    by (rule desired_mem [OF step(2)])
  have same: "g = g'" if "g \<in> H \<union> set (desiredRoutesLocked r')" "g' \<in> set (desiredRoutesLocked r')"
      "RouteID (grRoute g) = RouteID (grRoute g')" "grGeneration g = grGeneration g'" for g g'
    using that old [of g] new [of g] new [of g'] by (intro GroupRoute.equality) auto
  have "\<forall>g \<in> H. \<forall>g' \<in> H. RouteID (grRoute g) = RouteID (grRoute g') \<longrightarrow> grGeneration g = grGeneration g' \<longrightarrow> g = g'"
    using inv by (simp add: gen_inv_def)
  then have pairs: "\<forall>g \<in> H \<union> set (desiredRoutesLocked r'). \<forall>g' \<in> H \<union> set (desiredRoutesLocked r').
      RouteID (grRoute g) = RouteID (grRoute g') \<longrightarrow> grGeneration g = grGeneration g' \<longrightarrow> g = g'"
    using same by (metis UnE)
  show ?thesis unfolding gen_inv_def using step(2) bound old new pairs by auto
qed

lemma runnerRun_inv: "runnerRun n H r \<Longrightarrow> n < 2 ^ 64 \<Longrightarrow> gen_inv n H r"
proof (induction rule: runnerRun.induct)
  case (created routes)
  let ?r = "newRunner routes"
  have "restartOf ?r k = 0" for k by (simp add: restartOf_def newRunner_def)
  then show ?case using desired_mem [OF newRunner_keyed [of routes]] newRunner_keyed [of routes]
    by (auto simp: gen_inv_def intro!: GroupRoute.equality)
next
  case (sets n H r routes r')
  then show ?case using gen_inv_step setDesired_step by (metis Suc_lessD)
next
  case (restarts n H r k r')
  then show ?case using gen_inv_step restart_step by (metis Suc_lessD gen_inv_def)
next
  case (withdraws n H r states)
  then show ?case using gen_inv_step dropGone_step by (metis Suc_lessD gen_inv_def)
next
  case (other n H r r')
  then show ?case by (simp add: gen_inv_def restartOf_def)
qed

lemma runnerRun_desired: "runnerRun n H r \<Longrightarrow> set (desiredRoutesLocked r) \<subseteq> H"
proof (induction rule: runnerRun.induct)
  case (other n H r r')
  then show ?case by (simp add: desiredRoutesLocked_def restartOf_def)
qed auto

text \<open>
  A restart generation names one configuration: among all registrations the runner has ever desired
  (before and after any number of route changes, restarts and withdrawals, removed and re-added routes
  included), two of the same route ID and generation have the same local target, identities and request
  headers. The generation is a 64-bit counter, so this is claimed for fewer than \<open>2^64\<close> changes.
\<close>

lemma generation_identifies:
  assumes "runnerRun n H r" "n < 2 ^ 64" "g \<in> H" "g' \<in> H"
    and "RouteID (grRoute g) = RouteID (grRoute g')" "grGeneration g = grGeneration g'"
  shows "g = g'"
  using runnerRun_inv [OF assms(1,2)] assms(3-) by (simp add: gen_inv_def)

section \<open>What the sessions are given\<close>

lemma nextTable_total:
  "(\<And>r c. r \<in> set routes \<Longrightarrow> fmlookup t (RouteID (grRoute r)) = Some c \<Longrightarrow>
      geName c = groupProxyName sha r sid \<Longrightarrow> groupRouteEqual (geRoute c) r) \<Longrightarrow>
   \<exists>t'. nextTable sha sid t routes nxt = Inr t'"
proof (induction routes arbitrary: nxt)
  case (Cons r routes)
  have "\<exists>t'. nextTable sha sid t routes nx = Inr t'" for nx using Cons by simp
  then show ?case using Cons.prems [of r] by (simp add: Let_def split: option.splits)
qed simp

lemma updateTable_lands:
  assumes "\<not> gsStopped s" "nextTable (gvSha v) (gsSessionID s) (gsRoutes s) routes fmempty = Inr nxt"
  shows "updateTable v routes now s = (None, notify (s\<lparr>gsRoutes := snd (releaseWindowLocked now nxt),
     gsVersion := gsVersion s + 1, gsHolder := TableUpdated\<rparr>))"
  using assms by (simp add: updateTable_def)

lemma released_entry: "k |\<in>| fmdom t \<Longrightarrow> entryOf (snd (releaseWindowLocked now t)) k = entryOf t k \<or>
    entryOf (snd (releaseWindowLocked now t)) k = (entryOf t k)\<lparr>geReleased := True\<rparr>"
  by (simp add: releaseWindow_eq releasedTable_entry)

text \<open>The entry a route gets in the next table.\<close>

definition carried :: "(string \<Rightarrow> nat list) \<Rightarrow> uint64 \<Rightarrow> routeTable \<Rightarrow> GroupRoute \<Rightarrow> groupRouteEntry" where
  "carried sha sid t r = (case fmlookup t (RouteID (grRoute r)) of
      None \<Rightarrow> freshEntry sha sid r
    | Some c \<Rightarrow> if geName c = groupProxyName sha r sid then c
        else if geReleased c then (freshEntry sha sid r)\<lparr>geReplaces := True\<rparr> else freshEntry sha sid r)"

lemma nextTable_entries:
  assumes "nextTable sha sid t routes fmempty = Inr t'" "distinct (map (\<lambda>r. RouteID (grRoute r)) routes)"
  shows "k |\<in>| fmdom t' \<longleftrightarrow> (\<exists>r. r \<in> set routes \<and> RouteID (grRoute r) = k)"
    and "r \<in> set routes \<Longrightarrow> fmlookup t' (RouteID (grRoute r)) = Some (carried sha sid t r)"
proof -
  have e: "fmdom fmempty |\<inter>| fset_of_list (map (\<lambda>r. RouteID (grRoute r)) routes) = {||}" by simp
  note keep = nextTable_keeps [OF assms e]
  show "k |\<in>| fmdom t' \<longleftrightarrow> (\<exists>r. r \<in> set routes \<and> RouteID (grRoute r) = k)"
    using conjunct1 [OF keep] by (auto simp: fset_of_list.rep_eq)
  show "r \<in> set routes \<Longrightarrow> fmlookup t' (RouteID (grRoute r)) = Some (carried sha sid t r)"
    using keep unfolding carried_def by blast
qed

lemma carried_route: "(\<And>c. fmlookup t (RouteID (grRoute r)) = Some c \<Longrightarrow> geName c = groupProxyName sha r sid \<Longrightarrow> geRoute c = r) \<Longrightarrow>
    geRoute (carried sha sid t r) = r"
  by (cases "fmlookup t (RouteID (grRoute r))") (simp_all add: carried_def)

lemma desired_ids: "map (\<lambda>g. RouteID (grRoute g)) (desiredRoutesLocked r) = sorted_list_of_fset (fmdom (rnDesired r))"
  if "keyed r"
proof -
  have "RouteID (the (fmlookup (rnDesired r) k)) = k" if "k |\<in>| fmdom (rnDesired r)" for k
    using that \<open>keyed r\<close> unfolding keyedTable_def by (metis fmlookup_dom_iff option.sel)
  then show ?thesis by (auto simp: desiredRoutesLocked_def comp_def intro!: map_idI)
qed

text \<open>
  C25. The desired set always lands: a running session whose routes were all desired at some time of the
  runner's life accepts the current desired set, and then carries exactly the desired routes, each with
  its current target, headers and generation. The refusal of a route changed in place never hits the
  runner, unless two of the generations concerned collide in the 32-bit digest suffixes of their names.
\<close>

theorem desired_set_lands:
  assumes run: "runnerRun n H r" "n < 2 ^ 64"
    and s: "\<not> gsStopped s" "table_ok (gvSha v) (gsSessionID s) (gsRoutes s)"
    and hist: "\<And>k. k |\<in>| fmdom (gsRoutes s) \<Longrightarrow> geRoute (entryOf (gsRoutes s) k) \<in> H"
    and sha: "sha256_ok (gvSha v)"
    and apart: "\<And>k g. k |\<in>| fmdom (gsRoutes s) \<Longrightarrow> g \<in> set (desiredRoutesLocked r) \<Longrightarrow>
        digestSuffix (gvSha v) (generationDiscriminator (grGeneration (geRoute (entryOf (gsRoutes s) k))) (gsSessionID s)) =
          digestSuffix (gvSha v) (generationDiscriminator (grGeneration g) (gsSessionID s)) \<Longrightarrow>
        generationDiscriminator (grGeneration (geRoute (entryOf (gsRoutes s) k))) (gsSessionID s) =
          generationDiscriminator (grGeneration g) (gsSessionID s)"
  shows "fst (updateTable v (desiredRoutesLocked r) now s) = None \<and>
    fmdom (gsRoutes (snd (updateTable v (desiredRoutesLocked r) now s))) = fmdom (rnDesired r) \<and>
    list_all (\<lambda>g. geRoute (entryOf (gsRoutes (snd (updateTable v (desiredRoutesLocked r) now s))) (RouteID (grRoute g))) = g)
      (desiredRoutesLocked r)"
proof -
  let ?sid = "gsSessionID s" and ?D = "desiredRoutesLocked r"
  have inv: "gen_inv n H r" using runnerRun_inv run by blast
  then have keyed: "keyed r" by (simp add: gen_inv_def)
  have D: "set ?D \<subseteq> H" using runnerRun_desired [OF run(1)] .
  have same: "geRoute c = g" if "g \<in> set ?D" "fmlookup (gsRoutes s) (RouteID (grRoute g)) = Some c"
      "geName c = groupProxyName (gvSha v) g ?sid" for g c
  proof -
    let ?k = "RouteID (grRoute g)"
    have k: "?k |\<in>| fmdom (gsRoutes s)" "entryOf (gsRoutes s) ?k = c"
      using that(2) by (auto simp: entryOf_def intro: fmdomI)
    have c: "geName c = groupProxyName (gvSha v) (geRoute c) ?sid" "RouteID (grRoute (geRoute c)) = ?k"
      using table_ok_lookup [OF s(2) that(2)] by simp_all
    have "grGeneration (geRoute c) = grGeneration g"
      using routeProxyName_inj [OF sha, of "grGeneration (geRoute c)" ?sid "grGeneration g" ?sid ?k ?k]
        apart [OF k(1) that(1)] k(2) c that(3) by (auto simp: groupProxyName_def)
    moreover have "geRoute c \<in> H" using hist [OF k(1)] k(2) by simp
    moreover have "g \<in> H" using D that(1) by blast
    ultimately show ?thesis using inv c(2) unfolding gen_inv_def by metis
  qed
  have "\<exists>nxt. nextTable (gvSha v) ?sid (gsRoutes s) ?D fmempty = Inr nxt"
    by (rule nextTable_total) (simp add: groupRouteEqual_def routeEqual_eq same)
  then obtain nxt where n: "nextTable (gvSha v) ?sid (gsRoutes s) ?D fmempty = Inr nxt" by blast
  have d: "distinct (map (\<lambda>g. RouteID (grRoute g)) ?D)" by (simp add: desired_ids [OF keyed])
  note keep = nextTable_entries [OF n d]
  have "k |\<in>| fmdom nxt \<longleftrightarrow> k |\<in>| fmdom (rnDesired r)" for k
  proof -
    have "(\<lambda>g. RouteID (grRoute g)) ` set ?D = fset (fmdom (rnDesired r))"
      using arg_cong [OF desired_ids [OF keyed], of set] by simp
    then show ?thesis using keep(1) by (metis (no_types, lifting) imageE image_eqI)
  qed
  then have dom: "fmdom nxt = fmdom (rnDesired r)" by (intro fset_eqI)
  have "geRoute (entryOf nxt (RouteID (grRoute g))) = g" if g: "g \<in> set ?D" for g
    using keep(2) [OF g] carried_route same [OF g] by (simp add: entryOf_def)
  moreover have "geRoute (entryOf (snd (releaseWindowLocked now nxt)) (RouteID (grRoute g))) =
      geRoute (entryOf nxt (RouteID (grRoute g)))" if "g \<in> set ?D" for g
  proof -
    have "RouteID (grRoute g) |\<in>| fmdom nxt" using that keep(1) by blast
    then show ?thesis using released_entry [of "RouteID (grRoute g)" nxt now] by auto
  qed
  moreover have "fmdom (snd (releaseWindowLocked now nxt)) = fmdom nxt" by (simp add: releaseWindow_eq)
  ultimately show ?thesis using updateTable_lands [OF s(1) n] dom by (simp add: notify_def list_all_iff)
qed

lemma states_lookup: "fmlookup (RouteStates s) k = (case fmlookup (gsRoutes s) k of None \<Rightarrow> None
    | Some e \<Rightarrow> Some \<lparr>rsRoute = geRoute e, rsProxyName = geName e, rsPhase = gePhase e,
        rsErr = (if gePhase e = RoutePending \<and> geErr e = None
          then (if gsPushed s \<noteq> gsVersion s then gsPushErr s else None) else geErr e)\<rparr>)"
  by (simp add: RouteStates_def Let_def split: option.splits)

text \<open>The route the session keeps for a desired one, if it keeps any.\<close>

definition kept :: "groupSession \<Rightarrow> GroupRoute \<Rightarrow> GroupRoute option" where
  "kept s d = (case fmlookup (gsRoutes s) (RouteID (grRoute d)) of
      None \<Rightarrow> None
    | Some e \<Rightarrow> if gePhase e \<noteq> RouteFailed then Some (geRoute e) else None)"

lemma retain_kept: "retainRoutes (RouteStates s) ds = List.map_filter (kept s) ds"
proof -
  have "(case fmlookup (RouteStates s) (RouteID (grRoute g)) of
      None \<Rightarrow> None
    | Some st \<Rightarrow> if rsPhase st \<noteq> RouteFailed then Some (rsRoute st) else None) = kept s g" for g
    by (cases "fmlookup (gsRoutes s) (RouteID (grRoute g))") (simp_all add: kept_def states_lookup)
  then show ?thesis by (simp add: retainRoutes_def)
qed

lemma kept_Some: "kept s d = Some g \<longleftrightarrow>
    (\<exists>e. fmlookup (gsRoutes s) (RouteID (grRoute d)) = Some e \<and> gePhase e \<noteq> RouteFailed \<and> geRoute e = g)"
  by (cases "fmlookup (gsRoutes s) (RouteID (grRoute d))") (simp_all add: kept_def)

lemma kept_id: "table_ok sha sid (gsRoutes s) \<Longrightarrow> kept s d = Some g \<Longrightarrow> RouteID (grRoute g) = RouteID (grRoute d)"
  using table_ok_lookup by (metis kept_Some)

lemma retain_mem: "g \<in> set (retainRoutes (RouteStates s) ds) \<longleftrightarrow> (\<exists>d. d \<in> set ds \<and> kept s d = Some g)"
  unfolding retain_kept by (induction ds) (auto simp: map_filter_simps split: option.splits)

lemma map_filter_distinct:
  "distinct (map f ds) \<Longrightarrow> (\<And>d g. h d = Some g \<Longrightarrow> f g = f d) \<Longrightarrow>
     distinct (map f (List.map_filter h ds)) \<and> f ` set (List.map_filter h ds) \<subseteq> f ` set ds"
proof (induction ds)
  case (Cons d ds)
  then show ?case by (cases "h d") (auto simp: map_filter_simps)
qed (simp add: map_filter_simps)

lemma retained_next:
  assumes ok: "table_ok (gvSha v) (gsSessionID s) (gsRoutes s)" and keyed: "keyedTable (rnDesired r)"
  obtains nxt where
    "nextTable (gvSha v) (gsSessionID s) (gsRoutes s) (retainRoutes (RouteStates s) (desiredRoutesLocked r)) fmempty = Inr nxt"
    "fmdom nxt = ffilter (\<lambda>k. gePhase (entryOf (gsRoutes s) k) \<noteq> RouteFailed \<and> k |\<in>| fmdom (rnDesired r)) (fmdom (gsRoutes s))"
    "\<And>k. k |\<in>| fmdom nxt \<Longrightarrow> fmlookup nxt k = fmlookup (gsRoutes s) k"
proof -
  let ?sid = "gsSessionID s" and ?t = "gsRoutes s"
  let ?R = "retainRoutes (RouteStates s) (desiredRoutesLocked r)"
  have ids: "(\<exists>d. d \<in> set (desiredRoutesLocked r) \<and> RouteID (grRoute d) = k) \<longleftrightarrow> k |\<in>| fmdom (rnDesired r)" for k
  proof -
    have "(\<lambda>g. RouteID (grRoute g)) ` set (desiredRoutesLocked r) = fset (fmdom (rnDesired r))"
      using arg_cong [OF desired_ids [OF keyed], of set] by simp
    then show ?thesis by (metis (no_types, lifting) imageE image_eqI)
  qed
  have mem: "g \<in> set ?R \<longleftrightarrow> (\<exists>k e. k |\<in>| fmdom (rnDesired r) \<and> fmlookup ?t k = Some e \<and> gePhase e \<noteq> RouteFailed \<and> geRoute e = g)" for g
    unfolding retain_mem kept_Some using ids by metis
  have own: "RouteID (grRoute (geRoute e)) = k \<and> geName e = groupProxyName (gvSha v) (geRoute e) ?sid"
    if "fmlookup ?t k = Some e" for k e using table_ok_lookup [OF ok that] by simp
  have d: "distinct (map (\<lambda>g. RouteID (grRoute g)) ?R)"
    unfolding retain_kept
    by (rule conjunct1 [OF map_filter_distinct]) (simp_all add: desired_ids [OF keyed] kept_id [OF ok])
  have self: "fmlookup ?t (RouteID (grRoute g)) = Some c \<Longrightarrow> geRoute c = g \<and> geName c = groupProxyName (gvSha v) g ?sid"
    if "g \<in> set ?R" for g c
    using that own unfolding mem by (metis option.inject)
  have "\<exists>nxt. nextTable (gvSha v) ?sid ?t ?R fmempty = Inr nxt"
    by (rule nextTable_total) (simp add: groupRouteEqual_def routeEqual_eq self)
  then obtain nxt where n: "nextTable (gvSha v) ?sid ?t ?R fmempty = Inr nxt" by blast
  note keep = nextTable_entries [OF n d]
  have carry: "carried (gvSha v) ?sid ?t g = e" if "g \<in> set ?R" "fmlookup ?t (RouteID (grRoute g)) = Some e" for g e
    using self [OF that] that(2) by (simp add: carried_def)
  have look: "fmlookup nxt k = fmlookup ?t k" if k: "k |\<in>| fmdom nxt" for k
  proof -
    obtain g where g: "g \<in> set ?R" "RouteID (grRoute g) = k"
      using iffD1 [OF keep(1) k] by (elim exE conjE)
    obtain j e where e: "fmlookup ?t j = Some e" "geRoute e = g" using g(1) unfolding mem by blast
    then have "j = k" using own [OF e(1)] g(2) by simp
    with e(1) have "fmlookup ?t k = Some e" by simp
    then show ?thesis using keep(2) [OF g(1)] carry [OF g(1)] g(2) by simp
  qed
  have "k |\<in>| fmdom nxt \<longleftrightarrow>
      (\<exists>e. k |\<in>| fmdom (rnDesired r) \<and> fmlookup ?t k = Some e \<and> gePhase e \<noteq> RouteFailed)" for k
  proof
    assume "k |\<in>| fmdom nxt"
    then obtain g where g: "g \<in> set ?R" "RouteID (grRoute g) = k" using iffD1 [OF keep(1)] by blast
    obtain j e where e: "j |\<in>| fmdom (rnDesired r)" "fmlookup ?t j = Some e" "gePhase e \<noteq> RouteFailed" "geRoute e = g"
      using g(1) unfolding mem by blast
    moreover have "j = k" using own [OF e(2)] e(4) g(2) by simp
    ultimately show "\<exists>e. k |\<in>| fmdom (rnDesired r) \<and> fmlookup ?t k = Some e \<and> gePhase e \<noteq> RouteFailed" by blast
  next
    assume "\<exists>e. k |\<in>| fmdom (rnDesired r) \<and> fmlookup ?t k = Some e \<and> gePhase e \<noteq> RouteFailed"
    then obtain e where e: "k |\<in>| fmdom (rnDesired r)" "fmlookup ?t k = Some e" "gePhase e \<noteq> RouteFailed" by blast
    then have "geRoute e \<in> set ?R" unfolding mem by blast
    then show "k |\<in>| fmdom nxt" using iffD2 [OF keep(1)] own [OF e(2)] by blast
  qed
  also have "\<dots> k \<longleftrightarrow> k |\<in>| ffilter (\<lambda>k. gePhase (entryOf ?t k) \<noteq> RouteFailed \<and> k |\<in>| fmdom (rnDesired r)) (fmdom ?t)" for k
  proof (cases "fmlookup ?t k")
    case None
    then show ?thesis by (simp add: fmlookup_dom_iff)
  next
    case (Some e)
    then have "k |\<in>| fmdom ?t" "entryOf ?t k = e" by (auto simp: entryOf_def intro: fmdomI)
    then show ?thesis using Some by auto
  qed
  finally have dom: "fmdom nxt = ffilter (\<lambda>k. gePhase (entryOf ?t k) \<noteq> RouteFailed \<and> k |\<in>| fmdom (rnDesired r)) (fmdom ?t)"
    by (intro fset_eqI)
  show ?thesis by (rule that [OF n dom look])
qed

text \<open>
  A session that is being replaced only loses routes: what the runner gives it while it rotates is
  never refused, adds no table entry, and leaves of the entries that stay the same proxy name, route,
  generation, phase and errors; only a route still waiting for the registration window may be released.
  Routes that failed there, or that are desired no longer, are gone from it.
\<close>

lemma rotating_session_only_loses:
  assumes "\<not> gsStopped s" and ok: "table_ok (gvSha v) (gsSessionID s) (gsRoutes s)" and keyed: "keyedTable (rnDesired r)"
  shows "fst (updateTable v (retainRoutes (RouteStates s) (desiredRoutesLocked r)) now s) = None \<and>
    fmdom (gsRoutes (snd (updateTable v (retainRoutes (RouteStates s) (desiredRoutesLocked r)) now s))) =
      ffilter (\<lambda>k. gePhase (entryOf (gsRoutes s) k) \<noteq> RouteFailed \<and> k |\<in>| fmdom (rnDesired r)) (fmdom (gsRoutes s)) \<and>
    fBall (fmdom (gsRoutes (snd (updateTable v (retainRoutes (RouteStates s) (desiredRoutesLocked r)) now s))))
      (\<lambda>k. entryOf (gsRoutes (snd (updateTable v (retainRoutes (RouteStates s) (desiredRoutesLocked r)) now s))) k \<in>
        {entryOf (gsRoutes s) k, (entryOf (gsRoutes s) k)\<lparr>geReleased := True\<rparr>})"
proof -
  obtain nxt where n: "nextTable (gvSha v) (gsSessionID s) (gsRoutes s)
      (retainRoutes (RouteStates s) (desiredRoutesLocked r)) fmempty = Inr nxt"
    and dom: "fmdom nxt = ffilter (\<lambda>k. gePhase (entryOf (gsRoutes s) k) \<noteq> RouteFailed \<and> k |\<in>| fmdom (rnDesired r)) (fmdom (gsRoutes s))"
    and look: "\<And>k. k |\<in>| fmdom nxt \<Longrightarrow> fmlookup nxt k = fmlookup (gsRoutes s) k"
    using retained_next [OF ok keyed] by blast
  have "entryOf (snd (releaseWindowLocked now nxt)) k \<in> {entryOf (gsRoutes s) k, (entryOf (gsRoutes s) k)\<lparr>geReleased := True\<rparr>}"
    if "k |\<in>| fmdom nxt" for k
  proof -
    have "entryOf nxt k = entryOf (gsRoutes s) k" using look [OF that] by (simp add: entryOf_def)
    then show ?thesis using released_entry [OF that, of now] by auto
  qed
  moreover have "fmdom (snd (releaseWindowLocked now nxt)) = fmdom nxt" by (simp add: releaseWindow_eq)
  ultimately show ?thesis using updateTable_lands [OF assms(1) n] dom by (simp add: notify_def)
qed

text \<open>
  But it does register: a route of the rotating session that is still queued behind the registration window
  is released by the very update that only withdraws, and goes to FRP with the next push.
\<close>

lemma rotating_session_still_registers:
  assumes "\<not> gsStopped s" and ok: "table_ok (gvSha v) (gsSessionID s) (gsRoutes s)" and keyed: "keyedTable (rnDesired r)"
    and all: "fmdom (gsRoutes s) |\<subseteq>| fmdom (rnDesired r)" "\<And>k. k |\<in>| fmdom (gsRoutes s) \<Longrightarrow> gePhase (entryOf (gsRoutes s) k) \<noteq> RouteFailed"
    and w: "waitingRoutes (gsRoutes s) = k # ks" "windowLoadLocked (gsRoutes s) now = (i, p)" "i < 16" "p < 32"
  shows "\<not> geReleased (entryOf (gsRoutes s) k) \<and>
    geReleased (entryOf (gsRoutes (snd (updateTable v (retainRoutes (RouteStates s) (desiredRoutesLocked r)) now s))) k)"
proof -
  obtain nxt where n: "nextTable (gvSha v) (gsSessionID s) (gsRoutes s)
      (retainRoutes (RouteStates s) (desiredRoutesLocked r)) fmempty = Inr nxt"
    and dom: "fmdom nxt = ffilter (\<lambda>k. gePhase (entryOf (gsRoutes s) k) \<noteq> RouteFailed \<and> k |\<in>| fmdom (rnDesired r)) (fmdom (gsRoutes s))"
    and look: "\<And>k. k |\<in>| fmdom nxt \<Longrightarrow> fmlookup nxt k = fmlookup (gsRoutes s) k"
    using retained_next [OF ok keyed] by blast
  have "fmdom nxt = fmdom (gsRoutes s)" unfolding dom using all by (auto intro: fset_eqI)
  then have "nxt = gsRoutes s" using look by (intro fmap_ext) (metis fmdom_notD)
  moreover have "k \<in> set (waitingRoutes (gsRoutes s))" using w(1) by simp
  then have "k |\<in>| fmdom (gsRoutes s)" "\<not> geReleased (entryOf (gsRoutes s) k)"
    by (auto simp: waitingRoutes_def Let_def)
  moreover have "k \<in> set (take (min (16 - i) (32 - p)) (waitingRoutes (gsRoutes s)))"
    using w by (cases "min (16 - i) (32 - p)") auto
  ultimately show ?thesis
    using updateTable_lands [OF assms(1) n] w
    by (simp add: notify_def releaseWindow_eq releasedTable_entry releaseQuota_def)
qed

section \<open>Witnesses\<close>

definition wRunner :: runner where "wRunner = newRunner [wRoute ''web'']"

lemma wRunner_desired: "rnDesired wRunner = fmupd ''web'' (wRoute ''web'') fmempty" "rnRestarts wRunner = fmempty"
  by (simp_all add: wRunner_def newRunner_def wRoute_def)

lemma sorted_one: "sorted_list_of_fset {|x|} = [x]"
  by (simp add: sorted_list_of_fset.rep_eq)

lemma wRunner_routes: "desiredRoutesLocked wRunner = [wGroupRoute ''web'' 0]"
  by (simp add: desiredRoutesLocked_def wRunner_desired sorted_one restartOf_def wGroupRoute_def)

definition wRestarted :: runner where "wRestarted = bump ''web'' wRunner"

lemma wRestarted_routes: "desiredRoutesLocked wRestarted = [wGroupRoute ''web'' 1]"
  by (simp add: wRestarted_def desiredRoutesLocked_def wRunner_desired sorted_one restartOf_def bump_def wGroupRoute_def)

lemma wRunner_run: "runnerRun 0 {wGroupRoute ''web'' 0} wRunner"
  using runnerRun.created [of "[wRoute ''web'']"] wRunner_routes by (simp add: wRunner_def)

lemma wRestarted_run: "runnerRun 1 {wGroupRoute ''web'' 0, wGroupRoute ''web'' 1} wRestarted"
proof -
  have "restartDesired ''web'' wRunner = (None, wRestarted)"
    by (simp add: restartDesired_def wRestarted_def wRunner_desired)
  from runnerRun.restarts [OF wRunner_run this] show ?thesis by (simp add: wRestarted_routes insert_commute)
qed

text \<open>A run that moves the route to another local port.\<close>

definition wMoved :: LocalHTTPRoute where "wMoved = (wRoute ''web'')\<lparr>LocalPort := 9090\<rparr>"

lemma generation_identifies_witness:
  "\<exists>r g. setDesired [wMoved] wRunner = (None, r) \<and> desiredRoutesLocked r = [g] \<and> grRoute g = wMoved \<and>
     grGeneration g \<noteq> grGeneration (wGroupRoute ''web'' 0)"
proof -
  have id: "RouteID wMoved = ''web''" "ResourcePublicKey (wRoute ''web'') = ResourcePublicKey wMoved"
    "ConnectorRoutingID (wRoute ''web'') = ConnectorRoutingID wMoved" by (simp_all add: wMoved_def wRoute_def)
  have "setNext (rnDesired wRunner) [wMoved] fmempty = Inr (fmupd ''web'' wMoved fmempty)"
    by (simp add: id wRunner_desired)
  then obtain r where r: "setDesired [wMoved] wRunner = (None, r)" and d: "rnDesired r = fmupd ''web'' wMoved fmempty"
    by (simp add: setDesired_def Let_def)
  obtain g where g: "desiredRoutesLocked r = [g]" "grRoute g = wMoved"
    using d by (simp add: desiredRoutesLocked_def sorted_one)
  have run: "runnerRun (Suc 0) ({wGroupRoute ''web'' 0} \<union> set (desiredRoutesLocked r)) r"
    by (rule runnerRun.sets [OF wRunner_run r])
  have n: "Suc 0 < 2 ^ 64" by simp
  have "grGeneration g \<noteq> grGeneration (wGroupRoute ''web'' 0)"
  proof
    assume "grGeneration g = grGeneration (wGroupRoute ''web'' 0)"
    then have "g = wGroupRoute ''web'' 0"
      using generation_identifies [OF run n, of g "wGroupRoute ''web'' 0"] g by (simp add: wGroupRoute_def wMoved_def wRoute_def)
    then show False using g(2) by (simp add: wGroupRoute_def wMoved_def wRoute_def)
  qed
  then show ?thesis using r g by blast
qed

lemma wSession_ok: "\<not> gsStopped wSession" "table_ok wSha 5 (gsRoutes wSession)" "gsSessionID wSession = 5"
  by (simp_all add: wSession_def table_ok_def wTable_keys freshEntry_def wGroupRoute_def wRoute_def)

theorem desired_set_lands_witness:
  "fst (updateTable wGroupEnv (desiredRoutesLocked wRestarted) 0 wSession) = None \<and>
   geRoute (entryOf (gsRoutes (snd (updateTable wGroupEnv (desiredRoutesLocked wRestarted) 0 wSession))) ''web'') =
     wGroupRoute ''web'' 1"
proof -
  have n: "(1::nat) < 2 ^ 64" by simp
  have ok: "table_ok (gvSha wGroupEnv) (gsSessionID wSession) (gsRoutes wSession)" "sha256_ok (gvSha wGroupEnv)"
    using wSession_ok wSha_ok by (simp_all add: wGroupEnv_def)
  have r: "geRoute (entryOf (gsRoutes wSession) k) = wGroupRoute ''web'' 0" if "k |\<in>| fmdom (gsRoutes wSession)" for k
    using that by (auto simp: wSession_def wTable_keys freshEntry_def)
  have d: "digestSuffix wSha (generationDiscriminator 0 5) \<noteq> digestSuffix wSha (generationDiscriminator 1 5)"
    by (simp add: generationDiscriminator_def sessionProxyDiscriminator_def fmtUint36.simps digit36_def digestSuffix_def wSha_def
        proxyHashSuffixLen_def hexEncode_def hexDigit_def byteOf_def)
  show ?thesis
    using desired_set_lands [OF wRestarted_run n wSession_ok(1) ok(1) _ ok(2), of 0] r d
    by (auto simp: wRestarted_routes wGroupEnv_def wSession_ok wGroupRoute_def wRoute_def)
qed

lemma rotating_session_only_loses_witness:
  "fst (updateTable wGroupEnv (retainRoutes (RouteStates wSession) (desiredRoutesLocked wRestarted)) 0 wSession) = None \<and>
   geRoute (entryOf (gsRoutes (snd (updateTable wGroupEnv (retainRoutes (RouteStates wSession) (desiredRoutesLocked wRestarted)) 0 wSession))) ''web'') =
     wGroupRoute ''web'' 0"
proof -
  have k: "keyedTable (rnDesired wRestarted)" "fmdom (rnDesired wRestarted) = {|''web''|}"
    by (simp_all add: wRestarted_def wRunner_desired keyedTable_def wRoute_def)
  have ok: "table_ok (gvSha wGroupEnv) (gsSessionID wSession) (gsRoutes wSession)"
    using wSession_ok by (simp add: wGroupEnv_def)
  have w: "fmdom (gsRoutes wSession) = {|''web''|}" "entryOf (gsRoutes wSession) ''web'' = freshEntry wSha 5 (wGroupRoute ''web'' 0)"
    by (simp_all add: wSession_def wTable_keys)
  let ?u = "updateTable wGroupEnv (retainRoutes (RouteStates wSession) (desiredRoutesLocked wRestarted)) 0 wSession"
  note lost = rotating_session_only_loses [OF wSession_ok(1) ok k(1), of 0]
  have "''web'' |\<in>| fmdom (gsRoutes (snd ?u))"
    unfolding conjunct1 [OF conjunct2 [OF lost]] using w k(2) by (simp add: freshEntry_def)
  then have "geRoute (entryOf (gsRoutes (snd ?u)) ''web'') = geRoute (entryOf (gsRoutes wSession) ''web'')"
    using conjunct2 [OF conjunct2 [OF lost]] by fastforce
  then show ?thesis using lost w by simp
qed

end
