(* ===== verification/Group_Run_Props.thy ===== *)
theory Group_Run_Props
  imports Group_Run Group_Runner_Props "HOL-Library.Multiset"
begin

text \<open>
  The books of a run: which admissions it obtained, which it retired or handed to the drain set, and which
  it still holds. Every operation of \<open>Run\<close> keeps them balanced. Then the gate of promotion, and the end of
  the attempts at a replacement.
\<close>

section \<open>The books\<close>

fun openedBy :: "call \<Rightarrow> Admission multiset" where
  "openedBy (CAdmitted a) = {#a#}"
| "openedBy _ = {#}"

fun closedBy :: "call \<Rightarrow> Admission multiset" where
  "closedBy (CRetire a) = {#a#}"
| "closedBy (CDrain a) = {#a#}"
| "closedBy _ = {#}"

definition opened :: "call list \<Rightarrow> Admission multiset" where
  "opened cs = sum_list (map openedBy cs)"

definition closed :: "call list \<Rightarrow> Admission multiset" where
  "closed cs = sum_list (map closedBy cs)"

lemma opened_simps [simp]:
  "opened [] = {#}" "opened (c # cs) = openedBy c + opened cs" "opened (cs @ ds) = opened cs + opened ds"
  by (simp_all add: opened_def)

lemma closed_simps [simp]:
  "closed [] = {#}" "closed (c # cs) = closedBy c + closed cs" "closed (cs @ ds) = closed cs + closed ds"
  by (simp_all add: closed_def)

lemma quiet:
  "(\<And>c. c \<in> set cs \<Longrightarrow> openedBy c = {#}) \<Longrightarrow> opened cs = {#}"
  "(\<And>c. c \<in> set cs \<Longrightarrow> closedBy c = {#}) \<Longrightarrow> closed cs = {#}"
  by (induction cs) simp_all

lemma map_books [simp]:
  "opened (map (\<lambda>(k, e). CRouteFailed k e) xs) = {#}" "closed (map (\<lambda>(k, e). CRouteFailed k e) xs) = {#}"
  "opened (map (\<lambda>k. CRouteFailed k (f k)) ks) = {#}" "closed (map (\<lambda>k. CRouteFailed k (f k)) ks) = {#}"
  "opened (map (\<lambda>k. CRouteServing k a) ks) = {#}" "closed (map (\<lambda>k. CRouteServing k a) ks) = {#}"
  by (rule quiet; auto)+

text \<open>What was obtained, what was given up, what the active cycle holds.\<close>

type_synonym ledger = "Admission multiset \<times> Admission multiset \<times> Admission option"

definition books :: "'w runState \<Rightarrow> ledger" where
  "books s = (opened (ruTrace s), closed (ruTrace s), map_option cyAdmission (ruActive s))"

lemma books_upd [simp]:
  "books (s\<lparr>ruWorld := w\<rparr>) = books s" "books (s\<lparr>ruRunner := r\<rparr>) = books s" "books (s\<lparr>ruPending := p\<rparr>) = books s"
  "books (s\<lparr>ruRunner := r, ruWorld := w\<rparr>) = books s" "books (s\<lparr>ruWorld := w, ruRunner := r\<rparr>) = books s"
  by (simp_all add: books_def)

lemma callers_books [simp]: "books (callers oo s) = books s"
  by (simp add: callers_def split: prod.split)

lemma updateLive_books: "updateLive oo l sid rs s = (e, s') \<Longrightarrow> books s' = books s"
  by (auto simp: updateLive_def split: prod.splits)

lemma applyDesired_result: "applyDesired oo s = (e, s') \<Longrightarrow> books s' = books s"
  by (auto simp: applyDesired_def Let_def split: prod.splits option.splits if_splits dest!: updateLive_books)

lemma applyDesired_books [simp]: "books (snd (applyDesired oo s)) = books s"
  by (cases "applyDesired oo s") (simp add: applyDesired_result)

lemma healDivergence_books [simp]: "books (healDivergence oo s) = books s"
proof -
  have "books (snd (applyAndWake oo s)) = books s" for s :: "'a runState"
    by (auto simp: applyAndWake_def split: prod.splits option.splits dest!: applyDesired_result)
  then show ?thesis by (simp add: healDivergence_def)
qed

lemma logCalls_books: "opened cs = {#} \<Longrightarrow> closed cs = {#} \<Longrightarrow> books (logCalls cs s) = books s"
  by (simp add: books_def logCalls_def)

lemma withdrawGone_books [simp]: "books (withdrawGone oo cfg states s) = books s"
  by (simp add: withdrawGone_def Let_def logCalls_books)

text \<open>What a measurement leaves of a cycle.\<close>

definition cycleCore :: "cycle \<Rightarrow> Admission \<times> nat \<times> time" where
  "cycleCore c = (cyAdmission c, cySession c, cyExpiresAt c)"

lemma cycleCore_upd [simp]:
  "cycleCore (c\<lparr>cyCapReported := i\<rparr>) = cycleCore c" "cycleCore (c\<lparr>cyCapReportedNeed := d\<rparr>) = cycleCore c"
  "cycleCore (c\<lparr>cyFirstServingAt := t\<rparr>) = cycleCore c" "cycleCore (c\<lparr>cyHighWater := n\<rparr>) = cycleCore c"
  "cycleCore (c\<lparr>cyMeasured := b\<rparr>) = cycleCore c" "cycleCore (c\<lparr>cyAdded := K\<rparr>) = cycleCore c"
  "cycleCore (c\<lparr>cyAddedStarted := t\<rparr>) = cycleCore c" "cycleCore (c\<lparr>cyAddedSingleton := t\<rparr>) = cycleCore c"
  "cycleCore (c\<lparr>cyAddedHighWater := n\<rparr>) = cycleCore c" "cycleCore (c\<lparr>cyAddedFirst := n\<rparr>) = cycleCore c"
  "cycleCore (c\<lparr>cyAddedPerRoute := d\<rparr>) = cycleCore c"
  by (simp_all add: cycleCore_def)

lemma capturePending_core [simp]: "cycleCore (capturePending c states now) = cycleCore c"
  by (simp add: capturePending_def Let_def cycleCore_def)

lemma addedGrowth_core [simp]: "cycleCore (fst (addedGrowth n now c m)) = cycleCore c"
  by (simp add: addedGrowth_def Let_def)

lemma addedRegistration_core [simp]: "cycleCore (fst (observeAddedRegistration c states now m)) = cycleCore c"
  by (simp add: observeAddedRegistration_def Let_def split_beta)

lemma observe_core [simp]: "cycleCore (fst (observeRegistration c states now m)) = cycleCore c"
  by (simp add: observeRegistration_def Let_def if_distrib [of cycleCore] if_distrib [of fst] split_beta cong: if_cong)

lemma observe_result: "observeRegistration c states now m = (c', m') \<Longrightarrow> cycleCore c' = cycleCore c"
  using observe_core [of c states now m] by simp

lemma observeNow_keeps: "observeNow oo states c s = (c', s') \<Longrightarrow> cycleCore c' = cycleCore c \<and> books s' = books s"
  by (auto simp: observeNow_def Let_def split: prod.splits dest: observe_result)

lemma clearPending_books [simp]: "books (clearPending c s) = books s"
  by (simp add: clearPending_def)

lemma reportNotServing_books [simp]: "books (reportNotServing oo cfg old states s) = books s"
  by (simp add: reportNotServing_def logCalls_books)

lemma stopCall_books: "stopCall oo cfg sid s = (e, s') \<Longrightarrow> books s' = books s"
  by (auto simp: stopCall_def logCalls_def books_def split: prod.splits)

text \<open>Retiring an admission.\<close>

definition retiredBooks :: "Admission \<Rightarrow> ledger \<Rightarrow> ledger" where
  "retiredBooks a b = (case b of (p, q, h) \<Rightarrow> (p, add_mset a q, h))"

lemma retireCall_books: "retireCall oo cfg a s = (e, s') \<Longrightarrow> books s' = retiredBooks a (books s)"
  by (auto simp: retireCall_def logCalls_def books_def retiredBooks_def split: prod.splits)

lemma failCycle_books: "failCycle oo cfg c x s = (e, s') \<Longrightarrow> books s' = retiredBooks (cyAdmission c) (books s)"
  by (auto simp: failCycle_def Let_def split: prod.splits dest!: stopCall_books retireCall_books)

lemma stopCycle_books: "stopCycle oo cfg (Some c) s = (e, s') \<Longrightarrow> books s' = retiredBooks (cyAdmission c) (books s)"
  by (auto simp: stopCycle_def Let_def split: prod.splits dest!: stopCall_books retireCall_books)

section \<open>Starting\<close>

text \<open>
  How a start leaves the books: a cycle that comes out holds the admission it was started with, one that
  fails has given it up.
\<close>

definition startBooks :: "cycle \<Rightarrow> cycle res \<Rightarrow> ledger \<Rightarrow> ledger \<Rightarrow> bool" where
  "startBooks c r b b' = (case r of
      Inl x \<Rightarrow> b' = retiredBooks (cyAdmission c) b
    | Inr c' \<Rightarrow> b' = b \<and> cycleCore c' = cycleCore c)"

lemma startBooks_core: "cycleCore c = cycleCore d \<Longrightarrow> startBooks c r b b' = startBooks d r b b'"
  by (auto simp: startBooks_def cycleCore_def split: sum.splits)

lemma startBooks_served: "cycleCore c1 = cycleCore c \<Longrightarrow> b' = b \<Longrightarrow> startBooks c (Inr c1) b b'"
  by (simp add: startBooks_def)

lemma failing_books: "map_prod Inl id (failCycle oo cfg c x s) = (r, s') \<Longrightarrow> startBooks c r (books s) (books s')"
  by (cases "failCycle oo cfg c x s") (auto simp: startBooks_def dest: failCycle_books)

lemma readyDecision_books: "readyDecision oo cfg old c x s = (r, s') \<Longrightarrow> startBooks c r (books s) (books s')"
proof -
  assume r: "readyDecision oo cfg old c x s = (r, s')"
  let ?states = "goStates oo (cySession c) (ruWorld s)"
  let ?w = "withdrawGone oo cfg ?states s"
  obtain c1 s1 where o: "observeNow oo ?states c ?w = (c1, s1)" by (metis surj_pair)
  then have core: "cycleCore c1 = cycleCore c" "books s1 = books s" using observeNow_keeps by fastforce+
  consider "map_prod Inl id (failCycle oo cfg c (Some (Sentinel SGroupEmpty)) ?w) = (r, s')"
    | "r = Inr c1" "s' = reportNotServing oo cfg old ?states s1"
    | "map_prod Inl id (failCycle oo cfg c1 (Some x) s1) = (r, s')"
    using r o by (auto simp: readyDecision_def Let_def split: if_splits)
  then show ?thesis
  proof cases
    case 1
    then show ?thesis using failing_books by fastforce
  next
    case 2
    then show ?thesis using core by (simp add: startBooks_def)
  next
    case 3
    then show ?thesis using failing_books startBooks_core [OF core(1)] core(2) by metis
  qed
qed

lemma readyLoop_books: "readyLoop n oo cfg old deadline c s = (r, s') \<Longrightarrow> startBooks c r (books s) (books s')"
proof (induction n arbitrary: c s)
  case (0 c s)
  let ?states = "goStates oo (cySession c) (ruWorld s)"
  let ?w = "withdrawGone oo cfg ?states s"
  obtain c1 s1 where o: "observeNow oo ?states c ?w = (c1, s1)" by (metis surj_pair)
  then have core: "cycleCore c1 = cycleCore c" "books s1 = books s" using observeNow_keeps by fastforce+
  show ?case
    using 0 o core(2) startBooks_served [OF core]
    by (subst (asm) readyLoop.simps)
      (auto simp: Let_def startBooks_core [OF core(1)] split: if_splits prod.splits readyEnd.splits
        dest!: failing_books readyDecision_books)
next
  case (Suc n c s)
  let ?states = "goStates oo (cySession c) (ruWorld s)"
  let ?w = "withdrawGone oo cfg ?states s"
  obtain c1 s1 where o: "observeNow oo ?states c ?w = (c1, s1)" by (metis surj_pair)
  then have core: "cycleCore c1 = cycleCore c" "books s1 = books s" using observeNow_keeps by fastforce+
  have ih: "startBooks c r (books s) (books s')"
    if "readyLoop n oo cfg old deadline c1 (callers oo (s1\<lparr>ruWorld := w\<rparr>)) = (r, s')" for w
    using Suc.IH [OF that] core startBooks_core [OF core(1)] by simp
  show ?case
    using Suc.prems o core(2) ih startBooks_served [OF core]
    by (subst (asm) readyLoop.simps)
      (auto simp: Let_def split: if_splits prod.splits dest!: failing_books)
qed

text \<open>An attempt.\<close>

definition attemptBooks :: "cycle res \<Rightarrow> ledger \<Rightarrow> ledger \<Rightarrow> bool" where
  "attemptBooks r b b' = (case b of (p, q, h) \<Rightarrow> (case r of
      Inl x \<Rightarrow> (\<exists>A. b' = (p + A, q + A, h))
    | Inr c \<Rightarrow> (\<exists>A. b' = (add_mset (cyAdmission c) (p + A), q + A, h))))"

lemma attempt_refl [intro]: "attemptBooks (Inl x) b b"
  by (cases b) (auto simp: attemptBooks_def intro: exI [of _ "{#}"])

lemma attempt_opened: "books (logCalls [CAdmitted a] s) = (case books s of (p, q, h) \<Rightarrow> (add_mset a p, q, h))"
  by (simp add: books_def logCalls_def)

lemma attempt_retired: "attemptBooks (Inl x) (books s) (retiredBooks a (books (logCalls [CAdmitted a] s)))"
  by (auto simp: attemptBooks_def attempt_opened retiredBooks_def split: prod.splits intro: exI [of _ "{#a#}"])

lemma attempt_started:
  assumes "startBooks (newCycle a sid t rs) r (books (logCalls [CAdmitted a] s)) b'"
  shows "attemptBooks r (books s) b'"
proof (cases r)
  case (Inl x)
  then show ?thesis using assms attempt_retired [of x s a] by (simp add: startBooks_def newCycle_def)
next
  case (Inr c)
  then have "cyAdmission c = a" "b' = books (logCalls [CAdmitted a] s)"
    using assms by (simp_all add: startBooks_def cycleCore_def newCycle_def)
  then show ?thesis using Inr
    by (auto simp: attemptBooks_def attempt_opened split: prod.splits intro: exI [of _ "{#}"])
qed

lemma startAdmitted_books:
  assumes r: "startAdmitted oo cfg old started ad s1 = (r, s')" and b: "books s1 = books (logCalls [CAdmitted ad] s)"
  shows "attemptBooks r (books s) (books s')"
proof -
  let ?routes = "desiredRoutesLocked (ruRunner s1)"
  obtain sess w where st: "goStart oo (map_option cyExpiresAt old) ad ?routes (ruWorld s1) = (sess, w)" by (metis surj_pair)
  have retired: "attemptBooks (Inl x) (books s) (books s')" if "retireCall oo cfg ad u = (e, s')" "books u = books s1" for u e x
    using retireCall_books [OF that(1)] that(2) b attempt_retired [of x s ad] by simp
  have ready: "attemptBooks r (books s) (books s')"
    if "readyLoop n oo cfg old dl (newCycle ad sid t ?routes) u = (r, s')" "books u = books s1" for n dl sid t u
    using readyLoop_books [OF that(1)] that(2) b attempt_started [of ad sid t ?routes r s "books s'"] by simp
  show ?thesis
  proof (cases "validateAdmission ad (gcKnockResourceID cfg) (gcResourcePublicKey cfg)")
    case (Some x)
    then show ?thesis using r by (auto simp: startAdmitted_def split: prod.splits intro: retired)
  next
    case None
    show ?thesis
    proof (cases sess)
      case (Inl x)
      then show ?thesis using r st None by (auto simp: startAdmitted_def Let_def split: prod.splits intro!: retired)
    next
      case (Inr sid)
      then show ?thesis using r st None by (auto simp: startAdmitted_def Let_def intro!: ready)
    qed
  qed
qed

lemma attempt_books: "startCycleAttempt oo cfg old s = (r, s') \<Longrightarrow> attemptBooks r (books s) (books s')"
  by (auto simp: startCycleAttempt_def Let_def attempt_opened split: if_splits prod.splits sum.splits
      elim!: startAdmitted_books)

lemma attempt_trans:
  "attemptBooks (Inl x) b b1 \<Longrightarrow> attemptBooks r b1 b2 \<Longrightarrow> attemptBooks r b b2"
proof -
  assume a: "attemptBooks (Inl x) b b1" and c: "attemptBooks r b1 b2"
  obtain p q h where b: "b = (p, q, h)" by (cases b)
  then obtain A where b1: "b1 = (p + A, q + A, h)" using a by (auto simp: attemptBooks_def)
  show ?thesis
  proof (cases r)
    case (Inl y)
    then obtain B where "b2 = (p + A + B, q + A + B, h)" using c by (auto simp: attemptBooks_def b1)
    then show ?thesis using Inl by (auto simp: attemptBooks_def b add.assoc)
  next
    case (Inr d)
    then obtain B where "b2 = (add_mset (cyAdmission d) (p + A + B), q + A + B, h)"
      using c by (auto simp: attemptBooks_def b1)
    then show ?thesis using Inr by (auto simp: attemptBooks_def b add.assoc)
  qed
qed

lemma startReady_books: "startReadyCycle n oo cfg old backoff s = Some (r, s') \<Longrightarrow> attemptBooks r (books s) (books s')"
proof (induction n arbitrary: backoff s)
  case (Suc n)
  obtain r1 s1 where a: "startCycleAttempt oo cfg old s = (r1, s1)" by (metis surj_pair)
  note b = attempt_books [OF a]
  show ?case
  proof (cases r1)
    case (Inr c)
    then show ?thesis using Suc.prems a b by simp
  next
    case (Inl x)
    note t = attempt_trans [OF b [unfolded Inl]]
    have ih: "attemptBooks r (books s) (books s')"
      if "startReadyCycle n oo cfg old d (callers oo (u\<lparr>ruWorld := w\<rparr>)) = Some (r, s')" "books u = books s1" for d u w
      using t Suc.IH [OF that(1)] that(2) by simp
    have fin: "attemptBooks (Inl y) (books s) (books s1)" for y
      using b Inl by (cases "books s") (simp add: attemptBooks_def)
    show ?thesis using Suc.prems a Inl ih fin
      by (auto simp: Let_def split: option.splits if_splits prod.splits)
  qed
qed simp

section \<open>The rounds of \<open>Run\<close>\<close>

definition balanced :: "ledger \<Rightarrow> bool" where
  "balanced b = (case b of (p, q, h) \<Rightarrow> p = q + (case h of None \<Rightarrow> {#} | Some a \<Rightarrow> {#a#}))"

lemma balanced_failed: "attemptBooks (Inl x) b b' \<Longrightarrow> balanced b \<Longrightarrow> balanced b' \<and> snd (snd b') = snd (snd b)"
  by (cases b) (auto simp: attemptBooks_def balanced_def)

lemma reportActive_books [simp]: "books (reportActive oo cfg s) = books s"
proof (cases "ruActive s")
  case (Some c)
  let ?states = "goStates oo (cySession c) (ruWorld s)"
  let ?w = "withdrawGone oo cfg ?states s"
  let ?u = "?w\<lparr>ruRunner := markReported ?states (ruRunner ?w)\<rparr>"
  obtain c1 s1 where o: "observeNow oo ?states c ?u = (c1, s1)" by (metis surj_pair)
  then have k: "cycleCore c1 = cycleCore c" "books s1 = books s" using observeNow_keeps by fastforce+
  then have "books (s1\<lparr>ruActive := Some c1\<rparr>) = books s" using Some by (simp add: books_def cycleCore_def)
  then show ?thesis using Some o by (simp add: reportActive_def Let_def logCalls_books)
qed (simp add: reportActive_def)

lemma promote_books: "books (promote oo cfg c s) = (case books s of (p, q, h) \<Rightarrow> (p, q, Some (cyAdmission c)))"
  by (simp add: promote_def Let_def logCalls_books) (simp add: books_def)

lemma armRotation_books: "armRotation cfg c s = (t, s') \<Longrightarrow> ruActive s = Some c \<Longrightarrow>
    books s' = books s \<and> (\<exists>c'. ruActive s' = Some c' \<and> cycleCore c' = cycleCore c)"
proof -
  assume a: "armRotation cfg c s = (t, s')" "ruActive s = Some c"
  obtain t' c' b where r: "rotateAt (gcOnLeadCapped cfg) (gcRotationLead cfg) (ruRunner s) c = (t', c', b)"
    by (metis surj_pair)
  then have "cycleCore c' = cycleCore c" by (auto simp: rotateAt_def Let_def split: prod.splits if_splits)
  then show ?thesis using a r by (auto simp: armRotation_def books_def cycleCore_def logCalls_def Let_def)
qed

lemma drainCall_books: "drainCall oo cfg c s = (e, s') \<Longrightarrow>
    books s' = (if e = None then retiredBooks (cyAdmission c) (books s) else books s)"
  by (auto simp: drainCall_def logCalls_def books_def retiredBooks_def split: prod.splits option.splits)

lemma taken_books: "takeActive s = (c, s') \<Longrightarrow> c = ruActive s \<and> (\<exists>p q h. books s = (p, q, h) \<and> books s' = (p, q, None))"
  by (auto simp: takeActive_def books_def)

lemma setRotating_books [simp]: "books (setRotating b s) = books s"
  by (simp add: setRotating_def)

text \<open>Taking the active cycle and stopping it settles its admission.\<close>

lemma stopped_balanced:
  assumes "takeActive s = (c0, s1)" "stopCycle oo cfg (Some c) s2 = (e, s')" "books s2 = books s1"
    and "balanced (books s)" "snd (snd (books s)) = Some (cyAdmission c)"
  shows "balanced (books s') \<and> snd (snd (books s')) = None"
  using taken_books [OF assms(1)] stopCycle_books [OF assms(2)] assms(3-)
  by (auto simp: balanced_def retiredBooks_def)

lemma rotatePass_balanced:
  assumes "rotatePass n oo cfg backoff active s = Some (r, s')" "balanced (books s)"
    and h: "snd (snd (books s)) = Some (cyAdmission active)"
  shows "balanced (books s')"
proof -
  obtain res s1 where st: "startReadyCycle n oo cfg (Some active) (gcMinBackoff cfg) (setRotating True s) = Some (res, s1)"
    using assms(1) by (auto simp: rotatePass_def split: option.splits)
  note b = startReady_books [OF st]
  show ?thesis
  proof (cases res)
    case (Inl x)
    then have b1: "balanced (books s1)" "snd (snd (books s1)) = Some (cyAdmission active)"
      using balanced_failed b assms(2) h by fastforce+
    have stopped: "balanced (books s')" if "stopCycle oo cfg (Some active) (setRotating False (snd (takeActive (s1\<lparr>ruWorld := w\<rparr>)))) = (e, s')" for w e
      using stopped_balanced [OF _ that, of "s1\<lparr>ruWorld := w\<rparr>"] b1 by (metis books_upd(1) prod.collapse setRotating_books)
    show ?thesis using assms(1) st Inl b1(1)
      by (auto simp: rotatePass_def Let_def split: if_splits prod.splits option.splits dest!: stopped)
  next
    case (Inr c)
    obtain p q where b0: "books s = (p, q, Some (cyAdmission active))" using h by (cases "books s") auto
    then obtain A where b1: "books s1 = (add_mset (cyAdmission c) (p + A), q + A, Some (cyAdmission active))"
      using b Inr by (auto simp: attemptBooks_def)
    obtain e s2 where d: "drainCall oo cfg active s1 = (e, s2)" by (metis surj_pair)
    show ?thesis
    proof (cases e)
      case None
      then have "balanced (books (promote oo cfg c s2))"
        using drainCall_books [OF d] b1 b0 assms(2) by (simp add: promote_books retiredBooks_def balanced_def)
      then show ?thesis using assms(1) st Inr d None by (auto simp: rotatePass_def Let_def)
    next
      case (Some x)
      then have "balanced (books s')" if "failCycle oo cfg c (Some x) s2 = (y, s')" for y
        using failCycle_books [OF that] drainCall_books [OF d] b1 b0 assms(2) by (simp add: retiredBooks_def balanced_def)
      then show ?thesis using assms(1) st Inr d Some by (cases "failCycle oo cfg c (Some x) s2") (auto simp: rotatePass_def)
    qed
  qed
qed

lemma wakePass_balanced:
  assumes "wakePass n oo cfg backoff active s = Some (r, s')" "balanced (books s)" "ruActive s = Some active"
  shows "balanced (books s')"
proof -
  obtain t s1 where a: "armRotation cfg active s = (t, s1)" by (metis surj_pair)
  obtain c1 where c1: "ruActive s1 = Some c1" "cycleCore c1 = cycleCore active" "books s1 = books s"
    using armRotation_books [OF a assms(3)] by blast
  obtain wake w where g: "goSelect oo (cySession active) t (ruWorld s1) = (wake, w)" by (metis surj_pair)
  define s2 where "s2 = callers oo (s1\<lparr>ruWorld := w\<rparr>)"
  have s2: "ruActive s2 = Some c1" "books s2 = books s" using c1 by (simp_all add: s2_def callers_def split: prod.split)
  have h: "snd (snd (books s2)) = Some (cyAdmission active)" "cyAdmission c1 = cyAdmission active"
    using s2(1) c1(2) by (simp_all add: books_def cycleCore_def)
  have stopped: "balanced (books s')" if "stopCycle oo cfg (Some active) (snd (takeActive s2)) = (e, s')" for e
    using stopped_balanced [of s2 _ "snd (takeActive s2)"] that assms(2) h s2(2) by (metis prod.collapse)
  have rot: "balanced (books s')" if "rotatePass n oo cfg backoff c1 s2 = Some (r, s')"
    using rotatePass_balanced [OF that] assms(2) h s2(2) by simp
  show ?thesis
    using assms(1,2) a g s2 rot
    by (cases wake)
      (auto simp: wakePass_def Let_def s2_def [symmetric] takeActive_def split: prod.splits option.splits if_splits
        dest!: stopped [unfolded takeActive_def, simplified])
qed

lemma runPass_balanced:
  assumes "runPass n oo cfg backoff s = Some (r, s')" "balanced (books s)"
  shows "balanced (books s')"
proof (cases "ruActive s")
  case (Some c)
  then show ?thesis using assms wakePass_balanced by (auto simp: runPass_def split: option.splits)
next
  case None
  then have h: "snd (snd (books s)) = None" by (simp add: books_def)
  show ?thesis
  proof (cases "goCtxErr oo (ruWorld s)")
    case (Some x)
    then show ?thesis using assms by (simp add: runPass_def)
  next
    case ctx: None
    obtain res s1 where st: "startReadyCycle 1 oo cfg None (gcMinBackoff cfg) s = Some (res, s1)"
      using assms(1) None ctx by (auto simp: runPass_def split: option.splits)
    note b = startReady_books [OF st]
    show ?thesis
    proof (cases res)
      case (Inl x)
      then have "balanced (books s1)" using balanced_failed b assms(2) by fastforce
      then show ?thesis using assms(1) None ctx st Inl
        by (auto simp: runPass_def split: if_splits prod.splits option.splits)
    next
      case (Inr c)
      obtain p q where "books s = (p, q, None)" using h by (cases "books s") auto
      then have p: "balanced (books (promote oo cfg c s1))"
        using b Inr assms(2) by (auto simp: attemptBooks_def promote_books balanced_def)
      have "ruActive (promote oo cfg c s1) \<noteq> None"
        using promote_books [of oo cfg c s1] by (auto simp: books_def split: prod.splits)
      then obtain a where a: "ruActive (promote oo cfg c s1) = Some a" by blast
      show ?thesis using assms(1) None ctx st Inr p a wakePass_balanced
        by (auto simp: runPass_def Let_def split: if_splits)
    qed
  qed
qed

lemma runCleanup_settles:
  assumes "runCleanup oo cfg x s = (e, s')" "balanced (books s)"
  shows "opened (ruTrace s') = closed (ruTrace s')"
proof (cases "ruActive s")
  case None
  then show ?thesis using assms
    by (auto simp: runCleanup_def takeActive_def stopCycle_def balanced_def books_def split: prod.splits)
next
  case (Some c)
  obtain e1 s1 where st: "stopCycle oo cfg (Some c) (snd (takeActive (s\<lparr>ruWorld := goDrainCancel oo (ruWorld s)\<rparr>))) = (e1, s1)"
    by (metis surj_pair)
  have h: "snd (snd (books s)) = Some (cyAdmission c)" using Some by (simp add: books_def)
  have "balanced (books s1) \<and> snd (snd (books s1)) = None"
    by (rule stopped_balanced [OF _ st, of "s\<lparr>ruWorld := goDrainCancel oo (ruWorld s)\<rparr>"])
      (use assms(2) h in \<open>simp_all add: takeActive_def\<close>)
  then have "opened (ruTrace s1) = closed (ruTrace s1)" by (simp add: balanced_def books_def)
  then show ?thesis using assms(1) Some st by (auto simp: runCleanup_def takeActive_def Let_def split: prod.splits)
qed

lemma runLoop_settles:
  "runLoop m n oo cfg backoff s = Some (e, s') \<Longrightarrow> balanced (books s) \<Longrightarrow> opened (ruTrace s') = closed (ruTrace s')"
proof (induction m arbitrary: backoff s)
  case (Suc m)
  then show ?case
    by (auto split: option.splits pass.splits dest!: runPass_balanced intro: runCleanup_settles)
qed simp

text \<open>
  C5. No admission leaks and none is given up twice: when \<open>Run\<close> returns, whatever its sessions, the
  admitter, the callers and the clock did, the admissions it obtained are exactly the ones it retired or
  handed over to the drain set, each once. This covers refused and invalid admissions, failed starts,
  replacements that never served, rotations and every return of \<open>Run\<close>.
\<close>

theorem run_settles_admissions:
  assumes "Run m n oo cfg running s = Some (e, s')" "ruTrace s = []" "ruActive s = None"
  shows "opened (ruTrace s') = closed (ruTrace s')"
proof -
  have "balanced (books (s\<lparr>ruWorld := w\<rparr>))" for w using assms by (simp add: balanced_def books_def)
  then show ?thesis using assms
    by (auto simp: Run_def split: if_splits prod.splits option.splits intro: runLoop_settles)
qed

section \<open>Promotion\<close>

lemma serving_counts: "phaseIs RouteServing states k \<Longrightarrow> anyRouteServing states"
proof -
  assume k: "phaseIs RouteServing states k"
  then have "k |\<in>| ffilter (phaseIs RouteServing states) (fmdom states)"
    by (auto simp: phaseIs_def intro: fmdomI split: option.splits)
  then show ?thesis unfolding anyRouteServing_def countServing_def by (metis fcard_fempty fcard_seteq fempty_iff fempty_fsubsetI gr0I le_numeral_extra(3) less_or_eq_imp_le)
qed

lemma cycleServing_gate: "cycleServing r states old \<Longrightarrow> anyRouteServing states \<and> notServing r old states = []"
proof -
  assume c: "cycleServing r states old"
  show ?thesis
  proof (cases "routesServedBy r old = {||}")
    case True
    then show ?thesis using c by (simp add: cycleServing_def notServing_def sorted_list_of_fset.rep_eq)
  next
    case False
    then have all: "\<And>k. k |\<in>| routesServedBy r old \<Longrightarrow> phaseIs RouteServing states k"
      using c by (auto simp: cycleServing_def)
    then show ?thesis using False serving_counts
      by (auto simp: notServing_def filter_empty_conv sorted_list_of_fset.rep_eq)
  qed
qed

text \<open>What the gate says of a promoted cycle.\<close>

definition gated :: "'w groupOps \<Rightarrow> groupConfig \<Rightarrow> cycle option \<Rightarrow> routeStates \<Rightarrow> 'w runState \<Rightarrow> bool" where
  "gated oo cfg old states s =
     (let missing = notServing (ruRunner s) (oldStates oo old s) states in
      anyRouteServing states \<and>
      (missing \<noteq> [] \<longrightarrow> old \<noteq> None \<and> (gcOnRouteFailed cfg \<longrightarrow>
         (\<exists>tr. ruTrace s = tr @ map (\<lambda>k. CRouteFailed k (notServingError states k)) missing))))"

lemma failing_never [simp]: "map_prod Inl id p \<noteq> (Inr c, s)"
  by (cases p) simp

lemma readyDecision_gate:
  "readyDecision oo cfg old c x s = (Inr c', s') \<Longrightarrow> gated oo cfg old (goStates oo (cySession c) (ruWorld s)) s'"
  by (auto simp: readyDecision_def Let_def gated_def reportNotServing_def logCalls_def oldStates_def
      split: if_splits prod.splits)

lemma served_gate: "cycleServing (ruRunner s) states (oldStates oo old s) \<Longrightarrow> gated oo cfg old states s"
  by (simp add: gated_def cycleServing_gate Let_def)

lemma observeNow_session: "observeNow oo states c s = (c', s') \<Longrightarrow> cySession c' = cySession c"
  using observeNow_keeps [of oo states c s c' s'] by (simp add: cycleCore_def)

lemma readyLoop_gate: "readyLoop n oo cfg old deadline c s = (Inr c', s') \<Longrightarrow>
    \<exists>w. gated oo cfg old (goStates oo (cySession c) w) s'"
proof (induction n arbitrary: c s)
  case (0 c s)
  then show ?case
    by (subst (asm) readyLoop.simps)
      (auto simp: Let_def observeNow_session dest!: readyDecision_gate intro: served_gate
        split: if_splits prod.splits readyEnd.splits)
next
  case (Suc n c s)
  then show ?case
    by (subst (asm) readyLoop.simps)
      (auto simp: Let_def dest!: Suc.IH observeNow_session intro: served_gate split: if_splits prod.splits)
qed

lemma started_ready: "startCycleAttempt oo cfg old s = (Inr c, s') \<Longrightarrow>
    \<exists>n dl d u. readyLoop n oo cfg old dl d u = (Inr c, s')"
proof -
  have ad: "startAdmitted oo cfg old t a s1 = (Inr c, s') \<Longrightarrow> \<exists>n dl d u. readyLoop n oo cfg old dl d u = (Inr c, s')"
    for t a s1
  proof (cases "validateAdmission a (gcKnockResourceID cfg) (gcResourcePublicKey cfg)")
    case None
    assume r: "startAdmitted oo cfg old t a s1 = (Inr c, s')"
    obtain sess w where st: "goStart oo (map_option cyExpiresAt old) a (desiredRoutesLocked (ruRunner s1)) (ruWorld s1) = (sess, w)"
      by (metis surj_pair)
    then show ?thesis using r None
      by (cases sess) (auto simp: startAdmitted_def Let_def simp del: ex_simps split: prod.splits intro!: exI)
  qed (auto simp: startAdmitted_def split: prod.splits)
  assume "startCycleAttempt oo cfg old s = (Inr c, s')"
  then show ?thesis by (auto simp: startCycleAttempt_def Let_def split: if_splits prod.splits sum.splits intro: ad)
qed


section \<open>The attempts end\<close>

text \<open>The clock \<open>clk\<close> never runs backwards, readings are taken from it, and a retry waits out its delay.\<close>

definition clocked :: "'w groupOps \<Rightarrow> ('w \<Rightarrow> time) \<Rightarrow> bool" where
  "clocked oo clk =
     ((\<forall>w. clk w \<le> fst (goNow oo w) \<and> fst (goNow oo w) \<le> clk (snd (goNow oo w))) \<and>
      (\<forall>l k r w. clk w \<le> clk (snd (goAdmit oo l k r w))) \<and>
      (\<forall>d a w. clk w \<le> clk (snd (goRetire oo d a w))) \<and>
      (\<forall>l a rs w. clk w \<le> clk (snd (goStart oo l a rs w))) \<and>
      (\<forall>i rs w. clk w \<le> clk (snd (goUpdate oo i rs w))) \<and>
      (\<forall>d i w. clk w \<le> clk (snd (goStop oo d i w))) \<and>
      (\<forall>i w. clk w \<le> clk (goChange oo i w)) \<and>
      (\<forall>i t w. clk w \<le> clk (snd (goReady oo i t w))) \<and>
      (\<forall>x d w. clk w \<le> clk (snd (goRetryAfter oo x d w)) \<and>
         (fst (goRetryAfter oo x d w) = None \<longrightarrow> clk w + d \<le> clk (snd (goRetryAfter oo x d w)))) \<and>
      (\<forall>r w. clk w \<le> clk (snd (goCallers oo r w))) \<and>
      (\<forall>rs w. clk w \<le> clk (goRetain oo rs w)))"

definition later :: "('w \<Rightarrow> time) \<Rightarrow> 'w runState \<Rightarrow> 'w runState \<Rightarrow> bool" where
  "later clk s s' = (clk (ruWorld s) \<le> clk (ruWorld s'))"

lemma later_refl [simp]: "later clk s s" by (simp add: later_def)
lemma later_trans: "later clk s s1 \<Longrightarrow> later clk s1 s2 \<Longrightarrow> later clk s s2" by (simp add: later_def)
lemma logCalls_world [simp]: "ruWorld (logCalls cs s) = ruWorld s" by (simp add: logCalls_def)
lemma clearPending_world [simp]: "ruWorld (clearPending c s) = ruWorld s" by (simp add: clearPending_def)

lemma updateLive_later: "clocked oo clk \<Longrightarrow> later clk s (snd (updateLive oo l i rs s))"
  by (simp add: updateLive_def later_def clocked_def split_beta)

lemma applyDesired_later: "clocked oo clk \<Longrightarrow> later clk s (snd (applyDesired oo s))"
  by (auto simp: applyDesired_def Let_def split_beta split: option.splits
      intro: updateLive_later later_trans [OF updateLive_later updateLive_later])

lemma withdrawGone_later: "clocked oo clk \<Longrightarrow> later clk s (withdrawGone oo cfg states s)"
proof -
  assume c: "clocked oo clk"
  let ?u = "s\<lparr>ruRunner := dropGone states (ruRunner s),
    ruWorld := goRetain oo (desiredLocalRoutes (dropGone states (ruRunner s))) (ruWorld s)\<rparr>"
  have "later clk s ?u" using c by (simp add: later_def clocked_def)
  then have "later clk s (snd (applyDesired oo ?u))" using applyDesired_later [OF c] later_trans by blast
  then show ?thesis by (simp add: withdrawGone_def Let_def later_def)
qed

lemma observeNow_later: "clocked oo clk \<Longrightarrow> later clk s (snd (observeNow oo states c s))"
  by (auto simp: observeNow_def Let_def split_beta later_def clocked_def intro: order_trans)

lemma callers_later: "clocked oo clk \<Longrightarrow> later clk s (callers oo s)"
  by (simp add: callers_def split_beta later_def clocked_def)

lemma stopCall_later: "clocked oo clk \<Longrightarrow> later clk s (snd (stopCall oo cfg i s))"
  by (simp add: stopCall_def split_beta later_def clocked_def)

lemma retireCall_later: "clocked oo clk \<Longrightarrow> later clk s (snd (retireCall oo cfg a s))"
  by (simp add: retireCall_def split_beta later_def clocked_def)

lemma failCycle_later:
  assumes "clocked oo clk"
  shows "later clk s (snd (failCycle oo cfg c x s))"
proof -
  have "later clk s (snd (retireCall oo cfg (cyAdmission c) (snd (stopCall oo cfg (cySession c) (clearPending c s)))))"
    using later_trans [OF stopCall_later [OF assms] retireCall_later [OF assms], of "clearPending c s"]
    by (simp add: later_def)
  then show ?thesis by (simp add: failCycle_def Let_def split_beta)
qed

lemma reportNotServing_later: "later clk s (reportNotServing oo cfg old states s)"
  by (simp add: reportNotServing_def later_def)

lemmas run_later = withdrawGone_later observeNow_later callers_later failCycle_later applyDesired_later

lemma snd_map_prod [simp]: "snd (map_prod f id p) = snd p" by (cases p) simp

lemma withdrawObserve_later:
  "clocked oo clk \<Longrightarrow> later clk s (snd (observeNow oo states c (withdrawGone oo cfg states s)))"
  using later_trans [OF withdrawGone_later observeNow_later] by blast

lemma readyDecision_later:
  assumes c: "clocked oo clk"
  shows "later clk s (snd (readyDecision oo cfg old cy x s))"
proof -
  let ?states = "goStates oo (cySession cy) (ruWorld s)"
  let ?w = "withdrawGone oo cfg ?states s"
  obtain c1 s1 where o: "observeNow oo ?states cy ?w = (c1, s1)" by (metis surj_pair)
  have s1: "later clk s s1" using withdrawObserve_later [OF c, of s ?states cy cfg] o by simp
  have "later clk s (snd (failCycle oo cfg cy y ?w))" for y
    using later_trans [OF withdrawGone_later [OF c] failCycle_later [OF c]] .
  moreover have "later clk s (snd (failCycle oo cfg c1 y s1))" for y
    using later_trans [OF s1 failCycle_later [OF c]] .
  moreover have "later clk s (reportNotServing oo cfg old ?states s1)"
    using later_trans [OF s1 reportNotServing_later] .
  ultimately show ?thesis using o by (simp add: readyDecision_def Let_def)
qed

lemma readyLoop_later:
  assumes c: "clocked oo clk"
  shows "later clk s (snd (readyLoop n oo cfg old deadline cy s))"
proof (induction n arbitrary: cy s)
  case (0 cy s)
  let ?states = "goStates oo (cySession cy) (ruWorld s)"
  let ?w = "withdrawGone oo cfg ?states s"
  obtain c1 s1 where o: "observeNow oo ?states cy ?w = (c1, s1)" by (metis surj_pair)
  have s1: "later clk s s1" using withdrawObserve_later [OF c, of s ?states cy cfg] o by simp
  obtain sig w where g: "goReady oo (cySession c1) deadline (ruWorld s1) = (sig, w)" by (metis surj_pair)
  have "\<forall>w. clk w \<le> clk (snd (goReady oo (cySession c1) deadline w))" using c by (simp add: clocked_def)
  from this [rule_format, of "ruWorld s1"] have "later clk s1 (s1\<lparr>ruWorld := w\<rparr>)" using g by (simp add: later_def)
  then have s2: "later clk s (callers oo (s1\<lparr>ruWorld := w\<rparr>))"
    using s1 callers_later [OF c] later_trans by blast
  show ?case
    using o g later_trans [OF withdrawGone_later [OF c] failCycle_later [OF c]] failCycle_later [OF c] s1
      later_trans [OF s2 failCycle_later [OF c]] later_trans [OF s2 readyDecision_later [OF c]]
    by (subst readyLoop.simps) (simp add: Let_def split: readyEnd.split)
next
  case (Suc n cy s)
  let ?states = "goStates oo (cySession cy) (ruWorld s)"
  let ?w = "withdrawGone oo cfg ?states s"
  obtain c1 s1 where o: "observeNow oo ?states cy ?w = (c1, s1)" by (metis surj_pair)
  have s1: "later clk s s1" using withdrawObserve_later [OF c, of s ?states cy cfg] o by simp
  let ?u = "s1\<lparr>ruWorld := goChange oo (cySession c1) (ruWorld s1)\<rparr>"
  have "later clk s1 ?u" using c by (simp add: clocked_def later_def)
  then have s2: "later clk s (callers oo ?u)" using s1 callers_later [OF c] later_trans by blast
  show ?case
    using o later_trans [OF withdrawGone_later [OF c] failCycle_later [OF c]] failCycle_later [OF c] s1
      later_trans [OF s2 Suc.IH]
    by (subst readyLoop.simps) (simp add: Let_def)
qed

lemma startAdmitted_later:
  assumes c: "clocked oo clk"
  shows "later clk s (snd (startAdmitted oo cfg old t a s))"
proof (cases "validateAdmission a (gcKnockResourceID cfg) (gcResourcePublicKey cfg)")
  case (Some x)
  then show ?thesis using retireCall_later [OF c] by (simp add: startAdmitted_def split_beta)
next
  case None
  let ?routes = "desiredRoutesLocked (ruRunner s)"
  obtain sess w where st: "goStart oo (map_option cyExpiresAt old) a ?routes (ruWorld s) = (sess, w)" by (metis surj_pair)
  have "\<forall>w. clk w \<le> clk (snd (goStart oo (map_option cyExpiresAt old) a ?routes w))" using c by (simp add: clocked_def)
  from this [rule_format, of "ruWorld s"] have "later clk s (s\<lparr>ruWorld := w\<rparr>)" using st by (simp add: later_def)
  then have s1: "later clk s (callers oo (s\<lparr>ruWorld := w\<rparr>))" using callers_later [OF c] later_trans by blast
  have ap: "later clk s (snd (applyDesired oo (u\<lparr>ruPending := p\<rparr>)))" if "later clk s u" for u p
    using applyDesired_later [OF c, of "u\<lparr>ruPending := p\<rparr>"] that by (simp add: later_def)
  show ?thesis
    using None st later_trans [OF s1 retireCall_later [OF c]] later_trans [OF ap [OF s1] readyLoop_later [OF c]]
    by (cases sess) (simp_all add: startAdmitted_def Let_def split_beta)
qed

lemma attempt_later:
  assumes c: "clocked oo clk"
  shows "later clk s (snd (startCycleAttempt oo cfg old s))"
proof (cases "desiredCount s = 0")
  case False
  obtain t w where n: "goNow oo (ruWorld s) = (t, w)" by (metis surj_pair)
  obtain a w1 where a: "goAdmit oo (map_option cyExpiresAt old) (gcKnockResourceID cfg) (gcResourcePublicKey cfg) w = (a, w1)"
    by (metis surj_pair)
  have 1: "\<forall>w. clk w \<le> fst (goNow oo w) \<and> fst (goNow oo w) \<le> clk (snd (goNow oo w))"
    and 2: "\<forall>w. clk w \<le> clk (snd (goAdmit oo (map_option cyExpiresAt old) (gcKnockResourceID cfg) (gcResourcePublicKey cfg) w))"
    using c by (simp_all add: clocked_def)
  have "later clk s (s\<lparr>ruWorld := w1\<rparr>)"
    using 1 [rule_format, of "ruWorld s"] 2 [rule_format, of w] n a by (simp add: later_def)
  then have s1: "later clk s (callers oo (s\<lparr>ruWorld := w1\<rparr>))" using callers_later [OF c] later_trans by blast
  then have "later clk s (logCalls cs (callers oo (s\<lparr>ruWorld := w1\<rparr>)))" for cs by (simp add: later_def)
  then show ?thesis
    using False n a s1 later_trans [OF _ startAdmitted_later [OF c]]
    by (cases a) (simp_all add: startCycleAttempt_def Let_def)
qed (simp add: startCycleAttempt_def)

lemma retry_advances:
  assumes c: "clocked oo clk" and rnd: "\<And>w k. 0 < k \<Longrightarrow> 0 \<le> goRnd oo w k \<and> goRnd oo w k < k"
    and b: "0 < backoff" "half \<le> backoff sdiv 2" and left: "0 < expires - now" "now \<le> clk (ruWorld s)"
    and r: "goRetryAfter oo x (min (jitter (goRnd oo (ruWorld s)) backoff) (expires - now)) (ruWorld s) = (None, w)"
  shows "min expires (clk (ruWorld s) + half) \<le> clk (ruWorld (callers oo (s\<lparr>ruWorld := w\<rparr>)))"
proof -
  have j: "half \<le> jitter (goRnd oo (ruWorld s)) backoff"
    using jitter_bounds [of backoff "goRnd oo (ruWorld s)"] rnd b by fastforce
  have "\<forall>x d w. fst (goRetryAfter oo x d w) = None \<longrightarrow> clk w + d \<le> clk (snd (goRetryAfter oo x d w))"
    using c by (simp add: clocked_def)
  from this [rule_format, of x "min (jitter (goRnd oo (ruWorld s)) backoff) (expires - now)" "ruWorld s"]
  have "clk (ruWorld s) + min (jitter (goRnd oo (ruWorld s)) backoff) (expires - now) \<le> clk w" using r by simp
  moreover have "clk w \<le> clk (ruWorld (callers oo (s\<lparr>ruWorld := w\<rparr>)))"
    using callers_later [OF c, of "s\<lparr>ruWorld := w\<rparr>"] by (simp add: later_def)
  ultimately show ?thesis using j left by linarith
qed

lemma startReady_ends:
  assumes c: "clocked oo clk" and rnd: "\<And>w k. 0 < k \<Longrightarrow> 0 \<le> goRnd oo w k \<and> goRnd oo w k < k"
    and m: "0 < low" "low \<le> gcMaxBackoff cfg"
  shows "low \<le> backoff \<Longrightarrow> cyExpiresAt d - clk (ruWorld s) \<le> int n * (low sdiv 2) \<Longrightarrow>
    startReadyCycle (Suc n) oo cfg (Some d) backoff s \<noteq> None"
proof (induction n arbitrary: backoff s)
  case 0
  obtain r s1 where a: "startCycleAttempt oo cfg (Some d) s = (r, s1)" by (metis surj_pair)
  obtain now w where n: "goNow oo (ruWorld s1) = (now, w)" by (metis surj_pair)
  have "\<forall>w. clk w \<le> fst (goNow oo w)" using c by (simp add: clocked_def)
  from this [rule_format, of "ruWorld s1"] have "clk (ruWorld s1) \<le> now" using n by simp
  moreover have "clk (ruWorld s) \<le> clk (ruWorld s1)" using attempt_later [OF c, of s cfg "Some d"] a by (simp add: later_def)
  ultimately have "cyExpiresAt d - now \<le> 0" using 0 by simp
  then show ?case using a n by (cases r) (simp_all add: Let_def)
next
  case (Suc n)
  obtain r s1 where a: "startCycleAttempt oo cfg (Some d) s = (r, s1)" by (metis surj_pair)
  obtain now w where n: "goNow oo (ruWorld s1) = (now, w)" by (metis surj_pair)
  let ?s2 = "s1\<lparr>ruWorld := w\<rparr>"
  have "\<forall>w. clk w \<le> fst (goNow oo w) \<and> fst (goNow oo w) \<le> clk (snd (goNow oo w))" using c by (simp add: clocked_def)
  from this [rule_format, of "ruWorld s1"] have t: "clk (ruWorld s1) \<le> now" "now \<le> clk (ruWorld ?s2)" using n by simp_all
  have t0: "clk (ruWorld s) \<le> clk (ruWorld s1)" using attempt_later [OF c, of s cfg "Some d"] a by (simp add: later_def)
  have half: "low sdiv 2 \<le> backoff sdiv 2" "0 \<le> low sdiv 2"
    using m Suc.prems(1) by (simp_all add: sdiv_half zdiv_mono1)
  have grown: "low \<le> nextBackoff backoff (gcMaxBackoff cfg)"
    using m Suc.prems(1) by (auto simp: nextBackoff_def)
  have again: "startReadyCycle (Suc n) oo cfg (Some d) (nextBackoff backoff (gcMaxBackoff cfg)) (callers oo (s1\<lparr>ruWorld := w'\<rparr>)) \<noteq> None"
    if left: "0 < cyExpiresAt d - now"
      and r: "goRetryAfter oo x (min (jitter (goRnd oo w) backoff) (cyExpiresAt d - now)) w = (None, w')" for x w'
  proof (rule Suc.IH [OF grown])
    have "min (cyExpiresAt d) (clk (ruWorld ?s2) + low sdiv 2) \<le> clk (ruWorld (callers oo (?s2\<lparr>ruWorld := w'\<rparr>)))"
      by (rule retry_advances [OF c rnd _ half(1) left]) (use m Suc.prems(1) t r in simp_all)
    moreover have "0 \<le> int n * (low sdiv 2)" using half by simp
    moreover have "int (Suc n) * (low sdiv 2) = int n * (low sdiv 2) + low sdiv 2" by (simp add: algebra_simps)
    ultimately show "cyExpiresAt d - clk (ruWorld (callers oo (s1\<lparr>ruWorld := w'\<rparr>))) \<le> int n * (low sdiv 2)"
      using Suc.prems(2) t t0 by simp
  qed
  show ?case using a n again
    by (auto simp: Let_def simp del: startReadyCycle.simps(2) split: sum.splits prod.splits option.splits
        simp: startReadyCycle.simps(2) [of "Suc n"])
qed

text \<open>
  C35. The attempts at a replacement end: while the clock does not run backwards, a retry waits out its delay
  and the generator answers in range, \<open>startReadyCycle\<close> returns within one attempt more than the time left
  until the old admission expires divided by half of the smallest backoff.
\<close>

theorem replacement_attempts_end:
  assumes "clocked oo clk" and "\<And>w k. 0 < k \<Longrightarrow> 0 \<le> goRnd oo w k \<and> goRnd oo w k < k"
    and "0 < gcMinBackoff cfg" "gcMinBackoff cfg \<le> gcMaxBackoff cfg"
    and "cyExpiresAt d - clk (ruWorld s) \<le> int n * (gcMinBackoff cfg sdiv 2)"
  shows "\<exists>r s'. startReadyCycle (Suc n) oo cfg (Some d) (gcMinBackoff cfg) s = Some (r, s')"
  using startReady_ends [OF assms(1,2,3,4) order_refl assms(5)] by auto

section \<open>Witnesses\<close>

text \<open>A world that is only its clock, with a session on which the route runs.\<close>

definition wStates :: routeStates where
  "wStates = fmupd ''web'' \<lparr>rsRoute = wGroupRoute ''web'' 0, rsProxyName = ''web-nhp5'', rsPhase = RouteServing, rsErr = None\<rparr> fmempty"

definition wOps :: "time groupOps" where
  "wOps = \<lparr>goNow = (\<lambda>w. (w, w)), goCtxErr = (\<lambda>_. None), goAdmit = (\<lambda>_ _ _ w. (Inr wAdmission, w)),
     goRetire = (\<lambda>_ _ w. (None, w)), goStart = (\<lambda>_ _ _ w. (Inr 0, w)), goUpdate = (\<lambda>_ _ w. (None, w)),
     goStates = (\<lambda>_ _. wStates), goEnded = (\<lambda>_ _. False), goErr = (\<lambda>_ _. None), goStop = (\<lambda>_ _ w. (None, w)),
     goSignals = (\<lambda>_ _ _. 0), goChange = (\<lambda>_ w. w), goReady = (\<lambda>_ _ w. (ReadyEnded, w)),
     goRetryAfter = (\<lambda>_ d w. (None, w + max 0 d)), goRnd = (\<lambda>_ _. 0), goCallers = (\<lambda>r w. (r, w)),
     goDrain = (\<lambda>_ _ _ _ w. (None, w)), goRetain = (\<lambda>_ w. w), goDrainErr = (\<lambda>w. (None, w)), goDrainCancel = (\<lambda>w. w),
     goDrainWait = (\<lambda>_ w. (None, w)), goSelect = (\<lambda>_ _ w. (WakeRoutes, w))\<rparr>"

definition wGroupConfig :: groupConfig where
  "wGroupConfig = \<lparr>gcKnockResourceID = amKnockResourceID wAdmission, gcResourcePublicKey = amResourcePublicKey wAdmission,
     gcHasAdmitter = True, gcHasSessions = True, gcMinBackoff = second, gcMaxBackoff = 30 * second, gcRotationLead = 0,
     gcStopTimeout = 5 * second, gcOnServing = True, gcOnRouteServing = True, gcOnRouteFailed = True, gcOnLeadCapped = True\<rparr>"

definition wRun :: "time runState" where
  "wRun = \<lparr>ruRunner = wRunner, ruActive = None, ruPending = None, ruWorld = 0, ruTrace = []\<rparr>"

text \<open>An admission for another resource, and a caller that gives up while the runner waits to retry.\<close>

definition wMismatch :: groupConfig where "wMismatch = wGroupConfig\<lparr>gcKnockResourceID := ''other''\<rparr>"

definition wGiveUp :: "time groupOps" where
  "wGiveUp = wOps\<lparr>goRetryAfter := (\<lambda>_ _ w. (Some (Sentinel SCanceled), w))\<rparr>"

lemma wOps_quiet [simp]:
  "callers wOps s = s" "callers wGiveUp s = s" "goCtxErr wGiveUp w = None" "goNow wOps w = (w, w)" "goNow wGiveUp w = (w, w)"
  "goAdmit wOps l k r w = (Inr wAdmission, w)" "goAdmit wGiveUp l k r w = (Inr wAdmission, w)"
  "goRetire wOps t a w = (None, w)" "goRetire wGiveUp t a w = (None, w)" "goStart wOps l a rs w = (Inr 0, w)"
  "goUpdate wOps i rs w = (None, w)" "goStates wOps i w = wStates" "goEnded wOps i w = False" "goSignals wOps i t w = 0"
  "goRetryAfter wGiveUp x d w = (Some (Sentinel SCanceled), w)" "goDrainCancel wGiveUp w = w" "goDrainWait wGiveUp t w = (None, w)"
  by (simp_all add: callers_def wGiveUp_def wOps_def)

lemma wRun_fields [simp]: "ruRunner wRun = wRunner" "ruActive wRun = None" "ruPending wRun = None" "ruWorld wRun = 0" "ruTrace wRun = []"
  by (simp_all add: wRun_def)

lemma wRun_world [simp]: "wRun\<lparr>ruWorld := 0\<rparr> = wRun" "wRun\<lparr>ruActive := None\<rparr> = wRun"
  by (simp_all add: wRun_def)

theorem run_settles_admissions_witness:
  "\<exists>e s'. Run 1 1 wGiveUp wMismatch False wRun = Some (e, s') \<and> closed (ruTrace s') = {#wAdmission#}"
proof -
  let ?s = "wRun\<lparr>ruTrace := [CAdmitted wAdmission, CRetire wAdmission]\<rparr>"
  let ?x = "Multi (TMsg ''join'') [NewErr ''NHP admission knock resource does not match'']"
  have d: "desiredCount wRun \<noteq> 0" by (simp add: desiredCount_def wRun_def wRunner_desired)
  have v: "validateAdmission wAdmission (gcKnockResourceID wMismatch) r = Some (NewErr ''NHP admission knock resource does not match'')" for r
    by (simp add: validateAdmission_def wMismatch_def wAdmission_def)
  have st: "startCycleAttempt wGiveUp wMismatch None wRun = (Inl ?x, ?s)"
    using d v by (simp add: startCycleAttempt_def startAdmitted_def retireCall_def logCalls_def
        Let_def errorsJoin_def map_filter_simps)
  have pass: "runPass 1 wGiveUp wMismatch b wRun = Some (Returns (Some (Sentinel SCanceled)), ?s)" for b
    using st by (simp add: runPass_def)
  then obtain e s' where r: "Run 1 1 wGiveUp wMismatch False wRun = Some (e, s')" and o: "opened (ruTrace s') = {#wAdmission#}"
    by (simp add: Run_def runCleanup_def takeActive_def stopCycle_def)
  from run_settles_admissions [OF r wRun_fields(5) wRun_fields(2)] r o show ?thesis by auto
qed

lemma wStates_serving: "anyRouteServing wStates" "goneRoutes wStates r = []"
  by (rule serving_counts [of _ "''web''"], simp add: phaseIs_def wStates_def)
    (simp add: goneRoutes_def wStates_def sorted_one map_filter_simps)

lemma wStarted_cycle: "\<exists>c s'. startCycleAttempt wOps wGroupConfig None wRun = (Inr c, s')"
proof -
  have d: "desiredCount wRun \<noteq> 0" by (simp add: desiredCount_def wRun_def wRunner_desired)
  have valid: "validateAdmission wAdmission (amKnockResourceID wAdmission) (amResourcePublicKey wAdmission) = None"
  proof -
    have "splitHostPort ''h:443'' \<noteq> None" by code_simp
    then show ?thesis by (simp add: validateAdmission_def validateAdmissionReceipt_def wAdmission_def second_def)
  qed
  have ready: "\<exists>c' s'. readyLoop 0 wOps wGroupConfig None t c u = (Inr c', s')" if n: "desiredCount u \<noteq> 0" for t c and u :: "time runState"
  proof -
    obtain c1 s1 where o: "observeNow wOps wStates c u = (c1, s1)" by (metis surj_pair)
    have "withdrawGone wOps wGroupConfig wStates u = u" by (simp add: withdrawGone_def wStates_serving)
    then show ?thesis using n o wStates_serving(1)
      by (subst readyLoop.simps) (simp add: Let_def oldStates_def cycleServing_def routesServedBy_def)
  qed
  show ?thesis
  proof -
    have "\<exists>t c u. startCycleAttempt wOps wGroupConfig None wRun = readyLoop 0 wOps wGroupConfig None t c u \<and> desiredCount u \<noteq> 0"
    proof -
      have "gcKnockResourceID wGroupConfig = amKnockResourceID wAdmission" "gcResourcePublicKey wGroupConfig = amResourcePublicKey wAdmission"
        by (simp_all add: wGroupConfig_def)
      then show ?thesis using d valid
        by (simp add: startCycleAttempt_def startAdmitted_def logCalls_def Let_def applyDesired_def updateLive_def desiredCount_def)
          (intro exI conjI, rule refl, simp)
    qed
    then show ?thesis using ready by metis
  qed
qed


lemma wOps_clocked: "clocked wOps (\<lambda>w. w)"
  by (simp add: clocked_def wOps_def)

theorem replacement_attempts_end_witness:
  "\<exists>r s'. startReadyCycle 61 wOps wGroupConfig (Some (newCycle wAdmission 1 (30 * second) [])) second wRun = Some (r, s')"
proof -
  have g: "gcMinBackoff wGroupConfig = second" "gcMaxBackoff wGroupConfig = 30 * second" by (simp_all add: wGroupConfig_def)
  have "cyExpiresAt (newCycle wAdmission (1::nat) (30 * second) []) - ruWorld wRun \<le> int 60 * (gcMinBackoff wGroupConfig sdiv 2)"
    by (simp add: newCycle_def wRun_def g duration_defs sdiv_half)
  from replacement_attempts_end [OF wOps_clocked _ _ _ this] show ?thesis
    by (simp add: g duration_defs) (simp add: wOps_def)
qed

end
