(* ===== verification/Refresh_Marker.thy ===== *)
theory Refresh_Marker
  imports Go_JSON Go_Errors "HOL-Library.Signed_Division"
begin

text \<open>
  The refresh marker of \<open>pkg/agentstate/refresh_marker.go\<close>: the durable retry schedule of one episode of
  assignment failure, its validation when it is read, and the three writers.

  \<open>encoding/json\<close> turns the file into the members of an object and back; the model starts from the member
  list, so white space and escapes are not in it. A number literal that is not an integer, an array, an
  object or a boolean is \<open>JOther\<close>; decoding null leaves a field as it is. Instants are milliseconds,
  \<open>time.Now().Unix()\<close> the seconds of a reading. The file protocol of \<open>writeRefreshMarker\<close> is an input: a
  write answers an error or none and leaves the old or the new marker.
\<close>

section \<open>Markers\<close>

record RefreshMarker =
  rmVersion :: int
  rmReason :: string
  rmAttemptCount :: uint32
  rmStartedAtUnix :: int
  rmLastAttemptUnixMilli :: millis
  rmNextAttemptUnixMilli :: millis
  rmRefreshSucceededUnixMilli :: millis

definition zeroMarker :: RefreshMarker where
  "zeroMarker = \<lparr>rmVersion = 0, rmReason = '''', rmAttemptCount = 0, rmStartedAtUnix = 0, rmLastAttemptUnixMilli = 0,
     rmNextAttemptUnixMilli = 0, rmRefreshSucceededUnixMilli = 0\<rparr>"

definition refreshMarkerVersion :: int where "refreshMarkerVersion = 3"
definition legacyRefreshMarkerVersion :: int where "legacyRefreshMarkerVersion = 2"
definition refreshMarkerReasonMaxBytes :: nat where "refreshMarkerReasonMaxBytes = 256"
definition refreshRetryInitial :: duration where "refreshRetryInitial = 5 * second"
definition refreshRetryMaximum :: duration where "refreshRetryMaximum = 5 * minute"

section \<open>Retry delays\<close>

text \<open>The loop runs while \<open>i < attempt\<close> from 1 and stops at the maximum.\<close>

fun retryBaseLoop :: "nat \<Rightarrow> duration \<Rightarrow> duration" where
  "retryBaseLoop 0 base = base"
| "retryBaseLoop (Suc n) base =
     (if base < refreshRetryMaximum
      then retryBaseLoop n (if refreshRetryMaximum < base * 2 then refreshRetryMaximum else base * 2)
      else base)"

definition refreshRetryBase :: "uint32 \<Rightarrow> duration" where
  "refreshRetryBase attempt = retryBaseLoop (unat attempt - 1) refreshRetryInitial"

text \<open>\<open>raw\<close> is the random 64-bit value, None when the system has no randomness.\<close>

definition refreshRetryBackoff :: "uint64 option \<Rightarrow> uint32 \<Rightarrow> duration" where
  "refreshRetryBackoff raw attempt =
     (let base = refreshRetryBase attempt; half = base sdiv 2 in
      case raw of None \<Rightarrow> base | Some r \<Rightarrow> half + int (unat r mod nat (base - half + 1)))"

definition durationMillis :: "duration \<Rightarrow> millis" where "durationMillis d = d sdiv 1000000"

section \<open>Reading\<close>

datatype jvalue = JNull | JInt int | JStr string | JOther

definition decodeSigned :: "jvalue \<Rightarrow> int \<Rightarrow> int res" where
  "decodeSigned v old = (case v of
      JNull \<Rightarrow> Inr old
    | JInt n \<Rightarrow> if - (2 ^ 63) \<le> n \<and> n < 2 ^ 63 then Inr n else Inl (NewErr ''number out of range'')
    | _ \<Rightarrow> Inl (NewErr ''cannot unmarshal''))"

definition decodeUint32 :: "jvalue \<Rightarrow> uint32 \<Rightarrow> uint32 res" where
  "decodeUint32 v old = (case v of
      JNull \<Rightarrow> Inr old
    | JInt n \<Rightarrow> if 0 \<le> n \<and> n < 2 ^ 32 then Inr (word_of_int n) else Inl (NewErr ''number out of range'')
    | _ \<Rightarrow> Inl (NewErr ''cannot unmarshal''))"

definition decodeText :: "jvalue \<Rightarrow> string \<Rightarrow> string res" where
  "decodeText v old = (case v of JNull \<Rightarrow> Inr old | JStr s \<Rightarrow> Inr s | _ \<Rightarrow> Inl (NewErr ''cannot unmarshal''))"

definition decodeField :: "string \<Rightarrow> jvalue \<Rightarrow> RefreshMarker \<Rightarrow> RefreshMarker res" where
  "decodeField key v m =
     (if key = ''version'' then map_sum id (\<lambda>x. m\<lparr>rmVersion := x\<rparr>) (decodeSigned v (rmVersion m))
      else if key = ''reason'' then map_sum id (\<lambda>x. m\<lparr>rmReason := x\<rparr>) (decodeText v (rmReason m))
      else if key = ''attempt_count'' then map_sum id (\<lambda>x. m\<lparr>rmAttemptCount := x\<rparr>) (decodeUint32 v (rmAttemptCount m))
      else if key = ''started_at_unix'' then
        map_sum id (\<lambda>x. m\<lparr>rmStartedAtUnix := x\<rparr>) (decodeSigned v (rmStartedAtUnix m))
      else if key = ''last_attempt_unix_milli'' then
        map_sum id (\<lambda>x. m\<lparr>rmLastAttemptUnixMilli := x\<rparr>) (decodeSigned v (rmLastAttemptUnixMilli m))
      else if key = ''next_attempt_unix_milli'' then
        map_sum id (\<lambda>x. m\<lparr>rmNextAttemptUnixMilli := x\<rparr>) (decodeSigned v (rmNextAttemptUnixMilli m))
      else if key = ''refresh_succeeded_unix_milli'' then
        map_sum id (\<lambda>x. m\<lparr>rmRefreshSucceededUnixMilli := x\<rparr>) (decodeSigned v (rmRefreshSucceededUnixMilli m))
      else Inl (NewErr ''unknown registration refresh marker field''))"

fun decodeMembers :: "(string \<times> jvalue) list \<Rightarrow> string list \<Rightarrow> RefreshMarker \<Rightarrow> (RefreshMarker \<times> string list) res" where
  "decodeMembers [] seen m = Inr (m, seen)"
| "decodeMembers ((key, v) # rest) seen m =
     (if key \<in> set seen then Inl (NewErr ''duplicate registration refresh marker field'')
      else case decodeField key v m of
          Inl x \<Rightarrow> Inl x
        | Inr m \<Rightarrow> decodeMembers rest (seen @ [key]) m)"

text \<open>Products and sums of 64-bit integers wrap around.\<close>

definition wrap64 :: "int \<Rightarrow> int" where "wrap64 n = (n + 2 ^ 63) mod 2 ^ 64 - 2 ^ 63"

definition invalidRefreshMarkerReason :: "string \<Rightarrow> bool" where
  "invalidRefreshMarkerReason reason =
     (\<not> utf8Valid reason \<or> refreshMarkerReasonMaxBytes < length reason \<or> hasControl reason)"

definition normalizeSuccess :: "RefreshMarker \<Rightarrow> RefreshMarker" where
  "normalizeSuccess m =
     (if 0 < rmAttemptCount m \<and> 0 < rmRefreshSucceededUnixMilli m \<and> rmNextAttemptUnixMilli m = 0
      then m\<lparr>rmNextAttemptUnixMilli :=
        wrap64 (rmRefreshSucceededUnixMilli m + durationMillis (refreshRetryBase (rmAttemptCount m)))\<rparr>
      else m)"

definition checkSchedule :: "RefreshMarker \<Rightarrow> err option" where
  "checkSchedule m =
     (if rmAttemptCount m = 0 then
        (if rmLastAttemptUnixMilli m \<noteq> 0 \<or> rmNextAttemptUnixMilli m \<noteq> 0 \<or> rmRefreshSucceededUnixMilli m \<noteq> 0
         then Some (NewErr ''unattempted registration refresh marker must have zero attempt and success timestamps'')
         else None)
      else if rmLastAttemptUnixMilli m \<le> 0 \<or> rmLastAttemptUnixMilli m < wrap64 (rmStartedAtUnix m * 1000) then
        Some (NewErr ''attempted registration refresh marker has an invalid retry schedule'')
      else if rmRefreshSucceededUnixMilli m = 0 then
        (if rmNextAttemptUnixMilli m < rmLastAttemptUnixMilli m then
           Some (NewErr ''attempted registration refresh marker has an invalid retry schedule'') else None)
      else if rmRefreshSucceededUnixMilli m < rmLastAttemptUnixMilli m \<or>
          rmNextAttemptUnixMilli m < rmLastAttemptUnixMilli m then
        Some (NewErr ''successful registration refresh marker has an invalid handoff schedule'')
      else None)"

definition decodeRefreshMarker :: "(string \<times> jvalue) list \<Rightarrow> RefreshMarker res" where
  "decodeRefreshMarker members = (case decodeMembers members [] zeroMarker of
      Inl x \<Rightarrow> Inl x
    | Inr (m, seen) \<Rightarrow>
        if \<not> list_all (\<lambda>k. k \<in> set seen) [''version'', ''attempt_count'', ''started_at_unix'', ''last_attempt_unix_milli'',
            ''next_attempt_unix_milli''] then Inl (NewErr ''registration refresh marker is missing required field'')
        else if rmVersion m \<noteq> legacyRefreshMarkerVersion \<and> rmVersion m \<noteq> refreshMarkerVersion then
          Inl (NewErr ''unsupported registration refresh marker version'')
        else if rmVersion m = refreshMarkerVersion \<and> ''refresh_succeeded_unix_milli'' \<notin> set seen then
          Inl (NewErr ''registration refresh marker is missing required field refresh_succeeded_unix_milli'')
        else if rmVersion m = legacyRefreshMarkerVersion \<and> ''refresh_succeeded_unix_milli'' \<in> set seen then
          Inl (NewErr ''legacy registration refresh marker contains refresh_succeeded_unix_milli'')
        else if rmStartedAtUnix m \<le> 0 then Inl (NewErr ''registration refresh marker started_at_unix must be positive'')
        else let m = normalizeSuccess m in
          (case checkSchedule m of
             Some x \<Rightarrow> Inl x
           | None \<Rightarrow>
               if invalidRefreshMarkerReason (rmReason m) \<or> trimSpace (rmReason m) \<noteq> rmReason m then
                 Inl (NewErr ''registration refresh marker reason must be canonical UTF-8'')
               else Inr m))"

section \<open>Writing\<close>

text \<open>What \<open>json.Marshal\<close> makes of the struct: the reason is omitted when it is empty.\<close>

definition markerMembers :: "RefreshMarker \<Rightarrow> (string \<times> jvalue) list" where
  "markerMembers m =
     [(''version'', JInt (rmVersion m))] @ (if rmReason m = '''' then [] else [(''reason'', JStr (rmReason m))]) @
     [(''attempt_count'', JInt (uint (rmAttemptCount m))), (''started_at_unix'', JInt (rmStartedAtUnix m)),
      (''last_attempt_unix_milli'', JInt (rmLastAttemptUnixMilli m)),
      (''next_attempt_unix_milli'', JInt (rmNextAttemptUnixMilli m)),
      (''refresh_succeeded_unix_milli'', JInt (rmRefreshSucceededUnixMilli m))]"

text \<open>The marker file: the members it holds, None when it is absent.\<close>

type_synonym markerFile = "(string \<times> jvalue) list option"

definition loadRegistrationRefreshMarker :: "markerFile \<Rightarrow> RefreshMarker option res" where
  "loadRegistrationRefreshMarker file = (case file of
      None \<Rightarrow> Inr None
    | Some members \<Rightarrow> (case decodeRefreshMarker members of
        Inl x \<Rightarrow> Inl (Multi (TMsg ''decode'') [Sentinel SInvalidRefreshMarker, x])
      | Inr m \<Rightarrow> Inr (Some m)))"

text \<open>The answer of one write: whether the rename took place, and its error.\<close>

type_synonym markerWrite = "bool \<times> err option"

definition writeRefreshMarker :: "markerWrite \<Rightarrow> RefreshMarker \<Rightarrow> markerFile \<Rightarrow> err option \<times> markerFile" where
  "writeRefreshMarker outcome m file = (snd outcome, if fst outcome then Some (markerMembers m) else file)"

definition requestRegistrationRefresh ::
  "markerWrite \<Rightarrow> int \<Rightarrow> string \<Rightarrow> markerFile \<Rightarrow> err option \<times> markerFile" where
  "requestRegistrationRefresh outcome nowUnix reason file =
     (if file \<noteq> None then (None, file)
      else let reason = trimSpace reason in
        if invalidRefreshMarkerReason reason then
          (Some (NewErr ''registration refresh reason must be valid UTF-8 without control characters''), file)
        else writeRefreshMarker outcome (zeroMarker\<lparr>rmVersion := refreshMarkerVersion, rmReason := reason,
               rmStartedAtUnix := nowUnix\<rparr>) file)"

definition markRegistrationRefreshAttempted ::
  "markerWrite \<Rightarrow> uint64 option \<Rightarrow> time \<Rightarrow> markerFile \<Rightarrow> err option \<times> markerFile" where
  "markRegistrationRefreshAttempted outcome raw now file = (case loadRegistrationRefreshMarker file of
      Inl x \<Rightarrow> (Some x, file)
    | Inr None \<Rightarrow> (None, file)
    | Inr (Some m) \<Rightarrow>
        if rmAttemptCount m = maxUint32 then (Some (NewErr ''registration refresh attempt count exhausted''), file)
        else let n = rmAttemptCount m + 1 in
          writeRefreshMarker outcome (m\<lparr>rmAttemptCount := n, rmVersion := refreshMarkerVersion,
            rmLastAttemptUnixMilli := now div 1000000,
            rmNextAttemptUnixMilli := (now + refreshRetryBackoff raw n) div 1000000,
            rmRefreshSucceededUnixMilli := 0\<rparr>) file)"

definition markRegistrationRefreshSucceeded :: "markerWrite \<Rightarrow> time \<Rightarrow> markerFile \<Rightarrow> err option \<times> markerFile" where
  "markRegistrationRefreshSucceeded outcome now file = (case loadRegistrationRefreshMarker file of
      Inl x \<Rightarrow> (Some x, file)
    | Inr None \<Rightarrow> (None, file)
    | Inr (Some m) \<Rightarrow>
        if rmAttemptCount m = 0 \<or> rmLastAttemptUnixMilli m \<le> 0 then
          (Some (NewErr ''registration refresh cannot succeed before an attempt''), file)
        else writeRefreshMarker outcome (m\<lparr>rmVersion := refreshMarkerVersion,
               rmRefreshSucceededUnixMilli := max (now div 1000000) (rmLastAttemptUnixMilli m)\<rparr>) file)"

definition clearRegistrationRefreshMarker :: "markerWrite \<Rightarrow> markerFile \<Rightarrow> err option \<times> markerFile" where
  "clearRegistrationRefreshMarker outcome file = (snd outcome, if fst outcome then None else file)"

end
