(* ===== verification/Refresh_Marker_Props.thy ===== *)
theory Refresh_Marker_Props
  imports Refresh_Marker
begin

text \<open>
  The retry schedule of the refresh marker in closed form, the exact round trip of a marker through its
  file, and when the schedule an attempt writes can be read back.
\<close>

section \<open>Retry delays\<close>

lemma retryBaseLoop_closed: "0 < b \<Longrightarrow> b \<le> refreshRetryMaximum \<Longrightarrow> retryBaseLoop n b = min (b * 2 ^ n) refreshRetryMaximum"
proof (induction n arbitrary: b)
  case (Suc n)
  have "refreshRetryMaximum * 1 \<le> refreshRetryMaximum * 2 ^ n" by (rule mult_left_mono) (use Suc.prems in simp_all)
  then have full: "min (refreshRetryMaximum * 2 ^ n) refreshRetryMaximum = refreshRetryMaximum" by simp
  show ?case
  proof (cases "b < refreshRetryMaximum")
    case True
    show ?thesis
    proof (cases "refreshRetryMaximum < b * 2")
      case True
      have "b * 2 * 1 \<le> b * 2 * 2 ^ n" by (rule mult_left_mono) (use Suc.prems in simp_all)
      then have "refreshRetryMaximum \<le> b * 2 ^ Suc n" using True by (simp add: mult_ac)
      then show ?thesis using True \<open>b < refreshRetryMaximum\<close> Suc.IH [of refreshRetryMaximum] Suc.prems full
        by (simp add: min_absorb2)
    next
      case False
      then show ?thesis using \<open>b < refreshRetryMaximum\<close> Suc.IH [of "b * 2"] Suc.prems by (simp add: mult_ac)
    qed
  next
    case False
    have "(1::int) \<le> 2 ^ Suc n" by (rule one_le_power) simp
    then have "b * 1 \<le> b * 2 ^ Suc n" by (rule mult_left_mono) (use Suc.prems in simp)
    then show ?thesis using False Suc.prems by (simp add: min_def)
  qed
qed simp

lemma retry_base: "refreshRetryBase k = min (5 * second * 2 ^ (unat k - 1)) (300 * second)"
  using retryBaseLoop_closed [of refreshRetryInitial "unat k - 1"]
  by (simp add: refreshRetryBase_def refreshRetryInitial_def refreshRetryMaximum_def duration_defs)

lemma retry_base_pos: "5 * second \<le> refreshRetryBase k"
proof -
  have "(1::int) \<le> 2 ^ (unat k - 1)" by simp
  then show ?thesis unfolding retry_base by (simp add: duration_defs)
qed

lemma in_range:
  fixes b :: int
  assumes "0 < b"
  shows "b div 2 \<le> b sdiv 2 + int (x mod nat (b - b sdiv 2 + 1))" "b sdiv 2 + int (x mod nat (b - b sdiv 2 + 1)) \<le> b"
proof -
  have half: "b sdiv 2 = b div 2" using assms by (simp add: signed_divide_int_def sgn_if)
  have "x mod nat (b - b div 2 + 1) < nat (b - b div 2 + 1)" using assms by (intro mod_less_divisor) simp
  then have "int (x mod nat (b - b div 2 + 1)) < b - b div 2 + 1" using zless_nat_eq_int_zless by blast
  then show "b div 2 \<le> b sdiv 2 + int (x mod nat (b - b sdiv 2 + 1))" "b sdiv 2 + int (x mod nat (b - b sdiv 2 + 1)) \<le> b"
    unfolding half by linarith+
qed

lemma refresh_backoff_range:
  "refreshRetryBase k div 2 \<le> refreshRetryBackoff raw k \<and> refreshRetryBackoff raw k \<le> refreshRetryBase k"
proof -
  have b: "0 < refreshRetryBase k" using retry_base_pos [of k] by (simp add: duration_defs)
  moreover have "refreshRetryBase k div 2 \<le> refreshRetryBase k" using b by simp
  ultimately show ?thesis
    using in_range [OF b] by (cases raw) (simp_all add: refreshRetryBackoff_def Let_def)
qed

lemma backoff_ends: "0 \<le> refreshRetryBackoff raw k" "refreshRetryBackoff raw k \<le> 300 * second"
proof -
  have "0 \<le> refreshRetryBase k" using retry_base_pos [of k] by (simp add: duration_defs)
  then have "0 \<le> refreshRetryBase k div 2" by simp
  moreover have "refreshRetryBase k \<le> 300 * second" by (simp add: retry_base)
  ultimately show "0 \<le> refreshRetryBackoff raw k" "refreshRetryBackoff raw k \<le> 300 * second"
    using refresh_backoff_range [of k raw] by linarith+
qed

text \<open>
  The persisted retry delay of attempt \<open>k\<close> is random between half and the whole of the smaller of
  five minutes and five seconds doubled \<open>k - 1\<close> times; without randomness it is that maximum itself.
\<close>

lemma refresh_backoff_bounds:
  "refreshRetryBase k = min (5 * second * 2 ^ (unat k - 1)) (300 * second) \<and>
   refreshRetryBase k div 2 \<le> refreshRetryBackoff raw k \<and> refreshRetryBackoff raw k \<le> refreshRetryBase k"
  using refresh_backoff_range retry_base by blast

section \<open>Through the file\<close>

definition fits :: "int \<Rightarrow> bool" where "fits n = (- (2 ^ 63) \<le> n \<and> n < 2 ^ 63)"

definition markerFits :: "RefreshMarker \<Rightarrow> bool" where
  "markerFits m = (fits (rmVersion m) \<and> fits (rmStartedAtUnix m) \<and> fits (rmLastAttemptUnixMilli m) \<and>
     fits (rmNextAttemptUnixMilli m) \<and> fits (rmRefreshSucceededUnixMilli m))"

lemma decode_fits: "fits n \<Longrightarrow> decodeSigned (JInt n) old = Inr n"
  by (simp add: decodeSigned_def fits_def)

lemma decode_count: "decodeUint32 (JInt (uint w)) old = Inr w"
proof -
  have "0 \<le> uint w" "uint w < 2 ^ 32" using unsigned_less [of w, where 'a = int] by simp_all
  then show ?thesis by (simp add: decodeUint32_def)
qed

lemma wrap64_fits: "fits n \<Longrightarrow> wrap64 n = n"
  by (simp add: wrap64_def fits_def)

lemma base_millis: "5000 \<le> durationMillis (refreshRetryBase k)" "durationMillis (refreshRetryBase k) \<le> 300000"
proof -
  have b: "5 * second \<le> refreshRetryBase k" "refreshRetryBase k \<le> 300 * second"
    using retry_base_pos [of k] by (simp_all add: retry_base)
  then have "durationMillis (refreshRetryBase k) = refreshRetryBase k div 1000000"
    by (simp add: durationMillis_def signed_divide_int_def sgn_if duration_defs)
  then show "5000 \<le> durationMillis (refreshRetryBase k)" "durationMillis (refreshRetryBase k) \<le> 300000"
    using b by (simp_all add: duration_defs)
qed

lemma early_deadline: "fits n \<Longrightarrow> 0 < n \<Longrightarrow> wrap64 (n + durationMillis (refreshRetryBase k)) \<noteq> 0"
proof -
  assume n: "fits n" "0 < n"
  define d where "d = durationMillis (refreshRetryBase k)"
  have d: "5000 \<le> d" "d \<le> 300000" using base_millis by (simp_all add: d_def)
  have "(n + d + 2 ^ 63) mod 2 ^ 64 = (if n + d < 2 ^ 63 then n + d + 2 ^ 63 else n + d - 2 ^ 63)"
  proof (cases "n + d < 2 ^ 63")
    case True
    then show ?thesis using n d by simp
  next
    case False
    have eq: "n + d + 2 ^ 63 = (n + d - 2 ^ 63) + 2 ^ 64" by simp
    have "(n + d + 2 ^ 63) mod 2 ^ 64 = (n + d - 2 ^ 63) mod 2 ^ 64" by (simp only: eq mod_add_self2)
    also have "\<dots> = n + d - 2 ^ 63" using False n d by (simp add: fits_def)
    finally show ?thesis using False by simp
  qed
  then show ?thesis using n d by (auto simp: wrap64_def d_def [symmetric] fits_def split: if_splits)
qed

text \<open>What the file of a version 3 marker reads as, before the checks.\<close>

lemma members_read:
  assumes "markerFits m"
  shows "\<exists>seen. decodeMembers (markerMembers m) [] zeroMarker = Inr (m, seen) \<and>
    set seen = fst ` set (markerMembers m)"
  using assms
  by (cases "rmReason m = ''''")
    (simp_all add: markerMembers_def decodeField_def decode_fits decode_count decodeText_def markerFits_def zeroMarker_def)

definition goodMarker :: "RefreshMarker \<Rightarrow> bool" where
  "goodMarker m = (rmVersion m = 3 \<and> 0 < rmStartedAtUnix m \<and>
     (0 < rmAttemptCount m \<and> 0 < rmRefreshSucceededUnixMilli m \<longrightarrow> rmNextAttemptUnixMilli m \<noteq> 0) \<and>
     checkSchedule m = None \<and> \<not> invalidRefreshMarkerReason (rmReason m) \<and> trimSpace (rmReason m) = rmReason m)"

lemma read_result:
  assumes "markerFits m"
  shows "(\<exists>e. loadRegistrationRefreshMarker (Some (markerMembers m)) = Inl e \<and> errorsIs e SInvalidRefreshMarker) \<or>
    loadRegistrationRefreshMarker (Some (markerMembers m)) = Inr (Some (normalizeSuccess m))"
proof -
  obtain seen where "decodeMembers (markerMembers m) [] zeroMarker = Inr (m, seen)" using members_read [OF assms] by blast
  then show ?thesis
    by (auto simp: loadRegistrationRefreshMarker_def decodeRefreshMarker_def Let_def split: option.split)
qed

lemma roundtrip:
  assumes "markerFits m"
  shows "loadRegistrationRefreshMarker (Some (markerMembers m)) = Inr (Some m) \<longleftrightarrow> goodMarker m"
proof -
  obtain seen where s: "decodeMembers (markerMembers m) [] zeroMarker = Inr (m, seen)"
    "set seen = fst ` set (markerMembers m)" using members_read [OF assms] by blast
  have keys: "list_all (\<lambda>k. k \<in> set seen) [''version'', ''attempt_count'', ''started_at_unix'', ''last_attempt_unix_milli'',
      ''next_attempt_unix_milli'']" "''refresh_succeeded_unix_milli'' \<in> set seen"
    using s(2) by (auto simp: markerMembers_def)
  show ?thesis
  proof (cases "0 < rmAttemptCount m \<and> 0 < rmRefreshSucceededUnixMilli m \<and> rmNextAttemptUnixMilli m = 0")
    case True
    then have "rmNextAttemptUnixMilli (normalizeSuccess m) \<noteq> rmNextAttemptUnixMilli m"
      using early_deadline assms by (simp add: normalizeSuccess_def markerFits_def)
    then have "normalizeSuccess m \<noteq> m" by metis
    moreover have "\<not> goodMarker m" using True by (simp add: goodMarker_def)
    ultimately show ?thesis
      by (simp add: loadRegistrationRefreshMarker_def decodeRefreshMarker_def s(1) Let_def split: option.split)
  next
    case False
    then have "normalizeSuccess m = m" by (simp only: normalizeSuccess_def if_False)
    then show ?thesis using keys False
      by (auto simp: loadRegistrationRefreshMarker_def decodeRefreshMarker_def s(1) Let_def goodMarker_def
          refreshMarkerVersion_def legacyRefreshMarkerVersion_def split: option.split)
  qed
qed


section \<open>An attempt\<close>

lemma load_good: "loadRegistrationRefreshMarker file = Inr (Some m) \<Longrightarrow>
    0 < rmStartedAtUnix m \<and> \<not> invalidRefreshMarkerReason (rmReason m) \<and> trimSpace (rmReason m) = rmReason m"
  by (auto simp: loadRegistrationRefreshMarker_def decodeRefreshMarker_def Let_def normalizeSuccess_def
      split: option.splits sum.splits prod.splits if_splits)

lemma floor_mono: "a \<le> b \<Longrightarrow> a div 1000000 \<le> b div (1000000::int)"
  by (rule zdiv_mono1) simp_all

text \<open>The marker an attempt writes.\<close>

definition attempted :: "uint64 option \<Rightarrow> time \<Rightarrow> RefreshMarker \<Rightarrow> RefreshMarker" where
  "attempted raw now m = m\<lparr>rmAttemptCount := rmAttemptCount m + 1, rmVersion := refreshMarkerVersion,
     rmLastAttemptUnixMilli := now div 1000000,
     rmNextAttemptUnixMilli := (now + refreshRetryBackoff raw (rmAttemptCount m + 1)) div 1000000,
     rmRefreshSucceededUnixMilli := 0\<rparr>"

lemma attempted_good:
  assumes m: "0 < rmStartedAtUnix m" "\<not> invalidRefreshMarkerReason (rmReason m)" "trimSpace (rmReason m) = rmReason m"
    and n: "rmAttemptCount m \<noteq> maxUint32" "1000000 \<le> now" "rmStartedAtUnix m < 2 ^ 53"
  shows "goodMarker (attempted raw now m) \<longleftrightarrow> rmStartedAtUnix m * 1000 \<le> now div 1000000"
proof -
  let ?k = "rmAttemptCount m + 1"
  have k: "0 < ?k" using inc_uint32_gt [OF n(1)] by (metis word_gt_0 word_not_simps(1))
  have w: "wrap64 (rmStartedAtUnix m * 1000) = rmStartedAtUnix m * 1000"
    by (rule wrap64_fits) (use m(1) n(3) in \<open>simp add: fits_def\<close>)
  have last: "0 < now div 1000000" using n(2) by (simp add: pos_imp_zdiv_pos_iff)
  have "0 \<le> refreshRetryBackoff raw ?k" by (rule backoff_ends)
  then have "now div 1000000 \<le> (now + refreshRetryBackoff raw ?k) div 1000000" by (intro floor_mono) simp
  then show ?thesis using m k w last
    by (auto simp: goodMarker_def attempted_def checkSchedule_def refreshMarkerVersion_def)
qed

text \<open>
  C39. When an attempt's schedule can be read back: the marker \<open>MarkRegistrationRefreshAttempted\<close> commits is
  read back (with one attempt more, no success, and the next attempt between half and the whole backoff
  away) exactly when the clock has not gone back behind the start of the episode. If it has, the code has
  committed a marker that every later read refuses: the next attempt then fails without a write, and so
  does the request of a new episode, which leaves a present marker alone.
\<close>

theorem attempt_readable_iff_clock_forward:
  assumes "loadRegistrationRefreshMarker file = Inr (Some m)" "rmAttemptCount m \<noteq> maxUint32"
    and "markRegistrationRefreshAttempted (True, None) raw now file = (x, file')"
    and "1000000 \<le> now" "now < 2 ^ 62" "rmStartedAtUnix m < 2 ^ 53"
  shows "x = None \<and>
    (rmStartedAtUnix m * 1000 \<le> now div 1000000 \<longleftrightarrow>
       loadRegistrationRefreshMarker file' = Inr (Some (attempted raw now m))) \<and>
    (now div 1000000 < rmStartedAtUnix m * 1000 \<longrightarrow>
       (\<exists>e. loadRegistrationRefreshMarker file' = Inl e \<and> errorsIs e SInvalidRefreshMarker \<and>
          markRegistrationRefreshAttempted o2 raw2 now2 file' = (Some e, file') \<and>
          requestRegistrationRefresh o2 now3 reason file' = (None, file')))"
proof -
  have file': "x = None" "file' = Some (markerMembers (attempted raw now m))"
    using assms(1-3) by (simp_all add: markRegistrationRefreshAttempted_def writeRefreshMarker_def attempted_def Let_def)
  note g = load_good [OF assms(1)]
  note bk = backoff_ends [of raw "rmAttemptCount m + 1"]
  have "0 \<le> now div 1000000" "now div 1000000 \<le> 2 ^ 62" "0 \<le> (now + refreshRetryBackoff raw (rmAttemptCount m + 1)) div 1000000"
    "(now + refreshRetryBackoff raw (rmAttemptCount m + 1)) div 1000000 \<le> 2 ^ 62 + 300000"
    using assms(4,5) bk by (simp_all add: duration_defs)
  then have fit: "markerFits (attempted raw now m)"
    using g assms(6) by (simp add: markerFits_def attempted_def fits_def refreshMarkerVersion_def)
  have good: "goodMarker (attempted raw now m) \<longleftrightarrow> rmStartedAtUnix m * 1000 \<le> now div 1000000"
    using attempted_good g assms(2,4,6) by blast
  have fwd: "rmStartedAtUnix m * 1000 \<le> now div 1000000 \<longleftrightarrow>
      loadRegistrationRefreshMarker file' = Inr (Some (attempted raw now m))"
    using roundtrip [OF fit] good file' by simp
  have norm: "normalizeSuccess (attempted raw now m) = attempted raw now m" by (simp add: normalizeSuccess_def attempted_def)
  have bad: "\<exists>e. loadRegistrationRefreshMarker file' = Inl e \<and> errorsIs e SInvalidRefreshMarker"
    if "now div 1000000 < rmStartedAtUnix m * 1000"
  proof -
    obtain r where r: "loadRegistrationRefreshMarker file' = r" by simp
    have "r \<noteq> Inr (Some (attempted raw now m))" using fwd that r by auto
    moreover have "(\<exists>e. r = Inl e \<and> errorsIs e SInvalidRefreshMarker) \<or> r = Inr (Some (attempted raw now m))"
      using read_result [OF fit] norm r file' by simp
    ultimately show ?thesis using r by blast
  qed
  show ?thesis using file'(1) fwd bad file'(2)
    by (auto simp: markRegistrationRefreshAttempted_def requestRegistrationRefresh_def)
qed

section \<open>Witnesses\<close>

text \<open>An episode that started at second 1000.\<close>

definition wMarker :: RefreshMarker where
  "wMarker = zeroMarker\<lparr>rmVersion := 3, rmReason := ''knock'', rmStartedAtUnix := 1000\<rparr>"

lemma wMarker_fits: "markerFits wMarker" by (simp add: wMarker_def markerFits_def fits_def zeroMarker_def)

lemma wReason: "\<not> invalidRefreshMarkerReason ''knock''" "trimSpace ''knock'' = ''knock''"
  by code_simp+

lemma wMarker_good: "goodMarker wMarker"
  using wReason by (simp add: goodMarker_def wMarker_def zeroMarker_def checkSchedule_def)


text \<open>The clock is set back to second 900 before the first attempt.\<close>

theorem attempt_readable_iff_clock_forward_witness:
  "\<exists>file' e. markRegistrationRefreshAttempted (True, None) None (900 * second) (Some (markerMembers wMarker)) = (None, file') \<and>
     loadRegistrationRefreshMarker file' = Inl e \<and>
     requestRegistrationRefresh (True, None) 901 ''again'' file' = (None, file')"
proof -
  let ?f = "Some (markerMembers wMarker)"
  have l: "loadRegistrationRefreshMarker ?f = Inr (Some wMarker)" using roundtrip [OF wMarker_fits] wMarker_good by simp
  obtain x file' where r: "markRegistrationRefreshAttempted (True, None) None (900 * second) ?f = (x, file')" by (metis surj_pair)
  have "rmAttemptCount wMarker \<noteq> maxUint32" "(1000000::int) \<le> 900 * second" "900 * second < 2 ^ 62" "rmStartedAtUnix wMarker < 2 ^ 53"
    "900 * second div 1000000 < rmStartedAtUnix wMarker * 1000"
    by (simp_all add: wMarker_def zeroMarker_def maxUint32_def duration_defs)
  then show ?thesis
    using attempt_readable_iff_clock_forward [OF l _ r, of "(True, None)" None 0 901 "''again''"] r by blast
qed

end
