(* ===== verification/Drain_Set.thy ===== *)
theory Drain_Set
  imports Go_Errors Routes
begin

text \<open>
  The drain set of \<open>pkg/share/session.go\<close>: the control sessions that were replaced and may finish their
  requests until their own admission ends. Every retained session has a goroutine that drains it, stops it
  and retires its admission; the runner starts, cancels, waits for and reads the set.

  A goroutine's three calls are three steps of the set, taken with whatever the call answered; between them
  the other goroutines and the runner act. A key of \<open>dsCycles\<close> stands for the pointer of a \<open>cycleDrain\<close>.
  \<open>dsCalls\<close> is the list of the calls the goroutines have made, \<open>dsFailures\<close> the errors they got and may not
  forgive, \<open>dsTaken\<close> what \<open>takeError\<close> has returned, \<open>dsOwed\<close> the drains that came with an admission to
  retire: the operations write these four and never read them.
\<close>

section \<open>State\<close>

datatype drainPhase = Draining | Stopping "err option" | Retiring "err option"

record cycleDrain =
  cdSession :: nat
  cdExpiresAt :: time
  cdRetires :: bool
  cdCanceled :: bool
  cdPhase :: drainPhase

datatype drainCall = CallDrain nat | CallStop nat | CallRetire nat

record drainSet =
  dsCycles :: "(nat, cycleDrain) fmap"
  dsNext :: nat
  dsError :: "err option"
  dsCalls :: "drainCall list"
  dsFailures :: "err list"
  dsTaken :: "err list"
  dsOwed :: "nat list"

definition emptyDrainSet :: drainSet where
  "emptyDrainSet = \<lparr>dsCycles = fmempty, dsNext = 0, dsError = None, dsCalls = [], dsFailures = [], dsTaken = [], dsOwed = []\<rparr>"

section \<open>The goroutine of one session\<close>

text \<open>The layers that repeated \<open>errors.Unwrap\<close> reaches: it stops at an error with several causes.\<close>

fun unwrapChain :: "err \<Rightarrow> etag list" where
  "unwrapChain (Leaf t) = [t]"
| "unwrapChain (Wrap t e) = t # unwrapChain e"
| "unwrapChain (Multi t _) = [t]"

definition forgivable :: "err \<Rightarrow> bool" where
  "forgivable e = list_ex (\<lambda>t. t \<in> set [TSentinel SCanceled, TSentinel SDeadlineExceeded, TSentinel SNetClosed]) (unwrapChain e)"

definition forgive :: "err option \<Rightarrow> err option" where
  "forgive r = (case r of None \<Rightarrow> None | Some e \<Rightarrow> if forgivable e then None else Some e)"

definition failed :: "err option \<Rightarrow> err list" where
  "failed r = (case r of None \<Rightarrow> [] | Some e \<Rightarrow> [e])"

text \<open>\<open>Drain\<close> has answered; a session without a \<open>Drain\<close> answers none at once.\<close>

definition drainReturned :: "nat \<Rightarrow> err option \<Rightarrow> drainSet \<Rightarrow> drainSet" where
  "drainReturned i r d = (case fmlookup (dsCycles d) i of
      Some c \<Rightarrow> (case cdPhase c of
          Draining \<Rightarrow> d\<lparr>dsCycles := fmupd i (c\<lparr>cdPhase := Stopping (forgive r)\<rparr>) (dsCycles d),
            dsCalls := dsCalls d @ [CallDrain i], dsFailures := dsFailures d @ failed (forgive r)\<rparr>
        | _ \<Rightarrow> d)
    | None \<Rightarrow> d)"

definition stopReturned :: "nat \<Rightarrow> err option \<Rightarrow> drainSet \<Rightarrow> drainSet" where
  "stopReturned i r d = (case fmlookup (dsCycles d) i of
      Some c \<Rightarrow> (case cdPhase c of
          Stopping e \<Rightarrow> d\<lparr>dsCycles := fmupd i (c\<lparr>cdPhase := Retiring (errorsJoin [e, r])\<rparr>) (dsCycles d),
            dsCalls := dsCalls d @ [CallStop i], dsFailures := dsFailures d @ failed r\<rparr>
        | _ \<Rightarrow> d)
    | None \<Rightarrow> d)"

text \<open>\<open>retire\<close> has answered, if there is one: the goroutine records its error and leaves the set.\<close>

definition retireReturned :: "nat \<Rightarrow> err option \<Rightarrow> drainSet \<Rightarrow> drainSet" where
  "retireReturned i r d = (case fmlookup (dsCycles d) i of
      Some c \<Rightarrow> (case cdPhase c of
          Retiring e \<Rightarrow>
            if cdRetires c then d\<lparr>dsCycles := fmdrop i (dsCycles d), dsError := errorsJoin [dsError d, errorsJoin [e, r]],
              dsCalls := dsCalls d @ [CallRetire i], dsFailures := dsFailures d @ failed r\<rparr>
            else d\<lparr>dsCycles := fmdrop i (dsCycles d), dsError := errorsJoin [dsError d, e]\<rparr>
        | _ \<Rightarrow> d)
    | None \<Rightarrow> d)"

section \<open>The runner's operations\<close>

definition addDrain :: "nat \<Rightarrow> time \<Rightarrow> bool \<Rightarrow> drainSet \<Rightarrow> drainSet" where
  "addDrain session expiresAt retires d = d\<lparr>dsNext := dsNext d + 1, dsOwed := (if retires then dsOwed d @ [dsNext d] else dsOwed d),
     dsCycles := fmupd (dsNext d) \<lparr>cdSession = session, cdExpiresAt = expiresAt, cdRetires = retires,
       cdCanceled = False, cdPhase = Draining\<rparr> (dsCycles d)\<rparr>"

definition takeError :: "drainSet \<Rightarrow> err option \<times> drainSet" where
  "takeError d = (dsError d, d\<lparr>dsError := None, dsTaken := dsTaken d @ failed (dsError d)\<rparr>)"

definition cancelCycles :: "nat list \<Rightarrow> drainSet \<Rightarrow> drainSet" where
  "cancelCycles is d = d\<lparr>dsCycles := fmmap_keys (\<lambda>i c. if i \<in> set is then c\<lparr>cdCanceled := True\<rparr> else c) (dsCycles d)\<rparr>"

definition cancelDrains :: "drainSet \<Rightarrow> drainSet" where
  "cancelDrains d = cancelCycles (sorted_list_of_fset (fmdom (dsCycles d))) d"

text \<open>
  What the set's operations call: the progress of the goroutines until one drain is waited for or the
  budget of the wait ends (the answer says that it has), the preparation of a session, and the withdrawal of
  routes from one.
\<close>

record 'w drainOps =
  doProgress :: "nat \<Rightarrow> drainSet \<times> 'w \<Rightarrow> bool \<times> drainSet \<times> 'w"
  doPrepare :: "nat \<Rightarrow> 'w \<Rightarrow> 'w"
  doRetain :: "nat \<Rightarrow> LocalHTTPRoute list \<Rightarrow> 'w \<Rightarrow> 'w"

text \<open>The loop of \<open>stopAndWait\<close> over the drains it found; the answer says that the budget ended.\<close>

fun waitDrains :: "'w drainOps \<Rightarrow> nat list \<Rightarrow> drainSet \<times> 'w \<Rightarrow> bool \<times> drainSet \<times> 'w" where
  "waitDrains oo [] s = (False, s)"
| "waitDrains oo (i # is) s = (case doProgress oo i s of (ended, (d, w)) \<Rightarrow>
     if ended \<or> i |\<in>| fmdom (dsCycles d) then (True, (d, w)) else waitDrains oo is (d, w))"

definition stopAndWait :: "'w drainOps \<Rightarrow> drainSet \<times> 'w \<Rightarrow> err option \<times> drainSet \<times> 'w" where
  "stopAndWait oo s = (case s of (d, w) \<Rightarrow>
     (case waitDrains oo (sorted_list_of_fset (fmdom (dsCycles d))) (cancelDrains d, w) of
        (True, (d, w)) \<Rightarrow> (case takeError d of (e, d) \<Rightarrow> (errorsJoin [Some (Sentinel SDeadlineExceeded), e], (d, w)))
      | (False, (d, w)) \<Rightarrow> (case takeError d of (e, d) \<Rightarrow> (e, (d, w)))))"

definition drainStart ::
  "'w drainOps \<Rightarrow> nat option \<Rightarrow> time \<Rightarrow> bool \<Rightarrow> drainSet \<times> 'w \<Rightarrow> err option \<times> drainSet \<times> 'w" where
  "drainStart oo session expiresAt retires s = (case session of
      None \<Rightarrow> (None, s)
    | Some i \<Rightarrow>
        (case (if 2 \<le> fcard (fmdom (dsCycles (fst s))) then stopAndWait oo s else (None, s)) of
           (Some e, s) \<Rightarrow> (Some e, s)
         | (None, (d, w)) \<Rightarrow> (None, (addDrain i expiresAt retires d, doPrepare oo i w))))"

definition drainRetainRoutes :: "'w drainOps \<Rightarrow> LocalHTTPRoute list \<Rightarrow> drainSet \<times> 'w \<Rightarrow> drainSet \<times> 'w" where
  "drainRetainRoutes oo routes s = (case s of (d, w) \<Rightarrow>
     (d, foldl (\<lambda>w i. doRetain oo (cdSession (the (fmlookup (dsCycles d) i))) routes w) w
       (sorted_list_of_fset (fmdom (dsCycles d)))))"

section \<open>A bounded retry delay\<close>

text \<open>The clock, the context, the callback and the timer of \<open>retryAfter\<close>.\<close>

record 'w retryOps =
  roNow :: "'w \<Rightarrow> time \<times> 'w"
  roCtxErr :: "'w \<Rightarrow> err option"
  roOnRetry :: "err \<Rightarrow> duration \<Rightarrow> 'w \<Rightarrow> 'w"
  roTimer :: "duration \<Rightarrow> 'w \<Rightarrow> bool \<times> 'w"

definition sleepWithContext :: "'w retryOps \<Rightarrow> duration \<Rightarrow> 'w \<Rightarrow> err option \<times> 'w" where
  "sleepWithContext oo d w = (case roTimer oo d w of
      (True, w) \<Rightarrow> (None, w) | (False, w) \<Rightarrow> (roCtxErr oo w, w))"

definition retryAfter :: "'w retryOps \<Rightarrow> err option \<Rightarrow> duration \<Rightarrow> 'w \<Rightarrow> err option \<times> 'w" where
  "retryAfter oo attemptErr wait w = (case roNow oo w of (now, w) \<Rightarrow>
     let retryAt = now + wait;
         w = (case attemptErr of Some e \<Rightarrow> if roCtxErr oo w = None then roOnRetry oo e wait w else w | None \<Rightarrow> w) in
     (case roNow oo w of (now, w) \<Rightarrow>
        if retryAt - now \<le> 0 then (roCtxErr oo w, w) else sleepWithContext oo (retryAt - now) w))"

end
