(* ===== verification/Drain_Props.thy ===== *)
theory Drain_Props
  imports Drain_Set
begin

text \<open>
  What the drain set promises in every interleaving of its goroutines with the runner: at most two retained
  sessions, for each session one drain, one stop and one retirement in that order before it leaves, and no
  failure that is not returned to the runner.
\<close>

section \<open>Steps\<close>

inductive goStep :: "drainSet \<Rightarrow> drainSet \<Rightarrow> bool" where
  drained: "goStep d (drainReturned i r d)"
| stopped: "goStep d (stopReturned i r d)"
| retired: "goStep d (retireReturned i r d)"

text \<open>While a call waits only goroutines act on the set: the runner is the one that waits.\<close>

definition progress_ok :: "'w drainOps \<Rightarrow> bool" where
  "progress_ok oo \<longleftrightarrow> (\<forall>i d w. goStep\<^sup>*\<^sup>* d (fst (snd (doProgress oo i (d, w)))))"

inductive drainReach :: "'w drainOps \<Rightarrow> drainSet \<Rightarrow> bool" for oo where
  start_empty: "drainReach oo emptyDrainSet"
| goroutine: "drainReach oo d \<Longrightarrow> goStep d d' \<Longrightarrow> drainReach oo d'"
| runner_start: "drainReach oo d \<Longrightarrow> drainStart oo session expiresAt retires (d, w) = (e, (d', w')) \<Longrightarrow> drainReach oo d'"
| runner_wait: "drainReach oo d \<Longrightarrow> stopAndWait oo (d, w) = (e, (d', w')) \<Longrightarrow> drainReach oo d'"
| runner_take: "drainReach oo d \<Longrightarrow> takeError d = (e, d') \<Longrightarrow> drainReach oo d'"
| runner_cancel: "drainReach oo d \<Longrightarrow> drainReach oo (cancelDrains d)"

section \<open>The protocol of a session\<close>

fun callOf :: "drainCall \<Rightarrow> nat" where
  "callOf (CallDrain i) = i" | "callOf (CallStop i) = i" | "callOf (CallRetire i) = i"

definition callsFor :: "nat \<Rightarrow> drainSet \<Rightarrow> drainCall list" where
  "callsFor i d = filter (\<lambda>c. callOf c = i) (dsCalls d)"

fun phaseCalls :: "nat \<Rightarrow> drainPhase \<Rightarrow> drainCall list" where
  "phaseCalls i Draining = []"
| "phaseCalls i (Stopping _) = [CallDrain i]"
| "phaseCalls i (Retiring _) = [CallDrain i, CallStop i]"

definition expectedCalls :: "nat \<Rightarrow> drainSet \<Rightarrow> drainCall list" where
  "expectedCalls i d = (if dsNext d \<le> i then []
     else case fmlookup (dsCycles d) i of
         Some c \<Rightarrow> phaseCalls i (cdPhase c)
       | None \<Rightarrow> if i \<in> set (dsOwed d) then [CallDrain i, CallStop i, CallRetire i] else [CallDrain i, CallStop i])"

definition protocol :: "drainSet \<Rightarrow> bool" where
  "protocol d \<longleftrightarrow> (\<forall>i. callsFor i d = expectedCalls i d) \<and> (\<forall>i. i |\<in>| fmdom (dsCycles d) \<longrightarrow> i < dsNext d) \<and>
     (\<forall>i \<in> set (dsOwed d). i < dsNext d) \<and>
     (\<forall>i c. fmlookup (dsCycles d) i = Some c \<longrightarrow> cdRetires c = (i \<in> set (dsOwed d)))"

definition bounded :: "drainSet \<Rightarrow> bool" where
  "bounded d \<longleftrightarrow> fcard (fmdom (dsCycles d)) \<le> 2"

section \<open>Failures\<close>

text \<open>An error and everything it wraps or joins.\<close>

fun causes :: "err \<Rightarrow> err list" where
  "causes (Leaf t) = [Leaf t]"
| "causes (Wrap t e) = Wrap t e # causes e"
| "causes (Multi t es) = Multi t es # concat (map causes es)"

fun phaseError :: "drainPhase \<Rightarrow> err option" where
  "phaseError Draining = None" | "phaseError (Stopping e) = e" | "phaseError (Retiring e) = e"

definition carries :: "err option \<Rightarrow> err \<Rightarrow> bool" where
  "carries eo x \<longleftrightarrow> (case eo of None \<Rightarrow> False | Some e \<Rightarrow> x \<in> set (causes e))"

text \<open>Where an error is: with the caller, recorded in the set, or with a goroutine that has not finished.\<close>

definition surfaced :: "drainSet \<Rightarrow> err \<Rightarrow> bool" where
  "surfaced d x \<longleftrightarrow> list_ex (\<lambda>e. carries (Some e) x) (dsTaken d) \<or> carries (dsError d) x \<or>
     (\<exists>i c. fmlookup (dsCycles d) i = Some c \<and> carries (phaseError (cdPhase c)) x)"

definition accounted :: "drainSet \<Rightarrow> bool" where
  "accounted d \<longleftrightarrow> (\<forall>x \<in> set (dsFailures d). surfaced d x)"

lemma causes_self: "x \<in> set (causes x)"
  by (cases x) simp_all

lemma carries_join:
  assumes "e \<in> set es" "carries e x"
  shows "carries (errorsJoin es) x"
proof -
  obtain y where y: "e = Some y" "x \<in> set (causes y)" using assms(2) by (auto simp: carries_def split: option.splits)
  then have "y \<in> set (List.map_filter id es)" using assms(1)
    by (induction es) (auto simp: map_filter_simps split: option.splits)
  moreover from this have "errorsJoin es = Some (Multi (TMsg ''join'') (List.map_filter id es))"
    by (auto simp: errorsJoin_def Let_def)
  ultimately show ?thesis using y(2) by (auto simp: carries_def)
qed

lemma carries_mono [intro]:
  "carries e x \<Longrightarrow> carries (errorsJoin [e, r]) x" "carries r x \<Longrightarrow> carries (errorsJoin [e, r]) x"
  by (rule carries_join [of e], simp, assumption, rule carries_join [of r], simp, assumption)

lemma failed_carries: "x \<in> set (failed r) \<Longrightarrow> carries r x"
  by (auto simp: failed_def carries_def causes_self split: option.splits)


section \<open>One step keeps the invariants\<close>

text \<open>How a goroutine's step changes the set: it moves its own cycle one phase on, or does nothing.\<close>

lemma goStep_cases:
  assumes "goStep d d'"
  obtains "d' = d"
  | (drain) i c r where "fmlookup (dsCycles d) i = Some c" "cdPhase c = Draining"
      "d' = d\<lparr>dsCycles := fmupd i (c\<lparr>cdPhase := Stopping (forgive r)\<rparr>) (dsCycles d),
         dsCalls := dsCalls d @ [CallDrain i], dsFailures := dsFailures d @ failed (forgive r)\<rparr>"
  | (stop) i c e r where "fmlookup (dsCycles d) i = Some c" "cdPhase c = Stopping e"
      "d' = d\<lparr>dsCycles := fmupd i (c\<lparr>cdPhase := Retiring (errorsJoin [e, r])\<rparr>) (dsCycles d),
         dsCalls := dsCalls d @ [CallStop i], dsFailures := dsFailures d @ failed r\<rparr>"
  | (retire) i c e r where "fmlookup (dsCycles d) i = Some c" "cdPhase c = Retiring e" "cdRetires c"
      "d' = d\<lparr>dsCycles := fmdrop i (dsCycles d), dsError := errorsJoin [dsError d, errorsJoin [e, r]],
         dsCalls := dsCalls d @ [CallRetire i], dsFailures := dsFailures d @ failed r\<rparr>"
  | (leave) i c e where "fmlookup (dsCycles d) i = Some c" "cdPhase c = Retiring e" "\<not> cdRetires c"
      "d' = d\<lparr>dsCycles := fmdrop i (dsCycles d), dsError := errorsJoin [dsError d, e]\<rparr>"
  using assms
proof (cases rule: goStep.cases)
  case (drained i r)
  then show thesis using that(1,2) by (auto simp: drainReturned_def split: option.splits drainPhase.splits)
next
  case (stopped i r)
  then show thesis using that(1,3) by (auto simp: stopReturned_def split: option.splits drainPhase.splits)
next
  case (retired i r)
  then show thesis using that(1,4,5) by (auto simp: retireReturned_def split: option.splits drainPhase.splits if_splits)
qed

lemma fcard_drop: "fcard (fmdom (fmdrop i m)) \<le> fcard (fmdom m)"
  by (rule fcard_mono) auto

lemma fcard_same: "fmlookup m i = Some c \<Longrightarrow> fcard (fmdom (fmupd i x m)) = fcard (fmdom m)"
  by (simp add: fmdomI finsert_absorb)

lemma goStep_bounded: "goStep d d' \<Longrightarrow> bounded d \<Longrightarrow> bounded d'"
  by (erule goStep_cases) (auto simp: bounded_def fmdomI finsert_absorb intro: order_trans [OF fcard_mono])

lemma callsFor_append: "callsFor j (d\<lparr>dsCycles := m, dsCalls := dsCalls d @ [c], dsFailures := f\<rparr>) =
    callsFor j d @ (if callOf c = j then [c] else [])"
  "callsFor j (d\<lparr>dsCycles := m, dsError := x, dsCalls := dsCalls d @ [c], dsFailures := f\<rparr>) =
    callsFor j d @ (if callOf c = j then [c] else [])"
  by (simp_all add: callsFor_def)

lemma goStep_protocol:
  assumes "goStep d d'" "protocol d"
  shows "protocol d'"
  using assms(1)
proof (cases rule: goStep_cases)
  case 1
  then show ?thesis using assms(2) by simp
next
  case (drain i c r)
  then have "i < dsNext d" using assms(2) by (auto simp: protocol_def dest: fmdomI)
  then show ?thesis using assms(2) drain
    by (auto simp: protocol_def callsFor_append expectedCalls_def split: option.splits if_splits)
next
  case (stop i c e r)
  then have "i < dsNext d" using assms(2) by (auto simp: protocol_def dest: fmdomI)
  then show ?thesis using assms(2) stop
    by (auto simp: protocol_def callsFor_append expectedCalls_def split: option.splits if_splits)
next
  case (retire i c e r)
  then have "i < dsNext d" using assms(2) by (auto simp: protocol_def dest: fmdomI)
  then show ?thesis using assms(2) retire
    by (auto simp: protocol_def callsFor_append expectedCalls_def split: option.splits if_splits)
next
  case (leave i c e)
  then have "i < dsNext d" using assms(2) by (auto simp: protocol_def dest: fmdomI)
  then show ?thesis using assms(2) leave
    by (auto simp: protocol_def callsFor_def expectedCalls_def split: option.splits if_splits)
qed


lemma surfaced_running:
  "fmlookup (dsCycles d) i = Some c \<Longrightarrow> carries (phaseError (cdPhase c)) x \<Longrightarrow> surfaced d x"
  by (auto simp: surfaced_def)

lemma surfaced_error: "carries (dsError d) x \<Longrightarrow> surfaced d x"
  by (simp add: surfaced_def)

lemma surfaced_cases:
  assumes "surfaced d x"
  obtains "list_ex (\<lambda>e. carries (Some e) x) (dsTaken d)" | "carries (dsError d) x"
  | i c where "fmlookup (dsCycles d) i = Some c" "carries (phaseError (cdPhase c)) x"
  using assms by (auto simp: surfaced_def)

lemma surfaced_step:
  assumes "surfaced d x" "dsTaken d' = dsTaken d" "carries (dsError d) x \<Longrightarrow> carries (dsError d') x"
    and others: "\<And>j. j \<noteq> i \<Longrightarrow> fmlookup (dsCycles d') j = fmlookup (dsCycles d) j"
    and own: "\<And>c. fmlookup (dsCycles d) i = Some c \<Longrightarrow> carries (phaseError (cdPhase c)) x \<Longrightarrow> surfaced d' x"
  shows "surfaced d' x"
proof -
  from assms(1) show ?thesis
  proof (cases rule: surfaced_cases)
    case 1
    then show ?thesis by (simp add: surfaced_def assms(2))
  next
    case 2
    then show ?thesis by (intro surfaced_error assms(3))
  next
    case (3 j c)
    show ?thesis
    proof (cases "j = i")
      case True
      then show ?thesis using 3 own by simp
    next
      case False
      then show ?thesis using 3 others by (intro surfaced_running [of _ j c]) simp_all
    qed
  qed
qed

lemma accounted_step:
  assumes "accounted d" "set (dsFailures d') = set (dsFailures d) \<union> F"
    and "\<And>x. surfaced d x \<Longrightarrow> surfaced d' x" "\<And>x. x \<in> F \<Longrightarrow> surfaced d' x"
  shows "accounted d'"
  using assms by (auto simp: accounted_def)

lemma goStep_accounted:
  assumes "goStep d d'" "accounted d"
  shows "accounted d'"
  using assms(1)
proof (cases rule: goStep_cases)
  case 1
  then show ?thesis using assms(2) by simp
next
  case (drain i c r)
  let ?c = "c\<lparr>cdPhase := Stopping (forgive r)\<rparr>"
  have new: "fmlookup (dsCycles d') i = Some ?c" using drain(3) by simp
  show ?thesis
  proof (rule accounted_step [OF assms(2), of _ "set (failed (forgive r))"])
    show "surfaced d' x" if "surfaced d x" for x
      by (rule surfaced_step [OF that, of _ i]) (use drain in \<open>auto simp: carries_def\<close>)
    show "surfaced d' x" if "x \<in> set (failed (forgive r))" for x
      by (rule surfaced_running [OF new]) (use that in \<open>simp add: failed_carries\<close>)
  qed (simp add: drain(3))
next
  case (stop i c e r)
  let ?c = "c\<lparr>cdPhase := Retiring (errorsJoin [e, r])\<rparr>"
  have new: "fmlookup (dsCycles d') i = Some ?c" using stop(3) by simp
  have now: "surfaced d' x" if "carries e x \<or> carries r x" for x
    by (rule surfaced_running [OF new]) (use that carries_mono in auto)
  show ?thesis
  proof (rule accounted_step [OF assms(2), of _ "set (failed r)"])
    show "surfaced d' x" if "surfaced d x" for x
      by (rule surfaced_step [OF that, of _ i]) (use stop now in auto)
    show "surfaced d' x" if "x \<in> set (failed r)" for x using now failed_carries [OF that] by blast
  qed (simp add: stop(3))
next
  case (retire i c e r)
  have now: "surfaced d' x" if "carries (dsError d) x \<or> carries e x \<or> carries r x" for x
    by (rule surfaced_error) (use that carries_mono retire(4) in auto)
  show ?thesis
  proof (rule accounted_step [OF assms(2), of _ "set (failed r)"])
    show "surfaced d' x" if "surfaced d x" for x
      by (rule surfaced_step [OF that, of _ i]) (use retire now in \<open>auto simp: carries_mono\<close>)
    show "surfaced d' x" if "x \<in> set (failed r)" for x using now failed_carries [OF that] by blast
  qed (simp add: retire(4))
next
  case (leave i c e)
  have now: "surfaced d' x" if "carries (dsError d) x \<or> carries e x" for x
    by (rule surfaced_error) (use that carries_mono leave(4) in auto)
  show ?thesis
  proof (rule accounted_step [OF assms(2), of _ "{}"])
    show "surfaced d' x" if "surfaced d x" for x
      by (rule surfaced_step [OF that, of _ i]) (use leave now in \<open>auto simp: carries_mono\<close>)
  qed (simp_all add: leave(4))
qed

section \<open>The runner's operations keep them\<close>

definition drain_inv :: "drainSet \<Rightarrow> bool" where
  "drain_inv d \<longleftrightarrow> bounded d \<and> protocol d \<and> accounted d"

lemma goSteps_inv: "goStep\<^sup>*\<^sup>* d d' \<Longrightarrow> drain_inv d \<Longrightarrow> drain_inv d'"
  by (induction rule: rtranclp_induct)
    (auto simp: drain_inv_def intro: goStep_bounded goStep_protocol goStep_accounted)

lemma takeError_inv:
  assumes "drain_inv d"
  shows "drain_inv (snd (takeError d))"
proof -
  have keep: "surfaced (snd (takeError d)) x" if "surfaced d x" for x
    using that
  proof (cases rule: surfaced_cases)
    case 1
    then show ?thesis by (simp add: surfaced_def takeError_def)
  next
    case 2
    then have "list_ex (\<lambda>e. carries (Some e) x) (failed (dsError d))" by (cases "dsError d") (simp_all add: failed_def carries_def)
    then show ?thesis by (simp add: surfaced_def takeError_def)
  next
    case (3 i c)
    then show ?thesis by (intro surfaced_running [of _ i c]) (simp_all add: takeError_def)
  qed
  have "bounded (snd (takeError d))" using assms by (simp add: drain_inv_def bounded_def takeError_def)
  moreover have "protocol (snd (takeError d))"
    using assms by (simp add: drain_inv_def protocol_def takeError_def callsFor_def expectedCalls_def)
  moreover have "accounted (snd (takeError d))" using assms keep by (simp add: drain_inv_def accounted_def takeError_def)
  ultimately show ?thesis by (simp add: drain_inv_def)
qed

lemma cancelCycles_inv:
  assumes "drain_inv d"
  shows "drain_inv (cancelCycles is d)"
proof -
  let ?d = "cancelCycles is d"
  have look: "fmlookup (dsCycles ?d) i = map_option (\<lambda>c. if i \<in> set is then c\<lparr>cdCanceled := True\<rparr> else c) (fmlookup (dsCycles d) i)" for i
    by (simp add: cancelCycles_def)
  have dom: "fmdom (dsCycles ?d) = fmdom (dsCycles d)" by (simp add: cancelCycles_def)
  have "callsFor i ?d = callsFor i d" "expectedCalls i ?d = expectedCalls i d" for i
    by (auto simp: callsFor_def expectedCalls_def look cancelCycles_def split: option.splits)
  moreover have "surfaced ?d x" if "surfaced d x" for x
  proof -
    from that show ?thesis
    proof (cases rule: surfaced_cases)
      case (3 i c)
      show ?thesis by (rule surfaced_running [OF look [of i, unfolded 3(1) option.map]]) (use 3(2) in simp)
    qed (simp_all add: surfaced_def cancelCycles_def)
  qed
  moreover have "dsNext ?d = dsNext d" "dsOwed ?d = dsOwed d" "dsFailures ?d = dsFailures d" by (simp_all add: cancelCycles_def)
  ultimately show ?thesis using assms
    by (auto simp: drain_inv_def bounded_def dom protocol_def accounted_def look split: if_splits)
qed



lemma goStep_dom: "goStep d d' \<Longrightarrow> fmdom (dsCycles d') |\<subseteq>| fmdom (dsCycles d)"
  by (erule goStep_cases) (auto simp: fmdomI)

lemma goSteps_dom: "goStep\<^sup>*\<^sup>* d d' \<Longrightarrow> fmdom (dsCycles d') |\<subseteq>| fmdom (dsCycles d)"
  by (induction rule: rtranclp_induct) (auto dest: goStep_dom)

lemma waitDrains_steps:
  assumes "progress_ok oo"
  shows "waitDrains oo is (d, w) = (b, (d', w')) \<Longrightarrow>
    goStep\<^sup>*\<^sup>* d d' \<and> (\<not> b \<longrightarrow> (\<forall>i \<in> set is. i |\<notin>| fmdom (dsCycles d')))"
proof (induction "is" arbitrary: d w)
  case Nil
  then show ?case by simp
next
  case (Cons i "is")
  obtain ended e u where p: "doProgress oo i (d, w) = (ended, (e, u))" by (metis surj_pair)
  have de: "goStep\<^sup>*\<^sup>* d e" using assms p unfolding progress_ok_def by (metis fst_conv snd_conv)
  show ?case
  proof (cases "ended \<or> i |\<in>| fmdom (dsCycles e)")
    case True
    then show ?thesis using Cons.prems p de by auto
  next
    case False
    then have "waitDrains oo is (e, u) = (b, (d', w'))" using Cons.prems p by simp
    note ih = Cons.IH [OF this]
    then have "i |\<notin>| fmdom (dsCycles d')" using goSteps_dom [of e d'] False by auto
    then show ?thesis using ih de by (auto intro: rtranclp_trans)
  qed
qed

lemma cancelDrains_inv: "drain_inv d \<Longrightarrow> drain_inv (cancelDrains d)"
  unfolding cancelDrains_def by (rule cancelCycles_inv)

lemma takeError_fields: "takeError d = (e, d') \<Longrightarrow> e = dsError d \<and> dsCycles d' = dsCycles d \<and> dsError d' = None"
  by (auto simp: takeError_def)

lemma stopAndWait_result:
  assumes ok: "progress_ok oo" and inv: "drain_inv d" and r: "stopAndWait oo (d, w) = (e, (d', w'))"
  shows "drain_inv d'" and "e = None \<Longrightarrow> fmdom (dsCycles d') = {||} \<and> dsError d' = None"
proof -
  let ?is = "sorted_list_of_fset (fmdom (dsCycles d))"
  obtain b c u where wt: "waitDrains oo ?is (cancelDrains d, w) = (b, (c, u))" by (metis surj_pair)
  obtain x t where tk: "takeError c = (x, t)" by (metis surj_pair)
  note steps = waitDrains_steps [OF ok wt]
  have c: "drain_inv c" using goSteps_inv cancelDrains_inv [OF inv] steps by blast
  have t: "d' = t" "e = (if b then errorsJoin [Some (Sentinel SDeadlineExceeded), x] else x)"
    using r wt tk by (cases b; simp add: stopAndWait_def)+
  show "drain_inv d'" using takeError_inv [OF c] tk t(1) by simp
  assume none: "e = None"
  then have nb: "\<not> b" using t(2) by (auto split: if_splits)
  have "fmdom (dsCycles c) |\<subseteq>| fmdom (dsCycles d)"
    using goSteps_dom [of "cancelDrains d" c] steps by (simp add: cancelDrains_def cancelCycles_def)
  then have "fmdom (dsCycles c) = {||}" using steps nb by (auto simp: sorted_list_of_fset_simps)
  then show "fmdom (dsCycles d') = {||} \<and> dsError d' = None" using takeError_fields [OF tk] t(1) by simp
qed

lemma addDrain_inv:
  assumes inv: "drain_inv d" and room: "fcard (fmdom (dsCycles d)) < 2"
  shows "drain_inv (addDrain session expiresAt retires d)"
proof -
  let ?d = "addDrain session expiresAt retires d" and ?n = "dsNext d"
  have new: "?n |\<notin>| fmdom (dsCycles d)" "?n \<notin> set (dsOwed d)" using inv by (auto simp: drain_inv_def protocol_def)
  have "bounded ?d" using room by (simp add: bounded_def addDrain_def fcard_finsert_if)
  moreover have "protocol ?d"
  proof -
    have p: "protocol d" using inv by (simp add: drain_inv_def)
    have none: "callsFor ?n d = []" using p by (simp add: protocol_def expectedCalls_def)
    have "callsFor i ?d = expectedCalls i ?d" for i
      using p none new by (cases "i = ?n") (auto simp: protocol_def addDrain_def callsFor_def expectedCalls_def split: option.splits)
    moreover have "i < dsNext ?d" if "i |\<in>| fmdom (dsCycles ?d) \<or> i \<in> set (dsOwed ?d)" for i
      using that p by (auto simp: protocol_def addDrain_def less_Suc_eq split: if_splits)
    moreover have "cdRetires c = (i \<in> set (dsOwed ?d))" if c: "fmlookup (dsCycles ?d) i = Some c" for i c
    proof (cases "i = ?n")
      case True
      then show ?thesis using c new by (auto simp: addDrain_def)
    next
      case False
      then have "fmlookup (dsCycles d) i = Some c" using c by (simp add: addDrain_def)
      then show ?thesis using p False by (simp add: protocol_def addDrain_def)
    qed
    ultimately show ?thesis unfolding protocol_def by blast
  qed
  moreover have "accounted ?d"
  proof -
    have "surfaced ?d x" if s: "surfaced d x" for x
    proof -
      have "fmlookup (dsCycles d) ?n = None" using new(1) by (rule fmdom_notD)
      moreover have "fmlookup (dsCycles ?d) j = fmlookup (dsCycles d) j" if "j \<noteq> ?n" for j
        using that by (simp add: addDrain_def)
      moreover have "dsTaken ?d = dsTaken d" "dsError ?d = dsError d" by (simp_all add: addDrain_def)
      ultimately show ?thesis by - (rule surfaced_step [OF s, where i = ?n], simp_all)
    qed
    moreover have "dsFailures ?d = dsFailures d" by (simp add: addDrain_def)
    ultimately show ?thesis using inv by (simp add: drain_inv_def accounted_def)
  qed
  ultimately show ?thesis by (simp add: drain_inv_def)
qed

lemma drainStart_inv:
  assumes ok: "progress_ok oo" and inv: "drain_inv d" and r: "drainStart oo session expiresAt retires (d, w) = (e, (d', w'))"
  shows "drain_inv d'"
proof (cases session)
  case None
  then show ?thesis using r inv by (simp add: drainStart_def)
next
  case (Some i)
  show ?thesis
  proof (cases "2 \<le> fcard (fmdom (dsCycles d))")
    case False
    then show ?thesis using r Some addDrain_inv [OF inv] by (auto simp: drainStart_def)
  next
    case True
    obtain x c u where st: "stopAndWait oo (d, w) = (x, (c, u))" by (metis surj_pair)
    note res = stopAndWait_result [OF ok inv st]
    show ?thesis
    proof (cases x)
      case None
      have "d' = addDrain i expiresAt retires c" using r Some True st None by (simp add: drainStart_def)
      then show ?thesis using addDrain_inv [OF res(1)] res(2) [OF None] by (simp add: fcard.rep_eq)
    next
      case fail: Some
      then show ?thesis using r \<open>session = Some i\<close> True st res(1) by (simp add: drainStart_def)
    qed
  qed
qed

lemma drainReach_inv:
  assumes "progress_ok oo"
  shows "drainReach oo d \<Longrightarrow> drain_inv d"
proof (induction rule: drainReach.induct)
  case start_empty
  show ?case
    by (simp add: drain_inv_def bounded_def protocol_def accounted_def emptyDrainSet_def callsFor_def expectedCalls_def fcard.rep_eq)
next
  case (goroutine d d')
  then show ?case using goSteps_inv by blast
next
  case (runner_start d session expiresAt retires w e d' w')
  then show ?case using drainStart_inv [OF assms] by blast
next
  case (runner_wait d w e d' w')
  then show ?case using stopAndWait_result(1) [OF assms] by blast
next
  case (runner_take d e d')
  then show ?case using takeError_inv [of d] by simp
next
  case (runner_cancel d)
  then show ?case by (intro cancelDrains_inv)
qed


section \<open>Claims\<close>

text \<open>
  C27. The drain set keeps its protocol. In every state the runner and the goroutines can reach, in any
  interleaving and with any answers: at most two replaced sessions are retained; the calls made for a session
  are a prefix of one drain, one stop and one retirement, in this order and each at most once; and a session
  has left the set only after its stop, and after the retirement of its admission if it came with one. The
  hypothesis says that while the runner waits only the goroutines act on the set.
\<close>

theorem drains_keep_protocol:
  assumes "progress_ok oo" and "drainReach oo d"
  shows "fcard (fmdom (dsCycles d)) \<le> 2 \<and>
    (case fmlookup (dsCycles d) i of
       Some c \<Rightarrow> callsFor i d = phaseCalls i (cdPhase c)
     | None \<Rightarrow> callsFor i d = (if dsNext d \<le> i then []
         else if i \<in> set (dsOwed d) then [CallDrain i, CallStop i, CallRetire i] else [CallDrain i, CallStop i]))"
proof -
  have inv: "drain_inv d" by (rule drainReach_inv [OF assms])
  then have "callsFor i d = expectedCalls i d" and "i |\<in>| fmdom (dsCycles d) \<Longrightarrow> i < dsNext d"
    by (auto simp: drain_inv_def protocol_def)
  then show ?thesis using inv
    by (cases "fmlookup (dsCycles d) i") (auto simp: drain_inv_def bounded_def expectedCalls_def dest: fmdomI)
qed


section \<open>A run\<close>

text \<open>One session is drained; its goroutine finishes while the runner waits, and its stop fails.\<close>

definition wDrainOps :: "unit drainOps" where
  "wDrainOps = \<lparr>doProgress = (\<lambda>i s. (False, (retireReturned i None (stopReturned i (Some (NewErr ''stop''))
       (drainReturned i (Some (Sentinel SCanceled)) (fst s))), snd s))),
     doPrepare = (\<lambda>_ w. w), doRetain = (\<lambda>_ _ w. w)\<rparr>"

lemma wDrainOps_ok: "progress_ok wDrainOps"
proof -
  have "goStep\<^sup>*\<^sup>* d (retireReturned i r (stopReturned i q (drainReturned i p d)))" for d i p q r
    using drained stopped retired by (meson converse_rtranclp_into_rtranclp rtranclp.rtrancl_refl)
  then show ?thesis by (simp add: progress_ok_def wDrainOps_def)
qed

definition wDrains :: drainSet where
  "wDrains = fst (snd (drainStart wDrainOps (Some 7) 100 True (emptyDrainSet, ())))"

lemma wDrains_reach: "drainReach wDrainOps wDrains"
  unfolding wDrains_def
  by (rule runner_start [OF start_empty, of _ "Some 7" 100 True "()" "fst (drainStart wDrainOps (Some 7) 100 True (emptyDrainSet, ()))"
        _ "snd (snd (drainStart wDrainOps (Some 7) 100 True (emptyDrainSet, ())))"]) (simp add: prod_eq_iff)

theorem drains_keep_protocol_witness:
  "fcard (fmdom (dsCycles wDrains)) \<le> 2 \<and> callsFor 0 wDrains = []"
proof -
  have "fmlookup (dsCycles wDrains) 0 = Some \<lparr>cdSession = 7, cdExpiresAt = 100, cdRetires = True, cdCanceled = False, cdPhase = Draining\<rparr>"
    by (simp add: wDrains_def drainStart_def emptyDrainSet_def addDrain_def fcard.rep_eq)
  with drains_keep_protocol [OF wDrainOps_ok wDrains_reach, of 0] show ?thesis by simp
qed


end
