(* ===== verification/Admitter.thy ===== *)
theory Admitter
  imports Routes Journal_Records Refresh_Marker
begin

text \<open>
  \<open>NativeAdmitter\<close> (\<open>pkg/share/native.go\<close>): the admissions of one agent, their exact retirement, the
  placement-failure budget with the assignment refresh it triggers, the background recovery and the close.

  What it calls is a record of operations on a world \<open>'w\<close>: its own interface
  \<open>nativeSessionOperationController\<close>, qurl-go's knock and refresh, the state store and the clock. The
  admitter's fields that several goroutines share are the record \<open>admitter\<close>. Operations on one resource
  exclude each other by the resource's lock; what operations on other resources do meanwhile is the world
  operation \<open>aoOthers\<close>, called wherever this one waits for a call to return.

  \<open>adReady\<close> says that the admitter holds a binding and a 32-byte key, \<open>adRetired\<close> is the list of the calls of
  \<open>Retire\<close> that succeeded, in order. Log lines and the clearing of secrets are left out.
\<close>

section \<open>Keys\<close>

text \<open>\<open>nativeAdmissionKey\<close>: the complete identity of an exact session.\<close>

datatype nativeAdmissionKey = AdmissionKey string uint64 millis string uint64

fun keyTuple :: "nativeAdmissionKey \<Rightarrow> string \<times> uint64 \<times> millis \<times> string \<times> uint64" where
  "keyTuple (AdmissionKey c s i r n) = (c, s, i, r, n)"

lemma keyTuple_inj: "keyTuple k = keyTuple l \<Longrightarrow> k = l"
  by (cases k; cases l) simp

instantiation nativeAdmissionKey :: linorder
begin

definition less_eq_nativeAdmissionKey :: "nativeAdmissionKey \<Rightarrow> nativeAdmissionKey \<Rightarrow> bool" where
  "k \<le> l \<longleftrightarrow> keyTuple k \<le> keyTuple l"

definition less_nativeAdmissionKey :: "nativeAdmissionKey \<Rightarrow> nativeAdmissionKey \<Rightarrow> bool" where
  "k < l \<longleftrightarrow> keyTuple k < keyTuple l"

instance
proof
  fix k l m :: nativeAdmissionKey
  show "k < l \<longleftrightarrow> k \<le> l \<and> \<not> l \<le> k"
    by (simp add: less_eq_nativeAdmissionKey_def less_nativeAdmissionKey_def less_le_not_le)
  show "k \<le> k" by (simp add: less_eq_nativeAdmissionKey_def)
  show "k \<le> l \<Longrightarrow> l \<le> m \<Longrightarrow> k \<le> m" unfolding less_eq_nativeAdmissionKey_def by (rule order_trans)
  show "k \<le> l \<Longrightarrow> l \<le> k \<Longrightarrow> k = l"
    unfolding less_eq_nativeAdmissionKey_def by (rule keyTuple_inj [OF order_antisym])
  show "k \<le> l \<or> l \<le> k" unfolding less_eq_nativeAdmissionKey_def by (rule linear)
qed

end

definition admissionKey :: "NativeSessionReceipt \<Rightarrow> nativeAdmissionKey" where
  "admissionKey r = AdmissionKey (rcCellID r) (rcSessionID r) (rcSessionIssuedAtMillis r) (rcRunID r) (rcRunAttempt r)"

definition sameSessionReceipt :: "NativeSessionReceipt \<Rightarrow> NativeSessionReceipt \<Rightarrow> bool" where
  "sameSessionReceipt a b = (rcCellID a = rcCellID b \<and> rcSessionID a = rcSessionID b \<and>
     rcSessionIssuedAtMillis a = rcSessionIssuedAtMillis b \<and> rcRunID a = rcRunID b \<and> rcRunAttempt a = rcRunAttempt b)"

section \<open>State\<close>

record nativeLiveAdmission =
  laResourceID :: string
  laOperationID :: string
  laReceipt :: NativeSessionReceipt

record nativePlacementFailureState =
  pfGeneration :: uint64
  pfFailures :: nat
  pfImmediateUsed :: bool

record admitter =
  adReady :: bool
  adHasOperations :: bool
  adClosed :: bool
  adGeneration :: uint64
  adFailures :: "(string, nativePlacementFailureState) fmap"
  adLive :: "(nativeAdmissionKey, nativeLiveAdmission) fmap"
  adPending :: "nativeAdmissionKey fset"
  adQueue :: "string fset"
  adRetired :: "nativeLiveAdmission list"

text \<open>The results of a knock and of a scan that the code reads; the open time is in seconds.\<close>

record knockResult =
  krACToken :: string
  krResourceHost :: string
  krSessionID :: uint64
  krSessionReceipt :: NativeSessionReceipt
  krOpenTime :: int

record operationScan =
  scResourceIDs :: "string list"
  scRetryableError :: "err option"

record 'w controller =
  ctRecoverPending :: "string \<Rightarrow> string fset \<Rightarrow> 'w \<Rightarrow> err option \<times> 'w"
  ctPrepareDispatch :: "string \<Rightarrow> string \<Rightarrow> string \<Rightarrow> uint64 \<Rightarrow> 'w \<Rightarrow> NativeSessionOperation res \<times> 'w"
  ctRecordMapped :: "string \<Rightarrow> NativeSessionOperation \<Rightarrow> NativeSessionReceipt \<Rightarrow> 'w \<Rightarrow> err option \<times> 'w"
  ctRecoverOperation :: "string \<Rightarrow> string \<Rightarrow> 'w \<Rightarrow> err option \<times> 'w"
  ctRetire :: "string \<Rightarrow> string \<Rightarrow> NativeSessionReceipt \<Rightarrow> 'w \<Rightarrow> err option \<times> 'w"

record 'w admitterOps =
  aoController :: "'w controller"
  aoOthers :: "admitter \<Rightarrow> 'w \<Rightarrow> admitter \<times> 'w"
  aoRunID :: "'w \<Rightarrow> string res \<times> 'w"
  aoKnock :: "string \<Rightarrow> string \<Rightarrow> string \<Rightarrow> NativeSessionOperation \<Rightarrow> 'w \<Rightarrow> knockResult option res \<times> 'w"
  aoScan :: "'w \<Rightarrow> operationScan \<times> 'w"
  aoCtxErr :: "'w \<Rightarrow> err option"
  aoLifecycleEnded :: "'w \<Rightarrow> bool"
  aoNow :: "'w \<Rightarrow> time \<times> 'w"
  aoRequestRefresh :: "string \<Rightarrow> 'w \<Rightarrow> err option \<times> 'w"
  aoLoadMarker :: "'w \<Rightarrow> RefreshMarker option res \<times> 'w"
  aoMarkAttempted :: "'w \<Rightarrow> err option \<times> 'w"
  aoMarkSucceeded :: "'w \<Rightarrow> err option \<times> 'w"
  aoClearMarker :: "'w \<Rightarrow> err option \<times> 'w"
  aoHandoff :: "'w \<Rightarrow> err option \<times> 'w"
  aoValidateContinuity :: "'w \<Rightarrow> err option \<times> 'w"
  aoRefreshRuntime :: "'w \<Rightarrow> (bool \<times> string \<times> nat) res \<times> 'w"
  aoLockRuntime :: "'w \<Rightarrow> err option \<times> 'w"
  aoCancel :: "'w \<Rightarrow> 'w"
  aoWait :: "duration \<Rightarrow> 'w \<Rightarrow> bool \<times> 'w"
  aoWaitWake :: "duration option \<Rightarrow> 'w \<Rightarrow> bool \<times> 'w"
  aoCloseStore :: "'w \<Rightarrow> err option \<times> 'w"

type_synonym 'w ad = "admitter \<times> 'w"

text \<open>A call, and what others did until it returned.\<close>

definition waits :: "'w admitterOps \<Rightarrow> admitter \<Rightarrow> 'a \<times> 'w \<Rightarrow> 'a \<times> 'w ad" where
  "waits oo a r = (fst r, aoOthers oo a (snd r))"

section \<open>The placement-failure budget\<close>

definition failureState :: "admitter \<Rightarrow> string \<Rightarrow> nativePlacementFailureState" where
  "failureState a rid = (case fmlookup (adFailures a) rid of
      None \<Rightarrow> \<lparr>pfGeneration = 0, pfFailures = 0, pfImmediateUsed = False\<rparr> | Some s \<Rightarrow> s)"

definition recordPlacementFailure :: "string \<Rightarrow> uint64 \<Rightarrow> admitter \<Rightarrow> bool \<times> admitter" where
  "recordPlacementFailure rid generation a =
     (let s = failureState a rid;
          s = (if pfGeneration s \<noteq> generation then s\<lparr>pfGeneration := generation, pfFailures := 0\<rparr> else s);
          s = s\<lparr>pfFailures := pfFailures s + 1\<rparr>
      in (5 \<le> pfFailures s, a\<lparr>adFailures := fmupd rid s (adFailures a)\<rparr>))"

definition claimImmediatePlacementRefresh :: "string \<Rightarrow> admitter \<Rightarrow> bool \<times> admitter" where
  "claimImmediatePlacementRefresh rid a =
     (let s = failureState a rid in
      if pfImmediateUsed s then (False, a)
      else (True, a\<lparr>adFailures := fmupd rid (s\<lparr>pfImmediateUsed := True\<rparr>) (adFailures a)\<rparr>))"

definition releaseImmediatePlacementRefresh :: "string \<Rightarrow> admitter \<Rightarrow> admitter" where
  "releaseImmediatePlacementRefresh rid a = (case fmlookup (adFailures a) rid of
      None \<Rightarrow> a
    | Some s \<Rightarrow> if \<not> pfImmediateUsed s then a
        else a\<lparr>adFailures := fmupd rid (s\<lparr>pfImmediateUsed := False\<rparr>) (adFailures a)\<rparr>)"

definition clearPlacementFailureCount :: "string \<Rightarrow> admitter \<Rightarrow> admitter" where
  "clearPlacementFailureCount rid a = (case fmlookup (adFailures a) rid of
      None \<Rightarrow> a
    | Some s \<Rightarrow> if \<not> pfImmediateUsed s then a\<lparr>adFailures := fmdrop rid (adFailures a)\<rparr>
        else a\<lparr>adFailures := fmupd rid (s\<lparr>pfFailures := 0\<rparr>) (adFailures a)\<rparr>)"

definition resetPlacementFailures :: "string \<Rightarrow> admitter \<Rightarrow> admitter" where
  "resetPlacementFailures rid a = a\<lparr>adFailures := fmdrop rid (adFailures a)\<rparr>"

section \<open>Live admissions\<close>

definition trackAdmission :: "Admission \<Rightarrow> string \<Rightarrow> admitter \<Rightarrow> nativeAdmissionKey res \<times> admitter" where
  "trackAdmission admission operationID a = (case validateAdmissionReceipt admission of
      Some x \<Rightarrow> (Inl x, a)
    | None \<Rightarrow>
        if operationID = '''' then (Inl (NewErr ''track native admission: operation ID is empty''), a)
        else let key = admissionKey (amSessionReceipt admission);
                 new = \<lparr>laResourceID = amResourcePublicKey admission, laOperationID = operationID,
                         laReceipt = amSessionReceipt admission\<rparr> in
          (case fmlookup (adLive a) key of
             Some existing \<Rightarrow>
               if laResourceID existing \<noteq> amResourcePublicKey admission \<or> laOperationID existing \<noteq> operationID \<or>
                  \<not> sameSessionReceipt (laReceipt existing) (amSessionReceipt admission)
               then (Inl (NewErr ''track native admission: exact-session identity conflicts with a live admission''), a)
               else (Inr key, a\<lparr>adLive := fmupd key new (adLive a)\<rparr>)
           | None \<Rightarrow> (Inr key, a\<lparr>adLive := fmupd key new (adLive a)\<rparr>)))"

definition liveOperationIDs :: "string \<Rightarrow> admitter \<Rightarrow> string fset" where
  "liveOperationIDs rid a = ffilter (\<lambda>i. i \<noteq> '''')
     (laOperationID |`| ffilter (\<lambda>l. laResourceID l = rid) ((\<lambda>k. the (fmlookup (adLive a) k)) |`| fmdom (adLive a)))"

definition queueNativeRetirementRecovery :: "bool \<Rightarrow> string \<Rightarrow> admitter \<Rightarrow> admitter" where
  "queueNativeRetirementRecovery ended rid a =
     (if rid = '''' \<or> ended then a else a\<lparr>adQueue := finsert rid (adQueue a)\<rparr>)"

definition retireOne ::
  "'w admitterOps \<Rightarrow> nativeAdmissionKey \<Rightarrow> nativeLiveAdmission \<Rightarrow> 'w ad \<Rightarrow> err option \<times> 'w ad" where
  "retireOne oo key live s = (case s of (a, w) \<Rightarrow>
     if \<not> adHasOperations a then (Some (NewErr ''native admitter has no durable session-operation authority''), s)
     else case waits oo a (ctRetire (aoController oo) (laResourceID live) (laOperationID live) (laReceipt live) w) of
         (Some x, (a, w)) \<Rightarrow> (Some x, (queueNativeRetirementRecovery (aoLifecycleEnded oo w) (laResourceID live) a, w))
       | (None, (a, w)) \<Rightarrow>
           let a = a\<lparr>adRetired := adRetired a @ [live]\<rparr> in
           (case fmlookup (adLive a) key of
              None \<Rightarrow> (None, (a\<lparr>adPending := adPending a |-| {|key|}\<rparr>, w))
            | Some current \<Rightarrow>
                if laResourceID current \<noteq> laResourceID live \<or> laOperationID current \<noteq> laOperationID live \<or>
                   \<not> sameSessionReceipt (laReceipt current) (laReceipt live)
                then (Some (NewErr ''retire native admission: live session changed during exact retirement''), (a, w))
                else (None, (a\<lparr>adPending := adPending a |-| {|key|}, adLive := fmdrop key (adLive a)\<rparr>, w))))"

text \<open>
  \<open>retirePendingForResource\<close>. Only holders of a resource's lock mark its sessions pending, so the loop goes
  through the sessions that are pending for the resource when it starts; a pending mark without a live
  session is dropped on the way.
\<close>

definition pendingFor :: "string \<Rightarrow> admitter \<Rightarrow> nativeAdmissionKey list" where
  "pendingFor rid a = sorted_list_of_fset
     (ffilter (\<lambda>k. case fmlookup (adLive a) k of None \<Rightarrow> False | Some l \<Rightarrow> laResourceID l = rid) (adPending a))"

definition dropStalePending :: "admitter \<Rightarrow> admitter" where
  "dropStalePending a = a\<lparr>adPending := ffilter (\<lambda>k. k |\<in>| fmdom (adLive a)) (adPending a)\<rparr>"

fun retireKeys :: "'w admitterOps \<Rightarrow> string \<Rightarrow> nativeAdmissionKey list \<Rightarrow> 'w ad \<Rightarrow> err option \<times> 'w ad" where
  "retireKeys oo rid [] s = (None, s)"
| "retireKeys oo rid (key # keys) s = (case fmlookup (adLive (fst s)) key of
      None \<Rightarrow> retireKeys oo rid keys s
    | Some live \<Rightarrow>
        if laResourceID live \<noteq> rid \<or> key |\<notin>| adPending (fst s) then retireKeys oo rid keys s
        else (case retireOne oo key live s of
            (Some x, s) \<Rightarrow> (Some x, s)
          | (None, s) \<Rightarrow> retireKeys oo rid keys s))"

definition retirePendingForResource :: "'w admitterOps \<Rightarrow> string \<Rightarrow> 'w ad \<Rightarrow> err option \<times> 'w ad" where
  "retirePendingForResource oo rid s =
     (let a = dropStalePending (fst s) in retireKeys oo rid (pendingFor rid a) (a, snd s))"

text \<open>\<open>NativeAdmitter.Retire\<close>.\<close>

definition admitterRetire :: "'w admitterOps \<Rightarrow> Admission \<Rightarrow> 'w ad \<Rightarrow> err option \<times> 'w ad" where
  "admitterRetire oo admission s = (case s of (a, w) \<Rightarrow>
     (case validateAdmissionReceipt admission of
        Some x \<Rightarrow> (Some x, s)
      | None \<Rightarrow>
          if adClosed a \<or> \<not> adReady a then (Some (NewErr ''native admitter is closed''), s)
          else let key = admissionKey (amSessionReceipt admission) in
            (case fmlookup (adLive a) key of
               None \<Rightarrow> (None, s)
             | Some live \<Rightarrow>
                 if laResourceID live \<noteq> amResourcePublicKey admission \<or>
                    \<not> sameSessionReceipt (laReceipt live) (amSessionReceipt admission)
                 then (Some (NewErr ''retire native admission: exact-session receipt does not match the live admission''), s)
                 else retireOne oo key live (a\<lparr>adPending := finsert key (adPending a)\<rparr>, w))))"

section \<open>One admission\<close>

definition recoverOperationCleanup :: "'w admitterOps \<Rightarrow> string \<Rightarrow> string \<Rightarrow> 'w ad \<Rightarrow> err option \<times> 'w ad" where
  "recoverOperationCleanup oo rid operationID s =
     waits oo (fst s) (ctRecoverOperation (aoController oo) rid operationID (snd s))"

text \<open>The error of a failed knock once its durable operation has been cleaned up.\<close>

definition afterCleanup :: "'w admitterOps \<Rightarrow> string \<Rightarrow> string \<Rightarrow> err \<Rightarrow> 'w ad \<Rightarrow> Admission res \<times> 'w ad" where
  "afterCleanup oo rid operationID x s = (case recoverOperationCleanup oo rid operationID s of
      (c, s) \<Rightarrow> (Inl (the (withNativeSessionCleanupError (Some x) c)), s))"

definition knockError :: "err \<Rightarrow> err" where
  "knockError x = (if asDeny x = Some ''52004'' then Multi (TMsg ''resource gone'') [Sentinel SResourceGone, x] else x)"

definition admissionOf :: "string \<Rightarrow> string \<Rightarrow> string \<Rightarrow> uint64 \<Rightarrow> knockResult \<Rightarrow> Admission" where
  "admissionOf knockRID rid runID runAttempt r =
     \<lparr>amKnockResourceID = knockRID, amResourcePublicKey = rid, amRunID = runID, amRunAttempt = runAttempt,
      amToken = krACToken r, amResourceHost = krResourceHost r, amSessionID = krSessionID r,
      amSessionReceipt = krSessionReceipt r, amOpenTime = krOpenTime r * second\<rparr>"

text \<open>From the authenticated answer on: the record, the local checks and the tracking.\<close>

definition settleKnock ::
  "'w admitterOps \<Rightarrow> string \<Rightarrow> string \<Rightarrow> string \<Rightarrow> NativeSessionOperation \<Rightarrow> knockResult \<Rightarrow> 'w ad \<Rightarrow> Admission res \<times> 'w ad" where
  "settleKnock oo knockRID rid runID operation r s =
     (case waits oo (fst s) (ctRecordMapped (aoController oo) rid operation (krSessionReceipt r) (snd s)) of
        (Some x, s) \<Rightarrow> afterCleanup oo rid (opOperationID operation) x s
      | (None, s) \<Rightarrow>
          let admission = admissionOf knockRID rid runID 1 r in
          (case validateAdmission admission knockRID rid of
             Some x \<Rightarrow> (case trackAdmission admission (opOperationID operation) (fst s) of
                 (Inl y, a) \<Rightarrow> afterCleanup oo rid (opOperationID operation) (the (errorsJoin [Some x, Some y])) (a, snd s)
               | (Inr key, a) \<Rightarrow>
                   (case retireOne oo key (the (fmlookup (adLive a) key)) (a\<lparr>adPending := finsert key (adPending a)\<rparr>, snd s) of
                      (c, s) \<Rightarrow> (Inl (the (withNativeSessionCleanupError (Some x) c)), s)))
           | None \<Rightarrow> (case trackAdmission admission (opOperationID operation) (fst s) of
                 (Inl y, a) \<Rightarrow> afterCleanup oo rid (opOperationID operation) y (a, snd s)
               | (Inr _, a) \<Rightarrow> (Inr admission, (a, snd s)))))"

definition knock :: "'w admitterOps \<Rightarrow> string \<Rightarrow> string \<Rightarrow> 'w ad \<Rightarrow> Admission res \<times> 'w ad" where
  "knock oo knockRID rid s = (case s of (a, w) \<Rightarrow> (case aoRunID oo w of
      (Inl x, w) \<Rightarrow> (Inl x, (a, w))
    | (Inr runID, w) \<Rightarrow>
        (case waits oo a (ctPrepareDispatch (aoController oo) knockRID rid runID 1 w) of
           (Inl x, s) \<Rightarrow> (Inl x, s)
         | (Inr operation, (a, w)) \<Rightarrow>
             (case waits oo a (aoKnock oo knockRID rid runID operation w) of
                (Inl x, s) \<Rightarrow> afterCleanup oo rid (opOperationID operation) (knockError x) s
              | (Inr None, s) \<Rightarrow> afterCleanup oo rid (opOperationID operation) (NewErr ''native knock returned no admission'') s
              | (Inr (Some r), s) \<Rightarrow> settleKnock oo knockRID rid runID operation r s))))"

text \<open>The admission, the generation it was tried in and whether its failure may lead to a refresh.\<close>

definition admitOnce :: "'w admitterOps \<Rightarrow> string \<Rightarrow> string \<Rightarrow> 'w ad \<Rightarrow> (Admission res \<times> uint64 \<times> bool) \<times> 'w ad" where
  "admitOnce oo knockRID rid s = (case s of (a, w) \<Rightarrow>
     if adClosed a \<or> \<not> adReady a then ((Inl (NewErr ''native admitter is closed''), adGeneration a, False), s)
     else if \<not> adHasOperations a then
       ((Inl (NewErr ''native admitter has no durable session-operation authority''), adGeneration a, False), s)
     else case waits oo a (ctRecoverPending (aoController oo) rid (liveOperationIDs rid a) w) of
         (Some x, s) \<Rightarrow> ((Inl (Errorf ''recover prior native session operation before replacement'' x), adGeneration a, False), s)
       | (None, s) \<Rightarrow> (case retirePendingForResource oo rid s of
           (Some x, s) \<Rightarrow> ((Inl (Errorf ''retire prior native NHP session before replacement'' x), adGeneration a, False), s)
         | (None, s) \<Rightarrow> (case knock oo knockRID rid s of (r, s) \<Rightarrow> ((r, adGeneration a, True), s))))"

section \<open>The assignment refresh\<close>

text \<open>
  \<open>refreshReadyOnce\<close> with \<open>assembleRefreshedNativeRuntime\<close> and \<open>assembleNativeRuntime\<close>: qurl-go's refresh
  answers whether the runtime is complete, the agent it is bound to and the length of its key. The result
  is that length.
\<close>

definition assembleNativeRuntime ::
  "'w admitterOps \<Rightarrow> string \<Rightarrow> bool \<times> string \<times> nat \<Rightarrow> 'w \<Rightarrow> nat res \<times> 'w" where
  "assembleNativeRuntime oo agentID runtime w = (case runtime of (complete, bound, keyLength) \<Rightarrow>
     if \<not> complete then (Inl (NewErr ''qurl-go returned an incomplete native runtime''), w)
     else if trimSpace agentID \<noteq> '''' \<and> bound \<noteq> trimSpace agentID then
       (Inl (NewErr ''configured agent identity conflicts with persisted identity''), w)
     else case aoValidateContinuity oo w of
         (Some x, w) \<Rightarrow> (Inl x, w)
       | (None, w) \<Rightarrow> (Inr keyLength, w))"

definition assembleRefreshedNativeRuntime ::
  "'w admitterOps \<Rightarrow> string \<Rightarrow> bool \<times> string \<times> nat \<Rightarrow> 'w \<Rightarrow> nat res \<times> 'w" where
  "assembleRefreshedNativeRuntime oo agentID runtime w = (case assembleNativeRuntime oo agentID runtime w of
      (Inl x, w) \<Rightarrow> (Inl x, w)
    | (Inr keyLength, w) \<Rightarrow> (Inr keyLength, snd (aoMarkSucceeded oo w)))"

definition refreshReadyOnce :: "'w admitterOps \<Rightarrow> string \<Rightarrow> RefreshMarker \<Rightarrow> string \<Rightarrow> 'w \<Rightarrow> nat res \<times> 'w" where
  "refreshReadyOnce oo agentID marker mode w =
     (if mode = ''disabled'' then
        (Inl (NewErr ''native assignment refresh is disabled while recovery is required''), w)
      else case aoNow oo w of (now, w) \<Rightarrow>
        if 0 < rmNextAttemptUnixMilli marker \<and> now < rmNextAttemptUnixMilli marker * 1000000 then
          (Inl (Sentinel SRefreshBackoffPending), w)
        else (case aoMarkAttempted oo w of
            (Some x, w) \<Rightarrow> (Inl (Errorf ''advance assignment refresh retry state'' x), w)
          | (None, w) \<Rightarrow> (case aoHandoff oo w of
              (Some x, w) \<Rightarrow> (Inl x, w)
            | (None, w) \<Rightarrow> (case aoRefreshRuntime oo w of
                (Inl x, w) \<Rightarrow> (Inl (case aoCtxErr oo w of Some y \<Rightarrow> y | None \<Rightarrow> x), w)
              | (Inr runtime, w) \<Rightarrow> assembleRefreshedNativeRuntime oo agentID runtime w))))"

definition prepareRefreshedRuntime :: "'w admitterOps \<Rightarrow> string \<Rightarrow> string \<Rightarrow> string \<Rightarrow> 'w \<Rightarrow> err option \<times> 'w" where
  "prepareRefreshedRuntime oo agentID mode reason w = (case aoRequestRefresh oo reason w of
      (Some x, w) \<Rightarrow> (Some (Errorf ''request assignment refresh'' x), w)
    | (None, w) \<Rightarrow> (case aoLoadMarker oo w of
        (Inl x, w) \<Rightarrow> (errorsJoin [Some (NewErr ''assignment refresh state missing''), Some x], w)
      | (Inr None, w) \<Rightarrow> (errorsJoin [Some (NewErr ''assignment refresh state missing''), None], w)
      | (Inr (Some marker), w) \<Rightarrow> (case refreshReadyOnce oo agentID marker mode w of
          (Inl x, w) \<Rightarrow> (Some x, w)
        | (Inr keyLength, w) \<Rightarrow>
            (if keyLength \<noteq> 32 then Some (NewErr ''refreshed native runtime key has a wrong length'') else None, w))))"

definition refresh ::
  "'w admitterOps \<Rightarrow> string \<Rightarrow> string \<Rightarrow> uint64 \<Rightarrow> string \<Rightarrow> 'w ad \<Rightarrow> err option \<times> 'w ad" where
  "refresh oo agentID mode failedGeneration reason s = (case s of (a, w) \<Rightarrow>
     if adClosed a \<or> \<not> adReady a then (Some (NewErr ''refresh native admission runtime: native admitter is closed''), s)
     else if adGeneration a \<noteq> failedGeneration then (None, s)
     else case waits oo a (prepareRefreshedRuntime oo agentID mode reason w) of
         (Some x, s) \<Rightarrow> (Some x, s)
       | (None, (a, w)) \<Rightarrow> (case waits oo a (aoLockRuntime oo w) of
           (Some x, s) \<Rightarrow> (Some x, s)
         | (None, (a, w)) \<Rightarrow>
             if adClosed a \<or> \<not> adReady a then
               (Some (NewErr ''refresh native admission runtime: native admitter is closed''), (a, w))
             else if adGeneration a \<noteq> failedGeneration then (None, (a, w))
             else (None, (a\<lparr>adGeneration := adGeneration a + 1\<rparr>, w))))"

section \<open>\<open>Admit\<close>\<close>

definition nativeRefreshReasonImmediate :: string where
  "nativeRefreshReasonImmediate = ''stale or expired native assignment placement''"
definition nativeRefreshReasonSustained :: string where
  "nativeRefreshReasonSustained = ''sustained native NHP knock failures''"

text \<open>The decision after a failed admission: the reason of the refresh, None for no refresh.\<close>

definition refreshDecision :: "err \<Rightarrow> string \<Rightarrow> uint64 \<Rightarrow> bool \<Rightarrow> admitter \<Rightarrow> string option \<times> admitter" where
  "refreshDecision x rid generation eligible a =
     (if \<not> eligible then (None, a)
      else if \<not> refreshableKnockError (Some x) then (None, clearPlacementFailureCount rid a)
      else case recordPlacementFailure rid generation a of
          (True, a) \<Rightarrow> (Some nativeRefreshReasonSustained, a)
        | (False, a) \<Rightarrow>
            if immediatePlacementRefresh x then
              (case claimImmediatePlacementRefresh rid a of
                 (True, a) \<Rightarrow> (Some nativeRefreshReasonImmediate, a)
               | (False, a) \<Rightarrow> (None, a))
            else (None, a))"

definition Admit ::
  "'w admitterOps \<Rightarrow> string \<Rightarrow> string \<Rightarrow> string \<Rightarrow> string \<Rightarrow> 'w ad \<Rightarrow> Admission res \<times> 'w ad" where
  "Admit oo agentID mode knockRID rid s = (case admitOnce oo knockRID rid s of
      ((Inr admission, _, _), (a, w)) \<Rightarrow> (Inr admission, (resetPlacementFailures rid a, w))
    | ((Inl x, generation, eligible), (a, w)) \<Rightarrow> (case refreshDecision x rid generation eligible a of
        (None, a) \<Rightarrow> (Inl x, (a, w))
      | (Some reason, a) \<Rightarrow> (case refresh oo agentID mode generation reason (a, w) of
          (Some y, (a, w)) \<Rightarrow>
            (Inl (the (errorsJoin [Some x, Some y])),
             (if reason = nativeRefreshReasonImmediate then releaseImmediatePlacementRefresh rid a else a, w))
        | (None, s) \<Rightarrow> (case admitOnce oo knockRID rid s of
            ((Inr admission, _, _), (a, w)) \<Rightarrow> (Inr admission, (resetPlacementFailures rid a, w))
          | ((Inl y, _, _), s) \<Rightarrow> (Inl y, s)))))"

end
