(* ===== verification/Native_Open.thy ===== *)
theory Native_Open
  imports Admitter Proxy_Names
begin

text \<open>
  Opening a native runtime (\<open>OpenNativeRuntime\<close> in \<open>pkg/share/native.go\<close>): the offline open, the refresh
  loop with its durable schedule, credential recovery, first registration, and the one recovery an explicit
  login may spend.

  The store, the clock and the refresh are operations of \<open>Admitter\<close>; qurl-go's other entry points are
  \<open>openOps\<close>. A runtime is whether qurl-go's answer is complete, the agent it is bound to and the length of
  its key, an opened runtime that length and the kind of the open. The list of calls in the state is
  history: no code reads it. The refresh loop has no bound of its own, so the model runs it for a number of
  rounds and is None when they do not suffice. Options are left out.
\<close>

section \<open>Configuration and calls\<close>

text \<open>qurl-go's key kinds: none required, the two headless kinds, any other.\<close>

datatype registrationKeyKind = KindUnset | KindBootstrap | KindConnectorBootstrap | KindOther

record nativeRuntimeConfig =
  ncStateDir :: string
  ncAgentID :: string
  ncRefreshMode :: string
  ncKeyKind :: registrationKeyKind
  ncEnrollment :: bool
  ncRecovery :: bool

datatype openKind = OpenWarm | OpenRegistration | OpenRefresh | OpenRecovery

datatype openCall =
    OcOffline "err option"
  | OcRegister
  | OcAttempted
  | OcRefresh
  | OcRecover err
  | OcClose

type_synonym nativeRuntime = "bool \<times> string \<times> nat"

record 'w openOps =
  ooStore :: "'w admitterOps"
  ooNewStore :: "string \<Rightarrow> string \<Rightarrow> 'w \<Rightarrow> err option \<times> 'w"
  ooOffline :: "'w \<Rightarrow> nativeRuntime res \<times> 'w"
  ooRegister :: "'w \<Rightarrow> nativeRuntime res \<times> 'w"
  ooRecover :: "'w \<Rightarrow> nativeRuntime res \<times> 'w"
  ooLoadState :: "'w \<Rightarrow> bool res \<times> 'w"
  ooWait :: "duration \<Rightarrow> 'w \<Rightarrow> err option \<times> 'w"

record 'w openState =
  osWorld :: 'w
  osCalls :: "openCall list"

definition called :: "openCall \<Rightarrow> 'w \<Rightarrow> 'w openState \<Rightarrow> 'w openState" where
  "called c w s = s\<lparr>osWorld := w, osCalls := osCalls s @ [c]\<rparr>"

text \<open>A call of the store, which is not logged.\<close>

definition storeCall :: "('w \<Rightarrow> 'a \<times> 'w) \<Rightarrow> 'w openState \<Rightarrow> 'a \<times> 'w openState" where
  "storeCall f s = (case f (osWorld s) of (r, w) \<Rightarrow> (r, s\<lparr>osWorld := w\<rparr>))"

definition refreshMode :: "nativeRuntimeConfig \<Rightarrow> string" where
  "refreshMode cfg = (let m = toLower (trimSpace (ncRefreshMode cfg)) in if m = '''' then ''auto'' else m)"

section \<open>The ways to a runtime\<close>

definition offlineOpen ::
  "'w openOps \<Rightarrow> nativeRuntimeConfig \<Rightarrow> 'w openState \<Rightarrow> (nat \<times> openKind) res \<times> 'w openState" where
  "offlineOpen oo cfg s = (case storeCall (aoHandoff (ooStore oo)) s of
      (Some x, s) \<Rightarrow> (Inl x, s)
    | (None, s) \<Rightarrow> (case storeCall (ooOffline oo) s of
        (Inl x, s) \<Rightarrow> (Inl x, s)
      | (Inr runtime, s) \<Rightarrow> (case storeCall (assembleNativeRuntime (ooStore oo) (ncAgentID cfg) runtime) s of
          (r, s) \<Rightarrow> (map_sum id (\<lambda>n. (n, OpenWarm)) r, s))))"

text \<open>The log keeps the outcome of the whole offline open.\<close>

definition warmOpenNativeRuntime ::
  "'w openOps \<Rightarrow> nativeRuntimeConfig \<Rightarrow> 'w openState \<Rightarrow> (nat \<times> openKind) res \<times> 'w openState" where
  "warmOpenNativeRuntime oo cfg s = (case offlineOpen oo cfg s of
      (r, s) \<Rightarrow> (r, called (OcOffline (case r of Inl x \<Rightarrow> Some x | Inr _ \<Rightarrow> None)) (osWorld s) s))"

definition recoverNativeCredential ::
  "'w openOps \<Rightarrow> nativeRuntimeConfig \<Rightarrow> err \<Rightarrow> 'w openState \<Rightarrow> (nat \<times> openKind) res \<times> 'w openState" where
  "recoverNativeCredential oo cfg trigger s =
     (if \<not> mayConsumeNativeRecoveryAuthority trigger \<or> \<not> ncRecovery cfg then (Inl trigger, s)
      else case storeCall (aoHandoff (ooStore oo)) s of
          (Some x, s) \<Rightarrow> (Inl (Errorf ''open native state for credential recovery'' x), s)
        | (None, s) \<Rightarrow> (case ooRecover oo (osWorld s) of
            (Inl x, w) \<Rightarrow> (Inl (Errorf ''recover native credential'' x), called (OcRecover trigger) w s)
          | (Inr runtime, w) \<Rightarrow>
              (case storeCall (assembleRefreshedNativeRuntime (ooStore oo) (ncAgentID cfg) runtime) (called (OcRecover trigger) w s) of
                 (r, s) \<Rightarrow> (map_sum id (\<lambda>n. (n, OpenRecovery)) r, s))))"

text \<open>\<open>waitNativeRefresh\<close> until the persisted deadline, if it lies ahead.\<close>

definition awaitRefresh :: "'w openOps \<Rightarrow> RefreshMarker \<Rightarrow> 'w openState \<Rightarrow> err option \<times> 'w openState" where
  "awaitRefresh oo marker s =
     (if 0 < rmNextAttemptUnixMilli marker then
        (case storeCall (aoNow (ooStore oo)) s of (now, s) \<Rightarrow>
           let wait = rmNextAttemptUnixMilli marker * 1000000 - now in
           if 0 < wait then storeCall (ooWait oo wait) s else (None, s))
      else (None, s))"

fun refreshRounds ::
  "nat \<Rightarrow> 'w openOps \<Rightarrow> nativeRuntimeConfig \<Rightarrow> RefreshMarker \<Rightarrow> 'w openState \<Rightarrow>
    ((nat \<times> openKind) res \<times> 'w openState) option" where
  "refreshRounds 0 oo cfg marker s = None"
| "refreshRounds (Suc n) oo cfg marker s = (case awaitRefresh oo marker s of
      (Some x, s) \<Rightarrow> Some (Inl x, s)
    | (None, s) \<Rightarrow> (case aoMarkAttempted (ooStore oo) (osWorld s) of
        (Some x, w) \<Rightarrow> Some (Inl (Errorf ''advance assignment refresh retry state'' x), s\<lparr>osWorld := w\<rparr>)
      | (None, w) \<Rightarrow> (case storeCall (aoHandoff (ooStore oo)) (called OcAttempted w s) of
          (Some x, s) \<Rightarrow> Some (Inl x, s)
        | (None, s) \<Rightarrow> (case aoRefreshRuntime (ooStore oo) (osWorld s) of
            (Inr runtime, w) \<Rightarrow>
              (case storeCall (assembleRefreshedNativeRuntime (ooStore oo) (ncAgentID cfg) runtime) (called OcRefresh w s) of
                 (r, s) \<Rightarrow> Some (map_sum id (\<lambda>k. (k, OpenRefresh)) r, s))
          | (Inl x, w) \<Rightarrow>
              let s = called OcRefresh w s in
              (case aoCtxErr (ooStore oo) (osWorld s) of
                 Some y \<Rightarrow> Some (Inl y, s)
               | None \<Rightarrow>
                   if permanentRefreshError (Some x) then Some (Inl x, s)
                   else (case storeCall (aoLoadMarker (ooStore oo)) s of
                       (Inl y, s) \<Rightarrow> Some (Inl (Errorf ''reload assignment refresh retry state'' y), s)
                     | (Inr m, s) \<Rightarrow> refreshRounds n oo cfg (case m of Some m \<Rightarrow> m | None \<Rightarrow> zeroMarker) s))))))"

definition refreshUntilOpen ::
  "nat \<Rightarrow> 'w openOps \<Rightarrow> nativeRuntimeConfig \<Rightarrow> RefreshMarker \<Rightarrow> 'w openState \<Rightarrow>
    ((nat \<times> openKind) res \<times> 'w openState) option" where
  "refreshUntilOpen n oo cfg marker s =
     (if refreshMode cfg = ''disabled'' then
        Some (Inl (NewErr ''native assignment refresh is disabled while recovery is required''), s)
      else refreshRounds n oo cfg marker s)"

text \<open>A refresh that fails for good may be followed by a credential recovery.\<close>

definition refreshOrRecover ::
  "nat \<Rightarrow> 'w openOps \<Rightarrow> nativeRuntimeConfig \<Rightarrow> RefreshMarker \<Rightarrow> 'w openState \<Rightarrow>
    ((nat \<times> openKind) res \<times> 'w openState) option" where
  "refreshOrRecover n oo cfg marker s = (case refreshUntilOpen n oo cfg marker s of
      None \<Rightarrow> None
    | Some (Inr r, s) \<Rightarrow> Some (Inr r, s)
    | Some (Inl x, s) \<Rightarrow> Some (recoverNativeCredential oo cfg x s))"

text \<open>First registration, once the offline open has failed with \<open>openErr\<close>.\<close>

definition registerNativeRuntime ::
  "'w openOps \<Rightarrow> nativeRuntimeConfig \<Rightarrow> 'w openState \<Rightarrow> (nat \<times> openKind) res \<times> 'w openState" where
  "registerNativeRuntime oo cfg s =
     (if \<not> ncEnrollment cfg then (Inl (NewErr ''open native runtime: enrollment credential is required for first registration''), s)
      else case storeCall (aoHandoff (ooStore oo)) s of
          (Some x, s) \<Rightarrow> (Inl x, s)
        | (None, s) \<Rightarrow> (case ooRegister oo (osWorld s) of
            (Inl x, w) \<Rightarrow> (Inl x, called OcRegister w s)
          | (Inr runtime, w) \<Rightarrow>
              (case storeCall (assembleNativeRuntime (ooStore oo) (ncAgentID cfg) runtime) (called OcRegister w s) of
                 (r, s) \<Rightarrow> (map_sum id (\<lambda>k. (k, OpenRegistration)) r, s))))"

definition registerOrResume ::
  "'w openOps \<Rightarrow> nativeRuntimeConfig \<Rightarrow> err \<Rightarrow> 'w openState \<Rightarrow> (nat \<times> openKind) res \<times> 'w openState" where
  "registerOrResume oo cfg openErr s =
     (if errorsIs openErr QAgentStateNotFound then registerNativeRuntime oo cfg s
      else if \<not> errorsIs openErr QInvalidRegisterConfig \<or> \<not> ncEnrollment cfg then (Inl openErr, s)
      else case storeCall (aoHandoff (ooStore oo)) s of
          (Some x, s) \<Rightarrow> (Inl (the (errorsJoin [Some openErr, Some x])), s)
        | (None, s) \<Rightarrow> (case storeCall (ooLoadState oo) s of
            (Inl x, s) \<Rightarrow> (Inl (the (errorsJoin [Some openErr, Some x])), s)
          | (Inr incomplete, s) \<Rightarrow> if incomplete then registerNativeRuntime oo cfg s else (Inl openErr, s)))"

section \<open>\<open>OpenNativeRuntime\<close>\<close>

text \<open>Without a marker: the offline open and what its failure leads to.\<close>

definition openUnmarked ::
  "nat \<Rightarrow> 'w openOps \<Rightarrow> nativeRuntimeConfig \<Rightarrow> 'w openState \<Rightarrow> ((nat \<times> openKind) res \<times> 'w openState) option" where
  "openUnmarked n oo cfg s = (case warmOpenNativeRuntime oo cfg s of
      (Inr r, s) \<Rightarrow> Some (Inr r, s)
    | (Inl x, s) \<Rightarrow>
        if errorsIs x QAssignmentLeaseExpired then
          (case storeCall (aoRequestRefresh (ooStore oo) ''assigned NHP cell lease expired'') s of
             (Some y, s) \<Rightarrow> Some (Inl (Errorf ''record assignment refresh request'' y), s)
           | (None, s) \<Rightarrow> (case storeCall (aoLoadMarker (ooStore oo)) s of
               (Inl y, s) \<Rightarrow> Some (Inl (the (errorsJoin [Some (NewErr ''assignment refresh state missing after lease expiry''), Some y])), s)
             | (Inr None, s) \<Rightarrow> Some (Inl (the (errorsJoin [Some (NewErr ''assignment refresh state missing after lease expiry''), None])), s)
             | (Inr (Some marker), s) \<Rightarrow> refreshOrRecover n oo cfg marker s))
        else if mayConsumeNativeRecoveryAuthority x then Some (recoverNativeCredential oo cfg x s)
        else Some (registerOrResume oo cfg x s))"

text \<open>With a marker: a refresh that succeeded before is opened offline first.\<close>

definition openMarked ::
  "nat \<Rightarrow> 'w openOps \<Rightarrow> nativeRuntimeConfig \<Rightarrow> RefreshMarker \<Rightarrow> 'w openState \<Rightarrow>
    ((nat \<times> openKind) res \<times> 'w openState) option" where
  "openMarked n oo cfg marker s =
     (if 0 < rmRefreshSucceededUnixMilli marker then
        (case warmOpenNativeRuntime oo cfg s of
           (Inr r, s) \<Rightarrow> Some (Inr r, s)
         | (Inl x, s) \<Rightarrow>
             if mayConsumeNativeRecoveryAuthority x then Some (recoverNativeCredential oo cfg x s)
             else if \<not> errorsIs x QAssignmentLeaseExpired \<and> permanentRefreshError (Some x) then Some (Inl x, s)
             else refreshOrRecover n oo cfg marker s)
      else refreshOrRecover n oo cfg marker s)"

text \<open>The marker to go by: one that cannot be decoded is removed, any other failure to read it is an error.\<close>

definition loadOpenMarker :: "'w openOps \<Rightarrow> 'w openState \<Rightarrow> RefreshMarker option res \<times> 'w openState" where
  "loadOpenMarker oo s = (case storeCall (aoLoadMarker (ooStore oo)) s of
      (Inr m, s) \<Rightarrow> (Inr m, s)
    | (Inl x, s) \<Rightarrow>
        if \<not> errorsIs x SInvalidRefreshMarker then (Inl (Errorf ''load assignment refresh state'' x), s)
        else (case storeCall (aoClearMarker (ooStore oo)) s of
            (Some y, s) \<Rightarrow> (Inl (the (errorsJoin [Some (Errorf ''load assignment refresh state'' x),
                Some (Errorf ''clear corrupt assignment refresh state'' y)])), s)
          | (None, s) \<Rightarrow> (Inr None, s)))"

definition openWithStore ::
  "nat \<Rightarrow> 'w openOps \<Rightarrow> nativeRuntimeConfig \<Rightarrow> 'w openState \<Rightarrow> ((nat \<times> openKind) res \<times> 'w openState) option" where
  "openWithStore n oo cfg s = (case loadOpenMarker oo s of
      (Inl x, s) \<Rightarrow> Some (Inl x, s)
    | (Inr (Some marker), s) \<Rightarrow> openMarked n oo cfg marker s
    | (Inr None, s) \<Rightarrow> openUnmarked n oo cfg s)"

definition OpenNativeRuntime ::
  "nat \<Rightarrow> 'w openOps \<Rightarrow> nativeRuntimeConfig \<Rightarrow> 'w openState \<Rightarrow> ((nat \<times> openKind) res \<times> 'w openState) option" where
  "OpenNativeRuntime n oo cfg s =
     (if trimSpace (ncStateDir cfg) = '''' then Some (Inl (NewErr ''open native runtime: state directory is empty''), s)
      else if refreshMode cfg \<noteq> ''auto'' \<and> refreshMode cfg \<noteq> ''disabled'' then
        Some (Inl (NewErr ''open native runtime: refresh mode must be auto or disabled''), s)
      else if ncKeyKind cfg = KindOther then
        Some (Inl (Errorf ''required registration key kind'' (Sentinel QInvalidRegisterConfig)), s)
      else (case storeCall (ooNewStore oo (ncStateDir cfg) (trimSpace (ncAgentID cfg))) s of
          (Some x, s) \<Rightarrow> Some (Inl x, s)
        | (None, s) \<Rightarrow> (case openWithStore n oo cfg s of
            None \<Rightarrow> None
          | Some (Inr r, s) \<Rightarrow> Some (Inr r, s)
          | Some (Inl x, s) \<Rightarrow> (case aoCloseStore (ooStore oo) (osWorld s) of
              (y, w) \<Rightarrow> Some (Inl (the (errorsJoin [Some x, y])), called OcClose w s)))))"

text \<open>\<open>IsPermanentNativeOpenError\<close> and the classifiers are in \<open>Go_Errors\<close>.\<close>

section \<open>Recovery after an explicit login\<close>

record nativeRuntimeState =
  nrOpen :: bool
  nrAgentID :: string
  nrKind :: openKind
  nrAttempted :: bool

definition RecoverCredentialAfterDeviceAuthorizationFailure ::
  "'w openOps \<Rightarrow> string \<Rightarrow> nat \<Rightarrow> string \<Rightarrow> bool \<Rightarrow> nativeRuntimeState \<Rightarrow> 'w openState \<Rightarrow>
    err option \<times> nativeRuntimeState \<times> 'w openState" where
  "RecoverCredentialAfterDeviceAuthorizationFailure oo configured statusCode problemCode provider r s =
     (let refused = Some (Errorf ''not allowed'' (Sentinel SDeviceRecoveryNotAllowed)) in
      if \<not> nrOpen r then (refused, r, s)
      else if nrKind r \<noteq> OpenWarm \<or> statusCode \<noteq> 401 \<or> problemCode \<noteq> ''api_key_invalid'' then
        (Some (Sentinel SDeviceRecoveryNotAllowed), r, s)
      else if \<not> provider then (refused, r, s)
      else if nrAttempted r then (refused, r, s)
      else let r = r\<lparr>nrAttempted := True\<rparr> in
        (case storeCall (aoHandoff (ooStore oo)) s of
           (Some x, s) \<Rightarrow> (Some (Errorf ''open native state for device authorization recovery'' x), r, s)
         | (None, s) \<Rightarrow> (case ooRecover oo (osWorld s) of
             (Inl x, w) \<Rightarrow> (Some (Errorf ''recover native credential after device authorization rejection'' x), r,
                 called (OcRecover (Sentinel SDeviceRecoveryNotAllowed)) w s)
           | (Inr runtime, w) \<Rightarrow>
               (case storeCall (assembleRefreshedNativeRuntime (ooStore oo) configured runtime)
                   (called (OcRecover (Sentinel SDeviceRecoveryNotAllowed)) w s) of
                  (Inl x, s) \<Rightarrow> (Some x, r, s)
                | (Inr _, s) \<Rightarrow> (None, r\<lparr>nrAgentID := fst (snd runtime), nrKind := OpenRecovery\<rparr>, s)))))"


text \<open>The host name sent at registration: bytes, so the cut may split a code point.\<close>

definition normalizeNativeHostname :: "string \<Rightarrow> string" where
  "normalizeNativeHostname host = (let host = trimSpace host in
     if host = '''' then ''qurl-connector'' else if 255 < length host then take 255 host else host)"

end
