(* ===== verification/Admitter_Recovery.thy ===== *)
theory Admitter_Recovery
  imports Admitter
begin

text \<open>
  The background work of \<open>NativeAdmitter\<close> (\<open>pkg/share/native.go\<close>): the retry schedule of failed
  retirements and one round of its worker, the start-up recovery of orphaned operations, the close of a
  serving episode and \<open>Close\<close>.

  A wait of a worker answers whether it may go on; false says that the admitter's lifecycle has ended. The
  start-up worker is run for a bounded number of rounds, the retirement worker round by round. \<open>Close\<close>
  retires the live sessions in parallel; the model takes them in the order of their keys.
\<close>

section \<open>The retry schedule\<close>

definition nativeOrphanRecoveryInitialBackoff :: duration where "nativeOrphanRecoveryInitialBackoff = 250 * millisecond"
definition nativeOrphanRecoveryMaxBackoff :: duration where "nativeOrphanRecoveryMaxBackoff = 30 * second"

record nativeRetirementRecoveryAttempt =
  raNotBefore :: time
  raBackoff :: duration

type_synonym nativeRetirementRecoverySchedule = "(string, nativeRetirementRecoveryAttempt) fmap"

definition scheduleQueue :: "string \<Rightarrow> time \<Rightarrow> nativeRetirementRecoverySchedule \<Rightarrow> nativeRetirementRecoverySchedule" where
  "scheduleQueue rid now sch =
     (if rid = '''' then sch
      else if rid |\<in>| fmdom sch then sch
      else fmupd rid \<lparr>raNotBefore = now, raBackoff = nativeOrphanRecoveryInitialBackoff\<rparr> sch)"

definition scheduleRetry :: "string \<Rightarrow> time \<Rightarrow> nativeRetirementRecoverySchedule \<Rightarrow> nativeRetirementRecoverySchedule" where
  "scheduleRetry rid now sch =
     (let backoff = (case fmlookup sch rid of None \<Rightarrow> nativeOrphanRecoveryInitialBackoff | Some t \<Rightarrow> raBackoff t);
          backoff = (if backoff \<le> 0 then nativeOrphanRecoveryInitialBackoff else backoff)
      in fmupd rid \<lparr>raNotBefore = now + backoff, raBackoff = min (backoff * 2) nativeOrphanRecoveryMaxBackoff\<rparr> sch)"

definition scheduleDue :: "time \<Rightarrow> nativeRetirementRecoverySchedule \<Rightarrow> string list" where
  "scheduleDue now sch =
     sorted_list_of_fset (ffilter (\<lambda>rid. raNotBefore (the (fmlookup sch rid)) \<le> now) (fmdom sch))"

text \<open>No entry has the zero time, which the code uses for ``none yet''.\<close>

definition scheduleNextDelay :: "time \<Rightarrow> nativeRetirementRecoverySchedule \<Rightarrow> duration option" where
  "scheduleNextDelay now sch =
     (case map (\<lambda>rid. raNotBefore (the (fmlookup sch rid))) (sorted_list_of_fset (fmdom sch)) of
        [] \<Rightarrow> None
      | t # ts \<Rightarrow> let earliest = foldl min t ts in Some (if earliest \<le> now then 0 else earliest - now))"

section \<open>The retirement worker\<close>

definition takeNativeRetirementRecoveryResources :: "admitter \<Rightarrow> string list \<times> admitter" where
  "takeNativeRetirementRecoveryResources a = (sorted_list_of_fset (adQueue a), a\<lparr>adQueue := {||}\<rparr>)"

definition dropNativeRetirementRecovery :: "string \<Rightarrow> admitter \<Rightarrow> admitter" where
  "dropNativeRetirementRecovery rid a = a\<lparr>adQueue := adQueue a |-| {|rid|}\<rparr>"

text \<open>Taking the lock of a resource: others act until it is free.\<close>

definition acquire :: "'w admitterOps \<Rightarrow> 'w ad \<Rightarrow> 'w ad" where
  "acquire oo s = aoOthers oo (fst s) (snd s)"

definition recoverPendingNativeRetirements ::
  "'w admitterOps \<Rightarrow> string \<Rightarrow> 'w ad \<Rightarrow> (bool \<times> err option) \<times> 'w ad" where
  "recoverPendingNativeRetirements oo rid s = (case acquire oo s of (a, w) \<Rightarrow>
     if adClosed a \<or> \<not> adReady a \<or> \<not> adHasOperations a then
       ((False, Some (NewErr ''recover native retirement: native admitter is closed'')), (a, w))
     else case retirePendingForResource oo rid (a, w) of (x, (a, w)) \<Rightarrow>
       let permanent = (case x of None \<Rightarrow> False | Some y \<Rightarrow> isPermanentNativeRetirementError y) in
       ((permanent, x), (if permanent then dropNativeRetirementRecovery rid a else a, w)))"

text \<open>The due resources of one round; the flag says whether the worker goes on.\<close>

fun recoverDue ::
  "'w admitterOps \<Rightarrow> string list \<Rightarrow> nativeRetirementRecoverySchedule \<Rightarrow> 'w ad \<Rightarrow>
    bool \<times> nativeRetirementRecoverySchedule \<times> 'w ad" where
  "recoverDue oo [] sch s = (True, sch, s)"
| "recoverDue oo (rid # rids) sch s = (case recoverPendingNativeRetirements oo rid s of
      ((permanent, x), (a, w)) \<Rightarrow>
        if aoLifecycleEnded oo w then (False, sch, (a, w))
        else if x = None \<or> permanent then recoverDue oo rids (fmdrop rid sch) (a, w)
        else case aoNow oo w of (now, w) \<Rightarrow> recoverDue oo rids (scheduleRetry rid now sch) (a, w))"

text \<open>
  One round of \<open>recoverQueuedNativeRetirements\<close>. The schedule is shared with nobody; the flag is false when
  the worker has returned.
\<close>

definition recoverQueuedRound ::
  "'w admitterOps \<Rightarrow> nativeRetirementRecoverySchedule \<Rightarrow> 'w ad \<Rightarrow> bool \<times> nativeRetirementRecoverySchedule \<times> 'w ad" where
  "recoverQueuedRound oo sch s = (case s of (a, w) \<Rightarrow> (case aoNow oo w of (now, w) \<Rightarrow>
     (case takeNativeRetirementRecoveryResources a of (queued, a) \<Rightarrow>
      let sch = fold (\<lambda>rid. scheduleQueue rid now) queued sch in
      (case recoverDue oo (scheduleDue now sch) sch (a, w) of
         (False, sch, s) \<Rightarrow> (False, sch, s)
       | (True, sch, (a, w)) \<Rightarrow>
           if aoLifecycleEnded oo w then (False, sch, (a, w))
           else case aoNow oo w of (now, w) \<Rightarrow>
             (case waits oo a (aoWaitWake oo (scheduleNextDelay now sch) w) of (go, s) \<Rightarrow> (go, sch, s))))))"

section \<open>The start-up recovery\<close>

text \<open>
  The loop of \<open>recoverAllPendingExcludingPermanent\<close> over the scanned resources, from the error so far, with
  the permanent resources it has found. \<open>recoverAllPending\<close> starts it without any.
\<close>

fun recoverResources ::
  "'w admitterOps \<Rightarrow> string list \<Rightarrow> err option \<Rightarrow> string list \<Rightarrow> 'w ad \<Rightarrow> (err option \<times> string list) \<times> 'w ad" where
  "recoverResources oo [] x permanent s = ((x, permanent), s)"
| "recoverResources oo (rid # rids) x permanent s =
     (if rid \<in> set permanent then recoverResources oo rids x permanent s
      else case aoCtxErr oo (snd s) of
          Some c \<Rightarrow> ((errorsJoin [x, Some c], permanent), s)
        | None \<Rightarrow> (case acquire oo s of (a, w) \<Rightarrow>
            if adClosed a \<or> \<not> adReady a \<or> \<not> adHasOperations a then
              ((errorsJoin [x, Some (NewErr ''recover native session operations: native admitter is closed'')], permanent), (a, w))
            else (case waits oo a (ctRecoverPending (aoController oo) rid (liveOperationIDs rid a) w) of
                (None, s) \<Rightarrow> recoverResources oo rids x permanent s
              | (Some y, s) \<Rightarrow>
                  if isPermanentNativeRetirementError y then recoverResources oo rids x (permanent @ [rid]) s
                  else recoverResources oo rids (errorsJoin [x, Some y]) permanent s)))"

definition recoverAllPendingExcludingPermanent ::
  "'w admitterOps \<Rightarrow> string list \<Rightarrow> 'w ad \<Rightarrow> (err option \<times> string list) \<times> 'w ad" where
  "recoverAllPendingExcludingPermanent oo permanent s = (case s of (a, w) \<Rightarrow>
     if adClosed a then ((Some (NewErr ''recover native session operations: native admitter is closed''), permanent), s)
     else case waits oo a (aoScan oo w) of (scanned, s) \<Rightarrow>
       recoverResources oo (scResourceIDs scanned)
         (map_option (Errorf ''enumerate native session operations'') (scRetryableError scanned)) permanent s)"

fun recoverOrphanedSessionOperations ::
  "nat \<Rightarrow> 'w admitterOps \<Rightarrow> duration \<Rightarrow> string list \<Rightarrow> 'w ad \<Rightarrow> string list option \<times> 'w ad" where
  "recoverOrphanedSessionOperations 0 oo backoff permanent s = (None, s)"
| "recoverOrphanedSessionOperations (Suc n) oo backoff permanent s =
     (case recoverAllPendingExcludingPermanent oo permanent s of
        ((None, permanent), s) \<Rightarrow> (Some permanent, s)
      | ((Some x, permanent), (a, w)) \<Rightarrow>
          if aoLifecycleEnded oo w then (None, (a, w))
          else (case waits oo a (aoWait oo backoff w) of
              (False, s) \<Rightarrow> (None, s)
            | (True, s) \<Rightarrow> recoverOrphanedSessionOperations n oo (min (backoff * 2) nativeOrphanRecoveryMaxBackoff) permanent s))"

section \<open>Serving and closing\<close>

definition MarkServingHealthy :: "'w admitterOps \<Rightarrow> 'w ad \<Rightarrow> err option \<times> 'w ad" where
  "MarkServingHealthy oo s = (case s of (a, w) \<Rightarrow>
     if adClosed a then (Some (NewErr ''native admitter is closed''), s) else waits oo a (aoClearMarker oo w))"

text \<open>The calls of \<open>Close\<close> and the collection of their results.\<close>

fun closeSessions ::
  "'w admitterOps \<Rightarrow> (nativeAdmissionKey \<times> nativeLiveAdmission) list \<Rightarrow> err option \<Rightarrow> 'w ad \<Rightarrow> err option \<times> 'w ad" where
  "closeSessions oo [] x s = (x, s)"
| "closeSessions oo ((key, live) # sessions) x (a, w) =
     (case (if \<not> adHasOperations a then (Some (NewErr ''native admitter has no durable session-operation authority''), w)
            else ctRetire (aoController oo) (laResourceID live) (laOperationID live) (laReceipt live) w) of
        (Some y, w) \<Rightarrow> closeSessions oo sessions (errorsJoin [x, Some y]) (a, w)
      | (None, w) \<Rightarrow> closeSessions oo sessions x
          (a\<lparr>adRetired := adRetired a @ [live], adPending := adPending a |-| {|key|}, adLive := fmdrop key (adLive a)\<rparr>, w))"

definition liveSessions :: "admitter \<Rightarrow> (nativeAdmissionKey \<times> nativeLiveAdmission) list" where
  "liveSessions a = map (\<lambda>k. (k, the (fmlookup (adLive a) k))) (sorted_list_of_fset (fmdom (adLive a)))"

text \<open>
  \<open>Close\<close>. \<open>recoveryWG.Wait\<close> and the runtime lock let the running operations end; from then on the admitter
  belongs to the call alone.
\<close>

definition Close :: "'w admitterOps \<Rightarrow> 'w ad \<Rightarrow> err option \<times> 'w ad" where
  "Close oo s = (case acquire oo (fst s, aoCancel oo (snd s)) of (a, w) \<Rightarrow>
     if adClosed a then (None, (a, w))
     else case (if adReady a then closeSessions oo (liveSessions a) None (a\<lparr>adClosed := True\<rparr>, w)
                else (None, (a\<lparr>adClosed := True\<rparr>, w))) of
         (x, (a, w)) \<Rightarrow> (case aoCloseStore oo w of (y, w) \<Rightarrow>
           (errorsJoin [x, y], (a\<lparr>adReady := False, adHasOperations := False, adLive := fmempty, adPending := {||},
              adQueue := {||}, adFailures := fmempty\<rparr>, w))))"

text \<open>\<open>NewNativeAdmitter\<close>: a complete runtime, an answering authority and a key of 32 bytes.\<close>

definition NewNativeAdmitter :: "bool \<Rightarrow> err option \<Rightarrow> nat \<Rightarrow> admitter res" where
  "NewNativeAdmitter complete authority keyLength =
     (if \<not> complete then Inl (NewErr ''build native admitter: runtime is incomplete'')
      else case authority of
          Some x \<Rightarrow> Inl x
        | None \<Rightarrow>
            if keyLength \<noteq> 32 then Inl (NewErr ''build native admitter: device key has a wrong length'')
            else Inr \<lparr>adReady = True, adHasOperations = True, adClosed = False, adGeneration = 0, adFailures = fmempty,
              adLive = fmempty, adPending = {||}, adQueue = {||}, adRetired = []\<rparr>)"

end
