(* ===== verification/Admitter_Props.thy ===== *)
theory Admitter_Props
  imports Admitter_Recovery
begin

text \<open>
  The admitter's guarantees. The locale \<open>admitter_step\<close> says what a relation on admitters must allow so that
  every operation of the admitter, composed with whatever the operations on other resources do while it
  waits, stays inside it. Its interpretations are the isolation of a resource from the operations on others,
  the accounting for live sessions, and the consistency of the live map with its keys.
\<close>

definition others_within :: "(admitter \<Rightarrow> admitter \<Rightarrow> bool) \<Rightarrow> 'w admitterOps \<Rightarrow> bool" where
  "others_within R oo \<longleftrightarrow> (\<forall>a w. R a (fst (aoOthers oo a w)))"

locale admitter_step =
  fixes own :: "string \<Rightarrow> bool" and R :: "admitter \<Rightarrow> admitter \<Rightarrow> bool"
  assumes refl: "R a a"
    and trans: "R a b \<Longrightarrow> R b c \<Longrightarrow> R a c"
    and failures: "own rid \<Longrightarrow> fmdrop rid f = fmdrop rid (adFailures a) \<Longrightarrow> R a (a\<lparr>adFailures := f\<rparr>)"
    and queue: "R a (a\<lparr>adQueue := q\<rparr>)"
    and generation: "R a (a\<lparr>adGeneration := g\<rparr>)"
    and stale: "R a (dropStalePending a)"
    and mark: "own (laResourceID l) \<Longrightarrow> fmlookup (adLive a) k = Some l \<Longrightarrow> R a (a\<lparr>adPending := finsert k (adPending a)\<rparr>)"
    and retired: "own (laResourceID l) \<Longrightarrow> R a (a\<lparr>adRetired := adRetired a @ [l]\<rparr>)"
    and unmark: "fmlookup (adLive a) k = None \<Longrightarrow> R a (a\<lparr>adPending := adPending a |-| {|k|}\<rparr>)"
    and settle: "own (laResourceID l) \<Longrightarrow> fmlookup (adLive a) k = Some l \<Longrightarrow>
      R a (a\<lparr>adRetired := adRetired a @ [l], adPending := adPending a |-| {|k|}, adLive := fmdrop k (adLive a)\<rparr>)"
    and track: "own (laResourceID l) \<Longrightarrow> k = admissionKey (laReceipt l) \<Longrightarrow>
      fmlookup (adLive a) k = None \<or> fmlookup (adLive a) k = Some l \<Longrightarrow> R a (a\<lparr>adLive := fmupd k l (adLive a)\<rparr>)"
begin

lemma waits_R:
  assumes "others_within R oo" "waits oo a r = (x, (b, v))"
  shows "R a b"
  using assms by (auto simp: others_within_def waits_def dest: spec) (metis fst_conv)

lemma retireOne_R:
  assumes o: "others_within R oo" and own: "own (laResourceID live)"
    and r: "retireOne oo key live (a, w) = (x, (b, v))"
  shows "R a b"
proof (cases "adHasOperations a")
  case False
  then show ?thesis using r refl by (simp add: retireOne_def)
next
  case True
  obtain y c u where call: "waits oo a (ctRetire (aoController oo) (laResourceID live) (laOperationID live) (laReceipt live) w) = (y, (c, u))"
    by (metis surj_pair)
  have ac: "R a c" by (rule waits_R [OF o call])
  have "R c b"
  proof (cases y)
    case (Some z)
    then show ?thesis using r True call refl queue
      by (auto simp: retireOne_def queueNativeRetirementRecovery_def)
  next
    case None
    show ?thesis
    proof (cases "fmlookup (adLive c) key")
      case gone: None
      have "R (c\<lparr>adRetired := adRetired c @ [live]\<rparr>) (c\<lparr>adRetired := adRetired c @ [live], adPending := adPending c |-| {|key|}\<rparr>)"
        using unmark [of "c\<lparr>adRetired := adRetired c @ [live]\<rparr>" key] gone by simp
      with retired [OF own, of c] have "R c (c\<lparr>adRetired := adRetired c @ [live], adPending := adPending c |-| {|key|}\<rparr>)"
        by (rule trans)
      then show ?thesis using r True call None gone by (simp add: retireOne_def Let_def)
    next
      case (Some current)
      show ?thesis
      proof (cases "laResourceID current \<noteq> laResourceID live \<or> laOperationID current \<noteq> laOperationID live \<or>
          \<not> sameSessionReceipt (laReceipt current) (laReceipt live)")
        case True
        then have "b = c\<lparr>adRetired := adRetired c @ [live]\<rparr>" using r \<open>adHasOperations a\<close> call None Some
          by (simp add: retireOne_def Let_def split: if_splits)
        then show ?thesis using retired [OF own] by simp
      next
        case False
        then have "current = live" by (simp add: sameSessionReceipt_def)
        then show ?thesis using r True call None Some settle [OF own, of c key]
          by (simp add: retireOne_def Let_def sameSessionReceipt_def)
      qed
    qed
  qed
  with ac show ?thesis by (rule trans)
qed

lemma retireKeys_R:
  assumes o: "others_within R oo" and own: "own rid"
  shows "retireKeys oo rid keys (a, w) = (x, (b, v)) \<Longrightarrow> R a b"
proof (induction keys arbitrary: a w)
  case Nil
  then show ?case using refl by simp
next
  case (Cons key keys)
  show ?case
  proof (cases "fmlookup (adLive a) key")
    case None
    then show ?thesis using Cons by simp
  next
    case (Some live)
    show ?thesis
    proof (cases "laResourceID live \<noteq> rid \<or> key |\<notin>| adPending a")
      case True
      then show ?thesis using Cons Some by auto
    next
      case False
      obtain y c u where call: "retireOne oo key live (a, w) = (y, (c, u))" by (metis surj_pair)
      have "R a c" using retireOne_R [OF o _ call] own False by simp
      moreover have "R c b" using Cons call Some False refl by (auto split: option.splits)
      ultimately show ?thesis by (rule trans)
    qed
  qed
qed

lemma retirePendingForResource_R:
  assumes "others_within R oo" "own rid" "retirePendingForResource oo rid (a, w) = (x, (b, v))"
  shows "R a b"
  using retireKeys_R [OF assms(1,2)] assms(3) trans [OF stale]
  by (auto simp: retirePendingForResource_def Let_def)

lemma admitterRetire_R:
  assumes o: "others_within R oo" and own: "own (amResourcePublicKey admission)"
    and r: "admitterRetire oo admission (a, w) = (x, (b, v))"
  shows "R a b"
proof (cases "validateAdmissionReceipt admission \<noteq> None \<or> adClosed a \<or> \<not> adReady a \<or>
    fmlookup (adLive a) (admissionKey (amSessionReceipt admission)) = None")
  case True
  then show ?thesis using r refl by (auto simp: admitterRetire_def Let_def split: option.splits if_splits)
next
  case False
  then obtain live where l: "fmlookup (adLive a) (admissionKey (amSessionReceipt admission)) = Some live" by auto
  show ?thesis
  proof (cases "laResourceID live \<noteq> amResourcePublicKey admission \<or> \<not> sameSessionReceipt (laReceipt live) (amSessionReceipt admission)")
    case True
    then show ?thesis using r False l refl by (auto simp: admitterRetire_def Let_def split: option.splits if_splits)
  next
    case match: False
    then have "retireOne oo (admissionKey (amSessionReceipt admission)) live
        (a\<lparr>adPending := finsert (admissionKey (amSessionReceipt admission)) (adPending a)\<rparr>, w) = (x, (b, v))"
      using r False l by (auto simp: admitterRetire_def Let_def split: if_splits)
    from retireOne_R [OF o _ this] own match mark [OF _ l] trans show ?thesis by auto
  qed
qed

end


section \<open>Admissions stay within the relation\<close>

lemma trackAdmission_cases:
  assumes "trackAdmission admission op a = (Inr key, b)"
  obtains "key = admissionKey (amSessionReceipt admission)" "op \<noteq> ''''" "validateAdmissionReceipt admission = None"
    "b = a\<lparr>adLive := fmupd key \<lparr>laResourceID = amResourcePublicKey admission, laOperationID = op,
       laReceipt = amSessionReceipt admission\<rparr> (adLive a)\<rparr>"
    "fmlookup (adLive a) key = None \<or> fmlookup (adLive a) key = Some \<lparr>laResourceID = amResourcePublicKey admission,
       laOperationID = op, laReceipt = amSessionReceipt admission\<rparr>"
  using assms
  by (auto simp: trackAdmission_def Let_def sameSessionReceipt_def split: option.splits if_splits)

lemma trackAdmission_Inl: "trackAdmission admission op a = (Inl y, b) \<Longrightarrow> b = a"
  by (auto simp: trackAdmission_def Let_def split: option.splits if_splits)

lemma admissionOf_fields [simp]:
  "amResourcePublicKey (admissionOf k r i n kr) = r" "amSessionReceipt (admissionOf k r i n kr) = krSessionReceipt kr"
  by (simp_all add: admissionOf_def)

lemma drop_failures:
  "fmdrop rid (adFailures (snd (recordPlacementFailure rid g a))) = fmdrop rid (adFailures a)"
  "\<exists>f. snd (recordPlacementFailure rid g a) = a\<lparr>adFailures := f\<rparr>"
  "fmdrop rid (adFailures (snd (claimImmediatePlacementRefresh rid a))) = fmdrop rid (adFailures a)"
  "\<exists>f. snd (claimImmediatePlacementRefresh rid a) = a\<lparr>adFailures := f\<rparr>"
  "fmdrop rid (adFailures (releaseImmediatePlacementRefresh rid a)) = fmdrop rid (adFailures a)"
  "\<exists>f. releaseImmediatePlacementRefresh rid a = a\<lparr>adFailures := f\<rparr>"
  "fmdrop rid (adFailures (clearPlacementFailureCount rid a)) = fmdrop rid (adFailures a)"
  "\<exists>f. clearPlacementFailureCount rid a = a\<lparr>adFailures := f\<rparr>"
  "fmdrop rid (adFailures (resetPlacementFailures rid a)) = fmdrop rid (adFailures a)"
  "\<exists>f. resetPlacementFailures rid a = a\<lparr>adFailures := f\<rparr>"
proof -
  have same: "\<exists>f. a = a\<lparr>adFailures := f\<rparr>" by (rule exI [of _ "adFailures a"]) simp
  show "fmdrop rid (adFailures (snd (recordPlacementFailure rid g a))) = fmdrop rid (adFailures a)"
    "\<exists>f. snd (recordPlacementFailure rid g a) = a\<lparr>adFailures := f\<rparr>"
    "fmdrop rid (adFailures (snd (claimImmediatePlacementRefresh rid a))) = fmdrop rid (adFailures a)"
    "\<exists>f. snd (claimImmediatePlacementRefresh rid a) = a\<lparr>adFailures := f\<rparr>"
    "fmdrop rid (adFailures (releaseImmediatePlacementRefresh rid a)) = fmdrop rid (adFailures a)"
    "\<exists>f. releaseImmediatePlacementRefresh rid a = a\<lparr>adFailures := f\<rparr>"
    "fmdrop rid (adFailures (clearPlacementFailureCount rid a)) = fmdrop rid (adFailures a)"
    "\<exists>f. clearPlacementFailureCount rid a = a\<lparr>adFailures := f\<rparr>"
    "fmdrop rid (adFailures (resetPlacementFailures rid a)) = fmdrop rid (adFailures a)"
    "\<exists>f. resetPlacementFailures rid a = a\<lparr>adFailures := f\<rparr>"
    using same
    by (auto simp: recordPlacementFailure_def claimImmediatePlacementRefresh_def releaseImmediatePlacementRefresh_def
        clearPlacementFailureCount_def resetPlacementFailures_def Let_def fmap_ext split: option.splits)
qed

context admitter_step
begin

lemma failure_R:
  assumes "own rid"
  shows "R a (snd (recordPlacementFailure rid g a))" "R a (snd (claimImmediatePlacementRefresh rid a))"
    "R a (releaseImmediatePlacementRefresh rid a)" "R a (clearPlacementFailureCount rid a)" "R a (resetPlacementFailures rid a)"
proof -
  have step: "R a b" if b: "\<exists>f. b = a\<lparr>adFailures := f\<rparr>" and d: "fmdrop rid (adFailures b) = fmdrop rid (adFailures a)" for b
    using failures [OF assms] b d by auto
  show "R a (snd (recordPlacementFailure rid g a))" "R a (snd (claimImmediatePlacementRefresh rid a))"
    "R a (releaseImmediatePlacementRefresh rid a)" "R a (clearPlacementFailureCount rid a)" "R a (resetPlacementFailures rid a)"
    by (rule step; rule drop_failures)+
qed

lemma refreshDecision_R: "own rid \<Longrightarrow> refreshDecision x rid g eligible a = (d, b) \<Longrightarrow> R a b"
proof -
  assume own: "own rid" and d: "refreshDecision x rid g eligible a = (d, b)"
  obtain hit c where rec: "recordPlacementFailure rid g a = (hit, c)" by (metis surj_pair)
  obtain got e where claim: "claimImmediatePlacementRefresh rid c = (got, e)" by (metis surj_pair)
  have "R a c" "R c e" "R a (clearPlacementFailureCount rid a)"
    using failure_R [OF own, of a] failure_R(2) [OF own, of c] rec claim by (metis snd_conv)+
  moreover have "b \<in> {a, c, e, clearPlacementFailureCount rid a}"
    using d rec claim by (auto simp: refreshDecision_def split: if_splits bool.splits)
  ultimately show "R a b" using refl trans by blast
qed

lemma afterCleanup_R:
  assumes "others_within R oo" "afterCleanup oo rid op x (a, w) = (r, (b, v))"
  shows "R a b"
proof -
  obtain c s where "recoverOperationCleanup oo rid op (a, w) = (c, s)" by (metis surj_pair)
  with assms show ?thesis
    by (cases s) (auto simp: afterCleanup_def recoverOperationCleanup_def intro: waits_R)
qed

lemma settleKnock_R:
  assumes o: "others_within R oo" and own: "own rid"
    and r: "settleKnock oo kr rid runID operation k (a, w) = (x, (b, v))"
  shows "R a b"
proof -
  let ?op = "opOperationID operation" and ?adm = "admissionOf kr rid runID 1 k"
  obtain y c u where call: "waits oo a (ctRecordMapped (aoController oo) rid operation (krSessionReceipt k) w) = (y, (c, u))"
    by (metis surj_pair)
  have ac: "R a c" by (rule waits_R [OF o call])
  have "R c b"
  proof (cases y)
    case (Some z)
    then show ?thesis using r call afterCleanup_R [OF o] by (simp add: settleKnock_def)
  next
    case None
    obtain t d where tr: "trackAdmission ?adm ?op c = (t, d)" by (metis surj_pair)
    show ?thesis
    proof (cases t)
      case (Inl z)
      then have "d = c" using tr trackAdmission_Inl by metis
      then show ?thesis using r call None Inl tr afterCleanup_R [OF o]
        by (auto simp: settleKnock_def Let_def split: option.splits)
    next
      case (Inr key)
      let ?live = "\<lparr>laResourceID = rid, laOperationID = ?op, laReceipt = krSessionReceipt k\<rparr>"
      from tr Inr have key: "key = admissionKey (krSessionReceipt k)" "d = c\<lparr>adLive := fmupd key ?live (adLive c)\<rparr>"
        "fmlookup (adLive c) key = None \<or> fmlookup (adLive c) key = Some ?live"
        by (auto elim: trackAdmission_cases)
      have cd: "R c d" unfolding key(2) by (rule track) (use own key in simp_all)
      show ?thesis
      proof (cases "validateAdmission ?adm kr rid")
        case ok: None
        then show ?thesis using r call None Inr tr cd by (simp add: settleKnock_def Let_def)
      next
        case (Some z)
        have look: "fmlookup (adLive d) key = Some ?live" by (simp add: key(2))
        obtain q e where ret: "retireOne oo key ?live (d\<lparr>adPending := finsert key (adPending d)\<rparr>, u) = (q, e)"
          by (metis surj_pair)
        have "R d (d\<lparr>adPending := finsert key (adPending d)\<rparr>)" by (rule mark [OF _ look]) (use own in simp)
        moreover have "R (d\<lparr>adPending := finsert key (adPending d)\<rparr>) (fst e)"
          using retireOne_R [OF o, of ?live key _ u q "fst e" "snd e"] own ret by simp
        moreover have "b = fst e" using r call None Inr tr Some look ret by (auto simp: settleKnock_def Let_def)
        ultimately show ?thesis using cd trans by blast
      qed
    qed
  qed
  with ac show ?thesis by (rule trans)
qed

end


context admitter_step
begin

lemma knock_R:
  assumes o: "others_within R oo" and own: "own rid" and r: "knock oo kr rid (a, w) = (x, (b, v))"
  shows "R a b"
proof -
  obtain i w1 where i: "aoRunID oo w = (i, w1)" by (metis surj_pair)
  show ?thesis
  proof (cases i)
    case (Inl z)
    then show ?thesis using r i refl by (simp add: knock_def)
  next
    case (Inr runID)
    obtain p c u where prep: "waits oo a (ctPrepareDispatch (aoController oo) kr rid runID 1 w1) = (p, (c, u))"
      by (metis surj_pair)
    have ac: "R a c" by (rule waits_R [OF o prep])
    have "R c b"
    proof (cases p)
      case Inl
      then show ?thesis using r i Inr prep refl by (simp add: knock_def)
    next
      case operation: (Inr operation)
      obtain q d t where kn: "waits oo c (aoKnock oo kr rid runID operation u) = (q, (d, t))" by (metis surj_pair)
      have "R d b"
        using r i Inr prep operation kn afterCleanup_R [OF o] settleKnock_R [OF o own]
        by (auto simp: knock_def split: sum.splits option.splits)
      with waits_R [OF o kn] show ?thesis by (rule trans)
    qed
    with ac show ?thesis by (rule trans)
  qed
qed

lemma admitOnce_R:
  assumes o: "others_within R oo" and own: "own rid" and r: "admitOnce oo kr rid (a, w) = (x, (b, v))"
  shows "R a b"
proof -
  obtain p c u where rec: "waits oo a (ctRecoverPending (aoController oo) rid (liveOperationIDs rid a) w) = (p, (c, u))"
    by (metis surj_pair)
  obtain q d t where ret: "retirePendingForResource oo rid (c, u) = (q, (d, t))" by (metis surj_pair)
  obtain k e f where kn: "knock oo kr rid (d, t) = (k, (e, f))" by (metis surj_pair)
  have ac: "R a c" by (rule waits_R [OF o rec])
  have cd: "R c d" by (rule retirePendingForResource_R [OF o own ret])
  have de: "R d e" by (rule knock_R [OF o own kn])
  consider "b = a" | "b = c" | "b = d" | "b = e"
    using r rec ret kn
    by (cases p; cases q; cases "adClosed a \<or> \<not> adReady a"; cases "adHasOperations a") (simp_all add: admitOnce_def)
  then show ?thesis
    by cases (use refl ac trans [OF ac cd] trans [OF trans [OF ac cd] de] in simp_all)
qed

lemma refresh_R:
  assumes o: "others_within R oo" and r: "refresh oo agentID mode g reason (a, w) = (x, (b, v))"
  shows "R a b"
proof -
  obtain p c u where prep: "waits oo a (prepareRefreshedRuntime oo agentID mode reason w) = (p, (c, u))" by (metis surj_pair)
  obtain q d t where lock: "waits oo c (aoLockRuntime oo u) = (q, (d, t))" by (metis surj_pair)
  have ac: "R a c" by (rule waits_R [OF o prep])
  have ad: "R a d" by (rule trans [OF ac waits_R [OF o lock]])
  consider "b = a" | "b = c" | "b = d" | "b = d\<lparr>adGeneration := adGeneration d + 1\<rparr>"
    using r prep lock by (cases p; cases q) (simp_all add: refresh_def split: if_splits)
  then show ?thesis by cases (use refl ac ad trans [OF ad generation] in simp_all)
qed

lemma Admit_R:
  assumes o: "others_within R oo" and own: "own rid" and r: "Admit oo agentID mode kr rid (a, w) = (x, (b, v))"
  shows "R a b"
proof -
  obtain y g el c u where once: "admitOnce oo kr rid (a, w) = ((y, g, el), (c, u))" by (metis surj_pair)
  have ac: "R a c" by (rule admitOnce_R [OF o own once])
  show ?thesis
  proof (cases y)
    case Inr
    then show ?thesis using r once trans [OF ac failure_R(5) [OF own]] by (auto simp: Admit_def)
  next
    case (Inl z)
    obtain dec d where dec: "refreshDecision z rid g el c = (dec, d)" by (metis surj_pair)
    have ad: "R a d" by (rule trans [OF ac refreshDecision_R [OF own dec]])
    show ?thesis
    proof (cases dec)
      case None
      then show ?thesis using r once Inl dec ad by (simp add: Admit_def)
    next
      case (Some reason)
      obtain rf e t where rf: "refresh oo agentID mode g reason (d, u) = (rf, (e, t))" by (metis surj_pair)
      have ae: "R a e" by (rule trans [OF ad refresh_R [OF o rf]])
      show ?thesis
      proof (cases rf)
        case fail: Some
        then show ?thesis using r once Inl dec Some rf ae trans [OF ae failure_R(3) [OF own]]
          by (auto simp: Admit_def split: if_splits)
      next
        case None
        obtain y2 g2 el2 f h where twice: "admitOnce oo kr rid (e, t) = ((y2, g2, el2), (f, h))" by (metis surj_pair)
        have af: "R a f" by (rule trans [OF ae admitOnce_R [OF o own twice]])
        then show ?thesis using r once Inl dec Some rf None twice trans [OF af failure_R(5) [OF own]]
          by (auto simp: Admit_def split: sum.splits)
      qed
    qed
  qed
qed

lemma acquire_R: "others_within R oo \<Longrightarrow> acquire oo (a, w) = (b, v) \<Longrightarrow> R a b"
  by (auto simp: acquire_def others_within_def) (metis fst_conv)

lemma recoverPendingNativeRetirements_R:
  assumes o: "others_within R oo" and own: "own rid" and r: "recoverPendingNativeRetirements oo rid (a, w) = (x, (b, v))"
  shows "R a b"
proof -
  obtain c u where acq: "acquire oo (a, w) = (c, u)" by (metis surj_pair)
  obtain y d t where ret: "retirePendingForResource oo rid (c, u) = (y, (d, t))" by (metis surj_pair)
  have "R a c" "R c d" by (rule acquire_R [OF o acq], rule retirePendingForResource_R [OF o own ret])
  moreover have "R d (dropNativeRetirementRecovery rid d)" unfolding dropNativeRetirementRecovery_def by (rule queue)
  moreover have "b \<in> {c, d, dropNativeRetirementRecovery rid d}"
    using r acq ret by (auto simp: recoverPendingNativeRetirements_def Let_def split: if_splits)
  ultimately show ?thesis using trans by blast
qed

lemma recoverDue_R:
  assumes o: "others_within R oo"
  shows "list_all own rids \<Longrightarrow> recoverDue oo rids sch (a, w) = (go, sch', (b, v)) \<Longrightarrow> R a b"
proof (induction rids arbitrary: sch a w)
  case Nil
  then show ?case using refl by simp
next
  case (Cons rid rids)
  obtain p x c u where rec: "recoverPendingNativeRetirements oo rid (a, w) = ((p, x), (c, u))" by (metis surj_pair)
  have "R a c" using recoverPendingNativeRetirements_R [OF o _ rec] Cons.prems(1) by simp
  moreover have "R c b" using Cons rec refl by (auto split: if_splits prod.splits)
  ultimately show ?case by (rule trans)
qed

lemma recoverResources_R:
  assumes o: "others_within R oo"
  shows "recoverResources oo rids x perm (a, w) = (r, (b, v)) \<Longrightarrow> R a b"
proof (induction rids arbitrary: x perm a w)
  case Nil
  then show ?case using refl by simp
next
  case (Cons rid rids)
  obtain c u where acq: "acquire oo (a, w) = (c, u)" by (metis surj_pair)
  obtain y d t where rec: "waits oo c (ctRecoverPending (aoController oo) rid (liveOperationIDs rid c) u) = (y, (d, t))"
    by (metis surj_pair)
  have ac: "R a c" by (rule acquire_R [OF o acq])
  have ad: "R a d" by (rule trans [OF ac waits_R [OF o rec]])
  show ?case
    using Cons acq rec ac refl trans [OF ad] by (auto split: if_splits option.splits)
qed

lemma recoverAllPending_R:
  assumes o: "others_within R oo" and r: "recoverAllPendingExcludingPermanent oo perm (a, w) = (x, (b, v))"
  shows "R a b"
proof -
  obtain sc c u where scan: "waits oo a (aoScan oo w) = (sc, (c, u))" by (metis surj_pair)
  show ?thesis using r scan refl trans [OF waits_R [OF o scan]] recoverResources_R [OF o]
    by (auto simp: recoverAllPendingExcludingPermanent_def split: if_splits)
qed

end

end
