(* ===== verification/Admitter_Claims.thy ===== *)
theory Admitter_Claims
  imports Admitter_Props
begin

text \<open>
  What the admitter promises: no operation forgets a live session or disturbs another resource, a successful
  admission is the only unsettled session of its resource, the refresh budget, the retry schedule, and what
  \<open>Close\<close> leaves.
\<close>

section \<open>The three relations\<close>

definition foreign :: "string \<Rightarrow> admitter \<Rightarrow> nativeAdmissionKey \<Rightarrow> bool" where
  "foreign rid a k \<longleftrightarrow> (case fmlookup (adLive a) k of None \<Rightarrow> False | Some l \<Rightarrow> laResourceID l \<noteq> rid)"

definition marked :: "string \<Rightarrow> admitter \<Rightarrow> nativeAdmissionKey \<Rightarrow> bool" where
  "marked rid a k \<longleftrightarrow> k |\<in>| adPending a \<and> \<not> foreign rid a k"

text \<open>The sessions a step retired all satisfy a predicate.\<close>

definition retires :: "(nativeLiveAdmission \<Rightarrow> bool) \<Rightarrow> admitter \<Rightarrow> admitter \<Rightarrow> bool" where
  "retires P a b \<longleftrightarrow> (\<exists>ls. adRetired b = adRetired a @ ls \<and> list_all P ls)"

text \<open>What a step leaves of one resource: its live and pending sessions, its budget, and nothing retired.\<close>

definition keepsSessions :: "string \<Rightarrow> admitter \<Rightarrow> admitter \<Rightarrow> bool" where
  "keepsSessions rid a b \<longleftrightarrow>
     (\<forall>k l. laResourceID l = rid \<longrightarrow> (fmlookup (adLive b) k = Some l) = (fmlookup (adLive a) k = Some l)) \<and>
     (\<forall>k. marked rid b k \<longrightarrow> marked rid a k) \<and>
     (\<forall>k l. fmlookup (adLive a) k = Some l \<and> laResourceID l = rid \<and> k |\<in>| adPending a \<longrightarrow> k |\<in>| adPending b)"

definition keeps :: "string \<Rightarrow> admitter \<Rightarrow> admitter \<Rightarrow> bool" where
  "keeps rid a b \<longleftrightarrow> keepsSessions rid a b \<and> fmlookup (adFailures b) rid = fmlookup (adFailures a) rid \<and>
     retires (\<lambda>l. laResourceID l \<noteq> rid) a b"

text \<open>A live session stays live, and pending if it was, or has been retired.\<close>

definition accounts :: "admitter \<Rightarrow> admitter \<Rightarrow> bool" where
  "accounts a b \<longleftrightarrow> (\<exists>ls. adRetired b = adRetired a @ ls \<and>
     (\<forall>k l. fmlookup (adLive a) k = Some l \<longrightarrow>
        (fmlookup (adLive b) k = Some l \<and> (k |\<in>| adPending a \<longrightarrow> k |\<in>| adPending b)) \<or> l \<in> set ls))"

definition keyed :: "admitter \<Rightarrow> bool" where
  "keyed a \<longleftrightarrow> (\<forall>k l. fmlookup (adLive a) k = Some l \<longrightarrow> admissionKey (laReceipt l) = k)"

lemma foreign_iff: "foreign rid a k \<longleftrightarrow> (\<exists>l. fmlookup (adLive a) k = Some l \<and> laResourceID l \<noteq> rid)"
  by (simp add: foreign_def split: option.split)

lemma retires_same: "adRetired b = adRetired a \<Longrightarrow> retires P a b"
  unfolding retires_def by (rule exI [of _ "[]"]) simp

lemma retires_one: "adRetired b = adRetired a @ [l] \<Longrightarrow> P l \<Longrightarrow> retires P a b"
  unfolding retires_def by (rule exI [of _ "[l]"]) simp

lemma retires_trans: "retires P a b \<Longrightarrow> retires P b c \<Longrightarrow> retires P a c"
  unfolding retires_def by (metis append_assoc list_all_append)

lemma keepsSessions_same: "adLive b = adLive a \<Longrightarrow> adPending b = adPending a \<Longrightarrow> keepsSessions rid a b"
  by (simp add: keepsSessions_def marked_def foreign_def)

lemma keepsSessions_trans: "keepsSessions rid a b \<Longrightarrow> keepsSessions rid b c \<Longrightarrow> keepsSessions rid a c"
  unfolding keepsSessions_def by blast

lemma keepsSessions_stale: "keepsSessions rid a (dropStalePending a)"
  by (simp add: keepsSessions_def dropStalePending_def marked_def foreign_def fmdomI)

lemma keepsSessions_mark:
  assumes "laResourceID l \<noteq> rid" "fmlookup (adLive a) k = Some l" "adLive b = adLive a" "adPending b = finsert k (adPending a)"
  shows "keepsSessions rid a b"
  unfolding keepsSessions_def marked_def foreign_iff assms(3,4) using assms(1,2) by (auto split: if_splits)

lemma keepsSessions_unmark:
  assumes "fmlookup (adLive a) k = None" "adLive b = adLive a" "adPending b = adPending a |-| {|k|}"
  shows "keepsSessions rid a b"
  unfolding keepsSessions_def marked_def foreign_iff assms(2,3) using assms(1) by (auto split: if_splits)

lemma keepsSessions_settle:
  assumes "laResourceID l \<noteq> rid" "fmlookup (adLive a) k = Some l" "adLive b = fmdrop k (adLive a)"
    "adPending b = adPending a |-| {|k|}"
  shows "keepsSessions rid a b"
  unfolding keepsSessions_def marked_def foreign_iff assms(3,4) using assms(1,2) by (auto split: if_splits)

lemma keepsSessions_track:
  assumes "laResourceID l \<noteq> rid" "fmlookup (adLive a) k = None \<or> fmlookup (adLive a) k = Some l"
    "adLive b = fmupd k l (adLive a)" "adPending b = adPending a"
  shows "keepsSessions rid a b"
  unfolding keepsSessions_def marked_def foreign_iff assms(3,4) using assms(1,2) by (auto split: if_splits)

lemma fmdrop_lookup: "fmdrop rid f = fmdrop rid g \<Longrightarrow> rid \<noteq> r \<Longrightarrow> fmlookup f r = fmlookup g r"
  by (metis fmlookup_drop)

lemma keeps_intro:
  assumes "keepsSessions r a b" "fmlookup (adFailures b) r = fmlookup (adFailures a) r" "retires (\<lambda>l. laResourceID l \<noteq> r) a b"
  shows "keeps r a b"
  using assms by (simp add: keeps_def)

interpretation isolation: admitter_step "\<lambda>rid. rid \<noteq> r" "keeps r" for r
proof
  show "keeps r a a" for a by (intro keeps_intro keepsSessions_same retires_same) simp_all
  show "keeps r a b \<Longrightarrow> keeps r b c \<Longrightarrow> keeps r a c" for a b c
    using keepsSessions_trans retires_trans unfolding keeps_def by metis
  show "rid \<noteq> r \<Longrightarrow> fmdrop rid f = fmdrop rid (adFailures a) \<Longrightarrow> keeps r a (a\<lparr>adFailures := f\<rparr>)" for rid f a
    by (intro keeps_intro keepsSessions_same retires_same) (simp_all, rule fmdrop_lookup)
  show "keeps r a (a\<lparr>adQueue := q\<rparr>)" "keeps r a (a\<lparr>adGeneration := g\<rparr>)" for a q g
    by (intro keeps_intro keepsSessions_same retires_same; simp)+
  show "keeps r a (dropStalePending a)" for a
    by (intro keeps_intro keepsSessions_stale retires_same) (simp_all add: dropStalePending_def)
  show "laResourceID l \<noteq> r \<Longrightarrow> fmlookup (adLive a) k = Some l \<Longrightarrow> keeps r a (a\<lparr>adPending := finsert k (adPending a)\<rparr>)" for l a k
    by (intro keeps_intro retires_same, rule keepsSessions_mark) simp_all
  show "laResourceID l \<noteq> r \<Longrightarrow> keeps r a (a\<lparr>adRetired := adRetired a @ [l]\<rparr>)" for l a
    by (intro keeps_intro keepsSessions_same, simp_all, rule retires_one) simp_all
  show "fmlookup (adLive a) k = None \<Longrightarrow> keeps r a (a\<lparr>adPending := adPending a |-| {|k|}\<rparr>)" for a k
    by (intro keeps_intro retires_same, rule keepsSessions_unmark) simp_all
  show "laResourceID l \<noteq> r \<Longrightarrow> fmlookup (adLive a) k = Some l \<Longrightarrow>
      keeps r a (a\<lparr>adRetired := adRetired a @ [l], adPending := adPending a |-| {|k|}, adLive := fmdrop k (adLive a)\<rparr>)" for l a k
    by (rule keeps_intro, rule keepsSessions_settle [of l _ _ k], simp_all, rule retires_one) simp_all
  show "laResourceID l \<noteq> r \<Longrightarrow> k = admissionKey (laReceipt l) \<Longrightarrow>
      fmlookup (adLive a) k = None \<or> fmlookup (adLive a) k = Some l \<Longrightarrow> keeps r a (a\<lparr>adLive := fmupd k l (adLive a)\<rparr>)" for l k a
    by (intro keeps_intro retires_same, rule keepsSessions_track [of l]) simp_all
qed

lemma accounts_trans:
  assumes "accounts a b" "accounts b c"
  shows "accounts a c"
proof -
  obtain ls where ls: "adRetired b = adRetired a @ ls" "\<And>k l. fmlookup (adLive a) k = Some l \<Longrightarrow>
      (fmlookup (adLive b) k = Some l \<and> (k |\<in>| adPending a \<longrightarrow> k |\<in>| adPending b)) \<or> l \<in> set ls"
    using assms(1) by (auto simp: accounts_def)
  obtain ms where ms: "adRetired c = adRetired b @ ms" "\<And>k l. fmlookup (adLive b) k = Some l \<Longrightarrow>
      (fmlookup (adLive c) k = Some l \<and> (k |\<in>| adPending b \<longrightarrow> k |\<in>| adPending c)) \<or> l \<in> set ms"
    using assms(2) by (auto simp: accounts_def)
  have "adRetired c = adRetired a @ (ls @ ms)" using ls(1) ms(1) by simp
  moreover have "(fmlookup (adLive c) k = Some l \<and> (k |\<in>| adPending a \<longrightarrow> k |\<in>| adPending c)) \<or> l \<in> set (ls @ ms)"
    if "fmlookup (adLive a) k = Some l" for k l
    using ls(2) [OF that] ms(2) [of k l] by auto
  ultimately show ?thesis unfolding accounts_def by blast
qed

interpretation accounting: admitter_step "\<lambda>_. True" accounts
proof
  show "accounts a b \<Longrightarrow> accounts b c \<Longrightarrow> accounts a c" for a b c by (rule accounts_trans)
  show "accounts a (dropStalePending a)" for a
    by (auto simp: accounts_def dropStalePending_def fmlookup_dom_iff)
qed (auto simp: accounts_def)

lemma keyed_same: "adLive b = adLive a \<Longrightarrow> keyed a \<longrightarrow> keyed b"
  by (simp add: keyed_def)

lemma keyed_drop: "adLive b = fmdrop k (adLive a) \<Longrightarrow> keyed a \<longrightarrow> keyed b"
  by (simp add: keyed_def)

lemma keyed_track: "k = admissionKey (laReceipt l) \<Longrightarrow> adLive b = fmupd k l (adLive a) \<Longrightarrow> keyed a \<longrightarrow> keyed b"
  by (simp add: keyed_def)

interpretation keys: admitter_step "\<lambda>_. True" "\<lambda>a b. keyed a \<longrightarrow> keyed b"
proof
  show "keyed a \<longrightarrow> keyed (a\<lparr>adLive := fmupd k l (adLive a)\<rparr>)" if "k = admissionKey (laReceipt l)" for k l a
    by (rule keyed_track [OF that]) simp
qed (blast | rule keyed_same, simp add: dropStalePending_def; fail | rule keyed_drop, simp; fail)+

section \<open>Operations\<close>

text \<open>The operations of the admitter on one resource, and the start-up scan.\<close>

inductive admitterOperation :: "'w admitterOps \<Rightarrow> string \<Rightarrow> 'w ad \<Rightarrow> 'w ad \<Rightarrow> bool" for oo rid where
  admit: "Admit oo agentID mode kr rid s = (x, s') \<Longrightarrow> admitterOperation oo rid s s'"
| retire: "amResourcePublicKey admission = rid \<Longrightarrow> admitterRetire oo admission s = (x, s') \<Longrightarrow> admitterOperation oo rid s s'"
| recover: "recoverPendingNativeRetirements oo rid s = (y, s') \<Longrightarrow> admitterOperation oo rid s s'"
| scan: "recoverAllPendingExcludingPermanent oo perm s = (z, s') \<Longrightarrow> admitterOperation oo rid s s'"

lemma operation_keeps:
  "admitterOperation oo rid s s' \<Longrightarrow> rid \<noteq> r \<Longrightarrow> others_within (keeps r) oo \<Longrightarrow> keeps r (fst s) (fst s')"
  by (induction rule: admitterOperation.induct; cases s; cases s')
    (auto intro: isolation.Admit_R isolation.admitterRetire_R isolation.recoverPendingNativeRetirements_R
      isolation.recoverAllPending_R)

lemma operation_accounts:
  "admitterOperation oo rid s s' \<Longrightarrow> others_within accounts oo \<Longrightarrow> accounts (fst s) (fst s')"
  by (induction rule: admitterOperation.induct; cases s; cases s')
    (auto intro: accounting.Admit_R accounting.admitterRetire_R accounting.recoverPendingNativeRetirements_R
      accounting.recoverAllPending_R)


section \<open>A successful admission\<close>

lemma keeps_marked: "keeps rid a b \<Longrightarrow> marked rid b k \<Longrightarrow> marked rid a k"
  by (simp add: keeps_def keepsSessions_def)

lemma keeps_live: "keeps rid a b \<Longrightarrow> laResourceID l = rid \<Longrightarrow> fmlookup (adLive b) k = Some l \<longleftrightarrow> fmlookup (adLive a) k = Some l"
  by (simp add: keeps_def keepsSessions_def)

definition tight :: "string \<Rightarrow> admitter \<Rightarrow> bool" where
  "tight rid a \<longleftrightarrow> (\<forall>k. marked rid a k \<longrightarrow> (\<exists>l. fmlookup (adLive a) k = Some l \<and> laResourceID l = rid))"

lemma tight_stale: "tight rid (dropStalePending a)"
  by (auto simp: tight_def marked_def foreign_iff dropStalePending_def fmlookup_dom_iff)

lemma marked_pendingFor: "tight rid a \<Longrightarrow> marked rid a k \<Longrightarrow> k \<in> set (pendingFor rid a)"
  by (auto simp: tight_def pendingFor_def marked_def split: option.split)

lemma retireOne_done:
  assumes o: "others_within (keeps rid) oo" and live: "laResourceID live = rid" "fmlookup (adLive a) key = Some live"
    and r: "retireOne oo key live (a, w) = (None, (b, v))"
  shows "tight rid a \<Longrightarrow> tight rid b" and "marked rid b k \<Longrightarrow> marked rid a k \<and> k \<noteq> key"
proof -
  obtain y c u where call: "waits oo a (ctRetire (aoController oo) (laResourceID live) (laOperationID live) (laReceipt live) w) = (y, (c, u))"
    by (metis surj_pair)
  have h: "adHasOperations a" using r by (simp add: retireOne_def split: if_splits)
  have y: "y = None" using r call h by (cases y) (simp_all add: retireOne_def)
  have k: "keeps rid a c" using o call by (auto simp: others_within_def waits_def) (metis fst_conv)
  have c: "fmlookup (adLive c) key = Some live" using keeps_live [OF k live(1)] live(2) by simp
  have b: "adLive b = fmdrop key (adLive c)" "adPending b = adPending c |-| {|key|}"
    using r call h y c by (auto simp: retireOne_def Let_def sameSessionReceipt_def)
  have mark: "marked rid c k \<and> k \<noteq> key" if "marked rid b k" for k
    using that unfolding marked_def foreign_iff b by (auto split: if_splits)
  then show "marked rid b k \<Longrightarrow> marked rid a k \<and> k \<noteq> key" using keeps_marked [OF k] by blast
  show "tight rid b" if t: "tight rid a"
    unfolding tight_def
  proof (intro allI impI)
    fix k'
    assume "marked rid b k'"
    then have m: "marked rid a k'" "k' \<noteq> key" using mark keeps_marked [OF k] by blast+
    then obtain l where "fmlookup (adLive a) k' = Some l" "laResourceID l = rid" using t by (auto simp: tight_def)
    then show "\<exists>l. fmlookup (adLive b) k' = Some l \<and> laResourceID l = rid"
      using m(2) keeps_live [OF k] b(1) by (intro exI [of _ l]) simp
  qed
qed

lemma retireKeys_done:
  assumes o: "others_within (keeps rid) oo"
  shows "retireKeys oo rid keys (a, w) = (None, (b, v)) \<Longrightarrow> tight rid a \<Longrightarrow> marked rid b k \<Longrightarrow> marked rid a k \<and> k \<notin> set keys"
proof (induction keys arbitrary: a w)
  case Nil
  then show ?case by simp
next
  case (Cons key keys)
  show ?case
  proof (cases "fmlookup (adLive a) key")
    case None
    then have "marked rid a k \<and> k \<notin> set keys" using Cons by simp
    moreover have "\<not> marked rid a key" using Cons.prems(2) None by (auto simp: tight_def)
    ultimately show ?thesis by auto
  next
    case (Some live)
    show ?thesis
    proof (cases "laResourceID live \<noteq> rid \<or> key |\<notin>| adPending a")
      case True
      then have "marked rid a k \<and> k \<notin> set keys" using Cons Some by auto
      moreover have "\<not> marked rid a key" using True Some by (auto simp: marked_def foreign_iff)
      ultimately show ?thesis by auto
    next
      case False
      obtain y c u where call: "retireOne oo key live (a, w) = (y, (c, u))" by (metis surj_pair)
      have y: "y = None" and rest: "retireKeys oo rid keys (c, u) = (None, (b, v))"
        using Cons.prems(1) Some False call by (auto split: option.splits)
      have live: "laResourceID live = rid" using False by simp
      note one = retireOne_done [OF o live Some call [unfolded y]]
      have "marked rid c k \<and> k \<notin> set keys" using Cons.IH [OF rest one(1) [OF Cons.prems(2)] Cons.prems(3)] .
      then show ?thesis using one(2) by auto
    qed
  qed
qed

lemma retirePending_done:
  assumes "others_within (keeps rid) oo" "retirePendingForResource oo rid (a, w) = (None, (b, v))"
  shows "\<not> marked rid b k"
proof
  let ?c = "dropStalePending a"
  assume "marked rid b k"
  with retireKeys_done [OF assms(1) _ tight_stale [of rid a]] assms(2)
  have "marked rid ?c k" "k \<notin> set (pendingFor rid ?c)" by (auto simp: retirePendingForResource_def Let_def)
  then show False using marked_pendingFor [OF tight_stale] by blast
qed

text \<open>The admission is valid, its session is tracked, and no other session of the resource is pending.\<close>

definition admitted :: "string \<Rightarrow> string \<Rightarrow> Admission \<Rightarrow> admitter \<Rightarrow> bool" where
  "admitted kr rid admission b \<longleftrightarrow> validateAdmission admission kr rid = None \<and>
     (\<exists>op. op \<noteq> '''' \<and> fmlookup (adLive b) (admissionKey (amSessionReceipt admission)) =
        Some \<lparr>laResourceID = rid, laOperationID = op, laReceipt = amSessionReceipt admission\<rparr>) \<and>
     (\<forall>k. \<not> marked rid b k)"

lemma afterCleanup_fails [simp]: "afterCleanup oo rid op x s \<noteq> (Inr y, s')"
  by (simp add: afterCleanup_def split: prod.split)

lemma settleKnock_done:
  assumes o: "others_within (keeps rid) oo" and none: "\<forall>k. \<not> marked rid a k"
    and r: "settleKnock oo kr rid runID operation k (a, w) = (Inr admission, (b, v))"
  shows "admitted kr rid admission b"
proof -
  let ?op = "opOperationID operation" and ?adm = "admissionOf kr rid runID 1 k"
  obtain y c u where call: "waits oo a (ctRecordMapped (aoController oo) rid operation (krSessionReceipt k) w) = (y, (c, u))"
    by (metis surj_pair)
  obtain t d where tr: "trackAdmission ?adm ?op c = (t, d)" by (metis surj_pair)
  have y: "y = None" using r call by (cases y) (auto simp: settleKnock_def)
  have v: "validateAdmission ?adm kr rid = None"
    using r call y tr
    by (cases "validateAdmission ?adm kr rid"; cases t) (auto simp: settleKnock_def Let_def split: prod.splits)
  obtain key where t: "t = Inr key" using r call y v tr by (cases t) (auto simp: settleKnock_def Let_def)
  have out: "admission = ?adm" "b = d" using r call y v tr t by (simp_all add: settleKnock_def Let_def)
  let ?live = "\<lparr>laResourceID = rid, laOperationID = ?op, laReceipt = krSessionReceipt k\<rparr>"
  from tr t have key: "key = admissionKey (krSessionReceipt k)" "?op \<noteq> ''''" "d = c\<lparr>adLive := fmupd key ?live (adLive c)\<rparr>"
    "fmlookup (adLive c) key = None \<or> fmlookup (adLive c) key = Some ?live"
    by (auto elim: trackAdmission_cases)
  have c: "keeps rid a c" using o call by (auto simp: others_within_def waits_def) (metis fst_conv)
  have "\<not> marked rid d k'" for k'
  proof
    assume "marked rid d k'"
    then have "marked rid c k'" using key(4) unfolding marked_def foreign_iff key(3) by (auto split: if_splits)
    then show False using keeps_marked [OF c] none by blast
  qed
  then show ?thesis using v key(1,2,3) by (simp add: admitted_def out)
qed

lemma knock_done:
  assumes o: "others_within (keeps rid) oo" and none: "\<forall>k. \<not> marked rid a k"
    and r: "knock oo kr rid (a, w) = (Inr admission, (b, v))"
  shows "admitted kr rid admission b"
proof -
  obtain i w1 where i: "aoRunID oo w = (i, w1)" by (metis surj_pair)
  obtain runID where i': "i = Inr runID" using r i by (cases i) (simp_all add: knock_def)
  obtain p c u where prep: "waits oo a (ctPrepareDispatch (aoController oo) kr rid runID 1 w1) = (p, (c, u))" by (metis surj_pair)
  obtain operation where p: "p = Inr operation" using r i i' prep by (cases p) (simp_all add: knock_def)
  obtain q d t where kn: "waits oo c (aoKnock oo kr rid runID operation u) = (q, (d, t))" by (metis surj_pair)
  have "keeps rid a c" "keeps rid c d" using o prep kn by (auto simp: others_within_def waits_def) (metis fst_conv)+
  then have none': "\<forall>k. \<not> marked rid d k" using keeps_marked none by blast
  have "\<exists>k. settleKnock oo kr rid runID operation k (d, t) = (Inr admission, (b, v))"
    using r i i' prep p kn
    by (cases q) (auto simp: knock_def split: option.splits)
  then show ?thesis using settleKnock_done [OF o none'] by blast
qed

lemma admitOnce_done:
  assumes o: "others_within (keeps rid) oo" and r: "admitOnce oo kr rid (a, w) = ((Inr admission, g, el), (b, v))"
  shows "admitted kr rid admission b"
proof -
  obtain p c u where rec: "waits oo a (ctRecoverPending (aoController oo) rid (liveOperationIDs rid a) w) = (p, (c, u))"
    by (metis surj_pair)
  obtain q d t where ret: "retirePendingForResource oo rid (c, u) = (q, (d, t))" by (metis surj_pair)
  have opened: "\<not> (adClosed a \<or> \<not> adReady a)" "adHasOperations a" using r by (simp_all add: admitOnce_def split: if_splits)
  have p: "p = None" using r opened rec by (cases p) (simp_all add: admitOnce_def)
  have q: "q = None" using r opened rec p ret by (cases q) (simp_all add: admitOnce_def)
  have "knock oo kr rid (d, t) = (Inr admission, (b, v))"
    using r opened rec p ret q by (simp add: admitOnce_def split: prod.splits)
  then show ?thesis using knock_done [OF o] retirePending_done [OF o ret [unfolded q]] by blast
qed


lemma Admit_done:
  assumes o: "others_within (keeps rid) oo" and r: "Admit oo agentID mode kr rid (a, w) = (Inr admission, (b, v))"
  shows "admitted kr rid admission b" "fmlookup (adFailures b) rid = None"
proof -
  have reset: "admitted kr rid admission (resetPlacementFailures rid c)" "fmlookup (adFailures (resetPlacementFailures rid c)) rid = None"
    if "admitted kr rid admission c" for c
    using that by (simp_all add: admitted_def resetPlacementFailures_def marked_def foreign_iff)
  have "\<exists>s g el c u. admitOnce oo kr rid s = ((Inr admission, g, el), (c, u)) \<and> b = resetPlacementFailures rid c"
  proof -
    obtain y g el c u where once: "admitOnce oo kr rid (a, w) = ((y, g, el), (c, u))" by (metis surj_pair)
    show ?thesis
    proof (cases y)
      case Inr
      then show ?thesis using r once by (simp add: Admit_def) metis
    next
      case (Inl z)
      obtain dec d where dec: "refreshDecision z rid g el c = (dec, d)" by (metis surj_pair)
      obtain reason where reason: "dec = Some reason" using r once Inl dec by (cases dec) (simp_all add: Admit_def)
      obtain rf e t where rf: "refresh oo agentID mode g reason (d, u) = (rf, (e, t))" by (metis surj_pair)
      have none: "rf = None" using r once Inl dec reason rf by (cases rf) (simp_all add: Admit_def)
      obtain y2 g2 el2 f h where twice: "admitOnce oo kr rid (e, t) = ((y2, g2, el2), (f, h))" by (metis surj_pair)
      show ?thesis using r once Inl dec reason rf none twice
        by (cases y2) (simp_all add: Admit_def, metis)
    qed
  qed
  then obtain s g el c u where "admitOnce oo kr rid s = ((Inr admission, g, el), (c, u))" "b = resetPlacementFailures rid c"
    by blast
  with admitOnce_done [OF o, of _ "fst s" "snd s"] reset show "admitted kr rid admission b" "fmlookup (adFailures b) rid = None"
    by simp_all
qed


text \<open>
  C20. Operations on different resources do not disturb each other, and none forgets a session. Whatever an
  admission, a retirement, a background retirement or the start-up scan does, with any answers of the
  services and any outcome: every live session is still live (and pending, if it was), or has been retired
  through the durable authority; and of every other resource it leaves the live sessions, the pending marks,
  the failure budget, and retires nothing. This is what the calls rely on of each other while they wait.
\<close>

theorem operations_isolated:
  assumes "admitterOperation oo rid (a, w) (b, v)"
    and "others_within accounts oo" "others_within (keeps r) oo"
  shows "accounts a b \<and> (rid \<noteq> r \<longrightarrow> keeps r a b)"
  using operation_accounts [OF assms(1,2)] operation_keeps [OF assms(1) _ assms(3)] by simp

section \<open>The refresh budget\<close>

text \<open>The decisions after a run of failures in one generation.\<close>

primrec decisionRun :: "string \<Rightarrow> uint64 \<Rightarrow> err list \<Rightarrow> admitter \<Rightarrow> string option list" where
  "decisionRun rid g [] a = []"
| "decisionRun rid g (x # xs) a = (case refreshDecision x rid g True a of (d, a) \<Rightarrow> d # decisionRun rid g xs a)"

text \<open>The budget of a resource in a generation: the failures counted and whether the immediate refresh is spent.\<close>

definition budget :: "admitter \<Rightarrow> string \<Rightarrow> uint64 \<Rightarrow> nat \<Rightarrow> bool \<Rightarrow> bool" where
  "budget a rid g n u \<longleftrightarrow> fmlookup (adFailures a) rid = Some \<lparr>pfGeneration = g, pfFailures = n, pfImmediateUsed = u\<rparr> \<or>
     fmlookup (adFailures a) rid = None \<and> n = 0 \<and> \<not> u"

lemma recorded:
  assumes "budget a rid g n u"
  shows "recordPlacementFailure rid g a =
    (4 \<le> n, a\<lparr>adFailures := fmupd rid \<lparr>pfGeneration = g, pfFailures = n + 1, pfImmediateUsed = u\<rparr> (adFailures a)\<rparr>)"
proof -
  have "failureState a rid = \<lparr>pfGeneration = g, pfFailures = n, pfImmediateUsed = u\<rparr> \<or>
      failureState a rid = \<lparr>pfGeneration = 0, pfFailures = 0, pfImmediateUsed = False\<rparr> \<and> n = 0 \<and> \<not> u"
    using assms by (auto simp: budget_def failureState_def)
  then show ?thesis by (elim disjE conjE) (simp_all add: recordPlacementFailure_def Let_def)
qed

lemma decision_step:
  assumes "refreshableKnockError (Some x)" "budget a rid g n u"
  shows "refreshDecision x rid g True a =
    (if 4 \<le> n then Some nativeRefreshReasonSustained
     else if immediatePlacementRefresh x \<and> \<not> u then Some nativeRefreshReasonImmediate else None,
     a\<lparr>adFailures := fmupd rid \<lparr>pfGeneration = g, pfFailures = n + 1,
        pfImmediateUsed = u \<or> n < 4 \<and> immediatePlacementRefresh x\<rparr> (adFailures a)\<rparr>)"
proof -
  let ?s = "\<lparr>pfGeneration = g, pfFailures = n + 1, pfImmediateUsed = u\<rparr>"
  have twice: "fmupd rid s (fmupd rid t f) = fmupd rid s f" for s t and f :: "(string, nativePlacementFailureState) fmap"
    by (rule fmap_ext) simp
  show ?thesis
    using assms(1) recorded [OF assms(2)]
    by (cases "4 \<le> n"; cases "immediatePlacementRefresh x"; cases u)
      (simp_all add: refreshDecision_def claimImmediatePlacementRefresh_def failureState_def Let_def twice)
qed

lemma decision_run:
  assumes "\<And>x. x \<in> set xs \<Longrightarrow> refreshableKnockError (Some x)" and "budget a rid g n u" and "i < length xs"
  shows "decisionRun rid g xs a ! i =
    (if 4 \<le> n + i then Some nativeRefreshReasonSustained
     else if immediatePlacementRefresh (xs ! i) \<and> \<not> u \<and> \<not> list_ex immediatePlacementRefresh (take i xs)
       then Some nativeRefreshReasonImmediate else None)"
  using assms
proof (induction xs arbitrary: a n u i)
  case Nil
  then show ?case by simp
next
  case (Cons x xs)
  note step = decision_step [of x a rid g n u, OF Cons.prems(1) Cons.prems(2)]
  show ?case
  proof (cases i)
    case 0
    then show ?thesis using step by simp
  next
    case (Suc j)
    let ?a = "snd (refreshDecision x rid g True a)"
    have a: "budget ?a rid g (n + 1) (u \<or> n < 4 \<and> immediatePlacementRefresh x)" using step by (simp add: budget_def)
    have "decisionRun rid g (x # xs) a ! i = decisionRun rid g xs ?a ! j" by (simp add: Suc split: prod.split)
    also have "\<dots> = (if 4 \<le> n + 1 + j then Some nativeRefreshReasonSustained
     else if immediatePlacementRefresh (xs ! j) \<and> \<not> (u \<or> n < 4 \<and> immediatePlacementRefresh x) \<and>
        \<not> list_ex immediatePlacementRefresh (take j xs) then Some nativeRefreshReasonImmediate else None)"
      by (rule Cons.IH [OF _ a]) (use Cons.prems Suc in auto)
    finally show ?thesis by (auto simp: Suc)
  qed
qed

text \<open>
  The refresh budget of a resource: over any run of refreshable failures of its admissions in one
  assignment generation, from a fresh budget, the first failure that proves the placement itself stale asks
  for one immediate refresh, no other of the first four asks for any, and every failure from the fifth on
  asks for a refresh as a sustained failure.
\<close>

lemma refresh_budget:
  assumes "list_all (\<lambda>x. refreshableKnockError (Some x)) xs" and "fmlookup (adFailures a) rid = None" and "i < length xs"
  shows "decisionRun rid g xs a ! i =
    (if 4 \<le> i then Some nativeRefreshReasonSustained
     else if immediatePlacementRefresh (xs ! i) \<and> \<not> list_ex immediatePlacementRefresh (take i xs)
       then Some nativeRefreshReasonImmediate else None)"
  using decision_run [of xs a rid g 0 False i] assms by (simp add: budget_def list_all_iff)

section \<open>The retry schedule\<close>

definition paced :: "nativeRetirementRecoverySchedule \<Rightarrow> bool" where
  "paced sch \<longleftrightarrow> (\<forall>rid t. fmlookup sch rid = Some t \<longrightarrow>
     nativeOrphanRecoveryInitialBackoff \<le> raBackoff t \<and> raBackoff t \<le> nativeOrphanRecoveryMaxBackoff)"

lemmas backoff_defs = nativeOrphanRecoveryInitialBackoff_def nativeOrphanRecoveryMaxBackoff_def duration_defs

lemma paced_empty: "paced fmempty"
  by (simp add: paced_def)

lemma paced_queue: "paced sch \<Longrightarrow> paced (scheduleQueue rid now sch)"
  by (simp add: paced_def scheduleQueue_def backoff_defs)

lemma paced_drop: "paced sch \<Longrightarrow> paced (fmdrop rid sch)"
  by (simp add: paced_def)

lemma retry_entry:
  assumes "paced sch"
  shows "\<exists>d. nativeOrphanRecoveryInitialBackoff \<le> d \<and> d \<le> nativeOrphanRecoveryMaxBackoff \<and>
    scheduleRetry rid now sch = fmupd rid \<lparr>raNotBefore = now + d, raBackoff = min (d * 2) nativeOrphanRecoveryMaxBackoff\<rparr> sch \<and>
    (\<forall>t. fmlookup sch rid = Some t \<longrightarrow> d = raBackoff t)"
proof (cases "fmlookup sch rid")
  case None
  then show ?thesis
    by (intro exI [of _ nativeOrphanRecoveryInitialBackoff]) (simp add: scheduleRetry_def Let_def backoff_defs)
next
  case (Some t)
  then have "nativeOrphanRecoveryInitialBackoff \<le> raBackoff t" "raBackoff t \<le> nativeOrphanRecoveryMaxBackoff"
    using assms by (auto simp: paced_def)
  moreover from this(1) have "\<not> raBackoff t \<le> 0" by (simp add: backoff_defs)
  ultimately show ?thesis using Some by (intro exI [of _ "raBackoff t"]) (simp add: scheduleRetry_def Let_def)
qed

lemma paced_retry: "paced sch \<Longrightarrow> paced (scheduleRetry rid now sch)"
proof -
  assume p: "paced sch"
  from retry_entry [OF this, of rid now] obtain d where "nativeOrphanRecoveryInitialBackoff \<le> d"
    "scheduleRetry rid now sch = fmupd rid \<lparr>raNotBefore = now + d, raBackoff = min (d * 2) nativeOrphanRecoveryMaxBackoff\<rparr> sch"
    by blast
  with p show ?thesis by (simp add: paced_def backoff_defs)
qed


text \<open>What an attempt of the worker that takes a resource off the schedule has found.\<close>

definition concluded :: "'w admitterOps \<Rightarrow> string \<Rightarrow> bool" where
  "concluded oo rid \<longleftrightarrow> (\<exists>s1 s2 p x. recoverPendingNativeRetirements oo rid s1 = ((p, x), s2) \<and>
     (x = None \<and> (\<forall>k. \<not> marked rid (fst s2) k) \<or> (\<exists>y. x = Some y \<and> isPermanentNativeRetirementError y)))"

lemma recoverPending_result:
  assumes o: "others_within (keeps rid) oo" and r: "recoverPendingNativeRetirements oo rid s = ((p, x), s2)" and "x = None \<or> p"
  shows "concluded oo rid"
proof -
  obtain a w where acq: "acquire oo s = (a, w)" by (metis surj_pair)
  show ?thesis
  proof (cases "adClosed a \<or> \<not> adReady a \<or> \<not> adHasOperations a")
    case True
    then show ?thesis using r acq assms(3) by (auto simp: recoverPendingNativeRetirements_def)
  next
    case False
    obtain y b v where ret: "retirePendingForResource oo rid (a, w) = (y, (b, v))" by (metis surj_pair)
    have x: "x = y" and p: "p = (case y of None \<Rightarrow> False | Some z \<Rightarrow> isPermanentNativeRetirementError z)"
      and s2: "y = None \<Longrightarrow> fst s2 = b"
      using r acq False ret by (auto simp: recoverPendingNativeRetirements_def Let_def)
    show ?thesis
    proof (cases y)
      case None
      then have "\<forall>k. \<not> marked rid (fst s2) k" using retirePending_done [OF o ret [unfolded None]] s2 by simp
      then show ?thesis using r x None unfolding concluded_def by blast
    next
      case (Some z)
      then have "isPermanentNativeRetirementError z" using assms(3) x p by simp
      then show ?thesis using r x Some unfolding concluded_def by blast
    qed
  qed
qed

lemma recoverDue_keeps_schedule:
  assumes o: "\<And>rid. others_within (keeps rid) oo"
  shows "recoverDue oo rids sch s = (go, sch', s') \<Longrightarrow> paced sch \<Longrightarrow>
    paced sch' \<and> (rid |\<in>| fmdom sch \<longrightarrow> rid |\<in>| fmdom sch' \<or> concluded oo rid)"
proof (induction rids arbitrary: sch s)
  case Nil
  then show ?case by simp
next
  case (Cons r rids)
  obtain p x a w where rec: "recoverPendingNativeRetirements oo r s = ((p, x), (a, w))" by (metis surj_pair)
  obtain now w2 where now: "aoNow oo w = (now, w2)" by (metis surj_pair)
  show ?case
  proof (cases "aoLifecycleEnded oo w")
    case True
    then show ?thesis using Cons.prems rec by simp
  next
    case False
    show ?thesis
    proof (cases "x = None \<or> p")
      case True
      have next_: "recoverDue oo rids (fmdrop r sch) (a, w) = (go, sch', s')" using Cons.prems(1) rec False True by auto
      have "concluded oo r" by (rule recoverPending_result [OF o rec True])
      then show ?thesis using Cons.IH [OF next_ paced_drop [OF Cons.prems(2)]] by (cases "rid = r") simp_all
    next
      case fail: False
      then have next_: "recoverDue oo rids (scheduleRetry r now sch) (a, w2) = (go, sch', s')"
        using Cons.prems(1) rec False now by auto
      show ?thesis using Cons.IH [OF next_ paced_retry [OF Cons.prems(2)]] by (simp add: scheduleRetry_def Let_def)
    qed
  qed
qed

lemma queue_dom: "rid |\<in>| fmdom (scheduleQueue r now sch) \<longleftrightarrow> rid |\<in>| fmdom sch \<or> rid = r \<and> r \<noteq> ''''"
  by (auto simp: scheduleQueue_def)

lemma queue_all:
  "paced sch \<Longrightarrow> paced (fold (\<lambda>rid. scheduleQueue rid now) rids sch)"
  "rid |\<in>| fmdom sch \<or> rid \<in> set rids \<and> rid \<noteq> '''' \<Longrightarrow> rid |\<in>| fmdom (fold (\<lambda>rid. scheduleQueue rid now) rids sch)"
proof (induction rids arbitrary: sch)
  case (Cons r rids)
  { case 1 then show ?case using Cons.IH(1) paced_queue by simp
  next
    case 2 then show ?case using Cons.IH(2) [of "scheduleQueue r now sch"] by (auto simp: queue_dom)
  }
qed simp_all


text \<open>The worker sleeps until the earliest scheduled attempt is due, and no longer.\<close>

lemma foldl_min: "foldl min (t::int) ts \<in> set (t # ts) \<and> (\<forall>x \<in> set (t # ts). foldl min t ts \<le> x)"
proof (induction ts arbitrary: t)
  case (Cons u ts)
  have "foldl min (min t u) ts \<in> set (min t u # ts)" "\<forall>x \<in> set (min t u # ts). foldl min (min t u) ts \<le> x"
    using Cons [of "min t u"] by blast+
  then show ?case by (cases "t \<le> u") (auto simp: min_absorb1 min_absorb2)
qed simp

lemma nextDelay_due:
  assumes "scheduleNextDelay now sch = Some d"
  shows "scheduleDue (now + d) sch \<noteq> []" and "0 \<le> e \<Longrightarrow> e < d \<Longrightarrow> scheduleDue (now + e) sch = []"
proof -
  let ?f = "\<lambda>rid. raNotBefore (the (fmlookup sch rid))"
  obtain t ts where l: "map ?f (sorted_list_of_fset (fmdom sch)) = t # ts"
    using assms by (cases "map ?f (sorted_list_of_fset (fmdom sch))") (simp_all add: scheduleNextDelay_def)
  let ?m = "foldl min t ts"
  have set: "set (t # ts) = ?f ` fset (fmdom sch)" by (metis l set_map sorted_list_of_fset_simps(1))
  have d: "d = (if ?m \<le> now then 0 else ?m - now)" using assms l by (simp add: scheduleNextDelay_def Let_def)
  have "?m \<in> ?f ` fset (fmdom sch)" unfolding set [symmetric] using foldl_min [of t ts] by (rule conjunct1)
  then obtain rid where rid: "rid |\<in>| fmdom sch" "?f rid = ?m" by (elim imageE) simp
  then have "rid \<in> set (scheduleDue (now + d) sch)" using d by (simp add: scheduleDue_def)
  then show "scheduleDue (now + d) sch \<noteq> []" by (metis empty_iff empty_set)
  assume e: "0 \<le> e" "e < d"
  have "set (scheduleDue (now + e) sch) = {}"
  proof -
    have "now + e < ?f r" if "r |\<in>| fmdom sch" for r
    proof -
      have "?f r \<in> set (t # ts)" unfolding set using that by (rule imageI)
      then have "?m \<le> ?f r" using foldl_min [of t ts] by blast
      then show ?thesis using e d by (simp split: if_splits)
    qed
    then show ?thesis by (auto simp: scheduleDue_def) (metis linorder_not_le)
  qed
  then show "scheduleDue (now + e) sch = []" by simp
qed


section \<open>Close\<close>

lemma closeSessions_result:
  "closeSessions oo sessions x (a, w) = (y, (b, v)) \<Longrightarrow> adClosed b = adClosed a \<and>
    (\<exists>ls. adRetired b = adRetired a @ ls \<and> (y = None \<longrightarrow> x = None \<and> snd ` set sessions \<subseteq> set ls))"
proof (induction sessions arbitrary: x a w)
  case (Cons session sessions)
  obtain key live where s: "session = (key, live)" by (metis surj_pair)
  let ?call = "if \<not> adHasOperations a then (Some (NewErr ''native admitter has no durable session-operation authority''), w)
      else ctRetire (aoController oo) (laResourceID live) (laOperationID live) (laReceipt live) w"
  obtain z u where call: "?call = (z, u)" by (metis surj_pair)
  show ?case
  proof (cases z)
    case (Some e)
    then have "closeSessions oo sessions (errorsJoin [x, Some e]) (a, u) = (y, (b, v))"
      using Cons.prems unfolding s closeSessions.simps call by simp
    from Cons.IH [OF this] show ?thesis by auto
  next
    case None
    let ?a = "a\<lparr>adRetired := adRetired a @ [live], adPending := adPending a |-| {|key|}, adLive := fmdrop key (adLive a)\<rparr>"
    have "closeSessions oo sessions x (?a, u) = (y, (b, v))"
      using Cons.prems unfolding s closeSessions.simps call None by simp
    from Cons.IH [OF this] obtain ls where "adClosed b = adClosed a" "adRetired b = adRetired a @ live # ls"
      "y = None \<longrightarrow> x = None \<and> snd ` set sessions \<subseteq> set ls" by auto
    then show ?thesis by (intro conjI exI [of _ "live # ls"]) (auto simp: s)
  qed
qed simp

lemma closed_refuses:
  assumes "adClosed b"
  shows "Admit oo agentID mode kr rid (b, v) = (Inl (NewErr ''native admitter is closed''), (b, v))"
    and "\<exists>y. recoverPendingNativeRetirements oo rid (b, v) = ((False, Some y), acquire oo (b, v)) \<or>
      \<not> adClosed (fst (acquire oo (b, v)))"
  using assms by (simp_all add: Admit_def admitOnce_def refreshDecision_def recoverPendingNativeRetirements_def split: prod.split)

lemma liveSessions_all: "fmlookup (adLive a) k = Some l \<Longrightarrow> l \<in> snd ` set (liveSessions a)"
proof -
  assume l: "fmlookup (adLive a) k = Some l"
  then have "(k, l) \<in> set (liveSessions a)" by (simp add: liveSessions_def image_iff fmdomI)
  then show ?thesis by (rule image_eqI [rotated]) simp
qed

text \<open>
  C15. \<open>Close\<close> settles the admitter. When it reports no error, every session that was live when it took the
  runtime has been retired through the durable authority; a session it could not retire makes it report an
  error. Afterwards every admission is refused without a call.
\<close>

theorem close_settles:
  assumes "Close oo (a, w) = (x, (b, v))" and "acquire oo (a, aoCancel oo w) = (c, u)"
    and "\<not> adClosed c" and "adReady c"
  shows "Admit oo2 agentID mode kr rid (b, v2) = (Inl (NewErr ''native admitter is closed''), (b, v2)) \<and>
    (\<exists>ls. adRetired b = adRetired c @ ls \<and> (x = None \<longrightarrow>
       (\<forall>k l. fmlookup (adLive c) k = Some l \<longrightarrow> l \<in> set ls)))"
proof -
  obtain y d t where cs: "closeSessions oo (liveSessions c) None (c\<lparr>adClosed := True\<rparr>, u) = (y, (d, t))" by (metis surj_pair)
  obtain z t2 where st: "aoCloseStore oo t = (z, t2)" by (metis surj_pair)
  have b: "b = d\<lparr>adReady := False, adHasOperations := False, adLive := fmempty, adPending := {||},
      adQueue := {||}, adFailures := fmempty\<rparr>" "x = errorsJoin [y, z]"
    using assms cs st by (simp_all add: Close_def)
  have closed: "adClosed b" using closeSessions_result [OF cs] by (simp add: b)
  from closeSessions_result [OF cs] obtain ls where ls: "adRetired d = adRetired c @ ls"
    "y = None \<longrightarrow> snd ` set (liveSessions c) \<subseteq> set ls" by auto
  have "l \<in> set ls" if "x = None" "fmlookup (adLive c) k = Some l" for k l
    using ls(2) liveSessions_all [OF that(2)] that(1) b(2) by auto
  then show ?thesis using closed_refuses(1) [OF closed] ls(1) b(1) by auto
qed

end
