(* ===== verification/Admitter_Witnesses.thy ===== *)
theory Admitter_Witnesses
  imports Admitter_Claims
begin

text \<open>
  The admitter's theorems at a concrete state: two resources with a session each, the first pending
  retirement, services that answer, and a sibling that retires the session of the second resource whenever
  an operation on the first waits.
\<close>

definition wReceipt :: "uint64 \<Rightarrow> NativeSessionReceipt" where
  "wReceipt n = \<lparr>rcCellID = ''c'', rcSessionID = n, rcSessionIssuedAtMillis = 1, rcRunID = ''run'', rcRunAttempt = 1\<rparr>"

definition wLive :: "string \<Rightarrow> uint64 \<Rightarrow> nativeLiveAdmission" where
  "wLive rid n = \<lparr>laResourceID = rid, laOperationID = ''op'', laReceipt = wReceipt n\<rparr>"

definition wAdmitter :: admitter where
  "wAdmitter = \<lparr>adReady = True, adHasOperations = True, adClosed = False, adGeneration = 0, adFailures = fmempty,
     adLive = fmap_of_list [(admissionKey (wReceipt 1), wLive ''a'' 1), (admissionKey (wReceipt 2), wLive ''b'' 2)],
     adPending = {|admissionKey (wReceipt 1)|}, adQueue = {|''a''|}, adRetired = []\<rparr>"

definition wOperation :: NativeSessionOperation where
  "wOperation = \<lparr>opOperationID = ''op'', opProtectedResourceID = ''a'', opResourceID = ''k'', opCellID = ''c'',
     opOwnerID = ''o'', opAgentID = ''g'', opRunID = ''run'', opRunAttempt = 1, opPreparedAtMillis = 0, opExpiresAtMillis = 1, opRest = ''''\<rparr>"

definition wKnock :: knockResult where
  "wKnock = \<lparr>krACToken = ''t'', krResourceHost = ''h:443'', krSessionID = 3, krSessionReceipt = wReceipt 3, krOpenTime = 60\<rparr>"

definition wBase :: "unit admitterOps" where
  "wBase = \<lparr>aoController = \<lparr>ctRecoverPending = (\<lambda>_ _ w. (None, w)), ctPrepareDispatch = (\<lambda>_ _ _ _ w. (Inr wOperation, w)),
       ctRecordMapped = (\<lambda>_ _ _ w. (None, w)), ctRecoverOperation = (\<lambda>_ _ w. (None, w)), ctRetire = (\<lambda>_ _ _ w. (None, w))\<rparr>,
     aoOthers = (\<lambda>a w. (a, w)), aoRunID = (\<lambda>w. (Inr ''run'', w)), aoKnock = (\<lambda>_ _ _ _ w. (Inr (Some wKnock), w)),
     aoScan = (\<lambda>w. (\<lparr>scResourceIDs = [''a''], scRetryableError = None\<rparr>, w)), aoCtxErr = (\<lambda>_. None),
     aoLifecycleEnded = (\<lambda>_. False), aoNow = (\<lambda>w. (0, w)), aoRequestRefresh = (\<lambda>_ w. (None, w)),
     aoLoadMarker = (\<lambda>w. (Inr None, w)), aoMarkAttempted = (\<lambda>w. (None, w)), aoMarkSucceeded = (\<lambda>w. (None, w)),
     aoClearMarker = (\<lambda>w. (None, w)), aoHandoff = (\<lambda>w. (None, w)), aoValidateContinuity = (\<lambda>w. (None, w)),
     aoRefreshRuntime = (\<lambda>w. (Inr (True, ''g'', 32), w)), aoLockRuntime = (\<lambda>w. (None, w)), aoCancel = (\<lambda>w. w),
     aoWait = (\<lambda>_ w. (True, w)), aoWaitWake = (\<lambda>_ w. (True, w)), aoCloseStore = (\<lambda>w. (None, w))\<rparr>"

definition wSibling :: Admission where
  "wSibling = \<lparr>amKnockResourceID = ''k'', amResourcePublicKey = ''b'', amRunID = ''run'', amRunAttempt = 1,
     amToken = ''t'', amResourceHost = ''h:443'', amSessionID = 2, amSessionReceipt = wReceipt 2, amOpenTime = second\<rparr>"

definition wOps :: "unit admitterOps" where
  "wOps = wBase\<lparr>aoOthers := (\<lambda>a w. snd (admitterRetire wBase wSibling (a, w)))\<rparr>"

lemma wBase_within: "others_within (keeps r) wBase" "others_within accounts wBase"
  by (simp_all add: others_within_def wBase_def isolation.refl accounting.refl)

lemma wSibling_operation: "admitterOperation wBase ''b'' s (snd (admitterRetire wBase wSibling s))"
  by (rule admitterOperation.retire [of wSibling _ _ _ "fst (admitterRetire wBase wSibling s)"]) (simp_all add: wSibling_def)

lemma wOps_within: "others_within accounts wOps" "others_within (keeps ''a'') wOps"
  using operation_accounts [OF wSibling_operation wBase_within(2)]
    operation_keeps [OF wSibling_operation _ wBase_within(1), where r = "''a''"]
  by (simp_all add: others_within_def wOps_def) (metis fst_conv)+

lemma wAdmit: "case Admit wOps ''g'' ''auto'' ''k'' ''a'' (wAdmitter, ()) of
    (Inr adm, (b, _)) \<Rightarrow> amSessionReceipt adm = wReceipt 3 \<and> adRetired b = [wLive ''b'' 2, wLive ''a'' 1]
  | _ \<Rightarrow> False"
  by code_simp


theorem operations_isolated_witness:
  "accounts wAdmitter (fst (snd (admitterRetire wBase wSibling (wAdmitter, ())))) \<and>
     keeps ''a'' wAdmitter (fst (snd (admitterRetire wBase wSibling (wAdmitter, ()))))"
proof -
  let ?b = "fst (snd (admitterRetire wBase wSibling (wAdmitter, ())))"
  have "(?b, ()) = snd (admitterRetire wBase wSibling (wAdmitter, ()))" by (simp add: prod_eq_iff)
  then have "admitterOperation wBase ''b'' (wAdmitter, ()) (?b, ())"
    using wSibling_operation [of "(wAdmitter, ())"] by (rule ssubst)
  from operations_isolated [OF this wBase_within(2) wBase_within(1), where r = "''a''"] show ?thesis by simp
qed

definition wFailures :: "err list" where
  "wFailures = [Sentinel UdpNoReply, Sentinel QAssignmentLeaseExpired, Sentinel QAssignmentLeaseExpired,
     Sentinel UdpTransport, Sentinel UdpNoReply]"

lemma refresh_budget_witness:
  "decisionRun ''a'' 7 wFailures wAdmitter ! 1 = Some nativeRefreshReasonImmediate"
proof -
  have r: "list_all (\<lambda>x. refreshableKnockError (Some x)) wFailures" by code_simp
  have f: "fmlookup (adFailures wAdmitter) ''a'' = None" "1 < length wFailures" by (simp_all add: wAdmitter_def wFailures_def)
  have i: "immediatePlacementRefresh (wFailures ! 1)" "\<not> list_ex immediatePlacementRefresh (take 1 wFailures)" by code_simp+
  show ?thesis using refresh_budget [OF r f, of 7] i by simp
qed


theorem close_settles_witness:
  "\<exists>b. Close wBase (wAdmitter, ()) = (None, (b, ())) \<and> (\<exists>ls. adRetired b = ls \<and> wLive ''a'' 1 \<in> set ls)"
proof -
  obtain x b where r: "Close wBase (wAdmitter, ()) = (x, (b, ()))" by (metis surj_pair old.unit.exhaust)
  have "fst (Close wBase (wAdmitter, ())) = None" by code_simp
  then have x: "x = None" using r by simp
  have acq: "acquire wBase (wAdmitter, aoCancel wBase ()) = (wAdmitter, ())" by (simp add: acquire_def wBase_def)
  have "fmlookup (adLive wAdmitter) (admissionKey (wReceipt 1)) = Some (wLive ''a'' 1)" by code_simp
  moreover have "\<not> adClosed wAdmitter" "adReady wAdmitter" "adRetired wAdmitter = []" by (simp_all add: wAdmitter_def)
  ultimately show ?thesis using conjunct2 [OF close_settles [OF r acq]] r x by auto
qed

end
