(* ===== verification/Native_Open_Props.thy ===== *)
theory Native_Open_Props
  imports Native_Open Admitter_Witnesses
begin

text \<open>
  Which of its authorities an open of the native runtime may use, on every path: the shape of the list of
  calls it makes.
\<close>

section \<open>Shapes of call lists\<close>

fun refreshCalls :: "openCall list \<Rightarrow> bool" where
  "refreshCalls [] = True"
| "refreshCalls [OcAttempted] = True"
| "refreshCalls (OcAttempted # OcRefresh # cs) = refreshCalls cs"
| "refreshCalls _ = False"

text \<open>The calls after the offline open: refreshes and at most one recovery, or one registration.\<close>

definition recoveryCalls :: "nativeRuntimeConfig \<Rightarrow> openCall list \<Rightarrow> bool" where
  "recoveryCalls cfg cs \<longleftrightarrow> cs = [] \<or> (\<exists>x. cs = [OcRecover x] \<and> mayConsumeNativeRecoveryAuthority x \<and> ncRecovery cfg)"

definition refreshedCalls :: "nativeRuntimeConfig \<Rightarrow> openCall list \<Rightarrow> bool" where
  "refreshedCalls cfg cs \<longleftrightarrow> (\<exists>rs ts. cs = rs @ ts \<and> refreshCalls rs \<and> recoveryCalls cfg ts \<and>
     (rs \<noteq> [] \<longrightarrow> refreshMode cfg \<noteq> ''disabled''))"

text \<open>An error that lets a first registration begin or resume.\<close>

definition unregistered :: "err \<Rightarrow> bool" where
  "unregistered x \<longleftrightarrow> errorsIs x QAgentStateNotFound \<or> errorsIs x QInvalidRegisterConfig"

definition openCalls :: "nativeRuntimeConfig \<Rightarrow> openCall list \<Rightarrow> bool" where
  "openCalls cfg cs \<longleftrightarrow> refreshedCalls cfg cs \<or>
     (\<exists>x ts. cs = OcOffline x # ts \<and> (refreshedCalls cfg ts \<or>
        (\<exists>y. ts = [OcRegister] \<and> x = Some y \<and> unregistered y \<and> ncEnrollment cfg)))"

section \<open>What each part adds\<close>

lemma storeCall_calls: "storeCall f s = (r, s') \<Longrightarrow> osCalls s' = osCalls s"
  by (auto simp: storeCall_def split: prod.splits)

lemma called_calls [simp]: "osCalls (called c w s) = osCalls s @ [c]" "osWorld (called c w s) = w"
  by (simp_all add: called_def)

lemma offlineOpen_calls: "offlineOpen oo cfg s = (r, s') \<Longrightarrow> osCalls s' = osCalls s"
  by (auto simp: offlineOpen_def split: prod.splits option.splits sum.splits dest!: storeCall_calls)

lemma warmOpen_calls:
  assumes "warmOpenNativeRuntime oo cfg s = (r, s')"
  shows "osCalls s' = osCalls s @ [OcOffline (case r of Inl x \<Rightarrow> Some x | Inr _ \<Rightarrow> None)]"
  using assms by (auto simp: warmOpenNativeRuntime_def split: prod.splits dest: offlineOpen_calls)

lemma recover_calls:
  assumes "recoverNativeCredential oo cfg x s = (r, s')"
  shows "\<exists>cs. osCalls s' = osCalls s @ cs \<and> recoveryCalls cfg cs"
proof (cases "mayConsumeNativeRecoveryAuthority x \<and> ncRecovery cfg")
  case False
  then show ?thesis using assms by (auto simp: recoverNativeCredential_def recoveryCalls_def)
next
  case True
  then have "osCalls s' = osCalls s \<or> osCalls s' = osCalls s @ [OcRecover x]"
    using assms
    by (auto simp: recoverNativeCredential_def split: prod.splits option.splits sum.splits dest!: storeCall_calls)
  then show ?thesis using True by (auto simp: recoveryCalls_def)
qed

lemma awaitRefresh_calls: "awaitRefresh oo m s = (r, s') \<Longrightarrow> osCalls s' = osCalls s"
  by (auto simp: awaitRefresh_def Let_def split: prod.splits if_splits dest!: storeCall_calls)

lemma refreshRounds_calls:
  "refreshRounds n oo cfg m s = Some (r, s') \<Longrightarrow> \<exists>cs. osCalls s' = osCalls s @ cs \<and> refreshCalls cs"
proof (induction n arbitrary: m s)
  case 0
  then show ?case by simp
next
  case (Suc n)
  obtain a s1 where aw: "awaitRefresh oo m s = (a, s1)" by (metis surj_pair)
  note c1 = awaitRefresh_calls [OF aw]
  show ?case
  proof (cases a)
    case (Some x)
    then show ?thesis using Suc.prems aw c1 by (intro exI [of _ "[]"]) auto
  next
    case None
    obtain b w where at: "aoMarkAttempted (ooStore oo) (osWorld s1) = (b, w)" by (metis surj_pair)
    show ?thesis
    proof (cases b)
      case (Some x)
      then show ?thesis using Suc.prems aw c1 None at by (intro exI [of _ "[]"]) auto
    next
      case none: None
      obtain h s2 where ho: "storeCall (aoHandoff (ooStore oo)) (called OcAttempted w s1) = (h, s2)" by (metis surj_pair)
      have c2: "osCalls s2 = osCalls s @ [OcAttempted]" using storeCall_calls [OF ho] c1 by simp
      show ?thesis
      proof (cases h)
        case (Some x)
        then show ?thesis using Suc.prems aw None at none ho c2 by (intro exI [of _ "[OcAttempted]"]) auto
      next
        case handed: None
        obtain f u where rf: "aoRefreshRuntime (ooStore oo) (osWorld s2) = (f, u)" by (metis surj_pair)
        let ?s3 = "called OcRefresh u s2"
        have c3: "osCalls ?s3 = osCalls s @ [OcAttempted, OcRefresh]" using c2 by simp
        have stop: ?thesis if "osCalls s' = osCalls ?s3"
          using that c3 by (intro exI [of _ "[OcAttempted, OcRefresh]"]) simp
        show ?thesis
        proof (cases f)
          case (Inr runtime)
          then have "osCalls s' = osCalls ?s3"
            using Suc.prems aw None at none ho handed rf
            by (auto split: prod.splits dest!: storeCall_calls)
          then show ?thesis by (rule stop)
        next
          case (Inl x)
          obtain l s4 where ld: "storeCall (aoLoadMarker (ooStore oo)) ?s3 = (l, s4)" by (metis surj_pair)
          have c4: "osCalls s4 = osCalls ?s3" by (rule storeCall_calls [OF ld])
          have "osCalls s' = osCalls ?s3 \<or> (\<exists>m'. refreshRounds n oo cfg m' s4 = Some (r, s'))"
            using Suc.prems aw None at none ho handed rf Inl ld c4
            by (auto simp: Let_def split: option.splits if_splits sum.splits)
          then show ?thesis
          proof
            assume "\<exists>m'. refreshRounds n oo cfg m' s4 = Some (r, s')"
            then obtain cs where "osCalls s' = osCalls s4 @ cs" "refreshCalls cs" using Suc.IH by blast
            then show ?thesis using c4 c3 by (intro exI [of _ "OcAttempted # OcRefresh # cs"]) simp
          qed (rule stop)
        qed
      qed
    qed
  qed
qed


lemma refreshOrRecover_calls:
  assumes "refreshOrRecover n oo cfg m s = Some (r, s')"
  shows "\<exists>cs. osCalls s' = osCalls s @ cs \<and> refreshedCalls cfg cs"
proof -
  obtain q s1 where q: "refreshUntilOpen n oo cfg m s = Some (q, s1)"
    using assms by (auto simp: refreshOrRecover_def split: option.splits)
  have "\<exists>rs. osCalls s1 = osCalls s @ rs \<and> refreshCalls rs \<and> (rs \<noteq> [] \<longrightarrow> refreshMode cfg \<noteq> ''disabled'')"
  proof (cases "refreshMode cfg = ''disabled''")
    case True
    then show ?thesis using q by (auto simp: refreshUntilOpen_def)
  next
    case False
    then have "refreshRounds n oo cfg m s = Some (q, s1)" using q by (simp add: refreshUntilOpen_def)
    then show ?thesis using refreshRounds_calls False by blast
  qed
  then obtain rs where rs: "osCalls s1 = osCalls s @ rs" "refreshCalls rs" "rs \<noteq> [] \<longrightarrow> refreshMode cfg \<noteq> ''disabled''" by blast
  have "\<exists>ts. osCalls s' = osCalls s1 @ ts \<and> recoveryCalls cfg ts"
  proof (cases q)
    case (Inl x)
    then have "recoverNativeCredential oo cfg x s1 = (r, s')" using assms q by (simp add: refreshOrRecover_def)
    then show ?thesis by (rule recover_calls)
  next
    case (Inr k)
    then have "s' = s1" using assms q by (simp add: refreshOrRecover_def)
    then show ?thesis by (simp add: recoveryCalls_def)
  qed
  then obtain ts where ts: "osCalls s' = osCalls s1 @ ts" "recoveryCalls cfg ts" by blast
  have "refreshedCalls cfg (rs @ ts)" using rs(2,3) ts(2) unfolding refreshedCalls_def by blast
  then show ?thesis using rs(1) ts(1) by (intro exI [of _ "rs @ ts"]) simp
qed

lemma register_calls:
  assumes "registerNativeRuntime oo cfg s = (r, s')"
  shows "osCalls s' = osCalls s \<or> osCalls s' = osCalls s @ [OcRegister] \<and> ncEnrollment cfg"
  using assms
  by (auto simp: registerNativeRuntime_def split: if_splits prod.splits option.splits sum.splits dest!: storeCall_calls)

lemma registerOrResume_calls:
  assumes "registerOrResume oo cfg x s = (r, s')"
  shows "osCalls s' = osCalls s \<or> osCalls s' = osCalls s @ [OcRegister] \<and> ncEnrollment cfg \<and> unregistered x"
proof (cases "errorsIs x QAgentStateNotFound")
  case True
  then show ?thesis using assms register_calls [of oo cfg s r s'] by (auto simp: registerOrResume_def unregistered_def)
next
  case False
  show ?thesis
  proof (cases "errorsIs x QInvalidRegisterConfig \<and> ncEnrollment cfg")
    case no: False
    then show ?thesis using assms False by (auto simp: registerOrResume_def)
  next
    case True
    obtain h s1 where h: "storeCall (aoHandoff (ooStore oo)) s = (h, s1)" by (metis surj_pair)
    obtain l s2 where l: "storeCall (ooLoadState oo) s1 = (l, s2)" by (metis surj_pair)
    have c: "osCalls s1 = osCalls s" "osCalls s2 = osCalls s" using storeCall_calls [OF h] storeCall_calls [OF l] by simp_all
    have "osCalls s' = osCalls s \<or> registerNativeRuntime oo cfg s2 = (r, s')"
      using assms False True h l c by (auto simp: registerOrResume_def split: option.splits sum.splits if_splits)
    then show ?thesis using register_calls [of oo cfg s2 r s'] c True by (auto simp: unregistered_def)
  qed
qed

lemma refreshedCalls_nil: "refreshedCalls cfg []"
  by (simp add: refreshedCalls_def recoveryCalls_def)

lemma recovery_refreshed: "recoveryCalls cfg cs \<Longrightarrow> refreshedCalls cfg cs"
  unfolding refreshedCalls_def by (intro exI [of _ "[]"] exI [of _ cs]) simp

lemma openUnmarked_calls:
  assumes "openUnmarked n oo cfg s = Some (r, s')"
  shows "\<exists>cs. osCalls s' = osCalls s @ cs \<and> openCalls cfg cs"
proof -
  obtain q s1 where wo: "warmOpenNativeRuntime oo cfg s = (q, s1)" by (metis surj_pair)
  note c1 = warmOpen_calls [OF wo]
  let ?o = "OcOffline (case q of Inl x \<Rightarrow> Some x | Inr _ \<Rightarrow> None)"
  have tail: ?thesis if "osCalls s' = osCalls s1 @ ts" "refreshedCalls cfg ts" for ts
    using that c1 unfolding openCalls_def by (intro exI [of _ "?o # ts"]) auto
  show ?thesis
  proof (cases q)
    case (Inr k)
    then show ?thesis using assms wo tail [of "[]"] refreshedCalls_nil by (simp add: openUnmarked_def)
  next
    case (Inl x)
    consider "errorsIs x QAssignmentLeaseExpired"
      | "\<not> errorsIs x QAssignmentLeaseExpired" "mayConsumeNativeRecoveryAuthority x"
      | "\<not> errorsIs x QAssignmentLeaseExpired" "\<not> mayConsumeNativeRecoveryAuthority x" by blast
    then show ?thesis
    proof cases
      case 1
      obtain a s2 where a: "storeCall (aoRequestRefresh (ooStore oo) ''assigned NHP cell lease expired'') s1 = (a, s2)"
        by (metis surj_pair)
      obtain l s3 where l: "storeCall (aoLoadMarker (ooStore oo)) s2 = (l, s3)" by (metis surj_pair)
      have c: "osCalls s2 = osCalls s1" "osCalls s3 = osCalls s1" using storeCall_calls [OF a] storeCall_calls [OF l] by simp_all
      have "osCalls s' = osCalls s1 \<or> (\<exists>m. refreshOrRecover n oo cfg m s3 = Some (r, s'))"
        using assms wo Inl 1 a l c by (auto simp: openUnmarked_def split: option.splits sum.splits)
      then show ?thesis using refreshOrRecover_calls tail [of "[]"] refreshedCalls_nil tail c(2) by (metis append_Nil2)
    next
      case 2
      then have "recoverNativeCredential oo cfg x s1 = (r, s')" using assms wo Inl by (simp add: openUnmarked_def)
      then show ?thesis using recover_calls recovery_refreshed tail by blast
    next
      case 3
      then have "registerOrResume oo cfg x s1 = (r, s')" using assms wo Inl by (simp add: openUnmarked_def)
      from registerOrResume_calls [OF this] show ?thesis
      proof
        assume "osCalls s' = osCalls s1"
        then show ?thesis using tail [of "[]"] refreshedCalls_nil by simp
      next
        assume reg: "osCalls s' = osCalls s1 @ [OcRegister] \<and> ncEnrollment cfg \<and> unregistered x"
        then show ?thesis using c1 Inl by (intro exI [of _ "[OcOffline (Some x), OcRegister]"]) (auto simp: openCalls_def)
      qed
    qed
  qed
qed

lemma openMarked_calls:
  assumes "openMarked n oo cfg m s = Some (r, s')"
  shows "\<exists>cs. osCalls s' = osCalls s @ cs \<and> openCalls cfg cs"
proof (cases "0 < rmRefreshSucceededUnixMilli m")
  case False
  then show ?thesis using assms refreshOrRecover_calls [of n oo cfg m s r s'] by (auto simp: openMarked_def openCalls_def)
next
  case True
  obtain q s1 where wo: "warmOpenNativeRuntime oo cfg s = (q, s1)" by (metis surj_pair)
  note c1 = warmOpen_calls [OF wo]
  let ?o = "OcOffline (case q of Inl x \<Rightarrow> Some x | Inr _ \<Rightarrow> None)"
  have tail: ?thesis if "osCalls s' = osCalls s1 @ ts" "refreshedCalls cfg ts" for ts
    using that c1 unfolding openCalls_def by (intro exI [of _ "?o # ts"]) auto
  have "s' = s1 \<or> (\<exists>x. recoverNativeCredential oo cfg x s1 = (r, s')) \<or> refreshOrRecover n oo cfg m s1 = Some (r, s')"
    using assms True wo by (auto simp: openMarked_def split: sum.splits if_splits)
  then show ?thesis
    using tail [of "[]"] refreshedCalls_nil recover_calls recovery_refreshed refreshOrRecover_calls tail by (metis append_Nil2)
qed

lemma openWithStore_calls:
  assumes "openWithStore n oo cfg s = Some (r, s')"
  shows "\<exists>cs. osCalls s' = osCalls s @ cs \<and> openCalls cfg cs"
proof -
  obtain l s1 where l: "loadOpenMarker oo s = (l, s1)" by (metis surj_pair)
  have c: "osCalls s1 = osCalls s"
    using l by (auto simp: loadOpenMarker_def split: prod.splits sum.splits if_splits option.splits dest!: storeCall_calls)
  have "s' = s1 \<or> (\<exists>m. openMarked n oo cfg m s1 = Some (r, s')) \<or> openUnmarked n oo cfg s1 = Some (r, s')"
    using assms l by (auto simp: openWithStore_def split: sum.splits option.splits)
  moreover have "openCalls cfg []" by (simp add: openCalls_def refreshedCalls_nil)
  ultimately show ?thesis using openMarked_calls openUnmarked_calls c by (metis append_Nil2)
qed

section \<open>Claims\<close>



text \<open>A run of the explicit login's recovery: the refused and the allowed calls of one runtime.\<close>

primrec loginRun ::
  "'w openOps \<Rightarrow> string \<Rightarrow> (nat \<times> string \<times> bool) list \<Rightarrow> nativeRuntimeState \<Rightarrow> 'w openState \<Rightarrow> nativeRuntimeState \<times> 'w openState" where
  "loginRun oo configured [] r s = (r, s)"
| "loginRun oo configured (c # cs) r s =
     (case RecoverCredentialAfterDeviceAuthorizationFailure oo configured (fst c) (fst (snd c)) (snd (snd c)) r s of
        (_, r, s) \<Rightarrow> loginRun oo configured cs r s)"

definition rejected :: "nat \<times> string \<times> bool \<Rightarrow> bool" where
  "rejected c \<longleftrightarrow> fst c = 401 \<and> fst (snd c) = ''api_key_invalid'' \<and> snd (snd c)"

lemma login_step:
  assumes "RecoverCredentialAfterDeviceAuthorizationFailure oo configured code problem provider r s = (x, r', s')"
  shows "(r' = r \<and> s' = s \<and> (\<exists>y. x = Some y) \<or>
      nrAttempted r' \<and> \<not> nrAttempted r \<and> nrKind r = OpenWarm \<and> rejected (code, problem, provider) \<and>
      (osCalls s' = osCalls s \<or> osCalls s' = osCalls s @ [OcRecover (Sentinel SDeviceRecoveryNotAllowed)]))"
proof (cases "nrOpen r \<and> nrKind r = OpenWarm \<and> code = 401 \<and> problem = ''api_key_invalid'' \<and> provider \<and> \<not> nrAttempted r")
  case False
  then show ?thesis using assms
    by (auto simp: RecoverCredentialAfterDeviceAuthorizationFailure_def Let_def split: if_splits)
next
  case True
  obtain h s1 where h: "storeCall (aoHandoff (ooStore oo)) s = (h, s1)" by (metis surj_pair)
  obtain q w where q: "ooRecover oo (osWorld s1) = (q, w)" by (metis surj_pair)
  let ?after = "called (OcRecover (Sentinel SDeviceRecoveryNotAllowed)) w s1"
  have spent: "nrAttempted r' \<and> (osCalls s' = osCalls s \<or> osCalls s' = osCalls s @ [OcRecover (Sentinel SDeviceRecoveryNotAllowed)])"
  proof (cases "h = None \<and> (\<exists>runtime. q = Inr runtime)")
    case False
    then show ?thesis using assms True h q storeCall_calls [OF h]
      by (cases h; cases q) (auto simp: RecoverCredentialAfterDeviceAuthorizationFailure_def)
  next
    case ok: True
    then obtain runtime where rt: "q = Inr runtime" by blast
    obtain m s2 where m: "storeCall (assembleRefreshedNativeRuntime (ooStore oo) configured runtime) ?after = (m, s2)"
      by (metis surj_pair)
    have "osCalls s2 = osCalls s @ [OcRecover (Sentinel SDeviceRecoveryNotAllowed)]"
      using storeCall_calls [OF m] storeCall_calls [OF h] by simp
    then show ?thesis using assms True h q ok rt m
      by (cases m) (auto simp: RecoverCredentialAfterDeviceAuthorizationFailure_def)
  qed
  then show ?thesis using True by (simp add: rejected_def)
qed

lemma loginRun_spent:
  "nrAttempted r \<Longrightarrow> loginRun oo configured cs r s = (r', s') \<Longrightarrow> osCalls s' = osCalls s"
proof (induction cs arbitrary: r s)
  case (Cons c cs)
  obtain x r1 s1 where st: "RecoverCredentialAfterDeviceAuthorizationFailure oo configured (fst c) (fst (snd c)) (snd (snd c)) r s = (x, r1, s1)"
    by (metis surj_pair)
  then show ?case using login_step [OF st] Cons by auto
qed simp

lemma loginRun_attempted:
  "nrAttempted r \<Longrightarrow> loginRun oo configured cs r s = (r', s') \<Longrightarrow> nrAttempted r'"
proof (induction cs arbitrary: r s)
  case (Cons c cs)
  obtain x r1 s1 where st: "RecoverCredentialAfterDeviceAuthorizationFailure oo configured (fst c) (fst (snd c)) (snd (snd c)) r s = (x, r1, s1)"
    by (metis surj_pair)
  then show ?case using login_step [OF st] Cons by auto
qed simp

text \<open>
  An explicit login spends the recovery authority of a runtime at most once, however often it asks and
  whatever the calls answer: only on a runtime that was opened offline, only after the exact rejection of the
  registered device, and a failed attempt spends it too.
\<close>

lemma login_recovers_once:
  assumes "loginRun oo configured cs r s = (r', s')"
  shows "osCalls s' = osCalls s \<or>
    osCalls s' = osCalls s @ [OcRecover (Sentinel SDeviceRecoveryNotAllowed)] \<and>
      \<not> nrAttempted r \<and> nrAttempted r' \<and> nrKind r = OpenWarm \<and> list_ex rejected cs"
  using assms
proof (induction cs arbitrary: r s)
  case Nil
  then show ?case by simp
next
  case (Cons c cs)
  obtain x r1 s1 where st: "RecoverCredentialAfterDeviceAuthorizationFailure oo configured (fst c) (fst (snd c)) (snd (snd c)) r s = (x, r1, s1)"
    by (metis surj_pair)
  then have run: "loginRun oo configured cs r1 s1 = (r', s')" using Cons.prems by simp
  from login_step [OF st] show ?case
  proof (elim disjE)
    assume "r1 = r \<and> s1 = s \<and> (\<exists>y. x = Some y)"
    then show ?thesis using Cons.IH [OF run] by auto
  next
    assume spent: "nrAttempted r1 \<and> \<not> nrAttempted r \<and> nrKind r = OpenWarm \<and> rejected (fst c, fst (snd c), snd (snd c)) \<and>
      (osCalls s1 = osCalls s \<or> osCalls s1 = osCalls s @ [OcRecover (Sentinel SDeviceRecoveryNotAllowed)])"
    then have "osCalls s' = osCalls s1" "nrAttempted r'" using loginRun_spent [OF _ run] loginRun_attempted [OF _ run] by auto
    then show ?thesis using spent by auto
  qed
qed


section \<open>Runs\<close>

text \<open>A fresh state directory: the offline open finds no agent, the registration succeeds.\<close>

definition wConfig :: nativeRuntimeConfig where
  "wConfig = \<lparr>ncStateDir = ''/state'', ncAgentID = '' g '', ncRefreshMode = '' Auto'', ncKeyKind = KindUnset,
     ncEnrollment = True, ncRecovery = True\<rparr>"

definition wOpenOps :: "unit openOps" where
  "wOpenOps = \<lparr>ooStore = wBase, ooNewStore = (\<lambda>_ _ w. (None, w)), ooOffline = (\<lambda>w. (Inl (Sentinel QAgentStateNotFound), w)),
     ooRegister = (\<lambda>w. (Inr (True, ''g'', 32), w)), ooRecover = (\<lambda>w. (Inl (Sentinel QRecoveryCredentialRejected), w)),
     ooLoadState = (\<lambda>w. (Inr False, w)), ooWait = (\<lambda>_ w. (None, w))\<rparr>"

definition wStart :: "unit openState" where "wStart = \<lparr>osWorld = (), osCalls = []\<rparr>"


definition wWarm :: nativeRuntimeState where
  "wWarm = \<lparr>nrOpen = True, nrAgentID = ''g'', nrKind = OpenWarm, nrAttempted = False\<rparr>"

definition wLogins :: "(nat \<times> string \<times> bool) list" where
  "wLogins = [(403, ''api_key_invalid'', True), (401, ''api_key_invalid'', True), (401, ''api_key_invalid'', True)]"

lemma login_recovers_once_witness:
  "\<exists>r s. loginRun wOpenOps ''g'' wLogins wWarm wStart = (r, s) \<and> nrAttempted r \<and>
     osCalls s = [OcRecover (Sentinel SDeviceRecoveryNotAllowed)]"
proof -
  obtain r s where r: "loginRun wOpenOps ''g'' wLogins wWarm wStart = (r, s)" by (metis surj_pair)
  have "osCalls (snd (loginRun wOpenOps ''g'' wLogins wWarm wStart)) \<noteq> []" by code_simp
  then have "osCalls s \<noteq> osCalls wStart" using r by (simp add: wStart_def)
  with login_recovers_once [OF r] r show ?thesis by (auto simp: wStart_def)
qed

end
