(* ===== verification/Config_Text.thy ===== *)
theory Config_Text
  imports Go_Text Go_Errors
begin

text \<open>
  The text rules of \<open>pkg/config\<close>: resource slugs, Connector routing labels with the standard library's
  base32, opaque identifiers (\<open>validate.go\<close>), and the environment placeholders of a configuration file
  (\<open>config.go\<close>). A string is its bytes. Error messages are shortened.
\<close>

section \<open>Slugs\<close>

text \<open>The match of \<open>slugPattern\<close>, \<open>^[a-z][a-z0-9-]{1,62}[a-z0-9]$\<close>.\<close>

definition slugMiddle :: "char \<Rightarrow> bool" where
  "slugMiddle c = (isLowerAlnum c \<or> c = CHR ''-'')"

definition slugPattern :: "string \<Rightarrow> bool" where
  "slugPattern s = (3 \<le> length s \<and> length s \<le> 64 \<and> isLower (hd s) \<and>
     list_all slugMiddle (butlast (tl s)) \<and> isLowerAlnum (last s))"

definition ValidateSlug :: "string \<Rightarrow> err option" where
  "ValidateSlug s = (if \<not> slugPattern s then Some (NewErr ''slug does not match required format'') else None)"

lemma ValidateSlug_None [simp]: "ValidateSlug s = None \<longleftrightarrow> slugPattern s"
  by (simp add: ValidateSlug_def)

lemma slug_not_empty [simp]: "\<not> slugPattern []"
  by (simp add: slugPattern_def)

section \<open>Base32\<close>

text \<open>
  \<open>encoding/base32\<close> with the lowercase alphabet and \<open>NoPadding\<close>. The decoder skips carriage returns and
  line feeds, then reads groups of eight digits; a last group of 2, 4, 5 or 7 digits holds 1, 2, 3 or 4
  bytes, the bits left over are dropped, and one of 1, 3 or 6 digits is decoded as the digits it holds
  completely.
\<close>

definition b32Alphabet :: string where "b32Alphabet = ''abcdefghijklmnopqrstuvwxyz234567''"

definition b32Char :: "nat \<Rightarrow> char" where "b32Char n = b32Alphabet ! n"

definition b32Val :: "char \<Rightarrow> nat option" where "b32Val c = find_index (\<lambda>d. d = c) b32Alphabet"

text \<open>The digits of a byte string, five bytes at a time.\<close>

fun b32Digits :: "nat list \<Rightarrow> nat list" where
  "b32Digits [] = []"
| "b32Digits [a] = [a div 8, a mod 8 * 4]"
| "b32Digits [a, b] = [a div 8, a mod 8 * 4 + b div 64, b div 2 mod 32, b mod 2 * 16]"
| "b32Digits [a, b, c] =
     [a div 8, a mod 8 * 4 + b div 64, b div 2 mod 32, b mod 2 * 16 + c div 16, c mod 16 * 2]"
| "b32Digits [a, b, c, d] =
     [a div 8, a mod 8 * 4 + b div 64, b div 2 mod 32, b mod 2 * 16 + c div 16, c mod 16 * 2 + d div 128,
      d div 4 mod 32, d mod 4 * 8]"
| "b32Digits (a # b # c # d # e # r) =
     a div 8 # (a mod 8 * 4 + b div 64) # (b div 2 mod 32) # (b mod 2 * 16 + c div 16) #
     (c mod 16 * 2 + d div 128) # (d div 4 mod 32) # (d mod 4 * 8 + e div 32) # (e mod 32) # b32Digits r"

definition b32Encode :: "nat list \<Rightarrow> string" where "b32Encode bs = map b32Char (b32Digits bs)"

text \<open>The bytes of one group of digits.\<close>

definition byte0 :: "nat \<Rightarrow> nat \<Rightarrow> nat" where "byte0 s t = s * 8 + t div 4"
definition byte1 :: "nat \<Rightarrow> nat \<Rightarrow> nat \<Rightarrow> nat" where "byte1 t u v = t mod 4 * 64 + u * 2 + v div 16"
definition byte2 :: "nat \<Rightarrow> nat \<Rightarrow> nat" where "byte2 v w = v mod 16 * 16 + w div 2"
definition byte3 :: "nat \<Rightarrow> nat \<Rightarrow> nat \<Rightarrow> nat" where "byte3 w x y = w mod 2 * 128 + x * 4 + y div 8"
definition byte4 :: "nat \<Rightarrow> nat \<Rightarrow> nat" where "byte4 y z = y mod 8 * 32 + z"

lemmas byte_defs = byte0_def byte1_def byte2_def byte3_def byte4_def

fun b32Bytes :: "nat list \<Rightarrow> nat list" where
  "b32Bytes (s # t # u # v # w # x # y # z # r) =
     byte0 s t # byte1 t u v # byte2 v w # byte3 w x y # byte4 y z # b32Bytes r"
| "b32Bytes [s, t, u, v, w, x, y] = [byte0 s t, byte1 t u v, byte2 v w, byte3 w x y]"
| "b32Bytes [s, t, u, v, w] = [byte0 s t, byte1 t u v, byte2 v w]"
| "b32Bytes [s, t, u, v] = [byte0 s t, byte1 t u v]"
| "b32Bytes [s, t] = [byte0 s t]"
| "b32Bytes _ = []"

definition b32DecodeString :: "string \<Rightarrow> nat list option" where
  "b32DecodeString s = map_option b32Bytes
     (those (map b32Val (filter (\<lambda>c. c \<noteq> CHR 0x0A \<and> c \<noteq> CHR 0x0D) s)))"

text \<open>\<open>ValidateConnectorRoutingID\<close>.\<close>

definition ValidateConnectorRoutingID :: "string \<Rightarrow> err option" where
  "ValidateConnectorRoutingID s =
     (if length s \<noteq> 54 \<or> \<not> hasPrefix ''c-'' s then
        Some (NewErr ''connector_routing_id must be c- plus 52 canonical lowercase unpadded base32 characters'')
      else let payload = drop 2 s in
        (case b32DecodeString payload of
           None \<Rightarrow> Some (NewErr ''connector_routing_id must be c- plus the canonical encoding of 32 bytes'')
         | Some decoded \<Rightarrow>
             if b32Encode decoded \<noteq> payload then
               Some (NewErr ''connector_routing_id must be c- plus the canonical encoding of 32 bytes'')
             else None))"

section \<open>Opaque identifiers\<close>

definition validateExactOpaqueIdentifier :: "string \<Rightarrow> string \<Rightarrow> err option" where
  "validateExactOpaqueIdentifier field value =
     (if value = '''' then Some (NewErr (field @ '' is required''))
      else if trimSpace value \<noteq> value then
        Some (NewErr (field @ '' must not contain leading or trailing whitespace''))
      else if \<not> utf8Valid value then Some (NewErr (field @ '' must contain valid UTF-8''))
      else if hasControl value then Some (NewErr (field @ '' must not contain control characters''))
      else None)"

section \<open>Placeholders\<close>

text \<open>The leftmost match of \<open>envVarPattern\<close> at the head of the text: name, default value, rest.\<close>

definition isNameStart :: "char \<Rightarrow> bool" where "isNameStart c = (isLower c \<or> isUpper c \<or> c = CHR ''_'')"
definition isNameChar :: "char \<Rightarrow> bool" where "isNameChar c = (isNameStart c \<or> isDigit c)"

definition envVarPattern :: "string \<Rightarrow> (string \<times> string \<times> string) option" where
  "envVarPattern s =
     (if \<not> hasPrefix (CHR ''$'' # ''{'') s then None
      else let t = drop 2 s; name = takeWhile isNameChar t; u = dropWhile isNameChar t in
        if name = [] \<or> \<not> isNameStart (hd name) then None
        else if hasPrefix ''}'' u then Some (name, '''', drop 1 u)
        else if \<not> hasPrefix '':-'' u then None
        else let dflt = takeWhile (\<lambda>c. c \<noteq> CHR ''}'') (drop 2 u);
                 v = dropWhile (\<lambda>c. c \<noteq> CHR ''}'') (drop 2 u) in
          if v = [] then None else Some (name, dflt, drop 1 v))"

lemma length_dropWhile_bound: "length (dropWhile P s) \<le> length s"
  by (induction s) auto

lemma envVarPattern_shorter:
  assumes "envVarPattern s = Some (n, d, r)"
  shows "length r < length s"
proof -
  define u where "u = dropWhile isNameChar (drop 2 s)"
  define v where "v = dropWhile (\<lambda>c. c \<noteq> CHR ''}'') (drop 2 u)"
  have "hasPrefix (CHR ''$'' # ''{'') s" using assms by (auto simp: envVarPattern_def split: if_splits)
  then have s: "2 \<le> length s" using hasPrefix_length by fastforce
  have u: "length u \<le> length s - 2"
    using length_dropWhile_bound [of isNameChar "drop 2 s"] by (simp add: u_def)
  have v: "length v \<le> length u - 2"
    using length_dropWhile_bound [of "\<lambda>c. c \<noteq> CHR ''}''" "drop 2 u"] by (simp add: v_def)
  consider "hasPrefix ''}'' u" "r = drop 1 u" | "r = drop 1 v" "hasPrefix '':-'' u"
    using assms unfolding envVarPattern_def Let_def u_def [symmetric] v_def [symmetric]
    by (auto split: if_splits)
  then show ?thesis
  proof cases
    case 1
    with u s show ?thesis by simp
  next
    case 2
    with u v s show ?thesis by simp
  qed
qed

text \<open>\<open>resolveEnvVars\<close>; the parameter is \<open>os.LookupEnv\<close>.\<close>

function resolveEnvVars :: "(string \<Rightarrow> string option) \<Rightarrow> string \<Rightarrow> string" where
  "resolveEnvVars env [] = []"
| "resolveEnvVars env (c # cs) = (case envVarPattern (c # cs) of
      None \<Rightarrow> c # resolveEnvVars env cs
    | Some (name, defaultVal, rest) \<Rightarrow>
        (case env name of Some val \<Rightarrow> val | None \<Rightarrow> defaultVal) @ resolveEnvVars env rest)"
  by pat_completeness auto
termination
proof (relation "measure (\<lambda>(e, s). length s)")
  fix env :: "string \<Rightarrow> string option" and c cs x n y d r
  assume "envVarPattern (c # cs) = Some x" "(n, y) = x" "(d, r) = y"
  then show "((env, r), env, c # cs) \<in> measure (\<lambda>(e, s). length s)"
    using envVarPattern_shorter [of "c # cs" n d r] by auto
qed auto

end
