(* ===== verification/Config_Text_Props.thy ===== *)
theory Config_Text_Props
  imports Config_Text
begin

text \<open>
  The routing label check accepts exactly the canonical encodings of 32 bytes, and the placeholder pass
  copies every other byte.
\<close>

section \<open>Base32 digits\<close>

lemma b32_length: "length b32Alphabet = 32"
  by (simp add: b32Alphabet_def)

lemma b32Val_Char: "n < 32 \<Longrightarrow> b32Val (b32Char n) = Some n"
proof -
  have "list_all (\<lambda>n. b32Val (b32Char n) = Some n) [0..<32]" by code_simp
  then show "n < 32 \<Longrightarrow> b32Val (b32Char n) = Some n" by (simp add: list_all_iff)
qed

lemma b32Val_lt: "b32Val c = Some n \<Longrightarrow> n < 32"
  using find_index_Some b32_length unfolding b32Val_def by fastforce

lemma b32Val_newline [simp]: "b32Val (CHR 0x0A) = None" "b32Val (CHR 0x0D) = None"
  by code_simp+

lemma b32Digits_lt: "list_all (\<lambda>b. b < 256) bs \<Longrightarrow> list_all (\<lambda>d. d < 32) (b32Digits bs)"
  by (induction bs rule: b32Digits.induct) auto

lemma b32Digits_length: "length (b32Digits bs) = (8 * length bs + 4) div 5"
  by (induction bs rule: b32Digits.induct) simp_all

lemma split_twice: "n div (k * m) * (k * m) + n div k mod m * k + n mod k = n" for n k m :: nat
proof -
  have "(n div k div m * m + n div k mod m) * k + n mod k = n" by (simp only: div_mult_mod_eq)
  moreover have "(n div k div m * m + n div k mod m) * k =
      n div k div m * (k * m) + n div k mod m * k"
    by (simp only: distrib_right mult.assoc mult.commute [of k m])
  ultimately show ?thesis by (simp only: div_mult2_eq)
qed

lemmas split_byte =
  div_mult_mod_eq [of "n :: nat" 8 for n]
  split_twice [of _ 2 32, simplified]
  div_mult_mod_eq [of "n :: nat" 16 for n]
  split_twice [of _ 4 32, simplified]
  div_mult_mod_eq [of "n :: nat" 32 for n]

lemma byte_group:
  fixes a b c d e :: nat
  shows "b < 256 \<Longrightarrow> byte0 (a div 8) (a mod 8 * 4 + b div 64) = a"
    and "b < 256 \<Longrightarrow> c < 256 \<Longrightarrow>
      byte1 (a mod 8 * 4 + b div 64) (b div 2 mod 32) (b mod 2 * 16 + c div 16) = b"
    and "c < 256 \<Longrightarrow> d < 256 \<Longrightarrow> byte2 (b mod 2 * 16 + c div 16) (c mod 16 * 2 + d div 128) = c"
    and "d < 256 \<Longrightarrow> e < 256 \<Longrightarrow>
      byte3 (c mod 16 * 2 + d div 128) (d div 4 mod 32) (d mod 4 * 8 + e div 32) = d"
    and "e < 256 \<Longrightarrow> byte4 (d mod 4 * 8 + e div 32) (e mod 32) = e"
proof -
  show "b < 256 \<Longrightarrow> byte0 (a div 8) (a mod 8 * 4 + b div 64) = a"
    using split_byte(1) [of a] by (simp add: byte0_def)
  show "b < 256 \<Longrightarrow> c < 256 \<Longrightarrow>
      byte1 (a mod 8 * 4 + b div 64) (b div 2 mod 32) (b mod 2 * 16 + c div 16) = b"
    using split_byte(2) [of b] by (simp add: byte1_def)
  show "c < 256 \<Longrightarrow> d < 256 \<Longrightarrow> byte2 (b mod 2 * 16 + c div 16) (c mod 16 * 2 + d div 128) = c"
    using split_byte(3) [of c] by (simp add: byte2_def)
  show "d < 256 \<Longrightarrow> e < 256 \<Longrightarrow>
      byte3 (c mod 16 * 2 + d div 128) (d div 4 mod 32) (d mod 4 * 8 + e div 32) = d"
    using split_byte(4) [of d] by (simp add: byte3_def)
  show "e < 256 \<Longrightarrow> byte4 (d mod 4 * 8 + e div 32) (e mod 32) = e"
    using split_byte(5) [of e] by (simp add: byte4_def)
qed

lemma b32_group:
  fixes a b c d e :: nat
  assumes "a < 256" "b < 256" "c < 256" "d < 256" "e < 256"
  shows "byte0 (a div 8) (a mod 8 * 4 + b div 64) = a"
    and "byte1 (a mod 8 * 4 + b div 64) (b div 2 mod 32) (b mod 2 * 16 + c div 16) = b"
    and "byte2 (b mod 2 * 16 + c div 16) (c mod 16 * 2 + d div 128) = c"
    and "byte3 (c mod 16 * 2 + d div 128) (d div 4 mod 32) (d mod 4 * 8 + e div 32) = d"
    and "byte4 (d mod 4 * 8 + e div 32) (e mod 32) = e"
  by (rule byte_group; rule assms)+

lemma b32Bytes_Digits: "list_all (\<lambda>b. b < 256) bs \<Longrightarrow> b32Bytes (b32Digits bs) = bs"
proof (induction bs rule: b32Digits.induct)
  case (2 a)
  then show ?case using b32_group [of a 0 0 0 0] by simp
next
  case (3 a b)
  then show ?case using b32_group [of a b 0 0 0] by simp
next
  case (4 a b c)
  then show ?case using b32_group [of a b c 0 0] by simp
next
  case (5 a b c d)
  then show ?case using b32_group [of a b c d 0] by simp
next
  case (6 a b c d e r)
  then show ?case using b32_group [of a b c d e] by simp
qed simp

lemma byte_lt [simp]:
  "s < 32 \<Longrightarrow> t < 32 \<Longrightarrow> byte0 s t < 256"
  "u < 32 \<Longrightarrow> v < 32 \<Longrightarrow> byte1 t u v < 256"
  "w < 32 \<Longrightarrow> byte2 v w < 256"
  "x < 32 \<Longrightarrow> y < 32 \<Longrightarrow> byte3 w x y < 256"
  "z < 32 \<Longrightarrow> byte4 y z < 256"
proof -
  have m: "t mod 4 \<le> 3" "v mod 16 \<le> 15" "w mod 2 \<le> 1" "y mod 8 \<le> 7" by simp_all
  have d: "t < 32 \<Longrightarrow> t div 4 \<le> 7" "v < 32 \<Longrightarrow> v div 16 \<le> 1" "w < 32 \<Longrightarrow> w div 2 \<le> 15" "y < 32 \<Longrightarrow> y div 8 \<le> 3"
    by simp_all
  show "s < 32 \<Longrightarrow> t < 32 \<Longrightarrow> byte0 s t < 256" using d(1) unfolding byte_defs by linarith
  show "u < 32 \<Longrightarrow> v < 32 \<Longrightarrow> byte1 t u v < 256" using m(1) d(2) unfolding byte_defs by linarith
  show "w < 32 \<Longrightarrow> byte2 v w < 256" using m(2) d(3) unfolding byte_defs by linarith
  show "x < 32 \<Longrightarrow> y < 32 \<Longrightarrow> byte3 w x y < 256" using m(3) d(4) unfolding byte_defs by linarith
  show "z < 32 \<Longrightarrow> byte4 y z < 256" using m(4) unfolding byte_defs by linarith
qed

lemma b32Bytes_lt: "list_all (\<lambda>d. d < 32) ds \<Longrightarrow> list_all (\<lambda>b. b < 256) (b32Bytes ds)"
  by (induction ds rule: b32Bytes.induct) simp_all

lemma b32Digits_read: "list_all (\<lambda>d. d < 32) ds \<Longrightarrow> those (map b32Val (map b32Char ds)) = Some ds"
  by (induction ds) (auto simp: b32Val_Char)

lemma those_lt: "those (map b32Val s) = Some ds \<Longrightarrow> list_all (\<lambda>d. d < 32) ds"
  by (induction s arbitrary: ds) (auto split: option.splits dest: b32Val_lt)

lemma b32Decode_Encode:
  assumes "list_all (\<lambda>b. b < 256) bs"
  shows "b32DecodeString (b32Encode bs) = Some bs"
proof -
  let ?s = "b32Encode bs"
  have r: "those (map b32Val ?s) = Some (b32Digits bs)"
    unfolding b32Encode_def by (rule b32Digits_read [OF b32Digits_lt [OF assms]])
  have "c \<noteq> CHR 0x0A \<and> c \<noteq> CHR 0x0D" if "c \<in> set ?s" for c
  proof -
    obtain n where "n \<in> set (b32Digits bs)" "c = b32Char n"
      using \<open>c \<in> set ?s\<close> unfolding b32Encode_def by auto
    moreover then have "n < 32" using b32Digits_lt [OF assms] by (auto simp: list_all_iff)
    ultimately show ?thesis using b32Val_Char by fastforce
  qed
  then have "filter (\<lambda>c. c \<noteq> CHR 0x0A \<and> c \<noteq> CHR 0x0D) ?s = ?s" by (simp add: filter_id_conv)
  then show ?thesis using r b32Bytes_Digits [OF assms] by (simp add: b32DecodeString_def)
qed

lemma b32Decode_bytes: "b32DecodeString s = Some bs \<Longrightarrow> list_all (\<lambda>b. b < 256) bs"
  by (auto simp: b32DecodeString_def intro: b32Bytes_lt those_lt)

lemma b32Encode_length: "length (b32Encode bs) = (8 * length bs + 4) div 5"
  by (simp add: b32Encode_def b32Digits_length)

section \<open>Routing labels\<close>

lemma routing_label:
  "ValidateConnectorRoutingID s = None \<longleftrightarrow>
   (\<exists>digest. length digest = 32 \<and> list_all (\<lambda>b. b < 256) digest \<and> s = ''c-'' @ b32Encode digest)"
  (is "?l \<longleftrightarrow> ?r")
proof
  assume ?l
  then obtain d where len: "length s = 54" and p: "hasPrefix ''c-'' s"
    and d: "b32DecodeString (drop 2 s) = Some d" "b32Encode d = drop 2 s"
    by (auto simp: ValidateConnectorRoutingID_def Let_def split: if_splits option.splits)
  have "(8 * length d + 4) div 5 = 52" using b32Encode_length [of d] d len by simp
  then have "length d = 32" by presburger
  moreover have "s = ''c-'' @ b32Encode d"
    using p d by (auto simp: hasPrefix_iff)
  ultimately show ?r using b32Decode_bytes [OF d(1)] by blast
next
  assume ?r
  then obtain d where d: "length d = 32" "list_all (\<lambda>b. b < 256) d" "s = ''c-'' @ b32Encode d" by blast
  then show ?l using b32Decode_Encode [OF d(2)] b32Encode_length [of d]
    by (simp add: ValidateConnectorRoutingID_def)
qed

text \<open>Bytes with no placeholder start are copied.\<close>

lemma resolve_plain: "CHR ''$'' \<notin> set s \<Longrightarrow> resolveEnvVars env (s @ t) = s @ resolveEnvVars env t"
  by (induction s) (auto simp: envVarPattern_def)


text \<open>
  C40. \<open>ValidateConnectorRoutingID\<close> accepts exactly the canonical encodings of 32 bytes: a label it accepts
  names one digest, and every digest has an accepted label.
\<close>

theorem routing_id_exact:
  "ValidateConnectorRoutingID s = None \<longleftrightarrow>
     (\<exists>!digest. length digest = 32 \<and> list_all (\<lambda>b. b < 256) digest \<and> s = ''c-'' @ b32Encode digest)"
proof -
  let ?P = "\<lambda>d. length d = 32 \<and> list_all (\<lambda>b. b < 256) d \<and> s = ''c-'' @ b32Encode d"
  have "d = e" if "?P d" "?P e" for d e
    using b32Decode_Encode [of d] b32Decode_Encode [of e] that by simp
  then have "(\<exists>d. ?P d) \<longleftrightarrow> (\<exists>!d. ?P d)" unfolding Ex1_def by iprover
  then show ?thesis by (simp only: routing_label)
qed

end
