(* ===== verification/Hub_Pin.thy ===== *)
theory Hub_Pin
  imports Go_Text Go_Errors
begin

text \<open>
  The pinned Hub key (\<open>pkg/hubpin/hubpin.go\<close>): a candidate is accepted when it is the one base64
  spelling of a canonical X25519 public key the curve operation accepts. \<open>curve25519.X25519\<close> of
  \<open>golang.org/x/crypto\<close> is the parameter \<open>x25519\<close>. A key is its list of bytes.
\<close>

section \<open>The code\<close>

definition PointSize :: nat where "PointSize = 32"

definition primeByte :: "nat \<Rightarrow> nat" where
  "primeByte i = (if i = 0 then 0xED else if i = PointSize - 1 then 0x7F else 0xFF)"

text \<open>The loop of \<open>canonicalPublicKey\<close> from index \<open>i\<close> down; the argument counts the bytes left.\<close>

fun canonicalFrom :: "nat \<Rightarrow> nat list \<Rightarrow> bool" where
  "canonicalFrom 0 key = False"
| "canonicalFrom (Suc i) key =
     (if key ! i \<noteq> primeByte i then key ! i < primeByte i else canonicalFrom i key)"

definition canonicalPublicKey :: "nat list \<Rightarrow> bool" where
  "canonicalPublicKey key = canonicalFrom (length key) key"

definition DecodeServerPublicKeyB64 ::
  "(nat list \<Rightarrow> nat list \<Rightarrow> nat list res) \<Rightarrow> string \<Rightarrow> nat list res" where
  "DecodeServerPublicKeyB64 x25519 keyB64 = (case b64DecodeStrict keyB64 of
      None \<Rightarrow> Inl (NewErr ''must be canonical padded standard base64'')
    | Some key \<Rightarrow>
        if b64Encode key \<noteq> keyB64 then Inl (NewErr ''must be canonical padded standard base64'')
        else if length key \<noteq> PointSize then Inl (NewErr ''must encode a 32-byte X25519 public key'')
        else if \<not> canonicalPublicKey key then Inl (NewErr ''must encode a canonical X25519 public key'')
        else (case x25519 (replicate 32 0) key of
            Inl err \<Rightarrow> Inl (Errorf ''must encode a usable X25519 public key'' err)
          | Inr _ \<Rightarrow> Inr key))"

section \<open>Little-endian comparison\<close>

fun leValue :: "nat list \<Rightarrow> nat" where
  "leValue [] = 0"
| "leValue (b # bs) = b + 256 * leValue bs"

definition primeBytes :: "nat list" where "primeBytes = map primeByte [0..<32]"

lemma primeBytes_nth: "i < 32 \<Longrightarrow> primeBytes ! i = primeByte i"
  by (simp add: primeBytes_def)

lemma primeBytes_value: "leValue primeBytes = 2 ^ 255 - 19"
  by (simp add: primeBytes_def primeByte_def PointSize_def upt_rec)

lemma leValue_snoc: "leValue (bs @ [b]) = leValue bs + 256 ^ length bs * b"
  by (induction bs) simp_all

lemma leValue_lt: "list_all (\<lambda>b. b < 256) bs \<Longrightarrow> leValue bs < 256 ^ length bs"
  by (induction bs) auto

lemma primeByte_lt: "primeByte i < 256"
  by (simp add: primeByte_def)

lemma canonicalFrom_value:
  assumes "list_all (\<lambda>b. b < 256) key" "length key = 32" "n \<le> 32"
  shows "canonicalFrom n key \<longleftrightarrow> leValue (take n key) < leValue (take n primeBytes)"
  using assms(3)
proof (induction n)
  case (Suc n)
  define k where "k = leValue (take n key)"
  define p where "p = leValue (take n primeBytes)"
  have lp: "length primeBytes = 32" by (simp add: primeBytes_def)
  have bytes: "list_all (\<lambda>b. b < 256) (take n key)" "list_all (\<lambda>b. b < 256) (take n primeBytes)"
    using assms(1) by (auto simp: list_all_iff primeBytes_def take_map primeByte_lt dest: in_set_takeD)
  have lens: "length (take n key) = n" "length (take n primeBytes) = n" using Suc.prems assms(2) lp by auto
  have kp: "k < 256 ^ n" "p < 256 ^ n"
    using leValue_lt [OF bytes(1)] leValue_lt [OF bytes(2)] lens by (simp_all add: k_def p_def)
  have vk: "leValue (take (Suc n) key) = k + 256 ^ n * key ! n"
    and vp: "leValue (take (Suc n) primeBytes) = p + 256 ^ n * primeByte n"
    using Suc.prems assms(2) lp lens
    by (simp_all add: take_Suc_conv_app_nth leValue_snoc k_def p_def primeBytes_nth)
  have lt: "x < y \<Longrightarrow> u < 256 ^ n \<Longrightarrow> u + 256 ^ n * x < v + 256 ^ n * y" for x y u v :: nat
  proof -
    assume "x < y" "u < 256 ^ n"
    then have "256 ^ n * Suc x \<le> 256 ^ n * y" by (intro mult_le_mono) auto
    with \<open>u < 256 ^ n\<close> show "u + 256 ^ n * x < v + 256 ^ n * y" by simp
  qed
  consider "key ! n < primeByte n" | "primeByte n < key ! n" | "key ! n = primeByte n" by linarith
  then show ?case
  proof cases
    case 1
    then show ?thesis using lt [of "key ! n" "primeByte n" k p] kp by (simp add: vk vp)
  next
    case 2
    then show ?thesis using lt [of "primeByte n" "key ! n" p k] kp by (simp add: vk vp)
  next
    case 3
    then show ?thesis using Suc by (simp add: vk vp k_def p_def)
  qed
qed simp

lemma canonical_value:
  assumes "list_all (\<lambda>b. b < 256) key" "length key = 32"
  shows "canonicalPublicKey key \<longleftrightarrow> leValue key < 2 ^ 255 - 19"
  using canonicalFrom_value [OF assms order_refl] assms(2) primeBytes_value
  by (simp add: canonicalPublicKey_def primeBytes_def)

lemma strict_encode:
  assumes "list_all (\<lambda>b. b < 256) bs"
  shows "b64DecodeStrict (b64Encode bs) = Some bs"
proof -
  have "list_all (\<lambda>c. c \<noteq> CHR 0x0A \<and> c \<noteq> CHR 0x0D) (b64Encode bs)"
  proof -
    have "list_all (\<lambda>n. b64Char n \<noteq> CHR 0x0A \<and> b64Char n \<noteq> CHR 0x0D) [0..<64]" by code_simp
    then have "b64Char n \<noteq> CHR 0x0A \<and> b64Char n \<noteq> CHR 0x0D" if "n < 64" for n
      using that by (auto simp: list_all_iff)
    then show ?thesis using assms
      by (induction bs rule: b64Encode.induct) auto
  qed
  then have "filter (\<lambda>c. c \<noteq> CHR 0x0A \<and> c \<noteq> CHR 0x0D) (b64Encode bs) = b64Encode bs"
    by (simp add: filter_id_conv list_all_iff)
  then show ?thesis using b64_roundtrip [of bs] assms by (simp add: b64DecodeStrict_def list_all_iff)
qed

section \<open>What is accepted\<close>

text \<open>
  C19. \<open>DecodeServerPublicKeyB64\<close> accepts exactly the base64 encodings of 32 bytes whose little-endian value
  is below the field prime \<open>2 ^ 255 - 19\<close> and which the curve operation accepts, and it returns those
  bytes: a field element has one accepted spelling.
\<close>

theorem hub_key_exact:
  "DecodeServerPublicKeyB64 x25519 keyB64 = Inr key \<longleftrightarrow>
     length key = 32 \<and> list_all (\<lambda>b. b < 256) key \<and> keyB64 = b64Encode key \<and>
     leValue key < 2 ^ 255 - 19 \<and> (\<exists>shared. x25519 (replicate 32 0) key = Inr shared)"
  (is "?l \<longleftrightarrow> ?r")
proof
  assume l: ?l
  then have d: "b64DecodeStrict keyB64 = Some key" "b64Encode key = keyB64" "length key = 32"
      "canonicalPublicKey key" "\<exists>shared. x25519 (replicate 32 0) key = Inr shared"
    by (auto simp: DecodeServerPublicKeyB64_def PointSize_def split: option.splits if_splits sum.splits)
  have "list_all (\<lambda>b. b < 256) key"
    using d(1) b64Decode_lt unfolding b64DecodeStrict_def list_all_iff by blast
  then show ?r using d canonical_value [of key] by simp
next
  assume r: ?r
  then show ?l using strict_encode [of key] canonical_value [of key]
    by (auto simp: DecodeServerPublicKeyB64_def PointSize_def)
qed

end
