(* ===== verification/Config_Model.thy ===== *)
theory Config_Model
  imports Config_Text Proxy_Names Net_Text Go_JSON "HOL-Library.Finite_Map" "HOL-Library.List_Lexorder" "HOL-Library.Char_ord"
begin

text \<open>
  The configuration of the connector: \<open>pkg/config/config.go\<close> (data, defaults, environment overrides, knock
  resources) and \<open>pkg/config/validate.go\<close>.

  A Go pointer to bool is an option. The map \<open>KnockResourceIDs\<close> is a finite map, nil and empty being the
  same for every operation. \<open>qurlcrid.Validate\<close> of qurl-go is the parameter \<open>cridValidate\<close>,
  \<open>os.LookupEnv\<close> is a function. The receivers are never nil here. Error messages are shortened to the
  part that names the rule, with the route they are about.
\<close>

section \<open>Data\<close>

record ServerConfig =
  scAddr :: string
  scPort :: int
  scProtocol :: string
  scEgressLocalIP :: string
  scKeepalive :: int
  scDialTimeout :: int
  scLoginFailExit :: "bool option"

record AdminConfig =
  acEnabled :: bool
  acAddr :: string
  acPort :: int
  acAllowRemote :: bool
  acPassword :: string

record AuditConfig =
  auEnabled :: "bool option"
  auFilePath :: string
  auMirrorSlog :: "bool option"
  auBufferSize :: int
  auMaxSizeMB :: int
  auMaxAgeDays :: int
  auMaxBackups :: int
  auCompress :: "bool option"

record ConfigRoute =
  roID :: string
  roType :: string
  roLocalIP :: string
  roLocalPort :: int
  roCRID :: string
  roResourcePublicKey :: string
  roConnectorRoutingID :: string
  roKnockResourceID :: string
  roTargetURL :: string

record Config =
  cfServer :: ServerConfig
  cfNHPEnabled :: bool
  cfMachineID :: string
  cfAPIURL :: string
  cfToken :: string
  cfAdmin :: AdminConfig
  cfAudit :: AuditConfig
  cfRoutes :: "ConfigRoute list"
  cfKnockResourceIDs :: "(string, string) fmap"

definition RouteTypeHTTP :: string where "RouteTypeHTTP = ''http''"
definition DefaultAuditFilePath :: string where
  "DefaultAuditFilePath = ''/var/log/layerv/qurl-connector/audit.log''"
definition EnvAuditFile :: string where "EnvAuditFile = ''QURL_AUDIT_FILE''"
definition DefaultAdminAddr :: string where "DefaultAdminAddr = ''127.0.0.1''"
definition DefaultAdminPort :: int where "DefaultAdminPort = 7400"

section \<open>Knock resources\<close>

text \<open>\<open>primaryRoutingRoute\<close> and \<open>PrimaryResourceID\<close>.\<close>

definition primaryRoutingRoute :: "Config \<Rightarrow> ConfigRoute option" where
  "primaryRoutingRoute c = List.find (\<lambda>r. roConnectorRoutingID r \<noteq> '''') (cfRoutes c)"

definition PrimaryResourceID :: "Config \<Rightarrow> string" where
  "PrimaryResourceID c = (case primaryRoutingRoute c of Some r \<Rightarrow> roResourcePublicKey r | None \<Rightarrow> '''')"

definition SetKnockResourceID :: "string \<Rightarrow> string \<Rightarrow> Config \<Rightarrow> Config" where
  "SetKnockResourceID resourceID knockResourceID c =
     (if resourceID = '''' \<or> knockResourceID = '''' then c
      else c\<lparr>cfKnockResourceIDs := fmupd resourceID knockResourceID (cfKnockResourceIDs c)\<rparr>)"

text \<open>A Go map read: the zero value when the key is absent.\<close>

definition knockAt :: "Config \<Rightarrow> string \<Rightarrow> string" where
  "knockAt c k = (case fmlookup (cfKnockResourceIDs c) k of Some v \<Rightarrow> v | None \<Rightarrow> '''')"

definition KnockResourceID :: "string \<Rightarrow> Config \<Rightarrow> string" where
  "KnockResourceID resourceID c = (if resourceID = '''' then '''' else knockAt c resourceID)"

definition FirstDifferentKnockResourceID :: "string \<Rightarrow> string \<Rightarrow> Config \<Rightarrow> (string \<times> string) option" where
  "FirstDifferentKnockResourceID resourceID knockResourceID c =
     (if resourceID = '''' \<or> knockResourceID = '''' \<or> cfKnockResourceIDs c = fmempty then None
      else let existing = filter (\<lambda>k. k \<noteq> resourceID) (sorted_list_of_fset (fmdom (cfKnockResourceIDs c))) in
        map_option (\<lambda>k. (k, knockAt c k))
          (List.find (\<lambda>k. knockAt c k \<noteq> '''' \<and> knockAt c k \<noteq> knockResourceID) existing))"

section \<open>Defaults and environment\<close>

definition defaultString :: "string \<Rightarrow> string \<Rightarrow> string" where
  "defaultString d s = (if s = '''' then d else s)"

definition defaultInt :: "int \<Rightarrow> int \<Rightarrow> int" where
  "defaultInt d n = (if n = 0 then d else n)"

definition defaultBool :: "bool \<Rightarrow> bool option \<Rightarrow> bool option" where
  "defaultBool d b = (case b of None \<Rightarrow> Some d | Some x \<Rightarrow> Some x)"

lemmas default_defs = defaultString_def defaultInt_def defaultBool_def

definition defaultRoute :: "ConfigRoute \<Rightarrow> ConfigRoute" where
  "defaultRoute r = r\<lparr>roLocalIP := defaultString ''127.0.0.1'' (roLocalIP r)\<rparr>"

definition applyDefaults :: "Config \<Rightarrow> Config" where
  "applyDefaults c = c\<lparr>
     cfServer := (cfServer c)\<lparr>
       scProtocol := defaultString ''tcp'' (scProtocol (cfServer c)),
       scKeepalive := defaultInt 60 (scKeepalive (cfServer c)),
       scDialTimeout := defaultInt 10 (scDialTimeout (cfServer c)),
       scLoginFailExit := defaultBool False (scLoginFailExit (cfServer c))\<rparr>,
     cfRoutes := map defaultRoute (cfRoutes c),
     cfAdmin := (cfAdmin c)\<lparr>
       acAddr := defaultString DefaultAdminAddr (acAddr (cfAdmin c)),
       acPort := defaultInt DefaultAdminPort (acPort (cfAdmin c))\<rparr>,
     cfAudit := (cfAudit c)\<lparr>
       auEnabled := defaultBool True (auEnabled (cfAudit c)),
       auMirrorSlog := defaultBool True (auMirrorSlog (cfAudit c)),
       auFilePath := defaultString DefaultAuditFilePath (auFilePath (cfAudit c))\<rparr>\<rparr>"

definition emptyConfig :: Config where
  "emptyConfig = \<lparr>
     cfServer = \<lparr>scAddr = '''', scPort = 0, scProtocol = '''', scEgressLocalIP = '''', scKeepalive = 0,
       scDialTimeout = 0, scLoginFailExit = None\<rparr>,
     cfNHPEnabled = False, cfMachineID = '''', cfAPIURL = '''', cfToken = '''',
     cfAdmin = \<lparr>acEnabled = False, acAddr = '''', acPort = 0, acAllowRemote = False, acPassword = ''''\<rparr>,
     cfAudit = \<lparr>auEnabled = None, auFilePath = '''', auMirrorSlog = None, auBufferSize = 0, auMaxSizeMB = 0,
       auMaxAgeDays = 0, auMaxBackups = 0, auCompress = None\<rparr>,
     cfRoutes = [], cfKnockResourceIDs = fmempty\<rparr>"

definition NewDefaulted :: Config where
  "NewDefaulted = (applyDefaults emptyConfig)\<lparr>cfNHPEnabled := True\<rparr>"

definition getenv :: "(string \<Rightarrow> string option) \<Rightarrow> string \<Rightarrow> string" where
  "getenv env k = (case env k of Some v \<Rightarrow> v | None \<Rightarrow> '''')"

definition applyEnvOverrides :: "(string \<Rightarrow> string option) \<Rightarrow> Config \<Rightarrow> Config" where
  "applyEnvOverrides env c =
     (let egress = trimSpace (getenv env ''QURL_CONNECTOR_EGRESS_LOCAL_IP'');
          c = (if egress \<noteq> '''' then c\<lparr>cfServer := (cfServer c)\<lparr>scEgressLocalIP := egress\<rparr>\<rparr> else c);
          c = (case env ''QURL_ADMIN_ENABLED'' of
                 Some value \<Rightarrow>
                   (let v = toLower (trimSpace value) in
                    if v \<in> {''1'', ''true'', ''yes'', ''on''} then c\<lparr>cfAdmin := (cfAdmin c)\<lparr>acEnabled := True\<rparr>\<rparr>
                    else if v \<in> {''0'', ''false'', ''no'', ''off''} then
                      c\<lparr>cfAdmin := (cfAdmin c)\<lparr>acEnabled := False\<rparr>\<rparr>
                    else c)
               | None \<Rightarrow> c);
          v = trimSpace (getenv env EnvAuditFile)
      in if v \<noteq> '''' then c\<lparr>cfAudit := (cfAudit c)\<lparr>auFilePath := v\<rparr>\<rparr> else c)"

section \<open>Addresses\<close>

text \<open>The tests of \<open>net.IP\<close>; \<open>To4\<close> gives the four bytes of an IPv4 or IPv4-mapped address.\<close>

definition to4 :: "nat list \<Rightarrow> nat list option" where
  "to4 ip = (if \<not> isTo4 ip then None else if length ip = 4 then Some ip else Some (drop 12 ip))"

definition IsUnspecified :: "nat list \<Rightarrow> bool" where
  "IsUnspecified ip = (to4 ip = Some [0, 0, 0, 0] \<or> ip = replicate 16 0)"

definition IsLoopback :: "nat list \<Rightarrow> bool" where
  "IsLoopback ip = (case to4 ip of Some b \<Rightarrow> b ! 0 = 127 | None \<Rightarrow> ip = replicate 15 0 @ [1])"

definition IsMulticast :: "nat list \<Rightarrow> bool" where
  "IsMulticast ip = (case to4 ip of Some b \<Rightarrow> b ! 0 div 16 = 14 | None \<Rightarrow> length ip = 16 \<and> ip ! 0 = 255)"

definition IsLinkLocalUnicast :: "nat list \<Rightarrow> bool" where
  "IsLinkLocalUnicast ip = (case to4 ip of
      Some b \<Rightarrow> b ! 0 = 169 \<and> b ! 1 = 254
    | None \<Rightarrow> length ip = 16 \<and> ip ! 0 = 254 \<and> ip ! 1 div 64 = 2)"

text \<open>
  \<open>strings.EqualFold(s, t)\<close> for an ASCII \<open>t\<close>: besides the letters, U+017F folds to \<open>s\<close> and U+212A to
  \<open>k\<close>.
\<close>

fun foldASCII :: "string \<Rightarrow> string" where
  "foldASCII [] = []"
| "foldASCII (c # cs) =
     (if isUpper c then char_of (byteOf c + 32) # foldASCII cs
      else if hasPrefix [CHR 0xC5, CHR 0xBF] (c # cs) then CHR ''s'' # foldASCII (drop 1 cs)
      else if hasPrefix [CHR 0xE2, CHR 0x84, CHR 0xAA] (c # cs) then CHR ''k'' # foldASCII (drop 2 cs)
      else c # foldASCII cs)"

definition AdminBindLooksRoutable :: "Config \<Rightarrow> bool" where
  "AdminBindLooksRoutable c =
     (if \<not> acEnabled (cfAdmin c) then False
      else if foldASCII (acAddr (cfAdmin c)) = ''localhost'' then False
      else (case ParseIP (acAddr (cfAdmin c)) of None \<Rightarrow> True | Some ip \<Rightarrow> \<not> IsLoopback ip))"

section \<open>Validation\<close>

text \<open>One violation, when the test holds.\<close>

definition violation :: "bool \<Rightarrow> string \<Rightarrow> err list" where
  "violation b m = (if b then [NewErr m] else [])"

definition wrapped :: "string \<Rightarrow> err option \<Rightarrow> err list" where
  "wrapped m e = (case e of None \<Rightarrow> [] | Some x \<Rightarrow> [Errorf m x])"

definition portInvalid :: "int \<Rightarrow> bool" where "portInvalid p = (p < 1 \<or> 65535 < p)"

definition egressErrors :: "string \<Rightarrow> err list" where
  "egressErrors raw = (let value = trimSpace raw in
     if raw \<noteq> value then
       violation True ''server.egress_local_ip must not contain leading or trailing whitespace''
     else if value \<noteq> '''' then
       (let bad = (case ParseIP value of None \<Rightarrow> True
          | Some ip \<Rightarrow> IsUnspecified ip \<or> IsLoopback ip \<or> IsMulticast ip \<or> IsLinkLocalUnicast ip)
        in violation bad ''server.egress_local_ip must be a non-loopback, non-link-local unicast address'')
     else [])"

definition protocolErrors :: "ServerConfig \<Rightarrow> err list" where
  "protocolErrors s =
     (if scProtocol s \<in> {'''', ''tcp'', ''websocket'', ''wss''} then []
      else if scProtocol s \<in> {''kcp'', ''quic''} then
        violation (scEgressLocalIP s \<noteq> '''') ''server.egress_local_ip cannot be combined with server.protocol''
      else violation True ''server.protocol is not a supported FRP transport'')"

definition serverErrors :: "ServerConfig \<Rightarrow> err list" where
  "serverErrors s =
     violation ((trimSpace (scAddr s) \<noteq> '''') \<noteq> (scPort s \<noteq> 0))
       ''server.addr and server.port must be set together'' @
     violation (scPort s \<noteq> 0 \<and> portInvalid (scPort s)) ''server.port must be 1-65535'' @
     egressErrors (scEgressLocalIP s) @
     protocolErrors s"

definition adminErrors :: "Config \<Rightarrow> err list" where
  "adminErrors c = (let a = cfAdmin c in
     if acEnabled a then
       violation (portInvalid (acPort a)) ''admin.port invalid (must be 1-65535)'' @
       violation (AdminBindLooksRoutable c \<and> \<not> acAllowRemote a)
         ''admin.addr is non-loopback but admin.allow_remote is not set'' @
       violation (acAllowRemote a \<and> acPassword a = '''') ''admin.allow_remote=true requires an explicit admin.password''
     else [])"

text \<open>\<open>prefix\<close> and \<open>prefix (id)\<close>.\<close>

definition routePrefix :: "nat \<Rightarrow> string" where
  "routePrefix i = ''routes['' @ fmtNat i @ '']''"

definition routeTag :: "nat \<Rightarrow> ConfigRoute \<Rightarrow> string" where
  "routeTag i r = routePrefix i @ '' ('' @ roID r @ '')''"

definition routeIDFormatError :: "nat \<Rightarrow> ConfigRoute \<Rightarrow> err \<Rightarrow> err" where
  "routeIDFormatError i r e = Errorf (routeTag i r) e"

definition routeIDErrors :: "nat \<Rightarrow> nat \<Rightarrow> string set \<Rightarrow> ConfigRoute \<Rightarrow> err list \<times> string set" where
  "routeIDErrors routes i seenRouteIDs r =
     (if roID r = '''' then
        (if roCRID r \<noteq> '''' then
           violation True (routePrefix i @ '': id is required even when crid is pinned'')
         else violation (routes \<noteq> 1) (routePrefix i @ '': id is required''), seenRouteIDs)
      else (case ValidateSlug (roID r) of
          Some e \<Rightarrow> ([routeIDFormatError i r e], seenRouteIDs)
        | None \<Rightarrow>
            if roID r \<in> seenRouteIDs then
              (violation True (routePrefix i @ '': duplicate route id''), seenRouteIDs)
            else ([], insert (roID r) seenRouteIDs)))"

definition routeFieldErrors :: "(string \<Rightarrow> err option) \<Rightarrow> bool \<Rightarrow> nat \<Rightarrow> ConfigRoute \<Rightarrow> err list" where
  "routeFieldErrors cridValidate requireManagedRouting i r =
     violation (roType r \<noteq> RouteTypeHTTP) (routeTag i r @ '': unsupported route type'') @
     violation (portInvalid (roLocalPort r)) (routeTag i r @ '': local_port must be 1-65535'') @
     violation (requireManagedRouting \<and> roCRID r \<noteq> '''' \<and> roConnectorRoutingID r = '''')
       (routeTag i r @ '': managed crid requires the paired server-issued connector_routing_id'') @
     (if roCRID r \<noteq> '''' then wrapped (routeTag i r) (cridValidate (roCRID r)) else []) @
     (if roKnockResourceID r \<noteq> '''' then
        wrapped (routeTag i r) (validateExactOpaqueIdentifier ''knock_resource_id'' (roKnockResourceID r))
      else []) @
     (if roConnectorRoutingID r \<noteq> '''' then
        violation (roCRID r = '''') (routeTag i r @ '': connector_routing_id requires the paired public crid'') @
        wrapped (routeTag i r) (ValidateConnectorRoutingID (roConnectorRoutingID r))
      else [])"

fun routeErrors ::
  "(string \<Rightarrow> err option) \<Rightarrow> bool \<Rightarrow> nat \<Rightarrow> nat \<Rightarrow> string set \<Rightarrow> ConfigRoute list \<Rightarrow> err list" where
  "routeErrors cridValidate managed routes i seenRouteIDs [] = []"
| "routeErrors cridValidate managed routes i seenRouteIDs (r # rs) =
     (case routeIDErrors routes i seenRouteIDs r of (errs, seen) \<Rightarrow>
        errs @ routeFieldErrors cridValidate managed i r @
        routeErrors cridValidate managed routes (Suc i) seen rs)"

text \<open>
  The loop of \<open>ValidateManagedRouteIdentities\<close>. The two maps give the public identity recorded with a
  CRID or a routing label; the position and route recorded with it only enter the messages.
\<close>

fun identityErrors ::
  "nat \<Rightarrow> string set \<Rightarrow> (string \<rightharpoonup> string) \<Rightarrow> ConfigRoute list \<Rightarrow> err list" where
  "identityErrors i resources routing [] = []"
| "identityErrors i resources routing (r # rs) =
     (let dup = violation (roCRID r \<noteq> '''' \<and> roCRID r \<in> resources) (routeTag i r @ '': duplicate crid'');
          resources = (if roCRID r \<noteq> '''' then insert (roCRID r) resources else resources)
      in if roConnectorRoutingID r = '''' \<or> roCRID r = '''' then dup @ identityErrors (Suc i) resources routing rs
         else (case routing (roConnectorRoutingID r) of
             Some first \<Rightarrow>
               dup @ violation (first \<noteq> roCRID r) (routeTag i r @ '': connector_routing_id is already bound'') @
               identityErrors (Suc i) resources routing rs
           | None \<Rightarrow>
               dup @ identityErrors (Suc i) resources (routing(roConnectorRoutingID r \<mapsto> roCRID r)) rs))"

definition joinErrs :: "err list \<Rightarrow> err option" where
  "joinErrs errs = errorsJoin (map Some errs)"

definition ValidateManagedRouteIdentities :: "ConfigRoute list \<Rightarrow> err option" where
  "ValidateManagedRouteIdentities rs = joinErrs (identityErrors 0 {} Map.empty rs)"

definition validateConfig :: "(string \<Rightarrow> err option) \<Rightarrow> bool \<Rightarrow> Config \<Rightarrow> err option" where
  "validateConfig cridValidate requireManagedRouting c = joinErrs
     (serverErrors (cfServer c) @ adminErrors c @
      routeErrors cridValidate requireManagedRouting (length (cfRoutes c)) 0 {} (cfRoutes c) @
      (case ValidateManagedRouteIdentities (cfRoutes c) of None \<Rightarrow> [] | Some e \<Rightarrow> [e]))"

definition Validate :: "(string \<Rightarrow> err option) \<Rightarrow> Config \<Rightarrow> err option" where
  "Validate cridValidate c = validateConfig cridValidate True c"

definition validateStartupInput :: "(string \<Rightarrow> err option) \<Rightarrow> Config \<Rightarrow> err option" where
  "validateStartupInput cridValidate c = validateConfig cridValidate False c"

end
