(* ===== verification/Json_Value.thy ===== *)
theory Json_Value
  imports Go_JSON
begin

text \<open>
  JSON documents as \<open>encoding/json\<close> reads and writes them: a reader for any document without surrogate
  escapes, which keeps the members of an object in order and with their repetitions, and the compact
  writer of \<open>json.Marshal\<close>. The round trip of printed values is the main fact. The fuel of the reader
  bounds its nesting and the members it reads: every call but the one from a list to its next value has
  consumed a character, so twice the length of the text is enough.
\<close>

section \<open>Values\<close>

datatype json =
    JsNull
  | JsBool bool
  | JsNumber string
  | JsString string
  | JsArray "json list"
  | JsObject "(string \<times> json) list"

definition isSpace :: "char \<Rightarrow> bool" where
  "isSpace c = (c = CHR 0x20 \<or> c = CHR 0x09 \<or> c = CHR 0x0A \<or> c = CHR 0x0D)"

definition skipSpace :: "string \<Rightarrow> string" where "skipSpace s = dropWhile isSpace s"

section \<open>Numbers\<close>

text \<open>A number literal of the grammar: sign, integer part, fraction, exponent.\<close>

definition numInt :: "string \<Rightarrow> (string \<times> string) option" where
  "numInt s = (case s of
      [] \<Rightarrow> None
    | c # cs \<Rightarrow> if c = CHR ''0'' then Some ([c], cs)
                else if isDigit c then Some (c # takeWhile isDigit cs, dropWhile isDigit cs) else None)"

definition numFrac :: "string \<Rightarrow> (string \<times> string) option" where
  "numFrac s = (case s of
      c # cs \<Rightarrow> if c \<noteq> CHR ''.'' then Some ([], s)
                else let ds = takeWhile isDigit cs in if ds = [] then None else Some (c # ds, dropWhile isDigit cs)
    | [] \<Rightarrow> Some ([], []))"

definition numExp :: "string \<Rightarrow> (string \<times> string) option" where
  "numExp s = (case s of
      c # cs \<Rightarrow>
        if c \<noteq> CHR ''e'' \<and> c \<noteq> CHR ''E'' then Some ([], s)
        else let (sg, t) = (case cs of d # ds \<Rightarrow> if d = CHR ''+'' \<or> d = CHR ''-'' then ([d], ds) else ([], cs)
                                      | [] \<Rightarrow> ([], []));
                 ds = takeWhile isDigit t
          in if ds = [] then None else Some (c # sg @ ds, dropWhile isDigit t)
    | [] \<Rightarrow> Some ([], []))"

definition readNumber :: "string \<Rightarrow> (string \<times> string) option" where
  "readNumber s = (let (sg, s) = (if hasPrefix ''-'' s then (''-'', drop 1 s) else ('''', s)) in do {
     (i, s) \<leftarrow> numInt s; (f, s) \<leftarrow> numFrac s; (e, s) \<leftarrow> numExp s; Some (sg @ i @ f @ e, s) })"

section \<open>Reading\<close>

fun readValue :: "nat \<Rightarrow> string \<Rightarrow> (json \<times> string) option"
and readElements :: "nat \<Rightarrow> string \<Rightarrow> (json list \<times> string) option"
and readMembers :: "nat \<Rightarrow> string \<Rightarrow> ((string \<times> json) list \<times> string) option" where
  "readValue 0 s = None"
| "readValue (Suc n) s = (case skipSpace s of
      [] \<Rightarrow> None
    | c # cs \<Rightarrow>
        if c = CHR 0x7B then
          (case readLit [CHR 0x7D] (skipSpace cs) of
             Some t \<Rightarrow> Some (JsObject [], t)
           | None \<Rightarrow> map_option (map_prod JsObject id) (readMembers n cs))
        else if c = CHR ''['' then
          (case readLit '']'' (skipSpace cs) of
             Some t \<Rightarrow> Some (JsArray [], t)
           | None \<Rightarrow> map_option (map_prod JsArray id) (readElements n cs))
        else if c = quote then map_option (map_prod JsString id) (readBody cs)
        else if c = CHR ''t'' then map_option (Pair (JsBool True)) (readLit ''true'' (c # cs))
        else if c = CHR ''f'' then map_option (Pair (JsBool False)) (readLit ''false'' (c # cs))
        else if c = CHR ''n'' then map_option (Pair JsNull) (readLit ''null'' (c # cs))
        else map_option (map_prod JsNumber id) (readNumber (c # cs)))"
| "readElements 0 s = None"
| "readElements (Suc n) s = (case readValue n s of
      None \<Rightarrow> None
    | Some (v, s) \<Rightarrow>
        (case readLit '','' (skipSpace s) of
           Some t \<Rightarrow> map_option (map_prod (Cons v) id) (readElements n t)
         | None \<Rightarrow> map_option (Pair [v]) (readLit '']'' (skipSpace s))))"
| "readMembers 0 s = None"
| "readMembers (Suc n) s = (case readString (skipSpace s) of
      None \<Rightarrow> None
    | Some (k, s) \<Rightarrow>
        (case readLit '':'' (skipSpace s) of
           None \<Rightarrow> None
         | Some s \<Rightarrow> (case readValue n s of
             None \<Rightarrow> None
           | Some (v, s) \<Rightarrow>
               (case readLit '','' (skipSpace s) of
                  Some t \<Rightarrow> map_option (map_prod (Cons (k, v)) id) (readMembers n t)
                | None \<Rightarrow> map_option (Pair [(k, v)]) (readLit [CHR 0x7D] (skipSpace s))))))"

definition parseDocument :: "string \<Rightarrow> json option" where
  "parseDocument raw = (case readValue (Suc (2 * length raw)) raw of
      Some (v, rest) \<Rightarrow> if skipSpace rest = [] then Some v else None
    | None \<Rightarrow> None)"

section \<open>Writing\<close>

fun printValue :: "json \<Rightarrow> string"
and printElements :: "json list \<Rightarrow> string"
and printMembers :: "(string \<times> json) list \<Rightarrow> string" where
  "printValue JsNull = ''null''"
| "printValue (JsBool b) = (if b then ''true'' else ''false'')"
| "printValue (JsNumber n) = n"
| "printValue (JsString s) = jsonString s"
| "printValue (JsArray []) = ''[]''"
| "printValue (JsArray (v # vs)) = CHR ''['' # printElements (v # vs)"
| "printValue (JsObject []) = [CHR 0x7B, CHR 0x7D]"
| "printValue (JsObject (m # ms)) = CHR 0x7B # printMembers (m # ms)"
| "printElements [] = '']''"
| "printElements [v] = printValue v @ '']''"
| "printElements (v # w # vs) = printValue v @ CHR '','' # printElements (w # vs)"
| "printMembers [] = [CHR 0x7D]"
| "printMembers [(k, v)] = jsonString k @ CHR '':'' # printValue v @ [CHR 0x7D]"
| "printMembers ((k, v) # m # ms) = jsonString k @ CHR '':'' # printValue v @ CHR '','' # printMembers (m # ms)"

text \<open>Values the writer is used on: valid text, and integer literals as numbers.\<close>

fun printable :: "json \<Rightarrow> bool" where
  "printable (JsNumber n) = (\<exists>k. n = fmtNat k)"
| "printable (JsString s) = utf8Valid s"
| "printable (JsArray vs) = list_all printable vs"
| "printable (JsObject ms) = list_all (\<lambda>m. utf8Valid (fst m) \<and> printable (snd m)) ms"
| "printable _ = True"

text \<open>Fuel that suffices for a printed value.\<close>

fun depthOf :: "json \<Rightarrow> nat"
and fuelElements :: "json list \<Rightarrow> nat"
and fuelMembers :: "(string \<times> json) list \<Rightarrow> nat" where
  "depthOf (JsArray vs) = Suc (fuelElements vs)"
| "depthOf (JsObject ms) = Suc (fuelMembers ms)"
| "depthOf _ = 1"
| "fuelElements [] = 0"
| "fuelElements (v # vs) = Suc (depthOf v + fuelElements vs)"
| "fuelMembers [] = 0"
| "fuelMembers ((k, v) # ms) = Suc (depthOf v + fuelMembers ms)"


section \<open>Round trip\<close>

definition closed :: "string \<Rightarrow> bool" where
  "closed t = (t = [] \<or> hd t = CHR '','' \<or> hd t = CHR '']'' \<or> hd t = CHR 0x7D)"

lemma jsonClosed_simps [simp]:
  "closed []" "closed (CHR '','' # t)" "closed (CHR '']'' # t)" "closed (CHR 0x7D # t)"
  by (simp_all add: closed_def)

lemma closed_char: "closed (c # t) \<Longrightarrow> c \<noteq> CHR ''.'' \<and> c \<noteq> CHR ''e'' \<and> c \<noteq> CHR ''E'' \<and> \<not> isDigit c \<and> \<not> isSpace c"
  by (auto simp: closed_def isDigit_def byteOf_def isSpace_def)

lemma skipSpace_plain: "s = c # cs \<Longrightarrow> \<not> isSpace c \<Longrightarrow> skipSpace s = s"
  by (simp add: skipSpace_def)

lemma fmtNat_zero: "fmtNat n = CHR ''0'' # ds \<Longrightarrow> n = 0"
proof (induction n arbitrary: ds rule: fmtNat.induct)
  case (1 n)
  show ?case
  proof (cases "n < 10")
    case True
    then have "digit10 n = CHR ''0''" using "1.prems" by (simp add: fmtNat.simps [of n])
    then show ?thesis using digit10_props(2) [OF True] by (simp add: byteOf_def)
  next
    case False
    then obtain es where "fmtNat (n div 10) = CHR ''0'' # es"
      using "1.prems" fmtNat_hd [of "n div 10"] by (auto simp: fmtNat.simps [of n])
    then show ?thesis using "1.IH" [OF False] False by simp
  qed
qed

lemma fmtNat_0: "fmtNat 0 = ''0''"
  by (simp add: fmtNat.simps digit10_def)

lemma readNumber_fmtNat:
  assumes "closed t"
  shows "readNumber (fmtNat n @ t) = Some (fmtNat n, t)"
proof -
  obtain c cs where f: "fmtNat n = c # cs" "isDigit c" using fmtNat_hd by blast
  have m: "c \<noteq> CHR ''-''" using f(2) not_digit_minus by auto
  have all: "\<forall>d \<in> set cs. isDigit d" using fmtNat_props [of n] f by (simp add: list_all_iff)
  have t: "takeWhile isDigit t = []" "dropWhile isDigit t = t"
    using assms closed_char by (cases t; fastforce)+
  then have span: "takeWhile isDigit (cs @ t) = cs" "dropWhile isDigit (cs @ t) = t"
    using all by (simp_all add: takeWhile_append2 dropWhile_append2)
  have "numInt (fmtNat n @ t) = Some (fmtNat n, t)"
  proof (cases "c = CHR ''0''")
    case True
    then have "n = 0" using fmtNat_zero f(1) by auto
    then show ?thesis by (simp add: numInt_def fmtNat_0)
  next
    case False
    then show ?thesis using f span by (simp add: numInt_def)
  qed
  moreover have "numFrac t = Some ([], t)" "numExp t = Some ([], t)"
    using assms closed_char by (cases t; auto simp: numFrac_def numExp_def)+
  moreover have "\<not> hasPrefix ''-'' (fmtNat n @ t)" using f(1) m by simp
  ultimately show ?thesis by (simp add: readNumber_def)
qed

lemma isSpace_simps [simp]:
  "\<not> isSpace (CHR 0x7B)" "\<not> isSpace (CHR 0x7D)" "\<not> isSpace (CHR ''['')" "\<not> isSpace (CHR '']'')"
  "\<not> isSpace (CHR '','')" "\<not> isSpace (CHR '':'')" "\<not> isSpace quote" "\<not> isSpace (CHR ''n'')"
  "\<not> isSpace (CHR ''t'')" "\<not> isSpace (CHR ''f'')"
  by (simp_all add: isSpace_def quote_def)

lemma quote_neq [simp]: "quote \<noteq> CHR 0x7B" "quote \<noteq> CHR ''[''" "CHR 0x7D \<noteq> quote"
  by (simp_all add: quote_def)

lemma skipSpace_simps [simp]:
  "skipSpace [] = []" "\<not> isSpace c \<Longrightarrow> skipSpace (c # s) = c # s"
  by (simp_all add: skipSpace_def)

lemma digit_char: "isDigit c \<Longrightarrow> \<not> isSpace c \<and> c \<noteq> CHR 0x7B \<and> c \<noteq> CHR ''['' \<and> c \<noteq> quote \<and> c \<noteq> CHR ''t'' \<and>
    c \<noteq> CHR ''f'' \<and> c \<noteq> CHR ''n''"
  by (auto simp: isDigit_def byteOf_def isSpace_def quote_def)

lemma readBody_closed: "utf8Valid s \<Longrightarrow> readBody (jsonEscape s @ quote # t) = Some (s, t)"
  by (rule readBody_jsonEscape)

lemma literal_Cons [simp]:
  "readLit [c] (d # s) = (if c = d then Some s else None)" "readLit [c] [] = None"
  by (simp_all add: readLit_def)

text \<open>No printed value starts with a closing bracket.\<close>

lemma print_hd:
  assumes "printable v"
  shows "\<exists>c cs. printValue v = c # cs \<and> \<not> isSpace c \<and> c \<noteq> CHR '']''"
proof (cases v)
  case (JsNumber n)
  then obtain k where "n = fmtNat k" using assms by auto
  then show ?thesis using JsNumber fmtNat_hd [of k] digit_char by (auto simp: isDigit_def byteOf_def)
next
  case (JsArray vs)
  then show ?thesis by (cases vs) simp_all
next
  case (JsObject ms)
  then show ?thesis by (cases ms) simp_all
qed (auto simp: jsonString_def quote_def isSpace_def)

lemma read_print:
  "printable v \<Longrightarrow> closed t \<Longrightarrow> depthOf v \<le> n \<Longrightarrow> readValue n (printValue v @ t) = Some (v, t)"
  "list_all printable vs \<Longrightarrow> vs \<noteq> [] \<Longrightarrow> fuelElements vs \<le> n \<Longrightarrow>
     readElements n (printElements vs @ t) = Some (vs, t)"
  "list_all (\<lambda>m. utf8Valid (fst m) \<and> printable (snd m)) ms \<Longrightarrow> ms \<noteq> [] \<Longrightarrow> fuelMembers ms \<le> n \<Longrightarrow>
     readMembers n (printMembers ms @ t) = Some (ms, t)"
proof (induction v and vs and ms arbitrary: n t and n t and n t
    rule: printValue_printElements_printMembers.induct)
  case 1
  then obtain m where "n = Suc m" by (cases n) auto
  then show ?case by (simp add: readLit_def quote_def)
next
  case (2 b)
  then obtain m where "n = Suc m" by (cases n) auto
  then show ?case by (cases b) (simp_all add: readLit_def quote_def)
next
  case (3 l)
  then obtain m k where n: "n = Suc m" "l = fmtNat k" by (cases n) auto
  obtain c cs where f: "fmtNat k = c # cs" "isDigit c" using fmtNat_hd by blast
  then show ?case using n digit_char [OF f(2)] readNumber_fmtNat [OF 3(2), of k] by simp
next
  case (4 s)
  then obtain m where "n = Suc m" by (cases n) auto
  with 4 show ?case by (simp add: jsonString_def readBody_closed)
next
  case 5
  then obtain m where "n = Suc m" by (cases n) auto
  then show ?case by simp
next
  case (6 v vs)
  then obtain m where n: "n = Suc m" "fuelElements (v # vs) \<le> m" by (cases n) auto
  obtain c cs where "printElements (v # vs) = c # cs" "\<not> isSpace c" "c \<noteq> CHR '']''"
    using print_hd [of v] 6(2) by (cases vs) auto
  then show ?case using n 6(1) [of m t] 6(2) by simp
next
  case 7
  then obtain m where "n = Suc m" by (cases n) auto
  then show ?case by simp
next
  case (8 p ps)
  then obtain m where n: "n = Suc m" "fuelMembers (p # ps) \<le> m" by (cases n) auto
  obtain cs where "printMembers (p # ps) = quote # cs" by (cases p; cases ps) (auto simp: jsonString_def)
  then show ?case using n 8(1) [of m t] 8(2) by simp
next
  case 9
  then show ?case by simp
next
  case (10 v)
  then obtain m where n: "n = Suc m" "depthOf v \<le> m" by (cases n) auto
  with 10(1) [of "CHR '']'' # t" m] 10(2) show ?case by simp
next
  case (11 v w vs)
  then obtain m where n: "n = Suc m" "depthOf v \<le> m" "fuelElements (w # vs) \<le> m" by (cases n) auto
  with 11(1) [of "CHR '','' # printElements (w # vs) @ t" m] 11(2) [of m t] 11(3) show ?case by simp
next
  case 12
  then show ?case by simp
next
  case (13 k v)
  then obtain m where n: "n = Suc m" "depthOf v \<le> m" by (cases n) auto
  have "readString (skipSpace (jsonString k @ CHR '':'' # printValue v @ CHR 0x7D # t)) =
      Some (k, CHR '':'' # printValue v @ CHR 0x7D # t)"
    using 13(2) readString_jsonString [of k "CHR '':'' # printValue v @ CHR 0x7D # t"]
    by (simp add: jsonString_def)
  with n 13(1) [of "CHR 0x7D # t" m] 13(2) show ?case by simp
next
  case (14 k v p ps)
  then obtain m where n: "n = Suc m" "depthOf v \<le> m" "fuelMembers (p # ps) \<le> m" by (cases n) auto
  let ?r = "CHR '':'' # printValue v @ CHR '','' # printMembers (p # ps) @ t"
  have "readString (skipSpace (jsonString k @ ?r)) = Some (k, ?r)"
    using 14(3) readString_jsonString [of k ?r] by (simp add: jsonString_def)
  with n 14(1) [of "CHR '','' # printMembers (p # ps) @ t" m] 14(2) [of m t] 14(3) show ?case by simp
qed

lemma fuel_length:
  "printable v \<Longrightarrow> depthOf v \<le> 2 * length (printValue v)"
  "list_all printable vs \<Longrightarrow> vs \<noteq> [] \<Longrightarrow> fuelElements vs \<le> 2 * length (printElements vs)"
  "list_all (\<lambda>m. utf8Valid (fst m) \<and> printable (snd m)) ms \<Longrightarrow> ms \<noteq> [] \<Longrightarrow>
     fuelMembers ms \<le> 2 * length (printMembers ms)"
proof (induction v and vs and ms rule: printValue_printElements_printMembers.induct)
  case (3 l)
  then obtain k where "l = fmtNat k" by auto
  then show ?case using fmtNat_hd [of k] by auto
qed (auto simp: jsonString_def)

text \<open>A printed value is parsed back, as a document.\<close>

lemma parse_print: "printable v \<Longrightarrow> parseDocument (printValue v) = Some v"
  using read_print(1) [of v "[]" "Suc (2 * length (printValue v))"] fuel_length(1) [of v]
  by (simp add: parseDocument_def)


section \<open>Printed text is UTF-8\<close>

lemma utf8_width:
  "0 < runeWidth (c # cs) \<Longrightarrow> utf8Valid (drop (runeWidth (c # cs)) (c # cs)) \<Longrightarrow> utf8Valid (c # cs)"
  by (auto simp: runeWidth_def split: if_splits list.splits)

lemma width_append:
  assumes "0 < runeWidth s"
  shows "runeWidth (s @ t) = runeWidth s"
proof -
  obtain c cs where s: "s = c # cs" using assms by (cases s) (auto simp: runeWidth_def)
  show ?thesis
  proof (cases cs)
    case Nil
    then have "byteOf c < 0x80" using assms s by (simp add: runeWidth_def split: if_splits)
    then show ?thesis using s by (simp add: runeWidth_def)
  next
    case d: (Cons d ds)
    show ?thesis
    proof (cases ds)
      case Nil
      then have "byteOf c < 0x80 \<or> inRange 0xC2 0xDF c" using assms s d by (simp add: runeWidth_def split: if_splits)
      then show ?thesis using s d by (auto simp: runeWidth_def)
    next
      case e: (Cons e es)
      show ?thesis
      proof (cases es)
        case Nil
        then have "byteOf c < 0x80 \<or> inRange 0xC2 0xDF c \<or> inRange 0xE0 0xEF c"
          using assms s d e by (simp add: runeWidth_def split: if_splits)
        then show ?thesis using s d e by (auto simp: runeWidth_def)
      next
        case (Cons f fs)
        then show ?thesis using s d e by (simp add: runeWidth_def)
      qed
    qed
  qed
qed

lemma utf8_append: "utf8Valid s \<Longrightarrow> utf8Valid t \<Longrightarrow> utf8Valid (s @ t)"
proof (induction "length s" arbitrary: s rule: less_induct)
  case less
  show ?case
  proof (cases s)
    case (Cons c cs)
    have w: "0 < runeWidth s" "runeWidth s \<le> length s" "utf8Valid (drop (runeWidth s) s)"
      using utf8Valid_width less.prems(1) Cons by auto
    then have "utf8Valid (drop (runeWidth s) s @ t)" using less by simp
    then have "utf8Valid (drop (runeWidth (s @ t)) (s @ t))" using w by (simp add: width_append)
    then show ?thesis using utf8_width [of c "cs @ t"] width_append [OF w(1), of t] w(1) Cons
      by (simp del: utf8Valid.simps)
  qed (simp add: less.prems)
qed

lemma utf8_ascii: "list_all (\<lambda>c. byteOf c < 128) s \<Longrightarrow> utf8Valid s"
  by (induction s) auto

lemma utf8_take_rune: "utf8Valid (c # cs) \<Longrightarrow> utf8Valid (take (runeWidth (c # cs)) (c # cs))"
  by (auto simp: runeWidth_def split: if_splits list.splits)

lemma utf8_escRune: "utf8Valid r \<Longrightarrow> utf8Valid (escRune r)"
  by (simp add: escRune_def byteOf_def)

lemma hexDigit_ascii: "n < 16 \<Longrightarrow> byteOf (hexDigit n) < 128"
proof -
  have "list_all (\<lambda>n. byteOf (hexDigit n) < 128) [0..<16]" by code_simp
  then show "n < 16 \<Longrightarrow> byteOf (hexDigit n) < 128" by (simp add: list_all_iff)
qed

lemma utf8_escAscii: "byteOf c < 128 \<Longrightarrow> utf8Valid (escAscii c)"
  by (rule utf8_ascii) (auto simp: escAscii_def byteOf_def [of "CHR ''u''"] byteOf_def [of "CHR ''0''"]
      byteOf_def [of "CHR 0x5C"] byteOf_def [of "CHR ''b''"] byteOf_def [of "CHR ''f''"]
      byteOf_def [of "CHR ''n''"] byteOf_def [of "CHR ''r''"] byteOf_def [of "CHR ''t''"] hexDigit_ascii)

lemma utf8_jsonEscape: "utf8Valid s \<Longrightarrow> utf8Valid (jsonEscape s)"
proof (induction s rule: jsonEscape.induct)
  case (2 c cs)
  let ?w = "runeWidth (c # cs)"
  show ?case
  proof (cases "byteOf c < 0x80")
    case True
    with 2 show ?thesis by (simp add: utf8_append utf8_escAscii)
  next
    case False
    have w: "0 < ?w" "utf8Valid (drop ?w (c # cs))" using utf8Valid_width [OF 2(4)] by auto
    then have "utf8Valid (jsonEscape (drop (?w - 1) cs))" using 2(3) [OF False] by (cases ?w) auto
    then show ?thesis using False w(1) utf8_escRune [OF utf8_take_rune [OF 2(4)]] by (simp add: utf8_append)
  qed
qed simp

lemma utf8_jsonString: "utf8Valid s \<Longrightarrow> utf8Valid (jsonString s)"
  using utf8_append [OF utf8_jsonEscape, of s "[quote]"] by (simp add: jsonString_def quote_def byteOf_def)

lemma utf8_fmtNat: "utf8Valid (fmtNat n)"
  using fmtNat_props [of n] by (intro utf8_ascii) (auto simp: list_all_iff isDigit_def)

lemma utf8_print:
  "printable v \<Longrightarrow> utf8Valid (printValue v)"
  "list_all printable vs \<Longrightarrow> utf8Valid (printElements vs)"
  "list_all (\<lambda>m. utf8Valid (fst m) \<and> printable (snd m)) ms \<Longrightarrow> utf8Valid (printMembers ms)"
proof (induction v and vs and ms rule: printValue_printElements_printMembers.induct)
  case (3 l)
  then show ?case by (auto simp: utf8_fmtNat)
next
  case (10 v)
  then show ?case by (simp add: utf8_append byteOf_def)
next
  case (11 v w vs)
  then show ?case by (simp add: utf8_append byteOf_def del: printElements.simps utf8Valid.simps(2))
     (simp add: utf8_append byteOf_def)
next
  case (13 k v)
  then show ?case by (simp add: utf8_append utf8_jsonString byteOf_def)
next
  case (14 k v p ps)
  then show ?case by (simp add: utf8_append utf8_jsonString byteOf_def)
qed (simp_all add: byteOf_def utf8_jsonString)

end
