(* ===== verification/Hub_Bootstrap.thy ===== *)
theory Hub_Bootstrap
  imports Hub_Pin Config_Model Json_Value
begin

text \<open>
  What \<open>run\<close> reads before it opens the runtime (\<open>cmd/frpc/run.go\<close>): the Hub triple from the environment or the
  build, the refresh mode, the host name, the egress address, and the version it reports. \<open>buildKey\<close> is
  \<open>defaultHubServerPublicKeyB64\<close>, which the linker may set. \<open>Atoi\<close> and \<open>ParseIP\<close> are those of \<open>Go_Text\<close> and \<open>Net_Text\<close>.
\<close>

section \<open>The Hub\<close>

definition envHubHost :: string where "envHubHost = ''QURL_CONNECTOR_HUB_HOST''"
definition envHubPort :: string where "envHubPort = ''QURL_CONNECTOR_HUB_PORT''"
definition envHubServerPublicKey :: string where "envHubServerPublicKey = ''QURL_CONNECTOR_HUB_SERVER_PUBLIC_KEY_B64''"
definition envRefreshMode :: string where "envRefreshMode = ''LAYERV_AGENT_REGISTRATION_REFRESH_MODE''"
definition defaultHubHost :: string where "defaultHubHost = ''hub.nhp.layerv.ai''"
definition defaultHubPort :: int where "defaultHubPort = 443"

record HubBootstrap =
  hbHost :: string
  hbPort :: int
  hbServerPublicKeyB64 :: string

definition validHubLabel :: "string \<Rightarrow> bool" where
  "validHubLabel l = (l \<noteq> '''' \<and> length l \<le> 63 \<and> hd l \<noteq> CHR ''-'' \<and> last l \<noteq> CHR ''-'' \<and>
     list_all (\<lambda>b. isLowerAlnum b \<or> b = CHR ''-'') l)"

definition validConnectorHubHost :: "string \<Rightarrow> bool" where
  "validConnectorHubHost host =
     (if host = '''' \<or> 253 < length host \<or> hasSuffix ''.'' host \<or> ParseIP host \<noteq> None then False
      else list_all validHubLabel (splitOn (CHR ''.'') host))"

definition validateConnectorHubBootstrap ::
  "(nat list \<Rightarrow> nat list \<Rightarrow> nat list res) \<Rightarrow> HubBootstrap \<Rightarrow> err option" where
  "validateConnectorHubBootstrap x25519 hub =
     (if \<not> validConnectorHubHost (hbHost hub) then Some (NewErr ''must be a canonical lowercase DNS name'')
      else if hbPort hub \<noteq> defaultHubPort then Some (NewErr ''must be the standard NHP UDP port'')
      else (case DecodeServerPublicKeyB64 x25519 (hbServerPublicKeyB64 hub) of
          Inl x \<Rightarrow> Some (Errorf envHubServerPublicKey x)
        | Inr _ \<Rightarrow> None))"

text \<open>The triple before it is trimmed, from the build or from the environment.\<close>

definition hubTriple ::
  "string \<Rightarrow> (string \<Rightarrow> string option) \<Rightarrow> (bool \<times> string \<times> string \<times> string) res" where
  "hubTriple buildKey env =
     (let vs = [env envHubHost, env envHubPort, env envHubServerPublicKey];
          setCount = length (filter (\<lambda>v. v \<noteq> None) vs)
      in if setCount \<noteq> 0 \<and> setCount \<noteq> 3 then Inl (NewErr ''must be set together'')
         else if setCount = 0 then Inr (True, defaultHubHost, fmtInt defaultHubPort, buildKey)
         else (case List.find (\<lambda>v. trimSpace (the v) = '''') vs of
             Some _ \<Rightarrow> Inl (NewErr ''must be non-empty when the custom Hub triple is set'')
           | None \<Rightarrow> Inr (False, the (env envHubHost), the (env envHubPort), the (env envHubServerPublicKey))))"

definition connectorHubBootstrap ::
  "(nat list \<Rightarrow> nat list \<Rightarrow> nat list res) \<Rightarrow> string \<Rightarrow> (string \<Rightarrow> string option) \<Rightarrow> HubBootstrap res" where
  "connectorHubBootstrap x25519 buildKey env = (case hubTriple buildKey env of
      Inl x \<Rightarrow> Inl x
    | Inr (fromBuild, host, portRaw, key) \<Rightarrow>
        (let host = trimSpace host; key = trimSpace key; portRaw = trimSpace portRaw in
         case atoi portRaw of
           None \<Rightarrow> Inl (NewErr ''must be a valid port'')
         | Some port \<Rightarrow>
             if fmtInt port \<noteq> portRaw then Inl (NewErr ''must be a valid port in canonical decimal form'')
             else if key = '''' \<and> fromBuild then Inl (NewErr ''this build has no pinned production Hub key'')
             else (let hub = \<lparr>hbHost = host, hbPort = port, hbServerPublicKeyB64 = key\<rparr> in
               case validateConnectorHubBootstrap x25519 hub of
                 Some x \<Rightarrow> Inl x
               | None \<Rightarrow> Inr hub)))"

section \<open>Other options\<close>

definition registrationRefreshMode :: "(string \<Rightarrow> string option) \<Rightarrow> string res" where
  "registrationRefreshMode env =
     (let mode = toLower (trimSpace (getenv env envRefreshMode)); mode = (if mode = '''' then ''auto'' else mode) in
      if mode = ''auto'' \<or> mode = ''disabled'' then Inr mode else Inl (NewErr ''must be auto or disabled''))"

text \<open>Removing what \<open>utf8.DecodeLastRuneInString\<close> finds in valid text: continuation bytes back to a first byte.\<close>

definition dropLastRune :: "string \<Rightarrow> string" where
  "dropLastRune s = rev (drop 1 (dropWhile isCont (rev s)))"

lemma dropLastRune_shorter: "s \<noteq> [] \<Longrightarrow> length (dropLastRune s) < length s"
proof -
  assume "s \<noteq> []"
  have "length (dropWhile isCont (rev s)) \<le> length s" by (metis length_dropWhile_le length_rev)
  with \<open>s \<noteq> []\<close> have "length (dropWhile isCont (rev s)) - 1 < length s"
    by (cases s) auto
  then show ?thesis by (simp add: dropLastRune_def)
qed

function truncateHostname :: "string \<Rightarrow> string" where
  "truncateHostname host = (if 255 < length host then truncateHostname (dropLastRune host) else host)"
  by pat_completeness auto
termination
proof (relation "measure length", simp)
  fix host :: string
  assume "255 < length host"
  then have "host \<noteq> []" by auto
  then show "(dropLastRune host, host) \<in> measure length" by (simp add: dropLastRune_shorter)
qed

declare truncateHostname.simps [simp del]

definition normalizeRuntimeHostname :: "string \<Rightarrow> string" where
  "normalizeRuntimeHostname host =
     (if \<not> utf8Valid host then ''qurl-connector''
      else if trimSpace host = '''' then ''qurl-connector''
      else truncateHostname host)"

text \<open>\<open>os.Hostname\<close> is the argument.\<close>

definition runtimeHostname :: "string res \<Rightarrow> string" where
  "runtimeHostname r = (case r of Inl _ \<Rightarrow> ''qurl-connector'' | Inr host \<Rightarrow> normalizeRuntimeHostname host)"

text \<open>The address of the dialer, None for no dialer.\<close>

definition connectorEgressUDPDialer :: "Config \<Rightarrow> nat list option res" where
  "connectorEgressUDPDialer cfg =
     (let ip = trimSpace (scEgressLocalIP (cfServer cfg)) in
      if ip = '''' then Inr None
      else (case ParseIP ip of
          None \<Rightarrow> Inl (NewErr ''server.egress_local_ip is not an IP address'')
        | Some a \<Rightarrow> Inr (Some a)))"

section \<open>What is accepted\<close>

lemma port_text: "fmtInt 443 = ''443''" "atoi ''443'' = Some 443" "trimSpace ''443'' = ''443''"
    "trimSpace ''hub.nhp.layerv.ai'' = ''hub.nhp.layerv.ai''"
  by code_simp+

lemma no_key: "\<exists>x. DecodeServerPublicKeyB64 x25519 '''' = Inl x"
  by (simp add: DecodeServerPublicKeyB64_def b64DecodeStrict_def PointSize_def split: option.splits)

lemma trim_nothing: "trimSpace '''' = ''''"
  by code_simp

text \<open>
  C33. The Hub is exactly what was pinned: \<open>connectorHubBootstrap\<close> answers only for a triple that comes as a whole
  from the build or from the environment, with a canonical DNS name that is no address, the port spelled 443, and
  a key in its one canonical spelling, and it returns those values trimmed of spaces and otherwise unchanged.
\<close>

theorem hub_bootstrap_exact:
  "connectorHubBootstrap x25519 buildKey env = Inr hub \<longleftrightarrow>
     (\<exists>h p k. (env envHubHost = None \<and> env envHubPort = None \<and> env envHubServerPublicKey = None \<and>
           h = defaultHubHost \<and> p = ''443'' \<and> k = buildKey \<or>
         env envHubHost = Some h \<and> env envHubPort = Some p \<and> env envHubServerPublicKey = Some k) \<and>
       trimSpace p = ''443'' \<and> validConnectorHubHost (trimSpace h) \<and>
       (\<exists>key. DecodeServerPublicKeyB64 x25519 (trimSpace k) = Inr key) \<and>
       hub = \<lparr>hbHost = trimSpace h, hbPort = 443, hbServerPublicKeyB64 = trimSpace k\<rparr>)"
  (is "?l \<longleftrightarrow> ?r")
proof
  assume ?l
  then obtain b h p k where t: "hubTriple buildKey env = Inr (b, h, p, k)"
    by (auto simp: connectorHubBootstrap_def split: sum.splits)
  with \<open>?l\<close> obtain n where n: "atoi (trimSpace p) = Some n" "fmtInt n = trimSpace p"
      "validateConnectorHubBootstrap x25519 \<lparr>hbHost = trimSpace h, hbPort = n, hbServerPublicKeyB64 = trimSpace k\<rparr> = None"
      "hub = \<lparr>hbHost = trimSpace h, hbPort = n, hbServerPublicKeyB64 = trimSpace k\<rparr>"
    by (auto simp: connectorHubBootstrap_def Let_def split: option.splits if_splits)
  then have "n = 443" "validConnectorHubHost (trimSpace h)" "\<exists>key. DecodeServerPublicKeyB64 x25519 (trimSpace k) = Inr key"
    by (auto simp: validateConnectorHubBootstrap_def defaultHubPort_def split: if_splits sum.splits)
  moreover have "env envHubHost = None \<and> env envHubPort = None \<and> env envHubServerPublicKey = None \<and>
        h = defaultHubHost \<and> p = ''443'' \<and> k = buildKey \<or>
      env envHubHost = Some h \<and> env envHubPort = Some p \<and> env envHubServerPublicKey = Some k"
    using t by (auto simp: hubTriple_def defaultHubPort_def port_text Let_def split: if_splits option.splits)
  ultimately show ?r using n(2,4) port_text(1) by auto
next
  assume ?r
  then obtain h p k key where
      e: "env envHubHost = None \<and> env envHubPort = None \<and> env envHubServerPublicKey = None \<and>
          h = defaultHubHost \<and> p = ''443'' \<and> k = buildKey \<or>
        env envHubHost = Some h \<and> env envHubPort = Some p \<and> env envHubServerPublicKey = Some k"
    and a: "trimSpace p = ''443''" "validConnectorHubHost (trimSpace h)"
      "DecodeServerPublicKeyB64 x25519 (trimSpace k) = Inr key"
      "hub = \<lparr>hbHost = trimSpace h, hbPort = 443, hbServerPublicKeyB64 = trimSpace k\<rparr>" by blast
  have k: "trimSpace k \<noteq> ''''" using a(3) no_key [of x25519] by auto
  have h: "trimSpace h \<noteq> ''''" using a(2) by (auto simp: validConnectorHubHost_def)
  obtain b where "hubTriple buildKey env = Inr (b, h, p, k)"
    using e k h a(1) by (auto simp: hubTriple_def defaultHubPort_def port_text Let_def split: option.splits)
  then show ?l using a k by (simp add: connectorHubBootstrap_def port_text validateConnectorHubBootstrap_def defaultHubPort_def)
qed

section \<open>The host name\<close>

lemma first_byte: "utf8Valid (c # cs) \<Longrightarrow> \<not> isCont c"
  by (auto simp: isCont_def inRange_def split: if_splits)

lemma cont_ranges: "inRange 0xA0 0xBF d \<Longrightarrow> isCont d" "inRange 0x80 0x9F d \<Longrightarrow> isCont d"
    "inRange 0x90 0xBF d \<Longrightarrow> isCont d" "inRange 0x80 0x8F d \<Longrightarrow> isCont d"
  by (simp_all add: inRange_def isCont_def)

lemma take_conts: "list_all isCont (take (2 - 1) (d # ds)) = isCont d"
    "list_all isCont (take (3 - 1) (d # e # ds)) = (isCont d \<and> isCont e)"
    "list_all isCont (take (4 - 1) (d # e # f # ds)) = (isCont d \<and> isCont e \<and> isCont f)"
  by (simp_all add: take_Cons' eval_nat_numeral)

lemma rune_rest: "list_all isCont (take (runeWidth (c # cs) - 1) cs)"
proof (cases cs)
  case d: (Cons d ds)
  show ?thesis
  proof (cases ds)
    case Nil
    then show ?thesis using d by (simp add: runeWidth_def take_conts)
  next
    case e: (Cons e es)
    show ?thesis
    proof (cases es)
      case Nil
      then show ?thesis using d e by (simp add: runeWidth_def take_conts cont_ranges)
    next
      case (Cons f fs)
      then show ?thesis using d e by (simp add: runeWidth_def take_conts cont_ranges)
    qed
  qed
qed simp

lemma dropLastRune_valid: "utf8Valid s \<Longrightarrow> utf8Valid (dropLastRune s)"
proof (induction "length s" arbitrary: s rule: less_induct)
  case less
  show ?case
  proof (cases s)
    case (Cons c cs)
    define w where "w = runeWidth s"
    have w: "0 < w" "w \<le> length s" "utf8Valid (drop w s)" using utf8Valid_width less.prems Cons by (auto simp: w_def)
    have r: "take w s = c # take (w - 1) cs" using w Cons by (cases w) auto
    have cont: "list_all isCont (take (w - 1) cs)" "\<not> isCont c"
      using rune_rest first_byte less.prems Cons by (auto simp: w_def)
    show ?thesis
    proof (cases "drop w s")
      case Nil
      then have "s = c # take (w - 1) cs" using r by (metis append_take_drop_id append_Nil2)
      then have "rev s = rev (take (w - 1) cs) @ [c]" by (metis rev.simps(2))
      then have "dropWhile isCont (rev s) = [c]" using cont by (simp add: dropWhile_append list_all_iff)
      then show ?thesis by (simp add: dropLastRune_def)
    next
      case (Cons d ds)
      have "\<not> isCont d" "d \<in> set (rev (drop w s))" using first_byte w(3) Cons by auto
      then have "dropWhile isCont (rev (drop w s) @ rev (take w s)) = dropWhile isCont (rev (drop w s)) @ rev (take w s)"
        by (rule dropWhile_append1 [rotated])
      moreover have "dropWhile isCont (rev (drop w s)) \<noteq> []" using \<open>\<not> isCont d\<close> \<open>d \<in> set (rev (drop w s))\<close> by auto
      moreover have "rev s = rev (drop w s) @ rev (take w s)" by (metis append_take_drop_id rev_append)
      ultimately have ne: "dropWhile isCont (rev (drop w s)) \<noteq> []"
          "dropWhile isCont (rev s) = dropWhile isCont (rev (drop w s)) @ rev (take w s)" by metis+
      from ne(1) obtain x xs where x: "dropWhile isCont (rev (drop w s)) = x # xs" by (metis list.exhaust)
      have "dropLastRune s = take w s @ dropLastRune (drop w s)" unfolding dropLastRune_def ne(2) x by simp
      moreover have "utf8Valid (dropLastRune (drop w s))" using less.hyps [of "drop w s"] w by simp
      moreover have "utf8Valid (take w s)" using utf8_take_rune less.prems \<open>s = c # cs\<close> by (auto simp: w_def)
      ultimately show ?thesis by (simp add: utf8_append)
    qed
  qed (simp add: dropLastRune_def)
qed

lemma truncate_fits: "length (truncateHostname s) \<le> 255 \<and> (utf8Valid s \<longrightarrow> utf8Valid (truncateHostname s))"
  by (induction s rule: truncateHostname.induct) (subst (1 2) truncateHostname.simps, auto simp: dropLastRune_valid)

text \<open>The host name sent is valid text of at most 255 bytes, and a name that fits is sent as it is.\<close>

lemma hostname_fits:
  "utf8Valid (runtimeHostname r) \<and> length (runtimeHostname r) \<le> 255"
  "utf8Valid host \<Longrightarrow> trimSpace host \<noteq> '''' \<Longrightarrow> length host \<le> 255 \<Longrightarrow> runtimeHostname (Inr host) = host"
proof -
  have "utf8Valid ''qurl-connector''" by code_simp
  then show "utf8Valid (runtimeHostname r) \<and> length (runtimeHostname r) \<le> 255"
    using truncate_fits
    by (auto simp: runtimeHostname_def normalizeRuntimeHostname_def simp del: utf8Valid.simps split: sum.splits)
qed (simp add: runtimeHostname_def normalizeRuntimeHostname_def truncateHostname.simps)

end
