(* ===== verification/Config_Load.thy ===== *)
theory Config_Load
  imports Config_Model
begin

text \<open>
  Reading a configuration document (\<open>decodeConfig\<close> and \<open>stripRetiredGeneratedFields\<close> of
  \<open>pkg/config/config.go\<close>) and the target of \<open>add\<close> (\<open>pkg/config/target.go\<close>).

  \<open>gopkg.in/yaml.v3\<close> and \<open>net/url\<close> are parameters: \<open>yamlOps\<close> holds \<open>yaml.Unmarshal\<close> into a node (the
  content of the document), \<open>yaml.Marshal\<close> of the document and the strict decoder. A node is a value: the
  code changes nodes in place and holds no node twice, so an update returns the new tree.
\<close>

section \<open>Nodes\<close>

datatype yamlKind = DocumentNode | SequenceNode | MappingNode | ScalarNode | AliasNode

datatype yamlNode = YNode (ynKind: yamlKind) (ynTag: string) (ynValue: string) (ynLine: int) (ynContent: "yamlNode list")

record yamlOps =
  yoUnmarshal :: "string \<Rightarrow> yamlNode list option"
  yoMarshal :: "yamlNode list \<Rightarrow> string res"
  yoDecode :: "string \<Rightarrow> Config res"

text \<open>The pair of a key in a mapping's content.\<close>

fun pairOf :: "string \<Rightarrow> yamlNode list \<Rightarrow> (yamlNode \<times> yamlNode) option" where
  "pairOf key (k # v # r) = (if ynValue k = key then Some (k, v) else pairOf key r)"
| "pairOf key _ = None"

definition mappingContent :: "yamlNode option \<Rightarrow> yamlNode list" where
  "mappingContent n = (case n of Some m \<Rightarrow> if ynKind m = MappingNode then ynContent m else [] | None \<Rightarrow> [])"

definition yamlField :: "yamlNode option \<Rightarrow> string \<Rightarrow> yamlNode option" where
  "yamlField n key = map_option snd (pairOf key (mappingContent n))"

definition yamlFieldLine :: "yamlNode option \<Rightarrow> string \<Rightarrow> int option" where
  "yamlFieldLine n key = map_option (\<lambda>p. ynLine (fst p)) (pairOf key (mappingContent n))"

fun dropPair :: "string \<Rightarrow> yamlNode list \<Rightarrow> yamlNode list option" where
  "dropPair key (k # v # r) =
     (if ynValue k = key \<and> ynKind v = ScalarNode then Some r else map_option (\<lambda>r. k # v # r) (dropPair key r))"
| "dropPair key _ = None"

definition setContent :: "yamlNode \<Rightarrow> yamlNode list \<Rightarrow> yamlNode" where
  "setContent n c = YNode (ynKind n) (ynTag n) (ynValue n) (ynLine n) c"

text \<open>Whether a field was dropped, and the node after it.\<close>

definition dropYAMLField :: "yamlNode \<Rightarrow> string \<Rightarrow> bool \<times> yamlNode" where
  "dropYAMLField n key = (if ynKind n \<noteq> MappingNode then (False, n)
     else (case dropPair key (ynContent n) of None \<Rightarrow> (False, n) | Some c \<Rightarrow> (True, setContent n c)))"

text \<open>A value node put back where its key first occurs.\<close>

fun putPair :: "string \<Rightarrow> yamlNode \<Rightarrow> yamlNode list \<Rightarrow> yamlNode list" where
  "putPair key n (k # v # r) = (if ynValue k = key then k # n # r else k # v # putPair key n r)"
| "putPair key n r = r"

section \<open>Retired fields\<close>

type_synonym stripped = "err list \<times> bool \<times> yamlNode"

definition dropStep :: "string \<Rightarrow> stripped \<Rightarrow> stripped" where
  "dropStep key s = (case s of (errs, dropped, n) \<Rightarrow>
     (case dropYAMLField n key of (d, n') \<Rightarrow> (errs, d \<or> dropped, n')))"

definition retiredErr :: "string \<Rightarrow> string \<Rightarrow> int option \<Rightarrow> err" where
  "retiredErr wh key line = NewErr (''config field '' @ wh @ ''.'' @ key @ '' at line '' @
     fmtInt (case line of Some l \<Rightarrow> l | None \<Rightarrow> 0) @ '' was removed'')"

definition stripServer :: "yamlNode \<Rightarrow> stripped" where
  "stripServer server =
     (let s = (case yamlField (Some server) ''token'' of
          None \<Rightarrow> ([], False, server)
        | Some token \<Rightarrow>
            if ynKind token \<noteq> ScalarNode \<or> (ynTag token \<noteq> ''!!null'' \<and> trimSpace (ynValue token) \<noteq> '''') then
              ([retiredErr ''server'' ''token'' (yamlFieldLine (Some server) ''token'')], False, server)
            else dropStep ''token'' ([], False, server))
      in dropStep ''replica_discriminator'' (dropStep ''public_domain'' s))"

definition valueOr :: "yamlNode option \<Rightarrow> string" where
  "valueOr n = (case n of Some m \<Rightarrow> trimSpace (ynValue m) | None \<Rightarrow> '''')"

text \<open>One generated routing field of a route.\<close>

definition stripRouting :: "nat \<Rightarrow> string \<Rightarrow> stripped \<Rightarrow> stripped" where
  "stripRouting i key s = (case s of (errs, dropped, route) \<Rightarrow>
     (case yamlField (Some route) key of
        None \<Rightarrow> s
      | Some field \<Rightarrow>
          (let routingValue = valueOr (yamlField (Some route) ''connector_routing_id'');
               resourceID = valueOr (yamlField (Some route) ''crid'') in
           if ynKind field = ScalarNode \<and> trimSpace (ynValue field) = '''' then dropStep key s
           else if routingValue \<noteq> '''' \<and> trimSpace (ynValue field) = routingValue then dropStep key s
           else if ynKind field = ScalarNode \<and> routingValue = '''' \<and> resourceID \<noteq> '''' then dropStep key s
           else (errs @ [retiredErr (routePrefix i) key (yamlFieldLine (Some route) key)], dropped, route))))"

definition refuseField :: "nat \<Rightarrow> string \<Rightarrow> stripped \<Rightarrow> stripped" where
  "refuseField i key s = (case s of (errs, dropped, route) \<Rightarrow>
     (case yamlFieldLine (Some route) key of
        None \<Rightarrow> s
      | Some line \<Rightarrow> (errs @ [retiredErr (routePrefix i) key (Some line)], dropped, route)))"

definition stripRoute :: "nat \<Rightarrow> yamlNode \<Rightarrow> stripped" where
  "stripRoute i route =
     refuseField i ''headers'' (refuseField i ''host_rewrite'' (refuseField i ''remote_port''
       (refuseField i ''custom_domains'' (stripRouting i ''load_balancer_group'' (stripRouting i ''subdomain''
         (refuseField i ''resource_id'' ([], False, route)))))))"

fun stripRoutes :: "nat \<Rightarrow> yamlNode list \<Rightarrow> err list \<times> bool \<times> yamlNode list" where
  "stripRoutes i [] = ([], False, [])"
| "stripRoutes i (r # rs) = (case stripRoute i r of (errs, dropped, r') \<Rightarrow>
     (case stripRoutes (Suc i) rs of (errs', dropped', rs') \<Rightarrow> (errs @ errs', dropped \<or> dropped', r' # rs')))"

definition stripRoot :: "yamlNode \<Rightarrow> stripped" where
  "stripRoot root =
     (let s = (case yamlField (Some root) ''server'' of
          None \<Rightarrow> ([], False, root)
        | Some server \<Rightarrow> (case stripServer server of (errs, dropped, server') \<Rightarrow>
            (errs, dropped, setContent root (putPair ''server'' server' (ynContent root)))))
      in case s of (errs, dropped, root) \<Rightarrow>
        (case yamlField (Some root) ''routes'' of
           None \<Rightarrow> s
         | Some routes \<Rightarrow>
             if ynKind routes \<noteq> SequenceNode then s
             else (case stripRoutes 0 (ynContent routes) of (errs', dropped', rs) \<Rightarrow>
               (errs @ errs', dropped \<or> dropped',
                setContent root (putPair ''routes'' (setContent routes rs) (ynContent root))))))"

definition stripRetiredGeneratedFields :: "yamlOps \<Rightarrow> string \<Rightarrow> string res" where
  "stripRetiredGeneratedFields yo data = (case yoUnmarshal yo data of
      None \<Rightarrow> Inr data
    | Some [] \<Rightarrow> Inr data
    | Some (root # others) \<Rightarrow> (case stripRoot root of (errs, dropped, root') \<Rightarrow>
        (case joinErrs errs of
           Some e \<Rightarrow> Inl e
         | None \<Rightarrow> if \<not> dropped then Inr data else yoMarshal yo (root' # others))))"

section \<open>Decoding\<close>

definition decodeConfig ::
  "(string \<Rightarrow> err option) \<Rightarrow> yamlOps \<Rightarrow> (string \<Rightarrow> string option) \<Rightarrow> string \<Rightarrow> Config res" where
  "decodeConfig cridValidate yo env data =
     (let resolved = resolveEnvVars env data in
      case stripRetiredGeneratedFields yo resolved of
        Inl e \<Rightarrow> Inl (Errorf ''parsing retired config fields'' e)
      | Inr stripped \<Rightarrow> (case yoDecode yo stripped of
          Inl e \<Rightarrow> Inl (Errorf ''parsing config file'' e)
        | Inr cfg \<Rightarrow>
            (let cfg = applyEnvOverrides env (applyDefaults cfg) in
             case validateStartupInput cridValidate cfg of
               Some e \<Rightarrow> Inl (Errorf ''validating config'' e)
             | None \<Rightarrow> Inr cfg)))"

section \<open>Targets\<close>

text \<open>A parsed URL: what the code reads of \<open>url.URL\<close>.\<close>

record parsedURL =
  puScheme :: string
  puHostname :: string
  puPort :: string

definition ParseTarget :: "(string \<Rightarrow> parsedURL res) \<Rightarrow> string \<Rightarrow> (string \<times> int \<times> string) res" where
  "ParseTarget parse raw = (case parse raw of
      Inl e \<Rightarrow> Inl (Errorf ''invalid target URL'' e)
    | Inr u \<Rightarrow>
        (let scheme = toLower (puScheme u);
             host = (if puHostname u = '''' then ''127.0.0.1'' else puHostname u);
             portStr = puPort u in
         if scheme = ''http'' then
           (let port = (if portStr = '''' then 80 else 0) in
            if port = 0 then
              (case atoi portStr of
                 None \<Rightarrow> Inl (NewErr ''invalid port'')
               | Some n \<Rightarrow> if n \<le> 0 \<or> 65535 < n then Inl (NewErr ''invalid port'') else Inr (host, n, raw))
            else Inr (host, port, raw))
         else if scheme = ''https'' then Inl (NewErr ''HTTPS origins are not supported'')
         else Inl (NewErr ''unsupported scheme (use http://)'')))"

end
