(* ===== verification/Config_Props.thy ===== *)
theory Config_Props
  imports Config_Model Config_Text_Props
begin

text \<open>
  What \<open>Validate\<close> accepts, as a type: a configuration whose fields obey their rules and whose routes form
  a one-to-one graph of route ids, public identities and routing labels. The knock resources of one
  session never mix, and defaults keep a valid configuration valid.
\<close>

section \<open>Lists of violations\<close>

lemma violation_Nil [simp]: "violation b m = [] \<longleftrightarrow> \<not> b"
  by (simp add: violation_def)

lemma wrapped_Nil [simp]: "wrapped m e = [] \<longleftrightarrow> e = None"
  by (cases e) (simp_all add: wrapped_def)

lemma joinErrs_None [simp]: "joinErrs errs = None \<longleftrightarrow> errs = []"
  by (cases errs) (auto simp: joinErrs_def)

section \<open>Well-formed configurations\<close>

definition opaqueIdentifier :: "string \<Rightarrow> bool" where
  "opaqueIdentifier v = (v \<noteq> '''' \<and> trimSpace v = v \<and> utf8Valid v \<and> \<not> hasControl v)"

definition routingLabel :: "string \<Rightarrow> bool" where
  "routingLabel s = (\<exists>digest. length digest = 32 \<and> list_all (\<lambda>b. b < 256) digest \<and> s = ''c-'' @ b32Encode digest)"

definition validPort :: "int \<Rightarrow> bool" where "validPort p = (1 \<le> p \<and> p \<le> 65535)"

definition egressAddress :: "string \<Rightarrow> bool" where
  "egressAddress s = (trimSpace s = s \<and> (\<exists>ip. ParseIP s = Some ip \<and>
     \<not> IsUnspecified ip \<and> \<not> IsLoopback ip \<and> \<not> IsMulticast ip \<and> \<not> IsLinkLocalUnicast ip))"

definition serverWellFormed :: "ServerConfig \<Rightarrow> bool" where
  "serverWellFormed s =
     ((trimSpace (scAddr s) = '''' \<longleftrightarrow> scPort s = 0) \<and> (scPort s = 0 \<or> validPort (scPort s)) \<and>
      (scEgressLocalIP s = '''' \<or> egressAddress (scEgressLocalIP s)) \<and>
      (scProtocol s \<in> {'''', ''tcp'', ''websocket'', ''wss''} \<or>
       scProtocol s \<in> {''kcp'', ''quic''} \<and> scEgressLocalIP s = ''''))"

definition adminWellFormed :: "Config \<Rightarrow> bool" where
  "adminWellFormed c =
     (acEnabled (cfAdmin c) \<longrightarrow> validPort (acPort (cfAdmin c)) \<and>
        (AdminBindLooksRoutable c \<longrightarrow> acAllowRemote (cfAdmin c)) \<and>
        (acAllowRemote (cfAdmin c) \<longrightarrow> acPassword (cfAdmin c) \<noteq> ''''))"

definition routeWellFormed :: "(string \<Rightarrow> err option) \<Rightarrow> ConfigRoute \<Rightarrow> bool" where
  "routeWellFormed cridValidate r =
     ((roID r = '''' \<or> slugPattern (roID r)) \<and> (roID r = '''' \<longrightarrow> roCRID r = '''') \<and>
      roType r = RouteTypeHTTP \<and> validPort (roLocalPort r) \<and>
      (roCRID r = '''' \<or> cridValidate (roCRID r) = None) \<and>
      (roKnockResourceID r = '''' \<or> opaqueIdentifier (roKnockResourceID r)) \<and>
      (roConnectorRoutingID r = '''' \<or> roCRID r \<noteq> '''' \<and> routingLabel (roConnectorRoutingID r)))"

definition filled :: "(ConfigRoute \<Rightarrow> string) \<Rightarrow> ConfigRoute list \<Rightarrow> string list" where
  "filled f rs = filter (\<lambda>s. s \<noteq> '''') (map f rs)"

definition configWellFormed :: "(string \<Rightarrow> err option) \<Rightarrow> Config \<Rightarrow> bool" where
  "configWellFormed cridValidate c =
     (serverWellFormed (cfServer c) \<and> adminWellFormed c \<and>
      list_all (routeWellFormed cridValidate) (cfRoutes c) \<and>
      (length (cfRoutes c) = 1 \<or> list_all (\<lambda>r. roID r \<noteq> '''') (cfRoutes c)) \<and>
      distinct (filled roID (cfRoutes c)) \<and> distinct (filled roCRID (cfRoutes c)) \<and>
      distinct (filled roConnectorRoutingID (cfRoutes c)))"

definition managedPaired :: "Config \<Rightarrow> bool" where
  "managedPaired c = list_all (\<lambda>r. roCRID r \<noteq> '''' \<longrightarrow> roConnectorRoutingID r \<noteq> '''') (cfRoutes c)"

lemma filled_simps [simp]:
  "filled f [] = []"
  "filled f (r # rs) = (if f r = '''' then filled f rs else f r # filled f rs)"
  "set (filled f rs) = f ` set rs - {''''}"
  by (auto simp: filled_def)

lemma disjoint_insert_image:
  "(f ` A - {c}) \<inter> insert x B = {} \<longleftrightarrow> (x = c \<or> x \<notin> f ` A) \<and> (f ` A - {c}) \<inter> B = {}"
  by auto

lemma opaque_None: "validateExactOpaqueIdentifier f v = None \<longleftrightarrow> opaqueIdentifier v"
  by (simp add: validateExactOpaqueIdentifier_def opaqueIdentifier_def)

lemma label_None: "ValidateConnectorRoutingID s = None \<longleftrightarrow> routingLabel s"
  by (simp add: routing_label routingLabel_def)

lemma ParseIP_Nil [simp]: "ParseIP [] = None"
  by (simp add: ParseIP_def)

lemma trimSpace_Nil [simp]: "trimSpace [] = []"
  by (rule trimSpace_plain) simp

lemma egress_Nil: "egressErrors s = [] \<longleftrightarrow> s = '''' \<or> egressAddress s"
  by (auto simp: egressErrors_def egressAddress_def Let_def split: option.splits)

lemma server_Nil: "serverErrors s = [] \<longleftrightarrow> serverWellFormed s"
  by (auto simp: serverErrors_def serverWellFormed_def egress_Nil protocolErrors_def portInvalid_def
      validPort_def split: if_splits)

lemma admin_Nil: "adminErrors c = [] \<longleftrightarrow> adminWellFormed c"
  by (auto simp: adminErrors_def adminWellFormed_def portInvalid_def validPort_def Let_def)

section \<open>Routes\<close>

definition idRule :: "nat \<Rightarrow> ConfigRoute \<Rightarrow> bool" where
  "idRule n r = (if roID r = '''' then roCRID r = '''' \<and> n = 1 else slugPattern (roID r))"

lemma routeID_Nil:
  "routeIDErrors n i seen r = ([], seen') \<longleftrightarrow>
   idRule n r \<and> (roID r = '''' \<and> seen' = seen \<or>
     roID r \<noteq> '''' \<and> roID r \<notin> seen \<and> seen' = insert (roID r) seen)"
  by (auto simp: routeIDErrors_def idRule_def ValidateSlug_def split: option.splits)

lemma field_Nil:
  "routeFieldErrors cv m i r = [] \<longleftrightarrow>
     roType r = RouteTypeHTTP \<and> validPort (roLocalPort r) \<and>
     (m \<longrightarrow> roCRID r \<noteq> '''' \<longrightarrow> roConnectorRoutingID r \<noteq> '''') \<and>
     (roCRID r = '''' \<or> cv (roCRID r) = None) \<and>
     (roKnockResourceID r = '''' \<or> opaqueIdentifier (roKnockResourceID r)) \<and>
     (roConnectorRoutingID r = '''' \<or> roCRID r \<noteq> '''' \<and> routingLabel (roConnectorRoutingID r))"
  by (auto simp: routeFieldErrors_def opaque_None label_None portInvalid_def validPort_def)

lemma routes_Nil:
  "routeErrors cv m n i seen rs = [] \<longleftrightarrow>
     list_all (\<lambda>r. idRule n r \<and> routeFieldErrors cv m 0 r = []) rs \<and>
     distinct (filled roID rs) \<and> set (filled roID rs) \<inter> seen = {}"
proof (induction rs arbitrary: i seen)
  case (Cons r rs)
  obtain errs seen' where e: "routeIDErrors n i seen r = (errs, seen')" by fastforce
  have f: "routeFieldErrors cv m i r = [] \<longleftrightarrow> routeFieldErrors cv m 0 r = []"
    by (simp add: field_Nil)
  show ?case
  proof (cases "errs = []")
    case True
    then have rid: "idRule n r" "roID r = '''' \<and> seen' = seen \<or>
        roID r \<noteq> '''' \<and> roID r \<notin> seen \<and> seen' = insert (roID r) seen"
      using routeID_Nil [of n i seen r seen'] e by simp_all
    show ?thesis using rid(2)
    proof
      assume "roID r = '''' \<and> seen' = seen"
      then show ?thesis using rid(1) True e by (simp add: Cons.IH f conj_assoc)
    next
      assume "roID r \<noteq> '''' \<and> roID r \<notin> seen \<and> seen' = insert (roID r) seen"
      then show ?thesis using rid(1) True e
        by (simp add: Cons.IH f disjoint_insert_image conj_comms)
    qed
  next
    case False
    have "\<not> (idRule n r \<and> (roID r = '''' \<or> roID r \<notin> seen))"
      using routeID_Nil [of n i seen r] e False by auto
    then show ?thesis using e False by auto
  qed
qed simp

section \<open>The identity graph\<close>

text \<open>Managed routes: a public identity and a routing label.\<close>

definition managed :: "ConfigRoute list \<Rightarrow> ConfigRoute set" where
  "managed rs = {r \<in> set rs. roCRID r \<noteq> '''' \<and> roConnectorRoutingID r \<noteq> ''''}"

lemma managed_simps [simp]:
  "managed [] = {}"
  "managed (r # rs) =
     (if roCRID r \<noteq> '''' \<and> roConnectorRoutingID r \<noteq> '''' then insert r (managed rs) else managed rs)"
  by (auto simp: managed_def)

definition agrees :: "(string \<rightharpoonup> string) \<Rightarrow> ConfigRoute list \<Rightarrow> bool" where
  "agrees m rs = (\<forall>r \<in> managed rs. m (roConnectorRoutingID r) \<in> {None, Some (roCRID r)})"

definition labelsFunctional :: "ConfigRoute list \<Rightarrow> bool" where
  "labelsFunctional rs = (\<forall>r \<in> managed rs. \<forall>s \<in> managed rs.
     roConnectorRoutingID r = roConnectorRoutingID s \<longrightarrow> roCRID r = roCRID s)"

text \<open>Every managed route with the label has the identity.\<close>

definition bound :: "string \<Rightarrow> string \<Rightarrow> ConfigRoute list \<Rightarrow> bool" where
  "bound l c rs = (\<forall>s \<in> managed rs. roConnectorRoutingID s = l \<longrightarrow> roCRID s = c)"

definition isManaged :: "ConfigRoute \<Rightarrow> bool" where
  "isManaged r = (roConnectorRoutingID r \<noteq> '''' \<and> roCRID r \<noteq> '''')"

lemma agrees_Cons:
  "agrees m (r # rs) \<longleftrightarrow>
     (isManaged r \<longrightarrow> m (roConnectorRoutingID r) \<in> {None, Some (roCRID r)}) \<and> agrees m rs"
  by (auto simp: agrees_def isManaged_def)

lemma functional_insert:
  "(\<forall>a \<in> insert r M. \<forall>s \<in> insert r M. f a = f s \<longrightarrow> g a = g s) \<longleftrightarrow>
   (\<forall>s \<in> M. f s = f r \<longrightarrow> g s = g r) \<and> (\<forall>a \<in> M. \<forall>s \<in> M. f a = f s \<longrightarrow> g a = g s)"
  by (metis insert_iff)

lemma labels_Cons:
  "labelsFunctional (r # rs) \<longleftrightarrow>
     (isManaged r \<longrightarrow> bound (roConnectorRoutingID r) (roCRID r) rs) \<and> labelsFunctional rs"
proof (cases "isManaged r")
  case True
  then have "managed (r # rs) = insert r (managed rs)" by (simp add: isManaged_def)
  then show ?thesis using True by (simp only: labelsFunctional_def bound_def functional_insert simp_thms)
next
  case False
  then have "managed (r # rs) = managed rs" by (auto simp: isManaged_def)
  then show ?thesis using False by (simp add: labelsFunctional_def)
qed

lemma agrees_upd: "m l = None \<Longrightarrow> agrees (m(l \<mapsto> c)) rs \<longleftrightarrow> agrees m rs \<and> bound l c rs"
  by (auto simp: agrees_def bound_def)

lemma agrees_bound: "m l = Some c \<Longrightarrow> agrees m rs \<Longrightarrow> bound l c rs"
  by (auto simp: agrees_def bound_def)

lemma labels_Nil [simp]: "labelsFunctional []" "agrees m []" "bound l c []"
  by (simp_all add: labelsFunctional_def agrees_def bound_def)

lemma identity_Nil:
  "identityErrors i res m rs = [] \<longleftrightarrow>
     distinct (filled roCRID rs) \<and> set (filled roCRID rs) \<inter> res = {} \<and> agrees m rs \<and> labelsFunctional rs"
proof (induction rs arbitrary: i res m)
  case (Cons r rs)
  show ?case
  proof (cases "isManaged r")
    case False
    then have "roConnectorRoutingID r = '''' \<or> roCRID r = ''''" by (auto simp: isManaged_def)
    then show ?thesis using False
      by (auto simp: Let_def Cons.IH agrees_Cons labels_Cons disjoint_insert_image)
  next
    case True
    then have ne: "roConnectorRoutingID r \<noteq> ''''" "roCRID r \<noteq> ''''" by (auto simp: isManaged_def)
    show ?thesis
    proof (cases "m (roConnectorRoutingID r)")
      case None
      then show ?thesis using True ne
        by (auto simp: Let_def Cons.IH agrees_Cons labels_Cons agrees_upd disjoint_insert_image simp del: fun_upd_apply)
    next
      case (Some x)
      then show ?thesis using True ne agrees_bound [where m = m and l = "roConnectorRoutingID r" and c = x and rs = rs, OF Some]
        by (auto simp: Let_def Cons.IH agrees_Cons labels_Cons disjoint_insert_image)
    qed
  qed
qed simp

lemma identities_None:
  "ValidateManagedRouteIdentities rs = None \<longleftrightarrow> distinct (filled roCRID rs) \<and> labelsFunctional rs"
  by (simp add: ValidateManagedRouteIdentities_def identity_Nil agrees_def)

text \<open>With distinct public identities, labels are functional exactly when they are distinct.\<close>

lemma labels_distinct:
  assumes "distinct (filled roCRID rs)"
    and "list_all (\<lambda>r. roConnectorRoutingID r = '''' \<or> roCRID r \<noteq> '''') rs"
  shows "labelsFunctional rs \<longleftrightarrow> distinct (filled roConnectorRoutingID rs)"
  using assms
proof (induction rs)
  case (Cons r rs)
  have IH: "labelsFunctional rs \<longleftrightarrow> distinct (filled roConnectorRoutingID rs)"
    using Cons by (auto split: if_splits)
  show ?case
  proof (cases "roConnectorRoutingID r = ''''")
    case True
    then show ?thesis using IH by (simp add: labelsFunctional_def)
  next
    case False
    then have crid: "roCRID r \<noteq> ''''" using Cons.prems by simp
    have fresh: "roCRID r \<notin> roCRID ` set rs" using Cons.prems crid by auto
    have "bound (roConnectorRoutingID r) (roCRID r) rs \<longleftrightarrow>
        roConnectorRoutingID r \<notin> roConnectorRoutingID ` managed rs"
    proof -
      have "roCRID s \<noteq> roCRID r" if "s \<in> managed rs" for s
        using that fresh by (auto simp: managed_def image_iff)
      then show ?thesis unfolding bound_def image_iff by metis
    qed
    moreover have "roConnectorRoutingID r \<notin> roConnectorRoutingID ` managed rs \<longleftrightarrow>
        roConnectorRoutingID r \<notin> roConnectorRoutingID ` set rs"
      using Cons.prems(2) False by (auto simp: managed_def list_all_iff)
    ultimately show ?thesis using IH False crid by (simp add: labels_Cons isManaged_def)
  qed
qed simp

section \<open>Validation as a type\<close>

lemma routes_ok:
  "routeErrors cv m (length (cfRoutes c)) 0 {} (cfRoutes c) = [] \<longleftrightarrow>
     list_all (routeWellFormed cv) (cfRoutes c) \<and>
     (length (cfRoutes c) = 1 \<or> list_all (\<lambda>r. roID r \<noteq> '''') (cfRoutes c)) \<and>
     (m \<longrightarrow> managedPaired c) \<and> distinct (filled roID (cfRoutes c))"
proof -
  let ?n = "length (cfRoutes c)"
  have "idRule ?n r \<and> routeFieldErrors cv m 0 r = [] \<longleftrightarrow>
      routeWellFormed cv r \<and> (?n = 1 \<or> roID r \<noteq> '''') \<and>
      (m \<longrightarrow> roCRID r \<noteq> '''' \<longrightarrow> roConnectorRoutingID r \<noteq> '''')" for r
    by (cases "?n = 1"; cases "roID r = ''''") (auto simp: field_Nil routeWellFormed_def idRule_def)
  then show ?thesis unfolding routes_Nil managedPaired_def by (auto simp: list_all_iff)
qed

lemma validateConfig_None:
  "validateConfig cv m c = None \<longleftrightarrow> configWellFormed cv c \<and> (m \<longrightarrow> managedPaired c)"
proof -
  have lists: "list_all (routeWellFormed cv) (cfRoutes c) \<Longrightarrow>
      list_all (\<lambda>r. roConnectorRoutingID r = '''' \<or> roCRID r \<noteq> '''') (cfRoutes c)"
    by (auto simp: list_all_iff routeWellFormed_def)
  have ids: "(case ValidateManagedRouteIdentities (cfRoutes c) of None \<Rightarrow> [] | Some e \<Rightarrow> [e]) = [] \<longleftrightarrow>
      distinct (filled roCRID (cfRoutes c)) \<and> labelsFunctional (cfRoutes c)"
    by (simp add: identities_None [symmetric] split: option.splits)
  show ?thesis
    unfolding validateConfig_def joinErrs_None append_is_Nil_conv server_Nil admin_Nil routes_ok ids
      configWellFormed_def
    using labels_distinct [of "cfRoutes c"] lists by blast
qed


text \<open>
  C32. \<open>Validate\<close> is the type check of a configuration: it accepts exactly the well-formed ones whose managed
  routes carry their routing label, and the start-up check differs only in allowing a pinned resource whose
  label is not hydrated yet. Well-formed means: addresses, ports and protocol in range, a routable admin
  listener authorised and protected, and routes with distinct slugs, distinct valid public identities and
  distinct canonical routing labels.
\<close>

theorem valid_config_type:
  "(Validate cridValidate c = None \<longleftrightarrow> configWellFormed cridValidate c \<and> managedPaired c) \<and>
   (validateStartupInput cridValidate c = None \<longleftrightarrow> configWellFormed cridValidate c)"
  by (simp add: Validate_def validateStartupInput_def validateConfig_None)

section \<open>Knock resources of a session\<close>

text \<open>One knock resource for every recorded resource.\<close>

definition oneKnock :: "string \<Rightarrow> Config \<Rightarrow> bool" where
  "oneKnock k c = list_all (\<lambda>v. v = k) (map (knockAt c) (sorted_list_of_fset (fmdom (cfKnockResourceIDs c))))"

lemma oneKnock_iff: "oneKnock k c \<longleftrightarrow> (\<forall>r v. fmlookup (cfKnockResourceIDs c) r = Some v \<longrightarrow> v = k)"
  by (auto simp: oneKnock_def list_all_iff knockAt_def fmlookup_dom_iff split: option.splits)

lemma first_different_None:
  assumes "FirstDifferentKnockResourceID r k c = None" "r \<noteq> ''''" "k \<noteq> ''''"
    "fmlookup (cfKnockResourceIDs c) r' = Some v" "r' \<noteq> r" "v \<noteq> ''''"
  shows "v = k"
proof -
  have "r' |\<in>| fmdom (cfKnockResourceIDs c)" using assms(4) by (rule fmdomI)
  moreover have "cfKnockResourceIDs c \<noteq> fmempty" using assms(4) by auto
  ultimately show ?thesis using assms
    by (auto simp: FirstDifferentKnockResourceID_def Let_def find_None_iff knockAt_def)
qed

lemma set_knock_one:
  assumes "FirstDifferentKnockResourceID r k c = None" "r \<noteq> ''''" "k \<noteq> ''''"
    "\<forall>r v. fmlookup (cfKnockResourceIDs c) r = Some v \<longrightarrow> v \<noteq> ''''"
  shows "oneKnock k (SetKnockResourceID r k c)"
  using assms first_different_None [OF assms(1-3)] by (auto simp: oneKnock_iff SetKnockResourceID_def)

end
