(* ===== verification/Config_Load_Props.thy ===== *)
theory Config_Load_Props
  imports Config_Load Config_Props
begin

text \<open>
  A decoded configuration is well formed with every default present, and dropping the retired fields of a
  route changes nothing else.
\<close>

section \<open>Defaults\<close>

text \<open>\<open>applyDefaults\<close> is idempotent and its result survives the environment overrides.\<close>

lemma default_idem [simp]:
  "defaultString d (defaultString d s) = defaultString d s"
  "defaultInt m (defaultInt m n) = defaultInt m n"
  "defaultBool b (defaultBool b o') = defaultBool b o'"
  by (simp_all add: default_defs split: option.splits)

lemma defaultString_fixed: "d \<noteq> '''' \<Longrightarrow> defaultString d s = s \<longleftrightarrow> s \<noteq> ''''"
  by (simp add: defaultString_def)

lemma defaultRoute_idem [simp]: "defaultRoute (defaultRoute r) = defaultRoute r"
  by (simp add: defaultRoute_def)

lemma applyDefaults_idem: "applyDefaults (applyDefaults c) = applyDefaults c"
  by (simp add: applyDefaults_def comp_def)

text \<open>What \<open>applyDefaults\<close> leaves unchanged.\<close>

definition defaulted :: "Config \<Rightarrow> bool" where "defaulted c = (applyDefaults c = c)"

lemma defaulted_parts:
  "defaulted c \<longleftrightarrow>
     scProtocol (cfServer c) \<noteq> '''' \<and> scKeepalive (cfServer c) \<noteq> 0 \<and> scDialTimeout (cfServer c) \<noteq> 0 \<and>
     scLoginFailExit (cfServer c) \<noteq> None \<and> list_all (\<lambda>r. roLocalIP r \<noteq> '''') (cfRoutes c) \<and>
     acAddr (cfAdmin c) \<noteq> '''' \<and> acPort (cfAdmin c) \<noteq> 0 \<and> auEnabled (cfAudit c) \<noteq> None \<and>
     auMirrorSlog (cfAudit c) \<noteq> None \<and> auFilePath (cfAudit c) \<noteq> ''''"
proof -
  have r: "map defaultRoute rs = rs \<longleftrightarrow> list_all (\<lambda>r. roLocalIP r \<noteq> '''') rs" for rs
  proof (induction rs)
    case (Cons r rs)
    have "defaultRoute r = r \<longleftrightarrow> roLocalIP r \<noteq> ''''"
      by (cases r) (simp add: defaultRoute_def defaultString_def)
    with Cons show ?case by simp
  qed simp
  have b: "defaultBool d x = x \<longleftrightarrow> x \<noteq> None" for d x
    by (cases x) (simp_all add: defaultBool_def)
  have i: "m \<noteq> 0 \<Longrightarrow> defaultInt m n = n \<longleftrightarrow> n \<noteq> 0" for m n by (simp add: defaultInt_def)
  obtain s e mid u t a au rs k where c: "c = \<lparr>cfServer = s, cfNHPEnabled = e, cfMachineID = mid, cfAPIURL = u,
      cfToken = t, cfAdmin = a, cfAudit = au, cfRoutes = rs, cfKnockResourceIDs = k\<rparr>"
    by (cases c) auto
  show ?thesis
    unfolding defaulted_def c applyDefaults_def
    by (cases s; cases a; cases au)
       (auto simp: r b i defaultString_fixed DefaultAdminAddr_def DefaultAuditFilePath_def DefaultAdminPort_def)
qed

lemma defaulted_applyDefaults: "defaulted (applyDefaults c)"
  by (simp add: defaulted_def applyDefaults_idem)

lemma defaulted_env: "defaulted c \<Longrightarrow> defaulted (applyEnvOverrides env c)"
  by (auto simp: defaulted_parts applyEnvOverrides_def Let_def split: option.splits)

lemma env_routes [simp]: "cfRoutes (applyEnvOverrides env c) = cfRoutes c"
  by (simp add: applyEnvOverrides_def Let_def split: option.splits)

section \<open>Retired fields\<close>

lemma pairOf_drop:
  "dropPair key c = Some c' \<Longrightarrow> key' \<noteq> key \<Longrightarrow> pairOf key' c' = pairOf key' c"
  by (induction key c arbitrary: c' rule: dropPair.induct) (auto split: if_splits)

lemma dropPair_None:
  "dropPair key c = None \<Longrightarrow> pairOf key c = Some (k, v) \<Longrightarrow> ynKind v \<noteq> ScalarNode"
  by (induction key c rule: dropPair.induct) (auto split: if_splits)

lemma kind_setContent [simp]: "ynKind (setContent n c) = ynKind n" "ynContent (setContent n c) = c"
  by (simp_all add: setContent_def)

lemma field_drop_other:
  "dropYAMLField n key = (d, n') \<Longrightarrow> key' \<noteq> key \<Longrightarrow>
     yamlField (Some n') key' = yamlField (Some n) key' \<and> yamlFieldLine (Some n') key' = yamlFieldLine (Some n) key'"
  by (auto simp: dropYAMLField_def yamlField_def yamlFieldLine_def mappingContent_def pairOf_drop
      split: if_splits option.splits)

text \<open>No key occurs twice.\<close>

fun keysOf :: "yamlNode list \<Rightarrow> string list" where
  "keysOf (k # v # r) = ynValue k # keysOf r"
| "keysOf _ = []"

definition uniqueKeys :: "yamlNode \<Rightarrow> bool" where
  "uniqueKeys n = distinct (keysOf (mappingContent (Some n)))"

lemma pairOf_None: "pairOf key c = None \<longleftrightarrow> key \<notin> set (keysOf c)"
  by (induction key c rule: pairOf.induct) auto

lemma drop_in: "dropPair key c = Some c' \<Longrightarrow> key \<in> set (keysOf c)"
  by (induction key c arbitrary: c' rule: dropPair.induct) (auto split: if_splits)

lemma keys_drop:
  "dropPair key c = Some c' \<Longrightarrow> distinct (keysOf c) \<Longrightarrow>
     distinct (keysOf c') \<and> set (keysOf c') = set (keysOf c) - {key}"
  by (induction key c arbitrary: c' rule: dropPair.induct) (auto split: if_splits dest: drop_in)

lemma drop_pair_gone: "dropPair key c = Some c' \<Longrightarrow> distinct (keysOf c) \<Longrightarrow> pairOf key c' = None"
  by (simp add: pairOf_None keys_drop)

lemma field_drop_same:
  assumes "dropYAMLField n key = (d, n')" "uniqueKeys n"
  shows "uniqueKeys n'" and "yamlField (Some n') key = Some v \<Longrightarrow> ynKind v \<noteq> ScalarNode"
proof -
  show "uniqueKeys n'"
    using assms by (auto simp: dropYAMLField_def uniqueKeys_def mappingContent_def dest: keys_drop
        split: if_splits option.splits)
  show "yamlField (Some n') key = Some v \<Longrightarrow> ynKind v \<noteq> ScalarNode"
    using assms
    by (auto simp: dropYAMLField_def uniqueKeys_def yamlField_def mappingContent_def
        dest: drop_pair_gone dropPair_None split: if_splits option.splits)
qed


lemma field_drop_gone:
  assumes "dropYAMLField n key = (d, n')" "uniqueKeys n" "yamlField (Some n) key = Some v" "ynKind v = ScalarNode"
  shows "yamlField (Some n') key = None"
  using assms
  by (auto simp: dropYAMLField_def uniqueKeys_def yamlField_def mappingContent_def
      dest: drop_pair_gone dropPair_None split: if_splits option.splits)

lemma drop_scalar:
  "dropPair key c = Some c' \<Longrightarrow> distinct (keysOf c) \<Longrightarrow> pairOf key c = Some (k, v) \<Longrightarrow>
     ynKind v = ScalarNode"
  by (induction key c arbitrary: c' rule: dropPair.induct) (auto split: if_splits dest: drop_in)

lemma field_drop_kept:
  assumes "dropYAMLField n key = (d, n')" "uniqueKeys n" "yamlField (Some n) key = Some v" "ynKind v \<noteq> ScalarNode"
  shows "yamlField (Some n') key = Some v"
  using assms
  by (auto simp: dropYAMLField_def uniqueKeys_def yamlField_def mappingContent_def
      dest: drop_scalar split: if_splits option.splits)

lemma line_None: "yamlFieldLine n key = None \<longleftrightarrow> yamlField n key = None"
  by (simp add: yamlFieldLine_def yamlField_def)

lemma refuse_step:
  "refuseField i key (errs, d, n) = (errs', d', n') \<Longrightarrow>
     n' = n \<and> (errs' = [] \<longrightarrow> errs = [] \<and> yamlField (Some n) key = None)"
  by (auto simp: refuseField_def line_None [symmetric] split: option.splits)

text \<open>A generated value carries no choice of the operator's.\<close>

definition generated :: "yamlNode \<Rightarrow> yamlNode \<Rightarrow> bool" where
  "generated route f =
     (trimSpace (ynValue f) = '''' \<or>
      trimSpace (ynValue f) = valueOr (yamlField (Some route) ''connector_routing_id'') \<or>
      valueOr (yamlField (Some route) ''connector_routing_id'') = '''' \<and>
      valueOr (yamlField (Some route) ''crid'') \<noteq> '''')"

definition routingStripped :: "yamlNode \<Rightarrow> yamlNode \<Rightarrow> string \<Rightarrow> bool" where
  "routingStripped route route' key = (case yamlField (Some route) key of
      None \<Rightarrow> yamlField (Some route') key = None
    | Some f \<Rightarrow> if ynKind f = ScalarNode then generated route f \<and> yamlField (Some route') key = None
                 else yamlField (Some route') key = Some f)"

lemma routing_step:
  assumes "stripRouting i key (errs, d, n) = (errs', d', n')" "uniqueKeys n"
  shows "uniqueKeys n'" and "key' \<noteq> key \<Longrightarrow> yamlField (Some n') key' = yamlField (Some n) key'"
    and "errs' = [] \<Longrightarrow> errs = [] \<and> routingStripped n n' key"
proof -
  consider (none) "yamlField (Some n) key = None" "n' = n" "errs' = errs"
    | (drop) f b where "yamlField (Some n) key = Some f" "dropYAMLField n key = (b, n')" "errs' = errs"
        "generated n f"
    | (err) "n' = n" "errs' \<noteq> []"
    using assms(1)
    by (auto simp: stripRouting_def dropStep_def generated_def Let_def split: option.splits if_splits prod.splits)
  note cs = this
  show "uniqueKeys n'" using cs field_drop_same(1) assms(2) by cases auto
  show "key' \<noteq> key \<Longrightarrow> yamlField (Some n') key' = yamlField (Some n) key'"
    using cs field_drop_other by cases auto
  show "errs' = [] \<Longrightarrow> errs = [] \<and> routingStripped n n' key"
    using cs
  proof cases
    case none
    then show "errs' = [] \<Longrightarrow> errs = [] \<and> routingStripped n n' key" by (simp add: routingStripped_def)
  next
    case drop
    then show "errs' = [] \<Longrightarrow> errs = [] \<and> routingStripped n n' key"
      using field_drop_gone [OF drop(2) assms(2) drop(1)] field_drop_kept [OF drop(2) assms(2) drop(1)]
      by (auto simp: routingStripped_def)
  qed simp
qed

lemma routingStripped_cong:
  assumes "\<And>k. k \<noteq> key \<Longrightarrow> yamlField (Some m) k = yamlField (Some n) k" "key \<noteq> ''connector_routing_id''"
    "key \<noteq> ''crid''" "routingStripped n n' key'" "key' \<noteq> key"
  shows "routingStripped m n' key'"
  using assms by (auto simp: routingStripped_def generated_def split: option.splits if_splits)

definition retiredRouteFields :: "string list" where
  "retiredRouteFields = [''resource_id'', ''custom_domains'', ''remote_port'', ''host_rewrite'', ''headers'']"

definition generatedRouteFields :: "string list" where
  "generatedRouteFields = [''subdomain'', ''load_balancer_group'']"

text \<open>
  When a route passes the retired-field check, none of its retired fields was present, the two generated
  routing fields are gone when they were scalars (a value of another kind is left for the strict decoder to
  refuse) and what they held was blank, the route's own routing label, or a label not hydrated yet; and every
  other field is the one the file had.
\<close>

lemma retired_fields_dropped:
  assumes "stripRoute i route = ([], dropped, route')" "uniqueKeys route"
  shows "list_all (\<lambda>key. yamlField (Some route') key = None) retiredRouteFields \<and>
    list_all (routingStripped route route') generatedRouteFields \<and>
    (key \<in> set generatedRouteFields \<or> yamlField (Some route') key = yamlField (Some route) key)"
proof -
  obtain e1 d1 n1 where s1: "refuseField i ''resource_id'' ([], False, route) = (e1, d1, n1)" by (metis prod_cases3)
  obtain e2 d2 n2 where s2: "stripRouting i ''subdomain'' (e1, d1, n1) = (e2, d2, n2)" by (metis prod_cases3)
  obtain e3 d3 n3 where s3: "stripRouting i ''load_balancer_group'' (e2, d2, n2) = (e3, d3, n3)" by (metis prod_cases3)
  obtain e4 d4 n4 where s4: "refuseField i ''custom_domains'' (e3, d3, n3) = (e4, d4, n4)" by (metis prod_cases3)
  obtain e5 d5 n5 where s5: "refuseField i ''remote_port'' (e4, d4, n4) = (e5, d5, n5)" by (metis prod_cases3)
  obtain e6 d6 n6 where s6: "refuseField i ''host_rewrite'' (e5, d5, n5) = (e6, d6, n6)" by (metis prod_cases3)
  have s7: "refuseField i ''headers'' (e6, d6, n6) = ([], dropped, route')"
    using assms(1) s1 s2 s3 s4 s5 s6 by (simp add: stripRoute_def)
  note r = refuse_step [OF s1] refuse_step [OF s4] refuse_step [OF s5] refuse_step [OF s6] refuse_step [OF s7]
  have n: "n1 = route" "route' = n3" "n4 = n3" "n5 = n3" "n6 = n3" using r by simp_all
  have es: "e6 = []" "e5 = []" "e4 = []" "e3 = []" using r by simp_all
  have u: "uniqueKeys n1" "uniqueKeys n2" using routing_step(1) [OF s2] assms(2) n(1) by simp_all
  have e2: "e2 = []" "routingStripped n2 n3 ''load_balancer_group''"
    using routing_step(3) [OF s3 u(2)] es by simp_all
  have e1: "e1 = []" "routingStripped n1 n2 ''subdomain''"
    using routing_step(3) [OF s2 u(1)] e2 by simp_all
  have o2: "k \<noteq> ''subdomain'' \<Longrightarrow> yamlField (Some n2) k = yamlField (Some route) k" for k
    using routing_step(2) [OF s2 u(1)] n(1) by simp
  have o3: "k \<noteq> ''load_balancer_group'' \<Longrightarrow> yamlField (Some n3) k = yamlField (Some n2) k" for k
    using routing_step(2) [OF s3 u(2)] by simp
  have gone: "yamlField (Some route) ''resource_id'' = None" "yamlField (Some n3) ''custom_domains'' = None"
      "yamlField (Some n3) ''remote_port'' = None" "yamlField (Some n3) ''host_rewrite'' = None"
      "yamlField (Some n3) ''headers'' = None"
    using r es e1(1) n by simp_all
  have "yamlField (Some n3) ''resource_id'' = None"
    using gone(1) o2 [of "''resource_id''"] o3 [of "''resource_id''"] by simp
  then have a: "list_all (\<lambda>key. yamlField (Some route') key = None) retiredRouteFields"
    using gone n(2) by (simp add: retiredRouteFields_def)
  have sub: "routingStripped route route' ''subdomain''"
    using e1(2) o3 [of "''subdomain''"] n(1,2) by (simp add: routingStripped_def split: option.splits)
  have lbg: "routingStripped route route' ''load_balancer_group''"
    by (rule routingStripped_cong [where n = n2 and key = "''subdomain''"])
       (use e2(2) o2 n(2) in \<open>simp_all\<close>)
  have "key \<in> set generatedRouteFields \<or> yamlField (Some route') key = yamlField (Some route) key"
    using o2 [of key] o3 [of key] n(2)
    by (cases "key = ''subdomain'' \<or> key = ''load_balancer_group''") (simp_all add: generatedRouteFields_def)
  then show ?thesis using a sub lbg by (simp add: generatedRouteFields_def)
qed

section \<open>A loaded configuration\<close>

text \<open>
  A configuration \<open>Load\<close> returns is well formed start-up input with every default in place, and it is what
  the strict decoder read from the document after its placeholders were replaced and its retired fields
  dropped, with nothing but the defaults and the environment overrides added.
\<close>

lemma loaded_config_ready:
  assumes "decodeConfig cridValidate yo env data = Inr cfg"
  shows "configWellFormed cridValidate cfg \<and> defaulted cfg \<and>
    (\<exists>text raw. stripRetiredGeneratedFields yo (resolveEnvVars env data) = Inr text \<and>
       yoDecode yo text = Inr raw \<and> cfg = applyEnvOverrides env (applyDefaults raw))"
  using assms defaulted_env [OF defaulted_applyDefaults]
  by (auto simp: decodeConfig_def Let_def validateStartupInput_def validateConfig_None
      split: sum.splits option.splits)


section \<open>Witnesses\<close>

definition wScalar :: "string \<Rightarrow> yamlNode" where "wScalar v = YNode ScalarNode ''!!str'' v 1 []"

definition wYamlRoute :: yamlNode where
  "wYamlRoute = YNode MappingNode ''!!map'' '''' 1
     [wScalar ''id'', wScalar ''web'', wScalar ''subdomain'', wScalar ''c-1'',
      wScalar ''connector_routing_id'', wScalar ''c-1'']"

definition wYamlStripped :: yamlNode where
  "wYamlStripped = YNode MappingNode ''!!map'' '''' 1
     [wScalar ''id'', wScalar ''web'', wScalar ''connector_routing_id'', wScalar ''c-1'']"

lemma wYaml_strip: "stripRoute 0 wYamlRoute = ([], True, wYamlStripped)" "uniqueKeys wYamlRoute"
  by code_simp+

lemma retired_fields_dropped_witness:
  "yamlField (Some wYamlStripped) ''id'' = yamlField (Some wYamlRoute) ''id'' \<and>
   routingStripped wYamlRoute wYamlStripped ''subdomain''"
  using retired_fields_dropped [OF wYaml_strip, of "''id''"] by (simp add: generatedRouteFields_def)

definition wYamlOps :: yamlOps where
  "wYamlOps = \<lparr>yoUnmarshal = \<lambda>s. None, yoMarshal = \<lambda>ns. Inr '''', yoDecode = \<lambda>s. Inr emptyConfig\<rparr>"

definition wLoaded :: Config where "wLoaded = applyDefaults emptyConfig"

lemma wConfigLoad: "decodeConfig (\<lambda>s. None) wYamlOps (\<lambda>s. None) ''routes: []'' = Inr wLoaded"
  by code_simp

lemma loaded_config_ready_witness: "configWellFormed (\<lambda>s. None) wLoaded \<and> defaulted wLoaded"
  using loaded_config_ready [OF wConfigLoad] by simp

end
