(* ===== verification/Identity_Cache.thy ===== *)
theory Identity_Cache
  imports Journal Json_Value Config_Text "HOL-Library.Finite_Map" "HOL-Library.List_Lexorder" "HOL-Library.Char_ord"
begin

text \<open>
  The Connector identity cache (\<open>cmd/frpc/connector_identity_cache.go\<close>): the durable record of which remote
  resource each route owns and of the requests still in flight.

  The state directory is the directory of \<open>Journal\<close>. Every system call may fail: the world counts the
  calls, and \<open>cwFaults\<close> says how the call of each number ends, so a theorem for every world is a theorem for
  every failure. A Go map is a finite map; where the code ranges over one, the model goes through it in the
  order of its keys. The P-256 and CRID checks of qurl-go and \<open>crypto/x509\<close> are the fields of \<open>keyDeps\<close>.
  Error messages are shortened.
\<close>

section \<open>Data\<close>

record cacheEntry =
  ceID :: string
  ceResourcePublicKey :: string
  ceCRID :: string
  ceConnectorRoutingID :: string
  ceKnockResourceID :: string

record pendingRequest =
  prID :: string
  prRequestNonce :: string
  prExpectedCRID :: "string option"

record identityCache =
  icAgentID :: string
  icByID :: "(string, cacheEntry) fmap"
  icPending :: "(string, pendingRequest) fmap"

text \<open>\<open>qurl.ConnectorResource\<close>: the fields the connector reads.\<close>

record ConnectorResource =
  crSlug :: string
  crResourcePublicKey :: string
  crCRID :: string
  crConnectorRoutingID :: string
  crKnockResourceID :: string

record keyDeps =
  kdCridValidate :: "string \<Rightarrow> err option"
  kdKeyMatches :: "string \<Rightarrow> nat list \<Rightarrow> bool res"
  kdParseKey :: "nat list \<Rightarrow> string res"
  kdMarshalKey :: "string \<Rightarrow> nat list res"

definition connectorIdentityCacheFile :: string where "connectorIdentityCacheFile = ''connector_identities.json''"
definition connectorIdentityCacheLockFile :: string where
  "connectorIdentityCacheLockFile = ''.connector_identities.lock''"
definition legacyConnectorIdentityFile :: string where "legacyConnectorIdentityFile = ''tunnel_identities.json''"
definition connectorIdentityCacheVersion :: int where "connectorIdentityCacheVersion = 3"
definition connectorIdentityCacheMaxBytes :: nat where "connectorIdentityCacheMaxBytes = 1048576"
definition connectorIdentityAgentIDMaxLen :: nat where "connectorIdentityAgentIDMaxLen = 256"
definition connectorIdentityCacheMaxJSONDepth :: nat where "connectorIdentityCacheMaxJSONDepth = 8"
definition AgentStateFile :: string where "AgentStateFile = ''agent_state.json''"
definition SealedAgentStateFile :: string where "SealedAgentStateFile = ''agent_state.sealed.json''"

definition keysOfMap :: "(string, 'a) fmap \<Rightarrow> string list" where
  "keysOfMap m = sorted_list_of_fset (fmdom m)"

section \<open>Unpadded base64url\<close>

text \<open>\<open>base64.RawURLEncoding.Strict()\<close>: the standard digits with \<open>-\<close> and \<open>_\<close>, no padding.\<close>

definition toStdDigit :: "char \<Rightarrow> char" where
  "toStdDigit c = (if c = CHR ''-'' then CHR ''+'' else if c = CHR ''_'' then CHR ''/'' else c)"

definition toURLDigit :: "char \<Rightarrow> char" where
  "toURLDigit c = (if c = CHR ''+'' then CHR ''-'' else if c = CHR ''/'' then CHR ''_'' else c)"

definition rawURLDecodeStrict :: "string \<Rightarrow> nat list option" where
  "rawURLDecodeStrict s =
     (let t = filter (\<lambda>c. c \<noteq> CHR 0x0A \<and> c \<noteq> CHR 0x0D) s;
          pad = (if length t mod 4 = 0 then Some '''' else if length t mod 4 = 2 then Some ''==''
                 else if length t mod 4 = 3 then Some ''='' else None)
      in if list_ex (\<lambda>c. c = CHR ''+'' \<or> c = CHR ''/'' \<or> c = CHR ''='') t then None
         else case pad of None \<Rightarrow> None | Some p \<Rightarrow> b64Decode (map toStdDigit t @ p))"

definition rawURLEncode :: "nat list \<Rightarrow> string" where
  "rawURLEncode bs = map toURLDigit (filter (\<lambda>c. c \<noteq> CHR ''='') (b64Encode bs))"

section \<open>Field rules\<close>

definition validateCachedIdentityString :: "string \<Rightarrow> string \<Rightarrow> err option" where
  "validateCachedIdentityString field value =
     (if value = '''' \<or> trimSpace value \<noteq> value \<or> \<not> utf8Valid value then
        Some (NewErr (field @ '' must be non-empty exact UTF-8 without surrounding whitespace''))
      else if hasControl value then Some (NewErr (field @ '' must not contain control characters''))
      else None)"

definition validateCachedAgentID :: "string \<Rightarrow> err option" where
  "validateCachedAgentID agentID = (case validateCachedIdentityString ''agent_id'' agentID of
      Some e \<Rightarrow> Some e
    | None \<Rightarrow> if connectorIdentityAgentIDMaxLen < length agentID then Some (NewErr ''agent_id exceeds 256 bytes'')
              else None)"

definition validateCachedResourcePublicKey :: "keyDeps \<Rightarrow> string \<Rightarrow> err option" where
  "validateCachedResourcePublicKey kd resourceID =
     (case validateCachedIdentityString ''resource_public_key'' resourceID of
        Some e \<Rightarrow> Some e
      | None \<Rightarrow> (case rawURLDecodeStrict resourceID of
          None \<Rightarrow> Some (NewErr ''resource_public_key must be canonical unpadded base64url'')
        | Some der \<Rightarrow>
            if rawURLEncode der \<noteq> resourceID then
              Some (NewErr ''resource_public_key must be canonical unpadded base64url'')
            else (case kdParseKey kd der of
                Inl e \<Rightarrow> Some (Errorf ''resource_public_key must encode a P-256 DER SPKI public key'' e)
              | Inr publicKey \<Rightarrow>
                  if kdMarshalKey kd publicKey \<noteq> Inr der then
                    Some (NewErr ''resource_public_key must use canonical P-256 DER SPKI encoding'')
                  else None)))"

definition validateCachedKnockResourceID :: "string \<Rightarrow> err option" where
  "validateCachedKnockResourceID value = (case validateCachedIdentityString ''knock_resource_id'' value of
      Some e \<Rightarrow> Some e
    | None \<Rightarrow> if 64 < length value then Some (NewErr ''knock_resource_id exceeds 64 bytes'') else None)"

definition validateCachedConnectorBinding :: "keyDeps \<Rightarrow> cacheEntry \<Rightarrow> err option" where
  "validateCachedConnectorBinding kd b = (case ValidateSlug (ceID b) of
      Some e \<Rightarrow> Some e
    | None \<Rightarrow> (case validateCachedResourcePublicKey kd (ceResourcePublicKey b) of
        Some e \<Rightarrow> Some e
      | None \<Rightarrow> (case ValidateConnectorRoutingID (ceConnectorRoutingID b) of
          Some e \<Rightarrow> Some (Errorf ''connector_routing_id'' e)
        | None \<Rightarrow> (case validateCachedKnockResourceID (ceKnockResourceID b) of
            Some e \<Rightarrow> Some e
          | None \<Rightarrow>
              if ceResourcePublicKey b = ceKnockResourceID b \<or> ceConnectorRoutingID b = ceKnockResourceID b \<or>
                 ceCRID b = ceKnockResourceID b then Some (NewErr ''identities must be distinct'')
              else if ceCRID b = '''' then Some (NewErr ''crid is required'')
              else (case rawURLDecodeStrict (ceResourcePublicKey b) of
                  None \<Rightarrow> Some (NewErr ''resource_public_key must be canonical before CRID validation'')
                | Some der \<Rightarrow>
                    if kdKeyMatches kd (ceCRID b) der \<noteq> Inr True then
                      Some (NewErr ''crid must cryptographically match resource_public_key'')
                    else None)))))"

definition validateCachedConnectorRequest :: "keyDeps \<Rightarrow> pendingRequest \<Rightarrow> err option" where
  "validateCachedConnectorRequest kd r = (case ValidateSlug (prID r) of
      Some e \<Rightarrow> Some e
    | None \<Rightarrow>
        (let ok = (case rawURLDecodeStrict (prRequestNonce r) of
            None \<Rightarrow> False
          | Some nonce \<Rightarrow> length nonce = 32 \<and> rawURLEncode nonce = prRequestNonce r)
         in if \<not> ok then Some (NewErr ''request_nonce must be canonical unpadded base64url of 32 bytes'')
            else (case prExpectedCRID r of
                None \<Rightarrow> None
              | Some crid \<Rightarrow>
                  if crid = '''' then Some (NewErr ''expected_crid must be absent rather than empty'')
                  else map_option (Errorf ''expected_crid'') (kdCridValidate kd crid))))"

text \<open>The rule between a request and the binding of the same route.\<close>

definition assertsCached :: "pendingRequest \<Rightarrow> cacheEntry option \<Rightarrow> bool" where
  "assertsCached r b = (case b of None \<Rightarrow> True | Some e \<Rightarrow> prExpectedCRID r = Some (ceCRID e))"

section \<open>The document\<close>

definition optionalMember :: "string \<Rightarrow> string option \<Rightarrow> (string \<times> json) list" where
  "optionalMember k v = (case v of None \<Rightarrow> [] | Some s \<Rightarrow> [(k, JsString s)])"

definition entryJSON :: "cacheEntry \<Rightarrow> json" where
  "entryJSON e = JsObject [(''id'', JsString (ceID e)), (''resource_public_key'', JsString (ceResourcePublicKey e)),
     (''crid'', JsString (ceCRID e)), (''connector_routing_id'', JsString (ceConnectorRoutingID e)),
     (''knock_resource_id'', JsString (ceKnockResourceID e))]"

definition requestJSON :: "pendingRequest \<Rightarrow> json" where
  "requestJSON r = JsObject ([(''id'', JsString (prID r)), (''request_nonce'', JsString (prRequestNonce r))] @
     optionalMember ''expected_crid'' (prExpectedCRID r))"

definition valuesOf :: "(string, 'a) fmap \<Rightarrow> 'a list" where
  "valuesOf m = List.map_filter (fmlookup m) (keysOfMap m)"

definition envelopeJSON :: "identityCache \<Rightarrow> json" where
  "envelopeJSON c = JsObject [(''version'', JsNumber (fmtInt connectorIdentityCacheVersion)),
     (''agent_id'', JsString (icAgentID c)),
     (''identities'', JsArray (map entryJSON (valuesOf (icByID c)))),
     (''pending_requests'', JsArray (map requestJSON (valuesOf (icPending c))))]"

text \<open>\<open>walkConnectorIdentityCacheJSONValue\<close>: no repeated member, bounded nesting.\<close>

fun walkValue :: "nat \<Rightarrow> json \<Rightarrow> err option"
and walkElements :: "nat \<Rightarrow> json list \<Rightarrow> err option"
and walkMembers :: "nat \<Rightarrow> string set \<Rightarrow> (string \<times> json) list \<Rightarrow> err option" where
  "walkValue depth v =
     (if connectorIdentityCacheMaxJSONDepth < depth then Some (NewErr ''JSON nesting exceeds 8 levels'')
      else case v of
        JsObject ms \<Rightarrow> walkMembers (Suc depth) {} ms
      | JsArray vs \<Rightarrow> walkElements (Suc depth) vs
      | _ \<Rightarrow> None)"
| "walkElements depth [] = None"
| "walkElements depth (v # vs) = (case walkValue depth v of Some e \<Rightarrow> Some e | None \<Rightarrow> walkElements depth vs)"
| "walkMembers depth seen [] = None"
| "walkMembers depth seen ((k, v) # ms) =
     (if k \<in> seen then Some (NewErr ''duplicate field'')
      else case walkValue depth v of Some e \<Rightarrow> Some e | None \<Rightarrow> walkMembers depth (insert k seen) ms)"

text \<open>A value decoded into a map of raw members; null is the nil map.\<close>

definition rawMembers :: "json \<Rightarrow> (string \<times> json) list res" where
  "rawMembers v = (case v of JsObject ms \<Rightarrow> Inr ms | JsNull \<Rightarrow> Inr [] | _ \<Rightarrow> Inl (NewErr ''cannot unmarshal''))"

definition rawElements :: "json \<Rightarrow> json list res" where
  "rawElements v = (case v of JsArray vs \<Rightarrow> Inr vs | JsNull \<Rightarrow> Inr [] | _ \<Rightarrow> Inl (NewErr ''cannot unmarshal''))"

definition checkObject :: "string list \<Rightarrow> string \<Rightarrow> json \<Rightarrow> err option" where
  "checkObject keys notNull v = (case rawMembers v of
      Inl e \<Rightarrow> Some e
    | Inr ms \<Rightarrow>
        if list_ex (\<lambda>k. k \<notin> set keys) (map fst ms) then Some (NewErr ''unknown field'')
        else if map_of ms notNull = Some JsNull then Some (NewErr (notNull @ '' must not be null''))
        else None)"

definition firstErr :: "('a \<Rightarrow> err option) \<Rightarrow> 'a list \<Rightarrow> err option" where
  "firstErr f xs = (case List.map_filter f xs of [] \<Rightarrow> None | e # es \<Rightarrow> Some e)"

definition checkElements :: "string list \<Rightarrow> string \<Rightarrow> json option \<Rightarrow> err option" where
  "checkElements keys notNull v = (case v of
      None \<Rightarrow> None
    | Some v \<Rightarrow> if v = JsNull then None
        else (case rawElements v of
            Inl e \<Rightarrow> Some e
          | Inr vs \<Rightarrow> firstErr (checkObject keys notNull) vs))"

text \<open>\<open>rejectNonCanonicalConnectorIdentityCacheKeys\<close>; without identities it stops there.\<close>

definition rejectNonCanonicalKeys :: "json \<Rightarrow> err option" where
  "rejectNonCanonicalKeys v = (case rawMembers v of
      Inl e \<Rightarrow> Some e
    | Inr ms \<Rightarrow>
        if list_ex (\<lambda>k. k \<notin> {''version'', ''agent_id'', ''identities'', ''pending_requests''}) (map fst ms) then
          Some (NewErr ''unknown field'')
        else if map_of ms ''identities'' \<in> {None, Some JsNull} then None
        else (case checkElements [''id'', ''resource_public_key'', ''crid'', ''connector_routing_id'', ''knock_resource_id'']
                ''crid'' (map_of ms ''identities'') of
            Some e \<Rightarrow> Some e
          | None \<Rightarrow> checkElements [''id'', ''request_nonce'', ''expected_crid''] ''expected_crid''
              (map_of ms ''pending_requests'')))"

section \<open>Typed decoding\<close>

text \<open>A field absent or null keeps its zero value.\<close>

definition stringField :: "(string \<times> json) list \<Rightarrow> string \<Rightarrow> string res" where
  "stringField ms k = (case map_of ms k of
      None \<Rightarrow> Inr '''' | Some JsNull \<Rightarrow> Inr '''' | Some (JsString s) \<Rightarrow> Inr s
    | _ \<Rightarrow> Inl (NewErr ''cannot unmarshal''))"

definition stringPtrField :: "(string \<times> json) list \<Rightarrow> string \<Rightarrow> string option res" where
  "stringPtrField ms k = (case map_of ms k of
      None \<Rightarrow> Inr None | Some JsNull \<Rightarrow> Inr None | Some (JsString s) \<Rightarrow> Inr (Some s)
    | _ \<Rightarrow> Inl (NewErr ''cannot unmarshal''))"

definition intField :: "(string \<times> json) list \<Rightarrow> string \<Rightarrow> int res" where
  "intField ms k = (case map_of ms k of
      None \<Rightarrow> Inr 0 | Some JsNull \<Rightarrow> Inr 0
    | Some (JsNumber l) \<Rightarrow> (case readInt64 l of Some (i, []) \<Rightarrow> Inr i | _ \<Rightarrow> Inl (NewErr ''cannot unmarshal number''))
    | _ \<Rightarrow> Inl (NewErr ''cannot unmarshal''))"

definition thenRes :: "'a res \<Rightarrow> ('a \<Rightarrow> 'b res) \<Rightarrow> 'b res" where
  "thenRes r f = (case r of Inl e \<Rightarrow> Inl e | Inr a \<Rightarrow> f a)"

definition decodeEntry :: "json \<Rightarrow> cacheEntry res" where
  "decodeEntry v = thenRes (rawMembers v) (\<lambda>ms.
     thenRes (stringField ms ''id'') (\<lambda>i.
     thenRes (stringField ms ''resource_public_key'') (\<lambda>k.
     thenRes (stringField ms ''crid'') (\<lambda>c.
     thenRes (stringField ms ''connector_routing_id'') (\<lambda>r.
     thenRes (stringField ms ''knock_resource_id'') (\<lambda>n.
       Inr \<lparr>ceID = i, ceResourcePublicKey = k, ceCRID = c, ceConnectorRoutingID = r, ceKnockResourceID = n\<rparr>))))))"

definition decodeRequest :: "json \<Rightarrow> pendingRequest res" where
  "decodeRequest v = thenRes (rawMembers v) (\<lambda>ms.
     thenRes (stringField ms ''id'') (\<lambda>i.
     thenRes (stringField ms ''request_nonce'') (\<lambda>n.
     thenRes (stringPtrField ms ''expected_crid'') (\<lambda>c.
       Inr \<lparr>prID = i, prRequestNonce = n, prExpectedCRID = c\<rparr>))))"

fun decodeAll :: "(json \<Rightarrow> 'a res) \<Rightarrow> json list \<Rightarrow> 'a list res" where
  "decodeAll f [] = Inr []"
| "decodeAll f (v # vs) = thenRes (f v) (\<lambda>x. thenRes (decodeAll f vs) (\<lambda>xs. Inr (x # xs)))"

text \<open>A pointer to a slice: nil when the member is absent or null.\<close>

definition sliceField :: "(json \<Rightarrow> 'a res) \<Rightarrow> (string \<times> json) list \<Rightarrow> string \<Rightarrow> 'a list option res" where
  "sliceField f ms k = (case map_of ms k of
      None \<Rightarrow> Inr None
    | Some v \<Rightarrow> if v = JsNull then Inr None
        else thenRes (rawElements v) (\<lambda>vs. thenRes (decodeAll f vs) (\<lambda>xs. Inr (Some xs))))"

record envelope =
  evVersion :: int
  evAgentID :: "string option"
  evIdentities :: "cacheEntry list option"
  evPending :: "pendingRequest list option"

definition decodeEnvelope :: "json \<Rightarrow> envelope res" where
  "decodeEnvelope v = thenRes (rawMembers v) (\<lambda>ms.
     thenRes (intField ms ''version'') (\<lambda>ver.
     thenRes (stringPtrField ms ''agent_id'') (\<lambda>a.
     thenRes (sliceField decodeEntry ms ''identities'') (\<lambda>es.
     thenRes (sliceField decodeRequest ms ''pending_requests'') (\<lambda>ps.
       Inr \<lparr>evVersion = ver, evAgentID = a, evIdentities = es, evPending = ps\<rparr>)))))"

section \<open>Checks on load\<close>

text \<open>The two loops: the entries so far, the identifier before this one, the owners of public keys.\<close>

fun loadEntries ::
  "keyDeps \<Rightarrow> string option \<Rightarrow> string set \<Rightarrow> (string, cacheEntry) fmap \<Rightarrow> cacheEntry list \<Rightarrow>
   (string, cacheEntry) fmap res" where
  "loadEntries kd previous owners m [] = Inr m"
| "loadEntries kd previous owners m (e # es) = (case validateCachedConnectorBinding kd e of
      Some x \<Rightarrow> Inl x
    | None \<Rightarrow>
        if fmlookup m (ceID e) \<noteq> None then Inl (NewErr ''duplicate id'')
        else if (case previous of Some p \<Rightarrow> ceID e \<le> p | None \<Rightarrow> False) then
          Inl (NewErr ''identities must be strictly sorted by id'')
        else if ceResourcePublicKey e \<in> owners then Inl (NewErr ''resource_public_key has two owners'')
        else loadEntries kd (Some (ceID e)) (insert (ceResourcePublicKey e) owners) (fmupd (ceID e) e m) es)"

fun loadPending ::
  "keyDeps \<Rightarrow> (string, cacheEntry) fmap \<Rightarrow> string option \<Rightarrow> (string, pendingRequest) fmap \<Rightarrow> pendingRequest list \<Rightarrow>
   (string, pendingRequest) fmap res" where
  "loadPending kd byID previous m [] = Inr m"
| "loadPending kd byID previous m (r # rs) = (case validateCachedConnectorRequest kd r of
      Some x \<Rightarrow> Inl x
    | None \<Rightarrow>
        if fmlookup m (prID r) \<noteq> None then Inl (NewErr ''duplicate pending request'')
        else if (case previous of Some p \<Rightarrow> prID r \<le> p | None \<Rightarrow> False) then
          Inl (NewErr ''pending_requests must be strictly sorted by id'')
        else if \<not> assertsCached r (fmlookup byID (prID r)) then
          Inl (NewErr ''pending request does not assert its exact cached CRID'')
        else loadPending kd byID (Some (prID r)) (fmupd (prID r) r m) rs)"

definition checkEnvelope :: "keyDeps \<Rightarrow> envelope \<Rightarrow> identityCache res" where
  "checkEnvelope kd ev =
     (if evVersion ev \<noteq> connectorIdentityCacheVersion then Inl (NewErr ''unsupported version'')
      else case evAgentID ev of
        None \<Rightarrow> Inl (NewErr ''missing agent_id'')
      | Some agentID \<Rightarrow> (case evIdentities ev of
          None \<Rightarrow> Inl (NewErr ''missing identities'')
        | Some es \<Rightarrow> (case evPending ev of
            None \<Rightarrow> Inl (NewErr ''missing pending_requests'')
          | Some ps \<Rightarrow> (case (if agentID \<noteq> '''' then validateCachedAgentID agentID else None) of
              Some e \<Rightarrow> Inl e
            | None \<Rightarrow>
                thenRes (loadEntries kd None {} fmempty es) (\<lambda>byID.
                thenRes (loadPending kd byID None fmempty ps) (\<lambda>pending.
                  if agentID = '''' \<and> (byID \<noteq> fmempty \<or> pending \<noteq> fmempty) then
                    Inl (NewErr ''continuity state without an agent_id binding'')
                  else Inr \<lparr>icAgentID = agentID, icByID = byID, icPending = pending\<rparr>))))))"

text \<open>The checks of \<open>loadConnectorIdentityCacheUnlocked\<close> on the bytes read.\<close>

definition decodeCache :: "keyDeps \<Rightarrow> string \<Rightarrow> identityCache res" where
  "decodeCache kd raw =
     (if \<not> utf8Valid raw then Inl (NewErr ''document is not valid UTF-8'')
      else case parseDocument raw of
        None \<Rightarrow> Inl (NewErr ''invalid JSON'')
      | Some v \<Rightarrow> (case walkValue 0 v of
          Some e \<Rightarrow> Inl e
        | None \<Rightarrow> (case rejectNonCanonicalKeys v of
            Some e \<Rightarrow> Inl e
          | None \<Rightarrow> thenRes (decodeEnvelope v) (checkEnvelope kd))))"

text \<open>The bytes \<open>saveConnectorIdentityCacheUnlocked\<close> writes, or why it refuses.\<close>

definition checkBinding :: "keyDeps \<Rightarrow> identityCache \<Rightarrow> string \<Rightarrow> err option" where
  "checkBinding kd c k = (case fmlookup (icByID c) k of
      None \<Rightarrow> None
    | Some b \<Rightarrow> if ceID b \<noteq> k then Some (NewErr ''map key does not match binding id'')
                else validateCachedConnectorBinding kd b)"

definition checkPending :: "keyDeps \<Rightarrow> identityCache \<Rightarrow> string \<Rightarrow> err option" where
  "checkPending kd c k = (case fmlookup (icPending c) k of
      None \<Rightarrow> None
    | Some r \<Rightarrow> if prID r \<noteq> k then Some (NewErr ''pending map key does not match request id'')
        else (case validateCachedConnectorRequest kd r of
            Some e \<Rightarrow> Some e
          | None \<Rightarrow> if \<not> assertsCached r (fmlookup (icByID c) k) then
                      Some (NewErr ''pending request must assert exact cached CRID'')
                    else None))"

definition encodeCache :: "keyDeps \<Rightarrow> identityCache \<Rightarrow> string res" where
  "encodeCache kd c =
     (case (if icAgentID c \<noteq> '''' then validateCachedAgentID (icAgentID c)
            else if icByID c \<noteq> fmempty \<or> icPending c \<noteq> fmempty then
              Some (NewErr ''continuity state requires an agent_id binding'')
            else None) of
        Some e \<Rightarrow> Inl e
      | None \<Rightarrow> (case firstErr (checkBinding kd c) (keysOfMap (icByID c)) of
          Some e \<Rightarrow> Inl e
        | None \<Rightarrow> (case firstErr (checkPending kd c) (keysOfMap (icPending c)) of
            Some e \<Rightarrow> Inl e
          | None \<Rightarrow>
              (let raw = printValue (envelopeJSON c) in
               if connectorIdentityCacheMaxBytes < length raw then Inl (NewErr ''encoded cache exceeds the cap'')
               else Inr raw))))"

end
