(* ===== verification/Identity_Store.thy ===== *)
theory Identity_Store
  imports Identity_Cache
begin

text \<open>
  The identity cache on disk: the durable write, the load, the transaction lock and the operations that change
  the cache (\<open>cmd/frpc/connector_identity_cache.go\<close>).

  The world holds the state directory and counts system calls; the outcome of the n-th call is
  \<open>cwFaults n\<close>, its random bytes \<open>cwRandom n\<close>. \<open>nsTrace\<close> lists the directory after each change, which is what a
  crash leaves. An operation on the in-memory cache returns its error, the cache and the world. The lock keeps
  other processes out; its own failures are faults. The parts of \<open>pinnedfs\<close> that open and pin the directory are
  one call each.
\<close>

section \<open>System calls\<close>

record cacheWorld =
  cwNs :: namespace
  cwTick :: nat
  cwFaults :: "nat \<Rightarrow> err option"
  cwRandom :: "nat \<Rightarrow> nat list"
  cwShort :: nat          \<comment> \<open>bytes a failing write leaves behind\<close>
  cwCreateMode :: nat     \<comment> \<open>mode of a new file before its chmod\<close>
  cwReadOnly :: bool      \<comment> \<open>\<open>txn.readOnly\<close>\<close>

definition sys :: "cacheWorld \<Rightarrow> err option \<times> cacheWorld" where
  "sys w = (cwFaults w (cwTick w), w\<lparr>cwTick := Suc (cwTick w)\<rparr>)"

definition onDir :: "(namespace \<Rightarrow> namespace) \<Rightarrow> cacheWorld \<Rightarrow> cacheWorld" where
  "onDir f w = w\<lparr>cwNs := f (cwNs w)\<rparr>"

text \<open>A call that does \<open>f\<close> when it succeeds.\<close>

definition sysDo :: "(namespace \<Rightarrow> namespace) \<Rightarrow> cacheWorld \<Rightarrow> err option \<times> cacheWorld" where
  "sysDo f w = (case sys w of (Some x, w) \<Rightarrow> (Some x, w) | (None, w) \<Rightarrow> (None, onDir f w))"

definition validateConnectorIdentityCacheNamespace :: "cacheWorld \<Rightarrow> err option \<times> cacheWorld" where
  "validateConnectorIdentityCacheNamespace w =
     (case sys w of (a, w) \<Rightarrow> (case sys w of (b, w) \<Rightarrow> (errorsJoin [a, b], w)))"

text \<open>\<open>pinnedfs.ValidateRegularFile\<close> with mode 0600.\<close>

definition validateRegular :: "string \<Rightarrow> cacheWorld \<Rightarrow> err option \<times> cacheWorld" where
  "validateRegular name w = (case sys w of
      (Some x, w) \<Rightarrow> (Some x, w)
    | (None, w) \<Rightarrow> (case lookupFile (cwNs w) name of
        None \<Rightarrow> (Some (Errorf ''inspect entry'' errNotExist), w)
      | Some f \<Rightarrow> (if privateFile f then None else Some (NewErr ''unsafe file''), w)))"

text \<open>\<open>Lstat\<close> of an entry: its presence, or an error.\<close>

definition lstatEntry :: "string \<Rightarrow> cacheWorld \<Rightarrow> bool res \<times> cacheWorld" where
  "lstatEntry name w = (case sys w of
      (Some x, w) \<Rightarrow> (Inl x, w)
    | (None, w) \<Rightarrow> (Inr (lookupFile (cwNs w) name \<noteq> None), w))"

definition notExist :: err where "notExist = Sentinel SOsNotExist"

definition openConnectorIdentityCache :: "string \<Rightarrow> cacheWorld \<Rightarrow> err option \<times> cacheWorld" where
  "openConnectorIdentityCache name w = (case validateConnectorIdentityCacheNamespace w of
      (Some x, w) \<Rightarrow> (Some x, w)
    | (None, w) \<Rightarrow> (case sys w of
        (Some x, w) \<Rightarrow> (Some (if errorsIs x SOsNotExist then notExist else x), w)
      | (None, w) \<Rightarrow>
          if lookupFile (cwNs w) name = None then (Some notExist, w)
          else (case validateRegular name w of
              (None, w) \<Rightarrow> (None, w)
            | (Some x, w) \<Rightarrow> (case sys w of (c, w) \<Rightarrow> (errorsJoin [Some x, c], w)))))"

section \<open>Writing\<close>

text \<open>The calls from the chmod of the temporary file to its rename; None says the file is committed.\<close>

definition stageCacheTemp :: "string \<Rightarrow> string \<Rightarrow> string \<Rightarrow> cacheWorld \<Rightarrow> err option \<times> cacheWorld" where
  "stageCacheTemp name tmp raw w =
     (case sysDo (updateFile tmp (\<lambda>f. f\<lparr>fMode := sessionOperationFileMode\<rparr>)) w of
        (Some x, w) \<Rightarrow> (Some (Errorf ''set cache temporary file permissions'' x), w)
      | (None, w) \<Rightarrow> (case sys w of
          (Some x, w) \<Rightarrow>
            (Some (Errorf ''write cache temporary file'' x),
             onDir (updateFile tmp (\<lambda>f. f\<lparr>fData := take (cwShort w) raw\<rparr>)) w)
        | (None, w) \<Rightarrow>
            (let w = onDir (updateFile tmp (\<lambda>f. f\<lparr>fData := raw\<rparr>)) w in
             case sys w of
               (Some x, w) \<Rightarrow> (Some (Errorf ''sync cache temporary file'' x), w)
             | (None, w) \<Rightarrow> (case validateRegular tmp w of
                 (Some x, w) \<Rightarrow> (Some x, w)
               | (None, w) \<Rightarrow> (case sysDo (renameFile tmp name) w of
                   (Some x, w) \<Rightarrow> (Some (Errorf ''commit cache rename'' x), w)
                 | (None, w) \<Rightarrow> (None, w))))))"

text \<open>The deferred cleanup of a file that was not committed.\<close>

definition cleanupCacheTemp :: "string \<Rightarrow> err \<Rightarrow> cacheWorld \<Rightarrow> err option \<times> cacheWorld" where
  "cleanupCacheTemp tmp retErr w =
     (case sys w of (closeErr, w) \<Rightarrow>
      (case (case sys w of
               (Some x, w) \<Rightarrow> (if errorsIs x SOsNotExist then None else Some x, w)
             | (None, w) \<Rightarrow> (None, onDir (\<lambda>ns. commitFiles (AList.delete tmp (nsFiles ns)) ns) w)) of
         (removeErr, w) \<Rightarrow> (case sys w of (syncErr, w) \<Rightarrow>
           (errorsJoin [Some retErr, closeErr, removeErr, syncErr], w))))"

definition commitCache :: "string \<Rightarrow> cacheWorld \<Rightarrow> err option \<times> cacheWorld" where
  "commitCache name w =
     (case validateRegular name w of (validationErr, w) \<Rightarrow> (case sys w of (closeErr, w) \<Rightarrow>
      (case sys w of (syncErr, w) \<Rightarrow> (case validateConnectorIdentityCacheNamespace w of (continuityErr, w) \<Rightarrow>
        (errorsJoin [validationErr, closeErr,
           map_option (Errorf ''cache rename committed but state-directory sync failed'') syncErr, continuityErr], w)))))"

definition cacheTempName :: "string \<Rightarrow> nat list \<Rightarrow> string" where
  "cacheTempName name suffix = CHR ''.'' # name @ temporaryMarker @ hexEncode suffix"

definition writeConnectorIdentityCacheDurable :: "string \<Rightarrow> string \<Rightarrow> cacheWorld \<Rightarrow> err option \<times> cacheWorld" where
  "writeConnectorIdentityCacheDurable name raw w = (case validateConnectorIdentityCacheNamespace w of
      (Some x, w) \<Rightarrow> (Some x, w)
    | (None, w) \<Rightarrow>
        if cwReadOnly w then (Some (NewErr ''cannot mutate a read-only snapshot''), w)
        else (case (case openConnectorIdentityCache name w of
                (None, w) \<Rightarrow> sys w
              | (Some x, w) \<Rightarrow>
                  if errorsIs x SOsNotExist then (None, w) else (Some (Errorf ''open existing cache'' x), w)) of
            (Some x, w) \<Rightarrow> (Some x, w)
          | (None, w) \<Rightarrow> (case sys w of
              (Some x, w) \<Rightarrow> (Some (Errorf ''generate cache temporary name'' x), w)
            | (None, w) \<Rightarrow>
                (let tmp = cacheTempName name (cwRandom w (cwTick w)) in
                 case sys w of
                   (Some x, w) \<Rightarrow> (Some (Errorf ''create cache temporary file'' x), w)
                 | (None, w) \<Rightarrow>
                     if lookupFile (cwNs w) tmp \<noteq> None then
                       (Some (Errorf ''create cache temporary file'' (NewErr ''file exists'')), w)
                     else
                       (let new = \<lparr>fKind = RegularFile, fMode = cwCreateMode w, fOwned = True, fData = []\<rparr>;
                            w = onDir (\<lambda>ns. commitFiles (AList.update tmp new (nsFiles ns)) ns) w in
                        case stageCacheTemp name tmp raw w of
                          (Some x, w) \<Rightarrow> cleanupCacheTemp tmp x w
                        | (None, w) \<Rightarrow> commitCache name w)))))"

definition saveConnectorIdentityCacheUnlocked :: "keyDeps \<Rightarrow> identityCache \<Rightarrow> cacheWorld \<Rightarrow> err option \<times> cacheWorld" where
  "saveConnectorIdentityCacheUnlocked kd c w = (case encodeCache kd c of
      Inl x \<Rightarrow> (Some x, w)
    | Inr raw \<Rightarrow> (case writeConnectorIdentityCacheDurable connectorIdentityCacheFile raw w of
        (Some x, w) \<Rightarrow> (Some (Errorf ''write Connector identity cache'' x), w)
      | (None, w) \<Rightarrow> (None, w)))"

section \<open>Loading\<close>

definition cacheNotFound :: err where
  "cacheNotFound = Errorf ''connector_identities.json'' (Sentinel SIdentityCacheNotFound)"

text \<open>The part between the open and the deferred close.\<close>

definition readCacheFile :: "keyDeps \<Rightarrow> cacheWorld \<Rightarrow> identityCache res \<times> cacheWorld" where
  "readCacheFile kd w = (case lookupFile (cwNs w) connectorIdentityCacheFile of
      None \<Rightarrow> (Inl errNotExist, w)
    | Some f \<Rightarrow>
        if fData f = [] \<or> connectorIdentityCacheMaxBytes < length (fData f) then
          (Inl (NewErr ''Connector identity cache size is out of range''), w)
        else (case sys w of
            (Some x, w) \<Rightarrow> (Inl (Errorf ''read Connector identity cache'' x), w)
          | (None, w) \<Rightarrow> (case validateRegular connectorIdentityCacheFile w of
              (Some x, w) \<Rightarrow> (Inl x, w)
            | (None, w) \<Rightarrow> (decodeCache kd (fData f), w))))"

definition loadConnectorIdentityCacheUnlocked :: "keyDeps \<Rightarrow> cacheWorld \<Rightarrow> identityCache res \<times> cacheWorld" where
  "loadConnectorIdentityCacheUnlocked kd w = (case openConnectorIdentityCache connectorIdentityCacheFile w of
      (Some x, w) \<Rightarrow>
        (Inl (if errorsIs x SOsNotExist then cacheNotFound else Errorf ''inspect Connector identity cache'' x), w)
    | (None, w) \<Rightarrow> (case readCacheFile kd w of (r, w) \<Rightarrow> (case sys w of
        (None, w) \<Rightarrow> (r, w)
      | (Some x, w) \<Rightarrow> (Inl (case r of Inl e \<Rightarrow> the (errorsJoin [Some e, Some x]) | Inr _ \<Rightarrow> the (errorsJoin [Some x])), w))))"

text \<open>\<open>connectorNativeAgentStateExists\<close> and \<open>connectorLegacyIdentityStateExists\<close>.\<close>

definition connectorNativeAgentStateExists :: "cacheWorld \<Rightarrow> bool res \<times> cacheWorld" where
  "connectorNativeAgentStateExists w = (case lstatEntry AgentStateFile w of
      (Inl x, w) \<Rightarrow> (Inl x, w)
    | (Inr True, w) \<Rightarrow> (Inr True, w)
    | (Inr False, w) \<Rightarrow> lstatEntry SealedAgentStateFile w)"

definition rejectLegacyConnectorIdentityStateLocked :: "cacheWorld \<Rightarrow> err option \<times> cacheWorld" where
  "rejectLegacyConnectorIdentityStateLocked w = (case lstatEntry legacyConnectorIdentityFile w of
      (Inl x, w) \<Rightarrow> (Some (Errorf ''inspect legacy Connector identity state'' x), w)
    | (Inr True, w) \<Rightarrow> (Some (NewErr ''legacy identity state found''), w)
    | (Inr False, w) \<Rightarrow> (None, w))"

definition emptyIdentityCache :: identityCache where
  "emptyIdentityCache = \<lparr>icAgentID = '''', icByID = fmempty, icPending = fmempty\<rparr>"

definition hasContinuityState :: "identityCache \<Rightarrow> bool" where
  "hasContinuityState c = (icAgentID c \<noteq> '''' \<or> icByID c \<noteq> fmempty \<or> icPending c \<noteq> fmempty)"

text \<open>\<open>agentstate.ValidateSDKStoreLayout\<close> is one call.\<close>

definition ensureConnectorIdentityCacheInitializedLocked :: "keyDeps \<Rightarrow> cacheWorld \<Rightarrow> err option \<times> cacheWorld" where
  "ensureConnectorIdentityCacheInitializedLocked kd w = (case rejectLegacyConnectorIdentityStateLocked w of
      (Some x, w) \<Rightarrow> (Some x, w)
    | (None, w) \<Rightarrow> (case loadConnectorIdentityCacheUnlocked kd w of
        (Inr cache, w) \<Rightarrow>
          if hasContinuityState cache then
            (case connectorNativeAgentStateExists w of
               (Inl x, w) \<Rightarrow> (Some (Errorf ''inspect native agent state for continuity'' x), w)
             | (Inr False, w) \<Rightarrow> (Some (NewErr ''cache is bound or non-empty but native agent state is missing''), w)
             | (Inr True, w) \<Rightarrow> (None, w))
          else (None, w)
      | (Inl x, w) \<Rightarrow>
          if \<not> errorsIs x SIdentityCacheNotFound then (Some x, w)
          else (case sys w of
              (Some x, w) \<Rightarrow> (Some (Errorf ''validate native agent state'' x), w)
            | (None, w) \<Rightarrow> (case connectorNativeAgentStateExists w of
                (Inl x, w) \<Rightarrow> (Some (Errorf ''inspect native agent state'' x), w)
              | (Inr True, w) \<Rightarrow> (Some (NewErr ''continuity state is missing while native agent state exists''), w)
              | (Inr False, w) \<Rightarrow> saveConnectorIdentityCacheUnlocked kd emptyIdentityCache w))))"

section \<open>The transaction\<close>

definition connectorIdentityNamespaceHasState :: "cacheWorld \<Rightarrow> bool res \<times> cacheWorld" where
  "connectorIdentityNamespaceHasState w =
     (let ask = (\<lambda>name next w. case lstatEntry name w of
            (Inl x, w) \<Rightarrow> (Inl (Errorf ''inspect Connector continuity entry'' x), w)
          | (Inr True, w) \<Rightarrow> (Inr True, w)
          | (Inr False, w) \<Rightarrow> next w)
      in ask connectorIdentityCacheFile (ask legacyConnectorIdentityFile (ask AgentStateFile
           (ask SealedAgentStateFile (Pair (Inr False))))) w)"

text \<open>The lock file after the lock is taken; without one it is created.\<close>

definition takeLock :: "bool \<Rightarrow> cacheWorld \<Rightarrow> err option \<times> cacheWorld" where
  "takeLock lockExists w = (case sys w of
      (Some x, w) \<Rightarrow> (Some (Errorf ''lock Connector identity cache transaction'' x), w)
    | (None, w) \<Rightarrow>
        if lookupFile (cwNs w) connectorIdentityCacheLockFile \<noteq> None then (None, w)
        else if lockExists then
          (Some (Errorf ''lock Connector identity cache transaction'' errNotExist), w)
        else (None, onDir (\<lambda>ns. commitFiles (AList.update connectorIdentityCacheLockFile
          \<lparr>fKind = RegularFile, fMode = sessionOperationFileMode, fOwned = True, fData = []\<rparr> (nsFiles ns)) ns) w))"

text \<open>
  \<open>withConnectorIdentityCacheLockContext\<close> from the token on: tighten and open the directory, refuse a directory
  that has state but no lock, take the lock, check and sync the directory, run the callback, check again; the
  lock and the directory are closed at the end. \<open>d\<close> is what the captured variables hold when the callback did
  not run.
\<close>

definition withConnectorIdentityCacheLock ::
  "'a \<Rightarrow> (cacheWorld \<Rightarrow> ('a \<times> err option) \<times> cacheWorld) \<Rightarrow> cacheWorld \<Rightarrow> ('a \<times> err option) \<times> cacheWorld" where
  "withConnectorIdentityCacheLock d fn w =
     (case sys w of
        (Some x, w) \<Rightarrow> ((d, Some (Errorf ''prepare namespace'' x)), w)
      | (None, w) \<Rightarrow> (case sys w of
          (Some x, w) \<Rightarrow> ((d, Some (Errorf ''open namespace'' x)), w)
        | (None, w) \<Rightarrow>
            (let closing = (\<lambda>v e w. case sys w of (c, w) \<Rightarrow> ((v, errorsJoin [e, c]), w)) in
             case lstatEntry connectorIdentityCacheLockFile w of
               (Inl x, w) \<Rightarrow> closing d (Some (Errorf ''inspect lock'' x)) w
             | (Inr lockExists, w) \<Rightarrow>
                 (case (if lockExists then (None, w)
                        else (case connectorIdentityNamespaceHasState w of
                            (Inl x, w) \<Rightarrow> (Some x, w)
                          | (Inr True, w) \<Rightarrow> (Some (NewErr ''continuity state is missing its lock''), w)
                          | (Inr False, w) \<Rightarrow> (None, w))) of
                    (Some x, w) \<Rightarrow> closing d (Some x) w
                  | (None, w) \<Rightarrow> (case takeLock lockExists w of
                      (Some x, w) \<Rightarrow> closing d (Some x) w
                    | (None, w) \<Rightarrow>
                        (case (case validateConnectorIdentityCacheNamespace w of
                                 (Some x, w) \<Rightarrow> ((d, Some x), w)
                               | (None, w) \<Rightarrow> (case sys w of
                                   (Some x, w) \<Rightarrow> ((d, Some (Errorf ''establish cache retry durability'' x)), w)
                                 | (None, w) \<Rightarrow> (case fn w of ((v, e), w) \<Rightarrow>
                                     (case validateConnectorIdentityCacheNamespace w of
                                        (e', w) \<Rightarrow> ((v, errorsJoin [e, e']), w))))) of
                           ((v, e), w) \<Rightarrow> (case sys w of (lockErr, w) \<Rightarrow>
                             closing v (errorsJoin [e, lockErr]) w)))))))"

section \<open>Operations on the cache\<close>

type_synonym cacheOp = "err option \<times> identityCache \<times> cacheWorld"

definition isPending :: "string \<Rightarrow> identityCache \<Rightarrow> bool" where
  "isPending i c = (fmlookup (icPending c) i \<noteq> None)"

definition bindAgentIDLocked :: "keyDeps \<Rightarrow> string \<Rightarrow> identityCache \<Rightarrow> cacheWorld \<Rightarrow> cacheOp" where
  "bindAgentIDLocked kd agentID c w = (case validateCachedAgentID agentID of
      Some x \<Rightarrow> (Some x, c, w)
    | None \<Rightarrow>
        if icAgentID c = agentID then (None, c, w)
        else if icAgentID c \<noteq> '''' then (Some (NewErr ''refusing cross-device resource reuse''), c, w)
        else if icByID c \<noteq> fmempty \<or> icPending c \<noteq> fmempty then
          (Some (NewErr ''unbound Connector identity cache contains continuity state''), c, w)
        else (case saveConnectorIdentityCacheUnlocked kd (c\<lparr>icAgentID := agentID\<rparr>) w of
            (Some x, w) \<Rightarrow> (Some x, c, w)
          | (None, w) \<Rightarrow> (None, c\<lparr>icAgentID := agentID\<rparr>, w)))"

text \<open>\<open>qurl.NativeConnectorResourceRequest\<close>.\<close>

record resourceRequest =
  rqConnectorID :: string
  rqExpectedCRID :: string
  rqNonce :: string

definition requestOf :: "pendingRequest \<Rightarrow> resourceRequest" where
  "requestOf p = \<lparr>rqConnectorID = prID p,
     rqExpectedCRID = (case prExpectedCRID p of Some s \<Rightarrow> s | None \<Rightarrow> ''''), rqNonce = prRequestNonce p\<rparr>"

text \<open>\<open>qurl.NewNativeConnectorResourceRequest\<close> draws the nonce; it is the parameter \<open>newRequest\<close>.\<close>

definition ensurePendingRequestLocked ::
  "keyDeps \<Rightarrow> (string \<Rightarrow> string \<Rightarrow> nat \<Rightarrow> resourceRequest res) \<Rightarrow> string \<Rightarrow> string \<Rightarrow> identityCache \<Rightarrow> cacheWorld \<Rightarrow>
   resourceRequest res \<times> identityCache \<times> cacheWorld" where
  "ensurePendingRequestLocked kd newRequest i expectedCRID c w =
     (if icAgentID c = '''' then (Inl (NewErr ''cache must be bound to an agent_id''), c, w)
      else case ValidateSlug i of
        Some x \<Rightarrow> (Inl x, c, w)
      | None \<Rightarrow> (case fmlookup (icPending c) i of
          Some p \<Rightarrow>
            (let got = (case prExpectedCRID p of Some s \<Rightarrow> s | None \<Rightarrow> '''') in
             if got \<noteq> expectedCRID then (Inl (NewErr ''pending request expected another CRID''), c, w)
             else (Inr \<lparr>rqConnectorID = i, rqExpectedCRID = got, rqNonce = prRequestNonce p\<rparr>, c, w))
        | None \<Rightarrow>
            (if (case fmlookup (icByID c) i of Some b \<Rightarrow> expectedCRID \<noteq> ceCRID b | None \<Rightarrow> False) then
               (Inl (NewErr ''pending continuity request must assert cached CRID''), c, w)
             else (case newRequest i expectedCRID (cwTick w) of
                 Inl x \<Rightarrow> (Inl x, c, w)
               | Inr request \<Rightarrow>
                   (let p = \<lparr>prID = i, prRequestNonce = rqNonce request,
                          prExpectedCRID = (if expectedCRID \<noteq> '''' then Some expectedCRID else None)\<rparr>;
                        c' = c\<lparr>icPending := fmupd i p (icPending c)\<rparr> in
                    case saveConnectorIdentityCacheUnlocked kd c' w of
                      (Some x, w) \<Rightarrow> (Inl x, c'\<lparr>icPending := fmdrop i (icPending c')\<rparr>, w)
                    | (None, w) \<Rightarrow> (Inr request, c', w))))))"

definition clearPendingLocked :: "keyDeps \<Rightarrow> string \<Rightarrow> identityCache \<Rightarrow> cacheWorld \<Rightarrow> cacheOp" where
  "clearPendingLocked kd i c w = (case fmlookup (icPending c) i of
      None \<Rightarrow> (None, c, w)
    | Some request \<Rightarrow>
        (let c' = c\<lparr>icPending := fmdrop i (icPending c)\<rparr> in
         case saveConnectorIdentityCacheUnlocked kd c' w of
           (Some x, w) \<Rightarrow> (Some x, c'\<lparr>icPending := fmupd i request (icPending c')\<rparr>, w)
         | (None, w) \<Rightarrow> (None, c', w)))"

definition bindingOf :: "string \<Rightarrow> ConnectorResource \<Rightarrow> cacheEntry" where
  "bindingOf i r = \<lparr>ceID = i, ceResourcePublicKey = crResourcePublicKey r, ceCRID = crCRID r,
     ceConnectorRoutingID = crConnectorRoutingID r, ceKnockResourceID = crKnockResourceID r\<rparr>"

text \<open>Why an existing binding refuses a new one.\<close>

definition bindingConflict :: "cacheEntry \<Rightarrow> cacheEntry \<Rightarrow> err option" where
  "bindingConflict existing b =
     (if ceResourcePublicKey existing \<noteq> ceResourcePublicKey b then Some (NewErr ''cached with another resource_public_key'')
      else if ceConnectorRoutingID existing \<noteq> ceConnectorRoutingID b \<or> ceKnockResourceID existing \<noteq> ceKnockResourceID b
        then Some (NewErr ''changed routing or knock binding'')
      else if ceCRID existing \<noteq> ceCRID b then Some (NewErr ''changed CRID'')
      else None)"

definition keyOwnedElsewhere :: "string \<Rightarrow> string \<Rightarrow> identityCache \<Rightarrow> bool" where
  "keyOwnedElsewhere i pk c = list_ex (\<lambda>e. ceResourcePublicKey e = pk)
     (List.map_filter (\<lambda>k. if k = i then None else fmlookup (icByID c) k) (keysOfMap (icByID c)))"

definition putBinding :: "string \<Rightarrow> cacheEntry \<Rightarrow> identityCache \<Rightarrow> identityCache" where
  "putBinding i b c = c\<lparr>icByID := fmupd i b (icByID c), icPending := fmdrop i (icPending c)\<rparr>"

text \<open>A map entry put back after a failed save: an old value is stored again, an absent one is left out.\<close>

definition restoreAt :: "string \<Rightarrow> 'a option \<Rightarrow> (string, 'a) fmap \<Rightarrow> (string, 'a) fmap" where
  "restoreAt i old m = (case old of Some v \<Rightarrow> fmupd i v m | None \<Rightarrow> fmdrop i m)"

definition recordResolutionLocked ::
  "keyDeps \<Rightarrow> string \<Rightarrow> ConnectorResource option \<Rightarrow> identityCache \<Rightarrow> cacheWorld \<Rightarrow> cacheOp" where
  "recordResolutionLocked kd i resource c w = (case resource of
      None \<Rightarrow> (Some (NewErr ''Connector resource resolution is nil''), c, w)
    | Some r \<Rightarrow>
        if icAgentID c = '''' then (Some (NewErr ''cache must be bound to an agent_id''), c, w)
        else if crSlug r \<noteq> i then (Some (NewErr ''cannot record resource binding for another id''), c, w)
        else
          (let b = bindingOf i r in
           case validateCachedConnectorBinding kd b of
             Some x \<Rightarrow> (Some x, c, w)
           | None \<Rightarrow>
               (case (case fmlookup (icByID c) i of None \<Rightarrow> None | Some existing \<Rightarrow> bindingConflict existing b) of
                  Some x \<Rightarrow> (Some x, c, w)
                | None \<Rightarrow>
                    if fmlookup (icByID c) i = Some b \<and> \<not> isPending i c then (None, c, w)
                    else if keyOwnedElsewhere i (ceResourcePublicKey b) c then
                      (Some (NewErr ''resource_public_key is already cached for another id''), c, w)
                    else
                      (let c' = putBinding i b c in
                       case saveConnectorIdentityCacheUnlocked kd c' w of
                         (Some x, w) \<Rightarrow>
                           (Some x, c'\<lparr>icByID := restoreAt i (fmlookup (icByID c) i) (icByID c'),
                                       icPending := restoreAt i (fmlookup (icPending c) i) (icPending c')\<rparr>, w)
                       | (None, w) \<Rightarrow> (None, c', w)))))"

definition removeLocked :: "keyDeps \<Rightarrow> string \<Rightarrow> identityCache \<Rightarrow> cacheWorld \<Rightarrow> cacheOp" where
  "removeLocked kd i c w =
     (if fmlookup (icByID c) i = None \<and> fmlookup (icPending c) i = None then (None, c, w)
      else
        (let c' = c\<lparr>icByID := fmdrop i (icByID c), icPending := fmdrop i (icPending c)\<rparr> in
         case saveConnectorIdentityCacheUnlocked kd c' w of
           (None, w) \<Rightarrow> (None, c', w)
         | (Some x, w) \<Rightarrow>
             (let c = c'\<lparr>icByID := restoreAt i (fmlookup (icByID c) i) (icByID c'),
                         icPending := restoreAt i (fmlookup (icPending c) i) (icPending c')\<rparr> in
              case saveConnectorIdentityCacheUnlocked kd c w of
                (recoveryErr, w) \<Rightarrow>
                  (errorsJoin [Some x, map_option (Errorf ''restore Connector identity after failed prune'') recoveryErr],
                   c, w))))"

end
