(* ===== verification/Identity_Cache_Props.thy ===== *)
theory Identity_Cache_Props
  imports Identity_Cache Config_Text_Props
begin

text \<open>
  The document format of the identity cache: what the reader accepts is a valid cache, and a valid cache is
  written and read back unchanged.
\<close>

section \<open>Valid caches\<close>

definition ownersDistinct :: "(string, cacheEntry) fmap \<Rightarrow> bool" where
  "ownersDistinct m = (\<forall>k l d e. fmlookup m k = Some d \<longrightarrow> fmlookup m l = Some e \<longrightarrow>
     ceResourcePublicKey d = ceResourcePublicKey e \<longrightarrow> k = l)"

definition validBindings :: "keyDeps \<Rightarrow> (string, cacheEntry) fmap \<Rightarrow> bool" where
  "validBindings kd m = (\<forall>k e. fmlookup m k = Some e \<longrightarrow> ceID e = k \<and> validateCachedConnectorBinding kd e = None)"

definition validPending :: "keyDeps \<Rightarrow> (string, cacheEntry) fmap \<Rightarrow> (string, pendingRequest) fmap \<Rightarrow> bool" where
  "validPending kd m p = (\<forall>k r. fmlookup p k = Some r \<longrightarrow> prID r = k \<and>
     validateCachedConnectorRequest kd r = None \<and> assertsCached r (fmlookup m k))"

definition validAgent :: "identityCache \<Rightarrow> bool" where
  "validAgent c = (if icAgentID c = '''' then icByID c = fmempty \<and> icPending c = fmempty
                   else validateCachedAgentID (icAgentID c) = None)"

definition validCache :: "keyDeps \<Rightarrow> identityCache \<Rightarrow> bool" where
  "validCache kd c = (validAgent c \<and> validBindings kd (icByID c) \<and> ownersDistinct (icByID c) \<and>
     validPending kd (icByID c) (icPending c))"

text \<open>The CRIDs qurl-go accepts are text.\<close>

definition deps_ok :: "keyDeps \<Rightarrow> bool" where
  "deps_ok kd = (\<forall>s. (kdCridValidate kd s = None \<longrightarrow> utf8Valid s) \<and>
     (\<forall>der. kdKeyMatches kd s der = Inr True \<longrightarrow> utf8Valid s))"

text \<open>A library that takes every text, as an example.\<close>

definition exampleDeps :: keyDeps where
  "exampleDeps = \<lparr>kdCridValidate = (\<lambda>s. if utf8Valid s then None else Some (NewErr ''crid'')),
     kdKeyMatches = (\<lambda>s der. Inr (utf8Valid s)), kdParseKey = (\<lambda>der. Inr ''key''), kdMarshalKey = (\<lambda>s. Inr [1, 2, 3])\<rparr>"

lemma example_deps: "deps_ok exampleDeps"
  by (simp add: deps_ok_def exampleDeps_def)

section \<open>Values of a map in the order of the keys\<close>

lemma keysOf_props [simp]: "set (keysOfMap m) = fset (fmdom m)" "distinct (keysOfMap m)" "sorted (keysOfMap m)"
  by (simp_all add: keysOfMap_def sorted_list_of_fset.rep_eq)

lemma firstErr_None: "firstErr f xs = None \<longleftrightarrow> (\<forall>x \<in> set xs. f x = None)"
proof -
  have "firstErr f xs = None \<longleftrightarrow> List.map_filter f xs = []" by (simp add: firstErr_def split: list.splits)
  also have "\<dots> \<longleftrightarrow> (\<forall>x \<in> set xs. f x = None)" by (auto simp: List.map_filter_def filter_empty_conv)
  finally show ?thesis .
qed

lemma valuesOf_map:
  assumes "\<And>k v. fmlookup m k = Some v \<Longrightarrow> f v = k"
  shows "map f (valuesOf m) = keysOfMap m"
proof -
  have "map f (List.map_filter (fmlookup m) ks) = ks" if "set ks \<subseteq> fset (fmdom m)" for ks
    using that
  proof (induction ks)
    case (Cons k ks)
    then obtain v where "fmlookup m k = Some v" by (auto simp: fmlookup_dom_iff)
    with Cons assms show ?case by (simp add: List.map_filter_def)
  qed (simp add: List.map_filter_def)
  then show ?thesis by (simp add: valuesOf_def)
qed

lemma set_map_filter: "set (List.map_filter f xs) = {y. \<exists>x \<in> set xs. f x = Some y}"
  by (induction xs) (auto split: option.splits)

lemma valuesOf_set: "v \<in> set (valuesOf m) \<longleftrightarrow> (\<exists>k. fmlookup m k = Some v)"
  by (auto simp: valuesOf_def set_map_filter intro: fmdomI)

lemma fold_fmupd_lookup:
  "distinct (map f vs) \<Longrightarrow>
     fmlookup (fold (\<lambda>v. fmupd (f v) v) vs m) k =
       (case List.find (\<lambda>v. f v = k) vs of Some v \<Rightarrow> Some v | None \<Rightarrow> fmlookup m k)"
proof (induction vs arbitrary: m)
  case (Cons v vs)
  have "f v = k \<Longrightarrow> List.find (\<lambda>v. f v = k) vs = None"
  proof -
    assume "f v = k"
    then have "\<And>x. x \<in> set vs \<Longrightarrow> f x \<noteq> k" using Cons.prems by (metis distinct.simps(2) imageI list.set_map list.simps(9))
    then show ?thesis by (simp add: find_None_iff)
  qed
  with Cons show ?case by (auto split: option.splits)
qed simp

lemma fold_fmupd_values:
  assumes "\<And>k v. fmlookup m k = Some v \<Longrightarrow> f v = k"
  shows "fold (\<lambda>v. fmupd (f v) v) (valuesOf m) fmempty = m"
proof (rule fmap_ext)
  fix k
  have d: "distinct (map f (valuesOf m))" using valuesOf_map [where f = f and m = m] assms by simp
  show "fmlookup (fold (\<lambda>v. fmupd (f v) v) (valuesOf m) fmempty) k = fmlookup m k"
  proof (cases "fmlookup m k")
    case None
    then have "List.find (\<lambda>v. f v = k) (valuesOf m) = None"
      using assms by (auto simp: find_None_iff valuesOf_set)
    then show ?thesis using None d by (simp add: fold_fmupd_lookup)
  next
    case (Some v)
    then have "List.find (\<lambda>v. f v = k) (valuesOf m) \<noteq> None"
      using assms [OF Some] by (auto simp: find_None_iff valuesOf_set)
    then obtain w where w: "List.find (\<lambda>v. f v = k) (valuesOf m) = Some w" by blast
    then have "w \<in> set (valuesOf m)" "f w = k" by (auto simp: find_Some_iff)
    then have "fmlookup m k = Some w" using assms by (auto simp: valuesOf_set)
    then show ?thesis using w d by (simp add: fold_fmupd_lookup)
  qed
qed

section \<open>Load accepts valid caches only\<close>

lemma loadEntries_valid:
  assumes "loadEntries kd prev owners m es = Inr m'"
    and "validBindings kd m" "ownersDistinct m" "\<And>k e. fmlookup m k = Some e \<Longrightarrow> ceResourcePublicKey e \<in> owners"
  shows "validBindings kd m' \<and> ownersDistinct m'"
  using assms
proof (induction kd prev owners m es rule: loadEntries.induct)
  case (2 kd previous owners m e es)
  then have e: "validateCachedConnectorBinding kd e = None" "fmlookup m (ceID e) = None"
      "ceResourcePublicKey e \<notin> owners"
    and r: "loadEntries kd (Some (ceID e)) (insert (ceResourcePublicKey e) owners) (fmupd (ceID e) e m) es = Inr m'"
    by (auto split: option.splits if_splits)
  have "validBindings kd (fmupd (ceID e) e m)" using "2.prems"(2) e(1) by (auto simp: validBindings_def)
  moreover have "ownersDistinct (fmupd (ceID e) e m)"
    unfolding ownersDistinct_def
  proof (intro allI impI)
    fix k l d d'
    assume "fmlookup (fmupd (ceID e) e m) k = Some d" "fmlookup (fmupd (ceID e) e m) l = Some d'"
      "ceResourcePublicKey d = ceResourcePublicKey d'"
    then show "k = l" using "2.prems"(3,4) e(3) unfolding ownersDistinct_def
      by (cases "k = ceID e"; cases "l = ceID e") force+
  qed
  moreover have "\<And>k d. fmlookup (fmupd (ceID e) e m) k = Some d \<Longrightarrow>
      ceResourcePublicKey d \<in> insert (ceResourcePublicKey e) owners"
    using "2.prems"(4) by (auto split: if_splits)
  moreover have "\<not> (case previous of None \<Rightarrow> False | Some p \<Rightarrow> ceID e \<le> p)"
    using "2.prems"(1) by (auto split: option.splits if_splits)
  ultimately show ?case using e r by (intro "2.IH") simp_all
qed simp

lemma loadPending_valid:
  assumes "loadPending kd m prev p rs = Inr p'" "validPending kd m p"
  shows "validPending kd m p'"
  using assms
proof (induction kd m prev p rs rule: loadPending.induct)
  case (2 kd m previous p r rs)
  then have r: "validateCachedConnectorRequest kd r = None" "assertsCached r (fmlookup m (prID r))"
    by (auto split: option.splits if_splits)
  then have "validPending kd m (fmupd (prID r) r p)" using "2.prems"(2) by (auto simp: validPending_def)
  then show ?case using 2 by (auto split: option.splits if_splits)
qed simp

lemma thenRes_Inr: "thenRes r f = Inr b \<longleftrightarrow> (\<exists>a. r = Inr a \<and> f a = Inr b)"
  by (cases r) (simp_all add: thenRes_def)

lemma checkEnvelope_valid:
  assumes "checkEnvelope kd ev = Inr c"
  shows "validCache kd c"
proof -
  obtain a es ps byID pending where ev: "evAgentID ev = Some a" "evIdentities ev = Some es" "evPending ev = Some ps"
    and a: "(if a \<noteq> '''' then validateCachedAgentID a else None) = None"
    and l: "loadEntries kd None {} fmempty es = Inr byID" "loadPending kd byID None fmempty ps = Inr pending"
    and u: "\<not> (a = '''' \<and> (byID \<noteq> fmempty \<or> pending \<noteq> fmempty))"
    and c: "c = \<lparr>icAgentID = a, icByID = byID, icPending = pending\<rparr>"
    using assms unfolding checkEnvelope_def
    by (auto simp: thenRes_Inr split: if_splits option.splits)
  have "validBindings kd byID \<and> ownersDistinct byID"
    by (rule loadEntries_valid [OF l(1)]) (simp_all add: validBindings_def ownersDistinct_def)
  moreover have "validPending kd byID pending"
    by (rule loadPending_valid [OF l(2)]) (simp add: validPending_def)
  ultimately show ?thesis using a u c by (auto simp: validCache_def validAgent_def split: if_splits)
qed

lemma decode_valid: "decodeCache kd raw = Inr c \<Longrightarrow> validCache kd c"
  by (auto simp: decodeCache_def thenRes_Inr split: if_splits option.splits intro: checkEnvelope_valid)


section \<open>Saved caches are read back\<close>

lemma list_res_id: "(\<And>x. f (g x) = Inr x) \<Longrightarrow> decodeAll f (map g xs) = Inr xs"
  by (induction xs) (simp_all add: thenRes_def)

lemma member_simps [simp]:
  "map_of ((k, v) # ms) k' = (if k' = k then Some v else map_of ms k')"
  by simp

lemma decodeEntry_JSON: "decodeEntry (entryJSON e) = Inr e"
  by (simp add: decodeEntry_def entryJSON_def rawMembers_def thenRes_def stringField_def)

lemma decodeRequest_JSON: "decodeRequest (requestJSON r) = Inr r"
  by (cases "prExpectedCRID r")
     (simp_all add: decodeRequest_def requestJSON_def rawMembers_def thenRes_def stringField_def
       stringPtrField_def optionalMember_def)

lemma decodeEnvelope_JSON:
  "decodeEnvelope (envelopeJSON c) = Inr \<lparr>evVersion = connectorIdentityCacheVersion, evAgentID = Some (icAgentID c),
     evIdentities = Some (valuesOf (icByID c)), evPending = Some (valuesOf (icPending c))\<rparr>"
proof -
  have "readInt64 (fmtInt 3) = Some (3, [])"
    using readInt64_fmtInt [of "[]" 3] by (simp add: maxInt64_def)
  then show ?thesis
    by (simp add: decodeEnvelope_def envelopeJSON_def rawMembers_def rawElements_def thenRes_def intField_def
        stringPtrField_def sliceField_def connectorIdentityCacheVersion_def
        list_res_id [of decodeEntry, OF decodeEntry_JSON] list_res_id [of decodeRequest, OF decodeRequest_JSON])
qed

lemma walk_entries: "walkElements 2 (map entryJSON es) = None" "walkElements 2 (map requestJSON rs) = None"
proof -
  have e: "walkValue 2 (entryJSON e) = None" for e
    by (simp add: entryJSON_def connectorIdentityCacheMaxJSONDepth_def)
  have r: "walkValue 2 (requestJSON r) = None" for r
    by (cases "prExpectedCRID r")
       (simp_all add: requestJSON_def optionalMember_def connectorIdentityCacheMaxJSONDepth_def)
  show "walkElements 2 (map entryJSON es) = None"
    by (induction es) (simp_all add: e del: walkValue.simps)
  show "walkElements 2 (map requestJSON rs) = None"
    by (induction rs) (simp_all add: r del: walkValue.simps)
qed

lemma walk_envelope: "walkValue 0 (envelopeJSON c) = None"
  using walk_entries(1) [of "valuesOf (icByID c)"] walk_entries(2) [of "valuesOf (icPending c)"]
  by (simp add: envelopeJSON_def connectorIdentityCacheMaxJSONDepth_def numeral_2_eq_2)

lemma canonical_envelope: "rejectNonCanonicalKeys (envelopeJSON c) = None"
proof -
  have e: "checkObject [''id'', ''resource_public_key'', ''crid'', ''connector_routing_id'', ''knock_resource_id'']
      ''crid'' (entryJSON e) = None" for e
    by (simp add: checkObject_def rawMembers_def entryJSON_def)
  have r: "checkObject [''id'', ''request_nonce'', ''expected_crid''] ''expected_crid'' (requestJSON r) = None" for r
    by (cases "prExpectedCRID r")
       (simp_all add: checkObject_def rawMembers_def requestJSON_def optionalMember_def)
  have "firstErr (checkObject [''id'', ''resource_public_key'', ''crid'', ''connector_routing_id'',
      ''knock_resource_id''] ''crid'') (map entryJSON es) = None" for es
    by (simp add: firstErr_None e)
  moreover have "firstErr (checkObject [''id'', ''request_nonce'', ''expected_crid''] ''expected_crid'')
      (map requestJSON rs) = None" for rs
    by (simp add: firstErr_None r)
  ultimately show ?thesis
    by (simp add: rejectNonCanonicalKeys_def rawMembers_def envelopeJSON_def checkElements_def rawElements_def)
qed

lemma first_keys:
  "firstErr (\<lambda>k. case fmlookup m k of None \<Rightarrow> None | Some b \<Rightarrow> g k b) (keysOfMap m) = None \<longleftrightarrow>
     (\<forall>k b. fmlookup m k = Some b \<longrightarrow> g k b = None)"
proof -
  have "(\<forall>k \<in> fset (fmdom m). (case fmlookup m k of None \<Rightarrow> None | Some b \<Rightarrow> g k b) = None) \<longleftrightarrow>
      (\<forall>k b. fmlookup m k = Some b \<longrightarrow> g k b = None)"
  proof (intro iffI allI impI ballI)
    fix k b
    assume a: "\<forall>k \<in> fset (fmdom m). (case fmlookup m k of None \<Rightarrow> None | Some b \<Rightarrow> g k b) = None"
      and k: "fmlookup m k = Some b"
    from k have "k \<in> fset (fmdom m)" by (rule fmdomI)
    from bspec [OF a this] k show "g k b = None" by simp
  next
    fix k
    assume "\<forall>k b. fmlookup m k = Some b \<longrightarrow> g k b = None"
    then show "(case fmlookup m k of None \<Rightarrow> None | Some b \<Rightarrow> g k b) = None" by (simp split: option.split)
  qed
  then show ?thesis unfolding firstErr_None keysOf_props .
qed

lemma firstErr_keys:
  "firstErr (checkBinding kd c) (keysOfMap (icByID c)) = None \<longleftrightarrow> validBindings kd (icByID c)"
  "firstErr (checkPending kd c) (keysOfMap (icPending c)) = None \<longleftrightarrow> validPending kd (icByID c) (icPending c)"
proof -
  show "firstErr (checkBinding kd c) (keysOfMap (icByID c)) = None \<longleftrightarrow> validBindings kd (icByID c)"
    unfolding checkBinding_def [abs_def] first_keys validBindings_def by auto
  show "firstErr (checkPending kd c) (keysOfMap (icPending c)) = None \<longleftrightarrow> validPending kd (icByID c) (icPending c)"
  proof -
    have "(if prID r \<noteq> k then Some (NewErr m)
        else (case validateCachedConnectorRequest kd r of
            Some e \<Rightarrow> Some e
          | None \<Rightarrow> if \<not> assertsCached r (fmlookup (icByID c) k) then Some (NewErr m') else None)) = None \<longleftrightarrow>
        prID r = k \<and> validateCachedConnectorRequest kd r = None \<and> assertsCached r (fmlookup (icByID c) k)" for k r m m'
      by (simp split: option.split)
    then show ?thesis unfolding checkPending_def [abs_def] first_keys validPending_def by (simp only:)
  qed
qed


lemma loadEntries_ok:
  assumes "\<forall>e \<in> set es. validateCachedConnectorBinding kd e = None" "sorted_wrt (<) (map ceID es)"
    "\<forall>e \<in> set es. fmlookup m (ceID e) = None" "\<forall>p e. prev = Some p \<longrightarrow> e \<in> set es \<longrightarrow> p < ceID e"
    "distinct (map ceResourcePublicKey es)" "\<forall>e \<in> set es. ceResourcePublicKey e \<notin> owners"
  shows "loadEntries kd prev owners m es = Inr (fold (\<lambda>e. fmupd (ceID e) e) es m)"
  using assms
proof (induction es arbitrary: prev owners m)
  case (Cons e es)
  have "\<not> (case prev of None \<Rightarrow> False | Some p \<Rightarrow> ceID e \<le> p)"
    using Cons.prems(4) by (auto split: option.split simp: not_le)
  moreover have "loadEntries kd (Some (ceID e)) (insert (ceResourcePublicKey e) owners) (fmupd (ceID e) e m) es =
      Inr (fold (\<lambda>e. fmupd (ceID e) e) es (fmupd (ceID e) e m))"
  proof (rule Cons.IH)
    show "\<forall>d \<in> set es. fmlookup (fmupd (ceID e) e m) (ceID d) = None"
      using Cons.prems(2,3) by fastforce
    show "\<forall>d \<in> set es. ceResourcePublicKey d \<notin> insert (ceResourcePublicKey e) owners"
      using Cons.prems(5,6) by (auto simp: image_iff)
  qed (use Cons.prems in auto)
  ultimately show ?case using Cons.prems by simp
qed simp

lemma loadPending_ok:
  assumes "\<forall>r \<in> set rs. validateCachedConnectorRequest kd r = None \<and> assertsCached r (fmlookup b (prID r))"
    "sorted_wrt (<) (map prID rs)" "\<forall>r \<in> set rs. fmlookup m (prID r) = None"
    "\<forall>p r. prev = Some p \<longrightarrow> r \<in> set rs \<longrightarrow> p < prID r"
  shows "loadPending kd b prev m rs = Inr (fold (\<lambda>r. fmupd (prID r) r) rs m)"
  using assms
proof (induction rs arbitrary: prev m)
  case (Cons r rs)
  have "\<not> (case prev of None \<Rightarrow> False | Some p \<Rightarrow> prID r \<le> p)"
    using Cons.prems(4) by (auto split: option.split simp: not_le)
  moreover have "loadPending kd b (Some (prID r)) (fmupd (prID r) r m) rs =
      Inr (fold (\<lambda>r. fmupd (prID r) r) rs (fmupd (prID r) r m))"
  proof (rule Cons.IH)
    show "\<forall>d \<in> set rs. fmlookup (fmupd (prID r) r m) (prID d) = None"
      using Cons.prems(2,3) by fastforce
  qed (use Cons.prems in auto)
  ultimately show ?case using Cons.prems by simp
qed simp

lemma sorted_keys: "sorted_wrt (<) (keysOfMap m)" for m :: "(string, 'a) fmap"
  using strict_sorted_iff [of "keysOfMap m"] by simp

lemma owners_values:
  assumes "validBindings kd m" "ownersDistinct m"
  shows "distinct (map ceResourcePublicKey (valuesOf m))"
proof -
  have ids: "map ceID (valuesOf m) = keysOfMap m" 
    by (rule valuesOf_map) (use assms(1) in \<open>auto simp: validBindings_def\<close>)
  have "inj_on ceResourcePublicKey (set (valuesOf m))"
  proof (rule inj_onI)
    fix d e
    assume "d \<in> set (valuesOf m)" "e \<in> set (valuesOf m)" "ceResourcePublicKey d = ceResourcePublicKey e"
    then obtain k l where "fmlookup m k = Some d" "fmlookup m l = Some e" "k = l"
      using assms(2) unfolding valuesOf_set ownersDistinct_def by blast
    then show "d = e" by simp
  qed
  moreover have "distinct (valuesOf m)" using ids keysOf_props(2) [of m] by (metis distinct_map)
  ultimately show ?thesis by (simp add: distinct_map)
qed

lemma checkEnvelope_ok:
  assumes "validCache kd c"
  shows "checkEnvelope kd \<lparr>evVersion = connectorIdentityCacheVersion, evAgentID = Some (icAgentID c),
     evIdentities = Some (valuesOf (icByID c)), evPending = Some (valuesOf (icPending c))\<rparr> = Inr c"
proof -
  have b: "validBindings kd (icByID c)" "ownersDistinct (icByID c)" "validPending kd (icByID c) (icPending c)" "validAgent c"
    using assms by (auto simp: validCache_def)
  have ids: "\<And>k e. fmlookup (icByID c) k = Some e \<Longrightarrow> ceID e = k" "\<And>k r. fmlookup (icPending c) k = Some r \<Longrightarrow> prID r = k"
    using b by (auto simp: validBindings_def validPending_def)
  have "loadEntries kd None {} fmempty (valuesOf (icByID c)) =
      Inr (fold (\<lambda>e. fmupd (ceID e) e) (valuesOf (icByID c)) fmempty)"
    using valuesOf_map [of "icByID c" ceID, OF ids(1)] sorted_keys owners_values [OF b(1,2)] b(1)
    by (intro loadEntries_ok) (auto simp: validBindings_def valuesOf_set)
  moreover have "loadPending kd (icByID c) None fmempty (valuesOf (icPending c)) =
      Inr (fold (\<lambda>r. fmupd (prID r) r) (valuesOf (icPending c)) fmempty)"
    using valuesOf_map [of "icPending c" prID, OF ids(2)] sorted_keys b(3)
    by (intro loadPending_ok) (auto simp: validPending_def valuesOf_set)
  ultimately show ?thesis
    using fold_fmupd_values [of "icByID c" ceID, OF ids(1)] fold_fmupd_values [of "icPending c" prID, OF ids(2)] b(4)
    by (auto simp: checkEnvelope_def thenRes_def validAgent_def split: if_splits)
qed

section \<open>Text of the fields\<close>

lemma slug_chars: "slugPattern s \<Longrightarrow> list_all slugMiddle s"
proof -
  assume s: "slugPattern s"
  then obtain c m d where "s = c # m @ [d]"
    by (metis append_butlast_last_id butlast.simps(2) length_Cons list.exhaust list.size(3) not_numeral_le_zero
        slugPattern_def numeral_le_one_iff semiring_norm(70) One_nat_def)
  then show ?thesis using s by (auto simp: slugPattern_def slugMiddle_def isLowerAlnum_def)
qed

lemma slug_utf8: "slugPattern s \<Longrightarrow> utf8Valid s"
proof -
  assume "slugPattern s"
  then have "list_all (\<lambda>c. byteOf c < 128) s"
    using slug_chars by (fastforce simp: list_all_iff slugMiddle_def char_classes)
  then show ?thesis by (rule utf8_ascii)
qed

lemma b64_ascii: "list_all (\<lambda>b. b < 256) bs \<Longrightarrow> list_all (\<lambda>c. byteOf c < 128) (b64Encode bs)"
proof -
  have "list_all (\<lambda>n. byteOf (b64Char n) < 128) [0..<64]" by code_simp
  then have c: "byteOf (b64Char n) < 128" if "n < 64" for n using that by (auto simp: list_all_iff)
  have p: "byteOf (CHR ''='') < 128" by code_simp
  assume "list_all (\<lambda>b. b < 256) bs"
  then show ?thesis by (induction bs rule: b64Encode.induct) (auto simp: c p)
qed

lemma rawURL_bytes: "rawURLDecodeStrict s = Some bs \<Longrightarrow> list_all (\<lambda>b. b < 256) bs"
  by (auto simp: rawURLDecodeStrict_def Let_def list_all_iff split: if_splits option.splits dest: b64Decode_lt)

lemma rawURL_utf8: "rawURLDecodeStrict s = Some bs \<Longrightarrow> utf8Valid (rawURLEncode bs)"
proof -
  assume "rawURLDecodeStrict s = Some bs"
  then have "list_all (\<lambda>c. byteOf c < 128) (b64Encode bs)" using rawURL_bytes b64_ascii by blast
  moreover have "byteOf (CHR ''-'') < 128" "byteOf (CHR ''_'') < 128" by code_simp+
  ultimately have "list_all (\<lambda>c. byteOf c < 128) (rawURLEncode bs)"
    by (auto simp: rawURLEncode_def toURLDigit_def list_all_iff)
  then show ?thesis by (rule utf8_ascii)
qed

lemma label_utf8: "ValidateConnectorRoutingID s = None \<Longrightarrow> utf8Valid s"
proof -
  assume "ValidateConnectorRoutingID s = None"
  then obtain d where d: "list_all (\<lambda>b. b < 256) d" "s = ''c-'' @ b32Encode d" by (auto simp: routing_label)
  have "list_all (\<lambda>n. byteOf (b32Char n) < 128) [0..<32]" by code_simp
  then have "list_all (\<lambda>c. byteOf c < 128) (b32Encode d)"
    using b32Digits_lt [OF d(1)] by (auto simp: b32Encode_def list_all_iff)
  moreover have "byteOf (CHR ''c'') < 128" "byteOf (CHR ''-'') < 128" by code_simp+
  ultimately show ?thesis unfolding d(2) by (intro utf8_ascii) simp
qed

lemma identity_utf8: "validateCachedIdentityString f v = None \<Longrightarrow> utf8Valid v"
  by (simp add: validateCachedIdentityString_def split: if_splits)

lemma binding_utf8:
  assumes "validateCachedConnectorBinding kd e = None" "deps_ok kd"
  shows "printable (entryJSON e)"
proof -
  have "validateCachedResourcePublicKey kd (ceResourcePublicKey e) = None"
      "ValidateConnectorRoutingID (ceConnectorRoutingID e) = None" "slugPattern (ceID e)"
      "validateCachedKnockResourceID (ceKnockResourceID e) = None" "\<exists>der. kdKeyMatches kd (ceCRID e) der = Inr True"
    using assms(1) by (auto simp: validateCachedConnectorBinding_def ValidateSlug_def split: option.splits if_splits)
  moreover have "utf8Valid ''id''" "utf8Valid ''resource_public_key''" "utf8Valid ''crid''"
      "utf8Valid ''connector_routing_id''" "utf8Valid ''knock_resource_id''" by code_simp+
  ultimately show ?thesis using assms(2) slug_utf8 label_utf8
    by (auto simp: entryJSON_def deps_ok_def validateCachedResourcePublicKey_def validateCachedKnockResourceID_def
        intro: identity_utf8 split: option.splits simp del: utf8Valid.simps)
qed

lemma request_utf8:
  assumes "validateCachedConnectorRequest kd r = None" "deps_ok kd"
  shows "printable (requestJSON r)"
proof -
  have "slugPattern (prID r)" "utf8Valid (prRequestNonce r)"
      "\<forall>crid. prExpectedCRID r = Some crid \<longrightarrow> kdCridValidate kd crid = None"
    using assms(1) rawURL_utf8
    by (auto simp: validateCachedConnectorRequest_def ValidateSlug_def Let_def split: option.splits if_splits)
      metis+
  moreover have "utf8Valid ''id''" "utf8Valid ''request_nonce''" "utf8Valid ''expected_crid''" by code_simp+
  ultimately show ?thesis using assms(2) slug_utf8
    by (auto simp: requestJSON_def optionalMember_def deps_ok_def split: option.splits simp del: utf8Valid.simps)
qed


section \<open>The round trip\<close>

lemma envelope_printable:
  assumes "validCache kd c" "deps_ok kd"
  shows "printable (envelopeJSON c)"
proof -
  have "printable (entryJSON e)" if "e \<in> set (valuesOf (icByID c))" for e
  proof (rule binding_utf8 [OF _ assms(2)])
    show "validateCachedConnectorBinding kd e = None"
      using that assms(1) by (auto simp: validCache_def validBindings_def valuesOf_set)
  qed
  moreover have "printable (requestJSON r)" if "r \<in> set (valuesOf (icPending c))" for r
  proof (rule request_utf8 [OF _ assms(2)])
    show "validateCachedConnectorRequest kd r = None"
      using that assms(1) by (auto simp: validCache_def validPending_def valuesOf_set)
  qed
  moreover have "utf8Valid (icAgentID c)"
    using assms(1) identity_utf8
    by (auto simp: validCache_def validAgent_def validateCachedAgentID_def split: if_splits option.splits)
  moreover have "utf8Valid ''version''" "utf8Valid ''agent_id''" "utf8Valid ''identities''"
      "utf8Valid ''pending_requests''" by code_simp+
  moreover have "fmtInt connectorIdentityCacheVersion = fmtNat 3"
    by (simp add: connectorIdentityCacheVersion_def fmtInt_def)
  ultimately show ?thesis
    by (auto simp: envelopeJSON_def list_all_iff simp del: utf8Valid.simps)
qed

lemma encode_exact:
  "encodeCache kd c = Inr raw \<longleftrightarrow>
     validAgent c \<and> validBindings kd (icByID c) \<and> validPending kd (icByID c) (icPending c) \<and>
     raw = printValue (envelopeJSON c) \<and> length raw \<le> connectorIdentityCacheMaxBytes"
proof -
  have "(if icAgentID c \<noteq> '''' then validateCachedAgentID (icAgentID c)
      else if icByID c \<noteq> fmempty \<or> icPending c \<noteq> fmempty then Some (NewErr m) else None) = None \<longleftrightarrow> validAgent c" for m
    by (simp add: validAgent_def)
  then show ?thesis
    unfolding encodeCache_def firstErr_keys [symmetric]
    by (simp add: Let_def not_less split: option.split) auto
qed

lemma save_load:
  assumes "encodeCache kd c = Inr raw" "ownersDistinct (icByID c)" "deps_ok kd"
  shows "decodeCache kd raw = Inr c"
proof -
  have v: "validCache kd c" and raw: "raw = printValue (envelopeJSON c)"
    using assms(1,2) by (auto simp: encode_exact validCache_def)
  note p = envelope_printable [OF v assms(3)]
  show ?thesis
    using utf8_print(1) [OF p] parse_print [OF p] walk_envelope [of c] canonical_envelope [of c]
      decodeEnvelope_JSON [of c] checkEnvelope_ok [OF v]
    by (simp add: decodeCache_def raw thenRes_def)
qed

text \<open>
  C18. The identity cache file is exact: whatever \<open>load\<close> accepts is a valid cache, and saving a valid cache,
  when it fits the size limit, writes a file that loads as that cache; so a loaded cache that is saved again
  is unchanged.
\<close>

theorem cache_file_exact:
  assumes "deps_ok kd"
  shows "(decodeCache kd raw = Inr c \<longrightarrow> validCache kd c) \<and>
    (validCache kd c \<longrightarrow> encodeCache kd c = Inr (printValue (envelopeJSON c)) \<and>
         decodeCache kd (printValue (envelopeJSON c)) = Inr c \<or>
       connectorIdentityCacheMaxBytes < length (printValue (envelopeJSON c)))"
  using decode_valid save_load assms by (auto simp: encode_exact validCache_def not_less)

end
