(* ===== verification/Identity_Store_Props.thy ===== *)
theory Identity_Store_Props
  imports Identity_Store Identity_Cache_Props
begin

text \<open>
  What the identity cache promises on disk. Every save replaces the file as a whole: at each moment the file
  holds the old cache or the new one.
\<close>

section \<open>Worlds\<close>

text \<open>Two worlds that differ in the directory and in the calls made.\<close>

definition same :: "cacheWorld \<Rightarrow> cacheWorld \<Rightarrow> bool" where
  "same w w' = (w' = w\<lparr>cwNs := cwNs w', cwTick := cwTick w'\<rparr>)"

definition quiet :: "cacheWorld \<Rightarrow> cacheWorld \<Rightarrow> bool" where
  "quiet w w' = (same w w' \<and> cwNs w' = cwNs w)"

lemma same_refl [simp]: "same w w" and same_trans: "same w v \<Longrightarrow> same v u \<Longrightarrow> same w u"
  by (simp_all add: same_def) (cases w; cases v; cases u; simp)

lemma quiet_refl [simp]: "quiet w w" and quiet_trans: "quiet w v \<Longrightarrow> quiet v u \<Longrightarrow> quiet w u"
  using same_trans by (auto simp: quiet_def)

lemma sys_quiet: "sys w = (e, w') \<Longrightarrow> quiet w w' \<and> e = cwFaults w (cwTick w)"
  by (cases w) (auto simp: sys_def quiet_def same_def)

lemma same_fields: "same w w' \<Longrightarrow> cwFaults w' = cwFaults w \<and> cwReadOnly w' = cwReadOnly w"
  by (cases w; cases w') (simp add: same_def)

lemma onDir_same [simp]: "same w (onDir f w)"
  by (cases w) (simp add: same_def onDir_def)

lemma onDir_ns [simp]: "cwNs (onDir f w) = f (cwNs w)"
  by (simp add: onDir_def)

lemma namespace_quiet: "validateConnectorIdentityCacheNamespace w = (e, w') \<Longrightarrow> quiet w w'"
  by (auto simp: validateConnectorIdentityCacheNamespace_def split: prod.splits dest!: sys_quiet intro: quiet_trans)

lemma regular_quiet:
  "validateRegular name w = (e, w') \<Longrightarrow> quiet w w' \<and>
     (e = None \<longrightarrow> (\<exists>f. lookupFile (cwNs w) name = Some f \<and> privateFile f))"
proof -
  assume r: "validateRegular name w = (e, w')"
  obtain a v where s: "sys w = (a, v)" by fastforce
  then have q: "quiet w v" using sys_quiet by blast
  then have "cwNs v = cwNs w" by (simp add: quiet_def)
  then show ?thesis using r s q by (auto simp: validateRegular_def split: option.splits if_splits)
qed

lemma lstat_quiet: "lstatEntry name w = (r, w') \<Longrightarrow> quiet w w'"
  by (auto simp: lstatEntry_def split: prod.splits option.splits dest!: sys_quiet)

lemma open_quiet:
  assumes "openConnectorIdentityCache name w = (e, w')"
  shows "quiet w w' \<and> (e = None \<longrightarrow> (\<exists>f. lookupFile (cwNs w) name = Some f \<and> privateFile f))"
proof -
  obtain a v where n: "validateConnectorIdentityCacheNamespace w = (a, v)" by fastforce
  obtain b u where s: "sys v = (b, u)" by fastforce
  obtain c t where r: "validateRegular name u = (c, t)" by fastforce
  obtain d p where s': "sys t = (d, p)" by fastforce
  have q: "quiet w v" "quiet w u" "quiet w t" "quiet w p"
    using quiet_trans namespace_quiet [OF n] sys_quiet [OF s] regular_quiet [OF r] sys_quiet [OF s'] by blast+
  then have ns: "cwNs u = cwNs w" by (simp add: quiet_def)
  show ?thesis
    using assms q regular_quiet [OF r] ns
    by (auto simp: openConnectorIdentityCache_def n s r s' split: option.splits if_splits)
qed

section \<open>One replaced file\<close>

definition fileAt :: "string \<Rightarrow> dir \<Rightarrow> jfile option" where "fileAt name fs = map_of fs name"

text \<open>The directories after the call; the file was \<open>old\<close>, then from some moment on \<open>new\<close>.\<close>

definition replaces :: "string \<Rightarrow> jfile option \<Rightarrow> bool \<Rightarrow> cacheWorld \<Rightarrow> cacheWorld \<Rightarrow> bool" where
  "replaces name new committed w w' = (same w w' \<and> (\<exists>xs ys.
     nsTrace (cwNs w') = nsTrace (cwNs w) @ xs @ ys \<and>
     nsFiles (cwNs w') = last (nsFiles (cwNs w) # xs @ ys) \<and>
     (\<forall>fs \<in> set xs. fileAt name fs = fileAt name (nsFiles (cwNs w))) \<and>
     (\<forall>fs \<in> set ys. fileAt name fs = new) \<and> (committed \<longrightarrow> ys \<noteq> [])))"

definition newFileOf :: "string \<Rightarrow> jfile" where
  "newFileOf raw = \<lparr>fKind = RegularFile, fMode = sessionOperationFileMode, fOwned = True, fData = raw\<rparr>"

text \<open>A change that leaves the file alone.\<close>

definition leaves :: "string \<Rightarrow> cacheWorld \<Rightarrow> cacheWorld \<Rightarrow> bool" where
  "leaves name w w' = (same w w' \<and> (\<exists>xs. nsTrace (cwNs w') = nsTrace (cwNs w) @ xs \<and>
     nsFiles (cwNs w') = last (nsFiles (cwNs w) # xs) \<and>
     (\<forall>fs \<in> set xs. fileAt name fs = fileAt name (nsFiles (cwNs w)))))"

lemma leaves_refl [simp]: "leaves name w w"
  by (auto simp: leaves_def intro: exI [of _ "[]"])

lemma quiet_leaves: "quiet w w' \<Longrightarrow> leaves name w w'"
  by (auto simp: leaves_def quiet_def intro: exI [of _ "[]"])

lemma last_app: "last (x # xs @ ys) = last (last (x # xs) # ys)"
  by (cases ys rule: rev_cases) simp_all

lemma leaves_fileAt: "leaves name w w' \<Longrightarrow> fileAt name (nsFiles (cwNs w')) = fileAt name (nsFiles (cwNs w))"
  by (auto simp: leaves_def)

lemma leaves_trans: "leaves name w v \<Longrightarrow> leaves name v u \<Longrightarrow> leaves name w u"
proof -
  assume a: "leaves name w v" and b: "leaves name v u"
  then obtain xs ys where x: "nsTrace (cwNs v) = nsTrace (cwNs w) @ xs" "nsFiles (cwNs v) = last (nsFiles (cwNs w) # xs)"
      "\<forall>fs \<in> set xs. fileAt name fs = fileAt name (nsFiles (cwNs w))"
    and y: "nsTrace (cwNs u) = nsTrace (cwNs v) @ ys" "nsFiles (cwNs u) = last (nsFiles (cwNs v) # ys)"
      "\<forall>fs \<in> set ys. fileAt name fs = fileAt name (nsFiles (cwNs v))"
    by (auto simp: leaves_def)
  have "same w u" using a b same_trans by (auto simp: leaves_def)
  moreover have "nsTrace (cwNs u) = nsTrace (cwNs w) @ xs @ ys" using x y by simp
  moreover have "nsFiles (cwNs u) = last (nsFiles (cwNs w) # xs @ ys)"
    using x(2) y(2) by (simp only: last_app)
  moreover have "\<forall>fs \<in> set (xs @ ys). fileAt name fs = fileAt name (nsFiles (cwNs w))"
    using x(3) y(3) leaves_fileAt [OF a] by auto
  ultimately show ?thesis unfolding leaves_def by blast
qed

lemma leaves_replaces: "leaves name w v \<Longrightarrow> replaces name new c v u \<Longrightarrow> replaces name new c w u"
proof -
  assume a: "leaves name w v" and b: "replaces name new c v u"
  then obtain zs xs ys where z: "nsTrace (cwNs v) = nsTrace (cwNs w) @ zs" "nsFiles (cwNs v) = last (nsFiles (cwNs w) # zs)"
      "\<forall>fs \<in> set zs. fileAt name fs = fileAt name (nsFiles (cwNs w))"
    and x: "nsTrace (cwNs u) = nsTrace (cwNs v) @ xs @ ys" "nsFiles (cwNs u) = last (nsFiles (cwNs v) # xs @ ys)"
      "\<forall>fs \<in> set xs. fileAt name fs = fileAt name (nsFiles (cwNs v))"
      "\<forall>fs \<in> set ys. fileAt name fs = new" "c \<longrightarrow> ys \<noteq> []"
    by (auto simp: leaves_def replaces_def)
  have "same w u" using a b same_trans by (auto simp: leaves_def replaces_def)
  moreover have "nsTrace (cwNs u) = nsTrace (cwNs w) @ (zs @ xs) @ ys" using z x by simp
  moreover have "nsFiles (cwNs u) = last (nsFiles (cwNs w) # (zs @ xs) @ ys)"
    using z(2) x(2) by (simp only: last_app append_assoc)
  moreover have "\<forall>fs \<in> set (zs @ xs). fileAt name fs = fileAt name (nsFiles (cwNs w))"
    using z(3) x(3) leaves_fileAt [OF a] by auto
  ultimately show ?thesis unfolding replaces_def using x(4,5) by blast
qed

lemma leaves_is_replaces: "leaves name w w' \<Longrightarrow> replaces name new False w w'"
  unfolding leaves_def replaces_def by (metis append_Nil2 empty_iff empty_set)

lemma commit_leaves:
  assumes "\<And>fs. fileAt name (g fs) = fileAt name fs"
  shows "leaves name w (onDir (\<lambda>ns. commitFiles (g (nsFiles ns)) ns) w)"
  unfolding leaves_def using assms
  by (auto simp: commitFiles_def intro!: exI [of _ "[g (nsFiles (cwNs w))]"])

lemma fileAt_update [simp]:
  "tmp \<noteq> name \<Longrightarrow> fileAt name (AList.update tmp f fs) = fileAt name fs"
  "fileAt tmp (AList.update tmp f fs) = Some f"
  "tmp \<noteq> name \<Longrightarrow> fileAt name (AList.delete tmp fs) = fileAt name fs"
  by (simp_all add: fileAt_def update_conv' delete_conv')

lemma update_leaves:
  assumes "tmp \<noteq> name"
  shows "leaves name w (onDir (updateFile tmp g) w)"
proof (cases "lookupFile (cwNs w) tmp")
  case None
  then have "onDir (updateFile tmp g) w = w" by (cases w) (simp add: onDir_def updateFile_def)
  then show ?thesis by simp
next
  case (Some f)
  then have "onDir (updateFile tmp g) w = onDir (\<lambda>ns. commitFiles (AList.update tmp (g f) (nsFiles ns)) ns) w"
    by (cases w) (simp add: onDir_def updateFile_def)
  then show ?thesis using assms commit_leaves [of name "AList.update tmp (g f)" w] by simp
qed

lemma sysDo_cases:
  assumes "sysDo f w = (e, w')"
  obtains x where "e = Some x" "quiet w w'"
    | v where "e = None" "quiet w v" "w' = onDir f v"
  using assms sys_quiet by (auto simp: sysDo_def split: prod.splits option.splits)


lemma sysDo_None: "sysDo f w = (None, w') \<Longrightarrow> \<exists>v. quiet w v \<and> w' = onDir f v"
  using sysDo_cases by blast

lemma join_Some [simp]: "\<exists>y. errorsJoin (Some x # es) = Some y"
  by (simp add: errorsJoin_def Let_def)

lemma update_lookup: "lookupFile ns tmp = Some f \<Longrightarrow> lookupFile (updateFile tmp g ns) tmp = Some (g f)"
  by (simp add: updateFile_def lookupFile_def commitFiles_def update_conv')

lemma quiet_ns: "quiet w v \<Longrightarrow> cwNs v = cwNs w"
  by (simp add: quiet_def)

lemma rename_replaces:
  assumes "lookupFile (cwNs w) tmp = Some f" "tmp \<noteq> name"
  shows "replaces name (Some f) True w (onDir (renameFile tmp name) w)"
    and "fileAt name (nsFiles (cwNs (onDir (renameFile tmp name) w))) = Some f"
proof -
  let ?fs = "AList.update name f (AList.delete tmp (nsFiles (cwNs w)))"
  have r: "renameFile tmp name (cwNs w) = commitFiles ?fs (cwNs w)"
    using assms(1) by (simp add: renameFile_def)
  have d: "fileAt name ?fs = Some f" by simp
  show "replaces name (Some f) True w (onDir (renameFile tmp name) w)"
    unfolding replaces_def
    by (rule conjI, simp, rule exI [of _ "[]"], rule exI [of _ "[?fs]"]) (simp add: r commitFiles_def d)
  show "fileAt name (nsFiles (cwNs (onDir (renameFile tmp name) w))) = Some f"
    using d by (simp add: r commitFiles_def)
qed

lemma stage_contract:
  assumes "stageCacheTemp name tmp raw w = (e, w')" "tmp \<noteq> name"
    and f: "lookupFile (cwNs w) tmp = Some f" "fKind f = RegularFile" "fOwned f"
  shows "(e \<noteq> None \<longrightarrow> leaves name w w') \<and>
    (e = None \<longrightarrow> replaces name (Some (newFileOf raw)) True w w' \<and>
       fileAt name (nsFiles (cwNs w')) = Some (newFileOf raw))"
proof -
  let ?chmod = "updateFile tmp (\<lambda>f. f\<lparr>fMode := sessionOperationFileMode\<rparr>)"
  let ?fill = "\<lambda>d. updateFile tmp (\<lambda>f. f\<lparr>fData := d\<rparr>)"
  obtain e1 w1 where s1: "sysDo ?chmod w = (e1, w1)" by fastforce
  have l1: "leaves name w w1"
    using s1 by (cases rule: sysDo_cases) (use assms(2) quiet_leaves update_leaves leaves_trans in blast)+
  show ?thesis
  proof (cases e1)
    case (Some x)
    then show ?thesis using assms(1) s1 l1 by (auto simp: stageCacheTemp_def)
  next
    case None
    with s1 obtain v where v: "quiet w v" "w1 = onDir ?chmod v" using sysDo_None by blast
    have f1: "lookupFile (cwNs w1) tmp = Some (f\<lparr>fMode := sessionOperationFileMode\<rparr>)"
      using update_lookup f(1) v by (simp add: quiet_ns)
    obtain e2 w2 where s2: "sys w1 = (e2, w2)" by fastforce
    have q2: "quiet w1 w2" using sys_quiet [OF s2] by simp
    have l2: "leaves name w w2" using l1 q2 quiet_leaves leaves_trans by blast
    show ?thesis
    proof (cases e2)
      case (Some x)
      then show ?thesis using assms(1) s1 s2 \<open>e1 = None\<close> leaves_trans [OF l2 update_leaves [OF assms(2)]]
        by (auto simp: stageCacheTemp_def)
    next
      case None2: None
      define w3 where "w3 = onDir (?fill raw) w2"
      have l3: "leaves name w w3" unfolding w3_def by (rule leaves_trans [OF l2 update_leaves [OF assms(2)]])
      have f3: "lookupFile (cwNs w3) tmp = Some (newFileOf raw)"
        using update_lookup [of "cwNs w2" tmp "f\<lparr>fMode := sessionOperationFileMode\<rparr>"] f1 f(2,3) q2
        by (cases f) (simp add: w3_def quiet_ns newFileOf_def)
      obtain e4 w4 where s4: "sys w3 = (e4, w4)" by fastforce
      obtain e5 w5 where s5: "validateRegular tmp w4 = (e5, w5)" by fastforce
      obtain e6 w6 where s6: "sysDo (renameFile tmp name) w5 = (e6, w6)" by fastforce
      have q: "quiet w3 w4" "quiet w3 w5"
        using sys_quiet [OF s4] regular_quiet [OF s5] quiet_trans by blast+
      have l: "leaves name w w4" "leaves name w w5" using q quiet_leaves leaves_trans [OF l3] by blast+
      have run: "stageCacheTemp name tmp raw w =
          (case e4 of Some x \<Rightarrow> (Some (Errorf ''sync cache temporary file'' x), w4)
           | None \<Rightarrow> (case e5 of Some x \<Rightarrow> (Some x, w5)
             | None \<Rightarrow> (case e6 of Some x \<Rightarrow> (Some (Errorf ''commit cache rename'' x), w6) | None \<Rightarrow> (None, w6))))"
        using s1 s2 s4 s5 s6 None None2
        by (simp add: stageCacheTemp_def w3_def [symmetric] Let_def split: option.split)
      from s6 show ?thesis
      proof (cases rule: sysDo_cases)
        case (1 x)
        then have "leaves name w w6" using l(2) quiet_leaves leaves_trans by blast
        then show ?thesis using run assms(1) l 1 by (auto split: option.splits)
      next
        case (2 v)
        have fv: "lookupFile (cwNs v) tmp = Some (newFileOf raw)"
          using f3 q(2) 2(2) by (simp add: quiet_ns)
        have lv: "leaves name w v" using l(2) 2(2) quiet_leaves leaves_trans by blast
        note R = rename_replaces [OF fv assms(2)]
        have "replaces name (Some (newFileOf raw)) True w w6" using leaves_replaces [OF lv R(1)] 2(3) by simp
        then show ?thesis using run assms(1) l 2 R(2) by (auto split: option.splits)
      qed
    qed
  qed
qed

lemma cleanup_leaves:
  assumes "cleanupCacheTemp tmp x w = (e, w')" "tmp \<noteq> name"
  shows "leaves name w w' \<and> e \<noteq> None"
proof -
  obtain e1 w1 where s1: "sys w = (e1, w1)" by fastforce
  obtain e2 w2 where s2: "sys w1 = (e2, w2)" by fastforce
  let ?del = "\<lambda>ns. commitFiles (AList.delete tmp (nsFiles ns)) ns"
  have q: "leaves name w w2" using sys_quiet [OF s1] sys_quiet [OF s2] quiet_trans quiet_leaves by blast
  have d: "leaves name w (onDir ?del w2)"
    by (rule leaves_trans [OF q commit_leaves]) (use assms(2) in simp)
  obtain e3 w3 where s3: "sys w2 = (e3, w3)" by fastforce
  obtain e4 w4 where s4: "sys (onDir ?del w2) = (e4, w4)" by fastforce
  have "leaves name w w3" "leaves name w w4"
    using q d sys_quiet [OF s3] sys_quiet [OF s4] quiet_leaves leaves_trans by blast+
  then show ?thesis using assms(1) s1 s2 s3 s4
    by (cases e2) (auto simp: cleanupCacheTemp_def)
qed

lemma commit_quiet: "commitCache name w = (e, w') \<Longrightarrow> quiet w w'"
proof -
  assume a: "commitCache name w = (e, w')"
  obtain e1 w1 where s1: "validateRegular name w = (e1, w1)" by fastforce
  obtain e2 w2 where s2: "sys w1 = (e2, w2)" by fastforce
  obtain e3 w3 where s3: "sys w2 = (e3, w3)" by fastforce
  obtain e4 w4 where s4: "validateConnectorIdentityCacheNamespace w3 = (e4, w4)" by fastforce
  have "quiet w w1" "quiet w1 w2" "quiet w2 w3" "quiet w3 w4"
    using regular_quiet [OF s1] sys_quiet [OF s2] sys_quiet [OF s3] namespace_quiet [OF s4] by simp_all
  from quiet_trans [OF quiet_trans [OF quiet_trans [OF this(1,2)] this(3)] this(4)] have "quiet w w4" .
  then show ?thesis using a s1 s2 s3 s4 by (simp add: commitCache_def)
qed

lemma replaces_quiet: "replaces name new c w v \<Longrightarrow> quiet v u \<Longrightarrow> replaces name new c w u"
  using same_trans [of w v u] by (simp add: replaces_def quiet_def)

lemma replaces_weaken: "replaces name new True w v \<Longrightarrow> replaces name new c w v"
  unfolding replaces_def by blast

lemma temp_name: "cacheTempName name s \<noteq> connectorIdentityCacheFile"
  by (simp add: cacheTempName_def connectorIdentityCacheFile_def)

text \<open>The write of the cache file: it is untouched or replaced as a whole, and replaced when there is no error.\<close>

lemma write_contract:
  assumes "writeConnectorIdentityCacheDurable connectorIdentityCacheFile raw w = (e, w')"
  shows "replaces connectorIdentityCacheFile (Some (newFileOf raw)) (e = None) w w' \<and>
    (e = None \<longrightarrow> fileAt connectorIdentityCacheFile (nsFiles (cwNs w')) = Some (newFileOf raw))"
proof -
  let ?n = connectorIdentityCacheFile
  have stays: "leaves ?n w u \<Longrightarrow> replaces ?n (Some (newFileOf raw)) False w u" for u
    by (rule leaves_is_replaces)
  obtain e1 w1 where s1: "validateConnectorIdentityCacheNamespace w = (e1, w1)" by fastforce
  obtain e2 w2 where s2: "openConnectorIdentityCache ?n w1 = (e2, w2)" by fastforce
  obtain e3 w3 where s3: "sys w2 = (e3, w3)" by fastforce
  obtain e4 w4 where s4: "(case openConnectorIdentityCache ?n w1 of (None, w) \<Rightarrow> sys w
      | (Some x, w) \<Rightarrow> if errorsIs x SOsNotExist then (None, w) else (Some (Errorf ''open existing cache'' x), w)) = (e4, w4)"
    by fastforce
  obtain e5 w5 where s5: "sys w4 = (e5, w5)" by fastforce
  obtain e6 w6 where s6: "sys w5 = (e6, w6)" by fastforce
  have q12: "quiet w w1" "quiet w w2" "quiet w w3"
    using namespace_quiet [OF s1] open_quiet [OF s2] sys_quiet [OF s3] quiet_trans by blast+
  have "w4 \<in> {w2, w3}" using s2 s3 s4 by (auto split: option.splits if_splits)
  then have q4: "quiet w w4" using q12 by auto
  have q: "quiet w w5" "quiet w w6" using q4 sys_quiet [OF s5] sys_quiet [OF s6] quiet_trans by blast+
  note L = quiet_leaves [OF q12(1), of ?n] quiet_leaves [OF q4, of ?n] quiet_leaves [OF q(1), of ?n]
    quiet_leaves [OF q(2), of ?n]
  define tmp where "tmp = cacheTempName ?n (cwRandom w5 (cwTick w5))"
  define new where "new = \<lparr>fKind = RegularFile, fMode = cwCreateMode w6, fOwned = True, fData = []\<rparr>"
  define w7 where "w7 = onDir (\<lambda>ns. commitFiles (AList.update tmp new (nsFiles ns)) ns) w6"
  have tmp: "tmp \<noteq> ?n" by (simp add: tmp_def temp_name)
  have l7: "leaves ?n w w7"
    unfolding w7_def by (rule leaves_trans [OF L(4) commit_leaves]) (use tmp in simp)
  have f7: "lookupFile (cwNs w7) tmp = Some new"
    by (simp add: w7_def lookupFile_def commitFiles_def update_conv')
  obtain e8 w8 where s8: "stageCacheTemp ?n tmp raw w7 = (e8, w8)" by fastforce
  note st = stage_contract [OF s8 tmp f7]
  show ?thesis
  proof (cases "e1 = None \<and> \<not> cwReadOnly w1 \<and> e4 = None \<and> e5 = None \<and> e6 = None \<and> lookupFile (cwNs w6) tmp = None")
    case False
    then have "leaves ?n w w' \<and> e \<noteq> None"
      using assms s1 s4 s5 s6 L
      by (auto simp: writeConnectorIdentityCacheDurable_def Let_def tmp_def [symmetric]
          split: option.splits if_splits prod.splits)
    then show ?thesis using stays by auto
  next
    case True
    then have run: "(case stageCacheTemp ?n tmp raw w7 of (Some x, w) \<Rightarrow> cleanupCacheTemp tmp x w
        | (None, w) \<Rightarrow> commitCache ?n w) = (e, w')"
      using assms s1 s4 s5 s6 unfolding tmp_def new_def w7_def
      by (simp add: writeConnectorIdentityCacheDurable_def Let_def)
    show ?thesis
    proof (cases e8)
      case (Some x)
      then have "cleanupCacheTemp tmp x w8 = (e, w')" using run s8 by simp
      note c = cleanup_leaves [OF this tmp]
      have "leaves ?n w7 w8" using st Some by (simp add: new_def)
      from leaves_trans [OF leaves_trans [OF l7 this]] c have "leaves ?n w w'" by simp
      then show ?thesis using stays c by auto
    next
      case None
      then have c: "commitCache ?n w8 = (e, w')" using run s8 by simp
      have r: "replaces ?n (Some (newFileOf raw)) True w7 w8" "fileAt ?n (nsFiles (cwNs w8)) = Some (newFileOf raw)"
        using st None by (simp_all add: new_def)
      note r = leaves_replaces [OF l7 r(1)] r(2)
      have "replaces ?n (Some (newFileOf raw)) True w w'" by (rule replaces_quiet [OF r(1) commit_quiet [OF c]])
      then show ?thesis using r(2) quiet_ns [OF commit_quiet [OF c]] replaces_weaken by simp
    qed
  qed
qed


section \<open>The cache a directory holds\<close>

definition dirCache :: "keyDeps \<Rightarrow> dir \<Rightarrow> identityCache option" where
  "dirCache kd fs = (case fileAt connectorIdentityCacheFile fs of
      None \<Rightarrow> None
    | Some f \<Rightarrow> (case decodeCache kd (fData f) of Inl _ \<Rightarrow> None | Inr c \<Rightarrow> Some c))"

definition diskCache :: "keyDeps \<Rightarrow> cacheWorld \<Rightarrow> identityCache option" where
  "diskCache kd w = dirCache kd (nsFiles (cwNs w))"

text \<open>The world moved: the directories since are related step by step.\<close>

definition moved :: "keyDeps \<Rightarrow> (identityCache option \<Rightarrow> identityCache option \<Rightarrow> bool) \<Rightarrow> cacheWorld \<Rightarrow> cacheWorld \<Rightarrow> bool" where
  "moved kd R w w' = (same w w' \<and> (\<exists>xs. nsTrace (cwNs w') = nsTrace (cwNs w) @ xs \<and>
     nsFiles (cwNs w') = last (nsFiles (cwNs w) # xs) \<and>
     successively R (map (dirCache kd) (nsFiles (cwNs w) # xs))))"

lemma moved_trans:
  assumes "moved kd R w v" "moved kd R v u"
  shows "moved kd R w u"
proof -
  obtain xs ys where x: "nsTrace (cwNs v) = nsTrace (cwNs w) @ xs" "nsFiles (cwNs v) = last (nsFiles (cwNs w) # xs)"
      "successively R (map (dirCache kd) (nsFiles (cwNs w) # xs))"
    and y: "nsTrace (cwNs u) = nsTrace (cwNs v) @ ys" "nsFiles (cwNs u) = last (nsFiles (cwNs v) # ys)"
      "successively R (map (dirCache kd) (nsFiles (cwNs v) # ys))"
    using assms by (auto simp: moved_def)
  have "successively R (map (dirCache kd) ((nsFiles (cwNs w) # xs) @ ys))"
  proof (cases ys)
    case (Cons z zs)
    have "last (map (dirCache kd) (nsFiles (cwNs w) # xs)) = dirCache kd (nsFiles (cwNs v))"
      using x(2) last_map [of "nsFiles (cwNs w) # xs" "dirCache kd"] by simp
    then show ?thesis using x(3) y(3) Cons unfolding map_append successively_append_iff by simp
  qed (use x(3) in simp)
  moreover have "nsFiles (cwNs u) = last (nsFiles (cwNs w) # xs @ ys)"
    using x(2) y(2) by (simp only: last_app)
  ultimately show ?thesis using x(1) y(1) assms same_trans
    by (auto simp: moved_def intro!: exI [of _ "xs @ ys"])
qed

lemma moved_refl [simp]: "moved kd R w w"
  by (auto simp: moved_def intro: exI [of _ "[]"])

lemma quiet_moved: "quiet w w' \<Longrightarrow> moved kd R w w' \<and> diskCache kd w' = diskCache kd w"
  by (auto simp: moved_def quiet_def diskCache_def intro: exI [of _ "[]"])

lemma moved_mono: "moved kd R w v \<Longrightarrow> (\<And>a b. R a b \<Longrightarrow> S a b) \<Longrightarrow> moved kd S w v"
  unfolding moved_def by (meson successively_mono)

text \<open>One save: the old cache, then the new one.\<close>

definition saveRel :: "identityCache option \<Rightarrow> identityCache option \<Rightarrow> identityCache option \<Rightarrow> identityCache option \<Rightarrow> bool" where
  "saveRel old new a b = (a = old \<and> b \<in> {old, new} \<or> a = new \<and> b = new)"

lemma saveRel_chain:
  "list_all (\<lambda>x. x = old) xs \<Longrightarrow> list_all (\<lambda>y. y = new) ys \<Longrightarrow> successively (saveRel old new) (old # xs @ ys)"
proof (induction xs)
  case Nil
  have "successively (saveRel old new) (z # ys)" if "z = old \<or> z = new" for z
    using that Nil(2) by (induction ys arbitrary: z) (auto simp: saveRel_def)
  then show ?case by simp
qed (simp add: saveRel_def)

lemma save_contract:
  assumes "saveConnectorIdentityCacheUnlocked kd c w = (e, w')" "deps_ok kd" "ownersDistinct (icByID c)"
  shows "moved kd (saveRel (diskCache kd w) (Some c)) w w' \<and>
    diskCache kd w' \<in> {diskCache kd w, Some c} \<and>
    (e = None \<longrightarrow> diskCache kd w' = Some c \<and> validCache kd c)"
proof (cases "encodeCache kd c")
  case (Inl x)
  then show ?thesis using assms(1) by (auto simp: saveConnectorIdentityCacheUnlocked_def)
next
  case (Inr raw)
  let ?n = connectorIdentityCacheFile
  obtain e' where wr: "writeConnectorIdentityCacheDurable ?n raw w = (e', w')" "e = None \<longleftrightarrow> e' = None"
    using assms(1) Inr by (auto simp: saveConnectorIdentityCacheUnlocked_def split: prod.splits option.splits)
  note W = write_contract [OF wr(1)]
  then obtain xs ys where p: "nsTrace (cwNs w') = nsTrace (cwNs w) @ xs @ ys"
      "nsFiles (cwNs w') = last (nsFiles (cwNs w) # xs @ ys)"
      "\<forall>fs \<in> set xs. fileAt ?n fs = fileAt ?n (nsFiles (cwNs w))"
      "\<forall>fs \<in> set ys. fileAt ?n fs = Some (newFileOf raw)" "same w w'"
    unfolding replaces_def by blast
  have dec: "decodeCache kd raw = Inr c" by (rule save_load [OF Inr assms(3,2)])
  have new: "fileAt ?n fs = Some (newFileOf raw) \<Longrightarrow> dirCache kd fs = Some c" for fs
    by (simp add: dirCache_def newFileOf_def dec)
  have old: "fileAt ?n fs = fileAt ?n (nsFiles (cwNs w)) \<Longrightarrow> dirCache kd fs = diskCache kd w" for fs
    by (simp add: dirCache_def diskCache_def)
  have xs: "list_all (\<lambda>x. x = diskCache kd w) (map (dirCache kd) xs)" using p(3) old by (auto simp: list_all_iff)
  have ys: "list_all (\<lambda>y. y = Some c) (map (dirCache kd) ys)" using p(4) new by (auto simp: list_all_iff)
  have chain: "successively (saveRel (diskCache kd w) (Some c)) (map (dirCache kd) (nsFiles (cwNs w) # xs @ ys))"
    using saveRel_chain [OF xs ys] by (simp add: diskCache_def)
  have "moved kd (saveRel (diskCache kd w) (Some c)) w w'"
    unfolding moved_def using p(1,2,5) chain by blast
  moreover have "diskCache kd w' \<in> {diskCache kd w, Some c}"
  proof -
    have "dirCache kd (last (nsFiles (cwNs w) # xs @ ys)) \<in> {diskCache kd w, Some c}"
      using xs ys by (cases ys rule: rev_cases; cases xs rule: rev_cases) (auto simp: diskCache_def)
    then show ?thesis using p(2) by (simp add: diskCache_def)
  qed
  moreover have "e = None \<longrightarrow> diskCache kd w' = Some c \<and> validCache kd c"
    using W wr(2) new Inr assms(3) by (auto simp: diskCache_def encode_exact validCache_def)
  ultimately show ?thesis by blast
qed

end
