(* ===== verification/Identity_Refine.thy ===== *)
theory Identity_Refine
  imports Identity_Store_Props
begin

text \<open>
  The operations on the identity cache refine six abstract steps: bind the agent id, file a request, clear it,
  record a resolution, forget an id, take that back. The file moves by these steps only, whatever call fails.
\<close>

section \<open>Abstract steps\<close>

definition forgotten :: "string \<Rightarrow> identityCache \<Rightarrow> identityCache" where
  "forgotten i c = c\<lparr>icByID := fmdrop i (icByID c), icPending := fmdrop i (icPending c)\<rparr>"

inductive cacheStep :: "identityCache \<Rightarrow> identityCache \<Rightarrow> bool" where
  bind: "icAgentID c = '''' \<Longrightarrow> cacheStep c (c\<lparr>icAgentID := a\<rparr>)"
| request: "fmlookup (icPending c) i = None \<Longrightarrow> prID p = i \<Longrightarrow> assertsCached p (fmlookup (icByID c) i) \<Longrightarrow>
    cacheStep c (c\<lparr>icPending := fmupd i p (icPending c)\<rparr>)"
| clear: "cacheStep c (c\<lparr>icPending := fmdrop i (icPending c)\<rparr>)"
| recorded: "fmlookup (icByID c) i \<in> {None, Some b} \<Longrightarrow> ceID b = i \<Longrightarrow>
    (\<forall>k e. fmlookup (icByID c) k = Some e \<longrightarrow> k \<noteq> i \<longrightarrow> ceResourcePublicKey e \<noteq> ceResourcePublicKey b) \<Longrightarrow>
    cacheStep c (putBinding i b c)"
| forget: "cacheStep c (forgotten i c)"
| restore: "cacheStep (forgotten i c) c"

text \<open>The file stays, or takes one step.\<close>

definition diskBy :: "(identityCache \<Rightarrow> identityCache \<Rightarrow> bool) \<Rightarrow> identityCache option \<Rightarrow> identityCache option \<Rightarrow> bool" where
  "diskBy S a b = (a = b \<or> (\<exists>c c'. a = Some c \<and> b = Some c' \<and> S c c'))"

abbreviation diskStep :: "identityCache option \<Rightarrow> identityCache option \<Rightarrow> bool" where
  "diskStep \<equiv> diskBy cacheStep"

lemma save_step:
  assumes "S c c'" "saveRel (Some c) (Some c') a b"
  shows "diskBy S a b"
  using assms by (auto simp: saveRel_def diskBy_def)

text \<open>The steps of the operations that a removal uses.\<close>

definition bindStep :: "identityCache \<Rightarrow> identityCache \<Rightarrow> bool" where
  "bindStep c c' = (icAgentID c = '''' \<and> (\<exists>a. c' = c\<lparr>icAgentID := a\<rparr>))"

definition recordStep :: "string \<Rightarrow> identityCache \<Rightarrow> identityCache \<Rightarrow> bool" where
  "recordStep i c c' = (\<exists>b. fmlookup (icByID c) i \<in> {None, Some b} \<and> ceID b = i \<and>
     (\<forall>k e. fmlookup (icByID c) k = Some e \<longrightarrow> k \<noteq> i \<longrightarrow> ceResourcePublicKey e \<noteq> ceResourcePublicKey b) \<and>
     c' = putBinding i b c)"

definition forgetStep :: "string \<Rightarrow> identityCache \<Rightarrow> identityCache \<Rightarrow> bool" where
  "forgetStep i c c' = (c' = forgotten i c \<or> c = forgotten i c')"

lemma special_steps:
  "bindStep c c' \<Longrightarrow> cacheStep c c'" "recordStep i c c' \<Longrightarrow> cacheStep c c'" "forgetStep i c c' \<Longrightarrow> cacheStep c c'"
  by (auto simp: bindStep_def recordStep_def forgetStep_def intro: cacheStep.intros)

section \<open>The operations refine the steps\<close>

datatype cacheCommand =
    CmdBind string
  | CmdRequest string string
  | CmdClear string
  | CmdRecord string "ConnectorResource option"
  | CmdRemove string

fun runCommand ::
  "keyDeps \<Rightarrow> (string \<Rightarrow> string \<Rightarrow> nat \<Rightarrow> resourceRequest res) \<Rightarrow> cacheCommand \<Rightarrow> identityCache \<Rightarrow> cacheWorld \<Rightarrow> cacheOp" where
  "runCommand kd nr (CmdBind a) c w = bindAgentIDLocked kd a c w"
| "runCommand kd nr (CmdRequest i crid) c w =
     (case ensurePendingRequestLocked kd nr i crid c w of (r, c, w) \<Rightarrow>
        (case r of Inl x \<Rightarrow> Some x | Inr _ \<Rightarrow> None, c, w))"
| "runCommand kd nr (CmdClear i) c w = clearPendingLocked kd i c w"
| "runCommand kd nr (CmdRecord i r) c w = recordResolutionLocked kd i r c w"
| "runCommand kd nr (CmdRemove i) c w = removeLocked kd i c w"

text \<open>The commands of one transaction, up to the first error.\<close>

fun runTransaction ::
  "keyDeps \<Rightarrow> (string \<Rightarrow> string \<Rightarrow> nat \<Rightarrow> resourceRequest res) \<Rightarrow> cacheCommand list \<Rightarrow> identityCache \<Rightarrow> cacheWorld \<Rightarrow> cacheOp" where
  "runTransaction kd nr [] c w = (None, c, w)"
| "runTransaction kd nr (cmd # cmds) c w = (case runCommand kd nr cmd c w of
      (Some x, c, w) \<Rightarrow> (Some x, c, w)
    | (None, c, w) \<Rightarrow> runTransaction kd nr cmds c w)"

text \<open>What an operation guarantees when memory and file agree.\<close>

definition refinesBy ::
  "(identityCache \<Rightarrow> identityCache \<Rightarrow> bool) \<Rightarrow> keyDeps \<Rightarrow> identityCache \<Rightarrow> cacheWorld \<Rightarrow> cacheOp \<Rightarrow> bool" where
  "refinesBy S kd c w r = (case r of (e, c', w') \<Rightarrow>
     moved kd (diskBy S) w w' \<and>
     (e = None \<longrightarrow> diskCache kd w' = Some c' \<and> validCache kd c') \<and> (e \<noteq> None \<longrightarrow> c' = c))"

abbreviation refines :: "keyDeps \<Rightarrow> identityCache \<Rightarrow> cacheWorld \<Rightarrow> cacheOp \<Rightarrow> bool" where
  "refines \<equiv> refinesBy cacheStep"

lemma refinesBy_mono:
  assumes "refinesBy S kd c w r" "\<And>a b. S a b \<Longrightarrow> T a b"
  shows "refinesBy T kd c w r"
proof -
  obtain e c' w' where r: "r = (e, c', w')" by (metis prod_cases3)
  have "moved kd (diskBy T) w w'"
    by (rule moved_mono [of _ "diskBy S"]) (use assms r in \<open>auto simp: refinesBy_def diskBy_def\<close>)
  then show ?thesis using assms(1) r by (simp add: refinesBy_def)
qed

lemma refines_stay:
  "diskCache kd w = Some c \<Longrightarrow> validCache kd c \<Longrightarrow> refinesBy S kd c w (e, c, w)"
  by (simp add: refinesBy_def)

text \<open>An operation that saves a step and undoes it in memory when the save fails.\<close>

lemma refines_save:
  assumes "diskCache kd w = Some c" "deps_ok kd" "ownersDistinct (icByID c')" "S c c'"
    "saveConnectorIdentityCacheUnlocked kd c' w = (e, w')"
  shows "refinesBy S kd c w (e, if e = None then c' else c, w')"
  using save_contract [OF assms(5,2,3)] assms(1) save_step [of S, OF assms(4)]
  by (auto simp: refinesBy_def intro: moved_mono)


lemma bind_by:
  assumes "diskCache kd w = Some c" "validCache kd c" "deps_ok kd"
  shows "refinesBy bindStep kd c w (bindAgentIDLocked kd a c w)"
proof -
  obtain e w' where s: "saveConnectorIdentityCacheUnlocked kd (c\<lparr>icAgentID := a\<rparr>) w = (e, w')" by fastforce
  have o: "ownersDistinct (icByID (c\<lparr>icAgentID := a\<rparr>))" using assms(2) by (simp add: validCache_def)
  have "refinesBy bindStep kd c w (e, if e = None then c\<lparr>icAgentID := a\<rparr> else c, w')" if "icAgentID c = ''''"
    by (rule refines_save [OF assms(1,3) o _ s]) (use that in \<open>auto simp: bindStep_def\<close>)
  then show ?thesis using refines_stay [OF assms(1,2), of bindStep]
    by (auto simp: bindAgentIDLocked_def s split: option.splits)
qed

lemma bind_refines:
  "diskCache kd w = Some c \<Longrightarrow> validCache kd c \<Longrightarrow> deps_ok kd \<Longrightarrow> refines kd c w (bindAgentIDLocked kd a c w)"
  using refinesBy_mono [OF bind_by] special_steps(1) by blast

lemma fmdrop_upd: "fmlookup m i = None \<Longrightarrow> fmdrop i (fmupd i v m) = m"
  by (rule fmap_ext) auto

lemma fmupd_drop: "fmlookup m i = Some v \<Longrightarrow> fmupd i v (fmdrop i m) = m"
  by (rule fmap_ext) (auto simp: fmlookup_drop)

lemma restoreAt_drop: "restoreAt i (fmlookup m i) (fmdrop i m) = m"
  by (rule fmap_ext) (auto simp: restoreAt_def split: option.splits)

lemma restoreAt_upd: "restoreAt i (fmlookup m i) (fmupd i v m) = m"
  by (rule fmap_ext) (auto simp: restoreAt_def split: option.splits)

lemma request_refines:
  assumes "diskCache kd w = Some c" "validCache kd c" "deps_ok kd"
  shows "refines kd c w (runCommand kd nr (CmdRequest i crid) c w)"
proof (cases "icAgentID c \<noteq> '''' \<and> ValidateSlug i = None \<and> fmlookup (icPending c) i = None \<and>
    (\<forall>b. fmlookup (icByID c) i = Some b \<longrightarrow> crid = ceCRID b) \<and> (\<exists>q. nr i crid (cwTick w) = Inr q)")
  case False
  then show ?thesis using refines_stay [OF assms(1,2)]
    by (auto simp: ensurePendingRequestLocked_def Let_def split: option.splits sum.splits)
next
  case True
  then obtain q where q: "nr i crid (cwTick w) = Inr q" by blast
  define p where "p = \<lparr>prID = i, prRequestNonce = rqNonce q,
    prExpectedCRID = (if crid \<noteq> '''' then Some crid else None)\<rparr>"
  define c' where "c' = c\<lparr>icPending := fmupd i p (icPending c)\<rparr>"
  obtain e w' where s: "saveConnectorIdentityCacheUnlocked kd c' w = (e, w')" by fastforce
  have o: "ownersDistinct (icByID c')" using assms(2) by (simp add: validCache_def c'_def)
  have "ceCRID b \<noteq> ''''" if "fmlookup (icByID c) i = Some b" for b
  proof -
    have "validateCachedConnectorBinding kd b = None" using assms(2) that by (simp add: validCache_def validBindings_def)
    then show ?thesis by (simp add: validateCachedConnectorBinding_def split: option.splits if_splits)
  qed
  then have "assertsCached p (fmlookup (icByID c) i)"
    using True by (auto simp: assertsCached_def p_def split: option.splits)
  then have step: "cacheStep c c'"
    unfolding c'_def using True by (intro cacheStep.request) (simp_all add: p_def)
  have undo: "c'\<lparr>icPending := fmdrop i (icPending c')\<rparr> = c"
    using True by (simp add: c'_def fmdrop_upd)
  have "refines kd c w (e, if e = None then c' else c, w')"
    by (rule refines_save [of _ _ _ _ cacheStep, OF assms(1,3) o step s])
  moreover have "ensurePendingRequestLocked kd nr i crid c w =
      (case e of Some x \<Rightarrow> (Inl x, c, w') | None \<Rightarrow> (Inr q, c', w'))"
  proof -
    have g: "(case fmlookup (icByID c) i of Some b \<Rightarrow> crid \<noteq> ceCRID b | None \<Rightarrow> False) = False"
      using True by (simp split: option.splits)
    have g': "(icAgentID c = '''') = False" "ValidateSlug i = None" "fmlookup (icPending c) i = None"
      using True by simp_all
    show ?thesis
      unfolding ensurePendingRequestLocked_def Let_def g g' q option.case sum.case if_False
        p_def [symmetric] c'_def [symmetric] s prod.case undo by (rule refl)
  qed
  ultimately show ?thesis by (cases e) simp_all
qed

lemma clear_refines:
  assumes "diskCache kd w = Some c" "validCache kd c" "deps_ok kd"
  shows "refines kd c w (clearPendingLocked kd i c w)"
proof (cases "fmlookup (icPending c) i")
  case None
  then show ?thesis using refines_stay [OF assms(1,2)] by (simp add: clearPendingLocked_def)
next
  case (Some r)
  let ?c' = "c\<lparr>icPending := fmdrop i (icPending c)\<rparr>"
  obtain e w' where s: "saveConnectorIdentityCacheUnlocked kd ?c' w = (e, w')" by fastforce
  have o: "ownersDistinct (icByID ?c')" using assms(2) by (simp add: validCache_def)
  have "refines kd c w (e, if e = None then ?c' else c, w')"
    by (rule refines_save [of _ _ _ _ cacheStep, OF assms(1,3) o cacheStep.clear s])
  then show ?thesis using Some s fmupd_drop [OF Some]
    by (cases e) (simp_all add: clearPendingLocked_def)
qed

lemma owned_elsewhere:
  "keyOwnedElsewhere i pk c \<longleftrightarrow> (\<exists>k e. fmlookup (icByID c) k = Some e \<and> k \<noteq> i \<and> ceResourcePublicKey e = pk)"
proof -
  have "keyOwnedElsewhere i pk c \<longleftrightarrow>
      (\<exists>k \<in> fset (fmdom (icByID c)). \<exists>e. k \<noteq> i \<and> fmlookup (icByID c) k = Some e \<and> ceResourcePublicKey e = pk)"
    by (auto simp: keyOwnedElsewhere_def list_ex_iff set_map_filter split: if_splits)
  also have "\<dots> \<longleftrightarrow> (\<exists>k e. fmlookup (icByID c) k = Some e \<and> k \<noteq> i \<and> ceResourcePublicKey e = pk)"
    by (auto intro: fmdomI)
  finally show ?thesis .
qed

lemma conflict_None:
  "bindingConflict b' b = None \<Longrightarrow> ceID b' = ceID b \<Longrightarrow> b' = b"
  by (cases b'; cases b) (auto simp: bindingConflict_def split: if_splits)

lemma put_owners:
  assumes "ownersDistinct (icByID c)" "\<not> keyOwnedElsewhere i (ceResourcePublicKey b) c"
  shows "ownersDistinct (icByID (putBinding i b c))"
  unfolding ownersDistinct_def
proof (intro allI impI)
  fix k l d e
  assume "fmlookup (icByID (putBinding i b c)) k = Some d" "fmlookup (icByID (putBinding i b c)) l = Some e"
    "ceResourcePublicKey d = ceResourcePublicKey e"
  then show "k = l" using assms unfolding ownersDistinct_def owned_elsewhere
    by (cases "k = i"; cases "l = i") (auto simp: putBinding_def)
qed

lemma record_by:
  assumes "diskCache kd w = Some c" "validCache kd c" "deps_ok kd"
  shows "refinesBy (recordStep i) kd c w (recordResolutionLocked kd i r c w)"
proof (cases r)
  case None
  then show ?thesis using refines_stay [OF assms(1,2)] by (simp add: recordResolutionLocked_def)
next
  case (Some res)
  define b where "b = bindingOf i res"
  let ?e = "case fmlookup (icByID c) i of None \<Rightarrow> None | Some existing \<Rightarrow> bindingConflict existing b"
  show ?thesis
  proof (cases "icAgentID c \<noteq> '''' \<and> crSlug res = i \<and> validateCachedConnectorBinding kd b = None \<and> ?e = None \<and>
      \<not> (fmlookup (icByID c) i = Some b \<and> \<not> isPending i c) \<and> \<not> keyOwnedElsewhere i (ceResourcePublicKey b) c")
    case False
    have stay: "refinesBy (recordStep i) kd c w (x, c, w)" for x by (rule refines_stay [OF assms(1,2)])
    obtain cf where cf: "?e = cf" by blast
    have run: "recordResolutionLocked kd i r c w =
      (if icAgentID c = '''' then (Some (NewErr ''cache must be bound to an agent_id''), c, w)
       else if crSlug res \<noteq> i then (Some (NewErr ''cannot record resource binding for another id''), c, w)
       else case validateCachedConnectorBinding kd b of Some x \<Rightarrow> (Some x, c, w)
       | None \<Rightarrow> (case cf of Some x \<Rightarrow> (Some x, c, w)
         | None \<Rightarrow> if fmlookup (icByID c) i = Some b \<and> \<not> isPending i c then (None, c, w)
                else (Some (NewErr ''resource_public_key is already cached for another id''), c, w)))"
      if "keyOwnedElsewhere i (ceResourcePublicKey b) c \<or> fmlookup (icByID c) i = Some b \<and> \<not> isPending i c \<or>
        \<not> (icAgentID c \<noteq> '''' \<and> crSlug res = i \<and> validateCachedConnectorBinding kd b = None \<and> cf = None)"
      using that unfolding Some recordResolutionLocked_def option.case Let_def b_def [symmetric] cf
      by (cases cf; cases "validateCachedConnectorBinding kd b") auto
    show ?thesis using run False stay cf by (auto split: option.split)
  next
    case True
    define c' where "c' = putBinding i b c"
    obtain e w' where s: "saveConnectorIdentityCacheUnlocked kd c' w = (e, w')" by fastforce
    have ids: "ceID b = i" by (simp add: b_def bindingOf_def)
    have same: "fmlookup (icByID c) i \<in> {None, Some b}"
      using True conflict_None [of _ b] ids assms(2)
      by (auto simp: validCache_def validBindings_def split: option.splits)
    have o: "ownersDistinct (icByID c')"
      unfolding c'_def using True assms(2) by (intro put_owners) (simp_all add: validCache_def)
    have step: "recordStep i c c'"
      using same ids True by (auto simp: owned_elsewhere recordStep_def c'_def)
    have undo: "c'\<lparr>icByID := restoreAt i (fmlookup (icByID c) i) (icByID c'),
        icPending := restoreAt i (fmlookup (icPending c) i) (icPending c')\<rparr> = c"
      by (simp add: c'_def putBinding_def restoreAt_upd restoreAt_drop)
    have "refinesBy (recordStep i) kd c w (e, if e = None then c' else c, w')"
      by (rule refines_save [of _ _ _ _ "recordStep i", OF assms(1,3) o step s])
    moreover have "recordResolutionLocked kd i r c w = (e, if e = None then c' else c, w')"
      using True undo unfolding Some recordResolutionLocked_def option.case Let_def b_def [symmetric] c'_def [symmetric] s
      by (cases e) auto
    ultimately show ?thesis by simp
  qed
qed

lemma record_refines:
  "diskCache kd w = Some c \<Longrightarrow> validCache kd c \<Longrightarrow> deps_ok kd \<Longrightarrow> refines kd c w (recordResolutionLocked kd i r c w)"
  using refinesBy_mono [OF record_by] special_steps(2) by blast

lemma forgotten_owners: "ownersDistinct (icByID c) \<Longrightarrow> ownersDistinct (icByID (forgotten i c))"
  by (auto simp: ownersDistinct_def forgotten_def split: if_splits)

lemma remove_by:
  assumes "diskCache kd w = Some c" "validCache kd c" "deps_ok kd"
  shows "refinesBy (forgetStep i) kd c w (removeLocked kd i c w)"
proof (cases "fmlookup (icByID c) i = None \<and> fmlookup (icPending c) i = None")
  case True
  then show ?thesis using refines_stay [OF assms(1,2)] by (simp add: removeLocked_def)
next
  case False
  let ?f = "forgotten i c"
  have o: "ownersDistinct (icByID c)" using assms(2) by (simp add: validCache_def)
  obtain e w1 where s1: "saveConnectorIdentityCacheUnlocked kd ?f w = (e, w1)" by fastforce
  note S1 = save_contract [OF s1 assms(3) forgotten_owners [OF o]]
  have m1: "moved kd (diskBy (forgetStep i)) w w1"
    by (rule moved_mono [OF conjunct1 [OF S1]]) (use assms(1) save_step [of "forgetStep i" c ?f] in \<open>simp add: forgetStep_def\<close>)
  show ?thesis
  proof (cases e)
    case None
    then show ?thesis using False S1 s1 m1 by (auto simp: removeLocked_def forgotten_def refinesBy_def)
  next
    case (Some x)
    obtain e2 w2 where s2: "saveConnectorIdentityCacheUnlocked kd c w1 = (e2, w2)" by fastforce
    note S2 = save_contract [OF s2 assms(3) o]
    have d1: "diskCache kd w1 \<in> {Some c, Some ?f}" using S1 assms(1) by auto
    have "moved kd (diskBy (forgetStep i)) w1 w2"
    proof (rule moved_mono [OF conjunct1 [OF S2]])
      fix a b
      assume "saveRel (diskCache kd w1) (Some c) a b"
      then show "diskBy (forgetStep i) a b" using d1 by (auto simp: saveRel_def diskBy_def forgetStep_def)
    qed
    then have "moved kd (diskBy (forgetStep i)) w w2" by (rule moved_trans [OF m1])
    moreover have "removeLocked kd i c w = (errorsJoin [Some x,
        map_option (Errorf ''restore Connector identity after failed prune'') e2], c, w2)"
      using False Some s1 s2
      by (auto simp: removeLocked_def Let_def forgotten_def restoreAt_drop)
    ultimately show ?thesis by (auto simp: refinesBy_def)
  qed
qed

lemma remove_refines:
  "diskCache kd w = Some c \<Longrightarrow> validCache kd c \<Longrightarrow> deps_ok kd \<Longrightarrow> refines kd c w (removeLocked kd i c w)"
  using refinesBy_mono [OF remove_by] special_steps(3) by blast

lemma command_refines:
  assumes "diskCache kd w = Some c" "validCache kd c" "deps_ok kd"
  shows "refines kd c w (runCommand kd nr cmd c w)"
  using bind_refines [OF assms] request_refines [OF assms] clear_refines [OF assms] record_refines [OF assms]
    remove_refines [OF assms]
  by (cases cmd) (simp_all del: runCommand.simps(2))

lemma transaction_refines:
  assumes "diskCache kd w = Some c" "validCache kd c" "deps_ok kd" "runTransaction kd nr cmds c w = (e, c', w')"
  shows "moved kd diskStep w w' \<and> (e = None \<longrightarrow> diskCache kd w' = Some c' \<and> validCache kd c')"
  using assms(1,2,4)
proof (induction cmds arbitrary: c w)
  case (Cons cmd cmds)
  obtain x c1 w1 where r: "runCommand kd nr cmd c w = (x, c1, w1)" by (metis prod_cases3)
  note R = command_refines [OF Cons.prems(1,2) assms(3), of nr cmd, unfolded r refinesBy_def prod.case]
  show ?case
  proof (cases x)
    case None
    then have "runTransaction kd nr cmds c1 w1 = (e, c', w')" using Cons.prems(3) r by simp
    from Cons.IH [OF _ _ this] R None show ?thesis using moved_trans by blast
  next
    case (Some y)
    then show ?thesis using R Cons.prems(3) r by auto
  qed
qed simp


section \<open>Under the lock\<close>

lemma leaves_moved:
  assumes "leaves connectorIdentityCacheFile w w'" "\<And>a. R a a"
  shows "moved kd R w w' \<and> diskCache kd w' = diskCache kd w"
proof -
  obtain xs where x: "nsTrace (cwNs w') = nsTrace (cwNs w) @ xs" "nsFiles (cwNs w') = last (nsFiles (cwNs w) # xs)"
      "\<forall>fs \<in> set xs. fileAt connectorIdentityCacheFile fs = fileAt connectorIdentityCacheFile (nsFiles (cwNs w))" "same w w'"
    using assms(1) by (auto simp: leaves_def)
  have "\<forall>fs \<in> set xs. dirCache kd fs = diskCache kd w" using x(3) by (simp add: dirCache_def diskCache_def)
  then have "list_all (\<lambda>a. a = diskCache kd w) (map (dirCache kd) xs)" by (simp add: list_all_iff)
  from saveRel_chain [OF this, where ys = "[]" and new = "diskCache kd w"]
  have chain: "successively (saveRel (diskCache kd w) (diskCache kd w)) (map (dirCache kd) (nsFiles (cwNs w) # xs))"
    by (simp add: diskCache_def)
  have "successively R (map (dirCache kd) (nsFiles (cwNs w) # xs))"
    by (rule successively_mono [OF chain]) (auto simp: saveRel_def assms(2))
  then show ?thesis
    using x leaves_fileAt [OF assms(1)] by (auto simp: moved_def diskCache_def dirCache_def)
qed

lemma cacheLoad_quiet:
  assumes "loadConnectorIdentityCacheUnlocked kd w = (r, w')"
  shows "quiet w w' \<and> (\<forall>c. r = Inr c \<longrightarrow> diskCache kd w' = Some c \<and> validCache kd c)"
proof -
  obtain a v where o: "openConnectorIdentityCache connectorIdentityCacheFile w = (a, v)" by fastforce
  obtain q u where r: "readCacheFile kd v = (q, u)" by fastforce
  obtain b t where s: "sys u = (b, t)" by fastforce
  obtain b1 t1 where s1: "sys v = (b1, t1)" by fastforce
  obtain b2 t2 where s2: "validateRegular connectorIdentityCacheFile t1 = (b2, t2)" by fastforce
  have ru: "u \<in> {v, t1, t2} \<and> (\<forall>c. q = Inr c \<longrightarrow> (\<exists>f. lookupFile (cwNs v) connectorIdentityCacheFile = Some f \<and>
      decodeCache kd (fData f) = Inr c))"
    using r s1 s2 by (auto simp: readCacheFile_def split: option.splits if_splits)
  have vu: "quiet v t1" "quiet v t2" "quiet v v"
    using sys_quiet [OF s1] regular_quiet [OF s2] quiet_trans by auto
  then have qu: "quiet v u" using ru by auto
  have qw: "quiet w v" using open_quiet [OF o] by blast
  have q: "quiet w u" "quiet w t" using qw qu sys_quiet [OF s] quiet_trans by blast+
  have d: "diskCache kd t = Some c \<and> validCache kd c" if "q = Inr c" for c
    using ru that quiet_ns [OF qw] quiet_ns [OF q(2)] decode_valid
    by (auto simp: diskCache_def dirCache_def fileAt_def lookupFile_def)
  show ?thesis using assms o r s qw q d
    by (auto simp: loadConnectorIdentityCacheUnlocked_def split: option.splits sum.splits if_splits)
qed

lemma quiet_step: "quiet w w' \<Longrightarrow> moved kd diskStep w w'"
  using quiet_moved by blast

lemma has_state_quiet: "connectorIdentityNamespaceHasState w = (r, w') \<Longrightarrow> quiet w w'"
proof -
  assume a: "connectorIdentityNamespaceHasState w = (r, w')"
  obtain r1 w1 where 1: "lstatEntry connectorIdentityCacheFile w = (r1, w1)" by fastforce
  obtain r2 w2 where 2: "lstatEntry legacyConnectorIdentityFile w1 = (r2, w2)" by fastforce
  obtain r3 w3 where 3: "lstatEntry AgentStateFile w2 = (r3, w3)" by fastforce
  obtain r4 w4 where 4: "lstatEntry SealedAgentStateFile w3 = (r4, w4)" by fastforce
  note q = lstat_quiet [OF 1] lstat_quiet [OF 2] lstat_quiet [OF 3] lstat_quiet [OF 4]
  have "quiet w w2" "quiet w w3" "quiet w w4" using q quiet_trans by blast+
  then show ?thesis using a 1 2 3 4 q
    by (auto simp: connectorIdentityNamespaceHasState_def split: sum.splits bool.splits)
qed

lemma lock_leaves: "takeLock b w = (e, w') \<Longrightarrow> leaves connectorIdentityCacheFile w w'"
proof -
  assume a: "takeLock b w = (e, w')"
  obtain x v where s: "sys w = (x, v)" by fastforce
  have q: "leaves connectorIdentityCacheFile w v" using sys_quiet [OF s] quiet_leaves by blast
  have n: "connectorIdentityCacheLockFile \<noteq> connectorIdentityCacheFile"
    by (simp add: connectorIdentityCacheLockFile_def connectorIdentityCacheFile_def)
  show ?thesis using a s q leaves_trans [OF q commit_leaves] n
    by (auto simp: takeLock_def split: option.splits if_splits)
qed

lemma quiet_moves: "quiet w w' \<Longrightarrow> moved kd R w w'"
  using quiet_moved by blast

text \<open>A transaction either fails without its function and leaves the cache file, or runs it once.\<close>

lemma lock_cases:
  assumes r: "withConnectorIdentityCacheLock d fn w = ((v, e), w')"
  obtains (refused) "v = d" "e \<noteq> None" "leaves connectorIdentityCacheFile w w'"
    | (ran) u e1 u1 where "leaves connectorIdentityCacheFile w u" "fn u = ((v, e1), u1)" "quiet u1 w'" "e = None \<longrightarrow> e1 = None"
proof -
  define closing where "closing = (\<lambda>(v :: 'a) e w. case sys w of (c, w) \<Rightarrow> ((v, errorsJoin [e, c]), w))"
  have closing: "v2 = v1 \<and> quiet u u' \<and> (e2 = None \<longrightarrow> e1 = None)" if "closing v1 e1 u = ((v2, e2), u')" for v1 e1 u v2 e2 u'
    using that by (auto simp: closing_def split: prod.splits dest: sys_quiet)
  define fails where "fails = (v = d \<and> e \<noteq> None \<and> leaves connectorIdentityCacheFile w w')"
  have out: fails if "closing d (Some x) u = ((v, e), w')" "leaves connectorIdentityCacheFile w u" for x u
    using closing [OF that(1)] leaves_trans [OF that(2) quiet_leaves] by (auto simp: fails_def)
  obtain e1 w1 where s1: "sys w = (e1, w1)" by fastforce
  obtain e2 w2 where s2: "sys w1 = (e2, w2)" by fastforce
  obtain r3 w3 where s3: "lstatEntry connectorIdentityCacheLockFile w2 = (r3, w3)" by fastforce
  obtain r4 w4 where s4: "connectorIdentityNamespaceHasState w3 = (r4, w4)" by fastforce
  have "quiet w w1" "quiet w w2" "quiet w w3" "quiet w w4"
    using sys_quiet [OF s1] sys_quiet [OF s2] lstat_quiet [OF s3] has_state_quiet [OF s4] quiet_trans by blast+
  then have l: "leaves connectorIdentityCacheFile w w1" "leaves connectorIdentityCacheFile w w2"
    "leaves connectorIdentityCacheFile w w3" "leaves connectorIdentityCacheFile w w4"
    using quiet_leaves by blast+
  show thesis
  proof (cases "e1 = None \<and> e2 = None \<and> (\<exists>b. r3 = Inr b \<and> (b \<or> r4 = Inr False))")
    case False
    have fails
      using r False l s1 s2 s3 s4 out unfolding withConnectorIdentityCacheLock_def Let_def closing_def [symmetric]
      by (auto simp: fails_def split: option.splits sum.splits bool.splits if_splits)
    then show thesis using refused by (simp add: fails_def)
  next
    case True
    then obtain b where b: "r3 = Inr b" "b \<or> r4 = Inr False" by blast
    define w5 where "w5 = (if b then w3 else w4)"
    obtain e6 w6 where s6: "takeLock b w5 = (e6, w6)" by fastforce
    obtain e7 w7 where s7: "validateConnectorIdentityCacheNamespace w6 = (e7, w7)" by fastforce
    obtain e8 w8 where s8: "sys w7 = (e8, w8)" by fastforce
    have l6: "leaves connectorIdentityCacheFile w w6"
      using leaves_trans [OF _ lock_leaves [OF s6]] l(3,4) by (simp add: w5_def)
    have l7: "leaves connectorIdentityCacheFile w w7"
      by (rule leaves_trans [OF l6 quiet_leaves [OF namespace_quiet [OF s7]]])
    have l8: "leaves connectorIdentityCacheFile w w8"
      by (rule leaves_trans [OF l7 quiet_leaves]) (use sys_quiet [OF s8] in blast)
    obtain v9 e9 w9 where s9: "fn w8 = ((v9, e9), w9)" by (metis prod.exhaust)
    obtain e10 w10 where s10: "validateConnectorIdentityCacheNamespace w9 = (e10, w10)" by fastforce
    define body where "body = (if e7 \<noteq> None then ((d, e7), w7)
      else if e8 \<noteq> None then ((d, map_option (Errorf ''establish cache retry durability'') e8), w8)
      else ((v9, errorsJoin [e9, e10]), w10))"
    obtain vb eb wb where body: "body = ((vb, eb), wb)" by (metis prod.exhaust)
    have cb: "vb = d \<and> eb \<noteq> None \<and> leaves connectorIdentityCacheFile w wb \<or>
        vb = v9 \<and> wb = w10 \<and> (eb = None \<longrightarrow> e9 = None)"
      using body l7 l8 by (auto simp: body_def split: if_splits)
    obtain el wl where sl: "sys wb = (el, wl)" by fastforce
    have ql: "quiet wb wl" using sys_quiet [OF sl] by blast
    have cl: "(case e6 of Some x \<Rightarrow> closing d (Some x) w6 | None \<Rightarrow> closing vb (errorsJoin [eb, el]) wl) = ((v, e), w')"
    proof -
      have b': "(case (if e7 \<noteq> None then ((d, e7), w7)
          else if e8 \<noteq> None then ((d, map_option (Errorf ''establish cache retry durability'') e8), w8)
          else ((v9, errorsJoin [e9, e10]), w10)) of ((v, e), w) \<Rightarrow>
            (case sys w of (lockErr, w) \<Rightarrow> closing v (errorsJoin [e, lockErr]) w)) = closing vb (errorsJoin [eb, el]) wl"
        using body sl by (simp add: body_def)
      show ?thesis
        using r True b s1 s2 s3 s4 s6 s7 s8 s9 s10 b'
        unfolding withConnectorIdentityCacheLock_def Let_def closing_def [symmetric] w5_def
        by (cases b; cases e6; cases e7; cases e8) simp_all
    qed
    show thesis
    proof (cases e6)
      case (Some x)
      then have fails using out cl l6 by simp
      then show thesis using refused by (simp add: fails_def)
    next
      case None
      then have "closing vb (errorsJoin [eb, el]) wl = ((v, e), w')" using cl by simp
      from closing [OF this] have c: "v = vb" "quiet wl w'" "e = None \<longrightarrow> eb = None" by simp_all
      have q: "quiet wb w'" by (rule quiet_trans [OF ql c(2)])
      from cb show thesis
      proof
        assume "vb = d \<and> eb \<noteq> None \<and> leaves connectorIdentityCacheFile w wb"
        then show thesis using refused c leaves_trans quiet_leaves [OF q] by blast
      next
        assume a: "vb = v9 \<and> wb = w10 \<and> (eb = None \<longrightarrow> e9 = None)"
        have "quiet w9 w'" using quiet_trans [OF namespace_quiet [OF s10]] q a by blast
        then show thesis using ran [OF l8 _ _ , of e9 w9] s9 a c by blast
      qed
    qed
  qed
qed

text \<open>What holds of the value a transaction returns holds after the lock is released.\<close>

lemma lock_contract:
  assumes R: "\<And>a. R a a"
    and fn: "\<And>u v e u'. leaves connectorIdentityCacheFile w u \<Longrightarrow> fn u = ((v, e), u') \<Longrightarrow> moved kd R u u' \<and> (e = None \<longrightarrow> P v u')"
    and P: "\<And>v u u'. P v u \<Longrightarrow> quiet u u' \<Longrightarrow> P v u'"
    and r: "withConnectorIdentityCacheLock d fn w = ((v, e), w')"
  shows "moved kd R w w' \<and> (e = None \<longrightarrow> P v w') \<and> (v = d \<or> (\<exists>u e' u'. fn u = ((v, e'), u')))"
  using r
proof (cases rule: lock_cases)
  case refused
  then show ?thesis using leaves_moved [OF refused(3), of R kd] R by auto
next
  case (ran u e1 u1)
  have "moved kd R w u" using leaves_moved [OF ran(1), of R kd] R by simp
  then have "moved kd R w w'" using fn [OF ran(1,2)] moved_trans quiet_moves [OF ran(3)] by blast
  then show ?thesis using fn [OF ran(1,2)] ran(2-4) P [OF _ ran(3)] by blast
qed


section \<open>A transaction\<close>

text \<open>Lock, load, run the commands up to the first error.\<close>

definition identityTransaction ::
  "keyDeps \<Rightarrow> (string \<Rightarrow> string \<Rightarrow> nat \<Rightarrow> resourceRequest res) \<Rightarrow> cacheCommand list \<Rightarrow> cacheWorld \<Rightarrow>
   (identityCache \<times> err option) \<times> cacheWorld" where
  "identityTransaction kd nr cmds = withConnectorIdentityCacheLock emptyIdentityCache
     (\<lambda>w. case loadConnectorIdentityCacheUnlocked kd w of
        (Inl x, w) \<Rightarrow> ((emptyIdentityCache, Some x), w)
      | (Inr c, w) \<Rightarrow> (case runTransaction kd nr cmds c w of (e, c, w) \<Rightarrow> ((c, e), w)))"

text \<open>
  C11. Whatever call fails, a transaction on the identity cache moves the cache file by the abstract steps only,
  each of them whole: at every moment a crash leaves the cache before or after a step, never a torn or
  missing one. A transaction that reports success left on disk the cache it has in memory, and it is valid.
\<close>

theorem cache_refines:
  assumes "deps_ok kd"
  shows "case identityTransaction kd nr cmds w of ((c, e), w') \<Rightarrow>
    moved kd diskStep w w' \<and> (e = None \<longrightarrow> diskCache kd w' = Some c \<and> validCache kd c)"
proof -
  obtain c e w' where r: "identityTransaction kd nr cmds w = ((c, e), w')" by (metis prod.exhaust)
  have "moved kd diskStep w w' \<and> (e = None \<longrightarrow> diskCache kd w' = Some c \<and> validCache kd c) \<and>
      (c = emptyIdentityCache \<or> (\<exists>u e' u'. (case loadConnectorIdentityCacheUnlocked kd u of
          (Inl x, w) \<Rightarrow> ((emptyIdentityCache, Some x), w)
        | (Inr c, w) \<Rightarrow> (case runTransaction kd nr cmds c w of (e, c, w) \<Rightarrow> ((c, e), w))) = ((c, e'), u')))"
  proof (rule lock_contract [where P = "\<lambda>c w. diskCache kd w = Some c \<and> validCache kd c", OF _ _ _ r [unfolded identityTransaction_def]])
    show "diskStep a a" for a by (simp add: diskBy_def)
  next
    fix u v e u'
    assume a: "(case loadConnectorIdentityCacheUnlocked kd u of
        (Inl x, w) \<Rightarrow> ((emptyIdentityCache, Some x), w)
      | (Inr c, w) \<Rightarrow> (case runTransaction kd nr cmds c w of (e, c, w) \<Rightarrow> ((c, e), w))) = ((v, e), u')"
    obtain q t where l: "loadConnectorIdentityCacheUnlocked kd u = (q, t)" by fastforce
    note L = cacheLoad_quiet [OF l]
    show "moved kd diskStep u u' \<and> (e = None \<longrightarrow> diskCache kd u' = Some v \<and> validCache kd v)"
    proof (cases q)
      case (Inl x)
      then show ?thesis using a l L quiet_step by auto
    next
      case (Inr c0)
      then have "runTransaction kd nr cmds c0 t = (e, v, u')" using a l by (auto split: prod.splits)
      from transaction_refines [OF _ _ assms this] L Inr show ?thesis
        using moved_trans quiet_step by blast
    qed
  qed (use quiet_moved in metis)
  then show ?thesis using r by simp
qed

text \<open>The cache without bindings, and a first start that binds the agent id.\<close>

definition emptyDocument :: "string \<Rightarrow> string" where
  "emptyDocument a = printValue (JsObject [(''version'', JsNumber (fmtInt connectorIdentityCacheVersion)),
     (''agent_id'', JsString a), (''identities'', JsArray []), (''pending_requests'', JsArray [])])"

lemma empty_document: "printValue (envelopeJSON (emptyIdentityCache\<lparr>icAgentID := a\<rparr>)) = emptyDocument a"
  by (simp add: envelopeJSON_def emptyDocument_def emptyIdentityCache_def keysOfMap_def valuesOf_def
      sorted_list_of_fset.rep_eq List.map_filter_def)

lemma empty_encodes:
  assumes "a = '''' \<or> validateCachedAgentID a = None" "length (emptyDocument a) \<le> connectorIdentityCacheMaxBytes"
  shows "encodeCache kd (emptyIdentityCache\<lparr>icAgentID := a\<rparr>) = Inr (emptyDocument a)"
  using assms unfolding encode_exact empty_document
  by (auto simp add: validAgent_def validBindings_def validPending_def emptyIdentityCache_def)

lemma empty_lengths:
  "length (emptyDocument '''') \<le> connectorIdentityCacheMaxBytes"
  "length (emptyDocument ''agent_1'') \<le> connectorIdentityCacheMaxBytes" "emptyDocument '''' \<noteq> ''''"
proof -
  have "length (emptyDocument '''') < 100" "length (emptyDocument ''agent_1'') < 100" "emptyDocument '''' \<noteq> ''''"
    by code_simp+
  then show "length (emptyDocument '''') \<le> connectorIdentityCacheMaxBytes"
    "length (emptyDocument ''agent_1'') \<le> connectorIdentityCacheMaxBytes" "emptyDocument '''' \<noteq> ''''"
    by (simp_all add: connectorIdentityCacheMaxBytes_def)
qed

lemma example_encode:
  "encodeCache kd (emptyIdentityCache\<lparr>icAgentID := ''agent_1''\<rparr>) = Inr (emptyDocument ''agent_1'')"
proof (rule empty_encodes [OF _ empty_lengths(2)])
  have "validateCachedAgentID ''agent_1'' = None" by code_simp
  then show "''agent_1'' = '''' \<or> validateCachedAgentID ''agent_1'' = None" by blast
qed

lemma example_decode: "decodeCache exampleDeps (emptyDocument '''') = Inr emptyIdentityCache"
  by (rule save_load [OF _ _ example_deps])
    (use empty_encodes [OF _ empty_lengths(1)] in \<open>simp_all add: ownersDistinct_def emptyIdentityCache_def\<close>)

theorem cache_file_exact_witness:
  "deps_ok exampleDeps \<and>
   decodeCache exampleDeps (printValue (envelopeJSON (emptyIdentityCache\<lparr>icAgentID := ''agent_1''\<rparr>))) =
     Inr (emptyIdentityCache\<lparr>icAgentID := ''agent_1''\<rparr>)"
proof -
  let ?c = "emptyIdentityCache\<lparr>icAgentID := ''agent_1''\<rparr>"
  have "validateCachedAgentID ''agent_1'' = None" by code_simp
  then have "validCache exampleDeps ?c"
    by (simp add: validCache_def validAgent_def validBindings_def validPending_def ownersDistinct_def emptyIdentityCache_def)
  moreover have "\<not> connectorIdentityCacheMaxBytes < length (printValue (envelopeJSON ?c))"
    unfolding empty_document using empty_lengths(2) by simp
  ultimately show ?thesis using cache_file_exact [OF example_deps, of _ ?c] example_deps by blast
qed

definition exampleWorld :: cacheWorld where
  "exampleWorld = \<lparr>cwNs = \<lparr>nsFiles = [(connectorIdentityCacheFile, newFileOf (emptyDocument '''')),
      (connectorIdentityCacheLockFile, newFileOf [])], nsTrace = []\<rparr>,
    cwTick = 0, cwFaults = (\<lambda>_. None), cwRandom = (\<lambda>_. [7]), cwShort = 0, cwCreateMode = 384, cwReadOnly = False\<rparr>"

lemma quiet_sys: "cwFaults w = (\<lambda>_. None) \<Longrightarrow> sys w = (None, w\<lparr>cwTick := Suc (cwTick w)\<rparr>)"
  by (simp add: sys_def)

lemma example_run:
  "snd (fst (identityTransaction exampleDeps (\<lambda>_ _ _. Inl (NewErr ''no nonce'')) [CmdBind ''agent_1''] exampleWorld)) = None"
proof -
  define tmp where "tmp = cacheTempName connectorIdentityCacheFile [7]"
  have names: "tmp \<noteq> connectorIdentityCacheFile" "tmp \<noteq> connectorIdentityCacheLockFile"
    "connectorIdentityCacheLockFile \<noteq> connectorIdentityCacheFile"
    by (simp_all add: tmp_def cacheTempName_def connectorIdentityCacheFile_def connectorIdentityCacheLockFile_def)
  have empty: "icAgentID emptyIdentityCache = ''''" "icByID emptyIdentityCache = fmempty" "icPending emptyIdentityCache = fmempty"
    by (simp_all add: emptyIdentityCache_def)
  have agent: "validateCachedAgentID ''agent_1'' = None" by code_simp
  have fits: "\<not> connectorIdentityCacheMaxBytes < length (emptyDocument '''')" using empty_lengths(1) by simp
  note syscalls = quiet_sys sysDo_def onDir_def lstatEntry_def takeLock_def validateConnectorIdentityCacheNamespace_def
    lookupFile_def validateRegular_def privateFile_def newFileOf_def updateFile_def renameFile_def commitFiles_def
    update_conv' delete_conv'
  note writes = bindAgentIDLocked_def saveConnectorIdentityCacheUnlocked_def writeConnectorIdentityCacheDurable_def
    stageCacheTemp_def commitCache_def
  show ?thesis
    by (simp add: identityTransaction_def withConnectorIdentityCacheLock_def exampleWorld_def
      loadConnectorIdentityCacheUnlocked_def openConnectorIdentityCache_def readCacheFile_def syscalls writes
      example_decode empty_lengths(3) fits example_encode names names [symmetric] empty agent tmp_def [symmetric] Let_def)
qed

theorem cache_refines_witness:
  "deps_ok exampleDeps \<and>
   (case identityTransaction exampleDeps (\<lambda>_ _ _. Inl (NewErr ''no nonce'')) [CmdBind ''agent_1''] exampleWorld of
      ((c, e), w') \<Rightarrow> moved exampleDeps diskStep exampleWorld w' \<and> e = None \<and>
        diskCache exampleDeps w' = Some c \<and> validCache exampleDeps c)"
  using cache_refines [OF example_deps, where nr = "\<lambda>_ _ _. Inl (NewErr ''no nonce'')" and cmds = "[CmdBind ''agent_1'']"
      and w = exampleWorld]
    example_run example_deps by (auto split: prod.splits)

end
