(* ===== verification/Identity_Resolve.thy ===== *)
theory Identity_Resolve
  imports Identity_Store Config_Model
begin

text \<open>
  The start of \<open>run\<close> (\<open>cmd/frpc/run.go\<close>, \<open>route_identity.go\<close>, \<open>knock_resource.go\<close>): the checks of the configured
  routes against the identity cache, and the resolution of every route with the assigned cell.

  \<open>rvSent\<close> records each request given to the cell with the directory it was sent from; the code keeps no such
  list. The answer of the cell is the function \<open>resolve\<close> of the request and the number of the call, an error, no
  resource or a resource. \<open>qurlcrid.Validate\<close> is \<open>kdCridValidate\<close>; the environment is a function.
\<close>

record resolveState =
  rvWorld :: cacheWorld
  rvCache :: identityCache
  rvConfig :: Config
  rvSent :: "(dir \<times> resourceRequest) list"

definition envConnectorID :: string where "envConnectorID = ''QURL_CONNECTOR_ID''"
definition EnvKnockResourceID :: string where "EnvKnockResourceID = ''LAYERV_KNOCK_RESOURCE_ID''"

definition routeIDEnvFallback :: "(string \<Rightarrow> string option) \<Rightarrow> string" where
  "routeIDEnvFallback env = trimSpace (getenv env envConnectorID)"

text \<open>\<open>routes\<close> is the number of configured routes.\<close>

definition routeIDWithFallback :: "nat \<Rightarrow> ConfigRoute \<Rightarrow> string \<Rightarrow> string" where
  "routeIDWithFallback routes r fallbackID =
     (if roID r \<noteq> '''' then roID r
      else if routes = 1 \<and> roCRID r = '''' then fallbackID
      else '''')"

definition knockResourceIDOrEmpty :: "(string \<Rightarrow> string option) \<Rightarrow> Config \<Rightarrow> string \<Rightarrow> string" where
  "knockResourceIDOrEmpty env c resourceID =
     (let explicit = trimSpace (getenv env EnvKnockResourceID) in
      if explicit \<noteq> '''' then explicit else KnockResourceID resourceID c)"

section \<open>Checks before any network work\<close>

fun runRoutesErr :: "nat \<Rightarrow> string \<Rightarrow> nat \<Rightarrow> string set \<Rightarrow> ConfigRoute list \<Rightarrow> err option" where
  "runRoutesErr n fallbackID i seen [] = None"
| "runRoutesErr n fallbackID i seen (r # rs) =
     (let id = routeIDWithFallback n r fallbackID in
      if roType r \<noteq> RouteTypeHTTP then Some (NewErr (routeTag i r @ '': run supports managed HTTP routes only''))
      else if id = '''' then Some (NewErr (routePrefix i @ '' needs id''))
      else if id \<in> seen then Some (NewErr (routePrefix i @ '' duplicate Connector id''))
      else (case ValidateSlug id of
          Some x \<Rightarrow> Some (Errorf (routeTag i r @ '': invalid Connector id'') x)
        | None \<Rightarrow> runRoutesErr n fallbackID (Suc i) (insert id seen) rs))"

definition validateConnectorRunRoutes :: "(string \<Rightarrow> string option) \<Rightarrow> Config \<Rightarrow> err option" where
  "validateConnectorRunRoutes env c =
     runRoutesErr (length (cfRoutes c)) (routeIDEnvFallback env) 0 {} (cfRoutes c)"

text \<open>The loop of \<open>validateConfiguredConnectorIdentityGraph\<close>; \<open>owners\<close> are the CRIDs met so far.\<close>

fun graphIDs ::
  "keyDeps \<Rightarrow> identityCache \<Rightarrow> nat \<Rightarrow> string \<Rightarrow> nat \<Rightarrow> string set \<Rightarrow> string set \<Rightarrow> ConfigRoute list \<Rightarrow> string set res" where
  "graphIDs kd c n fallbackID i ids owners [] = Inr ids"
| "graphIDs kd c n fallbackID i ids owners (r # rs) =
     (let id = routeIDWithFallback n r fallbackID in
      case ValidateSlug id of
        Some x \<Rightarrow> Inl (Errorf (routePrefix i @ '': invalid Connector id'') x)
      | None \<Rightarrow>
          if id \<in> ids then Inl (NewErr (routePrefix i @ '': duplicate Connector id''))
          else
            (let binding = fmlookup (icByID c) id;
                 cachedCRID = (case binding of Some b \<Rightarrow> ceCRID b | None \<Rightarrow> '''');
                 value = (if roCRID r = '''' then cachedCRID else roCRID r) in
             if roConnectorRoutingID r \<noteq> '''' \<and>
                (case binding of Some b \<Rightarrow> roConnectorRoutingID r \<noteq> ceConnectorRoutingID b | None \<Rightarrow> False) then
               Inl (NewErr ''pinned connector_routing_id conflicts with cached connector_routing_id'')
             else if roCRID r \<noteq> '''' \<and> (case binding of Some b \<Rightarrow> roCRID r \<noteq> ceCRID b | None \<Rightarrow> False) then
               Inl (NewErr ''pinned crid conflicts with cached crid'')
             else if value = '''' then graphIDs kd c n fallbackID (Suc i) (insert id ids) owners rs
             else (case kdCridValidate kd value of
                 Some x \<Rightarrow> Inl (Errorf ''invalid crid'' x)
               | None \<Rightarrow>
                   if value \<in> owners then Inl (NewErr ''routes resolve to duplicate crid'')
                   else graphIDs kd c n fallbackID (Suc i) (insert id ids) (insert value owners) rs)))"

definition validateConfiguredConnectorIdentityGraph ::
  "keyDeps \<Rightarrow> (string \<Rightarrow> string option) \<Rightarrow> Config \<Rightarrow> identityCache \<Rightarrow> string set res" where
  "validateConfiguredConnectorIdentityGraph kd env cfg c =
     graphIDs kd c (length (cfRoutes cfg)) (routeIDEnvFallback env) 0 {} {} (cfRoutes cfg)"

definition rejectOrphanIdentities :: "string set \<Rightarrow> identityCache \<Rightarrow> err option" where
  "rejectOrphanIdentities configuredIDs c =
     (case List.find (\<lambda>k. k \<notin> configuredIDs) (keysOfMap (icByID c)) of
        Some k \<Rightarrow> Some (NewErr (''identity cache contains orphan id '' @ k))
      | None \<Rightarrow> (case List.find (\<lambda>k. k \<notin> configuredIDs) (keysOfMap (icPending c)) of
          Some k \<Rightarrow> Some (NewErr (''pending journal contains orphan id '' @ k))
        | None \<Rightarrow> None))"

definition preflightConnectorIdentityCacheGraphLocked ::
  "keyDeps \<Rightarrow> (string \<Rightarrow> string option) \<Rightarrow> Config \<Rightarrow> cacheWorld \<Rightarrow> err option \<times> cacheWorld" where
  "preflightConnectorIdentityCacheGraphLocked kd env cfg w = (case loadConnectorIdentityCacheUnlocked kd w of
      (Inl x, w) \<Rightarrow> (Some x, w)
    | (Inr c, w) \<Rightarrow> (case validateConfiguredConnectorIdentityGraph kd env cfg c of
        Inl x \<Rightarrow> (Some x, w)
      | Inr ids \<Rightarrow> (rejectOrphanIdentities ids c, w)))"

section \<open>State continuity around each step\<close>

text \<open>\<open>connectorIdentityTransactionContinuity\<close>: the SDK store, the namespace, the SDK store again.\<close>

definition validateContinuity :: "cacheWorld \<Rightarrow> err option \<times> cacheWorld" where
  "validateContinuity w = (case sys w of
      (Some x, w) \<Rightarrow> (Some x, w)
    | (None, w) \<Rightarrow> (case validateConnectorIdentityCacheNamespace w of
        (Some x, w) \<Rightarrow> (Some (Multi (TMsg ''state continuity'') [Sentinel QAgentStateContinuity, x]), w)
      | (None, w) \<Rightarrow> sys w))"

definition gateConnectorStateContinuity ::
  "string \<Rightarrow> ('s resolveState_scheme \<Rightarrow> err option \<times> 's resolveState_scheme) \<Rightarrow> 's resolveState_scheme \<Rightarrow>
   err option \<times> 's resolveState_scheme" where
  "gateConnectorStateContinuity operation fn s = (case validateContinuity (rvWorld s) of
      (Some x, w) \<Rightarrow> (Some (Errorf (''validate SDK state before '' @ operation) x), s\<lparr>rvWorld := w\<rparr>)
    | (None, w) \<Rightarrow> (case fn (s\<lparr>rvWorld := w\<rparr>) of (operationErr, s) \<Rightarrow>
        (case validateContinuity (rvWorld s) of
           (Some x, w) \<Rightarrow>
             (errorsJoin [operationErr, Some (Errorf (''validate SDK state after '' @ operation) x)], s\<lparr>rvWorld := w\<rparr>)
         | (None, w) \<Rightarrow> (operationErr, s\<lparr>rvWorld := w\<rparr>))))"

text \<open>The value \<open>fn\<close> returned is kept beside the state.\<close>

definition gateConnectorStateResult ::
  "string \<Rightarrow> ('s resolveState_scheme \<Rightarrow> 'a res \<times> 's resolveState_scheme) \<Rightarrow> 's resolveState_scheme \<Rightarrow>
   'a res \<times> 's resolveState_scheme" where
  "gateConnectorStateResult operation fn s = (case validateContinuity (rvWorld s) of
      (Some x, w) \<Rightarrow> (Inl (Errorf (''validate SDK state before '' @ operation) x), s\<lparr>rvWorld := w\<rparr>)
    | (None, w) \<Rightarrow> (case fn (s\<lparr>rvWorld := w\<rparr>) of (r, s) \<Rightarrow>
        (case validateContinuity (rvWorld s) of
           (Some x, w) \<Rightarrow>
             (Inl (the (errorsJoin [case r of Inl e \<Rightarrow> Some e | Inr _ \<Rightarrow> None,
                Some (Errorf (''validate SDK state after '' @ operation) x)])), s\<lparr>rvWorld := w\<rparr>)
         | (None, w) \<Rightarrow> (r, s\<lparr>rvWorld := w\<rparr>))))"


section \<open>The plan\<close>

text \<open>\<open>identityResolution\<close>: which route, under which id, with which CRID asserted.\<close>

record identityResolution =
  irIndex :: nat
  irID :: string
  irExpectedCRID :: string

text \<open>A blank id is replaced by the fallback.\<close>

definition namedRoute :: "nat \<Rightarrow> string \<Rightarrow> ConfigRoute \<Rightarrow> ConfigRoute" where
  "namedRoute n fallbackID r = (let id = routeIDWithFallback n r fallbackID in
     if trimSpace (roID r) = '''' \<and> id \<noteq> '''' then r\<lparr>roID := id\<rparr> else r)"

definition pendingAsserts :: "identityCache \<Rightarrow> string \<Rightarrow> string \<Rightarrow> bool" where
  "pendingAsserts c i expectedCRID = (case fmlookup (icPending c) i of
      None \<Rightarrow> True
    | Some p \<Rightarrow> (case prExpectedCRID p of Some s \<Rightarrow> s | None \<Rightarrow> '''') = expectedCRID)"

text \<open>The first loop: its error, the routes as it left them, and the resolutions.\<close>

fun planRoutes ::
  "keyDeps \<Rightarrow> identityCache \<Rightarrow> nat \<Rightarrow> string \<Rightarrow> nat \<Rightarrow> string set \<Rightarrow> string set \<Rightarrow> ConfigRoute list \<Rightarrow>
   err option \<times> ConfigRoute list \<times> identityResolution list" where
  "planRoutes kd c n fallbackID i seen requested [] = (None, [], [])"
| "planRoutes kd c n fallbackID i seen requested (r # rs) =
     (let id = routeIDWithFallback n r fallbackID;
          r' = namedRoute n fallbackID r;
          refuse = (\<lambda>e. (Some e, r' # rs, [])) in
      if id = '''' \<and> roCRID r = '''' then refuse (NewErr (routePrefix i @ '' needs id''))
      else (case ValidateSlug id of
          Some x \<Rightarrow> refuse (Errorf (routePrefix i @ '': invalid Connector id'') x)
        | None \<Rightarrow>
            if id \<in> seen then refuse (NewErr (routePrefix i @ '' duplicate Connector id''))
            else
              (let cached = fmlookup (icByID c) id;
                   expectedCRID = (if roCRID r = '''' then (case cached of Some b \<Rightarrow> ceCRID b | None \<Rightarrow> '''') else roCRID r) in
               if roCRID r \<noteq> '''' \<and> (case cached of Some b \<Rightarrow> ceCRID b \<noteq> roCRID r | None \<Rightarrow> False) then
                 refuse (NewErr ''pinned crid conflicts with cached crid'')
               else (case (if expectedCRID = '''' then None else kdCridValidate kd expectedCRID) of
                   Some x \<Rightarrow> refuse (Errorf ''invalid crid'' x)
                 | None \<Rightarrow>
                     if expectedCRID \<noteq> '''' \<and> expectedCRID \<in> requested then
                       refuse (NewErr ''routes assert duplicate crid before NHP resource discovery'')
                     else if \<not> pendingAsserts c id expectedCRID then
                       refuse (NewErr ''durable NHP request asserts another crid'')
                     else (case planRoutes kd c n fallbackID (Suc i) (insert id seen)
                              (if expectedCRID = '''' then requested else insert expectedCRID requested) rs of
                         (e, rs', plan) \<Rightarrow>
                           (e, r' # rs', \<lparr>irIndex = i, irID = id, irExpectedCRID = expectedCRID\<rparr> # plan))))))"

section \<open>Resolving one route\<close>

definition authoritativeConnectorResourceRejection :: "err \<Rightarrow> bool" where
  "authoritativeConnectorResourceRejection e = list_ex (\<lambda>s. errorsIs e (Qurl s))
     [''ConnectorResourceIdentityRejected'', ''ConnectorResourceEntitlementDenied'',
      ''ConnectorResourceIdentityConflict'', ''ConnectorResourceQuotaExceeded'',
      ''ConnectorResourceRequestRejected'']"

type_synonym newRequest = "string \<Rightarrow> string \<Rightarrow> nat \<Rightarrow> resourceRequest res"
type_synonym resolveFunc = "resourceRequest \<Rightarrow> nat \<Rightarrow> ConnectorResource option res"

definition persistRequest ::
  "keyDeps \<Rightarrow> newRequest \<Rightarrow> string \<Rightarrow> string \<Rightarrow> resolveState \<Rightarrow> resourceRequest res \<times> resolveState" where
  "persistRequest kd newRequest i expectedCRID s =
     (case ensurePendingRequestLocked kd newRequest i expectedCRID (rvCache s) (rvWorld s) of
        (r, c, w) \<Rightarrow> (r, s\<lparr>rvCache := c, rvWorld := w\<rparr>))"

definition dispatchRequest ::
  "resolveFunc \<Rightarrow> resourceRequest \<Rightarrow> resolveState \<Rightarrow> ConnectorResource option res \<times> resolveState" where
  "dispatchRequest resolve request s =
     (resolve request (cwTick (rvWorld s)),
      s\<lparr>rvWorld := (rvWorld s)\<lparr>cwTick := Suc (cwTick (rvWorld s))\<rparr>,
        rvSent := rvSent s @ [(nsFiles (cwNs (rvWorld s)), request)]\<rparr>)"

text \<open>An operation on the cache, within the state.\<close>

definition onCache ::
  "(identityCache \<Rightarrow> cacheWorld \<Rightarrow> cacheOp) \<Rightarrow> 's resolveState_scheme \<Rightarrow> err option \<times> 's resolveState_scheme" where
  "onCache f s = (case f (rvCache s) (rvWorld s) of (e, c, w) \<Rightarrow> (e, s\<lparr>rvCache := c, rvWorld := w\<rparr>))"

text \<open>The checks after the binding is recorded, and the fields the route takes over.\<close>

definition adoptResource :: "nat \<Rightarrow> ConfigRoute \<Rightarrow> ConnectorResource \<Rightarrow> Config \<Rightarrow> err option \<times> Config" where
  "adoptResource idx route r cfg =
     (if roConnectorRoutingID route \<noteq> '''' \<and> roConnectorRoutingID route \<noteq> crConnectorRoutingID r then
        (Some (NewErr ''configured connector_routing_id conflicts with authenticated producer value''), cfg)
      else if roKnockResourceID route \<noteq> '''' \<and> roKnockResourceID route \<noteq> crKnockResourceID r then
        (Some (NewErr ''configured knock_resource_id conflicts with authenticated producer value''), cfg)
      else (case FirstDifferentKnockResourceID (crResourcePublicKey r) (crKnockResourceID r) cfg of
          Some _ \<Rightarrow> (Some (NewErr ''one FRP control session cannot span NHP admission targets''), cfg)
        | None \<Rightarrow>
            (None, SetKnockResourceID (crResourcePublicKey r) (crKnockResourceID r)
               (cfg\<lparr>cfRoutes := (cfRoutes cfg)[idx := (cfRoutes cfg ! idx)\<lparr>roResourcePublicKey := crResourcePublicKey r,
                  roCRID := crCRID r, roConnectorRoutingID := crConnectorRoutingID r\<rparr>]\<rparr>))))"

definition resolveRoute ::
  "keyDeps \<Rightarrow> newRequest \<Rightarrow> resolveFunc \<Rightarrow> identityResolution \<Rightarrow> resolveState \<Rightarrow> err option \<times> resolveState" where
  "resolveRoute kd newRequest resolve p s =
     (let id = irID p; route = cfRoutes (rvConfig s) ! irIndex p in
      case gateConnectorStateResult ''persist exact Connector resource LST request''
             (persistRequest kd newRequest id (irExpectedCRID p)) s of
        (Inl x, s) \<Rightarrow> (Some (Errorf ''persist exact NHP request before dispatch'' x), s)
      | (Inr request, s) \<Rightarrow>
          (case gateConnectorStateResult ''resolve Connector resource over assigned-cell NHP''
                  (dispatchRequest resolve request) s of
             (Inl resolveErr, s) \<Rightarrow>
               (let failed = Some (Errorf ''native Connector resource discovery failed'' resolveErr) in
                if authoritativeConnectorResourceRejection resolveErr then
                  (case gateConnectorStateContinuity ''clear terminal Connector resource LST request''
                          (onCache (clearPendingLocked kd id)) s of
                     (Some x, s) \<Rightarrow>
                       (errorsJoin [Some (Errorf id resolveErr), Some (Errorf ''clear terminal NHP request'' x)], s)
                   | (None, s) \<Rightarrow> (failed, s))
                else (failed, s))
           | (Inr None, s) \<Rightarrow> (Some (NewErr ''assigned cell returned no Connector resource''), s)
           | (Inr (Some r), s) \<Rightarrow>
               if irExpectedCRID p \<noteq> '''' \<and> crCRID r \<noteq> irExpectedCRID p then
                 (Some (NewErr ''assigned cell returned another crid than asserted''), s)
               else if crSlug r \<noteq> id then (Some (NewErr ''assigned cell returned mismatched Connector id''), s)
               else (case gateConnectorStateContinuity ''persist complete Connector resource binding''
                            (onCache (recordResolutionLocked kd id (Some r))) s of
                   (Some x, s) \<Rightarrow> (Some (Errorf ''persist authenticated Connector binding before startup'' x), s)
                 | (None, s) \<Rightarrow> (case adoptResource (irIndex p) route r (rvConfig s) of
                     (e, cfg) \<Rightarrow> (e, s\<lparr>rvConfig := cfg\<rparr>)))))"

fun resolveRoutes ::
  "keyDeps \<Rightarrow> newRequest \<Rightarrow> resolveFunc \<Rightarrow> identityResolution list \<Rightarrow> resolveState \<Rightarrow> err option \<times> resolveState" where
  "resolveRoutes kd newRequest resolve [] s = (None, s)"
| "resolveRoutes kd newRequest resolve (p # ps) s = (case resolveRoute kd newRequest resolve p s of
      (Some x, s) \<Rightarrow> (Some x, s)
    | (None, s) \<Rightarrow> resolveRoutes kd newRequest resolve ps s)"

section \<open>Resolving the configuration\<close>

definition resolveConnectorIdentitiesLocked ::
  "keyDeps \<Rightarrow> newRequest \<Rightarrow> resolveFunc \<Rightarrow> (string \<Rightarrow> string option) \<Rightarrow> resolveState \<Rightarrow> err option \<times> resolveState" where
  "resolveConnectorIdentitiesLocked kd newRequest resolve env s =
     (case ValidateManagedRouteIdentities (cfRoutes (rvConfig s)) of
        Some x \<Rightarrow> (Some (Errorf ''configured Connector identity graph is invalid'' x), s)
      | None \<Rightarrow> (case loadConnectorIdentityCacheUnlocked kd (rvWorld s) of
          (Inl x, w) \<Rightarrow> (Some x, s\<lparr>rvWorld := w\<rparr>)
        | (Inr c, w) \<Rightarrow>
            (case planRoutes kd c (length (cfRoutes (rvConfig s))) (routeIDEnvFallback env) 0 {} {} (cfRoutes (rvConfig s)) of
               (e, routes, plan) \<Rightarrow>
                 (let s = s\<lparr>rvWorld := w, rvCache := c, rvConfig := (rvConfig s)\<lparr>cfRoutes := routes\<rparr>\<rparr> in
                  case e of
                    Some x \<Rightarrow> (Some x, s)
                  | None \<Rightarrow> (case rejectOrphanIdentities (set (map irID plan)) c of
                      Some x \<Rightarrow> (Some x, s)
                    | None \<Rightarrow> (case resolveRoutes kd newRequest resolve plan s of
                        (Some x, s) \<Rightarrow> (Some x, s)
                      | (None, s) \<Rightarrow>
                          (map_option (Errorf ''assigned cell returned an invalid Connector identity graph'')
                             (ValidateManagedRouteIdentities (cfRoutes (rvConfig s))), s)))))))"

text \<open>\<open>resolveConnectorIdentities\<close>: under the lock, bind the cache to the agent, then resolve.\<close>

definition resolveConnectorIdentities ::
  "keyDeps \<Rightarrow> newRequest \<Rightarrow> resolveFunc \<Rightarrow> (string \<Rightarrow> string option) \<Rightarrow> string \<Rightarrow> Config \<Rightarrow> cacheWorld \<Rightarrow>
   ((Config \<times> identityCache \<times> (dir \<times> resourceRequest) list) \<times> err option) \<times> cacheWorld" where
  "resolveConnectorIdentities kd newRequest resolve env agentID cfg =
     withConnectorIdentityCacheLock (cfg, emptyIdentityCache, [])
       (\<lambda>w. let none = (cfg, emptyIdentityCache, []) in
          case rejectLegacyConnectorIdentityStateLocked w of
            (Some x, w) \<Rightarrow> ((none, Some x), w)
          | (None, w) \<Rightarrow> (case loadConnectorIdentityCacheUnlocked kd w of
              (Inl x, w) \<Rightarrow> ((none, Some x), w)
            | (Inr c, w) \<Rightarrow>
                (case gateConnectorStateContinuity ''bind Connector identity cache''
                        (onCache (bindAgentIDLocked kd agentID))
                        \<lparr>rvWorld = w, rvCache = c, rvConfig = cfg, rvSent = []\<rparr> of
                   (Some x, s) \<Rightarrow> ((none, Some x), rvWorld s)
                 | (None, s) \<Rightarrow> (case resolveConnectorIdentitiesLocked kd newRequest resolve env s of
                     (e, s) \<Rightarrow> (((rvConfig s, rvCache s, rvSent s), e), rvWorld s)))))"

end
