(* ===== verification/Connector_Remove.thy ===== *)
theory Connector_Remove
  imports Identity_Resolve
begin

text \<open>
  The \<open>remove\<close> command (\<open>cmd/frpc/remove.go\<close>, \<open>connector_resource_reconcile.go\<close>): the choice of the route or cached
  identity, the reconciliation of its resource with the service, the deletion, and the local commit.

  The service's client is a record of three calls, each a function of its argument and the number of the call;
  \<open>rmCalls\<close> records every call with its answer and \<open>rmSaved\<close> every configuration given to the transaction's
  \<open>Save\<close>, lists the code does not keep. qurl-go's open of the registered client is the operation \<open>openClient\<close>;
  the checks of the API URL (\<open>net/url\<close>) are the function \<open>origin\<close>.
\<close>

datatype apiCall =
    ReadCRID string "ConnectorResource option res"
  | ReadSlug string "ConnectorResource option res"
  | DeleteCRID string "err option"

record apiClient =
  acGet :: "string \<Rightarrow> nat \<Rightarrow> ConnectorResource option res"
  acGetBySlug :: "string \<Rightarrow> nat \<Rightarrow> ConnectorResource option res"
  acDelete :: "string \<Rightarrow> nat \<Rightarrow> err option"

record removeState = resolveState +
  rmCalls :: "apiCall list"
  rmSaved :: "Config list"

definition apiCalled :: "apiCall \<Rightarrow> removeState \<Rightarrow> removeState" where
  "apiCalled call s = s\<lparr>rvWorld := (rvWorld s)\<lparr>cwTick := Suc (cwTick (rvWorld s))\<rparr>, rmCalls := rmCalls s @ [call]\<rparr>"

definition GetConnectorResource ::
  "apiClient \<Rightarrow> string \<Rightarrow> removeState \<Rightarrow> ConnectorResource option res \<times> removeState" where
  "GetConnectorResource cl crid s =
     (let r = acGet cl crid (cwTick (rvWorld s)) in (r, apiCalled (ReadCRID crid r) s))"

definition GetConnectorResourceBySlug ::
  "apiClient \<Rightarrow> string \<Rightarrow> removeState \<Rightarrow> ConnectorResource option res \<times> removeState" where
  "GetConnectorResourceBySlug cl slug s =
     (let r = acGetBySlug cl slug (cwTick (rvWorld s)) in (r, apiCalled (ReadSlug slug r) s))"

definition DeleteConnectorResource :: "apiClient \<Rightarrow> string \<Rightarrow> removeState \<Rightarrow> err option \<times> removeState" where
  "DeleteConnectorResource cl crid s =
     (let e = acDelete cl crid (cwTick (rvWorld s)) in (e, apiCalled (DeleteCRID crid e) s))"

section \<open>Deleting the exact resource\<close>

definition connectorResourceReadProvesDeletion :: "err \<Rightarrow> bool" where
  "connectorResourceReadProvesDeletion e =
     (errorsIs e (Qurl ''ConnectorResourceRevoked'') \<or> errorsIs e (Qurl ''ConnectorResourceTombstoned''))"

definition validateConnectorDeletionTarget :: "ConnectorResource option \<Rightarrow> string \<Rightarrow> string \<Rightarrow> err option" where
  "validateConnectorDeletionTarget resource slug crid = (case resource of
      None \<Rightarrow> Some (NewErr ''qURL service returned no Connector resource while confirming deletion target'')
    | Some r \<Rightarrow>
        if crCRID r \<noteq> crid then Some (NewErr ''Connector id resolved another crid while confirming deletion target'')
        else if crSlug r \<noteq> slug then Some (NewErr ''crid belongs to another Connector id; refusing deletion'')
        else None)"

text \<open>The read before an unverified delete; Inl is the result the function returns at once.\<close>

definition inspectBeforeDeletion ::
  "apiClient \<Rightarrow> string \<Rightarrow> string \<Rightarrow> removeState \<Rightarrow> (bool res + unit) \<times> removeState" where
  "inspectBeforeDeletion cl slug crid s = (case GetConnectorResource cl crid s of
      (Inl lookupErr, s) \<Rightarrow>
        (Inl (if connectorResourceReadProvesDeletion lookupErr then Inr False
              else Inl (Errorf ''inspect qURL resource before deletion'' lookupErr)), s)
    | (Inr resource, s) \<Rightarrow> (case validateConnectorDeletionTarget resource slug crid of
        Some x \<Rightarrow> (Inl (Inl x), s)
      | None \<Rightarrow> (Inr (), s)))"

definition reconcileConnectorResourceDeletion ::
  "apiClient \<Rightarrow> string \<Rightarrow> string \<Rightarrow> bool \<Rightarrow> removeState \<Rightarrow> bool res \<times> removeState" where
  "reconcileConnectorResourceDeletion cl slug crid alreadyVerified s =
     (case (if alreadyVerified then (Inr (), s) else inspectBeforeDeletion cl slug crid s) of
        (Inl r, s) \<Rightarrow> (r, s)
      | (Inr _, s) \<Rightarrow> (case DeleteConnectorResource cl crid s of
          (None, s) \<Rightarrow> (Inr True, s)
        | (Some deleteErr, s) \<Rightarrow>
            if errorsIs deleteErr (Qurl ''ConnectorResourceNotFound'') then
              (Inl (Errorf ''delete returned not found; exact retry identity is preserved'' deleteErr), s)
            else if \<not> errorsIs deleteErr (Qurl ''ConnectorResourceOutcomeUnknown'') then (Inl deleteErr, s)
            else (case GetConnectorResource cl crid s of
                (Inl lookupErr, s) \<Rightarrow>
                  (if connectorResourceReadProvesDeletion lookupErr then Inr True
                   else Inl (the (errorsJoin [Some (Errorf ''delete qURL resource'' deleteErr),
                     Some (Errorf ''reconcile after uncertain deletion'' lookupErr)])), s)
              | (Inr resource, s) \<Rightarrow> (case validateConnectorDeletionTarget resource slug crid of
                  Some x \<Rightarrow> (Inl (the (errorsJoin [Some (Errorf ''delete qURL resource'' deleteErr), Some x])), s)
                | None \<Rightarrow> (Inl (Errorf ''the exact resource is still active; retry state is preserved'' deleteErr), s)))))"

section \<open>Choosing what to remove\<close>

record removalSelection =
  slID :: string
  slCRID :: string
  slRoute :: "nat option"   \<comment> \<open>\<open>routeIndex\<close>, None for -1\<close>
  slPending :: bool

definition cachedCRID :: "identityCache \<Rightarrow> string \<Rightarrow> string" where
  "cachedCRID c i = (case fmlookup (icByID c) i of Some b \<Rightarrow> ceCRID b | None \<Rightarrow> '''')"

text \<open>The loop over the routes: the selections by id, and the owner of each CRID.\<close>

fun selectRoutes ::
  "keyDeps \<Rightarrow> identityCache \<Rightarrow> nat \<Rightarrow> string \<Rightarrow> nat \<Rightarrow> (string, removalSelection) fmap \<Rightarrow> (string, string) fmap \<Rightarrow>
   ConfigRoute list \<Rightarrow> ((string, removalSelection) fmap \<times> (string, string) fmap) res" where
  "selectRoutes kd c n fallbackID i byID byResource [] = Inr (byID, byResource)"
| "selectRoutes kd c n fallbackID i byID byResource (r # rs) =
     (let id = routeIDWithFallback n r fallbackID;
          cached = fmlookup (icByID c) id;
          effective = (if roCRID r = '''' then cachedCRID c id else roCRID r);
          sel = \<lparr>slID = id, slCRID = effective, slRoute = Some i, slPending = isPending id c\<rparr> in
      case ValidateSlug id of
        Some x \<Rightarrow> Inl (Errorf (routePrefix i @ '': invalid Connector id'') x)
      | None \<Rightarrow>
          if fmlookup byID id \<noteq> None then Inl (NewErr ''duplicate Connector id'')
          else if roCRID r \<noteq> '''' \<and> cached \<noteq> None \<and> roCRID r \<noteq> cachedCRID c id then
            Inl (NewErr ''pinned crid conflicts with cached crid'')
          else (case (if effective = '''' then None else kdCridValidate kd effective) of
              Some x \<Rightarrow> Inl (Errorf ''invalid crid'' x)
            | None \<Rightarrow>
                if effective \<noteq> '''' \<and> fmlookup byResource effective \<noteq> None then
                  Inl (NewErr ''Connector ids resolve to duplicate crid'')
                else selectRoutes kd c n fallbackID (Suc i) (fmupd id sel byID)
                       (if effective = '''' then byResource else fmupd effective id byResource) rs))"

text \<open>The cached identities that no route names, in the order of their ids; Go's map order is open.\<close>

fun selectCached ::
  "(string, removalSelection) fmap \<Rightarrow> (string, string) fmap \<Rightarrow> (string \<times> cacheEntry) list \<Rightarrow>
   ((string, removalSelection) fmap \<times> (string, string) fmap) res" where
  "selectCached byID byResource [] = Inr (byID, byResource)"
| "selectCached byID byResource ((k, b) # bs) =
     (if fmlookup byID k \<noteq> None then selectCached byID byResource bs
      else if fmlookup byResource (ceCRID b) \<noteq> None then Inl (NewErr ''Connector ids resolve to duplicate crid'')
      else selectCached (fmupd k \<lparr>slID = k, slCRID = ceCRID b, slRoute = None, slPending = False\<rparr> byID)
             (fmupd (ceCRID b) k byResource) bs)"

definition selectPending :: "string \<Rightarrow> (string, removalSelection) fmap \<Rightarrow> (string, removalSelection) fmap" where
  "selectPending k byID = (case fmlookup byID k of
      Some sel \<Rightarrow> fmupd k (sel\<lparr>slPending := True\<rparr>) byID
    | None \<Rightarrow> fmupd k \<lparr>slID = k, slCRID = '''', slRoute = None, slPending = True\<rparr> byID)"

definition chooseSelection ::
  "string \<Rightarrow> string \<Rightarrow> (string, removalSelection) fmap \<Rightarrow> (string, string) fmap \<Rightarrow> removalSelection res" where
  "chooseSelection ident crid byID byResource =
     (let idSel = (if ident = '''' then None else fmlookup byID ident);
          crSel = (if crid = '''' then None else Option.bind (fmlookup byResource crid) (fmlookup byID)) in
      if ident \<noteq> '''' \<and> idSel = None then Inl (NewErr ''no route or cached Connector identity found with id'')
      else if crid \<noteq> '''' \<and> fmlookup byResource crid = None then
        Inl (NewErr ''no route or cached Connector identity found with CRID'')
      else (case idSel of
          Some sel \<Rightarrow>
            if crid \<noteq> '''' \<and> map_option slID crSel \<noteq> Some (slID sel) then
              Inl (NewErr ''route id and CRID refer to different Connector identities'')
            else if crid \<noteq> '''' \<and> slCRID sel \<noteq> crid then Inl (NewErr ''route id is bound to another CRID'')
            else Inr sel
        | None \<Rightarrow> (case crSel of
            Some sel \<Rightarrow> Inr sel
          | None \<Rightarrow> Inr \<lparr>slID = '''', slCRID = '''', slRoute = Some 0, slPending = False\<rparr>)))"

definition selectConnectorRemoval ::
  "keyDeps \<Rightarrow> (string \<Rightarrow> string option) \<Rightarrow> Config \<Rightarrow> identityCache \<Rightarrow> string \<Rightarrow> string \<Rightarrow> removalSelection res" where
  "selectConnectorRemoval kd env cfg c ident crid =
     (case (if ident = '''' then None else ValidateSlug ident) of
        Some x \<Rightarrow> Inl (Errorf ''invalid Connector id'' x)
      | None \<Rightarrow> (case (if crid = '''' then None else kdCridValidate kd crid) of
          Some x \<Rightarrow> Inl (Errorf ''invalid --crid'' x)
        | None \<Rightarrow> (case selectRoutes kd c (length (cfRoutes cfg)) (routeIDEnvFallback env) 0 fmempty fmempty (cfRoutes cfg) of
            Inl x \<Rightarrow> Inl x
          | Inr (byID, byResource) \<Rightarrow>
              (case selectCached byID byResource
                      (List.map_filter (\<lambda>k. map_option (Pair k) (fmlookup (icByID c) k)) (keysOfMap (icByID c))) of
                 Inl x \<Rightarrow> Inl x
               | Inr (byID, byResource) \<Rightarrow>
                   chooseSelection ident crid (fold selectPending (keysOfMap (icPending c)) byID) byResource))))"

section \<open>The remote part\<close>

text \<open>A pending identity without a CRID: Inl ends the callback with its error, Inr is the CRID found.\<close>

definition inspectPending ::
  "keyDeps \<Rightarrow> apiClient \<Rightarrow> removalSelection \<Rightarrow> removeState \<Rightarrow> (err option + string) \<times> removeState" where
  "inspectPending kd cl sel s =
     (case gateConnectorStateResult ''inspect pending Connector resource by id before removal''
             (GetConnectorResourceBySlug cl (slID sel)) s of
        (Inl lookupErr, s) \<Rightarrow>
          (Inl (if errorsIs lookupErr (Qurl ''ConnectorResourceNotFound'') then None
                else Some (Errorf ''inspect pending Connector id before removal'' lookupErr)), s)
      | (Inr None, s) \<Rightarrow> (Inl (Some (NewErr ''inconsistent management binding'')), s)
      | (Inr (Some r), s) \<Rightarrow>
          if crSlug r \<noteq> slID sel then (Inl (Some (NewErr ''inconsistent management binding'')), s)
          else (case gateConnectorStateContinuity ''persist reconciled Connector identity before removal''
                       (onCache (recordResolutionLocked kd (slID sel) (Some r))) s of
              (Some x, s) \<Rightarrow> (Inl (Some (Errorf ''persist reconciled Connector identity before remote deletion'' x)), s)
            | (None, s) \<Rightarrow> (Inr (crCRID r), s)))"

text \<open>A known CRID: Inl ends the callback, Inr goes on to the deletion.\<close>

definition inspectExact ::
  "keyDeps \<Rightarrow> apiClient \<Rightarrow> string \<Rightarrow> string \<Rightarrow> removeState \<Rightarrow> (err option + unit) \<times> removeState" where
  "inspectExact kd cl slug crid s =
     (case gateConnectorStateResult ''inspect exact Connector resource before deletion'' (GetConnectorResource cl crid) s of
        (Inl lookupErr, s) \<Rightarrow>
          (Inl (if connectorResourceReadProvesDeletion lookupErr then None
                else Some (Errorf ''inspect qURL resource before deletion'' lookupErr)), s)
      | (Inr resource, s) \<Rightarrow> (case validateConnectorDeletionTarget resource slug crid of
          Some x \<Rightarrow> (Inl (Some x), s)
        | None \<Rightarrow> (case gateConnectorStateContinuity ''persist exact management binding before removal''
                         (onCache (recordResolutionLocked kd slug resource)) s of
              (Some x, s) \<Rightarrow> (Inl (Some (Errorf ''persist exact Connector identity before remote deletion'' x)), s)
            | (None, s) \<Rightarrow> (Inr (), s))))"

definition deleteExact :: "apiClient \<Rightarrow> string \<Rightarrow> string \<Rightarrow> removeState \<Rightarrow> err option \<times> removeState" where
  "deleteExact cl slug crid s =
     (case gateConnectorStateResult ''delete exact Connector resource''
             (reconcileConnectorResourceDeletion cl slug crid True) s of
        (Inl x, s) \<Rightarrow> (Some (Errorf ''delete qURL resource; exact identity retained for safe retry'' x), s)
      | (Inr _, s) \<Rightarrow> (None, s))"

text \<open>The callback of \<open>withRegisteredConnectorResourceClient\<close>.\<close>

definition removeRemote :: "keyDeps \<Rightarrow> removalSelection \<Rightarrow> apiClient \<Rightarrow> removeState \<Rightarrow> err option \<times> removeState" where
  "removeRemote kd sel cl s =
     (case (if slPending sel \<and> slCRID sel = '''' then
              (case inspectPending kd cl sel s of
                 (Inl e, s) \<Rightarrow> (Inl e, s)
               | (Inr crid, s) \<Rightarrow> (Inr (crid, True), s))
            else (Inr (slCRID sel, False), s)) of
        (Inl e, s) \<Rightarrow> (e, s)
      | (Inr (crid, verified), s) \<Rightarrow>
          if crid = '''' then (None, s)
          else (case (if verified then (Inr (), s) else inspectExact kd cl (slID sel) crid s) of
              (Inl e, s) \<Rightarrow> (e, s)
            | (Inr _, s) \<Rightarrow> deleteExact cl (slID sel) crid s))"

type_synonym openClient = "nat \<Rightarrow> (apiClient \<times> string) option res"

definition withRegisteredConnectorResourceState ::
  "keyDeps \<Rightarrow> openClient \<Rightarrow> (apiClient \<Rightarrow> removeState \<Rightarrow> err option \<times> removeState) \<Rightarrow> removeState \<Rightarrow>
   err option \<times> removeState" where
  "withRegisteredConnectorResourceState kd openClient fn s =
     (case gateConnectorStateResult ''open registered resource client from exact native identity''
             (\<lambda>s. (openClient (cwTick (rvWorld s)), s\<lparr>rvWorld := (rvWorld s)\<lparr>cwTick := Suc (cwTick (rvWorld s))\<rparr>\<rparr>)) s of
        (Inl x, s) \<Rightarrow> (Some x, s)
      | (Inr None, s) \<Rightarrow> (Some (NewErr ''qurl-go returned no registered resource client''), s)
      | (Inr (Some (cl, actualAgentID)), s) \<Rightarrow>
          (case (if icAgentID (rvCache s) = '''' then
                   (if icByID (rvCache s) \<noteq> fmempty \<or> icPending (rvCache s) \<noteq> fmempty then
                      (Some (NewErr ''unbound Connector identity cache contains continuity state''), s)
                    else (case gateConnectorStateContinuity ''durably bind empty Connector identity cache before removal''
                                 (onCache (bindAgentIDLocked kd actualAgentID)) s of
                        (Some x, s) \<Rightarrow> (Some (Errorf ''bind Connector identity cache before removal'' x), s)
                      | (None, s) \<Rightarrow> (None, s)))
                 else if actualAgentID \<noteq> icAgentID (rvCache s) then
                   (Some (NewErr ''refusing cross-device resource use''), s)
                 else (None, s)) of
             (Some x, s) \<Rightarrow> (Some x, s)
           | (None, s) \<Rightarrow> (case validateContinuity (rvWorld s) of
               (Some x, w) \<Rightarrow> (Some (Errorf ''validate registered device state before resource operation'' x), s\<lparr>rvWorld := w\<rparr>)
             | (None, w) \<Rightarrow> fn cl (s\<lparr>rvWorld := w\<rparr>))))"

definition withRegisteredConnectorResourceClient ::
  "keyDeps \<Rightarrow> (string \<Rightarrow> err option) \<Rightarrow> openClient \<Rightarrow> (apiClient \<Rightarrow> removeState \<Rightarrow> err option \<times> removeState) \<Rightarrow>
   removeState \<Rightarrow> err option \<times> removeState" where
  "withRegisteredConnectorResourceClient kd origin openClient fn s = (case sys (rvWorld s) of
      (Some x, w) \<Rightarrow> (Some x, s\<lparr>rvWorld := w\<rparr>)
    | (None, w) \<Rightarrow>
        (case (case sys w of
                 (Some x, w) \<Rightarrow> (Some x, s\<lparr>rvWorld := w\<rparr>)
               | (None, w) \<Rightarrow> (case origin (cfAPIURL (rvConfig s)) of
                   Some x \<Rightarrow> (Some x, s\<lparr>rvWorld := w\<rparr>)
                 | None \<Rightarrow> withRegisteredConnectorResourceState kd openClient fn (s\<lparr>rvWorld := w\<rparr>))) of
           (e, s) \<Rightarrow> (case sys (rvWorld s) of (c, w) \<Rightarrow> (errorsJoin [e, c], s\<lparr>rvWorld := w\<rparr>))))"

section \<open>The command\<close>

record connectorConfigAccess =
  caTransaction :: bool
  caSnapshot :: bool
  caWriteErr :: "err option"

text \<open>\<open>Close\<close>: each of the two that is open, once.\<close>

definition closeConfigAccess ::
  "connectorConfigAccess \<Rightarrow> cacheWorld \<Rightarrow> (err option \<times> connectorConfigAccess) \<times> cacheWorld" where
  "closeConfigAccess a w =
     (case (if caTransaction a then sys w else (None, w)) of (e1, w) \<Rightarrow>
       (case (if caSnapshot a then sys w else (None, w)) of (e2, w) \<Rightarrow>
         ((errorsJoin [e1, e2], a\<lparr>caTransaction := False, caSnapshot := False\<rparr>), w)))"

definition withoutRoute :: "nat \<Rightarrow> Config \<Rightarrow> Config" where
  "withoutRoute i cfg = cfg\<lparr>cfRoutes := take i (cfRoutes cfg) @ drop (Suc i) (cfRoutes cfg)\<rparr>"

text \<open>The route leaves the configuration. \<open>hasTxn\<close> says the state directory is there.\<close>

definition commitRemoval :: "bool \<Rightarrow> bool \<Rightarrow> nat \<Rightarrow> removeState \<Rightarrow> err option \<times> removeState" where
  "commitRemoval hasTxn hasConfigTxn i s =
     (case (if hasTxn then validateConnectorIdentityCacheNamespace (rvWorld s) else (None, rvWorld s)) of
        (Some x, w) \<Rightarrow> (Some (Errorf ''validate Connector identity continuity before local route commit'' x), s\<lparr>rvWorld := w\<rparr>)
      | (None, w) \<Rightarrow>
          (let s = s\<lparr>rvWorld := w, rvConfig := withoutRoute i (rvConfig s)\<rparr> in
           if \<not> hasConfigTxn then
             (Some (NewErr ''config transaction is unavailable after remote deletion''), s)
           else (case sys (rvWorld s) of (e, w) \<Rightarrow>
             (map_option (Errorf ''saving config after remote deletion; exact identity retained for safe retry'') e,
              s\<lparr>rvWorld := w, rmSaved := rmSaved s @ [rvConfig s]\<rparr>))))"

definition finishRemoval ::
  "keyDeps \<Rightarrow> bool \<Rightarrow> bool \<Rightarrow> removalSelection \<Rightarrow> removeState \<Rightarrow> err option \<times> removeState" where
  "finishRemoval kd hasTxn hasConfigTxn sel s =
     (case (case slRoute sel of Some i \<Rightarrow> commitRemoval hasTxn hasConfigTxn i s | None \<Rightarrow> (None, s)) of
        (Some x, s) \<Rightarrow> (Some x, s)
      | (None, s) \<Rightarrow>
          if hasTxn then
            (case onCache (removeLocked kd (slID sel)) s of (e, s) \<Rightarrow>
              (map_option (Errorf ''prune deleted Connector identity; retry remove to complete cleanup'') e, s))
          else (None, s))"

definition loadForRemoval :: "keyDeps \<Rightarrow> bool \<Rightarrow> removeState \<Rightarrow> err option \<times> removeState" where
  "loadForRemoval kd hasTxn s =
     (if \<not> hasTxn then (None, s\<lparr>rvCache := emptyIdentityCache\<rparr>)
      else (case ensureConnectorIdentityCacheInitializedLocked kd (rvWorld s) of
          (Some x, w) \<Rightarrow> (Some x, s\<lparr>rvWorld := w\<rparr>)
        | (None, w) \<Rightarrow> (case loadConnectorIdentityCacheUnlocked kd w of
            (Inl x, w) \<Rightarrow> (Some x, s\<lparr>rvWorld := w\<rparr>)
          | (Inr c, w) \<Rightarrow> (None, s\<lparr>rvWorld := w, rvCache := c\<rparr>))))"

definition removeConnectorSelection ::
  "keyDeps \<Rightarrow> (string \<Rightarrow> string option) \<Rightarrow> (string \<Rightarrow> err option) \<Rightarrow> openClient \<Rightarrow> bool \<Rightarrow> bool \<Rightarrow> string \<Rightarrow> string \<Rightarrow>
   err option \<Rightarrow> removeState \<Rightarrow> err option \<times> removeState" where
  "removeConnectorSelection kd env origin openClient hasTxn hasConfigTxn ident crid configWriteErr s =
     (case loadForRemoval kd hasTxn s of
        (Some x, s) \<Rightarrow> (Some x, s)
      | (None, s) \<Rightarrow> (case selectConnectorRemoval kd env (rvConfig s) (rvCache s) ident crid of
          Inl x \<Rightarrow> (Some x, s)
        | Inr sel \<Rightarrow>
            if configWriteErr \<noteq> None \<and> slRoute sel \<noteq> None then
              (Some (Errorf ''config is not writable; no qURL resource was changed'' (the configWriteErr)), s)
            else if slCRID sel \<noteq> '''' \<or> slPending sel then
              (if \<not> hasTxn then
                 (Some (NewErr ''Connector id has a resource identity but native device state is absent''), s)
               else (case withRegisteredConnectorResourceClient kd origin openClient (removeRemote kd sel) s of
                   (Some x, s) \<Rightarrow> (Some (Errorf ''registered device state or resource operation unavailable'' x), s)
                 | (None, s) \<Rightarrow> finishRemoval kd hasTxn hasConfigTxn sel s))
            else finishRemoval kd hasTxn hasConfigTxn sel s))"

text \<open>The callback of \<open>runRemove\<close>: an immutable configuration is released first.\<close>

definition removeTransaction ::
  "keyDeps \<Rightarrow> (string \<Rightarrow> string option) \<Rightarrow> (string \<Rightarrow> err option) \<Rightarrow> openClient \<Rightarrow> bool \<Rightarrow> string \<Rightarrow> string \<Rightarrow>
   connectorConfigAccess \<times> removeState \<Rightarrow> cacheWorld \<Rightarrow>
   ((connectorConfigAccess \<times> removeState) \<times> err option) \<times> cacheWorld" where
  "removeTransaction kd env origin openClient hasTxn ident crid v w = (case v of (a, s) \<Rightarrow>
     (case (if caSnapshot a then closeConfigAccess a w else ((None, a), w)) of
        ((Some x, a), w) \<Rightarrow> (((a, s), Some (Errorf ''release immutable config after state-lock handoff'' x)), w)
      | ((None, a), w) \<Rightarrow>
          (case removeConnectorSelection kd env origin openClient hasTxn (caTransaction a) ident crid (caWriteErr a)
                  (s\<lparr>rvWorld := w\<rparr>) of
             (e, s) \<Rightarrow> (((a, s), e), rvWorld s))))"

text \<open>
  \<open>withRemoveConnectorIdentityCache\<close>: without a state directory there is no transaction. \<open>stat\<close> is the outcome
  of \<open>os.Lstat\<close> on the directory.
\<close>

definition withRemoveConnectorIdentityCache ::
  "err option \<Rightarrow> (bool \<Rightarrow> 'v \<Rightarrow> cacheWorld \<Rightarrow> ('v \<times> err option) \<times> cacheWorld) \<Rightarrow> 'v \<Rightarrow> cacheWorld \<Rightarrow>
   ('v \<times> err option) \<times> cacheWorld" where
  "withRemoveConnectorIdentityCache stat fn v w = (case stat of
      None \<Rightarrow> withConnectorIdentityCacheLock v (fn True v) w
    | Some x \<Rightarrow>
        if errorsIs x SOsNotExist then fn False v w
        else ((v, Some (Errorf ''inspect Connector state directory before removal'' x)), w))"

definition runRemove ::
  "keyDeps \<Rightarrow> (string \<Rightarrow> string option) \<Rightarrow> (string \<Rightarrow> err option) \<Rightarrow> openClient \<Rightarrow> err option \<Rightarrow> string \<Rightarrow> string \<Rightarrow>
   connectorConfigAccess \<Rightarrow> Config \<Rightarrow> cacheWorld \<Rightarrow> err option \<times> removeState \<times> cacheWorld" where
  "runRemove kd env origin openClient stat ident crid access cfg w =
     (let s = \<lparr>rvWorld = w, rvCache = emptyIdentityCache, rvConfig = cfg, rvSent = [], rmCalls = [], rmSaved = []\<rparr> in
      if ident = '''' \<and> crid = '''' then
        (Some (NewErr ''provide a route id as argument or use --crid flag''), s, w)
      else (case withRemoveConnectorIdentityCache stat (\<lambda>hasTxn. removeTransaction kd env origin openClient hasTxn ident crid)
                   (access, s) w of
          (((a, s), e), w) \<Rightarrow> (case closeConfigAccess a w of ((c, _), w) \<Rightarrow> (errorsJoin [e, c], s, w))))"

end
