(* ===== verification/Connector_Start.thy ===== *)
theory Connector_Start
  imports Identity_Resolve
begin

text \<open>
  \<open>prepareConnectorRun\<close> of \<open>cmd/frpc/run.go\<close>, from the open configuration to the admitter: what \<open>run\<close> does
  before it serves. \<open>openConnectorRuntime\<close> (modelled under the native runtime) is the operation \<open>openRt\<close>
  with the agent id as its value; closing the runtime or the configuration is one call.
\<close>

record startState =
  ssReleased :: bool     \<comment> \<open>\<open>configAccess == nil\<close>\<close>
  ssOpened :: bool       \<comment> \<open>the runtime was opened\<close>
  ssConfig :: Config
  ssCache :: identityCache
  ssSent :: "(dir \<times> resourceRequest) list"

type_synonym openRuntime = "cacheWorld \<Rightarrow> string res \<times> cacheWorld"

definition bindRuntime :: "keyDeps \<Rightarrow> string \<Rightarrow> resolveState \<Rightarrow> err option \<times> resolveState" where
  "bindRuntime kd agentID s = (case loadConnectorIdentityCacheUnlocked kd (rvWorld s) of
      (Inl x, w) \<Rightarrow> (Some x, s\<lparr>rvWorld := w\<rparr>)
    | (Inr c, w) \<Rightarrow> onCache (bindAgentIDLocked kd agentID) (s\<lparr>rvWorld := w, rvCache := c\<rparr>))"

text \<open>The callback of the transaction.\<close>

definition prepareTransaction ::
  "keyDeps \<Rightarrow> newRequest \<Rightarrow> resolveFunc \<Rightarrow> (string \<Rightarrow> string option) \<Rightarrow> openRuntime \<Rightarrow> startState \<Rightarrow> cacheWorld \<Rightarrow>
   (startState \<times> err option) \<times> cacheWorld" where
  "prepareTransaction kd newRequest resolve env openRt st w =
     (case ensureConnectorIdentityCacheInitializedLocked kd w of
        (Some x, w) \<Rightarrow> ((st, Some x), w)
      | (None, w) \<Rightarrow> (case preflightConnectorIdentityCacheGraphLocked kd env (ssConfig st) w of
          (Some x, w) \<Rightarrow> ((st, Some x), w)
        | (None, w) \<Rightarrow>
            (let st = st\<lparr>ssReleased := True\<rparr> in
             case sys w of
               (Some x, w) \<Rightarrow> ((st, Some (Errorf ''release config access after state-lock handoff'' x)), w)
             | (None, w) \<Rightarrow> (case openRt w of
                 (Inl x, w) \<Rightarrow> ((st, Some (Errorf ''native agent runtime'' x)), w)
               | (Inr agentID, w) \<Rightarrow>
                   (let st = st\<lparr>ssOpened := True\<rparr> in
                    case gateConnectorStateContinuity ''bind Connector identity cache'' (bindRuntime kd agentID)
                           \<lparr>rvWorld = w, rvCache = ssCache st, rvConfig = ssConfig st, rvSent = []\<rparr> of
                      (Some x, s) \<Rightarrow>
                        ((st, Some (Errorf ''bind Connector identity continuity to registered device'' x)), rvWorld s)
                    | (None, s) \<Rightarrow> (case resolveConnectorIdentitiesLocked kd newRequest resolve env s of (e, s) \<Rightarrow>
                        ((st\<lparr>ssConfig := rvConfig s, ssCache := rvCache s, ssSent := rvSent s\<rparr>,
                          map_option (Errorf ''resolve qURL Connector resources over NHP'') e), rvWorld s)))))))"

text \<open>An error joined with that of the close.\<close>

definition closing :: "err option \<Rightarrow> cacheWorld \<Rightarrow> err option \<times> cacheWorld" where
  "closing e w = (case sys w of (c, w) \<Rightarrow> (errorsJoin [e, c], w))"

definition prepareConnectorRun ::
  "keyDeps \<Rightarrow> newRequest \<Rightarrow> resolveFunc \<Rightarrow> (string \<Rightarrow> string option) \<Rightarrow> openRuntime \<Rightarrow> Config \<Rightarrow> cacheWorld \<Rightarrow>
   startState \<times> err option \<times> cacheWorld" where
  "prepareConnectorRun kd newRequest resolve env openRt cfg w =
     (let st = \<lparr>ssReleased = False, ssOpened = False, ssConfig = cfg, ssCache = emptyIdentityCache, ssSent = []\<rparr> in
      if cfRoutes cfg = [] then (st, closing (Some (NewErr ''no routes configured'')) w)
      else (case validateConnectorRunRoutes env cfg of
          Some x \<Rightarrow> (st, closing (Some x) w)
        | None \<Rightarrow>
            (case withConnectorIdentityCacheLock st (prepareTransaction kd newRequest resolve env openRt st) w of
               ((st, e), w) \<Rightarrow>
                 (case (if ssReleased st then (e, w) else closing e w) of
                    (Some x, w) \<Rightarrow> (st, closing (Some x) w)
                  | (None, w) \<Rightarrow> (case Validate (kdCridValidate kd) (ssConfig st) of
                      Some x \<Rightarrow> (st, closing (Some (Errorf ''validate resolved Connector config'' x)) w)
                    | None \<Rightarrow> (case sys w of
                        (Some x, w) \<Rightarrow>
                          (st, closing (Some (Errorf ''validate SDK state before qURL Connector runtime handoff'' x)) w)
                      | (None, w) \<Rightarrow>
                          if knockResourceIDOrEmpty env (ssConfig st) (PrimaryResourceID (ssConfig st)) = '''' then
                            (st, closing (Some (NewErr ''missing NHP knock resource'')) w)
                          else if \<not> ssOpened st then
                            (st, closing (Some (NewErr ''shared native runtime is unavailable'')) w)
                          else (case sys w of
                              (Some x, w) \<Rightarrow> (st, closing (Some x) w)
                            | (None, w) \<Rightarrow> (st, None, w))))))))"

end
