(* ===== verification/Identity_Resolve_Props.thy ===== *)
theory Identity_Resolve_Props
  imports Identity_Resolve Identity_Refine Config_Props
begin

text \<open>
  The start-up resolution: every request is durable before it is sent, the cache file moves by the abstract
  steps of the identity cache, and a resolution that succeeds leaves exactly the bindings of the configured
  routes, with no request in flight.
\<close>

section \<open>Gates\<close>

lemma continuity_quiet: "validateContinuity w = (e, w') \<Longrightarrow> quiet w w'"
proof -
  assume a: "validateContinuity w = (e, w')"
  obtain e1 w1 where 1: "sys w = (e1, w1)" by fastforce
  obtain e2 w2 where 2: "validateConnectorIdentityCacheNamespace w1 = (e2, w2)" by fastforce
  obtain e3 w3 where 3: "sys w2 = (e3, w3)" by fastforce
  have "quiet w w1" "quiet w w2" "quiet w w3"
    using sys_quiet [OF 1] namespace_quiet [OF 2] sys_quiet [OF 3] quiet_trans by blast+
  then show ?thesis using a 1 2 3 by (auto simp: validateContinuity_def split: option.splits)
qed

text \<open>The world of the state changed quietly.\<close>

definition rests :: "'s resolveState_scheme \<Rightarrow> 's resolveState_scheme \<Rightarrow> bool" where
  "rests s s' = (quiet (rvWorld s) (rvWorld s') \<and> s' = s\<lparr>rvWorld := rvWorld s'\<rparr>)"

lemma rests_world [simp]: "rests s (s\<lparr>rvWorld := w\<rparr>) \<longleftrightarrow> quiet (rvWorld s) w"
  by (simp add: rests_def)

text \<open>A gate runs its operation between two quiet steps, or not at all and then fails.\<close>

lemma gate_cases:
  assumes "gateConnectorStateContinuity op fn s = (e, s')"
  obtains "e \<noteq> None" "rests s s'"
    | s1 e1 s2 where "rests s s1" "fn s1 = (e1, s2)" "rests s2 s'" "e = None \<longrightarrow> e1 = None"
proof -
  obtain x w where v: "validateContinuity (rvWorld s) = (x, w)" by fastforce
  obtain e1 s2 where f: "fn (s\<lparr>rvWorld := w\<rparr>) = (e1, s2)" by fastforce
  obtain y u where v2: "validateContinuity (rvWorld s2) = (y, u)" by fastforce
  note q = continuity_quiet [OF v] continuity_quiet [OF v2]
  show thesis
  proof (cases x)
    case None
    show thesis
      by (rule that(2) [of "s\<lparr>rvWorld := w\<rparr>" e1 s2])
        (use assms v f v2 None q in \<open>auto simp: gateConnectorStateContinuity_def split: option.splits\<close>)
  next
    case (Some a)
    show thesis
      by (rule that(1)) (use assms v Some q in \<open>auto simp: gateConnectorStateContinuity_def\<close>)
  qed
qed

lemma gate_result_cases:
  assumes "gateConnectorStateResult op fn s = (r, s')"
  obtains x where "r = Inl x" "rests s s'"
    | s1 r1 s2 where "rests s s1" "fn s1 = (r1, s2)" "rests s2 s'" "\<And>v. r = Inr v \<Longrightarrow> r1 = Inr v"
proof -
  obtain x w where v: "validateContinuity (rvWorld s) = (x, w)" by fastforce
  obtain r1 s2 where f: "fn (s\<lparr>rvWorld := w\<rparr>) = (r1, s2)" by fastforce
  obtain y u where v2: "validateContinuity (rvWorld s2) = (y, u)" by fastforce
  note q = continuity_quiet [OF v] continuity_quiet [OF v2]
  show thesis
  proof (cases x)
    case None
    show thesis
      by (rule that(2) [of "s\<lparr>rvWorld := w\<rparr>" r1 s2])
        (use assms v f v2 None q in \<open>auto simp: gateConnectorStateResult_def split: option.splits\<close>)
  next
    case (Some a)
    then have r: "r = Inl (Errorf (''validate SDK state before '' @ op) a)" "s' = s\<lparr>rvWorld := w\<rparr>"
      using assms v by (simp_all add: gateConnectorStateResult_def)
    show thesis by (rule that(1) [OF r(1)]) (use r(2) q in simp)
  qed
qed

section \<open>Durable requests\<close>

text \<open>The request is on disk, exactly as it is sent.\<close>

definition sentDurable :: "keyDeps \<Rightarrow> dir \<times> resourceRequest \<Rightarrow> bool" where
  "sentDurable kd d = (case dirCache kd (fst d) of
      None \<Rightarrow> False
    | Some c \<Rightarrow> (case fmlookup (icPending c) (rqConnectorID (snd d)) of
        None \<Rightarrow> False
      | Some p \<Rightarrow> requestOf p = snd d))"

text \<open>\<open>qurl.NewNativeConnectorResourceRequest\<close> returns the identity it was given.\<close>

definition exactRequests :: "newRequest \<Rightarrow> bool" where
  "exactRequests nr = (\<forall>i crid t. case nr i crid t of Inl _ \<Rightarrow> True
     | Inr q \<Rightarrow> rqConnectorID q = i \<and> rqExpectedCRID q = crid)"

definition advances :: "keyDeps \<Rightarrow> 's resolveState_scheme \<Rightarrow> 's resolveState_scheme \<Rightarrow> bool" where
  "advances kd s s' = (moved kd diskStep (rvWorld s) (rvWorld s') \<and>
     (\<exists>sent. rvSent s' = rvSent s @ sent \<and> list_all (sentDurable kd) sent))"

definition settled :: "keyDeps \<Rightarrow> 's resolveState_scheme \<Rightarrow> bool" where
  "settled kd s = (diskCache kd (rvWorld s) = Some (rvCache s) \<and> validCache kd (rvCache s))"

lemma advances_refl [simp]: "advances kd s s"
  by (simp add: advances_def)

lemma advances_trans: "advances kd s t \<Longrightarrow> advances kd t u \<Longrightarrow> advances kd s u"
  unfolding advances_def using moved_trans by fastforce

lemma rests_advances:
  assumes "rests s s'"
  shows "advances kd s s'"
proof -
  have "s' = s\<lparr>rvWorld := rvWorld s'\<rparr>" "quiet (rvWorld s) (rvWorld s')" using assms by (auto simp: rests_def)
  moreover from this(1) have "rvSent s' = rvSent s" by (metis resolveState.select_convs(4) resolveState.surjective resolveState.update_convs(1))
  ultimately show ?thesis by (simp add: advances_def quiet_step)
qed

lemma rests_fields:
  assumes "rests s s'"
  shows "rvCache s' = rvCache s" "rvConfig s' = rvConfig s" "rvSent s' = rvSent s"
    "diskCache kd (rvWorld s') = diskCache kd (rvWorld s)"
proof -
  have e: "s' = s\<lparr>rvWorld := rvWorld s'\<rparr>" and q: "quiet (rvWorld s) (rvWorld s')" using assms by (auto simp: rests_def)
  show "rvCache s' = rvCache s" "rvConfig s' = rvConfig s" "rvSent s' = rvSent s" by (subst e, simp)+
  show "diskCache kd (rvWorld s') = diskCache kd (rvWorld s)" using quiet_moved [OF q] by blast
qed

lemma rests_settled: "rests s s' \<Longrightarrow> settled kd s' = settled kd s"
  using rests_fields [of s s'] by (simp add: settled_def)

lemma refines_state:
  assumes "refines kd (rvCache s) (rvWorld s) (f (rvCache s) (rvWorld s))" "onCache f s = (e, s')"
  shows "advances kd s s' \<and> rvConfig s' = rvConfig s \<and> rvSent s' = rvSent s \<and> (e = None \<longrightarrow> settled kd s')"
  using assms by (auto simp: onCache_def refinesBy_def advances_def settled_def split: prod.splits)


section \<open>One route\<close>

lemma request_result:
  assumes "ensurePendingRequestLocked kd nr i crid c w = (Inr q, c', w')" "exactRequests nr" "validCache kd c"
  shows "\<exists>p. fmlookup (icPending c') i = Some p \<and> requestOf p = q \<and> rqConnectorID q = i \<and>
    c' = c\<lparr>icPending := fmupd i p (icPending c)\<rparr>"
proof (cases "fmlookup (icPending c) i")
  case (Some p)
  then have "prID p = i" using assms(3) by (simp add: validCache_def validPending_def)
  moreover have "c' = c \<and> q = \<lparr>rqConnectorID = i,
      rqExpectedCRID = (case prExpectedCRID p of Some s \<Rightarrow> s | None \<Rightarrow> ''''), rqNonce = prRequestNonce p\<rparr>"
    using assms(1) Some by (auto simp: ensurePendingRequestLocked_def Let_def split: if_splits option.splits)
  moreover have "fmupd i p (icPending c) = icPending c" by (rule fmap_ext) (use Some in auto)
  ultimately show ?thesis using Some by (auto simp: requestOf_def)
next
  case None
  then have n: "nr i crid (cwTick w) = Inr q" and c: "c' = c\<lparr>icPending := fmupd i \<lparr>prID = i, prRequestNonce = rqNonce q,
      prExpectedCRID = (if crid \<noteq> '''' then Some crid else None)\<rparr> (icPending c)\<rparr>"
    using assms(1) by (auto simp: ensurePendingRequestLocked_def Let_def split: if_splits option.splits sum.splits prod.splits)
  have "case nr i crid (cwTick w) of Inl _ \<Rightarrow> True | Inr q \<Rightarrow> rqConnectorID q = i \<and> rqExpectedCRID q = crid"
    using assms(2) unfolding exactRequests_def by blast
  then have "rqConnectorID q = i" "rqExpectedCRID q = crid" using n by simp_all
  then show ?thesis using c by (cases q) (auto simp: requestOf_def)
qed

text \<open>After the gate: the request is in the cache and on disk.\<close>

lemma persist_contract:
  assumes "gateConnectorStateResult op (persistRequest kd nr i crid) s = (r, s')" "settled kd s" "deps_ok kd" "exactRequests nr"
  shows "advances kd s s' \<and> rvConfig s' = rvConfig s \<and>
    (\<forall>q. r = Inr q \<longrightarrow> settled kd s' \<and> rqConnectorID q = i \<and>
      (\<exists>p. requestOf p = q \<and> rvCache s' = (rvCache s)\<lparr>icPending := fmupd i p (icPending (rvCache s))\<rparr>))"
  using assms(1)
proof (cases rule: gate_result_cases)
  case (1 x)
  then show ?thesis using rests_advances [of s s'] rests_fields [of s s'] by auto
next
  case (2 s1 r1 s2)
  obtain r2 c w where e: "ensurePendingRequestLocked kd nr i crid (rvCache s1) (rvWorld s1) = (r2, c, w)" by (metis prod_cases3)
  have s1: "settled kd s1" "rvCache s1 = rvCache s" "rvConfig s1 = rvConfig s"
    using assms(2) rests_settled [OF 2(1)] rests_fields [OF 2(1)] by simp_all
  have s2: "r1 = r2" "s2 = s1\<lparr>rvCache := c, rvWorld := w\<rparr>" using 2(2) e by (simp_all add: persistRequest_def)
  have R: "refines kd (rvCache s1) (rvWorld s1) (case r2 of Inl x \<Rightarrow> Some x | Inr _ \<Rightarrow> None, c, w)"
    using request_refines [of kd "rvWorld s1" "rvCache s1" nr i crid] s1(1) assms(3) e by (simp add: settled_def)
  then have a2: "advances kd s1 s2" unfolding s2 by (auto simp: refinesBy_def advances_def)
  have adv: "advances kd s s'"
    by (rule advances_trans [OF rests_advances [OF 2(1)] advances_trans [OF a2 rests_advances [OF 2(3)]]])
  have ok: "settled kd s' \<and> rqConnectorID q = i \<and>
      (\<exists>p. requestOf p = q \<and> rvCache s' = (rvCache s)\<lparr>icPending := fmupd i p (icPending (rvCache s))\<rparr>)" if "r = Inr q" for q
  proof -
    have "r2 = Inr q" using 2(4) that s2(1) by simp
    moreover from this have "settled kd s2" using R s2(2) by (simp add: refinesBy_def settled_def)
    ultimately show ?thesis
      using request_result [of kd nr i crid "rvCache s1" "rvWorld s1" q c w] e assms(4) s1 rests_settled [OF 2(3)]
        rests_fields [OF 2(3)] s2(2) by (auto simp: settled_def)
  qed
  show ?thesis using adv ok s1(3) s2(2) rests_fields(2) [OF 2(3)] by auto
qed

lemma dispatch_contract:
  assumes "gateConnectorStateResult op (dispatchRequest resolve q) s = (r, s')" "settled kd s"
    "fmlookup (icPending (rvCache s)) (rqConnectorID q) = Some p" "requestOf p = q"
  shows "advances kd s s' \<and> settled kd s' \<and> rvCache s' = rvCache s \<and> rvConfig s' = rvConfig s"
  using assms(1)
proof (cases rule: gate_result_cases)
  case (1 x)
  then show ?thesis using rests_advances [of s s'] rests_fields [of s s'] rests_settled [of s s'] assms(2) by auto
next
  case (2 s1 r1 s2)
  note f1 = rests_fields [OF 2(1)] and f2 = rests_fields [OF 2(3)]
  have s2: "s2 = s1\<lparr>rvWorld := (rvWorld s1)\<lparr>cwTick := Suc (cwTick (rvWorld s1))\<rparr>,
      rvSent := rvSent s1 @ [(nsFiles (cwNs (rvWorld s1)), q)]\<rparr>"
    using 2(2) by (simp add: dispatchRequest_def)
  have q: "quiet (rvWorld s1) (rvWorld s2)" unfolding s2 by (cases "rvWorld s1") (simp add: quiet_def same_def)
  have "sentDurable kd (nsFiles (cwNs (rvWorld s1)), q)"
    using assms(2-4) f1 by (simp add: sentDurable_def settled_def diskCache_def)
  then have "advances kd s1 s2" using quiet_step [OF q] by (simp add: advances_def s2)
  then have adv: "advances kd s s'"
    using advances_trans rests_advances 2(1,3) by metis
  have "settled kd s2" using assms(2) f1 quiet_moved [OF q, of kd] by (simp add: settled_def s2)
  then show ?thesis using adv rests_settled [OF 2(3)] f1 f2 by (simp add: s2)
qed

lemma gate_op_contract:
  assumes "gateConnectorStateContinuity op (onCache f) s = (e, s')" "settled kd s"
    "\<And>w. diskCache kd w = Some (rvCache s) \<Longrightarrow> validCache kd (rvCache s) \<Longrightarrow> refines kd (rvCache s) w (f (rvCache s) w)"
  shows "advances kd s s' \<and> rvConfig s' = rvConfig s \<and>
    (e = None \<longrightarrow> settled kd s' \<and> (\<exists>w w'. f (rvCache s) w = (None, rvCache s', w')))"
  using assms(1)
proof (cases rule: gate_cases)
  case 1
  then show ?thesis using rests_advances [of s s'] rests_fields [of s s'] by auto
next
  case (2 s1 e1 s2)
  have "settled kd s1" using rests_settled [OF 2(1)] assms(2) by simp
  then have R: "refines kd (rvCache s1) (rvWorld s1) (f (rvCache s1) (rvWorld s1))"
    using assms(3) rests_fields [OF 2(1)] by (simp add: settled_def)
  note S = refines_state [OF R 2(2)]
  have adv: "advances kd s s'"
    using advances_trans rests_advances 2(1,3) S by metis
  have "\<exists>w w'. f (rvCache s) w = (None, rvCache s', w')" if "e1 = None"
  proof -
    obtain c w where f: "f (rvCache s1) (rvWorld s1) = (e1, c, w)" "s2 = s1\<lparr>rvCache := c, rvWorld := w\<rparr>"
      using 2(2) by (auto simp: onCache_def split: prod.splits)
    then have "f (rvCache s) (rvWorld s1) = (None, rvCache s', w)"
      using that rests_fields [OF 2(1)] rests_fields [OF 2(3)] by simp
    then show ?thesis by blast
  qed
  then show ?thesis
    using adv S 2(4) rests_settled [OF 2(3)] rests_fields [OF 2(1)] rests_fields [OF 2(3)] by auto
qed


text \<open>What a resolved route took over, and the pins it respected.\<close>

definition boundRoute :: "cacheEntry \<Rightarrow> ConfigRoute \<Rightarrow> ConfigRoute" where
  "boundRoute b r = r\<lparr>roResourcePublicKey := ceResourcePublicKey b, roCRID := ceCRID b,
     roConnectorRoutingID := ceConnectorRoutingID b\<rparr>"

definition pinsHonoured :: "cacheEntry \<Rightarrow> ConfigRoute \<Rightarrow> bool" where
  "pinsHonoured b r = (roConnectorRoutingID r \<in> {'''', ceConnectorRoutingID b} \<and>
     roKnockResourceID r \<in> {'''', ceKnockResourceID b})"

lemma record_result:
  assumes "recordResolutionLocked kd i (Some r) c w = (None, c', w')" "isPending i c" "validCache kd c"
  shows "c' = putBinding i (bindingOf i r) c \<and> crSlug r = i \<and>
    validateCachedConnectorBinding kd (bindingOf i r) = None \<and> fmlookup (icByID c) i \<in> {None, Some (bindingOf i r)}"
proof -
  have run: "c' = putBinding i (bindingOf i r) c \<and> crSlug r = i \<and> validateCachedConnectorBinding kd (bindingOf i r) = None \<and>
      (case fmlookup (icByID c) i of None \<Rightarrow> None | Some existing \<Rightarrow> bindingConflict existing (bindingOf i r)) = None"
    using assms(1,2)
    by (auto simp: recordResolutionLocked_def Let_def split: if_splits option.splits prod.splits)
  have "existing = bindingOf i r" if "fmlookup (icByID c) i = Some existing" for existing
    using run that assms(3) conflict_None [of existing "bindingOf i r"]
    by (simp add: validCache_def validBindings_def bindingOf_def)
  then show ?thesis using run by (cases "fmlookup (icByID c) i") auto
qed

lemma adopt_result:
  assumes "adoptResource idx route r cfg = (None, cfg')"
  shows "pinsHonoured (bindingOf i r) route \<and>
    FirstDifferentKnockResourceID (crResourcePublicKey r) (crKnockResourceID r) cfg = None \<and>
    cfg' = SetKnockResourceID (crResourcePublicKey r) (crKnockResourceID r)
      (cfg\<lparr>cfRoutes := (cfRoutes cfg)[idx := boundRoute (bindingOf i r) (cfRoutes cfg ! idx)]\<rparr>)"
  using assms by (auto simp: adoptResource_def pinsHonoured_def boundRoute_def bindingOf_def split: if_splits option.splits)

text \<open>The state after a route resolved.\<close>

definition resolvedTo :: "identityResolution \<Rightarrow> cacheEntry \<Rightarrow> resolveState \<Rightarrow> resolveState \<Rightarrow> bool" where
  "resolvedTo p b s s' = (rvCache s' = putBinding (irID p) b (rvCache s) \<and>
     fmlookup (icByID (rvCache s)) (irID p) \<in> {None, Some b} \<and>
     (irExpectedCRID p \<noteq> '''' \<longrightarrow> ceCRID b = irExpectedCRID p) \<and>
     pinsHonoured b (cfRoutes (rvConfig s) ! irIndex p) \<and>
     FirstDifferentKnockResourceID (ceResourcePublicKey b) (ceKnockResourceID b) (rvConfig s) = None \<and>
     rvConfig s' = SetKnockResourceID (ceResourcePublicKey b) (ceKnockResourceID b)
       ((rvConfig s)\<lparr>cfRoutes := (cfRoutes (rvConfig s))[irIndex p := boundRoute b (cfRoutes (rvConfig s) ! irIndex p)]\<rparr>))"

lemma putBinding_request [simp]:
  "putBinding i b (c\<lparr>icPending := fmupd i p (icPending c)\<rparr>) = putBinding i b c"
proof -
  have "fmdrop i (fmupd i p (icPending c)) = fmdrop i (icPending c)" by (rule fmap_ext) auto
  then show ?thesis by (simp add: putBinding_def)
qed

lemma resolve_route:
  assumes "resolveRoute kd nr resolve p s = (e, s')" "settled kd s" "deps_ok kd" "exactRequests nr"
  shows "advances kd s s' \<and> (e = None \<longrightarrow> settled kd s' \<and> (\<exists>b. resolvedTo p b s s'))"
proof -
  let ?op1 = "''persist exact Connector resource LST request''"
  let ?op2 = "''resolve Connector resource over assigned-cell NHP''"
  let ?op3 = "''clear terminal Connector resource LST request''"
  let ?op4 = "''persist complete Connector resource binding''"
  obtain r1 s1 where 1: "gateConnectorStateResult ?op1 (persistRequest kd nr (irID p) (irExpectedCRID p)) s = (r1, s1)"
    by fastforce
  note P = persist_contract [OF 1 assms(2-4)]
  show ?thesis
  proof (cases r1)
    case (Inl x)
    then show ?thesis using P 1 assms(1) by (auto simp: resolveRoute_def)
  next
    case (Inr q)
    then obtain rq where rq: "settled kd s1" "rqConnectorID q = irID p" "requestOf rq = q"
        "rvCache s1 = (rvCache s)\<lparr>icPending := fmupd (irID p) rq (icPending (rvCache s))\<rparr>"
      using P by blast
    obtain r2 s2 where 2: "gateConnectorStateResult ?op2 (dispatchRequest resolve q) s1 = (r2, s2)" by fastforce
    have D: "advances kd s1 s2 \<and> settled kd s2 \<and> rvCache s2 = rvCache s1 \<and> rvConfig s2 = rvConfig s1"
      by (rule dispatch_contract [OF 2 rq(1) _ rq(3)]) (simp add: rq(2,4))
    have a2: "advances kd s s2" using P D advances_trans by blast
    have run: "resolveRoute kd nr resolve p s = (case (r2, s2) of
        (Inl resolveErr, s) \<Rightarrow>
          (let failed = Some (Errorf ''native Connector resource discovery failed'' resolveErr) in
           if authoritativeConnectorResourceRejection resolveErr then
             (case gateConnectorStateContinuity ?op3 (onCache (clearPendingLocked kd (irID p))) s of
                (Some x, s) \<Rightarrow>
                  (errorsJoin [Some (Errorf (irID p) resolveErr), Some (Errorf ''clear terminal NHP request'' x)], s)
              | (None, s) \<Rightarrow> (failed, s))
           else (failed, s))
      | (Inr None, s) \<Rightarrow> (Some (NewErr ''assigned cell returned no Connector resource''), s)
      | (Inr (Some r), s') \<Rightarrow>
          if irExpectedCRID p \<noteq> '''' \<and> crCRID r \<noteq> irExpectedCRID p then
            (Some (NewErr ''assigned cell returned another crid than asserted''), s')
          else if crSlug r \<noteq> irID p then (Some (NewErr ''assigned cell returned mismatched Connector id''), s')
          else (case gateConnectorStateContinuity ?op4 (onCache (recordResolutionLocked kd (irID p) (Some r))) s' of
              (Some x, s) \<Rightarrow> (Some (Errorf ''persist authenticated Connector binding before startup'' x), s)
            | (None, s'') \<Rightarrow> (case adoptResource (irIndex p) (cfRoutes (rvConfig s) ! irIndex p) r (rvConfig s'') of
                (e, cfg) \<Rightarrow> (e, s''\<lparr>rvConfig := cfg\<rparr>))))"
      unfolding resolveRoute_def Let_def 1 Inr prod.case sum.case 2 by (rule refl)
    show ?thesis
    proof (cases r2)
      case (Inl x)
      obtain e3 s3 where 3: "gateConnectorStateContinuity ?op3 (onCache (clearPendingLocked kd (irID p))) s2 = (e3, s3)"
        by fastforce
      have C: "advances kd s2 s3"
        using gate_op_contract [OF 3] clear_refines assms(3) D by blast
      have "e \<noteq> None \<and> s' \<in> {s2, s3}"
        using run assms(1) Inl 3 by (auto simp: Let_def split: if_splits option.splits)
      then show ?thesis using a2 advances_trans [OF a2 C] by auto
    next
      case (Inr ro)
      show ?thesis
      proof (cases "ro = None \<or> irExpectedCRID p \<noteq> '''' \<and> crCRID (the ro) \<noteq> irExpectedCRID p \<or> crSlug (the ro) \<noteq> irID p")
        case True
        then have "e \<noteq> None \<and> s' = s2" using run assms(1) Inr by (cases ro) (auto split: if_splits)
        then show ?thesis using a2 by auto
      next
        case False
        then obtain r where r: "ro = Some r" "irExpectedCRID p \<noteq> '''' \<longrightarrow> crCRID r = irExpectedCRID p" "crSlug r = irID p"
          by (cases ro) auto
        obtain e4 s4 where 4: "gateConnectorStateContinuity ?op4 (onCache (recordResolutionLocked kd (irID p) (Some r))) s2 = (e4, s4)"
          by fastforce
        have R: "advances kd s2 s4 \<and> rvConfig s4 = rvConfig s2 \<and> (e4 = None \<longrightarrow> settled kd s4 \<and>
            (\<exists>w w'. recordResolutionLocked kd (irID p) (Some r) (rvCache s2) w = (None, rvCache s4, w')))"
          using gate_op_contract [OF 4] record_refines assms(3) D by blast
        obtain e5 cfg where 5: "adoptResource (irIndex p) (cfRoutes (rvConfig s) ! irIndex p) r (rvConfig s4) = (e5, cfg)"
          by fastforce
        have fin: "(e, s') = (case e4 of Some x \<Rightarrow> (Some (Errorf ''persist authenticated Connector binding before startup'' x), s4)
            | None \<Rightarrow> (e5, s4\<lparr>rvConfig := cfg\<rparr>))"
          using run assms(1) Inr r 4 5 by (cases e4) (auto split: if_splits)
        have "advances kd s s4" using advances_trans [OF a2] R by blast
        then have adv: "advances kd s s'" using fin by (auto simp: advances_def split: option.splits)
        have "settled kd s' \<and> resolvedTo p (bindingOf (irID p) r) s s'" if n: "e = None"
        proof -
          have e: "e4 = None" "e5 = None" "s' = s4\<lparr>rvConfig := cfg\<rparr>" using fin n by (auto split: option.splits)
          obtain w w' where rec: "recordResolutionLocked kd (irID p) (Some r) (rvCache s2) w = (None, rvCache s4, w')"
            using R e(1) by blast
          have cache: "rvCache s2 = (rvCache s)\<lparr>icPending := fmupd (irID p) rq (icPending (rvCache s))\<rparr>"
            using D rq(4) by simp
          have pend: "isPending (irID p) (rvCache s2)" by (simp add: isPending_def cache)
          have v: "validCache kd (rvCache s2)" using D unfolding settled_def by blast
          note rr = record_result [OF rec pend v]
          have c: "rvCache s4 = putBinding (irID p) (bindingOf (irID p) r) (rvCache s)"
            using rr unfolding cache putBinding_request by blast
          have l: "fmlookup (icByID (rvCache s)) (irID p) \<in> {None, Some (bindingOf (irID p) r)}"
            using rr by (simp add: cache)
          have cfg: "rvConfig s4 = rvConfig s" using R D P by simp
          note ad = adopt_result [OF 5 [unfolded e(2) cfg], of "irID p"]
          have "settled kd s'" using R e by (simp add: settled_def)
          then show ?thesis using ad c l r(2) e(3)
            by (auto simp: resolvedTo_def bindingOf_def)
        qed
        then show ?thesis using adv by blast
      qed
    qed
  qed
qed


section \<open>All routes\<close>

text \<open>
  What the resolutions \<open>ps\<close> did between two states: each planned id has a binding, which the route of its
  index took over; nothing else changed.
\<close>

definition routeResolved :: "resolveState \<Rightarrow> resolveState \<Rightarrow> identityResolution \<Rightarrow> bool" where
  "routeResolved s s' p = (case fmlookup (icByID (rvCache s')) (irID p) of
      None \<Rightarrow> False
    | Some b \<Rightarrow> cfRoutes (rvConfig s') ! irIndex p = boundRoute b (cfRoutes (rvConfig s) ! irIndex p) \<and>
        pinsHonoured b (cfRoutes (rvConfig s) ! irIndex p) \<and>
        (irExpectedCRID p \<noteq> '''' \<longrightarrow> ceCRID b = irExpectedCRID p))"

definition routesResolved :: "identityResolution list \<Rightarrow> resolveState \<Rightarrow> resolveState \<Rightarrow> bool" where
  "routesResolved ps s s' = (list_all (routeResolved s s') ps \<and>
     length (cfRoutes (rvConfig s')) = length (cfRoutes (rvConfig s)) \<and>
     (\<forall>j. j \<notin> irIndex ` set ps \<longrightarrow> cfRoutes (rvConfig s') ! j = cfRoutes (rvConfig s) ! j) \<and>
     (\<forall>k. k \<notin> irID ` set ps \<longrightarrow> fmlookup (icByID (rvCache s')) k = fmlookup (icByID (rvCache s)) k) \<and>
     (\<forall>k. fmlookup (icPending (rvCache s')) k =
        (if k \<in> irID ` set ps then None else fmlookup (icPending (rvCache s)) k)))"

lemma resolvedTo_step:
  assumes "resolvedTo p b s t" "irIndex p < length (cfRoutes (rvConfig s))"
  shows "routesResolved [p] s t"
proof -
  have "cfRoutes (rvConfig t) = (cfRoutes (rvConfig s))[irIndex p := boundRoute b (cfRoutes (rvConfig s) ! irIndex p)]"
    using assms(1) by (simp add: resolvedTo_def SetKnockResourceID_def)
  then show ?thesis using assms
    by (auto simp: routesResolved_def routeResolved_def resolvedTo_def putBinding_def)
qed

lemma routesResolved_Cons:
  assumes "routesResolved [p] s t" "routesResolved ps t u" "irID p \<notin> irID ` set ps" "irIndex p \<notin> irIndex ` set ps"
  shows "routesResolved (p # ps) s u"
proof -
  have same: "cfRoutes (rvConfig t) ! irIndex r = cfRoutes (rvConfig s) ! irIndex r" if "r \<in> set ps" for r
  proof -
    have "irIndex r \<noteq> irIndex p" using assms(4) that by (metis image_eqI)
    then show ?thesis using assms(1) by (simp add: routesResolved_def)
  qed
  have u: "fmlookup (icByID (rvCache u)) (irID p) = fmlookup (icByID (rvCache t)) (irID p)"
      "cfRoutes (rvConfig u) ! irIndex p = cfRoutes (rvConfig t) ! irIndex p"
    using assms(2-4) unfolding routesResolved_def by blast+
  have "routeResolved s t p" using assms(1) by (simp add: routesResolved_def)
  then have hd: "routeResolved s u p" unfolding routeResolved_def u .
  have tl: "list_all (routeResolved s u) ps"
  proof -
    have "routeResolved s u r" if "r \<in> set ps" for r
    proof -
      have "routeResolved t u r" using assms(2) that by (simp add: routesResolved_def list_all_iff)
      then show ?thesis unfolding routeResolved_def same [OF that] .
    qed
    then show ?thesis by (simp add: list_all_iff)
  qed
  have more: "length (cfRoutes (rvConfig u)) = length (cfRoutes (rvConfig s))"
      "\<And>j. j \<notin> irIndex ` set (p # ps) \<Longrightarrow> cfRoutes (rvConfig u) ! j = cfRoutes (rvConfig s) ! j"
      "\<And>k. k \<notin> irID ` set (p # ps) \<Longrightarrow> fmlookup (icByID (rvCache u)) k = fmlookup (icByID (rvCache s)) k"
      "\<And>k. fmlookup (icPending (rvCache u)) k =
        (if k \<in> irID ` set (p # ps) then None else fmlookup (icPending (rvCache s)) k)"
    using assms(1,2) by (simp_all add: routesResolved_def)
  then show ?thesis using hd tl by (simp add: routesResolved_def)
qed

lemma resolve_routes:
  assumes "resolveRoutes kd nr resolve ps s = (e, s')" "settled kd s" "deps_ok kd" "exactRequests nr"
    "distinct (map irID ps)" "distinct (map irIndex ps)"
    "list_all (\<lambda>p. irIndex p < length (cfRoutes (rvConfig s))) ps"
  shows "advances kd s s' \<and> (e = None \<longrightarrow> settled kd s' \<and> routesResolved ps s s')"
  using assms(1,2,5-7)
proof (induction ps arbitrary: s)
  case Nil
  then show ?case by (auto simp: routesResolved_def)
next
  case (Cons p ps)
  obtain e1 t where r: "resolveRoute kd nr resolve p s = (e1, t)" by fastforce
  note R = resolve_route [OF r Cons.prems(2) assms(3,4)]
  show ?case
  proof (cases e1)
    case (Some x)
    then show ?thesis using Cons.prems(1) r R by auto
  next
    case None
    then obtain b where b: "settled kd t" "resolvedTo p b s t" using R by blast
    have one: "routesResolved [p] s t" by (rule resolvedTo_step [OF b(2)]) (use Cons.prems(5) in simp)
    then have len: "length (cfRoutes (rvConfig t)) = length (cfRoutes (rvConfig s))" by (simp add: routesResolved_def)
    have rest: "resolveRoutes kd nr resolve ps t = (e, s')" using Cons.prems(1) r None by simp
    have IH: "advances kd t s' \<and> (e = None \<longrightarrow> settled kd s' \<and> routesResolved ps t s')"
      by (rule Cons.IH [OF rest b(1)]) (use Cons.prems len in simp_all)
    have "e = None \<Longrightarrow> routesResolved (p # ps) s s'"
      by (rule routesResolved_Cons [OF one]) (use IH Cons.prems in auto)
    then show ?thesis using R IH advances_trans by blast
  qed
qed


section \<open>The knock resource of the session\<close>

definition nonblankKnocks :: "Config \<Rightarrow> bool" where
  "nonblankKnocks c = (\<forall>r v. fmlookup (cfKnockResourceIDs c) r = Some v \<longrightarrow> v \<noteq> '''')"

text \<open>Every planned binding has its knock resource recorded, other resources keep theirs, and there is one in all.\<close>

definition knocksResolved :: "identityResolution list \<Rightarrow> resolveState \<Rightarrow> resolveState \<Rightarrow> bool" where
  "knocksResolved ps s s' = (
     (\<forall>p \<in> set ps. \<forall>b. fmlookup (icByID (rvCache s')) (irID p) = Some b \<longrightarrow>
        fmlookup (cfKnockResourceIDs (rvConfig s')) (ceResourcePublicKey b) = Some (ceKnockResourceID b)) \<and>
     (\<forall>key. (\<forall>p \<in> set ps. \<forall>b. fmlookup (icByID (rvCache s')) (irID p) = Some b \<longrightarrow> ceResourcePublicKey b \<noteq> key) \<longrightarrow>
        fmlookup (cfKnockResourceIDs (rvConfig s')) key = fmlookup (cfKnockResourceIDs (rvConfig s)) key) \<and>
     nonblankKnocks (rvConfig s') \<and> (ps \<noteq> [] \<longrightarrow> (\<exists>k. oneKnock k (rvConfig s'))))"

lemma binding_nonblank:
  assumes "validCache kd c" "fmlookup (icByID c) i = Some b"
  shows "ceResourcePublicKey b \<noteq> ''''" "ceKnockResourceID b \<noteq> ''''"
proof -
  have "validateCachedConnectorBinding kd b = None" using assms by (simp add: validCache_def validBindings_def)
  then have "validateCachedResourcePublicKey kd (ceResourcePublicKey b) = None" "validateCachedKnockResourceID (ceKnockResourceID b) = None"
    by (auto simp: validateCachedConnectorBinding_def split: option.splits)
  then show "ceResourcePublicKey b \<noteq> ''''" "ceKnockResourceID b \<noteq> ''''"
    by (auto simp: validateCachedResourcePublicKey_def validateCachedKnockResourceID_def validateCachedIdentityString_def
        split: option.splits if_splits)
qed

lemma knock_step:
  assumes "resolvedTo p b s t" "settled kd t" "nonblankKnocks (rvConfig s)"
  shows "fmlookup (icByID (rvCache t)) (irID p) = Some b"
    "cfKnockResourceIDs (rvConfig t) = fmupd (ceResourcePublicKey b) (ceKnockResourceID b) (cfKnockResourceIDs (rvConfig s))"
    "oneKnock (ceKnockResourceID b) (rvConfig t)" "nonblankKnocks (rvConfig t)"
proof -
  show l: "fmlookup (icByID (rvCache t)) (irID p) = Some b" using assms(1) by (simp add: resolvedTo_def putBinding_def)
  have n: "ceResourcePublicKey b \<noteq> ''''" "ceKnockResourceID b \<noteq> ''''"
    using binding_nonblank l assms(2) unfolding settled_def by blast+
  let ?c = "(rvConfig s)\<lparr>cfRoutes := (cfRoutes (rvConfig s))[irIndex p := boundRoute b (cfRoutes (rvConfig s) ! irIndex p)]\<rparr>"
  have t: "rvConfig t = SetKnockResourceID (ceResourcePublicKey b) (ceKnockResourceID b) ?c"
    using assms(1) by (simp add: resolvedTo_def)
  show u: "cfKnockResourceIDs (rvConfig t) = fmupd (ceResourcePublicKey b) (ceKnockResourceID b) (cfKnockResourceIDs (rvConfig s))"
    using n by (simp add: t SetKnockResourceID_def)
  have "knockAt ?c k = knockAt (rvConfig s) k" for k by (simp add: knockAt_def)
  then have "FirstDifferentKnockResourceID r k ?c = FirstDifferentKnockResourceID r k (rvConfig s)" for r k
    by (simp add: FirstDifferentKnockResourceID_def)
  then have "FirstDifferentKnockResourceID (ceResourcePublicKey b) (ceKnockResourceID b) ?c = None"
    using assms(1) by (simp add: resolvedTo_def)
  then show "oneKnock (ceKnockResourceID b) (rvConfig t)"
    unfolding t by (rule set_knock_one) (use n assms(3) in \<open>simp_all add: nonblankKnocks_def\<close>)
  show "nonblankKnocks (rvConfig t)" using n(2) assms(3) by (simp add: nonblankKnocks_def u)
qed

lemma resolve_knocks:
  assumes "resolveRoutes kd nr resolve ps s = (None, s')" "settled kd s" "deps_ok kd" "exactRequests nr"
    "distinct (map irID ps)" "distinct (map irIndex ps)"
    "list_all (\<lambda>p. irIndex p < length (cfRoutes (rvConfig s))) ps" "nonblankKnocks (rvConfig s)"
  shows "knocksResolved ps s s'"
  using assms(1,2,5-8)
proof (induction ps arbitrary: s)
  case Nil
  then show ?case by (auto simp: knocksResolved_def)
next
  case (Cons p ps)
  obtain e1 t where r: "resolveRoute kd nr resolve p s = (e1, t)" by fastforce
  then have e1: "e1 = None" and rest: "resolveRoutes kd nr resolve ps t = (None, s')"
    using Cons.prems(1) by (auto split: option.splits)
  then obtain b where b: "settled kd t" "resolvedTo p b s t" using resolve_route [OF r Cons.prems(2) assms(3,4)] by blast
  note K = knock_step [OF b(2,1) Cons.prems(6)]
  have "routesResolved [p] s t" by (rule resolvedTo_step [OF b(2)]) (use Cons.prems(5) in simp)
  then have len: "length (cfRoutes (rvConfig t)) = length (cfRoutes (rvConfig s))" by (simp add: routesResolved_def)
  have d: "distinct (map irID ps)" "distinct (map irIndex ps)" "irID p \<notin> irID ` set ps"
      "list_all (\<lambda>p. irIndex p < length (cfRoutes (rvConfig t))) ps"
    using Cons.prems(3-5) len by simp_all
  have S: "settled kd s'" "routesResolved ps t s'"
    using resolve_routes [OF rest b(1) assms(3,4) d(1,2,4)] by simp_all
  have IH: "knocksResolved ps t s'" by (rule Cons.IH [OF rest b(1) d(1,2,4) K(4)])
  have lp: "fmlookup (icByID (rvCache s')) (irID p) = Some b" using S(2) d(3) K(1) by (simp add: routesResolved_def)
  have own: "ceResourcePublicKey b' \<noteq> ceResourcePublicKey b"
    if "q \<in> set ps" "fmlookup (icByID (rvCache s')) (irID q) = Some b'" for q b'
  proof -
    have "irID q \<noteq> irID p" using that(1) d(3) by (metis image_eqI)
    then show ?thesis using S(1) that(2) lp by (auto simp: settled_def validCache_def ownersDistinct_def)
  qed
  have kp: "fmlookup (cfKnockResourceIDs (rvConfig s')) (ceResourcePublicKey b) = Some (ceKnockResourceID b)"
    using IH own K(2) by (auto simp: knocksResolved_def)
  have "\<exists>k. oneKnock k (rvConfig s')"
    using IH K(3) by (cases ps) (auto simp: knocksResolved_def oneKnock_iff)
  then show ?case using IH kp lp K(2) by (auto simp: knocksResolved_def)
qed


section \<open>The plan\<close>

lemma named_id:
  assumes "ValidateSlug (routeIDWithFallback n r fb) = None"
  shows "roID (namedRoute n fb r) = routeIDWithFallback n r fb"
proof -
  have "routeIDWithFallback n r fb \<noteq> ''''" using assms by (auto simp: ValidateSlug_def slugPattern_def split: if_splits)
  then show ?thesis by (auto simp: namedRoute_def routeIDWithFallback_def Let_def)
qed

lemma plan_ok:
  assumes "planRoutes kd c n fb i seen requested rs = (None, rs', plan)"
  shows "rs' = map (namedRoute n fb) rs \<and> map irIndex plan = [i..<i + length rs] \<and> map irID plan = map roID rs' \<and>
    distinct (map irID plan) \<and> set (map irID plan) \<inter> seen = {} \<and>
    list_all2 (\<lambda>r p. roCRID r = '''' \<or> irExpectedCRID p = roCRID r) rs plan"
  using assms
proof (induction rs arbitrary: i seen requested rs' plan)
  case Nil
  then show ?case by simp
next
  case (Cons r rs)
  let ?id = "routeIDWithFallback n r fb"
  from Cons.prems obtain x req rs1 plan1 where
    p: "ValidateSlug ?id = None" "?id \<notin> seen" "planRoutes kd c n fb (Suc i) (insert ?id seen) req rs = (None, rs1, plan1)"
      "rs' = namedRoute n fb r # rs1" "plan = \<lparr>irIndex = i, irID = ?id, irExpectedCRID = x\<rparr> # plan1"
      "roCRID r = '''' \<or> x = roCRID r"
    by (auto simp: Let_def split: if_splits option.splits prod.splits)
  note IH = Cons.IH [OF p(3)]
  have "rs1 = map (namedRoute n fb) rs" "[i..<i + length (r # rs)] = i # map irIndex plan1" "map irID plan1 = map roID rs1"
    using IH by (simp_all add: upt_conv_Cons del: upt_Suc)
  moreover have "?id \<notin> set (map irID plan1)" "set (map irID plan1) \<inter> seen = {}" "distinct (map irID plan1)"
    using IH by blast+
  ultimately show ?case unfolding p(4,5) using IH p(2,6) named_id [OF p(1)] by (simp del: upt_Suc)
qed


section \<open>The whole configuration\<close>

text \<open>A configured route \<open>r\<close> and what it became.\<close>

definition routeBound :: "identityCache \<Rightarrow> Config \<Rightarrow> ConfigRoute \<Rightarrow> ConfigRoute \<Rightarrow> bool" where
  "routeBound c cfg' r r' = (case fmlookup (icByID c) (roID r') of
      None \<Rightarrow> False
    | Some b \<Rightarrow> r' = boundRoute b (r\<lparr>roID := roID r'\<rparr>) \<and> roID r \<in> {'''', roID r'} \<and>
        roCRID r \<in> {'''', ceCRID b} \<and> pinsHonoured b r \<and>
        fmlookup (cfKnockResourceIDs cfg') (ceResourcePublicKey b) = Some (ceKnockResourceID b))"

definition identitiesResolved :: "Config \<Rightarrow> Config \<Rightarrow> identityCache \<Rightarrow> bool" where
  "identitiesResolved cfg cfg' c = (
     list_all2 (routeBound c cfg') (cfRoutes cfg) (cfRoutes cfg') \<and>
     distinct (map roID (cfRoutes cfg')) \<and>
     fset (fmdom (icByID c)) = set (map roID (cfRoutes cfg')) \<and> icPending c = fmempty \<and>
     (cfRoutes cfg = [] \<or> (\<exists>k. oneKnock k cfg')))"

lemma orphans_None:
  assumes "rejectOrphanIdentities ids c = None"
  shows "fset (fmdom (icByID c)) \<subseteq> ids \<and> fset (fmdom (icPending c)) \<subseteq> ids"
  using assms by (auto simp: rejectOrphanIdentities_def find_None_iff split: option.splits)

lemma named_fields:
  "boundRoute b (namedRoute n fb r) = boundRoute b (r\<lparr>roID := roID (namedRoute n fb r)\<rparr>)"
  "pinsHonoured b (namedRoute n fb r) = pinsHonoured b r"
  "ValidateSlug (roID (namedRoute n fb r)) = None \<Longrightarrow> roID r \<in> {'''', roID (namedRoute n fb r)}"
  by (auto simp: namedRoute_def boundRoute_def pinsHonoured_def Let_def routeIDWithFallback_def ValidateSlug_def)

lemma resolved_graph:
  assumes plan: "planRoutes kd c0 n fb 0 seen requested (cfRoutes cfg) = (None, routes, plan)"
    and s: "rvCache s = c0" "cfRoutes (rvConfig s) = routes" and orphans: "rejectOrphanIdentities (set (map irID plan)) c0 = None"
    and R: "routesResolved plan s s'" "knocksResolved plan s s'" "settled kd s'"
  shows "identitiesResolved cfg (rvConfig s') (rvCache s')"
proof -
  note P = plan_ok [OF plan]
  let ?N = "length (cfRoutes cfg)" and ?cfg' = "rvConfig s'" and ?c = "rvCache s'"
  have idx: "map irIndex plan = [0..<?N]" and routes: "routes = map (namedRoute n fb) (cfRoutes cfg)"
    and ids: "map irID plan = map roID routes" using P by simp_all
  have len: "length plan = ?N" "length routes = ?N" "length (cfRoutes ?cfg') = ?N"
    using arg_cong [OF idx, of length] R(1) s(2) routes by (simp_all add: routesResolved_def)
  have at: "irIndex (plan ! j) = j" "irID (plan ! j) = roID (routes ! j)" if "j < ?N" for j
    using arg_cong [OF idx, of "\<lambda>l. l ! j"] arg_cong [OF ids, of "\<lambda>l. l ! j"] that len by simp_all
  have expected: "roCRID (cfRoutes cfg ! j) = '''' \<or> irExpectedCRID (plan ! j) = roCRID (cfRoutes cfg ! j)" if "j < ?N" for j
    using P that by (auto simp: list_all2_conv_all_nth)
  have route: "routeBound ?c ?cfg' (cfRoutes cfg ! j) (cfRoutes ?cfg' ! j) \<and> roID (cfRoutes ?cfg' ! j) = irID (plan ! j)"
    if j: "j < ?N" for j
  proof -
    have m: "plan ! j \<in> set plan" using j len by simp
    then have "routeResolved s s' (plan ! j)" using R(1) by (simp add: routesResolved_def list_all_iff)
    then obtain b where b: "fmlookup (icByID ?c) (irID (plan ! j)) = Some b"
        "cfRoutes ?cfg' ! j = boundRoute b (namedRoute n fb (cfRoutes cfg ! j))" "pinsHonoured b (cfRoutes cfg ! j)"
        "irExpectedCRID (plan ! j) \<noteq> '''' \<longrightarrow> ceCRID b = irExpectedCRID (plan ! j)"
      using at [OF j] j routes s(2) by (auto simp: routeResolved_def named_fields split: option.splits)
    have id: "roID (cfRoutes ?cfg' ! j) = irID (plan ! j)" "roID (namedRoute n fb (cfRoutes cfg ! j)) = irID (plan ! j)"
      using b(2) at [OF j] j routes by (simp_all add: boundRoute_def)
    have "ceID b = irID (plan ! j) \<and> validateCachedConnectorBinding kd b = None"
      using R(3) b(1) by (simp add: settled_def validCache_def validBindings_def)
    then have "ValidateSlug (irID (plan ! j)) = None"
      by (auto simp: validateCachedConnectorBinding_def split: option.splits)
    then have "roID (cfRoutes cfg ! j) \<in> {'''', irID (plan ! j)}"
      using named_fields(3) [of n fb "cfRoutes cfg ! j"] id(2) by simp
    moreover have "roCRID (cfRoutes cfg ! j) \<in> {'''', ceCRID b}" using expected [OF j] b(4) by auto
    moreover have "fmlookup (cfKnockResourceIDs ?cfg') (ceResourcePublicKey b) = Some (ceKnockResourceID b)"
      using R(2) m b(1) by (auto simp: knocksResolved_def)
    ultimately show ?thesis using b id named_fields(1) [of b n fb "cfRoutes cfg ! j"]
      by (simp add: routeBound_def)
  qed
  have idmap: "map roID (cfRoutes ?cfg') = map irID plan"
    by (rule nth_equalityI) (use route len in simp_all)
  have one: "list_all2 (routeBound ?c ?cfg') (cfRoutes cfg) (cfRoutes ?cfg')"
    using route len by (simp add: list_all2_conv_all_nth)
  have sub: "fset (fmdom (icByID c0)) \<subseteq> irID ` set plan" "fset (fmdom (icPending c0)) \<subseteq> irID ` set plan"
    using orphans_None [OF orphans] by simp_all
  have dom: "fset (fmdom (icByID ?c)) = irID ` set plan"
  proof (rule set_eqI)
    fix k
    have "fmlookup (icByID ?c) k \<noteq> None" if "k \<in> irID ` set plan"
      using R(1) that by (auto simp: routesResolved_def routeResolved_def list_all_iff split: option.splits)
    moreover have "fmlookup (icByID ?c) k = None" if "k \<notin> irID ` set plan"
    proof -
      have "fmlookup (icByID c0) k = None" using sub(1) that by (metis fmdomI option.exhaust subsetD)
      then show ?thesis using R(1) s(1) that by (simp add: routesResolved_def)
    qed
    ultimately show "k \<in> fset (fmdom (icByID ?c)) \<longleftrightarrow> k \<in> irID ` set plan"
      using fmdomI [of "icByID ?c" k] fmdom_notI [of "icByID ?c" k] by blast
  qed
  have pend: "icPending ?c = fmempty"
  proof (rule fmap_ext)
    fix k
    have "fmlookup (icPending c0) k = None" if "k \<notin> irID ` set plan"
      using sub(2) that by (metis fmdomI option.exhaust subsetD)
    then show "fmlookup (icPending ?c) k = fmlookup fmempty k"
      using R(1) s(1) by (simp add: routesResolved_def)
  qed
  have knock: "cfRoutes cfg = [] \<or> (\<exists>k. oneKnock k ?cfg')"
    using R(2) len by (auto simp: knocksResolved_def)
  have "distinct (map irID plan)" using P by blast
  then show ?thesis
    unfolding identitiesResolved_def idmap using one dom pend knock by simp
qed

lemma resolve_locked:
  assumes "resolveConnectorIdentitiesLocked kd nr resolve env s = (e, s')" "deps_ok kd" "exactRequests nr"
  shows "advances kd s s' \<and> (e = None \<and> nonblankKnocks (rvConfig s) \<longrightarrow> settled kd s' \<and>
    identitiesResolved (rvConfig s) (rvConfig s') (rvCache s') \<and>
    ValidateManagedRouteIdentities (cfRoutes (rvConfig s')) = None)"
proof -
  let ?cfg = "rvConfig s"
  obtain q w where l: "loadConnectorIdentityCacheUnlocked kd (rvWorld s) = (q, w)" by fastforce
  note L = cacheLoad_quiet [OF l]
  have aw: "advances kd s (s\<lparr>rvWorld := w\<rparr>)" using L rests_advances [of s "s\<lparr>rvWorld := w\<rparr>"] by simp
  show ?thesis
  proof (cases "ValidateManagedRouteIdentities (cfRoutes ?cfg)")
    case (Some x)
    then show ?thesis using assms(1) by (auto simp: resolveConnectorIdentitiesLocked_def)
  next
    case None
    show ?thesis
    proof (cases q)
      case (Inl x)
      then show ?thesis using assms(1) None l aw by (auto simp: resolveConnectorIdentitiesLocked_def)
    next
      case (Inr c)
      obtain e1 routes plan where p: "planRoutes kd c (length (cfRoutes ?cfg)) (routeIDEnvFallback env) 0 {} {} (cfRoutes ?cfg)
          = (e1, routes, plan)" by (metis prod_cases3)
      define s1 where "s1 = s\<lparr>rvWorld := w, rvCache := c, rvConfig := ?cfg\<lparr>cfRoutes := routes\<rparr>\<rparr>"
      have a1: "advances kd s s1" using aw by (simp add: advances_def s1_def)
      have st: "settled kd s1" using L Inr by (simp add: settled_def s1_def)
      obtain e2 s2 where r: "resolveRoutes kd nr resolve plan s1 = (e2, s2)" by fastforce
      have run: "(e, s') = (case e1 of Some x \<Rightarrow> (Some x, s1)
          | None \<Rightarrow> (case rejectOrphanIdentities (set (map irID plan)) c of Some x \<Rightarrow> (Some x, s1)
            | None \<Rightarrow> (case e2 of Some x \<Rightarrow> (Some x, s2)
              | None \<Rightarrow> (map_option (Errorf ''assigned cell returned an invalid Connector identity graph'')
                  (ValidateManagedRouteIdentities (cfRoutes (rvConfig s2))), s2))))"
        unfolding assms(1) [symmetric]
        unfolding resolveConnectorIdentitiesLocked_def None l Inr option.case prod.case sum.case p Let_def s1_def [symmetric] r
        by (rule refl)
      show ?thesis
      proof (cases "e1 = None \<and> rejectOrphanIdentities (set (map irID plan)) c = None")
        case False
        then show ?thesis using run a1 by (auto split: option.splits)
      next
        case True
        then have p': "planRoutes kd c (length (cfRoutes ?cfg)) (routeIDEnvFallback env) 0 {} {} (cfRoutes ?cfg) = (None, routes, plan)"
          using p by simp
        note P = plan_ok [OF p']
        have len: "length (cfRoutes (rvConfig s1)) = length (cfRoutes ?cfg)" using P by (simp add: s1_def)
        have d: "distinct (map irID plan)" "distinct (map irIndex plan)"
            "list_all (\<lambda>p. irIndex p < length (cfRoutes (rvConfig s1))) plan"
        proof -
          show "distinct (map irID plan)" using P by blast
          show "distinct (map irIndex plan)" using P by simp
          have "set (map irIndex plan) = {0..<length (cfRoutes ?cfg)}" using P by simp
          then show "list_all (\<lambda>p. irIndex p < length (cfRoutes (rvConfig s1))) plan"
            using len by (auto simp: list_all_iff)
        qed
        note RR = resolve_routes [OF r st assms(2,3) d]
        have fin: "identitiesResolved ?cfg (rvConfig s2) (rvCache s2)" if "e2 = None" "nonblankKnocks ?cfg"
        proof (rule resolved_graph [OF p' _ _ conjunct2 [OF True]])
          show "rvCache s1 = c" "cfRoutes (rvConfig s1) = routes" by (simp_all add: s1_def)
          show "routesResolved plan s1 s2" "settled kd s2" using RR that(1) by simp_all
          show "knocksResolved plan s1 s2"
            by (rule resolve_knocks [OF _ st assms(2,3) d]) (use r that in \<open>simp_all add: s1_def nonblankKnocks_def\<close>)
        qed
        have adv: "advances kd s s2" using advances_trans [OF a1] RR by blast
        show ?thesis using run True adv RR fin by (auto split: option.splits)
      qed
    qed
  qed
qed

end
