(* ===== verification/Connector_Start_Props.thy ===== *)
theory Connector_Start_Props
  imports Connector_Start Identity_Resolve_Props
begin

text \<open>
  The start of \<open>run\<close> as a whole: whatever fails, no request leaves the process before it is durable, and a start
  that succeeds serves exactly the configured routes under their durable bindings.
\<close>

section \<open>A missing cache\<close>

text \<open>
  Failures of the operating system do not claim that a file is missing: which files there are is what the
  directory says. Nor do they carry the sentinel of the cache.
\<close>

definition honestFaults :: "cacheWorld \<Rightarrow> bool" where
  "honestFaults w = (\<forall>n. case cwFaults w n of None \<Rightarrow> True
     | Some e \<Rightarrow> \<not> errorsIs e SOsNotExist \<and> \<not> errorsIs e SIdentityCacheNotFound)"

definition faultless :: "err \<Rightarrow> bool" where
  "faultless e = (\<not> errorsIs e SOsNotExist \<and> \<not> errorsIs e SIdentityCacheNotFound)"

lemma honest_same: "same w w' \<Longrightarrow> honestFaults w' = honestFaults w"
  using same_fields by (simp add: honestFaults_def)

lemma honest_quiet: "quiet w w' \<Longrightarrow> honestFaults w \<Longrightarrow> honestFaults w'"
  using honest_same [of w w'] by (simp add: quiet_def)

lemma sys_honest: "sys w = (Some x, w') \<Longrightarrow> honestFaults w \<Longrightarrow> faultless x"
  unfolding honestFaults_def faultless_def sys_def by (auto split: option.splits dest: spec [of _ "cwTick w"])

lemma join_is: "errorsJoin es = Some j \<Longrightarrow> errorsIs j s \<longleftrightarrow> (\<exists>e. Some e \<in> set es \<and> errorsIs e s)"
  by (fastforce simp: errorsJoin_def Let_def List.map_filter_def split: if_splits)

lemma namespace_honest:
  assumes "validateConnectorIdentityCacheNamespace w = (Some x, w')" "honestFaults w"
  shows "faultless x"
proof -
  obtain a v where 1: "sys w = (a, v)" by fastforce
  obtain b u where 2: "sys v = (b, u)" by fastforce
  have v: "honestFaults v" using honest_quiet sys_quiet [OF 1] assms(2) by blast
  have j: "errorsJoin [a, b] = Some x" using assms(1) 1 2 by (simp add: validateConnectorIdentityCacheNamespace_def)
  have "faultless e" if "Some e \<in> set [a, b]" for e
    using that sys_honest 1 2 assms(2) v by auto
  then show ?thesis using join_is [OF j] unfolding faultless_def by blast
qed

lemma regular_honest:
  assumes "validateRegular name w = (Some x, w')" "honestFaults w"
  shows "\<not> errorsIs x SIdentityCacheNotFound" "lookupFile (cwNs w) name \<noteq> None \<Longrightarrow> faultless x"
proof -
  obtain a v where s: "sys w = (a, v)" by fastforce
  then have ns: "cwNs v = cwNs w" using sys_quiet quiet_ns by blast
  show "\<not> errorsIs x SIdentityCacheNotFound" "lookupFile (cwNs w) name \<noteq> None \<Longrightarrow> faultless x"
    using assms sys_honest s ns
    by (auto simp: validateRegular_def faultless_def errNotExist_def split: option.splits if_splits)
qed

lemma open_honest:
  assumes "openConnectorIdentityCache name w = (Some x, w')" "honestFaults w"
  shows "lookupFile (cwNs w) name = None \<and> errorsIs x SOsNotExist \<or> faultless x"
proof -
  obtain a v where n: "validateConnectorIdentityCacheNamespace w = (a, v)" by fastforce
  obtain b u where s: "sys v = (b, u)" by fastforce
  obtain c t where r: "validateRegular name u = (c, t)" by fastforce
  obtain d p where s': "sys t = (d, p)" by fastforce
  have q: "quiet w v" "quiet w u" "quiet w t"
    using quiet_trans namespace_quiet [OF n] sys_quiet [OF s] regular_quiet [OF r] by blast+
  note h = honest_quiet [OF q(1) assms(2)] honest_quiet [OF q(2) assms(2)] honest_quiet [OF q(3) assms(2)]
  show ?thesis
  proof (cases "a = None \<and> b = None")
    case False
    have "faultless y" if "a = Some y" for y using namespace_honest n that assms(2) by blast
    moreover have "faultless y" if "b = Some y" for y using sys_honest s that h(1) by blast
    ultimately show ?thesis using False assms(1) n s
      by (auto simp: openConnectorIdentityCache_def notExist_def faultless_def split: option.splits if_splits)
  next
    case True
    show ?thesis
    proof (cases "lookupFile (cwNs w) name")
      case None
      then show ?thesis using True assms(1) n s quiet_ns [OF q(2)]
        by (auto simp: openConnectorIdentityCache_def notExist_def)
    next
      case (Some f)
      then have l: "lookupFile (cwNs u) name \<noteq> None" using quiet_ns [OF q(2)] by simp
      then obtain y where y: "c = Some y" "errorsJoin [c, d] = Some x"
        using True assms(1) n s r s' by (auto simp: openConnectorIdentityCache_def split: option.splits)
      have "faultless y" using regular_honest(2) [OF _ h(2) l] r y(1) by blast
      moreover have "faultless z" if "d = Some z" for z using sys_honest s' h(3) that by blast
      ultimately show ?thesis using join_is [OF y(2)] y(1) unfolding faultless_def by auto
    qed
  qed
qed

lemma read_absent:
  assumes "readCacheFile kd w = (Inl e, w')" "honestFaults w" "errorsIs e SIdentityCacheNotFound"
  shows "diskCache kd w = None"
proof (cases "lookupFile (cwNs w) connectorIdentityCacheFile")
  case None
  then show ?thesis by (simp add: diskCache_def dirCache_def fileAt_def lookupFile_def)
next
  case (Some f)
  obtain b1 t1 where s1: "sys w = (b1, t1)" by fastforce
  obtain b2 t2 where s2: "validateRegular connectorIdentityCacheFile t1 = (b2, t2)" by fastforce
  have h: "honestFaults t1" using honest_quiet sys_quiet [OF s1] assms(2) by blast
  have "\<not> errorsIs x SIdentityCacheNotFound" if "b1 = Some x" for x
    using sys_honest s1 that assms(2) unfolding faultless_def by blast
  moreover have "\<not> errorsIs x SIdentityCacheNotFound" if "b2 = Some x" for x
    using regular_honest(1) s2 that h by blast
  ultimately have "decodeCache kd (fData f) = Inl e"
    using assms(1,3) Some s1 s2 by (auto simp: readCacheFile_def split: option.splits if_splits)
  then show ?thesis using Some by (simp add: diskCache_def dirCache_def fileAt_def lookupFile_def)
qed

text \<open>When load reports the cache as not found, the directory holds none.\<close>

lemma load_absent:
  assumes "loadConnectorIdentityCacheUnlocked kd w = (Inl x, w')" "honestFaults w" "errorsIs x SIdentityCacheNotFound"
  shows "diskCache kd w = None"
proof -
  obtain a v where o: "openConnectorIdentityCache connectorIdentityCacheFile w = (a, v)" by fastforce
  obtain q u where r: "readCacheFile kd v = (q, u)" by fastforce
  obtain b t where s: "sys u = (b, t)" by fastforce
  have qv: "quiet w v" using open_quiet [OF o] by blast
  have hv: "honestFaults v" by (rule honest_quiet [OF qv assms(2)])
  show ?thesis
  proof (cases a)
    case (Some y)
    then have "errorsIs y SOsNotExist \<or> errorsIs y SIdentityCacheNotFound"
      using assms(1,3) o by (auto simp: loadConnectorIdentityCacheUnlocked_def cacheNotFound_def split: if_splits)
    then have "lookupFile (cwNs w) connectorIdentityCacheFile = None"
      using open_honest [OF o [unfolded Some] assms(2)] unfolding faultless_def by blast
    then show ?thesis by (simp add: diskCache_def dirCache_def fileAt_def lookupFile_def)
  next
    case None
    obtain b1 t1 where s1: "sys v = (b1, t1)" by fastforce
    obtain b2 t2 where s2: "validateRegular connectorIdentityCacheFile t1 = (b2, t2)" by fastforce
    have "u \<in> {v, t1, t2}" using r s1 s2 by (auto simp: readCacheFile_def split: option.splits if_splits)
    then have "quiet v u" using sys_quiet [OF s1] regular_quiet [OF s2] quiet_trans by auto
    then have "honestFaults u" using honest_quiet hv by blast
    then have f: "\<not> errorsIs y SIdentityCacheNotFound" if "b = Some y" for y
      using sys_honest s that unfolding faultless_def by blast
    have "\<exists>e. q = Inl e \<and> errorsIs e SIdentityCacheNotFound"
      using assms(1,3) o r s None f
      by (auto simp: loadConnectorIdentityCacheUnlocked_def errorsJoin_def List.map_filter_def split: option.splits sum.splits)
    then have "diskCache kd v = None" using read_absent r hv by blast
    then show ?thesis using quiet_moved [OF qv, of kd] by simp
  qed
qed


section \<open>The first cache\<close>

text \<open>A start moves the cache file as a transaction does, or writes the empty cache where there was none.\<close>

definition startStep :: "identityCache option \<Rightarrow> identityCache option \<Rightarrow> bool" where
  "startStep a b = (diskStep a b \<or> a = None \<and> b = Some emptyIdentityCache)"

lemma startStep_refl [simp]: "startStep a a"
  by (simp add: startStep_def diskBy_def)

lemma disk_start: "moved kd diskStep w w' \<Longrightarrow> moved kd startStep w w'"
  by (erule moved_mono) (simp add: startStep_def)

lemma legacy_quiet: "rejectLegacyConnectorIdentityStateLocked w = (e, w') \<Longrightarrow> quiet w w'"
  by (auto simp: rejectLegacyConnectorIdentityStateLocked_def split: prod.splits sum.splits bool.splits dest!: lstat_quiet)

lemma native_quiet: "connectorNativeAgentStateExists w = (r, w') \<Longrightarrow> quiet w w'"
proof -
  assume a: "connectorNativeAgentStateExists w = (r, w')"
  obtain r1 w1 where 1: "lstatEntry AgentStateFile w = (r1, w1)" by fastforce
  obtain r2 w2 where 2: "lstatEntry SealedAgentStateFile w1 = (r2, w2)" by fastforce
  have "quiet w w1" "quiet w w2" using lstat_quiet [OF 1] lstat_quiet [OF 2] quiet_trans by blast+
  then show ?thesis using a 1 2 by (auto simp: connectorNativeAgentStateExists_def split: sum.splits bool.splits)
qed

text \<open>The first cache is written only where there was none.\<close>

definition firstStep :: "identityCache option \<Rightarrow> identityCache option \<Rightarrow> bool" where
  "firstStep a b = (a = b \<or> a = None \<and> b = Some emptyIdentityCache)"

lemma ensure_first:
  assumes "ensureConnectorIdentityCacheInitializedLocked kd w = (e, w')" "honestFaults w" "deps_ok kd"
  shows "moved kd firstStep w w' \<and> diskCache kd w' \<in> {diskCache kd w, Some emptyIdentityCache} \<and>
    (diskCache kd w \<noteq> None \<longrightarrow> diskCache kd w' = diskCache kd w)"
proof -
  obtain e1 w1 where 1: "rejectLegacyConnectorIdentityStateLocked w = (e1, w1)" by fastforce
  obtain q w2 where 2: "loadConnectorIdentityCacheUnlocked kd w1 = (q, w2)" by fastforce
  obtain r3 w3 where 3: "connectorNativeAgentStateExists w2 = (r3, w3)" by fastforce
  obtain e4 w4 where 4: "sys w2 = (e4, w4)" by fastforce
  obtain r5 w5 where 5: "connectorNativeAgentStateExists w4 = (r5, w5)" by fastforce
  obtain e6 w6 where 6: "saveConnectorIdentityCacheUnlocked kd emptyIdentityCache w5 = (e6, w6)" by fastforce
  have q: "quiet w w1" "quiet w w2" "quiet w w3" "quiet w w4" "quiet w w5"
    using legacy_quiet [OF 1] cacheLoad_quiet [OF 2] native_quiet [OF 3] sys_quiet [OF 4] native_quiet [OF 5] quiet_trans
    by blast+
  have m: "moved kd firstStep w u \<and> diskCache kd u = diskCache kd w" if "quiet w u" for u using quiet_moved that by blast
  have save: "moved kd firstStep w w6 \<and> diskCache kd w = None \<and> diskCache kd w6 \<in> {None, Some emptyIdentityCache}" if "q = Inl x" "errorsIs x SIdentityCacheNotFound" for x
  proof -
    have "honestFaults w1" using honest_quiet q(1) assms(2) by blast
    then have "diskCache kd w1 = None" using load_absent 2 that by blast
    then have d: "diskCache kd w5 = None" using quiet_moved q(1,5) by metis
    have "ownersDistinct (icByID emptyIdentityCache)" by (simp add: emptyIdentityCache_def ownersDistinct_def)
    note S = save_contract [OF 6 assms(3) this, unfolded d]
    have "moved kd firstStep w5 w6"
      by (rule moved_mono [OF conjunct1 [OF S]]) (auto simp: saveRel_def firstStep_def)
    then have "moved kd firstStep w w6" using moved_trans m q(5) by blast
    moreover have "diskCache kd w = None" using m [OF q(5)] d by simp
    ultimately show ?thesis using S by blast
  qed
  show ?thesis
  proof (cases q)
    case (Inl x)
    then have "w' \<in> {w1, w2, w4, w5} \<or> w' = w6 \<and> errorsIs x SIdentityCacheNotFound"
      using assms(1) 1 2 4 5 6
      by (auto simp: ensureConnectorIdentityCacheInitializedLocked_def split: option.splits sum.splits bool.splits if_splits)
    then consider "quiet w w'" | "w' = w6" "errorsIs x SIdentityCacheNotFound" using q by blast
    then show ?thesis
    proof cases
      case 1
      then show ?thesis using m [OF 1] by simp
    next
      case 2
      then show ?thesis using save [OF Inl 2(2)] by auto
    qed
  next
    case (Inr c)
    then have "w' \<in> {w1, w2, w3}"
      using assms(1) 1 2 3
      by (auto simp: ensureConnectorIdentityCacheInitializedLocked_def split: option.splits sum.splits bool.splits if_splits)
    then have "quiet w w'" using q by blast
    from m [OF this] show ?thesis by simp
  qed
qed

lemma ensure_contract:
  assumes "ensureConnectorIdentityCacheInitializedLocked kd w = (e, w')" "honestFaults w" "deps_ok kd"
  shows "moved kd startStep w w'"
  by (rule moved_mono [OF conjunct1 [OF ensure_first [OF assms]]]) (auto simp: firstStep_def startStep_def diskBy_def)

section \<open>The transaction\<close>

text \<open>Opening the runtime does not touch the cache file.\<close>

definition opensApart :: "openRuntime \<Rightarrow> bool" where
  "opensApart openRt = (\<forall>w. leaves connectorIdentityCacheFile w (snd (openRt w)))"

lemma preflight_quiet: "preflightConnectorIdentityCacheGraphLocked kd env cfg w = (e, w') \<Longrightarrow> quiet w w'"
  by (auto simp: preflightConnectorIdentityCacheGraphLocked_def split: prod.splits sum.splits dest!: cacheLoad_quiet)

lemma bind_runtime:
  assumes "gateConnectorStateContinuity op (bindRuntime kd agentID) s = (e, s')" "deps_ok kd"
  shows "advances kd s s' \<and> rvConfig s' = rvConfig s \<and> rvSent s' = rvSent s \<and> (e = None \<longrightarrow> settled kd s')"
  using assms(1)
proof (cases rule: gate_cases)
  case 1
  then show ?thesis using rests_advances [of s s'] rests_fields [of s s'] by auto
next
  case (2 s1 e1 s2)
  obtain q w where l: "loadConnectorIdentityCacheUnlocked kd (rvWorld s1) = (q, w)" by fastforce
  note L = cacheLoad_quiet [OF l]
  have "advances kd s1 s2 \<and> rvConfig s2 = rvConfig s1 \<and> rvSent s2 = rvSent s1 \<and> (e1 = None \<longrightarrow> settled kd s2)"
  proof (cases q)
    case (Inl x)
    then show ?thesis using 2(2) l L quiet_step by (auto simp: bindRuntime_def advances_def)
  next
    case (Inr c)
    let ?t = "s1\<lparr>rvWorld := w, rvCache := c\<rparr>"
    have o: "onCache (bindAgentIDLocked kd agentID) ?t = (e1, s2)" using 2(2) l Inr by (simp add: bindRuntime_def)
    have "refines kd (rvCache ?t) (rvWorld ?t) (bindAgentIDLocked kd agentID (rvCache ?t) (rvWorld ?t))"
      using bind_refines L Inr assms(2) by simp
    note R = refines_state [OF this o]
    have "advances kd s1 ?t" using L quiet_step by (simp add: advances_def)
    then show ?thesis using R advances_trans by auto
  qed
  then show ?thesis
    using advances_trans rests_advances 2(1,3,4) rests_fields [OF 2(1)] rests_fields [OF 2(3)] rests_settled [OF 2(3)] by metis
qed

lemma prepare_contract:
  assumes "prepareTransaction kd nr resolve env openRt st w = ((st', e), w')"
    and "deps_ok kd" "exactRequests nr" "opensApart openRt"
  shows "(honestFaults w \<longrightarrow> moved kd startStep w w') \<and>
    (list_all (sentDurable kd) (ssSent st) \<longrightarrow> list_all (sentDurable kd) (ssSent st')) \<and>
    (e = None \<and> nonblankKnocks (ssConfig st) \<longrightarrow> diskCache kd w' = Some (ssCache st') \<and> validCache kd (ssCache st') \<and>
      identitiesResolved (ssConfig st) (ssConfig st') (ssCache st'))"
proof -
  obtain e1 w1 where 1: "ensureConnectorIdentityCacheInitializedLocked kd w = (e1, w1)" by fastforce
  obtain e2 w2 where 2: "preflightConnectorIdentityCacheGraphLocked kd env (ssConfig st) w1 = (e2, w2)" by fastforce
  obtain e3 w3 where 3: "sys w2 = (e3, w3)" by fastforce
  obtain r4 w4 where 4: "openRt w3 = (r4, w4)" by fastforce
  have m1: "honestFaults w \<longrightarrow> moved kd startStep w w1" using ensure_contract 1 assms(2) by blast
  have "quiet w1 w3" using preflight_quiet [OF 2] sys_quiet [OF 3] quiet_trans by blast
  then have m23: "moved kd startStep w1 w2" "moved kd startStep w1 w3"
    using preflight_quiet [OF 2] quiet_moved by blast+
  have "leaves connectorIdentityCacheFile w3 w4" using assms(4) 4 unfolding opensApart_def by (metis snd_conv)
  then have m4: "moved kd startStep w1 w4" using moved_trans [OF m23(2)] leaves_moved startStep_refl by blast
  define s0 where "s0 = \<lparr>rvWorld = w4, rvCache = ssCache st, rvConfig = ssConfig st, rvSent = []\<rparr>"
  show ?thesis
  proof (cases "e1 = None \<and> e2 = None \<and> e3 = None \<and> (\<exists>a. r4 = Inr a)")
    case False
    then have "w' \<in> {w1, w2, w3, w4} \<and> ssSent st' = ssSent st \<and> e \<noteq> None"
      using assms(1) 1 2 3 4 by (auto simp: prepareTransaction_def Let_def split: option.splits sum.splits)
    moreover have "honestFaults w \<longrightarrow> moved kd startStep w u" if "u \<in> {w1, w2, w3, w4}" for u
      using that m1 m23 m4 moved_trans by blast
    ultimately show ?thesis by auto
  next
    case True
    then obtain agentID where a: "r4 = Inr agentID" by blast
    obtain e5 s5 where 5: "gateConnectorStateContinuity ''bind Connector identity cache'' (bindRuntime kd agentID) s0 = (e5, s5)"
      by fastforce
    note B = bind_runtime [OF 5 assms(2)]
    obtain e6 s6 where 6: "resolveConnectorIdentitiesLocked kd nr resolve env s5 = (e6, s6)" by fastforce
    note R = resolve_locked [OF 6 assms(2,3)]
    have run: "((st', e), w') = (case e5 of
        Some x \<Rightarrow> ((st\<lparr>ssReleased := True, ssOpened := True\<rparr>,
          Some (Errorf ''bind Connector identity continuity to registered device'' x)), rvWorld s5)
      | None \<Rightarrow> ((st\<lparr>ssReleased := True, ssOpened := True, ssConfig := rvConfig s6, ssCache := rvCache s6, ssSent := rvSent s6\<rparr>,
          map_option (Errorf ''resolve qURL Connector resources over NHP'') e6), rvWorld s6))"
      using assms(1) 1 2 3 4 True a 5 6 by (simp add: prepareTransaction_def Let_def s0_def split: option.splits)
    have adv: "advances kd s0 s5" "advances kd s0 s6" using B R advances_trans by blast+
    have w: "honestFaults w \<longrightarrow> moved kd startStep w (rvWorld s)" if "advances kd s0 s" for s
    proof -
      have "moved kd startStep w4 (rvWorld s)" using that disk_start by (auto simp: advances_def s0_def)
      then show ?thesis using m1 m4 moved_trans by blast
    qed
    have sent: "list_all (sentDurable kd) (rvSent s6)" using adv(2) by (auto simp: advances_def s0_def)
    have cfg: "rvConfig s5 = ssConfig st" using B by (simp add: s0_def)
    show ?thesis using run w adv sent R cfg by (cases e5) (auto simp: settled_def)
  qed
qed


section \<open>The start\<close>

lemma start_locked:
  assumes "withConnectorIdentityCacheLock st (prepareTransaction kd nr resolve env openRt st) w = ((st', e), w')"
    and "deps_ok kd" "exactRequests nr" "opensApart openRt" "honestFaults w" "nonblankKnocks (ssConfig st)" "ssSent st = []"
  shows "moved kd startStep w w' \<and> list_all (sentDurable kd) (ssSent st') \<and>
    (e = None \<longrightarrow> diskCache kd w' = Some (ssCache st') \<and> validCache kd (ssCache st') \<and>
      identitiesResolved (ssConfig st) (ssConfig st') (ssCache st'))"
proof -
  let ?P = "\<lambda>v w. diskCache kd w = Some (ssCache v) \<and> validCache kd (ssCache v) \<and>
    identitiesResolved (ssConfig st) (ssConfig v) (ssCache v)"
  note C = prepare_contract [OF _ assms(2-4)]
  have L: "moved kd startStep w w' \<and> (e = None \<longrightarrow> ?P st' w') \<and>
      (st' = st \<or> (\<exists>u e' u'. prepareTransaction kd nr resolve env openRt st u = ((st', e'), u')))"
  proof (rule lock_contract [OF _ _ _ assms(1)])
    show "startStep a a" for a by simp
  next
    fix u v e u'
    assume "leaves connectorIdentityCacheFile w u" "prepareTransaction kd nr resolve env openRt st u = ((v, e), u')"
    then show "moved kd startStep u u' \<and> (e = None \<longrightarrow> ?P v u')"
      using C honest_same assms(5,6) unfolding leaves_def by blast
  next
    fix v u u'
    assume "?P v u" "quiet u u'"
    then show "?P v u'" using quiet_moved by metis
  qed
  then have "list_all (sentDurable kd) (ssSent st')" using C assms(7) by fastforce
  then show ?thesis using L by blast
qed

lemma closing_quiet: "closing e w = (e', w') \<Longrightarrow> quiet w w' \<and> (e' = None \<longrightarrow> e = None)"
  by (auto simp: closing_def split: prod.splits dest!: sys_quiet)

lemma start_contract:
  assumes "prepareConnectorRun kd nr resolve env openRt cfg w = (st, e, w')"
    and "deps_ok kd" "exactRequests nr" "opensApart openRt" "honestFaults w" "nonblankKnocks cfg"
  shows "moved kd startStep w w' \<and> list_all (sentDurable kd) (ssSent st) \<and>
    (e = None \<longrightarrow> diskCache kd w' = Some (ssCache st) \<and> validCache kd (ssCache st) \<and>
      identitiesResolved cfg (ssConfig st) (ssCache st) \<and> Validate (kdCridValidate kd) (ssConfig st) = None \<and>
      knockResourceIDOrEmpty env (ssConfig st) (PrimaryResourceID (ssConfig st)) \<noteq> '''')"
proof -
  define st0 where "st0 = \<lparr>ssReleased = False, ssOpened = False, ssConfig = cfg, ssCache = emptyIdentityCache, ssSent = []\<rparr>"
  have early: "?thesis" if c: "st = st0" "(e, w') = closing (Some x) w" for x
    using closing_quiet [OF c(2) [symmetric]] quiet_moved c(1) by (auto simp: st0_def)
  show ?thesis
  proof (cases "cfRoutes cfg = [] \<or> validateConnectorRunRoutes env cfg \<noteq> None")
    case True
    then obtain x where c: "st = st0" "(e, w') = closing (Some x) w"
      using assms(1) by (auto simp: prepareConnectorRun_def Let_def st0_def [symmetric] split: option.splits if_splits) metis+
    show ?thesis by (rule early [OF c])
  next
    case False
    obtain st1 e1 w1 where l: "withConnectorIdentityCacheLock st0 (prepareTransaction kd nr resolve env openRt st0) w = ((st1, e1), w1)"
      by (metis prod.exhaust)
    have s0: "ssConfig st0 = cfg" "ssSent st0 = []" by (simp_all add: st0_def)
    have S: "moved kd startStep w w1 \<and> list_all (sentDurable kd) (ssSent st1) \<and>
        (e1 = None \<longrightarrow> diskCache kd w1 = Some (ssCache st1) \<and> validCache kd (ssCache st1) \<and>
          identitiesResolved cfg (ssConfig st1) (ssCache st1))"
      using start_locked [OF l assms(2-5)] assms(6) s0 by simp
    obtain e2 w2 where r: "(if ssReleased st1 then (e1, w1) else closing e1 w1) = (e2, w2)" by fastforce
    have q2: "quiet w1 w2" "e2 = None \<Longrightarrow> e1 = None" using r closing_quiet by (auto split: if_splits)
    obtain e3 w3 where 3: "sys w2 = (e3, w3)" by fastforce
    obtain e4 w4 where 4: "sys w3 = (e4, w4)" by fastforce
    have q: "quiet w1 w3" "quiet w1 w4" using q2(1) sys_quiet [OF 3] sys_quiet [OF 4] quiet_trans by blast+
    let ?ready = "Validate (kdCridValidate kd) (ssConfig st1) = None \<and>
      knockResourceIDOrEmpty env (ssConfig st1) (PrimaryResourceID (ssConfig st1)) \<noteq> ''''"
    define failed where "failed = (\<lambda>p. \<exists>x u. u \<in> {w2, w3, w4} \<and> p = closing (Some x) u)"
    have failed: "failed (closing (Some x) w2)" "failed (closing (Some x) w3)" "failed (closing (Some x) w4)" for x
      by (auto simp: failed_def)
    have "st = st1 \<and> (failed p \<or> p = (None, w4) \<and> e2 = None \<and> ?ready)"
      if "prepareConnectorRun kd nr resolve env openRt cfg w = (st, p)" for p
      using that False l r 3 4 failed
      by (auto simp: prepareConnectorRun_def Let_def st0_def [symmetric] split: option.splits if_splits)
    from this [OF assms(1)] have run: "st = st1 \<and> ((\<exists>x u. u \<in> {w2, w3, w4} \<and> (e, w') = closing (Some x) u) \<or>
        e = None \<and> e2 = None \<and> w' = w4 \<and> ?ready)"
      by (auto simp: failed_def)
    show ?thesis
    proof (cases e)
      case None
      then have "e2 = None \<and> w' = w4 \<and> ?ready" using run closing_quiet by (metis option.distinct(1))
      then show ?thesis using run S q2 q(2) quiet_moved moved_trans by metis
    next
      case (Some y)
      then obtain x u where u: "u \<in> {w2, w3, w4}" "(e, w') = closing (Some x) u" using run by auto
      then have "quiet w1 w'" using q q2 closing_quiet quiet_trans by (metis empty_iff insert_iff)
      then have "moved kd startStep w w'" using S moved_trans quiet_moved by blast
      then show ?thesis using S run Some by simp
    qed
  qed
qed

text \<open>
  C4. Whatever fails while the connector starts, every request it gave to the assigned cell was on disk exactly
  as sent at the moment it was sent, so a crash replays that request and no other; and the cache file moved by
  whole abstract steps only, from the cache it held or from none to the empty one.
\<close>

theorem requests_durable_before_dispatch:
  assumes "deps_ok kd" "exactRequests nr" "opensApart openRt" "honestFaults w" "nonblankKnocks cfg"
  shows "case prepareConnectorRun kd nr resolve env openRt cfg w of (st, e, w') \<Rightarrow>
    moved kd startStep w w' \<and> list_all (sentDurable kd) (ssSent st)"
proof -
  obtain st e w' where r: "prepareConnectorRun kd nr resolve env openRt cfg w = (st, e, w')" by (metis prod_cases3)
  show ?thesis unfolding r prod.case using start_contract [OF r assms] by blast
qed


end
