(* ===== verification/Connector_Remove_Props.thy ===== *)
theory Connector_Remove_Props
  imports Connector_Remove Connector_Start_Props
begin

text \<open>
  Removal: nothing local goes before the service proved the exact resource gone, whatever fails, and what a
  removal that reports success left behind.
\<close>

section \<open>Identities kept\<close>

text \<open>A binding stays; a request in flight stays or became a binding.\<close>

definition held :: "identityCache \<Rightarrow> identityCache \<Rightarrow> string \<Rightarrow> bool" where
  "held c c' i = ((\<forall>b. fmlookup (icByID c) i = Some b \<longrightarrow> fmlookup (icByID c') i = Some b) \<and>
     (\<forall>p. fmlookup (icPending c) i = Some p \<longrightarrow>
        fmlookup (icPending c') i = Some p \<or> fmlookup (icByID c') i \<noteq> None))"

definition keepsBut :: "string set \<Rightarrow> identityCache option \<Rightarrow> identityCache option \<Rightarrow> bool" where
  "keepsBut X a b = (\<forall>c. a = Some c \<longrightarrow> (\<exists>c'. b = Some c' \<and> (\<forall>i. i \<notin> X \<longrightarrow> held c c' i)))"

lemma held_refl [simp]: "held c c i"
  by (simp add: held_def)

lemma keepsBut_refl [simp]: "keepsBut X a a"
  by (simp add: keepsBut_def)

lemma keepsBut_mono: "keepsBut X a b \<Longrightarrow> X \<subseteq> Y \<Longrightarrow> keepsBut Y a b"
  unfolding keepsBut_def by (metis subsetD)

lemma moved_keeps: "moved kd (keepsBut {}) w w' \<Longrightarrow> moved kd (keepsBut X) w w'"
  by (erule moved_mono) (auto elim: keepsBut_mono)

lemma disk_keeps:
  assumes "moved kd (diskBy S) w w'" "\<And>c c' i. S c c' \<Longrightarrow> i \<notin> X \<Longrightarrow> held c c' i"
  shows "moved kd (keepsBut X) w w'"
  by (rule moved_mono [OF assms(1)]) (use assms(2) in \<open>auto simp: diskBy_def keepsBut_def\<close>)

lemma bind_held: "bindStep c c' \<Longrightarrow> held c c' i"
  by (auto simp: bindStep_def held_def)

lemma record_held: "recordStep j c c' \<Longrightarrow> held c c' i"
  by (auto simp: recordStep_def held_def putBinding_def)

lemma forget_held: "forgetStep j c c' \<Longrightarrow> i \<notin> {j} \<Longrightarrow> held c c' i"
  by (auto simp: forgetStep_def held_def forgotten_def)

lemma first_keeps: "moved kd firstStep w w' \<Longrightarrow> moved kd (keepsBut X) w w'"
  by (erule moved_mono) (auto simp: firstStep_def keepsBut_def)

section \<open>What the service said\<close>

text \<open>Failures of local calls are not answers of the service.\<close>

definition serviceSays :: "sentinel set" where
  "serviceSays = {Qurl ''ConnectorResourceRevoked'', Qurl ''ConnectorResourceTombstoned'', Qurl ''ConnectorResourceNotFound''}"

definition localFaults :: "cacheWorld \<Rightarrow> bool" where
  "localFaults w = (\<forall>n. case cwFaults w n of None \<Rightarrow> True | Some x \<Rightarrow> (\<forall>s \<in> serviceSays. \<not> errorsIs x s))"

lemma serviceSays_members:
  "Qurl ''ConnectorResourceRevoked'' \<in> serviceSays" "Qurl ''ConnectorResourceTombstoned'' \<in> serviceSays"
  "Qurl ''ConnectorResourceNotFound'' \<in> serviceSays"
  by (simp_all add: serviceSays_def)

lemma local_same: "same w w' \<Longrightarrow> localFaults w' = localFaults w"
  using same_fields by (simp add: localFaults_def)

lemma sys_local: "sys w = (Some x, w') \<Longrightarrow> localFaults w \<Longrightarrow> s \<in> serviceSays \<Longrightarrow> \<not> errorsIs x s"
  unfolding localFaults_def sys_def by (auto split: option.splits dest: spec [of _ "cwTick w"])

lemma continuity_local:
  assumes "validateContinuity w = (Some x, w')" "localFaults w" "s \<in> serviceSays"
  shows "\<not> errorsIs x s"
proof -
  obtain a w1 where 1: "sys w = (a, w1)" by fastforce
  obtain b w2 where 2: "sys w1 = (b, w2)" by fastforce
  obtain c w3 where 3: "sys w2 = (c, w3)" by fastforce
  obtain d w4 where 4: "sys w3 = (d, w4)" by fastforce
  have "same w w1" "same w w2" "same w w3"
    using sys_quiet [OF 1] sys_quiet [OF 2] sys_quiet [OF 3] same_trans unfolding quiet_def by blast+
  then have l: "localFaults w1" "localFaults w2" "localFaults w3" using local_same assms(2) by blast+
  have n: "validateConnectorIdentityCacheNamespace w1 = (errorsJoin [b, c], w3)"
    using 2 3 by (simp add: validateConnectorIdentityCacheNamespace_def)
  have j: "\<not> errorsIs y s" if "errorsJoin [b, c] = Some y" for y
    using join_is [OF that, of s] sys_local 2 3 l assms(3) by auto
  have q: "s \<noteq> QAgentStateContinuity" using assms(3) by (auto simp: serviceSays_def)
  have "a = Some x \<or> (\<exists>y. errorsJoin [b, c] = Some y \<and> x = Multi (TMsg ''state continuity'') [Sentinel QAgentStateContinuity, y]) \<or>
      d = Some x"
    using assms(1) 1 n 4 by (auto simp: validateContinuity_def split: option.splits simp del: errorsJoin_None)
  then show ?thesis using sys_local [OF _ assms(2,3)] sys_local [OF _ l(3) assms(3)] 1 4 j q by auto
qed

text \<open>What an answer passed through a gate says, the call itself said.\<close>

lemma gate_result_service:
  assumes "gateConnectorStateResult op fn s = (r, s')" "localFaults (rvWorld s)"
    "\<And>t q t'. fn t = (q, t') \<Longrightarrow> same (rvWorld t) (rvWorld t')"
  obtains x where "r = Inl x" "rests s s'" "\<And>y. y \<in> serviceSays \<Longrightarrow> \<not> errorsIs x y"
    | s1 r1 s2 where "rests s s1" "fn s1 = (r1, s2)" "rests s2 s'" "\<And>v. r = Inr v \<Longrightarrow> r1 = Inr v"
        "\<And>x y. r = Inl x \<Longrightarrow> y \<in> serviceSays \<Longrightarrow> errorsIs x y \<Longrightarrow> \<exists>e. r1 = Inl e \<and> errorsIs e y"
proof -
  obtain x w where v: "validateContinuity (rvWorld s) = (x, w)" by fastforce
  obtain r1 s2 where f: "fn (s\<lparr>rvWorld := w\<rparr>) = (r1, s2)" by fastforce
  obtain y u where v2: "validateContinuity (rvWorld s2) = (y, u)" by fastforce
  note q = continuity_quiet [OF v] continuity_quiet [OF v2]
  have l: "localFaults (rvWorld s2)"
    using assms(2) local_same [OF assms(3) [OF f]] local_same [of "rvWorld s" w] q(1) unfolding quiet_def by simp
  show thesis
  proof (cases x)
    case (Some a)
    then have r: "r = Inl (Errorf (''validate SDK state before '' @ op) a)" "s' = s\<lparr>rvWorld := w\<rparr>"
      using assms(1) v by (simp_all add: gateConnectorStateResult_def)
    show thesis
      by (rule that(1) [OF r(1)]) (use r(2) q continuity_local [OF v [unfolded Some] assms(2)] in \<open>auto\<close>)
  next
    case None
    have r: "(r, s') = (case y of
        Some x \<Rightarrow> (Inl (the (errorsJoin [case r1 of Inl e \<Rightarrow> Some e | Inr _ \<Rightarrow> None,
          Some (Errorf (''validate SDK state after '' @ op) x)])), s2\<lparr>rvWorld := u\<rparr>)
      | None \<Rightarrow> (r1, s2\<lparr>rvWorld := u\<rparr>))"
      using assms(1) v f v2 None by (simp add: gateConnectorStateResult_def split: option.splits)
    have join: "\<exists>e. r1 = Inl e \<and> errorsIs e z"
      if "y = Some a" "errorsIs (the (errorsJoin [case r1 of Inl e \<Rightarrow> Some e | Inr _ \<Rightarrow> None,
          Some (Errorf (''validate SDK state after '' @ op) a)])) z" "z \<in> serviceSays" for a z
    proof -
      have "\<not> errorsIs (Errorf (''validate SDK state after '' @ op) a) z"
        using continuity_local [OF v2 [unfolded that(1)] l that(3)] by simp
      then show ?thesis using that(2)
        by (cases r1) (auto simp: errorsJoin_def Let_def List.map_filter_def)
    qed
    show thesis
      by (rule that(2) [of "s\<lparr>rvWorld := w\<rparr>" r1 s2]) (use f q r join in \<open>auto split: option.splits\<close>)
  qed
qed


section \<open>Proof that a resource is gone\<close>

definition provedGone :: "string \<Rightarrow> apiCall list \<Rightarrow> bool" where
  "provedGone crid calls = list_ex (\<lambda>call. case call of
      DeleteCRID c e \<Rightarrow> c = crid \<and> e = None
    | ReadCRID c r \<Rightarrow> c = crid \<and> (case r of Inl e \<Rightarrow> connectorResourceReadProvesDeletion e | Inr _ \<Rightarrow> False)
    | ReadSlug _ _ \<Rightarrow> False) calls"

definition provedAbsent :: "string \<Rightarrow> apiCall list \<Rightarrow> bool" where
  "provedAbsent i calls = list_ex (\<lambda>call. case call of
      ReadSlug c r \<Rightarrow> c = i \<and> (case r of Inl e \<Rightarrow> errorsIs e (Qurl ''ConnectorResourceNotFound'') | Inr _ \<Rightarrow> False)
    | _ \<Rightarrow> False) calls"

text \<open>The CRIDs the service gave for a pending id.\<close>

definition foundCRIDs :: "string \<Rightarrow> apiCall list \<Rightarrow> string list" where
  "foundCRIDs i calls = List.map_filter (\<lambda>call. case call of
      ReadSlug c (Inr (Some r)) \<Rightarrow> if c = i \<and> crSlug r = i then Some (crCRID r) else None
    | _ \<Rightarrow> None) calls"

definition serviceDone :: "removalSelection \<Rightarrow> apiCall list \<Rightarrow> bool" where
  "serviceDone sel calls =
     (if slCRID sel \<noteq> '''' then provedGone (slCRID sel) calls
      else slPending sel \<longrightarrow> provedAbsent (slID sel) calls \<or>
        list_ex (\<lambda>crid. provedGone crid calls) (foundCRIDs (slID sel) calls))"

lemma proofs_grow:
  assumes "set xs \<subseteq> set ys"
  shows "provedGone crid xs \<Longrightarrow> provedGone crid ys" "provedAbsent i xs \<Longrightarrow> provedAbsent i ys"
    "set (foundCRIDs i xs) \<subseteq> set (foundCRIDs i ys)"
  using assms by (auto simp: provedGone_def provedAbsent_def foundCRIDs_def list_ex_iff set_map_filter)

section \<open>The remote part\<close>

text \<open>Nothing local goes, and the calls made stay recorded.\<close>

definition pursues :: "keyDeps \<Rightarrow> removeState \<Rightarrow> removeState \<Rightarrow> bool" where
  "pursues kd s s' = (moved kd (keepsBut {}) (rvWorld s) (rvWorld s') \<and> rvConfig s' = rvConfig s \<and>
     rmSaved s' = rmSaved s \<and> set (rmCalls s) \<subseteq> set (rmCalls s'))"

lemma pursues_refl [simp]: "pursues kd s s"
  by (simp add: pursues_def)

lemma pursues_trans: "pursues kd s t \<Longrightarrow> pursues kd t u \<Longrightarrow> pursues kd s u"
  unfolding pursues_def using moved_trans by fastforce

lemma pursues_local: "pursues kd s s' \<Longrightarrow> localFaults (rvWorld s) \<Longrightarrow> localFaults (rvWorld s')"
  using local_same [of "rvWorld s" "rvWorld s'"] by (auto simp: pursues_def moved_def)

lemma rests_calls:
  fixes s :: removeState
  assumes "rests s s'"
  shows "rmCalls s' = rmCalls s" "rmSaved s' = rmSaved s"
proof -
  have e: "s' = s\<lparr>rvWorld := rvWorld s'\<rparr>" using assms by (simp add: rests_def)
  show "rmCalls s' = rmCalls s" "rmSaved s' = rmSaved s" by (subst e, simp)+
qed

lemma rests_pursues:
  assumes "rests s s'"
  shows "pursues kd s s'"
proof -
  have "quiet (rvWorld s) (rvWorld s')" using assms by (simp add: rests_def)
  from quiet_moved [OF this] show ?thesis
    using rests_fields(2) [OF assms] rests_calls [OF assms] by (simp add: pursues_def)
qed

lemma called_quiet: "quiet (rvWorld s) (rvWorld (apiCalled x s))"
  by (cases "rvWorld s") (simp add: apiCalled_def quiet_def same_def)

lemma called_pursues: "pursues kd s (apiCalled x s)"
  using quiet_moved [OF called_quiet, of kd "keepsBut {}" s x] by (auto simp: pursues_def apiCalled_def)

lemma called_settled: "settled kd (apiCalled x s) = settled kd s"
  using quiet_moved [OF called_quiet, of kd "keepsBut {}" s x] by (simp add: settled_def apiCalled_def)

text \<open>An operation on the cache that keeps identities, in a gate.\<close>

lemma gate_keeps:
  assumes "gateConnectorStateContinuity op (onCache f) s = (e, s')" "settled kd s"
    "\<And>w. diskCache kd w = Some (rvCache s) \<Longrightarrow> refinesBy S kd (rvCache s) w (f (rvCache s) w)"
    "\<And>c c' i. S c c' \<Longrightarrow> held c c' i"
  shows "pursues kd s s' \<and> (e = None \<longrightarrow> settled kd s' \<and> (\<exists>w c' w'. f (rvCache s) w = (None, c', w')))"
  using assms(1)
proof (cases rule: gate_cases)
  case 1
  then show ?thesis using rests_pursues by blast
next
  case (2 s1 e1 s2)
  obtain c w where f: "f (rvCache s1) (rvWorld s1) = (e1, c, w)" and s2: "s2 = s1\<lparr>rvCache := c, rvWorld := w\<rparr>"
    using 2(2) by (auto simp: onCache_def split: prod.splits)
  note r1 = rests_fields [OF 2(1)]
  have R: "refinesBy S kd (rvCache s1) (rvWorld s1) (e1, c, w)"
    using assms(2,3) r1 f unfolding settled_def by metis
  then have "moved kd (keepsBut {}) (rvWorld s1) w"
    using disk_keeps [of kd S] assms(4) by (simp add: refinesBy_def)
  then have "pursues kd s1 s2" by (simp add: pursues_def s2)
  then have p: "pursues kd s s'" using pursues_trans rests_pursues 2(1,3) by blast
  have "settled kd s2" if "e1 = None" using R that by (simp add: refinesBy_def settled_def s2)
  then show ?thesis using p 2(4) rests_settled [OF 2(3), of kd] f r1 by auto
qed


lemma call_effect:
  "GetConnectorResource cl crid s = (r, s') \<Longrightarrow> s' = apiCalled (ReadCRID crid r) s"
  "GetConnectorResourceBySlug cl slug s = (r, s') \<Longrightarrow> s' = apiCalled (ReadSlug slug r) s"
  "DeleteConnectorResource cl crid s = (e, s') \<Longrightarrow> s' = apiCalled (DeleteCRID crid e) s"
  by (auto simp: GetConnectorResource_def GetConnectorResourceBySlug_def DeleteConnectorResource_def Let_def)

lemma called_same: "same (rvWorld s) (rvWorld (apiCalled x s))"
  using called_quiet [of s x] by (simp add: quiet_def)

lemma apiCalled_calls [simp]: "rmCalls (apiCalled x s) = rmCalls s @ [x]"
  by (simp add: apiCalled_def)

text \<open>A read in a gate: what came back, the service said.\<close>

lemma gate_read:
  assumes "gateConnectorStateResult op fn s = (r, s')" "localFaults (rvWorld s)" "settled kd s"
    "\<And>t q t'. fn t = (q, t') \<Longrightarrow> t' = apiCalled (mk q) t"
  shows "pursues kd s s' \<and> settled kd s' \<and>
    (\<forall>v. r = Inr v \<longrightarrow> mk (Inr v) \<in> set (rmCalls s')) \<and>
    (\<forall>x y. r = Inl x \<longrightarrow> y \<in> serviceSays \<longrightarrow> errorsIs x y \<longrightarrow> (\<exists>e. errorsIs e y \<and> mk (Inl e) \<in> set (rmCalls s')))"
proof -
  have same: "same (rvWorld t) (rvWorld t')" if "fn t = (q, t')" for t q t'
    using assms(4) [OF that] called_same by simp
  show ?thesis
  proof (rule gate_result_service [OF assms(1,2) same])
    fix x
    assume a: "r = Inl x" "rests s s'" "\<And>y. y \<in> serviceSays \<Longrightarrow> \<not> errorsIs x y"
    then show ?thesis using rests_pursues [OF a(2), of kd] rests_settled [OF a(2), of kd] assms(3) by auto
  next
    fix s1 r1 s2
    assume a: "rests s s1" "fn s1 = (r1, s2)" "rests s2 s'" "\<And>v. r = Inr v \<Longrightarrow> r1 = Inr v"
      "\<And>x y. r = Inl x \<Longrightarrow> y \<in> serviceSays \<Longrightarrow> errorsIs x y \<Longrightarrow> \<exists>e. r1 = Inl e \<and> errorsIs e y"
    have s2: "s2 = apiCalled (mk r1) s1" by (rule assms(4) [OF a(2)])
    have "pursues kd s s'"
      using pursues_trans rests_pursues a(1,3) called_pursues s2 by metis
    moreover have "settled kd s'"
      using rests_settled [OF a(1), of kd] rests_settled [OF a(3), of kd] called_settled [of kd "mk r1" s1] s2 assms(3) by simp
    moreover have "mk r1 \<in> set (rmCalls s')" using rests_calls [OF a(3)] s2 by simp
    ultimately show ?thesis using a(4,5) by metis
  qed
qed

lemma gate_read_slug:
  assumes "gateConnectorStateResult op (GetConnectorResourceBySlug cl i) s = (r, s')" "localFaults (rvWorld s)" "settled kd s"
  shows "pursues kd s s' \<and> settled kd s' \<and> (\<forall>v. r = Inr v \<longrightarrow> ReadSlug i (Inr v) \<in> set (rmCalls s')) \<and>
    (\<forall>x y. r = Inl x \<longrightarrow> y \<in> serviceSays \<longrightarrow> errorsIs x y \<longrightarrow> (\<exists>e. errorsIs e y \<and> ReadSlug i (Inl e) \<in> set (rmCalls s')))"
  by (rule gate_read [OF assms]) (rule call_effect)

lemma gate_read_crid:
  assumes "gateConnectorStateResult op (GetConnectorResource cl i) s = (r, s')" "localFaults (rvWorld s)" "settled kd s"
  shows "pursues kd s s' \<and> settled kd s' \<and> (\<forall>v. r = Inr v \<longrightarrow> ReadCRID i (Inr v) \<in> set (rmCalls s')) \<and>
    (\<forall>x y. r = Inl x \<longrightarrow> y \<in> serviceSays \<longrightarrow> errorsIs x y \<longrightarrow> (\<exists>e. errorsIs e y \<and> ReadCRID i (Inl e) \<in> set (rmCalls s')))"
  by (rule gate_read [OF assms]) (rule call_effect)

lemma record_nonempty:
  assumes "recordResolutionLocked kd i (Some r) c w = (None, c', w')"
  shows "crCRID r \<noteq> ''''"
proof -
  have "validateCachedConnectorBinding kd (bindingOf i r) = None"
    using assms by (auto simp: recordResolutionLocked_def Let_def split: if_splits option.splits prod.splits)
  then show ?thesis by (auto simp: validateCachedConnectorBinding_def bindingOf_def split: option.splits if_splits)
qed

lemma record_keeps:
  assumes "gateConnectorStateContinuity op (onCache (recordResolutionLocked kd i r)) s = (e, s')" "settled kd s" "deps_ok kd"
  shows "pursues kd s s' \<and> (e = None \<longrightarrow> settled kd s' \<and> (\<exists>w c' w'. recordResolutionLocked kd i r (rvCache s) w = (None, c', w')))"
  by (rule gate_keeps [OF assms(1,2) record_by [OF _ _ assms(3)] record_held]) (use assms(2) in \<open>simp_all add: settled_def\<close>)

lemma inspect_pending:
  assumes "inspectPending kd cl sel s = (r, s')" "localFaults (rvWorld s)" "settled kd s" "deps_ok kd"
  shows "pursues kd s s' \<and> (case r of
      Inl None \<Rightarrow> settled kd s' \<and> provedAbsent (slID sel) (rmCalls s')
    | Inl (Some _) \<Rightarrow> True
    | Inr crid \<Rightarrow> settled kd s' \<and> crid \<noteq> '''' \<and> crid \<in> set (foundCRIDs (slID sel) (rmCalls s')))"
proof -
  obtain q s1 where g: "gateConnectorStateResult ''inspect pending Connector resource by id before removal''
      (GetConnectorResourceBySlug cl (slID sel)) s = (q, s1)" by fastforce
  note G = gate_read_slug [OF g assms(2,3)]
  show ?thesis
  proof (cases q)
    case (Inl x)
    have "provedAbsent (slID sel) (rmCalls s1)" if nf: "errorsIs x (Qurl ''ConnectorResourceNotFound'')"
    proof -
      obtain e where "errorsIs e (Qurl ''ConnectorResourceNotFound'')" "ReadSlug (slID sel) (Inl e) \<in> set (rmCalls s1)"
        using G Inl nf serviceSays_members by blast
      then show ?thesis by (force simp: provedAbsent_def list_ex_iff)
    qed
    then show ?thesis using assms(1) g Inl G by (auto simp: inspectPending_def)
  next
    case (Inr o')
    show ?thesis
    proof (cases "\<exists>r. o' = Some r \<and> crSlug r = slID sel")
      case False
      then show ?thesis using assms(1) g Inr G by (auto simp: inspectPending_def split: option.splits if_splits)
    next
      case True
      then obtain v where v: "o' = Some v" "crSlug v = slID sel" by blast
      obtain e s2 where h: "gateConnectorStateContinuity ''persist reconciled Connector identity before removal''
          (onCache (recordResolutionLocked kd (slID sel) (Some v))) s1 = (e, s2)" by fastforce
      note H = record_keeps [OF h _ assms(4)]
      have p: "pursues kd s s2" using pursues_trans G H by blast
      have "ReadSlug (slID sel) (Inr (Some v)) \<in> set (rmCalls s1)" using G Inr v by blast
      then have "ReadSlug (slID sel) (Inr (Some v)) \<in> set (rmCalls s2)" using G H by (auto simp: pursues_def)
      then have "crCRID v \<in> set (foundCRIDs (slID sel) (rmCalls s2))"
        using v(2) by (force simp: foundCRIDs_def set_map_filter)
      then show ?thesis
        using assms(1) g Inr v h G H p record_nonempty by (cases e) (auto simp: inspectPending_def)
    qed
  qed
qed


lemma read_proves:
  assumes "ReadCRID crid (Inl e) \<in> set calls" "connectorResourceReadProvesDeletion e"
  shows "provedGone crid calls"
  using assms by (force simp: provedGone_def list_ex_iff)

lemma inspect_exact:
  assumes "inspectExact kd cl slug crid s = (r, s')" "localFaults (rvWorld s)" "settled kd s" "deps_ok kd"
  shows "pursues kd s s' \<and> (case r of
      Inl None \<Rightarrow> settled kd s' \<and> provedGone crid (rmCalls s')
    | Inl (Some _) \<Rightarrow> True
    | Inr _ \<Rightarrow> settled kd s')"
proof -
  obtain q s1 where g: "gateConnectorStateResult ''inspect exact Connector resource before deletion''
      (GetConnectorResource cl crid) s = (q, s1)" by fastforce
  note G = gate_read_crid [OF g assms(2,3)]
  show ?thesis
  proof (cases q)
    case (Inl x)
    have "provedGone crid (rmCalls s1)" if "connectorResourceReadProvesDeletion x"
    proof -
      obtain y where "errorsIs x y" "y \<in> serviceSays"
        "y = Qurl ''ConnectorResourceRevoked'' \<or> y = Qurl ''ConnectorResourceTombstoned''"
        using \<open>connectorResourceReadProvesDeletion x\<close> serviceSays_members
        unfolding connectorResourceReadProvesDeletion_def by blast
      then obtain e where "connectorResourceReadProvesDeletion e" "ReadCRID crid (Inl e) \<in> set (rmCalls s1)"
        using G Inl unfolding connectorResourceReadProvesDeletion_def by metis
      then show ?thesis by (rule read_proves [rotated])
    qed
    then show ?thesis using assms(1) g Inl G by (auto simp: inspectExact_def)
  next
    case (Inr o')
    obtain e s2 where h: "gateConnectorStateContinuity ''persist exact management binding before removal''
        (onCache (recordResolutionLocked kd slug o')) s1 = (e, s2)" by fastforce
    note H = record_keeps [OF h _ assms(4)]
    have "pursues kd s s1" "settled kd s1" "pursues kd s s2" using pursues_trans G H by blast+
    then show ?thesis
      using assms(1) g Inr h H by (cases e) (auto simp: inspectExact_def split: option.splits)
  qed
qed

lemma reconcile_contract:
  assumes "reconcileConnectorResourceDeletion cl slug crid True s = (r, s')"
  shows "pursues kd s s' \<and> settled kd s' = settled kd s \<and> same (rvWorld s) (rvWorld s') \<and>
    (\<forall>b. r = Inr b \<longrightarrow> provedGone crid (rmCalls s'))"
proof -
  obtain e s1 where d: "DeleteConnectorResource cl crid s = (e, s1)" by fastforce
  obtain q s2 where g: "GetConnectorResource cl crid s1 = (q, s2)" by fastforce
  note D = call_effect(3) [OF d] and G = call_effect(1) [OF g]
  have p: "pursues kd s s1" "pursues kd s s2" "settled kd s1 = settled kd s" "settled kd s2 = settled kd s"
    "same (rvWorld s) (rvWorld s1)" "same (rvWorld s) (rvWorld s2)"
    using called_pursues pursues_trans called_settled called_same same_trans D G by metis+
  have gone: "provedGone crid (rmCalls s1)" if "e = None"
    using D that by (simp add: provedGone_def)
  have read: "provedGone crid (rmCalls s2)" if "q = Inl x" "connectorResourceReadProvesDeletion x" for x
    by (rule read_proves [OF _ that(2)]) (simp add: G that(1))
  have "(r, s') = (Inr True, s1) \<and> e = None \<or> (\<exists>x. r = Inl x) \<and> s' \<in> {s1, s2} \<or>
      (\<exists>x. (r, s') = (Inr True, s2) \<and> q = Inl x \<and> connectorResourceReadProvesDeletion x)"
    using assms d g by (auto simp: reconcileConnectorResourceDeletion_def split: option.splits sum.splits if_splits)
  then show ?thesis using p gone read by blast
qed

lemma delete_exact:
  assumes "deleteExact cl slug crid s = (e, s')" "settled kd s"
  shows "pursues kd s s' \<and> (e = None \<longrightarrow> settled kd s' \<and> provedGone crid (rmCalls s'))"
proof -
  obtain r s1 where g: "gateConnectorStateResult ''delete exact Connector resource''
      (reconcileConnectorResourceDeletion cl slug crid True) s = (r, s1)" by fastforce
  have run: "s' = s1 \<and> (e = None \<longrightarrow> (\<exists>b. r = Inr b))"
    using assms(1) g by (auto simp: deleteExact_def split: sum.splits)
  from g show ?thesis
  proof (cases rule: gate_result_cases)
    case (1 x)
    then show ?thesis using run rests_pursues by auto
  next
    case (2 t r1 u)
    note R = reconcile_contract [OF 2(2), of kd]
    have "pursues kd s s1" using pursues_trans rests_pursues 2(1,3) R by blast
    moreover have "settled kd s1"
      using rests_settled [OF 2(1), of kd] rests_settled [OF 2(3), of kd] R assms(2) by simp
    moreover have "provedGone crid (rmCalls s1)" if "r = Inr b" for b
      using R 2(4) [OF that] rests_calls [OF 2(3)] by simp
    ultimately show ?thesis using run by blast
  qed
qed

text \<open>A remote part without error: the service said that the resource of the selection is gone.\<close>

lemma remove_remote:
  assumes "removeRemote kd sel cl s = (e, s')" "localFaults (rvWorld s)" "settled kd s" "deps_ok kd"
    "slCRID sel \<noteq> '''' \<or> slPending sel"
  shows "pursues kd s s' \<and> (e = None \<longrightarrow> settled kd s' \<and> serviceDone sel (rmCalls s'))"
proof (cases "slCRID sel = ''''")
  case True
  obtain r s1 where i: "inspectPending kd cl sel s = (r, s1)" by fastforce
  note I = inspect_pending [OF i assms(2-4)]
  show ?thesis
  proof (cases r)
    case (Inl x)
    then show ?thesis using assms(1,5) True i I by (cases x) (auto simp: removeRemote_def serviceDone_def)
  next
    case (Inr crid)
    then have ne: "crid \<noteq> ''''" "settled kd s1" "crid \<in> set (foundCRIDs (slID sel) (rmCalls s1))" using I by simp_all
    then have d: "deleteExact cl (slID sel) crid s1 = (e, s')"
      using assms(1,5) True i Inr by (simp add: removeRemote_def)
    note D = delete_exact [OF d ne(2)]
    have "crid \<in> set (foundCRIDs (slID sel) (rmCalls s'))"
      using ne(3) proofs_grow(3) D unfolding pursues_def by blast
    then show ?thesis using D I pursues_trans True by (auto simp: serviceDone_def list_ex_iff)
  qed
next
  case False
  obtain r s1 where i: "inspectExact kd cl (slID sel) (slCRID sel) s = (r, s1)" by fastforce
  note I = inspect_exact [OF i assms(2-4)]
  show ?thesis
  proof (cases r)
    case (Inl x)
    then show ?thesis using assms(1) False i I by (cases x) (auto simp: removeRemote_def serviceDone_def)
  next
    case (Inr u)
    then have d: "deleteExact cl (slID sel) (slCRID sel) s1 = (e, s')"
      using assms(1) False i by (simp add: removeRemote_def)
    have "settled kd s1" "pursues kd s s1" using I Inr by simp_all
    note D = delete_exact [OF d this(1)]
    show ?thesis using D \<open>pursues kd s s1\<close> pursues_trans False by (auto simp: serviceDone_def)
  qed
qed


section \<open>The registered client\<close>

lemma registered_state:
  assumes "withRegisteredConnectorResourceState kd openClient (removeRemote kd sel) s = (e, s')"
    "localFaults (rvWorld s)" "settled kd s" "deps_ok kd" "slCRID sel \<noteq> '''' \<or> slPending sel"
  shows "pursues kd s s' \<and> (e = None \<longrightarrow> settled kd s' \<and> serviceDone sel (rmCalls s'))"
proof -
  obtain r s1 where g: "gateConnectorStateResult ''open registered resource client from exact native identity''
      (\<lambda>s. (openClient (cwTick (rvWorld s)), s\<lparr>rvWorld := (rvWorld s)\<lparr>cwTick := Suc (cwTick (rvWorld s))\<rparr>\<rparr>)) s = (r, s1)"
    by fastforce
  have q: "quiet (rvWorld t) ((rvWorld t)\<lparr>cwTick := Suc (cwTick (rvWorld t))\<rparr>)" for t :: removeState
    by (cases "rvWorld t") (simp add: quiet_def same_def)
  from g have p1: "pursues kd s s1 \<and> settled kd s1"
  proof (cases rule: gate_result_cases)
    case (1 x)
    then show ?thesis using rests_pursues rests_settled [OF 1(2), of kd] assms(3) by blast
  next
    case (2 t r1 u)
    have "rests t u" using 2(2) q [of t] by auto
    then show ?thesis
      using 2(1,3) rests_pursues pursues_trans rests_settled [OF 2(1), of kd] rests_settled [OF 2(3), of kd]
        rests_settled [of t u kd] assms(3) by metis
  qed
  show ?thesis
  proof (cases "\<exists>cl a. r = Inr (Some (cl, a))")
    case False
    have "s' = s1 \<and> e \<noteq> None"
      using assms(1) g False by (auto simp: withRegisteredConnectorResourceState_def split: sum.splits option.splits prod.splits)
    then show ?thesis using p1 by auto
  next
    case True
    then obtain cl a where r: "r = Inr (Some (cl, a))" by blast
    obtain e2 s2 where b: "gateConnectorStateContinuity ''durably bind empty Connector identity cache before removal''
        (onCache (bindAgentIDLocked kd a)) s1 = (e2, s2)" by fastforce
    have B: "pursues kd s1 s2 \<and> (e2 = None \<longrightarrow> settled kd s2)"
      using gate_keeps [OF b conjunct2 [OF p1] bind_by [OF _ _ assms(4)] bind_held] p1 by (simp add: settled_def)
    define chosen where "chosen = (if icAgentID (rvCache s1) = '''' then
        (if icByID (rvCache s1) \<noteq> fmempty \<or> icPending (rvCache s1) \<noteq> fmempty then
          (Some (NewErr ''unbound Connector identity cache contains continuity state''), s1)
         else (case e2 of Some x \<Rightarrow> (Some (Errorf ''bind Connector identity cache before removal'' x), s2) | None \<Rightarrow> (None, s2)))
      else if a \<noteq> icAgentID (rvCache s1) then (Some (NewErr ''refusing cross-device resource use''), s1)
      else (None, s1))"
    obtain e3 s3 where c: "chosen = (e3, s3)" by fastforce
    have p3: "pursues kd s s3 \<and> (e3 = None \<longrightarrow> settled kd s3)"
    proof -
      have "s3 = s1 \<or> s3 = s2 \<and> (e3 = None \<longrightarrow> e2 = None)"
        using c by (auto simp: chosen_def split: if_splits option.splits)
      then show ?thesis using p1 B pursues_trans by blast
    qed
    obtain x w where v: "validateContinuity (rvWorld s3) = (x, w)" by fastforce
    have rest: "rests s3 (s3\<lparr>rvWorld := w\<rparr>)" using continuity_quiet [OF v] by simp
    have p4: "pursues kd s (s3\<lparr>rvWorld := w\<rparr>)" using p3 rests_pursues [OF rest] pursues_trans by blast
    have c': "(if icAgentID (rvCache s1) = '''' then
        (if icByID (rvCache s1) \<noteq> fmempty \<or> icPending (rvCache s1) \<noteq> fmempty then
          (Some (NewErr ''unbound Connector identity cache contains continuity state''), s1)
         else (case gateConnectorStateContinuity ''durably bind empty Connector identity cache before removal''
                      (onCache (bindAgentIDLocked kd a)) s1 of
             (Some x, s) \<Rightarrow> (Some (Errorf ''bind Connector identity cache before removal'' x), s)
           | (None, s) \<Rightarrow> (None, s)))
      else if a \<noteq> icAgentID (rvCache s1) then (Some (NewErr ''refusing cross-device resource use''), s1)
      else (None, s1)) = (e3, s3)"
      unfolding b prod.case by (rule c [unfolded chosen_def])
    have run: "(e, s') = (case e3 of Some x \<Rightarrow> (Some x, s3)
      | None \<Rightarrow> (case x of Some x \<Rightarrow> (Some (Errorf ''validate registered device state before resource operation'' x), s3\<lparr>rvWorld := w\<rparr>)
        | None \<Rightarrow> removeRemote kd sel cl (s3\<lparr>rvWorld := w\<rparr>)))"
      using assms(1) unfolding withRegisteredConnectorResourceState_def g prod.case r sum.case option.case c' v
      by (auto split: option.splits)
    show ?thesis
    proof (cases "e3 = None \<and> x = None")
      case False
      then show ?thesis using run p3 p4 by (auto split: option.splits)
    next
      case True
      then have go: "removeRemote kd sel cl (s3\<lparr>rvWorld := w\<rparr>) = (e, s')" using run by simp
      have "localFaults (rvWorld (s3\<lparr>rvWorld := w\<rparr>))" by (rule pursues_local [OF p4 assms(2)])
      moreover have "settled kd (s3\<lparr>rvWorld := w\<rparr>)" using rests_settled [OF rest, of kd] p3 True by simp
      ultimately show ?thesis using remove_remote [OF go _ _ assms(4,5)] p4 pursues_trans by blast
    qed
  qed
qed

lemma registered_client:
  assumes "withRegisteredConnectorResourceClient kd origin openClient (removeRemote kd sel) s = (e, s')"
    "localFaults (rvWorld s)" "settled kd s" "deps_ok kd" "slCRID sel \<noteq> '''' \<or> slPending sel"
  shows "pursues kd s s' \<and> (e = None \<longrightarrow> settled kd s' \<and> serviceDone sel (rmCalls s'))"
proof -
  obtain e1 w1 where 1: "sys (rvWorld s) = (e1, w1)" by fastforce
  obtain e2 w2 where 2: "sys w1 = (e2, w2)" by fastforce
  have q: "quiet (rvWorld s) w1" "quiet (rvWorld s) w2"
    using sys_quiet [OF 1] sys_quiet [OF 2] quiet_trans by blast+
  have p: "pursues kd s (s\<lparr>rvWorld := w\<rparr>)" "settled kd (s\<lparr>rvWorld := w\<rparr>)" if "quiet (rvWorld s) w" for w
  proof -
    have r: "rests s (s\<lparr>rvWorld := w\<rparr>)" using that by simp
    show "pursues kd s (s\<lparr>rvWorld := w\<rparr>)" by (rule rests_pursues [OF r])
    show "settled kd (s\<lparr>rvWorld := w\<rparr>)" using rests_settled [OF r, of kd] assms(3) by simp
  qed
  obtain e3 s3 where 3: "withRegisteredConnectorResourceState kd openClient (removeRemote kd sel) (s\<lparr>rvWorld := w2\<rparr>) = (e3, s3)"
    by fastforce
  note S = registered_state [OF 3 pursues_local [OF p(1) [OF q(2)] assms(2)] p(2) [OF q(2)] assms(4,5)]
  define body where "body = (case e2 of Some x \<Rightarrow> (Some x, s\<lparr>rvWorld := w2\<rparr>)
    | None \<Rightarrow> (case origin (cfAPIURL (rvConfig s)) of Some x \<Rightarrow> (Some x, s\<lparr>rvWorld := w2\<rparr>) | None \<Rightarrow> (e3, s3)))"
  obtain e4 s4 where 4: "body = (e4, s4)" by fastforce
  have p4: "pursues kd s s4 \<and> (e4 = None \<longrightarrow> settled kd s4 \<and> serviceDone sel (rmCalls s4))"
  proof -
    have "s4 = s\<lparr>rvWorld := w2\<rparr> \<and> e4 \<noteq> None \<or> s4 = s3 \<and> e4 = e3" using 4 by (auto simp: body_def split: option.splits)
    then show ?thesis using p(1) [OF q(2)] S pursues_trans by blast
  qed
  obtain e5 w5 where 5: "sys (rvWorld s4) = (e5, w5)" by fastforce
  have r5: "rests s4 (s4\<lparr>rvWorld := w5\<rparr>)" using sys_quiet [OF 5] by simp
  have b: "(case sys w1 of
      (Some x, w) \<Rightarrow> (Some x, s\<lparr>rvWorld := w\<rparr>)
    | (None, w) \<Rightarrow> (case origin (cfAPIURL (rvConfig s)) of
        Some x \<Rightarrow> (Some x, s\<lparr>rvWorld := w\<rparr>)
      | None \<Rightarrow> withRegisteredConnectorResourceState kd openClient (removeRemote kd sel) (s\<lparr>rvWorld := w\<rparr>))) = (e4, s4)"
    using 2 3 4 by (auto simp: body_def split: option.splits)
  have run: "(e, s') = (if e1 \<noteq> None then (e1, s\<lparr>rvWorld := w1\<rparr>) else (errorsJoin [e4, e5], s4\<lparr>rvWorld := w5\<rparr>))"
    using assms(1) 1 b 5 unfolding withRegisteredConnectorResourceClient_def by (cases e1) auto
  show ?thesis
    using run p(1) [OF q(1)] p4 pursues_trans [OF conjunct1 [OF p4] rests_pursues [OF r5]] rests_settled [OF r5, of kd]
      rests_calls [OF r5]
    by (auto split: if_splits)
qed


section \<open>The selection\<close>

definition selected ::
  "identityCache \<Rightarrow> ConfigRoute list \<Rightarrow> nat \<Rightarrow> string \<Rightarrow> string \<Rightarrow> removalSelection \<Rightarrow> bool" where
  "selected c routes n fallbackID k sel = (slID sel = k \<and>
     (\<forall>b. fmlookup (icByID c) k = Some b \<longrightarrow> slCRID sel = ceCRID b) \<and>
     (slPending sel \<longrightarrow> isPending k c) \<and>
     (\<forall>i. slRoute sel = Some i \<longrightarrow> i < length routes \<and> routeIDWithFallback n (routes ! i) fallbackID = k))"

definition selectInv ::
  "identityCache \<Rightarrow> ConfigRoute list \<Rightarrow> nat \<Rightarrow> string \<Rightarrow> (string, removalSelection) fmap \<Rightarrow> (string, string) fmap \<Rightarrow> bool" where
  "selectInv c routes n fallbackID byID byResource = (
     (\<forall>k sel. fmlookup byID k = Some sel \<longrightarrow> selected c routes n fallbackID k sel) \<and>
     (\<forall>v k. fmlookup byResource v = Some k \<longrightarrow> (\<exists>sel. fmlookup byID k = Some sel \<and> slCRID sel = v)))"

lemma selectInv_upd:
  assumes "selectInv c routes n fb byID byResource" "selected c routes n fb k sel" "fmlookup byID k = None"
  shows "selectInv c routes n fb (fmupd k sel byID) byResource"
    "selectInv c routes n fb (fmupd k sel byID) (fmupd (slCRID sel) k byResource)"
proof -
  have ids: "\<forall>l t. fmlookup (fmupd k sel byID) l = Some t \<longrightarrow> selected c routes n fb l t"
    using assms by (simp add: selectInv_def)
  have old: "\<exists>t. fmlookup (fmupd k sel byID) l = Some t \<and> slCRID t = v" if "fmlookup byResource v = Some l" for v l
    using assms(1,3) that unfolding selectInv_def by fastforce
  show "selectInv c routes n fb (fmupd k sel byID) byResource" using ids old by (simp add: selectInv_def)
  show "selectInv c routes n fb (fmupd k sel byID) (fmupd (slCRID sel) k byResource)"
    using ids old unfolding selectInv_def by auto
qed

lemma selectRoutes_inv:
  assumes "selectRoutes kd c n fb i byID byResource rs = Inr (byID', byResource')"
    and "drop i routes = rs" "selectInv c routes n fb byID byResource"
  shows "selectInv c routes n fb byID' byResource'"
  using assms
proof (induction rs arbitrary: i byID byResource)
  case (Cons r rs)
  define k where "k = routeIDWithFallback n r fb"
  define effective where "effective = (if roCRID r = '''' then cachedCRID c k else roCRID r)"
  define sel where "sel = \<lparr>slID = k, slCRID = effective, slRoute = Some i, slPending = isPending k c\<rparr>"
  have step: "fmlookup byID k = None" "roCRID r \<noteq> '''' \<longrightarrow> fmlookup (icByID c) k = None \<or> roCRID r = cachedCRID c k"
    "selectRoutes kd c n fb (Suc i) (fmupd k sel byID)
      (if effective = '''' then byResource else fmupd effective k byResource) rs = Inr (byID', byResource')"
    using Cons.prems(1) unfolding selectRoutes.simps Let_def k_def [symmetric] effective_def [symmetric] sel_def [symmetric]
    by (auto split: option.splits if_splits)
  have i: "i < length routes" "routes ! i = r" "drop (Suc i) routes = rs"
    using Cons.prems(2) by (metis drop_all leI list.distinct(1), metis nth_via_drop, metis drop_Suc list.sel(3) tl_drop)
  have s: "selected c routes n fb k sel"
    using step(2) i by (auto simp: selected_def sel_def effective_def cachedCRID_def k_def)
  have c: "slCRID sel = effective" by (simp add: sel_def)
  have "selectInv c routes n fb (fmupd k sel byID) (if effective = '''' then byResource else fmupd effective k byResource)"
    using selectInv_upd [OF Cons.prems(3) s step(1)] c by simp
  from Cons.IH [OF step(3) i(3) this] show ?case .
qed simp

lemma selectCached_inv:
  assumes "selectCached byID byResource bs = Inr (byID', byResource')"
    and "selectInv c routes n fb byID byResource" "list_all (\<lambda>(k, b). fmlookup (icByID c) k = Some b) bs"
  shows "selectInv c routes n fb byID' byResource' \<and> fset (fmdom byID) \<union> set (map fst bs) \<subseteq> fset (fmdom byID')"
  using assms
proof (induction bs arbitrary: byID byResource)
  case (Cons kb bs)
  obtain k b where kb: "kb = (k, b)" by fastforce
  show ?case
  proof (cases "fmlookup byID k")
    case (Some sel)
    then have "selectCached byID byResource bs = Inr (byID', byResource')" using Cons.prems(1) kb by simp
    moreover have "k \<in> fset (fmdom byID)" by (rule fmdomI [OF Some])
    ultimately show ?thesis using Cons.IH [of byID byResource] Cons.prems kb by auto
  next
    case None
    define sel where "sel = \<lparr>slID = k, slCRID = ceCRID b, slRoute = None, slPending = False\<rparr>"
    have s: "selected c routes n fb k sel" using Cons.prems(3) kb by (simp add: selected_def sel_def)
    have "selectCached (fmupd k sel byID) (fmupd (ceCRID b) k byResource) bs = Inr (byID', byResource')"
      using Cons.prems(1) kb None by (simp add: sel_def [symmetric] split: if_splits)
    moreover have "selectInv c routes n fb (fmupd k sel byID) (fmupd (ceCRID b) k byResource)"
      using selectInv_upd(2) [OF Cons.prems(2) s None] by (simp add: sel_def)
    ultimately show ?thesis using Cons.IH [of "fmupd k sel byID"] Cons.prems(3) kb by auto
  qed
qed simp

lemma selectPending_fold:
  "fmlookup (fold selectPending ks m) k = (if k \<in> set ks then
     Some (case fmlookup m k of
         Some sel \<Rightarrow> sel\<lparr>slPending := True\<rparr>
       | None \<Rightarrow> \<lparr>slID = k, slCRID = '''', slRoute = None, slPending = True\<rparr>)
   else fmlookup m k)"
  by (induction ks arbitrary: m) (auto simp: selectPending_def split: option.splits)

text \<open>A selection is a configured route or cached identity as the cache and the configuration have it.\<close>

lemma select_exact:
  assumes "selectConnectorRemoval kd env cfg c ident crid = Inr sel" "ident \<noteq> '''' \<or> crid \<noteq> ''''"
  shows "selected c (cfRoutes cfg) (length (cfRoutes cfg)) (routeIDEnvFallback env) (slID sel) sel \<and>
    slPending sel = isPending (slID sel) c \<and>
    (ident \<noteq> '''' \<longrightarrow> slID sel = ident) \<and> (crid \<noteq> '''' \<longrightarrow> slCRID sel = crid)"
proof -
  let ?rs = "cfRoutes cfg" and ?n = "length (cfRoutes cfg)" and ?fb = "routeIDEnvFallback env"
  let ?bs = "List.map_filter (\<lambda>k. map_option (Pair k) (fmlookup (icByID c) k)) (keysOfMap (icByID c))"
  obtain m1 o1 m2 o2 where r: "selectRoutes kd c ?n ?fb 0 fmempty fmempty ?rs = Inr (m1, o1)"
    and b: "selectCached m1 o1 ?bs = Inr (m2, o2)"
    and ch: "chooseSelection ident crid (fold selectPending (keysOfMap (icPending c)) m2) o2 = Inr sel"
    using assms(1) by (auto simp: selectConnectorRemoval_def split: option.splits sum.splits if_splits)
  define m where "m = fold selectPending (keysOfMap (icPending c)) m2"
  have i1: "selectInv c ?rs ?n ?fb m1 o1"
    by (rule selectRoutes_inv [OF r]) (simp_all add: selectInv_def)
  have bs: "list_all (\<lambda>(k, b). fmlookup (icByID c) k = Some b) ?bs"
    by (auto simp: list_all_iff set_map_filter)
  have keys: "set (map fst ?bs) = fset (fmdom (icByID c))"
    by (force simp: set_map_filter intro: fmdomI elim: fmdomE)
  have i2: "selectInv c ?rs ?n ?fb m2 o2" "fset (fmdom (icByID c)) \<subseteq> fset (fmdom m2)"
    using selectCached_inv [OF b i1 bs] keys by auto
  have pend: "k \<in> set (keysOfMap (icPending c)) \<longleftrightarrow> isPending k c" for k
    by (auto simp: isPending_def fmdom'_notI intro: fmdomI elim: fmdomE)
  have all: "selected c ?rs ?n ?fb k s \<and> slPending s = isPending k c" if "fmlookup m k = Some s" for k s
  proof (cases "fmlookup m2 k")
    case None
    then have "fmlookup (icByID c) k = None" using i2(2) by (metis fmdom_notD fmdom_notI subsetD)
    then show ?thesis using that None pend [of k]
      by (auto simp: m_def selectPending_fold selected_def split: if_splits)
  next
    case (Some s2)
    then have "selected c ?rs ?n ?fb k s2" using i2(1) by (simp add: selectInv_def)
    then show ?thesis using that Some pend [of k]
      by (auto simp: m_def selectPending_fold selected_def split: if_splits)
  qed
  have owners: "\<exists>s. fmlookup m k = Some s \<and> slCRID s = v" if "fmlookup o2 v = Some k" for v k
    using i2(1) that unfolding selectInv_def by (fastforce simp: m_def selectPending_fold)
  have "(ident \<noteq> '''' \<and> fmlookup m ident = Some sel \<and> (crid \<noteq> '''' \<longrightarrow> slCRID sel = crid)) \<or>
      (ident = '''' \<and> (\<exists>k. fmlookup o2 crid = Some k \<and> fmlookup m k = Some sel))"
  proof (cases "ident = ''''")
    case False
    then show ?thesis using ch unfolding m_def [symmetric]
      by (auto simp: chooseSelection_def Let_def split: if_splits option.splits)
  next
    case True
    then have cr: "crid \<noteq> ''''" using assms(2) by simp
    then obtain k where k: "fmlookup o2 crid = Some k"
      using ch True by (auto simp: chooseSelection_def Let_def split: if_splits)
    moreover from this obtain t where "fmlookup m k = Some t" using owners by blast
    ultimately show ?thesis
      using ch True cr unfolding m_def [symmetric] by (simp add: chooseSelection_def Let_def)
  qed
  then show ?thesis
  proof
    assume "ident \<noteq> '''' \<and> fmlookup m ident = Some sel \<and> (crid \<noteq> '''' \<longrightarrow> slCRID sel = crid)"
    then show ?thesis using all [of ident sel] by (auto simp: selected_def)
  next
    assume "ident = '''' \<and> (\<exists>k. fmlookup o2 crid = Some k \<and> fmlookup m k = Some sel)"
    then show ?thesis using all owners by (fastforce simp: selected_def)
  qed
qed


section \<open>The local commit\<close>

text \<open>What a removal may have done to the configuration: given the transaction the configuration without the route.\<close>

definition savedOnly :: "removalSelection \<Rightarrow> Config \<Rightarrow> Config list \<Rightarrow> bool" where
  "savedOnly sel cfg saved = (saved = [] \<or> (\<exists>i. slRoute sel = Some i \<and> saved = [withoutRoute i cfg]))"

definition savedAll :: "removalSelection \<Rightarrow> Config \<Rightarrow> Config list \<Rightarrow> bool" where
  "savedAll sel cfg saved = (saved = (case slRoute sel of Some i \<Rightarrow> [withoutRoute i cfg] | None \<Rightarrow> []))"

lemma commit_contract:
  assumes "commitRemoval hasTxn hasCfg i s = (e, s')"
  shows "quiet (rvWorld s) (rvWorld s') \<and> rvCache s' = rvCache s \<and> rmCalls s' = rmCalls s \<and>
    rmSaved s' \<in> {rmSaved s, rmSaved s @ [withoutRoute i (rvConfig s)]} \<and>
    (e = None \<longrightarrow> rmSaved s' = rmSaved s @ [withoutRoute i (rvConfig s)])"
proof -
  obtain x w where n: "(if hasTxn then validateConnectorIdentityCacheNamespace (rvWorld s) else (None, rvWorld s)) = (x, w)"
    by fastforce
  have q: "quiet (rvWorld s) w" using n namespace_quiet by (auto split: if_splits)
  obtain y u where y: "sys w = (y, u)" by fastforce
  have "quiet (rvWorld s) u" using q sys_quiet [OF y] quiet_trans by blast
  then show ?thesis using assms n q y
    by (cases x) (auto simp: commitRemoval_def Let_def split: if_splits)
qed

lemma forget_contract:
  assumes "onCache (removeLocked kd i) s = (e, s')" "settled kd s" "deps_ok kd"
  shows "moved kd (keepsBut {i}) (rvWorld s) (rvWorld s') \<and> rmCalls s' = rmCalls s \<and> rmSaved s' = rmSaved s \<and>
    (e = None \<longrightarrow> diskCache kd (rvWorld s') = Some (forgotten i (rvCache s))) \<and>
    (fmlookup (icByID (rvCache s)) i = None \<and> \<not> isPending i (rvCache s) \<longrightarrow> rvWorld s' = rvWorld s)"
proof -
  obtain c w where r: "removeLocked kd i (rvCache s) (rvWorld s) = (e, c, w)" and s': "s' = s\<lparr>rvCache := c, rvWorld := w\<rparr>"
    using assms(1) by (auto simp: onCache_def split: prod.splits)
  have R: "refinesBy (forgetStep i) kd (rvCache s) (rvWorld s) (e, c, w)"
    using remove_by [of kd "rvWorld s" "rvCache s" i] assms(2,3) r by (simp add: settled_def)
  have m: "moved kd (keepsBut {i}) (rvWorld s) w"
    using disk_keeps [of kd "forgetStep i" _ _ "{i}"] forget_held R by (simp add: refinesBy_def)
  have none: "forgotten i (rvCache s) = rvCache s" if "fmlookup (icByID (rvCache s)) i = None" "fmlookup (icPending (rvCache s)) i = None"
  proof -
    have "fmdrop i (icByID (rvCache s)) = icByID (rvCache s)" "fmdrop i (icPending (rvCache s)) = icPending (rvCache s)"
      using that by (auto intro!: fmap_ext)
    then show ?thesis by (simp add: forgotten_def)
  qed
  have c: "c = forgotten i (rvCache s)" if "e = None"
    using r that none by (auto simp: removeLocked_def Let_def forgotten_def split: if_splits option.splits prod.splits)
  have stay: "w = rvWorld s" if "fmlookup (icByID (rvCache s)) i = None" "\<not> isPending i (rvCache s)"
    using r that by (simp add: removeLocked_def isPending_def)
  have d: "diskCache kd w = Some (forgotten i (rvCache s))" if "e = None"
    using R c [OF that] that by (simp add: refinesBy_def)
  show ?thesis unfolding s' using m stay d by simp
qed

lemma finish_contract:
  assumes "finishRemoval kd hasTxn hasCfg sel s = (e, s')" "hasTxn \<longrightarrow> settled kd s" "deps_ok kd" "rmSaved s = []"
  shows "moved kd (keepsBut {slID sel}) (rvWorld s) (rvWorld s') \<and> rmCalls s' = rmCalls s \<and>
    savedOnly sel (rvConfig s) (rmSaved s') \<and>
    (e = None \<longrightarrow> savedAll sel (rvConfig s) (rmSaved s') \<and>
      (hasTxn \<longrightarrow> diskCache kd (rvWorld s') = Some (forgotten (slID sel) (rvCache s)))) \<and>
    (\<not> hasTxn \<or> fmlookup (icByID (rvCache s)) (slID sel) = None \<and> \<not> isPending (slID sel) (rvCache s) \<longrightarrow>
      moved kd (keepsBut {}) (rvWorld s) (rvWorld s'))"
proof -
  obtain x s1 where c: "(case slRoute sel of Some i \<Rightarrow> commitRemoval hasTxn hasCfg i s | None \<Rightarrow> (None, s)) = (x, s1)"
    by fastforce
  have C: "quiet (rvWorld s) (rvWorld s1) \<and> rvCache s1 = rvCache s \<and> rmCalls s1 = rmCalls s \<and>
      savedOnly sel (rvConfig s) (rmSaved s1) \<and> (x = None \<longrightarrow> savedAll sel (rvConfig s) (rmSaved s1))"
  proof (cases "slRoute sel")
    case None
    then show ?thesis using c assms(4) by (simp add: savedOnly_def savedAll_def)
  next
    case (Some i)
    then have "commitRemoval hasTxn hasCfg i s = (x, s1)" using c by simp
    from commit_contract [OF this] show ?thesis using assms(4) Some by (auto simp: savedOnly_def savedAll_def)
  qed
  have m1: "moved kd R (rvWorld s) (rvWorld s1)" and d1: "diskCache kd (rvWorld s1) = diskCache kd (rvWorld s)" for R
    using quiet_moved C by blast+
  show ?thesis
  proof (cases "x = None \<and> hasTxn")
    case False
    then have "s' = s1 \<and> (e = None \<longrightarrow> x = None \<and> \<not> hasTxn)"
      using assms(1) False unfolding finishRemoval_def c prod.case by (auto split: option.splits)
    then show ?thesis using C m1 by auto
  next
    case True
    obtain y s2 where f: "onCache (removeLocked kd (slID sel)) s1 = (y, s2)" by fastforce
    have "settled kd s1" using assms(2) True C d1 by (simp add: settled_def)
    note F = forget_contract [OF f this assms(3)]
    have "s' = s2 \<and> (e = None \<longrightarrow> y = None)"
      using assms(1) True unfolding finishRemoval_def c prod.case by (auto simp: f)
    then show ?thesis using F C m1 moved_trans True by metis
  qed
qed

section \<open>The command\<close>

lemma load_contract:
  assumes "loadForRemoval kd True s = (e, s')" "honestFaults (rvWorld s)" "deps_ok kd"
  shows "pursues kd s s' \<and> rmCalls s' = rmCalls s \<and> (e = None \<longrightarrow> settled kd s' \<and>
    (diskCache kd (rvWorld s) \<noteq> None \<longrightarrow> diskCache kd (rvWorld s) = Some (rvCache s')) \<and>
    (diskCache kd (rvWorld s) = None \<longrightarrow> rvCache s' = emptyIdentityCache))"
proof -
  obtain x w1 where 1: "ensureConnectorIdentityCacheInitializedLocked kd (rvWorld s) = (x, w1)" by fastforce
  obtain q w2 where 2: "loadConnectorIdentityCacheUnlocked kd w1 = (q, w2)" by fastforce
  note E = ensure_first [OF 1 assms(2,3)] and L = cacheLoad_quiet [OF 2]
  have m: "moved kd (keepsBut {}) (rvWorld s) w1" "moved kd (keepsBut {}) (rvWorld s) w2"
    using first_keeps E moved_trans quiet_moved L by blast+
  have d: "diskCache kd w2 = diskCache kd w1" using quiet_moved L by blast
  have "(e, s') = (case x of Some x \<Rightarrow> (Some x, s\<lparr>rvWorld := w1\<rparr>)
      | None \<Rightarrow> (case q of Inl x \<Rightarrow> (Some x, s\<lparr>rvWorld := w2\<rparr>) | Inr c \<Rightarrow> (None, s\<lparr>rvWorld := w2, rvCache := c\<rparr>)))"
    using assms(1) 1 2 by (auto simp: loadForRemoval_def split: option.splits sum.splits)
  then show ?thesis using m L d E by (auto simp: pursues_def settled_def split: option.splits sum.splits)
qed


text \<open>The cache a removal works on: the one on disk, or the empty one.\<close>

definition cacheBefore :: "keyDeps \<Rightarrow> bool \<Rightarrow> cacheWorld \<Rightarrow> identityCache \<Rightarrow> bool" where
  "cacheBefore kd hasTxn w c = (if hasTxn then diskCache kd w = Some c \<or> diskCache kd w = None \<and> c = emptyIdentityCache
     else c = emptyIdentityCache)"

definition identityGone :: "keyDeps \<Rightarrow> string \<Rightarrow> cacheWorld \<Rightarrow> bool" where
  "identityGone kd i w = (case diskCache kd w of None \<Rightarrow> False
     | Some c \<Rightarrow> fmlookup (icByID c) i = None \<and> fmlookup (icPending c) i = None)"

text \<open>The two ways a removal ends: stopped with everything kept, or past the service with one selection.\<close>

definition removalEnds ::
  "keyDeps \<Rightarrow> (string \<Rightarrow> string option) \<Rightarrow> string \<Rightarrow> string \<Rightarrow> Config \<Rightarrow> bool \<Rightarrow> cacheWorld \<Rightarrow>
   err option \<Rightarrow> apiCall list \<Rightarrow> Config list \<Rightarrow> cacheWorld \<Rightarrow> bool" where
  "removalEnds kd env ident crid cfg hasTxn w e calls saved w' =
     (e \<noteq> None \<and> saved = [] \<and> moved kd (keepsBut {}) w w' \<or>
      (\<exists>c sel. cacheBefore kd hasTxn w c \<and> selectConnectorRemoval kd env cfg c ident crid = Inr sel \<and>
         serviceDone sel calls \<and> savedOnly sel cfg saved \<and> moved kd (keepsBut {slID sel}) w w' \<and>
         (slCRID sel = '''' \<and> \<not> slPending sel \<longrightarrow> moved kd (keepsBut {}) w w') \<and>
         (e = None \<longrightarrow> savedAll sel cfg saved \<and> (hasTxn \<longrightarrow> identityGone kd (slID sel) w'))))"

lemma ends_quiet:
  assumes "removalEnds kd env ident crid cfg hasTxn w e calls saved u" "quiet u w'" "e' = None \<longrightarrow> e = None"
  shows "removalEnds kd env ident crid cfg hasTxn w e' calls saved w'"
proof -
  have m: "moved kd R w w'" if "moved kd R w u" for R using moved_trans [OF that] quiet_moves assms(2) by blast
  have "diskCache kd w' = diskCache kd u" using quiet_moved [OF assms(2)] by blast
  then have "identityGone kd i u \<Longrightarrow> identityGone kd i w'" for i by (simp add: identityGone_def)
  then show ?thesis using assms(1,3) m unfolding removalEnds_def by blast
qed

lemma ends_leaves:
  assumes "leaves connectorIdentityCacheFile w u" "removalEnds kd env ident crid cfg hasTxn u e calls saved w'"
  shows "removalEnds kd env ident crid cfg hasTxn w e calls saved w'"
proof -
  have d: "diskCache kd u = diskCache kd w" and l: "moved kd (keepsBut X) w u" for X
    using leaves_moved [OF assms(1), of "keepsBut X" kd] by auto
  have m: "moved kd (keepsBut X) w w'" if "moved kd (keepsBut X) u w'" for X by (rule moved_trans [OF l that])
  have "cacheBefore kd hasTxn u = cacheBefore kd hasTxn w" by (rule ext) (simp add: cacheBefore_def d)
  then show ?thesis using assms(2) m unfolding removalEnds_def by metis
qed

lemma selection_absent:
  assumes "selectConnectorRemoval kd env cfg c ident crid = Inr sel" "ident \<noteq> '''' \<or> crid \<noteq> ''''" "validCache kd c"
    "slCRID sel = ''''" "\<not> slPending sel"
  shows "fmlookup (icByID c) (slID sel) = None \<and> \<not> isPending (slID sel) c"
proof -
  note S = select_exact [OF assms(1,2)]
  have "ceCRID b \<noteq> ''''" if "fmlookup (icByID c) (slID sel) = Some b" for b
  proof -
    have "validateCachedConnectorBinding kd b = None" using assms(3) that by (simp add: validCache_def validBindings_def)
    then show ?thesis by (auto simp: validateCachedConnectorBinding_def split: option.splits if_splits)
  qed
  then have "fmlookup (icByID c) (slID sel) = None"
    using S assms(4) unfolding selected_def by (metis not_None_eq)
  then show ?thesis using S assms(5) by blast
qed

lemma remove_selection:
  assumes "removeConnectorSelection kd env origin openClient hasTxn hasCfg ident crid we s = (e, s')"
    "localFaults (rvWorld s)" "honestFaults (rvWorld s)" "deps_ok kd" "rmSaved s = []" "ident \<noteq> '''' \<or> crid \<noteq> ''''"
  shows "removalEnds kd env ident crid (rvConfig s) hasTxn (rvWorld s) e (rmCalls s') (rmSaved s') (rvWorld s')"
proof -
  obtain x s1 where l: "loadForRemoval kd hasTxn s = (x, s1)" by fastforce
  have L: "pursues kd s s1 \<and> (x = None \<longrightarrow> cacheBefore kd hasTxn (rvWorld s) (rvCache s1) \<and>
      validCache kd (rvCache s1) \<and> (hasTxn \<longrightarrow> settled kd s1))"
  proof (cases hasTxn)
    case True
    then have "loadForRemoval kd True s = (x, s1)" using l by simp
    from load_contract [OF this assms(3,4)] show ?thesis using True by (auto simp: cacheBefore_def settled_def)
  next
    case False
    have "validCache kd emptyIdentityCache"
      by (simp add: validCache_def validAgent_def validBindings_def validPending_def ownersDistinct_def emptyIdentityCache_def)
    then show ?thesis using l False by (auto simp: loadForRemoval_def pursues_def cacheBefore_def)
  qed
  have stop: ?thesis if "pursues kd s s'" "e \<noteq> None"
    using that assms(5) by (simp add: removalEnds_def pursues_def)
  show ?thesis
  proof (cases "x = None")
    case False
    then have "s' = s1" "e \<noteq> None" using assms(1) l by (auto simp: removeConnectorSelection_def)
    then show ?thesis using stop L by blast
  next
    case True
    note L = mp [OF conjunct2 [OF L] True] conjunct1 [OF L]
    have cfg: "rvConfig s1 = rvConfig s" using L(2) by (simp add: pursues_def)
    show ?thesis
    proof (cases "selectConnectorRemoval kd env (rvConfig s1) (rvCache s1) ident crid")
      case (Inl y)
      then have "s' = s1" "e \<noteq> None" using assms(1) l True by (auto simp: removeConnectorSelection_def)
      then show ?thesis using stop L(2) by blast
    next
      case (Inr sel)
      define remote where "remote = (slCRID sel \<noteq> '''' \<or> slPending sel)"
      obtain y s2 where c: "withRegisteredConnectorResourceClient kd origin openClient (removeRemote kd sel) s1 = (y, s2)"
        by fastforce
      have C: "pursues kd s1 s2 \<and> (y = None \<longrightarrow> settled kd s2 \<and> serviceDone sel (rmCalls s2))" if "remote" "hasTxn"
        using registered_client [OF c pursues_local [OF L(2) assms(2)] _ assms(4)] L(1) that by (simp add: remote_def)
      have fin: ?thesis if f: "finishRemoval kd hasTxn hasCfg sel s3 = (e, s')" and p: "pursues kd s s3"
        and t: "hasTxn \<longrightarrow> settled kd s3" and d: "serviceDone sel (rmCalls s3)" and n: "\<not> remote \<longrightarrow> s3 = s1" for s3
      proof -
        have r3: "rmSaved s3 = []" "rvConfig s3 = rvConfig s" using p assms(5) by (simp_all add: pursues_def)
        note F = finish_contract [OF f t assms(4) r3(1), unfolded r3(2)]
        have p3: "moved kd (keepsBut {}) (rvWorld s) (rvWorld s3)" using p by (simp add: pursues_def)
        have m: "moved kd (keepsBut {slID sel}) (rvWorld s) (rvWorld s')"
          using moved_trans [OF moved_keeps [OF p3]] F by blast
        have m0: "moved kd (keepsBut {}) (rvWorld s) (rvWorld s')" if "\<not> remote"
        proof -
          have "fmlookup (icByID (rvCache s1)) (slID sel) = None \<and> \<not> isPending (slID sel) (rvCache s1)"
            using selection_absent [OF Inr assms(6)] L(1) that by (simp add: remote_def)
          then have "moved kd (keepsBut {}) (rvWorld s3) (rvWorld s')" using F n that by blast
          then show ?thesis by (rule moved_trans [OF p3])
        qed
        have gone: "identityGone kd (slID sel) (rvWorld s')" if "e = None" "hasTxn"
          using F that by (simp add: identityGone_def forgotten_def)
        show ?thesis
          unfolding removalEnds_def
          using L(1) Inr cfg F m m0 gone d by (auto simp: remote_def)
      qed
      have done0: "serviceDone sel (rmCalls s1)" if "\<not> remote" using that by (simp add: serviceDone_def remote_def)
      consider "e \<noteq> None" "s' = s1" | "e \<noteq> None" "s' = s2" "remote" "hasTxn"
        | "finishRemoval kd hasTxn hasCfg sel s2 = (e, s')" "y = None" "remote" "hasTxn"
        | "finishRemoval kd hasTxn hasCfg sel s1 = (e, s')" "\<not> remote"
        using assms(1) l True Inr c
        by (auto simp: removeConnectorSelection_def remote_def split: if_splits option.splits)
      then show ?thesis
      proof cases
        case 1
        then show ?thesis using stop L(2) by blast
      next
        case 2
        then show ?thesis using stop L(2) C pursues_trans by blast
      next
        case 3
        then show ?thesis using fin [OF 3(1)] C L(2) pursues_trans by blast
      next
        case 4
        then show ?thesis using fin [OF 4(1) L(2)] L(1) done0 by blast
      qed
    qed
  qed
qed


lemma close_access:
  assumes "closeConfigAccess a w = ((e, a'), w')"
  shows "quiet w w'"
proof -
  obtain e1 w1 where 1: "(if caTransaction a then sys w else (None, w)) = (e1, w1)" by fastforce
  obtain e2 w2 where 2: "(if caSnapshot a then sys w1 else (None, w1)) = (e2, w2)" by fastforce
  have "quiet w w1" "quiet w1 w2" using 1 2 sys_quiet by (auto split: if_splits)
  then show ?thesis using assms 1 2 quiet_trans by (auto simp: closeConfigAccess_def)
qed

lemma remove_transaction:
  assumes "removeTransaction kd env origin openClient hasTxn ident crid (a, s) w = (((a', s'), e), w')"
    "localFaults w" "honestFaults w" "deps_ok kd" "rmSaved s = []" "ident \<noteq> '''' \<or> crid \<noteq> ''''"
  shows "removalEnds kd env ident crid (rvConfig s) hasTxn w e (rmCalls s') (rmSaved s') w'"
proof -
  obtain x a1 w1 where c: "(if caSnapshot a then closeConfigAccess a w else ((None, a), w)) = ((x, a1), w1)"
    by (metis prod.exhaust)
  have q: "quiet w w1" using c close_access by (auto split: if_splits)
  have h: "localFaults w1" "honestFaults w1"
    using local_same [of w w1] honest_quiet [OF q assms(3)] assms(2) q by (auto simp: quiet_def)
  obtain e2 s2 where r: "removeConnectorSelection kd env origin openClient hasTxn (caTransaction a1) ident crid (caWriteErr a1)
      (s\<lparr>rvWorld := w1\<rparr>) = (e2, s2)" by fastforce
  have run: "x = None \<and> s' = s2 \<and> e = e2 \<and> w' = rvWorld s2 \<or> e \<noteq> None \<and> s' = s \<and> w' = w1"
    using assms(1) r unfolding removeTransaction_def prod.case c by (auto split: option.splits)
  have "removalEnds kd env ident crid (rvConfig s) hasTxn w1 e2 (rmCalls s2) (rmSaved s2) (rvWorld s2)"
    using remove_selection [OF r _ _ assms(4) _ assms(6)] h assms(5) by simp
  then have "removalEnds kd env ident crid (rvConfig s) hasTxn w e2 (rmCalls s2) (rmSaved s2) (rvWorld s2)"
    by (rule ends_leaves [OF quiet_leaves [OF q]])
  moreover have "removalEnds kd env ident crid (rvConfig s) hasTxn w e (rmCalls s) (rmSaved s) w1" if "e \<noteq> None"
    using that assms(5) quiet_moves [OF q] by (simp add: removalEnds_def)
  ultimately show ?thesis using run by auto
qed

lemma run_remove:
  assumes "runRemove kd env origin openClient stat ident crid access cfg w = (e, s, w')"
    "deps_ok kd" "localFaults w" "honestFaults w"
  shows "removalEnds kd env ident crid cfg (stat = None) w e (rmCalls s) (rmSaved s) w' \<and>
    (e = None \<longrightarrow> ident \<noteq> '''' \<or> crid \<noteq> '''')"
proof -
  define s0 where "s0 = \<lparr>rvWorld = w, rvCache = emptyIdentityCache, rvConfig = cfg, rvSent = [], rmCalls = [], rmSaved = []\<rparr>"
  let ?fn = "\<lambda>hasTxn. removeTransaction kd env origin openClient hasTxn ident crid"
  have s0: "rvConfig s0 = cfg" "rmSaved s0 = []" "rmCalls s0 = []" by (simp_all add: s0_def)
  have kept: "removalEnds kd env ident crid cfg b w x [] [] u" if "x \<noteq> None" "leaves connectorIdentityCacheFile w u" for b x u
    using that leaves_moved [OF that(2), of "keepsBut {}" kd] by (simp add: removalEnds_def)
  show ?thesis
  proof (cases "ident = '''' \<and> crid = ''''")
    case True
    then show ?thesis using assms(1) kept [of e w] s0 by (auto simp: runRemove_def Let_def s0_def)
  next
    case False
    obtain a1 s1 e1 w1 where t: "withRemoveConnectorIdentityCache stat ?fn (access, s0) w = (((a1, s1), e1), w1)"
      by (metis prod.exhaust)
    obtain e2 a2 w2 where c: "closeConfigAccess a1 w1 = ((e2, a2), w2)" by (metis prod.exhaust)
    have run: "e = errorsJoin [e1, e2]" "s = s1" "w' = w2"
      using assms(1) False t c by (auto simp: runRemove_def Let_def s0_def)
    have body: "removalEnds kd env ident crid cfg b w x (rmCalls s1) (rmSaved s1) v"
      if "leaves connectorIdentityCacheFile w u" "?fn b (access, s0) u = (((a1, s1), x), v)" for b u x v
    proof (rule ends_leaves [OF that(1)])
      have sm: "same w u" using that(1) by (simp add: leaves_def)
      have "localFaults u" "honestFaults u" using local_same [OF sm] honest_same [OF sm] assms(3,4) by auto
      then show "removalEnds kd env ident crid cfg b u x (rmCalls s1) (rmSaved s1) v"
        using remove_transaction [OF that(2) _ _ assms(2)] s0 False by simp
    qed
    have "removalEnds kd env ident crid cfg (stat = None) w e1 (rmCalls s1) (rmSaved s1) w1"
    proof (cases stat)
      case None
      then have "withConnectorIdentityCacheLock (access, s0) (?fn True (access, s0)) w = (((a1, s1), e1), w1)"
        using t by (simp add: withRemoveConnectorIdentityCache_def)
      then show ?thesis
      proof (cases rule: lock_cases)
        case refused
        then show ?thesis using kept s0 by simp
      next
        case (ran u x u1)
        then show ?thesis using ends_quiet [OF body [OF ran(1,2)] ran(3,4)] None by simp
      qed
    next
      case (Some x)
      then have "?fn False (access, s0) w = (((a1, s1), e1), w1) \<or> s1 = s0 \<and> e1 \<noteq> None \<and> w1 = w"
        using t by (auto simp: withRemoveConnectorIdentityCache_def split: if_splits)
      then show ?thesis using body [of w False e1 w1] kept [of e1 w False] s0 Some by auto
    qed
    then show ?thesis unfolding run using ends_quiet [OF _ close_access [OF c]] False by auto
  qed
qed

text \<open>
  C6. A removal touches nothing local without proof. Whatever fails, either it ends with an error, the
  configuration was never saved and every identity, bound or in flight, is on disk at every moment; or one
  selected identity went ahead, and only its route may have left the configuration and only its identity the
  cache: the service had answered that exactly this resource is revoked, tombstoned or deleted, or that nothing
  was created for the id in flight, or there never was a resource and then the cache kept every identity.
\<close>

theorem removal_needs_proof:
  assumes "deps_ok kd" "localFaults w" "honestFaults w"
  shows "case runRemove kd env origin openClient stat ident crid access cfg w of (e, s, w') \<Rightarrow>
    (e \<noteq> None \<and> rmSaved s = [] \<and> moved kd (keepsBut {}) w w') \<or>
    (\<exists>c sel. cacheBefore kd (stat = None) w c \<and> selectConnectorRemoval kd env cfg c ident crid = Inr sel \<and>
      serviceDone sel (rmCalls s) \<and> savedOnly sel cfg (rmSaved s) \<and>
      moved kd (keepsBut (if slCRID sel \<noteq> '''' \<or> slPending sel then {slID sel} else {})) w w')"
proof -
  obtain e s w' where r: "runRemove kd env origin openClient stat ident crid access cfg w = (e, s, w')" by (metis prod_cases3)
  from run_remove [OF r assms] show ?thesis unfolding r prod.case removalEnds_def by auto
qed

text \<open>
  C22. A removal that reports success removed what it was asked to: the selection has the id and the CRID of the
  command, its route, if configured, is the one saved away and no other, and the cache on disk knows neither a
  binding nor a request of that id.
\<close>

theorem removal_completes:
  assumes "deps_ok kd" "localFaults w" "honestFaults w"
    and "runRemove kd env origin openClient stat ident crid access cfg w = (None, s, w')"
  shows "\<exists>c sel. cacheBefore kd (stat = None) w c \<and> selectConnectorRemoval kd env cfg c ident crid = Inr sel \<and>
    selected c (cfRoutes cfg) (length (cfRoutes cfg)) (routeIDEnvFallback env) (slID sel) sel \<and>
    ident \<in> {'''', slID sel} \<and> crid \<in> {'''', slCRID sel} \<and>
    savedAll sel cfg (rmSaved s) \<and> (stat = None \<longrightarrow> identityGone kd (slID sel) w')"
proof -
  note R = run_remove [OF assms(4,1-3)]
  then have ne: "ident \<noteq> '''' \<or> crid \<noteq> ''''" by simp
  obtain c sel where c: "cacheBefore kd (stat = None) w c" "selectConnectorRemoval kd env cfg c ident crid = Inr sel"
      "savedAll sel cfg (rmSaved s)" "stat = None \<longrightarrow> identityGone kd (slID sel) w'"
    using R unfolding removalEnds_def by auto
  then show ?thesis using select_exact [OF c(2) ne] by blast
qed


text \<open>
  A gap of the code: when the answer proves deletion and the state check after the call fails, the join of the two
  still contains the service's sentinel, so the failed check is dropped and the removal goes on.
\<close>

lemma revoked_hides_continuity:
  assumes "validateContinuity (rvWorld s) = (None, w1)" "acGet cl crid (cwTick w1) = Inl e"
    "connectorResourceReadProvesDeletion e" "validateContinuity (w1\<lparr>cwTick := Suc (cwTick w1)\<rparr>) = (Some x, w2)"
  shows "fst (inspectExact kd cl slug crid s) = Inl None"
  using assms by (auto simp: inspectExact_def gateConnectorStateResult_def GetConnectorResource_def apiCalled_def Let_def
      connectorResourceReadProvesDeletion_def errorsJoin_def List.map_filter_def)

end
