(* ===== verification/Connector_Start_Witnesses.thy ===== *)
theory Connector_Start_Witnesses
  imports Connector_Start_Props
begin

text \<open>A start without failures, on a cache that is not bound yet.\<close>

section \<open>Worlds without failures\<close>

text \<open>The directory holds the cache \<open>c\<close>, the lock, and no temporary file.\<close>

definition calm :: "keyDeps \<Rightarrow> identityCache \<Rightarrow> cacheWorld \<Rightarrow> bool" where
  "calm kd c w = (cwFaults w = (\<lambda>_. None) \<and> \<not> cwReadOnly w \<and> cwRandom w = (\<lambda>_. [7]) \<and>
     (\<exists>raw. lookupFile (cwNs w) connectorIdentityCacheFile = Some (newFileOf raw) \<and> raw \<noteq> '''' \<and>
        length raw \<le> connectorIdentityCacheMaxBytes \<and> decodeCache kd raw = Inr c) \<and>
     lookupFile (cwNs w) connectorIdentityCacheLockFile \<noteq> None \<and>
     lookupFile (cwNs w) legacyConnectorIdentityFile = None \<and>
     lookupFile (cwNs w) (cacheTempName connectorIdentityCacheFile [7]) = None)"

lemma calm_tick: "calm kd c w \<Longrightarrow> calm kd c (w\<lparr>cwTick := t\<rparr>)"
  by (simp add: calm_def)

lemma calm_faults: "calm kd c w \<Longrightarrow> cwFaults w = (\<lambda>_. None)"
  by (simp add: calm_def)

lemma calm_namespace: "calm kd c w \<Longrightarrow> \<exists>w'. validateConnectorIdentityCacheNamespace w = (None, w') \<and> calm kd c w'"
  using calm_faults by (simp add: validateConnectorIdentityCacheNamespace_def quiet_sys calm_tick)

lemma calm_continuity: "calm kd c w \<Longrightarrow> \<exists>w'. validateContinuity w = (None, w') \<and> calm kd c w'"
  using calm_faults by (simp add: validateContinuity_def validateConnectorIdentityCacheNamespace_def quiet_sys calm_tick)

lemma calm_regular: "calm kd c w \<Longrightarrow> validateRegular connectorIdentityCacheFile w = (None, w\<lparr>cwTick := Suc (cwTick w)\<rparr>)"
  using calm_faults by (auto simp: validateRegular_def quiet_sys) (auto simp: calm_def newFileOf_def privateFile_def)

lemma calm_file: "calm kd c w \<Longrightarrow> lookupFile (cwNs w) connectorIdentityCacheFile \<noteq> None"
  by (auto simp: calm_def)

lemma calm_open: "calm kd c w \<Longrightarrow> \<exists>w'. openConnectorIdentityCache connectorIdentityCacheFile w = (None, w') \<and> calm kd c w'"
proof -
  assume "calm kd c w"
  then obtain v where v: "validateConnectorIdentityCacheNamespace w = (None, v)" "calm kd c v" using calm_namespace by blast
  then show ?thesis using calm_file [OF v(2)]
    by (simp add: openConnectorIdentityCache_def quiet_sys calm_faults [OF v(2)] calm_regular [OF calm_tick [OF v(2)]] calm_tick)
qed

lemma calm_load: "calm kd c w \<Longrightarrow> \<exists>w'. loadConnectorIdentityCacheUnlocked kd w = (Inr c, w') \<and> calm kd c w'"
proof -
  assume "calm kd c w"
  then obtain v where v: "openConnectorIdentityCache connectorIdentityCacheFile w = (None, v)" "calm kd c v"
    using calm_open by blast
  obtain raw where raw: "lookupFile (cwNs v) connectorIdentityCacheFile = Some (newFileOf raw)" "raw \<noteq> ''''"
      "length raw \<le> connectorIdentityCacheMaxBytes" "decodeCache kd raw = Inr c"
    using v(2) by (auto simp: calm_def)
  have "readCacheFile kd v = (Inr c, v\<lparr>cwTick := Suc (Suc (cwTick v))\<rparr>)"
    using raw quiet_sys [OF calm_faults [OF v(2)]] calm_regular [OF calm_tick [OF v(2)], of "Suc (cwTick v)"]
    by (simp add: readCacheFile_def newFileOf_def)
  then show ?thesis using v(1) quiet_sys [OF calm_faults [OF calm_tick [OF v(2)]], of "Suc (Suc (cwTick v))"] v(2)
    by (simp add: loadConnectorIdentityCacheUnlocked_def calm_tick)
qed

lemma calm_save:
  assumes "calm kd c w" "encodeCache kd c' = Inr raw" "ownersDistinct (icByID c')" "deps_ok kd" "raw \<noteq> ''''"
  shows "\<exists>w'. saveConnectorIdentityCacheUnlocked kd c' w = (None, w') \<and> calm kd c' w'"
proof -
  define tmp where "tmp = cacheTempName connectorIdentityCacheFile [7]"
  have names: "tmp \<noteq> connectorIdentityCacheFile" "tmp \<noteq> connectorIdentityCacheLockFile" "tmp \<noteq> legacyConnectorIdentityFile"
    "connectorIdentityCacheLockFile \<noteq> connectorIdentityCacheFile" "legacyConnectorIdentityFile \<noteq> connectorIdentityCacheFile"
    by (simp_all add: tmp_def cacheTempName_def connectorIdentityCacheFile_def connectorIdentityCacheLockFile_def
        legacyConnectorIdentityFile_def)
  have dec: "decodeCache kd raw = Inr c'" by (rule save_load [OF assms(2-4)])
  have len: "length raw \<le> connectorIdentityCacheMaxBytes" using assms(2) unfolding encode_exact by blast
  have w: "cwFaults w = (\<lambda>_. None)" "\<not> cwReadOnly w" "cwRandom w = (\<lambda>_. [7])"
      "map_of (nsFiles (cwNs w)) tmp = None" "map_of (nsFiles (cwNs w)) connectorIdentityCacheLockFile \<noteq> None"
      "map_of (nsFiles (cwNs w)) legacyConnectorIdentityFile = None"
    using assms(1) by (simp_all add: calm_def lookupFile_def tmp_def)
  obtain old where old: "map_of (nsFiles (cwNs w)) connectorIdentityCacheFile = Some (newFileOf old)"
    using assms(1) by (auto simp: calm_def lookupFile_def)
  note syscalls = quiet_sys sysDo_def onDir_def validateConnectorIdentityCacheNamespace_def
    lookupFile_def validateRegular_def privateFile_def newFileOf_def updateFile_def renameFile_def commitFiles_def
    update_conv' delete_conv'
  note writes = saveConnectorIdentityCacheUnlocked_def writeConnectorIdentityCacheDurable_def
    openConnectorIdentityCache_def stageCacheTemp_def commitCache_def
  show ?thesis
    by (simp add: syscalls writes assms(2) w old [unfolded newFileOf_def] names names [symmetric] tmp_def [symmetric] Let_def)
      (simp add: calm_def lookupFile_def update_conv' delete_conv' newFileOf_def w names names [symmetric] dec len assms(5)
        tmp_def [symmetric])
qed


lemma calm_gate:
  assumes "calm kd c (rvWorld s)"
    and "\<And>u. calm kd c u \<Longrightarrow> \<exists>t. fn (s\<lparr>rvWorld := u\<rparr>) = (None, t) \<and> calm kd c' (rvWorld t) \<and> Q t"
    and "\<And>t u. Q t \<Longrightarrow> Q (t\<lparr>rvWorld := u\<rparr>)"
  shows "\<exists>t. gateConnectorStateContinuity op fn s = (None, t) \<and> calm kd c' (rvWorld t) \<and> Q t"
proof -
  obtain u where u: "validateContinuity (rvWorld s) = (None, u)" "calm kd c u" using calm_continuity assms(1) by blast
  then obtain t where t: "fn (s\<lparr>rvWorld := u\<rparr>) = (None, t)" "calm kd c' (rvWorld t)" "Q t" using assms(2) by blast
  then obtain v where v: "validateContinuity (rvWorld t) = (None, v)" "calm kd c' v" using calm_continuity by blast
  then show ?thesis using u t assms(3) by (simp add: gateConnectorStateContinuity_def)
qed

lemma calm_result:
  assumes "calm kd c (rvWorld s)"
    and "\<And>u. calm kd c u \<Longrightarrow> \<exists>t. fn (s\<lparr>rvWorld := u\<rparr>) = (Inr x, t) \<and> calm kd c' (rvWorld t) \<and> Q t"
    and "\<And>t u. Q t \<Longrightarrow> Q (t\<lparr>rvWorld := u\<rparr>)"
  shows "\<exists>t. gateConnectorStateResult op fn s = (Inr x, t) \<and> calm kd c' (rvWorld t) \<and> Q t"
proof -
  obtain u where u: "validateContinuity (rvWorld s) = (None, u)" "calm kd c u" using calm_continuity assms(1) by blast
  then obtain t where t: "fn (s\<lparr>rvWorld := u\<rparr>) = (Inr x, t)" "calm kd c' (rvWorld t)" "Q t" using assms(2) by blast
  then obtain v where v: "validateContinuity (rvWorld t) = (None, v)" "calm kd c' v" using calm_continuity by blast
  then show ?thesis using u t assms(3) by (simp add: gateConnectorStateResult_def)
qed

lemma calm_lock:
  assumes "calm kd c w" "\<And>u. calm kd c u \<Longrightarrow> \<exists>v u'. fn u = ((v, None), u') \<and> calm kd c' u' \<and> Q v"
  shows "\<exists>v w'. withConnectorIdentityCacheLock d fn w = ((v, None), w') \<and> calm kd c' w' \<and> Q v"
proof -
  obtain w1 where 1: "validateConnectorIdentityCacheNamespace (w\<lparr>cwTick := Suc (Suc (Suc (Suc (cwTick w))))\<rparr>) = (None, w1)" "calm kd c w1"
    using calm_namespace calm_tick assms(1) by blast
  obtain v w2 where 2: "fn (w1\<lparr>cwTick := Suc (cwTick w1)\<rparr>) = ((v, None), w2)" "calm kd c' w2" "Q v"
    using assms(2) [OF calm_tick [OF 1(2)]] by blast
  obtain w3 where 3: "validateConnectorIdentityCacheNamespace w2 = (None, w3)" "calm kd c' w3" using calm_namespace 2(2) by blast
  have l: "lookupFile (cwNs w) connectorIdentityCacheLockFile \<noteq> None" using assms(1) by (simp add: calm_def)
  then obtain f where l': "lookupFile (cwNs w) connectorIdentityCacheLockFile = Some f" by blast
  note f = calm_faults [OF assms(1)] calm_faults [OF 1(2)] calm_faults [OF 3(2)]
  show ?thesis
    using 1(1) 2 3 by (simp add: withConnectorIdentityCacheLock_def Let_def lstatEntry_def takeLock_def quiet_sys f l' calm_tick)
qed

section \<open>The example\<close>

definition wNonce :: string where "wNonce = replicate 43 (CHR ''A'')"
definition wNewRequest :: newRequest where
  "wNewRequest = (\<lambda>i crid t. Inr \<lparr>rqConnectorID = i, rqExpectedCRID = crid, rqNonce = wNonce\<rparr>)"

definition wResource :: ConnectorResource where
  "wResource = \<lparr>crSlug = ''web'', crResourcePublicKey = ''AQID'', crCRID = ''crid_web'',
     crConnectorRoutingID = ''c-'' @ replicate 52 (CHR ''a''), crKnockResourceID = ''knock_1''\<rparr>"

definition wResolve :: resolveFunc where "wResolve = (\<lambda>q t. Inr (Some wResource))"
definition wEnv :: "string \<Rightarrow> string option" where "wEnv = (\<lambda>k. None)"
definition wOpen :: openRuntime where "wOpen = (\<lambda>w. (Inr ''agent_1'', w))"

definition wRunConfig :: Config where
  "wRunConfig = NewDefaulted\<lparr>cfRoutes := [\<lparr>roID = ''web'', roType = ''http'', roLocalIP = ''127.0.0.1'', roLocalPort = 8080,
     roCRID = '''', roResourcePublicKey = '''', roConnectorRoutingID = '''', roKnockResourceID = '''', roTargetURL = ''''\<rparr>]\<rparr>"

definition wBinding :: cacheEntry where "wBinding = bindingOf ''web'' wResource"

lemma example_calm: "calm exampleDeps emptyIdentityCache exampleWorld"
  using example_decode empty_lengths
  by (auto simp: calm_def exampleWorld_def lookupFile_def newFileOf_def cacheTempName_def connectorIdentityCacheFile_def
      connectorIdentityCacheLockFile_def legacyConnectorIdentityFile_def)

lemma wBinding_valid: "validateCachedConnectorBinding exampleDeps wBinding = None"
  by code_simp

lemma wRequest_valid:
  "validateCachedConnectorRequest exampleDeps \<lparr>prID = ''web'', prRequestNonce = wNonce, prExpectedCRID = None\<rparr> = None"
  by code_simp


text \<open>The caches of the example: bound, with the request in flight, with the binding.\<close>

definition wPendingRequest :: pendingRequest where
  "wPendingRequest = \<lparr>prID = ''web'', prRequestNonce = wNonce, prExpectedCRID = None\<rparr>"
definition wBound :: identityCache where "wBound = emptyIdentityCache\<lparr>icAgentID := ''agent_1''\<rparr>"
definition wPending :: identityCache where
  "wPending = wBound\<lparr>icPending := fmupd ''web'' wPendingRequest (icPending wBound)\<rparr>"
definition wDone :: identityCache where "wDone = putBinding ''web'' wBinding wPending"

lemma one_value: "valuesOf (fmupd k v fmempty) = [v]" "valuesOf fmempty = []"
  by (simp_all add: valuesOf_def keysOfMap_def sorted_list_of_fset.rep_eq List.map_filter_def)

lemma wFields:
  "icByID wPending = fmempty" "icPending wPending = fmupd ''web'' wPendingRequest fmempty" "icAgentID wPending = ''agent_1''"
  "icByID wDone = fmupd ''web'' wBinding fmempty" "icPending wDone = fmempty" "icAgentID wDone = ''agent_1''"
proof -
  show p: "icByID wPending = fmempty" "icPending wPending = fmupd ''web'' wPendingRequest fmempty" "icAgentID wPending = ''agent_1''"
    by (simp_all add: wPending_def wBound_def emptyIdentityCache_def)
  have "fmdrop ''web'' (fmupd ''web'' wPendingRequest fmempty) = fmempty" by (rule fmap_ext) auto
  then show "icByID wDone = fmupd ''web'' wBinding fmempty" "icPending wDone = fmempty" "icAgentID wDone = ''agent_1''"
    by (simp_all add: wDone_def putBinding_def p)
qed

lemma wDocuments:
  "length (printValue (envelopeJSON wPending)) < 400" "length (printValue (envelopeJSON wDone)) < 400"
proof -
  have "length (printValue (JsObject [(''version'', JsNumber (fmtInt connectorIdentityCacheVersion)),
     (''agent_id'', JsString ''agent_1''), (''identities'', JsArray []),
     (''pending_requests'', JsArray [requestJSON wPendingRequest])])) < 400"
    "length (printValue (JsObject [(''version'', JsNumber (fmtInt connectorIdentityCacheVersion)),
     (''agent_id'', JsString ''agent_1''), (''identities'', JsArray [entryJSON wBinding]),
     (''pending_requests'', JsArray [])])) < 400"
    by code_simp+
  then show "length (printValue (envelopeJSON wPending)) < 400" "length (printValue (envelopeJSON wDone)) < 400"
    by (simp_all only: envelopeJSON_def wFields one_value list.map)
qed

lemma wEncodes:
  "encodeCache exampleDeps wPending = Inr (printValue (envelopeJSON wPending))"
  "encodeCache exampleDeps wDone = Inr (printValue (envelopeJSON wDone))"
  "printValue (envelopeJSON wPending) \<noteq> ''''" "printValue (envelopeJSON wDone) \<noteq> ''''"
proof -
  have a: "validateCachedAgentID ''agent_1'' = None" by code_simp
  have i: "ceID wBinding = ''web''" "prID wPendingRequest = ''web''" by (simp_all add: wBinding_def bindingOf_def wPendingRequest_def)
  have l: "n < 400 \<Longrightarrow> n \<le> connectorIdentityCacheMaxBytes" for n by (simp add: connectorIdentityCacheMaxBytes_def)
  show "encodeCache exampleDeps wPending = Inr (printValue (envelopeJSON wPending))"
    unfolding encode_exact using a i wRequest_valid [folded wPendingRequest_def] l [OF wDocuments(1)]
    by (auto simp: validAgent_def validBindings_def validPending_def assertsCached_def wFields)
  show "encodeCache exampleDeps wDone = Inr (printValue (envelopeJSON wDone))"
    unfolding encode_exact using a i wBinding_valid l [OF wDocuments(2)]
    by (auto simp: validAgent_def validBindings_def validPending_def wFields)
qed (simp_all add: envelopeJSON_def)


section \<open>The run\<close>

definition wQuery :: resourceRequest where
  "wQuery = \<lparr>rqConnectorID = ''web'', rqExpectedCRID = '''', rqNonce = wNonce\<rparr>"

lemma wSlug: "ValidateSlug ''web'' = None"
  by code_simp

lemma wOwners: "ownersDistinct (icByID wBound)" "ownersDistinct (icByID wPending)" "ownersDistinct (icByID wDone)"
  by (auto simp: ownersDistinct_def wFields wBound_def emptyIdentityCache_def)

lemma calm_bind:
  assumes "calm exampleDeps emptyIdentityCache u"
  shows "\<exists>w'. bindAgentIDLocked exampleDeps ''agent_1'' emptyIdentityCache u = (None, wBound, w') \<and> calm exampleDeps wBound w'"
proof -
  have a: "validateCachedAgentID ''agent_1'' = None" by code_simp
  have n: "emptyDocument ''agent_1'' \<noteq> ''''" by (simp add: emptyDocument_def)
  have e: "icAgentID emptyIdentityCache = ''''" "icByID emptyIdentityCache = fmempty" "icPending emptyIdentityCache = fmempty"
    by (simp_all add: emptyIdentityCache_def)
  have enc: "encodeCache exampleDeps wBound = Inr (emptyDocument ''agent_1'')"
    using example_encode by (simp add: wBound_def)
  obtain w' where "saveConnectorIdentityCacheUnlocked exampleDeps wBound u = (None, w')" "calm exampleDeps wBound w'"
    using calm_save [OF assms enc wOwners(1) example_deps n] by blast
  then show ?thesis using a e by (simp add: bindAgentIDLocked_def wBound_def)
qed

lemma calm_request:
  assumes "calm exampleDeps wBound u"
  shows "\<exists>w'. ensurePendingRequestLocked exampleDeps wNewRequest ''web'' '''' wBound u = (Inr wQuery, wPending, w') \<and>
    calm exampleDeps wPending w'"
proof -
  obtain w' where s: "saveConnectorIdentityCacheUnlocked exampleDeps wPending u = (None, w')" "calm exampleDeps wPending w'"
    using calm_save [OF assms wEncodes(1) wOwners(2) example_deps wEncodes(3)] by blast
  have b: "icAgentID wBound = ''agent_1''" "icByID wBound = fmempty" "icPending wBound = fmempty"
    by (simp_all add: wBound_def emptyIdentityCache_def)
  have p: "wBound\<lparr>icPending := fmupd ''web'' \<lparr>prID = ''web'', prRequestNonce = wNonce, prExpectedCRID = None\<rparr> fmempty\<rparr> = wPending"
    by (simp add: wPending_def wPendingRequest_def b)
  show ?thesis using s
    by (simp add: ensurePendingRequestLocked_def Let_def b wSlug wNewRequest_def wQuery_def p)
qed

lemma calm_record:
  assumes "calm exampleDeps wPending u"
  shows "\<exists>w'. recordResolutionLocked exampleDeps ''web'' (Some wResource) wPending u = (None, wDone, w') \<and>
    calm exampleDeps wDone w'"
proof -
  obtain w' where s: "saveConnectorIdentityCacheUnlocked exampleDeps wDone u = (None, w')" "calm exampleDeps wDone w'"
    using calm_save [OF assms wEncodes(2) wOwners(3) example_deps wEncodes(4)] by blast
  have k: "\<not> keyOwnedElsewhere ''web'' k wPending" for k
    unfolding owned_elsewhere by (simp add: wFields)
  have sl: "crSlug wResource = ''web''" by (simp add: wResource_def)
  show ?thesis using s k wBinding_valid
    by (simp add: recordResolutionLocked_def Let_def wFields sl wBinding_def [symmetric] wDone_def [symmetric])
qed

definition wRoute :: ConfigRoute where "wRoute = hd (cfRoutes wRunConfig)"

lemma wRoutes: "cfRoutes wRunConfig = [wRoute]" "roID wRoute = ''web''" "roType wRoute = ''http''" "roCRID wRoute = ''''"
  "roConnectorRoutingID wRoute = ''''" "roKnockResourceID wRoute = ''''" "cfKnockResourceIDs wRunConfig = fmempty"
  by (simp_all add: wRoute_def wRunConfig_def NewDefaulted_def applyDefaults_def emptyConfig_def)

definition wServed :: Config where
  "wServed = SetKnockResourceID ''AQID'' ''knock_1'' (wRunConfig\<lparr>cfRoutes := [boundRoute wBinding wRoute]\<rparr>)"

lemma calm_resolve:
  assumes "calm exampleDeps wBound (rvWorld s)" "rvCache s = wBound" "rvConfig s = wRunConfig" "rvSent s = []"
  shows "\<exists>t. resolveRoute exampleDeps wNewRequest wResolve \<lparr>irIndex = 0, irID = ''web'', irExpectedCRID = ''''\<rparr> s = (None, t) \<and>
    calm exampleDeps wDone (rvWorld t) \<and> rvCache t = wDone \<and> rvConfig t = wServed \<and> length (rvSent t) = 1"
proof -
  let ?p = "\<lparr>irIndex = 0, irID = ''web'', irExpectedCRID = ''''\<rparr>"
  have "\<exists>t. gateConnectorStateResult ''persist exact Connector resource LST request''
      (persistRequest exampleDeps wNewRequest ''web'' '''') s = (Inr wQuery, t) \<and> calm exampleDeps wPending (rvWorld t) \<and>
      (rvCache t = wPending \<and> rvConfig t = wRunConfig \<and> rvSent t = [])"
    by (rule calm_result [OF assms(1)]) (use calm_request assms in \<open>fastforce simp: persistRequest_def\<close>)+
  then obtain s1 where 1: "gateConnectorStateResult ''persist exact Connector resource LST request''
      (persistRequest exampleDeps wNewRequest ''web'' '''') s = (Inr wQuery, s1)" "calm exampleDeps wPending (rvWorld s1)"
      "rvCache s1 = wPending" "rvConfig s1 = wRunConfig" "rvSent s1 = []" by blast
  have "\<exists>t. gateConnectorStateResult ''resolve Connector resource over assigned-cell NHP''
      (dispatchRequest wResolve wQuery) s1 = (Inr (Some wResource), t) \<and> calm exampleDeps wPending (rvWorld t) \<and>
      (rvCache t = wPending \<and> rvConfig t = wRunConfig \<and> length (rvSent t) = 1)"
    by (rule calm_result [OF 1(2)]) (simp_all add: dispatchRequest_def wResolve_def calm_tick 1)
  then obtain s2 where 2: "gateConnectorStateResult ''resolve Connector resource over assigned-cell NHP''
      (dispatchRequest wResolve wQuery) s1 = (Inr (Some wResource), s2)" "calm exampleDeps wPending (rvWorld s2)"
      "rvCache s2 = wPending" "rvConfig s2 = wRunConfig" "length (rvSent s2) = 1" by blast
  have "\<exists>t. gateConnectorStateContinuity ''persist complete Connector resource binding''
      (onCache (recordResolutionLocked exampleDeps ''web'' (Some wResource))) s2 = (None, t) \<and> calm exampleDeps wDone (rvWorld t) \<and>
      (rvCache t = wDone \<and> rvConfig t = wRunConfig \<and> length (rvSent t) = 1)"
    by (rule calm_gate [OF 2(2)]) (use calm_record 2 in \<open>fastforce simp: onCache_def\<close>)+
  then obtain s3 where 3: "gateConnectorStateContinuity ''persist complete Connector resource binding''
      (onCache (recordResolutionLocked exampleDeps ''web'' (Some wResource))) s2 = (None, s3)" "calm exampleDeps wDone (rvWorld s3)"
      "rvCache s3 = wDone" "rvConfig s3 = wRunConfig" "length (rvSent s3) = 1" by blast
  have a: "adoptResource 0 wRoute wResource wRunConfig = (None, wServed)"
    by (simp add: adoptResource_def wRoutes FirstDifferentKnockResourceID_def wServed_def wResource_def wBinding_def bindingOf_def
        boundRoute_def)
  have w: "crSlug wResource = ''web''" by (simp add: wResource_def)
  have "resolveRoute exampleDeps wNewRequest wResolve ?p s = (None, s3\<lparr>rvConfig := wServed\<rparr>)"
    unfolding resolveRoute_def Let_def identityResolution.select_convs 1(1) 2(1) prod.case sum.case option.case
    by (simp add: 3 w assms(3) wRoutes a)
  then show ?thesis using 3 by simp
qed


lemma wServed_fields:
  "cfRoutes wServed = [boundRoute wBinding wRoute]" "PrimaryResourceID wServed = ''AQID''"
  "knockResourceIDOrEmpty wEnv wServed ''AQID'' = ''knock_1''"
  by (simp_all add: wServed_def SetKnockResourceID_def PrimaryResourceID_def primaryRoutingRoute_def boundRoute_def wBinding_def
      bindingOf_def wResource_def knockResourceIDOrEmpty_def getenv_def wEnv_def KnockResourceID_def knockAt_def Let_def)

lemma wGraphs:
  "ValidateManagedRouteIdentities [wRoute] = None" "ValidateManagedRouteIdentities [boundRoute wBinding wRoute] = None"
  by (simp_all add: ValidateManagedRouteIdentities_def wRoutes boundRoute_def wBinding_def bindingOf_def wResource_def Let_def)

lemma wPlan:
  assumes "icByID c = fmempty" "icPending c = fmempty"
  shows "planRoutes exampleDeps c 1 fb 0 {} {} [wRoute] = (None, [wRoute], [\<lparr>irIndex = 0, irID = ''web'', irExpectedCRID = ''''\<rparr>])"
    "graphIDs exampleDeps c 1 fb 0 {} {} [wRoute] = Inr {''web''}" "rejectOrphanIdentities {''web''} c = None"
proof -
  have t: "trimSpace ''web'' \<noteq> ''''" by code_simp
  have r: "wRoute\<lparr>roID := ''web''\<rparr> = wRoute" by (cases wRoute) (use wRoutes in simp)
  show "planRoutes exampleDeps c 1 fb 0 {} {} [wRoute] = (None, [wRoute], [\<lparr>irIndex = 0, irID = ''web'', irExpectedCRID = ''''\<rparr>])"
    by (simp add: routeIDWithFallback_def wRoutes namedRoute_def wSlug assms pendingAsserts_def Let_def t)
  show "graphIDs exampleDeps c 1 fb 0 {} {} [wRoute] = Inr {''web''}"
    by (simp add: routeIDWithFallback_def wRoutes wSlug assms Let_def)
  show "rejectOrphanIdentities {''web''} c = None"
    by (simp add: rejectOrphanIdentities_def assms keysOfMap_def sorted_list_of_fset.rep_eq)
qed

lemma calm_locked:
  assumes "calm exampleDeps wBound (rvWorld s)" "rvConfig s = wRunConfig" "rvSent s = []"
  shows "\<exists>t. resolveConnectorIdentitiesLocked exampleDeps wNewRequest wResolve wEnv s = (None, t) \<and>
    calm exampleDeps wDone (rvWorld t) \<and> rvCache t = wDone \<and> rvConfig t = wServed \<and> length (rvSent t) = 1"
proof -
  obtain w where l: "loadConnectorIdentityCacheUnlocked exampleDeps (rvWorld s) = (Inr wBound, w)" "calm exampleDeps wBound w"
    using calm_load assms(1) by blast
  have b: "icByID wBound = fmempty" "icPending wBound = fmempty" by (simp_all add: wBound_def emptyIdentityCache_def)
  let ?s = "s\<lparr>rvWorld := w, rvCache := wBound, rvConfig := wRunConfig\<lparr>cfRoutes := [wRoute]\<rparr>\<rparr>"
  have cfg: "wRunConfig\<lparr>cfRoutes := [wRoute]\<rparr> = wRunConfig" using wRoutes(1) by (cases wRunConfig) simp
  obtain t where t: "resolveRoute exampleDeps wNewRequest wResolve \<lparr>irIndex = 0, irID = ''web'', irExpectedCRID = ''''\<rparr> ?s = (None, t)"
      "calm exampleDeps wDone (rvWorld t)" "rvCache t = wDone" "rvConfig t = wServed" "length (rvSent t) = 1"
    using calm_resolve [of ?s] l(2) assms(3) cfg by auto
  have "resolveConnectorIdentitiesLocked exampleDeps wNewRequest wResolve wEnv s = (None, t)"
    unfolding resolveConnectorIdentitiesLocked_def
    by (simp add: assms wRoutes(1) wGraphs l(1) wPlan [OF b, unfolded One_nat_def] t wServed_fields Let_def
        del: planRoutes.simps)
  then show ?thesis using t by blast
qed

lemma calm_prepare:
  assumes "calm exampleDeps emptyIdentityCache u" "ssConfig st = wRunConfig" "ssCache st = emptyIdentityCache"
  shows "\<exists>v u'. prepareTransaction exampleDeps wNewRequest wResolve wEnv wOpen st u = ((v, None), u') \<and>
    calm exampleDeps wDone u' \<and>
    (ssReleased v \<and> ssOpened v \<and> ssConfig v = wServed \<and> length (ssSent v) = 1)"
proof -
  let ?c = emptyIdentityCache
  have e: "icAgentID ?c = ''''" "icByID ?c = fmempty" "icPending ?c = fmempty" by (simp_all add: emptyIdentityCache_def)
  have "lookupFile (cwNs u) legacyConnectorIdentityFile = None" using assms(1) by (simp add: calm_def)
  then have 1: "rejectLegacyConnectorIdentityStateLocked u = (None, u\<lparr>cwTick := Suc (cwTick u)\<rparr>)"
    by (simp add: rejectLegacyConnectorIdentityStateLocked_def lstatEntry_def quiet_sys calm_faults [OF assms(1)])
  obtain w2 where 2: "loadConnectorIdentityCacheUnlocked exampleDeps (u\<lparr>cwTick := Suc (cwTick u)\<rparr>) = (Inr ?c, w2)" "calm exampleDeps ?c w2"
    using calm_load [OF calm_tick [OF assms(1)]] by blast
  obtain w3 where 3: "loadConnectorIdentityCacheUnlocked exampleDeps w2 = (Inr ?c, w3)" "calm exampleDeps ?c w3"
    using calm_load [OF 2(2)] by blast
  let ?w4 = "w3\<lparr>cwTick := Suc (cwTick w3)\<rparr>"
  have 4: "sys w3 = (None, ?w4)" by (simp add: quiet_sys calm_faults [OF 3(2)])
  let ?s = "\<lparr>rvWorld = ?w4, rvCache = ?c, rvConfig = wRunConfig, rvSent = []\<rparr>"
  have "\<exists>t. gateConnectorStateContinuity ''bind Connector identity cache'' (bindRuntime exampleDeps ''agent_1'') ?s = (None, t) \<and>
      calm exampleDeps wBound (rvWorld t) \<and> (rvConfig t = wRunConfig \<and> rvSent t = [])"
  proof (rule calm_gate [where c = ?c])
    show "calm exampleDeps ?c (rvWorld ?s)" using calm_tick 3(2) by simp
  next
    fix u
    assume "calm exampleDeps ?c u"
    then obtain v where v: "loadConnectorIdentityCacheUnlocked exampleDeps u = (Inr ?c, v)" "calm exampleDeps ?c v"
      using calm_load by blast
    obtain w' where "bindAgentIDLocked exampleDeps ''agent_1'' ?c v = (None, wBound, w')" "calm exampleDeps wBound w'"
      using calm_bind [OF v(2)] by blast
    then show "\<exists>t. bindRuntime exampleDeps ''agent_1'' (?s\<lparr>rvWorld := u\<rparr>) = (None, t) \<and> calm exampleDeps wBound (rvWorld t) \<and>
        (rvConfig t = wRunConfig \<and> rvSent t = [])"
      using v(1) by (simp add: bindRuntime_def onCache_def)
  qed simp
  then obtain s5 where 5: "gateConnectorStateContinuity ''bind Connector identity cache'' (bindRuntime exampleDeps ''agent_1'') ?s = (None, s5)"
      "calm exampleDeps wBound (rvWorld s5)" "rvConfig s5 = wRunConfig" "rvSent s5 = []" by blast
  obtain t where 6: "resolveConnectorIdentitiesLocked exampleDeps wNewRequest wResolve wEnv s5 = (None, t)"
      "calm exampleDeps wDone (rvWorld t)" "rvConfig t = wServed" "length (rvSent t) = 1"
    using calm_locked [OF 5(2-4)] by blast
  have "ensureConnectorIdentityCacheInitializedLocked exampleDeps u = (None, w2)"
    by (simp add: ensureConnectorIdentityCacheInitializedLocked_def 1 2 hasContinuityState_def e)
  moreover have "preflightConnectorIdentityCacheGraphLocked exampleDeps wEnv wRunConfig w2 = (None, w3)"
    by (simp add: preflightConnectorIdentityCacheGraphLocked_def 3 validateConfiguredConnectorIdentityGraph_def wRoutes(1)
        wPlan [OF e(2,3), unfolded One_nat_def] del: graphIDs.simps)
  ultimately show ?thesis
    using 4 5 6 assms(2,3) by (simp add: prepareTransaction_def wOpen_def Let_def)
qed

lemma example_start:
  "\<exists>st w'. prepareConnectorRun exampleDeps wNewRequest wResolve wEnv wOpen wRunConfig exampleWorld = (st, None, w') \<and>
    length (ssSent st) = 1"
proof -
  let ?st = "\<lparr>ssReleased = False, ssOpened = False, ssConfig = wRunConfig, ssCache = emptyIdentityCache, ssSent = []\<rparr>"
  let ?run = "prepareTransaction exampleDeps wNewRequest wResolve wEnv wOpen ?st"
  have "\<exists>v w'. withConnectorIdentityCacheLock ?st ?run exampleWorld = ((v, None), w') \<and> calm exampleDeps wDone w' \<and>
      (ssReleased v \<and> ssOpened v \<and> ssConfig v = wServed \<and> length (ssSent v) = 1)"
    by (rule calm_lock [OF example_calm]) (rule calm_prepare, simp_all)
  then obtain v w1 where 1: "withConnectorIdentityCacheLock ?st ?run exampleWorld = ((v, None), w1)"
      "calm exampleDeps wDone w1" "ssReleased v" "ssOpened v" "ssConfig v = wServed" "length (ssSent v) = 1" by blast
  have r: "validateConnectorRunRoutes wEnv wRunConfig = None"
    by (simp add: validateConnectorRunRoutes_def wRoutes RouteTypeHTTP_def routeIDWithFallback_def wSlug Let_def)
  have v: "Validate (kdCridValidate exampleDeps) wServed = None"
  proof -
    have "Validate (kdCridValidate exampleDeps) (wRunConfig\<lparr>cfRoutes := [boundRoute wBinding (hd (cfRoutes wRunConfig))]\<rparr>) = None"
      by code_simp
    moreover have "adminErrors (c\<lparr>cfKnockResourceIDs := m\<rparr>) = adminErrors c" for c :: Config and m
    proof -
      have "AdminBindLooksRoutable (c\<lparr>cfKnockResourceIDs := m\<rparr>) = AdminBindLooksRoutable c"
        by (simp add: AdminBindLooksRoutable_def)
      then show ?thesis by (simp add: adminErrors_def Let_def cong: if_cong)
    qed
    ultimately show ?thesis
      by (simp add: wServed_def SetKnockResourceID_def Validate_def validateConfig_def wRoute_def
        del: routeErrors.simps identityErrors.simps)
  qed
  show ?thesis
    using 1 r v by (simp add: prepareConnectorRun_def Let_def wRoutes(1) quiet_sys calm_faults [OF 1(2)] wServed_fields)
qed


lemma example_opens: "exactRequests wNewRequest" "opensApart wOpen" "honestFaults exampleWorld" "nonblankKnocks wRunConfig"
  by (simp_all add: exactRequests_def wNewRequest_def opensApart_def wOpen_def honestFaults_def exampleWorld_def nonblankKnocks_def
      wRoutes(7))

theorem requests_durable_before_dispatch_witness:
  "deps_ok exampleDeps \<and> exactRequests wNewRequest \<and> opensApart wOpen \<and> honestFaults exampleWorld \<and> nonblankKnocks wRunConfig \<and>
   (\<exists>st w'. prepareConnectorRun exampleDeps wNewRequest wResolve wEnv wOpen wRunConfig exampleWorld = (st, None, w') \<and>
      length (ssSent st) = 1 \<and> moved exampleDeps startStep exampleWorld w' \<and> list_all (sentDurable exampleDeps) (ssSent st))"
proof -
  obtain st w' where r: "prepareConnectorRun exampleDeps wNewRequest wResolve wEnv wOpen wRunConfig exampleWorld = (st, None, w')"
    "length (ssSent st) = 1" using example_start by blast
  then show ?thesis
    using requests_durable_before_dispatch [OF example_deps example_opens, where resolve = wResolve and env = wEnv] example_deps example_opens
    by auto
qed


end
