(* ===== verification/Connector_Remove_Witnesses.thy ===== *)
theory Connector_Remove_Witnesses
  imports Connector_Remove_Props Connector_Start_Witnesses
begin

text \<open>A removal on the start's example: a route that was never provisioned, and a client that reports a revoked resource.\<close>

definition wNoClient :: openClient where "wNoClient = (\<lambda>t. Inl (NewErr ''no client''))"

definition wRevoked :: openClient where
  "wRevoked = (\<lambda>t. Inr (Some (\<lparr>acGet = (\<lambda>crid t. Inl (Sentinel (Qurl ''ConnectorResourceRevoked''))),
     acGetBySlug = (\<lambda>i t. Inl (NewErr ''unavailable'')), acDelete = (\<lambda>crid t. None)\<rparr>, ''agent_1'')))"

definition wAccess :: connectorConfigAccess where
  "wAccess = \<lparr>caTransaction = True, caSnapshot = False, caWriteErr = None\<rparr>"

definition wOrigin :: "string \<Rightarrow> err option" where "wOrigin = (\<lambda>u. None)"

text \<open>The example's directory with the binding of the route.\<close>

definition wBoundWorld :: cacheWorld where
  "wBoundWorld = exampleWorld\<lparr>cwNs := \<lparr>nsFiles = [(connectorIdentityCacheFile, newFileOf (printValue (envelopeJSON wDone))),
     (connectorIdentityCacheLockFile, newFileOf []), (AgentStateFile, newFileOf [])], nsTrace = []\<rparr>\<rparr>"

lemma calm_worlds: "localFaults w \<and> honestFaults w" if "cwFaults w = (\<lambda>_. None)"
  using that by (simp add: localFaults_def honestFaults_def)

theorem removal_needs_proof_witness:
  "deps_ok exampleDeps \<and> localFaults wBoundWorld \<and> honestFaults wBoundWorld \<and>
   (case runRemove exampleDeps wEnv wOrigin wRevoked None ''web'' '''' wAccess wRunConfig wBoundWorld of (e, s, w') \<Rightarrow>
     (e \<noteq> None \<and> rmSaved s = [] \<and> moved exampleDeps (keepsBut {}) wBoundWorld w') \<or>
     (\<exists>c sel. cacheBefore exampleDeps True wBoundWorld c \<and>
       selectConnectorRemoval exampleDeps wEnv wRunConfig c ''web'' '''' = Inr sel \<and>
       serviceDone sel (rmCalls s) \<and> savedOnly sel wRunConfig (rmSaved s) \<and>
       moved exampleDeps (keepsBut (if slCRID sel \<noteq> '''' \<or> slPending sel then {slID sel} else {})) wBoundWorld w'))"
proof -
  have "cwFaults wBoundWorld = (\<lambda>_. None)" by (simp add: wBoundWorld_def exampleWorld_def)
  note f = calm_worlds [OF this]
  show ?thesis
    using removal_needs_proof [OF example_deps conjunct1 [OF f] conjunct2 [OF f], where env = wEnv and origin = wOrigin and
        openClient = wRevoked and stat = None and ident = "''web''" and crid = "''''" and access = wAccess and cfg = wRunConfig]
      example_deps f by simp
qed

lemma calm_remove:
  assumes "calm exampleDeps emptyIdentityCache u"
  shows "\<exists>v u'. removeTransaction exampleDeps wEnv wOrigin wNoClient True ''web'' ''''
      (wAccess, \<lparr>rvWorld = w, rvCache = emptyIdentityCache, rvConfig = wRunConfig, rvSent = [], rmCalls = [], rmSaved = []\<rparr>) u =
      ((v, None), u') \<and> calm exampleDeps emptyIdentityCache u' \<and> fst v = wAccess"
proof -
  let ?c = emptyIdentityCache
  have e: "icAgentID ?c = ''''" "icByID ?c = fmempty" "icPending ?c = fmempty" by (simp_all add: emptyIdentityCache_def)
  have "lookupFile (cwNs u) legacyConnectorIdentityFile = None" using assms(1) by (simp add: calm_def)
  then have 1: "rejectLegacyConnectorIdentityStateLocked u = (None, u\<lparr>cwTick := Suc (cwTick u)\<rparr>)"
    by (simp add: rejectLegacyConnectorIdentityStateLocked_def lstatEntry_def quiet_sys calm_faults [OF assms(1)])
  obtain w2 where 2: "loadConnectorIdentityCacheUnlocked exampleDeps (u\<lparr>cwTick := Suc (cwTick u)\<rparr>) = (Inr ?c, w2)" "calm exampleDeps ?c w2"
    using calm_load [OF calm_tick [OF assms(1)]] by blast
  obtain w3 where 3: "loadConnectorIdentityCacheUnlocked exampleDeps w2 = (Inr ?c, w3)" "calm exampleDeps ?c w3"
    using calm_load [OF 2(2)] by blast
  obtain w4 where 4: "validateConnectorIdentityCacheNamespace w3 = (None, w4)" "calm exampleDeps ?c w4"
    using calm_namespace [OF 3(2)] by blast
  have 5: "sys w4 = (None, w4\<lparr>cwTick := Suc (cwTick w4)\<rparr>)" by (simp add: quiet_sys calm_faults [OF 4(2)])
  have ens: "ensureConnectorIdentityCacheInitializedLocked exampleDeps u = (None, w2)"
    by (simp add: ensureConnectorIdentityCacheInitializedLocked_def 1 2 hasContinuityState_def e)
  have sel: "selectConnectorRemoval exampleDeps wEnv wRunConfig ?c ''web'' '''' =
      Inr \<lparr>slID = ''web'', slCRID = '''', slRoute = Some 0, slPending = False\<rparr>"
    by (simp add: selectConnectorRemoval_def wRoutes(1) wSlug routeIDWithFallback_def wRoutes cachedCRID_def isPending_def e
        keysOfMap_def sorted_list_of_fset.rep_eq List.map_filter_def chooseSelection_def Let_def)
  show ?thesis
    using 4(2) by (simp add: removeTransaction_def wAccess_def removeConnectorSelection_def loadForRemoval_def ens 3(1) sel
      finishRemoval_def commitRemoval_def 4(1) 5 onCache_def removeLocked_def e Let_def calm_tick)
qed

lemma example_remove:
  "\<exists>s w'. runRemove exampleDeps wEnv wOrigin wNoClient None ''web'' '''' wAccess wRunConfig exampleWorld = (None, s, w')"
proof -
  let ?s = "\<lparr>rvWorld = exampleWorld, rvCache = emptyIdentityCache, rvConfig = wRunConfig, rvSent = [], rmCalls = [], rmSaved = []\<rparr>"
  let ?fn = "removeTransaction exampleDeps wEnv wOrigin wNoClient True ''web'' '''' (wAccess, ?s)"
  have "\<exists>v w'. withConnectorIdentityCacheLock (wAccess, ?s) ?fn exampleWorld = ((v, None), w') \<and>
      calm exampleDeps emptyIdentityCache w' \<and> fst v = wAccess"
    by (rule calm_lock [OF example_calm]) (rule calm_remove)
  then obtain v w1 where 1: "withConnectorIdentityCacheLock (wAccess, ?s) ?fn exampleWorld = ((v, None), w1)"
      "calm exampleDeps emptyIdentityCache w1" "fst v = wAccess" by blast
  obtain s where v: "v = (wAccess, s)" using 1(3) by (metis prod.collapse)
  have "closeConfigAccess wAccess w1 = ((None, wAccess\<lparr>caTransaction := False, caSnapshot := False\<rparr>), w1\<lparr>cwTick := Suc (cwTick w1)\<rparr>)"
    by (simp add: closeConfigAccess_def wAccess_def quiet_sys calm_faults [OF 1(2)])
  then show ?thesis using 1(1) v by (simp add: runRemove_def Let_def withRemoveConnectorIdentityCache_def)
qed

theorem removal_completes_witness:
  "\<exists>s w'. runRemove exampleDeps wEnv wOrigin wNoClient None ''web'' '''' wAccess wRunConfig exampleWorld = (None, s, w') \<and>
    (\<exists>c sel. cacheBefore exampleDeps True exampleWorld c \<and>
      selectConnectorRemoval exampleDeps wEnv wRunConfig c ''web'' '''' = Inr sel \<and>
      slID sel = ''web'' \<and> savedAll sel wRunConfig (rmSaved s) \<and> identityGone exampleDeps ''web'' w')"
proof -
  obtain s w' where r: "runRemove exampleDeps wEnv wOrigin wNoClient None ''web'' '''' wAccess wRunConfig exampleWorld = (None, s, w')"
    using example_remove by blast
  have "cwFaults exampleWorld = (\<lambda>_. None)" by (simp add: exampleWorld_def)
  note f = calm_worlds [OF this]
  from removal_completes [OF example_deps conjunct1 [OF f] conjunct2 [OF f] r] show ?thesis using r by fastforce
qed

end
