(* ===== verification/Ready.thy ===== *)
theory Ready
  imports Prelude
begin

text \<open>
  The foreground readiness announcement (\<open>cmd/frpc/ready.go\<close>). Each method runs under the announcer's mutex, so
  it is one step. \<open>raOut\<close> holds what was printed, as the data of each line; its wording and colours are left out.
  \<open>raFallback\<close> says that \<open>fallback\<close> is set and \<open>raTimer\<close> that the timer is running.
\<close>

record readyRoute =
  rrID :: string
  rrTarget :: string

datatype readyLine =
    ReadyBlock "readyRoute list" "readyRoute list"   \<comment> \<open>the block: live and outstanding routes\<close>
  | NowLive string string                           \<comment> \<open>the id and target of a route named outstanding\<close>
  | NowRetired string

record readyAnnouncer =
  raRoutes :: "readyRoute list"
  raServing :: "string set"
  raRetired :: "string set"
  raAnnounced :: bool
  raWaiting :: "string set"
  raFallback :: bool
  raTimer :: bool
  raStopped :: bool
  raProbe :: bool          \<comment> \<open>\<open>live\<close> is set\<close>
  raOut :: "readyLine list"

definition newReadyAnnouncer :: "readyRoute list \<Rightarrow> readyAnnouncer" where
  "newReadyAnnouncer routes = \<lparr>raRoutes = routes, raServing = {}, raRetired = {}, raAnnounced = False, raWaiting = {},
     raFallback = False, raTimer = False, raStopped = False, raProbe = False, raOut = []\<rparr>"

text \<open>\<open>index\<close>: the last route of an id.\<close>

definition readyIndex :: "readyAnnouncer \<Rightarrow> string \<Rightarrow> readyRoute option" where
  "readyIndex a i = List.find (\<lambda>r. rrID r = i) (rev (raRoutes a))"

definition sessionPromoted :: "readyAnnouncer \<Rightarrow> readyAnnouncer" where
  "sessionPromoted a =
     (let a = a\<lparr>raServing := {}\<rparr> in
      if raAnnounced a \<or> raStopped a \<or> raFallback a then a else a\<lparr>raFallback := True, raTimer := True\<rparr>)"

definition setLiveProbe :: "readyAnnouncer \<Rightarrow> readyAnnouncer" where
  "setLiveProbe a = a\<lparr>raProbe := True\<rparr>"

definition stopReady :: "readyAnnouncer \<Rightarrow> readyAnnouncer" where
  "stopReady a = (let a = a\<lparr>raStopped := True\<rparr> in if raFallback a then a\<lparr>raTimer := False\<rparr> else a)"

definition partitionLocked :: "readyAnnouncer \<Rightarrow> readyRoute list \<times> readyRoute list" where
  "partitionLocked a =
     (filter (\<lambda>r. rrID r \<in> raServing a) (raRoutes a),
      filter (\<lambda>r. rrID r \<notin> raServing a \<and> rrID r \<notin> raRetired a) (raRoutes a))"

definition narrateLocked :: "string \<Rightarrow> bool \<Rightarrow> readyAnnouncer \<Rightarrow> readyAnnouncer" where
  "narrateLocked i live a =
     (if i \<notin> raWaiting a then a
      else (let a = a\<lparr>raWaiting := raWaiting a - {i}\<rparr> in
        a\<lparr>raOut := raOut a @ [if live then NowLive i (case readyIndex a i of Some r \<Rightarrow> rrTarget r | None \<Rightarrow> '''')
            else NowRetired i]\<rparr>))"

definition printLocked :: "readyRoute list \<Rightarrow> readyRoute list \<Rightarrow> readyAnnouncer \<Rightarrow> readyAnnouncer" where
  "printLocked live outstanding a =
     (let a = a\<lparr>raAnnounced := True\<rparr>;
          a = (if raFallback a then a\<lparr>raTimer := False\<rparr> else a)
      in a\<lparr>raWaiting := raWaiting a \<union> set (map rrID outstanding), raOut := raOut a @ [ReadyBlock live outstanding]\<rparr>)"

definition announceIfCompleteLocked :: "readyAnnouncer \<Rightarrow> readyAnnouncer" where
  "announceIfCompleteLocked a =
     (if raAnnounced a then a
      else (case partitionLocked a of (live, outstanding) \<Rightarrow>
        if live = [] \<or> outstanding \<noteq> [] then a else printLocked live [] a))"

definition routeServing :: "string \<Rightarrow> readyAnnouncer \<Rightarrow> readyAnnouncer" where
  "routeServing i a =
     (if readyIndex a i = None then a
      else if i \<in> raRetired a then a
      else (let a = a\<lparr>raServing := insert i (raServing a)\<rparr> in
        if raAnnounced a then narrateLocked i True a else announceIfCompleteLocked a))"

definition routeRetired :: "string \<Rightarrow> readyAnnouncer \<Rightarrow> bool \<times> readyAnnouncer" where
  "routeRetired i a =
     (if readyIndex a i = None then (False, a)
      else if i \<in> raRetired a then (False, a)
      else (let a = a\<lparr>raRetired := insert i (raRetired a), raServing := raServing a - {i}\<rparr> in
        (True, if raAnnounced a then narrateLocked i False a else announceIfCompleteLocked a)))"

text \<open>\<open>probe\<close> is the answer of \<open>live\<close>, where it is set.\<close>

definition announceOutstanding :: "string list \<Rightarrow> readyAnnouncer \<Rightarrow> readyAnnouncer" where
  "announceOutstanding probe a =
     (if raAnnounced a \<or> raStopped a then a
      else
        (let a = (if raProbe a then
               a\<lparr>raServing := {i \<in> set probe. readyIndex a i \<noteq> None \<and> i \<notin> raRetired a}\<rparr>
             else a) in
         case partitionLocked a of (live, outstanding) \<Rightarrow>
           if live = [] then a\<lparr>raFallback := True, raTimer := True\<rparr> else printLocked live outstanding a))"

section \<open>Runs\<close>

text \<open>
  Calls of the methods in any order. The timer's callback starts when the timer is running; one that had started
  when the timer was stopped finds the announcer stopped or the block printed.
\<close>

inductive readyStep :: "readyAnnouncer \<Rightarrow> readyAnnouncer \<Rightarrow> bool" where
  promoted: "readyStep a (sessionPromoted a)"
| probe: "readyStep a (setLiveProbe a)"
| stop: "readyStep a (stopReady a)"
| serving: "readyStep a (routeServing i a)"
| retired: "readyStep a (snd (routeRetired i a))"
| fires: "raTimer a \<Longrightarrow> readyStep a (announceOutstanding live (a\<lparr>raTimer := False\<rparr>))"
| late: "raAnnounced a \<or> raStopped a \<Longrightarrow> readyStep a (announceOutstanding live a)"

section \<open>What is printed\<close>

definition followUps :: "readyLine list \<Rightarrow> string list" where
  "followUps ls = concat (map (\<lambda>l. case l of ReadyBlock _ _ \<Rightarrow> [] | NowLive i _ \<Rightarrow> [i] | NowRetired i \<Rightarrow> [i]) ls)"

definition isBlock :: "readyLine \<Rightarrow> bool" where
  "isBlock l = (case l of ReadyBlock _ _ \<Rightarrow> True | _ \<Rightarrow> False)"

lemma followUps_simps [simp]:
  "followUps [] = []" "followUps (xs @ ys) = followUps xs @ followUps ys"
  "followUps [NowLive i t] = [i]" "followUps [NowRetired i] = [i]" "\<not> isBlock (NowLive i t)" "\<not> isBlock (NowRetired i)"
  "isBlock (ReadyBlock us vs)"
  by (simp_all add: followUps_def isBlock_def)

text \<open>Nothing, or one block and then at most one line for each route it named outstanding.\<close>

definition printedOK :: "readyAnnouncer \<Rightarrow> bool" where
  "printedOK a = (case raOut a of
      [] \<Rightarrow> \<not> raAnnounced a \<and> raWaiting a = {}
    | line # rest \<Rightarrow> raAnnounced a \<and> (case line of
          ReadyBlock live outstanding \<Rightarrow>
            live \<noteq> [] \<and> set live \<subseteq> set (raRoutes a) \<and> set outstanding \<subseteq> set (raRoutes a) \<and>
            rrID ` set live \<inter> rrID ` set outstanding = {} \<and>
            list_all (\<lambda>l. \<not> isBlock l) rest \<and> distinct (followUps rest) \<and>
            set (followUps rest) \<union> raWaiting a = rrID ` set outstanding \<and> set (followUps rest) \<inter> raWaiting a = {}
        | _ \<Rightarrow> False))"

definition readyInv :: "readyAnnouncer \<Rightarrow> bool" where
  "readyInv a = (printedOK a \<and> raServing a \<inter> raRetired a = {} \<and>
     raServing a \<union> raRetired a \<subseteq> rrID ` set (raRoutes a) \<and>
     (raFallback a \<and> \<not> raAnnounced a \<and> \<not> raStopped a \<longrightarrow> raTimer a))"

lemma index_known: "readyIndex a i \<noteq> None \<Longrightarrow> i \<in> rrID ` set (raRoutes a)"
  unfolding readyIndex_def find_None_iff by auto

lemma index_cong [simp]:
  "readyIndex (a\<lparr>raServing := s\<rparr>) i = readyIndex a i" "readyIndex (a\<lparr>raRetired := s\<rparr>) i = readyIndex a i"
  "readyIndex (a\<lparr>raWaiting := s\<rparr>) i = readyIndex a i" "readyIndex (a\<lparr>raTimer := b\<rparr>) i = readyIndex a i"
  by (simp_all add: readyIndex_def)

lemma printed_cong:
  "raOut b = raOut a \<Longrightarrow> raAnnounced b = raAnnounced a \<Longrightarrow> raWaiting b = raWaiting a \<Longrightarrow> raRoutes b = raRoutes a \<Longrightarrow>
   printedOK b = printedOK a"
  by (simp add: printedOK_def split: list.split readyLine.split)

lemma narrate_inv:
  assumes "readyInv a" "raAnnounced a"
  shows "readyInv (narrateLocked i live a)"
proof (cases "i \<in> raWaiting a")
  case False
  then show ?thesis using assms by (simp add: narrateLocked_def)
next
  case True
  obtain lv out rest where o: "raOut a = ReadyBlock lv out # rest"
    using assms by (auto simp: readyInv_def printedOK_def split: list.splits readyLine.splits)
  have "printedOK a" using assms(1) by (simp add: readyInv_def)
  then have p: "lv \<noteq> []" "set lv \<subseteq> set (raRoutes a)" "set out \<subseteq> set (raRoutes a)" "rrID ` set lv \<inter> rrID ` set out = {}"
    "list_all (\<lambda>l. \<not> isBlock l) rest" "distinct (followUps rest)"
    "set (followUps rest) \<union> raWaiting a = rrID ` set out" "set (followUps rest) \<inter> raWaiting a = {}"
    by (simp_all add: printedOK_def o)
  define line where "line = (if live then NowLive i (case readyIndex a i of Some r \<Rightarrow> rrTarget r | None \<Rightarrow> '''') else NowRetired i)"
  have f: "followUps [line] = [i]" "\<not> isBlock line" by (simp_all add: line_def)
  have n: "narrateLocked i live a = a\<lparr>raWaiting := raWaiting a - {i}, raOut := raOut a @ [line]\<rparr>"
    using True by (simp add: narrateLocked_def Let_def line_def)
  have "i \<notin> set (followUps rest)" using p(8) True by blast
  moreover have "insert i (set (followUps rest)) \<union> (raWaiting a - {i}) = rrID ` set out" using p(7) True by blast
  moreover have "insert i (set (followUps rest)) \<inter> (raWaiting a - {i}) = {}" using p(8) by blast
  ultimately have "printedOK (narrateLocked i live a)"
    unfolding n using p(1-6) f assms(2) by (simp add: printedOK_def o)
  then show ?thesis using assms(1) n by (simp add: readyInv_def)
qed

lemma print_inv:
  assumes "printedOK a" "\<not> raAnnounced a" "partitionLocked a = (live, outstanding)" "live \<noteq> []"
    "raServing a \<inter> raRetired a = {}" "raServing a \<union> raRetired a \<subseteq> rrID ` set (raRoutes a)"
  shows "readyInv (printLocked live outstanding a)"
proof -
  have "raOut a = [] \<and> raWaiting a = {}"
    using assms(1,2) by (auto simp: printedOK_def split: list.splits)
  moreover have "set live \<subseteq> set (raRoutes a)" "set outstanding \<subseteq> set (raRoutes a)" "rrID ` set live \<inter> rrID ` set outstanding = {}"
    using assms(3) by (auto simp: partitionLocked_def)
  ultimately have "printedOK (printLocked live outstanding a)"
    using assms(4) by (simp add: printedOK_def printLocked_def Let_def)
  then show ?thesis using assms(5,6) by (simp add: readyInv_def printLocked_def Let_def)
qed

lemma complete_inv:
  assumes "readyInv a"
  shows "readyInv (announceIfCompleteLocked a)"
proof -
  obtain live outstanding where p: "partitionLocked a = (live, outstanding)" by fastforce
  show ?thesis
    using assms print_inv [OF _ _ p] unfolding announceIfCompleteLocked_def p prod.case readyInv_def by auto
qed

lemma outstanding_inv:
  assumes "readyInv (a\<lparr>raTimer := True\<rparr>)"
  shows "raAnnounced a \<or> raStopped a \<Longrightarrow> readyInv a" "readyInv (announceOutstanding probe a)"
proof -
  show base: "readyInv a" if "raAnnounced a \<or> raStopped a"
    using assms that printed_cong [of "a\<lparr>raTimer := True\<rparr>" a] by (auto simp: readyInv_def)
  show "readyInv (announceOutstanding probe a)"
  proof (cases "raAnnounced a \<or> raStopped a")
    case True
    then show ?thesis using base by (simp add: announceOutstanding_def)
  next
    case False
    define b where "b = (if raProbe a then a\<lparr>raServing := {i \<in> set probe. readyIndex a i \<noteq> None \<and> i \<notin> raRetired a}\<rparr> else a)"
    obtain live outstanding where p: "partitionLocked b = (live, outstanding)" by fastforce
    have r: "announceOutstanding probe a = (if live = [] then b\<lparr>raFallback := True, raTimer := True\<rparr> else printLocked live outstanding b)"
      using False p by (simp add: announceOutstanding_def b_def [symmetric])
    have pr: "printedOK a" using assms printed_cong [of "a\<lparr>raTimer := True\<rparr>" a] by (simp add: readyInv_def)
    then have pb: "printedOK b" using printed_cong [of b a] by (simp add: b_def)
    have sets: "raServing b \<inter> raRetired b = {}" "raServing b \<union> raRetired b \<subseteq> rrID ` set (raRoutes b)"
      using assms index_known [of a] by (auto simp: b_def readyInv_def)
    have "readyInv (b\<lparr>raTimer := True\<rparr>)"
      using sets printed_cong [of "b\<lparr>raTimer := True\<rparr>" b] pb by (simp add: readyInv_def)
    moreover have "readyInv (b\<lparr>raFallback := True, raTimer := True\<rparr>)"
      using sets printed_cong [of "b\<lparr>raFallback := True, raTimer := True\<rparr>" b] pb by (simp add: readyInv_def)
    moreover have "readyInv (printLocked live outstanding b)" if "live \<noteq> []"
      using print_inv [OF pb _ p that sets] False by (simp add: b_def)
    ultimately show ?thesis unfolding r by simp
  qed
qed

lemma step_inv:
  assumes "readyStep a b" "readyInv a"
  shows "readyInv b"
  using assms
proof cases
  case promoted
  then show ?thesis using assms(2) printed_cong [of b a] by (auto simp: readyInv_def sessionPromoted_def Let_def)
next
  case probe
  then show ?thesis using assms(2) printed_cong [of b a] by (auto simp: readyInv_def setLiveProbe_def)
next
  case stop
  then show ?thesis using assms(2) printed_cong [of b a] by (auto simp: readyInv_def stopReady_def Let_def)
next
  case (serving i)
  let ?a = "a\<lparr>raServing := insert i (raServing a)\<rparr>"
  have "readyInv ?a" if "readyIndex a i \<noteq> None" "i \<notin> raRetired a"
    using assms(2) that index_known [OF that(1)] printed_cong [of ?a a] by (auto simp: readyInv_def)
  then show ?thesis
    using assms(2) narrate_inv [of ?a] complete_inv [of ?a] serving by (auto simp: routeServing_def Let_def)
next
  case (retired i)
  let ?a = "a\<lparr>raRetired := insert i (raRetired a), raServing := raServing a - {i}\<rparr>"
  have "readyInv ?a" if "readyIndex a i \<noteq> None"
    using assms(2) index_known [OF that] printed_cong [of ?a a] by (auto simp: readyInv_def)
  then show ?thesis
    using assms(2) narrate_inv [of ?a] complete_inv [of ?a] retired by (auto simp: routeRetired_def Let_def)
next
  case (fires live)
  have "readyInv (a\<lparr>raTimer := False\<rparr>\<lparr>raTimer := True\<rparr>)"
    using assms(2) printed_cong [of "a\<lparr>raTimer := True\<rparr>" a] by (simp add: readyInv_def)
  from outstanding_inv(2) [OF this] show ?thesis using fires by blast
next
  case (late live)
  then show ?thesis using assms(2) by (simp add: announceOutstanding_def)
qed

text \<open>What one step prints.\<close>

definition linesOK :: "readyAnnouncer \<Rightarrow> readyAnnouncer \<Rightarrow> bool" where
  "linesOK a b = (raOut b = raOut a \<or> (\<exists>line. raOut b = raOut a @ [line] \<and> (case line of
      ReadyBlock live outstanding \<Rightarrow> partitionLocked b = (live, outstanding) \<and> live \<noteq> [] \<and> \<not> raAnnounced a
    | NowLive i _ \<Rightarrow> i \<in> raWaiting a \<and> i \<in> raServing b
    | NowRetired i \<Rightarrow> i \<in> raWaiting a \<and> i \<in> raRetired b)))"

lemma print_lines:
  "partitionLocked a = (live, outstanding) \<Longrightarrow> live \<noteq> [] \<Longrightarrow> \<not> raAnnounced a \<Longrightarrow> linesOK a (printLocked live outstanding a)"
  by (simp add: linesOK_def printLocked_def Let_def partitionLocked_def)

lemma step_lines:
  assumes "readyStep a b"
  shows "linesOK a b"
  using assms
proof cases
  case (serving i)
  then show ?thesis
    by (auto simp: linesOK_def routeServing_def Let_def narrateLocked_def announceIfCompleteLocked_def partitionLocked_def
        printLocked_def)
next
  case (retired i)
  then show ?thesis
    by (auto simp: linesOK_def routeRetired_def Let_def narrateLocked_def announceIfCompleteLocked_def partitionLocked_def
        printLocked_def)
next
  case (fires live)
  then show ?thesis
    by (auto simp: linesOK_def announceOutstanding_def partitionLocked_def printLocked_def Let_def)
next
  case (late live)
  then show ?thesis by (auto simp: linesOK_def announceOutstanding_def)
qed (auto simp: linesOK_def sessionPromoted_def setLiveProbe_def stopReady_def Let_def)

lemma ready_reach: "readyStep\<^sup>*\<^sup>* a b \<Longrightarrow> readyInv a \<Longrightarrow> readyInv b"
  by (induction rule: rtranclp_induct) (use step_inv in blast)+

lemma ready_new: "readyInv (newReadyAnnouncer routes)"
  by (simp add: readyInv_def printedOK_def newReadyAnnouncer_def)



end
