(* ===== verification/Shared_Service.thy ===== *)
theory Shared_Service
  imports Group_Run Ready Identity_Resolve
begin

text \<open>
  The shared service of \<open>run\<close> (\<open>cmd/frpc/run.go\<close>, \<open>runSharedService\<close> and what it calls): the group runner for the
  routes that are left, the callbacks it gets, the ledger of retired routes, and the loop that re-admits the rest
  under the next route.

  One run of a group is the operation \<open>runGroup\<close> of the runner and the number of the cycle: the callbacks it made
  (the calls of \<open>Group_Run\<close>) with the firings of the ready timer between them, its error, and whether the context
  had ended. \<open>svAudit\<close> is the audit stream and \<open>svStarted\<close> records every runner made, with the ledger at that
  moment; the code keeps no such list. Log lines are left out, and so is \<open>MarkServingHealthy\<close>, which \<open>OnServing\<close> calls
  on the admitter (\<open>Admitter\<close> models it) and whose failure is only logged.
\<close>

section \<open>The ledger\<close>

record sharedRouteLedger =
  lgRetired :: "string set"
  lgOrder :: "string list"

definition ledgerRetire :: "string \<Rightarrow> sharedRouteLedger \<Rightarrow> bool \<times> sharedRouteLedger" where
  "ledgerRetire i l =
     (if i \<in> lgRetired l then (False, l)
      else (True, l\<lparr>lgRetired := insert i (lgRetired l), lgOrder := lgOrder l @ [i]\<rparr>))"

definition withoutRoutes :: "ConfigRoute list \<Rightarrow> string list \<Rightarrow> ConfigRoute list" where
  "withoutRoutes routes ids = filter (\<lambda>r. roID r \<notin> set ids) routes"

definition splitPrimaryRoute :: "Config \<Rightarrow> (ConfigRoute \<times> ConfigRoute list) option" where
  "splitPrimaryRoute cfg =
     (if PrimaryResourceID cfg = '''' then None
      else (case find_index (\<lambda>r. roResourcePublicKey r = PrimaryResourceID cfg) (cfRoutes cfg) of
          None \<Rightarrow> None
        | Some i \<Rightarrow> Some (cfRoutes cfg ! i, take i (cfRoutes cfg) @ drop (Suc i) (cfRoutes cfg))))"

definition allRoutesRetiredError :: "err \<Rightarrow> err" where
  "allRoutesRetiredError e = Errorf ''every configured route was retired as permanently unavailable'' e"

section \<open>The service\<close>

record denyEntry =
  deReason :: string
  deRoute :: string
  deResource :: string

record startedGroup =
  sgRetired :: "string list"
  sgConfig :: groupConfig
  sgRoutes :: "LocalHTTPRoute list"

record serviceState =
  svLedger :: sharedRouteLedger
  svReady :: readyAnnouncer
  svAudit :: "denyEntry list"
  svStarted :: "startedGroup list"

definition retireSharedRoute :: "string \<Rightarrow> string \<Rightarrow> string \<Rightarrow> serviceState \<Rightarrow> serviceState" where
  "retireSharedRoute i resourceID reason s = (case ledgerRetire i (svLedger s) of
      (False, _) \<Rightarrow> s
    | (True, l) \<Rightarrow> s\<lparr>svLedger := l,
        svAudit := svAudit s @ [\<lparr>deReason = reason, deRoute = i, deResource = resourceID\<rparr>],
        svReady := snd (routeRetired i (svReady s))\<rparr>)"

definition localRoute :: "ConfigRoute \<Rightarrow> LocalHTTPRoute" where
  "localRoute r = \<lparr>RouteID = roID r, LocalIP = roLocalIP r, LocalPort = roLocalPort r, LocalSocketPath = '''',
     LocalPipeName = '''', ResourcePublicKey = roResourcePublicKey r, ConnectorRoutingID = roConnectorRoutingID r,
     RequestHeaders = fmempty\<rparr>"

text \<open>The loop over the routes.\<close>

fun sharedRoutes :: "(string \<Rightarrow> string option) \<Rightarrow> Config \<Rightarrow> string \<Rightarrow> ConfigRoute list \<Rightarrow> LocalHTTPRoute list res" where
  "sharedRoutes env cfg knock [] = Inr []"
| "sharedRoutes env cfg knock (r # rs) =
     (let routeKnock = knockResourceIDOrEmpty env cfg (roResourcePublicKey r) in
      if routeKnock = '''' then Inl (NewErr ''missing NHP knock resource'')
      else if routeKnock \<noteq> knock then Inl (NewErr ''one FRP control session cannot span NHP admission targets'')
      else (case sharedRoutes env cfg knock rs of Inl x \<Rightarrow> Inl x | Inr ls \<Rightarrow> Inr (localRoute r # ls)))"

definition sharedGroupConfig :: "string \<Rightarrow> string \<Rightarrow> groupConfig" where
  "sharedGroupConfig knock resourceID =
     \<lparr>gcKnockResourceID = knock, gcResourcePublicKey = resourceID, gcHasAdmitter = True, gcHasSessions = True,
      gcMinBackoff = 0, gcMaxBackoff = 0, gcRotationLead = 0, gcStopTimeout = 0, gcOnServing = True,
      gcOnRouteServing = True, gcOnRouteFailed = True, gcOnLeadCapped = True\<rparr>"

text \<open>The platform, the header rules and the factory's validator, as the group runner takes them.\<close>

type_synonym groupRules = "bool \<times> httpRules \<times> (LocalHTTPRoute list \<Rightarrow> err option) option"

definition newSharedServiceRunner ::
  "groupRules \<Rightarrow> (string \<Rightarrow> string option) \<Rightarrow> Config \<Rightarrow> (groupConfig \<times> runner \<times> LocalHTTPRoute list) res" where
  "newSharedServiceRunner rules env cfg = (case rules of (windows, h, validator) \<Rightarrow>
     if cfRoutes cfg = [] then Inl (NewErr ''shared Connector runtime requires at least one resource'')
     else (let resourceID = PrimaryResourceID cfg; knock = knockResourceIDOrEmpty env cfg resourceID in
       if resourceID = '''' then Inl (NewErr ''shared Connector runtime has no resolved primary resource'')
       else if knock = '''' then Inl (NewErr ''missing NHP knock resource'')
       else (case sharedRoutes env cfg knock (cfRoutes cfg) of
           Inl x \<Rightarrow> Inl x
         | Inr routes \<Rightarrow> (case NewSessionGroupRunner windows h validator (sharedGroupConfig knock resourceID) routes of
             Inl x \<Rightarrow> Inl x
           | Inr (g, runner) \<Rightarrow> Inr (g, runner, routes)))))"

section \<open>Callbacks\<close>

text \<open>The ready timer fires only while it runs.\<close>

datatype serviceEvent = GroupCall call | ReadyTimer "string list"

text \<open>\<open>resourceIDs[routeID]\<close>: of the last route of that id, empty for none.\<close>

definition resourceOf :: "Config \<Rightarrow> string \<Rightarrow> string" where
  "resourceOf cfg i = (case List.find (\<lambda>r. roID r = i) (rev (cfRoutes cfg)) of
      Some r \<Rightarrow> roResourcePublicKey r
    | None \<Rightarrow> '''')"

fun onServiceEvent :: "Config \<Rightarrow> serviceEvent \<Rightarrow> serviceState \<Rightarrow> serviceState" where
  "onServiceEvent cfg (GroupCall (CServing a)) s = s\<lparr>svReady := sessionPromoted (svReady s)\<rparr>"
| "onServiceEvent cfg (GroupCall (CRouteServing i a)) s = s\<lparr>svReady := routeServing i (svReady s)\<rparr>"
| "onServiceEvent cfg (GroupCall (CRouteFailed i e)) s =
     (if errorsIs e SResourceGone then retireSharedRoute i (resourceOf cfg i) ''resource_not_found'' s else s)"
| "onServiceEvent cfg (GroupCall _) s = s"
| "onServiceEvent cfg (ReadyTimer live) s =
     (if raTimer (svReady s) then s\<lparr>svReady := announceOutstanding live ((svReady s)\<lparr>raTimer := False\<rparr>)\<rparr> else s)"

record groupRun =
  seEvents :: "serviceEvent list"
  seErr :: "err option"
  seCancelled :: bool

type_synonym runGroup = "groupConfig \<times> runner \<Rightarrow> nat \<Rightarrow> groupRun"

definition isErr :: "err option \<Rightarrow> sentinel \<Rightarrow> bool" where
  "isErr e s = (case e of None \<Rightarrow> False | Some x \<Rightarrow> errorsIs x s)"

section \<open>The loop\<close>

text \<open>The live probe, the run and its callbacks.\<close>

definition afterRun :: "Config \<Rightarrow> groupConfig \<Rightarrow> LocalHTTPRoute list \<Rightarrow> groupRun \<Rightarrow> serviceState \<Rightarrow> serviceState" where
  "afterRun cfg g routes run s = fold (onServiceEvent cfg) (seEvents run) (s\<lparr>svReady := setLiveProbe (svReady s),
     svStarted := svStarted s @ [\<lparr>sgRetired = lgOrder (svLedger s), sgConfig = g, sgRoutes = routes\<rparr>]\<rparr>)"

text \<open>One pass: Inl returns, Inr goes on with the routes that are left.\<close>

definition serviceCycle ::
  "groupRules \<Rightarrow> (string \<Rightarrow> string option) \<Rightarrow> runGroup \<Rightarrow> nat \<Rightarrow> Config \<Rightarrow> serviceState \<Rightarrow>
   (err option \<times> serviceState) + (Config \<times> serviceState)" where
  "serviceCycle rules env runGroup i cfg s = (case newSharedServiceRunner rules env cfg of
      Inl x \<Rightarrow> Inl (Some x, s)
    | Inr (g, runner, routes) \<Rightarrow>
        (let run = runGroup (g, runner) i;
             s = afterRun cfg g routes run s;
             e = seErr run
         in if isErr e SGroupEmpty then Inl (map_option allRoutesRetiredError e, s)
            else if \<not> isErr e SResourceGone \<or> seCancelled run then Inl (e, s)
            else (case splitPrimaryRoute cfg of
                None \<Rightarrow> Inl (e, s)
              | Some (primary, rest) \<Rightarrow>
                  (let s = retireSharedRoute (roID primary) (roResourcePublicKey primary) ''admission_resource_gone'' s;
                       rest = withoutRoutes rest (lgOrder (svLedger s))
                   in if rest = [] then Inl (map_option allRoutesRetiredError e, s)
                      else Inr (cfg\<lparr>cfRoutes := rest\<rparr>, s)))))"

lemma split_shorter: "splitPrimaryRoute cfg = Some (p, rest) \<Longrightarrow> Suc (length rest) = length (cfRoutes cfg)"
  by (auto simp: splitPrimaryRoute_def split: if_splits option.splits dest: find_index_Some)

lemma cycle_next:
  assumes "serviceCycle rules env runGroup i cfg s = Inr (cfg', s')"
  obtains g runner routes p rest where "newSharedServiceRunner rules env cfg = Inr (g, runner, routes)"
    "splitPrimaryRoute cfg = Some (p, rest)"
    "s' = retireSharedRoute (roID p) (roResourcePublicKey p) ''admission_resource_gone''
       (afterRun cfg g routes (runGroup (g, runner) i) s)"
    "cfg' = cfg\<lparr>cfRoutes := withoutRoutes rest (lgOrder (svLedger s'))\<rparr>" "cfRoutes cfg' \<noteq> []"
    "isErr (seErr (runGroup (g, runner) i)) SResourceGone"
  using assms unfolding serviceCycle_def Let_def
  by (auto split: sum.splits prod.splits if_splits option.splits)

lemma cycle_shorter:
  assumes "serviceCycle rules env runGroup i cfg s = Inr (cfg', s')"
  shows "length (cfRoutes cfg') < length (cfRoutes cfg)"
  using assms
proof (rule cycle_next)
  fix p :: ConfigRoute and rest
  assume "splitPrimaryRoute cfg = Some (p, rest)" "cfg' = cfg\<lparr>cfRoutes := withoutRoutes rest (lgOrder (svLedger s'))\<rparr>"
  then have "cfRoutes cfg' = withoutRoutes rest (lgOrder (svLedger s'))" "length rest < length (cfRoutes cfg)"
    using split_shorter [of cfg p rest] by simp_all
  then show ?thesis using le_less_trans [OF length_filter_le] by (simp add: withoutRoutes_def)
qed

function sharedLoop ::
  "groupRules \<Rightarrow> (string \<Rightarrow> string option) \<Rightarrow> runGroup \<Rightarrow> nat \<Rightarrow> Config \<Rightarrow> serviceState \<Rightarrow> err option \<times> serviceState" where
  "sharedLoop rules env runGroup i cfg s = (case serviceCycle rules env runGroup i cfg s of
      Inl r \<Rightarrow> r
    | Inr (cfg', s') \<Rightarrow> sharedLoop rules env runGroup (Suc i) cfg' s')"
  by pat_completeness auto
termination
  by (relation "measure (\<lambda>(_, _, _, _, cfg, _). length (cfRoutes cfg))") (auto dest: cycle_shorter)

declare sharedLoop.simps [simp del]

text \<open>\<open>runSharedService\<close>; the announcer is stopped on return.\<close>

definition runSharedService ::
  "groupRules \<Rightarrow> (string \<Rightarrow> string option) \<Rightarrow> runGroup \<Rightarrow> Config \<Rightarrow> readyAnnouncer \<Rightarrow> err option \<times> serviceState" where
  "runSharedService rules env runGroup cfg announcer =
     (case sharedLoop rules env runGroup 0 cfg
         \<lparr>svLedger = \<lparr>lgRetired = {}, lgOrder = []\<rparr>, svReady = announcer, svAudit = [], svStarted = []\<rparr> of
        (e, s) \<Rightarrow> (e, s\<lparr>svReady := stopReady (svReady s)\<rparr>))"

text \<open>\<open>net.JoinHostPort\<close>.\<close>

definition joinHostPort :: "string \<Rightarrow> int \<Rightarrow> string" where
  "joinHostPort host port =
     (if CHR '':'' \<in> set host then ''['' @ host @ '']:'' @ fmtInt port else host @ '':'' @ fmtInt port)"

definition readyRoutes :: "Config \<Rightarrow> readyRoute list" where
  "readyRoutes cfg =
     map (\<lambda>r. \<lparr>rrID = roID r, rrTarget = joinHostPort (roLocalIP r) (roLocalPort r)\<rparr>) (cfRoutes cfg)"

text \<open>\<open>startSharedService\<close>, with the factory and the announcer made before the loop; the factory's checks are \<open>factory\<close>.\<close>

definition startSharedService ::
  "err option \<Rightarrow> groupRules \<Rightarrow> (string \<Rightarrow> string option) \<Rightarrow> runGroup \<Rightarrow> Config \<Rightarrow> err option \<times> serviceState option" where
  "startSharedService factory rules env runGroup cfg = (case factory of
      Some x \<Rightarrow> (Some x, None)
    | None \<Rightarrow> (case runSharedService rules env runGroup cfg (newReadyAnnouncer (readyRoutes cfg)) of
        (e, s) \<Rightarrow> (e, Some s)))"

end
