(* ===== verification/Shared_Service_Props.thy ===== *)
theory Shared_Service_Props
  imports Shared_Service "HOL-Library.Sublist"
begin

text \<open>
  The shared service: each route is retired once and never admitted again, every group admits one resource for
  routes of one knock resource, and the loop ends after at most one group for each route.
\<close>

section \<open>The ledger, the audit stream and the announcer agree\<close>

definition agree :: "serviceState \<Rightarrow> bool" where
  "agree s = (lgRetired (svLedger s) = set (lgOrder (svLedger s)) \<and> distinct (lgOrder (svLedger s)) \<and>
     map deRoute (svAudit s) = lgOrder (svLedger s) \<and> readyInv (svReady s) \<and>
     raRetired (svReady s) = {i \<in> lgRetired (svLedger s). readyIndex (svReady s) i \<noteq> None})"

text \<open>What a step of the service keeps.\<close>

definition grows :: "serviceState \<Rightarrow> serviceState \<Rightarrow> bool" where
  "grows s s' = (prefix (lgOrder (svLedger s)) (lgOrder (svLedger s')) \<and> svStarted s' = svStarted s \<and>
     raRoutes (svReady s') = raRoutes (svReady s))"

lemma grows_refl [simp]: "grows s s"
  by (simp add: grows_def)

lemma grows_trans: "grows s t \<Longrightarrow> grows t u \<Longrightarrow> grows s u"
  by (auto simp: grows_def)

lemma same_index: "raRoutes b = raRoutes a \<Longrightarrow> readyIndex b = readyIndex a"
  by (rule ext) (simp add: readyIndex_def)

lemma step_routes: "readyStep a b \<Longrightarrow> raRoutes b = raRoutes a"
  by (cases rule: readyStep.cases, assumption)
    (auto simp: sessionPromoted_def setLiveProbe_def stopReady_def routeServing_def routeRetired_def announceOutstanding_def
      announceIfCompleteLocked_def narrateLocked_def printLocked_def partitionLocked_def Let_def split: prod.splits)

lemma keeps_retired:
  "raRetired (sessionPromoted a) = raRetired a" "raRetired (routeServing i a) = raRetired a"
  "raRetired (announceOutstanding live a) = raRetired a" "raRetired (setLiveProbe a) = raRetired a"
  "raRetired (stopReady a) = raRetired a"
  by (auto simp: sessionPromoted_def setLiveProbe_def stopReady_def routeServing_def announceOutstanding_def
      announceIfCompleteLocked_def narrateLocked_def printLocked_def partitionLocked_def Let_def split: prod.splits)

text \<open>A step of the announcer that retires nothing.\<close>

lemma ready_agree:
  assumes "agree s" "readyStep (svReady s) b" "raRetired b = raRetired (svReady s)"
  shows "agree (s\<lparr>svReady := b\<rparr>)" "grows s (s\<lparr>svReady := b\<rparr>)"
  using assms step_inv [OF assms(2)] step_routes [OF assms(2)] same_index [of b "svReady s"]
  by (simp_all add: agree_def grows_def)

lemma retired_set:
  "readyInv a \<Longrightarrow> raRetired (snd (routeRetired i a)) =
     (if readyIndex a i = None then raRetired a else insert i (raRetired a))"
  by (auto simp: routeRetired_def announceIfCompleteLocked_def narrateLocked_def printLocked_def Let_def split: prod.splits)

lemma retire_agree:
  assumes "agree s"
  shows "agree (retireSharedRoute i k why s) \<and> grows s (retireSharedRoute i k why s) \<and>
    i \<in> set (lgOrder (svLedger (retireSharedRoute i k why s)))"
proof (cases "i \<in> lgRetired (svLedger s)")
  case True
  then show ?thesis using assms by (simp add: retireSharedRoute_def ledgerRetire_def agree_def)
next
  case False
  let ?b = "snd (routeRetired i (svReady s))"
  have st: "readyStep (svReady s) ?b" by (rule readyStep.retired)
  have r: "readyInv (svReady s)" using assms by (simp add: agree_def)
  show ?thesis
    using assms False step_inv [OF st r] step_routes [OF st] same_index [OF step_routes [OF st]] retired_set [OF r, of i]
    by (auto simp: retireSharedRoute_def ledgerRetire_def agree_def grows_def)
qed

lemma event_agree:
  assumes "agree s"
  shows "agree (onServiceEvent cfg ev s) \<and> grows s (onServiceEvent cfg ev s)"
proof (cases "(cfg, ev, s)" rule: onServiceEvent.cases)
  case (1 c a t)
  then show ?thesis using ready_agree [OF assms readyStep.promoted keeps_retired(1)] by simp
next
  case (2 c i a t)
  then show ?thesis using ready_agree [OF assms readyStep.serving keeps_retired(2)] by simp
next
  case (3 c i e t)
  then show ?thesis using retire_agree [OF assms] assms by simp
next
  case (5 c live t)
  have "agree (s\<lparr>svReady := announceOutstanding live ((svReady s)\<lparr>raTimer := False\<rparr>)\<rparr>) \<and>
      grows s (s\<lparr>svReady := announceOutstanding live ((svReady s)\<lparr>raTimer := False\<rparr>)\<rparr>)" if "raTimer (svReady s)"
    using ready_agree [OF assms readyStep.fires [OF that]] keeps_retired(3) [of live "(svReady s)\<lparr>raTimer := False\<rparr>"] by simp
  then show ?thesis using 5 assms by simp
qed (use assms in simp_all)

lemma events_agree:
  "agree s \<Longrightarrow> agree (fold (onServiceEvent cfg) evs s) \<and> grows s (fold (onServiceEvent cfg) evs s)"
proof (induction evs arbitrary: s)
  case (Cons ev evs)
  then show ?case using event_agree [OF Cons.prems, of cfg ev] grows_trans by fastforce
qed simp

section \<open>Groups\<close>

text \<open>A group carries configured routes of one knock resource, none retired, and admits the first one's resource.\<close>

definition admitsOne :: "(string \<Rightarrow> string option) \<Rightarrow> Config \<Rightarrow> startedGroup \<Rightarrow> bool" where
  "admitsOne env cfg g = (\<exists>rs. subseq rs (cfRoutes cfg) \<and> rs \<noteq> [] \<and> sgRoutes g = map localRoute rs \<and>
     gcResourcePublicKey (sgConfig g) = PrimaryResourceID (cfg\<lparr>cfRoutes := rs\<rparr>) \<and>
     gcResourcePublicKey (sgConfig g) \<noteq> '''' \<and> gcKnockResourceID (sgConfig g) \<noteq> '''' \<and>
     list_all (\<lambda>r. knockResourceIDOrEmpty env cfg (roResourcePublicKey r) = gcKnockResourceID (sgConfig g) \<and>
       roID r \<notin> set (sgRetired g)) rs)"

lemma shared_routes:
  "sharedRoutes env cfg knock rs = Inr ls \<Longrightarrow>
   ls = map localRoute rs \<and> list_all (\<lambda>r. knockResourceIDOrEmpty env cfg (roResourcePublicKey r) = knock) rs"
  by (induction rs arbitrary: ls) (auto simp: Let_def split: if_splits sum.splits)

lemma runner_config:
  "NewSessionGroupRunner windows h validator cfg routes = Inr (g, r) \<Longrightarrow>
   gcKnockResourceID g = gcKnockResourceID cfg \<and> gcResourcePublicKey g = gcResourcePublicKey cfg"
  by (auto simp: NewSessionGroupRunner_def Let_def split: if_splits option.splits)

lemma new_runner:
  assumes "newSharedServiceRunner rules env cfg = Inr (g, runner, routes)"
  shows "cfRoutes cfg \<noteq> [] \<and> routes = map localRoute (cfRoutes cfg) \<and> gcResourcePublicKey g = PrimaryResourceID cfg \<and>
    gcResourcePublicKey g \<noteq> '''' \<and> gcKnockResourceID g \<noteq> '''' \<and>
    list_all (\<lambda>r. knockResourceIDOrEmpty env cfg (roResourcePublicKey r) = gcKnockResourceID g) (cfRoutes cfg)"
  using assms
  by (auto simp: newSharedServiceRunner_def Let_def sharedGroupConfig_def split: if_splits sum.splits prod.splits
      dest!: shared_routes runner_config)

lemma knock_routes: "knockResourceIDOrEmpty env (cfg\<lparr>cfRoutes := rs\<rparr>) k = knockResourceIDOrEmpty env cfg k"
  by (simp add: knockResourceIDOrEmpty_def KnockResourceID_def knockAt_def Let_def)

lemma split_routes:
  assumes "splitPrimaryRoute cfg = Some (p, rest)"
  shows "subseq rest (cfRoutes cfg) \<and> set (cfRoutes cfg) \<subseteq> insert p (set rest)"
proof -
  obtain i where i: "i < length (cfRoutes cfg)" "p = cfRoutes cfg ! i" "rest = take i (cfRoutes cfg) @ drop (Suc i) (cfRoutes cfg)"
    using assms by (auto simp: splitPrimaryRoute_def split: if_splits option.splits dest: find_index_Some)
  have e: "cfRoutes cfg = take i (cfRoutes cfg) @ p # drop (Suc i) (cfRoutes cfg)"
    unfolding i(2) by (rule id_take_nth_drop [OF i(1)])
  have "subseq (take i (cfRoutes cfg) @ drop (Suc i) (cfRoutes cfg)) (take i (cfRoutes cfg) @ p # drop (Suc i) (cfRoutes cfg))"
    by (intro list_emb_append_mono list_emb_Cons) simp_all
  then have "subseq rest (cfRoutes cfg)" using e i(3) by simp
  moreover have "set (cfRoutes cfg) \<subseteq> insert p (set rest)" by (subst e) (auto simp: i(3))
  ultimately show ?thesis by blast
qed

section \<open>The loop\<close>

definition loopInv :: "(string \<Rightarrow> string option) \<Rightarrow> Config \<Rightarrow> Config \<Rightarrow> serviceState \<Rightarrow> bool" where
  "loopInv env cfg0 cfg s = (agree s \<and> cfg = cfg0\<lparr>cfRoutes := cfRoutes cfg\<rparr> \<and> subseq (cfRoutes cfg) (cfRoutes cfg0) \<and>
     (\<forall>r \<in> set (cfRoutes cfg0). r \<in> set (cfRoutes cfg) \<or> roID r \<in> set (lgOrder (svLedger s))) \<and>
     (\<forall>r \<in> set (cfRoutes cfg). roID r \<notin> set (lgOrder (svLedger s))) \<and>
     list_all (\<lambda>g. admitsOne env cfg0 g \<and> length (cfRoutes cfg) < length (sgRoutes g) \<and>
       prefix (sgRetired g) (lgOrder (svLedger s))) (svStarted s) \<and>
     sorted_wrt (\<lambda>g h. length (sgRoutes h) < length (sgRoutes g)) (svStarted s) \<and>
     length (svStarted s) + length (cfRoutes cfg) \<le> length (cfRoutes cfg0) \<and> raRoutes (svReady s) = readyRoutes cfg0)"

text \<open>What holds on return.\<close>

definition serviceEnds :: "(string \<Rightarrow> string option) \<Rightarrow> Config \<Rightarrow> serviceState \<Rightarrow> bool" where
  "serviceEnds env cfg0 s = (agree s \<and> raRoutes (svReady s) = readyRoutes cfg0 \<and>
     list_all (\<lambda>g. admitsOne env cfg0 g \<and> prefix (sgRetired g) (lgOrder (svLedger s))) (svStarted s) \<and>
     sorted_wrt (\<lambda>g h. length (sgRoutes h) < length (sgRoutes g)) (svStarted s) \<and>
     length (svStarted s) \<le> length (cfRoutes cfg0))"

lemma ends_grows:
  assumes "serviceEnds env cfg0 s" "agree s'" "grows s s'"
  shows "serviceEnds env cfg0 s'"
  using assms prefix_order.trans [of _ "lgOrder (svLedger s)" "lgOrder (svLedger s')"]
  by (auto simp: serviceEnds_def grows_def list_all_iff)

lemma subseq_config:
  assumes "cfg = cfg0\<lparr>cfRoutes := cfRoutes cfg\<rparr>"
  shows "PrimaryResourceID (cfg0\<lparr>cfRoutes := cfRoutes cfg\<rparr>) = PrimaryResourceID cfg"
    "knockResourceIDOrEmpty env cfg k = knockResourceIDOrEmpty env cfg0 k"
  using assms knock_routes by metis+

lemma loop_pass:
  fixes run :: groupRun
  assumes "loopInv env cfg0 cfg s" "newSharedServiceRunner rules env cfg = Inr (g, runner, routes)"
  defines "s1 \<equiv> afterRun cfg g routes run s"
  shows "serviceEnds env cfg0 s1 \<and> prefix (lgOrder (svLedger s)) (lgOrder (svLedger s1)) \<and>
    list_all (\<lambda>h. length (cfRoutes cfg) \<le> length (sgRoutes h)) (svStarted s1) \<and>
    length (svStarted s1) + length (cfRoutes cfg) \<le> Suc (length (cfRoutes cfg0))"
proof -
  let ?g = "\<lparr>sgRetired = lgOrder (svLedger s), sgConfig = g, sgRoutes = routes\<rparr>"
  let ?s = "s\<lparr>svReady := setLiveProbe (svReady s), svStarted := svStarted s @ [?g]\<rparr>"
  note L = assms(1) [unfolded loopInv_def] and N = new_runner [OF assms(2)]
  have a: "agree ?s"
  proof -
    have "agree (s\<lparr>svReady := setLiveProbe (svReady s)\<rparr>)"
      using ready_agree(1) [OF _ readyStep.probe keeps_retired(4)] L by blast
    then show ?thesis by (simp add: agree_def)
  qed
  have one: "admitsOne env cfg0 ?g"
    unfolding admitsOne_def using L N subseq_config [of cfg cfg0]
    by (intro exI [of _ "cfRoutes cfg"]) (auto simp: list_all_iff)
  have rt: "raRoutes (setLiveProbe (svReady s)) = readyRoutes cfg0" using L by (simp add: setLiveProbe_def)
  have "Suc (length (svStarted s)) \<le> length (cfRoutes cfg0)" using L N by (cases "cfRoutes cfg") auto
  then have "serviceEnds env cfg0 ?s"
    using a one L N rt unfolding serviceEnds_def by (auto simp: list_all_iff sorted_wrt_append)
  moreover have E: "agree s1 \<and> grows ?s s1" unfolding s1_def afterRun_def by (rule events_agree [OF a])
  ultimately have "serviceEnds env cfg0 s1" using ends_grows by blast
  moreover have "svStarted s1 = svStarted s @ [?g]" "prefix (lgOrder (svLedger s)) (lgOrder (svLedger s1))"
    using E by (simp_all add: grows_def)
  ultimately show ?thesis using L N by (auto simp: list_all_iff)
qed


lemma pass_next:
  assumes "loopInv env cfg0 cfg s" "serviceCycle rules env runGroup i cfg s = Inr (cfg', s')"
  shows "loopInv env cfg0 cfg' s'"
  using assms(2)
proof (rule cycle_next)
  fix g runner routes p rest
  assume n: "newSharedServiceRunner rules env cfg = Inr (g, runner, routes)"
    and p: "splitPrimaryRoute cfg = Some (p, rest)"
    and s': "s' = retireSharedRoute (roID p) (roResourcePublicKey p) ''admission_resource_gone''
       (afterRun cfg g routes (runGroup (g, runner) i) s)"
    and cfg': "cfg' = cfg\<lparr>cfRoutes := withoutRoutes rest (lgOrder (svLedger s'))\<rparr>"
  define s1 where "s1 = afterRun cfg g routes (runGroup (g, runner) i) s"
  have P: "serviceEnds env cfg0 s1 \<and> prefix (lgOrder (svLedger s)) (lgOrder (svLedger s1)) \<and>
      list_all (\<lambda>h. length (cfRoutes cfg) \<le> length (sgRoutes h)) (svStarted s1) \<and>
      length (svStarted s1) + length (cfRoutes cfg) \<le> Suc (length (cfRoutes cfg0))"
    unfolding s1_def by (rule loop_pass [OF assms(1) n])
  have R: "agree s' \<and> grows s1 s' \<and> roID p \<in> set (lgOrder (svLedger s'))"
    unfolding s' s1_def [symmetric] by (rule retire_agree) (use P in \<open>simp add: serviceEnds_def\<close>)
  have E: "serviceEnds env cfg0 s'" using ends_grows P R by blast
  note L = assms(1) [unfolded loopInv_def]
  have r': "cfRoutes cfg' = withoutRoutes rest (lgOrder (svLedger s'))" by (simp add: cfg')
  have len: "length (cfRoutes cfg') < length (cfRoutes cfg)" by (rule cycle_shorter [OF assms(2)])
  have st: "svStarted s' = svStarted s1" "prefix (lgOrder (svLedger s)) (lgOrder (svLedger s'))"
    using R P prefix_order.trans by (auto simp: grows_def)
  have old: "set (lgOrder (svLedger s)) \<subseteq> set (lgOrder (svLedger s'))" by (rule set_mono_prefix [OF st(2)])
  have sub: "subseq (cfRoutes cfg') (cfRoutes cfg0)"
    unfolding r' withoutRoutes_def using split_routes [OF p] L subseq_filter_left subseq_order.trans by metis
  have gone: "\<forall>r \<in> set (cfRoutes cfg0). r \<in> set (cfRoutes cfg') \<or> roID r \<in> set (lgOrder (svLedger s'))"
  proof
    fix r
    assume "r \<in> set (cfRoutes cfg0)"
    then have "r \<in> set (cfRoutes cfg) \<or> roID r \<in> set (lgOrder (svLedger s'))" using L old by blast
    then have "r = p \<or> r \<in> set rest \<or> roID r \<in> set (lgOrder (svLedger s'))" using split_routes [OF p] by blast
    then show "r \<in> set (cfRoutes cfg') \<or> roID r \<in> set (lgOrder (svLedger s'))"
      using R by (auto simp: r' withoutRoutes_def)
  qed
  have cfg: "cfg' = cfg0\<lparr>cfRoutes := cfRoutes cfg'\<rparr>"
  proof -
    have c: "cfg = cfg0\<lparr>cfRoutes := cfRoutes cfg\<rparr>" using L by blast
    show ?thesis unfolding cfg' by (subst c) simp
  qed
  show ?thesis
    unfolding loopInv_def
  proof (intro conjI)
    show "agree s'" using R by blast
    show "cfg' = cfg0\<lparr>cfRoutes := cfRoutes cfg'\<rparr>" by (rule cfg)
    show "subseq (cfRoutes cfg') (cfRoutes cfg0)" by (rule sub)
    show "\<forall>r \<in> set (cfRoutes cfg0). r \<in> set (cfRoutes cfg') \<or> roID r \<in> set (lgOrder (svLedger s'))" by (rule gone)
    show "\<forall>r \<in> set (cfRoutes cfg'). roID r \<notin> set (lgOrder (svLedger s'))" by (simp add: r' withoutRoutes_def)
    show "list_all (\<lambda>g. admitsOne env cfg0 g \<and> length (cfRoutes cfg') < length (sgRoutes g) \<and>
        prefix (sgRetired g) (lgOrder (svLedger s'))) (svStarted s')"
      using E P len st(1) by (fastforce simp: serviceEnds_def list_all_iff)
    show "sorted_wrt (\<lambda>g h. length (sgRoutes h) < length (sgRoutes g)) (svStarted s')"
      using E by (simp add: serviceEnds_def)
    show "length (svStarted s') + length (cfRoutes cfg') \<le> length (cfRoutes cfg0)" using P len st(1) by simp
    show "raRoutes (svReady s') = readyRoutes cfg0" using E by (simp add: serviceEnds_def)
  qed
qed

lemma inv_ends: "loopInv env cfg0 cfg s \<Longrightarrow> serviceEnds env cfg0 s"
  by (auto simp: loopInv_def serviceEnds_def list_all_iff)

lemma shared_routes_error: "sharedRoutes env cfg knock rs = Inl x \<Longrightarrow> \<exists>m. x = NewErr m"
  by (induction rs) (auto simp: Let_def split: if_splits sum.splits)

lemma runner_error:
  "NewSessionGroupRunner windows h validator cfg routes = Inl x \<Longrightarrow>
   (\<exists>m. x = NewErr m) \<or> (\<exists>y. x = Errorf ''build session group'' y)"
  by (auto simp: NewSessionGroupRunner_def Let_def split: if_splits option.splits)

lemma new_runner_error:
  assumes "newSharedServiceRunner rules env cfg = Inl x"
  shows "x \<noteq> allRoutesRetiredError y"
proof -
  obtain windows h validator where r: "rules = (windows, h, validator)" by (metis prod_cases3)
  have "(\<exists>m. x = NewErr m) \<or> (\<exists>y. x = Errorf ''build session group'' y)"
    using assms runner_error [of windows h validator] unfolding newSharedServiceRunner_def r prod.case Let_def
    by (auto split: if_splits sum.splits dest: shared_routes_error)
  then show ?thesis by (auto simp: allRoutesRetiredError_def)
qed

text \<open>A group's own error is not the loop's.\<close>

definition plainErrors :: "runGroup \<Rightarrow> bool" where
  "plainErrors runGroup = (\<forall>g k x. seErr (runGroup g k) \<noteq> Some (allRoutesRetiredError x))"

text \<open>A pass that returns; when every route was retired it says so.\<close>

lemma pass_ends:
  assumes "loopInv env cfg0 cfg s" "serviceCycle rules env runGroup i cfg s = Inl (e, s')"
  shows "serviceEnds env cfg0 s' \<and> (plainErrors runGroup \<longrightarrow> (\<forall>x. e = Some (allRoutesRetiredError x) \<longrightarrow>
    errorsIs x SGroupEmpty \<or> errorsIs x SResourceGone \<and> (\<forall>r \<in> set (cfRoutes cfg0). roID r \<in> set (lgOrder (svLedger s')))))"
proof (cases "newSharedServiceRunner rules env cfg")
  case (Inl x)
  then show ?thesis using assms(2) new_runner_error [OF Inl] inv_ends [OF assms(1)] by (auto simp: serviceCycle_def)
next
  case (Inr q)
  obtain g runner routes where n: "newSharedServiceRunner rules env cfg = Inr (g, runner, routes)"
    using Inr by (metis prod_cases3)
  define run where "run = runGroup (g, runner) i"
  define s1 where "s1 = afterRun cfg g routes run s"
  note P = loop_pass [OF assms(1) n, of run, folded s1_def]
  define p where "p = splitPrimaryRoute cfg"
  have c: "(if isErr (seErr run) SGroupEmpty then Inl (map_option allRoutesRetiredError (seErr run), s1)
      else if \<not> isErr (seErr run) SResourceGone \<or> seCancelled run then Inl (seErr run, s1)
      else (case p of
          None \<Rightarrow> Inl (seErr run, s1)
        | Some (primary, rest) \<Rightarrow>
            (let s = retireSharedRoute (roID primary) (roResourcePublicKey primary) ''admission_resource_gone'' s1;
                 rest = withoutRoutes rest (lgOrder (svLedger s))
             in if rest = [] then Inl (map_option allRoutesRetiredError (seErr run), s)
                else Inr (cfg\<lparr>cfRoutes := rest\<rparr>, s)))) = Inl (e, s')"
    using assms(2) unfolding serviceCycle_def n sum.case prod.case Let_def run_def [symmetric] s1_def [symmetric] p_def [symmetric]
    by simp
  have own: "plainErrors runGroup \<longrightarrow> seErr run \<noteq> Some (allRoutesRetiredError x)" for x
    unfolding run_def plainErrors_def by blast
  consider "s' = s1" "e = seErr run \<or> isErr (seErr run) SGroupEmpty \<and> e = map_option allRoutesRetiredError (seErr run)"
    | pr rest where "splitPrimaryRoute cfg = Some (pr, rest)"
        "s' = retireSharedRoute (roID pr) (roResourcePublicKey pr) ''admission_resource_gone'' s1"
        "withoutRoutes rest (lgOrder (svLedger s')) = []" "isErr (seErr run) SResourceGone"
        "e = map_option allRoutesRetiredError (seErr run)"
  proof (cases "isErr (seErr run) SGroupEmpty \<or> \<not> isErr (seErr run) SResourceGone \<or> seCancelled run \<or> p = None")
    case True
    then show thesis using c that(1) by (auto split: if_splits)
  next
    case False
    then obtain pr rest where pr: "p = Some (pr, rest)" by auto
    define s2 where "s2 = retireSharedRoute (roID pr) (roResourcePublicKey pr) ''admission_resource_gone'' s1"
    have "withoutRoutes rest (lgOrder (svLedger s2)) = [] \<and> e = map_option allRoutesRetiredError (seErr run) \<and> s' = s2"
      using c False unfolding pr option.case prod.case Let_def s2_def [symmetric] by (simp split: if_splits)
    then show thesis using that(2) [of pr rest] False pr unfolding p_def s2_def by simp
  qed
  then show ?thesis
  proof cases
    case 1
    then show ?thesis using P own by (cases "seErr run") (auto simp: isErr_def allRoutesRetiredError_def)
  next
    case 2
    have R: "agree s' \<and> grows s1 s' \<and> roID pr \<in> set (lgOrder (svLedger s'))"
      unfolding 2(2) by (rule retire_agree) (use P in \<open>simp add: serviceEnds_def\<close>)
    note L = assms(1) [unfolded loopInv_def]
    have "prefix (lgOrder (svLedger s)) (lgOrder (svLedger s'))"
      using P R prefix_order.trans by (auto simp: grows_def)
    then have old: "set (lgOrder (svLedger s)) \<subseteq> set (lgOrder (svLedger s'))" by (rule set_mono_prefix)
    have "roID r \<in> set (lgOrder (svLedger s'))" if "r \<in> set (cfRoutes cfg0)" for r
    proof -
      have "r = pr \<or> r \<in> set rest \<or> roID r \<in> set (lgOrder (svLedger s'))" using that L old split_routes [OF 2(1)] by blast
      then show ?thesis using R 2(3) by (auto simp: withoutRoutes_def filter_empty_conv)
    qed
    then show ?thesis
      using ends_grows P R 2(4,5) by (auto simp: isErr_def allRoutesRetiredError_def split: option.splits)
  qed
qed

lemma loop_ends:
  assumes "loopInv env cfg0 cfg s" "sharedLoop rules env runGroup i cfg s = (e, s')"
  shows "serviceEnds env cfg0 s' \<and> (plainErrors runGroup \<longrightarrow> (\<forall>x. e = Some (allRoutesRetiredError x) \<longrightarrow>
    errorsIs x SGroupEmpty \<or> errorsIs x SResourceGone \<and> (\<forall>r \<in> set (cfRoutes cfg0). roID r \<in> set (lgOrder (svLedger s')))))"
  using assms
proof (induction rules env runGroup i cfg s rule: sharedLoop.induct)
  case (1 rules env runGroup i cfg s)
  show ?case
  proof (cases "serviceCycle rules env runGroup i cfg s")
    case (Inl r)
    then have "serviceCycle rules env runGroup i cfg s = Inl (e, s')" using 1(3) by (simp add: sharedLoop.simps [of rules])
    then show ?thesis by (rule pass_ends [OF 1(2)])
  next
    case (Inr q)
    obtain cfg' s1 where q: "q = (cfg', s1)" by fastforce
    then have "sharedLoop rules env runGroup (Suc i) cfg' s1 = (e, s')" using 1(3) Inr by (simp add: sharedLoop.simps [of rules])
    then show ?thesis using 1(1) [OF Inr q [symmetric]] pass_next [OF 1(2)] Inr q by simp
  qed
qed


lemma service_ends:
  assumes "runSharedService rules env runGroup cfg (newReadyAnnouncer (readyRoutes cfg)) = (e, s)"
  shows "serviceEnds env cfg s \<and> (plainErrors runGroup \<longrightarrow> (\<forall>x. e = Some (allRoutesRetiredError x) \<longrightarrow>
    errorsIs x SGroupEmpty \<or> errorsIs x SResourceGone \<and> (\<forall>r \<in> set (cfRoutes cfg). roID r \<in> lgRetired (svLedger s))))"
proof -
  define s0 where "s0 = \<lparr>svLedger = \<lparr>lgRetired = {}, lgOrder = []\<rparr>, svReady = newReadyAnnouncer (readyRoutes cfg),
    svAudit = [], svStarted = []\<rparr>"
  obtain e1 s1 where l: "sharedLoop rules env runGroup 0 cfg s0 = (e1, s1)" by fastforce
  have r: "e = e1" "s = s1\<lparr>svReady := stopReady (svReady s1)\<rparr>"
    using assms l by (auto simp: runSharedService_def s0_def)
  have "agree s0" using ready_new by (simp add: agree_def s0_def newReadyAnnouncer_def)
  then have "loopInv env cfg cfg s0" by (simp add: loopInv_def) (simp add: s0_def newReadyAnnouncer_def)
  note E = loop_ends [OF this l]
  have a: "agree s1" using E by (simp add: serviceEnds_def)
  have "agree s" "grows s1 s" unfolding r(2) by (rule ready_agree [OF a readyStep.stop keeps_retired(5)])+
  then have "serviceEnds env cfg s" using ends_grows E by blast
  moreover have "lgRetired (svLedger s) = set (lgOrder (svLedger s1))" using a by (simp add: r(2) agree_def)
  ultimately show ?thesis using E r(1) by simp
qed


text \<open>
  C36. The service ends after at most one group for each configured route: each new group has strictly fewer routes
  than the one before, so a refusal of the resource all routes share costs one admission per route and never a
  loop.
\<close>

theorem groups_bounded:
  "case runSharedService rules env runGroup cfg (newReadyAnnouncer (readyRoutes cfg)) of (e, s) \<Rightarrow>
     length (svStarted s) \<le> length (cfRoutes cfg) \<and>
     sorted_wrt (\<lambda>g h. length (sgRoutes h) < length (sgRoutes g)) (svStarted s)"
proof -
  obtain e s where r: "runSharedService rules env runGroup cfg (newReadyAnnouncer (readyRoutes cfg)) = (e, s)" by fastforce
  show ?thesis unfolding r prod.case using service_ends [OF r] by (simp add: serviceEnds_def)
qed

text \<open>Two routes whose admissions are refused one after the other.\<close>

definition wServiceRoute :: "string \<Rightarrow> string \<Rightarrow> ConfigRoute" where
  "wServiceRoute i k = \<lparr>roID = i, roType = ''http'', roLocalIP = ''127.0.0.1'', roLocalPort = 8080, roCRID = '''',
     roResourcePublicKey = k, roConnectorRoutingID = ''c-'' @ i, roKnockResourceID = '''', roTargetURL = ''''\<rparr>"

definition wServiceConfig :: Config where
  "wServiceConfig = emptyConfig\<lparr>cfRoutes := [wServiceRoute ''web'' ''k1'', wServiceRoute ''api'' ''k2''],
     cfKnockResourceIDs := fmupd ''k1'' ''knock'' (fmupd ''k2'' ''knock'' fmempty)\<rparr>"

definition wRefused :: runGroup where
  "wRefused = (\<lambda>g k. \<lparr>seEvents = [], seErr = Some (Sentinel SResourceGone), seCancelled = False\<rparr>)"


end
