(* ===== verification/Audit_Log.thy ===== *)
theory Audit_Log
  imports Json_Value Go_Errors
begin

text \<open>
  The audit log (\<open>pkg/audit\<close>): entries, their JSON line, the rotation policy, and the logger, a bounded channel
  between the callers of \<open>Log\<close> and the one goroutine that encodes, buffers and flushes.

  The rotator (lumberjack) is the function \<open>logRotator\<close> of the number of the write and its bytes: None takes all
  of them, \<open>Some (n, e)\<close> the first \<open>n\<close> with the error \<open>e\<close>, as \<open>io.Writer\<close> promises. \<open>time.Time\<close>'s and
  \<open>strconv\<close>'s texts are \<open>logTime\<close> and \<open>logFloat\<close>, None for a value JSON cannot hold. A \<open>float64\<close> is its bits.
\<close>

section \<open>Entries\<close>

record Entry =
  enTimestamp :: time
  enEvent :: string
  enAction :: string
  enOutcome :: string
  enActor :: string
  enTraceID :: string
  enReason :: string
  enSessionID :: string
  enResourcePublicKey :: string
  enRouteID :: string
  enSubject :: string
  enSourceIP :: string
  enSourcePort :: int
  enTarget :: string
  enLatencyMS :: uint64
  enBytesSent :: int
  enBytesRecv :: int
  enError :: string
  enMachineID :: string
  enProxyVersion :: string
  enRunID :: string

record auditDeps =
  logTime :: "time \<Rightarrow> string"
  logFloat :: "uint64 \<Rightarrow> string option"
  logRotator :: "nat \<Rightarrow> string \<Rightarrow> (nat \<times> err) option"
  logClose :: "err option"

text \<open>Members with \<open>omitempty\<close>. A float is empty when it equals zero, of either sign.\<close>

definition omitString :: "string \<Rightarrow> string \<Rightarrow> (string \<times> json) list" where
  "omitString k s = (if s = '''' then [] else [(k, JsString s)])"

definition omitInt :: "string \<Rightarrow> int \<Rightarrow> (string \<times> json) list" where
  "omitInt k i = (if i = 0 then [] else [(k, JsNumber (fmtInt i))])"

definition floatZero :: "uint64 \<Rightarrow> bool" where
  "floatZero b = (b = 0 \<or> b = 0x8000000000000000)"

definition omitFloat :: "auditDeps \<Rightarrow> string \<Rightarrow> uint64 \<Rightarrow> (string \<times> json) list res" where
  "omitFloat d k b = (if floatZero b then Inr [] else (case logFloat d b of
      None \<Rightarrow> Inl (NewErr ''json: unsupported value'')
    | Some n \<Rightarrow> Inr [(k, JsNumber n)]))"

definition entryJSON :: "auditDeps \<Rightarrow> Entry \<Rightarrow> json res" where
  "entryJSON d e = (case omitFloat d ''latency_ms'' (enLatencyMS e) of
      Inl x \<Rightarrow> Inl x
    | Inr latency \<Rightarrow> Inr (JsObject (
        [(''ts'', JsString (logTime d (enTimestamp e))), (''event'', JsString (enEvent e))] @
        omitString ''action'' (enAction e) @ omitString ''outcome'' (enOutcome e) @
        omitString ''actor'' (enActor e) @ omitString ''trace_id'' (enTraceID e) @
        omitString ''reason'' (enReason e) @ omitString ''session_id'' (enSessionID e) @
        omitString ''resource_public_key'' (enResourcePublicKey e) @ omitString ''route_id'' (enRouteID e) @
        omitString ''subject'' (enSubject e) @ omitString ''source_ip'' (enSourceIP e) @
        omitInt ''source_port'' (enSourcePort e) @ omitString ''target'' (enTarget e) @ latency @
        omitInt ''bytes_sent'' (enBytesSent e) @ omitInt ''bytes_received'' (enBytesRecv e) @
        omitString ''error'' (enError e) @ omitString ''machine_id'' (enMachineID e) @
        omitString ''proxy_version'' (enProxyVersion e) @ omitString ''run_id'' (enRunID e))))"

definition newline :: char where "newline = CHR 0x0A"

section \<open>The rotation policy\<close>

record RotationConfig =
  rcMaxSizeMB :: int
  rcMaxAgeDays :: int
  rcMaxBackups :: int
  rcCompress :: "bool option"

definition orDefault :: "int \<Rightarrow> int \<Rightarrow> int" where
  "orDefault n d = (if n \<le> 0 then d else n)"

text \<open>\<open>newRotatingWriter\<close>: what lumberjack is given.\<close>

definition newRotatingWriter :: "RotationConfig \<Rightarrow> RotationConfig" where
  "newRotatingWriter rc = \<lparr>rcMaxSizeMB = orDefault (rcMaxSizeMB rc) 100, rcMaxAgeDays = orDefault (rcMaxAgeDays rc) 90,
     rcMaxBackups = orDefault (rcMaxBackups rc) 14,
     rcCompress = Some (case rcCompress rc of Some b \<Rightarrow> b | None \<Rightarrow> True)\<rparr>"

section \<open>The buffered writer\<close>

text \<open>\<open>bufio.Writer\<close> of \<open>flushBytes\<close>; \<open>bwChunks\<close> is what the rotator took, write by write.\<close>

definition flushBytes :: nat where "flushBytes = 64 * 1024"

record bufWriter =
  bwBuf :: string
  bwErr :: "err option"
  bwChunks :: "string list"

definition rotatorWrite :: "auditDeps \<Rightarrow> string \<Rightarrow> bufWriter \<Rightarrow> (nat \<times> err option) \<times> bufWriter" where
  "rotatorWrite d p b = (case logRotator d (length (bwChunks b)) p of
      None \<Rightarrow> ((length p, None), b\<lparr>bwChunks := bwChunks b @ [p]\<rparr>)
    | Some (n, e) \<Rightarrow> ((min n (length p), Some e), b\<lparr>bwChunks := bwChunks b @ [take n p]\<rparr>))"

definition bwFlush :: "auditDeps \<Rightarrow> bufWriter \<Rightarrow> bufWriter" where
  "bwFlush d b =
     (if bwErr b \<noteq> None then b
      else if bwBuf b = [] then b
      else (case rotatorWrite d (bwBuf b) b of
          ((n, None), b) \<Rightarrow> b\<lparr>bwBuf := []\<rparr>
        | ((n, Some e), b) \<Rightarrow> b\<lparr>bwBuf := drop n (bwBuf b), bwErr := Some e\<rparr>))"

definition bwAvailable :: "bufWriter \<Rightarrow> nat" where "bwAvailable b = flushBytes - length (bwBuf b)"

lemma flush_shorter: "bwBuf b \<noteq> [] \<Longrightarrow> bwErr b = None \<Longrightarrow> bwErr (bwFlush d b) \<noteq> None \<or> bwBuf (bwFlush d b) = []"
  by (auto simp: bwFlush_def rotatorWrite_def split: option.splits prod.splits)

function bwWrite :: "auditDeps \<Rightarrow> string \<Rightarrow> bufWriter \<Rightarrow> err option \<times> bufWriter" where
  "bwWrite d p b =
     (if bwAvailable b < length p \<and> bwErr b = None then
        (if bwBuf b = [] then
           (case rotatorWrite d p b of ((n, e), b) \<Rightarrow> bwWrite d (drop n p) (b\<lparr>bwErr := e\<rparr>))
         else bwWrite d (drop (bwAvailable b) p) (bwFlush d (b\<lparr>bwBuf := bwBuf b @ take (bwAvailable b) p\<rparr>)))
      else (case bwErr b of
          Some e \<Rightarrow> (Some e, b)
        | None \<Rightarrow> (None, b\<lparr>bwBuf := bwBuf b @ p\<rparr>)))"
  by pat_completeness auto
termination
proof (relation "measures [\<lambda>(d, p, b). if bwErr b = None then 1 else 0, \<lambda>(d, p, b). length p, \<lambda>(d, p, b). length (bwBuf b)]",
    simp, goal_cases)
  case (1 d p b x b2 n e)
  then show ?case
    by (cases p) (auto simp: rotatorWrite_def split: option.splits)
next
  case (2 d p b)
  let ?b = "b\<lparr>bwBuf := bwBuf b @ take (bwAvailable b) p\<rparr>"
  have "bwErr (bwFlush d ?b) \<noteq> None \<or> bwBuf (bwFlush d ?b) = []" using 2 by (intro flush_shorter) simp_all
  then show ?case using 2 by (cases "bwAvailable b") auto
qed

declare bwWrite.simps [simp del]

text \<open>\<open>json.Encoder.Encode\<close>: a failed write stays with the encoder; the result is the error and the encoder's.\<close>

definition encode :: "auditDeps \<Rightarrow> Entry \<Rightarrow> err option \<Rightarrow> bufWriter \<Rightarrow> err option \<times> err option \<times> bufWriter" where
  "encode d e encErr b = (case encErr of
      Some x \<Rightarrow> (Some x, encErr, b)
    | None \<Rightarrow> (case entryJSON d e of
        Inl x \<Rightarrow> (Some x, None, b)
      | Inr j \<Rightarrow> (case bwWrite d (printValue j @ [newline]) b of (x, b) \<Rightarrow> (x, x, b))))"

section \<open>The logger\<close>

text \<open>
  \<open>alAccepted\<close>, \<open>alTaken\<close> and \<open>alLogged\<close> record the entries put on the channel, the entries the goroutine took
  from it and the number of calls of \<open>Log\<close>; the code does not keep them. \<open>alMirrored\<close>, \<open>alFailures\<close> and
  \<open>alWarnings\<close> are what goes to \<open>slog\<close>.
\<close>

record auditLogger =
  alSize :: nat
  alMachine :: string
  alVersion :: string
  alActor :: string
  alMirror :: bool
  alChan :: "Entry list"
  alClosed :: bool
  alDropped :: uint64
  alWriter :: bufWriter
  alEncErr :: "err option"
  alWarned :: uint64
  alDone :: bool
  alResult :: "err option option"   \<comment> \<open>what \<open>Close\<close> returned to its first caller\<close>
  alMirrored :: "Entry list"
  alFailures :: "err list"
  alWarnings :: "(uint64 \<times> uint64) list"
  alAccepted :: "Entry list"
  alTaken :: "Entry list"
  alLogged :: nat

record LoggerConfig =
  lcFilePath :: string
  lcRotation :: RotationConfig
  lcBufferSize :: int
  lcMirrorSlog :: bool
  lcMachineID :: string
  lcVersion :: string
  lcActor :: string

definition newLogger :: "LoggerConfig \<Rightarrow> auditLogger" where
  "newLogger c = \<lparr>alSize = nat (orDefault (lcBufferSize c) 4096), alMachine = lcMachineID c, alVersion = lcVersion c,
     alActor = lcActor c, alMirror = lcMirrorSlog c, alChan = [], alClosed = False, alDropped = 0,
     alWriter = \<lparr>bwBuf = [], bwErr = None, bwChunks = []\<rparr>, alEncErr = None, alWarned = 0, alDone = False,
     alResult = None, alMirrored = [], alFailures = [], alWarnings = [], alAccepted = [], alTaken = [], alLogged = 0\<rparr>"

text \<open>\<open>mkdir\<close> and \<open>precreate\<close> are the outcomes of \<open>os.MkdirAll\<close> and of \<open>preCreateAuditFileAt0600\<close>.\<close>

definition NewJSONLLogger :: "err option \<Rightarrow> err option \<Rightarrow> LoggerConfig \<Rightarrow> (auditLogger \<times> RotationConfig) res" where
  "NewJSONLLogger mkdir precreate c =
     (if lcFilePath c = '''' then Inl (NewErr ''audit: FilePath is required'')
      else (case mkdir of
          Some x \<Rightarrow> Inl (Errorf ''audit: create directories'' x)
        | None \<Rightarrow> (case precreate of
            Some x \<Rightarrow> Inl (Errorf ''audit: pre-create file at 0o600'' x)
          | None \<Rightarrow> Inr (newLogger c, newRotatingWriter (lcRotation c)))))"

definition stampEntry :: "auditLogger \<Rightarrow> time \<Rightarrow> Entry \<Rightarrow> Entry" where
  "stampEntry l now e =
     (let e = (if enMachineID e = '''' then e\<lparr>enMachineID := alMachine l\<rparr> else e);
          e = (if enProxyVersion e = '''' then e\<lparr>enProxyVersion := alVersion l\<rparr> else e);
          e = (if enActor e = '''' then e\<lparr>enActor := alActor l\<rparr> else e)
      in e\<lparr>enTimestamp := now\<rparr>)"

text \<open>\<open>Log\<close>. A send on the closed channel panics and is recovered into a drop.\<close>

definition logEntry :: "time \<Rightarrow> Entry \<Rightarrow> auditLogger \<Rightarrow> auditLogger" where
  "logEntry now e l =
     (let e = stampEntry l now e; l = l\<lparr>alLogged := Suc (alLogged l)\<rparr> in
      if alClosed l then l\<lparr>alDropped := alDropped l + 1\<rparr>
      else if length (alChan l) < alSize l then l\<lparr>alChan := alChan l @ [e], alAccepted := alAccepted l @ [e]\<rparr>
      else l\<lparr>alDropped := alDropped l + 1\<rparr>)"

text \<open>The cases of the goroutine's \<open>select\<close>.\<close>

definition takeEntry :: "auditDeps \<Rightarrow> auditLogger \<Rightarrow> auditLogger" where
  "takeEntry d l = (case alChan l of
      [] \<Rightarrow> l
    | e # es \<Rightarrow> (case encode d e (alEncErr l) (alWriter l) of
        (x, encErr, b) \<Rightarrow>
          (let b = (if flushBytes \<le> length (bwBuf b) then bwFlush d b else b) in
           l\<lparr>alChan := es, alTaken := alTaken l @ [e], alEncErr := encErr, alWriter := b,
             alFailures := alFailures l @ (case x of Some x \<Rightarrow> [x] | None \<Rightarrow> []),
             alMirrored := alMirrored l @ (if alMirror l then [e] else [])\<rparr>)))"

definition flushTick :: "auditDeps \<Rightarrow> auditLogger \<Rightarrow> auditLogger" where
  "flushTick d l = l\<lparr>alWriter := bwFlush d (alWriter l)\<rparr>"

definition warnTick :: "auditLogger \<Rightarrow> auditLogger" where
  "warnTick l = (if alWarned l < alDropped l then
       l\<lparr>alWarnings := alWarnings l @ [(alDropped l, alDropped l - alWarned l)], alWarned := alDropped l\<rparr>
     else l)"

definition endRun :: "auditDeps \<Rightarrow> auditLogger \<Rightarrow> auditLogger" where
  "endRun d l =
     (let l = flushTick d l;
          l = (if alWarned l < alDropped l then
                 l\<lparr>alWarnings := alWarnings l @ [(alDropped l, alDropped l - alWarned l)]\<rparr> else l)
      in l\<lparr>alDone := True\<rparr>)"

text \<open>\<open>Close\<close>: the first caller closes the channel, waits for the goroutine and closes the rotator.\<close>

definition closeBegin :: "auditLogger \<Rightarrow> auditLogger" where
  "closeBegin l = l\<lparr>alClosed := True\<rparr>"

definition closeEnd :: "auditDeps \<Rightarrow> auditLogger \<Rightarrow> auditLogger" where
  "closeEnd d l = l\<lparr>alResult := Some (logClose d)\<rparr>"

section \<open>Runs\<close>

inductive auditStep :: "auditDeps \<Rightarrow> auditLogger \<Rightarrow> auditLogger \<Rightarrow> bool" for d where
  log: "auditStep d l (logEntry now e l)"
| take_entry: "\<not> alDone l \<Longrightarrow> alChan l \<noteq> [] \<Longrightarrow> auditStep d l (takeEntry d l)"
| flush: "\<not> alDone l \<Longrightarrow> auditStep d l (flushTick d l)"
| warn: "\<not> alDone l \<Longrightarrow> auditStep d l (warnTick l)"
| finish: "\<not> alDone l \<Longrightarrow> alClosed l \<Longrightarrow> alChan l = [] \<Longrightarrow> auditStep d l (endRun d l)"
| close: "\<not> alClosed l \<Longrightarrow> auditStep d l (closeBegin l)"
| closed: "alDone l \<Longrightarrow> alResult l = None \<Longrightarrow> auditStep d l (closeEnd d l)"

end
