(* ===== verification/Audit_Log_Props.thy ===== *)
theory Audit_Log_Props
  imports Audit_Log "HOL-Library.Sublist"
begin

text \<open>
  The audit log: what the file holds in every reachable state, failures included, and what one failed write does
  to the rest of the log.
\<close>

section \<open>The buffered writer\<close>

definition written :: "bufWriter \<Rightarrow> string" where "written b = concat (bwChunks b)"

text \<open>\<open>appends b p b'\<close>: the writer took \<open>p\<close>, or failed and let through a prefix only.\<close>

definition appends :: "bufWriter \<Rightarrow> string \<Rightarrow> bufWriter \<Rightarrow> bool" where
  "appends b p b' = (case bwErr b of
      Some e \<Rightarrow> b' = b
    | None \<Rightarrow> (if bwErr b' = None then written b' @ bwBuf b' = written b @ bwBuf b @ p
               else prefix (written b') (written b @ bwBuf b @ p)))"

lemma rotator_appends:
  assumes "rotatorWrite d p b = ((n, e), b')"
  shows "written b' = written b @ take n p" "bwErr b' = bwErr b" "bwBuf b' = bwBuf b" "e = None \<Longrightarrow> n = length p"
  using assms by (auto simp: rotatorWrite_def written_def min_def split: option.splits)

lemma flush_appends: "appends b [] (bwFlush d b)"
  by (auto simp: appends_def bwFlush_def rotatorWrite_def written_def split: option.splits prod.splits if_splits
      intro: take_is_prefix)

lemma flush_empties: "bwErr (bwFlush d b) = None \<Longrightarrow> bwBuf (bwFlush d b) = []"
  by (auto simp: bwFlush_def rotatorWrite_def split: option.splits prod.splits if_splits)

lemma appends_trans:
  assumes "appends b p b'" and "appends b' q b''"
  shows "appends b (p @ q) b''"
proof (cases "bwErr b")
  case None
  note n = this
  show ?thesis
  proof (cases "bwErr b'")
    case None
    then have "written b' @ bwBuf b' = written b @ bwBuf b @ p" using assms(1) n by (simp add: appends_def)
    from arg_cong [OF this, of "\<lambda>t. t @ q"] have eq: "written b' @ bwBuf b' @ q = written b @ bwBuf b @ p @ q" by simp
    show ?thesis using assms(2) n None unfolding appends_def eq by simp
  next
    case (Some e)
    then have "b'' = b'" "prefix (written b') (written b @ bwBuf b @ p)" using assms n by (simp_all add: appends_def)
    moreover from this(2) have "prefix (written b') (written b @ bwBuf b @ p @ q)"
      by (metis append.assoc prefix_prefix)
    ultimately show ?thesis using n Some by (simp add: appends_def)
  qed
next
  case (Some e)
  then show ?thesis using assms by (simp add: appends_def)
qed

lemma write_appends:
  "bwWrite d p b = (x, b') \<Longrightarrow> x = bwErr b' \<and> appends b p b'"
proof (induction d p b arbitrary: x b' rule: bwWrite.induct)
  case (1 d p b)
  consider (fits) "\<not> (bwAvailable b < length p \<and> bwErr b = None)"
    | (direct) "bwAvailable b < length p" "bwErr b = None" "bwBuf b = []"
    | (full) "bwAvailable b < length p" "bwErr b = None" "bwBuf b \<noteq> []" by blast
  then show ?case
  proof cases
    case fits
    then show ?thesis using "1.prems" by (subst (asm) bwWrite.simps) (auto simp: appends_def written_def split: option.splits)
  next
    case direct
    obtain n e b1 where r: "rotatorWrite d p b = ((n, e), b1)" by (metis surj_pair)
    have w: "bwWrite d (drop n p) (b1\<lparr>bwErr := e\<rparr>) = (x, b')"
      using "1.prems" direct r by (subst (asm) bwWrite.simps) simp
    have ih: "x = bwErr b' \<and> appends (b1\<lparr>bwErr := e\<rparr>) (drop n p) b'"
      by (rule "1.IH"(1) [OF _ direct(3) r [symmetric] refl w]) (use direct in simp)
    have b1: "written (b1\<lparr>bwErr := e\<rparr>) = written b @ take n p" "bwBuf (b1\<lparr>bwErr := e\<rparr>) = []"
      using rotator_appends [OF r] direct(3) by (simp_all add: written_def)
    have "appends b (take n p) (b1\<lparr>bwErr := e\<rparr>)" using b1 direct by (auto simp: appends_def)
    from appends_trans [OF this conjunct2 [OF ih]] ih show ?thesis by simp
  next
    case full
    let ?b = "b\<lparr>bwBuf := bwBuf b @ take (bwAvailable b) p\<rparr>"
    have w: "bwWrite d (drop (bwAvailable b) p) (bwFlush d ?b) = (x, b')"
      using "1.prems" full by (subst (asm) bwWrite.simps) simp
    have ih: "x = bwErr b' \<and> appends (bwFlush d ?b) (drop (bwAvailable b) p) b'"
      by (rule "1.IH"(2) [OF _ full(3) w]) (use full in simp)
    have "appends b (take (bwAvailable b) p) ?b" using full by (simp add: appends_def written_def)
    from appends_trans [OF appends_trans [OF this flush_appends] conjunct2 [OF ih]] ih show ?thesis by simp
  qed
qed

section \<open>The invariant\<close>

definition lineOf :: "auditDeps \<Rightarrow> Entry \<Rightarrow> string list" where
  "lineOf d e = (case entryJSON d e of Inr j \<Rightarrow> [printValue j] | Inl _ \<Rightarrow> [])"

definition linesOf :: "auditDeps \<Rightarrow> Entry list \<Rightarrow> string list" where
  "linesOf d es = concat (map (lineOf d) es)"

definition fileText :: "string list \<Rightarrow> string" where
  "fileText ls = concat (map (\<lambda>l. l @ [newline]) ls)"

lemma text_append [simp]: "fileText (a @ b) = fileText a @ fileText b" "fileText [] = []"
  by (simp_all add: fileText_def)

lemma lines_append [simp]: "linesOf d (a @ b) = linesOf d a @ linesOf d b" "linesOf d [] = []"
  by (simp_all add: linesOf_def)

definition auditInv :: "auditDeps \<Rightarrow> auditLogger \<Rightarrow> bool" where
  "auditInv d l \<longleftrightarrow>
     alAccepted l = alTaken l @ alChan l \<and> length (alChan l) \<le> alSize l \<and>
     of_nat (alLogged l) = of_nat (length (alAccepted l)) + alDropped l \<and>
     alMirrored l = (if alMirror l then alTaken l else []) \<and>
     (if bwErr (alWriter l) = None
      then written (alWriter l) @ bwBuf (alWriter l) = fileText (linesOf d (alTaken l)) \<and> alEncErr l = None
      else prefix (written (alWriter l)) (fileText (linesOf d (alTaken l)))) \<and>
     (alDone l \<longrightarrow> alClosed l \<and> alChan l = [] \<and> (bwErr (alWriter l) = None \<longrightarrow> bwBuf (alWriter l) = [])) \<and>
     (alResult l \<noteq> None \<longrightarrow> alDone l \<and> alResult l = Some (logClose d))"

lemma encode_appends:
  assumes "encode d e encErr b = (x, encErr', b')" and "bwErr b = None \<longrightarrow> encErr = None"
  shows "appends b (fileText (lineOf d e)) b'" "bwErr b' = None \<longrightarrow> encErr' = None"
    "bwErr b \<noteq> None \<Longrightarrow> x \<noteq> None \<and> b' = b"
proof -
  have "appends b (fileText (lineOf d e)) b' \<and> (bwErr b' = None \<longrightarrow> encErr' = None) \<and>
      (bwErr b \<noteq> None \<longrightarrow> x \<noteq> None \<and> b' = b)"
  proof (cases "encErr = None \<and> (\<exists>j. entryJSON d e = Inr j)")
    case True
    then obtain j where j: "entryJSON d e = Inr j" by blast
    obtain y c where w: "bwWrite d (printValue j @ [newline]) b = (y, c)" by fastforce
    have "y = x" "c = b'" "encErr' = x" using assms(1) True j w by (auto simp: encode_def)
    then have "x = bwErr b' \<and> appends b (fileText (lineOf d e)) b'"
      using write_appends [OF w] j by (simp add: lineOf_def fileText_def)
    then show ?thesis using \<open>encErr' = x\<close> by (auto simp: appends_def)
  next
    case False
    then have "b' = b" "x \<noteq> None" "encErr' = encErr" using assms(1) by (auto simp: encode_def split: option.splits sum.splits)
    moreover have "appends b (fileText (lineOf d e)) b"
      using False assms(2) by (auto simp: appends_def lineOf_def split: option.splits sum.splits)
    ultimately show ?thesis using assms(2) by simp
  qed
  then show "appends b (fileText (lineOf d e)) b'" "bwErr b' = None \<longrightarrow> encErr' = None"
    "bwErr b \<noteq> None \<Longrightarrow> x \<noteq> None \<and> b' = b" by blast+
qed

text \<open>How the writer's part of the invariant moves.\<close>

definition fileOK :: "bufWriter \<Rightarrow> string \<Rightarrow> bool" where
  "fileOK b t = (if bwErr b = None then written b @ bwBuf b = t else prefix (written b) t)"

lemma fileOK_appends: "fileOK b t \<Longrightarrow> appends b p b' \<Longrightarrow> fileOK b' (t @ p)"
  by (auto simp: fileOK_def appends_def split: option.splits if_splits)

lemma inv_take:
  assumes "auditInv d l" and "\<not> alDone l" and "alChan l \<noteq> []"
  shows "auditInv d (takeEntry d l)"
proof -
  obtain e es where c: "alChan l = e # es" using assms(3) by (cases "alChan l") auto
  obtain x ee b where en: "encode d e (alEncErr l) (alWriter l) = (x, ee, b)" by (metis surj_pair)
  define b' where "b' = (if flushBytes \<le> length (bwBuf b) then bwFlush d b else b)"
  have i: "bwErr (alWriter l) = None \<longrightarrow> alEncErr l = None" "fileOK (alWriter l) (fileText (linesOf d (alTaken l)))"
    using assms(1) by (auto simp: auditInv_def fileOK_def split: if_splits)
  note A = encode_appends [OF en i(1)]
  have "appends b [] b'" using flush_appends [of b d] by (auto simp: b'_def appends_def split: option.splits)
  from appends_trans [OF A(1) this] have a: "appends (alWriter l) (fileText (lineOf d e)) b'" by simp
  have f: "fileOK b' (fileText (linesOf d (alTaken l)) @ fileText (lineOf d e))" by (rule fileOK_appends [OF i(2) a])
  have e: "bwErr b' = None \<longrightarrow> ee = None" using A(2) \<open>appends b [] b'\<close> by (auto simp: appends_def split: option.splits)
  have t: "takeEntry d l = l\<lparr>alChan := es, alTaken := alTaken l @ [e], alEncErr := ee, alWriter := b',
      alFailures := alFailures l @ (case x of Some x \<Rightarrow> [x] | None \<Rightarrow> []),
      alMirrored := alMirrored l @ (if alMirror l then [e] else [])\<rparr>"
    by (simp add: takeEntry_def c en b'_def Let_def)
  have "linesOf d (alTaken l @ [e]) = linesOf d (alTaken l) @ lineOf d e" by (simp add: linesOf_def)
  then show ?thesis using assms f e unfolding t by (auto simp: auditInv_def fileOK_def c split: if_splits)
qed

lemma inv_flush:
  assumes "auditInv d l" and "\<not> alDone l"
  shows "auditInv d (flushTick d l)"
proof -
  have "fileOK (bwFlush d (alWriter l)) (fileText (linesOf d (alTaken l)) @ [])"
    by (rule fileOK_appends [OF _ flush_appends]) (use assms in \<open>simp add: auditInv_def fileOK_def split: if_splits\<close>)
  moreover have "bwErr (bwFlush d (alWriter l)) = None \<Longrightarrow> bwErr (alWriter l) = None"
    using flush_appends [of "alWriter l" d] by (auto simp: appends_def split: option.splits)
  ultimately show ?thesis using assms by (auto simp: auditInv_def flushTick_def fileOK_def split: if_splits)
qed

lemma inv_log: "auditInv d l \<Longrightarrow> auditInv d (logEntry now e l)"
  by (auto simp: auditInv_def logEntry_def Let_def algebra_simps)

lemma inv_step: "auditStep d l l' \<Longrightarrow> auditInv d l \<Longrightarrow> auditInv d l'"
proof (induction rule: auditStep.induct)
  case (finish l)
  then have "auditInv d (flushTick d l)" by (intro inv_flush)
  moreover have "bwErr (alWriter (flushTick d l)) = None \<longrightarrow> bwBuf (alWriter (flushTick d l)) = []"
    by (simp add: flushTick_def flush_empties)
  moreover have "alClosed (flushTick d l)" "alChan (flushTick d l) = []" using finish by (simp_all add: flushTick_def)
  ultimately show ?case by (auto simp: auditInv_def endRun_def Let_def)
qed (auto intro: inv_log inv_take inv_flush, auto simp: auditInv_def warnTick_def closeBegin_def closeEnd_def)

lemma inv_new: "auditInv d (newLogger c)"
  by (simp add: auditInv_def newLogger_def written_def)

lemma inv_reach: "(auditStep d)\<^sup>*\<^sup>* (newLogger c) l \<Longrightarrow> auditInv d l"
  by (induction rule: rtranclp_induct) (auto intro: inv_new inv_step)

section \<open>The lines of the file\<close>

lemma hex_no_newline: "n < 16 \<Longrightarrow> hexDigit n \<noteq> newline"
proof -
  assume "n < 16"
  then have "hexDigit n \<in> set ''0123456789abcdef''" unfolding hexDigit_def by (intro nth_mem) simp
  then show ?thesis by (auto simp: newline_def)
qed

lemma escape_no_newline: "newline \<notin> set (jsonEscape s)"
proof (induction s rule: jsonEscape.induct)
  case (2 c cs)
  show ?case
  proof (cases "byteOf c < 128")
    case True
    then have "hexDigit (byteOf c div 16) \<noteq> newline" "hexDigit (byteOf c mod 16) \<noteq> newline"
      by (simp_all add: hex_no_newline)
    then have "newline \<notin> set (escAscii c)" by (auto simp: escAscii_def newline_def)
    then show ?thesis using 2 True by simp
  next
    case False
    have "newline \<notin> set (escRune (take (runeWidth (c # cs)) (c # cs)))" if "runeWidth (c # cs) \<noteq> 0"
    proof
      assume "newline \<in> set (escRune (take (runeWidth (c # cs)) (c # cs)))"
      then have "newline \<in> set (take (runeWidth (c # cs)) (c # cs))"
        by (auto simp: escRune_def newline_def split: if_splits)
      then have "128 \<le> byteOf newline" using runeWidth_high [of c cs newline] False that by simp
      then show False by (simp add: newline_def byteOf_def)
    qed
    then show ?thesis using 2 False by (auto simp: newline_def)
  qed
qed simp

lemma string_no_newline [simp]: "newline \<notin> set (jsonString s)"
  using escape_no_newline by (simp add: jsonString_def quote_def newline_def)

lemma nat_no_newline: "newline \<notin> set (fmtNat n)"
proof (induction n rule: fmtNat.induct)
  case (1 n)
  have "digit10 k \<in> set ''0123456789''" if "k < 10" for k unfolding digit10_def by (rule nth_mem) (use that in simp)
  from this [of n] this [of "n mod 10"] have "n < 10 \<Longrightarrow> digit10 n \<noteq> newline" "digit10 (n mod 10) \<noteq> newline"
    by (auto simp: newline_def)
  then show ?case using 1 by (subst fmtNat.simps) auto
qed

lemma int_no_newline [simp]: "newline \<notin> set (fmtInt i)"
  using nat_no_newline by (simp add: fmtInt_def newline_def)

definition oneLine :: "json \<Rightarrow> bool" where
  "oneLine v = (case v of JsString _ \<Rightarrow> True | JsNumber n \<Rightarrow> newline \<notin> set n | _ \<Rightarrow> False)"

lemma members_no_newline: "list_all (oneLine \<circ> snd) ms \<Longrightarrow> newline \<notin> set (printMembers ms)"
proof (induction ms)
  case (Cons m ms)
  obtain k v where m: "m = (k, v)" by fastforce
  have "newline \<notin> set (printValue v)" using Cons.prems m by (cases v) (auto simp: oneLine_def)
  then show ?case using Cons m string_no_newline by (cases ms) (auto simp: newline_def)
qed (simp add: newline_def)

text \<open>What JSON numbers look like: no line break among them.\<close>

definition oneLineFloats :: "auditDeps \<Rightarrow> bool" where
  "oneLineFloats d \<longleftrightarrow> (\<forall>b n. logFloat d b = Some n \<longrightarrow> newline \<notin> set n)"

lemma omit_oneLine [simp]: "list_all (oneLine \<circ> snd) (omitString k s)" "list_all (oneLine \<circ> snd) (omitInt k i)"
  by (simp_all add: omitString_def omitInt_def oneLine_def)

lemma line_no_newline:
  assumes "oneLineFloats d" and "l \<in> set (lineOf d e)"
  shows "newline \<notin> set l"
proof -
  obtain j where j: "entryJSON d e = Inr j" "l = printValue j"
    using assms(2) by (cases "entryJSON d e") (simp_all add: lineOf_def)
  then obtain lat where lat: "omitFloat d ''latency_ms'' (enLatencyMS e) = Inr lat"
    by (auto simp: entryJSON_def split: sum.splits)
  have "list_all (oneLine \<circ> snd) lat"
    using lat assms(1) by (auto simp: omitFloat_def oneLine_def oneLineFloats_def split: if_splits option.splits)
  then obtain m ms where "j = JsObject (m # ms)" "list_all (oneLine \<circ> snd) (m # ms)"
    using j(1) lat by (auto simp: entryJSON_def oneLine_def)
  then show ?thesis using j(2) members_no_newline by (simp add: newline_def)
qed

lemma split_line: "newline \<notin> set l \<Longrightarrow> splitOn newline (l @ newline # t) = l # splitOn newline t"
  by (induction l) auto

lemma split_lines: "list_all (\<lambda>l. newline \<notin> set l) ls \<Longrightarrow> splitOn newline (fileText ls) = ls @ [[]]"
  by (induction ls) (auto simp: fileText_def split_line)

section \<open>A failed write\<close>

lemma flush_failed: "bwErr b = Some e \<Longrightarrow> bwFlush d b = b"
  by (simp add: bwFlush_def)

text \<open>The writer stays as it is once its error is set; every entry taken is reported.\<close>

definition stuck :: "auditLogger \<Rightarrow> auditLogger \<Rightarrow> bool" where
  "stuck l l' \<longleftrightarrow> alWriter l' = alWriter l \<and>
     (\<exists>es xs. alTaken l' = alTaken l @ es \<and> alFailures l' = alFailures l @ xs \<and> length xs = length es)"

lemma stuck_step:
  assumes "auditStep d l l'" and "bwErr (alWriter l) = Some e"
  shows "stuck l l'"
  using assms
proof (induction rule: auditStep.induct)
  case (take_entry l)
  obtain c cs where c: "alChan l = c # cs" using take_entry by (cases "alChan l") auto
  obtain x ee b where en: "encode d c (alEncErr l) (alWriter l) = (x, ee, b)" by (metis surj_pair)
  have "x \<noteq> None" "b = alWriter l" using encode_appends(3) [OF en] take_entry by simp_all
  then show ?case using take_entry by (auto simp: stuck_def takeEntry_def c en Let_def flush_failed)
qed (auto simp: stuck_def logEntry_def flushTick_def warnTick_def endRun_def closeBegin_def closeEnd_def Let_def flush_failed)

lemma stuck_run:
  assumes "(auditStep d)\<^sup>*\<^sup>* l l'" and "bwErr (alWriter l) = Some e"
  shows "stuck l l'"
  using assms(1)
proof (induction rule: rtranclp_induct)
  case base
  show ?case by (simp add: stuck_def)
next
  case (step m n)
  then have "stuck m n" using stuck_step [of d m n e] assms(2) by (simp add: stuck_def)
  with step.IH show ?case by (auto simp: stuck_def)
qed

section \<open>Closing\<close>

lemma drain:
  assumes "alClosed l" and "\<not> alDone l"
  shows "\<exists>l'. (auditStep d)\<^sup>*\<^sup>* l l' \<and> alDone l' \<and> alAccepted l' = alAccepted l"
  using assms
proof (induction "length (alChan l)" arbitrary: l)
  case 0
  then have "auditStep d l (endRun d l)" by (intro auditStep.finish) simp_all
  then show ?case by (intro exI [of _ "endRun d l"]) (auto simp: endRun_def flushTick_def Let_def)
next
  case (Suc n)
  then have s: "auditStep d l (takeEntry d l)" by (intro auditStep.take_entry) auto
  have "n = length (alChan (takeEntry d l))" "alClosed (takeEntry d l)" "\<not> alDone (takeEntry d l)"
      "alAccepted (takeEntry d l) = alAccepted l"
    using Suc by (auto simp: takeEntry_def Let_def split: list.splits prod.splits)
  from Suc.hyps(1) [OF this(1-3)] this(4) s show ?case by (metis converse_rtranclp_into_rtranclp)
qed

section \<open>Claims\<close>

text \<open>
  C14. Whatever the rotator answers and however the calls interleave, every call of \<open>Log\<close> is accepted or counted
  as a drop, the accepted entries are taken in order, the channel stays within its size, and the file is always a
  prefix of the lines of the accepted entries. A log that was closed can finish, and when it has and no write
  failed the file splits at its line breaks into exactly one line for each accepted entry JSON can hold.
\<close>

theorem audit_trail_exact:
  assumes "oneLineFloats d" and "(auditStep d)\<^sup>*\<^sup>* (newLogger c) l"
  shows "alAccepted l = alTaken l @ alChan l \<and> length (alChan l) \<le> alSize l \<and>
    of_nat (alLogged l) = of_nat (length (alAccepted l)) + alDropped l \<and>
    prefix (written (alWriter l)) (fileText (linesOf d (alAccepted l))) \<and>
    (alClosed l \<longrightarrow> (\<exists>l'. (auditStep d)\<^sup>*\<^sup>* l l' \<and> alDone l' \<and> alAccepted l' = alAccepted l)) \<and>
    (alDone l \<longrightarrow> bwErr (alWriter l) = None \<longrightarrow>
       splitOn newline (written (alWriter l)) = linesOf d (alAccepted l) @ [[]])"
proof -
  have i: "auditInv d l" by (rule inv_reach [OF assms(2)])
  have p: "prefix (written (alWriter l)) (fileText (linesOf d (alTaken l)))"
  proof (cases "bwErr (alWriter l)")
    case None
    with i have "fileText (linesOf d (alTaken l)) = written (alWriter l) @ bwBuf (alWriter l)" by (simp add: auditInv_def)
    then show ?thesis by (metis prefixI)
  qed (use i in \<open>simp add: auditInv_def\<close>)
  have "list_all (\<lambda>x. newline \<notin> set x) (linesOf d es)" for es
    using line_no_newline [OF assms(1)] by (auto simp: list_all_iff linesOf_def)
  note s = split_lines [OF this]
  have "splitOn newline (written (alWriter l)) = linesOf d (alAccepted l) @ [[]]"
    if "alDone l" "bwErr (alWriter l) = None"
  proof -
    have "written (alWriter l) = fileText (linesOf d (alTaken l))" "alAccepted l = alTaken l"
      using i that by (auto simp: auditInv_def)
    then show ?thesis using s by simp
  qed
  moreover have "\<exists>l'. (auditStep d)\<^sup>*\<^sup>* l l' \<and> alDone l' \<and> alAccepted l' = alAccepted l" if "alClosed l"
    using drain [OF that, of d] by (cases "alDone l") auto
  moreover have "prefix (written (alWriter l)) (fileText (linesOf d (alAccepted l)))"
    using p i by (simp add: auditInv_def prefix_prefix)
  ultimately show ?thesis using i by (simp add: auditInv_def)
qed

text \<open>
  C31. One failed write is final: from then on the file never grows, whether or not the disk recovers. Each entry
  taken later is reported as a failure and none of them is counted as a drop, and \<open>Close\<close> reports only what closing
  the rotator returned.
\<close>

theorem audit_failure_is_final:
  assumes "(auditStep d)\<^sup>*\<^sup>* (newLogger c) l" and "bwErr (alWriter l) = Some e" and "(auditStep d)\<^sup>*\<^sup>* l l'"
  shows "bwChunks (alWriter l') = bwChunks (alWriter l) \<and>
    length (alFailures l') - length (alFailures l) = length (alTaken l') - length (alTaken l) \<and>
    of_nat (alLogged l') = of_nat (length (alAccepted l')) + alDropped l' \<and>
    alResult l' \<in> {None, Some (logClose d)}"
proof -
  have "auditInv d l'" using inv_reach [of d c l'] assms(1,3) by (meson rtranclp_trans)
  moreover have "stuck l l'" by (rule stuck_run [OF assms(3,2)])
  ultimately show ?thesis by (auto simp: auditInv_def stuck_def)
qed

section \<open>Runs\<close>

definition wEntry :: Entry where
  "wEntry = \<lparr>enTimestamp = 0, enEvent = ''proxy.deny'', enAction = '''', enOutcome = ''deny'', enActor = '''', enTraceID = '''',
     enReason = '''', enSessionID = '''', enResourcePublicKey = '''', enRouteID = ''web'', enSubject = '''', enSourceIP = '''',
     enSourcePort = 0, enTarget = '''', enLatencyMS = 0, enBytesSent = 0, enBytesRecv = 0, enError = '''',
     enMachineID = '''', enProxyVersion = '''', enRunID = ''''\<rparr>"

definition wLoggerConfig :: LoggerConfig where
  "wLoggerConfig = \<lparr>lcFilePath = ''audit.log'', lcRotation = \<lparr>rcMaxSizeMB = 0, rcMaxAgeDays = 0, rcMaxBackups = 0,
     rcCompress = None\<rparr>, lcBufferSize = 2, lcMirrorSlog = True, lcMachineID = ''m'', lcVersion = ''1'', lcActor = ''a''\<rparr>"

text \<open>A disk that takes everything, and one that is full.\<close>

definition wAudit :: "(nat \<times> err) option \<Rightarrow> auditDeps" where
  "wAudit answer = \<lparr>logTime = (\<lambda>t. fmtInt t), logFloat = (\<lambda>_. None), logRotator = (\<lambda>_ _. answer), logClose = None\<rparr>"

definition wFull :: auditDeps where "wFull = wAudit (Some (0, NewErr ''no space left on device''))"

definition wTaken :: "auditDeps \<Rightarrow> auditLogger" where
  "wTaken d = takeEntry d (logEntry 7 wEntry (newLogger wLoggerConfig))"

definition wEnded :: "auditDeps \<Rightarrow> auditLogger \<Rightarrow> auditLogger" where
  "wEnded d l = closeEnd d (endRun d (closeBegin l))"

lemma wTaken_run: "(auditStep d)\<^sup>*\<^sup>* (newLogger wLoggerConfig) (wTaken d)" "\<not> alDone (wTaken d)" "\<not> alClosed (wTaken d)"
    "alChan (wTaken d) = []" "alResult (wTaken d) = None"
proof -
  let ?l = "logEntry 7 wEntry (newLogger wLoggerConfig)"
  have f: "\<not> alDone ?l" "\<not> alClosed ?l" "alChan ?l = [stampEntry (newLogger wLoggerConfig) 7 wEntry]" "alResult ?l = None"
    by (simp_all add: logEntry_def newLogger_def wLoggerConfig_def orDefault_def Let_def)
  then have "auditStep d ?l (wTaken d)" unfolding wTaken_def by (intro auditStep.take_entry) simp_all
  moreover have "auditStep d (newLogger wLoggerConfig) ?l" by (rule auditStep.log)
  ultimately show "(auditStep d)\<^sup>*\<^sup>* (newLogger wLoggerConfig) (wTaken d)" by (meson converse_rtranclp_into_rtranclp rtranclp.rtrancl_refl)
  show "\<not> alDone (wTaken d)" "\<not> alClosed (wTaken d)" "alChan (wTaken d) = []" "alResult (wTaken d) = None"
    using f by (simp_all add: wTaken_def takeEntry_def Let_def split: prod.splits)
qed

lemma wEnded_run:
  assumes "\<not> alDone l" "\<not> alClosed l" "alChan l = []" "alResult l = None"
  shows "(auditStep d)\<^sup>*\<^sup>* l (wEnded d l)" "alDone (wEnded d l)"
proof -
  have "auditStep d l (closeBegin l)" using assms by (intro auditStep.close)
  moreover have "auditStep d (closeBegin l) (endRun d (closeBegin l))"
    using assms by (intro auditStep.finish) (simp_all add: closeBegin_def)
  moreover have "auditStep d (endRun d (closeBegin l)) (wEnded d l)"
    unfolding wEnded_def using assms by (intro auditStep.closed) (simp_all add: closeBegin_def endRun_def flushTick_def Let_def)
  ultimately show "(auditStep d)\<^sup>*\<^sup>* l (wEnded d l)" by (meson converse_rtranclp_into_rtranclp rtranclp.rtrancl_refl)
  show "alDone (wEnded d l)" by (simp add: wEnded_def closeEnd_def endRun_def Let_def)
qed

text \<open>The entry's line fits the buffer.\<close>

definition wStamped :: Entry where "wStamped = stampEntry (newLogger wLoggerConfig) 7 wEntry"

definition wLine :: string where
  "wLine = (case entryJSON (wAudit None) wStamped of Inr j \<Rightarrow> printValue j @ [newline] | Inl _ \<Rightarrow> '''')"

lemma wLine_length: "length wLine < 1000" "wLine \<noteq> ''''"
  by code_simp+

lemma wLine_of: "\<exists>j. entryJSON (wAudit a) wStamped = Inr j \<and> printValue j @ [newline] = wLine"
  by (simp add: wLine_def entryJSON_def omitFloat_def wAudit_def wStamped_def stampEntry_def wEntry_def floatZero_def)

lemma wTaken_state:
  "alWriter (wTaken (wAudit a)) = \<lparr>bwBuf = wLine, bwErr = None, bwChunks = []\<rparr>" "alFailures (wTaken (wAudit a)) = []"
  "alDropped (wTaken (wAudit a)) = 0" "alWarned (wTaken (wAudit a)) = 0" "alAccepted (wTaken (wAudit a)) = [wStamped]"
proof -
  obtain j where j: "entryJSON (wAudit a) wStamped = Inr j" "printValue j @ [newline] = wLine" using wLine_of by blast
  have w: "bwWrite (wAudit a) wLine \<lparr>bwBuf = [], bwErr = None, bwChunks = []\<rparr> =
      (None, \<lparr>bwBuf = wLine, bwErr = None, bwChunks = []\<rparr>)"
    using wLine_length(1) by (subst bwWrite.simps) (simp add: bwAvailable_def flushBytes_def)
  let ?l = "logEntry 7 wEntry (newLogger wLoggerConfig)"
  have l: "alChan ?l = [wStamped]" "alAccepted ?l = [wStamped]" "alWriter ?l = \<lparr>bwBuf = [], bwErr = None, bwChunks = []\<rparr>"
    "alEncErr ?l = None" "alFailures ?l = []" "alDropped ?l = 0" "alWarned ?l = 0"
    by (simp_all add: logEntry_def wStamped_def newLogger_def wLoggerConfig_def orDefault_def Let_def)
  have "\<not> flushBytes \<le> length wLine" using wLine_length(1) by (simp add: flushBytes_def)
  then show "alWriter (wTaken (wAudit a)) = \<lparr>bwBuf = wLine, bwErr = None, bwChunks = []\<rparr>" "alFailures (wTaken (wAudit a)) = []"
    "alDropped (wTaken (wAudit a)) = 0" "alWarned (wTaken (wAudit a)) = 0" "alAccepted (wTaken (wAudit a)) = [wStamped]"
    using j w by (simp_all add: wTaken_def l takeEntry_def encode_def Let_def)
qed

lemmas wEnded_defs = wEnded_def closeEnd_def endRun_def closeBegin_def flushTick_def bwFlush_def rotatorWrite_def written_def

lemma wDisk_ok: "bwErr (alWriter (wEnded (wAudit None) (wTaken (wAudit None)))) = None"
    "alAccepted (wEnded (wAudit None) (wTaken (wAudit None))) = [wStamped]"
  using wTaken_state [of None] wLine_length(2) by (simp_all add: wEnded_defs Let_def wAudit_def)

theorem audit_trail_exact_witness:
  "\<exists>l :: auditLogger. alDone l \<and> length (alAccepted l) = 1 \<and> oneLineFloats (wAudit None) \<and>
     splitOn newline (written (alWriter l)) = linesOf (wAudit None) (alAccepted l) @ [[]]"
proof -
  let ?d = "wAudit None"
  have o: "oneLineFloats ?d" by (simp add: oneLineFloats_def wAudit_def)
  note E = wEnded_run [OF wTaken_run(2-5) [of ?d], of ?d]
  have "(auditStep ?d)\<^sup>*\<^sup>* (newLogger wLoggerConfig) (wEnded ?d (wTaken ?d))"
    using wTaken_run(1) E(1) by (rule rtranclp_trans)
  note F = audit_trail_exact [OF o this]
  have sp: "splitOn newline (written (alWriter (wEnded ?d (wTaken ?d)))) = linesOf ?d (alAccepted (wEnded ?d (wTaken ?d))) @ [[]]"
    using F E(2) wDisk_ok(1) by blast
  have len: "length (alAccepted (wEnded ?d (wTaken ?d))) = 1" unfolding wDisk_ok(2) by simp
  show ?thesis by (intro exI conjI) (rule E(2), rule len, rule o, rule sp)
qed

text \<open>
  The entry is accepted and taken, its only write fails in the last flush, and nothing says so: no drop, no
  failure, no error from \<open>Close\<close>, and an empty file.
\<close>

lemma flush_failure_silent:
  "(case wEnded wFull (wTaken wFull) of l \<Rightarrow> (length (alAccepted l), alDropped l, alFailures l, alResult l, written (alWriter l))) =
     (1, 0, [], Some None, '''')"
  using wTaken_state [of "Some (0, NewErr ''no space left on device'')"] wLine_length(2)
  by (simp add: wFull_def wEnded_defs Let_def) (simp add: wAudit_def)

lemma wFull_failed: "bwErr (alWriter (flushTick wFull (wTaken wFull))) = Some (NewErr ''no space left on device'')"
  using wTaken_state [of "Some (0, NewErr ''no space left on device'')"] wLine_length(2)
  by (simp add: wFull_def wEnded_defs) (simp add: wAudit_def)

theorem audit_failure_is_final_witness:
  "\<exists>(l :: auditLogger) (l' :: auditLogger). bwErr (alWriter l) \<noteq> None \<and> alDone l' \<and> bwChunks (alWriter l') = bwChunks (alWriter l) \<and>
     alResult l' \<in> {None, Some None}"
proof -
  let ?l = "flushTick wFull (wTaken wFull)"
  have "auditStep wFull (wTaken wFull) ?l" using wTaken_run(2) by (rule auditStep.flush)
  with wTaken_run(1) have r: "(auditStep wFull)\<^sup>*\<^sup>* (newLogger wLoggerConfig) ?l" by (rule rtranclp.rtrancl_into_rtrancl)
  have "\<not> alDone ?l" "\<not> alClosed ?l" "alChan ?l = []" "alResult ?l = None"
    using wTaken_run [of wFull] by (simp_all add: flushTick_def)
  note E = wEnded_run [OF this, of wFull]
  have "logClose wFull = None" by (simp add: wFull_def wAudit_def)
  then have f: "bwChunks (alWriter (wEnded wFull ?l)) = bwChunks (alWriter ?l) \<and> alResult (wEnded wFull ?l) \<in> {None, Some None}"
    using audit_failure_is_final [OF r wFull_failed E(1)] by metis
  have ne: "bwErr (alWriter ?l) \<noteq> None" by (simp add: wFull_failed)
  show ?thesis by (intro exI conjI) (rule ne, rule E(2), rule conjunct1 [OF f], rule conjunct2 [OF f])
qed

end
