(* ===== verification/Spec2Isabelle.thy ===== *)
theory Spec2Isabelle
  imports Recovery_Props Routes_Props Group_Session_Claims Group_Run_Props Refresh_Marker_Props Drain_Props Native_Open_Props
    Config_Text_Props Hub_Bootstrap Config_Load_Props Identity_Refine Connector_Remove_Witnesses Shared_Service_Props Audit_Log_Props
begin

text \<open>
  A verification development for the qURL Connector (\<open>src/\<close>).

  \<^bold>\<open>The program.\<close> The connector runs on a customer's machine and exposes local HTTP routes. \<open>qurl-connector run\<close>
  reads a YAML configuration (\<open>pkg/config\<close>), opens or registers a native agent (\<open>pkg/share/native.go\<close>,
  \<open>pkg/agentstate\<close>), resolves each route to a cloud resource and remembers the answer in a durable cache
  (\<open>cmd/frpc/run.go\<close>, \<open>connector_identity_cache.go\<close>), and then serves all routes in one group: an NHP knock gives an
  admission, the admission opens one FRP control session, and before it expires a replacement session is brought up
  and the old one drained (\<open>pkg/share/group.go\<close>, \<open>group_frp.go\<close>, \<open>session.go\<close>). Every knock is a session operation
  recorded in a durable journal before it is sent (\<open>pkg/agentstate/session_operation.go\<close>), so that a session that
  was lost is recovered or retired exactly (\<open>pkg/share/session_operation.go\<close>). \<open>remove\<close> deletes a route's resource
  and then the route (\<open>cmd/frpc/remove.go\<close>). Retired routes go to the audit log (\<open>pkg/audit\<close>).

  \<^bold>\<open>Theories and sources.\<close> Names of definitions are the source's where Isabelle allows.

  \<^item> Common: \<open>Prelude\<close> (types, lists, Go's string functions), \<open>Go_Errors\<close> (error trees, \<open>errors.Is\<close>, \<open>errors.As\<close>, the
    classifiers), \<open>Go_Text\<close> and \<open>Net_Text\<close> (base64, UTF-8, numbers, addresses), \<open>Go_JSON\<close> and \<open>Json_Value\<close>
    (\<open>encoding/json\<close>).
  \<^item> The journal: \<open>Journal_Records\<close> (records, validity, transitions), \<open>Journal_Codec\<close> (its canonical text), \<open>Journal\<close>
    (the file protocol on a directory, every system call fallible, with the pinned files of \<open>internal/pinnedfs\<close>).
    \<open>Journal_Safety\<close> states the abstract journal (for each resource a list of records, four kinds of steps) and the
    simulation, \<open>Journal_Props\<close> its consequences: crash safety, one winner of a compare-and-swap, exact loads,
    success without faults, and the round trip of the text.
  \<^item> Recovery: \<open>Recovery\<close> is \<open>pkg/share/session_operation.go\<close> over a world of nine operations. \<open>Recovery_Contract\<close>
    holds the locale \<open>recovery_world\<close> (what journal, clock and exchange promise) and verifies the loop in it;
    \<open>Recovery_Host\<close> interprets the locale on \<open>Journal\<close> with other processes between the calls; \<open>Recovery_Props\<close>.
  \<^item> The native agent: \<open>Native_Open\<close> (opening, refreshing, recovering, registering), \<open>Refresh_Marker\<close> (the durable
    retry schedule of \<open>refresh_marker.go\<close>), \<open>Admitter\<close> and \<open>Admitter_Recovery\<close> (\<open>NativeAdmitter\<close>: admissions, exact
    retirement, refresh budget, the retirement worker), each with its \<open>_Props\<close>. The locale \<open>admitter_step\<close> of
    \<open>Admitter_Props\<close> says what a relation must allow to hold across every operation of the admitter;
    \<open>Admitter_Claims\<close> interprets it three times.
  \<^item> Serving: \<open>Routes\<close> and \<open>Proxy_Names\<close> (validation, rendering), \<open>Group_Session\<close> (one FRP session: route table,
    registration window, pushes, observations), \<open>Group_Runner\<close> (desired routes, generations, rotation lead), \<open>Group_Run\<close>
    (the cycles of \<open>Run\<close>: start, promotion, rotation, cleanup), \<open>Drain_Set\<close> (replaced sessions), \<open>Ready\<close> (the
    announcement of \<open>cmd/frpc/ready.go\<close>), \<open>Shared_Service\<close> (\<open>runSharedService\<close>: callbacks, the ledger of retired
    routes, re-admission under the next route), with their \<open>_Props\<close> and \<open>_Claims\<close>.
  \<^item> Configuration: \<open>Config_Text\<close>, \<open>Config_Model\<close>, \<open>Config_Load\<close> (\<open>pkg/config\<close>: text rules, the record with defaults,
    overrides and validation, decoding), with their \<open>_Props\<close>; \<open>Hub_Pin\<close> (\<open>pkg/hubpin\<close>) and \<open>Hub_Bootstrap\<close> (the Hub
    triple, refresh mode, host name and egress address \<open>run.go\<close> reads).
  \<^item> Identities: \<open>Identity_Cache\<close> (the cache document), \<open>Identity_Store\<close> (its file under the lock, with the calls
    numbered and fallible), \<open>Identity_Refine\<close> (the refinement of the abstract cache), \<open>Identity_Resolve\<close>
    (\<open>resolveConnectorIdentitiesLocked\<close>), \<open>Connector_Start\<close> (\<open>prepareConnectorRun\<close>), \<open>Connector_Remove\<close> (\<open>runRemove\<close>).
  \<^item> Audit: \<open>Audit_Log\<close> (entries, rotation policy, the logger's goroutine and channel), \<open>Audit_Log_Props\<close>.

  \<^bold>\<open>How the code is rendered.\<close> Structs are records, Go errors trees of wrapped and joined layers whose tags are the
  sentinels the code tests. A fallible function returns \<open>err + 'a\<close> (\<open>'a res\<close>) or \<open>err option\<close> with the new state. Code
  under a mutex is one function on the state; goroutines, callbacks, other processes and ticks are steps of an
  inductive relation or operations of a host record that act between the calls (\<open>readyStep\<close>, \<open>auditStep\<close>, the steps of
  the drain set, \<open>hOthers\<close> of the recovery host, \<open>aoOthers\<close> of the admitter). A system call asks a fault function for its
  outcome, by call site (\<open>envFault\<close>) or by number (\<open>cwFaults\<close>), so theorems cover every combination of failures. Counters with a
  width are words; times are integers. Lists of calls made (\<open>rvSent\<close>, \<open>rmCalls\<close>, \<open>svStarted\<close>, \<open>adRetired\<close>, \<open>alAccepted\<close>
  and the like) are history the code does not keep; no guard reads them.

  \<^bold>\<open>Loops and bounds.\<close> Structural recursion or a \<open>termination\<close> proof where the loop ends by itself: \<open>sharedLoop\<close> by the
  number of routes left, \<open>bwWrite\<close> by error state and bytes, the JSON readers by a fuel of twice the length of the text (proved
  enough for every printed text). A loop that waits for the world may never end: \<open>recoverLoop\<close> is a \<open>partial_function\<close> whose value
  None is not returning, and \<open>runLoop\<close>, \<open>refreshRounds\<close> and \<open>startReadyCycle\<close> count their rounds, every theorem holding for every
  count; \<open>replacement_attempts_end\<close> and \<open>groups_bounded\<close> bound the attempts where the code bounds them, and \<open>drain\<close> in \<open>Audit_Log_Props\<close> shows that a closed log can end.

  \<^bold>\<open>Assumptions.\<close> They are named, state documented behaviour of code outside \<open>src/\<close>, and each theorem that has one comes with a
  witness: \<open>deps_ok\<close> (CRIDs and keys the libraries accept are UTF-8), \<open>exactRequests\<close> (a request keeps the identity it
  was made from), \<open>opensApart\<close> (opening the runtime leaves the cache file alone), \<open>honestFaults\<close> and \<open>localFaults\<close> (an
  operating-system failure does not claim that a file is missing or carry a sentinel of the service), \<open>plainErrors\<close> (a
  group does not return the service's own error), \<open>oneLineFloats\<close> (a JSON number has no line break), \<open>env_ok\<close> (SHA-256
  yields 32 bytes, and so on). SHA-256, X25519, the clock, the random source, the network, FRP, qurl-go, YAML and lumberjack are
  parameters.

  \<^bold>\<open>What modelling showed.\<close> A continuity check that fails after a read whose error is revoked, tombstoned or not found is
  lost in the join of both errors (\<open>revoked_hides_continuity\<close> in \<open>Connector_Remove_Props\<close>). One failed write ends the audit
  file for the life of the process (\<open>audit_failure_is_final\<close>), and the loss of the last flush is reported nowhere
  (\<open>flush_failure_silent\<close>). After the clock stepped back a refresh attempt writes a marker it cannot read
  (\<open>attempt_readable_iff_clock_forward\<close>). A session being replaced can still register routes that were queued, against its
  comments (\<open>rotating_session_only_loses\<close>). A port in a target may be spelled \<open>+443\<close> or \<open>0443\<close>, against its comment.

  \<^bold>\<open>Not modelled.\<close> The platform code of user jobs, pinned directories, key providers (TPM, cloud KMS, local key) and
  sockets is system calls with no decision above them that the theories use beyond success or failure. The SDK state store,
  \<open>pkg/strictproof\<close> and \<open>pkg/proofprovenance\<close> serve qurl-go's store and the build's own provenance. The configuration's file transaction, discovery and
  snapshot appear as calls that succeed or fail; qurl-go's opening of the runtime comes into \<open>Connector_Start\<close> as an operation. Commands that only print (\<open>list\<close>, \<open>version\<close>), the wording
  and colours of output, and log lines are left out. The refresh marker's file calls are outside the model of its content.
\<close>

end
